(* ===== verification/Prelude.thy ===== *)
theory Prelude
  imports Main "HOL-Library.Word"
begin

text \<open>
  Shared vocabulary of the development.

  A fallible Rust function \<open>Result<T, E>\<close> is a value of \<open>('t, 'e) result\<close>, the sum with the
  error on the left; \<open>?\<close> is \<^term>\<open>rbind\<close> and \<open>collect::<Result<Vec<_>, _>>\<close> is
  \<^term>\<open>traverse\<close>, which stops at the first error. \<^term>\<open>first_dup\<close> is the loop
  \<open>if !seen.insert(x) { return Err(..) }\<close> over a hash set.
  The named collections \<open>result_simps\<close> and \<open>model_simps\<close> hold the equations the
  component theories rewrite with.
\<close>

named_theorems result_simps \<open>equations of the result combinators\<close>
named_theorems model_simps \<open>definitions that component proofs unfold together\<close>

section \<open>Results\<close>

type_synonym ('a, 'e) result = "'e + 'a"

abbreviation Ok :: "'a \<Rightarrow> ('a, 'e) result" where "Ok \<equiv> Inr"
abbreviation Err :: "'e \<Rightarrow> ('a, 'e) result" where "Err \<equiv> Inl"

fun rbind :: "('a, 'e) result \<Rightarrow> ('a \<Rightarrow> ('b, 'e) result) \<Rightarrow> ('b, 'e) result" where
  "rbind (Inl e) f = Inl e"
| "rbind (Inr x) f = f x"

declare rbind.simps [result_simps]

definition ok_or :: "'a option \<Rightarrow> 'e \<Rightarrow> ('a, 'e) result" where
  "ok_or x e = (case x of None \<Rightarrow> Inl e | Some v \<Rightarrow> Inr v)"

definition guard :: "bool \<Rightarrow> 'e \<Rightarrow> (unit, 'e) result" where
  "guard b e = (if b then Inr () else Inl e)"

definition is_ok :: "('a, 'e) result \<Rightarrow> bool" where
  "is_ok r \<longleftrightarrow> (\<exists>x. r = Inr x)"

definition map_err :: "('e \<Rightarrow> 'f) \<Rightarrow> ('a, 'e) result \<Rightarrow> ('a, 'f) result" where
  "map_err f r = (case r of Inl e \<Rightarrow> Inl (f e) | Inr x \<Rightarrow> Inr x)"

lemma rbind_Inr_iff [simp]: "rbind m f = Inr y \<longleftrightarrow> (\<exists>x. m = Inr x \<and> f x = Inr y)"
  by (cases m) auto

lemma rbind_Inl_iff: "rbind m f = Inl e \<longleftrightarrow> m = Inl e \<or> (\<exists>x. m = Inr x \<and> f x = Inl e)"
  by (cases m) auto

lemma ok_or_simps [simp, result_simps]: "ok_or None e = Inl e" "ok_or (Some v) e = Inr v"
  by (simp_all add: ok_or_def)

lemma ok_or_Inr_iff [simp]: "ok_or x e = Inr v \<longleftrightarrow> x = Some v"
  by (cases x) auto

lemma ok_or_Inl_iff [simp]: "ok_or x e = Inl e' \<longleftrightarrow> x = None \<and> e' = e"
  by (cases x) auto

lemma guard_simps [simp, result_simps]: "guard True e = Inr ()" "guard False e = Inl e"
  by (simp_all add: guard_def)

lemma guard_Inr_iff [simp]: "guard b e = Inr u \<longleftrightarrow> b"
  by (cases b) auto

lemma guard_Inl_iff [simp]: "guard b e = Inl e' \<longleftrightarrow> \<not> b \<and> e' = e"
  by (cases b) auto

lemma is_ok_simps [simp, result_simps]: "is_ok (Inr x)" "\<not> is_ok (Inl e)"
  by (auto simp: is_ok_def)

lemma is_ok_iff: "is_ok r \<longleftrightarrow> (case r of Inl _ \<Rightarrow> False | Inr _ \<Rightarrow> True)"
  by (cases r) auto

lemma is_ok_rbind [simp]: "is_ok (rbind m f) \<longleftrightarrow> (\<exists>x. m = Inr x \<and> is_ok (f x))"
  by (cases m) auto

lemma is_ok_guard [simp]: "is_ok (guard b e) \<longleftrightarrow> b"
  by (cases b) auto

lemma is_ok_ok_or [simp]: "is_ok (ok_or x e) \<longleftrightarrow> x \<noteq> None"
  by (cases x) auto

lemma map_err_simps [simp, result_simps]:
  "map_err f (Inl e) = Inl (f e)" "map_err f (Inr x) = Inr x"
  by (simp_all add: map_err_def)

lemma map_err_Inr_iff [simp]: "map_err f r = Inr x \<longleftrightarrow> r = Inr x"
  by (cases r) auto

lemma is_ok_map_err [simp]: "is_ok (map_err f r) \<longleftrightarrow> is_ok r"
  by (cases r) auto

lemma rbind_cong [fundef_cong]:
  "m = m' \<Longrightarrow> (\<And>x. m' = Inr x \<Longrightarrow> f x = f' x) \<Longrightarrow> rbind m f = rbind m' f'"
  by (cases m') auto

section \<open>Traversals\<close>

fun traverse :: "('a \<Rightarrow> ('b, 'e) result) \<Rightarrow> 'a list \<Rightarrow> ('b list, 'e) result" where
  "traverse f [] = Inr []"
| "traverse f (x # xs) = rbind (f x) (\<lambda>y. rbind (traverse f xs) (\<lambda>ys. Inr (y # ys)))"

text \<open>\<open>for x in xs { f(x)?; }\<close>: the first failing element is the result.\<close>

fun check_all :: "('a \<Rightarrow> (unit, 'e) result) \<Rightarrow> 'a list \<Rightarrow> (unit, 'e) result" where
  "check_all f [] = Inr ()"
| "check_all f (x # xs) = rbind (f x) (\<lambda>_. check_all f xs)"

lemma traverse_cong [fundef_cong]:
  "xs = ys \<Longrightarrow> (\<And>x. x \<in> set ys \<Longrightarrow> f x = g x) \<Longrightarrow> traverse f xs = traverse g ys"
  by (induction ys arbitrary: xs) auto

lemma check_all_cong [fundef_cong]:
  "xs = ys \<Longrightarrow> (\<And>x. x \<in> set ys \<Longrightarrow> f x = g x) \<Longrightarrow> check_all f xs = check_all g ys"
  by (induction ys arbitrary: xs) auto

lemma check_all_Inr_iff [simp]: "check_all f xs = Inr u \<longleftrightarrow> (\<forall>x \<in> set xs. f x = Inr ())"
  by (induction xs) auto

lemma is_ok_check_all [simp]: "is_ok (check_all f xs) \<longleftrightarrow> (\<forall>x \<in> set xs. is_ok (f x))"
  by (induction xs) (auto simp: is_ok_def)

lemma traverse_Inr_iff: "traverse f xs = Inr ys \<longleftrightarrow> list_all2 (\<lambda>x y. f x = Inr y) xs ys"
  by (induction xs arbitrary: ys) (auto simp: list_all2_Cons1)

lemma traverse_length: "traverse f xs = Inr ys \<Longrightarrow> length ys = length xs"
  by (simp add: traverse_Inr_iff list_all2_lengthD)

lemma traverse_map_Inr: "(\<And>x. x \<in> set xs \<Longrightarrow> f (g x) = Inr (h x)) \<Longrightarrow>
    traverse f (map g xs) = Inr (map h xs)"
  by (induction xs) auto

lemma traverse_Inr_set:
  "traverse f xs = Inr ys \<Longrightarrow> y \<in> set ys \<Longrightarrow> \<exists>x \<in> set xs. f x = Inr y"
  by (induction xs arbitrary: ys) auto

lemma is_ok_traverse [simp]: "is_ok (traverse f xs) \<longleftrightarrow> (\<forall>x \<in> set xs. is_ok (f x))"
  by (induction xs) (auto simp: is_ok_def)

section \<open>Lists with optional entries\<close>

fun cat_options :: "'a option list \<Rightarrow> 'a list" where
  "cat_options [] = []"
| "cat_options (None # xs) = cat_options xs"
| "cat_options (Some x # xs) = x # cat_options xs"

definition filter_map :: "('a \<Rightarrow> 'b option) \<Rightarrow> 'a list \<Rightarrow> 'b list" where
  "filter_map f xs = cat_options (map f xs)"

lemma cat_options_append [simp]: "cat_options (xs @ ys) = cat_options xs @ cat_options ys"
  by (induction xs rule: cat_options.induct) auto

lemma set_cat_options [simp]: "set (cat_options xs) = {x. Some x \<in> set xs}"
  by (induction xs rule: cat_options.induct) auto

lemma cat_options_map_Some [simp]: "cat_options (map (\<lambda>x. Some (f x)) xs) = map f xs"
  by (induction xs) auto

lemma cat_options_Cons: "cat_options (o1 # xs) = (case o1 of None \<Rightarrow> [] | Some x \<Rightarrow> [x]) @ cat_options xs"
  by (cases o1) auto

lemma filter_map_simps [simp]:
  "filter_map f [] = []"
  "filter_map f (x # xs) = (case f x of None \<Rightarrow> filter_map f xs | Some y \<Rightarrow> y # filter_map f xs)"
  by (auto simp: filter_map_def split: option.splits)

lemma filter_map_append [simp]: "filter_map f (xs @ ys) = filter_map f xs @ filter_map f ys"
  by (simp add: filter_map_def)

lemma set_filter_map [simp]: "set (filter_map f xs) = {y. \<exists>x \<in> set xs. f x = Some y}"
  by (auto simp: filter_map_def) (metis image_eqI)

lemma filter_map_Some [simp]: "filter_map (\<lambda>x. Some (f x)) xs = map f xs"
  by (induction xs) auto

lemma filter_map_map: "filter_map f (map g xs) = filter_map (\<lambda>x. f (g x)) xs"
  by (induction xs) (auto split: option.splits)

lemma filter_map_all_Some: "(\<And>x. x \<in> set xs \<Longrightarrow> f x = Some (g x)) \<Longrightarrow> filter_map f xs = map g xs"
  by (induction xs) auto

section \<open>Duplicate detection\<close>

text \<open>The first element that already occurred, as a hash-set insertion loop finds it.\<close>

fun first_dup_from :: "'a list \<Rightarrow> 'a list \<Rightarrow> 'a option" where
  "first_dup_from seen [] = None"
| "first_dup_from seen (x # xs) = (if x \<in> set seen then Some x else first_dup_from (x # seen) xs)"

definition first_dup :: "'a list \<Rightarrow> 'a option" where
  "first_dup xs = first_dup_from [] xs"

lemma first_dup_from_None_iff:
  "first_dup_from seen xs = None \<longleftrightarrow> distinct xs \<and> set xs \<inter> set seen = {}"
  by (induction seen xs rule: first_dup_from.induct) auto

lemma first_dup_None_iff [simp]: "first_dup xs = None \<longleftrightarrow> distinct xs"
  by (simp add: first_dup_def first_dup_from_None_iff)

text \<open>Keep the first occurrence of every element (\<open>seen.insert(x)\<close> as a filter).\<close>

fun dedup_from :: "'a list \<Rightarrow> 'a list \<Rightarrow> 'a list" where
  "dedup_from seen [] = []"
| "dedup_from seen (x # xs) = (if x \<in> set seen then dedup_from seen xs else x # dedup_from (x # seen) xs)"

definition dedup :: "'a list \<Rightarrow> 'a list" where
  "dedup xs = dedup_from [] xs"

lemma set_dedup_from: "set (dedup_from seen xs) = set xs - set seen"
  by (induction seen xs rule: dedup_from.induct) auto

lemma set_dedup [simp]: "set (dedup xs) = set xs"
  by (simp add: dedup_def set_dedup_from)

lemma distinct_dedup_from: "distinct (dedup_from seen xs)"
  by (induction seen xs rule: dedup_from.induct) (auto simp: set_dedup_from)

lemma distinct_dedup [simp]: "distinct (dedup xs)"
  by (simp add: dedup_def distinct_dedup_from)

lemma dedup_from_id: "distinct xs \<Longrightarrow> set xs \<inter> set seen = {} \<Longrightarrow> dedup_from seen xs = xs"
  by (induction seen xs rule: dedup_from.induct) auto

lemma dedup_distinct: "distinct xs \<Longrightarrow> dedup xs = xs"
  by (simp add: dedup_def dedup_from_id)

section \<open>Options\<close>

definition or_else :: "'a option \<Rightarrow> 'a option \<Rightarrow> 'a option" where
  "or_else x y = (case x of None \<Rightarrow> y | Some v \<Rightarrow> Some v)"

definition unwrap_or :: "'a option \<Rightarrow> 'a \<Rightarrow> 'a" where
  "unwrap_or x d = (case x of None \<Rightarrow> d | Some v \<Rightarrow> v)"

definition opt_filter :: "('a \<Rightarrow> bool) \<Rightarrow> 'a option \<Rightarrow> 'a option" where
  "opt_filter p x = (case x of None \<Rightarrow> None | Some v \<Rightarrow> if p v then Some v else None)"

definition is_some_and :: "'a option \<Rightarrow> ('a \<Rightarrow> bool) \<Rightarrow> bool" where
  "is_some_and x p = (case x of None \<Rightarrow> False | Some v \<Rightarrow> p v)"

lemma option_helper_simps [simp]:
  "or_else None y = y" "or_else (Some v) y = Some v"
  "unwrap_or None d = d" "unwrap_or (Some v) d = v"
  "opt_filter p None = None" "opt_filter p (Some v) = (if p v then Some v else None)"
  "is_some_and None p = False" "is_some_and (Some v) p = p v"
  by (simp_all add: or_else_def unwrap_or_def opt_filter_def is_some_and_def)

lemma opt_filter_Some_iff [simp]: "opt_filter p x = Some v \<longleftrightarrow> x = Some v \<and> p v"
  by (cases x) auto

lemma is_some_and_iff: "is_some_and x p \<longleftrightarrow> (\<exists>v. x = Some v \<and> p v)"
  by (cases x) auto

section \<open>Machine integers\<close>

type_synonym u8 = "8 word"
type_synonym u16 = "16 word"
type_synonym u64 = "64 word"

lemma unat_u16_less [simp]: "unat (x :: u16) < 65536"
proof -
  have "unat x < 2 ^ LENGTH(16)" by (rule unsigned_less)
  then show ?thesis by simp
qed

lemma u16_of_nat_unat [simp]: "(of_nat (unat (x :: u16)) :: u16) = x"
  by simp

lemma unat_u16_of_nat: "n < 65536 \<Longrightarrow> unat (of_nat n :: u16) = n"
  by (simp add: unsigned_of_nat take_bit_nat_eq_self)

end
