(* ===== verification/Rust_Str.thy ===== *)
theory Rust_Str
  imports Prelude "HOL-Library.Char_ord" "HOL-Library.List_Lexorder" "HOL-Library.Sublist"
begin

text \<open>
  The string operations of the Rust standard library the code uses.

  A Rust \<open>&str\<close>/\<open>String\<close> is its UTF-8 byte sequence, a HOL \<open>string\<close> (a list of bytes).
  ASCII case mapping, splitting at an ASCII character, prefixes and decimal numbers are exact on
  bytes; \<^term>\<open>trim\<close> removes the UTF-8 encodings of the characters with the Unicode
  \<open>White_Space\<close> property, as \<open>str::trim\<close> does; the byte order of two strings is the order
  Rust gives them.
\<close>

section \<open>ASCII case\<close>

definition is_ascii_upper :: "char \<Rightarrow> bool" where
  "is_ascii_upper c \<longleftrightarrow> 65 \<le> (of_char c :: nat) \<and> (of_char c :: nat) \<le> 90"

definition is_ascii_lower :: "char \<Rightarrow> bool" where
  "is_ascii_lower c \<longleftrightarrow> 97 \<le> (of_char c :: nat) \<and> (of_char c :: nat) \<le> 122"

text \<open>The two cases of a letter differ in bit 5 only.\<close>

fun set_case_bit :: "bool \<Rightarrow> char \<Rightarrow> char" where
  "set_case_bit b (Char b0 b1 b2 b3 b4 b5 b6 b7) = Char b0 b1 b2 b3 b4 b b6 b7"

definition ascii_lower_char :: "char \<Rightarrow> char" where
  "ascii_lower_char c = (if is_ascii_upper c then set_case_bit True c else c)"

definition ascii_upper_char :: "char \<Rightarrow> char" where
  "ascii_upper_char c = (if is_ascii_lower c then set_case_bit False c else c)"

definition to_ascii_lowercase :: "string \<Rightarrow> string" where
  "to_ascii_lowercase s = map ascii_lower_char s"

definition to_ascii_uppercase :: "string \<Rightarrow> string" where
  "to_ascii_uppercase s = map ascii_upper_char s"

definition eq_ignore_ascii_case :: "string \<Rightarrow> string \<Rightarrow> bool" where
  "eq_ignore_ascii_case a b \<longleftrightarrow> to_ascii_lowercase a = to_ascii_lowercase b"

lemma of_char_set_case_bit:
  "is_ascii_upper c \<Longrightarrow> (of_char (set_case_bit True c) :: nat) = of_char c + 32"
  by (cases c) (auto simp: is_ascii_upper_def of_char_def of_bool_def split: if_splits)

lemma ascii_lower_char_not_upper: "\<not> is_ascii_upper (ascii_lower_char c)"
  using of_char_set_case_bit [of c] by (auto simp: ascii_lower_char_def is_ascii_upper_def)

lemma ascii_lower_char_idem [simp]: "ascii_lower_char (ascii_lower_char c) = ascii_lower_char c"
  using ascii_lower_char_not_upper [of c] by (simp add: ascii_lower_char_def)

lemma to_ascii_lowercase_idem [simp]: "to_ascii_lowercase (to_ascii_lowercase s) = to_ascii_lowercase s"
  by (simp add: to_ascii_lowercase_def)

lemma eq_ignore_ascii_case_refl [simp]: "eq_ignore_ascii_case s s"
  by (simp add: eq_ignore_ascii_case_def)

lemma to_ascii_lowercase_Nil [simp]: "to_ascii_lowercase s = [] \<longleftrightarrow> s = []"
  by (simp add: to_ascii_lowercase_def)

lemmas ascii_case_eval =
  to_ascii_lowercase_def to_ascii_uppercase_def eq_ignore_ascii_case_def
  ascii_lower_char_def ascii_upper_char_def is_ascii_upper_def is_ascii_lower_def

section \<open>Whitespace\<close>

definition ascii_ws :: "char list" where
  "ascii_ws = [CHR '' '', CHR 0x09, CHR 0x0A, CHR 0x0B, CHR 0x0C, CHR 0x0D]"

text \<open>The multi-byte white-space characters: U+0085, U+00A0, U+1680, U+2000..U+200A, U+2028,
  U+2029, U+202F, U+205F, U+3000.\<close>

definition unicode_ws :: "string list" where
  "unicode_ws =
    [[CHR 0xC2, CHR 0x85], [CHR 0xC2, CHR 0xA0], [CHR 0xE1, CHR 0x9A, CHR 0x80],
     [CHR 0xE2, CHR 0x80, CHR 0x80], [CHR 0xE2, CHR 0x80, CHR 0x81], [CHR 0xE2, CHR 0x80, CHR 0x82],
     [CHR 0xE2, CHR 0x80, CHR 0x83], [CHR 0xE2, CHR 0x80, CHR 0x84], [CHR 0xE2, CHR 0x80, CHR 0x85],
     [CHR 0xE2, CHR 0x80, CHR 0x86], [CHR 0xE2, CHR 0x80, CHR 0x87], [CHR 0xE2, CHR 0x80, CHR 0x88],
     [CHR 0xE2, CHR 0x80, CHR 0x89], [CHR 0xE2, CHR 0x80, CHR 0x8A], [CHR 0xE2, CHR 0x80, CHR 0xA8],
     [CHR 0xE2, CHR 0x80, CHR 0xA9], [CHR 0xE2, CHR 0x80, CHR 0xAF], [CHR 0xE2, CHR 0x81, CHR 0x9F],
     [CHR 0xE3, CHR 0x80, CHR 0x80]]"

definition ws_patterns :: "string list" where
  "ws_patterns = map (\<lambda>c. [c]) ascii_ws @ unicode_ws"

fun strip_prefix :: "string \<Rightarrow> string \<Rightarrow> string option" where
  "strip_prefix [] s = Some s"
| "strip_prefix (p # ps) [] = None"
| "strip_prefix (p # ps) (c # cs) = (if p = c then strip_prefix ps cs else None)"

lemma strip_prefix_Some_iff [simp]: "strip_prefix p s = Some r \<longleftrightarrow> s = p @ r"
  by (induction p s rule: strip_prefix.induct) auto

fun strip_any :: "string list \<Rightarrow> string \<Rightarrow> string option" where
  "strip_any [] s = None"
| "strip_any (p # ps) s = (case strip_prefix p s of Some r \<Rightarrow> Some r | None \<Rightarrow> strip_any ps s)"

lemma strip_any_shorter:
  "strip_any ps s = Some r \<Longrightarrow> [] \<notin> set ps \<Longrightarrow> length r < length s"
  by (induction ps) (auto split: option.splits)

text \<open>Remove leading occurrences of the non-empty patterns; on the reversed string with reversed
  patterns this is the trailing side.\<close>

function trim_with :: "string list \<Rightarrow> string \<Rightarrow> string" where
  "trim_with ps s =
     (if [] \<in> set ps then s
      else case strip_any ps s of None \<Rightarrow> s | Some r \<Rightarrow> trim_with ps r)"
  by pat_completeness auto
termination
  by (relation "measure (\<lambda>(ps, s). length s)") (auto dest: strip_any_shorter)

declare trim_with.simps [simp del]

definition trim_start :: "string \<Rightarrow> string" where
  "trim_start s = trim_with ws_patterns s"

definition trim_end :: "string \<Rightarrow> string" where
  "trim_end s = rev (trim_with (map rev ws_patterns) (rev s))"

definition trim :: "string \<Rightarrow> string" where
  "trim s = trim_end (trim_start s)"

text \<open>\<open>trim_end_matches([..])\<close> with a set of ASCII characters.\<close>

definition trim_end_chars :: "char list \<Rightarrow> string \<Rightarrow> string" where
  "trim_end_chars cs s = rev (dropWhile (\<lambda>c. c \<in> set cs) (rev s))"

text \<open>\<open>trim_matches([..])\<close>.\<close>

definition trim_chars :: "char list \<Rightarrow> string \<Rightarrow> string" where
  "trim_chars cs s = trim_end_chars cs (dropWhile (\<lambda>c. c \<in> set cs) s)"

lemma trim_with_Nil [simp]: "trim_with ps [] = []"
proof (cases "[] \<in> set ps")
  case False
  then have "strip_any ps [] = None"
    using strip_any_shorter [of ps "[]"] by (cases "strip_any ps []") auto
  with False show ?thesis by (simp add: trim_with.simps)
qed (simp add: trim_with.simps)

lemma trim_Nil [simp]: "trim [] = []"
  by (simp add: trim_def trim_start_def trim_end_def)

lemma strip_any_trim_with: "[] \<notin> set ps \<Longrightarrow> strip_any ps (trim_with ps s) = None"
  by (induction ps s rule: trim_with.induct)
     (subst trim_with.simps, auto split: option.splits)

section \<open>Splitting and joining\<close>

fun split_on :: "char \<Rightarrow> string \<Rightarrow> string list" where
  "split_on c [] = [[]]"
| "split_on c (x # xs) =
     (if x = c then [] # split_on c xs
      else case split_on c xs of [] \<Rightarrow> [[x]] | w # ws \<Rightarrow> (x # w) # ws)"

fun join :: "string \<Rightarrow> string list \<Rightarrow> string" where
  "join sep [] = []"
| "join sep [w] = w"
| "join sep (w # ws) = w @ sep @ join sep ws"

text \<open>\<open>split([..])\<close> with several separator characters.\<close>

fun split_any :: "char list \<Rightarrow> string \<Rightarrow> string list" where
  "split_any cs [] = [[]]"
| "split_any cs (x # xs) =
     (if x \<in> set cs then [] # split_any cs xs
      else case split_any cs xs of [] \<Rightarrow> [[x]] | w # ws \<Rightarrow> (x # w) # ws)"

fun split_once :: "char \<Rightarrow> string \<Rightarrow> (string \<times> string) option" where
  "split_once c [] = None"
| "split_once c (x # xs) =
     (if x = c then Some ([], xs)
      else case split_once c xs of None \<Rightarrow> None | Some (a, b) \<Rightarrow> Some (x # a, b))"

definition rsplit_once :: "char \<Rightarrow> string \<Rightarrow> (string \<times> string) option" where
  "rsplit_once c s = (case split_once c (rev s) of None \<Rightarrow> None | Some (a, b) \<Rightarrow> Some (rev b, rev a))"

text \<open>\<open>split_once(\"://\")\<close> and \<open>contains(\"..\")\<close>: the first occurrence of a string.\<close>

fun split_once_str :: "string \<Rightarrow> string \<Rightarrow> (string \<times> string) option" where
  "split_once_str p [] = (if p = [] then Some ([], []) else None)"
| "split_once_str p (x # xs) =
     (case strip_prefix p (x # xs) of
        Some r \<Rightarrow> Some ([], r)
      | None \<Rightarrow> (case split_once_str p xs of None \<Rightarrow> None | Some (a, b) \<Rightarrow> Some (x # a, b)))"

definition str_contains :: "string \<Rightarrow> string \<Rightarrow> bool" where
  "str_contains s p \<longleftrightarrow> split_once_str p s \<noteq> None"

definition starts_with :: "string \<Rightarrow> string \<Rightarrow> bool" where
  "starts_with s p \<longleftrightarrow> strip_prefix p s \<noteq> None"

definition ends_with :: "string \<Rightarrow> string \<Rightarrow> bool" where
  "ends_with s p \<longleftrightarrow> strip_prefix (rev p) (rev s) \<noteq> None"

definition strip_suffix :: "string \<Rightarrow> string \<Rightarrow> string option" where
  "strip_suffix p s = map_option rev (strip_prefix (rev p) (rev s))"

lemma split_on_not_Nil [simp]: "split_on c s \<noteq> []"
  by (induction s) (auto split: list.splits)

lemma split_any_not_Nil [simp]: "split_any cs s \<noteq> []"
  by (induction s) (auto split: list.splits)

lemma join_Cons: "ws \<noteq> [] \<Longrightarrow> join sep (w # ws) = w @ sep @ join sep ws"
  by (cases ws) auto

lemma join_split_on: "join [c] (split_on c s) = s"
proof (induction s)
  case (Cons x xs)
  show ?case
  proof (cases "split_on c xs")
    case (Cons w ws)
    with Cons.IH show ?thesis by (cases ws) auto
  qed simp
qed simp

lemma split_on_no_sep: "c \<notin> set s \<Longrightarrow> split_on c s = [s]"
  by (induction s) auto

lemma split_on_append: "c \<notin> set a \<Longrightarrow> split_on c (a @ c # b) = a # split_on c b"
  by (induction a) auto

lemma set_split_on: "w \<in> set (split_on c s) \<Longrightarrow> c \<notin> set w"
proof (induction s arbitrary: w)
  case (Cons x xs)
  then show ?case
    by (cases "split_on c xs") (auto split: if_splits)
qed simp

lemma split_on_join:
  "ws \<noteq> [] \<Longrightarrow> (\<And>w. w \<in> set ws \<Longrightarrow> c \<notin> set w) \<Longrightarrow> split_on c (join [c] ws) = ws"
proof (induction ws)
  case (Cons w ws)
  show ?case
  proof (cases ws)
    case Nil
    with Cons.prems show ?thesis by (simp add: split_on_no_sep)
  next
    case (Cons v vs)
    with Cons.IH Cons.prems show ?thesis by (simp add: split_on_append)
  qed
qed simp

lemma split_once_Some: "split_once c s = Some (a, b) \<Longrightarrow> s = a @ c # b \<and> c \<notin> set a"
  by (induction s arbitrary: a b) (auto split: if_splits option.splits)

lemma split_once_append: "c \<notin> set a \<Longrightarrow> split_once c (a @ c # b) = Some (a, b)"
  by (induction a) auto

lemma rsplit_once_append: "c \<notin> set b \<Longrightarrow> rsplit_once c (a @ c # b) = Some (a, b)"
  using split_once_append [of c "rev b" "rev a"] by (simp add: rsplit_once_def)

lemma split_once_None_iff: "split_once c s = None \<longleftrightarrow> c \<notin> set s"
  by (induction s) (auto split: option.splits)

lemma starts_with_iff: "starts_with s p \<longleftrightarrow> prefix p s"
proof -
  have "starts_with s p \<longleftrightarrow> (\<exists>r. strip_prefix p s = Some r)" by (simp add: starts_with_def)
  then show ?thesis by (simp add: prefix_def)
qed

section \<open>Decimal numbers\<close>

definition digit_char :: "nat \<Rightarrow> char" where
  "digit_char d = ''0123456789'' ! d"

definition digit_val :: "char \<Rightarrow> nat option" where
  "digit_val c = (let n = of_char c in if 48 \<le> n \<and> n \<le> (57::nat) then Some (n - 48) else None)"

text \<open>\<open>to_string\<close> of an unsigned integer.\<close>

fun show_nat :: "nat \<Rightarrow> string" where
  "show_nat n = (if n < 10 then [digit_char n] else show_nat (n div 10) @ [digit_char (n mod 10)])"

declare show_nat.simps [simp del]

fun digits_val :: "nat \<Rightarrow> string \<Rightarrow> nat option" where
  "digits_val acc [] = Some acc"
| "digits_val acc (c # cs) =
     (case digit_val c of None \<Rightarrow> None | Some d \<Rightarrow> digits_val (10 * acc + d) cs)"

text \<open>\<open>str::parse\<close> for an unsigned integer type with the given exclusive bound: an optional
  leading \<open>+\<close>, then one or more digits, and no overflow.\<close>

definition parse_unsigned :: "nat \<Rightarrow> string \<Rightarrow> nat option" where
  "parse_unsigned bound s =
     (let ds = (case s of [] \<Rightarrow> [] | c # cs \<Rightarrow> if c = CHR ''+'' then cs else s)
      in if ds = [] then None else opt_filter (\<lambda>n. n < bound) (digits_val 0 ds))"

definition parse_u8 :: "string \<Rightarrow> nat option" where "parse_u8 s = parse_unsigned 256 s"

definition parse_u16 :: "string \<Rightarrow> u16 option" where
  "parse_u16 s = map_option of_nat (parse_unsigned 65536 s)"

definition parse_u32 :: "string \<Rightarrow> nat option" where "parse_u32 s = parse_unsigned (2 ^ 32) s"

definition show_u16 :: "u16 \<Rightarrow> string" where "show_u16 p = show_nat (unat p)"

lemma of_char_digit_char: "d < 10 \<Longrightarrow> of_char (digit_char d) = 48 + d"
proof -
  assume "d < 10"
  then have "d \<in> {0, 1, 2, 3, 4, 5, 6, 7, 8, 9}" by auto
  then show ?thesis by (auto simp: digit_char_def)
qed

lemma digit_val_digit_char [simp]: "d < 10 \<Longrightarrow> digit_val (digit_char d) = Some d"
  by (simp add: digit_val_def of_char_digit_char)

lemma digits_val_append:
  "digits_val acc (xs @ ys) = (case digits_val acc xs of None \<Rightarrow> None | Some a \<Rightarrow> digits_val a ys)"
  by (induction xs arbitrary: acc) (auto split: option.splits)

lemma digits_val_show_nat: "digits_val 0 (show_nat n) = Some n"
proof (induction n rule: show_nat.induct)
  case (1 n)
  show ?case
  proof (cases "n < 10")
    case True
    then show ?thesis by (simp add: show_nat.simps [of n])
  next
    case False
    with "1.IH" have "digits_val 0 (show_nat (n div 10)) = Some (n div 10)" by simp
    with False show ?thesis by (subst show_nat.simps) (simp add: digits_val_append)
  qed
qed

lemma set_show_nat: "c \<in> set (show_nat n) \<Longrightarrow> \<exists>d < 10. c = digit_char d"
proof (induction n rule: show_nat.induct)
  case (1 n)
  have last: "\<exists>d < 10. digit_char (n mod 10) = digit_char d" by (rule exI [of _ "n mod 10"]) simp
  show ?case
  proof (cases "n < 10")
    case True
    with "1.prems" show ?thesis by (auto simp: show_nat.simps [of n])
  next
    case False
    with "1.prems" have "c \<in> set (show_nat (n div 10)) \<or> c = digit_char (n mod 10)"
      by (auto simp: show_nat.simps [of n])
    with "1.IH" [OF False] last show ?thesis by blast
  qed
qed

lemma show_nat_not_Nil [simp]: "show_nat n \<noteq> []"
  by (subst show_nat.simps) simp

lemma digit_char_neq: "d < 10 \<Longrightarrow> (of_char c :: nat) < 48 \<Longrightarrow> digit_char d \<noteq> c"
  using of_char_digit_char [of d] by auto

lemma show_nat_no_char: "(of_char c :: nat) < 48 \<Longrightarrow> c \<notin> set (show_nat n)"
  using set_show_nat [of c n] digit_char_neq by blast

lemma parse_unsigned_show_nat: "n < b \<Longrightarrow> parse_unsigned b (show_nat n) = Some n"
proof -
  assume "n < b"
  obtain c cs where s: "show_nat n = c # cs" by (cases "show_nat n") auto
  have "c \<noteq> CHR ''+''" using show_nat_no_char [of "CHR ''+''" n] by (auto simp: s)
  with \<open>n < b\<close> show ?thesis
    using digits_val_show_nat [of n] by (simp add: parse_unsigned_def s)
qed

lemma parse_show_u16 [simp]: "parse_u16 (show_u16 p) = Some p"
  by (simp add: parse_u16_def show_u16_def parse_unsigned_show_nat)

section \<open>Facts about trimming\<close>

lemma strip_prefix_None_iff: "strip_prefix p s = None \<longleftrightarrow> \<not> prefix p s"
  by (cases "strip_prefix p s") (simp_all add: prefix_def flip: strip_prefix_Some_iff)

lemma strip_any_None_iff: "strip_any ps s = None \<longleftrightarrow> (\<forall>p \<in> set ps. \<not> prefix p s)"
proof (induction ps)
  case (Cons p ps)
  then show ?case by (cases "prefix p s") (auto simp: strip_prefix_None_iff option.case_eq_if)
qed simp

lemma trim_with_id: "strip_any ps s = None \<Longrightarrow> trim_with ps s = s"
  by (simp add: trim_with.simps)

lemma strip_any_suffix: "strip_any ps s = Some r \<Longrightarrow> suffix r s"
  by (induction ps) (auto split: option.splits simp: suffix_def)

lemma suffix_trim_with: "suffix (trim_with ps s) s"
proof (induction ps s rule: trim_with.induct)
  case (1 ps s)
  then show ?case
    using suffix_order.trans [OF _ strip_any_suffix]
    by (subst trim_with.simps) (auto split: option.splits)
qed

lemma ws_patterns_nonempty: "[] \<notin> set ws_patterns" "[] \<notin> set (map rev ws_patterns)"
  by (auto simp: ws_patterns_def unicode_ws_def)

lemma trim_start_no_prefix: "p \<in> set ws_patterns \<Longrightarrow> \<not> prefix p (trim_start s)"
  using strip_any_trim_with [OF ws_patterns_nonempty(1), of s]
  by (auto simp: trim_start_def strip_any_None_iff)

lemma prefix_trim_end: "prefix (trim_end s) s"
  unfolding trim_end_def using suffix_trim_with [of "map rev ws_patterns" "rev s"]
  by (simp add: suffix_to_prefix)

lemma trim_end_no_suffix: "p \<in> set ws_patterns \<Longrightarrow> \<not> suffix p (trim_end s)"
  using strip_any_trim_with [OF ws_patterns_nonempty(2), of "rev s"]
  by (auto simp: trim_end_def strip_any_None_iff suffix_to_prefix)

lemma trim_id:
  "(\<And>p. p \<in> set ws_patterns \<Longrightarrow> \<not> prefix p s \<and> \<not> suffix p s) \<Longrightarrow> trim s = s"
  by (simp add: trim_def trim_start_def trim_end_def trim_with_id strip_any_None_iff suffix_to_prefix)

lemma trim_idem [simp]: "trim (trim s) = trim s"
proof (rule trim_id)
  fix p assume p: "p \<in> set ws_patterns"
  have "\<not> prefix p (trim s)"
    using trim_start_no_prefix [OF p, of s] prefix_trim_end [of "trim_start s"]
    by (auto simp: trim_def dest: prefix_order.trans)
  then show "\<not> prefix p (trim s) \<and> \<not> suffix p (trim s)"
    using trim_end_no_suffix [OF p] by (simp add: trim_def)
qed

lemma set_trim: "set (trim s) \<subseteq> set s"
proof -
  have "set (trim s) \<subseteq> set (trim_start s)"
    unfolding trim_def using set_mono_prefix [OF prefix_trim_end] .
  also have "\<dots> \<subseteq> set s"
    unfolding trim_start_def using set_mono_suffix [OF suffix_trim_with] .
  finally show ?thesis .
qed

lemma trim_no_char: "c \<notin> set s \<Longrightarrow> c \<notin> set (trim s)"
  using set_trim by blast

lemma ws_patterns_ends:
  "p \<in> set ws_patterns \<Longrightarrow>
     p \<noteq> [] \<and> hd p \<in> set (ascii_ws @ [CHR 0xC2, CHR 0xE1, CHR 0xE2, CHR 0xE3]) \<and>
     last p \<in> set (ascii_ws @ map last unicode_ws)"
  by (auto simp: ws_patterns_def unicode_ws_def)

lemma trim_id_ends:
  assumes "s \<noteq> []"
    and "hd s \<notin> set (ascii_ws @ [CHR 0xC2, CHR 0xE1, CHR 0xE2, CHR 0xE3])"
    and "last s \<notin> set (ascii_ws @ map last unicode_ws)"
  shows "trim s = s"
proof (rule trim_id)
  fix p assume p: "p \<in> set ws_patterns"
  have "\<not> prefix p s"
  proof
    assume "prefix p s"
    then obtain r where "s = p @ r" by (auto simp: prefix_def)
    then show False using ws_patterns_ends [OF p] assms(2) by simp
  qed
  moreover have "\<not> suffix p s"
  proof
    assume "suffix p s"
    then obtain r where "s = r @ p" by (auto simp: suffix_def)
    then show False using ws_patterns_ends [OF p] assms(3) by simp
  qed
  ultimately show "\<not> prefix p s \<and> \<not> suffix p s" ..
qed

lemma digit_char_not_ws:
  "d < 10 \<Longrightarrow> digit_char d \<notin> set (ascii_ws @ [CHR 0xC2, CHR 0xE1, CHR 0xE2, CHR 0xE3])"
  "d < 10 \<Longrightarrow> digit_char d \<notin> set (ascii_ws @ map last unicode_ws)"
  using of_char_digit_char [of d] by (auto simp: ascii_ws_def unicode_ws_def)

lemma trim_show_nat [simp]: "trim (show_nat n) = show_nat n"
proof -
  have "hd (show_nat n) \<in> set (show_nat n)" "last (show_nat n) \<in> set (show_nat n)" by simp_all
  then obtain d e where "hd (show_nat n) = digit_char d" "d < 10" "last (show_nat n) = digit_char e" "e < 10"
    by (meson set_show_nat)
  then show ?thesis using digit_char_not_ws(1) [of d] digit_char_not_ws(2) [of e]
    by (intro trim_id_ends) simp_all
qed

lemma show_nat_neq_letter:
  "c \<in> set s \<Longrightarrow> \<not> (48 \<le> (of_char c :: nat) \<and> (of_char c :: nat) \<le> 57) \<Longrightarrow> show_nat n \<noteq> s"
  using set_show_nat [of c n] of_char_digit_char by force

end
