(* ===== verification/Capabilities.thy ===== *)
theory Capabilities
  imports Rust_Str
begin

text \<open>
  \<open>src-tui/src/singbox/capabilities.rs\<close>: the reviewed feature matrix of the pinned sing-box
  version and the UDP relay mode of every clash proxy type. An unknown version has no matrix, and
  an unreviewed type is never assumed to relay UDP.
\<close>

record capability_matrix =
  cm_version :: string
  route_rule_sets_nested :: bool
  route_rule_references :: bool
  client_fingerprint :: bool
  tls_reality :: bool
  structured_dns :: bool
  tun_gvisor :: bool
  native_json_preserved :: bool

definition sing_box_1_14_2 :: capability_matrix where
  "sing_box_1_14_2 =
     \<lparr>cm_version = ''1.14.2'',
      route_rule_sets_nested = True,
      route_rule_references = True,
      client_fingerprint = True,
      tls_reality = True,
      structured_dns = True,
      tun_gvisor = True,
      native_json_preserved = True\<rparr>"

datatype udp_relay_mode = NetworkToggle | UdpOverTcp | NoRelay | Unverified

definition udp_relay :: "string \<Rightarrow> udp_relay_mode" where
  "udp_relay clash_type =
     (if clash_type \<in> {''ss'', ''vmess'', ''vless'', ''trojan'', ''hysteria'', ''hysteria2'', ''tuic'', ''socks5''}
      then NetworkToggle
      else if clash_type = ''anytls'' then UdpOverTcp
      else if clash_type = ''http'' then NoRelay
      else if clash_type = ''naive'' then Unverified
      else Unverified)"

definition for_version :: "string \<Rightarrow> capability_matrix option" where
  "for_version version =
     (let v = (case strip_prefix ''v'' version of Some r \<Rightarrow> r | None \<Rightarrow> version)
      in if v = ''1.14.2'' then Some sing_box_1_14_2 else None)"

datatype capability_error = NoReviewedMatrix string

definition require_for_version :: "string \<Rightarrow> (capability_matrix, capability_error) result" where
  "require_for_version version = ok_or (for_version version) (NoReviewedMatrix version)"

lemma for_version_Some:
  "for_version version = Some m \<longleftrightarrow> version \<in> {''1.14.2'', ''v1.14.2''} \<and> m = sing_box_1_14_2"
proof (cases version)
  case (Cons c cs)
  then show ?thesis by (cases "c = CHR ''v''") (auto simp: for_version_def Let_def)
qed (simp add: for_version_def)

lemma require_for_version_pinned [simp]:
  "require_for_version (cm_version sing_box_1_14_2) = Inr sing_box_1_14_2"
  by (simp add: require_for_version_def for_version_def sing_box_1_14_2_def)

lemma sing_box_1_14_2_simps [simp]:
  "route_rule_sets_nested sing_box_1_14_2" "route_rule_references sing_box_1_14_2"
  "client_fingerprint sing_box_1_14_2" "tls_reality sing_box_1_14_2"
  "structured_dns sing_box_1_14_2" "tun_gvisor sing_box_1_14_2"
  "native_json_preserved sing_box_1_14_2"
  by (simp_all add: sing_box_1_14_2_def)

end
