(* ===== verification/Json.thy ===== *)
theory Json
  imports Rust_Str
begin

text \<open>
  The document types of the two serialisation libraries: \<open>serde_json::Value\<close> (objects are
  \<open>BTreeMap\<close>s: association lists kept in key order) and \<open>serde_yaml_ng::Value\<close> (mappings
  keep insertion order, keys may be any value, values may carry a tag the accessors look
  through). Parsing and printing text belongs to those libraries and is a parameter of the
  definitions that use it. The interfaces \<open>keyed_store\<close> and \<open>removable_store\<close> state what
  the code relies on of both map types; they are interpreted on the two models.
\<close>

section \<open>Numbers\<close>

text \<open>An \<open>f64\<close> is its IEEE 754 bit pattern.\<close>

type_synonym f64 = "64 word"

datatype number = PosInt nat | NegInt int | Float f64

fun ilog2 :: "nat \<Rightarrow> nat" where
  "ilog2 n = (if n < 2 then 0 else Suc (ilog2 (n div 2)))"

declare ilog2.simps [simp del]

text \<open>Division by a power of two, rounding to nearest with ties to even.\<close>

definition round_shift :: "nat \<Rightarrow> nat \<Rightarrow> nat" where
  "round_shift n sh =
     (let q = n div 2 ^ sh; r = n mod 2 ^ sh; half = 2 ^ (sh - 1)
      in if 0 < sh \<and> (half < r \<or> (r = half \<and> odd q)) then q + 1 else q)"

text \<open>\<open>n as f64\<close> for an unsigned integer: exact below \<open>2 ^ 53\<close>, rounded above. A mantissa that
  rounds up to \<open>2 ^ 53\<close> carries into the exponent by the addition.\<close>

definition f64_of_nat :: "nat \<Rightarrow> f64" where
  "f64_of_nat n =
     (if n = 0 then 0
      else let e = ilog2 n;
               m = (if e \<le> 52 then n * 2 ^ (52 - e) else round_shift n (e - 52))
           in of_nat ((1023 + e) * 2 ^ 52 + (m - 2 ^ 52)))"

definition f64_of_int :: "int \<Rightarrow> f64" where
  "f64_of_int i = (if i < 0 then of_nat (2 ^ 63) + f64_of_nat (nat (- i)) else f64_of_nat (nat i))"

definition f64_is_finite :: "f64 \<Rightarrow> bool" where
  "f64_is_finite b \<longleftrightarrow> (unat b div 2 ^ 52) mod 2048 \<noteq> 2047"

fun number_as_f64 :: "number \<Rightarrow> f64" where
  "number_as_f64 (PosInt n) = f64_of_nat n"
| "number_as_f64 (NegInt i) = f64_of_int i"
| "number_as_f64 (Float b) = b"

section \<open>Stores with string keys\<close>

locale keyed_store =
  fixes get :: "'m \<Rightarrow> string \<Rightarrow> 'v option"
    and put :: "string \<Rightarrow> 'v \<Rightarrow> 'm \<Rightarrow> 'm"
  assumes get_put: "get (put k v m) k' = (if k' = k then Some v else get m k')"
begin

lemma get_put_same: "get (put k v m) k = Some v"
  by (simp add: get_put)

lemma get_put_other: "k' \<noteq> k \<Longrightarrow> get (put k v m) k' = get m k'"
  by (simp add: get_put)

lemma get_fold_put:
  "get (fold (\<lambda>(k, v). put k v) kvs m) k =
     (case map_of (rev kvs) k of None \<Rightarrow> get m k | Some v \<Rightarrow> Some v)"
proof (induction kvs arbitrary: m)
  case (Cons kv kvs)
  obtain k1 v1 where kv: "kv = (k1, v1)" by fastforce
  show ?case
    by (simp add: kv Cons.IH get_put map_add_def split: option.splits)
qed simp

text \<open>Assignments that only happen when there is a value: \<open>if let Some(v) = .. { m[k] = v }\<close>.\<close>

lemma get_fold_put_opt:
  "k \<notin> fst ` set kvs \<Longrightarrow>
     get (fold (\<lambda>(k', o') m. case o' of None \<Rightarrow> m | Some v \<Rightarrow> put k' v m) kvs m) k = get m k"
  by (induction kvs arbitrary: m) (auto simp: get_put split: option.splits)

end

locale removable_store = keyed_store get put
  for get :: "'m \<Rightarrow> string \<Rightarrow> 'v option" and put :: "string \<Rightarrow> 'v \<Rightarrow> 'm \<Rightarrow> 'm" +
  fixes remove :: "string \<Rightarrow> 'm \<Rightarrow> 'm"
    and invar :: "'m \<Rightarrow> bool"
  assumes get_remove: "invar m \<Longrightarrow> get (remove k m) k' = (if k' = k then None else get m k')"
    and invar_put: "invar m \<Longrightarrow> invar (put k v m)"
    and invar_remove: "invar m \<Longrightarrow> invar (remove k m)"
begin

lemma get_fold_remove:
  "invar m \<Longrightarrow>
     invar (fold remove ks m) \<and>
     get (fold remove ks m) k = (if k \<in> set ks then None else get m k)"
proof (induction ks arbitrary: m)
  case (Cons k1 ks)
  then have "invar (remove k1 m)" by (simp add: invar_remove)
  from Cons.IH [OF this] Cons.prems show ?case by (simp add: get_remove)
qed simp

lemma put_remove: "invar m \<Longrightarrow> get (put k v (remove k m)) k' = get (put k v m) k'"
  by (simp add: get_put get_remove)

end

section \<open>JSON\<close>

datatype json =
    JNull
  | JBool bool
  | JNum number
  | JStr string
  | JArr "json list"
  | JObj "(string \<times> json) list"

type_synonym jobject = "(string \<times> json) list"

text \<open>\<open>Map::insert\<close>: replace, or insert in key order.\<close>

fun obj_put :: "string \<Rightarrow> json \<Rightarrow> jobject \<Rightarrow> jobject" where
  "obj_put k v [] = [(k, v)]"
| "obj_put k v ((k', v') # m) =
     (if k = k' then (k, v) # m
      else if k < k' then (k, v) # (k', v') # m
      else (k', v') # obj_put k v m)"

definition obj_get :: "jobject \<Rightarrow> string \<Rightarrow> json option" where
  "obj_get m k = map_of m k"

definition obj_remove :: "string \<Rightarrow> jobject \<Rightarrow> jobject" where
  "obj_remove k m = filter (\<lambda>(k', _). k' \<noteq> k) m"

definition obj_wf :: "jobject \<Rightarrow> bool" where
  "obj_wf m \<longleftrightarrow> sorted_wrt (<) (map fst m)"

text \<open>The literal \<open>json!({ k: v, .. })\<close>.\<close>

definition mk_fields :: "(string \<times> json) list \<Rightarrow> jobject" where
  "mk_fields kvs = fold (\<lambda>(k, v). obj_put k v) kvs []"

definition mk_obj :: "(string \<times> json) list \<Rightarrow> json" where
  "mk_obj kvs = JObj (mk_fields kvs)"

definition mk_strs :: "string list \<Rightarrow> json" where
  "mk_strs ss = JArr (map JStr ss)"

definition mk_nat :: "nat \<Rightarrow> json" where
  "mk_nat n = JNum (PosInt n)"

fun json_get :: "json \<Rightarrow> string \<Rightarrow> json option" where
  "json_get (JObj m) k = obj_get m k"
| "json_get _ k = None"

text \<open>Reading \<open>value[k]\<close>: a missing key or a non-object reads as null.\<close>

definition json_at :: "json \<Rightarrow> string \<Rightarrow> json" where
  "json_at v k = (case json_get v k of None \<Rightarrow> JNull | Some x \<Rightarrow> x)"

fun as_str :: "json \<Rightarrow> string option" where
  "as_str (JStr s) = Some s"
| "as_str _ = None"

fun as_bool :: "json \<Rightarrow> bool option" where
  "as_bool (JBool b) = Some b"
| "as_bool _ = None"

fun as_u64 :: "json \<Rightarrow> nat option" where
  "as_u64 (JNum (PosInt n)) = Some n"
| "as_u64 _ = None"

fun as_array :: "json \<Rightarrow> json list option" where
  "as_array (JArr xs) = Some xs"
| "as_array _ = None"

fun is_object :: "json \<Rightarrow> bool" where
  "is_object (JObj _) = True"
| "is_object _ = False"

fun is_array :: "json \<Rightarrow> bool" where
  "is_array (JArr _) = True"
| "is_array _ = False"

definition get_str :: "json \<Rightarrow> string \<Rightarrow> string option" where
  "get_str v k = Option.bind (json_get v k) as_str"

definition get_array :: "json \<Rightarrow> string \<Rightarrow> json list option" where
  "get_array v k = Option.bind (json_get v k) as_array"

text \<open>The elements of \<open>v[k]\<close> when it is an array, none otherwise
  (\<open>.as_array().into_iter().flatten()\<close>).\<close>

definition elements :: "json \<Rightarrow> string \<Rightarrow> json list" where
  "elements v k = (case get_array v k of None \<Rightarrow> [] | Some xs \<Rightarrow> xs)"

definition tag_of :: "json \<Rightarrow> string option" where
  "tag_of v = get_str v ''tag''"

subsection \<open>Object laws\<close>

lemma obj_get_put: "obj_get (obj_put k v m) k' = (if k' = k then Some v else obj_get m k')"
  by (induction m) (auto simp: obj_get_def)

lemma obj_keys_put [simp]: "set (map fst (obj_put k v m)) = insert k (set (map fst m))"
  by (induction k v m rule: obj_put.induct) (simp_all, blast)

lemma obj_wf_put: "obj_wf m \<Longrightarrow> obj_wf (obj_put k v m)"
proof (induction k v m rule: obj_put.induct)
  case (2 k v k' v' m)
  from 2(2) have lt: "\<forall>y \<in> set (map fst m). k' < y" and wf: "sorted_wrt (<) (map fst m)"
    by (simp_all add: obj_wf_def)
  show ?case
  proof (cases "k = k' \<or> k < k'")
    case True
    with lt wf show ?thesis by (auto simp: obj_wf_def)
  next
    case False
    then have "k' < k" by auto
    moreover from False 2(1) wf have "sorted_wrt (<) (map fst (obj_put k v m))"
      by (simp add: obj_wf_def)
    moreover have "\<forall>y \<in> set (map fst (obj_put k v m)). k' < y"
      unfolding obj_keys_put using lt \<open>k' < k\<close> by blast
    ultimately show ?thesis using False by (simp add: obj_wf_def del: obj_keys_put)
  qed
qed (simp add: obj_wf_def)

lemma obj_get_remove: "obj_get (obj_remove k m) k' = (if k' = k then None else obj_get m k')"
  by (induction m) (auto simp: obj_get_def obj_remove_def)

lemma obj_wf_remove: "obj_wf m \<Longrightarrow> obj_wf (obj_remove k m)"
  by (induction m) (auto simp: obj_wf_def obj_remove_def)

interpretation jmap: keyed_store obj_get obj_put
  by unfold_locales (rule obj_get_put)

interpretation jmap_rem: removable_store obj_get obj_put obj_remove obj_wf
  by unfold_locales (simp_all add: obj_get_remove obj_wf_put obj_wf_remove)

lemma obj_get_Nil [simp]: "obj_get [] k = None"
  by (simp add: obj_get_def)

lemma obj_get_mk_fields: "obj_get (mk_fields kvs) k = map_of (rev kvs) k"
  by (simp add: mk_fields_def jmap.get_fold_put split: option.splits)

lemma fold_obj_put_wf: "obj_wf m \<Longrightarrow> obj_wf (fold (\<lambda>(k, v). obj_put k v) kvs m)"
  by (induction kvs arbitrary: m) (auto simp: obj_wf_put)

lemma mk_fields_wf: "obj_wf (mk_fields kvs)"
  unfolding mk_fields_def by (rule fold_obj_put_wf) (simp add: obj_wf_def)

lemma json_get_mk_obj [simp]: "json_get (mk_obj kvs) k = map_of (rev kvs) k"
  by (simp add: mk_obj_def obj_get_mk_fields)

lemma get_str_mk_obj: "get_str (mk_obj kvs) k = Option.bind (map_of (rev kvs) k) as_str"
  by (simp add: get_str_def)

lemma is_object_mk_obj [simp]: "is_object (mk_obj kvs)"
  by (simp add: mk_obj_def)

lemma as_str_Some_iff [simp]: "as_str v = Some s \<longleftrightarrow> v = JStr s"
  by (cases v) auto

lemma as_array_Some_iff [simp]: "as_array v = Some xs \<longleftrightarrow> v = JArr xs"
  by (cases v) auto

lemma as_bool_Some_iff [simp]: "as_bool v = Some b \<longleftrightarrow> v = JBool b"
  by (cases v) auto

lemma get_str_Some_iff: "get_str v k = Some s \<longleftrightarrow> json_get v k = Some (JStr s)"
  by (auto simp: get_str_def Option.bind_eq_Some_conv)

lemma get_array_Some_iff: "get_array v k = Some xs \<longleftrightarrow> json_get v k = Some (JArr xs)"
  by (auto simp: get_array_def Option.bind_eq_Some_conv)

lemma get_str_JObj_put [simp]:
  "get_str (JObj (obj_put k v m)) k' = (if k' = k then as_str v else get_str (JObj m) k')"
  by (simp add: get_str_def obj_get_put)

lemma get_array_JObj_put [simp]:
  "get_array (JObj (obj_put k v m)) k' = (if k' = k then as_array v else get_array (JObj m) k')"
  by (simp add: get_array_def obj_get_put)

text \<open>Accessing inside a document makes it smaller: the termination argument of the recursive
  walks over rules.\<close>

lemma size_obj_get: "obj_get m k = Some v \<Longrightarrow> size v < size (JObj m)"
proof -
  assume "obj_get m k = Some v"
  then have "(k, v) \<in> set m" by (simp add: obj_get_def map_of_SomeD)
  then show ?thesis by (induction m) auto
qed

lemma size_json_get: "json_get v k = Some x \<Longrightarrow> size x < size v"
  by (cases v) (use size_obj_get in auto)

lemma size_elements: "x \<in> set (elements v k) \<Longrightarrow> size x < size v"
proof -
  assume x: "x \<in> set (elements v k)"
  then obtain xs where xs: "json_get v k = Some (JArr xs)"
    by (cases "get_array v k") (auto simp: elements_def get_array_Some_iff)
  with x have "x \<in> set xs" by (simp add: elements_def get_array_def)
  then have "size x < size (JArr xs)" by (induction xs) auto
  with size_json_get [OF xs] show ?thesis by simp
qed

lemma size_get_array: "get_array v k = Some xs \<Longrightarrow> x \<in> set xs \<Longrightarrow> size x < size v"
  using size_elements [of x v k] by (simp add: elements_def)

lemma size_json_array: "json_get v k = Some w \<Longrightarrow> as_array w = Some xs \<Longrightarrow> x \<in> set xs \<Longrightarrow> size x < size v"
  using size_get_array [of v k xs x] by (simp add: get_array_def)

end
