(* ===== verification/References.thy ===== *)
theory References
  imports Capabilities Json
begin

text \<open>
  Reference checking of a sing-box config
  (\<open>src-tui/src/singbox/config_gen.rs\<close>, \<open>validate_references\<close> and \<open>validate_nested_route_rule\<close>):
  every outbound, group member, DNS server and rule-set named anywhere in the document exists.
  The declarative specification \<open>references_closed\<close> speaks about all rules nested in the route
  at any depth; the main lemma says that the checks accept exactly the closed documents.
\<close>

section \<open>Errors\<close>

datatype nested_error =
    NestedOutboundMissing string
  | RuleSetNotStrings
  | RuleSetNotList
  | NestedRuleSetMissing string
  | ChildrenNotList

datatype reference_error =
    OutboundWithoutTag nat
  | DuplicateOutboundTag string
  | DnsTagsNotUnique
  | OutboundReferenceMissing string string
  | GroupMemberMissing string string
  | FinalMissing string
  | ResolverMissing string
  | ResolverIsFakeIp
  | DnsDetourMissing nat string
  | DnsResolverMissing nat string
  | DnsResolverIsFakeIp nat
  | DnsRuleServerMissing nat string
  | RouteRuleError nat nested_error
  | RouteRuleOutboundMissing nat string
  | RouteRuleSetMissing nat string
  | RuleSetWithoutTag nat
  | DuplicateRuleSetTag string

section \<open>Checks\<close>

text \<open>\<open>if let Some(x) = v && !known.contains(x) { return Err(e(x)) }\<close>\<close>

definition require_known :: "string option \<Rightarrow> string set \<Rightarrow> (string \<Rightarrow> 'e) \<Rightarrow> (unit, 'e) result" where
  "require_known v known e = (case v of None \<Rightarrow> Inr () | Some x \<Rightarrow> guard (x \<in> known) (e x))"

definition check_indexed :: "(nat \<Rightarrow> 'a \<Rightarrow> (unit, 'e) result) \<Rightarrow> 'a list \<Rightarrow> (unit, 'e) result" where
  "check_indexed f xs = check_all (\<lambda>(i, x). f i x) (enumerate 0 xs)"

definition rule_set_names :: "json \<Rightarrow> (string list, nested_error) result" where
  "rule_set_names sets =
     (case as_str sets of
        Some name \<Rightarrow> Inr [name]
      | None \<Rightarrow>
          (case as_array sets of
             Some names \<Rightarrow> traverse (\<lambda>n. ok_or (as_str n) RuleSetNotStrings) names
           | None \<Rightarrow> Inl RuleSetNotList))"

definition check_rule_sets :: "json \<Rightarrow> string set \<Rightarrow> (unit, nested_error) result" where
  "check_rule_sets sets known =
     rbind (rule_set_names sets) (check_all (\<lambda>name. guard (name \<in> known) (NestedRuleSetMissing name)))"

function validate_nested_route_rule ::
  "json \<Rightarrow> string set \<Rightarrow> string set \<Rightarrow> (unit, nested_error) result" where
  "validate_nested_route_rule rule outbounds rule_sets =
     rbind (require_known (get_str rule ''outbound'') outbounds NestedOutboundMissing) (\<lambda>_.
     rbind (case json_get rule ''rule_set'' of
              None \<Rightarrow> Inr ()
            | Some sets \<Rightarrow> check_rule_sets sets rule_sets) (\<lambda>_.
     (case json_get rule ''rules'' of
        None \<Rightarrow> Inr ()
      | Some children \<Rightarrow>
          (case as_array children of
             None \<Rightarrow> Inl ChildrenNotList
           | Some cs \<Rightarrow> check_all (\<lambda>c. validate_nested_route_rule c outbounds rule_sets) cs))))"
  by pat_completeness auto
termination
  by (relation "measure (\<lambda>(rule, _, _). size rule)") (auto dest: size_json_array)

declare validate_nested_route_rule.simps [simp del]

fun collect_tags :: "nat \<Rightarrow> string list \<Rightarrow> json list \<Rightarrow> (string list, reference_error) result" where
  "collect_tags i seen [] = Inr seen"
| "collect_tags i seen (outbound # outbounds) =
     rbind (ok_or (tag_of outbound) (OutboundWithoutTag i)) (\<lambda>tag.
       if tag \<in> set seen then Inl (DuplicateOutboundTag tag)
       else collect_tags (Suc i) (seen @ [tag]) outbounds)"

definition check_outbound :: "string set \<Rightarrow> json \<Rightarrow> (unit, reference_error) result" where
  "check_outbound tags outbound =
     rbind (check_all (\<lambda>key. require_known (get_str outbound key) tags (OutboundReferenceMissing key))
              [''detour'', ''default'']) (\<lambda>_.
     check_all
       (\<lambda>member. guard (member \<in> tags) (GroupMemberMissing (unwrap_or (tag_of outbound) ''<group>'') member))
       (filter_map as_str (elements outbound ''outbounds'')))"

definition is_fakeip :: "json list \<Rightarrow> string \<Rightarrow> bool" where
  "is_fakeip servers tag =
     is_some_and (map_of (rev (filter_map (\<lambda>s. map_option (\<lambda>t. (t, s)) (tag_of s)) servers)) tag)
       (\<lambda>server. get_str server ''type'' = Some ''fakeip'')"

definition check_default_resolver ::
  "json \<Rightarrow> json list \<Rightarrow> string set \<Rightarrow> (unit, reference_error) result" where
  "check_default_resolver route servers dns_tags =
     (case get_str route ''default_domain_resolver'' of
        None \<Rightarrow> Inr ()
      | Some resolver \<Rightarrow>
          rbind (guard (resolver \<in> dns_tags) (ResolverMissing resolver)) (\<lambda>_.
            guard (\<not> is_fakeip servers resolver) ResolverIsFakeIp))"

definition check_dns_server ::
  "string set \<Rightarrow> json list \<Rightarrow> string set \<Rightarrow> nat \<Rightarrow> json \<Rightarrow> (unit, reference_error) result" where
  "check_dns_server tags servers dns_tags index server =
     rbind (require_known (get_str server ''detour'') tags (DnsDetourMissing index)) (\<lambda>_.
     (case get_str server ''domain_resolver'' of
        None \<Rightarrow> Inr ()
      | Some resolver \<Rightarrow>
          rbind (guard (resolver \<in> dns_tags) (DnsResolverMissing index resolver)) (\<lambda>_.
            guard (\<not> is_fakeip servers resolver) (DnsResolverIsFakeIp index))))"

definition check_route_rule ::
  "string set \<Rightarrow> string set \<Rightarrow> nat \<Rightarrow> json \<Rightarrow> (unit, reference_error) result" where
  "check_route_rule tags known index rule =
     rbind (map_err (RouteRuleError index) (validate_nested_route_rule rule tags known)) (\<lambda>_.
     rbind (require_known (get_str rule ''outbound'') tags (RouteRuleOutboundMissing index)) (\<lambda>_.
     check_all (\<lambda>s. guard (s \<in> known) (RouteRuleSetMissing index s))
       (filter_map as_str (elements rule ''rule_set''))))"

fun check_rule_set_tags :: "nat \<Rightarrow> string list \<Rightarrow> json list \<Rightarrow> (unit, reference_error) result" where
  "check_rule_set_tags i seen [] = Inr ()"
| "check_rule_set_tags i seen (s # sets) =
     rbind (ok_or (tag_of s) (RuleSetWithoutTag i)) (\<lambda>tag.
       if tag \<in> set seen then Inl (DuplicateRuleSetTag tag)
       else check_rule_set_tags (Suc i) (tag # seen) sets)"

definition dns_servers :: "json \<Rightarrow> json list" where
  "dns_servers config = elements (json_at config ''dns'') ''servers''"

definition known_rule_sets :: "json \<Rightarrow> string set" where
  "known_rule_sets config = set (filter_map tag_of (elements (json_at config ''route'') ''rule_set''))"

definition validate_references :: "json \<Rightarrow> (unit, reference_error) result" where
  "validate_references config =
     rbind (collect_tags 0 [] (elements config ''outbounds'')) (\<lambda>tag_list.
     (let tags = set tag_list;
          route = json_at config ''route'';
          servers = dns_servers config;
          dns_tag_list = filter_map tag_of servers;
          dns_tags = set dns_tag_list in
     rbind (guard (length (dedup dns_tag_list) = length servers) DnsTagsNotUnique) (\<lambda>_.
     rbind (check_all (check_outbound tags) (elements config ''outbounds'')) (\<lambda>_.
     rbind (require_known (get_str route ''final'') tags FinalMissing) (\<lambda>_.
     rbind (check_default_resolver route servers dns_tags) (\<lambda>_.
     rbind (check_indexed (check_dns_server tags servers dns_tags) servers) (\<lambda>_.
     rbind (check_indexed (\<lambda>index rule. require_known (get_str rule ''server'') dns_tags (DnsRuleServerMissing index))
              (elements (json_at config ''dns'') ''rules'')) (\<lambda>_.
     rbind (check_indexed (check_route_rule tags (known_rule_sets config)) (elements route ''rules'')) (\<lambda>_.
       check_rule_set_tags 0 [] (elements route ''rule_set''))))))))))"

section \<open>Specification\<close>

text \<open>A rule and every rule below it.\<close>

inductive_set subrules :: "json \<Rightarrow> json set" for root where
  self: "root \<in> subrules root"
| child: "r \<in> subrules root \<Longrightarrow> json_get r ''rules'' = Some (JArr cs) \<Longrightarrow> c \<in> set cs \<Longrightarrow> c \<in> subrules root"

definition rule_sets_of :: "json \<Rightarrow> string set" where
  "rule_sets_of rule =
     (case json_get rule ''rule_set'' of
        Some (JStr s) \<Rightarrow> {s} | Some (JArr xs) \<Rightarrow> {s. JStr s \<in> set xs} | _ \<Rightarrow> {})"

text \<open>A rule is well formed when its references have the shapes sing-box accepts.\<close>

definition rule_shape_ok :: "json \<Rightarrow> bool" where
  "rule_shape_ok rule \<longleftrightarrow>
     (case json_get rule ''rule_set'' of
        None \<Rightarrow> True | Some (JStr s) \<Rightarrow> True | Some (JArr xs) \<Rightarrow> (\<forall>x \<in> set xs. as_str x \<noteq> None) | _ \<Rightarrow> False) \<and>
     (case json_get rule ''rules'' of None \<Rightarrow> True | Some v \<Rightarrow> is_array v)"

definition rule_closed :: "string set \<Rightarrow> string set \<Rightarrow> json \<Rightarrow> bool" where
  "rule_closed outbounds rule_sets rule \<longleftrightarrow>
     rule_shape_ok rule \<and> (\<forall>t. get_str rule ''outbound'' = Some t \<longrightarrow> t \<in> outbounds) \<and>
     rule_sets_of rule \<subseteq> rule_sets"

definition outbound_closed :: "string set \<Rightarrow> json \<Rightarrow> bool" where
  "outbound_closed tags outbound \<longleftrightarrow>
     (\<forall>key \<in> {''detour'', ''default''}. \<forall>t. get_str outbound key = Some t \<longrightarrow> t \<in> tags) \<and>
     (\<forall>m. JStr m \<in> set (elements outbound ''outbounds'') \<longrightarrow> m \<in> tags)"

definition resolver_ok :: "json list \<Rightarrow> string \<Rightarrow> bool" where
  "resolver_ok servers tag \<longleftrightarrow>
     (\<exists>s \<in> set servers. tag_of s = Some tag \<and> get_str s ''type'' \<noteq> Some ''fakeip'')"

definition unique_tags :: "json list \<Rightarrow> bool" where
  "unique_tags xs \<longleftrightarrow> (\<forall>x \<in> set xs. tag_of x \<noteq> None) \<and> distinct (map tag_of xs)"

definition all_outbound_tags :: "json \<Rightarrow> string set" where
  "all_outbound_tags config = set (filter_map tag_of (elements config ''outbounds''))"

definition references_closed :: "json \<Rightarrow> bool" where
  "references_closed config \<longleftrightarrow>
     (let tags = all_outbound_tags config;
          route = json_at config ''route'';
          servers = dns_servers config in
      unique_tags (elements config ''outbounds'') \<and> unique_tags servers \<and>
      unique_tags (elements route ''rule_set'') \<and>
      (\<forall>outbound \<in> set (elements config ''outbounds''). outbound_closed tags outbound) \<and>
      (\<forall>t. get_str route ''final'' = Some t \<longrightarrow> t \<in> tags) \<and>
      (\<forall>t. get_str route ''default_domain_resolver'' = Some t \<longrightarrow> resolver_ok servers t) \<and>
      (\<forall>server \<in> set servers.
         (\<forall>t. get_str server ''detour'' = Some t \<longrightarrow> t \<in> tags) \<and>
         (\<forall>t. get_str server ''domain_resolver'' = Some t \<longrightarrow> resolver_ok servers t)) \<and>
      (\<forall>rule \<in> set (elements (json_at config ''dns'') ''rules'').
         \<forall>t. get_str rule ''server'' = Some t \<longrightarrow> t \<in> set (filter_map tag_of servers)) \<and>
      (\<forall>rule \<in> set (elements route ''rules''). \<forall>r \<in> subrules rule.
         rule_closed tags (known_rule_sets config) r))"

section \<open>The checks decide the specification\<close>

lemma is_ok_require_known [simp]:
  "is_ok (require_known v known e) \<longleftrightarrow> (\<forall>x. v = Some x \<longrightarrow> x \<in> known)"
  by (cases v) (auto simp: require_known_def)

lemma is_ok_seq: "is_ok (rbind m (\<lambda>_. k)) \<longleftrightarrow> is_ok m \<and> is_ok k"
  by (cases m) auto

lemma is_ok_rbind_Inr: "is_ok (rbind m Inr) \<longleftrightarrow> is_ok m"
  by (cases m) auto

lemma is_ok_check_indexed:
  "is_ok (check_indexed f xs) \<longleftrightarrow> (\<forall>i < length xs. is_ok (f i (xs ! i)))"
  by (auto simp: check_indexed_def in_set_enumerate_eq dest!: bspec [of _ _ "(i, xs ! i)" for i])

lemma is_ok_check_indexed_const:
  "(\<And>i x. is_ok (f i x) \<longleftrightarrow> P x) \<Longrightarrow> is_ok (check_indexed f xs) \<longleftrightarrow> (\<forall>x \<in> set xs. P x)"
  by (auto simp: is_ok_check_indexed all_set_conv_all_nth)

lemma unique_tags_Cons:
  "unique_tags (x # xs) \<longleftrightarrow> (\<exists>t. tag_of x = Some t \<and> t \<notin> set (filter_map tag_of xs)) \<and> unique_tags xs"
  by (auto simp: unique_tags_def image_iff) metis+

lemma collect_tags_Inr:
  "collect_tags i seen xs = Inr ts \<longleftrightarrow>
     unique_tags xs \<and> set (filter_map tag_of xs) \<inter> set seen = {} \<and> ts = seen @ filter_map tag_of xs"
proof (induction i seen xs rule: collect_tags.induct)
  case (2 i seen x xs)
  show ?case
  proof (cases "tag_of x")
    case (Some t)
    then show ?thesis using "2.IH" [of t] by (auto simp: unique_tags_Cons)
  qed (simp add: unique_tags_Cons)
qed (auto simp: unique_tags_def)

lemma is_ok_rule_set_tags:
  "is_ok (check_rule_set_tags i seen xs) \<longleftrightarrow> unique_tags xs \<and> set (filter_map tag_of xs) \<inter> set seen = {}"
proof (induction i seen xs rule: check_rule_set_tags.induct)
  case (2 i seen x xs)
  show ?case
  proof (cases "tag_of x")
    case (Some t)
    then show ?thesis using "2.IH" [of t] by (auto simp: unique_tags_Cons)
  qed (simp add: unique_tags_Cons)
qed (simp add: unique_tags_def)

lemma length_filter_map: "length (filter_map f xs) \<le> length xs"
  by (induction xs) (auto split: option.splits)

lemma length_filter_map_eq: "length (filter_map f xs) = length xs \<longleftrightarrow> (\<forall>x \<in> set xs. f x \<noteq> None)"
proof (induction xs)
  case (Cons x xs)
  then show ?case using length_filter_map [of f xs] by (cases "f x") auto
qed simp

lemma length_dedup: "length (dedup xs) \<le> length xs"
  by (metis card_length distinct_card distinct_dedup set_dedup)

lemma length_dedup_eq: "length (dedup xs) = length xs \<longleftrightarrow> distinct xs"
  by (metis card_distinct dedup_distinct distinct_card distinct_dedup set_dedup)

lemma distinct_filter_map_tags:
  "(\<forall>x \<in> set xs. f x \<noteq> None) \<Longrightarrow> distinct (filter_map f xs) \<longleftrightarrow> distinct (map f xs)"
  by (induction xs) (auto simp: image_iff, fastforce)

lemma dns_tags_unique:
  "length (dedup (filter_map tag_of xs)) = length xs \<longleftrightarrow> unique_tags xs"
proof -
  have "length (dedup (filter_map tag_of xs)) = length xs \<longleftrightarrow>
      length (filter_map tag_of xs) = length xs \<and> distinct (filter_map tag_of xs)"
    using length_dedup [of "filter_map tag_of xs"] length_filter_map [of tag_of xs] length_dedup_eq [of "filter_map tag_of xs"]
    by linarith
  then show ?thesis
    using distinct_filter_map_tags [of xs tag_of] by (auto simp: length_filter_map_eq unique_tags_def)
qed

lemma is_fakeip_iff:
  assumes "unique_tags servers"
  shows "tag \<in> set (filter_map tag_of servers) \<and> \<not> is_fakeip servers tag \<longleftrightarrow> resolver_ok servers tag"
  using assms unfolding resolver_ok_def is_fakeip_def
proof (induction servers)
  case (Cons s servers)
  then obtain t where t: "tag_of s = Some t" "t \<notin> set (filter_map tag_of servers)" "unique_tags servers"
    by (auto simp: unique_tags_Cons)
  have none: "map_of (rev (filter_map (\<lambda>s. map_option (\<lambda>t. (t, s)) (tag_of s)) servers)) t = None"
    using t(2) by (auto simp: map_of_eq_None_iff)
  show ?case
  proof (cases "tag = t")
    case True
    then show ?thesis using t none by (auto simp: map_add_def)
  next
    case False
    then show ?thesis using t Cons.IH [OF t(3)] by (auto simp: map_add_def split: option.splits)
  qed
qed simp

lemma subrules_child:
  assumes "json_get root ''rules'' = Some (JArr cs)" "c \<in> set cs" "r \<in> subrules c"
  shows "r \<in> subrules root"
  using assms(3)
proof induction
  case self
  show ?case using subrules.child [OF subrules.self assms(1,2)] .
next
  case (child r cs' c')
  then show ?case using subrules.child by blast
qed

lemma subrules_unfold:
  "subrules root =
     insert root (\<Union>c \<in> (case json_get root ''rules'' of Some (JArr cs) \<Rightarrow> set cs | _ \<Rightarrow> {}). subrules c)"
  (is "_ = insert root ?below")
proof
  show "subrules root \<subseteq> insert root ?below"
  proof
    fix r assume "r \<in> subrules root"
    then show "r \<in> insert root ?below"
    proof induction
      case (child r cs c)
      show ?case
      proof (cases "r = root")
        case True
        with child show ?thesis using subrules.self by auto
      next
        case False
        with child.IH obtain d where "r \<in> subrules d"
          "d \<in> (case json_get root ''rules'' of Some (JArr cs) \<Rightarrow> set cs | _ \<Rightarrow> {})" by auto
        then show ?thesis using subrules.child child by blast
      qed
    qed simp
  qed
  show "insert root ?below \<subseteq> subrules root"
    by (auto split: option.splits json.splits intro: subrules.self subrules_child)
qed

lemma check_rule_sets_ok [simp]:
  "is_ok (check_rule_sets sets known) \<longleftrightarrow>
     (case sets of JStr s \<Rightarrow> s \<in> known
      | JArr xs \<Rightarrow> (\<forall>x \<in> set xs. as_str x \<noteq> None) \<and> {s. JStr s \<in> set xs} \<subseteq> known | _ \<Rightarrow> False)"
proof (cases sets)
  case (JArr xs)
  show ?thesis
  proof (cases "\<forall>x \<in> set xs. as_str x \<noteq> None")
    case True
    then have "is_ok (traverse (\<lambda>n. ok_or (as_str n) RuleSetNotStrings) xs)" by simp
    then obtain names where names: "traverse (\<lambda>n. ok_or (as_str n) RuleSetNotStrings) xs = Inr names"
      by (auto simp: is_ok_def)
    then have "xs = map JStr names"
      by (simp add: traverse_Inr_iff list_all2_conv_all_nth list_eq_iff_nth_eq)
    with names True show ?thesis by (auto simp: JArr check_rule_sets_def rule_set_names_def)
  next
    case False
    then have "\<not> is_ok (traverse (\<lambda>n. ok_or (as_str n) RuleSetNotStrings) xs)" by simp
    then have "\<not> is_ok (check_rule_sets (JArr xs) known)"
      by (auto simp: check_rule_sets_def rule_set_names_def is_ok_def)
    with False show ?thesis by (auto simp: JArr)
  qed
qed (simp_all add: check_rule_sets_def rule_set_names_def)

lemma validate_nested_route_rule_step:
  "is_ok (validate_nested_route_rule rule outbounds rule_sets) \<longleftrightarrow>
     rule_closed outbounds rule_sets rule \<and>
     (\<forall>c \<in> (case json_get rule ''rules'' of Some (JArr cs) \<Rightarrow> set cs | _ \<Rightarrow> {}).
        is_ok (validate_nested_route_rule c outbounds rule_sets))"
proof -
  have sets: "is_ok (case json_get rule ''rule_set'' of None \<Rightarrow> Inr () | Some sets \<Rightarrow> check_rule_sets sets rule_sets) \<longleftrightarrow>
      (case json_get rule ''rule_set'' of
        None \<Rightarrow> True | Some (JStr s) \<Rightarrow> True | Some (JArr xs) \<Rightarrow> (\<forall>x \<in> set xs. as_str x \<noteq> None) | _ \<Rightarrow> False) \<and>
      rule_sets_of rule \<subseteq> rule_sets"
    by (cases "json_get rule ''rule_set''") (auto simp: rule_sets_of_def split: json.splits)
  have children: "is_ok (case json_get rule ''rules'' of None \<Rightarrow> Inr ()
        | Some children \<Rightarrow>
            (case as_array children of None \<Rightarrow> Inl ChildrenNotList
             | Some cs \<Rightarrow> check_all (\<lambda>c. validate_nested_route_rule c outbounds rule_sets) cs)) \<longleftrightarrow>
      (case json_get rule ''rules'' of None \<Rightarrow> True | Some v \<Rightarrow> is_array v) \<and>
      (\<forall>c \<in> (case json_get rule ''rules'' of Some (JArr cs) \<Rightarrow> set cs | _ \<Rightarrow> {}).
        is_ok (validate_nested_route_rule c outbounds rule_sets))"
  proof (cases "json_get rule ''rules''")
    case (Some v)
    then show ?thesis by (cases v) simp_all
  qed simp
  show ?thesis
    by (subst validate_nested_route_rule.simps, subst is_ok_seq)
       (auto simp: is_ok_seq sets children rule_closed_def rule_shape_ok_def simp del: is_ok_rbind)
qed

lemma validate_nested_route_rule_ok:
  "is_ok (validate_nested_route_rule rule outbounds rule_sets) \<longleftrightarrow>
     (\<forall>r \<in> subrules rule. rule_closed outbounds rule_sets r)"
proof (induction "size rule" arbitrary: rule rule: less_induct)
  case less
  have "is_ok (validate_nested_route_rule c outbounds rule_sets) \<longleftrightarrow>
      (\<forall>r \<in> subrules c. rule_closed outbounds rule_sets r)"
    if "json_get rule ''rules'' = Some (JArr cs)" "c \<in> set cs" for c cs
    using less size_json_array [OF that(1) _ that(2)] by simp
  then show ?case
    unfolding validate_nested_route_rule_step [of rule]
    by (subst subrules_unfold) (auto split: option.splits json.splits)
qed

lemma check_outbound_ok [simp]: "is_ok (check_outbound tags outbound) \<longleftrightarrow> outbound_closed tags outbound"
  by (auto simp: check_outbound_def outbound_closed_def is_ok_seq is_ok_rbind_Inr simp del: is_ok_rbind)

lemma check_default_resolver_ok:
  assumes "unique_tags servers"
  shows "is_ok (check_default_resolver route servers (set (filter_map tag_of servers))) \<longleftrightarrow>
    (\<forall>t. get_str route ''default_domain_resolver'' = Some t \<longrightarrow> resolver_ok servers t)"
  using is_fakeip_iff [OF assms]
  by (cases "get_str route ''default_domain_resolver''")
     (auto simp: check_default_resolver_def is_ok_seq simp del: is_ok_rbind set_filter_map)

lemma check_dns_server_ok:
  assumes "unique_tags servers"
  shows "is_ok (check_dns_server tags servers (set (filter_map tag_of servers)) i server) \<longleftrightarrow>
    (\<forall>t. get_str server ''detour'' = Some t \<longrightarrow> t \<in> tags) \<and>
    (\<forall>t. get_str server ''domain_resolver'' = Some t \<longrightarrow> resolver_ok servers t)"
  using is_fakeip_iff [OF assms]
  by (cases "get_str server ''domain_resolver''")
     (auto simp: check_dns_server_def is_ok_seq is_ok_rbind_Inr simp del: is_ok_rbind set_filter_map)

lemma rule_closed_sets: "rule_closed tags known rule \<Longrightarrow> s \<in> set (filter_map as_str (elements rule ''rule_set'')) \<Longrightarrow> s \<in> known"
  by (cases "get_array rule ''rule_set''")
     (auto simp: rule_closed_def rule_sets_of_def elements_def get_array_Some_iff)

lemma check_route_rule_ok:
  "is_ok (check_route_rule tags known i rule) \<longleftrightarrow> (\<forall>r \<in> subrules rule. rule_closed tags known r)"
proof -
  have "rule_closed tags known rule" if "\<forall>r \<in> subrules rule. rule_closed tags known r"
    using that subrules.self by blast
  then show ?thesis
    using rule_closed_sets [of tags known rule]
    by (auto simp: check_route_rule_def is_ok_seq validate_nested_route_rule_ok rule_closed_def
        simp del: is_ok_rbind)
qed

lemma validate_references_ok: "is_ok (validate_references config) \<longleftrightarrow> references_closed config"
proof (cases "unique_tags (elements config ''outbounds'') \<and> unique_tags (dns_servers config)")
  case True
  then have tags: "collect_tags 0 [] (elements config ''outbounds'') =
      Inr (filter_map tag_of (elements config ''outbounds''))"
    by (simp add: collect_tags_Inr)
  have dns: "length (dedup (filter_map tag_of (dns_servers config))) = length (dns_servers config)"
    using True by (simp add: dns_tags_unique)
  have servers: "unique_tags (dns_servers config)" using True ..
  show ?thesis
    unfolding validate_references_def references_closed_def tags rbind.simps Let_def is_ok_seq
      all_outbound_tags_def check_default_resolver_ok [OF servers]
      is_ok_check_indexed_const [OF check_dns_server_ok [OF servers]]
      is_ok_check_indexed_const [OF is_ok_require_known]
      is_ok_check_indexed_const [OF check_route_rule_ok] is_ok_rule_set_tags
    using True dns by (simp del: set_filter_map) blast
next
  case False
  then show ?thesis
    by (auto simp: validate_references_def references_closed_def collect_tags_Inr Let_def is_ok_seq dns_tags_unique
        simp del: is_ok_rbind set_filter_map dest!: is_ok_rbind [THEN iffD1])
qed

section \<open>Property\<close>


end
