(* ===== verification/Geo_Names.thy ===== *)
theory Geo_Names
  imports Rust_Str
begin

text \<open>
  The geo rule-set names published by the SagerNet repositories, as
  \<open>src-tui/src/singbox/convert.rs\<close> lists them (\<open>PUBLISHED_GEOIP_NAMES\<close>,
  \<open>PUBLISHED_GEOSITE_NAMES\<close>). They are kept folded; evaluation goes through the membership
  lemmas of \<open>Geo\<close>.
\<close>

definition published_geoip_names :: "string list" where
  "published_geoip_names =
    [''ad'', ''ae'', ''af'', ''ag'', ''ai'', ''al'', ''am'', ''ao'', ''aq'', ''ar'', ''as'', ''at'',
     ''au'', ''aw'', ''ax'', ''az'', ''ba'', ''bb'', ''bd'', ''be'', ''bf'', ''bg'', ''bh'', ''bi'',
     ''bj'', ''bl'', ''bm'', ''bn'', ''bo'', ''bq'', ''br'', ''bs'', ''bt'', ''bw'', ''by'', ''bz'',
     ''ca'', ''cd'', ''cf'', ''cg'', ''ch'', ''ci'', ''ck'', ''cl'', ''cm'', ''cn'', ''co'', ''cr'',
     ''cu'', ''cv'', ''cw'', ''cy'', ''cz'', ''de'', ''dj'', ''dk'', ''dm'', ''do'', ''dz'', ''ec'',
     ''ee'', ''eg'', ''er'', ''es'', ''et'', ''fi'', ''fj'', ''fk'', ''fm'', ''fo'', ''fr'', ''ga'',
     ''gb'', ''gd'', ''ge'', ''gf'', ''gg'', ''gh'', ''gi'', ''gl'', ''gm'', ''gn'', ''gp'', ''gq'',
     ''gr'', ''gt'', ''gu'', ''gw'', ''gy'', ''hk'', ''hn'', ''hr'', ''ht'', ''hu'', ''id'', ''ie'',
     ''il'', ''im'', ''in'', ''io'', ''iq'', ''ir'', ''is'', ''it'', ''je'', ''jm'', ''jo'', ''jp'',
     ''ke'', ''kg'', ''kh'', ''ki'', ''km'', ''kn'', ''kp'', ''kr'', ''kw'', ''ky'', ''kz'', ''la'',
     ''lb'', ''lc'', ''li'', ''lk'', ''lr'', ''ls'', ''lt'', ''lu'', ''lv'', ''ly'', ''ma'', ''mc'',
     ''md'', ''me'', ''mf'', ''mg'', ''mh'', ''mk'', ''ml'', ''mm'', ''mn'', ''mo'', ''mp'', ''mq'',
     ''mr'', ''ms'', ''mt'', ''mu'', ''mv'', ''mw'', ''mx'', ''my'', ''mz'', ''na'', ''nc'', ''ne'',
     ''nf'', ''ng'', ''ni'', ''nl'', ''no'', ''np'', ''nr'', ''nu'', ''nz'', ''om'', ''pa'', ''pe'',
     ''pf'', ''pg'', ''ph'', ''pk'', ''pl'', ''pm'', ''pr'', ''ps'', ''pt'', ''pw'', ''py'', ''qa'',
     ''re'', ''ro'', ''rs'', ''ru'', ''rw'', ''sa'', ''sb'', ''sc'', ''sd'', ''se'', ''sg'', ''si'',
     ''sk'', ''sl'', ''sm'', ''sn'', ''so'', ''sr'', ''ss'', ''st'', ''sv'', ''sx'', ''sy'', ''sz'',
     ''tc'', ''td'', ''tg'', ''th'', ''tj'', ''tk'', ''tl'', ''tm'', ''tn'', ''to'', ''tr'', ''tt'',
     ''tv'', ''tw'', ''tz'', ''ua'', ''ug'', ''us'', ''uy'', ''uz'', ''va'', ''vc'', ''ve'', ''vg'',
     ''vi'', ''vn'', ''vu'', ''wf'', ''ws'', ''ye'', ''yt'', ''za'', ''zm'', ''zw'']"

definition published_geosite_names :: "string list" where
  "published_geosite_names =
    [''0x0'', ''115'', ''1337x'', ''17zuoye'', ''18comic'', ''2ch'', ''2gis'', ''2kgames'', ''36kr'',
     ''36kr@ads'', ''4399'', ''4chan'', ''4pda'', ''4plebs'', ''51job'', ''54647'', ''58tongcheng'',
     ''5ch'', ''6park'', ''7tv'', ''800best'', ''8btc'', ''928plus'', ''9news'', ''9to5'', ''aamgame'',
     ''abc'', ''abema'', ''accuweather'', ''acer'', ''acer@cn'', ''acfun'', ''acfun@ads'', ''actalis'',
     ''activision'', ''activision-blizzard'', ''adblock'', ''adblockplus'', ''addthis'', ''addtoany'',
     ''adguard'', ''adidas'', ''adidas@cn'', ''adjust'', ''adjust@ads'', ''adobe'', ''adobe-activation'',
     ''adobe@ads'', ''adobe@cn'', ''aerogard'', ''aerogard@cn'', ''afdian'', ''afp'', ''agilebits'',
     ''agora'', ''aiqicha'', ''airbnb'', ''airchina'', ''airchina@!cn'', ''airwick'', ''airwick@cn'',
     ''aisiku'', ''aixcoder'', ''akamai'', ''akamai@cn'', ''akiko'', ''alibaba'', ''alibaba@!cn'',
     ''alibaba@ads'', ''alibaba@cn'', ''alibabacloud'', ''alibabacloud@!cn'', ''alibabacloud@cn'',
     ''aligames'', ''aliyun'', ''aliyun-drive'', ''aliyun@!cn'', ''aliyun@ads'', ''aljazeera'',
     ''alphabet'', ''alphabet@!cn'', ''alphabet@ads'', ''alphabet@cn'', ''amap'', ''amap@ads'', ''amazon'',
     ''amazon@ads'', ''amazon@cn'', ''amazontrust'', ''amc'', ''amd'', ''amd@cn'', ''amp'', ''amp@cn'',
     ''amplitude'', ''amplitude@ads'', ''anaconda'', ''anandtech'', ''android'', ''anexia'', ''anime'',
     ''anker'', ''anker@!cn'', ''annas-archive'', ''anon-v'', ''anthropic'', ''ap'', ''apa'', ''aparat'',
     ''apifox'', ''apipost'', ''apkcombo'', ''apkmirror'', ''apkpure'', ''apple'', ''apple-dev'',
     ''apple-dev@cn'', ''apple-intelligence'', ''apple-music'', ''apple-music@cn'', ''apple-pki'',
     ''apple-pki@cn'', ''apple-podcasts'', ''apple-podcasts@cn'', ''apple-tvplus'', ''apple-update'',
     ''apple@ads'', ''apple@cn'', ''appledaily'', ''applysquare'', ''aptoide'', ''archive'',
     ''archiveofourown'', ''archivetoday'', ''archlinux'', ''arphic'', ''artstation'', ''asahi'',
     ''askdiandian'', ''asobo'', ''asproex'', ''asus'', ''asus@cn'', ''atlassian'', ''att'', ''att@cn'',
     ''attwatchtv'', ''autodesk'', ''autoru'', ''auxgroup'', ''auxgroup@!cn'', ''avaxhome'', ''aviasales'',
     ''avito'', ''avito@ads'', ''avmoo'', ''awempire'', ''aws'', ''aws-cn'', ''aws@cn'', ''azure'',
     ''azure@cn'', ''b3log'', ''bahamut'', ''baidu'', ''baidu@ads'', ''baishancloud'', ''baltamatica'',
     ''bamtech'', ''bandcamp'', ''bandwagonhost'', ''bangumi'', ''barrons'', ''bbc'', ''bdsmhub'',
     ''beats'', ''beats@cn'', ''beget'', ''beisen'', ''bestbuy'', ''bestbuy@cn'', ''bestchange'',
     ''bestore'', ''bestv'', ''betboom'', ''bethesda'', ''betterexplained'', ''bilibili'',
     ''bilibili-cdn'', ''bilibili-cdn@!cn'', ''bilibili-game'', ''bilibili2'', ''bilibili@!cn'',
     ''binance'', ''bing'', ''bing@ads'', ''bing@cn'', ''bitauto'', ''bitflyer'', ''bitly'', ''bitsquare'',
     ''bitwarden'', ''bjyouth'', ''blender'', ''blizzard'', ''blogspot'', ''bloomberg'', ''bluearchive'',
     ''bluearchive@cn'', ''bluepoch'', ''bluepoch-games'', ''bluesky'', ''blurams'', ''bmw'', ''bmw@cn'',
     ''boboporn'', ''boc'', ''boc@!cn'', ''bohemia'', ''bongacams'', ''booking'', ''booking@cn'',
     ''books'', ''boomerang'', ''bootcdn'', ''bootstrap'', ''borneoschematics'', ''boslife'', ''boxun'',
     ''boylove'', ''braveux'', ''brazzers'', ''bridgestone'', ''bridgestone@cn'', ''brightcove'',
     ''brilliant'', ''broadcom'', ''broadcom@cn'', ''btdig'', ''bttzyw'', ''bushiroad'', ''buymeacoffee'',
     ''buypass'', ''bybit'', ''bytedance'', ''bytedance-ai-!cn'', ''bytedance@!cn'', ''bytedance@ads'',
     ''c-span'', ''cabletv'', ''cainiao'', ''cainiao@ads'', ''calgoncarbon'', ''calgoncarbon@cn'',
     ''cambridge'', ''camwhores'', ''canon'', ''canon@cn'', ''canonical'', ''canva'', ''capitalonline'',
     ''carrotquest'', ''carrotquest@ads'', ''cas'', ''casimages'', ''catchplay'', ''category-acg'',
     ''category-ads'', ''category-ads-all'', ''category-ads-all@ads'', ''category-ads-ir'',
     ''category-ai-!cn'', ''category-ai-!cn@ads'', ''category-ai-!cn@telemetry'', ''category-ai-chat-!cn'',
     ''category-ai-chat-!cn@ads'', ''category-ai-chat-!cn@telemetry'', ''category-ai-cn'',
     ''category-ai-ru'', ''category-android-app-download'', ''category-anticensorship'',
     ''category-antivirus'', ''category-antivirus@cn'', ''category-automobile-cn'', ''category-bank-cn'',
     ''category-bank-ir'', ''category-bank-jp'', ''category-bank-mm'', ''category-bank-ru'',
     ''category-bank-ru@ads'', ''category-betting-ru'', ''category-blog-cn'', ''category-bourse-ir'',
     ''category-browser-!cn'', ''category-cas'', ''category-cas@cn'', ''category-cdn-!cn'',
     ''category-cdn-cn'', ''category-collaborate-cn'', ''category-communication'',
     ''category-communication@ads'', ''category-companies'', ''category-companies@!cn'',
     ''category-companies@ads'', ''category-companies@cn'', ''category-companies@telemetry'',
     ''category-consent-management'', ''category-container'', ''category-cryptocurrency'',
     ''category-cryptocurrency@cn'', ''category-ddns'', ''category-dev'', ''category-dev-cn'',
     ''category-dev-cn@ads'', ''category-dev@ads'', ''category-dev@cn'', ''category-dev@telemetry'',
     ''category-documents-cn'', ''category-doh'', ''category-ecommerce'', ''category-ecommerce-ru'',
     ''category-ecommerce-ru@ads'', ''category-ecommerce@ads'', ''category-ecommerce@cn'',
     ''category-education-cn'', ''category-education-cn@ads'', ''category-education-ir'',
     ''category-education-ru'', ''category-electronic-cn'', ''category-emby'', ''category-enhance-gaming'',
     ''category-enhance-gaming@cn'', ''category-enterprise-query-platform-cn'', ''category-entertainment'',
     ''category-entertainment-cn'', ''category-entertainment-cn@ads'', ''category-entertainment-ru'',
     ''category-entertainment@!cn'', ''category-entertainment@ads'', ''category-entertainment@cn'',
     ''category-finance'', ''category-finance@ads'', ''category-finance@cn'', ''category-food-cn'',
     ''category-food-cn@ads'', ''category-forums'', ''category-forums-ir'', ''category-forums-ru'',
     ''category-forums@ads'', ''category-game-accelerator-cn'', ''category-game-platforms-download'',
     ''category-game-platforms-download@cn'', ''category-games'', ''category-games-!cn'',
     ''category-games-!cn@ads'', ''category-games-cn'', ''category-games-cn@ads'', ''category-games@ads'',
     ''category-games@cn'', ''category-gov-ir'', ''category-gov-ru'', ''category-hospital-cn'',
     ''category-httpdns-cn'', ''category-httpdns-cn@ads'', ''category-insurance-ir'',
     ''category-ip-geo-detect'', ''category-ip-geo-detect@!cn'', ''category-ip-geo-detect@cn'',
     ''category-ipfs'', ''category-ir'', ''category-logistics-cn'', ''category-logistics-cn@ads'',
     ''category-media'', ''category-media-cn'', ''category-media-cn@ads'', ''category-media-ir'',
     ''category-media-ru'', ''category-media-ru-blocked'', ''category-media@cn'', ''category-medicine-ru'',
     ''category-mobile-repair'', ''category-mooc-cn'', ''category-netdisk-!cn'',
     ''category-netdisk-!cn@ads'', ''category-netdisk-cn'', ''category-network-security-cn'',
     ''category-news-ir'', ''category-novel'', ''category-ntp'', ''category-ntp-cn'', ''category-ntp-jp'',
     ''category-ntp@cn'', ''category-number-verification-cn'', ''category-olympiad-in-informatics'',
     ''category-orgs'', ''category-outsource-cn'', ''category-password-management'',
     ''category-payment-ir'', ''category-porn'', ''category-porn@ads'', ''category-proxy-tunnels'',
     ''category-pt'', ''category-pt@!cn'', ''category-public-tracker'', ''category-remote-control'',
     ''category-remote-control@cn'', ''category-retail-ru'', ''category-retail-ru@ads'', ''category-ru'',
     ''category-ru@ads'', ''category-ru@cn'', ''category-scholar-!cn'', ''category-scholar-cn'',
     ''category-scholar-hk'', ''category-scholar-ir'', ''category-scholar-uk'', ''category-securities-cn'',
     ''category-shopping-ir'', ''category-social-media-!cn'', ''category-social-media-!cn@ads'',
     ''category-social-media-cn'', ''category-social-media-cn@ads'', ''category-social-media-ir'',
     ''category-speedtest'', ''category-speedtest@!cn'', ''category-speedtest@ads'',
     ''category-speedtest@cn'', ''category-stun'', ''category-tech-ir'', ''category-tech-media'',
     ''category-tech-media-ru'', ''category-tech-media@cn'', ''category-tm'', ''category-travel-ir'',
     ''category-travel-ru'', ''category-urlshortner'', ''category-voip'', ''category-vpnservices'',
     ''category-web-archive'', ''category-wiki-cn'', ''cavporn'', ''cbs'', ''ccb'', ''ccb@!cn'', ''cctv'',
     ''cctv@ads'', ''cdek'', ''cdn77'', ''ceno'', ''cerebras'', ''cern'', ''certinomis'', ''certum'',
     ''changyou'', ''chaoxing'', ''chatango'', ''chatwhores'', ''cheetahmobile'', ''chegg'', ''chesscom'',
     ''chinabroadnet'', ''chinamobile'', ''chinamobile@!cn'', ''chinanews'', ''chinapost'', ''chinapower'',
     ''chinaso'', ''chinatelecom'', ''chinatelecom@!cn'', ''chinatower'', ''chinaunicom'',
     ''chinaunicom@!cn'', ''chinaz'', ''cian'', ''cisco'', ''cisco@cn'', ''citic'', ''citic@!cn'',
     ''citizenlab'', ''cityu-hk'', ''ciweimao'', ''ck101'', ''clarivate'', ''clearasil'', ''clearasil@cn'',
     ''clearbit'', ''clearbit@ads'', ''clips4sale'', ''cloudcone'', ''cloudconvert'', ''cloudflare'',
     ''cloudflare-cn'', ''cloudflare-ipfs'', ''cloudflare@cn'', ''cloudinary'', ''cloudns'', ''clubhouse'',
     ''cmb'', ''cmb@!cn'', ''cn'', ''cn@ads'', ''cnb'', ''cnbc'', ''cnbeta'', ''cnblogs'', ''cnet'',
     ''cnki'', ''cnn'', ''code'', ''codeberg'', ''codecademy'', ''codeforces'', ''coding'', ''coinone'',
     ''collabora'', ''colorfulclouds'', ''comfy'', ''comfy-ui-launcher'', ''comodo'', ''comssone'',
     ''connectivity-check'', ''connectivity-check@cn'', ''contentful'', ''coolapk'', ''coomer'',
     ''copymanga'', ''corel'', ''costco'', ''coupang'', ''coursera'', ''cowlevel'', ''cowtransfer'',
     ''craigslist'', ''creativecommons'', ''csdn'', ''csis'', ''ctexcel'', ''ctexcel@!cn'', ''ctrip'',
     ''ctrip@!cn'', ''ctyun'', ''cuhk'', ''cuinc'', ''curseforge'', ''cursor'', ''cuttly'', ''cybertrust'',
     ''cygames'', ''cylink'', ''dailymail'', ''dailymotion'', ''dandanplay'', ''dandanzan'', ''dangdang'',
     ''dart'', ''dazn'', ''dcard'', ''ddmaicai'', ''debian'', ''decryptipastore'', ''dedao'', ''deepin'',
     ''deepin@!cn'', ''deepseek'', ''deezer'', ''dell'', ''dell@cn'', ''demonoid'', ''deppon'',
     ''deribit'', ''dettol'', ''dettol@cn'', ''deviantart'', ''dewu'', ''dewu@!cn'', ''didi'',
     ''didi@!cn'', ''digicert'', ''digicert@cn'', ''digitalocean'', ''digitalplayground'', ''dingdatech'',
     ''dingtalk'', ''discord'', ''discourse'', ''discoveryplus'', ''discuz'', ''disney'', ''disney@ads'',
     ''disney@cn'', ''disqus'', ''divar'', ''dji'', ''dlercloud'', ''dlsite'', ''dmit'', ''dmm'',
     ''dmm-porn'', ''dmm@ads'', ''dnspod'', ''docker'', ''doi'', ''dola'', ''dola@!cn'', ''dongchedi'',
     ''dongjiao'', ''douban'', ''doubao'', ''douyin'', ''douyu'', ''dowjones'', ''dribbble'', ''dropbox'',
     ''drweb'', ''dslreports'', ''duckduckgo'', ''duitang'', ''duolingo'', ''duolingo@ads'',
     ''duolingo@cn'', ''duowan'', ''durex'', ''durex@cn'', ''duyaoss'', ''dw'', ''dwion'', ''dyna'',
     ''dynu'', ''dzen'', ''dzen@ads'', ''ea'', ''eastmoney'', ''eastmoney@!cn'', ''easylist'', ''ebay'',
     ''ebay@cn'', ''ebuyer'', ''economist'', ''eduhk'', ''edx'', ''egghead'', ''ehentai'', ''electron'',
     ''eleme'', ''eleme@ads'', ''elevenlabs'', ''elsevier'', ''embark'', ''embedly'', ''embl'',
     ''emojipedia'', ''eneba'', ''enfa'', ''entermediadb'', ''entrust'', ''entrust@cn'', ''envato'',
     ''envybox'', ''epicbrowser'', ''epicgames'', ''epicgames@cn'', ''epochmediagroup'', ''erolabs'',
     ''escapefromtarkov'', ''eset'', ''eset@cn'', ''espn'', ''espressif'', ''espressif@!cn'', ''esri'',
     ''ethereum'', ''everbright'', ''evernote'', ''f-droid'', ''facebook'', ''facebook-dev'',
     ''facebook@ads'', ''faceit'', ''falungong'', ''familymart'', ''familymart@cn'', ''fandom'',
     ''fans66'', ''fansta'', ''farfetch'', ''farfetch@cn'', ''faronics'', ''fastlane'', ''fastly'',
     ''faststone'', ''fcbox'', ''fedora'', ''feedly'', ''feishu'', ''fengxing'', ''fflogs'', ''fflogs@cn'',
     ''fibank'', ''ficbook'', ''figma'', ''filimo'', ''finish'', ''finish@cn'', ''firebase'',
     ''firebase@cn'', ''firefox'', ''flatpak'', ''flibusta'', ''flickr'', ''flowus'', ''flowwow'',
     ''flutter'', ''flyio'', ''focuschina'', ''fonbet'', ''fontawesome'', ''fontexplorer'', ''fonts'',
     ''fontshop'', ''fontsinuse'', ''forbes'', ''formula1'', ''forza'', ''fox'', ''fqnovel'',
     ''fqnovel@ads'', ''framer'', ''freebuff'', ''freecodecamp'', ''freenode'', ''ft'', ''ftv'',
     ''funpay'', ''futu'', ''fzdm'', ''gaijin'', ''gamersky'', ''gamersky@ads'', ''gamesplanet'',
     ''gandi'', ''ganji'', ''gannett'', ''garena'', ''gateio'', ''geetest'', ''gemfury'', ''genotek-ru'',
     ''geolocation-!cn'', ''geolocation-!cn@ads'', ''geolocation-!cn@telemetry'', ''geolocation-cn'',
     ''geolocation-cn@ads'', ''gettyimages'', ''getui'', ''gfycat'', ''ggsel'', ''giffgaff'', ''gigabyte'',
     ''gigabyte@cn'', ''gimy'', ''gismeteo'', ''gitbook'', ''gitee'', ''github'', ''github-copilot'',
     ''github-copilot@telemetry'', ''github1s'', ''github@telemetry'', ''gitlab'', ''gitv'',
     ''globalsign'', ''globalsign@cn'', ''globalvoices'', ''globo'', ''glyphs'', ''gmo-internet'',
     ''gmo-internet@cn'', ''godaddy'', ''gofundme'', ''gog'', ''gog@ads'', ''gog@cn'', ''golang'',
     ''goodreads'', ''google'', ''google-deepmind'', ''google-gemini'', ''google-play'',
     ''google-play@cn'', ''google-registry'', ''google-registry-tld'', ''google-scholar'',
     ''google-trust-services'', ''google-trust-services@cn'', ''google@!cn'', ''google@ads'',
     ''google@cn'', ''googlefcm'', ''googlefcm@!cn'', ''goproxy'', ''gracg'', ''grapheneos'', ''gravatar'',
     ''greatfire'', ''gree'', ''groq'', ''group-ib'', ''growingio'', ''gucci'', ''gucci@cn'', ''guo'',
     ''guokr'', ''habr'', ''haier'', ''hainanairlines'', ''haitang'', ''hamivideo'', ''hanyi'',
     ''harpercollins'', ''hashicorp'', ''haskell'', ''haveibeenpwned'', ''hbo'', ''hcaptcha'', ''hdrezka'',
     ''headhunter'', ''hentaichen'', ''hentaivn'', ''herogame'', ''heroku'', ''hetzner'', ''hetzner@ads'',
     ''heyzo'', ''hikvision'', ''hinet'', ''hinet-eca'', ''hisense'', ''hitun'', ''hkbn'', ''hkbu'',
     ''hkedcity'', ''hketgroup'', ''hketgroup@cn'', ''hkgolden'', ''hkt'', ''hku'', ''hkust'', ''hm'',
     ''hm@cn'', ''homebrew'', ''homedepot'', ''hongkongpost'', ''honor'', ''hooligapps'', ''hotstar'',
     ''hoyoverse'', ''hoyoverse@ads'', ''hp'', ''hp@cn'', ''hpe'', ''hsbc'', ''hsbc-cn'', ''huanghuagang'',
     ''huawei'', ''huawei-dev'', ''huawei@!cn'', ''huawei@ads'', ''huaweicloud'', ''huaweicloud@!cn'',
     ''hubblephone'', ''huffpost'', ''hugecore'', ''huggingface'', ''hujiang'', ''hulu'', ''humblebundle'',
     ''hunantv'', ''hunantv@ads'', ''huobi'', ''hupu'', ''hupun'', ''hurricaneelectric'', ''huya'',
     ''ibkr'', ''ibm'', ''icable'', ''icbc'', ''icbc@!cn'', ''icloud'', ''icloud@cn'',
     ''icloudprivaterelay'', ''ideco-ru'', ''identrust'', ''idg'', ''ieee'', ''ifanr'', ''ifast'',
     ''ifast@cn'', ''iflytek'', ''ihuman'', ''iina'', ''ikea'', ''ikea@cn'', ''illgames'', ''illusion'',
     ''illusion-nonofficial'', ''imagebam'', ''imagecurl'', ''imageshack'', ''imagetwist'', ''imdb'',
     ''imgbb'', ''imgix'', ''imgur'', ''imperialcollege'', ''infowars'', ''infrapedia'', ''inoreader'',
     ''inshot'', ''insider'', ''instagram'', ''instagram@ads'', ''intel'', ''intel-dev'', ''intel@cn'',
     ''intercom'', ''internet-archive'', ''intsig'', ''intuit'', ''ipip'', ''ipip@!cn'', ''iqiyi'',
     ''iqiyi@!cn'', ''iqiyi@ads'', ''isgd'', ''ishumei'', ''itchio'', ''itiger'', ''itunes'',
     ''itunes@cn'', ''ixbt'', ''ixsystems'', ''iyf'', ''jable'', ''japonx'', ''java'', ''javbus'',
     ''javcc'', ''javdb'', ''javwide'', ''jd'', ''jd@!cn'', ''jd@ads'', ''jetbrains'', ''jetbrains-ai'',
     ''jetbrains@cn'', ''jfrog'', ''jianshu'', ''jibencaozuo'', ''jiemian'', ''jiguang'', ''jinshuju'',
     ''jiyukobo'', ''jkf'', ''jlc'', ''johren'', ''jquery'', ''jsdelivr'', ''jtexpress'', ''juejin'',
     ''jushuitan'', ''justav'', ''justmysocks'', ''jutongbao'', ''jwplayer'', ''kaggle'', ''kakao'',
     ''kanzhongguo'', ''kaspersky'', ''kaspersky@cn'', ''kechuang'', ''keep'', ''kemono'', ''kernel'',
     ''keybase'', ''khanacademy'', ''kick'', ''kindle'', ''kindle4rss'', ''kindle@cn'', ''kingkonglive'',
     ''kingsoft'', ''kinopoisk'', ''kinopub'', ''kkbox'', ''kktv'', ''kodi'', ''kodik'', ''konachan'',
     ''konami'', ''kontur'', ''kontur@ads'', ''koolearn'', ''kraken'', ''ku6'', ''kuaidi100'', ''kuaikan'',
     ''kuaishou'', ''kuaishou@ads'', ''kuaiyikeji'', ''kubakuba'', ''kubernetes'', ''kucoin'', ''kugou'',
     ''kugou@ads'', ''kurogames'', ''kurogames@!cn'', ''kurogames@ads'', ''kuwo'', ''kyodonews'',
     ''lagou'', ''landian'', ''lantern'', ''lanzou'', ''laracasts'', ''lark'', ''lark-global'', ''lastfm'',
     ''lastpass'', ''launchpad'', ''lavteam'', ''le'', ''le@ads'', ''lenovo'', ''lethalhardcore'',
     ''letsencrypt'', ''lg'', ''lianjia'', ''liberapay'', ''libgen'', ''liepin'', ''lifewire'',
     ''ligastavok'', ''lighter'', ''lihkg'', ''likee'', ''limelight'', ''linakesi'', ''line'', ''linguee'',
     ''linkedin'', ''linkedin@cn'', ''linotype'', ''linux'', ''linuxdo'', ''lisiku'', ''litv'',
     ''livejournal'', ''liveperson'', ''lizhi'', ''lkcoffee'', ''localbitcoins'', ''localizejs'',
     ''logitech'', ''londonreal'', ''longbridge'', ''louisvuitton'', ''louisvuitton@cn'', ''lowiro'',
     ''ltn'', ''lumion'', ''lysol'', ''lysol@cn'', ''madshi'', ''mafengwo'', ''magnit'', ''mailcom'',
     ''mailru'', ''mailru-group'', ''mailru-group@ads'', ''mailru@ads'', ''mainichi'', ''manhuagui'',
     ''manhuaren'', ''manorama'', ''manoto'', ''manus'', ''maocloud'', ''mapbox'', ''mapbox@cn'',
     ''marvel'', ''mastercard'', ''mastercard@cn'', ''masterclass'', ''matrix'', ''matters'',
     ''mcdonalds'', ''mcdonalds@cn'', ''mdn'', ''meadjohnson'', ''meadjohnson@cn'', ''mediachinesegroup'',
     ''medium'', ''meduza'', ''mega'', ''megafon'', ''meipian'', ''meitu'', ''meituan'', ''meizu'',
     ''messenger'', ''meta'', ''meta@ads'', ''metabrainz'', ''metacritic'', ''metart'', ''miaomiaozhe'',
     ''microsoft'', ''microsoft-dev'', ''microsoft-dev@cn'', ''microsoft-pki'', ''microsoft@ads'',
     ''microsoft@cn'', ''microsoft@telemetry'', ''midea'', ''mihoyo'', ''mihoyo-cn'', ''mihoyo-cn@ads'',
     ''mihoyo@ads'', ''mihoyo@cn'', ''mikrotik'', ''mindbox'', ''mindbox@ads'', ''mindgeek'',
     ''mindgeek-porn'', ''mini'', ''miniso'', ''miniso@cn'', ''miraheze'', ''missav'', ''misskey'',
     ''misskey-universe'', ''mit'', ''mixi'', ''mobile01'', ''mocha'', ''modrinth'', ''mogujie'',
     ''mojang'', ''moji'', ''moji@ads'', ''momo'', ''mongodb'', ''monotype'', ''moonvy'', ''morisawa'',
     ''mortein'', ''mortein@cn'', ''mosmetro'', ''motorola'', ''movefree'', ''movefree@cn'', ''moxing'',
     ''mozilla'', ''mozilla@ads'', ''mozilla@telemetry'', ''msi'', ''msn'', ''msn@ads'', ''msn@cn'',
     ''mts-ru'', ''mts-ru@ads'', ''mubi'', ''mucinex'', ''mudvod'', ''muji'', ''muji@cn'', ''musixmatch'',
     ''mvideo'', ''mxroute'', ''mydirtyhobby'', ''myfonts'', ''myoffice-ru'', ''myradio'', ''mytvsuper'',
     ''mzed'', ''n26'', ''n3ro'', ''narwal'', ''nationalgeographic'', ''naver'', ''nbcuniversal'',
     ''neowin'', ''netcraze'', ''netcup'', ''netease'', ''netease@!cn'', ''netease@ads'', ''netflav'',
     ''netflix'', ''netlify'', ''neuralink'', ''newegg'', ''newgrounds'', ''newscorp'', ''newsmax'',
     ''nexitally'', ''nexo'', ''nexon'', ''nexusmods'', ''nga'', ''nginx'', ''ngrok'', ''nhk'', ''nic-ru'',
     ''nicegram'', ''nicegram@ads'', ''niconico'', ''nike'', ''nike@cn'', ''nikkan-gendai'', ''nikke'',
     ''nikkei'', ''nintendo'', ''nintendo@cn'', ''nist'', ''nixos'', ''nodejs'', ''nodeseek'', ''noip'',
     ''nordstrom'', ''nordvpn'', ''notion'', ''now'', ''nowcoder'', ''npmjs'', ''nudevista'', ''nurofen'',
     ''nurofen@cn'', ''nutaku'', ''nvidia'', ''nvidia@cn'', ''nyaa'', ''nypost'', ''nytimes'', ''oan'',
     ''oculus'', ''ogury'', ''ogury@ads'', ''ok'', ''okaapps'', ''okaapps@cn'', ''okjike'', ''okko'',
     ''okx'', ''okx@cn'', ''olevod'', ''onedrive'', ''onekey'', ''oneplus'', ''oneplus@!cn'',
     ''ookla-speedtest'', ''ookla-speedtest@ads'', ''op'', ''openai'', ''openai@ads'', ''opencollective'',
     ''openjsfoundation'', ''openjsfoundation@cn'', ''openrec'', ''opensourceinsights'', ''openspeedtest'',
     ''openstreetmap'', ''openweather'', ''openwrt'', ''openx'', ''openx@ads'', ''oppo'', ''oppo@!cn'',
     ''oracle'', ''oreilly'', ''oreilly@cn'', ''organicmaps'', ''origin'', ''oschina'', ''oskelly'',
     ''osu'', ''otpbank'', ''oup'', ''overclockers-ru'', ''ozon'', ''ozon@ads'', ''pagecdn'',
     ''panasonic'', ''panasonic@cn'', ''pandanet'', ''paofuyun'', ''paskoocheh'', ''pastebin'',
     ''patreon'', ''pawchive'', ''paypal'', ''paypal@cn'', ''pbs'', ''pccw'', ''pchome'', ''pearson'',
     ''pearson@cn'', ''peppy'', ''perl'', ''perplexity'', ''petrochina'', ''pgyer'', ''phoenix'',
     ''picacg'', ''picacg@ads'', ''picsee'', ''pikpak'', ''pikpak@ads'', ''pinduoduo'', ''pingan'',
     ''pingan@!cn'', ''pingcap'', ''pinggy'', ''pingpe'', ''pingsx'', ''pinkcore'', ''pinterest'',
     ''piratebay'', ''pixhost'', ''pixiv'', ''pixiv@ads'', ''pixnet'', ''playboy'', ''playcover'',
     ''playstation'', ''plex'', ''plutotv'', ''pocketcasts'', ''poe'', ''polocloud'', ''polymer'',
     ''polyu'', ''polyv'', ''pornhub'', ''pornpros'', ''positive-technologies'', ''postimages'', ''pptv'',
     ''primevideo'', ''primevideo@cn'', ''private'', ''progress'', ''projectpoi'', ''projectsekai'',
     ''proquest'', ''protonmail'', ''pstorage'', ''ptt'', ''pubg'', ''pubmatic'', ''pugpig'',
     ''purikonejp'', ''python'', ''qcc'', ''qcloud'', ''qcloud@!cn'', ''qianxin'', ''qihoo360'',
     ''qihoo360@ads'', ''qimao'', ''qingcloud'', ''qingtingfm'', ''qiniu'', ''qixin'', ''qnap'',
     ''qnap@cn'', ''qt'', ''qualcomm'', ''qualcomm@cn'', ''quantil'', ''quip'', ''quora'', ''qwant'',
     ''qweather'', ''radiko'', ''raiffeisenbank'', ''rakuten'', ''rarbg'', ''razer'', ''razer@cn'', ''rb'',
     ''rb@cn'', ''reabble'', ''reabble@cn'', ''readthedocs'', ''reagroup'', ''realclear'',
     ''realitykings'', ''realtype'', ''rebrandly'', ''reddit'', ''redhat'', ''redis'', ''redotpay'',
     ''redtube'', ''regru'', ''remnawave'', ''renren'', ''reurl'', ''reuters'', ''rferl'', ''riot'',
     ''riot@cn'', ''roblox'', ''rockstar'', ''roku'', ''rossiyasegodnya'', ''rostelecom'',
     ''rostelecom@ads'', ''rsshub'', ''rsshub-3rd'', ''rt'', ''rthk'', ''ruanmei'', ''ruby'',
     ''rubychina'', ''ruleoflaw'', ''rumble'', ''rust'', ''ruten'', ''rutracker'', ''rutube'', ''safepal'',
     ''sakurafrp'', ''salesforce'', ''samsung'', ''samsung@ads'', ''samsung@cn'', ''sankei'', ''sb'',
     ''sber'', ''sber@ads'', ''scala'', ''scaleflex'', ''scenesource'', ''schoopia'', ''schwab'', ''sci'',
     ''sci-hub'', ''sciencedirect'', ''scmp'', ''scp'', ''seasun'', ''secom'', ''sectigo'', ''sectigo@cn'',
     ''segment'', ''segment@ads'', ''segmentfault'', ''sehuatang'', ''selectel'', ''sentry'',
     ''servicepipe'', ''setapp'', ''setn'', ''sf-express'', ''shadowsockscom'', ''shanbay'', ''sharethis'',
     ''shireyishunjian'', ''shopee'', ''shopee@cn'', ''shopify'', ''shorturl'', ''showtimeanytime'',
     ''shuqi'', ''signal'', ''sina'', ''sina@!cn'', ''sina@ads'', ''singtaonewscorp'', ''sinopec'',
     ''sitepoint'', ''skillshare'', ''sky'', ''sky@cn'', ''skyeng'', ''skyperfect'', ''slack'',
     ''slideshare'', ''sling'', ''smartone'', ''smena'', ''smtiaojiaoshi'', ''smzdm'', ''snap'',
     ''snap@ads'', ''snapcraft'', ''snapp'', ''snk'', ''snodehome'', ''softbank'', ''softether'',
     ''sogou'', ''sogou@ads'', ''sohu'', ''sohu@ads'', ''sokolov'', ''sonemic'', ''sony'',
     ''sonypictures'', ''soundcloud'', ''soundofhope'', ''sourceforge'', ''sourcehut'', ''soyjakparty'',
     ''spacemail'', ''spaceship'', ''spacex'', ''spankbang'', ''speedtest'', ''speedtest@ads'',
     ''spiceworks'', ''spotify'', ''spotify@ads'', ''springer'', ''squareup'', ''squirrelvpn'', ''sslcom'',
     ''sslcom@cn'', ''ssrcloud'', ''st'', ''st@cn'', ''stackexchange'', ''stackpath'', ''stage1st'',
     ''standardchartered'', ''starbucks'', ''starbucks@cn'', ''starfieldtech'', ''starplus'',
     ''startpage'', ''starworld'', ''staticfile'', ''steam'', ''steam@cn'', ''steaminventoryhelper'',
     ''steamunlocked'', ''steemit'', ''sto-express'', ''straitsx'', ''streamable'', ''strepsils'',
     ''strepsils@cn'', ''strikingly'', ''stripe'', ''subscene'', ''suishouji'', ''sumkoo'', ''suning'',
     ''supercell'', ''supersonic'', ''supersonic@ads'', ''surflite'', ''suruga-ya'', ''svp'', ''swag'',
     ''swift'', ''swift@cn'', ''swisssign'', ''sxl'', ''symantec'', ''symantec-pki'', ''synology'',
     ''synology@cn'', ''t2-ru'', ''taboola'', ''taihe'', ''taikang'', ''tailscale'', ''take-two'',
     ''talkatone'', ''taomee'', ''taptap'', ''taptap@!cn'', ''target'', ''taylorfrancis'', ''tbank-ru'',
     ''tcl'', ''tcl@ads'', ''teambition'', ''teamspeak'', ''teamviewer'', ''teamviewer@cn'', ''technogym'',
     ''techpowerup'', ''techtimes'', ''ted'', ''telegram'', ''telekom'', ''temp-mail'', ''tencent'',
     ''tencent-dev'', ''tencent-dev@ads'', ''tencent-games'', ''tencent-tme'', ''tencent-tme@ads'',
     ''tencent@!cn'', ''tencent@ads'', ''tendcloud'', ''tendcloud@ads'', ''terabox'', ''termux'',
     ''tesla'', ''tesla@cn'', ''test'', ''test-ipv6'', ''test-ipv6@cn'', ''tex'', ''tgbus'',
     ''theboringcompany'', ''theguardian'', ''theinitium'', ''thelinuxfoundation'',
     ''thelinuxfoundation@cn'', ''theporndude'', ''thescoregroup'', ''thesun'', ''thetimes'', ''thetype'',
     ''thetype@cn'', ''thomsonreuters'', ''threads'', ''tiancity'', ''tianyancha'', ''tidal'',
     ''tidelift'', ''tiktok'', ''tiktok@!cn'', ''tiktok@ads'', ''tilda'', ''timeweb'', ''tinyurl'',
     ''tld-!cn'', ''tld-cn'', ''tld-opennic'', ''tld-ru'', ''tmdb'', ''tmtpost'', ''tokyo-sports'',
     ''tokyo-toshokan'', ''tonec'', ''tongcheng'', ''tongfang'', ''tor'', ''torproject'',
     ''trackernetwork'', ''trae'', ''translatewiki'', ''trello'', ''trustasia'', ''trustwallet'',
     ''trustwave'', ''truyen-hentai'', ''tsquare'', ''tube8'', ''tubi'', ''tumblr'', ''tutanota'', ''tvb'',
     ''tvb@cn'', ''tvdb'', ''tver'', ''twca'', ''twilio'', ''twitch'', ''twitter'', ''twitter@ads'',
     ''typekit'', ''typenetwork'', ''typography'', ''uber'', ''ubiquiti'', ''ubiquiti@cn'', ''ubisoft'',
     ''ubuntu'', ''ubuntukylin'', ''uc'', ''uc@ads'', ''ucloud'', ''ucoz'', ''udacity'', ''udemy'',
     ''udn'', ''umeng'', ''umeng@ads'', ''unext'', ''unionpay'', ''unity'', ''unity@ads'', ''unitychina'',
     ''unitychina@ads'', ''uoliv'', ''upai'', ''usersdrive'', ''uu-chat'', ''v2ray'', ''v8'', ''vancl'',
     ''vanish'', ''vanish@cn'', ''vaptcha'', ''veet'', ''veet@cn'', ''vercel'', ''verisign'',
     ''verisign-pki'', ''verizon'', ''vgtime'', ''viber'', ''vilavpn'', ''vimeo'', ''visa'', ''visa@cn'',
     ''visualarts'', ''viu'', ''vivo'', ''vivo@!cn'', ''vixengroup'', ''vk'', ''vk@ads'', ''vmware'',
     ''vmware@cn'', ''voanews'', ''vodafone'', ''vokino'', ''volcengine'', ''volmoe'', ''volvo'',
     ''volvo@cn'', ''voxmedia'', ''vpngate'', ''vrcdn'', ''vrchat'', ''vrzwk'', ''vultr'', ''w3schools'',
     ''wallhaven'', ''walmart'', ''walmart@cn'', ''wanfang'', ''wangsu'', ''wanmei'', ''wantmedia'',
     ''wargaming'', ''wasu'', ''watchout'', ''wbgames'', ''weathercn'', ''webex'', ''webex@cn'',
     ''webnovel'', ''webnovel@!cn'', ''webtype'', ''weiphone'', ''wenshushu'', ''westerndigital'',
     ''westerndigital@cn'', ''whatsapp'', ''wholefoodsmarket'', ''whoosh'', ''wikidot'', ''wikihow'',
     ''wikimedia'', ''wildberries'', ''wildberries@ads'', ''windsurf'', ''windy'', ''wink'', ''winline'',
     ''wise'', ''wisekey'', ''wish'', ''wistia'', ''wiwide'', ''wix'', ''wjx'', ''wolai'', ''woolite'',
     ''woolite@cn'', ''wordpress'', ''wps'', ''wsj'', ''wwe'', ''wynd'', ''x'', ''x5'', ''x5@ads'',
     ''x@ads'', ''xai'', ''xbox'', ''xbox@cn'', ''xd'', ''xd@!cn'', ''xda'', ''xdty'', ''xedge'',
     ''xhamster'', ''xhamster@ads'', ''xiaoheihe'', ''xiaohongshu'', ''xiaohongshu@!cn'', ''xiaomi'',
     ''xiaomi-ai'', ''xiaomi-iot'', ''xiaomi@!cn'', ''xiaomi@ads'', ''xiaoyuzhou'', ''ximalaya'',
     ''ximalaya@ads'', ''xingkongwuxianmedia'', ''xingrz'', ''xnxx'', ''xtom'', ''xueersi'', ''xueqiu'',
     ''xunlei'', ''xvideos'', ''yahoo'', ''yahoo@ads'', ''yahoo@cn'', ''yandex'', ''yandex@ads'',
     ''ycombinator'', ''ymtc'', ''ynet'', ''ynoproject'', ''yokaverse'', ''yomiuri'', ''yostar'',
     ''yostar@cn'', ''youjizz'', ''youku'', ''youku@!cn'', ''youku@ads'', ''youmind'', ''youporn'',
     ''youquan'', ''youtube'', ''youtube@ads'', ''youtube@cn'', ''youzan'', ''yto-express'', ''yuanbei'',
     ''yuanfudao'', ''yuewen'', ''yuewen@!cn'', ''yuketang'', ''yundaex'', ''yunfanjiasu'', ''yunlaopo'',
     ''yy'', ''z-library'', ''z3x-team'', ''zaobao'', ''zb'', ''zdns'', ''zee'', ''zeetv'', ''zendesk'',
     ''zeplin'', ''zhangtao'', ''zhihu'', ''zhihu@ads'', ''zhimeishe'', ''zhubajie'', ''ziroom'', ''zoho'',
     ''zoom'', ''zotero'', ''zscaler'', ''zte'', ''zto-express'', ''zuoyebang'', ''zuoyebang@ads'',
     ''zynga'']"

end
