(* ===== verification/Yaml.thy ===== *)
theory Yaml
  imports Json "HOL-Library.Multiset"
begin

text \<open>
  \<open>serde_yaml_ng::Value\<close>: its accessors look through tags, a pattern match does not. A
  \<open>Mapping\<close> is an insertion-ordered map whose keys are arbitrary values: \<^term>\<open>ymap_put\<close>
  replaces a value in place or appends, \<^term>\<open>ymap_remove\<close> is the documented
  \<open>swap_remove\<close> (the last entry takes the removed one's place).
\<close>

datatype yaml =
    YNull
  | YBool bool
  | YNum number
  | YStr string
  | YSeq "yaml list"
  | YMap "(yaml \<times> yaml) list"
  | YTagged string yaml

type_synonym ymapping = "(yaml \<times> yaml) list"

fun untag :: "yaml \<Rightarrow> yaml" where
  "untag (YTagged t v) = untag v"
| "untag v = v"

definition y_str :: "yaml \<Rightarrow> string option" where
  "y_str v = (case untag v of YStr s \<Rightarrow> Some s | _ \<Rightarrow> None)"

definition y_bool :: "yaml \<Rightarrow> bool option" where
  "y_bool v = (case untag v of YBool b \<Rightarrow> Some b | _ \<Rightarrow> None)"

definition y_u64 :: "yaml \<Rightarrow> nat option" where
  "y_u64 v = (case untag v of YNum (PosInt n) \<Rightarrow> Some n | _ \<Rightarrow> None)"

definition y_seq :: "yaml \<Rightarrow> yaml list option" where
  "y_seq v = (case untag v of YSeq xs \<Rightarrow> Some xs | _ \<Rightarrow> None)"

definition y_map :: "yaml \<Rightarrow> ymapping option" where
  "y_map v = (case untag v of YMap m \<Rightarrow> Some m | _ \<Rightarrow> None)"

definition ymap_get :: "ymapping \<Rightarrow> string \<Rightarrow> yaml option" where
  "ymap_get m k = map_of m (YStr k)"

text \<open>\<open>value.get(key)\<close> on a value.\<close>

definition y_get :: "yaml \<Rightarrow> string \<Rightarrow> yaml option" where
  "y_get v k = Option.bind (y_map v) (\<lambda>m. ymap_get m k)"

definition ymap_str :: "ymapping \<Rightarrow> string \<Rightarrow> string option" where
  "ymap_str m k = Option.bind (ymap_get m k) y_str"

definition ymap_bool :: "ymapping \<Rightarrow> string \<Rightarrow> bool option" where
  "ymap_bool m k = Option.bind (ymap_get m k) y_bool"

fun assoc_put :: "'k \<Rightarrow> 'v \<Rightarrow> ('k \<times> 'v) list \<Rightarrow> ('k \<times> 'v) list" where
  "assoc_put k v [] = [(k, v)]"
| "assoc_put k v ((k', v') # m) = (if k = k' then (k', v) # m else (k', v') # assoc_put k v m)"

definition ymap_put :: "string \<Rightarrow> yaml \<Rightarrow> ymapping \<Rightarrow> ymapping" where
  "ymap_put k v m = assoc_put (YStr k) v m"

fun key_index :: "'k \<Rightarrow> ('k \<times> 'v) list \<Rightarrow> nat option" where
  "key_index k [] = None"
| "key_index k ((k', v) # m) = (if k = k' then Some 0 else map_option Suc (key_index k m))"

definition swap_remove_at :: "nat \<Rightarrow> 'a list \<Rightarrow> 'a list" where
  "swap_remove_at i xs = butlast (xs[i := last xs])"

definition ymap_remove :: "string \<Rightarrow> ymapping \<Rightarrow> ymapping" where
  "ymap_remove k m =
     (case key_index (YStr k) m of None \<Rightarrow> m | Some i \<Rightarrow> swap_remove_at i m)"

definition ymap_wf :: "ymapping \<Rightarrow> bool" where
  "ymap_wf m \<longleftrightarrow> distinct (map fst m)"

section \<open>Laws\<close>

lemma y_simps [simp]:
  "y_str (YStr s) = Some s" "y_str YNull = None" "y_str (YBool b) = None" "y_str (YNum n) = None"
  "y_str (YSeq xs) = None" "y_str (YMap m) = None" "y_str (YTagged t v) = y_str v"
  "y_bool (YBool b) = Some b" "y_bool YNull = None" "y_bool (YStr s) = None" "y_bool (YNum n) = None"
  "y_bool (YSeq xs) = None" "y_bool (YMap m) = None" "y_bool (YTagged t v) = y_bool v"
  "y_u64 (YNum (PosInt u)) = Some u" "y_u64 (YNum (NegInt i)) = None" "y_u64 (YNum (Float f)) = None"
  "y_u64 YNull = None" "y_u64 (YBool b) = None" "y_u64 (YStr s) = None" "y_u64 (YSeq xs) = None"
  "y_u64 (YMap m) = None" "y_u64 (YTagged t v) = y_u64 v"
  "y_seq (YSeq xs) = Some xs" "y_seq YNull = None" "y_seq (YBool b) = None" "y_seq (YStr s) = None"
  "y_seq (YNum n) = None" "y_seq (YMap m) = None" "y_seq (YTagged t v) = y_seq v"
  "y_map (YMap m) = Some m" "y_map YNull = None" "y_map (YBool b) = None" "y_map (YStr s) = None"
  "y_map (YNum n) = None" "y_map (YSeq xs) = None" "y_map (YTagged t v) = y_map v"
  by (simp_all add: y_str_def y_bool_def y_u64_def y_seq_def y_map_def)

lemma y_get_YMap [simp]: "y_get (YMap m) k = ymap_get m k"
  by (simp add: y_get_def)

lemma ymap_get_simps [simp]:
  "ymap_get [] k = None"
  "ymap_get ((k', v) # m) k = (if k' = YStr k then Some v else ymap_get m k)"
  by (simp_all add: ymap_get_def)

lemma map_of_assoc_put: "map_of (assoc_put k v m) k' = (if k' = k then Some v else map_of m k')"
  by (induction m) auto

lemma keys_assoc_put: "set (map fst (assoc_put k v m)) = insert k (set (map fst m))"
  by (induction k v m rule: assoc_put.induct) (simp_all, blast?)

lemma distinct_assoc_put: "distinct (map fst m) \<Longrightarrow> distinct (map fst (assoc_put k v m))"
proof (induction k v m rule: assoc_put.induct)
  case (2 k v k' v' m)
  then show ?case using keys_assoc_put [of k v m] by auto
qed simp

lemma ymap_get_put: "ymap_get (ymap_put k v m) k' = (if k' = k then Some v else ymap_get m k')"
  by (simp add: ymap_get_def ymap_put_def map_of_assoc_put)

lemma key_index_Some: "key_index k m = Some i \<Longrightarrow> i < length m \<and> fst (m ! i) = k"
  by (induction m arbitrary: i) (auto split: if_splits)

lemma key_index_None: "key_index k m = None \<longleftrightarrow> k \<notin> set (map fst m)"
  by (induction m) (auto split: if_splits)

lemma swap_remove_at_mset:
  "i < length xs \<Longrightarrow> mset (swap_remove_at i xs) = mset xs - {#xs ! i#}"
proof -
  assume i: "i < length xs"
  then obtain ys y where xs: "xs = ys @ [y]" by (cases xs rule: rev_cases) auto
  show ?thesis
  proof (cases "i < length ys")
    case True
    then show ?thesis
      by (simp add: xs swap_remove_at_def list_update_append nth_append mset_update)
  next
    case False
    with i xs show ?thesis by (simp add: swap_remove_at_def list_update_append nth_append)
  qed
qed

lemma map_of_eq_mset:
  assumes "mset xs = mset ys" "distinct (map fst xs)"
  shows "map_of xs = map_of ys"
proof -
  have "mset (map fst xs) = mset (map fst ys)" using assms(1) by simp
  then have "distinct (map fst ys)" using assms(2) mset_eq_imp_distinct_iff by blast
  then show ?thesis using assms(2) mset_eq_setD [OF assms(1)] by (simp add: map_of_inject_set)
qed

lemma swap_remove_remove1:
  "i < length xs \<Longrightarrow> mset (swap_remove_at i xs) = mset (take i xs @ drop (Suc i) xs)"
proof -
  assume i: "i < length xs"
  have "mset xs = mset (take i xs @ xs ! i # drop (Suc i) xs)" using id_take_nth_drop [OF i] by simp
  with i show ?thesis by (simp add: swap_remove_at_mset)
qed

lemma ymap_get_remove:
  assumes "ymap_wf m"
  shows "ymap_get (ymap_remove k m) k' = (if k' = k then None else ymap_get m k')"
    and "ymap_wf (ymap_remove k m)"
proof -
  have "ymap_get (ymap_remove k m) k' = (if k' = k then None else ymap_get m k') \<and> ymap_wf (ymap_remove k m)"
  proof (cases "key_index (YStr k) m")
    case None
    then have "map_of m (YStr k) = None" by (simp add: key_index_None map_of_eq_None_iff)
    with None assms show ?thesis by (simp add: ymap_remove_def ymap_get_def)
  next
    case (Some i)
    then have i: "i < length m" and k: "fst (m ! i) = YStr k" by (auto dest: key_index_Some)
    define r where "r = take i m @ drop (Suc i) m"
    have m: "m = take i m @ m ! i # drop (Suc i) m" using i by (rule id_take_nth_drop)
    have mset: "mset r = mset (swap_remove_at i m)" using swap_remove_remove1 [OF i] by (simp add: r_def)
    have "distinct (map fst (take i m @ m ! i # drop (Suc i) m))"
      using assms m by (simp add: ymap_wf_def)
    then have d: "distinct (map fst r)" and nk: "YStr k \<notin> set (map fst r)"
      by (auto simp: r_def k simp flip: set_map)
    have "distinct (map fst (swap_remove_at i m))"
      using d mset by (metis mset_eq_imp_distinct_iff mset_map)
    moreover have "map_of (swap_remove_at i m) (YStr k') = (if k' = k then None else map_of m (YStr k'))"
    proof -
      have "map_of (swap_remove_at i m) = map_of r" using map_of_eq_mset [OF mset d] by simp
      moreover have "map_of r (YStr k) = None" using nk by (simp add: map_of_eq_None_iff)
      moreover have "k' \<noteq> k \<Longrightarrow> map_of m (YStr k') = map_of r (YStr k')"
        by (subst m) (cases "m ! i", use k in \<open>auto simp: r_def map_add_def split: option.splits\<close>)
      ultimately show ?thesis by simp
    qed
    ultimately show ?thesis using Some by (simp add: ymap_remove_def ymap_get_def ymap_wf_def)
  qed
  then show "ymap_get (ymap_remove k m) k' = (if k' = k then None else ymap_get m k')"
    and "ymap_wf (ymap_remove k m)" by auto
qed

lemma ymap_wf_put: "ymap_wf m \<Longrightarrow> ymap_wf (ymap_put k v m)"
  by (simp add: ymap_wf_def ymap_put_def distinct_assoc_put)

interpretation ymap: keyed_store ymap_get ymap_put
  by unfold_locales (rule ymap_get_put)

interpretation ymap_rem: removable_store ymap_get ymap_put ymap_remove ymap_wf
  by unfold_locales (simp_all add: ymap_get_remove ymap_wf_put)

end
