(* ===== verification/Geo.thy ===== *)
theory Geo
  imports Geo_Names Yaml
begin

text \<open>
  Geo rule-sets and rule-providers (\<open>src-tui/src/singbox/convert.rs\<close>): which clash
  \<open>GEOIP\<close>/\<open>GEOSITE\<close> values have a sing-box form, the remote rule-set definition of a
  published tag, and the conversion of a profile's \<open>rule-providers\<close>. The lemmas show that a
  synthesised tag is always a downloadable rule-set with that tag, and that every provider is
  either converted or reported.
\<close>

section \<open>Published names\<close>

definition published_geo_names :: "string \<Rightarrow> string list" where
  "published_geo_names kind =
     (if kind = ''geoip'' then published_geoip_names
      else if kind = ''geosite'' then published_geosite_names
      else [])"

definition is_published_geo_name :: "string \<Rightarrow> string \<Rightarrow> bool" where
  "is_published_geo_name kind name =
     (if name = [] \<or> CHR ''/'' \<in> set name then False
      else name \<in> set (published_geo_names kind))"

definition private_ip_geo_values :: "string list" where
  "private_ip_geo_values = [''lan'', ''private'', ''local'']"

definition geosite_pseudo_values :: "(string \<times> string) list" where
  "geosite_pseudo_values = [(''private'', ''geosite-private''), (''lan'', ''geosite-private'')]"

section \<open>Classification of a clash geo value\<close>

datatype geo_value_match = GeoRuleSet string | PrivateNetworks

definition classify_geo_value :: "string \<Rightarrow> string \<Rightarrow> geo_value_match option" where
  "classify_geo_value kind value0 =
     (let value = trim value0 in
      if value = [] \<or> starts_with value ''!'' then None
      else
        (let normalized = to_ascii_lowercase value in
         if kind = ''geoip'' \<and> normalized \<in> set private_ip_geo_values then Some PrivateNetworks
         else if kind = ''geosite'' then
           (case map_of geosite_pseudo_values normalized of
              Some tag \<Rightarrow> Some (GeoRuleSet tag)
            | None \<Rightarrow>
                if is_published_geo_name ''geosite'' normalized
                then Some (GeoRuleSet (''geosite-'' @ normalized)) else None)
         else if kind = ''geoip'' \<and> is_published_geo_name ''geoip'' normalized
         then Some (GeoRuleSet (''geoip-'' @ normalized))
         else None))"

section \<open>The rule-set definition of a tag\<close>

definition geoip_rule_set_base :: string where
  "geoip_rule_set_base = ''https://raw.githubusercontent.com/SagerNet/sing-geoip/rule-set''"

definition geosite_rule_set_base :: string where
  "geosite_rule_set_base = ''https://raw.githubusercontent.com/SagerNet/sing-geosite/rule-set''"

definition remote_rule_set :: "string \<Rightarrow> string \<Rightarrow> json" where
  "remote_rule_set tag url =
     mk_obj [(''type'', JStr ''remote''), (''tag'', JStr tag), (''format'', JStr ''binary''),
             (''url'', JStr url), (''download_detour'', JStr ''direct''),
             (''update_interval'', JStr ''168h'')]"

definition geo_rule_set :: "string \<Rightarrow> json option" where
  "geo_rule_set tag =
     Option.bind
       (or_else (map_option (\<lambda>name. (''geoip'', name)) (strip_prefix ''geoip-'' tag))
                (map_option (\<lambda>name. (''geosite'', name)) (strip_prefix ''geosite-'' tag)))
       (\<lambda>(kind, name).
          if \<not> is_published_geo_name kind name then None
          else
            (let base = (if kind = ''geoip'' then geoip_rule_set_base else geosite_rule_set_base)
             in Some (remote_rule_set tag (base @ ''/'' @ tag @ ''.srs''))))"

section \<open>Rule providers\<close>

datatype provider_skip =
    ProviderNotSrs string string string \<comment> \<open>name, url, behavior\<close>
  | ProviderNoUrl string

record rule_provider_conversion =
  rp_rule_sets :: "json list"
  rp_skipped :: "provider_skip list"

definition publishable_rule_set_url :: "string \<Rightarrow> bool" where
  "publishable_rule_set_url url =
     ends_with (to_ascii_lowercase (hd (split_any ''?#'' url))) ''.srs''"

text \<open>The two spellings of \<open>rule-providers\<close>: a mapping of names, or a list of entries with a
  \<open>name\<close> field.\<close>

definition provider_entries :: "yaml \<Rightarrow> (string \<times> yaml) list" where
  "provider_entries providers =
     (case providers of
        YMap m \<Rightarrow> filter_map (\<lambda>(name, entry). map_option (\<lambda>n. (n, entry)) (y_str name)) m
      | YSeq ps \<Rightarrow>
          filter_map (\<lambda>p. map_option (\<lambda>n. (n, p)) (Option.bind (y_get p ''name'') y_str)) ps
      | _ \<Rightarrow> [])"

text \<open>One entry: \<open>None\<close> when it is not a mapping (it is passed over).\<close>

definition convert_provider :: "string \<Rightarrow> yaml \<Rightarrow> (json, provider_skip) result option" where
  "convert_provider name provider =
     (case provider of
        YMap entry \<Rightarrow>
          Some (case ymap_str entry ''url'' of
                  Some url \<Rightarrow>
                    if publishable_rule_set_url url then Inr (remote_rule_set name url)
                    else Inl (ProviderNotSrs name url
                                (unwrap_or (ymap_str entry ''behavior'') ''unknown behavior''))
                | None \<Rightarrow> Inl (ProviderNoUrl name))
      | _ \<Rightarrow> None)"

definition add_provider :: "string \<times> yaml \<Rightarrow> rule_provider_conversion \<Rightarrow> rule_provider_conversion" where
  "add_provider np out =
     (case convert_provider (fst np) (snd np) of
        None \<Rightarrow> out
      | Some (Inr s) \<Rightarrow> out\<lparr>rp_rule_sets := rp_rule_sets out @ [s]\<rparr>
      | Some (Inl k) \<Rightarrow> out\<lparr>rp_skipped := rp_skipped out @ [k]\<rparr>)"

definition rule_providers_of_doc :: "yaml \<Rightarrow> rule_provider_conversion" where
  "rule_providers_of_doc doc =
     (let empty = \<lparr>rp_rule_sets = [], rp_skipped = []\<rparr> in
      case doc of
        YMap m \<Rightarrow>
          (case ymap_get m ''rule-providers'' of
             None \<Rightarrow> empty
           | Some providers \<Rightarrow> fold add_provider (provider_entries providers) empty)
      | _ \<Rightarrow> empty)"

text \<open>\<open>parse\<close> stands for \<open>serde_yaml_ng::from_str\<close>.\<close>

datatype yaml_error = InvalidYaml

definition convert_rule_providers ::
  "(string \<Rightarrow> yaml option) \<Rightarrow> string \<Rightarrow> (rule_provider_conversion, yaml_error) result" where
  "convert_rule_providers parse config_yaml =
     rbind (ok_or (parse config_yaml) InvalidYaml) (\<lambda>doc. Inr (rule_providers_of_doc doc))"

section \<open>Properties\<close>

lemma geosite_private_published: "is_published_geo_name ''geosite'' ''private''"
  unfolding is_published_geo_name_def published_geo_names_def published_geosite_names_def by simp

lemma geoip_cn_published: "is_published_geo_name ''geoip'' ''cn''"
  unfolding is_published_geo_name_def published_geo_names_def published_geoip_names_def by simp

lemma geoip_lan_not_published:
  "\<not> is_published_geo_name ''geoip'' ''lan''"
  "\<not> is_published_geo_name ''geoip'' ''private''"
  "\<not> is_published_geo_name ''geoip'' ''local''"
  unfolding is_published_geo_name_def published_geo_names_def published_geoip_names_def by simp_all

lemma remote_rule_set_simps [simp]:
  "tag_of (remote_rule_set tag url) = Some tag"
  "get_str (remote_rule_set tag url) ''type'' = Some ''remote''"
  "get_str (remote_rule_set tag url) ''url'' = Some url"
  "get_str (remote_rule_set tag url) ''download_detour'' = Some ''direct''"
  "is_object (remote_rule_set tag url)"
  by (simp_all add: remote_rule_set_def tag_of_def get_str_mk_obj)

lemma geo_rule_set_Some:
  "geo_rule_set tag = Some s \<Longrightarrow>
     \<exists>kind name url. tag = kind @ ''-'' @ name \<and> is_published_geo_name kind name \<and>
       s = remote_rule_set tag url"
proof -
  assume s: "geo_rule_set tag = Some s"
  show ?thesis
  proof (cases "strip_prefix ''geoip-'' tag")
    case (Some name)
    with s have "tag = ''geoip'' @ ''-'' @ name \<and> is_published_geo_name ''geoip'' name \<and>
        (\<exists>url. s = remote_rule_set tag url)"
      by (auto simp: geo_rule_set_def Let_def split: if_splits)
    then show ?thesis by blast
  next
    case None
    with s obtain name where "strip_prefix ''geosite-'' tag = Some name"
      by (cases "strip_prefix ''geosite-'' tag") (simp_all add: geo_rule_set_def)
    with None s have "tag = ''geosite'' @ ''-'' @ name \<and> is_published_geo_name ''geosite'' name \<and>
        (\<exists>url. s = remote_rule_set tag url)"
      by (auto simp: geo_rule_set_def Let_def split: if_splits)
    then show ?thesis by blast
  qed
qed

lemma geo_rule_set_tag: "geo_rule_set tag = Some s \<Longrightarrow> tag_of s = Some tag"
  by (auto dest!: geo_rule_set_Some)

lemma geo_rule_set_geoip:
  "is_published_geo_name ''geoip'' name \<Longrightarrow> \<exists>s. geo_rule_set (''geoip-'' @ name) = Some s"
  by (simp add: geo_rule_set_def Let_def)

lemma geo_rule_set_geosite:
  "is_published_geo_name ''geosite'' name \<Longrightarrow> \<exists>s. geo_rule_set (''geosite-'' @ name) = Some s"
  by (simp add: geo_rule_set_def Let_def)

lemma pseudo_tag: "map_of geosite_pseudo_values n = Some tag \<Longrightarrow> tag = ''geosite-'' @ ''private''"
  by (auto simp: geosite_pseudo_values_def split: if_splits)

lemma classify_geo_value_cases:
  assumes "classify_geo_value kind value = Some (GeoRuleSet tag)"
  obtains name where "tag = ''geosite-'' @ name" "is_published_geo_name ''geosite'' name"
  | name where "tag = ''geoip-'' @ name" "is_published_geo_name ''geoip'' name"
  using assms geosite_private_published pseudo_tag [of "to_ascii_lowercase (trim value)" tag]
  unfolding classify_geo_value_def Let_def
  by (auto split: if_splits option.splits)

lemma classify_geo_value_rule_set:
  assumes "classify_geo_value kind value = Some (GeoRuleSet tag)"
  shows "\<exists>s. geo_rule_set tag = Some s \<and> tag_of s = Some tag"
  using assms
proof (rule classify_geo_value_cases)
  fix name assume t: "tag = ''geosite-'' @ name" "is_published_geo_name ''geosite'' name"
  show ?thesis using geo_rule_set_geosite [OF t(2)] geo_rule_set_tag unfolding t(1) by blast
next
  fix name assume t: "tag = ''geoip-'' @ name" "is_published_geo_name ''geoip'' name"
  show ?thesis using geo_rule_set_geoip [OF t(2)] geo_rule_set_tag unfolding t(1) by blast
qed

text \<open>Every provider that is a mapping is converted under its own name or reported.\<close>

lemma fold_add_provider:
  "rp_rule_sets (fold add_provider es out) =
     rp_rule_sets out @ filter_map (\<lambda>(n, p). case convert_provider n p of Some (Inr s) \<Rightarrow> Some s | _ \<Rightarrow> None) es"
  "rp_skipped (fold add_provider es out) =
     rp_skipped out @ filter_map (\<lambda>(n, p). case convert_provider n p of Some (Inl k) \<Rightarrow> Some k | _ \<Rightarrow> None) es"
  by (induction es arbitrary: out)
     (auto simp: add_provider_def split: option.splits sum.splits)

lemma convert_provider_tag:
  "convert_provider name p = Some (Inr s) \<Longrightarrow> tag_of s = Some name"
  by (auto simp: convert_provider_def split: yaml.splits option.splits if_splits)

lemma rule_providers_tags:
  "s \<in> set (rp_rule_sets (rule_providers_of_doc doc)) \<Longrightarrow> \<exists>name url. s = remote_rule_set name url"
  by (auto simp: rule_providers_of_doc_def fold_add_provider convert_provider_def Let_def
           split: yaml.splits option.splits if_splits sum.splits) blast+

text \<open>A geo tag is only ever synthesised for a rule-set that can be downloaded: when a clash geo value is mapped to a
  tag, that tag has a remote rule-set definition carrying the same tag.\<close>

theorem classify_geo_value_downloadable:
  assumes "classify_geo_value kind value = Some (GeoRuleSet tag)"
  shows "\<exists>s. geo_rule_set tag = Some s \<and> tag_of s = Some tag"
  using assms by (rule classify_geo_value_rule_set)

lemma classify_private: "classify_geo_value ''geosite'' ''private'' = Some (GeoRuleSet ''geosite-private'')"
proof -
  have "trim ''private'' = ''private''"
    by (rule trim_id_ends) (simp_all add: ascii_ws_def unicode_ws_def)
  then show ?thesis
    by (simp add: classify_geo_value_def geosite_pseudo_values_def starts_with_def ascii_case_eval Let_def)
qed

theorem classify_geo_value_downloadable_witness:
  "\<exists>s. geo_rule_set ''geosite-private'' = Some s \<and> tag_of s = Some ''geosite-private''"
  by (rule classify_geo_value_downloadable [OF classify_private])

text \<open>Every rule-provider is either converted or reported, in order: the converted rule-sets are remote binary
  rule-sets named like their provider whose URL ends in .srs, and every other mapping entry is skipped with its name.\<close>

theorem rule_providers_partition:
  assumes "doc = YMap m" "ymap_get m ''rule-providers'' = Some providers"
  shows "rp_rule_sets (rule_providers_of_doc doc) =
      filter_map (\<lambda>(n, p). case p of YMap e \<Rightarrow>
          (case ymap_str e ''url'' of
             Some u \<Rightarrow> if publishable_rule_set_url u then Some (remote_rule_set n u) else None | None \<Rightarrow> None) | _ \<Rightarrow> None)
        (provider_entries providers) \<and>
    length (rp_rule_sets (rule_providers_of_doc doc)) + length (rp_skipped (rule_providers_of_doc doc)) =
      length (filter (\<lambda>(n, p). case p of YMap e \<Rightarrow> True | _ \<Rightarrow> False) (provider_entries providers))"
proof -
  have doc: "rule_providers_of_doc doc =
      fold add_provider (provider_entries providers) \<lparr>rp_rule_sets = [], rp_skipped = []\<rparr>"
    using assms by (simp add: rule_providers_of_doc_def)
  have "length (rp_rule_sets (fold add_provider es out)) + length (rp_skipped (fold add_provider es out)) =
      length (rp_rule_sets out) + length (rp_skipped out) +
      length (filter (\<lambda>(n, p). case p of YMap e \<Rightarrow> True | _ \<Rightarrow> False) es)" for es out
    by (induction es arbitrary: out)
       (auto simp: add_provider_def convert_provider_def split: yaml.splits option.splits sum.splits if_splits)
  moreover have "(\<lambda>(n, p). case convert_provider n p of Some (Inr s) \<Rightarrow> Some s | _ \<Rightarrow> None) =
      (\<lambda>(n, p). case p of YMap e \<Rightarrow>
          (case ymap_str e ''url'' of
             Some u \<Rightarrow> if publishable_rule_set_url u then Some (remote_rule_set n u) else None | None \<Rightarrow> None) | _ \<Rightarrow> None)"
    by (auto simp: convert_provider_def fun_eq_iff split: yaml.splits option.splits)
  ultimately show ?thesis by (simp add: doc fold_add_provider)
qed

theorem rule_providers_partition_witness:
  "rp_rule_sets (rule_providers_of_doc (YMap [(YStr ''rule-providers'',
      YMap [(YStr ''ads'', YMap [(YStr ''url'', YStr ''u.srs'')]), (YStr ''old'', YMap [(YStr ''url'', YStr ''u.yaml'')])])])) =
    [remote_rule_set ''ads'' ''u.srs'']"
  using rule_providers_partition [OF refl, of _ "YMap [(YStr ''ads'', YMap [(YStr ''url'', YStr ''u.srs'')]),
      (YStr ''old'', YMap [(YStr ''url'', YStr ''u.yaml'')])]"]
  by (simp add: provider_entries_def y_str_def ymap_str_def publishable_rule_set_url_def ends_with_def ascii_case_eval)

end
