(* ===== verification/Convert_Node.thy ===== *)
theory Convert_Node
  imports Capabilities Geo
begin

text \<open>
  One clash proxy entry to one sing-box outbound
  (\<open>src-tui/src/singbox/convert.rs\<close>, \<open>convert_node\<close> and its helpers). Errors and degradation
  notes are values with one constructor per message of the code. The properties say that the
  identity and the credentials of a node are carried over, that every field that is lost is
  reported, and that a conversion never weakens TLS or the UDP switch.
\<close>

section \<open>Errors and notes\<close>

datatype node_error =
    NotAMapping
  | MissingName
  | MissingType string
  | CriticalField string string
  | MissingServer string
  | MissingPort string
  | UnsupportedType string string
  | FingerprintUnsupported string
  | TlsNotBoolean
  | SkipVerifyNotBoolean
  | TlsFieldNotString string
  | RequiresTls string
  | TlsParametersWithoutTls
  | RealityWithoutKey
  | RealityNotMapping
  | UdpNotBoolean
  | NoTcpOnlyMode string string
  | NotRestrictableToTcp string string
  | NetworkConflict string string bool
  | UdpWithTransport string string
  | UnsupportedTransport string

datatype dropped_note =
    FieldDropped string string
  | UdpNative string string
  | UdpOverStream string string
  | UdpNoRelay string string
  | UdpUnverified string string

record converted_node =
  cn_outbound :: json
  cn_dropped :: "dropped_note list"

section \<open>Tables\<close>

definition reserved_fields :: "string list" where
  "reserved_fields =
     [''name'', ''type'', ''server'', ''port'', ''tls'', ''servername'', ''sni'', ''skip-cert-verify'',
      ''network'', ''ws-opts'', ''grpc-opts'', ''reality-opts'', ''client-fingerprint'', ''udp'']"

definition critical_unsupported_fields :: "string list" where
  "critical_unsupported_fields =
     [''packet-addr'', ''ip-version'', ''smux'', ''obfs'', ''plugin'', ''plugin-opts'']"

type_synonym protocol_fields = "(string \<times> string) list"

definition protocol_maps :: "(string \<times> string \<times> protocol_fields) list" where
  "protocol_maps =
     [(''ss'', ''shadowsocks'', [(''cipher'', ''method''), (''password'', ''password'')]),
      (''vmess'', ''vmess'', [(''uuid'', ''uuid''), (''cipher'', ''security''), (''alterId'', ''alter_id'')]),
      (''vless'', ''vless'', [(''uuid'', ''uuid''), (''flow'', ''flow'')]),
      (''trojan'', ''trojan'', [(''password'', ''password'')]),
      (''hysteria'', ''hysteria'', [(''auth-str'', ''auth_str''), (''up'', ''up_mbps''), (''down'', ''down_mbps'')]),
      (''hysteria2'', ''hysteria2'', [(''password'', ''password''), (''up'', ''up_mbps''), (''down'', ''down_mbps'')]),
      (''tuic'', ''tuic'', [(''uuid'', ''uuid''), (''password'', ''password''),
                        (''congestion-controller'', ''congestion_controller'')]),
      (''naive'', ''naive'', [(''username'', ''username''), (''password'', ''password'')]),
      (''anytls'', ''anytls'', [(''password'', ''password'')]),
      (''http'', ''http'', [(''username'', ''username''), (''password'', ''password'')]),
      (''socks5'', ''socks'', [(''username'', ''username''), (''password'', ''password'')])]"

definition protocol_spec :: "string \<Rightarrow> (string \<times> protocol_fields) option" where
  "protocol_spec ptype = map_of protocol_maps ptype"

text \<open>A number becomes a JSON double; a double that is not finite has no JSON form and is
  written as null.\<close>

definition json_of_f64 :: "f64 \<Rightarrow> json" where
  "json_of_f64 b = (if f64_is_finite b then JNum (Float b) else JNull)"

fun yaml_to_json :: "yaml \<Rightarrow> json option" where
  "yaml_to_json (YStr v) = Some (JStr v)"
| "yaml_to_json (YNum n) = Some (json_of_f64 (number_as_f64 n))"
| "yaml_to_json (YBool b) = Some (JBool b)"
| "yaml_to_json _ = None"

definition opt_yaml_to_json :: "yaml option \<Rightarrow> json option" where
  "opt_yaml_to_json v = Option.bind v yaml_to_json"

section \<open>TLS\<close>

definition native_tls :: "string \<Rightarrow> bool" where
  "native_tls ptype \<longleftrightarrow> ptype \<in> {''trojan'', ''hysteria'', ''hysteria2'', ''tuic'', ''naive'', ''anytls''}"

definition tls_string_fields :: "string list" where
  "tls_string_fields = [''servername'', ''sni'', ''client-fingerprint'']"

definition has :: "ymapping \<Rightarrow> string \<Rightarrow> bool" where
  "has m k \<longleftrightarrow> ymap_get m k \<noteq> None"

definition opt_put :: "string \<Rightarrow> json option \<Rightarrow> jobject \<Rightarrow> jobject" where
  "opt_put k v m = (case v of None \<Rightarrow> m | Some x \<Rightarrow> obj_put k x m)"

definition utls_block :: "string \<Rightarrow> json" where
  "utls_block fingerprint = mk_obj [(''enabled'', JBool True), (''fingerprint'', JStr fingerprint)]"

definition reality_block :: "string \<Rightarrow> string \<Rightarrow> json" where
  "reality_block pk short_id =
     mk_obj [(''enabled'', JBool True), (''public_key'', JStr pk), (''short_id'', JStr short_id)]"

definition tls_base :: "ymapping \<Rightarrow> jobject" where
  "tls_base m =
     (let tls = mk_fields [(''enabled'', JBool True)];
          tls = opt_put ''server_name''
                  (map_option JStr (Option.bind (or_else (ymap_get m ''servername'') (ymap_get m ''sni'')) y_str)) tls
      in if unwrap_or (ymap_bool m ''skip-cert-verify'') False
         then obj_put ''insecure'' (JBool True) tls else tls)"

definition apply_reality :: "ymapping \<Rightarrow> jobject \<Rightarrow> (jobject, node_error) result" where
  "apply_reality m tls =
     (case ymap_get m ''reality-opts'' of
        None \<Rightarrow> Inr tls
      | Some (YMap reality) \<Rightarrow>
          (case ymap_str reality ''public-key'' of
             Some pk \<Rightarrow>
               Inr (obj_put ''reality'' (reality_block pk (unwrap_or (ymap_str reality ''short-id'') []))
                     (obj_put ''utls'' (utls_block ''chrome'') tls))
           | None \<Rightarrow> Inl RealityWithoutKey)
      | Some _ \<Rightarrow> Inl RealityNotMapping)"

definition check_tls_types :: "ymapping \<Rightarrow> (unit, node_error) result" where
  "check_tls_types m =
     rbind (guard (\<not> (has m ''tls'' \<and> ymap_bool m ''tls'' = None)) TlsNotBoolean) (\<lambda>_.
     rbind (guard (\<not> (has m ''skip-cert-verify'' \<and> ymap_bool m ''skip-cert-verify'' = None))
              SkipVerifyNotBoolean) (\<lambda>_.
     check_all (\<lambda>field. guard (\<not> (has m field \<and> ymap_str m field = None)) (TlsFieldNotString field))
       tls_string_fields))"

definition apply_tls :: "string \<Rightarrow> jobject \<Rightarrow> ymapping \<Rightarrow> (jobject, node_error) result" where
  "apply_tls ptype outbound m =
     rbind (check_tls_types m) (\<lambda>_.
       (let explicit_tls = unwrap_or (ymap_bool m ''tls'') False in
        if native_tls ptype \<and> ymap_bool m ''tls'' = Some False then Inl (RequiresTls ptype)
        else if \<not> native_tls ptype \<and> \<not> explicit_tls then
          (if has m ''reality-opts'' \<or> has m ''client-fingerprint'' \<or> has m ''servername'' \<or> has m ''sni''
              \<or> ymap_bool m ''skip-cert-verify'' = Some True
           then Inl TlsParametersWithoutTls
           else Inr outbound)
        else rbind (apply_reality m (tls_base m)) (\<lambda>tls. Inr (obj_put ''tls'' (JObj tls) outbound))))"

section \<open>UDP\<close>

definition apply_udp ::
  "string \<Rightarrow> string \<Rightarrow> jobject \<Rightarrow> ymapping \<Rightarrow> dropped_note list
     \<Rightarrow> (jobject \<times> dropped_note list, node_error) result" where
  "apply_udp ptype name outbound m dropped =
     (case ymap_get m ''udp'' of
        None \<Rightarrow> Inr (outbound, dropped)
      | Some value \<Rightarrow>
          (case y_bool value of
             None \<Rightarrow> Inl UdpNotBoolean
           | Some enabled \<Rightarrow>
               (case udp_relay ptype of
                  NetworkToggle \<Rightarrow>
                    if enabled then Inr (outbound, dropped @ [UdpNative name ptype])
                    else Inr (obj_put ''network'' (JStr ''tcp'') outbound, dropped)
                | UdpOverTcp \<Rightarrow>
                    if enabled then Inr (outbound, dropped @ [UdpOverStream name ptype])
                    else Inl (NoTcpOnlyMode name ptype)
                | NoRelay \<Rightarrow>
                    if enabled then Inr (outbound, dropped @ [UdpNoRelay name ptype])
                    else Inl (NotRestrictableToTcp name ptype)
                | Unverified \<Rightarrow>
                    if enabled then Inr (outbound, dropped @ [UdpUnverified name ptype])
                    else Inl (NotRestrictableToTcp name ptype))))"

section \<open>Transport\<close>

text \<open>The header map of a websocket transport: entries with a string key and a scalar value.\<close>

definition ws_headers :: "ymapping \<Rightarrow> jobject" where
  "ws_headers headers =
     fold (\<lambda>(k, v) acc.
             case k of YStr k' \<Rightarrow> (case yaml_to_json v of Some x \<Rightarrow> obj_put k' x acc | None \<Rightarrow> acc)
             | _ \<Rightarrow> acc)
       headers []"

definition ws_transport :: "ymapping \<Rightarrow> jobject" where
  "ws_transport m =
     (let transport = mk_fields [(''type'', JStr ''ws'')] in
      case ymap_get m ''ws-opts'' of
        Some (YMap opts) \<Rightarrow>
          (let transport = opt_put ''path'' (map_option JStr (ymap_str opts ''path'')) transport
           in case ymap_get opts ''headers'' of
                Some (YMap headers) \<Rightarrow> obj_put ''headers'' (JObj (ws_headers headers)) transport
              | _ \<Rightarrow> transport)
      | _ \<Rightarrow> transport)"

definition grpc_transport :: "ymapping \<Rightarrow> jobject" where
  "grpc_transport m =
     (let transport = mk_fields [(''type'', JStr ''grpc'')] in
      case ymap_get m ''grpc-opts'' of
        Some (YMap opts) \<Rightarrow>
          opt_put ''service_name'' (map_option JStr (ymap_str opts ''grpc-service-name'')) transport
      | _ \<Rightarrow> transport)"

definition apply_transport :: "string \<Rightarrow> jobject \<Rightarrow> ymapping \<Rightarrow> (jobject, node_error) result" where
  "apply_transport ptype outbound m =
     (case ymap_str m ''network'' of
        None \<Rightarrow> Inr outbound
      | Some network \<Rightarrow>
          (let network_toggle = (udp_relay ptype = NetworkToggle) in
           if network_toggle \<and> (network = ''udp'' \<or> network = ''tcp'') then
             (case ymap_bool m ''udp'' of
                Some udp \<Rightarrow>
                  if (network = ''udp'') \<noteq> udp then Inl (NetworkConflict ptype network udp)
                  else Inr (obj_put ''network'' (JStr network) outbound)
              | None \<Rightarrow> Inr (obj_put ''network'' (JStr network) outbound))
           else if network_toggle \<and> (network = ''ws'' \<or> network = ''grpc'') \<and> has m ''udp''
           then Inl (UdpWithTransport ptype network)
           else if network = ''ws'' then Inr (obj_put ''transport'' (JObj (ws_transport m)) outbound)
           else if network = ''grpc'' then Inr (obj_put ''transport'' (JObj (grpc_transport m)) outbound)
           else Inl (UnsupportedTransport network)))"

section \<open>The conversion\<close>

definition is_mapped_field :: "string \<Rightarrow> string \<Rightarrow> bool" where
  "is_mapped_field ptype k \<longleftrightarrow>
     is_some_and (protocol_spec ptype) (\<lambda>(_, fs). \<exists>f \<in> set fs. fst f = k)"

definition dropped_fields :: "string \<Rightarrow> string \<Rightarrow> ymapping \<Rightarrow> dropped_note list" where
  "dropped_fields name ptype m =
     filter_map
       (\<lambda>(key, _). case key of
          YStr k \<Rightarrow> if k \<notin> set reserved_fields \<and> \<not> is_mapped_field ptype k then Some (FieldDropped name k) else None
        | _ \<Rightarrow> None) m"

definition outbound_base :: "string \<Rightarrow> string \<Rightarrow> string \<Rightarrow> nat \<Rightarrow> jobject" where
  "outbound_base sb_type name server port =
     mk_fields [(''type'', JStr sb_type), (''tag'', JStr name), (''server'', JStr server), (''server_port'', mk_nat port)]"

definition map_fields :: "protocol_fields \<Rightarrow> ymapping \<Rightarrow> jobject \<Rightarrow> jobject" where
  "map_fields fs m outbound =
     fold (\<lambda>(ckey, skey). opt_put skey (opt_yaml_to_json (ymap_get m ckey))) fs outbound"

text \<open>\<open>outbound["tls"]["utls"] = ..\<close>: indexing creates a missing or null object on the way; on any other
  kind of value the code would panic, which the checks of \<^term>\<open>apply_tls\<close> exclude.\<close>

definition put_utls :: "string \<Rightarrow> jobject \<Rightarrow> jobject" where
  "put_utls fingerprint outbound =
     (let tls = (case obj_get outbound ''tls'' of Some (JObj t) \<Rightarrow> t | _ \<Rightarrow> [])
      in obj_put ''tls'' (JObj (obj_put ''utls'' (utls_block fingerprint) tls)) outbound)"

definition apply_fingerprint :: "string \<Rightarrow> jobject \<Rightarrow> ymapping \<Rightarrow> (jobject, node_error) result" where
  "apply_fingerprint name outbound m =
     (case ymap_str m ''client-fingerprint'' of
        None \<Rightarrow> Inr outbound
      | Some fingerprint \<Rightarrow>
          if \<not> client_fingerprint sing_box_1_14_2 then Inl (FingerprintUnsupported name)
          else Inr (put_utls fingerprint outbound))"

definition convert_mapping :: "ymapping \<Rightarrow> (converted_node, node_error) result" where
  "convert_mapping m =
     rbind (ok_or (ymap_str m ''name'') MissingName) (\<lambda>name.
     rbind (ok_or (ymap_str m ''type'') (MissingType name)) (\<lambda>ptype.
     (let dropped = dropped_fields name ptype m in
     rbind (case find (has m) critical_unsupported_fields of
              Some field \<Rightarrow> Inl (CriticalField name field) | None \<Rightarrow> Inr ()) (\<lambda>_.
     rbind (ok_or (ymap_str m ''server'') (MissingServer name)) (\<lambda>server.
     rbind (ok_or (Option.bind (ymap_get m ''port'') y_u64) (MissingPort name)) (\<lambda>port.
     rbind (ok_or (protocol_spec ptype) (UnsupportedType ptype name)) (\<lambda>(sb_type, fs).
     (let outbound = map_fields fs m (outbound_base sb_type name server port) in
     rbind (apply_udp ptype name outbound m dropped) (\<lambda>(outbound, dropped).
     rbind (apply_tls ptype outbound m) (\<lambda>outbound.
     rbind (apply_fingerprint name outbound m) (\<lambda>outbound.
     rbind (apply_transport ptype outbound m) (\<lambda>outbound.
       Inr \<lparr>cn_outbound = JObj outbound, cn_dropped = dropped\<rparr>))))))))))))"

definition convert_node :: "yaml \<Rightarrow> (converted_node, node_error) result" where
  "convert_node proxy = (case proxy of YMap m \<Rightarrow> convert_mapping m | _ \<Rightarrow> Inl NotAMapping)"

section \<open>What each step keeps\<close>

lemma obj_get_opt_put: "obj_get (opt_put k v m) k' = (if k' = k \<and> v \<noteq> None then v else obj_get m k')"
  by (cases v) (auto simp: opt_put_def obj_get_put)

lemma ymap_bool_has: "ymap_bool m k = Some b \<Longrightarrow> has m k"
  by (cases "ymap_get m k") (simp_all add: ymap_bool_def has_def)

lemma ymap_str_has: "ymap_str m k = Some s \<Longrightarrow> has m k"
  by (cases "ymap_get m k") (simp_all add: ymap_str_def has_def)

lemma apply_udp_keeps:
  "apply_udp ptype name outbound m dropped = Inr (outbound', dropped') \<Longrightarrow> k \<noteq> ''network'' \<Longrightarrow>
     obj_get outbound' k = obj_get outbound k \<and> set dropped \<subseteq> set dropped'"
  by (auto simp: apply_udp_def obj_get_put split: option.splits udp_relay_mode.splits if_splits)

lemma apply_udp_off:
  "apply_udp ptype name outbound m dropped = Inr (outbound', dropped') \<Longrightarrow> ymap_bool m ''udp'' = Some False \<Longrightarrow>
     udp_relay ptype = NetworkToggle \<and> obj_get outbound' ''network'' = Some (JStr ''tcp'')"
  by (auto simp: apply_udp_def ymap_bool_def obj_get_put split: option.splits udp_relay_mode.splits)

lemma apply_udp_on:
  "apply_udp ptype name outbound m dropped = Inr (outbound', dropped') \<Longrightarrow> ymap_bool m ''udp'' = Some True \<Longrightarrow>
     outbound' = outbound \<and> (\<exists>n \<in> {UdpNative name ptype, UdpOverStream name ptype, UdpNoRelay name ptype, UdpUnverified name ptype}.
        dropped' = dropped @ [n])"
  by (auto simp: apply_udp_def ymap_bool_def split: option.splits udp_relay_mode.splits)

lemma apply_udp_boolean:
  "apply_udp ptype name outbound m dropped = Inr r \<Longrightarrow> has m ''udp'' \<Longrightarrow> ymap_bool m ''udp'' \<noteq> None"
  by (auto simp: apply_udp_def ymap_bool_def has_def split: option.splits)

lemma apply_udp_dropped:
  "apply_udp ptype name outbound m dropped = Inr (outbound', dropped') \<Longrightarrow>
     FieldDropped n k \<in> set dropped' \<longleftrightarrow> FieldDropped n k \<in> set dropped"
  by (auto simp: apply_udp_def split: option.splits udp_relay_mode.splits if_splits)

lemma apply_tls_keeps:
  "apply_tls ptype outbound m = Inr outbound' \<Longrightarrow> k \<noteq> ''tls'' \<Longrightarrow> obj_get outbound' k = obj_get outbound k"
  by (auto simp: apply_tls_def Let_def obj_get_put split: if_splits)

lemma apply_fingerprint_keeps:
  "apply_fingerprint name outbound m = Inr outbound' \<Longrightarrow> k \<noteq> ''tls'' \<Longrightarrow> obj_get outbound' k = obj_get outbound k"
  by (auto simp: apply_fingerprint_def put_utls_def Let_def obj_get_put split: option.splits)

lemma apply_transport_keeps:
  "apply_transport ptype outbound m = Inr outbound' \<Longrightarrow> k \<noteq> ''network'' \<Longrightarrow> k \<noteq> ''transport'' \<Longrightarrow>
     obj_get outbound' k = obj_get outbound k"
  by (auto simp: apply_transport_def Let_def obj_get_put split: option.splits if_splits)

text \<open>A node whose UDP is switched off keeps \<open>network: tcp\<close> through the transport step.\<close>

lemma apply_transport_off:
  assumes "apply_transport ptype outbound m = Inr outbound'" "ymap_bool m ''udp'' = Some False"
    and "udp_relay ptype = NetworkToggle" "obj_get outbound ''network'' = Some (JStr ''tcp'')"
  shows "obj_get outbound' ''network'' = Some (JStr ''tcp'')"
proof -
  have "has m ''udp''" using assms(2) by (rule ymap_bool_has)
  with assms show ?thesis
    by (auto simp: apply_transport_def Let_def obj_get_put split: option.splits if_splits)
qed

section \<open>The tables\<close>

lemma protocol_spec_mem: "protocol_spec ptype = Some spec \<Longrightarrow> (ptype, spec) \<in> set protocol_maps"
  by (simp add: protocol_spec_def map_of_SomeD)

text \<open>The keys the base object and the steps write themselves.\<close>

definition step_keys :: "string set" where
  "step_keys = {''type'', ''tag'', ''server'', ''server_port'', ''network'', ''tls'', ''transport''}"

lemma protocol_maps_ok:
  "\<forall>(ptype, sb, fs) \<in> set protocol_maps. distinct (map snd fs) \<and> snd ` set fs \<inter> step_keys = {}"
  by (simp add: protocol_maps_def step_keys_def)

lemma protocol_fields_ok:
  assumes "protocol_spec ptype = Some (sb, fs)"
  shows "distinct (map snd fs)" and "snd ` set fs \<inter> step_keys = {}"
  using bspec [OF protocol_maps_ok protocol_spec_mem [OF assms]] by simp_all

lemma map_fields_other: "k \<notin> snd ` set fs \<Longrightarrow> obj_get (map_fields fs m outbound) k = obj_get outbound k"
  unfolding map_fields_def
  by (induction fs arbitrary: outbound) (auto simp: obj_get_opt_put)

lemma map_fields_mapped:
  "distinct (map snd fs) \<Longrightarrow> (c, s) \<in> set fs \<Longrightarrow> obj_get outbound s = None \<Longrightarrow>
     obj_get (map_fields fs m outbound) s = opt_yaml_to_json (ymap_get m c)"
proof (induction fs arbitrary: outbound)
  case (Cons f fs)
  obtain c1 s1 where f: "f = (c1, s1)" by fastforce
  let ?o = "opt_put s1 (opt_yaml_to_json (ymap_get m c1)) outbound"
  have step: "map_fields ((c1, s1) # fs) m outbound = map_fields fs m ?o" by (simp add: map_fields_def)
  show ?case
  proof (cases "(c, s) = (c1, s1)")
    case True
    with Cons.prems f have "s \<notin> snd ` set fs" by auto
    then show ?thesis using True Cons.prems(3)
      by (simp add: f step map_fields_other obj_get_opt_put)
  next
    case False
    with Cons.prems f have mem: "(c, s) \<in> set fs" by auto
    then have "s \<noteq> s1" using Cons.prems(1) f by force
    then show ?thesis using Cons.IH [of ?o] Cons.prems mem by (simp add: step f obj_get_opt_put)
  qed
qed simp

section \<open>The stages of a successful conversion\<close>

lemma convert_mapping_stages:
  assumes "convert_mapping m = Inr c"
  obtains name ptype server port sb fs o1 d1 o2 o3 o4 where
    "ymap_str m ''name'' = Some name" "ymap_str m ''type'' = Some ptype"
    "find (has m) critical_unsupported_fields = None"
    "ymap_str m ''server'' = Some server" "Option.bind (ymap_get m ''port'') y_u64 = Some port"
    "protocol_spec ptype = Some (sb, fs)"
    "apply_udp ptype name (map_fields fs m (outbound_base sb name server port)) m (dropped_fields name ptype m)
       = Inr (o1, d1)"
    "apply_tls ptype o1 m = Inr o2" "apply_fingerprint name o2 m = Inr o3"
    "apply_transport ptype o3 m = Inr o4"
    "c = \<lparr>cn_outbound = JObj o4, cn_dropped = d1\<rparr>"
  using assms unfolding convert_mapping_def Let_def
  by (auto split: option.splits)

lemma convert_node_Inr: "convert_node p = Inr c \<longleftrightarrow> (\<exists>m. p = YMap m \<and> convert_mapping m = Inr c)"
  by (auto simp: convert_node_def split: yaml.splits)

text \<open>A key no step writes reads as the field table or the base left it.\<close>

lemma stages_keep:
  assumes "apply_udp ptype name o0 m d0 = Inr (o1, d1)" "apply_tls ptype o1 m = Inr o2"
    "apply_fingerprint name o2 m = Inr o3" "apply_transport ptype o3 m = Inr o4"
    "k \<notin> {''network'', ''tls'', ''transport''}"
  shows "obj_get o4 k = obj_get o0 k"
  using apply_udp_keeps [OF assms(1), of k] apply_tls_keeps [OF assms(2), of k]
    apply_fingerprint_keeps [OF assms(3), of k] apply_transport_keeps [OF assms(4), of k] assms(5)
  by simp

section \<open>The TLS block\<close>

text \<open>What the block must say for a node, read off the clash fields.\<close>

definition wants_tls :: "string \<Rightarrow> ymapping \<Rightarrow> bool" where
  "wants_tls ptype m \<longleftrightarrow> native_tls ptype \<or> ymap_bool m ''tls'' = Some True"

definition sni_of :: "ymapping \<Rightarrow> string option" where
  "sni_of m = Option.bind (or_else (ymap_get m ''servername'') (ymap_get m ''sni'')) y_str"

text \<open>The public key and the short id, which is empty when it is not given.\<close>

definition reality_of :: "ymapping \<Rightarrow> (string \<times> string) option" where
  "reality_of m =
     (case ymap_get m ''reality-opts'' of
        Some (YMap r) \<Rightarrow> map_option (\<lambda>pk. (pk, unwrap_or (ymap_str r ''short-id'') [])) (ymap_str r ''public-key'')
      | _ \<Rightarrow> None)"

definition fingerprint_of :: "ymapping \<Rightarrow> string option" where
  "fingerprint_of m =
     (case ymap_str m ''client-fingerprint'' of
        Some fp \<Rightarrow> Some fp
      | None \<Rightarrow> if reality_of m = None then None else Some ''chrome'')"

definition reality_says :: "(string \<times> string) option \<Rightarrow> json option \<Rightarrow> bool" where
  "reality_says expected block =
     (case expected of
        None \<Rightarrow> block = None
      | Some (pk, short_id) \<Rightarrow> (\<exists>b. block = Some b \<and> json_get b ''enabled'' = Some (JBool True) \<and>
          get_str b ''public_key'' = Some pk \<and> get_str b ''short_id'' = Some short_id))"

definition utls_says :: "string option \<Rightarrow> json option \<Rightarrow> bool" where
  "utls_says expected block =
     (case expected of
        None \<Rightarrow> block = None
      | Some fp \<Rightarrow> (\<exists>b. block = Some b \<and> json_get b ''enabled'' = Some (JBool True) \<and> get_str b ''fingerprint'' = Some fp))"

definition tls_faithful :: "ymapping \<Rightarrow> string option \<Rightarrow> json \<Rightarrow> bool" where
  "tls_faithful m fp tls \<longleftrightarrow>
     json_get tls ''enabled'' = Some (JBool True) \<and>
     json_get tls ''insecure'' = (if ymap_bool m ''skip-cert-verify'' = Some True then Some (JBool True) else None) \<and>
     json_get tls ''server_name'' = map_option JStr (sni_of m) \<and>
     reality_says (reality_of m) (json_get tls ''reality'') \<and> (has m ''reality-opts'' \<longrightarrow> reality_of m \<noteq> None) \<and>
     utls_says fp (json_get tls ''utls'') \<and>
     (\<forall>k. k \<notin> {''enabled'', ''insecure'', ''server_name'', ''reality'', ''utls''} \<longrightarrow> json_get tls k = None)"

lemma tls_base_get:
  "obj_get (tls_base m) k =
     (if k = ''insecure'' \<and> ymap_bool m ''skip-cert-verify'' = Some True then Some (JBool True)
      else if k = ''server_name'' then map_option JStr (sni_of m)
      else if k = ''enabled'' then Some (JBool True) else None)"
  by (cases "ymap_bool m ''skip-cert-verify''")
     (auto simp: tls_base_def Let_def obj_get_put obj_get_opt_put sni_of_def obj_get_mk_fields)

lemma bind_map_JStr [simp]: "Option.bind (map_option JStr x) as_str = x"
  by (cases x) simp_all

lemma reality_block_says: "reality_says (Some (pk, sid)) (Some (reality_block pk sid))"
  by (simp add: reality_says_def reality_block_def get_str_def)

lemma utls_block_says: "utls_says (Some fp) (Some (utls_block fp))"
  by (simp add: utls_says_def utls_block_def get_str_def)

lemma apply_reality_faithful:
  assumes "apply_reality m (tls_base m) = Inr tls"
  shows "tls_faithful m (if reality_of m = None then None else Some ''chrome'') (JObj tls)"
proof (cases "ymap_get m ''reality-opts''")
  case None
  with assms have "tls = tls_base m" by (simp add: apply_reality_def)
  with None show ?thesis
    by (simp add: tls_faithful_def tls_base_get reality_of_def has_def reality_says_def utls_says_def)
next
  case (Some v)
  with assms obtain r pk where r: "v = YMap r" "ymap_str r ''public-key'' = Some pk"
    "tls = obj_put ''reality'' (reality_block pk (unwrap_or (ymap_str r ''short-id'') []))
             (obj_put ''utls'' (utls_block ''chrome'') (tls_base m))"
    by (auto simp: apply_reality_def split: yaml.splits option.splits)
  then show ?thesis using Some
    by (simp add: tls_faithful_def tls_base_get reality_of_def has_def obj_get_put reality_block_says utls_block_says)
qed

lemma apply_tls_block:
  assumes "apply_tls ptype outbound m = Inr outbound'" "obj_get outbound ''tls'' = None"
  shows "if wants_tls ptype m then \<exists>tls. obj_get outbound' ''tls'' = Some (JObj tls) \<and>
             tls_faithful m (if reality_of m = None then None else Some ''chrome'') (JObj tls)
         else outbound' = outbound \<and> \<not> has m ''client-fingerprint''"
proof (cases "wants_tls ptype m")
  case True
  with assms obtain tls where "apply_reality m (tls_base m) = Inr tls" "outbound' = obj_put ''tls'' (JObj tls) outbound"
    by (auto simp: apply_tls_def wants_tls_def Let_def split: if_splits)
  then show ?thesis using True apply_reality_faithful by (auto simp: obj_get_put)
next
  case False
  have nt: "\<not> native_tls ptype" using False by (simp add: wants_tls_def)
  have ne: "\<not> unwrap_or (ymap_bool m ''tls'') False"
    using False by (cases "ymap_bool m ''tls''") (auto simp: wants_tls_def)
  show ?thesis using assms False nt ne by (auto simp: apply_tls_def Let_def split: if_splits)
qed

lemma put_utls_faithful:
  assumes "obj_get outbound ''tls'' = Some (JObj tls)" "tls_faithful m fp' (JObj tls)"
  shows "\<exists>tls'. obj_get (put_utls fp outbound) ''tls'' = Some (JObj tls') \<and> tls_faithful m (Some fp) (JObj tls')"
  using assms by (auto simp: put_utls_def obj_get_put tls_faithful_def utls_block_says)

lemma apply_fingerprint_block:
  assumes "apply_fingerprint name outbound m = Inr outbound'" "obj_get outbound ''tls'' = Some (JObj tls)"
    "tls_faithful m (if reality_of m = None then None else Some ''chrome'') (JObj tls)"
  shows "\<exists>tls'. obj_get outbound' ''tls'' = Some (JObj tls') \<and> tls_faithful m (fingerprint_of m) (JObj tls')"
  using assms put_utls_faithful [OF assms(2,3)]
  by (cases "ymap_str m ''client-fingerprint''") (auto simp: apply_fingerprint_def fingerprint_of_def)

lemma stages_tls:
  assumes "apply_tls ptype o1 m = Inr o2" "apply_fingerprint name o2 m = Inr o3"
    "obj_get o1 ''tls'' = None"
  shows "(obj_get o3 ''tls'' \<noteq> None \<longleftrightarrow> wants_tls ptype m) \<and>
    (\<forall>tls. obj_get o3 ''tls'' = Some tls \<longrightarrow> tls_faithful m (fingerprint_of m) tls)"
proof (cases "wants_tls ptype m")
  case True
  with apply_tls_block [OF assms(1,3)] obtain tls
    where "obj_get o2 ''tls'' = Some (JObj tls)"
      "tls_faithful m (if reality_of m = None then None else Some ''chrome'') (JObj tls)" by auto
  then show ?thesis using apply_fingerprint_block [OF assms(2)] True by auto
next
  case False
  with apply_tls_block [OF assms(1,3)] have "o2 = o1" "\<not> has m ''client-fingerprint''" by auto
  moreover then have "ymap_str m ''client-fingerprint'' = None"
    using ymap_str_has by (cases "ymap_str m ''client-fingerprint''") auto
  ultimately show ?thesis using assms(2,3) False by (simp add: apply_fingerprint_def)
qed

lemma base_get:
  "protocol_spec ptype = Some (sb, fs) \<Longrightarrow> k \<in> step_keys \<Longrightarrow>
     obj_get (map_fields fs m (outbound_base sb name server port)) k = obj_get (outbound_base sb name server port) k"
  using protocol_fields_ok(2) [of ptype sb fs] by (intro map_fields_other) blast

text \<open>Every scalar number leaves the converter as a double, never as an integer.\<close>

lemma yaml_to_json_not_integer: "yaml_to_json v = Some (JNum n) \<Longrightarrow> \<exists>b. n = Float b"
  by (cases v rule: yaml_to_json.cases) (auto simp: json_of_f64_def split: if_splits)

section \<open>Properties\<close>

definition sample_node :: yaml where
  "sample_node =
     YMap [(YStr ''name'', YStr ''hk''), (YStr ''type'', YStr ''trojan''), (YStr ''server'', YStr ''h.example''),
           (YStr ''port'', YNum (PosInt 443)), (YStr ''password'', YStr ''pw''), (YStr ''udp'', YBool False),
           (YStr ''skip-cert-verify'', YBool False), (YStr ''sni'', YStr ''s.example''), (YStr ''mux'', YBool True)]"

lemma sample_node_ok: "is_ok (convert_node sample_node)"
  by (simp add: sample_node_def convert_node_def convert_mapping_def ymap_str_def ymap_bool_def has_def Let_def
      critical_unsupported_fields_def protocol_spec_def protocol_maps_def y_u64_def y_str_def y_bool_def
      apply_udp_def udp_relay_def apply_tls_def check_tls_types_def tls_string_fields_def native_tls_def
      apply_reality_def apply_fingerprint_def apply_transport_def)

text \<open>A converted node keeps its identity and its credentials: the outbound has the sing-box type of
  the clash type, the node's name as tag, its server and port, and under every sing-box key of the
  protocol's field table exactly the JSON form of the clash field (absent when the field is).\<close>

theorem convert_node_identity:
  assumes "convert_node (YMap m) = Inr c"
  shows "\<exists>ptype sb fs port. ymap_str m ''type'' = Some ptype \<and> protocol_spec ptype = Some (sb, fs) \<and>
    Option.bind (ymap_get m ''port'') y_u64 = Some port \<and>
    get_str (cn_outbound c) ''type'' = Some sb \<and>
    ymap_str m ''name'' \<noteq> None \<and> tag_of (cn_outbound c) = ymap_str m ''name'' \<and>
    ymap_str m ''server'' \<noteq> None \<and> get_str (cn_outbound c) ''server'' = ymap_str m ''server'' \<and>
    json_get (cn_outbound c) ''server_port'' = Some (mk_nat port) \<and>
    (\<forall>(ckey, skey) \<in> set fs. json_get (cn_outbound c) skey = opt_yaml_to_json (ymap_get m ckey))"
proof -
  from assms have "convert_mapping m = Inr c" by (simp add: convert_node_Inr)
  then show ?thesis
  proof (rule convert_mapping_stages)
    fix name ptype server port sb fs o1 d1 o2 o3 o4
    assume st: "ymap_str m ''name'' = Some name" "ymap_str m ''type'' = Some ptype"
      "ymap_str m ''server'' = Some server" "Option.bind (ymap_get m ''port'') y_u64 = Some port"
      "protocol_spec ptype = Some (sb, fs)"
      "apply_udp ptype name (map_fields fs m (outbound_base sb name server port)) m (dropped_fields name ptype m)
         = Inr (o1, d1)"
      "apply_tls ptype o1 m = Inr o2" "apply_fingerprint name o2 m = Inr o3" "apply_transport ptype o3 m = Inr o4"
      "c = \<lparr>cn_outbound = JObj o4, cn_dropped = d1\<rparr>"
    note keep = stages_keep [OF st(6,7,8,9)]
    have base: "obj_get o4 k = obj_get (outbound_base sb name server port) k"
      if "k \<in> {''type'', ''tag'', ''server'', ''server_port''}" for k
      using that base_get [OF st(5), of k] keep [of k] by (auto simp: step_keys_def)
    have fields: "obj_get o4 s = opt_yaml_to_json (ymap_get m ck)" if "(ck, s) \<in> set fs" for ck s
    proof -
      have "s \<notin> step_keys" using that protocol_fields_ok(2) [OF st(5)] by force
      then have "obj_get (outbound_base sb name server port) s = None" "s \<notin> {''network'', ''tls'', ''transport''}"
        by (auto simp: step_keys_def outbound_base_def obj_get_mk_fields)
      with map_fields_mapped [OF protocol_fields_ok(1) [OF st(5)] that] keep show ?thesis by metis
    qed
    show ?thesis
      by (intro exI [of _ ptype] exI [of _ sb] exI [of _ fs] exI [of _ port] conjI)
         (use st base fields in \<open>auto simp: tag_of_def get_str_def outbound_base_def obj_get_mk_fields\<close>)
  qed
qed

theorem convert_node_identity_witness:
  "\<exists>c. convert_node sample_node = Inr c \<and> tag_of (cn_outbound c) = Some ''hk'' \<and>
     get_str (cn_outbound c) ''server'' = Some ''h.example''"
proof -
  obtain c where c: "convert_node sample_node = Inr c" using sample_node_ok by (auto simp: is_ok_def)
  from convert_node_identity [OF c [unfolded sample_node_def]] c show ?thesis
    by (auto simp: ymap_str_def y_str_def)
qed

text \<open>A node that switches UDP off never relays UDP: the outbound is restricted to TCP, whatever the
  transport of the node.\<close>

theorem convert_node_udp_off:
  assumes "convert_node (YMap m) = Inr c" "has m ''udp''" "ymap_bool m ''udp'' \<noteq> Some True"
  shows "get_str (cn_outbound c) ''network'' = Some ''tcp''"
proof -
  from assms have "convert_mapping m = Inr c" by (simp add: convert_node_Inr)
  then show ?thesis
  proof (rule convert_mapping_stages)
    fix name ptype server port sb fs o1 d1 o2 o3 o4
    assume st: "apply_udp ptype name (map_fields fs m (outbound_base sb name server port)) m
        (dropped_fields name ptype m) = Inr (o1, d1)"
      "apply_tls ptype o1 m = Inr o2" "apply_fingerprint name o2 m = Inr o3" "apply_transport ptype o3 m = Inr o4"
      "c = \<lparr>cn_outbound = JObj o4, cn_dropped = d1\<rparr>"
    have off: "ymap_bool m ''udp'' = Some False"
      using apply_udp_boolean [OF st(1) assms(2)] assms(3) by auto
    note udp = apply_udp_off [OF st(1) off]
    have "obj_get o3 ''network'' = Some (JStr ''tcp'')"
      using udp apply_tls_keeps [OF st(2), of "''network''"] apply_fingerprint_keeps [OF st(3), of "''network''"]
      by simp
    then show ?thesis using apply_transport_off [OF st(4) off] udp st(5) by (simp add: get_str_def)
  qed
qed

theorem convert_node_udp_off_witness:
  "\<exists>c. convert_node sample_node = Inr c \<and> get_str (cn_outbound c) ''network'' = Some ''tcp''"
proof -
  obtain c where c: "convert_node sample_node = Inr c" using sample_node_ok by (auto simp: is_ok_def)
  from convert_node_udp_off [OF c [unfolded sample_node_def]] c show ?thesis
    by (auto simp: has_def ymap_bool_def y_bool_def)
qed

text \<open>C6: TLS is never weakened. The outbound has a TLS block exactly when the protocol is TLS-native or
  the node asks for TLS. The block is enabled; certificate checking is off only when the node says so; the
  server name is the node's; a Reality node has an enabled reality block with its public key and its short id
  (empty when it gives none), and no other node has one; the client fingerprint is the one of the node, chrome for
  a Reality node without one, and there is none otherwise. The block has no further keys.\<close>

theorem convert_node_tls:
  assumes "convert_node (YMap m) = Inr c" "ymap_str m ''type'' = Some ptype"
  shows "(json_get (cn_outbound c) ''tls'' \<noteq> None \<longleftrightarrow> wants_tls ptype m) \<and>
    (\<forall>tls. json_get (cn_outbound c) ''tls'' = Some tls \<longrightarrow> tls_faithful m (fingerprint_of m) tls)"
proof -
  from assms have "convert_mapping m = Inr c" by (simp add: convert_node_Inr)
  then show ?thesis
  proof (rule convert_mapping_stages)
    fix name ptype' server port sb fs o1 d1 o2 o3 o4
    assume st: "ymap_str m ''type'' = Some ptype'" "protocol_spec ptype' = Some (sb, fs)"
      "apply_udp ptype' name (map_fields fs m (outbound_base sb name server port)) m
        (dropped_fields name ptype' m) = Inr (o1, d1)"
      "apply_tls ptype' o1 m = Inr o2" "apply_fingerprint name o2 m = Inr o3" "apply_transport ptype' o3 m = Inr o4"
      "c = \<lparr>cn_outbound = JObj o4, cn_dropped = d1\<rparr>"
    have "obj_get o1 ''tls'' = None"
      using apply_udp_keeps [OF st(3), of "''tls''"] base_get [OF st(2), of "''tls''"]
      by (simp add: step_keys_def outbound_base_def obj_get_mk_fields)
    from stages_tls [OF st(4,5) this] show ?thesis
      using apply_transport_keeps [OF st(6), of "''tls''"] assms(2) st(1,7) by simp
  qed
qed

theorem convert_node_tls_witness:
  "\<exists>c tls. convert_node sample_node = Inr c \<and> json_get (cn_outbound c) ''tls'' = Some tls \<and>
     json_get tls ''insecure'' = None \<and> get_str tls ''server_name'' = Some ''s.example''"
proof -
  obtain c where c: "convert_node sample_node = Inr c" using sample_node_ok by (auto simp: is_ok_def)
  from convert_node_tls [OF c [unfolded sample_node_def], of "''trojan''"] c show ?thesis
    by (auto simp: ymap_str_def y_str_def wants_tls_def native_tls_def tls_faithful_def ymap_bool_def y_bool_def sni_of_def get_str_def)
qed

text \<open>Every clash field that is lost is reported: the notes of a converted node name a field of the
  entry exactly when the converter neither reads it nor maps it.\<close>

theorem convert_node_reports_drops:
  assumes "convert_node (YMap m) = Inr c" "ymap_str m ''name'' = Some name" "ymap_str m ''type'' = Some ptype"
  shows "FieldDropped name k \<in> set (cn_dropped c) \<longleftrightarrow>
    YStr k \<in> fst ` set m \<and> k \<notin> set reserved_fields \<and> \<not> is_mapped_field ptype k"
proof -
  from assms have "convert_mapping m = Inr c" by (simp add: convert_node_Inr)
  then show ?thesis
  proof (rule convert_mapping_stages)
    fix name' ptype' server port sb fs o1 d1 o2 o3 o4
    assume st: "ymap_str m ''name'' = Some name'" "ymap_str m ''type'' = Some ptype'"
      "apply_udp ptype' name' (map_fields fs m (outbound_base sb name' server port)) m
        (dropped_fields name' ptype' m) = Inr (o1, d1)"
      "c = \<lparr>cn_outbound = JObj o4, cn_dropped = d1\<rparr>"
    have "FieldDropped name k \<in> set (dropped_fields name ptype m) \<longleftrightarrow>
        YStr k \<in> fst ` set m \<and> k \<notin> set reserved_fields \<and> \<not> is_mapped_field ptype k"
      unfolding dropped_fields_def
      by (auto split: yaml.splits if_splits intro: rev_image_eqI) force
    then show ?thesis using apply_udp_dropped [OF st(3)] st assms(2,3) by simp
  qed
qed

theorem convert_node_reports_drops_witness:
  "\<exists>c. convert_node sample_node = Inr c \<and> FieldDropped ''hk'' ''mux'' \<in> set (cn_dropped c)"
proof -
  obtain c where c: "convert_node sample_node = Inr c" using sample_node_ok by (auto simp: is_ok_def)
  from convert_node_reports_drops [OF c [unfolded sample_node_def], of "''hk''" "''trojan''" "''mux''"] c show ?thesis
    by (auto simp: ymap_str_def y_str_def reserved_fields_def is_mapped_field_def protocol_spec_def protocol_maps_def)
qed

end
