(* ===== verification/Convert_Profile.thy ===== *)
theory Convert_Profile
  imports Convert_Node "HOL-Library.While_Combinator"
begin

text \<open>
  A whole clash document to sing-box outbounds and groups
  (\<open>src-tui/src/singbox/convert.rs\<close>, \<open>convert_profile\<close>). Pass 1 classifies the declared groups,
  pass 2 iterates the set of groups that keep a member until it is stable, pass 3 emits the
  survivors and reports every pruned member. The abstract specification of pass 2 is the
  inductive set of \<open>grounded\<close> groups; the lemmas show that the loop returns and computes it.
\<close>

section \<open>Data\<close>

datatype group_kind = Selector | UrlTest

record group_spec =
  gs_name :: string
  gs_kind :: group_kind
  gs_members :: "string list"

datatype skip_reason =
    NodeSkipped string node_error
  | GroupTypeUnsupported string string
  | GroupEmpty string

datatype conversion_note =
    GroupApproximated string string
  | DuplicateMember string string
  | RedundantDirect string
  | GroupNotProduced string string
  | MemberNotConvertible string string

record profile_conversion =
  pc_outbounds :: "json list"
  pc_groups :: "group_spec list"
  pc_skipped :: "skip_reason list"
  pc_degraded :: "dropped_note list"
  pc_notes :: "conversion_note list"

definition empty_conversion :: profile_conversion where
  "empty_conversion = \<lparr>pc_outbounds = [], pc_groups = [], pc_skipped = [], pc_degraded = [], pc_notes = []\<rparr>"

definition builtin_tags :: "string list" where
  "builtin_tags = [''direct'', ''block'', ''DIRECT'', ''REJECT'']"

definition outbound_tags :: "profile_conversion \<Rightarrow> string set" where
  "outbound_tags c =
     set (filter_map tag_of (pc_outbounds c)) \<union> set (map gs_name (pc_groups c)) \<union> set builtin_tags"

section \<open>Nodes\<close>

definition add_node :: "yaml \<Rightarrow> profile_conversion \<Rightarrow> profile_conversion" where
  "add_node proxy r =
     (case convert_node proxy of
        Inr c \<Rightarrow> r\<lparr>pc_outbounds := pc_outbounds r @ [cn_outbound c], pc_degraded := pc_degraded r @ cn_dropped c\<rparr>
      | Inl reason \<Rightarrow>
          r\<lparr>pc_skipped := pc_skipped r @
              [NodeSkipped (unwrap_or (Option.bind (y_get proxy ''name'') y_str) ''<unnamed>'') reason]\<rparr>)"

definition convert_nodes :: "ymapping \<Rightarrow> profile_conversion \<Rightarrow> profile_conversion" where
  "convert_nodes m r =
     (case ymap_get m ''proxies'' of Some (YSeq proxies) \<Rightarrow> fold add_node proxies r | _ \<Rightarrow> r)"

section \<open>Pass 1: the declared groups\<close>

record pending_group =
  pg_name :: string
  pg_kind :: group_kind
  pg_raw_members :: "string list"

definition group_kind_of :: "string \<Rightarrow> group_kind option" where
  "group_kind_of gtype =
     (if gtype = ''select'' then Some Selector
      else if gtype \<in> {''url-test'', ''fallback'', ''load-balance''} then Some UrlTest
      else None)"

definition raw_members :: "ymapping \<Rightarrow> string list" where
  "raw_members g = (case Option.bind (ymap_get g ''proxies'') y_seq of None \<Rightarrow> [] | Some s \<Rightarrow> filter_map y_str s)"

definition classify_group ::
  "yaml \<Rightarrow> pending_group list \<times> profile_conversion \<Rightarrow> pending_group list \<times> profile_conversion" where
  "classify_group grp acc =
     (case grp of
        YMap g \<Rightarrow>
          (let name = unwrap_or (ymap_str g ''name'') [];
               gtype = unwrap_or (ymap_str g ''type'') [];
               (pending, r) = acc
           in case group_kind_of gtype of
                None \<Rightarrow> (pending, r\<lparr>pc_skipped := pc_skipped r @ [GroupTypeUnsupported name gtype]\<rparr>)
              | Some kind \<Rightarrow>
                  (pending @ [\<lparr>pg_name = name, pg_kind = kind, pg_raw_members = raw_members g\<rparr>],
                   if gtype \<in> {''fallback'', ''load-balance''}
                   then r\<lparr>pc_notes := pc_notes r @ [GroupApproximated name gtype]\<rparr> else r))
      | _ \<Rightarrow> acc)"

definition declared_names :: "yaml list \<Rightarrow> string set" where
  "declared_names groups = set (filter_map (\<lambda>g. Option.bind (y_get g ''name'') y_str) groups)"

section \<open>Pass 2: the groups that are emitted\<close>

definition is_builtin_member :: "string \<Rightarrow> bool" where
  "is_builtin_member member \<longleftrightarrow> to_ascii_uppercase member \<in> {''DIRECT'', ''REJECT'', ''BLOCK''}"

definition is_direct :: "string \<Rightarrow> bool" where
  "is_direct member \<longleftrightarrow> eq_ignore_ascii_case member ''direct''"

definition prune_members :: "pending_group \<Rightarrow> string set \<Rightarrow> string list" where
  "prune_members grp allowed =
     (let kept = dedup (filter (\<lambda>m. m \<in> allowed \<or> is_builtin_member m) (pg_raw_members grp)) in
      if pg_kind grp = Selector \<and> (\<exists>m \<in> set kept. \<not> is_direct m)
      then filter (\<lambda>m. \<not> is_direct m) kept else kept)"

definition surviving :: "pending_group list \<Rightarrow> string set \<Rightarrow> string set \<Rightarrow> string set" where
  "surviving pending node_tags emitted =
     set (map pg_name (filter (\<lambda>g. prune_members g (node_tags \<union> emitted) \<noteq> []) pending))"

text \<open>The loop: start from the groups that stand on nodes and built-ins alone, repeat until stable.
  \<open>None\<close> is a loop that does not return.\<close>

definition emitted_groups :: "pending_group list \<Rightarrow> string set \<Rightarrow> string set option" where
  "emitted_groups pending node_tags =
     while_option (\<lambda>emitted. surviving pending node_tags emitted \<noteq> emitted) (surviving pending node_tags)
       (surviving pending node_tags {})"

section \<open>Pass 3: emission\<close>

fun member_notes :: "string \<Rightarrow> bool \<Rightarrow> string list \<Rightarrow> string set \<Rightarrow> string list \<Rightarrow> string list \<Rightarrow> conversion_note list" where
  "member_notes name deduped members declared seen [] = []"
| "member_notes name deduped members declared seen (m # ms) =
     (if m \<in> set seen then DuplicateMember name m # member_notes name deduped members declared seen ms
      else
        (if deduped \<and> is_direct m then [RedundantDirect name]
         else if m \<in> set members then []
         else if m \<in> declared then [GroupNotProduced name m]
         else [MemberNotConvertible name m]) @
        member_notes name deduped members declared (m # seen) ms)"

definition report_member_prunes ::
  "pending_group \<Rightarrow> string list \<Rightarrow> string set \<Rightarrow> profile_conversion \<Rightarrow> profile_conversion" where
  "report_member_prunes grp members declared r =
     r\<lparr>pc_notes := pc_notes r @
         member_notes (pg_name grp) (pg_kind grp = Selector \<and> (\<exists>m \<in> set members. \<not> is_direct m))
           members declared [] (pg_raw_members grp)\<rparr>"

definition emit_group :: "string set \<Rightarrow> string set \<Rightarrow> pending_group \<Rightarrow> profile_conversion \<Rightarrow> profile_conversion" where
  "emit_group allowed declared grp r =
     (let members = prune_members grp allowed in
      if members = [] then r\<lparr>pc_skipped := pc_skipped r @ [GroupEmpty (pg_name grp)]\<rparr>
      else
        (let r = report_member_prunes grp members declared r in
         r\<lparr>pc_groups := pc_groups r @
             [\<lparr>gs_name = pg_name grp, gs_kind = pg_kind grp, gs_members = members\<rparr>]\<rparr>))"

definition node_tags :: "profile_conversion \<Rightarrow> string set" where
  "node_tags r = set (filter_map tag_of (pc_outbounds r))"

definition convert_groups :: "ymapping \<Rightarrow> profile_conversion \<Rightarrow> profile_conversion option" where
  "convert_groups m r =
     (case ymap_get m ''proxy-groups'' of
        Some (YSeq groups) \<Rightarrow>
          (let tags = node_tags r;
               (pending, r) = fold classify_group groups ([], r)
           in map_option
                (\<lambda>emitted. fold (emit_group (tags \<union> emitted) (declared_names groups)) pending r)
                (emitted_groups pending tags))
      | _ \<Rightarrow> Some r)"

section \<open>The conversion\<close>

datatype profile_error = ProfileInvalidYaml | RootNotMapping

definition convert_doc :: "yaml \<Rightarrow> (profile_conversion option, profile_error) result" where
  "convert_doc doc =
     (case doc of
        YMap m \<Rightarrow> Inr (convert_groups m (convert_nodes m empty_conversion))
      | _ \<Rightarrow> Inl RootNotMapping)"

definition convert_profile ::
  "(string \<Rightarrow> yaml option) \<Rightarrow> string \<Rightarrow> (profile_conversion option, profile_error) result" where
  "convert_profile parse config_yaml = rbind (ok_or (parse config_yaml) ProfileInvalidYaml) convert_doc"

section \<open>Pruning\<close>

definition usable :: "pending_group \<Rightarrow> string set \<Rightarrow> string set" where
  "usable g allowed = {m \<in> set (pg_raw_members g). m \<in> allowed \<or> is_builtin_member m}"

lemma set_prune_members:
  "set (prune_members g allowed) =
     (if pg_kind g = Selector \<and> (\<exists>m \<in> usable g allowed. \<not> is_direct m)
      then {m \<in> usable g allowed. \<not> is_direct m} else usable g allowed)"
  by (auto simp: prune_members_def usable_def Let_def)

lemma prune_members_subset: "set (prune_members g allowed) \<subseteq> usable g allowed"
  by (auto simp: set_prune_members)

lemma prune_members_Nil_iff [simp]: "prune_members g allowed = [] \<longleftrightarrow> usable g allowed = {}"
  unfolding set_empty [symmetric] set_prune_members by auto

lemma distinct_prune_members: "distinct (prune_members g allowed)"
  by (simp add: prune_members_def Let_def)

lemma usable_mono: "a \<subseteq> b \<Longrightarrow> usable g a \<subseteq> usable g b"
  by (auto simp: usable_def)

section \<open>The emission loop computes the grounded groups\<close>

inductive grounded :: "pending_group list \<Rightarrow> string set \<Rightarrow> string \<Rightarrow> bool" for pending nodes where
  base: "g \<in> set pending \<Longrightarrow> m \<in> set (pg_raw_members g) \<Longrightarrow> m \<in> nodes \<or> is_builtin_member m
           \<Longrightarrow> grounded pending nodes (pg_name g)"
| step: "g \<in> set pending \<Longrightarrow> m \<in> set (pg_raw_members g) \<Longrightarrow> grounded pending nodes m
           \<Longrightarrow> grounded pending nodes (pg_name g)"

lemma surviving_iff:
  "n \<in> surviving pending nodes E \<longleftrightarrow> (\<exists>g \<in> set pending. pg_name g = n \<and> usable g (nodes \<union> E) \<noteq> {})"
  by (auto simp: surviving_def)

lemma mono_surviving: "mono (surviving pending nodes)"
proof (rule monoI, rule subsetI)
  fix A B n assume "A \<subseteq> B" "n \<in> surviving pending nodes A"
  then show "n \<in> surviving pending nodes B"
    using usable_mono [of "nodes \<union> A" "nodes \<union> B"] unfolding surviving_iff by blast
qed

lemma surviving_bound: "surviving pending nodes E \<subseteq> set (map pg_name pending)"
  by (auto simp: surviving_def)

lemma while_option_start:
  "f {} = {} \<or> while_option (\<lambda>A. f A \<noteq> A) f {} = while_option (\<lambda>A. f A \<noteq> A) f (f {})"
  using while_option_unfold [of "\<lambda>A. f A \<noteq> A" f "{}"] by auto

lemma emitted_groups_lfp: "emitted_groups pending nodes = Some (lfp (surviving pending nodes))"
proof -
  let ?f = "surviving pending nodes"
  have bound: "\<And>X. X \<subseteq> set (map pg_name pending) \<Longrightarrow> ?f X \<subseteq> set (map pg_name pending)"
    by (rule surviving_bound)
  obtain P where P: "while_option (\<lambda>A. ?f A \<noteq> A) ?f {} = Some P"
    using while_option_finite_subset_Some [OF mono_surviving bound] by auto
  then have "lfp ?f = P"
    using lfp_the_while_option [OF mono_surviving bound] by simp
  moreover have "emitted_groups pending nodes = Some P"
    using while_option_start [of ?f] P while_option_unfold [of "\<lambda>A. ?f A \<noteq> A" ?f "{}"]
    by (auto simp: emitted_groups_def while_option_unfold [of _ _ "{}"])
  ultimately show ?thesis by simp
qed

lemma lfp_surviving: "lfp (surviving pending nodes) = {n. grounded pending nodes n}"
proof
  show "lfp (surviving pending nodes) \<subseteq> {n. grounded pending nodes n}"
  proof (rule lfp_lowerbound, rule subsetI)
    fix n assume "n \<in> surviving pending nodes {n. grounded pending nodes n}"
    then obtain g m where "g \<in> set pending" "pg_name g = n" "m \<in> set (pg_raw_members g)"
      "m \<in> nodes \<or> is_builtin_member m \<or> grounded pending nodes m"
      by (auto simp: surviving_iff usable_def)
    then show "n \<in> {n. grounded pending nodes n}" using grounded.intros by blast
  qed
  have unfold: "surviving pending nodes (lfp (surviving pending nodes)) = lfp (surviving pending nodes)"
    using lfp_unfold [OF mono_surviving] by metis
  have "n \<in> lfp (surviving pending nodes)" if "grounded pending nodes n" for n
    using that
  proof induction
    case (base g m)
    then have "pg_name g \<in> surviving pending nodes (lfp (surviving pending nodes))"
      by (auto simp: surviving_iff usable_def)
    then show ?case by (simp add: unfold)
  next
    case (step g m)
    then have "pg_name g \<in> surviving pending nodes (lfp (surviving pending nodes))"
      by (auto simp: surviving_iff usable_def)
    then show ?case by (simp add: unfold)
  qed
  then show "{n. grounded pending nodes n} \<subseteq> lfp (surviving pending nodes)" by auto
qed

lemma emitted_groups_grounded: "emitted_groups pending nodes = Some {n. grounded pending nodes n}"
  by (simp add: emitted_groups_lfp lfp_surviving)

section \<open>The passes as list functions\<close>

text \<open>The pending entry of a declared group, and its spec once the emitted set is known.\<close>

definition pending_of :: "yaml \<Rightarrow> pending_group option" where
  "pending_of grp =
     (case grp of
        YMap g \<Rightarrow>
          map_option
            (\<lambda>kind. \<lparr>pg_name = unwrap_or (ymap_str g ''name'') [], pg_kind = kind, pg_raw_members = raw_members g\<rparr>)
            (group_kind_of (unwrap_or (ymap_str g ''type'') []))
      | _ \<Rightarrow> None)"

definition spec_of :: "string set \<Rightarrow> pending_group \<Rightarrow> group_spec option" where
  "spec_of allowed g =
     (if prune_members g allowed = [] then None
      else Some \<lparr>gs_name = pg_name g, gs_kind = pg_kind g, gs_members = prune_members g allowed\<rparr>)"

lemma spec_of_None [simp]: "spec_of allowed g = None \<longleftrightarrow> usable g allowed = {}"
  by (simp add: spec_of_def)

definition type_rejected :: "yaml \<Rightarrow> skip_reason option" where
  "type_rejected grp =
     (case grp of
        YMap g \<Rightarrow>
          (let gtype = unwrap_or (ymap_str g ''type'') [] in
           if group_kind_of gtype = None
           then Some (GroupTypeUnsupported (unwrap_or (ymap_str g ''name'') []) gtype) else None)
      | _ \<Rightarrow> None)"

lemma classify_group_fields:
  "fst (classify_group grp acc) = fst acc @ filter_map pending_of [grp]"
  "pc_outbounds (snd (classify_group grp acc)) = pc_outbounds (snd acc)"
  "pc_groups (snd (classify_group grp acc)) = pc_groups (snd acc)"
  "pc_skipped (snd (classify_group grp acc)) = pc_skipped (snd acc) @ filter_map type_rejected [grp]"
  by (cases acc; auto simp: classify_group_def pending_of_def type_rejected_def Let_def
        split: yaml.splits option.splits)+

lemma fold_classify:
  "fst (fold classify_group groups acc) = fst acc @ filter_map pending_of groups"
  "pc_outbounds (snd (fold classify_group groups acc)) = pc_outbounds (snd acc)"
  "pc_groups (snd (fold classify_group groups acc)) = pc_groups (snd acc)"
  "pc_skipped (snd (fold classify_group groups acc)) = pc_skipped (snd acc) @ filter_map type_rejected groups"
  by (induction groups arbitrary: acc) (simp_all add: classify_group_fields split: option.splits)

lemma emit_group_fields:
  "pc_outbounds (emit_group allowed declared g r) = pc_outbounds r"
  "pc_groups (emit_group allowed declared g r) = pc_groups r @ filter_map (spec_of allowed) [g]"
  "set (pc_skipped r) \<subseteq> set (pc_skipped (emit_group allowed declared g r))"
  "set (pc_notes r) \<subseteq> set (pc_notes (emit_group allowed declared g r))"
  by (auto simp: emit_group_def spec_of_def Let_def report_member_prunes_def)

lemma emit_group_empty:
  "usable g allowed = {} \<Longrightarrow> GroupEmpty (pg_name g) \<in> set (pc_skipped (emit_group allowed declared g r))"
  by (simp add: emit_group_def Let_def)

lemma fold_emit:
  "pc_outbounds (fold (emit_group allowed declared) gs r) = pc_outbounds r"
  "pc_groups (fold (emit_group allowed declared) gs r) = pc_groups r @ filter_map (spec_of allowed) gs"
  "set (pc_skipped r) \<subseteq> set (pc_skipped (fold (emit_group allowed declared) gs r))"
  "set (pc_notes r) \<subseteq> set (pc_notes (fold (emit_group allowed declared) gs r))"
proof (induction gs arbitrary: r)
  case (Cons g gs)
  { case 1 show ?case using Cons.IH(1) by (simp add: emit_group_fields) }
  { case 2 show ?case using Cons.IH(2) by (simp add: emit_group_fields split: option.splits) }
  { case 3 show ?case using Cons.IH(3) [of "emit_group allowed declared g r"]
      emit_group_fields(3) [of r allowed declared g] by simp }
  { case 4 show ?case using Cons.IH(4) [of "emit_group allowed declared g r"]
      emit_group_fields(4) [of r allowed declared g] by simp }
qed simp_all

lemma fold_emit_member:
  assumes "g \<in> set gs" "\<And>r. x \<in> set (f (emit_group allowed declared g r))"
    and "\<And>h r. set (f r) \<subseteq> set (f (emit_group allowed declared h r))"
  shows "x \<in> set (f (fold (emit_group allowed declared) gs r))"
  using assms(1)
proof (induction gs arbitrary: r)
  case (Cons h gs)
  have keep: "set (f r) \<subseteq> set (f (fold (emit_group allowed declared) gs r))" for r
  proof (induction gs arbitrary: r)
    case (Cons h gs)
    then show ?case using assms(3) [of r h] by (metis fold_simps(2) subset_trans)
  qed simp
  show ?case
  proof (cases "h = g")
    case True
    then show ?thesis using assms(2) [of r] keep by auto
  next
    case False
    then show ?thesis using Cons by simp
  qed
qed simp

text \<open>The shape of a converted document with groups.\<close>

lemma convert_groups_eq:
  "convert_groups m r =
     Some (case ymap_get m ''proxy-groups'' of
        Some (YSeq groups) \<Rightarrow>
          (let pending = filter_map pending_of groups;
               allowed = node_tags r \<union> {n. grounded pending (node_tags r) n}
           in fold (emit_group allowed (declared_names groups)) pending
                (snd (fold classify_group groups ([], r))))
      | _ \<Rightarrow> r)"
  by (auto simp: convert_groups_def emitted_groups_grounded Let_def case_prod_beta fold_classify
      split: option.splits yaml.splits)

lemma convert_nodes_groups: "pc_groups (convert_nodes m r) = pc_groups r"
proof -
  have "pc_groups (fold add_node ps r) = pc_groups r" for ps
    by (induction ps arbitrary: r) (simp_all add: add_node_def split: sum.splits)
  then show ?thesis by (simp add: convert_nodes_def split: option.splits yaml.splits)
qed

lemma usable_spec:
  assumes "g \<in> set pending" "m \<in> usable g allowed"
  shows "\<exists>spec \<in> set (filter_map (spec_of allowed) pending). gs_name spec = pg_name g"
proof -
  have "spec_of allowed g = Some \<lparr>gs_name = pg_name g, gs_kind = pg_kind g, gs_members = prune_members g allowed\<rparr>"
    using assms(2) by (auto simp: spec_of_def)
  with assms(1) show ?thesis by (intro bexI) auto
qed

lemma grounded_spec:
  assumes "grounded pending nodes n" "nodes \<union> {n. grounded pending nodes n} \<subseteq> allowed"
  shows "\<exists>spec \<in> set (filter_map (spec_of allowed) pending). gs_name spec = n"
  using assms(1)
proof cases
  case (base g m)
  then have "m \<in> usable g allowed" using assms(2) by (auto simp: usable_def)
  with usable_spec [OF base(2)] base(1) show ?thesis by simp
next
  case (step g m)
  then have "m \<in> usable g allowed" using assms(2) by (auto simp: usable_def)
  with usable_spec [OF step(2)] step(1) show ?thesis by simp
qed

lemma spec_grounded:
  assumes "spec_of (nodes \<union> {n. grounded pending nodes n}) pg = Some g" "pg \<in> set pending"
  shows "grounded pending nodes (gs_name g)"
proof -
  from assms(1) have name: "gs_name g = pg_name pg" and "usable pg (nodes \<union> {n. grounded pending nodes n}) \<noteq> {}"
    by (auto simp: spec_of_def split: if_splits)
  then obtain m where "m \<in> set (pg_raw_members pg)" "m \<in> nodes \<or> is_builtin_member m \<or> grounded pending nodes m"
    by (auto simp: usable_def)
  with assms(2) show ?thesis unfolding name by (blast intro: grounded.intros)
qed

text \<open>The groups of a document are added to what the conversion already has.\<close>

lemma convert_doc_groups:
  assumes "convert_doc (YMap m) = Inr (Some r)" "ymap_get m ''proxy-groups'' = Some (YSeq groups)"
  obtains allowed r1 where
    "r = fold (emit_group allowed (declared_names groups)) (filter_map pending_of groups) r1"
    "set (filter_map type_rejected groups) \<subseteq> set (pc_skipped r1)"
  using assms fold_classify [of groups "([], convert_nodes m empty_conversion)"]
  by (auto simp: convert_doc_def convert_groups_eq Let_def)

section \<open>Properties\<close>

text \<open>C4: Deciding which groups survive always terminates, and the surviving groups are exactly the
  grounded ones: those from which a converted node or a built-in policy can be reached through
  group membership. Groups that only refer to each other are not emitted.\<close>

theorem emission_loop_computes_grounded:
  "emitted_groups pending nodes = Some {n. grounded pending nodes n}"
  by (simp add: emitted_groups_lfp lfp_surviving)

text \<open>Converting a document always returns a conversion or the error for a root that is not a mapping.\<close>

theorem convert_doc_total:
  "convert_doc doc = Inl RootNotMapping \<or> (\<exists>r. convert_doc doc = Inr (Some r))"
proof (cases doc)
  case (YMap m)
  then show ?thesis by (simp add: convert_doc_def convert_groups_eq)
qed (simp_all add: convert_doc_def)

definition sample_profile :: ymapping where
  "sample_profile =
     [(YStr ''proxies'', YSeq [sample_node]),
      (YStr ''proxy-groups'', YSeq [YMap [(YStr ''name'', YStr ''G''), (YStr ''type'', YStr ''select''),
          (YStr ''proxies'', YSeq [YStr ''hk'', YStr ''DIRECT''])]])]"

lemma sample_profile_converts: "\<exists>r. convert_doc (YMap sample_profile) = Inr (Some r)"
  by (simp add: convert_doc_def convert_groups_eq)

lemma sample_profile_group:
  assumes "convert_doc (YMap sample_profile) = Inr (Some r)"
  shows "\<exists>g. g \<in> set (pc_groups r)"
proof -
  let ?g = "YMap [(YStr ''name'', YStr ''G''), (YStr ''type'', YStr ''select''),
     (YStr ''proxies'', YSeq [YStr ''hk'', YStr ''DIRECT''])]"
  have groups: "ymap_get sample_profile ''proxy-groups'' = Some (YSeq [?g])"
    by (simp add: sample_profile_def)
  obtain allowed r1 where
    "r = fold (emit_group allowed (declared_names [?g])) (filter_map pending_of [?g]) r1"
    using convert_doc_groups [OF assms groups] by metis
  then have "pc_groups r = pc_groups r1 @ filter_map (spec_of allowed) (filter_map pending_of [?g])"
    by (simp only: fold_emit)
  moreover let ?pg = "\<lparr>pg_name = ''G'', pg_kind = Selector, pg_raw_members = [''hk'', ''DIRECT'']\<rparr>"
  have "?pg \<in> set (filter_map pending_of [?g])"
    by (simp add: pending_of_def group_kind_of_def raw_members_def ymap_str_def y_str_def y_seq_def)
  moreover have "''DIRECT'' \<in> usable ?pg allowed"
    by (simp add: usable_def is_builtin_member_def ascii_case_eval)
  ultimately show ?thesis using usable_spec by (metis Un_iff set_append)
qed

text \<open>The groups a document declares in a form that is supported.\<close>

definition declared_groups :: "yaml \<Rightarrow> pending_group set" where
  "declared_groups doc =
     (case Option.bind (y_get doc ''proxy-groups'') y_seq of
        None \<Rightarrow> {} | Some groups \<Rightarrow> set (filter_map pending_of groups))"

lemma converted_group_source:
  assumes "convert_doc doc = Inr (Some r)" "g \<in> set (pc_groups r)"
  obtains pg allowed where "pg \<in> declared_groups doc" "spec_of allowed pg = Some g"
    "\<And>m. m \<in> allowed \<or> is_builtin_member m \<longleftrightarrow> m \<in> outbound_tags r \<or> is_builtin_member m"
proof -
  from assms(1) obtain m where m: "doc = YMap m"
    "convert_groups m (convert_nodes m empty_conversion) = Some r"
    by (auto simp: convert_doc_def split: yaml.splits)
  let ?n = "convert_nodes m empty_conversion"
  have empty: "pc_groups ?n = []" by (simp add: convert_nodes_groups empty_conversion_def)
  then obtain groups where groups: "ymap_get m ''proxy-groups'' = Some (YSeq groups)"
    using m(2) assms(2) by (auto simp: convert_groups_def split: option.splits yaml.splits)
  let ?p = "filter_map pending_of groups"
  let ?allowed = "node_tags ?n \<union> {n. grounded ?p (node_tags ?n) n}"
  define r1 where "r1 = snd (fold classify_group groups ([], ?n))"
  have r: "r = fold (emit_group ?allowed (declared_names groups)) ?p r1"
    using m(2) by (simp add: convert_groups_eq groups Let_def r1_def)
  have r1: "pc_outbounds r1 = pc_outbounds ?n" "pc_groups r1 = []"
    using empty by (simp_all add: r1_def fold_classify)
  have specs: "pc_groups r = filter_map (spec_of ?allowed) ?p" by (simp add: r fold_emit r1)
  have nodes: "node_tags ?n = node_tags r" by (simp add: node_tags_def r fold_emit r1)
  have "t \<in> outbound_tags r" if "t \<in> ?allowed" for t
  proof (cases "t \<in> node_tags ?n")
    case True
    then show ?thesis unfolding nodes by (simp add: outbound_tags_def node_tags_def)
  next
    case False
    with that show ?thesis using grounded_spec [of ?p "node_tags ?n" t ?allowed]
      unfolding outbound_tags_def specs by auto
  qed
  moreover have "t \<in> ?allowed \<or> is_builtin_member t" if t: "t \<in> outbound_tags r" for t
  proof -
    consider "t \<in> node_tags r" | "t \<in> set builtin_tags" | g pg where "pg \<in> set ?p" "spec_of ?allowed pg = Some g" "t = gs_name g"
      using t unfolding outbound_tags_def specs node_tags_def [of r] by auto
    then show ?thesis
    proof cases
      case 2
      then show ?thesis by (auto simp: builtin_tags_def is_builtin_member_def ascii_case_eval)
    next
      case 3
      then show ?thesis using spec_grounded [of "node_tags ?n" ?p pg g] by auto
    qed (simp add: nodes)
  qed
  moreover obtain pg where "pg \<in> set ?p" "spec_of ?allowed pg = Some g" using assms(2) unfolding specs by auto
  moreover then have "pg \<in> declared_groups doc" by (simp add: declared_groups_def m(1) groups)
  ultimately show thesis using that by blast
qed

lemma converted_group_exact:
  assumes "convert_doc doc = Inr (Some r)" "g \<in> set (pc_groups r)"
  shows "\<exists>pg \<in> declared_groups doc. gs_name g = pg_name pg \<and> gs_kind g = pg_kind pg \<and>
    (let kept = {m \<in> set (pg_raw_members pg). m \<in> outbound_tags r \<or> is_builtin_member m}
     in set (gs_members g) =
          (if pg_kind pg = Selector \<and> (\<exists>m \<in> kept. \<not> is_direct m) then {m \<in> kept. \<not> is_direct m} else kept))"
    and "gs_members g \<noteq> []" "distinct (gs_members g)"
proof -
  obtain pg allowed where pg: "pg \<in> declared_groups doc" "spec_of allowed pg = Some g"
    "\<And>m. m \<in> allowed \<or> is_builtin_member m \<longleftrightarrow> m \<in> outbound_tags r \<or> is_builtin_member m"
    using converted_group_source [OF assms] by metis
  from pg(2) have g: "g = \<lparr>gs_name = pg_name pg, gs_kind = pg_kind pg, gs_members = prune_members pg allowed\<rparr>"
    "prune_members pg allowed \<noteq> []" by (auto simp: spec_of_def split: if_splits)
  have kept: "usable pg allowed = {m \<in> set (pg_raw_members pg). m \<in> outbound_tags r \<or> is_builtin_member m}"
    using pg(3) by (auto simp: usable_def)
  show "\<exists>pg \<in> declared_groups doc. gs_name g = pg_name pg \<and> gs_kind g = pg_kind pg \<and>
    (let kept = {m \<in> set (pg_raw_members pg). m \<in> outbound_tags r \<or> is_builtin_member m}
     in set (gs_members g) =
          (if pg_kind pg = Selector \<and> (\<exists>m \<in> kept. \<not> is_direct m) then {m \<in> kept. \<not> is_direct m} else kept))"
    using pg(1) by (intro bexI [of _ pg]) (auto simp: g(1) set_prune_members kept Let_def)
  show "gs_members g \<noteq> []" "distinct (gs_members g)" using g by (simp_all add: distinct_prune_members)
qed

lemma converted_group_members:
  assumes "convert_doc doc = Inr (Some r)" "g \<in> set (pc_groups r)"
  shows "gs_members g \<noteq> [] \<and> distinct (gs_members g) \<and>
    (\<forall>m \<in> set (gs_members g). m \<in> outbound_tags r \<or> is_builtin_member m)"
  using converted_group_exact [OF assms] by (auto simp: Let_def split: if_split_asm)

text \<open>C5: An emitted group has the name and kind of a declared one, is not empty, and lists exactly the declared members
  that are left, each once: those that were emitted themselves (a converted node, an emitted group, a spelling of the
  built-in outbounds) and the built-in policy names in any case; a selector drops DIRECT when something else is left.
  So no member dangles except a built-in policy in a spelling that names no outbound, such as reject; the generator
  rejects a document with one.\<close>

theorem converted_groups_closed:
  assumes "convert_doc doc = Inr (Some r)" "g \<in> set (pc_groups r)"
  shows "gs_members g \<noteq> [] \<and> distinct (gs_members g) \<and>
    (\<forall>m \<in> set (gs_members g). m \<in> outbound_tags r \<or> m \<notin> set builtin_tags \<and> is_builtin_member m) \<and>
    (\<exists>pg \<in> declared_groups doc. gs_name g = pg_name pg \<and> gs_kind g = pg_kind pg \<and>
       (let kept = {m \<in> set (pg_raw_members pg). m \<in> outbound_tags r \<or> is_builtin_member m}
        in set (gs_members g) =
             (if pg_kind pg = Selector \<and> (\<exists>m \<in> kept. \<not> is_direct m) then {m \<in> kept. \<not> is_direct m} else kept)))"
proof -
  have "m \<in> outbound_tags r \<or> m \<notin> set builtin_tags \<and> is_builtin_member m" if "m \<in> set (gs_members g)" for m
    using converted_group_members [OF assms] that by (auto simp: outbound_tags_def)
  with converted_group_exact [OF assms] show ?thesis by blast
qed

theorem converted_groups_closed_witness:
  "\<exists>r g. convert_doc (YMap sample_profile) = Inr (Some r) \<and> g \<in> set (pc_groups r) \<and> gs_members g \<noteq> []"
proof -
  obtain r where r: "convert_doc (YMap sample_profile) = Inr (Some r)" using sample_profile_converts by blast
  with sample_profile_group [OF r] converted_groups_closed [OF r] show ?thesis by blast
qed

section \<open>Nothing is lost silently\<close>

lemma member_notes_cover:
  assumes "m \<in> set ms" "m \<notin> set seen"
  shows "m \<in> set members \<or>
    {RedundantDirect n, GroupNotProduced n m, MemberNotConvertible n m}
      \<inter> set (member_notes n deduped members declared seen ms) \<noteq> {}"
  using assms
proof (induction ms arbitrary: seen)
  case (Cons a ms)
  show ?case
  proof (cases "m = a")
    case True
    with Cons.prems(2) show ?thesis by simp
  next
    case False
    let ?seen = "if a \<in> set seen then seen else a # seen"
    have "set (member_notes n deduped members declared ?seen ms)
        \<subseteq> set (member_notes n deduped members declared seen (a # ms))" by auto
    moreover have "m \<in> set ms" "m \<notin> set ?seen" using Cons.prems False by auto
    ultimately show ?thesis using Cons.IH [of ?seen] by (meson disjoint_iff subsetD)
  qed
qed simp

lemma emit_group_reports:
  assumes "usable g allowed \<noteq> {}" "m \<in> set (pg_raw_members g)"
  shows "m \<in> set (prune_members g allowed) \<or>
    {RedundantDirect (pg_name g), GroupNotProduced (pg_name g) m, MemberNotConvertible (pg_name g) m}
      \<inter> set (pc_notes (emit_group allowed declared g r)) \<noteq> {}"
proof -
  let ?notes = "member_notes (pg_name g) (pg_kind g = Selector \<and> (\<exists>m \<in> set (prune_members g allowed). \<not> is_direct m))
     (prune_members g allowed) declared [] (pg_raw_members g)"
  have "pc_notes (emit_group allowed declared g r) = pc_notes r @ ?notes"
    using assms(1) by (simp add: emit_group_def Let_def report_member_prunes_def)
  then show ?thesis
    using member_notes_cover [OF assms(2), of "[]" "prune_members g allowed" "pg_name g"] by auto
qed

text \<open>The note does not depend on what was reported before.\<close>

lemma emit_group_reports_all:
  assumes "usable g allowed \<noteq> {}" "m \<in> set (pg_raw_members g)"
  shows "m \<in> set (prune_members g allowed) \<or>
    (\<exists>x \<in> {RedundantDirect (pg_name g), GroupNotProduced (pg_name g) m, MemberNotConvertible (pg_name g) m}.
      \<forall>r. x \<in> set (pc_notes (emit_group allowed declared g r)))"
proof -
  have "\<exists>ns. \<forall>r. pc_notes (emit_group allowed declared g r) = pc_notes r @ ns"
    using assms(1) by (auto simp: emit_group_def Let_def report_member_prunes_def)
  then obtain ns where ns: "\<And>r. pc_notes (emit_group allowed declared g r) = pc_notes r @ ns" by blast
  show ?thesis
    using emit_group_reports [OF assms, of declared empty_conversion] unfolding ns
    by (auto simp: empty_conversion_def)
qed

text \<open>Every declared group that is a mapping is either emitted under its name or reported as skipped, for its type
  or because no member was left.\<close>

theorem declared_groups_accounted:
  assumes "convert_doc (YMap m) = Inr (Some r)" "ymap_get m ''proxy-groups'' = Some (YSeq groups)"
    and "YMap g \<in> set groups"
  shows "(\<exists>spec \<in> set (pc_groups r). gs_name spec = unwrap_or (ymap_str g ''name'') []) \<or>
    GroupTypeUnsupported (unwrap_or (ymap_str g ''name'') []) (unwrap_or (ymap_str g ''type'') []) \<in> set (pc_skipped r) \<or>
    GroupEmpty (unwrap_or (ymap_str g ''name'') []) \<in> set (pc_skipped r)"
proof -
  obtain allowed r1 where
    r: "r = fold (emit_group allowed (declared_names groups)) (filter_map pending_of groups) r1"
    and r1: "set (filter_map type_rejected groups) \<subseteq> set (pc_skipped r1)"
    using convert_doc_groups [OF assms(1,2)] .
  show ?thesis
  proof (cases "pending_of (YMap g)")
    case None
    then have "type_rejected (YMap g) =
        Some (GroupTypeUnsupported (unwrap_or (ymap_str g ''name'') []) (unwrap_or (ymap_str g ''type'') []))"
      by (simp add: pending_of_def type_rejected_def Let_def)
    then show ?thesis using assms(3) r1 fold_emit(3) [of r1] unfolding r by force
  next
    case (Some pg)
    then have pg: "pg \<in> set (filter_map pending_of groups)" "pg_name pg = unwrap_or (ymap_str g ''name'') []"
      using assms(3) by (auto simp del: filter_map_simps) (auto simp: pending_of_def)
    show ?thesis
    proof (cases "usable pg allowed = {}")
      case True
      have "GroupEmpty (pg_name pg) \<in> set (pc_skipped r)"
        unfolding r using pg(1) emit_group_empty [OF True] emit_group_fields(3)
        by (rule fold_emit_member [where f = pc_skipped])
      with pg(2) show ?thesis by simp
    next
      case False
      then obtain x where "x \<in> usable pg allowed" by auto
      from usable_spec [OF pg(1) this] show ?thesis unfolding r using pg(2) by (auto simp: fold_emit)
    qed
  qed
qed

theorem declared_groups_accounted_witness:
  "\<exists>r. convert_doc (YMap sample_profile) = Inr (Some r) \<and>
     ((\<exists>spec \<in> set (pc_groups r). gs_name spec = ''G'') \<or>
      GroupTypeUnsupported ''G'' ''select'' \<in> set (pc_skipped r) \<or> GroupEmpty ''G'' \<in> set (pc_skipped r))"
proof -
  obtain r where r: "convert_doc (YMap sample_profile) = Inr (Some r)" using sample_profile_converts by blast
  from declared_groups_accounted [OF r, of _ "[(YStr ''name'', YStr ''G''), (YStr ''type'', YStr ''select''),
     (YStr ''proxies'', YSeq [YStr ''hk'', YStr ''DIRECT''])]"] r
  show ?thesis by (simp add: sample_profile_def ymap_str_def y_str_def)
qed

text \<open>Every member a declared group loses is reported: a name listed by a group that is emitted is among its members,
  or a note says that it was a redundant DIRECT, a group without an outbound, or not convertible.\<close>

theorem pruned_members_reported:
  assumes "convert_doc (YMap m) = Inr (Some r)" "ymap_get m ''proxy-groups'' = Some (YSeq groups)"
    and "YMap g \<in> set groups" "pending_of (YMap g) = Some pg" "member \<in> set (raw_members g)"
  shows "GroupEmpty (pg_name pg) \<in> set (pc_skipped r) \<or>
    (\<exists>spec \<in> set (pc_groups r). gs_name spec = pg_name pg \<and> member \<in> set (gs_members spec)) \<or>
    {RedundantDirect (pg_name pg), GroupNotProduced (pg_name pg) member, MemberNotConvertible (pg_name pg) member}
      \<inter> set (pc_notes r) \<noteq> {}"
proof -
  obtain allowed r1 where
    r: "r = fold (emit_group allowed (declared_names groups)) (filter_map pending_of groups) r1"
    using convert_doc_groups [OF assms(1,2)] by metis
  have pg: "pg \<in> set (filter_map pending_of groups)" using assms(3,4) by auto
  have raw: "member \<in> set (pg_raw_members pg)" using assms(4,5) by (auto simp: pending_of_def)
  show ?thesis
  proof (cases "usable pg allowed = {}")
    case True
    have "GroupEmpty (pg_name pg) \<in> set (pc_skipped r)"
      unfolding r using pg emit_group_empty [OF True] emit_group_fields(3)
      by (rule fold_emit_member [where f = pc_skipped])
    then show ?thesis ..
  next
    case False
    then obtain spec where spec: "spec_of allowed pg = Some spec" by (cases "spec_of allowed pg") auto
    then have emitted: "spec \<in> set (pc_groups r)" unfolding r fold_emit using pg by auto
    have fields: "gs_name spec = pg_name pg" "gs_members spec = prune_members pg allowed"
      using spec by (auto simp: spec_of_def split: if_splits)
    have kept: "x \<in> set (pc_notes r)"
      if "\<forall>r. x \<in> set (pc_notes (emit_group allowed (declared_names groups) pg r))" for x
      unfolding r using that fold_emit_member [OF pg, of x pc_notes] emit_group_fields(4) by metis
    show ?thesis
      using emit_group_reports_all [OF False raw, of "declared_names groups"]
    proof
      assume "member \<in> set (prune_members pg allowed)"
      with emitted fields show ?thesis by auto
    next
      assume "\<exists>x \<in> {RedundantDirect (pg_name pg), GroupNotProduced (pg_name pg) member, MemberNotConvertible (pg_name pg) member}.
        \<forall>r. x \<in> set (pc_notes (emit_group allowed (declared_names groups) pg r))"
      with kept show ?thesis by blast
    qed
  qed
qed

theorem pruned_members_reported_witness:
  "\<exists>r. convert_doc (YMap sample_profile) = Inr (Some r) \<and>
     (GroupEmpty ''G'' \<in> set (pc_skipped r) \<or>
      (\<exists>spec \<in> set (pc_groups r). gs_name spec = ''G'' \<and> ''DIRECT'' \<in> set (gs_members spec)) \<or>
      {RedundantDirect ''G'', GroupNotProduced ''G'' ''DIRECT'', MemberNotConvertible ''G'' ''DIRECT''}
        \<inter> set (pc_notes r) \<noteq> {})"
proof -
  obtain r where r: "convert_doc (YMap sample_profile) = Inr (Some r)" using sample_profile_converts by blast
  let ?g = "[(YStr ''name'', YStr ''G''), (YStr ''type'', YStr ''select''),
     (YStr ''proxies'', YSeq [YStr ''hk'', YStr ''DIRECT''])]"
  have groups: "ymap_get sample_profile ''proxy-groups'' = Some (YSeq [YMap ?g])" by (simp add: sample_profile_def)
  have "pending_of (YMap ?g) = Some \<lparr>pg_name = ''G'', pg_kind = Selector, pg_raw_members = [''hk'', ''DIRECT'']\<rparr>"
    "''DIRECT'' \<in> set (raw_members ?g)"
    by (simp_all add: pending_of_def group_kind_of_def raw_members_def ymap_str_def y_str_def y_seq_def)
  from pruned_members_reported [OF r groups _ this] r show ?thesis by simp
qed

text \<open>The built-in policy names of the two sides differ: a url-test group keeps a member such as \<open>reject\<close> or \<open>BLOCK\<close>,
  which is no tag a rule or group may target.\<close>

lemma builtin_member_without_tag:
  "is_builtin_member ''reject'' \<and> ''reject'' \<notin> set builtin_tags"
  "is_builtin_member ''BLOCK'' \<and> ''BLOCK'' \<notin> set builtin_tags"
  by (simp_all add: is_builtin_member_def builtin_tags_def ascii_case_eval)

end
