(* ===== verification/Rust_Ip.thy ===== *)
theory Rust_Ip
  imports Rust_Str
begin

text \<open>
  \<open>std::net::IpAddr\<close>: parsing (\<open>str::parse\<close>), printing (\<open>Display\<close>) and \<open>is_loopback\<close>,
  as the standard library implements them. The reader functions take the remaining input and
  return the value with the rest; a failed read consumes nothing.
\<close>

datatype ip_addr =
    IpV4 nat nat nat nat
  | IpV6 "nat list" \<comment> \<open>eight 16-bit groups\<close>

definition hex_val :: "char \<Rightarrow> nat option" where
  "hex_val c =
     (let n = of_char c
      in if 48 \<le> n \<and> n \<le> (57::nat) then Some (n - 48)
         else if 97 \<le> n \<and> n \<le> 102 then Some (n - 87)
         else if 65 \<le> n \<and> n \<le> 70 then Some (n - 55)
         else None)"

fun take_digits :: "(char \<Rightarrow> nat option) \<Rightarrow> string \<Rightarrow> nat list \<times> string" where
  "take_digits dv [] = ([], [])"
| "take_digits dv (c # cs) =
     (case dv c of
        None \<Rightarrow> ([], c # cs)
      | Some d \<Rightarrow> (let (ds, r) = take_digits dv cs in (d # ds, r)))"

definition digits_num :: "nat \<Rightarrow> nat list \<Rightarrow> nat" where
  "digits_num radix ds = foldl (\<lambda>a d. radix * a + d) 0 ds"

definition read_number ::
  "(char \<Rightarrow> nat option) \<Rightarrow> nat \<Rightarrow> nat \<Rightarrow> bool \<Rightarrow> nat \<Rightarrow> string \<Rightarrow> (nat \<times> string) option" where
  "read_number dv radix max_digits allow_zero_prefix bound s =
     (let (ds, r) = take_digits dv s; n = digits_num radix ds
      in if ds = [] \<or> max_digits < length ds then None
         else if \<not> allow_zero_prefix \<and> hd ds = 0 \<and> 1 < length ds then None
         else if n < bound then Some (n, r) else None)"

definition read_octet :: "string \<Rightarrow> (nat \<times> string) option" where
  "read_octet s = read_number digit_val 10 3 False 256 s"

definition read_hextet :: "string \<Rightarrow> (nat \<times> string) option" where
  "read_hextet s = read_number hex_val 16 4 True 65536 s"

fun read_char :: "char \<Rightarrow> string \<Rightarrow> string option" where
  "read_char c [] = None"
| "read_char c (x # xs) = (if x = c then Some xs else None)"

definition read_ipv4 :: "string \<Rightarrow> ((nat \<times> nat \<times> nat \<times> nat) \<times> string) option" where
  "read_ipv4 s =
     Option.bind (read_octet s) (\<lambda>(a, s1).
     Option.bind (Option.bind (read_char CHR ''.'' s1) read_octet) (\<lambda>(b, s2).
     Option.bind (Option.bind (read_char CHR ''.'' s2) read_octet) (\<lambda>(c, s3).
     Option.bind (Option.bind (read_char CHR ''.'' s3) read_octet) (\<lambda>(d, s4).
       Some ((a, b, c, d), s4)))))"

text \<open>\<open>read_separator(':', i, ..)\<close>: from the second group on, a colon comes first.\<close>

definition read_sep :: "nat \<Rightarrow> (string \<Rightarrow> ('a \<times> string) option) \<Rightarrow> string \<Rightarrow> ('a \<times> string) option" where
  "read_sep i p s = (if 0 < i then Option.bind (read_char CHR '':'' s) p else p s)"

text \<open>Up to \<open>k\<close> more groups, the \<open>i\<close>-th next; a trailing embedded IPv4 address fills two and
  ends the run.\<close>

fun read_groups :: "nat \<Rightarrow> nat \<Rightarrow> string \<Rightarrow> nat list \<times> bool \<times> string" where
  "read_groups i 0 s = ([], False, s)"
| "read_groups i (Suc k) s =
     (case (if 0 < k then read_sep i read_ipv4 s else None) of
        Some ((a, b, c, d), r) \<Rightarrow> ([a * 256 + b, c * 256 + d], True, r)
      | None \<Rightarrow>
          (case read_sep i read_hextet s of
             None \<Rightarrow> ([], False, s)
           | Some (g, r) \<Rightarrow>
               (let (gs, v4, r') = read_groups (Suc i) k r in (g # gs, v4, r'))))"

definition read_ipv6 :: "string \<Rightarrow> (nat list \<times> string) option" where
  "read_ipv6 s =
     (let (front, front_v4, r) = read_groups 0 8 s
      in if length front = 8 then Some (front, r)
         else if front_v4 then None
         else case Option.bind (read_char CHR '':'' r) (read_char CHR '':'') of
                None \<Rightarrow> None
              | Some r1 \<Rightarrow>
                  (let (back, _, r2) = read_groups 0 (8 - (length front + 1)) r1
                   in Some (front @ replicate (8 - length front - length back) 0 @ back, r2)))"

text \<open>\<open>str::parse::<IpAddr>\<close>: the whole input must be one address.\<close>

definition parse_ip :: "string \<Rightarrow> ip_addr option" where
  "parse_ip s =
     (case read_ipv4 s of
        Some ((a, b, c, d), r) \<Rightarrow> if r = [] then Some (IpV4 a b c d) else None
      | None \<Rightarrow>
          (case read_ipv6 s of
             Some (gs, r) \<Rightarrow> if r = [] then Some (IpV6 gs) else None
           | None \<Rightarrow> None))"

definition hex_char :: "nat \<Rightarrow> char" where
  "hex_char d = ''0123456789abcdef'' ! d"

fun show_hex :: "nat \<Rightarrow> string" where
  "show_hex n = (if n < 16 then [hex_char n] else show_hex (n div 16) @ [hex_char (n mod 16)])"

declare show_hex.simps [simp del]

text \<open>The first longest run of zero groups, as (start, length).\<close>

fun zero_run :: "nat \<Rightarrow> nat \<times> nat \<Rightarrow> nat \<times> nat \<Rightarrow> nat list \<Rightarrow> nat \<times> nat" where
  "zero_run i cur longest [] = longest"
| "zero_run i cur longest (g # gs) =
     (if g = 0 then
        (let cur' = (if snd cur = 0 then (i, 1) else (fst cur, snd cur + 1))
         in zero_run (Suc i) cur' (if snd longest < snd cur' then cur' else longest) gs)
      else zero_run (Suc i) (0, 0) longest gs)"

definition show_ipv4 :: "nat \<Rightarrow> nat \<Rightarrow> nat \<Rightarrow> nat \<Rightarrow> string" where
  "show_ipv4 a b c d = join ''.'' (map show_nat [a, b, c, d])"

definition show_groups :: "nat list \<Rightarrow> string" where
  "show_groups gs = join '':'' (map show_hex gs)"

fun show_ip :: "ip_addr \<Rightarrow> string" where
  "show_ip (IpV4 a b c d) = show_ipv4 a b c d"
| "show_ip (IpV6 gs) =
     (if take 6 gs = [0, 0, 0, 0, 0, 0xffff]
      then ''::ffff:'' @ show_ipv4 (gs ! 6 div 256) (gs ! 6 mod 256) (gs ! 7 div 256) (gs ! 7 mod 256)
      else let (start, len) = zero_run 0 (0, 0) (0, 0) gs
           in if 1 < len
              then show_groups (take start gs) @ ''::'' @ show_groups (drop (start + len) gs)
              else show_groups gs)"

fun is_loopback :: "ip_addr \<Rightarrow> bool" where
  "is_loopback (IpV4 a b c d) \<longleftrightarrow> a = 127"
| "is_loopback (IpV6 gs) \<longleftrightarrow> gs = [0, 0, 0, 0, 0, 0, 0, 1]"

fun is_ipv4 :: "ip_addr \<Rightarrow> bool" where
  "is_ipv4 (IpV4 _ _ _ _) = True"
| "is_ipv4 (IpV6 _) = False"

definition looks_like_ip :: "string \<Rightarrow> bool" where
  "looks_like_ip s \<longleftrightarrow> parse_ip s \<noteq> None"

section \<open>Printing then parsing an IPv4 address\<close>

lemma take_digits_stop:
  "(\<And>c. c \<in> set xs \<Longrightarrow> dv c \<noteq> None) \<Longrightarrow> (case r of [] \<Rightarrow> True | c # _ \<Rightarrow> dv c = None) \<Longrightarrow>
     take_digits dv (xs @ r) = (map (\<lambda>c. the (dv c)) xs, r)"
  by (induction xs) (auto split: list.splits option.splits)

lemma digits_val_foldl:
  "(\<And>c. c \<in> set xs \<Longrightarrow> digit_val c \<noteq> None) \<Longrightarrow>
     digits_val a xs = Some (foldl (\<lambda>a d. 10 * a + d) a (map (\<lambda>c. the (digit_val c)) xs))"
  by (induction xs arbitrary: a) (auto split: option.splits)

lemma show_nat_digits: "c \<in> set (show_nat n) \<Longrightarrow> digit_val c \<noteq> None"
  using set_show_nat [of c n] by auto

lemma show_nat_num: "digits_num 10 (map (\<lambda>c. the (digit_val c)) (show_nat n)) = n"
proof -
  have "digits_val 0 (show_nat n) = Some (digits_num 10 (map (\<lambda>c. the (digit_val c)) (show_nat n)))"
    unfolding digits_num_def by (rule digits_val_foldl) (rule show_nat_digits)
  with digits_val_show_nat [of n] show ?thesis by simp
qed

lemma show_nat_octet_cases:
  "n < 256 \<Longrightarrow> length (show_nat n) \<le> 3 \<and> (length (show_nat n) > 1 \<longrightarrow> the (digit_val (hd (show_nat n))) \<noteq> 0)"
proof -
  assume n: "n < 256"
  consider "n < 10" | "10 \<le> n" "n < 100" | "100 \<le> n" by linarith
  then show ?thesis
  proof cases
    case 1
    then show ?thesis by (simp add: show_nat.simps)
  next
    case 2
    then have "n div 10 < 10" "n div 10 \<noteq> 0" by auto
    with 2 show ?thesis by (simp add: show_nat.simps [of n] show_nat.simps [of "n div 10"])
  next
    case 3
    with n have "\<not> n div 10 < 10" "n div 10 div 10 < 10" "n div 10 div 10 \<noteq> 0" by auto
    with 3 show ?thesis
      by (simp add: show_nat.simps [of n] show_nat.simps [of "n div 10"] show_nat.simps [of "n div 10 div 10"])
  qed
qed

lemma read_octet_show:
  assumes "n < 256" "case r of [] \<Rightarrow> True | c # _ \<Rightarrow> digit_val c = None"
  shows "read_octet (show_nat n @ r) = Some (n, r)"
proof -
  have "take_digits digit_val (show_nat n @ r) = (map (\<lambda>c. the (digit_val c)) (show_nat n), r)"
    by (rule take_digits_stop) (use assms(2) show_nat_digits in auto)
  with assms(1) show_nat_octet_cases [OF assms(1)] show ?thesis
    by (auto simp: read_octet_def read_number_def show_nat_num hd_map)
qed

lemma digit_val_dot [simp]: "digit_val CHR ''.'' = None"
  by (simp add: digit_val_def)

lemma parse_show_ipv4:
  assumes "a < 256" "b < 256" "c < 256" "d < 256"
  shows "parse_ip (show_ip (IpV4 a b c d)) = Some (IpV4 a b c d)"
proof -
  have "read_ipv4 (show_ipv4 a b c d) = Some ((a, b, c, d), [])"
    using assms read_octet_show [of d "[]"]
    by (simp add: read_ipv4_def show_ipv4_def read_octet_show)
  then show ?thesis by (simp add: parse_ip_def)
qed

text \<open>Evaluation on literals: \<open>read_groups\<close> counts down a numeral.\<close>

lemmas read_groups_numeral = read_groups.simps(2) [where k = "pred_numeral n" for n, folded numeral_eq_Suc]

lemma replicate_num: "replicate (numeral k) x = x # replicate (pred_numeral k) x"
  by (simp add: numeral_eq_Suc)

lemmas ip_eval =
  parse_ip_def read_ipv4_def read_ipv6_def read_sep_def read_octet_def read_hextet_def
  read_number_def digits_num_def digit_val_def hex_val_def read_groups_numeral replicate_num

lemmas ip_show_eval =
  show_groups_def show_hex.simps hex_char_def show_ipv4_def show_nat.simps digit_char_def

lemma parse_ip_examples:
  "parse_ip ''223.5.5.5'' = Some (IpV4 223 5 5 5)"
  "parse_ip ''01.2.3.4'' = None"
  "parse_ip ''dns.example'' = None"
  "parse_ip ''2001:db8::1'' = Some (IpV6 [0x2001, 0xdb8, 0, 0, 0, 0, 0, 1])"
  "parse_ip ''::ffff:1.2.3.4'' = Some (IpV6 [0, 0, 0, 0, 0, 0xffff, 0x102, 0x304])"
  "parse_ip ''1:2:3:4:5:6:7::8'' = None"
  by (simp_all add: ip_eval)

lemma show_ip_examples:
  "show_ip (IpV6 [0x2001, 0xdb8, 0, 0, 0, 0, 0, 1]) = ''2001:db8::1''"
  "show_ip (IpV6 [0, 0, 0, 0, 0, 0, 0, 1]) = ''::1''"
  "show_ip (IpV6 [1, 0, 2, 3, 4, 5, 6, 7]) = ''1:0:2:3:4:5:6:7''"
  "show_ip (IpV6 [0, 0, 0, 0, 0, 0xffff, 0x102, 0x304]) = ''::ffff:1.2.3.4''"
  by (simp_all add: ip_show_eval)

end
