(* ===== verification/Config_Gen.thy ===== *)
theory Config_Gen
  imports References Convert_Profile Rust_Ip
begin

text \<open>
  The generator of the runtime config \<open>singbox.json\<close>
  (\<open>src-tui/src/singbox/config_gen.rs\<close>): assembly of the document from converted parts, the
  rules that make mode switching work, the control plane the CLI owns, and the checks a config
  passes before the core sees it. The environment of the process (the shared clash.yaml, the
  selection cache file) is a record of parameters. The properties say that a generated config
  passes the reference and security checks and contains its inputs.
\<close>

section \<open>Inputs\<close>

record tun_settings =
  ts_stack :: string
  ts_mtu :: u16

record clash_api_settings =
  ca_listen_ip :: ip_addr
  ca_listen_port :: u16
  ca_secret :: string

record config_input =
  ci_outbounds :: "json list"
  ci_groups :: "group_spec list"
  ci_mixed_port :: u16
  ci_enable_tun :: bool
  ci_tun :: tun_settings
  ci_clash_api :: clash_api_settings
  ci_rule_sets :: "json list"
  ci_route_rules :: "json list"
  ci_dns :: "json option"

text \<open>The environment: YAML parsing, the body of the shared clash.yaml when it can be read, the path of
  the selection cache when the config directory is known, whether creating that file privately
  succeeds, and whether a file is private to its owner.\<close>

record gen_env =
  ge_parse_yaml :: "string \<Rightarrow> yaml option"
  ge_clash_yaml :: "string option"
  ge_cache_path :: "string option"
  ge_cache_ensure :: "string \<Rightarrow> bool"
  ge_cache_private :: "string \<Rightarrow> bool"

datatype gen_error =
    GenCapability capability_error
  | UnsupportedTunStack string
  | NoGvisor
  | NoNestedRuleSets
  | NoRouteReferences
  | NodeWithoutTag
  | ReservedOutboundTag string
  | ReservedGroupTag string
  | DuplicateTag string
  | GenReference reference_error
  | TopLevelRuleSet
  | NativeUnsupported
  | RouteOrOutboundsMissing
  | UnsupportedOutboundType nat string
  | LegacyDnsAddress
  | LegacyFakeip

definition tun_interface_name :: string where "tun_interface_name = ''sb-tun0''"
definition direct_tag :: string where "direct_tag = ''direct''"
definition default_clash_mode :: string where "default_clash_mode = ''Rule''"
definition clash_modes :: "string list" where "clash_modes = [''Rule'', ''Global'', ''Direct'']"
definition placeholder_secret :: string where "placeholder_secret = ''set-your-secret''"
definition urltest_url :: string where "urltest_url = ''https://www.gstatic.com/generate_204''"

definition clash_api_allow_origins :: "string list" where
  "clash_api_allow_origins =
     [''http://localhost'', ''https://localhost'', ''http://127.0.0.1'', ''http://[::1]'']"

section \<open>Assigning inside an object\<close>

text \<open>\<open>config[k1][k2] = v\<close> on objects: a missing (or null) \<open>config[k1]\<close> becomes an object.\<close>

definition in_object :: "string \<Rightarrow> (jobject \<Rightarrow> jobject) \<Rightarrow> jobject \<Rightarrow> jobject" where
  "in_object k f m =
     obj_put k (JObj (f (case obj_get m k of Some (JObj o') \<Rightarrow> o' | _ \<Rightarrow> []))) m"

text \<open>\<open>if !config.get(k).is_some_and(is_object) { config[k] = {} }\<close>\<close>

definition ensure_object :: "string \<Rightarrow> jobject \<Rightarrow> jobject" where
  "ensure_object k m = (if is_some_and (obj_get m k) is_object then m else obj_put k (JObj []) m)"

text \<open>\<open>get_mut(k).and_then(as_object_mut)\<close>: only when it is an object.\<close>

definition if_object :: "string \<Rightarrow> (jobject \<Rightarrow> jobject) \<Rightarrow> jobject \<Rightarrow> jobject" where
  "if_object k f m = (case obj_get m k of Some (JObj o') \<Rightarrow> obj_put k (JObj (f o')) m | _ \<Rightarrow> m)"

section \<open>Modes\<close>

definition normalize_clash_mode :: "string \<Rightarrow> string" where
  "normalize_clash_mode mode =
     (let m = to_ascii_lowercase (trim mode) in
      if m = ''global'' then ''Global'' else if m = ''direct'' then ''Direct'' else default_clash_mode)"

definition clash_mode_rules :: "string \<Rightarrow> json list" where
  "clash_mode_rules global_target =
     [mk_obj [(''clash_mode'', JStr ''Direct''), (''outbound'', JStr direct_tag)],
      mk_obj [(''clash_mode'', JStr ''Global''), (''outbound'', JStr global_target)]]"

definition default_mode_from_yaml :: "(string \<Rightarrow> yaml option) \<Rightarrow> string \<Rightarrow> string" where
  "default_mode_from_yaml parse body =
     unwrap_or
       (Option.bind (parse body) (\<lambda>doc. map_option normalize_clash_mode (Option.bind (y_get doc ''mode'') y_str)))
       default_clash_mode"

definition configured_default_mode :: "gen_env \<Rightarrow> string" where
  "configured_default_mode env =
     unwrap_or (map_option (default_mode_from_yaml (ge_parse_yaml env)) (ge_clash_yaml env)) default_clash_mode"

section \<open>The control plane\<close>

text \<open>\<open>SocketAddr\<close> as text: an IPv6 address is bracketed.\<close>

definition show_listen :: "clash_api_settings \<Rightarrow> string" where
  "show_listen c =
     (let ip = show_ip (ca_listen_ip c) in
      (if is_ipv4 (ca_listen_ip c) then ip else ''['' @ ip @ '']'') @ '':'' @ show_u16 (ca_listen_port c))"

definition clash_api_json :: "clash_api_settings \<Rightarrow> string \<Rightarrow> json" where
  "clash_api_json clash_api default_mode =
     mk_obj [(''external_controller'', JStr (show_listen clash_api)),
             (''secret'', JStr (ca_secret clash_api)),
             (''default_mode'', JStr default_mode),
             (''access_control_allow_origin'', mk_strs clash_api_allow_origins),
             (''access_control_allow_private_network'', JBool False)]"

definition control_plane_inbounds :: "u16 \<Rightarrow> bool \<Rightarrow> tun_settings \<Rightarrow> json list" where
  "control_plane_inbounds mixed_port enable_tun tun =
     mk_obj [(''type'', JStr ''mixed''), (''tag'', JStr ''mixed-in''), (''listen'', JStr ''127.0.0.1''),
             (''listen_port'', mk_nat (unat mixed_port))] #
     (if enable_tun then
        [mk_obj [(''type'', JStr ''tun''), (''tag'', JStr ''tun-in''),
                 (''interface_name'', JStr tun_interface_name), (''stack'', JStr (ts_stack tun)),
                 (''mtu'', mk_nat (unat (ts_mtu tun))), (''auto_route'', JBool True)]]
      else [])"

definition cache_file_json :: "string \<Rightarrow> json" where
  "cache_file_json path = mk_obj [(''enabled'', JBool True), (''path'', JStr path)]"

definition apply_cache_file :: "gen_env \<Rightarrow> jobject \<Rightarrow> jobject" where
  "apply_cache_file env config =
     (let config = if_object ''experimental'' (obj_remove ''cache_file'') config in
      case ge_cache_path env of
        None \<Rightarrow> config
      | Some path \<Rightarrow>
          if \<not> ge_cache_ensure env path \<or> \<not> ge_cache_private env path then config
          else in_object ''experimental'' (obj_put ''cache_file'' (cache_file_json path))
                 (ensure_object ''experimental'' config))"

definition apply_clash_mode_support :: "clash_api_settings \<Rightarrow> string \<Rightarrow> jobject \<Rightarrow> jobject" where
  "apply_clash_mode_support clash_api default_mode config =
     (let config = ensure_object ''experimental'' (ensure_object ''route'' config);
          route = json_at (JObj config) ''route'';
          global_target = unwrap_or (get_str route ''final'') direct_tag;
          rules = clash_mode_rules global_target @ elements route ''rules'';
          config = in_object ''route'' (obj_put ''rules'' (JArr rules)) config
      in in_object ''experimental''
           (obj_put ''clash_api'' (clash_api_json clash_api (normalize_clash_mode default_mode))) config)"

definition log_section :: json where
  "log_section = mk_obj [(''level'', JStr ''info''), (''timestamp'', JBool True)]"

definition apply_control_plane ::
  "gen_env \<Rightarrow> jobject \<Rightarrow> u16 \<Rightarrow> bool \<Rightarrow> tun_settings \<Rightarrow> clash_api_settings \<Rightarrow> jobject" where
  "apply_control_plane env config mixed_port enable_tun tun clash_api =
     (let config = obj_put ''log'' log_section config;
          config = obj_put ''inbounds'' (JArr (control_plane_inbounds mixed_port enable_tun tun)) config;
          config = ensure_object ''experimental'' config;
          config = apply_clash_mode_support clash_api (configured_default_mode env) config;
          config = apply_cache_file env config;
          config = ensure_object ''route'' config
      in in_object ''route'' (obj_put ''auto_detect_interface'' (JBool True)) config)"

section \<open>The security guard\<close>

datatype security_error =
    NoClashApi
  | TemplateSecret
  | NoAllowOrigin
  | WildcardOrigin
  | EmptyAllowOrigin
  | PrivateNetworkAllowed
  | UnsupportedDefaultMode string
  | NoDefaultMode
  | CacheOutsideOwned string
  | CacheNotEnabled
  | CacheNotPrivate string

text \<open>Unix path equality: the components, ignoring repeated separators and inner \<open>.\<close> parts.\<close>

definition path_components :: "string \<Rightarrow> bool \<times> string list" where
  "path_components p =
     (starts_with p ''/'',
      (case split_on CHR ''/'' p of
         [] \<Rightarrow> []
       | c # cs \<Rightarrow> (if c = [] then [] else [c]) @ filter (\<lambda>x. x \<noteq> [] \<and> x \<noteq> ''.'') cs))"

definition same_path :: "string \<Rightarrow> string \<Rightarrow> bool" where
  "same_path a b \<longleftrightarrow> path_components a = path_components b"

definition check_cache :: "gen_env \<Rightarrow> json \<Rightarrow> (unit, security_error) result" where
  "check_cache env cache =
     (let path = unwrap_or (get_str cache ''path'') [] in
      rbind (guard (is_some_and (ge_cache_path env) (\<lambda>owned. same_path owned path)) (CacheOutsideOwned path)) (\<lambda>_.
      rbind (guard (json_get cache ''enabled'' = Some (JBool True)) CacheNotEnabled) (\<lambda>_.
        guard (ge_cache_private env path) (CacheNotPrivate path))))"

definition validate_control_plane_security :: "gen_env \<Rightarrow> json \<Rightarrow> (unit, security_error) result" where
  "validate_control_plane_security env config =
     (let experimental = json_at config ''experimental'' in
      rbind (ok_or (json_get experimental ''clash_api'') NoClashApi) (\<lambda>clash_api.
      (let secret = unwrap_or (get_str clash_api ''secret'') [] in
      rbind (guard (trim secret \<noteq> [] \<and> secret \<noteq> placeholder_secret) TemplateSecret) (\<lambda>_.
      rbind (ok_or (get_array clash_api ''access_control_allow_origin'') NoAllowOrigin) (\<lambda>origins.
      rbind (guard (JStr ''*'' \<notin> set origins) WildcardOrigin) (\<lambda>_.
      rbind (guard (origins \<noteq> []) EmptyAllowOrigin) (\<lambda>_.
      rbind (guard (json_get clash_api ''access_control_allow_private_network'' = Some (JBool False))
              PrivateNetworkAllowed) (\<lambda>_.
      rbind (case get_str clash_api ''default_mode'' of
               Some mode \<Rightarrow> guard (mode \<in> set clash_modes) (UnsupportedDefaultMode mode)
             | None \<Rightarrow> Inl NoDefaultMode) (\<lambda>_.
      (case json_get experimental ''cache_file'' of
         None \<Rightarrow> Inr ()
       | Some cache \<Rightarrow> check_cache env cache)))))))))) "

section \<open>Generation\<close>

definition normalize_policy_tag :: "string \<Rightarrow> string" where
  "normalize_policy_tag tag =
     (if tag = ''DIRECT'' then ''direct'' else if tag = ''REJECT'' then ''block'' else tag)"

definition is_reserved_tag :: "string \<Rightarrow> bool" where
  "is_reserved_tag tag \<longleftrightarrow> to_ascii_uppercase tag \<in> {''DIRECT'', ''REJECT'', ''BLOCK''}"

definition validate_tun_stack :: "string \<Rightarrow> (unit, gen_error) result" where
  "validate_tun_stack stack = guard (stack \<in> {''system'', ''gvisor'', ''mixed''}) (UnsupportedTunStack stack)"

function normalize_rule_target :: "json \<Rightarrow> json" where
  "normalize_rule_target (JObj m) =
     (let m' = (case get_str (JObj m) ''outbound'' of
                  Some target \<Rightarrow> obj_put ''outbound'' (JStr (normalize_policy_tag target)) m
                | None \<Rightarrow> m)
      in case get_array (JObj m) ''rules'' of
           Some children \<Rightarrow> JObj (obj_put ''rules'' (JArr (map normalize_rule_target children)) m')
         | None \<Rightarrow> JObj m')"
| "normalize_rule_target JNull = JNull"
| "normalize_rule_target (JBool b) = JBool b"
| "normalize_rule_target (JNum n) = JNum n"
| "normalize_rule_target (JStr s) = JStr s"
| "normalize_rule_target (JArr xs) = JArr xs"
  by pat_completeness auto
termination by (relation "measure size") (auto dest: size_get_array simp del: json.size)

definition normalize_rule_targets :: "json list \<Rightarrow> json list" where
  "normalize_rule_targets rules = map normalize_rule_target rules"

fun node_tags_of :: "string list \<Rightarrow> json list \<Rightarrow> (string list, gen_error) result" where
  "node_tags_of tags [] = Inr tags"
| "node_tags_of tags (outbound # outbounds) =
     rbind (ok_or (tag_of outbound) NodeWithoutTag) (\<lambda>tag.
       if is_reserved_tag tag then Inl (ReservedOutboundTag tag)
       else if tag \<in> set tags then Inl (DuplicateTag tag)
       else node_tags_of (tag # tags) outbounds)"

fun group_tags_of :: "string list \<Rightarrow> group_spec list \<Rightarrow> (string list, gen_error) result" where
  "group_tags_of tags [] = Inr tags"
| "group_tags_of tags (group' # groups) =
     (if is_reserved_tag (gs_name group') then Inl (ReservedGroupTag (gs_name group'))
      else if gs_name group' \<in> set tags then Inl (DuplicateTag (gs_name group'))
      else group_tags_of (gs_name group' # tags) groups)"

definition group_outbound :: "group_spec \<Rightarrow> json" where
  "group_outbound g =
     (case gs_kind g of
        Selector \<Rightarrow>
          mk_obj [(''type'', JStr ''selector''), (''tag'', JStr (gs_name g)),
                  (''outbounds'', mk_strs (map normalize_policy_tag (gs_members g) @ [direct_tag])),
                  (''default'', JStr (case gs_members g of m # _ \<Rightarrow> normalize_policy_tag m | [] \<Rightarrow> direct_tag))]
      | UrlTest \<Rightarrow>
          mk_obj [(''type'', JStr ''urltest''), (''tag'', JStr (gs_name g)),
                  (''outbounds'', mk_strs (map normalize_policy_tag (gs_members g))),
                  (''url'', JStr urltest_url), (''interval'', JStr ''3m''), (''tolerance'', mk_nat 50)])"

definition builtin_outbounds :: "json list" where
  "builtin_outbounds =
     [mk_obj [(''type'', JStr ''direct''), (''tag'', JStr direct_tag)],
      mk_obj [(''type'', JStr ''block''), (''tag'', JStr ''block'')]]"

definition emitted_specs :: "config_input \<Rightarrow> group_spec list" where
  "emitted_specs input = filter (\<lambda>g. gs_members g \<noteq> []) (ci_groups input)"

definition final_outbound :: "config_input \<Rightarrow> string" where
  "final_outbound input =
     unwrap_or (map_option gs_name (find (\<lambda>g. gs_kind g = Selector) (emitted_specs input))) direct_tag"

definition capability_checks :: "capability_matrix \<Rightarrow> config_input \<Rightarrow> (unit, gen_error) result" where
  "capability_checks matrix input =
     rbind (if ci_enable_tun input then
              rbind (validate_tun_stack (ts_stack (ci_tun input))) (\<lambda>_.
                guard (\<not> (ts_stack (ci_tun input) = ''gvisor'' \<and> \<not> tun_gvisor matrix)) NoGvisor)
            else Inr ()) (\<lambda>_.
     rbind (guard (\<not> (ci_rule_sets input \<noteq> [] \<and> \<not> route_rule_sets_nested matrix)) NoNestedRuleSets) (\<lambda>_.
       guard (\<not> (ci_route_rules input \<noteq> [] \<and> \<not> route_rule_references matrix)) NoRouteReferences))"

definition all_outbounds :: "config_input \<Rightarrow> json list" where
  "all_outbounds input = ci_outbounds input @ map group_outbound (emitted_specs input) @ builtin_outbounds"

definition route_section :: "config_input \<Rightarrow> jobject" where
  "route_section input =
     (let route = mk_fields [(''final'', JStr (final_outbound input)), (''auto_detect_interface'', JBool True)];
          mode_rules = normalize_rule_targets (clash_mode_rules (final_outbound input) @ ci_route_rules input);
          route = obj_put ''rules'' (JArr mode_rules) route
      in if ci_rule_sets input \<noteq> [] then obj_put ''rule_set'' (JArr (ci_rule_sets input)) route else route)"

definition assemble_config :: "gen_env \<Rightarrow> config_input \<Rightarrow> jobject" where
  "assemble_config env input =
     (let config = mk_fields
            [(''log'', log_section),
             (''inbounds'', JArr (control_plane_inbounds (ci_mixed_port input) (ci_enable_tun input) (ci_tun input))),
             (''outbounds'', JArr (all_outbounds input)),
             (''route'', JObj (route_section input)),
             (''experimental'',
               mk_obj [(''clash_api'', clash_api_json (ci_clash_api input) (configured_default_mode env))])];
          config = apply_cache_file env config
      in case ci_dns input of None \<Rightarrow> config | Some dns \<Rightarrow> obj_put ''dns'' dns config)"

definition generate_config_for_version ::
  "gen_env \<Rightarrow> config_input \<Rightarrow> string \<Rightarrow> (json, gen_error) result" where
  "generate_config_for_version env input version =
     rbind (map_err GenCapability (require_for_version version)) (\<lambda>matrix.
     rbind (capability_checks matrix input) (\<lambda>_.
     rbind (node_tags_of [] (ci_outbounds input)) (\<lambda>tags.
     rbind (group_tags_of tags (ci_groups input)) (\<lambda>_.
     (let config = JObj (assemble_config env input) in
     rbind (map_err GenReference (validate_references config)) (\<lambda>_. Inr config))))))"

definition generate_config :: "gen_env \<Rightarrow> config_input \<Rightarrow> (json, gen_error) result" where
  "generate_config env input = generate_config_for_version env input (cm_version sing_box_1_14_2)"

section \<open>Native documents\<close>

definition unsupported_outbound :: "json list \<Rightarrow> (nat \<times> string) option" where
  "unsupported_outbound outbounds =
     (case filter_map
             (\<lambda>(i, o'). case get_str o' ''type'' of
                Some kind \<Rightarrow> if kind \<in> {''wireguard'', ''dns'', ''shadowsocksr''} then Some (i, kind) else None
              | None \<Rightarrow> None)
             (enumerate 0 outbounds) of
        [] \<Rightarrow> None | x # _ \<Rightarrow> Some x)"

definition check_native_inbound :: "capability_matrix \<Rightarrow> json \<Rightarrow> (unit, gen_error) result" where
  "check_native_inbound matrix inbound =
     (if get_str inbound ''type'' = Some ''tun'' then
        (case get_str inbound ''stack'' of
           None \<Rightarrow> Inr ()
         | Some stack \<Rightarrow>
             rbind (validate_tun_stack stack) (\<lambda>_. guard (\<not> (stack = ''gvisor'' \<and> \<not> tun_gvisor matrix)) NoGvisor))
      else Inr ())"

definition validate_native_config_for_version :: "json \<Rightarrow> string \<Rightarrow> (unit, gen_error) result" where
  "validate_native_config_for_version config version =
     rbind (map_err GenCapability (require_for_version version)) (\<lambda>matrix.
     (let route = json_at config ''route''; dns = json_at config ''dns'' in
     rbind (guard (json_get config ''rule_set'' = None) TopLevelRuleSet) (\<lambda>_.
     rbind (guard (native_json_preserved matrix) NativeUnsupported) (\<lambda>_.
     rbind (guard (is_object route \<and> is_array (json_at config ''outbounds'')) RouteOrOutboundsMissing) (\<lambda>_.
     rbind (case unsupported_outbound (elements config ''outbounds'') of
              Some (i, kind) \<Rightarrow> Inl (UnsupportedOutboundType i kind) | None \<Rightarrow> Inr ()) (\<lambda>_.
     rbind (guard (\<not> (is_array (json_at route ''rule_set'') \<and> \<not> route_rule_sets_nested matrix)) NoNestedRuleSets) (\<lambda>_.
     rbind (guard (\<not> (is_array (json_at route ''rules'') \<and> \<not> route_rule_references matrix)) NoRouteReferences) (\<lambda>_.
     rbind (check_all (check_native_inbound matrix) (elements config ''inbounds'')) (\<lambda>_.
     rbind (guard (\<not> (\<exists>s \<in> set (elements dns ''servers''). json_get s ''address'' \<noteq> None
                        \<or> json_get s ''address_resolver'' \<noteq> None)) LegacyDnsAddress) (\<lambda>_.
     rbind (guard (json_get dns ''fakeip'' = None) LegacyFakeip) (\<lambda>_.
       map_err GenReference (validate_references config))))))))))))"

definition validate_native_config :: "json \<Rightarrow> (unit, gen_error) result" where
  "validate_native_config config = validate_native_config_for_version config (cm_version sing_box_1_14_2)"

section \<open>Object assignment\<close>

lemma obj_get_in_object:
  "obj_get (in_object k f m) k' =
     (if k' = k then Some (JObj (f (case obj_get m k of Some (JObj o') \<Rightarrow> o' | _ \<Rightarrow> []))) else obj_get m k')"
  by (simp add: in_object_def obj_get_put)

lemma obj_get_ensure_object:
  "obj_get (ensure_object k m) k' =
     (if k' = k \<and> \<not> is_some_and (obj_get m k) is_object then Some (JObj []) else obj_get m k')"
  by (simp add: ensure_object_def obj_get_put)

lemma obj_get_if_object_other: "k' \<noteq> k \<Longrightarrow> obj_get (if_object k f m) k' = obj_get m k'"
  by (auto simp: if_object_def obj_get_put split: option.splits json.splits)

text \<open>The object under a key, empty when there is none.\<close>

definition object_at :: "jobject \<Rightarrow> string \<Rightarrow> jobject" where
  "object_at m k = (case obj_get m k of Some (JObj o') \<Rightarrow> o' | _ \<Rightarrow> [])"

lemma object_at_in_object: "object_at (in_object k f m) k' = (if k' = k then f (object_at m k) else object_at m k')"
  by (simp add: object_at_def obj_get_in_object)

lemma object_at_ensure: "object_at (ensure_object k m) k' = object_at m k'"
  by (auto simp: object_at_def obj_get_ensure_object is_some_and_iff split: option.splits json.splits)

lemma object_at_put: "object_at (obj_put k v m) k' = (if k' = k then (case v of JObj o' \<Rightarrow> o' | _ \<Rightarrow> []) else object_at m k')"
  by (auto simp: object_at_def obj_get_put split: json.splits)

lemma object_at_if_object:
  "object_at (if_object k f m) k' =
     (if k' = k \<and> is_some_and (obj_get m k) is_object then f (object_at m k) else object_at m k')"
  by (auto simp: object_at_def if_object_def obj_get_put split: option.splits json.splits)

lemma object_at_not: "\<not> is_some_and (obj_get m k) is_object \<Longrightarrow> object_at m k = []"
  by (auto simp: object_at_def split: option.splits json.splits)

lemma json_get_at_object: "json_get (json_at (JObj m) k) k' = obj_get (object_at m k) k'"
proof (cases "obj_get m k")
  case (Some v)
  then show ?thesis by (cases v) (simp_all add: json_at_def object_at_def)
qed (simp add: json_at_def object_at_def)

section \<open>The selection cache\<close>

lemma apply_cache_file_other: "k \<noteq> ''experimental'' \<Longrightarrow> obj_get (apply_cache_file env m) k = obj_get m k"
  by (auto simp: apply_cache_file_def Let_def obj_get_in_object obj_get_ensure_object obj_get_if_object_other
      split: option.splits)

lemma apply_cache_file_experimental:
  shows "obj_get (object_at (apply_cache_file env m) ''experimental'') k =
    (if k = ''cache_file'' then
       (case ge_cache_path env of
          Some p \<Rightarrow> if ge_cache_ensure env p \<and> ge_cache_private env p then Some (cache_file_json p) else None
        | None \<Rightarrow> None)
     else obj_get (object_at m ''experimental'') k)"
proof -
  have base: "obj_get (object_at (if_object ''experimental'' (obj_remove ''cache_file'') m) ''experimental'') k =
      (if k = ''cache_file'' then None else obj_get (object_at m ''experimental'') k)" for k
    by (cases "is_some_and (obj_get m ''experimental'') is_object")
       (simp_all add: object_at_if_object object_at_not obj_get_remove)
  show ?thesis
    by (auto simp: apply_cache_file_def Let_def base object_at_in_object object_at_ensure obj_get_put
        split: option.splits)
qed

lemma same_path_refl [simp]: "same_path p p"
  by (simp add: same_path_def)

lemma normalize_clash_mode_known: "normalize_clash_mode m \<in> set clash_modes"
  by (simp add: normalize_clash_mode_def clash_modes_def default_clash_mode_def Let_def)

lemma default_clash_mode_known: "default_clash_mode \<in> set clash_modes"
  by (simp add: clash_modes_def default_clash_mode_def)

lemma unwrap_or_in: "d \<in> A \<Longrightarrow> (\<And>v. x = Some v \<Longrightarrow> v \<in> A) \<Longrightarrow> unwrap_or x d \<in> A"
  by (cases x) auto

lemma configured_default_mode_known: "configured_default_mode env \<in> set clash_modes"
  unfolding configured_default_mode_def default_mode_from_yaml_def
  by (intro unwrap_or_in default_clash_mode_known)
     (auto simp: Option.bind_eq_Some_conv intro!: unwrap_or_in default_clash_mode_known normalize_clash_mode_known)

text \<open>An experimental section stamped by the CLI passes the guard.\<close>

lemma stamped_control_plane_secure:
  assumes "obj_get (object_at m ''experimental'') ''clash_api'' = Some (clash_api_json api mode)"
    and "mode \<in> set clash_modes" "trim (ca_secret api) \<noteq> []" "ca_secret api \<noteq> placeholder_secret"
    and "obj_get (object_at m ''experimental'') ''cache_file'' =
      (case ge_cache_path env of
         Some p \<Rightarrow> if ge_cache_ensure env p \<and> ge_cache_private env p then Some (cache_file_json p) else None
       | None \<Rightarrow> None)"
  shows "validate_control_plane_security env (JObj m) = Inr ()"
proof -
  have cache: "check_cache env (cache_file_json p) = Inr ()" if "ge_cache_path env = Some p" "ge_cache_private env p" for p
    using that by (simp add: check_cache_def cache_file_json_def get_str_def)
  show ?thesis
    unfolding validate_control_plane_security_def Let_def json_get_at_object assms(1,5) ok_or_simps rbind.simps
    using assms(2-4) cache
    by (auto simp: clash_api_json_def get_str_def get_array_def mk_strs_def clash_api_allow_origins_def
        split: option.splits)
qed

section \<open>Shape of a generated config\<close>

lemma assemble_config_get:
  "obj_get (assemble_config env input) ''outbounds'' = Some (JArr (all_outbounds input))"
  "obj_get (assemble_config env input) ''route'' = Some (JObj (route_section input))"
  "obj_get (assemble_config env input) ''inbounds'' =
     Some (JArr (control_plane_inbounds (ci_mixed_port input) (ci_enable_tun input) (ci_tun input)))"
  by (cases "ci_dns input";
      simp add: assemble_config_def Let_def obj_get_put apply_cache_file_other obj_get_mk_fields)+

lemma assemble_config_dns: "json_get (JObj (assemble_config env input)) ''dns'' = ci_dns input"
  by (cases "ci_dns input")
     (simp_all add: assemble_config_def Let_def obj_get_put apply_cache_file_other obj_get_mk_fields)

lemma assemble_config_experimental:
  "obj_get (object_at (assemble_config env input) ''experimental'') k =
     (if k = ''cache_file'' then
        (case ge_cache_path env of
           Some p \<Rightarrow> if ge_cache_ensure env p \<and> ge_cache_private env p then Some (cache_file_json p) else None
         | None \<Rightarrow> None)
      else if k = ''clash_api'' then Some (clash_api_json (ci_clash_api input) (configured_default_mode env))
      else None)"
proof -
  let ?e = "mk_fields [(''clash_api'', clash_api_json (ci_clash_api input) (configured_default_mode env))]"
  let ?m = "mk_fields
            [(''log'', log_section),
             (''inbounds'', JArr (control_plane_inbounds (ci_mixed_port input) (ci_enable_tun input) (ci_tun input))),
             (''outbounds'', JArr (all_outbounds input)),
             (''route'', JObj (route_section input)), (''experimental'', JObj ?e)]"
  have e: "object_at ?m ''experimental'' = ?e" by (simp add: object_at_def obj_get_mk_fields)
  have "object_at (assemble_config env input) ''experimental'' = object_at (apply_cache_file env ?m) ''experimental''"
    by (cases "ci_dns input") (simp_all add: assemble_config_def Let_def mk_obj_def object_at_put)
  then show ?thesis
    using apply_cache_file_experimental [of env ?m k] unfolding e
    by (simp add: obj_get_mk_fields)
qed

lemma node_tags_of_Inr:
  "node_tags_of tags xs = Inr ts \<longleftrightarrow>
     unique_tags xs \<and> set (filter_map tag_of xs) \<inter> set tags = {} \<and>
     (\<forall>t \<in> set (filter_map tag_of xs). \<not> is_reserved_tag t) \<and> ts = rev (filter_map tag_of xs) @ tags"
proof (induction tags xs rule: node_tags_of.induct)
  case (2 tags x xs)
  show ?case
  proof (cases "tag_of x")
    case (Some t)
    then show ?thesis using "2.IH" [of t] by (auto simp: unique_tags_Cons)
  qed (simp add: unique_tags_Cons)
qed (auto simp: unique_tags_def)

lemma group_tags_of_Inr:
  "group_tags_of tags gs = Inr ts \<longleftrightarrow>
     distinct (map gs_name gs) \<and> set (map gs_name gs) \<inter> set tags = {} \<and>
     (\<forall>g \<in> set gs. \<not> is_reserved_tag (gs_name g)) \<and> ts = rev (map gs_name gs) @ tags"
  by (induction tags gs rule: group_tags_of.induct) auto

text \<open>The inputs the generator accepts.\<close>

definition input_ok :: "config_input \<Rightarrow> bool" where
  "input_ok input \<longleftrightarrow>
     (ci_enable_tun input \<longrightarrow> ts_stack (ci_tun input) \<in> {''system'', ''gvisor'', ''mixed''}) \<and>
     unique_tags (ci_outbounds input) \<and> distinct (map gs_name (ci_groups input)) \<and>
     set (filter_map tag_of (ci_outbounds input)) \<inter> set (map gs_name (ci_groups input)) = {} \<and>
     (\<forall>t \<in> set (filter_map tag_of (ci_outbounds input)) \<union> set (map gs_name (ci_groups input)). \<not> is_reserved_tag t)"

lemma capability_checks_ok:
  "capability_checks sing_box_1_14_2 input = Inr u \<longleftrightarrow>
     (ci_enable_tun input \<longrightarrow> ts_stack (ci_tun input) \<in> {''system'', ''gvisor'', ''mixed''})"
  by (auto simp: capability_checks_def validate_tun_stack_def)

lemma generate_config_Inr:
  "generate_config env input = Inr config \<longleftrightarrow>
     input_ok input \<and> config = JObj (assemble_config env input) \<and> references_closed config"
proof -
  have refs: "validate_references c = Inr u \<longleftrightarrow> references_closed c" for c u
    using validate_references_ok [of c] by (auto simp: is_ok_def)
  show ?thesis
    unfolding generate_config_def generate_config_for_version_def Let_def
    by (auto simp: capability_checks_ok node_tags_of_Inr group_tags_of_Inr refs input_ok_def simp del: set_filter_map)
qed

section \<open>Rule targets after normalisation\<close>

lemma normalize_policy_tag_idem [simp]: "normalize_policy_tag (normalize_policy_tag t) = normalize_policy_tag t"
  by (simp add: normalize_policy_tag_def)

lemma normalize_rule_target_children:
  "json_get (normalize_rule_target x) ''rules'' = Some (JArr cs) \<Longrightarrow>
     \<exists>ds. json_get x ''rules'' = Some (JArr ds) \<and> cs = map normalize_rule_target ds"
  by (cases x)
     (auto simp: Let_def obj_get_put get_array_def Option.bind_eq_Some_conv split: option.splits if_splits)

lemma normalize_rule_target_outbound:
  "get_str (normalize_rule_target x) ''outbound'' = map_option normalize_policy_tag (get_str x ''outbound'')"
  by (cases x) (auto simp: Let_def get_str_def obj_get_put split: option.splits)

lemma subrules_normalized:
  "r \<in> subrules (normalize_rule_target x) \<Longrightarrow> \<exists>y \<in> subrules x. r = normalize_rule_target y"
proof (induction rule: subrules.induct)
  case self
  show ?case using subrules.self by blast
next
  case (child r cs c)
  then obtain y where y: "y \<in> subrules x" "r = normalize_rule_target y" by blast
  from normalize_rule_target_children [of y cs] child(2) y(2) obtain ds where
    "json_get y ''rules'' = Some (JArr ds)" "cs = map normalize_rule_target ds" by auto
  with child(3) subrules.child [OF y(1)] show ?case by auto
qed

lemma mode_rules_normalized:
  "normalize_rule_target (mk_obj [(''clash_mode'', JStr m), (''outbound'', JStr t)]) =
     mk_obj [(''clash_mode'', JStr m), (''outbound'', JStr (normalize_policy_tag t))]"
  by (simp add: mk_obj_def mk_fields_def get_str_def obj_get_def get_array_def)

section \<open>When the assembled document is closed\<close>

definition generated_tags :: "config_input \<Rightarrow> string set" where
  "generated_tags input =
     set (filter_map tag_of (ci_outbounds input)) \<union> gs_name ` set (emitted_specs input) \<union> {''direct'', ''block''}"

definition dns_closed :: "string set \<Rightarrow> json \<Rightarrow> bool" where
  "dns_closed tags dns \<longleftrightarrow>
     (let servers = elements dns ''servers'' in
      unique_tags servers \<and>
      (\<forall>server \<in> set servers.
         (\<forall>t. get_str server ''detour'' = Some t \<longrightarrow> t \<in> tags) \<and>
         (\<forall>t. get_str server ''domain_resolver'' = Some t \<longrightarrow> resolver_ok servers t)) \<and>
      (\<forall>rule \<in> set (elements dns ''rules''). \<forall>t. get_str rule ''server'' = Some t \<longrightarrow>
         t \<in> set (filter_map tag_of servers)))"

text \<open>The references of the parts, before assembly.\<close>

definition input_closed :: "config_input \<Rightarrow> bool" where
  "input_closed input \<longleftrightarrow>
     (\<forall>outbound \<in> set (ci_outbounds input). outbound_closed (generated_tags input) outbound) \<and>
     (\<forall>g \<in> set (emitted_specs input). \<forall>m \<in> set (gs_members g). normalize_policy_tag m \<in> generated_tags input) \<and>
     (\<forall>rule \<in> set (ci_route_rules input). \<forall>r \<in> subrules (normalize_rule_target rule).
        rule_closed (generated_tags input) (set (filter_map tag_of (ci_rule_sets input))) r) \<and>
     unique_tags (ci_rule_sets input) \<and>
     dns_closed (generated_tags input) (unwrap_or (ci_dns input) JNull)"

lemma tag_of_group_outbound [simp]: "tag_of (group_outbound g) = Some (gs_name g)"
  by (cases "gs_kind g") (simp_all add: group_outbound_def tag_of_def get_str_def)

lemma tag_of_builtin: "map tag_of builtin_outbounds = [Some ''direct'', Some ''block'']"
  by (simp add: builtin_outbounds_def tag_of_def get_str_def direct_tag_def)

lemma filter_map_tags: "filter_map tag_of xs = cat_options (map tag_of xs)"
  by (simp add: filter_map_def)

lemma all_outbounds_tags: "set (filter_map tag_of (all_outbounds input)) = generated_tags input"
  unfolding filter_map_tags all_outbounds_def map_append tag_of_builtin
  by (auto simp: generated_tags_def image_iff) metis+

lemma reserved_builtin: "is_reserved_tag ''direct''" "is_reserved_tag ''block''"
  by (simp_all add: is_reserved_tag_def ascii_case_eval)

lemma unique_tags_append:
  "unique_tags (xs @ ys) \<longleftrightarrow> unique_tags xs \<and> unique_tags ys \<and>
     set (filter_map tag_of xs) \<inter> set (filter_map tag_of ys) = {}"
proof (induction xs)
  case (Cons x xs)
  then show ?case by (cases "tag_of x") (auto simp: unique_tags_Cons simp del: set_filter_map)
qed (simp add: unique_tags_def)

lemma unique_all_outbounds:
  assumes "input_ok input"
  shows "unique_tags (all_outbounds input)"
proof -
  have names: "distinct (map gs_name (emitted_specs input))" "set (map gs_name (emitted_specs input)) \<subseteq> set (map gs_name (ci_groups input))"
    using assms by (auto simp: input_ok_def emitted_specs_def distinct_map_filter)
  have groups: "unique_tags (map group_outbound (emitted_specs input))"
    using names(1) by (simp add: unique_tags_def comp_def distinct_map inj_on_def)
  have builtin: "unique_tags builtin_outbounds" "set (filter_map tag_of builtin_outbounds) = {''direct'', ''block''}"
    by (simp_all add: unique_tags_def builtin_outbounds_def tag_of_def get_str_def direct_tag_def del: set_filter_map)
  have gt: "filter_map tag_of (map group_outbound (emitted_specs input)) = map gs_name (emitted_specs input)"
    by (simp add: filter_map_map)
  show ?thesis
    unfolding all_outbounds_def unique_tags_append gt builtin(2) filter_map_append set_append
    using assms groups builtin(1) names(2) reserved_builtin
    by (auto simp: input_ok_def simp del: set_filter_map)
qed

lemma elements_JObj: "elements (JObj m) k = (case obj_get m k of Some (JArr xs) \<Rightarrow> xs | _ \<Rightarrow> [])"
  by (auto simp: elements_def get_array_def split: option.splits json.splits)

lemma json_get_mk_obj_None: "k \<notin> fst ` set kvs \<Longrightarrow> json_get (mk_obj kvs) k = None"
  by (simp add: map_of_eq_None_iff)

lemma group_outbound_refs:
  "get_str (group_outbound g) ''detour'' = None"
  "gs_members g \<noteq> [] \<Longrightarrow> get_str (group_outbound g) ''default'' \<in>
     {None, Some (normalize_policy_tag (hd (gs_members g)))}"
  "set (elements (group_outbound g) ''outbounds'') =
     JStr ` (normalize_policy_tag ` set (gs_members g) \<union> (if gs_kind g = Selector then {''direct''} else {}))"
  by (cases "gs_kind g"; auto simp: group_outbound_def get_str_def elements_def get_array_def mk_strs_def
      direct_tag_def split: list.splits)+

lemma group_outbound_closed:
  assumes "gs_members g \<noteq> []" "''direct'' \<in> tags"
  shows "outbound_closed tags (group_outbound g) \<longleftrightarrow> (\<forall>m \<in> set (gs_members g). normalize_policy_tag m \<in> tags)"
proof -
  have "hd (gs_members g) \<in> set (gs_members g)" using assms(1) by simp
  then show ?thesis using group_outbound_refs(2) [OF assms(1)] assms(2)
    by (auto simp: outbound_closed_def group_outbound_refs(1,3) image_iff split: if_splits)
qed

lemma builtin_outbound_closed: "o' \<in> set builtin_outbounds \<Longrightarrow> outbound_closed tags o'"
  by (auto simp: builtin_outbounds_def outbound_closed_def get_str_def elements_def get_array_def)

lemma subrules_leaf: "json_get r ''rules'' = None \<Longrightarrow> subrules r = {r}"
  by (subst subrules_unfold) simp

lemma mode_rule_subrules:
  "subrules (mk_obj [(''clash_mode'', JStr m), (''outbound'', JStr t)]) =
     {mk_obj [(''clash_mode'', JStr m), (''outbound'', JStr t)]}"
  by (subst subrules_unfold) simp

lemma mode_rule_closed:
  "rule_closed tags known (mk_obj [(''clash_mode'', JStr m), (''outbound'', JStr t)]) \<longleftrightarrow> t \<in> tags"
  by (simp add: rule_closed_def rule_shape_ok_def rule_sets_of_def get_str_def)

lemma find_Some_mem: "find P xs = Some x \<Longrightarrow> x \<in> set xs"
  by (induction xs) (auto split: if_splits)

lemma final_outbound_known: "final_outbound input \<in> generated_tags input"
proof (cases "find (\<lambda>g. gs_kind g = Selector) (emitted_specs input)")
  case (Some g)
  then have "g \<in> set (emitted_specs input)" by (rule find_Some_mem)
  then show ?thesis using Some by (simp add: final_outbound_def generated_tags_def)
qed (simp add: final_outbound_def generated_tags_def direct_tag_def)

lemma final_not_upper:
  assumes "input_ok input"
  shows "normalize_policy_tag (final_outbound input) = final_outbound input"
proof -
  have r: "is_reserved_tag ''DIRECT''" "is_reserved_tag ''REJECT''"
    by (simp_all add: is_reserved_tag_def ascii_case_eval)
  show ?thesis
  proof (cases "find (\<lambda>g. gs_kind g = Selector) (emitted_specs input)")
    case (Some g)
    then have "g \<in> set (ci_groups input)" using find_Some_mem [OF Some] by (simp add: emitted_specs_def)
    then have "\<not> is_reserved_tag (gs_name g)" using assms by (auto simp: input_ok_def)
    then show ?thesis using Some r by (auto simp: final_outbound_def normalize_policy_tag_def)
  qed (simp add: final_outbound_def normalize_policy_tag_def direct_tag_def)
qed

lemma route_section_get:
  "get_str (JObj (route_section input)) ''final'' = Some (final_outbound input)"
  "get_str (JObj (route_section input)) ''default_domain_resolver'' = None"
  "elements (JObj (route_section input)) ''rules'' =
     normalize_rule_targets (clash_mode_rules (final_outbound input) @ ci_route_rules input)"
  "elements (JObj (route_section input)) ''rule_set'' = ci_rule_sets input"
  by (simp_all add: route_section_def Let_def get_str_def elements_JObj obj_get_put obj_get_mk_fields)

lemma assembled_closed_iff:
  assumes "input_ok input"
  shows "references_closed (JObj (assemble_config env input)) \<longleftrightarrow> input_closed input"
proof -
  let ?c = "JObj (assemble_config env input)"
  have outs: "elements ?c ''outbounds'' = all_outbounds input"
    by (simp add: elements_JObj assemble_config_get)
  have route: "json_at ?c ''route'' = JObj (route_section input)"
    by (simp add: json_at_def assemble_config_get)
  have dns: "json_at ?c ''dns'' = unwrap_or (ci_dns input) JNull"
    using assemble_config_dns [of env input] by (cases "ci_dns input") (simp_all add: json_at_def)
  have tags: "all_outbound_tags ?c = generated_tags input"
    by (simp only: all_outbound_tags_def outs all_outbounds_tags)
  have known: "known_rule_sets ?c = set (filter_map tag_of (ci_rule_sets input))"
    by (simp only: known_rule_sets_def route route_section_get)
  have direct: "''direct'' \<in> generated_tags input" by (simp add: generated_tags_def)
  have outbounds: "(\<forall>outbound \<in> set (all_outbounds input). outbound_closed (generated_tags input) outbound) \<longleftrightarrow>
      (\<forall>outbound \<in> set (ci_outbounds input). outbound_closed (generated_tags input) outbound) \<and>
      (\<forall>g \<in> set (emitted_specs input). \<forall>m \<in> set (gs_members g). normalize_policy_tag m \<in> generated_tags input)"
  proof -
    have "outbound_closed (generated_tags input) (group_outbound g) \<longleftrightarrow>
        (\<forall>m \<in> set (gs_members g). normalize_policy_tag m \<in> generated_tags input)"
      if "g \<in> set (emitted_specs input)" for g
      using that by (intro group_outbound_closed [OF _ direct]) (simp add: emitted_specs_def)
    then have "(\<forall>x \<in> set (map group_outbound (emitted_specs input)). outbound_closed (generated_tags input) x) \<longleftrightarrow>
        (\<forall>g \<in> set (emitted_specs input). \<forall>m \<in> set (gs_members g). normalize_policy_tag m \<in> generated_tags input)"
      by simp
    then show ?thesis
      using builtin_outbound_closed unfolding all_outbounds_def set_append ball_Un by blast
  qed
  have rules: "(\<forall>rule \<in> set (normalize_rule_targets (clash_mode_rules (final_outbound input) @ ci_route_rules input)).
        \<forall>r \<in> subrules rule. rule_closed (generated_tags input) K r) \<longleftrightarrow>
      (\<forall>rule \<in> set (ci_route_rules input). \<forall>r \<in> subrules (normalize_rule_target rule).
        rule_closed (generated_tags input) K r)" for K
    using final_outbound_known [of input] direct
    by (simp add: normalize_rule_targets_def clash_mode_rules_def mode_rules_normalized mode_rule_subrules
        mode_rule_closed final_not_upper [OF assms]) (simp add: direct_tag_def normalize_policy_tag_def)
  show ?thesis
    unfolding references_closed_def input_closed_def dns_closed_def Let_def dns_servers_def outs route dns tags known
      outbounds rules route_section_get
    using unique_all_outbounds [OF assms] final_outbound_known [of input] by auto
qed

section \<open>Properties\<close>

text \<open>C1: Generation succeeds exactly on inputs whose node and group names are unique, present and not
  reserved, whose TUN stack is supported, and whose nodes, groups, rules and DNS section refer only
  to nodes, non-empty groups, built-in outbounds, rule-sets and servers that exist; the result is
  the assembled document.\<close>

theorem generate_config_exact:
  "generate_config env input = Inr config \<longleftrightarrow>
     input_ok input \<and> input_closed input \<and> config = JObj (assemble_config env input)"
  by (auto simp: generate_config_Inr assembled_closed_iff)

text \<open>A small input and an environment without files.\<close>

definition sample_env :: gen_env where
  "sample_env = \<lparr>ge_parse_yaml = (\<lambda>_. None), ge_clash_yaml = None, ge_cache_path = None,
     ge_cache_ensure = (\<lambda>_. False), ge_cache_private = (\<lambda>_. False)\<rparr>"

definition sample_api :: clash_api_settings where
  "sample_api = \<lparr>ca_listen_ip = IpV4 127 0 0 1, ca_listen_port = 9097, ca_secret = ''s3cret''\<rparr>"

definition sample_input :: config_input where
  "sample_input =
     \<lparr>ci_outbounds = [mk_obj [(''type'', JStr ''socks''), (''tag'', JStr ''hk'')]],
      ci_groups = [\<lparr>gs_name = ''G'', gs_kind = Selector, gs_members = [''hk'']\<rparr>],
      ci_mixed_port = 7897, ci_enable_tun = False, ci_tun = \<lparr>ts_stack = ''gvisor'', ts_mtu = 1500\<rparr>,
      ci_clash_api = sample_api, ci_rule_sets = [],
      ci_route_rules = [mk_obj [(''domain'', mk_strs [''a.example'']), (''outbound'', JStr ''DIRECT'')]],
      ci_dns = None\<rparr>"

lemma sample_input_ok: "input_ok sample_input"
  by (simp add: input_ok_def sample_input_def unique_tags_def tag_of_def get_str_def is_reserved_tag_def ascii_case_eval)

lemma sample_rule_normalized:
  "normalize_rule_target (mk_obj [(''domain'', mk_strs [''a.example'']), (''outbound'', JStr ''DIRECT'')]) =
     mk_obj [(''domain'', mk_strs [''a.example'']), (''outbound'', JStr ''direct'')]"
  by (simp add: mk_obj_def mk_fields_def get_str_def get_array_def obj_get_def normalize_policy_tag_def)

lemma sample_input_closed: "input_closed sample_input"
  by (simp add: input_closed_def sample_input_def generated_tags_def emitted_specs_def sample_rule_normalized
      subrules_leaf rule_closed_def rule_shape_ok_def rule_sets_of_def get_str_def normalize_policy_tag_def
      tag_of_def outbound_closed_def elements_def get_array_def unique_tags_def dns_closed_def)

theorem generate_config_exact_witness:
  "generate_config sample_env sample_input = Inr (JObj (assemble_config sample_env sample_input))"
  using generate_config_exact [of sample_env sample_input] sample_input_ok sample_input_closed by blast

lemma sample_generates: "generate_config sample_env sample_input = Inr (JObj (assemble_config sample_env sample_input))"
  by (simp add: generate_config_Inr assembled_closed_iff sample_input_ok sample_input_closed)

lemma assembled_secure:
  assumes "trim (ca_secret (ci_clash_api input)) \<noteq> []" "ca_secret (ci_clash_api input) \<noteq> placeholder_secret"
  shows "validate_control_plane_security env (JObj (assemble_config env input)) = Inr ()"
  using stamped_control_plane_secure [of "assemble_config env input" "ci_clash_api input" "configured_default_mode env" env]
    assms configured_default_mode_known assemble_config_experimental [of env input]
  by simp

text \<open>C8: Every generated config passes the control plane guard when the controller secret is set: the secret
  is neither blank nor the template's, CORS is limited to loopback origins, the mode is one the core
  knows, and a selection cache is the CLI's own private file.\<close>

theorem generated_config_secure:
  assumes "generate_config env input = Inr config"
    and "trim (ca_secret (ci_clash_api input)) \<noteq> []" "ca_secret (ci_clash_api input) \<noteq> placeholder_secret"
  shows "validate_control_plane_security env config = Inr ()"
  using assms assembled_secure by (auto simp: generate_config_Inr)

lemma sample_secret: "trim ''s3cret'' = ''s3cret''"
  by (rule trim_id_ends) (simp_all add: ascii_ws_def unicode_ws_def)

theorem generated_config_secure_witness:
  "validate_control_plane_security sample_env (JObj (assemble_config sample_env sample_input)) = Inr ()"
  using generated_config_secure [OF sample_generates]
  by (simp add: sample_input_def sample_api_def placeholder_secret_def sample_secret)

section \<open>Native documents under the control plane\<close>

lemma apply_clash_mode_support_experimental:
  "object_at (apply_clash_mode_support api mode m) ''experimental'' =
     obj_put ''clash_api'' (clash_api_json api (normalize_clash_mode mode)) (object_at m ''experimental'')"
  by (simp add: apply_clash_mode_support_def Let_def object_at_in_object object_at_ensure)

lemma apply_clash_mode_support_route:
  "object_at (apply_clash_mode_support api mode m) ''route'' =
     obj_put ''rules''
       (JArr (clash_mode_rules (unwrap_or (get_str (JObj (object_at m ''route'')) ''final'') direct_tag) @
              elements (JObj (object_at m ''route'')) ''rules''))
       (object_at m ''route'')"
proof -
  let ?m = "ensure_object ''experimental'' (ensure_object ''route'' m)"
  have "json_at (JObj ?m) ''route'' = JObj (object_at m ''route'')"
    by (auto simp: json_at_def obj_get_ensure_object object_at_def is_some_and_iff split: option.splits json.splits)
  then show ?thesis
    by (simp add: apply_clash_mode_support_def Let_def object_at_in_object object_at_ensure)
qed

lemma apply_clash_mode_support_other:
  "k \<notin> {''route'', ''experimental''} \<Longrightarrow> obj_get (apply_clash_mode_support api mode m) k = obj_get m k"
  by (simp add: apply_clash_mode_support_def Let_def obj_get_in_object obj_get_ensure_object)

lemma apply_control_plane_experimental:
  "object_at (apply_control_plane env m port tun_on tun api) ''experimental'' =
     object_at (apply_cache_file env (apply_clash_mode_support api (configured_default_mode env)
       (ensure_object ''experimental'' (obj_put ''inbounds'' (JArr (control_plane_inbounds port tun_on tun))
         (obj_put ''log'' log_section m))))) ''experimental''"
  by (simp add: apply_control_plane_def Let_def object_at_in_object object_at_ensure)

lemma object_at_apply_cache_file: "k \<noteq> ''experimental'' \<Longrightarrow> object_at (apply_cache_file env m) k = object_at m k"
  by (simp add: object_at_def apply_cache_file_other)

lemma apply_control_plane_route:
  "object_at (apply_control_plane env m port tun_on tun api) ''route'' =
     obj_put ''auto_detect_interface'' (JBool True)
       (obj_put ''rules''
         (JArr (clash_mode_rules (unwrap_or (get_str (JObj (object_at m ''route'')) ''final'') direct_tag) @
                elements (JObj (object_at m ''route'')) ''rules''))
         (object_at m ''route''))"
  by (simp add: apply_control_plane_def Let_def object_at_in_object object_at_ensure object_at_apply_cache_file
      apply_clash_mode_support_route object_at_put)

text \<open>Stamping the control plane onto a native document gives a config that passes the guard, whatever the
  provider shipped under experimental: a foreign controller, a wildcard origin or a foreign cache file
  do not survive.\<close>

theorem native_control_plane_secure:
  assumes "trim (ca_secret api) \<noteq> []" "ca_secret api \<noteq> placeholder_secret"
  shows "validate_control_plane_security env (JObj (apply_control_plane env m port tun_on tun api)) = Inr ()"
proof (rule stamped_control_plane_secure [where mode = "normalize_clash_mode (configured_default_mode env)"])
  show "obj_get (object_at (apply_control_plane env m port tun_on tun api) ''experimental'') ''clash_api'' =
      Some (clash_api_json api (normalize_clash_mode (configured_default_mode env)))"
    by (simp add: apply_control_plane_experimental apply_cache_file_experimental
        apply_clash_mode_support_experimental obj_get_put)
  show "obj_get (object_at (apply_control_plane env m port tun_on tun api) ''experimental'') ''cache_file'' =
      (case ge_cache_path env of
         Some p \<Rightarrow> if ge_cache_ensure env p \<and> ge_cache_private env p then Some (cache_file_json p) else None
       | None \<Rightarrow> None)"
    by (simp add: apply_control_plane_experimental apply_cache_file_experimental)
qed (use assms normalize_clash_mode_known in auto)

theorem native_control_plane_secure_witness:
  "validate_control_plane_security sample_env
     (JObj (apply_control_plane sample_env
        (mk_fields [(''experimental'', mk_obj [(''cache_file'', mk_obj [(''path'', JStr ''/tmp/x'')])])])
        7897 False \<lparr>ts_stack = ''gvisor'', ts_mtu = 1500\<rparr> sample_api)) = Inr ()"
  by (rule native_control_plane_secure) (simp_all add: sample_api_def placeholder_secret_def sample_secret)

text \<open>The control plane replaces only what the CLI owns. Every other section of a native document is
  unchanged; in the route only the rule list and the interface detection change, and the rules are
  the two mode rules followed by the provider's rules in their order.\<close>

theorem native_sections_preserved:
  assumes "k \<notin> {''log'', ''inbounds'', ''experimental'', ''route''}" "k' \<notin> {''rules'', ''auto_detect_interface''}"
  shows "obj_get (apply_control_plane env m port tun_on tun api) k = obj_get m k \<and>
    obj_get (object_at (apply_control_plane env m port tun_on tun api) ''route'') k' = obj_get (object_at m ''route'') k' \<and>
    elements (JObj (object_at (apply_control_plane env m port tun_on tun api) ''route'')) ''rules'' =
      clash_mode_rules (unwrap_or (get_str (JObj (object_at m ''route'')) ''final'') direct_tag) @
      elements (JObj (object_at m ''route'')) ''rules''"
proof -
  have "obj_get (apply_control_plane env m port tun_on tun api) k = obj_get m k"
    using assms(1) by (simp add: apply_control_plane_def Let_def obj_get_put obj_get_in_object obj_get_ensure_object
        apply_cache_file_other apply_clash_mode_support_other)
  then show ?thesis using assms(2) by (simp add: apply_control_plane_route obj_get_put elements_JObj)
qed

theorem native_sections_preserved_witness:
  "obj_get (apply_control_plane sample_env [(''dns'', JNull)] 7897 False \<lparr>ts_stack = ''gvisor'', ts_mtu = 1500\<rparr> sample_api)
     ''dns'' = Some JNull"
  using native_sections_preserved [of "''dns''" "''final''" sample_env "[(''dns'', JNull)]"] by (simp add: obj_get_def)

text \<open>Policy names never survive in a generated rule list: at no depth of any rule is the target the clash
  spelling DIRECT or REJECT.\<close>

theorem generated_rules_use_tags:
  assumes "generate_config env input = Inr config"
    and "rule \<in> set (elements (json_at config ''route'') ''rules'')" "r \<in> subrules rule"
  shows "get_str r ''outbound'' \<notin> {Some ''DIRECT'', Some ''REJECT''}"
proof -
  have "config = JObj (assemble_config env input)" using assms(1) by (simp add: generate_config_Inr)
  then have "elements (json_at config ''route'') ''rules'' =
      normalize_rule_targets (clash_mode_rules (final_outbound input) @ ci_route_rules input)"
    by (simp add: json_at_def assemble_config_get route_section_get)
  then obtain x where "rule = normalize_rule_target x"
    using assms(2) by (auto simp: normalize_rule_targets_def)
  with assms(3) obtain y where "r = normalize_rule_target y" using subrules_normalized by blast
  then show ?thesis
    by (cases "get_str y ''outbound''") (auto simp: normalize_rule_target_outbound normalize_policy_tag_def)
qed

theorem generated_rules_use_tags_witness:
  "\<exists>rule \<in> set (elements (json_at (JObj (assemble_config sample_env sample_input)) ''route'') ''rules'').
     get_str rule ''outbound'' \<notin> {Some ''DIRECT'', Some ''REJECT''}"
proof -
  let ?rules = "elements (json_at (JObj (assemble_config sample_env sample_input)) ''route'') ''rules''"
  have "?rules \<noteq> []"
    by (simp add: json_at_def assemble_config_get route_section_get normalize_rule_targets_def clash_mode_rules_def)
  then obtain rule where rule: "rule \<in> set ?rules" by (meson list.set_sel(1))
  from generated_rules_use_tags [OF sample_generates rule subrules.self] rule show ?thesis by blast
qed

text \<open>A group member that is a built-in name in another spelling than the generator maps makes the whole
  generation fail: the converter keeps such members, but their tags are reserved, so no
  outbound can have them.\<close>

theorem builtin_spelling_fails:
  assumes "g \<in> set (ci_groups input)" "member \<in> set (gs_members g)"
    and "is_builtin_member member" "member \<notin> {''DIRECT'', ''REJECT'', ''direct'', ''block''}"
  shows "\<not> is_ok (generate_config env input)"
proof
  assume "is_ok (generate_config env input)"
  then have ok: "input_ok input" "input_closed input"
    by (auto simp: is_ok_def generate_config_Inr assembled_closed_iff)
  have "normalize_policy_tag member = member" using assms(4) by (simp add: normalize_policy_tag_def)
  moreover have "g \<in> set (emitted_specs input)" using assms(1,2) by (auto simp: emitted_specs_def)
  moreover have "\<forall>g \<in> set (emitted_specs input). \<forall>m \<in> set (gs_members g). normalize_policy_tag m \<in> generated_tags input"
    using ok(2) unfolding input_closed_def by (elim conjE)
  ultimately have "member \<in> generated_tags input" using assms(2) by metis
  moreover have "is_reserved_tag member" using assms(3) by (simp add: is_reserved_tag_def is_builtin_member_def)
  ultimately show False
    using ok(1) assms(4) by (auto simp: generated_tags_def input_ok_def emitted_specs_def)
qed

theorem builtin_spelling_fails_witness:
  "\<not> is_ok (generate_config sample_env
     (sample_input\<lparr>ci_groups := [\<lparr>gs_name = ''G'', gs_kind = UrlTest, gs_members = [''hk'', ''BLOCK'']\<rparr>]\<rparr>))"
  by (rule builtin_spelling_fails [where member = "''BLOCK''"
        and g = "\<lparr>gs_name = ''G'', gs_kind = UrlTest, gs_members = [''hk'', ''BLOCK'']\<rparr>"])
     (simp_all add: is_builtin_member_def ascii_case_eval)

end
