(* ===== verification/Routing.thy ===== *)
theory Routing
  imports Geo
begin

text \<open>
  The route rule model shared by both cores (\<open>src-tui/src/routing.rs\<close>): the rule type, its
  clash text form, its sing-box JSON form, the load and save of a profile's \<open>rules:\<close> list and
  the structured rule form of the editor. The properties are the two round trips and what a
  save does to the rest of the profile.
\<close>

section \<open>The rule model\<close>

datatype geo_kind = GeoIp | GeoSite

datatype match_field =
    Domain string
  | DomainSuffix string
  | DomainKeyword string
  | IpCidr string
  | Port u16
  | Process string
  | RuleSet string
  | GeoSet geo_kind string

datatype rule_target = Outbound string | Direct | Block

datatype logic_op = OpAnd | OpOr

datatype route_rule =
    Simple "match_field list" rule_target
  | Logical logic_op "route_rule list" rule_target
  | Raw string

fun clash_header :: "geo_kind \<Rightarrow> string" where
  "clash_header GeoIp = ''GEOIP''"
| "clash_header GeoSite = ''GEOSITE''"

fun tag_prefix :: "geo_kind \<Rightarrow> string" where
  "tag_prefix GeoIp = ''geoip''"
| "tag_prefix GeoSite = ''geosite''"

fun is_raw :: "route_rule \<Rightarrow> bool" where
  "is_raw (Raw s) = True"
| "is_raw _ = False"

fun is_logical :: "route_rule \<Rightarrow> bool" where
  "is_logical (Logical o' rs t) = True"
| "is_logical _ = False"

section \<open>Clash rule strings\<close>

fun target_to_clash_str :: "rule_target \<Rightarrow> string" where
  "target_to_clash_str (Outbound n) = n"
| "target_to_clash_str Direct = ''DIRECT''"
| "target_to_clash_str Block = ''REJECT''"

definition target_from_clash_str :: "string \<Rightarrow> rule_target option" where
  "target_from_clash_str s =
     Some (if s = ''DIRECT'' then Direct else if s = ''REJECT'' then Block else Outbound s)"

fun field_to_clash_str :: "match_field \<Rightarrow> string option" where
  "field_to_clash_str (Domain v) = Some (''DOMAIN,'' @ v)"
| "field_to_clash_str (DomainSuffix v) = Some (''DOMAIN-SUFFIX,'' @ v)"
| "field_to_clash_str (DomainKeyword v) = Some (''DOMAIN-KEYWORD,'' @ v)"
| "field_to_clash_str (IpCidr v) = Some (''IP-CIDR,'' @ v)"
| "field_to_clash_str (Port v) = Some (''DST-PORT,'' @ show_u16 v)"
| "field_to_clash_str (Process v) = Some (''PROCESS-NAME,'' @ v)"
| "field_to_clash_str (RuleSet v) = Some (''RULE-SET,'' @ v)"
| "field_to_clash_str (GeoSet kind v) = Some (clash_header kind @ '','' @ v)"

definition geo_field :: "geo_kind \<Rightarrow> string \<Rightarrow> match_field option" where
  "geo_field kind value =
     (case classify_geo_value (tag_prefix kind) value of
        None \<Rightarrow> None
      | Some _ \<Rightarrow> Some (GeoSet kind value))"

definition field_from_clash_str :: "string \<Rightarrow> string \<Rightarrow> match_field option" where
  "field_from_clash_str kind value =
     (if kind = ''DOMAIN'' then Some (Domain value)
      else if kind = ''DOMAIN-SUFFIX'' then Some (DomainSuffix value)
      else if kind = ''DOMAIN-KEYWORD'' then Some (DomainKeyword value)
      else if kind = ''IP-CIDR'' \<or> kind = ''IP-CIDR6'' then Some (IpCidr value)
      else if kind = ''DST-PORT'' then map_option Port (parse_u16 value)
      else if kind = ''PROCESS-NAME'' then Some (Process value)
      else if kind = ''RULE-SET'' then Some (RuleSet value)
      else if kind = ''GEOIP'' then geo_field GeoIp value
      else if kind = ''GEOSITE'' then geo_field GeoSite value
      else None)"

definition private_network_cidrs :: "string list" where
  "private_network_cidrs =
     [''0.0.0.0/8'', ''10.0.0.0/8'', ''100.64.0.0/10'', ''127.0.0.0/8'', ''169.254.0.0/16'',
      ''172.16.0.0/12'', ''192.168.0.0/16'', ''::1/128'', ''fc00::/7'', ''fe80::/10'']"

definition tolerated_modifiers :: "string list" where
  "tolerated_modifiers = [''no-resolve'']"

definition is_modifier :: "string \<Rightarrow> bool" where
  "is_modifier part \<longleftrightarrow> (\<exists>m \<in> set tolerated_modifiers. eq_ignore_ascii_case part m)"

text \<open>The loop over the trimmed parts: the first part is always a field.\<close>

fun split_parts :: "nat \<Rightarrow> string list \<Rightarrow> string list \<Rightarrow> string list \<Rightarrow> string list \<times> string list" where
  "split_parts index [] fs modifiers = (fs, modifiers)"
| "split_parts index (part # parts) fs modifiers =
     (if is_modifier part \<and> 0 < index then split_parts (Suc index) parts fs (modifiers @ [part])
      else split_parts (Suc index) parts (fs @ [part]) modifiers)"

definition split_clash_rule :: "string \<Rightarrow> string list \<times> string list" where
  "split_clash_rule rule = split_parts 0 (map trim (split_on CHR '','' rule)) [] []"

definition passthrough_headers :: "string list" where
  "passthrough_headers = [''SUB-RULE'', ''AND'', ''OR'', ''NOT'']"

definition from_clash_rule_str :: "string \<Rightarrow> route_rule" where
  "from_clash_rule_str rule =
     (let parts = fst (split_clash_rule rule) in
      if length parts < 2 then Raw rule
      else if hd parts \<in> set passthrough_headers then Raw rule
      else (case target_from_clash_str (last parts) of
              None \<Rightarrow> Raw rule
            | Some target \<Rightarrow>
                (let parts' = butlast parts in
                 if length parts' \<noteq> 2 then Raw rule
                 else (case field_from_clash_str (hd parts') (last parts') of
                         None \<Rightarrow> Raw rule
                       | Some field \<Rightarrow> Simple [field] target))))"

fun to_clash_rule_str :: "route_rule \<Rightarrow> string" where
  "to_clash_rule_str (Raw s) = s"
| "to_clash_rule_str (Simple ms t) =
     join '','' (concat (map (split_on CHR '','') (filter_map field_to_clash_str ms))
                 @ [target_to_clash_str t])"
| "to_clash_rule_str (Logical o' rs t) = []"

fun describe :: "route_rule \<Rightarrow> string" where
  "describe (Logical o' rs t) =
     ''('' @ (case o' of OpAnd \<Rightarrow> ''AND'' | OpOr \<Rightarrow> ''OR'') @ '': '' @ show_nat (length rs) @
     '' rules -> '' @ target_to_clash_str t @ '')''"
| "describe r = to_clash_rule_str r"

section \<open>Sing-box route rules\<close>

text \<open>The key a field is written under and the array of its values.\<close>

definition field_entry :: "match_field \<Rightarrow> (string \<times> json list) option" where
  "field_entry f =
     (case f of
        Domain v \<Rightarrow> Some (''domain'', [JStr v])
      | DomainSuffix v \<Rightarrow> Some (''domain_suffix'', [JStr v])
      | DomainKeyword v \<Rightarrow> Some (''domain_keyword'', [JStr v])
      | IpCidr v \<Rightarrow> Some (''ip_cidr'', [JStr v])
      | Port v \<Rightarrow> Some (''port'', [mk_nat (unat v)])
      | Process v \<Rightarrow> Some (''process_name'', [JStr v])
      | RuleSet v \<Rightarrow> Some (''rule_set'', [JStr v])
      | GeoSet kind value \<Rightarrow>
          (case classify_geo_value (tag_prefix kind) value of
             Some PrivateNetworks \<Rightarrow> Some (''ip_cidr'', map JStr private_network_cidrs)
           | Some (GeoRuleSet tag) \<Rightarrow> Some (''rule_set'', [JStr tag])
           | None \<Rightarrow> None))"

text \<open>\<open>None\<close> is the \<open>false\<close> of the code; the rule under construction is always an object.\<close>

definition field_to_singbox :: "match_field \<Rightarrow> jobject \<Rightarrow> jobject option" where
  "field_to_singbox f rule =
     (case field_entry f of
        None \<Rightarrow> None
      | Some (key, value) \<Rightarrow>
          Some (case obj_get rule key of
                  Some (JArr existing) \<Rightarrow> obj_put key (JArr (existing @ value)) rule
                | _ \<Rightarrow> obj_put key (JArr value) rule))"

fun target_to_singbox :: "rule_target \<Rightarrow> jobject \<Rightarrow> jobject" where
  "target_to_singbox (Outbound name) rule = obj_put ''outbound'' (JStr name) rule"
| "target_to_singbox Direct rule = obj_put ''outbound'' (JStr ''direct'') rule"
| "target_to_singbox Block rule = obj_put ''outbound'' (JStr ''block'') rule"

definition target_from_singbox :: "json \<Rightarrow> rule_target option" where
  "target_from_singbox rule =
     map_option (\<lambda>s. if s = ''direct'' then Direct else if s = ''block'' then Block else Outbound s)
       (get_str rule ''outbound'')"

definition first_elem :: "json \<Rightarrow> string \<Rightarrow> json option" where
  "first_elem rule key =
     Option.bind (get_array rule key) (\<lambda>xs. case xs of [] \<Rightarrow> None | x # _ \<Rightarrow> Some x)"

definition field_from_singbox :: "json \<Rightarrow> string \<Rightarrow> (string \<Rightarrow> match_field) \<Rightarrow> match_field option" where
  "field_from_singbox rule key mk = map_option mk (Option.bind (first_elem rule key) as_str)"

definition singbox_fields :: "(string \<times> (string \<Rightarrow> match_field)) list" where
  "singbox_fields =
     [(''domain'', Domain), (''domain_suffix'', DomainSuffix), (''domain_keyword'', DomainKeyword),
      (''ip_cidr'', IpCidr), (''process_name'', Process), (''rule_set'', RuleSet)]"

definition simple_from_singbox :: "json \<Rightarrow> route_rule option" where
  "simple_from_singbox rule =
     (let matches = filter_map (\<lambda>(key, mk). field_from_singbox rule key mk) singbox_fields in
      Option.bind
        (case first_elem rule ''port'' of
           None \<Rightarrow> Some matches
         | Some port \<Rightarrow>
             Option.bind (as_u64 port)
               (\<lambda>p. if p < 65536 then Some (matches @ [Port (of_nat p)]) else None))
        (\<lambda>matches. map_option (Simple matches) (target_from_singbox rule)))"

fun fields_to_singbox :: "match_field list \<Rightarrow> jobject \<Rightarrow> jobject option" where
  "fields_to_singbox [] rule = Some rule"
| "fields_to_singbox (f # fs) rule = Option.bind (field_to_singbox f rule) (fields_to_singbox fs)"

fun mode_name :: "logic_op \<Rightarrow> string" where
  "mode_name OpAnd = ''and''"
| "mode_name OpOr = ''or''"

fun to_singbox_json :: "route_rule \<Rightarrow> json option" where
  "to_singbox_json (Raw s) = None"
| "to_singbox_json (Simple ms t) =
     map_option (\<lambda>rule. JObj (target_to_singbox t rule)) (fields_to_singbox ms [])"
| "to_singbox_json (Logical o' rs t) =
     map_option
       (\<lambda>inner. JObj (target_to_singbox t
          (mk_fields [(''type'', JStr ''logical''), (''mode'', JStr (mode_name o')), (''rules'', JArr inner)])))
       (those (map to_singbox_json rs))"

definition mode_from :: "json \<Rightarrow> logic_op option" where
  "mode_from rule =
     (case get_str rule ''mode'' of
        None \<Rightarrow> None
      | Some m \<Rightarrow> if m = ''and'' then Some OpAnd else if m = ''or'' then Some OpOr else None)"

function from_singbox_json :: "json \<Rightarrow> route_rule option" where
  "from_singbox_json rule =
     (if get_str rule ''type'' = Some ''logical'' then
        (case mode_from rule of
           None \<Rightarrow> None
         | Some o' \<Rightarrow>
             (case get_array rule ''rules'' of
                None \<Rightarrow> None
              | Some inner \<Rightarrow>
                  (case those (map from_singbox_json inner) of
                     None \<Rightarrow> None
                   | Some rs \<Rightarrow> map_option (Logical o' rs) (target_from_singbox rule))))
      else simple_from_singbox rule)"
  by pat_completeness auto
termination by (relation "measure size") (auto dest: size_get_array)

declare from_singbox_json.simps [simp del]

section \<open>Profile rule lists\<close>

definition load_rules_from_doc :: "yaml \<Rightarrow> route_rule list" where
  "load_rules_from_doc doc =
     (case Option.bind (y_get doc ''rules'') y_seq of
        None \<Rightarrow> []
      | Some rules \<Rightarrow> map from_clash_rule_str (filter_map y_str rules))"

definition load_profile_rules ::
  "(string \<Rightarrow> yaml option) \<Rightarrow> string \<Rightarrow> (route_rule list, yaml_error) result" where
  "load_profile_rules parse config_yaml =
     rbind (ok_or (parse config_yaml) InvalidYaml) (\<lambda>doc. Inr (load_rules_from_doc doc))"

datatype save_error = LogicalNotSavable | SaveInvalidYaml | SerializeFailed

text \<open>\<open>doc.as_mapping_mut()\<close>: the mapping under the tags, updated in place.\<close>

fun update_mapping :: "(ymapping \<Rightarrow> ymapping) \<Rightarrow> yaml \<Rightarrow> yaml" where
  "update_mapping f (YMap m) = YMap (f m)"
| "update_mapping f (YTagged t v) = YTagged t (update_mapping f v)"
| "update_mapping f v = v"

definition save_rules_to_doc :: "route_rule list \<Rightarrow> yaml \<Rightarrow> yaml" where
  "save_rules_to_doc rules doc =
     update_mapping (ymap_put ''rules'' (YSeq (map (\<lambda>r. YStr (to_clash_rule_str r)) rules))) doc"

definition save_profile_rules ::
  "(string \<Rightarrow> yaml option) \<Rightarrow> (yaml \<Rightarrow> string option) \<Rightarrow> string \<Rightarrow> route_rule list
     \<Rightarrow> (string, save_error) result" where
  "save_profile_rules parse print config_yaml rules =
     (if \<exists>r \<in> set rules. is_logical r then Inl LogicalNotSavable
      else rbind (ok_or (parse config_yaml) SaveInvalidYaml)
             (\<lambda>doc. ok_or (print (save_rules_to_doc rules doc)) SerializeFailed))"

section \<open>The structured rule form\<close>

datatype form_error =
    MissingTarget
  | EmptyTarget
  | MissingValue
  | EmptyValue
  | InvalidPort string
  | UnknownKind string

definition form_field :: "string \<Rightarrow> string \<Rightarrow> (match_field, form_error) result" where
  "form_field kind value =
     (if kind = ''domain'' then Inr (Domain value)
      else if kind = ''suffix'' then Inr (DomainSuffix value)
      else if kind = ''keyword'' then Inr (DomainKeyword value)
      else if kind = ''ip'' \<or> kind = ''cidr'' then Inr (IpCidr value)
      else if kind = ''port'' then map_err (\<lambda>_. InvalidPort value) (rbind (ok_or (parse_u16 value) ()) (\<lambda>p. Inr (Port p)))
      else if kind = ''process'' then Inr (Process value)
      else if kind = ''set'' then Inr (RuleSet value)
      else Inl (UnknownKind kind))"

definition build_simple_rule :: "string \<Rightarrow> (route_rule, form_error) result" where
  "build_simple_rule spec0 =
     (let spec = trim spec0 in
      case split_once CHR ''>'' spec of
        None \<Rightarrow> Inl MissingTarget
      | Some (left, target0) \<Rightarrow>
          (let target = trim target0 in
           if target = [] then Inl EmptyTarget
           else
             (let t = (if target = ''DIRECT'' then Direct
                       else if target = ''REJECT'' then Block else Outbound target) in
              case split_once CHR ''='' left of
                None \<Rightarrow> Inl MissingValue
              | Some (kind, value0) \<Rightarrow>
                  (let value = trim value0 in
                   if value = [] then Inl EmptyValue
                   else rbind (form_field (trim kind) value) (\<lambda>f. Inr (Simple [f] t))))))"

section \<open>The clash round trip\<close>

text \<open>A part as the splitter yields it: trimmed and without commas.\<close>

definition clean_part :: "string \<Rightarrow> bool" where
  "clean_part p \<longleftrightarrow> trim p = p \<and> CHR '','' \<notin> set p"

lemma split_parts_Suc:
  "split_parts (Suc i) ps fs ms =
     (fs @ filter (\<lambda>p. \<not> is_modifier p) ps, ms @ filter is_modifier ps)"
  by (induction ps arbitrary: i fs ms) simp_all

lemma split_parts_0:
  "split_parts 0 (p # ps) [] [] = (p # filter (\<lambda>p. \<not> is_modifier p) ps, filter is_modifier ps)"
  by (simp add: split_parts_Suc)

lemma split_clash_rule_parts:
  "fst (split_clash_rule rule) = p # ps \<Longrightarrow>
     clean_part p \<and> (\<forall>q \<in> set ps. clean_part q \<and> \<not> is_modifier q)"
proof -
  assume *: "fst (split_clash_rule rule) = p # ps"
  obtain w ws where ws: "split_on CHR '','' rule = w # ws"
    by (cases "split_on CHR '','' rule") auto
  have clean: "clean_part (trim q)" if "q \<in> set (w # ws)" for q
    using set_split_on [of q "CHR '',''" rule] that ws by (simp add: clean_part_def trim_no_char)
  from * have "p = trim w" "ps = filter (\<lambda>p. \<not> is_modifier p) (map trim ws)"
    unfolding split_clash_rule_def ws list.map split_parts_0 by simp_all
  then show ?thesis using clean by auto
qed

lemma split_clash_rule_join:
  assumes "clean_part p" "\<And>q. q \<in> set ps \<Longrightarrow> clean_part q \<and> \<not> is_modifier q"
  shows "fst (split_clash_rule (join '','' (p # ps))) = p # ps"
proof -
  have trims: "map trim (p # ps) = p # ps"
    using assms by (auto simp: clean_part_def intro: map_idI)
  have "split_on CHR '','' (join '','' (p # ps)) = p # ps"
    using assms by (intro split_on_join) (auto simp: clean_part_def)
  moreover have "filter (\<lambda>p. \<not> is_modifier p) ps = ps"
    using assms(2) by simp
  ultimately show ?thesis
    unfolding split_clash_rule_def by (simp add: trims [simplified] split_parts_Suc del: split_on.simps)
qed

lemma show_u16_clean: "clean_part (show_u16 p) \<and> \<not> is_modifier (show_u16 p)"
proof -
  have "CHR '','' \<notin> set (show_nat (unat p))" by (rule show_nat_no_char) simp
  moreover have "\<not> is_modifier (show_nat (unat p))"
  proof
    assume "is_modifier (show_nat (unat p))"
    then have "to_ascii_lowercase (show_nat (unat p)) = ''no-resolve''"
      by (simp add: is_modifier_def tolerated_modifiers_def eq_ignore_ascii_case_def) (simp add: ascii_case_eval)
    then have "length (show_nat (unat p)) = 10 \<and> ascii_lower_char (hd (show_nat (unat p))) = CHR ''n''"
      by (cases "show_nat (unat p)") (auto simp: to_ascii_lowercase_def map_eq_Cons_conv)
    moreover have "hd (show_nat (unat p)) \<in> set (show_nat (unat p))" by simp
    then obtain d where "hd (show_nat (unat p)) = digit_char d" "d < 10" using set_show_nat by blast
    ultimately show False using of_char_digit_char [of d]
      by (auto simp: ascii_lower_char_def is_ascii_upper_def)
  qed
  ultimately show ?thesis by (simp add: clean_part_def show_u16_def)
qed

text \<open>The canonical spelling of a parsed field.\<close>

definition canonical_parts :: "match_field \<Rightarrow> string \<Rightarrow> string \<Rightarrow> bool" where
  "canonical_parts f k v \<longleftrightarrow>
     field_to_clash_str f = Some (k @ '','' @ v) \<and> clean_part k \<and> k \<notin> set passthrough_headers \<and>
     field_from_clash_str k v = Some f"

lemma clean_header:
  assumes "s \<noteq> []" "set s \<inter> set (CHR '','' # ascii_ws @ [CHR 0xC2, CHR 0xE1, CHR 0xE2, CHR 0xE3] @ map last unicode_ws) = {}"
  shows "clean_part s"
proof -
  have out: "c \<notin> set (CHR '','' # ascii_ws @ [CHR 0xC2, CHR 0xE1, CHR 0xE2, CHR 0xE3] @ map last unicode_ws)"
    if "c \<in> set s" for c using that assms(2) by blast
  have "trim s = s"
    using out [of "hd s"] out [of "last s"] assms(1) by (intro trim_id_ends) simp_all
  then show ?thesis using out [of "CHR '',''"] by (auto simp: clean_part_def)
qed

lemma clean_headers [simp]:
  "clean_part ''DOMAIN''"
  "clean_part ''DOMAIN-SUFFIX''"
  "clean_part ''DOMAIN-KEYWORD''"
  "clean_part ''IP-CIDR''"
  "clean_part ''DST-PORT''"
  "clean_part ''PROCESS-NAME''"
  "clean_part ''RULE-SET''"
  "clean_part ''GEOIP''"
  "clean_part ''GEOSITE''"
  by (rule clean_header; simp add: ascii_ws_def unicode_ws_def)+

lemma field_from_clash_inv:
  assumes "field_from_clash_str kind v = Some f"
  shows "f \<in> {Domain v, DomainSuffix v, DomainKeyword v, IpCidr v, Process v, RuleSet v} \<or>
    (\<exists>p. f = Port p) \<or> (\<exists>g. f = GeoSet g v \<and> classify_geo_value (tag_prefix g) v \<noteq> None)"
  using assms unfolding field_from_clash_str_def geo_field_def
  by (simp split: if_split_asm option.split_asm; fastforce)

lemma canonical_simple:
  "canonical_parts (Domain v) ''DOMAIN'' v"
  "canonical_parts (DomainSuffix v) ''DOMAIN-SUFFIX'' v"
  "canonical_parts (DomainKeyword v) ''DOMAIN-KEYWORD'' v"
  "canonical_parts (IpCidr v) ''IP-CIDR'' v"
  "canonical_parts (Process v) ''PROCESS-NAME'' v"
  "canonical_parts (RuleSet v) ''RULE-SET'' v"
  "canonical_parts (Port p) ''DST-PORT'' (show_u16 p)"
  by (simp_all add: canonical_parts_def field_from_clash_str_def passthrough_headers_def)

lemma canonical_geo:
  "classify_geo_value (tag_prefix g) v \<noteq> None \<Longrightarrow> canonical_parts (GeoSet g v) (clash_header g) v"
  by (cases g) (auto simp: canonical_parts_def field_from_clash_str_def geo_field_def passthrough_headers_def)

lemma field_from_clash_canonical:
  assumes "field_from_clash_str kind v = Some f" "clean_part v" "\<not> is_modifier v"
  shows "\<exists>k v'. canonical_parts f k v' \<and> clean_part v' \<and> \<not> is_modifier v'"
proof -
  have "(\<exists>k. canonical_parts f k v) \<or> (\<exists>p. f = Port p)"
    using field_from_clash_inv [OF assms(1)] canonical_simple(1-6) [of v] canonical_geo [of _ v]
    by (elim disjE exE conjE insertE emptyE; metis)
  then show ?thesis using assms(2,3) canonical_simple(7) show_u16_clean by metis
qed

lemma from_clash_canonical:
  assumes "canonical_parts f k v" "clean_part v" "\<not> is_modifier v" "clean_part t" "\<not> is_modifier t"
  shows "from_clash_rule_str (join '','' [k, v, t]) =
           Simple [f] (the (target_from_clash_str t))"
proof -
  have "fst (split_clash_rule (join '','' [k, v, t])) = [k, v, t]"
    using assms by (intro split_clash_rule_join) (auto simp: canonical_parts_def)
  then show ?thesis using assms(1)
    by (simp add: from_clash_rule_str_def canonical_parts_def target_from_clash_str_def Let_def)
qed

lemma target_clash_round_trip:
  "target_from_clash_str s = Some t \<Longrightarrow> target_to_clash_str t = s"
  by (auto simp: target_from_clash_str_def)

lemma from_clash_rule_str_cases:
  obtains "from_clash_rule_str rule = Raw rule"
  | k v tgt f t where "fst (split_clash_rule rule) = [k, v, tgt]" "field_from_clash_str k v = Some f"
      "target_from_clash_str tgt = Some t" "from_clash_rule_str rule = Simple [f] t"
proof (cases "from_clash_rule_str rule = Raw rule")
  case False
  let ?p = "fst (split_clash_rule rule)"
  from False have "length ?p = 3"
    by (auto simp: from_clash_rule_str_def Let_def target_from_clash_str_def split: if_splits)
  then obtain k v tgt where p: "?p = [k, v, tgt]"
    by (auto simp: numeral_3_eq_3 length_Suc_conv)
  show ?thesis using False that(2) [OF p]
    by (auto simp: from_clash_rule_str_def p Let_def target_from_clash_str_def split: if_splits option.splits)
qed

lemma clash_parse_print:
  "from_clash_rule_str (to_clash_rule_str (from_clash_rule_str s)) = from_clash_rule_str s"
proof (cases rule: from_clash_rule_str_cases [of s])
  case (2 k v tgt f t)
  have clean: "clean_part v \<and> \<not> is_modifier v" "clean_part tgt \<and> \<not> is_modifier tgt"
    using split_clash_rule_parts [OF 2(1)] by auto
  obtain k' v' where c: "canonical_parts f k' v'" "clean_part v'" "\<not> is_modifier v'"
    using field_from_clash_canonical [OF 2(2)] clean by blast
  have "split_on CHR '','' (k' @ '','' @ v') = [k', v']"
    using c by (simp add: canonical_parts_def clean_part_def split_on_append split_on_no_sep)
  then have "to_clash_rule_str (Simple [f] t) = join '','' [k', v', tgt]"
    using c target_clash_round_trip [OF 2(3)] by (simp add: canonical_parts_def)
  then show ?thesis
    using from_clash_canonical [OF c, of tgt] clean 2(3,4) by simp
qed simp

lemma clash_raw_verbatim:
  "is_raw (from_clash_rule_str s) \<Longrightarrow> to_clash_rule_str (from_clash_rule_str s) = s"
  by (cases rule: from_clash_rule_str_cases [of s]) simp_all

lemma from_clash_not_logical: "\<not> is_logical (from_clash_rule_str s)"
  by (cases rule: from_clash_rule_str_cases [of s]) simp_all

section \<open>Loading and saving\<close>

lemma y_map_update_mapping: "y_map (update_mapping f v) = map_option f (y_map v)"
  by (induction f v rule: update_mapping.induct) (simp_all add: y_map_def)

lemma y_get_save_rules:
  "y_map doc = Some m \<Longrightarrow>
     y_get (save_rules_to_doc rules doc) k =
       (if k = ''rules'' then Some (YSeq (map (\<lambda>r. YStr (to_clash_rule_str r)) rules)) else y_get doc k)"
  by (simp add: save_rules_to_doc_def y_get_def y_map_update_mapping ymap_get_put)

lemma load_save_rules:
  "y_map doc = Some m \<Longrightarrow>
     load_rules_from_doc (save_rules_to_doc rules doc) = map (\<lambda>r. from_clash_rule_str (to_clash_rule_str r)) rules"
  by (simp add: load_rules_from_doc_def y_get_save_rules y_seq_def filter_map_map y_str_def)

lemma load_rules_parsed:
  "r \<in> set (load_rules_from_doc doc) \<Longrightarrow> \<exists>s. r = from_clash_rule_str s"
  by (auto simp: load_rules_from_doc_def split: option.splits)

section \<open>The sing-box round trip\<close>

text \<open>Writing the optional first element of one key.\<close>

definition put_first :: "string \<Rightarrow> json option \<Rightarrow> jobject \<Rightarrow> jobject" where
  "put_first k o' m = (case o' of None \<Rightarrow> m | Some v \<Rightarrow> obj_put k (JArr [v]) m)"

lemma put_first_simps [simp]: "put_first k None m = m" "put_first k (Some v) m = obj_put k (JArr [v]) m"
  by (simp_all add: put_first_def)

lemma obj_get_put_first:
  "obj_get (put_first k o' m) k' =
     (if k' = k \<and> o' \<noteq> None then Some (JArr [the o']) else obj_get m k')"
  by (cases o') (auto simp: put_first_def obj_get_put)

lemma fields_to_singbox_append:
  "fields_to_singbox (fs @ gs) m = Option.bind (fields_to_singbox fs m) (fields_to_singbox gs)"
  by (induction fs arbitrary: m) (auto split: Option.bind_split)

lemma field_to_singbox_fresh:
  "field_entry f = Some (k, [v]) \<Longrightarrow> obj_get m k = None \<Longrightarrow> field_to_singbox f m = Some (put_first k (Some v) m)"
  by (simp add: field_to_singbox_def put_first_def)

definition str_entry :: "json \<Rightarrow> string \<Rightarrow> string option" where
  "str_entry rule k = Option.bind (first_elem rule k) as_str"

lemma fields_filter_map:
  assumes "distinct (map fst ks)"
    and "\<And>k mk. (k, mk) \<in> set ks \<Longrightarrow> (\<forall>v. field_entry (mk v) = Some (k, [JStr v])) \<and> obj_get m k = None"
  shows "fields_to_singbox (filter_map (\<lambda>(k, mk). map_option mk (g k)) ks) m =
           Some (fold (\<lambda>(k, mk). put_first k (map_option JStr (g k))) ks m)"
  using assms
proof (induction ks arbitrary: m)
  case (Cons kf ks)
  obtain k mk where kf: "kf = (k, mk)" by fastforce
  let ?m = "put_first k (map_option JStr (g k)) m"
  have "fields_to_singbox (filter_map (\<lambda>(k, mk). map_option mk (g k)) ks) ?m =
      Some (fold (\<lambda>(k, mk). put_first k (map_option JStr (g k))) ks ?m)"
  proof (rule Cons.IH)
    show "(\<forall>v. field_entry (mk' v) = Some (k', [JStr v])) \<and> obj_get ?m k' = None"
      if "(k', mk') \<in> set ks" for k' mk'
      using that Cons.prems kf by (force simp: obj_get_put_first)
  qed (use Cons.prems in simp)
  moreover have "field_entry (mk v) = Some (k, [JStr v])" "obj_get m k = None" for v
    using Cons.prems(2) [of k mk] kf by auto
  ultimately show ?case
    by (cases "g k") (simp_all add: kf field_to_singbox_fresh)
qed simp

lemma obj_get_fold_put_first:
  "obj_get (fold (\<lambda>(k, mk). put_first k (map_option JStr (g k))) ks m) k' =
     (if k' \<in> fst ` set ks \<and> g k' \<noteq> None then Some (JArr [JStr (the (g k'))]) else obj_get m k')"
  by (induction ks arbitrary: m) (auto simp: obj_get_put_first obj_get_put)

text \<open>What a simple rule looks like after a write: one array per present key, and the target.\<close>

definition written_simple :: "(string \<Rightarrow> string option) \<Rightarrow> nat option \<Rightarrow> rule_target \<Rightarrow> jobject" where
  "written_simple g po t =
     target_to_singbox t
       (put_first ''port'' (map_option mk_nat po)
         (fold (\<lambda>(k, mk). put_first k (map_option JStr (g k))) singbox_fields []))"

definition simple_of :: "(string \<Rightarrow> string option) \<Rightarrow> nat option \<Rightarrow> rule_target \<Rightarrow> route_rule" where
  "simple_of g po t =
     Simple (filter_map (\<lambda>(k, mk). map_option mk (g k)) singbox_fields @
             (case po of None \<Rightarrow> [] | Some p \<Rightarrow> [Port (of_nat p)])) t"

lemma simple_from_singbox_Some:
  assumes "simple_from_singbox rule = Some r"
  shows "\<exists>po t. r = simple_of (str_entry rule) po t \<and> (\<forall>p. po = Some p \<longrightarrow> p < 65536) \<and>
    target_from_singbox rule = Some t"
proof -
  have f: "filter_map (\<lambda>(key, mk). field_from_singbox rule key mk) singbox_fields =
      filter_map (\<lambda>(k, mk). map_option mk (str_entry rule k)) singbox_fields"
    by (simp add: field_from_singbox_def str_entry_def)
  show ?thesis
  proof (cases "first_elem rule ''port''")
    case None
    then show ?thesis using assms
      by (intro exI [of _ None]) (auto simp: simple_from_singbox_def f simple_of_def)
  next
    case (Some v)
    then show ?thesis using assms
      by (intro exI [of _ "as_u64 v"])
         (auto simp: simple_from_singbox_def f simple_of_def Option.bind_eq_Some_conv split: if_splits)
  qed
qed

lemma to_singbox_simple_of:
  assumes "\<And>p. po = Some p \<Longrightarrow> p < 65536"
  shows "to_singbox_json (simple_of g po t) = Some (JObj (written_simple g po t))"
proof -
  let ?m = "fold (\<lambda>(k, mk). put_first k (map_option JStr (g k))) singbox_fields []"
  have "fields_to_singbox (filter_map (\<lambda>(k, mk). map_option mk (g k)) singbox_fields) [] = Some ?m"
    by (rule fields_filter_map) (auto simp: singbox_fields_def field_entry_def)
  moreover have "obj_get ?m ''port'' = None"
    by (simp add: obj_get_fold_put_first) (simp add: singbox_fields_def)
  ultimately show ?thesis using assms
    by (cases po) (simp_all add: simple_of_def written_simple_def fields_to_singbox_append put_first_def
        field_to_singbox_def field_entry_def unat_u16_of_nat)
qed

lemma target_written: "target_from_singbox rule = Some t \<Longrightarrow> target_from_singbox (JObj (target_to_singbox t m)) = Some t"
  by (cases t) (auto simp: target_from_singbox_def split: if_splits)

lemma obj_get_target: "k \<noteq> ''outbound'' \<Longrightarrow> obj_get (target_to_singbox t m) k = obj_get m k"
  by (cases t) (simp_all add: obj_get_put)

lemma from_written_simple:
  assumes "\<And>p. po = Some p \<Longrightarrow> p < 65536" "target_from_singbox rule = Some t"
  shows "from_singbox_json (JObj (written_simple g po t)) = Some (simple_of g po t)"
proof -
  let ?j = "JObj (written_simple g po t)"
  have ty: "get_str ?j ''type'' = None"
    by (simp add: get_str_def written_simple_def obj_get_target obj_get_put_first obj_get_fold_put_first singbox_fields_def)
  have str: "field_from_singbox ?j k mk = map_option mk (g k)" if "(k, mk) \<in> set singbox_fields" for k mk
  proof -
    have "k \<noteq> ''outbound''" "k \<noteq> ''port''" using that by (auto simp: singbox_fields_def)
    moreover have "k \<in> fst ` set singbox_fields" using that by force
    ultimately show ?thesis
      by (cases "g k") (simp_all add: field_from_singbox_def first_elem_def get_array_def written_simple_def
          obj_get_target obj_get_put_first obj_get_fold_put_first)
  qed
  then have "filter_map (\<lambda>(k, mk). field_from_singbox ?j k mk) singbox_fields =
      filter_map (\<lambda>(k, mk). map_option mk (g k)) singbox_fields"
    by (auto simp: filter_map_def intro!: arg_cong [where f = cat_options])
  moreover have "''port'' \<notin> fst ` set singbox_fields" by (simp add: singbox_fields_def)
  then have "first_elem ?j ''port'' = map_option mk_nat po"
    unfolding first_elem_def get_array_def
    by (cases po) (simp_all add: written_simple_def obj_get_target obj_get_put obj_get_fold_put_first)
  moreover have "target_from_singbox ?j = Some t"
    using target_written [OF assms(2)] by (simp add: written_simple_def)
  ultimately show ?thesis using assms(1) ty
    by (cases po) (simp_all add: from_singbox_json.simps simple_from_singbox_def simple_of_def mk_nat_def)
qed

lemma those_Some_iff: "those xs = Some ys \<longleftrightarrow> xs = map Some ys"
  by (induction xs arbitrary: ys) (auto split: option.splits)

lemma those_map_Some: "those (map Some xs) = Some xs"
  by (simp add: those_Some_iff)

lemma round_trip_list:
  assumes "map from_j inner = map Some rs"
    and "\<And>x r. x \<in> set inner \<Longrightarrow> from_j x = Some r \<Longrightarrow> \<exists>j'. to_j r = Some j' \<and> from_j j' = Some r"
  shows "\<exists>inner'. map to_j rs = map Some inner' \<and> map from_j inner' = map Some rs"
  using assms
proof (induction rs arbitrary: inner)
  case (Cons r1 rs)
  then obtain x xs where x: "inner = x # xs" "from_j x = Some r1" "map from_j xs = map Some rs"
    by (cases inner) auto
  from Cons.prems(2) [of x r1] x obtain y where y: "to_j r1 = Some y" "from_j y = Some r1" by auto
  obtain ys where "map to_j rs = map Some ys \<and> map from_j ys = map Some rs"
    using Cons.IH [OF x(3)] x(1) Cons.prems(2) by auto
  with y show ?case by (intro exI [of _ "y # ys"]) simp
qed simp

lemma singbox_round_trip_ex:
  "from_singbox_json j = Some r \<Longrightarrow> \<exists>j'. to_singbox_json r = Some j' \<and> from_singbox_json j' = Some r"
proof (induction j arbitrary: r rule: from_singbox_json.induct)
  case (1 rule)
  show ?case
  proof (cases "get_str rule ''type'' = Some ''logical''")
    case False
    with "1.prems" have "simple_from_singbox rule = Some r" by (simp add: from_singbox_json.simps)
    then show ?thesis using simple_from_singbox_Some to_singbox_simple_of from_written_simple by metis
  next
    case True
    with "1.prems" obtain o' inner rs t where o': "mode_from rule = Some o'"
      and inner: "get_array rule ''rules'' = Some inner" "those (map from_singbox_json inner) = Some rs"
      and t: "target_from_singbox rule = Some t" "r = Logical o' rs t"
      by (subst (asm) from_singbox_json.simps) (auto split: option.splits)
    have "\<exists>inner'. map to_singbox_json rs = map Some inner' \<and> map from_singbox_json inner' = map Some rs"
      using inner(2) "1.IH" [OF True o' inner(1)] by (intro round_trip_list) (auto simp: those_Some_iff)
    then obtain inner' where i: "map to_singbox_json rs = map Some inner'"
      "map from_singbox_json inner' = map Some rs" by blast
    let ?m = "mk_fields [(''type'', JStr ''logical''), (''mode'', JStr (mode_name o')), (''rules'', JArr inner')]"
    let ?j = "JObj (target_to_singbox t ?m)"
    have "to_singbox_json r = Some ?j" using i by (simp add: t those_Some_iff)
    moreover have "from_singbox_json ?j = Some r"
      by (subst from_singbox_json.simps, cases o')
         (simp_all add: get_str_def get_array_def mode_from_def obj_get_target obj_get_mk_fields i those_map_Some
            target_written [OF t(1)] t(2))
    ultimately show ?thesis by blast
  qed
qed

section \<open>Expressibility of parsed rules\<close>

definition match_keys :: "string set" where
  "match_keys = insert ''port'' (fst ` set singbox_fields)"

text \<open>A field that came from clash text always has values to write.\<close>

lemma field_entry_parsed:
  assumes "field_from_clash_str k v = Some f"
  shows "\<exists>key vs. field_entry f = Some (key, vs) \<and> vs \<noteq> [] \<and> key \<in> match_keys"
proof -
  have "\<exists>key vs. field_entry (GeoSet g v) = Some (key, vs) \<and> vs \<noteq> [] \<and> key \<in> match_keys"
    if "classify_geo_value (tag_prefix g) v \<noteq> None" for g
    using that by (auto simp: field_entry_def match_keys_def singbox_fields_def private_network_cidrs_def
        split: geo_value_match.splits)
  then show ?thesis using field_from_clash_inv [OF assms]
    by (elim disjE exE conjE insertE emptyE) (simp_all add: field_entry_def match_keys_def singbox_fields_def)
qed

lemma parsed_rule_json:
  assumes "from_clash_rule_str s = Simple ms t"
  shows "\<exists>key vs. key \<in> match_keys \<and> vs \<noteq> [] \<and>
    to_singbox_json (Simple ms t) = Some (JObj (target_to_singbox t [(key, JArr vs)]))"
proof (cases rule: from_clash_rule_str_cases [of s])
  case (2 k v tgt f t')
  obtain key vs where "field_entry f = Some (key, vs)" "vs \<noteq> []" "key \<in> match_keys"
    using field_entry_parsed [OF 2(2)] by blast
  then show ?thesis using assms 2
    by (intro exI [of _ key] exI [of _ vs]) (auto simp: field_to_singbox_def)
qed (use assms in simp)

lemma get_array_target:
  "k \<noteq> ''outbound'' \<Longrightarrow> get_array (JObj (target_to_singbox t m)) k = get_array (JObj m) k"
  by (simp add: get_array_def obj_get_target)

lemma get_str_outbound:
  "get_str (JObj (target_to_singbox t m)) ''outbound'' =
     Some (case t of Outbound n \<Rightarrow> n | Direct \<Rightarrow> ''direct'' | Block \<Rightarrow> ''block'')"
  by (cases t) simp_all

section \<open>Properties\<close>

text \<open>C7: Clash rules survive the editor: whatever text a rule has, printing its parsed form and parsing it again gives
  the same rule, and a rule the model cannot express is printed exactly as it was written.\<close>

theorem clash_rule_round_trip:
  "from_clash_rule_str (to_clash_rule_str (from_clash_rule_str s)) = from_clash_rule_str s \<and>
   (if is_raw (from_clash_rule_str s) then to_clash_rule_str (from_clash_rule_str s) = s else True)"
  using clash_parse_print clash_raw_verbatim by simp

text \<open>Saving the rules that were loaded from a profile gives a document from which the same rules are loaded, and
  no other entry of the profile changes.\<close>

theorem profile_rules_round_trip:
  assumes "y_map doc = Some m" "k \<noteq> ''rules''"
  shows "load_rules_from_doc (save_rules_to_doc (load_rules_from_doc doc) doc) = load_rules_from_doc doc \<and>
    y_get (save_rules_to_doc rules doc) k = y_get doc k"
proof -
  have "from_clash_rule_str (to_clash_rule_str r) = r" if "r \<in> set (load_rules_from_doc doc)" for r
    using load_rules_parsed [OF that] clash_parse_print by auto
  then show ?thesis using assms by (simp add: load_save_rules y_get_save_rules map_idI)
qed

theorem profile_rules_round_trip_witness:
  "let doc = YMap [(YStr ''mode'', YStr ''rule''), (YStr ''rules'', YSeq [YStr ''DOMAIN,a.example,DIRECT''])] in
     load_rules_from_doc (save_rules_to_doc (load_rules_from_doc doc) doc) = load_rules_from_doc doc \<and>
     y_get (save_rules_to_doc [] doc) ''mode'' = Some (YStr ''rule'')"
  using profile_rules_round_trip [of
      "YMap [(YStr ''mode'', YStr ''rule''), (YStr ''rules'', YSeq [YStr ''DOMAIN,a.example,DIRECT''])]" _ "''mode''" "[]"]
  by (simp add: y_map_def)

text \<open>A sing-box rule object the model accepts has a stable sing-box form: the model can be written back, and reading
  what was written gives the same model, for simple rules and logical rules of any depth.\<close>

theorem singbox_rule_round_trip:
  assumes "from_singbox_json j = Some r"
  shows "\<exists>j'. to_singbox_json r = Some j' \<and> from_singbox_json j' = Some r"
  using assms by (rule singbox_round_trip_ex)

definition two_domains :: json where
  "two_domains = mk_obj [(''domain'', mk_strs [''a.example'', ''b.example'']), (''outbound'', JStr ''proxy'')]"

lemma two_domains_truncated:
  "from_singbox_json two_domains = Some (Simple [Domain ''a.example''] (Outbound ''proxy''))"
  by (simp add: two_domains_def from_singbox_json.simps get_str_def simple_from_singbox_def singbox_fields_def
      field_from_singbox_def first_elem_def get_array_def mk_strs_def target_from_singbox_def Let_def)

theorem singbox_rule_round_trip_witness:
  "\<exists>j'. to_singbox_json (Simple [Domain ''a.example''] (Outbound ''proxy'')) = Some j' \<and>
     from_singbox_json j' = Some (Simple [Domain ''a.example''] (Outbound ''proxy''))"
  by (rule singbox_rule_round_trip [OF two_domains_truncated])

text \<open>A clash rule that is parsed always has a sing-box form with a non-empty match condition and the rule's
  target: no parsed rule turns into one that matches everything or nothing.\<close>

theorem parsed_rule_has_condition:
  assumes "from_clash_rule_str s = Simple ms t"
  shows "\<exists>rule key vs. to_singbox_json (Simple ms t) = Some rule \<and> key \<in> match_keys \<and> vs \<noteq> [] \<and>
    get_array rule key = Some vs \<and>
    get_str rule ''outbound'' = Some (case t of Outbound n \<Rightarrow> n | Direct \<Rightarrow> ''direct'' | Block \<Rightarrow> ''block'')"
proof -
  obtain key vs where k: "key \<in> match_keys" "vs \<noteq> []"
    "to_singbox_json (Simple ms t) = Some (JObj (target_to_singbox t [(key, JArr vs)]))"
    using parsed_rule_json [OF assms] by blast
  have "key \<noteq> ''outbound''" using k(1) by (auto simp: match_keys_def singbox_fields_def)
  then have "get_array (JObj (target_to_singbox t [(key, JArr vs)])) key = Some vs"
    by (simp add: get_array_target) (simp add: get_array_def obj_get_def)
  then show ?thesis using k get_str_outbound by blast
qed

lemma sample_rule_parsed: "from_clash_rule_str ''DOMAIN,a,P'' = Simple [Domain ''a''] (Outbound ''P'')"
proof -
  have "clean_part ''a'' \<and> clean_part ''P''"
    by (intro conjI clean_header; simp add: ascii_ws_def unicode_ws_def)
  moreover have "\<not> is_modifier ''a'' \<and> \<not> is_modifier ''P''"
    by (simp add: is_modifier_def tolerated_modifiers_def ascii_case_eval)
  moreover have "join '','' [''DOMAIN'', ''a'', ''P''] = ''DOMAIN,a,P''" by simp
  ultimately show ?thesis
    using from_clash_canonical [OF canonical_simple(1), of "''a''" "''P''"] by (simp add: target_from_clash_str_def)
qed

theorem parsed_rule_has_condition_witness:
  "\<exists>rule. to_singbox_json (Simple [Domain ''a''] (Outbound ''P'')) = Some rule \<and> get_str rule ''outbound'' = Some ''P''"
  using parsed_rule_has_condition [OF sample_rule_parsed] by auto

text \<open>Reading accepts objects with more than the model holds; the rest is gone after a write.\<close>

lemma no_resolve_lost:
  assumes "clean_part v" "\<not> is_modifier v" "clean_part t" "\<not> is_modifier t"
  shows "from_clash_rule_str (join '','' [''IP-CIDR'', v, t, ''no-resolve'']) =
    from_clash_rule_str (join '','' [''IP-CIDR'', v, t])"
proof -
  have nr: "clean_part ''no-resolve''" "is_modifier ''no-resolve''"
    by (rule clean_header; simp add: ascii_ws_def unicode_ws_def)
       (simp add: is_modifier_def tolerated_modifiers_def)
  have "split_on CHR '','' (join '','' [''IP-CIDR'', v, t, ''no-resolve'']) = [''IP-CIDR'', v, t, ''no-resolve'']"
    "split_on CHR '','' (join '','' [''IP-CIDR'', v, t]) = [''IP-CIDR'', v, t]"
    using assms nr clean_headers(4) by (intro split_on_join; auto simp: clean_part_def)+
  then have "fst (split_clash_rule (join '','' [''IP-CIDR'', v, t, ''no-resolve''])) =
      fst (split_clash_rule (join '','' [''IP-CIDR'', v, t]))"
    unfolding split_clash_rule_def using assms nr
    by (simp add: split_parts_Suc clean_part_def del: split_on.simps join.simps)
  then show ?thesis
    using from_clash_canonical [OF canonical_simple(4) assms]
    by (simp add: from_clash_rule_str_def Let_def del: join.simps split: option.splits if_splits)
qed

end
