(* ===== verification/Rule_Order.thy ===== *)
theory Rule_Order
  imports Routing
begin

text \<open>
  The durable order of profile rules and logical rules (\<open>src-tui/src/singbox/mod.rs\<close>): the
  sidecar files, the fingerprint that detects a replaced rule list, parsing and writing of the
  two sidecar shapes, and the interleaving of converted profile rules with logical rules. The
  configuration directory is a map from file names to contents; text parsing and printing are
  parameters. The properties are the save/load round trip and what the interleaving keeps.
\<close>

section \<open>Data\<close>

datatype order_entry = ProfileAt nat | LogicalAt nat

record fingerprint =
  fp_count :: nat
  fp_hash :: u64

record rule_order =
  ro_logical :: "route_rule list"
  ro_entries :: "order_entry list"
  ro_profile :: "fingerprint option"

definition empty_order :: rule_order where
  "empty_order = \<lparr>ro_logical = [], ro_entries = [], ro_profile = None\<rparr>"

definition rule_sets_file :: string where "rule_sets_file = ''singbox-rule-sets.json''"
definition logical_rules_file :: string where "logical_rules_file = ''singbox-rules.json''"
definition rule_order_version :: nat where "rule_order_version = 1"

datatype rule_set_error =
    SetWithoutTag nat
  | DuplicateSetTag string
  | UnsupportedSetType string
  | RemoteWithoutUrl string
  | LocalWithoutPath string

datatype reference_problem =
    UnknownRuleSet string
  | RawNotAccepted

datatype order_error =
    OrderNotObject
  | UnsupportedVersion nat
  | NoEntries
  | BadEntry nat
  | NoRules
  | BadFingerprint
  | NotLogical nat
  | NotExpressible nat
  | Lossy nat

datatype store_error =
    ParseFailed string
  | RuleSetInvalid rule_set_error
  | OrderInvalid order_error
  | ReferenceInvalid reference_problem
  | OnlyLogicalRules
  | RulesNotExpressible
  | EntryOutOfRange nat nat
  | WriteFailed string

section \<open>Fingerprints\<close>

definition fnv_offset :: u64 where "fnv_offset = 0xcbf29ce484222325"
definition fnv_prime :: u64 where "fnv_prime = 0x00000100000001b3"

definition fnv_byte :: "char \<Rightarrow> u64 \<Rightarrow> u64" where
  "fnv_byte b hash = (xor hash (of_nat (of_char b))) * fnv_prime"

definition fnv :: "string \<Rightarrow> u64 \<Rightarrow> u64" where
  "fnv bytes hash = fold fnv_byte bytes hash"

definition profile_rule_fingerprint :: "route_rule list \<Rightarrow> fingerprint" where
  "profile_rule_fingerprint rules =
     \<lparr>fp_count = length rules,
      fp_hash = fold (\<lambda>r h. fnv [CHR 0x1F] (fnv (describe r) h)) rules fnv_offset\<rparr>"

definition matches_profile :: "rule_order \<Rightarrow> fingerprint \<Rightarrow> bool" where
  "matches_profile order actual \<longleftrightarrow>
     (case ro_profile order of None \<Rightarrow> True | Some stored \<Rightarrow> stored = actual)"

datatype drift_note = RuleOrderReset nat nat

definition resolve_profile_drift :: "rule_order \<Rightarrow> fingerprint \<Rightarrow> rule_order \<times> drift_note option" where
  "resolve_profile_drift order actual =
     (if ro_entries order = [] \<or> matches_profile order actual then (order, None)
      else (\<lparr>ro_logical = ro_logical order, ro_entries = [], ro_profile = Some actual\<rparr>,
            map_option (\<lambda>stored. RuleOrderReset (fp_count stored) (fp_count actual)) (ro_profile order)))"

section \<open>Rule sets\<close>

definition set_tag :: "json \<Rightarrow> string option" where
  "set_tag item = opt_filter (\<lambda>t. trim t \<noteq> []) (tag_of item)"

definition check_rule_set :: "string \<Rightarrow> json \<Rightarrow> (unit, rule_set_error) result" where
  "check_rule_set tag item =
     (if get_str item ''type'' \<notin> {Some ''local'', Some ''remote''} then Inl (UnsupportedSetType tag)
      else if get_str item ''type'' = Some ''remote'' \<and> get_str item ''url'' \<in> {None, Some []} then Inl (RemoteWithoutUrl tag)
      else if get_str item ''type'' = Some ''local'' \<and> get_str item ''path'' \<in> {None, Some []} then Inl (LocalWithoutPath tag)
      else Inr ())"

fun validate_rule_sets_from :: "nat \<Rightarrow> string list \<Rightarrow> json list \<Rightarrow> (unit, rule_set_error) result" where
  "validate_rule_sets_from index seen [] = Inr ()"
| "validate_rule_sets_from index seen (item # sets) =
     (if \<not> is_object item then Inl (SetWithoutTag index)
      else case set_tag item of
        None \<Rightarrow> Inl (SetWithoutTag index)
      | Some tag \<Rightarrow>
          if tag \<in> set seen then Inl (DuplicateSetTag tag)
          else rbind (check_rule_set tag item) (\<lambda>_. validate_rule_sets_from (Suc index) (tag # seen) sets))"

definition validate_rule_sets :: "json list \<Rightarrow> (unit, rule_set_error) result" where
  "validate_rule_sets sets = validate_rule_sets_from 0 [] sets"

section \<open>References of stored rules\<close>

fun field_rule_set :: "match_field \<Rightarrow> string option" where
  "field_rule_set (RuleSet tag) = Some tag"
| "field_rule_set _ = None"

fun visit_rule :: "string set \<Rightarrow> route_rule \<Rightarrow> (unit, reference_problem) result" where
  "visit_rule known (Simple ms t) =
     check_all (\<lambda>tag. guard (tag \<in> known) (UnknownRuleSet tag)) (filter_map field_rule_set ms)"
| "visit_rule known (Logical o' rules t) = check_all (visit_rule known) rules"
| "visit_rule known (Raw s) = Inl RawNotAccepted"

definition validate_rule_set_references_against ::
  "route_rule list \<Rightarrow> json list \<Rightarrow> (unit, reference_problem) result" where
  "validate_rule_set_references_against rules sets =
     check_all (visit_rule (set (filter_map tag_of sets))) rules"

section \<open>Parsing the sidecar\<close>

definition parse_logical_value :: "nat \<Rightarrow> json \<Rightarrow> (route_rule, order_error) result" where
  "parse_logical_value index value =
     rbind (ok_or (opt_filter is_logical (from_singbox_json value)) (NotLogical index)) (\<lambda>rule.
     rbind (ok_or (to_singbox_json rule) (NotExpressible index)) (\<lambda>round_trip.
     rbind (guard (round_trip = value) (Lossy index)) (\<lambda>_. Inr rule)))"

definition parse_logical_values :: "json list \<Rightarrow> (route_rule list, order_error) result" where
  "parse_logical_values values = traverse (\<lambda>(i, v). parse_logical_value i v) (enumerate 0 values)"

definition parse_entry :: "nat \<Rightarrow> json \<Rightarrow> (order_entry, order_error) result" where
  "parse_entry index entry =
     (case (Option.bind (json_get entry ''profile'') as_u64, Option.bind (json_get entry ''logical'') as_u64) of
        (Some i, None) \<Rightarrow> Inr (ProfileAt i)
      | (None, Some i) \<Rightarrow> Inr (LogicalAt i)
      | _ \<Rightarrow> Inl (BadEntry index))"

text \<open>The derived deserialiser of the fingerprint: an object with both fields, or the pair as an array.\<close>

definition parse_fingerprint :: "json \<Rightarrow> fingerprint option" where
  "parse_fingerprint v =
     (let build = (\<lambda>c h. case (c, h) of
            (Some n, Some k) \<Rightarrow> Some \<lparr>fp_count = n, fp_hash = of_nat k\<rparr> | _ \<Rightarrow> None)
      in case v of
           JObj m \<Rightarrow> build (Option.bind (obj_get m ''count'') as_u64) (Option.bind (obj_get m ''hash'') as_u64)
         | JArr [c, h] \<Rightarrow> build (as_u64 c) (as_u64 h)
         | _ \<Rightarrow> None)"

definition parse_profile :: "json \<Rightarrow> (fingerprint option, order_error) result" where
  "parse_profile value =
     (case json_get value ''profile'' of
        None \<Rightarrow> Inr None
      | Some JNull \<Rightarrow> Inr None
      | Some v \<Rightarrow> rbind (ok_or (parse_fingerprint v) BadFingerprint) (\<lambda>f. Inr (Some f)))"

definition parse_order_object :: "json \<Rightarrow> (rule_order, order_error) result" where
  "parse_order_object value =
     (let version = unwrap_or (Option.bind (json_get value ''version'') as_u64) rule_order_version in
      rbind (guard (version = rule_order_version) (UnsupportedVersion version)) (\<lambda>_.
      rbind (ok_or (get_array value ''entries'') NoEntries) (\<lambda>entries.
      rbind (traverse (\<lambda>(i, e). parse_entry i e) (enumerate 0 entries)) (\<lambda>parsed.
      rbind (ok_or (get_array value ''rules'') NoRules) (\<lambda>rules.
      rbind (parse_profile value) (\<lambda>profile.
      rbind (parse_logical_values rules) (\<lambda>logical.
        Inr \<lparr>ro_logical = logical, ro_entries = parsed, ro_profile = profile\<rparr>)))))))"

definition parse_rule_order :: "json \<Rightarrow> (rule_order, order_error) result" where
  "parse_rule_order value =
     (case value of
        JArr values \<Rightarrow>
          rbind (parse_logical_values values)
            (\<lambda>logical. Inr \<lparr>ro_logical = logical, ro_entries = [], ro_profile = None\<rparr>)
      | JObj _ \<Rightarrow> parse_order_object value
      | _ \<Rightarrow> Inl OrderNotObject)"

section \<open>Writing the sidecar\<close>

definition logical_rule_values :: "route_rule list \<Rightarrow> (json list, store_error) result" where
  "logical_rule_values rules =
     (if \<exists>r \<in> set rules. \<not> is_logical r then Inl OnlyLogicalRules
      else ok_or (those (map to_singbox_json rules)) RulesNotExpressible)"

definition entry_json :: "order_entry \<Rightarrow> json" where
  "entry_json e =
     (case e of ProfileAt i \<Rightarrow> mk_obj [(''profile'', mk_nat i)] | LogicalAt i \<Rightarrow> mk_obj [(''logical'', mk_nat i)])"

definition fingerprint_json :: "fingerprint option \<Rightarrow> json" where
  "fingerprint_json p =
     (case p of None \<Rightarrow> JNull
      | Some f \<Rightarrow> mk_obj [(''count'', mk_nat (fp_count f)), (''hash'', mk_nat (unat (fp_hash f)))])"

definition order_json :: "rule_order \<Rightarrow> json list \<Rightarrow> json" where
  "order_json order rules =
     mk_obj [(''version'', mk_nat rule_order_version), (''rules'', JArr rules),
             (''profile'', fingerprint_json (ro_profile order)),
             (''entries'', JArr (map entry_json (ro_entries order)))]"

definition check_entry :: "nat \<Rightarrow> nat \<Rightarrow> order_entry \<Rightarrow> (unit, store_error) result" where
  "check_entry stored slot e =
     (case e of LogicalAt i \<Rightarrow> guard (i < stored) (EntryOutOfRange slot i) | ProfileAt _ \<Rightarrow> Inr ())"

section \<open>The configuration directory\<close>

type_synonym home = "string \<Rightarrow> string option"

text \<open>What the storage code relies on of the text format: the parser and the printer of JSON, and whether
  writing a file succeeds. A failed write leaves the directory as it was.\<close>

record json_io =
  io_parse :: "string \<Rightarrow> json option"
  io_print :: "json \<Rightarrow> string"
  io_writable :: "string \<Rightarrow> bool"

definition atomic_write :: "json_io \<Rightarrow> string \<Rightarrow> string \<Rightarrow> home \<Rightarrow> (home, store_error) result" where
  "atomic_write io name body home =
     (if io_writable io name then Inr (home(name \<mapsto> body)) else Inl (WriteFailed name))"

definition load_rule_sets :: "json_io \<Rightarrow> home \<Rightarrow> (json list, store_error) result" where
  "load_rule_sets io home =
     (case home rule_sets_file of
        None \<Rightarrow> Inr []
      | Some body \<Rightarrow>
          rbind (ok_or (Option.bind (io_parse io body) as_array) (ParseFailed rule_sets_file)) (\<lambda>sets.
          rbind (map_err RuleSetInvalid (validate_rule_sets sets)) (\<lambda>_. Inr sets)))"

definition validate_rule_set_references ::
  "json_io \<Rightarrow> home \<Rightarrow> route_rule list \<Rightarrow> (unit, store_error) result" where
  "validate_rule_set_references io home rules =
     rbind (load_rule_sets io home) (\<lambda>sets.
       map_err ReferenceInvalid (validate_rule_set_references_against rules sets))"

definition load_rule_order :: "json_io \<Rightarrow> home \<Rightarrow> (rule_order, store_error) result" where
  "load_rule_order io home =
     (case home logical_rules_file of
        None \<Rightarrow> Inr empty_order
      | Some body \<Rightarrow>
          rbind (ok_or (io_parse io body) (ParseFailed logical_rules_file)) (\<lambda>value.
          rbind (map_err OrderInvalid (parse_rule_order value)) (\<lambda>order.
          rbind (validate_rule_set_references io home (ro_logical order)) (\<lambda>_. Inr order))))"

definition load_logical_rules :: "json_io \<Rightarrow> home \<Rightarrow> (route_rule list, store_error) result" where
  "load_logical_rules io home = rbind (load_rule_order io home) (\<lambda>order. Inr (ro_logical order))"

definition save_rule_order :: "json_io \<Rightarrow> home \<Rightarrow> rule_order \<Rightarrow> (home, store_error) result" where
  "save_rule_order io home order =
     rbind (logical_rule_values (ro_logical order)) (\<lambda>rules.
     rbind (check_all (\<lambda>(slot, e). check_entry (length (ro_logical order)) slot e) (enumerate 0 (ro_entries order))) (\<lambda>_.
     rbind (validate_rule_set_references io home (ro_logical order)) (\<lambda>_.
       atomic_write io logical_rules_file (io_print io (order_json order rules)) home)))"

definition save_rule_sets :: "json_io \<Rightarrow> home \<Rightarrow> json list \<Rightarrow> (home, store_error) result" where
  "save_rule_sets io home sets =
     rbind (map_err RuleSetInvalid (validate_rule_sets sets)) (\<lambda>_.
     rbind (if home logical_rules_file \<noteq> None then
              rbind (load_logical_rules io home)
                (\<lambda>rules. map_err ReferenceInvalid (validate_rule_set_references_against rules sets))
            else Inr ()) (\<lambda>_.
       atomic_write io rule_sets_file (io_print io (JArr sets)) home))"

section \<open>Interleaving\<close>

record interleaving =
  il_merged :: "json list"
  il_referenced :: "bool list"
  il_last :: "nat option"

definition interleave_step ::
  "json option list \<Rightarrow> json option list \<Rightarrow> order_entry \<Rightarrow> interleaving \<Rightarrow> interleaving" where
  "interleave_step slots logical entry st =
     (case entry of
        ProfileAt i \<Rightarrow>
          if i < length slots then
            (case slots ! i of
               Some rule \<Rightarrow>
                 st\<lparr>il_referenced := (il_referenced st)[i := True], il_merged := il_merged st @ [rule],
                    il_last := Some (length (il_merged st))\<rparr>
             | None \<Rightarrow> st\<lparr>il_referenced := (il_referenced st)[i := True]\<rparr>)
          else st
      | LogicalAt i \<Rightarrow>
          if i < length logical then
            (case logical ! i of Some rule \<Rightarrow> st\<lparr>il_merged := il_merged st @ [rule]\<rparr> | None \<Rightarrow> st)
          else st)"

definition unplaced_rules :: "json option list \<Rightarrow> bool list \<Rightarrow> json list" where
  "unplaced_rules slots referenced =
     filter_map (\<lambda>(i, slot). if referenced ! i then None else slot) (enumerate 0 slots)"

definition interleave_route_slots :: "json option list \<Rightarrow> rule_order \<Rightarrow> json list" where
  "interleave_route_slots slots order =
     (let logical = map to_singbox_json (ro_logical order) in
      if ro_entries order = [] then cat_options slots @ cat_options logical
      else
        (let st = fold (interleave_step slots logical) (ro_entries order)
                    \<lparr>il_merged = [], il_referenced = replicate (length slots) False, il_last = None\<rparr>;
             unplaced = unplaced_rules slots (il_referenced st);
             at = (case il_last st of None \<Rightarrow> 0 | Some k \<Rightarrow> Suc k)
         in take at (il_merged st) @ unplaced @ drop at (il_merged st)))"

section \<open>The fingerprint separates single edits\<close>

text \<open>The FNV prime is odd, so a step of the hash is a bijection for every byte.\<close>

lemma fnv_prime_inverse: "fnv_prime * 0xCE965057AFF6957B = 1"
  by (simp add: fnv_prime_def)

lemma fnv_prime_cancel: "x * fnv_prime = y * fnv_prime \<Longrightarrow> x = y"
proof -
  assume "x * fnv_prime = y * fnv_prime"
  then have "x * (fnv_prime * 0xCE965057AFF6957B) = y * (fnv_prime * 0xCE965057AFF6957B)"
    by (simp only: mult.assoc [symmetric])
  then show ?thesis by (simp add: fnv_prime_inverse)
qed

lemma xor_cancel:
  assumes "xor (x :: u64) b = xor y b"
  shows "x = y"
proof -
  have "xor (xor x b) b = xor (xor y b) b" using assms by simp
  then show ?thesis by (simp add: xor.assoc)
qed

lemma fnv_byte_inj: "fnv_byte b h = fnv_byte b h' \<Longrightarrow> h = h'"
  unfolding fnv_byte_def using fnv_prime_cancel xor_cancel by blast

lemma char_u64_inj: "(of_nat (of_char b) :: u64) = of_nat (of_char c) \<Longrightarrow> b = c"
proof -
  assume *: "(of_nat (of_char b) :: u64) = of_nat (of_char c)"
  have "unat (of_nat (of_char x) :: u64) = of_char x" for x
  proof -
    have "(of_char x :: nat) < 2 ^ 64" by (rule less_le_trans [OF nat_of_char_less_256]) simp
    then show ?thesis by (simp add: unsigned_of_nat take_bit_nat_eq_self)
  qed
  with * have "(of_char b :: nat) = of_char c" by metis
  then show ?thesis by simp
qed

lemma fnv_byte_char: "fnv_byte b h = fnv_byte c h \<Longrightarrow> b = c"
proof -
  assume "fnv_byte b h = fnv_byte c h"
  then have "xor h (of_nat (of_char b)) = xor h (of_nat (of_char c) :: u64)"
    unfolding fnv_byte_def by (rule fnv_prime_cancel)
  then have "xor (of_nat (of_char b)) h = xor (of_nat (of_char c) :: u64) h" by (simp only: xor.commute)
  then show ?thesis by (intro char_u64_inj) (rule xor_cancel)
qed

lemma fnv_append: "fnv (a @ b) h = fnv b (fnv a h)"
  by (simp add: fnv_def)

lemma fnv_inj: "fnv bytes h = fnv bytes h' \<Longrightarrow> h = h'"
  by (induction bytes arbitrary: h h') (auto simp: fnv_def dest: fnv_byte_inj)

lemma fnv_single_edit: "fnv (a @ c # b) h = fnv (a @ d # b) h \<Longrightarrow> c = d"
proof -
  assume "fnv (a @ c # b) h = fnv (a @ d # b) h"
  then have "fnv b (fnv_byte c (fnv a h)) = fnv b (fnv_byte d (fnv a h))" by (simp add: fnv_def)
  then show ?thesis by (intro fnv_byte_char) (rule fnv_inj)
qed

definition descriptor_stream :: "route_rule list \<Rightarrow> string" where
  "descriptor_stream rules = concat (map (\<lambda>r. describe r @ [CHR 0x1F]) rules)"

lemma fingerprint_stream: "fp_hash (profile_rule_fingerprint rules) = fnv (descriptor_stream rules) fnv_offset"
proof -
  have "fold (\<lambda>r h. fnv [CHR 0x1F] (fnv (describe r) h)) rules h = fnv (descriptor_stream rules) h" for h
    by (induction rules arbitrary: h) (simp_all add: descriptor_stream_def fnv_def)
  then show ?thesis by (simp add: profile_rule_fingerprint_def)
qed

section \<open>The interleaving in closed form\<close>

text \<open>The rule an entry stands for, if it is there.\<close>

definition entry_rule :: "json option list \<Rightarrow> json option list \<Rightarrow> order_entry \<Rightarrow> json option" where
  "entry_rule slots logical e =
     (case e of ProfileAt i \<Rightarrow> if i < length slots then slots ! i else None
      | LogicalAt i \<Rightarrow> if i < length logical then logical ! i else None)"

definition emits_profile :: "json option list \<Rightarrow> order_entry \<Rightarrow> bool" where
  "emits_profile slots e \<longleftrightarrow> (\<exists>i < length slots. e = ProfileAt i \<and> slots ! i \<noteq> None)"

definition split_at :: "interleaving \<Rightarrow> nat" where
  "split_at st = (case il_last st of None \<Rightarrow> 0 | Some k \<Rightarrow> Suc k)"

definition interleave_inv :: "json option list \<Rightarrow> json option list \<Rightarrow> order_entry list \<Rightarrow> interleaving \<Rightarrow> bool" where
  "interleave_inv slots logical es st \<longleftrightarrow>
     il_merged st = filter_map (entry_rule slots logical) es \<and>
     length (il_referenced st) = length slots \<and>
     (\<forall>j < length slots. il_referenced st ! j \<longleftrightarrow> ProfileAt j \<in> set es) \<and>
     (\<exists>es1 es2. es = es1 @ es2 \<and> split_at st = length (filter_map (entry_rule slots logical) es1) \<and>
        (\<forall>e \<in> set es2. \<not> emits_profile slots e) \<and> (es1 = [] \<or> emits_profile slots (last es1)))"

lemma interleave_inv_step:
  assumes "interleave_inv slots logical es st"
  shows "interleave_inv slots logical (es @ [e]) (interleave_step slots logical e st)"
proof (cases "emits_profile slots e")
  case True
  then obtain i rule where e: "e = ProfileAt i" "i < length slots" "slots ! i = Some rule"
    by (auto simp: emits_profile_def)
  let ?st = "interleave_step slots logical e st"
  have st: "il_merged ?st = il_merged st @ [rule]" "il_referenced ?st = (il_referenced st)[i := True]"
    "split_at ?st = Suc (length (il_merged st))"
    by (simp_all add: interleave_step_def e split_at_def)
  have merged: "il_merged ?st = filter_map (entry_rule slots logical) (es @ [e])"
    unfolding st(1) using assms e by (simp add: interleave_inv_def entry_rule_def)
  moreover have "split_at ?st = length (filter_map (entry_rule slots logical) (es @ [e]))"
    unfolding merged [symmetric] by (simp add: st)
  ultimately show ?thesis using assms True e
    unfolding interleave_inv_def st(2)
    by (intro conjI exI [of _ "es @ [e]"] exI [of _ "[]"]) (auto simp: nth_list_update)
next
  case False
  let ?st = "interleave_step slots logical e st"
  have st: "il_merged ?st = filter_map (entry_rule slots logical) (es @ [e])"
    "length (il_referenced ?st) = length slots"
    "\<forall>j < length slots. il_referenced ?st ! j \<longleftrightarrow> ProfileAt j \<in> set (es @ [e])" "split_at ?st = split_at st"
    using assms False
    by (auto simp: interleave_step_def interleave_inv_def entry_rule_def emits_profile_def split_at_def
        nth_list_update split: order_entry.splits option.splits)
  obtain es1 es2 where "es = es1 @ es2" "split_at st = length (filter_map (entry_rule slots logical) es1)"
    "\<forall>e \<in> set es2. \<not> emits_profile slots e" "es1 = [] \<or> emits_profile slots (last es1)"
    using assms by (auto simp: interleave_inv_def)
  then show ?thesis using st False
    unfolding interleave_inv_def by (intro conjI exI [of _ es1] exI [of _ "es2 @ [e]"]) auto
qed

lemma interleave_inv_fold:
  "interleave_inv slots logical es (fold (interleave_step slots logical) es
     \<lparr>il_merged = [], il_referenced = replicate (length slots) False, il_last = None\<rparr>)"
proof (induction es rule: rev_induct)
  case Nil
  then show ?case by (simp add: interleave_inv_def split_at_def)
next
  case (snoc e es)
  then show ?case using interleave_inv_step by simp
qed

lemma enumerate_upt: "enumerate 0 xs = map (\<lambda>i. (i, xs ! i)) [0..<length xs]"
  using enumerate_map_upt [of 0 "(!) xs" "length xs"] by (simp only: map_nth)

lemma filter_map_cong: "(\<And>x. x \<in> set xs \<Longrightarrow> f x = g x) \<Longrightarrow> filter_map f xs = filter_map g xs"
  by (induction xs) (auto split: option.splits)

lemma interleave_placed:
  fixes slots :: "json option list"
  assumes "ro_entries order \<noteq> []"
  defines "f \<equiv> entry_rule slots (map to_singbox_json (ro_logical order))"
  shows "\<exists>es1 es2. ro_entries order = es1 @ es2 \<and>
    interleave_route_slots slots order =
      filter_map f es1 @
      filter_map (\<lambda>i. if ProfileAt i \<in> set (ro_entries order) then None else slots ! i) [0..<length slots] @
      filter_map f es2 \<and>
    (\<forall>e \<in> set es2. \<not> emits_profile slots e) \<and> (es1 = [] \<or> emits_profile slots (last es1))"
proof -
  let ?l = "map to_singbox_json (ro_logical order)"
  define st where "st = fold (interleave_step slots ?l) (ro_entries order)
     \<lparr>il_merged = [], il_referenced = replicate (length slots) False, il_last = None\<rparr>"
  have inv: "interleave_inv slots ?l (ro_entries order) st" unfolding st_def by (rule interleave_inv_fold)
  obtain es1 es2 where es: "ro_entries order = es1 @ es2" "split_at st = length (filter_map f es1)"
    "\<forall>e \<in> set es2. \<not> emits_profile slots e" "es1 = [] \<or> emits_profile slots (last es1)"
    using inv unfolding interleave_inv_def f_def by blast
  have merged: "il_merged st = filter_map f es1 @ filter_map f es2"
    using inv es(1) by (simp add: interleave_inv_def f_def)
  have "unplaced_rules slots (il_referenced st) =
      filter_map (\<lambda>i. if ProfileAt i \<in> set (ro_entries order) then None else slots ! i) [0..<length slots]"
    using inv unfolding unplaced_rules_def enumerate_upt filter_map_map
    by (intro filter_map_cong) (simp add: interleave_inv_def)
  then have "interleave_route_slots slots order =
      take (split_at st) (il_merged st) @
      filter_map (\<lambda>i. if ProfileAt i \<in> set (ro_entries order) then None else slots ! i) [0..<length slots] @
      drop (split_at st) (il_merged st)"
    using assms(1) by (simp add: interleave_route_slots_def Let_def split_at_def st_def)
  then show ?thesis using es merged by (intro exI [of _ es1] exI [of _ es2]) simp
qed

section \<open>Counting what is emitted\<close>

lemma mset_filter_map: "mset (filter_map h xs) = image_mset the (filter_mset (\<lambda>y. y \<noteq> None) (image_mset h (mset xs)))"
  by (induction xs) (auto split: option.splits)

lemma mset_filter_map_split:
  "mset (filter_map (\<lambda>x. if P x then h x else None) xs) + mset (filter_map (\<lambda>x. if P x then None else h x) xs) =
     mset (filter_map h xs)"
  by (induction xs) (auto split: option.splits)

lemma cat_options_upt: "cat_options xs = filter_map (\<lambda>i. xs ! i) [0..<length xs]"
  by (simp add: filter_map_def map_nth)

definition profile_index :: "nat \<Rightarrow> order_entry \<Rightarrow> nat option" where
  "profile_index n e = (case e of ProfileAt i \<Rightarrow> if i < n then Some i else None | LogicalAt i \<Rightarrow> None)"

lemma profile_index_Some [simp]: "profile_index n e = Some i \<longleftrightarrow> e = ProfileAt i \<and> i < n"
  by (auto simp: profile_index_def split: order_entry.splits)

lemma filter_map_comp: "filter_map h (filter_map g xs) = filter_map (\<lambda>x. Option.bind (g x) h) xs"
  by (induction xs) (auto split: option.splits)

lemma distinct_profile_indices: "distinct es \<Longrightarrow> distinct (filter_map (profile_index n) es)"
  by (induction es) (auto split: option.splits)

lemma mset_profile_indices:
  assumes "distinct es"
  shows "mset (filter_map (profile_index n) es) = mset (filter (\<lambda>i. ProfileAt i \<in> set es) [0..<n])"
  using distinct_profile_indices [OF assms, of n]
  by (subst set_eq_iff_mset_eq_distinct [symmetric]) auto

lemma filter_map_filter: "filter_map h (filter P xs) = filter_map (\<lambda>x. if P x then h x else None) xs"
  by (induction xs) (auto split: option.splits)

lemma mset_profile_entries:
  assumes "distinct es"
  shows "mset (filter_map (\<lambda>e. Option.bind (profile_index n e) h) es) =
    mset (filter_map (\<lambda>i. if ProfileAt i \<in> set es then h i else None) [0..<n])"
proof -
  have "mset (filter_map (\<lambda>e. Option.bind (profile_index n e) h) es) = mset (filter_map h (filter_map (profile_index n) es))"
    by (simp only: filter_map_comp)
  also have "\<dots> = mset (filter_map h (filter (\<lambda>i. ProfileAt i \<in> set es) [0..<n]))"
    using mset_profile_indices [OF assms, of n] by (simp only: mset_filter_map)
  finally show ?thesis by (simp only: filter_map_filter)
qed

text \<open>The logical half of an entry.\<close>

definition logical_rule_at :: "json option list \<Rightarrow> order_entry \<Rightarrow> json option" where
  "logical_rule_at logical e =
     (case e of LogicalAt i \<Rightarrow> if i < length logical then logical ! i else None | ProfileAt i \<Rightarrow> None)"

lemma mset_entry_rules:
  "mset (filter_map (entry_rule slots logical) es) =
     mset (filter_map (\<lambda>e. Option.bind (profile_index (length slots) e) ((!) slots)) es) +
     mset (filter_map (logical_rule_at logical) es)"
proof (induction es)
  case (Cons e es)
  then show ?case
    by (cases e) (auto simp: entry_rule_def logical_rule_at_def profile_index_def split: option.splits)
qed simp

lemma interleave_mset:
  fixes slots :: "json option list"
  assumes "distinct (ro_entries order)" "ro_entries order \<noteq> []"
  shows "mset (interleave_route_slots slots order) =
    mset (cat_options slots) + mset (filter_map (logical_rule_at (map to_singbox_json (ro_logical order))) (ro_entries order))"
proof -
  obtain es1 es2 where es: "ro_entries order = es1 @ es2"
    "interleave_route_slots slots order =
      filter_map (entry_rule slots (map to_singbox_json (ro_logical order))) es1 @
      filter_map (\<lambda>i. if ProfileAt i \<in> set (ro_entries order) then None else slots ! i) [0..<length slots] @
      filter_map (entry_rule slots (map to_singbox_json (ro_logical order))) es2"
    using interleave_placed [OF assms(2), of slots] by blast
  have "mset (interleave_route_slots slots order) =
      mset (filter_map (entry_rule slots (map to_singbox_json (ro_logical order))) (ro_entries order)) +
      mset (filter_map (\<lambda>i. if ProfileAt i \<in> set (ro_entries order) then None else slots ! i) [0..<length slots])"
    unfolding es(2) by (simp add: es(1) ac_simps)
  then show ?thesis
    unfolding mset_entry_rules mset_profile_entries [OF assms(1)] cat_options_upt [of slots]
    using mset_filter_map_split [of "\<lambda>i. ProfileAt i \<in> set (ro_entries order)" "(!) slots" "[0..<length slots]"]
    by (metis (no_types, lifting) add.assoc add.commute)
qed

section \<open>Saving and loading\<close>

text \<open>Logical rules as the editor obtains them: read from a sing-box object.\<close>

definition storable :: "route_rule \<Rightarrow> bool" where
  "storable r \<longleftrightarrow> is_logical r \<and> (\<exists>j. from_singbox_json j = Some r)"

lemma storable_json:
  assumes "storable r"
  shows "\<exists>j. to_singbox_json r = Some j \<and> parse_logical_value i j = Inr r"
proof -
  obtain j where "to_singbox_json r = Some j" "from_singbox_json j = Some r" "is_logical r"
    using assms singbox_round_trip_ex by (auto simp: storable_def)
  then show ?thesis by (auto simp: parse_logical_value_def)
qed

lemma logical_values_round_trip:
  assumes "\<And>r. r \<in> set rules \<Longrightarrow> storable r" "logical_rule_values rules = Inr vals"
  shows "parse_logical_values vals = Inr rules"
proof -
  have vals: "map to_singbox_json rules = map Some vals"
    using assms(2) by (auto simp: logical_rule_values_def those_Some_iff split: if_splits)
  then have len: "length vals = length rules" by (metis length_map)
  have "traverse (\<lambda>(i, v). parse_logical_value i v) (map (\<lambda>i. (i, vals ! i)) [0..<length vals]) =
      Inr (map (\<lambda>i. rules ! i) [0..<length vals])"
  proof (rule traverse_map_Inr)
    fix i assume "i \<in> set [0..<length vals]"
    then have i: "i < length rules" using len by simp
    then have "to_singbox_json (rules ! i) = Some (vals ! i)"
      using arg_cong [OF vals, of "\<lambda>xs. xs ! i"] len by simp
    moreover have "storable (rules ! i)" using assms(1) i by simp
    ultimately show "(\<lambda>(i, v). parse_logical_value i v) (i, vals ! i) = Inr (rules ! i)"
      using storable_json by fastforce
  qed
  then show ?thesis unfolding parse_logical_values_def enumerate_upt by (simp add: len map_nth)
qed

lemma parse_entry_json: "parse_entry i (entry_json e) = Inr e"
  by (cases e) (simp_all add: parse_entry_def entry_json_def mk_nat_def)

lemma parse_entries: "traverse (\<lambda>(i, e). parse_entry i e) (enumerate n (map entry_json es)) = Inr es"
  by (induction es arbitrary: n) (simp_all add: parse_entry_json)

lemma parse_fingerprint_json: "fingerprint_json (Some f) \<noteq> JNull \<and> parse_fingerprint (fingerprint_json (Some f)) = Some f"
  by (simp add: fingerprint_json_def mk_obj_def parse_fingerprint_def obj_get_mk_fields mk_nat_def)

lemma parse_profile_json:
  assumes "json_get v ''profile'' = Some (fingerprint_json p)"
  shows "parse_profile v = Inr p"
proof (cases p)
  case None
  then show ?thesis using assms by (simp add: parse_profile_def fingerprint_json_def)
next
  case (Some f)
  then show ?thesis using assms parse_fingerprint_json [of f]
    by (auto simp: parse_profile_def split: json.splits)
qed

lemma parse_order_json:
  assumes "\<And>r. r \<in> set (ro_logical order) \<Longrightarrow> storable r" "logical_rule_values (ro_logical order) = Inr rules"
  shows "parse_rule_order (order_json order rules) = Inr order"
proof -
  have obj: "parse_rule_order (order_json order rules) = parse_order_object (order_json order rules)"
    by (simp add: parse_rule_order_def order_json_def mk_obj_def)
  have "parse_profile (order_json order rules) = Inr (ro_profile order)"
    by (rule parse_profile_json) (simp add: order_json_def)
  then show ?thesis
    unfolding obj
    by (simp add: parse_order_object_def order_json_def get_array_def mk_nat_def rule_order_version_def
        parse_entries logical_values_round_trip [OF assms])
qed

lemma load_rule_sets_other: "name \<noteq> rule_sets_file \<Longrightarrow> load_rule_sets io (home(name \<mapsto> body)) = load_rule_sets io home"
  by (simp add: load_rule_sets_def)

section \<open>Properties\<close>

text \<open>A saved rule order is loaded back exactly: logical rules, the interleaved entries and the fingerprint.
  The JSON text format is only assumed to parse what it printed.\<close>

theorem rule_order_save_load:
  assumes "\<And>rules. logical_rule_values (ro_logical order) = Inr rules \<Longrightarrow>
      io_parse io (io_print io (order_json order rules)) = Some (order_json order rules)"
    and "\<And>r. r \<in> set (ro_logical order) \<Longrightarrow> storable r"
    and "save_rule_order io home order = Inr home'"
  shows "load_rule_order io home' = Inr order"
proof -
  obtain rules where rules: "logical_rule_values (ro_logical order) = Inr rules"
    "validate_rule_set_references io home (ro_logical order) = Inr ()"
    "home' = home(logical_rules_file \<mapsto> io_print io (order_json order rules))"
    using assms(3) by (auto simp: save_rule_order_def atomic_write_def split: if_splits)
  have "validate_rule_set_references io home' (ro_logical order) = Inr ()"
    using rules(2) unfolding rules(3) validate_rule_set_references_def
    by (simp add: load_rule_sets_other rule_sets_file_def logical_rules_file_def)
  then show ?thesis
    using rules(3) assms(1) [OF rules(1)] parse_order_json [OF assms(2) rules(1)] by (simp add: load_rule_order_def)
qed

text \<open>A text format for a single document.\<close>

definition single_document_io :: "json \<Rightarrow> json_io" where
  "single_document_io v = \<lparr>io_parse = (\<lambda>_. Some v), io_print = (\<lambda>_. ''x''), io_writable = (\<lambda>_. True)\<rparr>"

definition sample_order :: rule_order where
  "sample_order = \<lparr>ro_logical = [], ro_entries = [ProfileAt 0], ro_profile = None\<rparr>"

theorem rule_order_save_load_witness:
  "load_rule_order (single_document_io (order_json sample_order [])) [logical_rules_file \<mapsto> ''x''] = Inr sample_order"
  by (rule rule_order_save_load [where home = Map.empty])
     (auto simp: sample_order_def logical_rule_values_def single_document_io_def save_rule_order_def check_entry_def
        validate_rule_set_references_def load_rule_sets_def validate_rule_set_references_against_def atomic_write_def)

text \<open>Interleaving follows the stored order and loses no profile rule: the emitted rules are those of the entries in
  their order, with the converted profile rules no entry names inserted together, in profile order, right
  behind the last profile rule that an entry placed. A slot whose rule was dropped only disappears.\<close>

theorem interleave_follows_order:
  assumes "ro_entries order \<noteq> []"
  shows "\<exists>es1 es2. ro_entries order = es1 @ es2 \<and>
    interleave_route_slots slots order =
      filter_map (entry_rule slots (map to_singbox_json (ro_logical order))) es1 @
      filter_map (\<lambda>i. if ProfileAt i \<in> set (ro_entries order) then None else slots ! i) [0..<length slots] @
      filter_map (entry_rule slots (map to_singbox_json (ro_logical order))) es2 \<and>
    (\<forall>e \<in> set es2. \<not> emits_profile slots e) \<and> (es1 = [] \<or> emits_profile slots (last es1))"
  using interleave_placed [OF assms] .

theorem interleave_follows_order_witness:
  "\<exists>es1 es2. [ProfileAt 1] = es1 @ es2 \<and>
     interleave_route_slots [Some (JStr ''a''), Some (JStr ''b'')]
       \<lparr>ro_logical = [], ro_entries = [ProfileAt 1], ro_profile = None\<rparr> =
     filter_map (entry_rule [Some (JStr ''a''), Some (JStr ''b'')] []) es1 @ [JStr ''a''] @
     filter_map (entry_rule [Some (JStr ''a''), Some (JStr ''b'')] []) es2"
  using interleave_follows_order [of "\<lparr>ro_logical = [], ro_entries = [ProfileAt 1], ro_profile = None\<rparr>"
      "[Some (JStr ''a''), Some (JStr ''b'')]"]
  by (auto simp: upt_rec)

text \<open>When every entry is named once, interleaving keeps each converted profile rule exactly as often as the profile
  has it, beside the stored logical rules that are named; without order information it appends the logical rules.\<close>

theorem interleave_conserves_rules:
  assumes "distinct (ro_entries order)"
  shows "mset (interleave_route_slots slots order) =
    mset (cat_options slots) +
    (let logical = map to_singbox_json (ro_logical order) in
     if ro_entries order = [] then mset (cat_options logical)
     else mset (filter_map (logical_rule_at logical) (ro_entries order)))"
proof (cases "ro_entries order = []")
  case True
  then show ?thesis by (simp add: interleave_route_slots_def Let_def)
next
  case False
  then show ?thesis using interleave_mset [OF assms False] by (simp add: Let_def)
qed

theorem interleave_conserves_rules_witness:
  "mset (interleave_route_slots [Some (JStr ''a''), None, Some (JStr ''b'')]
       \<lparr>ro_logical = [], ro_entries = [ProfileAt 2], ro_profile = None\<rparr>) = {#JStr ''a'', JStr ''b''#}"
  using interleave_conserves_rules [of "\<lparr>ro_logical = [], ro_entries = [ProfileAt 2], ro_profile = None\<rparr>"
      "[Some (JStr ''a''), None, Some (JStr ''b'')]"]
  by (simp add: logical_rule_at_def)

text \<open>A stored order is never applied to another rule list: when the fingerprint differs the entries are dropped, the
  logical rules are kept and the reset is reported; a rule whose descriptor changed in a single byte, or a
  rule added or removed, always changes the fingerprint.\<close>

theorem drift_is_detected:
  assumes "ro_profile order = Some (profile_rule_fingerprint (rs1 @ [r] @ rs2))" "ro_entries order \<noteq> []"
    and "rules = rs1 @ [r'] @ rs2 \<and> describe r = a @ [c] @ b \<and> describe r' = a @ [d] @ b \<and> c \<noteq> d \<or>
         length rules \<noteq> length (rs1 @ [r] @ rs2)"
  shows "\<exists>n. resolve_profile_drift order (profile_rule_fingerprint rules) =
    (\<lparr>ro_logical = ro_logical order, ro_entries = [], ro_profile = Some (profile_rule_fingerprint rules)\<rparr>, Some n)"
proof -
  have "profile_rule_fingerprint (rs1 @ [r] @ rs2) \<noteq> profile_rule_fingerprint rules"
    using assms(3)
  proof
    assume e: "rules = rs1 @ [r'] @ rs2 \<and> describe r = a @ [c] @ b \<and> describe r' = a @ [d] @ b \<and> c \<noteq> d"
    have "descriptor_stream (rs1 @ [r] @ rs2) = (descriptor_stream rs1 @ a) @ c # (b @ [CHR 0x1F] @ descriptor_stream rs2)"
      "descriptor_stream rules = (descriptor_stream rs1 @ a) @ d # (b @ [CHR 0x1F] @ descriptor_stream rs2)"
      using e by (simp_all add: descriptor_stream_def)
    then have "fp_hash (profile_rule_fingerprint (rs1 @ [r] @ rs2)) \<noteq> fp_hash (profile_rule_fingerprint rules)"
      unfolding fingerprint_stream using fnv_single_edit e by metis
    then show ?thesis by metis
  next
    assume "length rules \<noteq> length (rs1 @ [r] @ rs2)"
    then show ?thesis by (simp add: profile_rule_fingerprint_def)
  qed
  then show ?thesis using assms(1,2) by (simp add: resolve_profile_drift_def matches_profile_def)
qed

theorem drift_is_detected_witness:
  "\<exists>n. resolve_profile_drift
      \<lparr>ro_logical = [], ro_entries = [ProfileAt 0], ro_profile = Some (profile_rule_fingerprint ([] @ [Raw ''ab''] @ []))\<rparr>
      (profile_rule_fingerprint [Raw ''ac'']) =
    (\<lparr>ro_logical = [], ro_entries = [], ro_profile = Some (profile_rule_fingerprint [Raw ''ac''])\<rparr>, Some n)"
  using drift_is_detected [of "\<lparr>ro_logical = [], ro_entries = [ProfileAt 0],
        ro_profile = Some (profile_rule_fingerprint ([] @ [Raw ''ab''] @ []))\<rparr>"
      "[]" "Raw ''ab''" "[]" "[Raw ''ac'']" "Raw ''ac''" "''a''" "CHR ''b''" "[]" "CHR ''c''"]
  by simp

end
