(* ===== verification/Dns.thy ===== *)
theory Dns
  imports Yaml Rust_Ip
begin

text \<open>
  The DNS layer of a sing-box config (\<open>src-tui/src/singbox/dns.rs\<close>): the typed settings and their
  validation, the conversion of a profile's clash \<open>dns\<close> block, the generated \<open>dns\<close> section and the
  line formats of the editor. URL parsing, YAML parsing and the standard hasher (whose algorithm
  is unspecified) are parameters. The properties: what the conversion may fail on, that the default
  server is an upstream of the profile, and that every server reached by name can be bootstrapped.
\<close>

section \<open>Data\<close>

datatype dns_server_kind = DnsUdp | DnsTls | DnsHttps | DnsQuic | DnsH3 | DnsLocal | DnsFakeip

definition dns_kind_parse :: "string \<Rightarrow> dns_server_kind option" where
  "dns_kind_parse kind =
     map_of [(''udp'', DnsUdp), (''tls'', DnsTls), (''https'', DnsHttps), (''quic'', DnsQuic),
             (''h3'', DnsH3), (''local'', DnsLocal), (''fakeip'', DnsFakeip)] kind"

fun dns_kind_str :: "dns_server_kind \<Rightarrow> string" where
  "dns_kind_str DnsUdp = ''udp''"
| "dns_kind_str DnsTls = ''tls''"
| "dns_kind_str DnsHttps = ''https''"
| "dns_kind_str DnsQuic = ''quic''"
| "dns_kind_str DnsH3 = ''h3''"
| "dns_kind_str DnsLocal = ''local''"
| "dns_kind_str DnsFakeip = ''fakeip''"

definition is_remote :: "dns_server_kind \<Rightarrow> bool" where
  "is_remote k \<longleftrightarrow> k \<in> {DnsUdp, DnsTls, DnsHttps, DnsQuic, DnsH3}"

definition is_tls :: "dns_server_kind \<Rightarrow> bool" where
  "is_tls k \<longleftrightarrow> k \<in> {DnsTls, DnsHttps, DnsQuic, DnsH3}"

record dns_server_spec =
  ds_tag :: string
  ds_kind :: dns_server_kind
  ds_server :: "string option"
  ds_port :: "u16 option"
  ds_path :: "string option"
  ds_detour :: "string option"
  ds_tls_insecure :: "bool option"
  ds_inet4_range :: "string option"
  ds_inet6_range :: "string option"

definition plain_server :: "string \<Rightarrow> dns_server_kind \<Rightarrow> dns_server_spec" where
  "plain_server tag kind =
     \<lparr>ds_tag = tag, ds_kind = kind, ds_server = None, ds_port = None, ds_path = None, ds_detour = None,
      ds_tls_insecure = None, ds_inet4_range = None, ds_inet6_range = None\<rparr>"

record dns_rule_spec =
  dr_server :: string
  dr_query_type :: "string list"
  dr_domain_suffix :: "string list"
  dr_domain_keyword :: "string list"
  dr_ip_cidr :: "string list"

definition plain_rule :: "string \<Rightarrow> dns_rule_spec" where
  "plain_rule server =
     \<lparr>dr_server = server, dr_query_type = [], dr_domain_suffix = [], dr_domain_keyword = [], dr_ip_cidr = []\<rparr>"

definition rule_is_empty :: "dns_rule_spec \<Rightarrow> bool" where
  "rule_is_empty r \<longleftrightarrow>
     dr_query_type r = [] \<and> dr_domain_suffix r = [] \<and> dr_domain_keyword r = [] \<and> dr_ip_cidr r = []"

record dns_config_spec =
  dc_servers :: "dns_server_spec list"
  dc_rules :: "dns_rule_spec list"
  dc_domain_resolver :: "string option"
  dc_final_server :: "string option"

definition default_fakeip_v4 :: string where "default_fakeip_v4 = ''198.18.0.0/15''"
definition default_fakeip_v6 :: string where "default_fakeip_v6 = ''fc00::/18''"
definition system_server_tag :: string where "system_server_tag = ''profile-system-dns''"
definition fakeip_server_tag :: string where "fakeip_server_tag = ''profile-fakeip''"

definition empty_dns :: dns_config_spec where
  "empty_dns = \<lparr>dc_servers = [], dc_rules = [], dc_domain_resolver = None, dc_final_server = None\<rparr>"

definition spec_is_empty :: "dns_config_spec \<Rightarrow> bool" where
  "spec_is_empty spec \<longleftrightarrow> dc_servers spec = [] \<and> dc_rules spec = []"

section \<open>Validation\<close>

datatype dns_spec_error =
    BadServerTag string
  | AddressRequired string
  | PathNotSupported string
  | InsecureNotSupported string
  | BootstrapUnknown string
  | BootstrapIsFakeip
  | FinalUnknown string
  | FinalIsFakeip
  | FakeipWithoutFinal string
  | RuleWithoutCondition string
  | RuleServerUnknown string

definition check_server :: "dns_server_spec \<Rightarrow> (unit, dns_spec_error) result" where
  "check_server s =
     rbind (guard (ds_kind s \<in> {DnsLocal, DnsFakeip} \<or> unwrap_or (ds_server s) [] \<noteq> []) (AddressRequired (ds_tag s))) (\<lambda>_.
     rbind (guard (ds_path s = None \<or> ds_kind s \<in> {DnsHttps, DnsH3}) (PathNotSupported (ds_tag s))) (\<lambda>_.
       guard (ds_tls_insecure s = None \<or> is_tls (ds_kind s)) (InsecureNotSupported (ds_tag s))))"

fun check_servers :: "string list \<Rightarrow> dns_server_spec list \<Rightarrow> (unit, dns_spec_error) result" where
  "check_servers seen [] = Inr ()"
| "check_servers seen (s # ss) =
     rbind (guard (ds_tag s \<noteq> [] \<and> ds_tag s \<notin> set seen) (BadServerTag (ds_tag s))) (\<lambda>_.
     rbind (check_server s) (\<lambda>_. check_servers (ds_tag s # seen) ss))"

definition find_server :: "dns_config_spec \<Rightarrow> string \<Rightarrow> dns_server_spec option" where
  "find_server spec tag = find (\<lambda>s. ds_tag s = tag) (dc_servers spec)"

definition check_resolver :: "dns_config_spec \<Rightarrow> (unit, dns_spec_error) result" where
  "check_resolver spec =
     (case dc_domain_resolver spec of
        None \<Rightarrow> Inr ()
      | Some resolver \<Rightarrow>
          rbind (ok_or (find_server spec resolver) (BootstrapUnknown resolver))
            (\<lambda>s. guard (ds_kind s \<noteq> DnsFakeip) BootstrapIsFakeip))"

definition check_final :: "dns_config_spec \<Rightarrow> (unit, dns_spec_error) result" where
  "check_final spec =
     (case dc_final_server spec of
        Some final_server \<Rightarrow>
          rbind (ok_or (find_server spec final_server) (FinalUnknown final_server))
            (\<lambda>s. guard (ds_kind s \<noteq> DnsFakeip) FinalIsFakeip)
      | None \<Rightarrow>
          (case dc_servers spec of
             [] \<Rightarrow> Inr ()
           | s # _ \<Rightarrow> guard (ds_kind s \<noteq> DnsFakeip) (FakeipWithoutFinal (ds_tag s))))"

definition check_dns_rule :: "string set \<Rightarrow> dns_rule_spec \<Rightarrow> (unit, dns_spec_error) result" where
  "check_dns_rule tags r =
     rbind (guard (\<not> rule_is_empty r) (RuleWithoutCondition (dr_server r))) (\<lambda>_.
       guard (dr_server r \<in> tags) (RuleServerUnknown (dr_server r)))"

definition validate_dns :: "dns_config_spec \<Rightarrow> (unit, dns_spec_error) result" where
  "validate_dns spec =
     rbind (check_servers [] (dc_servers spec)) (\<lambda>_.
     rbind (check_resolver spec) (\<lambda>_.
     rbind (check_final spec) (\<lambda>_.
       check_all (check_dns_rule (ds_tag ` set (dc_servers spec))) (dc_rules spec))))"

section \<open>Addresses\<close>

text \<open>\<open>chars().take(n)\<close> on UTF-8 bytes: a continuation byte belongs to the character before it.\<close>

definition is_continuation :: "char \<Rightarrow> bool" where
  "is_continuation c \<longleftrightarrow> (of_char c :: nat) div 64 = 2"

fun take_chars :: "nat \<Rightarrow> string \<Rightarrow> string" where
  "take_chars n [] = []"
| "take_chars n (c # cs) =
     (if is_continuation c then c # take_chars n cs
      else case n of 0 \<Rightarrow> [] | Suc m \<Rightarrow> c # take_chars m cs)"

definition endpoint_host :: "string \<Rightarrow> string" where
  "endpoint_host base =
     (let trimmed = (case split_once_str ''://'' base of None \<Rightarrow> base | Some (_, rest) \<Rightarrow> rest)
      in take_chars 120 (last (split_on CHR ''@'' (hd (split_any ''/?#'' trimmed)))))"

definition split_host_port :: "string \<Rightarrow> string \<times> u16 option" where
  "split_host_port entry =
     (case parse_ip entry of
        Some address \<Rightarrow> (show_ip address, None)
      | None \<Rightarrow>
          (case rsplit_once CHR '':'' entry of
             None \<Rightarrow> (entry, None)
           | Some (host, port) \<Rightarrow>
               (case parse_u16 port of
                  Some p \<Rightarrow> if host \<noteq> [] then (trim_chars ''[]'' host, Some p) else (entry, None)
                | None \<Rightarrow> (entry, None))))"

definition valid_cidr :: "string \<Rightarrow> bool" where
  "valid_cidr value =
     (case split_once CHR ''/'' value of
        None \<Rightarrow> False
      | Some (address, bits) \<Rightarrow>
          (case (parse_ip address, parse_u8 bits) of
             (Some a, Some n) \<Rightarrow> n \<le> (if is_ipv4 a then 32 else 128)
           | _ \<Rightarrow> False))"

section \<open>Conversion state\<close>

text \<open>What the conversion uses of a parsed URL, and the code it does not contain.\<close>

record url =
  url_scheme :: string
  url_username :: string
  url_password :: "string option"
  url_host :: "string option"
  url_port :: "u16 option"
  url_path :: string
  url_query :: "string option"

record dns_env =
  de_yaml :: "string \<Rightarrow> yaml option"
  de_url :: "string \<Rightarrow> url option"
  de_hash :: "string \<Rightarrow> u64"

datatype dns_note =
    DnsDisabled
  | Ipv6Ignored
  | FieldDropped string
  | HostsDropped string
  | FakeipFilterDropped nat
  | UnknownField string
  | BootstrapMapped nat string
  | BootstrapNotIp string
  | SystemBootstrap
  | EmptyNameserver
  | H3Mapped string
  | InsecureMapped string
  | OptionDropped string string
  | UnparsableNameserver
  | CredentialsDropped
  | SchemeNotAvailable string string
  | UnsupportedScheme string
  | H3Ignored string
  | HostMissing
  | QueryDropped string
  | PathIgnored string dns_server_kind
  | UnsupportedMatcher string
  | PolicyWithoutServer string
  | PolicyServersDropped string nat nat
  | PolicyNotApplied string
  | RangeIgnored string
  | RangeInvalid string string
  | UnsupportedMode string
  | NotResolvable string dns_server_kind string
  | NoUsableUpstream "(dns_server_kind \<times> string option) list"

datatype dns_error =
    ProfileNotYaml
  | RootNotMapping
  | DnsNotMapping
  | NotBoolean string
  | ModeNotString
  | RangeNotString string
  | EntriesNotStrings string
  | PolicyNotMapping
  | PolicyKeyNotString
  | UnreachablePolicy
  | SpecInvalid dns_spec_error

text \<open>The three mutable arguments the helpers of the conversion share: the spec, the tags of
  registered endpoints and the notes.\<close>

record dns_conv =
  dv_spec :: dns_config_spec
  dv_tags :: "string \<Rightarrow> string option"
  dv_notes :: "dns_note list"

definition empty_conv :: "dns_note list \<Rightarrow> dns_conv" where
  "empty_conv notes = \<lparr>dv_spec = empty_dns, dv_tags = (\<lambda>_. None), dv_notes = notes\<rparr>"

definition add_notes :: "dns_note list \<Rightarrow> dns_conv \<Rightarrow> dns_conv" where
  "add_notes notes st = st\<lparr>dv_notes := dv_notes st @ notes\<rparr>"

definition push_server :: "dns_server_spec \<Rightarrow> dns_conv \<Rightarrow> dns_conv" where
  "push_server s st = st\<lparr>dv_spec := (dv_spec st)\<lparr>dc_servers := dc_servers (dv_spec st) @ [s]\<rparr>\<rparr>"

definition push_rule :: "dns_rule_spec \<Rightarrow> dns_conv \<Rightarrow> dns_conv" where
  "push_rule r st = st\<lparr>dv_spec := (dv_spec st)\<lparr>dc_rules := dc_rules (dv_spec st) @ [r]\<rparr>\<rparr>"

text \<open>\<open>if spec.domain_resolver.is_none() { spec.domain_resolver = Some(tag) }\<close>\<close>

definition default_resolver :: "string \<Rightarrow> dns_conv \<Rightarrow> dns_conv" where
  "default_resolver tag st =
     (if dc_domain_resolver (dv_spec st) = None
      then st\<lparr>dv_spec := (dv_spec st)\<lparr>dc_domain_resolver := Some tag\<rparr>\<rparr> else st)"

section \<open>Registering servers\<close>

fun hex_digits :: "nat \<Rightarrow> nat \<Rightarrow> string" where
  "hex_digits 0 n = []"
| "hex_digits (Suc k) n = hex_digits k (n div 16) @ [hex_char (n mod 16)]"

definition show_flag :: "bool \<Rightarrow> string" where
  "show_flag b = (if b then ''true'' else ''false'')"

definition server_key :: "dns_server_spec \<Rightarrow> string" where
  "server_key s =
     dns_kind_str (ds_kind s) @ ''|'' @ unwrap_or (ds_server s) [] @ ''|'' @ show_u16 (unwrap_or (ds_port s) 0) @ ''|'' @
     unwrap_or (ds_path s) [] @ ''|'' @ show_flag (unwrap_or (ds_tls_insecure s) False)"

definition endpoint_tag :: "dns_env \<Rightarrow> string \<Rightarrow> string" where
  "endpoint_tag env key = ''profile-dns-'' @ hex_digits 16 (unat (de_hash env key))"

definition register_server :: "dns_env \<Rightarrow> dns_server_spec \<Rightarrow> dns_conv \<Rightarrow> dns_conv \<times> string" where
  "register_server env s st =
     (let key = server_key s in
      case dv_tags st key of
        Some tag \<Rightarrow> (st, tag)
      | None \<Rightarrow>
          (let tag = endpoint_tag env key;
               st' = push_server (s\<lparr>ds_tag := tag\<rparr>) st
           in (st'\<lparr>dv_tags := (dv_tags st')(key \<mapsto> tag)\<rparr>, tag)))"

definition system_server :: dns_server_spec where
  "system_server = plain_server system_server_tag DnsLocal"

definition add_system_server :: "dns_conv \<Rightarrow> dns_conv" where
  "add_system_server st =
     (if \<exists>s \<in> set (dc_servers (dv_spec st)). ds_tag s = system_server_tag then st
      else push_server system_server st)"

definition is_system :: "string \<Rightarrow> bool" where
  "is_system entry \<longleftrightarrow> entry \<in> {''system'', ''system://''}"

definition add_bootstrap_server :: "dns_env \<Rightarrow> string \<Rightarrow> dns_conv \<Rightarrow> dns_conv \<times> string option" where
  "add_bootstrap_server env raw st =
     (let entry = trim raw in
      if entry = [] \<or> is_system entry then (st, None)
      else
        (let (address, port) = split_host_port entry in
         if \<not> looks_like_ip address then (add_notes [BootstrapNotIp entry] st, None)
         else
           (let (st', tag) = register_server env
                  ((plain_server [] DnsUdp)\<lparr>ds_server := Some address, ds_port := port\<rparr>) st
            in (default_resolver tag st', Some tag))))"

definition add_system_bootstrap :: "string list \<Rightarrow> dns_conv \<Rightarrow> dns_conv" where
  "add_system_bootstrap entries st =
     (if dc_domain_resolver (dv_spec st) \<noteq> None \<or> \<not> (\<exists>entry \<in> set entries. is_system (trim entry)) then st
      else
        (let st1 = add_system_server st
         in add_notes [SystemBootstrap]
              (st1\<lparr>dv_spec := (dv_spec st1)\<lparr>dc_domain_resolver := Some system_server_tag\<rparr>\<rparr>)))"

section \<open>Nameserver endpoints\<close>

definition is_truthy :: "string \<Rightarrow> bool" where
  "is_truthy value \<longleftrightarrow> to_ascii_lowercase (trim value) \<in> {''true'', ''1'', ''yes''}"

text \<open>The loop over the options behind \<open>#\<close>: the two flags and the notes so far.\<close>

definition endpoint_option :: "string \<Rightarrow> string \<Rightarrow> bool \<times> bool \<times> dns_note list \<Rightarrow> bool \<times> bool \<times> dns_note list" where
  "endpoint_option host opt acc =
     (let (force_h3, insecure, notes) = acc;
          (name, value) = (case split_once CHR ''='' opt of None \<Rightarrow> (opt, []) | Some nv \<Rightarrow> nv);
          key = to_ascii_lowercase (trim name)
      in if key = ''h3'' then
           (is_truthy value, insecure, notes @ (if is_truthy value then [H3Mapped host] else []))
         else if key = ''skip-cert-verify'' \<or> key = ''skip-cert-verification'' then
           (if is_truthy value then (force_h3, True, notes @ [InsecureMapped host]) else acc)
         else (force_h3, insecure, notes @ [OptionDropped host key]))"

definition endpoint_options :: "string \<Rightarrow> string \<Rightarrow> bool \<times> bool \<times> dns_note list" where
  "endpoint_options host fragment =
     fold (endpoint_option host) (filter (\<lambda>part. trim part \<noteq> []) (split_any ''&,'' fragment)) (False, False, [])"

definition scheme_kind :: "string \<Rightarrow> string \<Rightarrow> dns_note + dns_server_kind" where
  "scheme_kind host scheme =
     (if scheme = ''udp'' then Inr DnsUdp
      else if scheme = ''tls'' then Inr DnsTls
      else if scheme = ''https'' then Inr DnsHttps
      else if scheme = ''quic'' then Inr DnsQuic
      else if scheme = ''tcp'' \<or> scheme = ''http'' then Inl (SchemeNotAvailable host scheme)
      else Inl (UnsupportedScheme scheme))"

definition endpoint_path :: "string \<Rightarrow> dns_server_kind \<Rightarrow> string \<Rightarrow> string option \<times> dns_note list" where
  "endpoint_path host kind raw =
     (if raw \<in> {''/'', []} then (None, [])
      else if kind \<in> {DnsHttps, DnsH3} then (Some raw, [])
      else (None, [PathIgnored host kind]))"

definition url_endpoint ::
  "string \<Rightarrow> bool \<Rightarrow> bool \<Rightarrow> url option \<Rightarrow> dns_note list \<times> dns_server_spec option" where
  "url_endpoint host force_h3 insecure parsed =
     (case parsed of
        None \<Rightarrow> ([UnparsableNameserver], None)
      | Some u \<Rightarrow>
          if url_username u \<noteq> [] \<or> url_password u \<noteq> None then ([CredentialsDropped], None)
          else (case scheme_kind host (url_scheme u) of
            Inl note \<Rightarrow> ([note], None)
          | Inr scheme \<Rightarrow>
              (let kind = (if force_h3 \<and> scheme = DnsHttps then DnsH3 else scheme);
                   h3_notes = (if force_h3 \<and> scheme \<noteq> DnsHttps then [H3Ignored host] else [])
               in case url_host u of
                    None \<Rightarrow> (h3_notes @ [HostMissing], None)
                  | Some server \<Rightarrow>
                      (let (path, path_notes) = endpoint_path host kind (url_path u)
                       in (h3_notes @ (if url_query u \<noteq> None then [QueryDropped host] else []) @ path_notes,
                           Some ((plain_server [] kind)\<lparr>ds_server := Some server, ds_port := url_port u,
                             ds_path := path, ds_tls_insecure := (if insecure then Some True else None)\<rparr>))))))"

datatype endpoint = SystemEndpoint | ServerEndpoint dns_server_spec

text \<open>Everything \<open>add_clash_dns_endpoint\<close> does before it touches the spec.\<close>

definition parse_clash_dns_endpoint :: "dns_env \<Rightarrow> string \<Rightarrow> dns_note list \<times> endpoint option" where
  "parse_clash_dns_endpoint env raw =
     (let entry = trim raw in
      if entry = [] then ([EmptyNameserver], None)
      else if is_system entry then ([], Some SystemEndpoint)
      else
        (let (base, fragment) = (case split_once CHR ''#'' entry of None \<Rightarrow> (entry, []) | Some bf \<Rightarrow> bf);
             host = endpoint_host base;
             (force_h3, insecure, option_notes) = endpoint_options host fragment
         in case parse_ip base of
              Some address \<Rightarrow>
                (option_notes, Some (ServerEndpoint ((plain_server [] DnsUdp)\<lparr>ds_server := Some (show_ip address)\<rparr>)))
            | None \<Rightarrow>
                (let uri = (if str_contains base ''://'' then base else ''udp://'' @ base);
                     (notes, server) = url_endpoint host force_h3 insecure (de_url env uri)
                 in (option_notes @ notes, map_option ServerEndpoint server))))"

definition add_clash_dns_endpoint :: "dns_env \<Rightarrow> string \<Rightarrow> dns_conv \<Rightarrow> dns_conv \<times> string option" where
  "add_clash_dns_endpoint env raw st =
     (let (notes, parsed) = parse_clash_dns_endpoint env raw;
          st1 = add_notes notes st
      in case parsed of
           None \<Rightarrow> (st1, None)
         | Some SystemEndpoint \<Rightarrow>
             (default_resolver system_server_tag (add_system_server st1), Some system_server_tag)
         | Some (ServerEndpoint s) \<Rightarrow>
             (let (st2, tag) = register_server env s st1 in (st2, Some tag)))"

section \<open>Policies\<close>

datatype policy_field = DomainSuffixField | DomainKeywordField | IpCidrField

definition policy_value :: "policy_field \<Rightarrow> string \<Rightarrow> (policy_field \<times> string) option" where
  "policy_value field value = (if trim value \<noteq> [] then Some (field, trim value) else None)"

text \<open>The loop over the prefix table: the first matching prefix decides.\<close>

fun policy_prefixes :: "(string \<times> policy_field) list \<Rightarrow> string \<Rightarrow> (policy_field \<times> string) option" where
  "policy_prefixes [] pattern = None"
| "policy_prefixes ((p, field) # table) pattern =
     (case strip_prefix p pattern of
        None \<Rightarrow> policy_prefixes table pattern
      | Some rest \<Rightarrow>
          (case policy_value field rest of
             None \<Rightarrow> None
           | Some v \<Rightarrow> if field = DomainSuffixField \<or> field = IpCidrField then None else Some v))"

definition parse_clash_dns_policy_pattern :: "string \<Rightarrow> (policy_field \<times> string) option" where
  "parse_clash_dns_policy_pattern pattern =
     (case strip_prefix ''+.'' pattern of
        Some rest \<Rightarrow> policy_value DomainSuffixField rest
      | None \<Rightarrow>
          policy_prefixes [(''domain:'', DomainSuffixField), (''keyword:'', DomainKeywordField),
                           (''ipcidr:'', IpCidrField)] pattern)"

text \<open>A string or a list of strings. The match does not look through a tag, the strings do.\<close>

definition as_string_list :: "yaml \<Rightarrow> string \<Rightarrow> (string list, dns_error) result" where
  "as_string_list value key =
     traverse (\<lambda>item. ok_or (y_str item) (EntriesNotStrings key))
       (case value of YSeq items \<Rightarrow> items | other \<Rightarrow> [other])"

definition policy_rule :: "policy_field \<Rightarrow> string \<Rightarrow> string \<Rightarrow> (dns_rule_spec, dns_error) result" where
  "policy_rule field value tag =
     (case field of
        DomainSuffixField \<Rightarrow> Inr ((plain_rule tag)\<lparr>dr_domain_suffix := [value]\<rparr>)
      | DomainKeywordField \<Rightarrow> Inr ((plain_rule tag)\<lparr>dr_domain_keyword := [value]\<rparr>)
      | IpCidrField \<Rightarrow> Inl UnreachablePolicy)"

definition convert_policy :: "dns_env \<Rightarrow> yaml \<times> yaml \<Rightarrow> dns_conv \<Rightarrow> (dns_conv, dns_error) result" where
  "convert_policy env entry st =
     rbind (ok_or (y_str (fst entry)) PolicyKeyNotString) (\<lambda>pattern.
     rbind (as_string_list (snd entry) (''nameserver-policy.'' @ pattern)) (\<lambda>entries.
       case parse_clash_dns_policy_pattern pattern of
         None \<Rightarrow> Inr (add_notes [UnsupportedMatcher pattern] st)
       | Some (field, value) \<Rightarrow>
           (case entries of
              [] \<Rightarrow> Inr (add_notes [PolicyWithoutServer pattern] st)
            | first # rest \<Rightarrow>
                (let st1 = (if rest \<noteq> [] then
                       add_notes [PolicyServersDropped pattern (length rest) (length entries)] st else st)
                 in case add_clash_dns_endpoint env first st1 of
                      (st2, None) \<Rightarrow> Inr (add_notes [PolicyNotApplied pattern] st2)
                    | (st2, Some tag) \<Rightarrow>
                        rbind (policy_rule field value tag) (\<lambda>r. Inr (push_rule r st2))))))"

fun fold_result :: "('a \<Rightarrow> 's \<Rightarrow> ('s, 'e) result) \<Rightarrow> 'a list \<Rightarrow> 's \<Rightarrow> ('s, 'e) result" where
  "fold_result f [] st = Inr st"
| "fold_result f (x # xs) st = rbind (f x st) (fold_result f xs)"

section \<open>The conversion\<close>

definition y_is_null :: "yaml \<Rightarrow> bool" where
  "y_is_null v \<longleftrightarrow> untag v = YNull"

definition present :: "ymapping \<Rightarrow> string \<Rightarrow> yaml option" where
  "present dns key = opt_filter (\<lambda>v. \<not> y_is_null v) (ymap_get dns key)"

definition check_bool :: "ymapping \<Rightarrow> string \<Rightarrow> (unit, dns_error) result" where
  "check_bool dns key = guard (ymap_get dns key = None \<or> ymap_bool dns key \<noteq> None) (NotBoolean key)"

definition check_str :: "ymapping \<Rightarrow> dns_error \<Rightarrow> string \<Rightarrow> (unit, dns_error) result" where
  "check_str dns err key = guard (ymap_get dns key = None \<or> ymap_str dns key \<noteq> None) err"

definition known_dns_fields :: "string list" where
  "known_dns_fields =
     [''enable'', ''ipv6'', ''enhanced-mode'', ''fake-ip-range'', ''fake-ip-range6'', ''fake-ip-filter'',
      ''fake-ip-filter-mode'', ''nameserver'', ''nameserver-policy'', ''fallback'', ''fallback-filter'',
      ''default-nameserver'', ''proxy-server-nameserver'', ''listen'', ''respect-rules'', ''use-hosts'',
      ''use-system-hosts'']"

definition hosts_note :: "ymapping \<Rightarrow> string \<Rightarrow> (dns_note list, dns_error) result" where
  "hosts_note dns key =
     (case present dns key of
        None \<Rightarrow> Inr []
      | Some v \<Rightarrow>
          (case y_bool v of
             Some False \<Rightarrow> Inr []
           | None \<Rightarrow> Inl (NotBoolean key)
           | Some True \<Rightarrow> Inr [HostsDropped key]))"

definition dropped_if_present :: "ymapping \<Rightarrow> string list \<Rightarrow> dns_note list" where
  "dropped_if_present dns keys = map FieldDropped (filter (\<lambda>k. present dns k \<noteq> None) keys)"

definition filter_notes :: "ymapping \<Rightarrow> dns_note list" where
  "filter_notes dns =
     (case present dns ''fake-ip-filter'' of
        None \<Rightarrow> []
      | Some v \<Rightarrow> [FakeipFilterDropped (case y_seq v of None \<Rightarrow> 1 | Some xs \<Rightarrow> length xs)])"

text \<open>The type checks and the report on fields the typed model cannot express, in the order of the code.\<close>

definition field_report :: "ymapping \<Rightarrow> (dns_note list, dns_error) result" where
  "field_report dns =
     rbind (check_bool dns ''ipv6'') (\<lambda>_.
     rbind (check_str dns ModeNotString ''enhanced-mode'') (\<lambda>_.
     rbind (check_all (\<lambda>key. check_str dns (RangeNotString key) key) [''fake-ip-range'', ''fake-ip-range6'']) (\<lambda>_.
     rbind (traverse (hosts_note dns) [''use-system-hosts'', ''use-hosts'']) (\<lambda>hosts.
       Inr ((if ymap_bool dns ''ipv6'' = Some False then [Ipv6Ignored] else []) @
            dropped_if_present dns [''fallback'', ''proxy-server-nameserver'', ''listen'', ''respect-rules''] @
            dropped_if_present dns [''fallback-filter''] @
            concat hosts @ filter_notes dns @
            dropped_if_present dns [''fake-ip-filter-mode''] @
            map UnknownField (filter (\<lambda>k. k \<notin> set known_dns_fields) (filter_map y_str (map fst dns))))))))"

definition add_bootstrap :: "dns_env \<Rightarrow> string \<Rightarrow> dns_conv \<times> string list \<Rightarrow> dns_conv \<times> string list" where
  "add_bootstrap env entry acc =
     (let (st, boots) = acc
      in case add_bootstrap_server env entry st of
           (st', None) \<Rightarrow> (st', boots)
         | (st', Some tag) \<Rightarrow> (st', boots @ [tag]))"

definition bootstrap_phase :: "dns_env \<Rightarrow> ymapping \<Rightarrow> dns_conv \<Rightarrow> (dns_conv \<times> string list, dns_error) result" where
  "bootstrap_phase env dns st =
     (case present dns ''default-nameserver'' of
        None \<Rightarrow> Inr (st, [])
      | Some v \<Rightarrow>
          rbind (as_string_list v ''default-nameserver'') (\<lambda>entries.
            let (st1, boots) = fold (add_bootstrap env) entries (st, []);
                st2 = add_system_bootstrap entries st1
            in Inr (add_notes [BootstrapMapped (length (dc_servers (dv_spec st2)))
                      (unwrap_or (dc_domain_resolver (dv_spec st2)) [])] st2, boots)))"

definition add_upstream :: "dns_env \<Rightarrow> string \<Rightarrow> dns_conv \<times> string list \<Rightarrow> dns_conv \<times> string list" where
  "add_upstream env entry acc =
     (let (st, ups) = acc
      in case add_clash_dns_endpoint env entry st of
           (st', None) \<Rightarrow> (st', ups)
         | (st', Some tag) \<Rightarrow> (st', ups @ [tag]))"

definition nameserver_phase :: "dns_env \<Rightarrow> ymapping \<Rightarrow> dns_conv \<Rightarrow> (dns_conv \<times> string list, dns_error) result" where
  "nameserver_phase env dns st =
     (case present dns ''nameserver'' of
        None \<Rightarrow> Inr (st, [])
      | Some v \<Rightarrow>
          rbind (as_string_list v ''nameserver'') (\<lambda>entries. Inr (fold (add_upstream env) entries (st, []))))"

definition policy_phase :: "dns_env \<Rightarrow> ymapping \<Rightarrow> dns_conv \<Rightarrow> (dns_conv, dns_error) result" where
  "policy_phase env dns st =
     (case present dns ''nameserver-policy'' of
        None \<Rightarrow> Inr st
      | Some v \<Rightarrow>
          rbind (ok_or (y_map v) PolicyNotMapping) (\<lambda>policy. fold_result (convert_policy env) policy st))"

definition fakeip_server :: "ymapping \<Rightarrow> dns_server_spec" where
  "fakeip_server dns =
     (plain_server fakeip_server_tag DnsFakeip)
       \<lparr>ds_inet4_range := opt_filter valid_cidr (ymap_str dns ''fake-ip-range''),
        ds_inet6_range := opt_filter valid_cidr (ymap_str dns ''fake-ip-range6'')\<rparr>"

definition fakeip_rule :: dns_rule_spec where
  "fakeip_rule = (plain_rule fakeip_server_tag)\<lparr>dr_query_type := [''A'', ''AAAA'']\<rparr>"

definition range_notes :: "ymapping \<Rightarrow> dns_note list" where
  "range_notes dns =
     filter_map (\<lambda>key. map_option (RangeInvalid key) (opt_filter (\<lambda>r. \<not> valid_cidr r) (ymap_str dns key)))
       [''fake-ip-range'', ''fake-ip-range6'']"

definition mode_phase :: "ymapping \<Rightarrow> dns_conv \<Rightarrow> dns_conv" where
  "mode_phase dns st =
     (let mode = unwrap_or (ymap_str dns ''enhanced-mode'') ''redir-host'' in
      if mode = ''redir-host'' then
        add_notes (map RangeIgnored (filter (\<lambda>k. ymap_get dns k \<noteq> None) [''fake-ip-range'', ''fake-ip-range6''])) st
      else if mode = ''fake-ip'' then
        (let st1 = push_server (fakeip_server dns) (add_notes (range_notes dns) st)
         in st1\<lparr>dv_spec := (dv_spec st1)\<lparr>dc_rules := fakeip_rule # dc_rules (dv_spec st1)\<rparr>\<rparr>)
      else add_notes [UnsupportedMode mode] st)"

definition has_name_address :: "dns_server_spec \<Rightarrow> bool" where
  "has_name_address s \<longleftrightarrow> is_remote (ds_kind s) \<and> is_some_and (ds_server s) (\<lambda>a. \<not> looks_like_ip a)"

definition first_ip_literal_server :: "dns_config_spec \<Rightarrow> string option" where
  "first_ip_literal_server spec =
     map_option ds_tag (find (\<lambda>s. ds_kind s = DnsUdp \<and> is_some_and (ds_server s) looks_like_ip) (dc_servers spec))"

definition resolver_phase :: "dns_conv \<Rightarrow> dns_conv" where
  "resolver_phase st =
     (case or_else (dc_domain_resolver (dv_spec st)) (first_ip_literal_server (dv_spec st)) of
        Some resolver \<Rightarrow> st\<lparr>dv_spec := (dv_spec st)\<lparr>dc_domain_resolver := Some resolver\<rparr>\<rparr>
      | None \<Rightarrow>
          (let dropped = filter has_name_address (dc_servers (dv_spec st));
               kept = filter (\<lambda>s. \<not> has_name_address s) (dc_servers (dv_spec st));
               notes = map (\<lambda>s. NotResolvable (ds_tag s) (ds_kind s) (unwrap_or (ds_server s) [])) dropped;
               rules = filter (\<lambda>r. \<exists>s \<in> set kept. ds_tag s = dr_server r) (dc_rules (dv_spec st))
           in add_notes notes (st\<lparr>dv_spec := (dv_spec st)\<lparr>dc_servers := kept, dc_rules := rules\<rparr>\<rparr>)))"

definition select_final :: "dns_config_spec \<Rightarrow> string list \<Rightarrow> string option" where
  "select_final spec upstream_tags =
     (let known = filter (\<lambda>t. \<exists>s \<in> set (dc_servers spec). ds_tag s = t) upstream_tags in
      or_else (find (\<lambda>t. \<exists>s \<in> set (dc_servers spec). ds_tag s = t \<and> is_remote (ds_kind s)) known)
              (find (\<lambda>t. \<exists>s \<in> set (dc_servers spec). ds_tag s = t \<and> ds_kind s \<noteq> DnsFakeip) known))"

definition describe_servers :: "string list \<Rightarrow> dns_config_spec \<Rightarrow> (dns_server_kind \<times> string option) list" where
  "describe_servers boots spec =
     map (\<lambda>s. (ds_kind s, if ds_tag s \<in> set boots then None else Some (ds_tag s))) (dc_servers spec)"

record dns_conversion_report =
  dcr_spec :: "dns_config_spec option"
  dcr_notes :: "dns_note list"

definition finish_conversion ::
  "nat \<Rightarrow> string list \<Rightarrow> string list \<Rightarrow> dns_conv \<Rightarrow> (dns_conversion_report, dns_error) result" where
  "finish_conversion requested boots ups st =
     (case select_final (dv_spec st) ups of
        None \<Rightarrow>
          Inr \<lparr>dcr_spec = None,
               dcr_notes = dv_notes st @
                 (if 0 < requested \<or> dc_rules (dv_spec st) \<noteq> []
                  then [NoUsableUpstream (describe_servers boots (dv_spec st))] else [])\<rparr>
      | Some tag \<Rightarrow>
          (let spec = (dv_spec st)\<lparr>dc_final_server := Some tag\<rparr>
           in rbind (map_err SpecInvalid (validate_dns spec))
                (\<lambda>_. Inr \<lparr>dcr_spec = Some spec, dcr_notes = dv_notes st\<rparr>)))"

definition convert_dns_block :: "dns_env \<Rightarrow> ymapping \<Rightarrow> (dns_conversion_report, dns_error) result" where
  "convert_dns_block env dns =
     rbind (field_report dns) (\<lambda>notes.
     rbind (bootstrap_phase env dns (empty_conv notes)) (\<lambda>(st1, boots).
     rbind (nameserver_phase env dns st1) (\<lambda>(st2, ups).
     rbind (policy_phase env dns st2) (\<lambda>st3.
       let st4 = mode_phase dns st3
       in finish_conversion (length (dc_servers (dv_spec st4))) boots ups (resolver_phase st4)))))"

definition dns_conversion_of_doc :: "dns_env \<Rightarrow> yaml \<Rightarrow> (dns_conversion_report, dns_error) result" where
  "dns_conversion_of_doc env doc =
     rbind (ok_or (y_map doc) RootNotMapping) (\<lambda>root.
       case ymap_get root ''dns'' of
         None \<Rightarrow> Inr \<lparr>dcr_spec = None, dcr_notes = []\<rparr>
       | Some v \<Rightarrow>
           rbind (ok_or (y_map v) DnsNotMapping) (\<lambda>dns.
           rbind (check_bool dns ''enable'') (\<lambda>_.
             if ymap_bool dns ''enable'' = Some False then Inr \<lparr>dcr_spec = None, dcr_notes = [DnsDisabled]\<rparr>
             else convert_dns_block env dns)))"

definition dns_conversion_from_clash_yaml :: "dns_env \<Rightarrow> string \<Rightarrow> (dns_conversion_report, dns_error) result" where
  "dns_conversion_from_clash_yaml env text =
     rbind (ok_or (de_yaml env text) ProfileNotYaml) (dns_conversion_of_doc env)"

section \<open>The generated section\<close>

definition put_some :: "string \<Rightarrow> json option \<Rightarrow> jobject \<Rightarrow> jobject" where
  "put_some k v m = (case v of None \<Rightarrow> m | Some x \<Rightarrow> obj_put k x m)"

definition remote_fields :: "string option \<Rightarrow> dns_server_spec \<Rightarrow> (string \<times> json option) list" where
  "remote_fields resolver s =
     [(''server'', Some (JStr (unwrap_or (ds_server s) []))),
      (''server_port'', map_option (\<lambda>p. mk_nat (unat p)) (ds_port s)),
      (''path'', map_option JStr (ds_path s)),
      (''detour'', map_option JStr (opt_filter (\<lambda>d. d \<noteq> []) (ds_detour s))),
      (''tls'', if is_tls (ds_kind s) \<and> ds_tls_insecure s = Some True
                then Some (mk_obj [(''enabled'', JBool True), (''insecure'', JBool True)]) else None),
      (''domain_resolver'', if is_some_and (ds_server s) (\<lambda>a. \<not> looks_like_ip a)
                then map_option JStr (opt_filter (\<lambda>r. r \<noteq> ds_tag s) resolver) else None)]"

definition server_fields :: "string option \<Rightarrow> dns_server_spec \<Rightarrow> (string \<times> json option) list" where
  "server_fields resolver s =
     (case ds_kind s of
        DnsLocal \<Rightarrow> []
      | DnsFakeip \<Rightarrow>
          [(''inet4_range'', Some (JStr (unwrap_or (ds_inet4_range s) default_fakeip_v4))),
           (''inet6_range'', Some (JStr (unwrap_or (ds_inet6_range s) default_fakeip_v6)))]
      | _ \<Rightarrow> remote_fields resolver s)"

definition server_entry :: "string option \<Rightarrow> dns_server_spec \<Rightarrow> json" where
  "server_entry resolver s =
     JObj (fold (\<lambda>(k, v). put_some k v) (server_fields resolver s)
       (mk_fields [(''type'', JStr (dns_kind_str (ds_kind s))), (''tag'', JStr (ds_tag s))]))"

definition strs_unless_empty :: "string list \<Rightarrow> json option" where
  "strs_unless_empty xs = (if xs = [] then None else Some (mk_strs xs))"

definition dns_rule_entry :: "dns_rule_spec \<Rightarrow> json" where
  "dns_rule_entry r =
     JObj (fold (\<lambda>(k, v). put_some k v)
       [(''query_type'', strs_unless_empty (dr_query_type r)),
        (''domain_suffix'', strs_unless_empty (dr_domain_suffix r)),
        (''domain_keyword'', strs_unless_empty (dr_domain_keyword r)),
        (''ip_cidr'', strs_unless_empty (dr_ip_cidr r))]
       (mk_fields [(''server'', JStr (dr_server r))]))"

definition dns_section :: "dns_config_spec \<Rightarrow> json" where
  "dns_section spec =
     JObj (fold (\<lambda>(k, v). put_some k v)
       [(''rules'', if dc_rules spec = [] then None else Some (JArr (map dns_rule_entry (dc_rules spec)))),
        (''final'', map_option JStr (dc_final_server spec))]
       (mk_fields [(''servers'', JArr (map (server_entry (dc_domain_resolver spec)) (dc_servers spec)))]))"

definition build_dns_section :: "dns_config_spec \<Rightarrow> (json option, dns_spec_error) result" where
  "build_dns_section spec =
     (if spec_is_empty spec then Inr None
      else rbind (validate_dns spec) (\<lambda>_. Inr (Some (dns_section spec))))"

definition default_domain_resolver :: "dns_config_spec \<Rightarrow> string option" where
  "default_domain_resolver spec =
     opt_filter (\<lambda>tag. \<exists>s \<in> set (dc_servers spec). ds_tag s = tag \<and> ds_kind s \<noteq> DnsFakeip) (dc_domain_resolver spec)"

section \<open>Line formats of the editor\<close>

datatype line_error =
    TooFewParts
  | UnknownKind string
  | EmptyTag
  | AddressMissing string
  | InvalidPort string
  | NoTarget
  | NoEqualsSign string
  | UnknownRuleKind string
  | NoCondition

definition nth_part :: "string list \<Rightarrow> nat \<Rightarrow> string option" where
  "nth_part parts i = (if i < length parts \<and> parts ! i \<noteq> [] then Some (parts ! i) else None)"

definition parse_server_spec :: "string \<Rightarrow> (dns_server_spec, line_error) result" where
  "parse_server_spec spec =
     (let parts = map trim (split_on CHR ''|'' spec) in
      if length parts < 2 then Inl TooFewParts
      else
        rbind (ok_or (dns_kind_parse (parts ! 0)) (UnknownKind (parts ! 0))) (\<lambda>kind.
          if parts ! 1 = [] then Inl EmptyTag
          else if \<not> is_remote kind then Inr (plain_server (parts ! 1) kind)
          else
            rbind (ok_or (nth_part parts 2) (AddressMissing (dns_kind_str kind))) (\<lambda>addr.
            rbind (case nth_part parts 3 of
                     None \<Rightarrow> Inr None
                   | Some port \<Rightarrow> rbind (ok_or (parse_u16 port) (InvalidPort port)) (\<lambda>p. Inr (Some p))) (\<lambda>port.
              Inr ((plain_server (parts ! 1) kind)
                     \<lparr>ds_server := Some addr, ds_port := port, ds_detour := nth_part parts 4\<rparr>)))))"

definition value_list :: "string \<Rightarrow> string list" where
  "value_list vals = filter (\<lambda>v. v \<noteq> []) (map trim (split_on CHR '','' vals))"

definition rule_part :: "string \<Rightarrow> dns_rule_spec \<Rightarrow> (dns_rule_spec, line_error) result" where
  "rule_part part r =
     (case split_once CHR ''='' part of
        None \<Rightarrow> Inl (NoEqualsSign part)
      | Some (kind, vals) \<Rightarrow>
          (if trim kind = ''suffix'' then Inr (r\<lparr>dr_domain_suffix := value_list vals\<rparr>)
           else if trim kind = ''keyword'' then Inr (r\<lparr>dr_domain_keyword := value_list vals\<rparr>)
           else if trim kind = ''cidr'' then Inr (r\<lparr>dr_ip_cidr := value_list vals\<rparr>)
           else Inl (UnknownRuleKind (trim kind))))"

definition parse_rule_spec :: "string \<Rightarrow> (dns_rule_spec, line_error) result" where
  "parse_rule_spec spec =
     (let parts = map trim (split_on CHR ''|'' spec) in
      if hd parts = [] then Inl NoTarget
      else
        rbind (fold_result rule_part (tl parts) (plain_rule (hd parts))) (\<lambda>r.
        rbind (guard (\<not> rule_is_empty r) NoCondition) (\<lambda>_. Inr r)))"

section \<open>Keys and tags\<close>

lemma split_first: "(a :: string) @ c # b = a' @ c # b' \<Longrightarrow> c \<notin> set a \<Longrightarrow> c \<notin> set a' \<Longrightarrow> a = a' \<and> b = b'"
  by (drule arg_cong [where f = "split_once c"]) (simp add: split_once_append)

lemma split_last: "(a :: string) @ c # b = a' @ c # b' \<Longrightarrow> c \<notin> set b \<Longrightarrow> c \<notin> set b' \<Longrightarrow> a = a' \<and> b = b'"
proof -
  assume "a @ c # b = a' @ c # b'" "c \<notin> set b" "c \<notin> set b'"
  then have "rev b @ c # rev a = rev b' @ c # rev a'" "c \<notin> set (rev b)" "c \<notin> set (rev b')"
    by (metis append.assoc append_Cons append_Nil rev_append rev_singleton_conv, simp_all)
  then show ?thesis using split_first by (metis rev_rev_ident)
qed

lemma kind_str_no_bar: "CHR ''|'' \<notin> set (dns_kind_str k)"
  by (cases k) simp_all

lemma kind_str_inj: "dns_kind_str k = dns_kind_str k' \<Longrightarrow> k = k'"
  by (cases k; cases k') simp_all

lemma show_flag_no_bar: "CHR ''|'' \<notin> set (show_flag b)"
  by (simp add: show_flag_def)

lemma show_nat_no_bar: "CHR ''|'' \<notin> set (show_nat n)"
proof
  assume "CHR ''|'' \<in> set (show_nat n)"
  then obtain d where "d < 10" "CHR ''|'' = digit_char d" using set_show_nat by blast
  moreover from this have "d \<in> {0, 1, 2, 3, 4, 5, 6, 7, 8, 9}" by auto
  ultimately show False by (auto simp: digit_char_def)
qed

lemma server_key_parts:
  "server_key s = dns_kind_str (ds_kind s) @ CHR ''|'' # (unwrap_or (ds_server s) [] @ ''|'' @
     show_u16 (unwrap_or (ds_port s) 0) @ ''|'' @ unwrap_or (ds_path s) [] @ ''|'' @
     show_flag (unwrap_or (ds_tls_insecure s) False))"
  by (simp add: server_key_def)

lemma server_key_kind: "server_key s = server_key s' \<Longrightarrow> ds_kind s = ds_kind s'"
  unfolding server_key_parts
  by (drule split_first [OF _ kind_str_no_bar kind_str_no_bar]) (simp add: kind_str_inj)

definition key_front :: "dns_server_spec \<Rightarrow> string" where
  "key_front s = dns_kind_str (ds_kind s) @ ''|'' @ unwrap_or (ds_server s) []"

lemma server_key_no_path:
  "ds_path s = None \<Longrightarrow>
     server_key s = ((key_front s @ CHR ''|'' # show_u16 (unwrap_or (ds_port s) 0)) @ ''|'') @
       CHR ''|'' # show_flag (unwrap_or (ds_tls_insecure s) False)"
  by (simp add: server_key_def key_front_def)

lemma server_key_address:
  assumes "server_key s = server_key s'" "ds_path s = None" "ds_path s' = None"
  shows "unwrap_or (ds_server s) [] = unwrap_or (ds_server s') []"
proof -
  note eq = assms(1) [unfolded server_key_no_path [OF assms(2)] server_key_no_path [OF assms(3)]]
  have "key_front s @ CHR ''|'' # show_u16 (unwrap_or (ds_port s) 0) =
      key_front s' @ CHR ''|'' # show_u16 (unwrap_or (ds_port s') 0)"
    using split_last [OF eq show_flag_no_bar show_flag_no_bar] by (simp only: append_same_eq)
  from split_last [OF this] have "key_front s = key_front s'"
    by (simp add: show_u16_def show_nat_no_bar)
  then show ?thesis using server_key_kind [OF assms(1)] by (simp add: key_front_def)
qed

lemma server_key_tag [simp]: "server_key (s\<lparr>ds_tag := t\<rparr>) = server_key s"
  by (simp add: server_key_def)

lemma endpoint_tag_not_reserved [simp]:
  "endpoint_tag env k \<noteq> system_server_tag" "endpoint_tag env k \<noteq> fakeip_server_tag"
  "system_server_tag \<noteq> endpoint_tag env k" "fakeip_server_tag \<noteq> endpoint_tag env k"
  "endpoint_tag env k \<noteq> []"
  by (simp_all add: endpoint_tag_def system_server_tag_def fakeip_server_tag_def)

lemma reserved_tags [simp]:
  "system_server_tag \<noteq> fakeip_server_tag" "system_server_tag \<noteq> []" "fakeip_server_tag \<noteq> []"
  "fakeip_server_tag \<noteq> system_server_tag"
  by (simp_all add: system_server_tag_def fakeip_server_tag_def)

lemma is_remote_simps [simp]:
  "is_remote DnsUdp" "is_remote DnsTls" "is_remote DnsHttps" "is_remote DnsQuic" "is_remote DnsH3"
  "\<not> is_remote DnsLocal" "\<not> is_remote DnsFakeip"
  by (simp_all add: is_remote_def)

lemma plain_server_simps [simp]:
  "ds_tag (plain_server t k) = t" "ds_kind (plain_server t k) = k" "ds_server (plain_server t k) = None"
  "ds_port (plain_server t k) = None" "ds_path (plain_server t k) = None" "ds_detour (plain_server t k) = None"
  "ds_tls_insecure (plain_server t k) = None" "ds_inet4_range (plain_server t k) = None"
  "ds_inet6_range (plain_server t k) = None"
  by (simp_all add: plain_server_def)

lemma system_server_simps [simp]: "ds_tag system_server = system_server_tag" "ds_kind system_server = DnsLocal"
  by (simp_all add: system_server_def)

section \<open>The invariant of the conversion\<close>

text \<open>A server that needs no other server to be reached.\<close>

definition self_contained :: "dns_server_spec \<Rightarrow> bool" where
  "self_contained s \<longleftrightarrow> ds_kind s = DnsLocal \<or> ds_kind s = DnsUdp \<and> is_some_and (ds_server s) looks_like_ip"

definition endpoint_ok :: "dns_server_spec \<Rightarrow> bool" where
  "endpoint_ok s \<longleftrightarrow> is_remote (ds_kind s) \<and> ds_server s \<noteq> None \<and> ds_detour s = None \<and> (ds_path s = None \<or> ds_kind s \<in> {DnsHttps, DnsH3})"

definition registered :: "dns_env \<Rightarrow> dns_server_spec \<Rightarrow> bool" where
  "registered env s \<longleftrightarrow> endpoint_ok s \<and> ds_tag s = endpoint_tag env (server_key s)"

definition conv_inv :: "dns_env \<Rightarrow> dns_conv \<Rightarrow> bool" where
  "conv_inv env st \<longleftrightarrow>
     (let servers = dc_servers (dv_spec st) in
      (\<forall>s \<in> set servers. s = system_server \<or> registered env s) \<and>
      (\<forall>k t. dv_tags st k = Some t \<longrightarrow>
         t = endpoint_tag env k \<and> (\<exists>s \<in> set servers. registered env s \<and> server_key s = k)) \<and>
      (\<forall>s \<in> set servers. s = system_server \<or> dv_tags st (server_key s) \<noteq> None) \<and>
      distinct (map server_key servers) \<and>
      (\<forall>r. dc_domain_resolver (dv_spec st) = Some r \<longrightarrow> (\<exists>s \<in> set servers. ds_tag s = r \<and> self_contained s)) \<and>
      (\<forall>r \<in> set (dc_rules (dv_spec st)). \<not> rule_is_empty r \<and> (\<exists>s \<in> set servers. ds_tag s = dr_server r)))"

lemma conv_inv_empty [simp]: "conv_inv env (empty_conv notes)"
  by (simp add: conv_inv_def empty_conv_def empty_dns_def)

lemma add_notes_simps [simp]:
  "dv_spec (add_notes ns st) = dv_spec st" "dv_tags (add_notes ns st) = dv_tags st"
  "dv_notes (add_notes ns st) = dv_notes st @ ns"
  by (simp_all add: add_notes_def)

lemma conv_inv_add_notes [simp]: "conv_inv env (add_notes ns st) = conv_inv env st"
  by (simp add: conv_inv_def)

lemma push_server_simps [simp]:
  "dc_servers (dv_spec (push_server s st)) = dc_servers (dv_spec st) @ [s]"
  "dc_rules (dv_spec (push_server s st)) = dc_rules (dv_spec st)"
  "dc_domain_resolver (dv_spec (push_server s st)) = dc_domain_resolver (dv_spec st)"
  "dv_tags (push_server s st) = dv_tags st" "dv_notes (push_server s st) = dv_notes st"
  by (simp_all add: push_server_def)

lemma push_rule_simps [simp]:
  "dc_servers (dv_spec (push_rule r st)) = dc_servers (dv_spec st)"
  "dc_rules (dv_spec (push_rule r st)) = dc_rules (dv_spec st) @ [r]"
  "dc_domain_resolver (dv_spec (push_rule r st)) = dc_domain_resolver (dv_spec st)"
  "dv_tags (push_rule r st) = dv_tags st"
  by (simp_all add: push_rule_def)

lemma registered_not_system: "registered env s \<Longrightarrow> s \<noteq> system_server"
  by (auto simp: registered_def endpoint_ok_def)

lemma registered_key: "registered env s \<Longrightarrow> server_key s \<noteq> server_key system_server"
  using server_key_kind by (fastforce simp: registered_def endpoint_ok_def)

text \<open>What registering an endpoint yields: a server with that tag and key, and nothing lost.\<close>

lemma register_server_inv:
  assumes inv: "conv_inv env st" and ok: "endpoint_ok s" and reg: "register_server env s st = (st', t)"
  shows "conv_inv env st'"
    and "t = endpoint_tag env (server_key s)"
    and "\<exists>x \<in> set (dc_servers (dv_spec st')). registered env x \<and> server_key x = server_key s"
    and "set (dc_servers (dv_spec st)) \<subseteq> set (dc_servers (dv_spec st'))"
    and "dc_domain_resolver (dv_spec st') = dc_domain_resolver (dv_spec st)"
    and "dc_rules (dv_spec st') = dc_rules (dv_spec st)"
proof -
  have "conv_inv env st' \<and> t = endpoint_tag env (server_key s) \<and>
    (\<exists>x \<in> set (dc_servers (dv_spec st')). registered env x \<and> server_key x = server_key s) \<and>
    set (dc_servers (dv_spec st)) \<subseteq> set (dc_servers (dv_spec st')) \<and>
    dc_domain_resolver (dv_spec st') = dc_domain_resolver (dv_spec st) \<and>
    dc_rules (dv_spec st') = dc_rules (dv_spec st)"
  proof (cases "dv_tags st (server_key s)")
    case (Some t0)
    with reg have "st' = st" "t = t0" by (simp_all add: register_server_def Let_def)
    with Some inv show ?thesis by (auto simp: conv_inv_def Let_def)
  next
    case None
    define x where "x = s\<lparr>ds_tag := endpoint_tag env (server_key s)\<rparr>"
    have key: "server_key x = server_key s" by (simp add: x_def)
    have regd: "registered env x" using ok by (simp add: registered_def x_def endpoint_ok_def)
    have st': "dc_servers (dv_spec st') = dc_servers (dv_spec st) @ [x]" "t = endpoint_tag env (server_key s)"
      "dv_tags st' = (dv_tags st)(server_key s \<mapsto> endpoint_tag env (server_key s))"
      "dc_rules (dv_spec st') = dc_rules (dv_spec st)"
      "dc_domain_resolver (dv_spec st') = dc_domain_resolver (dv_spec st)"
      using reg None by (auto simp: register_server_def Let_def x_def)
    have "server_key x \<notin> server_key ` set (dc_servers (dv_spec st))"
    proof
      assume "server_key x \<in> server_key ` set (dc_servers (dv_spec st))"
      then obtain y where y: "y \<in> set (dc_servers (dv_spec st))" "server_key y = server_key s" by (auto simp: key)
      then have "y = system_server" using inv None by (auto simp: conv_inv_def Let_def)
      then show False using y registered_key [OF regd] by (simp add: key)
    qed
    then have "conv_inv env st'"
      using inv regd by (auto simp: conv_inv_def Let_def st' key)
    then show ?thesis using regd by (auto simp: st' key)
  qed
  then show "conv_inv env st'" and "t = endpoint_tag env (server_key s)"
    and "\<exists>x \<in> set (dc_servers (dv_spec st')). registered env x \<and> server_key x = server_key s"
    and "set (dc_servers (dv_spec st)) \<subseteq> set (dc_servers (dv_spec st'))"
    and "dc_domain_resolver (dv_spec st') = dc_domain_resolver (dv_spec st)"
    and "dc_rules (dv_spec st') = dc_rules (dv_spec st)" by blast+
qed

lemma default_resolver_inv:
  assumes "conv_inv env st" "\<exists>s \<in> set (dc_servers (dv_spec st)). ds_tag s = t \<and> self_contained s"
  shows "conv_inv env (default_resolver t st)"
  using assms by (auto simp: default_resolver_def conv_inv_def Let_def)

lemma default_resolver_servers [simp]:
  "dc_servers (dv_spec (default_resolver t st)) = dc_servers (dv_spec st)"
  "dc_rules (dv_spec (default_resolver t st)) = dc_rules (dv_spec st)"
  by (simp_all add: default_resolver_def)

lemma add_system_server_inv:
  assumes "conv_inv env st"
  shows "conv_inv env (add_system_server st)" "system_server \<in> set (dc_servers (dv_spec (add_system_server st)))"
    "set (dc_servers (dv_spec st)) \<subseteq> set (dc_servers (dv_spec (add_system_server st)))"
    "dc_rules (dv_spec (add_system_server st)) = dc_rules (dv_spec st)"
proof -
  have sys: "s = system_server" if "s \<in> set (dc_servers (dv_spec st))" "ds_tag s = system_server_tag" for s
    using assms that by (auto simp: conv_inv_def Let_def registered_def)
  show "system_server \<in> set (dc_servers (dv_spec (add_system_server st)))"
    using sys by (auto simp: add_system_server_def)
  show "set (dc_servers (dv_spec st)) \<subseteq> set (dc_servers (dv_spec (add_system_server st)))"
    "dc_rules (dv_spec (add_system_server st)) = dc_rules (dv_spec st)"
    by (auto simp: add_system_server_def)
  show "conv_inv env (add_system_server st)"
  proof (cases "\<exists>s \<in> set (dc_servers (dv_spec st)). ds_tag s = system_server_tag")
    case False
    then have new: "system_server \<notin> set (dc_servers (dv_spec st))" by auto
    then have regd: "\<forall>s \<in> set (dc_servers (dv_spec st)). registered env s"
      using assms by (auto simp: conv_inv_def Let_def)
    then have "server_key system_server \<notin> server_key ` set (dc_servers (dv_spec st))"
      using registered_key by (metis imageE)
    with False assms show ?thesis
      by (auto simp: add_system_server_def conv_inv_def Let_def)
  qed (use assms in \<open>simp add: add_system_server_def\<close>)
qed

section \<open>Every step keeps the invariant\<close>

lemma self_contained_key:
  assumes "registered env x" "server_key x = server_key s" "ds_kind s = DnsUdp" "ds_path s = None"
    "ds_server s = Some a" "looks_like_ip a"
  shows "self_contained x"
proof -
  have kind: "ds_kind x = DnsUdp" using server_key_kind assms(2,3) by metis
  then have "ds_path x = None" "ds_server x \<noteq> None" using assms(1) by (auto simp: registered_def endpoint_ok_def)
  with server_key_address [OF assms(2) _ assms(4)] assms(5) have "ds_server x = Some a" by auto
  with kind assms(6) show ?thesis by (simp add: self_contained_def)
qed

lemma add_bootstrap_server_inv:
  assumes inv: "conv_inv env st" and add: "add_bootstrap_server env raw st = (st', t)"
  shows "conv_inv env st'"
proof (cases "trim raw = [] \<or> is_system (trim raw) \<or> \<not> looks_like_ip (fst (split_host_port (trim raw)))")
  case True
  with add inv show ?thesis
    by (auto simp: add_bootstrap_server_def Let_def split: prod.splits if_splits)
next
  case False
  obtain a port where hp: "split_host_port (trim raw) = (a, port)" by fastforce
  define s where "s = (plain_server [] DnsUdp)\<lparr>ds_server := Some a, ds_port := port\<rparr>"
  obtain st1 tag where reg: "register_server env s st = (st1, tag)" by fastforce
  have ok: "endpoint_ok s" by (simp add: s_def endpoint_ok_def)
  note r = register_server_inv [OF inv ok reg]
  have st': "st' = default_resolver tag st1"
    using add False hp reg by (auto simp: add_bootstrap_server_def s_def)
  from r(3) obtain x where x: "x \<in> set (dc_servers (dv_spec st1))" "registered env x" "server_key x = server_key s" by blast
  have "self_contained x"
    using self_contained_key [OF x(2,3), of a] False hp by (simp add: s_def)
  moreover have "ds_tag x = tag" using x r(2) by (simp add: registered_def)
  ultimately show ?thesis unfolding st' using x(1) default_resolver_inv [OF r(1)] by blast
qed

lemma fold_add_bootstrap_inv:
  "conv_inv env st \<Longrightarrow> conv_inv env (fst (fold (add_bootstrap env) entries (st, boots)))"
proof (induction entries arbitrary: st boots)
  case (Cons e es)
  obtain st' t where add: "add_bootstrap_server env e st = (st', t)" by fastforce
  have "conv_inv env st'" using add_bootstrap_server_inv [OF Cons.prems add] .
  with Cons.IH add show ?case by (cases t) (simp_all add: add_bootstrap_def)
qed simp

lemma set_resolver_inv:
  assumes "conv_inv env st" "\<exists>s \<in> set (dc_servers (dv_spec st)). ds_tag s = t \<and> self_contained s"
  shows "conv_inv env (st\<lparr>dv_spec := (dv_spec st)\<lparr>dc_domain_resolver := Some t\<rparr>\<rparr>)"
  using assms by (auto simp: conv_inv_def Let_def)

lemma system_self_contained [simp]: "self_contained system_server"
  by (simp add: self_contained_def)

lemma add_system_bootstrap_inv: "conv_inv env st \<Longrightarrow> conv_inv env (add_system_bootstrap entries st)"
proof -
  assume inv: "conv_inv env st"
  note a = add_system_server_inv [OF inv]
  have "\<exists>s \<in> set (dc_servers (dv_spec (add_system_server st))). ds_tag s = system_server_tag \<and> self_contained s"
    using a(2) by (intro bexI [of _ system_server]) simp_all
  with inv a(1) show ?thesis
    unfolding add_system_bootstrap_def Let_def
    by (cases "dc_domain_resolver (dv_spec st) \<noteq> None \<or> \<not> (\<exists>entry \<in> set entries. is_system (trim entry))")
       (simp_all only: if_True if_False conv_inv_add_notes set_resolver_inv)
qed

lemma url_endpoint_ok:
  "url_endpoint host h3 ins parsed = (notes, Some s) \<Longrightarrow> endpoint_ok s"
  by (auto simp: url_endpoint_def scheme_kind_def endpoint_path_def endpoint_ok_def Let_def
      split: option.splits if_split_asm prod.splits sum.splits)

lemma parse_endpoint_ok:
  "parse_clash_dns_endpoint env raw = (notes, Some (ServerEndpoint s)) \<Longrightarrow> endpoint_ok s"
  by (auto simp: parse_clash_dns_endpoint_def Let_def endpoint_ok_def [of "_\<lparr>ds_server := _\<rparr>"]
      split: if_split_asm option.split_asm prod.split_asm dest: url_endpoint_ok)

text \<open>The tag an entry of \<open>nameserver\<close> stands for.\<close>

definition upstream_tag :: "dns_env \<Rightarrow> string \<Rightarrow> string option" where
  "upstream_tag env entry =
     (case snd (parse_clash_dns_endpoint env entry) of
        None \<Rightarrow> None
      | Some SystemEndpoint \<Rightarrow> Some system_server_tag
      | Some (ServerEndpoint s) \<Rightarrow> Some (endpoint_tag env (server_key s)))"

lemma add_endpoint_inv:
  assumes inv: "conv_inv env st" and add: "add_clash_dns_endpoint env raw st = (st', t)"
  shows "conv_inv env st'" "t = upstream_tag env raw"
    "\<And>tag. t = Some tag \<Longrightarrow> \<exists>s \<in> set (dc_servers (dv_spec st')). ds_tag s = tag"
proof -
  have "conv_inv env st' \<and> t = upstream_tag env raw \<and>
    (\<forall>tag. t = Some tag \<longrightarrow> (\<exists>s \<in> set (dc_servers (dv_spec st')). ds_tag s = tag))"
  proof (cases "parse_clash_dns_endpoint env raw")
    case (Pair ns parsed)
    let ?st1 = "add_notes ns st"
    have inv1: "conv_inv env ?st1" using inv by simp
    show ?thesis
    proof (cases parsed)
      case None
      with Pair add inv show ?thesis by (auto simp: add_clash_dns_endpoint_def upstream_tag_def)
    next
      case (Some ep)
      show ?thesis
      proof (cases ep)
        case SystemEndpoint
        note a = add_system_server_inv [OF inv1]
        have "\<exists>s \<in> set (dc_servers (dv_spec (add_system_server ?st1))). ds_tag s = system_server_tag \<and> self_contained s"
          using a(2) by (intro bexI [of _ system_server]) simp_all
        then have "conv_inv env (default_resolver system_server_tag (add_system_server ?st1))"
          by (rule default_resolver_inv [OF a(1)])
        with Pair Some SystemEndpoint add a(2) show ?thesis
          by (auto simp: add_clash_dns_endpoint_def upstream_tag_def intro!: bexI [of _ system_server])
      next
        case (ServerEndpoint s)
        obtain st2 tag where reg: "register_server env s ?st1 = (st2, tag)" by fastforce
        have ok: "endpoint_ok s" using Pair Some ServerEndpoint parse_endpoint_ok by blast
        note r = register_server_inv [OF inv1 ok reg]
        from r(3) obtain x where "x \<in> set (dc_servers (dv_spec st2))" "registered env x" "server_key x = server_key s"
          by blast
        with r(2) have "\<exists>x \<in> set (dc_servers (dv_spec st2)). ds_tag x = tag" by (auto simp: registered_def)
        with Pair Some ServerEndpoint add reg r(1,2) show ?thesis
          by (auto simp: add_clash_dns_endpoint_def upstream_tag_def)
      qed
    qed
  qed
  then show "conv_inv env st'" "t = upstream_tag env raw"
    "\<And>tag. t = Some tag \<Longrightarrow> \<exists>s \<in> set (dc_servers (dv_spec st')). ds_tag s = tag" by blast+
qed

lemma fold_add_upstream_inv:
  "conv_inv env st \<Longrightarrow> fold (add_upstream env) entries (st, ups) = (st', ups') \<Longrightarrow>
     conv_inv env st' \<and> ups' = ups @ filter_map (upstream_tag env) entries"
proof (induction entries arbitrary: st ups)
  case (Cons e es)
  obtain st1 t where add: "add_clash_dns_endpoint env e st = (st1, t)" by fastforce
  note a = add_endpoint_inv [OF Cons.prems(1) add]
  have "add_upstream env e (st, ups) = (st1, ups @ (case t of None \<Rightarrow> [] | Some x \<Rightarrow> [x]))"
    using add by (cases t) (simp_all add: add_upstream_def)
  with Cons.prems(2) have "fold (add_upstream env) es (st1, ups @ (case t of None \<Rightarrow> [] | Some x \<Rightarrow> [x])) = (st', ups')"
    by simp
  from Cons.IH [OF a(1) this] a(2) show ?case by (auto split: option.splits)
qed simp

lemma push_rule_inv:
  assumes "conv_inv env st" "\<not> rule_is_empty r" "\<exists>s \<in> set (dc_servers (dv_spec st)). ds_tag s = dr_server r"
  shows "conv_inv env (push_rule r st)"
  using assms by (auto simp: conv_inv_def Let_def)

lemma policy_rule_ok: "policy_rule field v t = Inr r \<Longrightarrow> \<not> rule_is_empty r \<and> dr_server r = t"
  by (cases field) (auto simp: policy_rule_def rule_is_empty_def plain_rule_def)

lemma policy_field_cases:
  "parse_clash_dns_policy_pattern pattern = Some (field, v) \<Longrightarrow> field \<in> {DomainSuffixField, DomainKeywordField}"
  by (auto simp: parse_clash_dns_policy_pattern_def policy_value_def split: option.splits if_split_asm)

lemma convert_policy_inv:
  assumes inv: "conv_inv env st" and conv: "convert_policy env entry st = Inr st'"
  shows "conv_inv env st'"
proof -
  from conv obtain pattern entries where e: "y_str (fst entry) = Some pattern"
    "as_string_list (snd entry) (''nameserver-policy.'' @ pattern) = Inr entries"
    by (auto simp: convert_policy_def)
  note conv' = conv [unfolded convert_policy_def e ok_or_simps rbind.simps]
  show ?thesis
  proof (cases "parse_clash_dns_policy_pattern pattern")
    case None
    with conv' inv show ?thesis by auto
  next
    case (Some fv)
    obtain field v where fv: "fv = (field, v)" by fastforce
    show ?thesis
    proof (cases entries)
      case Nil
      with Some fv conv' inv show ?thesis by auto
    next
      case (Cons first rest)
      define st1 where "st1 = (if rest \<noteq> [] then
         add_notes [PolicyServersDropped pattern (length rest) (length entries)] st else st)"
      have inv1: "conv_inv env st1" using inv by (simp add: st1_def)
      obtain st2 t where add: "add_clash_dns_endpoint env first st1 = (st2, t)" by fastforce
      note a = add_endpoint_inv [OF inv1 add]
      from conv' Some fv Cons add have c: "(case t of None \<Rightarrow> Inr (add_notes [PolicyNotApplied pattern] st2)
          | Some tag \<Rightarrow> rbind (policy_rule field v tag) (\<lambda>r. Inr (push_rule r st2))) = Inr st'"
        by (cases t) (simp_all add: st1_def Let_def del: rbind_Inr_iff)
      show ?thesis
      proof (cases t)
        case None
        with c a(1) show ?thesis by auto
      next
        case (Some tag)
        with c obtain r where "policy_rule field v tag = Inr r" "st' = push_rule r st2" by auto
        with a(1) a(3) [OF Some] policy_rule_ok push_rule_inv show ?thesis by metis
      qed
    qed
  qed
qed

lemma fold_policy_inv:
  "conv_inv env st \<Longrightarrow> fold_result (convert_policy env) ps st = Inr st' \<Longrightarrow> conv_inv env st'"
  by (induction ps arbitrary: st) (auto dest: convert_policy_inv)

text \<open>The state when \<open>nameserver-policy\<close> has been read.\<close>

definition nameserver_entries :: "ymapping \<Rightarrow> string list" where
  "nameserver_entries dns =
     (case present dns ''nameserver'' of
        None \<Rightarrow> []
      | Some v \<Rightarrow> (case as_string_list v ''nameserver'' of Inl _ \<Rightarrow> [] | Inr es \<Rightarrow> es))"

lemma phases_inv:
  assumes "bootstrap_phase env dns (empty_conv notes) = Inr (st1, boots)"
    and "nameserver_phase env dns st1 = Inr (st2, ups)"
    and "policy_phase env dns st2 = Inr st3"
  shows "conv_inv env st3" "ups = filter_map (upstream_tag env) (nameserver_entries dns)"
proof -
  have 1: "conv_inv env st1"
  proof (cases "present dns ''default-nameserver''")
    case None
    with assms(1) show ?thesis by (auto simp: bootstrap_phase_def)
  next
    case (Some v)
    with assms(1) obtain entries where e: "as_string_list v ''default-nameserver'' = Inr entries"
      by (auto simp: bootstrap_phase_def)
    obtain st0 bs where f: "fold (add_bootstrap env) entries (empty_conv notes, []) = (st0, bs)" by fastforce
    have "conv_inv env (add_system_bootstrap entries st0)"
      using fold_add_bootstrap_inv [of env "empty_conv notes" entries "[]"] f by (simp add: add_system_bootstrap_inv)
    moreover have "\<exists>ns. st1 = add_notes ns (add_system_bootstrap entries st0)"
      using assms(1) Some e f by (auto simp: bootstrap_phase_def Let_def)
    ultimately show ?thesis by auto
  qed
  have 2: "conv_inv env st2 \<and> ups = filter_map (upstream_tag env) (nameserver_entries dns)"
    using assms(2) 1 fold_add_upstream_inv [OF 1]
    by (fastforce simp: nameserver_phase_def nameserver_entries_def split: option.split_asm)
  then show "ups = filter_map (upstream_tag env) (nameserver_entries dns)" by blast
  show "conv_inv env st3"
    using assms(3) 2 fold_policy_inv by (auto simp: policy_phase_def split: option.split_asm)
qed

section \<open>The end of the conversion\<close>

text \<open>Errors in the shape of the profile, as opposed to a spec that fails its own validation.\<close>

definition structural :: "dns_error \<Rightarrow> bool" where
  "structural e \<longleftrightarrow> (case e of SpecInvalid _ \<Rightarrow> False | UnreachablePolicy \<Rightarrow> False | _ \<Rightarrow> True)"

lemma string_list_error: "as_string_list v k = Inl e \<Longrightarrow> structural e"
proof -
  have "traverse (\<lambda>item. ok_or (y_str item) (EntriesNotStrings k)) xs = Inl e \<Longrightarrow> structural e" for xs
    by (induction xs) (auto simp: rbind_Inl_iff structural_def)
  then show "as_string_list v k = Inl e \<Longrightarrow> structural e" by (simp add: as_string_list_def)
qed

lemma convert_policy_error:
  assumes "convert_policy env x st = Inl e"
  shows "structural e"
proof (cases "y_str (fst x)")
  case None
  with assms show ?thesis by (simp add: convert_policy_def structural_def)
next
  case (Some pattern)
  show ?thesis
  proof (cases "as_string_list (snd x) (''nameserver-policy.'' @ pattern)")
    case (Inl e')
    with assms Some show ?thesis by (simp add: convert_policy_def string_list_error)
  next
    case (Inr entries)
    show ?thesis
    proof (cases "parse_clash_dns_policy_pattern pattern")
      case None
      with assms Some Inr show ?thesis by (simp add: convert_policy_def)
    next
      case fv: (Some fv)
      obtain field v where fv': "fv = (field, v)" by fastforce
      show ?thesis
      proof (cases entries)
        case Nil
        with assms Some Inr fv fv' show ?thesis by (simp add: convert_policy_def)
      next
        case (Cons first rest)
        from policy_field_cases [of pattern field v] fv fv' have "field = DomainSuffixField \<or> field = DomainKeywordField"
          by simp
        with assms Some Inr fv fv' Cons show ?thesis
          by (auto simp: convert_policy_def policy_rule_def Let_def split: prod.split_asm option.split_asm)
      qed
    qed
  qed
qed

text \<open>The spec that is validated: \<open>st\<close> is the state after the policies.\<close>

definition final_state :: "ymapping \<Rightarrow> dns_conv \<Rightarrow> dns_config_spec" where
  "final_state dns st = dv_spec (resolver_phase (mode_phase dns st))"

definition validated_spec :: "dns_env \<Rightarrow> ymapping \<Rightarrow> dns_conv \<Rightarrow> string \<Rightarrow> dns_config_spec \<Rightarrow> bool" where
  "validated_spec env dns st tag spec \<longleftrightarrow>
     conv_inv env st \<and>
     select_final (final_state dns st) (filter_map (upstream_tag env) (nameserver_entries dns)) = Some tag \<and>
     spec = (final_state dns st)\<lparr>dc_final_server := Some tag\<rparr>"

lemma convert_dns_block_cases:
  obtains (shape) e where "convert_dns_block env dns = Inl e" "structural e"
  | (invalid) st tag spec e where "convert_dns_block env dns = Inl (SpecInvalid e)"
      "validated_spec env dns st tag spec" "validate_dns spec = Inl e"
  | (dropped) ns where "convert_dns_block env dns = Inr \<lparr>dcr_spec = None, dcr_notes = ns\<rparr>"
  | (converted) st tag spec ns where "convert_dns_block env dns = Inr \<lparr>dcr_spec = Some spec, dcr_notes = ns\<rparr>"
      "validated_spec env dns st tag spec" "validate_dns spec = Inr ()"
proof -
  have fold_err: "fold_result (convert_policy env) ps st = Inl e \<Longrightarrow> structural e" for ps st e
    by (induction ps arbitrary: st) (auto simp: rbind_Inl_iff dest: convert_policy_error)
  show thesis
  proof (cases "field_report dns")
    case (Inl e)
    then have "structural e"
      by (auto simp: field_report_def rbind_Inl_iff check_bool_def check_str_def hosts_note_def structural_def
          split: option.split_asm bool.split_asm)
    with Inl shape show thesis by (simp add: convert_dns_block_def)
  next
    case fr: (Inr ns)
    show thesis
    proof (cases "bootstrap_phase env dns (empty_conv ns)")
      case (Inl e)
      then have "structural e"
        by (auto simp: bootstrap_phase_def rbind_Inl_iff Let_def split: option.split_asm prod.split_asm dest: string_list_error)
      with Inl fr shape show thesis by (simp add: convert_dns_block_def)
    next
      case b: (Inr p1)
      obtain st1 boots where p1: "p1 = (st1, boots)" by fastforce
      show thesis
      proof (cases "nameserver_phase env dns st1")
        case (Inl e)
        then have "structural e"
          by (auto simp: nameserver_phase_def rbind_Inl_iff split: option.split_asm dest: string_list_error)
        with Inl fr b p1 shape show thesis by (simp add: convert_dns_block_def)
      next
        case n: (Inr p2)
        obtain st2 ups where p2: "p2 = (st2, ups)" by fastforce
        show thesis
        proof (cases "policy_phase env dns st2")
          case (Inl e)
          then have "structural e"
            by (auto simp: policy_phase_def rbind_Inl_iff structural_def [of PolicyNotMapping]
                split: option.split_asm dest: fold_err)
          with Inl fr b n p1 p2 shape show thesis by (simp add: convert_dns_block_def)
        next
          case pp: (Inr st3)
          note inv = phases_inv [OF b [unfolded p1] n [unfolded p2] pp]
          have block: "convert_dns_block env dns =
              finish_conversion (length (dc_servers (dv_spec (mode_phase dns st3)))) boots ups
                (resolver_phase (mode_phase dns st3))"
            using fr b n pp p1 p2 by (simp add: convert_dns_block_def Let_def)
          show thesis
          proof (cases "select_final (final_state dns st3) ups")
            case None
            with block dropped show thesis by (simp add: finish_conversion_def final_state_def)
          next
            case (Some tag)
            define spec where "spec = (final_state dns st3)\<lparr>dc_final_server := Some tag\<rparr>"
            have v: "validated_spec env dns st3 tag spec"
              using inv Some by (simp add: validated_spec_def spec_def)
            show thesis
            proof (cases "validate_dns spec")
              case (Inl e)
              with block Some v invalid show thesis
                by (simp add: finish_conversion_def final_state_def spec_def Let_def)
            next
              case (Inr u)
              with block Some v converted show thesis
                by (simp add: finish_conversion_def final_state_def spec_def Let_def)
            qed
          qed
        qed
      qed
    qed
  qed
qed

section \<open>Facts about the validated spec\<close>

lemma fakeip_server_simps [simp]:
  "ds_tag (fakeip_server dns) = fakeip_server_tag" "ds_kind (fakeip_server dns) = DnsFakeip"
  "ds_path (fakeip_server dns) = None" "ds_tls_insecure (fakeip_server dns) = None"
  by (simp_all add: fakeip_server_def)

lemma mode_phase_servers:
  "dc_servers (dv_spec (mode_phase dns st)) =
     dc_servers (dv_spec st) @ (if ymap_str dns ''enhanced-mode'' = Some ''fake-ip'' then [fakeip_server dns] else [])"
  "dc_domain_resolver (dv_spec (mode_phase dns st)) = dc_domain_resolver (dv_spec st)"
  "dc_rules (dv_spec (mode_phase dns st)) =
     (if ymap_str dns ''enhanced-mode'' = Some ''fake-ip'' then [fakeip_rule] else []) @ dc_rules (dv_spec st)"
  by (cases "ymap_str dns ''enhanced-mode''"; simp add: mode_phase_def Let_def)+

lemma final_state_servers:
  "\<exists>P. dc_servers (final_state dns st) = filter P (dc_servers (dv_spec (mode_phase dns st)))"
proof (cases "or_else (dc_domain_resolver (dv_spec (mode_phase dns st))) (first_ip_literal_server (dv_spec (mode_phase dns st)))")
  case None
  then show ?thesis by (auto simp: final_state_def resolver_phase_def Let_def)
next
  case (Some r)
  then show ?thesis by (intro exI [of _ "\<lambda>_. True"]) (simp add: final_state_def resolver_phase_def)
qed

lemma final_state_server_cases:
  assumes "conv_inv env st" "s \<in> set (dc_servers (final_state dns st))"
  shows "s = system_server \<or> registered env s \<or> s = fakeip_server dns"
proof -
  obtain P where "dc_servers (final_state dns st) = filter P (dc_servers (dv_spec (mode_phase dns st)))"
    using final_state_servers by blast
  with assms(2) have "s \<in> set (dc_servers (dv_spec st)) \<or> s = fakeip_server dns"
    by (auto simp: mode_phase_servers split: if_split_asm)
  with assms(1) show ?thesis by (auto simp: conv_inv_def Let_def)
qed

lemma final_state_distinct_keys:
  assumes "conv_inv env st"
  shows "distinct (map server_key (dc_servers (final_state dns st)))"
proof -
  obtain P where P: "dc_servers (final_state dns st) = filter P (dc_servers (dv_spec (mode_phase dns st)))"
    using final_state_servers by blast
  have "server_key (fakeip_server dns) \<notin> server_key ` set (dc_servers (dv_spec st))"
  proof
    assume "server_key (fakeip_server dns) \<in> server_key ` set (dc_servers (dv_spec st))"
    then obtain s where s: "s \<in> set (dc_servers (dv_spec st))" "server_key (fakeip_server dns) = server_key s" by blast
    then have "ds_kind s = DnsFakeip" using server_key_kind [OF s(2)] by simp
    with s assms show False by (auto simp: conv_inv_def Let_def registered_def endpoint_ok_def)
  qed
  with assms have "distinct (map server_key (dc_servers (dv_spec (mode_phase dns st))))"
    by (auto simp: mode_phase_servers conv_inv_def Let_def)
  then show ?thesis unfolding P by (rule distinct_map_filter)
qed

lemma final_state_resolver:
  assumes inv: "conv_inv env st" and r: "dc_domain_resolver (final_state dns st) = Some r"
  shows "\<exists>s \<in> set (dc_servers (final_state dns st)). ds_tag s = r \<and> self_contained s"
proof (cases "or_else (dc_domain_resolver (dv_spec (mode_phase dns st))) (first_ip_literal_server (dv_spec (mode_phase dns st)))")
  case None
  with r show ?thesis by (auto simp: final_state_def resolver_phase_def Let_def split: option.split_asm)
next
  case (Some r')
  with r have [simp]: "r' = r" by (simp add: final_state_def resolver_phase_def)
  have servers: "dc_servers (final_state dns st) = dc_servers (dv_spec (mode_phase dns st))"
    using Some by (simp add: final_state_def resolver_phase_def)
  show ?thesis
  proof (cases "dc_domain_resolver (dv_spec st)")
    case (Some r2)
    with \<open>or_else _ _ = Some r'\<close> have "r2 = r" by (simp add: mode_phase_servers)
    with Some inv show ?thesis unfolding servers by (auto simp: conv_inv_def Let_def mode_phase_servers)
  next
    case None
    with \<open>or_else _ _ = Some r'\<close> have "first_ip_literal_server (dv_spec (mode_phase dns st)) = Some r"
      by (simp add: mode_phase_servers)
    then show ?thesis
      unfolding servers first_ip_literal_server_def by (auto simp: find_Some_iff self_contained_def)
  qed
qed

lemma final_state_named:
  assumes "s \<in> set (dc_servers (final_state dns st))" "has_name_address s"
  shows "dc_domain_resolver (final_state dns st) \<noteq> None"
  using assms by (auto simp: final_state_def resolver_phase_def Let_def split: option.split_asm)

lemma select_final_props:
  assumes "select_final spec ups = Some t"
  shows "t \<in> set ups" "\<exists>s \<in> set (dc_servers spec). ds_tag s = t \<and> ds_kind s \<noteq> DnsFakeip"
    "(\<exists>u \<in> set ups. \<exists>s \<in> set (dc_servers spec). ds_tag s = u \<and> is_remote (ds_kind s)) \<Longrightarrow>
       \<exists>s \<in> set (dc_servers spec). ds_tag s = t \<and> is_remote (ds_kind s)"
proof -
  let ?known = "filter (\<lambda>t. \<exists>s \<in> set (dc_servers spec). ds_tag s = t) ups"
  have "t \<in> set ups \<and> (\<exists>s \<in> set (dc_servers spec). ds_tag s = t \<and> ds_kind s \<noteq> DnsFakeip) \<and>
    ((\<exists>u \<in> set ups. \<exists>s \<in> set (dc_servers spec). ds_tag s = u \<and> is_remote (ds_kind s)) \<longrightarrow>
       (\<exists>s \<in> set (dc_servers spec). ds_tag s = t \<and> is_remote (ds_kind s)))"
  proof (cases "find (\<lambda>t. \<exists>s \<in> set (dc_servers spec). ds_tag s = t \<and> is_remote (ds_kind s)) ?known")
    case None
    then have no: "\<not> (\<exists>u \<in> set ups. \<exists>s \<in> set (dc_servers spec). ds_tag s = u \<and> is_remote (ds_kind s))"
      unfolding find_None_iff by auto
    from None assms have "find (\<lambda>t. \<exists>s \<in> set (dc_servers spec). ds_tag s = t \<and> ds_kind s \<noteq> DnsFakeip) ?known = Some t"
      by (simp add: select_final_def Let_def)
    then obtain i where "i < length ?known" "?known ! i = t"
      "\<exists>s \<in> set (dc_servers spec). ds_tag s = t \<and> ds_kind s \<noteq> DnsFakeip"
      unfolding find_Some_iff by blast
    moreover from this have "t \<in> set ?known" using nth_mem by blast
    ultimately show ?thesis using no by auto
  next
    case (Some t')
    then have "t' = t" using assms by (simp add: select_final_def Let_def)
    with Some obtain i where i: "i < length ?known" "?known ! i = t"
      "\<exists>s \<in> set (dc_servers spec). ds_tag s = t \<and> is_remote (ds_kind s)"
      unfolding find_Some_iff by blast
    moreover from this have "t \<in> set ?known" using nth_mem by blast
    moreover have "\<exists>s \<in> set (dc_servers spec). ds_tag s = t \<and> ds_kind s \<noteq> DnsFakeip"
      using i(3) by (metis is_remote_simps(7))
    ultimately show ?thesis by auto
  qed
  then show "t \<in> set ups" "\<exists>s \<in> set (dc_servers spec). ds_tag s = t \<and> ds_kind s \<noteq> DnsFakeip"
    "(\<exists>u \<in> set ups. \<exists>s \<in> set (dc_servers spec). ds_tag s = u \<and> is_remote (ds_kind s)) \<Longrightarrow>
       \<exists>s \<in> set (dc_servers spec). ds_tag s = t \<and> is_remote (ds_kind s)" by blast+
qed

section \<open>When validation can fail\<close>

lemma check_servers_Inr:
  "check_servers seen ss = Inr u \<Longrightarrow>
     distinct (map ds_tag ss) \<and> ds_tag ` set ss \<inter> set seen = {} \<and> (\<forall>s \<in> set ss. ds_tag s \<noteq> [] \<and> check_server s = Inr ())"
  by (induction seen ss rule: check_servers.induct) auto

lemma check_servers_Inl:
  "check_servers seen ss = Inl e \<Longrightarrow> distinct ss \<Longrightarrow>
     \<exists>s \<in> set ss. check_server s = Inl e \<or>
       e = BadServerTag (ds_tag s) \<and>
         (ds_tag s = [] \<or> ds_tag s \<in> set seen \<or> (\<exists>s' \<in> set ss. s' \<noteq> s \<and> ds_tag s' = ds_tag s))"
proof (induction seen ss rule: check_servers.induct)
  case (2 seen s ss)
  show ?case
  proof (cases "ds_tag s \<noteq> [] \<and> ds_tag s \<notin> set seen \<and> check_server s = Inr ()")
    case True
    with 2 have "check_servers (ds_tag s # seen) ss = Inl e" by simp
    with 2 True obtain x where x: "x \<in> set ss" "check_server x = Inl e \<or> e = BadServerTag (ds_tag x) \<and>
        (ds_tag x = [] \<or> ds_tag x \<in> set (ds_tag s # seen) \<or> (\<exists>s' \<in> set ss. s' \<noteq> x \<and> ds_tag s' = ds_tag x))"
      by auto
    moreover have "x \<noteq> s" using x(1) "2.prems"(2) by auto
    ultimately show ?thesis by (intro bexI [of _ x]) auto
  next
    case False
    with "2.prems"(1) show ?thesis by (auto simp: rbind_Inl_iff)
  qed
qed simp

lemma find_distinct:
  assumes "distinct (map ds_tag ss)" "s \<in> set ss"
  shows "find (\<lambda>x. ds_tag x = ds_tag s) ss = Some s"
  using assms
proof (induction ss)
  case (Cons y ys)
  then show ?case by (cases "y = s") (auto simp: image_iff)
qed simp

lemma hex_digits_length [simp]: "length (hex_digits k n) = k"
  by (induction k arbitrary: n) simp_all

lemma hex_char_inj: "a < 16 \<Longrightarrow> b < 16 \<Longrightarrow> hex_char a = hex_char b \<Longrightarrow> a = b"
proof -
  have "distinct ''0123456789abcdef''" by simp
  then show "a < 16 \<Longrightarrow> b < 16 \<Longrightarrow> hex_char a = hex_char b \<Longrightarrow> a = b"
    unfolding hex_char_def by (subst (asm) nth_eq_iff_index_eq) simp_all
qed

lemma hex_digits_inj: "hex_digits k m = hex_digits k n \<Longrightarrow> m < 16 ^ k \<Longrightarrow> n < 16 ^ k \<Longrightarrow> m = n"
proof (induction k arbitrary: m n)
  case (Suc k)
  then have "hex_digits k (m div 16) = hex_digits k (n div 16)" "hex_char (m mod 16) = hex_char (n mod 16)" by simp_all
  moreover have "m div 16 < 16 ^ k" "n div 16 < 16 ^ k" using Suc.prems(2,3) by (simp_all add: less_mult_imp_div_less mult.commute)
  ultimately have "m div 16 = n div 16" "m mod 16 = n mod 16" using Suc.IH hex_char_inj by simp_all
  then show ?case by (metis div_mult_mod_eq)
qed simp

lemma endpoint_tag_collision:
  assumes "endpoint_tag env k = endpoint_tag env k'"
  shows "de_hash env k = de_hash env k'"
proof -
  have bound: "unat (w :: u64) < 16 ^ 16" for w
  proof -
    have "unat w < 2 ^ LENGTH(64)" by (rule unsigned_less)
    then show ?thesis by simp
  qed
  from assms have "hex_digits 16 (unat (de_hash env k)) = hex_digits 16 (unat (de_hash env k'))"
    by (simp add: endpoint_tag_def del: hex_digits.simps)
  then have "unat (de_hash env k) = unat (de_hash env k')"
    by (rule hex_digits_inj) (rule bound)+
  then show ?thesis by (simp add: unsigned_word_eqI)
qed

lemma server_with_tag_collision:
  assumes v: "conv_inv env st"
    and s: "s \<in> set (dc_servers (final_state dns st))" "s' \<in> set (dc_servers (final_state dns st))"
    and "s' \<noteq> s" "ds_tag s' = ds_tag s"
  shows "\<exists>k1 k2. k1 \<noteq> k2 \<and> de_hash env k1 = de_hash env k2"
proof -
  have keys: "server_key s' \<noteq> server_key s"
    using final_state_distinct_keys [OF v] s assms(4) by (auto simp: distinct_map dest: inj_onD)
  have "registered env s \<and> registered env s'"
    using final_state_server_cases [OF v s(1)] final_state_server_cases [OF v s(2)] assms(4,5)
    by (auto simp: registered_def)
  then have "endpoint_tag env (server_key s') = endpoint_tag env (server_key s)"
    using assms(5) by (metis registered_def)
  with keys endpoint_tag_collision show ?thesis by blast
qed

lemma check_server_cases:
  assumes "conv_inv env st" "s \<in> set (dc_servers (final_state dns st))" "check_server s = Inl e"
  shows "\<exists>t. e = AddressRequired t \<or> e = InsecureNotSupported t"
  using final_state_server_cases [OF assms(1,2)] assms(3)
  by (auto simp: check_server_def rbind_Inl_iff registered_def endpoint_ok_def system_server_def)

lemma final_state_rules:
  assumes "conv_inv env st" "r \<in> set (dc_rules (final_state dns st))"
  shows "\<not> rule_is_empty r" "\<exists>s \<in> set (dc_servers (final_state dns st)). ds_tag s = dr_server r"
proof -
  have rules: "\<not> rule_is_empty x \<and> (\<exists>s \<in> set (dc_servers (dv_spec (mode_phase dns st))). ds_tag s = dr_server x)"
    if "x \<in> set (dc_rules (dv_spec (mode_phase dns st)))" for x
    using assms(1) that
    by (auto simp: mode_phase_servers conv_inv_def Let_def fakeip_rule_def rule_is_empty_def plain_rule_def split: if_split_asm)
  have "\<not> rule_is_empty r \<and> (\<exists>s \<in> set (dc_servers (final_state dns st)). ds_tag s = dr_server r)"
  proof (cases "or_else (dc_domain_resolver (dv_spec (mode_phase dns st))) (first_ip_literal_server (dv_spec (mode_phase dns st)))")
    case None
    with assms(2) rules show ?thesis by (simp add: final_state_def resolver_phase_def Let_def)
  next
    case (Some x)
    with assms(2) rules show ?thesis by (simp add: final_state_def resolver_phase_def)
  qed
  then show "\<not> rule_is_empty r" "\<exists>s \<in> set (dc_servers (final_state dns st)). ds_tag s = dr_server r" by blast+
qed

lemma validated_spec_servers:
  assumes "validated_spec env dns st tag spec"
  shows "dc_servers spec = dc_servers (final_state dns st)" "dc_rules spec = dc_rules (final_state dns st)"
    "dc_domain_resolver spec = dc_domain_resolver (final_state dns st)" "dc_final_server spec = Some tag" "conv_inv env st"
  using assms by (simp_all add: validated_spec_def)

lemma validation_failure:
  assumes v: "validated_spec env dns st tag spec" and "validate_dns spec = Inl e"
  shows "(\<exists>t k1 k2. e = BadServerTag t \<and> k1 \<noteq> k2 \<and> de_hash env k1 = de_hash env k2) \<or>
    (\<exists>t. e = AddressRequired t \<or> e = InsecureNotSupported t)"
proof -
  note sp = validated_spec_servers [OF v]
  note inv = sp(5)
  have d: "distinct (dc_servers spec)" using final_state_distinct_keys [OF inv] sp(1) by (simp add: distinct_map)
  have tags: "ds_tag s \<noteq> []" if "s \<in> set (dc_servers spec)" for s
    using final_state_server_cases [OF inv, of s dns] that sp(1) by (auto simp: registered_def)
  show ?thesis
  proof (cases "check_servers [] (dc_servers spec)")
    case (Inl e')
    with assms(2) have "e' = e" by (simp add: validate_dns_def)
    with check_servers_Inl [OF Inl d] obtain s where s: "s \<in> set (dc_servers spec)"
      "check_server s = Inl e \<or> e = BadServerTag (ds_tag s) \<and>
        (\<exists>s' \<in> set (dc_servers spec). s' \<noteq> s \<and> ds_tag s' = ds_tag s)"
      using tags by auto
    then show ?thesis using check_server_cases [OF inv] server_with_tag_collision [OF inv] sp(1) by metis
  next
    case (Inr u)
    note ok = check_servers_Inr [OF Inr]
    have "check_resolver spec = Inr ()"
    proof (cases "dc_domain_resolver spec")
      case (Some r)
      then obtain s where "s \<in> set (dc_servers spec)" "ds_tag s = r" "self_contained s"
        using final_state_resolver [OF inv, of dns r] sp by auto
      with Some ok find_distinct [of "dc_servers spec" s] show ?thesis
        by (auto simp: check_resolver_def find_server_def self_contained_def)
    qed (simp add: check_resolver_def)
    moreover have "check_final spec = Inr ()"
    proof -
      have sel: "select_final (final_state dns st) (filter_map (upstream_tag env) (nameserver_entries dns)) = Some tag"
        using v by (simp add: validated_spec_def)
      obtain s where "s \<in> set (dc_servers spec)" "ds_tag s = tag" "ds_kind s \<noteq> DnsFakeip"
        using select_final_props(2) [OF sel] sp by auto
      with ok find_distinct [of "dc_servers spec" s] sp(4) show ?thesis
        by (auto simp: check_final_def find_server_def)
    qed
    moreover have "check_all (check_dns_rule (ds_tag ` set (dc_servers spec))) (dc_rules spec) = Inr ()"
      using final_state_rules [OF inv] sp by (auto simp: check_dns_rule_def image_iff) metis
    ultimately have "validate_dns spec = Inr ()" using Inr by (simp add: validate_dns_def)
    with assms(2) show ?thesis by simp
  qed
qed

section \<open>The generated entries\<close>

definition put_fields :: "(string \<times> json option) list \<Rightarrow> jobject \<Rightarrow> jobject" where
  "put_fields fs m = fold (\<lambda>(k, v). put_some k v) fs m"

lemma obj_get_put_fields:
  "obj_get (put_fields fs m) k =
     (case find (\<lambda>(k', v). k' = k \<and> v \<noteq> None) (rev fs) of None \<Rightarrow> obj_get m k | Some (_, v) \<Rightarrow> v)"
proof (induction fs arbitrary: m)
  case (Cons f fs)
  obtain k1 v1 where [simp]: "f = (k1, v1)" by fastforce
  have find_append: "find P (xs @ ys) = (case find P xs of None \<Rightarrow> find P ys | Some x \<Rightarrow> Some x)" for P and xs ys :: "(string \<times> json option) list"
    by (induction xs) auto
  have "obj_get (put_some k1 v1 m) k = (if k1 = k \<and> v1 \<noteq> None then v1 else obj_get m k)"
    by (auto simp: put_some_def obj_get_put split: option.splits)
  with Cons.IH [of "put_some k1 v1 m"] show ?case
    by (auto simp: put_fields_def find_append split: option.splits)
qed (simp add: put_fields_def)

lemma server_entry_fields: "server_entry resolver s =
    JObj (put_fields (server_fields resolver s)
      (mk_fields [(''type'', JStr (dns_kind_str (ds_kind s))), (''tag'', JStr (ds_tag s))]))"
  by (simp add: server_entry_def put_fields_def)

lemma server_entry_tag [simp]: "tag_of (server_entry resolver s) = Some (ds_tag s)"
  by (cases "ds_kind s") (simp_all add: tag_of_def get_str_def server_entry_fields obj_get_put_fields server_fields_def
      remote_fields_def obj_get_mk_fields)

lemma server_entry_type [simp]: "get_str (server_entry resolver s) ''type'' = Some (dns_kind_str (ds_kind s))"
  by (cases "ds_kind s") (simp_all add: tag_of_def get_str_def server_entry_fields obj_get_put_fields server_fields_def
      remote_fields_def obj_get_mk_fields)

lemma server_entry_server:
  "get_str (server_entry resolver s) ''server'' =
     (if is_remote (ds_kind s) then Some (unwrap_or (ds_server s) []) else None)"
  by (cases "ds_kind s") (simp_all add: tag_of_def get_str_def server_entry_fields obj_get_put_fields server_fields_def
      remote_fields_def obj_get_mk_fields)

lemma server_entry_resolver:
  "get_str (server_entry resolver s) ''domain_resolver'' =
     (if has_name_address s then opt_filter (\<lambda>r. r \<noteq> ds_tag s) resolver else None)"
  by (cases "ds_kind s"; cases resolver)
     (simp_all add: tag_of_def get_str_def server_entry_fields obj_get_put_fields server_fields_def
      remote_fields_def obj_get_mk_fields has_name_address_def)

lemma server_entry_detour:
  "get_str (server_entry resolver s) ''detour'' =
     (if is_remote (ds_kind s) then opt_filter (\<lambda>d. d \<noteq> []) (ds_detour s) else None)"
  by (cases "ds_kind s"; cases "ds_detour s")
     (simp_all add: tag_of_def get_str_def server_entry_fields obj_get_put_fields server_fields_def
      remote_fields_def obj_get_mk_fields)

lemma dns_rule_entry_server [simp]: "get_str (dns_rule_entry r) ''server'' = Some (dr_server r)"
  unfolding dns_rule_entry_def put_fields_def [symmetric]
  by (simp add: get_str_def obj_get_put_fields obj_get_mk_fields)

lemma dns_section_servers [simp]:
  "elements (dns_section spec) ''servers'' = map (server_entry (dc_domain_resolver spec)) (dc_servers spec)"
  unfolding dns_section_def put_fields_def [symmetric]
  by (simp add: elements_def get_array_def obj_get_put_fields obj_get_mk_fields)

lemma dns_section_rules [simp]: "elements (dns_section spec) ''rules'' = map dns_rule_entry (dc_rules spec)"
  unfolding dns_section_def put_fields_def [symmetric]
  by (simp add: elements_def get_array_def obj_get_put_fields obj_get_mk_fields)

lemma dns_section_final [simp]: "get_str (dns_section spec) ''final'' = dc_final_server spec"
  unfolding dns_section_def put_fields_def [symmetric]
  by (cases "dc_final_server spec") (simp_all add: get_str_def obj_get_put_fields obj_get_mk_fields)

lemma validate_dns_facts:
  assumes "validate_dns spec = Inr ()"
  shows "distinct (map ds_tag (dc_servers spec))"
    "\<And>r. dc_domain_resolver spec = Some r \<Longrightarrow> \<exists>s \<in> set (dc_servers spec). ds_tag s = r \<and> ds_kind s \<noteq> DnsFakeip"
    "\<And>t. dc_final_server spec = Some t \<Longrightarrow> \<exists>s \<in> set (dc_servers spec). ds_tag s = t \<and> ds_kind s \<noteq> DnsFakeip"
    "\<And>r. r \<in> set (dc_rules spec) \<Longrightarrow> dr_server r \<in> ds_tag ` set (dc_servers spec)"
  using assms check_servers_Inr
  by (auto simp: validate_dns_def check_resolver_def check_final_def check_dns_rule_def find_server_def find_Some_iff
      split: option.split_asm)

lemma validated_final: "validated_spec env dns st tag spec \<Longrightarrow> \<not> spec_is_empty spec"
proof -
  assume v: "validated_spec env dns st tag spec"
  then have "select_final (final_state dns st) (filter_map (upstream_tag env) (nameserver_entries dns)) = Some tag"
    by (simp add: validated_spec_def)
  from select_final_props(2) [OF this] validated_spec_servers(1) [OF v] show ?thesis
    by (auto simp: spec_is_empty_def)
qed

lemma convert_dns_block_Some:
  assumes "convert_dns_block env dns = Inr rep" "dcr_spec rep = Some spec"
  obtains st tag where "validated_spec env dns st tag spec" "validate_dns spec = Inr ()"
  using assms by (cases rule: convert_dns_block_cases [of env dns]) auto

lemma dns_conversion_Some:
  assumes "dns_conversion_of_doc env doc = Inr rep" "dcr_spec rep = Some spec"
  obtains root v dns where "y_map doc = Some root" "ymap_get root ''dns'' = Some v" "y_map v = Some dns"
    "convert_dns_block env dns = Inr rep"
  using assms by (auto simp: dns_conversion_of_doc_def split: option.split_asm if_split_asm)

section \<open>Properties\<close>

text \<open>The default server of the section is one of the profile's own nameservers.\<close>

definition default_is_upstream :: "dns_env \<Rightarrow> ymapping \<Rightarrow> dns_config_spec \<Rightarrow> bool" where
  "default_is_upstream env dns spec \<longleftrightarrow>
     (\<exists>tag. dc_final_server spec = Some tag \<and>
        tag \<in> set (filter_map (upstream_tag env) (nameserver_entries dns)) \<and>
        (\<exists>s \<in> set (dc_servers spec). ds_tag s = tag \<and> ds_kind s \<noteq> DnsFakeip \<and>
           (is_remote (ds_kind s) \<or>
             \<not> (\<exists>u \<in> set (filter_map (upstream_tag env) (nameserver_entries dns)).
                  \<exists>s' \<in> set (dc_servers spec). ds_tag s' = u \<and> is_remote (ds_kind s')))))"

text \<open>When a profile's DNS block is converted, unmatched queries go to one of the servers its own nameserver
  list names, never to a mere bootstrap entry or to the fake-IP pool, and to a remote one whenever one survived.\<close>

theorem converted_default_is_upstream:
  assumes "convert_dns_block env dns = Inr rep" "dcr_spec rep = Some spec"
  shows "default_is_upstream env dns spec"
proof -
  obtain st tag where v: "validated_spec env dns st tag spec"
    using convert_dns_block_Some [OF assms] .
  then have sel: "select_final (final_state dns st) (filter_map (upstream_tag env) (nameserver_entries dns)) = Some tag"
    by (simp add: validated_spec_def)
  note p = select_final_props [OF sel, folded validated_spec_servers(1) [OF v]]
  show ?thesis
  proof (cases "\<exists>u \<in> set (filter_map (upstream_tag env) (nameserver_entries dns)).
      \<exists>s' \<in> set (dc_servers spec). ds_tag s' = u \<and> is_remote (ds_kind s')")
    case True
    from p(3) [OF True] obtain s where "s \<in> set (dc_servers spec)" "ds_tag s = tag" "is_remote (ds_kind s)" by blast
    then have "s \<in> set (dc_servers spec) \<and> ds_tag s = tag \<and> ds_kind s \<noteq> DnsFakeip \<and> is_remote (ds_kind s)" by auto
    then show ?thesis
      unfolding default_is_upstream_def using p(1) validated_spec_servers(4) [OF v] by blast
  next
    case False
    then show ?thesis
      unfolding default_is_upstream_def using p(1,2) validated_spec_servers(4) [OF v] by blast
  qed
qed

text \<open>A profile with a plain bootstrap server and an upstream reached by name.\<close>

definition sample_url :: url where
  "sample_url = \<lparr>url_scheme = ''udp'', url_username = [], url_password = None, url_host = Some ''dns.test'',
     url_port = None, url_path = [], url_query = None\<rparr>"

definition sample_dns :: ymapping where
  "sample_dns = [(YStr ''default-nameserver'', YSeq [YStr ''1.1.1.1'']), (YStr ''nameserver'', YSeq [YStr ''dns.test''])]"

definition sample_dns_env :: dns_env where
  "sample_dns_env = \<lparr>de_yaml = (\<lambda>_. Some (YMap [(YStr ''dns'', YMap sample_dns)])), de_url = (\<lambda>_. Some sample_url),
     de_hash = (\<lambda>key. of_nat (length key))\<rparr>"

definition sample_bootstrap :: dns_server_spec where
  "sample_bootstrap = (plain_server ''profile-dns-0000000000000014'' DnsUdp)\<lparr>ds_server := Some ''1.1.1.1''\<rparr>"

definition sample_upstream :: dns_server_spec where
  "sample_upstream = (plain_server ''profile-dns-0000000000000015'' DnsUdp)\<lparr>ds_server := Some ''dns.test''\<rparr>"

lemma sample_trims: "trim ''1.1.1.1'' = ''1.1.1.1''" "trim ''dns.test'' = ''dns.test''"
  by (rule trim_id_ends; simp add: ascii_ws_def unicode_ws_def)+

lemma sample_ips: "parse_ip ''1.1.1.1'' = Some (IpV4 1 1 1 1)" "parse_ip ''dns.test'' = None" "show_ip (IpV4 1 1 1 1) = ''1.1.1.1''"
  by (simp_all add: ip_eval ip_show_eval)

definition sample_spec :: dns_config_spec where
  "sample_spec = \<lparr>dc_servers = [sample_bootstrap, sample_upstream], dc_rules = [],
     dc_domain_resolver = Some ''profile-dns-0000000000000014'',
     dc_final_server = Some ''profile-dns-0000000000000015''\<rparr>"

lemma sample_bootstrap_key: "server_key ((plain_server [] DnsUdp)\<lparr>ds_server := Some ''1.1.1.1'', ds_port := None\<rparr>) = ''udp|1.1.1.1|0||false''"
  by (simp add: server_key_def show_u16_def show_nat.simps digit_char_def show_flag_def)

lemma sample_upstream_key: "server_key ((plain_server [] DnsUdp)\<lparr>ds_server := Some ''dns.test'', ds_port := None, ds_path := None, ds_tls_insecure := None\<rparr>) = ''udp|dns.test|0||false''"
  by (simp add: server_key_def show_u16_def show_nat.simps digit_char_def show_flag_def)

lemmas hex_digits_numeral = hex_digits.simps(2) [where k = "pred_numeral k" for k, folded numeral_eq_Suc]

lemma sample_tags:
  "endpoint_tag sample_dns_env ''udp|1.1.1.1|0||false'' = ''profile-dns-0000000000000014''"
  "endpoint_tag sample_dns_env ''udp|dns.test|0||false'' = ''profile-dns-0000000000000015''"
  by (simp_all add: endpoint_tag_def sample_dns_env_def hex_digits_numeral hex_char_def)

lemma sample_entries:
  "present sample_dns ''default-nameserver'' = Some (YSeq [YStr ''1.1.1.1''])"
  "present sample_dns ''nameserver'' = Some (YSeq [YStr ''dns.test''])"
  "present sample_dns ''nameserver-policy'' = None" "ymap_str sample_dns ''enhanced-mode'' = None"
  by (simp_all add: present_def sample_dns_def ymap_get_def y_is_null_def ymap_str_def)

lemma sample_host: "split_host_port ''1.1.1.1'' = (''1.1.1.1'', None)"
  unfolding split_host_port_def sample_ips(1) option.case sample_ips(3) by (rule refl)

lemma sample_looks: "looks_like_ip ''1.1.1.1''"
  unfolding looks_like_ip_def sample_ips(1) by (rule option.distinct(2))

definition sample_state :: "dns_server_spec list \<Rightarrow> (string \<Rightarrow> string option) \<Rightarrow> dns_note list \<Rightarrow> dns_conv" where
  "sample_state ss tags ns = \<lparr>dv_spec = \<lparr>dc_servers = ss, dc_rules = [],
     dc_domain_resolver = Some ''profile-dns-0000000000000014'', dc_final_server = None\<rparr>, dv_tags = tags, dv_notes = ns\<rparr>"

lemma sample_boot:
  "bootstrap_phase sample_dns_env sample_dns (empty_conv []) =
     Inr (sample_state [sample_bootstrap] [''udp|1.1.1.1|0||false'' \<mapsto> ''profile-dns-0000000000000014'']
       [BootstrapMapped 1 ''profile-dns-0000000000000014''], [''profile-dns-0000000000000014''])"
  using sample_tags sample_bootstrap_key
  by (simp add: bootstrap_phase_def sample_entries as_string_list_def add_bootstrap_def add_bootstrap_server_def
     sample_trims is_system_def sample_host sample_looks register_server_def Let_def
     empty_conv_def empty_dns_def add_system_bootstrap_def default_resolver_def sample_state_def push_server_def
     add_notes_def sample_bootstrap_def plain_server_def)

lemma sample_names:
  "tags ''udp|dns.test|0||false'' = None \<Longrightarrow>
   nameserver_phase sample_dns_env sample_dns (sample_state [sample_bootstrap] tags ns) =
     Inr (sample_state [sample_bootstrap, sample_upstream]
       (tags(''udp|dns.test|0||false'' \<mapsto> ''profile-dns-0000000000000015'')) ns, [''profile-dns-0000000000000015''])"
proof -
  have p: "parse_clash_dns_endpoint sample_dns_env ''dns.test'' = ([], Some (ServerEndpoint
     ((plain_server [] DnsUdp)\<lparr>ds_server := Some ''dns.test'', ds_port := None, ds_path := None, ds_tls_insecure := None\<rparr>)))"
    by (simp add: parse_clash_dns_endpoint_def sample_trims is_system_def Let_def endpoint_options_def sample_ips
      sample_dns_env_def url_endpoint_def sample_url_def scheme_kind_def endpoint_path_def split: prod.splits)
  assume "tags ''udp|dns.test|0||false'' = None"
  then show ?thesis
    using sample_tags sample_upstream_key
    by (simp add: nameserver_phase_def sample_entries as_string_list_def add_upstream_def add_clash_dns_endpoint_def p
      register_server_def Let_def sample_state_def push_server_def add_notes_def sample_upstream_def plain_server_def)
qed

lemma sample_report: "field_report sample_dns = Inr []"
  by (simp add: field_report_def check_bool_def check_str_def hosts_note_def filter_notes_def dropped_if_present_def
     present_def sample_dns_def ymap_get_def ymap_bool_def ymap_str_def known_dns_fields_def y_is_null_def)

lemma sample_resolver: "resolver_phase (sample_state ss tags ns) = sample_state ss tags ns"
  by (simp add: resolver_phase_def sample_state_def)

lemma sample_mode: "mode_phase sample_dns (sample_state ss tags ns) = sample_state ss tags ns"
  by (simp add: mode_phase_def sample_entries add_notes_def sample_state_def) (simp add: sample_dns_def)

lemma sample_valid: "validate_dns sample_spec = Inr ()"
  by (simp add: sample_bootstrap_def sample_upstream_def sample_spec_def validate_dns_def
     check_server_def check_resolver_def check_final_def find_server_def)

lemma sample_final:
  "(dv_spec (sample_state [sample_bootstrap, sample_upstream] tags ns))
     \<lparr>dc_final_server := Some ''profile-dns-0000000000000015''\<rparr> = sample_spec"
  "select_final (dv_spec (sample_state [sample_bootstrap, sample_upstream] tags ns)) [''profile-dns-0000000000000015'']
     = Some ''profile-dns-0000000000000015''"
  "dv_notes (sample_state ss tags ns) = ns"
  by (simp_all add: sample_state_def sample_spec_def select_final_def sample_bootstrap_def sample_upstream_def)

lemma sample_converts:
  "convert_dns_block sample_dns_env sample_dns =
     Inr \<lparr>dcr_spec = Some sample_spec, dcr_notes = [BootstrapMapped 1 ''profile-dns-0000000000000014'']\<rparr>"
  by (simp add: convert_dns_block_def sample_report sample_boot sample_names policy_phase_def sample_entries
    sample_mode sample_resolver finish_conversion_def Let_def sample_final sample_valid del: One_nat_def)

theorem converted_default_is_upstream_witness: "default_is_upstream sample_dns_env sample_dns sample_spec"
  using converted_default_is_upstream [OF sample_converts] by simp

text \<open>A server entry of the section that can be reached without asking another server.\<close>

definition entry_self_contained :: "json \<Rightarrow> bool" where
  "entry_self_contained e \<longleftrightarrow>
     get_str e ''type'' = Some ''local'' \<or>
     get_str e ''type'' = Some ''udp'' \<and> is_some_and (get_str e ''server'') looks_like_ip"

definition entry_bootstrapped :: "json list \<Rightarrow> json \<Rightarrow> bool" where
  "entry_bootstrapped entries e \<longleftrightarrow>
     (\<forall>a. get_str e ''server'' = Some a \<and> \<not> looks_like_ip a \<longrightarrow>
        (\<exists>b \<in> set entries. get_str e ''domain_resolver'' = tag_of b \<and> tag_of b \<noteq> None \<and> entry_self_contained b))"

lemma entry_self_contained_server: "self_contained s \<Longrightarrow> entry_self_contained (server_entry resolver s)"
  by (cases "ds_server s") (auto simp: entry_self_contained_def self_contained_def server_entry_server)

text \<open>C9: The section built from a converted profile starts without a resolution cycle: every server addressed by a
  host name carries a domain_resolver, and that resolver is the system resolver or a plain server addressed by an
  IP literal.\<close>

theorem converted_servers_bootstrapped:
  assumes "convert_dns_block env dns = Inr rep" "dcr_spec rep = Some spec"
  shows "build_dns_section spec = Inr (Some (dns_section spec)) \<and>
    (\<forall>e \<in> set (elements (dns_section spec) ''servers''). entry_bootstrapped (elements (dns_section spec) ''servers'') e)"
proof -
  obtain st tag where v: "validated_spec env dns st tag spec" and ok: "validate_dns spec = Inr ()"
    using convert_dns_block_Some [OF assms] .
  have build: "build_dns_section spec = Inr (Some (dns_section spec))"
    using validated_final [OF v] ok by (simp add: build_dns_section_def)
  note sp = validated_spec_servers [OF v]
  have "entry_bootstrapped (map (server_entry (dc_domain_resolver spec)) (dc_servers spec)) (server_entry (dc_domain_resolver spec) s)"
    if s: "s \<in> set (dc_servers spec)" for s
  proof (cases "has_name_address s")
    case True
    with s obtain r where r: "dc_domain_resolver spec = Some r"
      using final_state_named [of s dns st] sp(1,3) by auto
    then obtain b where b: "b \<in> set (dc_servers spec)" "ds_tag b = r" "self_contained b"
      using final_state_resolver [OF sp(5), of dns r] sp(1,3) by auto
    have "r \<noteq> ds_tag s"
    proof
      assume "r = ds_tag s"
      then have "b = s" using validate_dns_facts(1) [OF ok] s b by (metis distinct_map inj_onD)
      with b(3) True show False by (auto simp: self_contained_def has_name_address_def is_some_and_iff)
    qed
    then have "get_str (server_entry (dc_domain_resolver spec) s) ''domain_resolver'' = Some (ds_tag b)"
      using True r b(2) by (simp add: server_entry_resolver)
    with b entry_self_contained_server [of b "dc_domain_resolver spec"] show ?thesis
      by (auto simp: entry_bootstrapped_def)
  next
    case False
    have "registered env s \<Longrightarrow> ds_server s \<noteq> None" by (simp add: registered_def endpoint_ok_def)
    with final_state_server_cases [OF sp(5), of s dns] s False sp(1) show ?thesis
      by (auto simp: entry_bootstrapped_def server_entry_server has_name_address_def is_some_and_iff)
  qed
  with build show ?thesis by auto
qed

theorem converted_servers_bootstrapped_witness:
  "entry_bootstrapped (elements (dns_section sample_spec) ''servers'')
     (server_entry (Some ''profile-dns-0000000000000014'') sample_upstream)"
  using converted_servers_bootstrapped [OF sample_converts] by (simp add: sample_spec_def)

text \<open>The conversion fails only when the shape of the profile is wrong, or its own result is rejected for one of three
  reasons: two endpoints with the same hash, an endpoint without an address, and the option
  skip-cert-verify on a server that does not use TLS. No other entry of a profile makes it fail.\<close>

theorem dns_conversion_failures:
  assumes "dns_conversion_from_clash_yaml env doc_text = Inl e"
  shows "structural e \<or>
    (\<exists>t k1 k2. e = SpecInvalid (BadServerTag t) \<and> k1 \<noteq> k2 \<and> de_hash env k1 = de_hash env k2) \<or>
    (\<exists>t. e = SpecInvalid (AddressRequired t)) \<or> (\<exists>t. e = SpecInvalid (InsecureNotSupported t))"
proof (cases "structural e")
  case False
  then obtain dns where "convert_dns_block env dns = Inl e"
    using assms
    by (auto simp: dns_conversion_from_clash_yaml_def dns_conversion_of_doc_def rbind_Inl_iff structural_def check_bool_def
        split: option.split_asm if_split_asm)
  then obtain st tag spec e' where "e = SpecInvalid e'" "validated_spec env dns st tag spec" "validate_dns spec = Inl e'"
    using False by (cases rule: convert_dns_block_cases [of env dns]) auto
  then show ?thesis using validation_failure [of env dns st tag spec e'] by blast
qed simp

theorem dns_conversion_failures_witness:
  "dns_conversion_from_clash_yaml (sample_dns_env\<lparr>de_yaml := \<lambda>_. Some YNull\<rparr>) [] = Inl RootNotMapping \<and> structural RootNotMapping"
proof -
  have fails: "dns_conversion_from_clash_yaml (sample_dns_env\<lparr>de_yaml := \<lambda>_. Some YNull\<rparr>) [] = Inl RootNotMapping"
    by (simp add: dns_conversion_from_clash_yaml_def dns_conversion_of_doc_def)
  show ?thesis using dns_conversion_failures [OF fails] fails by simp
qed

section \<open>An option that makes the conversion fail\<close>

definition insecure_dns :: ymapping where
  "insecure_dns = [(YStr ''nameserver'', YSeq [YStr ''udp://1.1.1.1#skip-cert-verify=1''])]"

definition udp_url :: url where
  "udp_url = \<lparr>url_scheme = ''udp'', url_username = [], url_password = None, url_host = Some ''1.1.1.1'',
     url_port = None, url_path = [], url_query = None\<rparr>"

lemma insecure_trims:
  "trim ''udp://1.1.1.1#skip-cert-verify=1'' = ''udp://1.1.1.1#skip-cert-verify=1''"
  "trim ''skip-cert-verify=1'' = ''skip-cert-verify=1''" "trim ''skip-cert-verify'' = ''skip-cert-verify''" "trim ''1'' = ''1''"
  by (rule trim_id_ends; simp add: ascii_ws_def unicode_ws_def)+

lemma insecure_endpoint:
  assumes "de_url env ''udp://1.1.1.1'' = Some udp_url"
  shows "\<exists>ns. parse_clash_dns_endpoint env ''udp://1.1.1.1#skip-cert-verify=1'' =
    (ns, Some (ServerEndpoint ((plain_server [] DnsUdp)\<lparr>ds_server := Some ''1.1.1.1'', ds_port := None, ds_path := None,
       ds_tls_insecure := Some True\<rparr>)))"
proof -
  have ip: "parse_ip ''udp://1.1.1.1'' = None" by (simp add: ip_eval)
  have opts: "endpoint_options host ''skip-cert-verify=1'' = (False, True, [InsecureMapped host])" for host
    by (simp add: endpoint_options_def endpoint_option_def insecure_trims is_truthy_def ascii_case_eval)
  show ?thesis
    by (simp add: parse_clash_dns_endpoint_def insecure_trims is_system_def Let_def opts ip assms url_endpoint_def
        udp_url_def scheme_kind_def endpoint_path_def str_contains_def)
qed

text \<open>A plain UDP nameserver with the option skip-cert-verify is not reported and dropped like other options the
  model cannot express: it makes the conversion of the whole profile fail.\<close>

theorem insecure_udp_nameserver_fails:
  assumes "de_url env ''udp://1.1.1.1'' = Some udp_url"
  shows "\<exists>t. convert_dns_block env insecure_dns = Inl (SpecInvalid (InsecureNotSupported t))"
proof -
  let ?s = "(plain_server [] DnsUdp)\<lparr>ds_server := Some ''1.1.1.1'', ds_port := None, ds_path := None,
       ds_tls_insecure := Some True\<rparr>"
  obtain ns where p: "parse_clash_dns_endpoint env ''udp://1.1.1.1#skip-cert-verify=1'' = (ns, Some (ServerEndpoint ?s))"
    using insecure_endpoint [OF assms] by blast
  define t where "t = endpoint_tag env (server_key ?s)"
  have t: "t \<noteq> []" by (simp add: t_def)
  have entries: "present insecure_dns ''default-nameserver'' = None" "present insecure_dns ''nameserver-policy'' = None"
    "present insecure_dns ''nameserver'' = Some (YSeq [YStr ''udp://1.1.1.1#skip-cert-verify=1''])"
    "ymap_str insecure_dns ''enhanced-mode'' = None"
    by (simp_all add: present_def insecure_dns_def ymap_get_def y_is_null_def ymap_str_def)
  have rep: "field_report insecure_dns = Inr []"
    by (simp add: field_report_def check_bool_def check_str_def hosts_note_def filter_notes_def dropped_if_present_def
       present_def insecure_dns_def ymap_get_def ymap_bool_def ymap_str_def known_dns_fields_def y_is_null_def)
  have boot: "bootstrap_phase env insecure_dns (empty_conv []) = Inr (empty_conv [], [])"
    by (simp add: bootstrap_phase_def entries)
  define st where "st = \<lparr>dv_spec = \<lparr>dc_servers = [?s\<lparr>ds_tag := t\<rparr>], dc_rules = [], dc_domain_resolver = None,
       dc_final_server = None\<rparr>, dv_tags = [server_key ?s \<mapsto> t], dv_notes = ns\<rparr>"
  have names: "nameserver_phase env insecure_dns (empty_conv []) = Inr (st, [t])"
    by (simp add: nameserver_phase_def entries as_string_list_def add_upstream_def add_clash_dns_endpoint_def p
      register_server_def Let_def push_server_def add_notes_def empty_conv_def empty_dns_def st_def t_def)
  have mode: "mode_phase insecure_dns st = st"
    by (simp add: mode_phase_def entries add_notes_def) (simp add: insecure_dns_def st_def)
  have looks: "looks_like_ip ''1.1.1.1''" by (rule sample_looks)
  have res: "resolver_phase st = st\<lparr>dv_spec := (dv_spec st)\<lparr>dc_domain_resolver := Some t\<rparr>\<rparr>"
    by (simp add: resolver_phase_def st_def first_ip_literal_server_def looks)
  have sel: "select_final (dv_spec (resolver_phase st)) [t] = Some t"
    by (simp add: res select_final_def) (simp add: st_def)
  have "validate_dns ((dv_spec (resolver_phase st))\<lparr>dc_final_server := Some t\<rparr>) = Inl (InsecureNotSupported t)"
    unfolding res using t by (simp add: st_def validate_dns_def check_server_def is_tls_def)
  then show ?thesis
    by (simp add: convert_dns_block_def rep boot names policy_phase_def entries mode Let_def finish_conversion_def sel)
qed

theorem insecure_udp_nameserver_fails_witness:
  "\<exists>t. convert_dns_block (sample_dns_env\<lparr>de_url := \<lambda>_. Some udp_url\<rparr>) insecure_dns =
     Inl (SpecInvalid (InsecureNotSupported t))"
  by (rule insecure_udp_nameserver_fails) simp

text \<open>A policy key becomes exactly one matcher, never a wider one: +. a domain suffix, keyword: a keyword, each
  with its trimmed non-empty value; every other key is dropped.\<close>

theorem policy_pattern_exact:
  "parse_clash_dns_policy_pattern pattern = Some (field, v) \<longleftrightarrow>
     v \<noteq> [] \<and> (\<exists>rest. v = trim rest \<and>
       (pattern = ''+.'' @ rest \<and> field = DomainSuffixField \<or> pattern = ''keyword:'' @ rest \<and> field = DomainKeywordField))"
proof -
  have plus: "strip_prefix ''+.'' pattern = (if \<exists>r. pattern = ''+.'' @ r then Some (drop 2 pattern) else None)"
    by (cases "strip_prefix ''+.'' pattern") (auto simp: strip_prefix_None_iff prefix_def)
  have dom: "strip_prefix ''domain:'' pattern = (if \<exists>r. pattern = ''domain:'' @ r then Some (drop 7 pattern) else None)"
    by (cases "strip_prefix ''domain:'' pattern") (auto simp: strip_prefix_None_iff prefix_def)
  have key: "strip_prefix ''keyword:'' pattern = (if \<exists>r. pattern = ''keyword:'' @ r then Some (drop 8 pattern) else None)"
    by (cases "strip_prefix ''keyword:'' pattern") (auto simp: strip_prefix_None_iff prefix_def)
  have ip: "strip_prefix ''ipcidr:'' pattern = (if \<exists>r. pattern = ''ipcidr:'' @ r then Some (drop 7 pattern) else None)"
    by (cases "strip_prefix ''ipcidr:'' pattern") (auto simp: strip_prefix_None_iff prefix_def)
  show ?thesis
    unfolding parse_clash_dns_policy_pattern_def policy_value_def
    by (auto simp: plus dom key ip policy_value_def split: if_splits)
qed

end
