(* ===== verification/Assemble.thy ===== *)
theory Assemble
  imports Config_Gen Rule_Order Dns
begin

text \<open>
  The assembly of one sing-box runtime config
  (\<open>src-tui/src/mihomo_manager/manager.rs\<close>: \<open>profile_tun_settings\<close>, \<open>profile_route_rules\<close>,
  \<open>convert_one_rule\<close>, \<open>merge_rule_sets\<close>, \<open>SingboxParts::assemble\<close>, \<open>apply_native_sidecars\<close> and
  the document part of \<open>write_singbox_assembled_to\<close>): profile conversion, stored rule order, DNS and
  generation composed the way the manager composes them. The properties say that the rules of a
  profile reach the config in order, that none of them refers to an outbound or rule-set that does
  not exist, and that a document written to disk passed all its guards.
\<close>

section \<open>Rules of a profile\<close>

datatype rule_skip =
    MatchWithoutTarget
  | MatchTargetMissing string
  | UnsupportedSyntax "string list"
  | RuleSetNotAvailable string
  | KindNotRepresentable string
  | TargetMissing string
  | UnknownSet string

datatype route_note =
    ProviderNote provider_skip
  | ModifiersDropped string "string list"
  | RuleSkipped nat rule_skip

record route_conversion =
  pr_rules :: "json list"
  pr_slots :: "nat option list"
  pr_rule_sets :: "json list"
  pr_skipped :: "route_note list"

datatype dns_store_error =
    DnsNotParsed
  | DnsInvalid dns_spec_error
  | StoredResolverUnknown string
  | DnsNotWritten store_error

datatype assemble_error =
    AssembleYaml
  | RulesNotList
  | RuleNotString nat
  | AssembleProfile profile_error
  | ConversionDiverged
  | AssembleStore store_error
  | AssembleDns dns_error
  | AssembleDnsSpec dns_spec_error
  | AssembleStoredDns dns_store_error
  | HomeUnknown
  | StackNotString
  | MtuNotUnsigned
  | MtuTooLarge
  | AssembleGen gen_error
  | AssembleSecurity security_error
  | NativeNotJson
  | NativeNotObject
  | RouteNotObject

text \<open>The rule-sets a converted rule needs that are not known yet; the loop stops at an unknown one.\<close>

fun materialize_sets :: "string set \<Rightarrow> string list \<Rightarrow> json list \<Rightarrow> (unit, rule_skip) result \<times> json list" where
  "materialize_sets known [] sets = (Inr (), sets)"
| "materialize_sets known (tag # tags) sets =
     (if tag \<in> known then materialize_sets known tags sets
      else case geo_rule_set tag of
        None \<Rightarrow> (Inl (UnknownSet tag), sets)
      | Some s \<Rightarrow> materialize_sets known tags (sets @ [s]))"

text \<open>\<open>matches!(field, RuleSet(tag) if !known.contains(tag) && geo_rule_set(tag).is_none())\<close>\<close>

definition unresolvable_field :: "string set \<Rightarrow> match_field \<Rightarrow> bool" where
  "unresolvable_field known field \<longleftrightarrow>
     is_some_and (field_rule_set field) (\<lambda>tag. tag \<notin> known \<and> geo_rule_set tag = None)"

definition simple_matches :: "route_rule \<Rightarrow> match_field list" where
  "simple_matches r = (case r of Simple ms _ \<Rightarrow> ms | _ \<Rightarrow> [])"

definition with_outbound :: "string \<Rightarrow> json \<Rightarrow> json" where
  "with_outbound tag rule = (case rule of JObj m \<Rightarrow> JObj (obj_put ''outbound'' (JStr tag) m) | v \<Rightarrow> v)"

definition note_modifiers :: "string \<Rightarrow> string list \<Rightarrow> route_conversion \<Rightarrow> route_conversion" where
  "note_modifiers rule modifiers out =
     (if modifiers = [] then out else out\<lparr>pr_skipped := pr_skipped out @ [ModifiersDropped rule modifiers]\<rparr>)"

definition push_route_rule :: "json \<Rightarrow> route_conversion \<Rightarrow> route_conversion" where
  "push_route_rule r out = out\<lparr>pr_rules := pr_rules out @ [r]\<rparr>"

definition convert_match_rule ::
  "string list \<Rightarrow> string set \<Rightarrow> route_conversion \<Rightarrow> (unit, rule_skip) result \<times> route_conversion" where
  "convert_match_rule parts known_outbounds out =
     (if length parts < 2 then (Inl MatchWithoutTarget, out)
      else
        (let target = parts ! 1; tag = normalize_policy_tag target
         in if tag \<notin> known_outbounds then (Inl (MatchTargetMissing target), out)
            else (Inr (), push_route_rule (mk_obj [(''outbound'', JStr tag)]) out)))"

definition convert_one_rule ::
  "string \<Rightarrow> string set \<Rightarrow> string set \<Rightarrow> route_conversion \<Rightarrow> (unit, rule_skip) result \<times> route_conversion" where
  "convert_one_rule rule known_outbounds known_sets out0 =
     (let (parts, modifiers) = split_clash_rule rule;
          out = note_modifiers rule modifiers out0
      in if parts \<noteq> [] \<and> hd parts = ''MATCH'' then convert_match_rule parts known_outbounds out
         else if length parts \<noteq> 3 then (Inl (UnsupportedSyntax parts), out)
         else
           (let target = parts ! 2; model = from_clash_rule_str rule
            in if \<exists>field \<in> set (simple_matches model). unresolvable_field known_sets field then
                 (Inl (RuleSetNotAvailable rule), out)
               else case to_singbox_json model of
                 None \<Rightarrow> (Inl (KindNotRepresentable (parts ! 0)), out)
               | Some converted \<Rightarrow>
                   (let tag = normalize_policy_tag target
                    in if tag \<notin> known_outbounds then (Inl (TargetMissing target), out)
                       else
                         (case materialize_sets known_sets (filter_map as_str (elements converted ''rule_set''))
                                 (pr_rule_sets out) of
                            (Inl e, sets) \<Rightarrow> (Inl e, out\<lparr>pr_rule_sets := sets\<rparr>)
                          | (Inr u, sets) \<Rightarrow>
                              (Inr (), push_route_rule (with_outbound tag converted) (out\<lparr>pr_rule_sets := sets\<rparr>))))))"

fun convert_profile_rules ::
  "nat \<Rightarrow> yaml list \<Rightarrow> string set \<Rightarrow> string set \<Rightarrow> route_conversion \<Rightarrow> (route_conversion, assemble_error) result"
where
  "convert_profile_rules index [] known_outbounds known_sets out = Inr out"
| "convert_profile_rules index (rule # rules) known_outbounds known_sets out =
     rbind (ok_or (y_str rule) (RuleNotString index)) (\<lambda>r.
       case convert_one_rule r known_outbounds known_sets out of
         (Inr u, out') \<Rightarrow>
           convert_profile_rules (Suc index) rules known_outbounds known_sets
             (out'\<lparr>pr_slots := (pr_slots out')[index := Some (length (pr_rules out') - 1)]\<rparr>)
       | (Inl reason, out') \<Rightarrow>
           convert_profile_rules (Suc index) rules known_outbounds known_sets
             (out'\<lparr>pr_skipped := pr_skipped out' @ [RuleSkipped index reason]\<rparr>))"

definition provider_tags :: "json list \<Rightarrow> string set" where
  "provider_tags sets = set (filter_map tag_of sets)"

definition profile_route_rules_of_doc ::
  "yaml \<Rightarrow> string set \<Rightarrow> string set \<Rightarrow> (route_conversion, assemble_error) result" where
  "profile_route_rules_of_doc doc known_outbounds known_sets =
     (let providers = rule_providers_of_doc doc;
          out = \<lparr>pr_rules = [], pr_slots = [], pr_rule_sets = rp_rule_sets providers,
                 pr_skipped = map ProviderNote (rp_skipped providers)\<rparr>;
          available = known_sets \<union> provider_tags (rp_rule_sets providers)
      in case y_get doc ''rules'' of
           None \<Rightarrow> Inr out
         | Some v \<Rightarrow>
             rbind (ok_or (y_seq v) RulesNotList) (\<lambda>rules.
               convert_profile_rules 0 rules known_outbounds available
                 (out\<lparr>pr_slots := replicate (length rules) None\<rparr>)))"

definition profile_route_rules ::
  "(string \<Rightarrow> yaml option) \<Rightarrow> string \<Rightarrow> string set \<Rightarrow> string set \<Rightarrow> (route_conversion, assemble_error) result" where
  "profile_route_rules parse doc_text known_outbounds known_sets =
     rbind (ok_or (parse doc_text) AssembleYaml) (\<lambda>doc. profile_route_rules_of_doc doc known_outbounds known_sets)"

section \<open>Merging rule-sets\<close>

fun merge_generated :: "string set \<Rightarrow> json list \<Rightarrow> json list \<Rightarrow> json list" where
  "merge_generated tags merged [] = merged"
| "merge_generated tags merged (s # sets) =
     (case tag_of s of
        None \<Rightarrow> merge_generated tags merged sets
      | Some tag \<Rightarrow>
          if tag \<in> tags then merge_generated tags merged sets
          else merge_generated (insert tag tags) (merged @ [s]) sets)"

definition merge_rule_sets :: "json list \<Rightarrow> json list \<Rightarrow> json list" where
  "merge_rule_sets stored generated = merge_generated (set (filter_map tag_of stored)) stored generated"

section \<open>TUN settings\<close>

text \<open>\<open>profile\<close> is the profile read as a mapping; reading it is the YAML library's.\<close>

definition native_tun :: "ymapping \<Rightarrow> yaml option" where
  "native_tun m =
     Option.bind (Option.bind (ymap_get m ''inbounds'') y_seq)
       (\<lambda>inbounds. find (\<lambda>i. Option.bind (y_get i ''type'') y_str = Some ''tun'') inbounds)"

definition tun_source :: "ymapping option \<Rightarrow> ymapping \<Rightarrow> yaml option" where
  "tun_source profile base =
     or_else (Option.bind profile native_tun)
       (or_else (Option.bind profile (\<lambda>m. ymap_get m ''tun'')) (ymap_get base ''tun''))"

definition profile_tun_settings ::
  "(string \<Rightarrow> ymapping option) \<Rightarrow> string option \<Rightarrow> ymapping \<Rightarrow> (tun_settings, assemble_error) result" where
  "profile_tun_settings as_mapping doc_text base =
     rbind (case doc_text of
              None \<Rightarrow> Inr None
            | Some t \<Rightarrow> rbind (ok_or (as_mapping t) AssembleYaml) (\<lambda>m. Inr (Some m))) (\<lambda>profile.
     (let tun = tun_source profile base in
     rbind (case Option.bind tun (\<lambda>t. y_get t ''stack'') of
              None \<Rightarrow> Inr ''gvisor''
            | Some s \<Rightarrow> ok_or (y_str s) StackNotString) (\<lambda>stack.
     rbind (map_err AssembleGen (validate_tun_stack stack)) (\<lambda>_.
     rbind (case Option.bind tun (\<lambda>t. y_get t ''mtu'') of
              None \<Rightarrow> Inr 9000
            | Some v \<Rightarrow> ok_or (y_u64 v) MtuNotUnsigned) (\<lambda>mtu.
     rbind (guard (mtu < 65536) MtuTooLarge) (\<lambda>_.
       Inr \<lparr>ts_stack = stack, ts_mtu = of_nat mtu\<rparr>))))))"

section \<open>Stored DNS settings\<close>

definition dns_config_file :: string where "dns_config_file = ''singbox-dns.json''"

text \<open>The code the assembly does not contain: YAML (also read as a mapping), JSON text, URLs and the hasher, the
  derived serialisation of the DNS settings, and the environment of the generator.\<close>

record assemble_env =
  ae_dns :: dns_env
  ae_mapping :: "string \<Rightarrow> ymapping option"
  ae_io :: json_io
  ae_read_spec :: "json \<Rightarrow> dns_config_spec option"
  ae_show_spec :: "dns_config_spec \<Rightarrow> json"
  ae_gen :: gen_env

definition validate_dns_references :: "dns_config_spec \<Rightarrow> (unit, dns_store_error) result" where
  "validate_dns_references spec =
     rbind (map_err DnsInvalid (validate_dns spec)) (\<lambda>_.
       case dc_domain_resolver spec of
         None \<Rightarrow> Inr ()
       | Some r \<Rightarrow> guard (\<exists>s \<in> set (dc_servers spec). ds_tag s = r) (StoredResolverUnknown r))"

definition load_dns_spec :: "assemble_env \<Rightarrow> home \<Rightarrow> (dns_config_spec, dns_store_error) result" where
  "load_dns_spec env home =
     rbind (case home dns_config_file of
              None \<Rightarrow> Inr empty_dns
            | Some body \<Rightarrow> ok_or (Option.bind (io_parse (ae_io env) body) (ae_read_spec env)) DnsNotParsed) (\<lambda>spec.
     rbind (validate_dns_references spec) (\<lambda>_. Inr spec))"

definition save_dns_spec :: "assemble_env \<Rightarrow> home \<Rightarrow> dns_config_spec \<Rightarrow> (home, dns_store_error) result" where
  "save_dns_spec env home spec =
     rbind (validate_dns_references spec) (\<lambda>_.
       map_err DnsNotWritten
         (atomic_write (ae_io env) dns_config_file (io_print (ae_io env) (ae_show_spec env spec)) home))"

section \<open>The parts of a config\<close>

datatype assembly_note =
    ProfileNote conversion_note
  | RouteNote route_note
  | OrderNote drift_note
  | DnsConversionNote dns_note

record singbox_parts =
  sp_conversion :: profile_conversion
  sp_notes :: "assembly_note list"
  sp_profile_used :: bool
  sp_route_rules :: "json list"
  sp_rule_sets :: "json list"
  sp_dns_section :: "json option"
  sp_default_resolver :: "string option"

definition convert_used_profile ::
  "assemble_env \<Rightarrow> string option \<Rightarrow> (profile_conversion \<times> bool, assemble_error) result" where
  "convert_used_profile env doc_text =
     (case doc_text of
        None \<Rightarrow> Inr (empty_conversion, False)
      | Some y \<Rightarrow>
          rbind (map_err AssembleProfile (convert_profile (de_yaml (ae_dns env)) y)) (\<lambda>c.
          rbind (ok_or c ConversionDiverged) (\<lambda>conversion. Inr (conversion, True))))"

definition route_slots :: "route_conversion \<Rightarrow> json option list" where
  "route_slots routes = map (map_option (\<lambda>i. pr_rules routes ! i)) (pr_slots routes)"

definition ordered_rules ::
  "assemble_env \<Rightarrow> home option \<Rightarrow> string option \<Rightarrow> json option list
     \<Rightarrow> (json list \<times> drift_note option, assemble_error) result" where
  "ordered_rules env home doc_text slots =
     (case home of
        None \<Rightarrow> Inr (interleave_route_slots slots empty_order, None)
      | Some h \<Rightarrow>
          rbind (map_err AssembleStore (load_rule_order (ae_io env) h)) (\<lambda>stored.
            let profile_rules = Option.bind doc_text (\<lambda>y.
                  case load_profile_rules (de_yaml (ae_dns env)) y of Inl _ \<Rightarrow> None | Inr rs \<Rightarrow> Some rs);
                (order, drift) = (case profile_rules of
                    Some rs \<Rightarrow> resolve_profile_drift stored (profile_rule_fingerprint rs)
                  | None \<Rightarrow> (stored, None))
            in Inr (interleave_route_slots slots order, drift)))"

text \<open>A stored override wins over the profile's DNS and its notes; without one the profile's comes first.\<close>

definition select_dns ::
  "home option \<Rightarrow> dns_config_spec \<Rightarrow> dns_conversion_report \<Rightarrow> dns_config_spec \<times> dns_note list" where
  "select_dns home stored report =
     (if is_some_and home (\<lambda>h. h dns_config_file \<noteq> None) then (stored, [])
      else (unwrap_or (dcr_spec report) stored, dcr_notes report))"

definition empty_routes :: route_conversion where
  "empty_routes = \<lparr>pr_rules = [], pr_slots = [], pr_rule_sets = [], pr_skipped = []\<rparr>"

definition assemble_parts ::
  "assemble_env \<Rightarrow> home option \<Rightarrow> string option \<Rightarrow> (singbox_parts, assemble_error) result" where
  "assemble_parts env home doc_text =
     rbind (convert_used_profile env doc_text) (\<lambda>(conversion, used).
     rbind (case home of None \<Rightarrow> Inr [] | Some h \<Rightarrow> map_err AssembleStore (load_rule_sets (ae_io env) h)) (\<lambda>stored_sets.
     rbind (case doc_text of
              None \<Rightarrow> Inr empty_routes
            | Some y \<Rightarrow> profile_route_rules (de_yaml (ae_dns env)) y (outbound_tags conversion) (provider_tags stored_sets))
       (\<lambda>routes.
     rbind (ordered_rules env home doc_text (route_slots routes)) (\<lambda>(route_rules, drift).
     rbind (case home of None \<Rightarrow> Inr empty_dns | Some h \<Rightarrow> map_err AssembleStoredDns (load_dns_spec env h)) (\<lambda>stored_dns.
     rbind (case doc_text of
              None \<Rightarrow> Inr \<lparr>dcr_spec = None, dcr_notes = []\<rparr>
            | Some y \<Rightarrow> map_err AssembleDns (dns_conversion_from_clash_yaml (ae_dns env) y)) (\<lambda>report.
     (let (dns_spec, dns_notes) = select_dns home stored_dns report in
     rbind (map_err AssembleDnsSpec (build_dns_section dns_spec)) (\<lambda>section.
       Inr \<lparr>sp_conversion = conversion,
            sp_notes = map ProfileNote (pc_notes conversion) @ map RouteNote (pr_skipped routes) @
              (case drift of None \<Rightarrow> [] | Some n \<Rightarrow> [OrderNote n]) @ map DnsConversionNote dns_notes,
            sp_profile_used = used,
            sp_route_rules = route_rules,
            sp_rule_sets = merge_rule_sets stored_sets (pr_rule_sets routes),
            sp_dns_section = section,
            sp_default_resolver = default_domain_resolver dns_spec\<rparr>))))))))"

section \<open>Native documents\<close>

definition is_singbox_json_profile :: "json_io \<Rightarrow> string \<Rightarrow> bool" where
  "is_singbox_json_profile io data =
     is_some_and (Option.bind (io_parse io data) (\<lambda>v. get_array v ''outbounds'')) (\<lambda>outbounds. outbounds \<noteq> [])"

definition native_rule_sets :: "assemble_env \<Rightarrow> home \<Rightarrow> jobject \<Rightarrow> (jobject, assemble_error) result" where
  "native_rule_sets env home config =
     (if home rule_sets_file = None then Inr config
      else rbind (map_err AssembleStore (load_rule_sets (ae_io env) home)) (\<lambda>sets.
        Inr (in_object ''route'' (obj_put ''rule_set'' (JArr sets)) config)))"

definition native_logical_rules :: "assemble_env \<Rightarrow> home \<Rightarrow> jobject \<Rightarrow> (jobject, assemble_error) result" where
  "native_logical_rules env home config =
     (if home logical_rules_file = None then Inr config
      else rbind (map_err AssembleStore (load_logical_rules (ae_io env) home)) (\<lambda>rules.
        Inr (in_object ''route'' (obj_put ''rules'' (JArr (filter_map to_singbox_json rules))) config)))"

definition extend_object :: "json option \<Rightarrow> jobject \<Rightarrow> jobject" where
  "extend_object generated owned =
     (case generated of Some (JObj fs) \<Rightarrow> fold (\<lambda>(k, v). obj_put k v) fs owned | _ \<Rightarrow> owned)"

definition native_dns :: "assemble_env \<Rightarrow> home \<Rightarrow> jobject \<Rightarrow> (jobject, assemble_error) result" where
  "native_dns env home config =
     (if home dns_config_file = None then Inr config
      else
        rbind (map_err AssembleStoredDns (load_dns_spec env home)) (\<lambda>dns.
        rbind (map_err AssembleDnsSpec (build_dns_section dns)) (\<lambda>generated.
          let config = ensure_object ''dns'' config;
              config = in_object ''dns''
                (\<lambda>owned. extend_object generated (obj_remove ''rules'' (obj_remove ''servers'' owned))) config
          in case default_domain_resolver dns of
               Some resolver \<Rightarrow> Inr (in_object ''route'' (obj_put ''default_domain_resolver'' (JStr resolver)) config)
             | None \<Rightarrow>
                 (if is_some_and (obj_get config ''route'') is_object
                  then Inr (in_object ''route'' (obj_remove ''default_domain_resolver'') config)
                  else Inl RouteNotObject))))"

definition apply_native_sidecars :: "assemble_env \<Rightarrow> home \<Rightarrow> jobject \<Rightarrow> (jobject, assemble_error) result" where
  "apply_native_sidecars env home config =
     rbind (native_rule_sets env home config) (\<lambda>config.
     rbind (native_logical_rules env home config) (native_dns env home))"

section \<open>The document\<close>

record run_settings =
  rs_mixed_port :: u16
  rs_enable_tun :: bool
  rs_base :: ymapping
  rs_clash_api :: clash_api_settings

definition native_parts :: "json \<Rightarrow> singbox_parts" where
  "native_parts config =
     \<lparr>sp_conversion = empty_conversion\<lparr>pc_outbounds := elements config ''outbounds''\<rparr>, sp_notes = [],
      sp_profile_used = True, sp_route_rules = [], sp_rule_sets = [], sp_dns_section = None,
      sp_default_resolver = None\<rparr>"

definition check_document :: "assemble_env \<Rightarrow> json \<Rightarrow> (unit, assemble_error) result" where
  "check_document env config =
     rbind (map_err AssembleGen (validate_native_config config)) (\<lambda>_.
       map_err AssembleSecurity (validate_control_plane_security (ae_gen env) config))"

definition native_document ::
  "assemble_env \<Rightarrow> home option \<Rightarrow> run_settings \<Rightarrow> tun_settings \<Rightarrow> string
     \<Rightarrow> (json \<times> singbox_parts, assemble_error) result" where
  "native_document env home settings tun doc_text =
     rbind (ok_or (io_parse (ae_io env) doc_text) NativeNotJson) (\<lambda>config.
     rbind (map_err AssembleGen (validate_native_config config)) (\<lambda>_.
     rbind (case config of JObj m \<Rightarrow> Inr m | _ \<Rightarrow> Inl NativeNotObject) (\<lambda>m.
     (let m = apply_control_plane (ae_gen env) m (rs_mixed_port settings) (rs_enable_tun settings) tun
                (rs_clash_api settings) in
     rbind (ok_or home HomeUnknown) (\<lambda>h.
     rbind (apply_native_sidecars env h m) (\<lambda>m.
     rbind (check_document env (JObj m)) (\<lambda>_. Inr (JObj m, native_parts (JObj m)))))))))"

definition parts_input :: "run_settings \<Rightarrow> tun_settings \<Rightarrow> singbox_parts \<Rightarrow> config_input" where
  "parts_input settings tun parts =
     \<lparr>ci_outbounds = pc_outbounds (sp_conversion parts), ci_groups = pc_groups (sp_conversion parts),
      ci_mixed_port = rs_mixed_port settings, ci_enable_tun = rs_enable_tun settings, ci_tun = tun,
      ci_clash_api = rs_clash_api settings, ci_rule_sets = sp_rule_sets parts,
      ci_route_rules = sp_route_rules parts, ci_dns = sp_dns_section parts\<rparr>"

definition with_resolver :: "string option \<Rightarrow> json \<Rightarrow> json" where
  "with_resolver resolver config =
     (case (resolver, config) of
        (Some r, JObj m) \<Rightarrow> JObj (in_object ''route'' (obj_put ''default_domain_resolver'' (JStr r)) m)
      | _ \<Rightarrow> config)"

definition assembled_document ::
  "assemble_env \<Rightarrow> home option \<Rightarrow> run_settings \<Rightarrow> tun_settings \<Rightarrow> string option
     \<Rightarrow> (json \<times> singbox_parts, assemble_error) result" where
  "assembled_document env home settings tun doc_text =
     rbind (assemble_parts env home doc_text) (\<lambda>parts.
     rbind (map_err AssembleGen (generate_config (ae_gen env) (parts_input settings tun parts))) (\<lambda>config.
     (let config = with_resolver (sp_default_resolver parts) config in
     rbind (check_document env config) (\<lambda>_. Inr (config, parts)))))"

definition singbox_document ::
  "assemble_env \<Rightarrow> home option \<Rightarrow> run_settings \<Rightarrow> string option \<Rightarrow> (json \<times> singbox_parts, assemble_error) result"
where
  "singbox_document env home settings doc_text =
     rbind (profile_tun_settings (ae_mapping env) doc_text (rs_base settings)) (\<lambda>tun.
       case doc_text of
         Some t \<Rightarrow>
           if is_singbox_json_profile (ae_io env) t then native_document env home settings tun t
           else assembled_document env home settings tun doc_text
       | None \<Rightarrow> assembled_document env home settings tun doc_text)"

section \<open>One converted rule\<close>

text \<open>A rule that refers only to the given outbounds and rule-sets and has no rules below it.\<close>

definition flat_closed :: "string set \<Rightarrow> string set \<Rightarrow> json \<Rightarrow> bool" where
  "flat_closed outbounds sets r \<longleftrightarrow>
     is_object r \<and> json_get r ''rules'' = None \<and>
     (\<exists>t \<in> outbounds. get_str r ''outbound'' = Some t \<and> normalize_policy_tag t = t) \<and>
     (json_get r ''rule_set'' = None \<or> (\<exists>tags. json_get r ''rule_set'' = Some (mk_strs tags) \<and> set tags \<subseteq> sets))"

lemma flat_closed_mono: "flat_closed O' S r \<Longrightarrow> S \<subseteq> S' \<Longrightarrow> flat_closed O' S' r"
  by (auto simp: flat_closed_def)

lemma subrules_flat: "x \<in> subrules r \<Longrightarrow> json_get r ''rules'' = None \<Longrightarrow> x = r"
  by (induction rule: subrules.induct) auto

lemma flat_closed_rule_closed: "flat_closed O' S r \<Longrightarrow> rule_closed O' S r"
  by (auto simp: flat_closed_def rule_closed_def rule_shape_ok_def rule_sets_of_def mk_strs_def)

lemma materialize_sets_Ok:
  "materialize_sets known tags sets = (r, sets') \<Longrightarrow>
     set sets \<subseteq> set sets' \<and> (\<forall>s \<in> set sets' - set sets. \<exists>tag. geo_rule_set tag = Some s) \<and>
     (r = Inr u \<longrightarrow> set tags \<subseteq> known \<union> provider_tags sets')"
proof (induction known tags sets rule: materialize_sets.induct)
  case (2 known tag tags sets)
  show ?case
  proof (cases "tag \<in> known")
    case True
    with 2 show ?thesis by auto
  next
    case False
    show ?thesis
    proof (cases "geo_rule_set tag")
      case None
      with 2 False show ?thesis by auto
    next
      case (Some s)
      from "2.prems" False Some have "materialize_sets known tags (sets @ [s]) = (r, sets')" by simp
      from "2.IH"(2) [OF False Some this] have IH: "set (sets @ [s]) \<subseteq> set sets'"
        "\<forall>s' \<in> set sets' - set (sets @ [s]). \<exists>tag. geo_rule_set tag = Some s'"
        "r = Inr u \<longrightarrow> set tags \<subseteq> known \<union> provider_tags sets'" by blast+
      then have "tag \<in> provider_tags sets'" using geo_rule_set_tag [OF Some] by (auto simp: provider_tags_def)
      with IH Some show ?thesis by auto
    qed
  qed
qed auto

text \<open>The only key a parsed match writes beside the outbound.\<close>

lemma field_entry_keys:
  "field_entry f = Some (key, vals) \<Longrightarrow>
     key \<notin> {''outbound'', ''rules''} \<and> (key = ''rule_set'' \<longrightarrow> (\<exists>tag. vals = [JStr tag]))"
  by (auto simp: field_entry_def split: match_field.split_asm option.split_asm geo_value_match.split_asm)

lemma converted_simple:
  assumes "to_singbox_json (from_clash_rule_str rule) = Some converted"
  obtains key vals f t where "from_clash_rule_str rule = Simple [f] t" "field_entry f = Some (key, vals)"
    "converted = JObj (target_to_singbox t (obj_put key (JArr vals) []))"
proof -
  from assms obtain f t where ft: "from_clash_rule_str rule = Simple [f] t"
    using from_clash_rule_str_cases [of rule] by (cases "from_clash_rule_str rule") auto
  with assms that show thesis by (auto simp: field_to_singbox_def split: option.split_asm)
qed

lemma obj_get_single [simp]: "obj_get [(k, v)] k' = (if k' = k then Some v else None)"
  by (simp add: obj_get_def)

lemma with_outbound_converted:
  assumes "field_entry f = Some (key, vals)"
  shows "\<exists>m. with_outbound tag (JObj (target_to_singbox t (obj_put key (JArr vals) []))) = JObj m \<and>
    (\<forall>k. obj_get m k = (if k = ''outbound'' then Some (JStr tag) else if k = key then Some (JArr vals) else None))"
  using field_entry_keys [OF assms]
  by (auto simp: with_outbound_def obj_get_put obj_get_target)

text \<open>What a step of the rule loop does to the result.\<close>

definition extends_route :: "route_conversion \<Rightarrow> route_conversion \<Rightarrow> bool" where
  "extends_route out out' \<longleftrightarrow>
     pr_slots out' = pr_slots out \<and> set (pr_rule_sets out) \<subseteq> set (pr_rule_sets out') \<and>
     set (pr_skipped out) \<subseteq> set (pr_skipped out') \<and>
     (\<forall>s \<in> set (pr_rule_sets out') - set (pr_rule_sets out). \<exists>tag. geo_rule_set tag = Some s)"

lemma note_modifiers_simps [simp]:
  "pr_rules (note_modifiers r ms out) = pr_rules out" "pr_slots (note_modifiers r ms out) = pr_slots out"
  "pr_rule_sets (note_modifiers r ms out) = pr_rule_sets out"
  "set (pr_skipped out) \<subseteq> set (pr_skipped (note_modifiers r ms out))"
  by (auto simp: note_modifiers_def)

lemma push_route_rule_simps [simp]:
  "pr_rules (push_route_rule r out) = pr_rules out @ [r]" "pr_slots (push_route_rule r out) = pr_slots out"
  "pr_rule_sets (push_route_rule r out) = pr_rule_sets out" "pr_skipped (push_route_rule r out) = pr_skipped out"
  by (simp_all add: push_route_rule_def)

lemma convert_match_rule_props:
  assumes "convert_match_rule parts outbounds out = (r, out')"
  shows "case r of
      Inl _ \<Rightarrow> out' = out
    | Inr _ \<Rightarrow> \<exists>x. out' = push_route_rule x out \<and> flat_closed outbounds {} x"
  using assms
  by (auto simp: convert_match_rule_def Let_def flat_closed_def get_str_def split: if_split_asm
      intro!: exI [of _ "mk_obj [(''outbound'', JStr (normalize_policy_tag (parts ! Suc 0)))]"])

lemma convert_one_rule_props:
  assumes "convert_one_rule rule outbounds known out = (r, out')"
  shows "extends_route out out' \<and> (case r of
      Inl _ \<Rightarrow> pr_rules out' = pr_rules out
    | Inr _ \<Rightarrow> \<exists>x. pr_rules out' = pr_rules out @ [x] \<and> flat_closed outbounds (known \<union> provider_tags (pr_rule_sets out')) x)"
proof -
  obtain parts modifiers where parts: "split_clash_rule rule = (parts, modifiers)" by fastforce
  define out1 where "out1 = note_modifiers rule modifiers out"
  have ext1: "extends_route out out1" by (simp add: extends_route_def out1_def)
  have rules1: "pr_rules out1 = pr_rules out" by (simp add: out1_def)
  consider (match) "parts \<noteq> [] \<and> hd parts = ''MATCH''" | (other) "\<not> (parts \<noteq> [] \<and> hd parts = ''MATCH'')" by blast
  then show ?thesis
  proof cases
    case match
    with assms parts have "convert_match_rule parts outbounds out1 = (r, out')"
      by (simp add: convert_one_rule_def out1_def)
    from convert_match_rule_props [OF this] show ?thesis
    proof (cases r)
      case (Inr u)
      with convert_match_rule_props [OF \<open>convert_match_rule parts outbounds out1 = (r, out')\<close>]
      obtain x where x: "out' = push_route_rule x out1" "flat_closed outbounds {} x" by auto
      with ext1 rules1 Inr flat_closed_mono [OF x(2)] show ?thesis by (auto simp: extends_route_def)
    qed (use ext1 rules1 in auto)
  next
    case other
    note eq = assms [unfolded convert_one_rule_def parts Let_def prod.case, folded out1_def]
    show ?thesis
    proof (cases "length parts = 3 \<and>
        \<not> (\<exists>field \<in> set (simple_matches (from_clash_rule_str rule)). unresolvable_field known field) \<and>
        normalize_policy_tag (parts ! 2) \<in> outbounds")
      case False
      with eq other ext1 rules1 show ?thesis by (auto split: if_split_asm option.split_asm)
    next
      case ok: True
      show ?thesis
      proof (cases "to_singbox_json (from_clash_rule_str rule)")
        case None
        with eq other ok ext1 rules1 show ?thesis by auto
      next
        case (Some converted)
        obtain mr sets where mat: "materialize_sets known (filter_map as_str (elements converted ''rule_set''))
            (pr_rule_sets out1) = (mr, sets)" by fastforce
        note m = materialize_sets_Ok [OF mat]
        have ext2: "extends_route out (out1\<lparr>pr_rule_sets := sets\<rparr>)"
          using ext1 m by (auto simp: extends_route_def out1_def)
        show ?thesis
        proof (cases mr)
          case (Inl e)
          with eq other ok Some mat ext2 rules1 show ?thesis by auto
        next
          case (Inr u)
          define x where "x = with_outbound (normalize_policy_tag (parts ! 2)) converted"
          have out': "r = Inr ()" "out' = push_route_rule x (out1\<lparr>pr_rule_sets := sets\<rparr>)"
            using eq other ok Some mat Inr by (auto simp: x_def)
          obtain key vals f t where c: "field_entry f = Some (key, vals)"
            "converted = JObj (target_to_singbox t (obj_put key (JArr vals) []))"
            using converted_simple [OF Some] by metis
          obtain mm where mm: "x = JObj mm"
            "\<And>k. obj_get mm k = (if k = ''outbound'' then Some (JStr (normalize_policy_tag (parts ! 2)))
               else if k = key then Some (JArr vals) else None)"
            using with_outbound_converted [OF c(1), of "normalize_policy_tag (parts ! 2)" t] by (auto simp: x_def c(2))
          have sets: "key = ''rule_set'' \<Longrightarrow> \<exists>tag. vals = [JStr tag] \<and> tag \<in> known \<union> provider_tags sets"
          proof -
            assume k: "key = ''rule_set''"
            then obtain tag where v: "vals = [JStr tag]" using field_entry_keys [OF c(1)] by blast
            have "filter_map as_str (elements converted ''rule_set'') = [tag]"
              by (simp add: c(2) k v elements_def get_array_def obj_get_target)
            with m Inr v show ?thesis by auto
          qed
          have keys: "key \<noteq> ''outbound''" "key \<noteq> ''rules''" using field_entry_keys [OF c(1)] by auto
          have "flat_closed outbounds (known \<union> provider_tags sets) x"
          proof (cases "key = ''rule_set''")
            case True
            then obtain tag where "vals = [JStr tag]" "tag \<in> known \<union> provider_tags sets" using sets by blast
            then have "json_get x ''rule_set'' = Some (mk_strs [tag]) \<and> set [tag] \<subseteq> known \<union> provider_tags sets"
              using True by (simp add: mm mk_strs_def)
            then show ?thesis unfolding flat_closed_def using ok keys by (fastforce simp: mm get_str_def)
          next
            case False
            then show ?thesis unfolding flat_closed_def using ok keys by (auto simp: mm get_str_def)
          qed
          with ext2 rules1 out' show ?thesis by (auto simp: extends_route_def)
        qed
      qed
    qed
  qed
qed

section \<open>The rule loop\<close>

text \<open>The state before rule \<open>index\<close>: the slots filled so far number the emitted rules in order, later slots are empty,
  every emitted rule is closed, and an empty slot has been reported.\<close>

definition route_loop_inv ::
  "string set \<Rightarrow> string set \<Rightarrow> nat \<Rightarrow> route_conversion \<Rightarrow> bool" where
  "route_loop_inv outbounds known index out \<longleftrightarrow>
     cat_options (take index (pr_slots out)) = [0..<length (pr_rules out)] \<and>
     (\<forall>i. index \<le> i \<and> i < length (pr_slots out) \<longrightarrow> pr_slots out ! i = None) \<and>
     (\<forall>r \<in> set (pr_rules out). flat_closed outbounds (known \<union> provider_tags (pr_rule_sets out)) r) \<and>
     (\<forall>i < index. i < length (pr_slots out) \<and> pr_slots out ! i = None \<longrightarrow> (\<exists>e. RuleSkipped i e \<in> set (pr_skipped out)))"

lemma provider_tags_mono: "set xs \<subseteq> set ys \<Longrightarrow> provider_tags xs \<subseteq> provider_tags ys"
  by (auto simp: provider_tags_def)

lemma take_Suc_update: "i < length xs \<Longrightarrow> take (Suc i) (xs[i := v]) = take i xs @ [v]"
  by (simp add: take_Suc_conv_app_nth)

lemma route_loop_inv_Ok:
  assumes inv: "route_loop_inv outbounds known index out" and index: "index < length (pr_slots out)"
    and step: "convert_one_rule rule outbounds known out = (Inr u, out')"
  shows "route_loop_inv outbounds known (Suc index)
    (out'\<lparr>pr_slots := (pr_slots out')[index := Some (length (pr_rules out') - 1)]\<rparr>)"
proof -
  note p = convert_one_rule_props [OF step]
  then obtain x where x: "pr_rules out' = pr_rules out @ [x]"
    "flat_closed outbounds (known \<union> provider_tags (pr_rule_sets out')) x" and ext: "extends_route out out'" by auto
  have slots: "pr_slots out' = pr_slots out" and sets: "provider_tags (pr_rule_sets out) \<subseteq> provider_tags (pr_rule_sets out')"
    and skipped: "set (pr_skipped out) \<subseteq> set (pr_skipped out')"
    using ext by (auto simp: extends_route_def provider_tags_mono)
  have reported: "\<exists>e. RuleSkipped i e \<in> set (pr_skipped out')"
    if "i < index" "i < length (pr_slots out)" "pr_slots out ! i = None" for i
    using inv that skipped unfolding route_loop_inv_def by blast
  have "flat_closed outbounds (known \<union> provider_tags (pr_rule_sets out')) r" if "r \<in> set (pr_rules out)" for r
    using inv that flat_closed_mono sets unfolding route_loop_inv_def by (metis Un_mono subset_refl)
  with inv index x reported show ?thesis
    by (auto simp: route_loop_inv_def slots take_Suc_update nth_list_update less_Suc_eq)
qed

lemma route_loop_inv_Err:
  assumes inv: "route_loop_inv outbounds known index out" and index: "index < length (pr_slots out)"
    and step: "convert_one_rule rule outbounds known out = (Inl e, out')"
  shows "route_loop_inv outbounds known (Suc index) (out'\<lparr>pr_skipped := pr_skipped out' @ [RuleSkipped index e]\<rparr>)"
proof -
  note p = convert_one_rule_props [OF step]
  then have rules: "pr_rules out' = pr_rules out" and ext: "extends_route out out'" by auto
  have slots: "pr_slots out' = pr_slots out" and sets: "provider_tags (pr_rule_sets out) \<subseteq> provider_tags (pr_rule_sets out')"
    and skipped: "set (pr_skipped out) \<subseteq> set (pr_skipped out')"
    using ext by (auto simp: extends_route_def provider_tags_mono)
  have reported: "\<exists>e. RuleSkipped i e \<in> set (pr_skipped out')"
    if "i < index" "i < length (pr_slots out)" "pr_slots out ! i = None" for i
    using inv that skipped unfolding route_loop_inv_def by blast
  have "flat_closed outbounds (known \<union> provider_tags (pr_rule_sets out')) r" if "r \<in> set (pr_rules out)" for r
    using inv that flat_closed_mono sets unfolding route_loop_inv_def by (metis Un_mono subset_refl)
  moreover have "pr_slots out ! index = None" using inv index by (simp add: route_loop_inv_def)
  ultimately show ?thesis
    using inv index rules reported
    by (auto simp: route_loop_inv_def slots take_Suc_conv_app_nth less_Suc_eq)
qed

lemma convert_profile_rules_inv:
  assumes "convert_profile_rules index rules outbounds known out = Inr out'"
    and "route_loop_inv outbounds known index out" and "length (pr_slots out) = index + length rules"
  shows "route_loop_inv outbounds known (index + length rules) out' \<and> length (pr_slots out') = index + length rules \<and>
    (\<forall>s \<in> set (pr_rule_sets out') - set (pr_rule_sets out). \<exists>tag. geo_rule_set tag = Some s)"
  using assms
proof (induction rules arbitrary: index out)
  case (Cons rule rules)
  then obtain r where r: "y_str rule = Some r" by auto
  obtain res out1 where step: "convert_one_rule r outbounds known out = (res, out1)" by fastforce
  have index: "index < length (pr_slots out)" using Cons.prems(3) by simp
  have slots: "pr_slots out1 = pr_slots out"
    and new: "\<forall>s \<in> set (pr_rule_sets out1) - set (pr_rule_sets out). \<exists>tag. geo_rule_set tag = Some s"
    using convert_one_rule_props [OF step] by (auto simp: extends_route_def)
  define out2 where "out2 = (case res of
      Inr u \<Rightarrow> out1\<lparr>pr_slots := (pr_slots out1)[index := Some (length (pr_rules out1) - 1)]\<rparr>
    | Inl e \<Rightarrow> out1\<lparr>pr_skipped := pr_skipped out1 @ [RuleSkipped index e]\<rparr>)"
  have inv2: "route_loop_inv outbounds known (Suc index) out2"
  proof (cases res)
    case (Inl e)
    then show ?thesis using route_loop_inv_Err [OF Cons.prems(2) index] step by (simp add: out2_def)
  next
    case (Inr u)
    then show ?thesis using route_loop_inv_Ok [OF Cons.prems(2) index] step by (simp add: out2_def)
  qed
  have len: "length (pr_slots out2) = Suc index + length rules" "pr_rule_sets out2 = pr_rule_sets out1"
    using Cons.prems(3) slots by (auto simp: out2_def split: sum.split)
  have "convert_profile_rules (Suc index) rules outbounds known out2 = Inr out'"
    using Cons.prems(1) r step by (cases res) (simp_all add: out2_def)
  from Cons.IH [OF this inv2 len(1)] len(2) new show ?case by auto
qed simp

lemma convert_profile_sets:
  "convert_profile_rules index rules outbounds known out = Inr out' \<Longrightarrow> set (pr_rule_sets out) \<subseteq> set (pr_rule_sets out')"
proof (induction rules arbitrary: index out)
  case (Cons rule rules)
  then obtain r where r: "y_str rule = Some r" by auto
  obtain res out1 where step: "convert_one_rule r outbounds known out = (res, out1)" by fastforce
  have "set (pr_rule_sets out) \<subseteq> set (pr_rule_sets out1)"
    using convert_one_rule_props [OF step] by (simp add: extends_route_def)
  moreover have "set (pr_rule_sets out1) \<subseteq> set (pr_rule_sets out')"
  proof (cases res)
    case (Inl e)
    with Cons.prems r step Cons.IH show ?thesis by fastforce
  next
    case (Inr u)
    with Cons.prems r step Cons.IH show ?thesis by fastforce
  qed
  ultimately show ?case by blast
qed simp

lemma profile_route_rules_inv:
  assumes "profile_route_rules_of_doc doc outbounds known = Inr out"
  shows "cat_options (pr_slots out) = [0..<length (pr_rules out)]"
    and "\<And>r. r \<in> set (pr_rules out) \<Longrightarrow> flat_closed outbounds (known \<union> provider_tags (pr_rule_sets out)) r"
    and "\<And>i. i < length (pr_slots out) \<Longrightarrow> pr_slots out ! i = None \<Longrightarrow> \<exists>e. RuleSkipped i e \<in> set (pr_skipped out)"
    and "\<And>s. s \<in> set (pr_rule_sets out) \<Longrightarrow> tag_of s \<noteq> None"
    and "\<And>v rules. y_get doc ''rules'' = Some v \<Longrightarrow> y_seq v = Some rules \<Longrightarrow> length (pr_slots out) = length rules"
proof -
  define p where "p = rule_providers_of_doc doc"
  define out0 where "out0 = \<lparr>pr_rules = [], pr_slots = [], pr_rule_sets = rp_rule_sets p,
      pr_skipped = map ProviderNote (rp_skipped p)\<rparr>"
  have tags0: "tag_of s \<noteq> None" if "s \<in> set (rp_rule_sets p)" for s
    using rule_providers_tags that unfolding p_def by fastforce
  have "cat_options (pr_slots out) = [0..<length (pr_rules out)] \<and>
    (\<forall>r \<in> set (pr_rules out). flat_closed outbounds (known \<union> provider_tags (pr_rule_sets out)) r) \<and>
    (\<forall>i < length (pr_slots out). pr_slots out ! i = None \<longrightarrow> (\<exists>e. RuleSkipped i e \<in> set (pr_skipped out))) \<and>
    (\<forall>s \<in> set (pr_rule_sets out). tag_of s \<noteq> None) \<and>
    (\<forall>v rules. y_get doc ''rules'' = Some v \<longrightarrow> y_seq v = Some rules \<longrightarrow> length (pr_slots out) = length rules)"
  proof (cases "y_get doc ''rules''")
    case None
    with assms tags0 show ?thesis
      by (auto simp: profile_route_rules_of_doc_def p_def [symmetric] Let_def)
  next
    case (Some v)
    then obtain rules where rules: "y_seq v = Some rules" and conv:
      "convert_profile_rules 0 rules outbounds (known \<union> provider_tags (rp_rule_sets p))
         (out0\<lparr>pr_slots := replicate (length rules) None\<rparr>) = Inr out"
      using assms by (auto simp: profile_route_rules_of_doc_def p_def [symmetric] Let_def out0_def)
    have inv0: "route_loop_inv outbounds (known \<union> provider_tags (rp_rule_sets p)) 0
        (out0\<lparr>pr_slots := replicate (length rules) None\<rparr>)"
      by (simp add: route_loop_inv_def out0_def)
    note final = convert_profile_rules_inv [OF conv inv0]
    have new: "\<forall>s \<in> set (pr_rule_sets out) - set (rp_rule_sets p). \<exists>tag. geo_rule_set tag = Some s"
      and inv: "route_loop_inv outbounds (known \<union> provider_tags (rp_rule_sets p)) (length rules) out"
      and len: "length (pr_slots out) = length rules" using final by (simp_all add: out0_def)
    have prov: "provider_tags (rp_rule_sets p) \<subseteq> provider_tags (pr_rule_sets out)"
      using convert_profile_sets [OF conv] by (simp add: out0_def provider_tags_mono)
    then have same: "known \<union> provider_tags (rp_rule_sets p) \<union> provider_tags (pr_rule_sets out) =
        known \<union> provider_tags (pr_rule_sets out)" by blast
    have tags: "tag_of s \<noteq> None" if "s \<in> set (pr_rule_sets out)" for s
      using that new tags0 [of s] geo_rule_set_tag by (cases "s \<in> set (rp_rule_sets p)") fastforce+
    show ?thesis
      using inv len tags Some rules unfolding route_loop_inv_def same by auto
  qed
  then show "cat_options (pr_slots out) = [0..<length (pr_rules out)]"
    and "\<And>r. r \<in> set (pr_rules out) \<Longrightarrow> flat_closed outbounds (known \<union> provider_tags (pr_rule_sets out)) r"
    and "\<And>i. i < length (pr_slots out) \<Longrightarrow> pr_slots out ! i = None \<Longrightarrow> \<exists>e. RuleSkipped i e \<in> set (pr_skipped out)"
    and "\<And>s. s \<in> set (pr_rule_sets out) \<Longrightarrow> tag_of s \<noteq> None"
    and "\<And>v rules. y_get doc ''rules'' = Some v \<Longrightarrow> y_seq v = Some rules \<Longrightarrow> length (pr_slots out) = length rules"
    by blast+
qed

lemma route_slots_rules:
  assumes "cat_options (pr_slots out) = [0..<length (pr_rules out)]"
  shows "cat_options (route_slots out) = pr_rules out"
proof -
  have "cat_options (map (map_option f) xs) = map f (cat_options xs)" for f :: "nat \<Rightarrow> json" and xs
    by (induction xs rule: cat_options.induct) auto
  then show ?thesis by (simp add: route_slots_def assms map_nth)
qed

section \<open>What the rule in a slot says\<close>

text \<open>
  The route rule that stands for the text of one profile rule, and when it is emitted: its target is an outbound that
  was produced, and every rule-set it names is available or a geo set that can be generated.
\<close>

definition route_rule_of :: "string \<Rightarrow> json option" where
  "route_rule_of rule =
     (case fst (split_clash_rule rule) of
        [] \<Rightarrow> None
      | kind # rest \<Rightarrow>
          if kind = ''MATCH'' then
            (case rest of [] \<Rightarrow> None | target # _ \<Rightarrow> Some (mk_obj [(''outbound'', JStr (normalize_policy_tag target))]))
          else (case rest of
                  [value, target] \<Rightarrow>
                    map_option (with_outbound (normalize_policy_tag target)) (to_singbox_json (from_clash_rule_str rule))
                | _ \<Rightarrow> None))"

definition emittable :: "string set \<Rightarrow> string set \<Rightarrow> json \<Rightarrow> bool" where
  "emittable outbounds available x \<longleftrightarrow>
     (\<exists>t \<in> outbounds. get_str x ''outbound'' = Some t) \<and>
     (\<forall>tag \<in> set (filter_map as_str (elements x ''rule_set'')). tag \<in> available \<or> geo_rule_set tag \<noteq> None)"

definition expected_rule :: "string set \<Rightarrow> string set \<Rightarrow> string \<Rightarrow> json option" where
  "expected_rule outbounds available rule = opt_filter (emittable outbounds available) (route_rule_of rule)"

lemma materialize_sets_fst:
  "fst (materialize_sets known tags sets) = Inr () \<longleftrightarrow> (\<forall>tag \<in> set tags. tag \<in> known \<or> geo_rule_set tag \<noteq> None)"
  by (induction known tags sets rule: materialize_sets.induct) (auto split: option.split)

lemma rule_set_field_entry:
  "field_rule_set f = Some tag \<Longrightarrow> field_entry f = Some (key, vals) \<Longrightarrow> key = ''rule_set'' \<and> vals = [JStr tag]"
  by (cases f) (auto simp: field_entry_def)

lemma converted_rule_exact:
  assumes "to_singbox_json (from_clash_rule_str rule) = Some converted"
  shows "get_str (with_outbound tag converted) ''outbound'' = Some tag"
    and "elements (with_outbound tag converted) ''rule_set'' = elements converted ''rule_set''"
    and "field \<in> set (simple_matches (from_clash_rule_str rule)) \<Longrightarrow> unresolvable_field known field \<Longrightarrow>
      \<exists>set_tag \<in> set (filter_map as_str (elements converted ''rule_set'')). set_tag \<notin> known \<and> geo_rule_set set_tag = None"
proof -
  obtain key vals f t where c: "from_clash_rule_str rule = Simple [f] t" "field_entry f = Some (key, vals)"
    "converted = JObj (target_to_singbox t (obj_put key (JArr vals) []))"
    using converted_simple [OF assms] by metis
  obtain m where m: "with_outbound tag converted = JObj m"
    "\<forall>k. obj_get m k = (if k = ''outbound'' then Some (JStr tag) else if k = key then Some (JArr vals) else None)"
    using with_outbound_converted [OF c(2), of tag t] c(3) by auto
  have other: "obj_get (target_to_singbox t (obj_put key (JArr vals) [])) ''rule_set'' = (if key = ''rule_set'' then Some (JArr vals) else None)"
    by (simp add: obj_get_target)
  show "get_str (with_outbound tag converted) ''outbound'' = Some tag" using m by (simp add: get_str_def)
  show "elements (with_outbound tag converted) ''rule_set'' = elements converted ''rule_set''"
    using m other c(3) by (simp add: elements_def get_array_def)
  assume "field \<in> set (simple_matches (from_clash_rule_str rule))" "unresolvable_field known field"
  then obtain set_tag where "field_rule_set f = Some set_tag" "set_tag \<notin> known" "geo_rule_set set_tag = None"
    using c(1) by (auto simp: simple_matches_def unresolvable_field_def is_some_and_def split: option.splits)
  then show "\<exists>set_tag \<in> set (filter_map as_str (elements converted ''rule_set'')). set_tag \<notin> known \<and> geo_rule_set set_tag = None"
    using rule_set_field_entry [OF _ c(2)] other c(3) by (auto simp: elements_def get_array_def)
qed

lemma convert_one_rule_exact:
  assumes "convert_one_rule rule outbounds known out = (res, out')"
  shows "case expected_rule outbounds known rule of
      None \<Rightarrow> (\<exists>e. res = Inl e) \<and> pr_rules out' = pr_rules out
    | Some x \<Rightarrow> res = Inr () \<and> pr_rules out' = pr_rules out @ [x]"
proof -
  obtain parts modifiers where parts: "split_clash_rule rule = (parts, modifiers)" by fastforce
  note eq = assms [unfolded convert_one_rule_def parts Let_def prod.case]
  consider (match) "parts \<noteq> [] \<and> hd parts = ''MATCH''" | (shape) "\<not> (parts \<noteq> [] \<and> hd parts = ''MATCH'')" "length parts \<noteq> 3"
    | (rule) kind v target where "parts = [kind, v, target]" "kind \<noteq> ''MATCH''"
    by (cases parts rule: list.exhaust; force simp: length_Suc_conv numeral_3_eq_3)
  then show ?thesis
  proof cases
    case match
    then obtain rest where "parts = ''MATCH'' # rest" by (cases parts) auto
    then show ?thesis using eq
      by (cases rest)
        (auto simp: convert_match_rule_def expected_rule_def route_rule_of_def parts emittable_def opt_filter_def get_str_def
          elements_def get_array_def Let_def split: if_split_asm)
  next
    case shape
    then have "expected_rule outbounds known rule = None"
      by (auto simp: expected_rule_def route_rule_of_def parts opt_filter_def split: list.split)
    with shape eq show ?thesis by auto
  next
    case rule
    show ?thesis
    proof (cases "to_singbox_json (from_clash_rule_str rule)")
      case None
      with rule eq show ?thesis
        by (auto simp: expected_rule_def route_rule_of_def parts opt_filter_def split: if_split_asm)
    next
      case (Some converted)
      let ?x = "with_outbound (normalize_policy_tag target) converted"
      let ?tags = "filter_map as_str (elements converted ''rule_set'')"
      note c = converted_rule_exact [OF Some]
      have route: "route_rule_of rule = Some ?x" using rule Some by (simp add: route_rule_of_def parts)
      have emit: "emittable outbounds known ?x \<longleftrightarrow> normalize_policy_tag target \<in> outbounds \<and>
          (\<forall>tag \<in> set ?tags. tag \<in> known \<or> geo_rule_set tag \<noteq> None)"
        by (auto simp: emittable_def c(1,2))
      obtain mr sets where mat: "materialize_sets known ?tags (pr_rule_sets out) = (mr, sets)" by fastforce
      then have "mr = Inr () \<longleftrightarrow> (\<forall>tag \<in> set ?tags. tag \<in> known \<or> geo_rule_set tag \<noteq> None)"
        using materialize_sets_fst [of known ?tags "pr_rule_sets out"] by simp
      moreover have "\<not> (\<exists>field \<in> set (simple_matches (from_clash_rule_str rule)). unresolvable_field known field)"
        if "\<forall>tag \<in> set ?tags. tag \<in> known \<or> geo_rule_set tag \<noteq> None"
        using c(3) [of _ known] that by blast
      ultimately show ?thesis using rule eq Some mat emit
        by (auto simp: expected_rule_def route opt_filter_def split: if_split_asm sum.splits)
    qed
  qed
qed

lemma route_slots_update:
  assumes "index < length (pr_slots out)" "\<forall>j. Some j \<in> set (take index (pr_slots out)) \<longrightarrow> j < length (pr_rules out)"
    and "pr_rules out' = pr_rules out @ xs" "pr_slots out' = (pr_slots out)[index := v]"
  shows "take (Suc index) (route_slots out') = take index (route_slots out) @ [map_option (nth (pr_rules out')) v]"
proof -
  have "map (map_option (nth (pr_rules out @ xs))) ys = map (map_option (nth (pr_rules out))) ys"
    if "\<forall>j. Some j \<in> set ys \<longrightarrow> j < length (pr_rules out)" for ys
  proof (rule map_cong [OF refl])
    fix y assume "y \<in> set ys"
    with that show "map_option (nth (pr_rules out @ xs)) y = map_option (nth (pr_rules out)) y"
      by (cases y) (simp_all add: nth_append)
  qed
  from this [OF assms(2)] assms(1,3,4) show ?thesis
    by (simp add: route_slots_def take_map take_Suc_update)
qed

lemma convert_profile_rules_slots:
  assumes "convert_profile_rules index rules outbounds known out = Inr out'"
    and "route_loop_inv outbounds known index out" "length (pr_slots out) = index + length rules"
  shows "route_slots out' = take index (route_slots out) @
    map (\<lambda>v. Option.bind (y_str v) (expected_rule outbounds known)) rules"
  using assms
proof (induction rules arbitrary: index out)
  case Nil
  then show ?case by (simp add: route_slots_def)
next
  case (Cons rule rules)
  then obtain r where r: "y_str rule = Some r" by auto
  obtain res out1 where step: "convert_one_rule r outbounds known out = (res, out1)" by fastforce
  have index: "index < length (pr_slots out)" using Cons.prems(3) by simp
  have slots: "pr_slots out1 = pr_slots out"
    using convert_one_rule_props [OF step] by (auto simp: extends_route_def)
  have before: "\<forall>j. Some j \<in> set (take index (pr_slots out)) \<longrightarrow> j < length (pr_rules out)"
  proof -
    have mem: "j \<in> set (cat_options xs)" if "Some j \<in> set xs" for j and xs :: "nat option list"
      using that by (induction xs rule: cat_options.induct) auto
    have numbers: "cat_options (take index (pr_slots out)) = [0..<length (pr_rules out)]"
      using Cons.prems(2) unfolding route_loop_inv_def by blast
    show ?thesis using mem [of _ "take index (pr_slots out)"] unfolding numbers by simp
  qed
  have empty: "pr_slots out ! index = None" using Cons.prems(2) index by (simp add: route_loop_inv_def)
  define out2 where "out2 = (case res of
      Inr u \<Rightarrow> out1\<lparr>pr_slots := (pr_slots out1)[index := Some (length (pr_rules out1) - 1)]\<rparr>
    | Inl e \<Rightarrow> out1\<lparr>pr_skipped := pr_skipped out1 @ [RuleSkipped index e]\<rparr>)"
  have next': "route_loop_inv outbounds known (Suc index) out2 \<and>
      take (Suc index) (route_slots out2) = take index (route_slots out) @ [expected_rule outbounds known r]"
  proof (cases "expected_rule outbounds known r")
    case None
    then obtain e where e: "res = Inl e" "pr_rules out1 = pr_rules out" using convert_one_rule_exact [OF step] by auto
    have "pr_rules out2 = pr_rules out @ []" "pr_slots out2 = (pr_slots out)[index := None]"
      using list_update_id [of "pr_slots out" index] unfolding empty out2_def e(1) by (simp_all add: e(2) slots)
    then have "take (Suc index) (route_slots out2) = take index (route_slots out) @ [map_option (nth (pr_rules out2)) None]"
      by (rule route_slots_update [OF index before])
    then have "take (Suc index) (route_slots out2) = take index (route_slots out) @ [expected_rule outbounds known r]"
      by (simp add: None)
    moreover have "route_loop_inv outbounds known (Suc index) out2"
      using route_loop_inv_Err [OF Cons.prems(2) index] step e(1) by (simp add: out2_def)
    ultimately show ?thesis by (rule conjI [rotated])
  next
    case (Some x)
    then have e: "res = Inr ()" "pr_rules out1 = pr_rules out @ [x]" using convert_one_rule_exact [OF step] by auto
    have "pr_rules out2 = pr_rules out @ [x]" "pr_slots out2 = (pr_slots out)[index := Some (length (pr_rules out))]"
      by (simp_all add: out2_def e slots)
    then have "take (Suc index) (route_slots out2) =
        take index (route_slots out) @ [map_option (nth (pr_rules out2)) (Some (length (pr_rules out)))]"
      by (rule route_slots_update [OF index before])
    then have "take (Suc index) (route_slots out2) = take index (route_slots out) @ [expected_rule outbounds known r]"
      by (simp add: Some out2_def e)
    moreover have "route_loop_inv outbounds known (Suc index) out2"
      using route_loop_inv_Ok [OF Cons.prems(2) index] step e(1) by (simp add: out2_def)
    ultimately show ?thesis by (rule conjI [rotated])
  qed
  have "convert_profile_rules (Suc index) rules outbounds known out2 = Inr out'"
    using Cons.prems(1) r step by (cases res) (simp_all add: out2_def)
  moreover have "length (pr_slots out2) = Suc index + length rules"
    using Cons.prems(3) slots by (auto simp: out2_def split: sum.split)
  ultimately show ?case using Cons.IH [of "Suc index" out2] next' r by simp
qed

lemma profile_slots_exact:
  assumes "profile_route_rules_of_doc doc outbounds known = Inr out" "y_get doc ''rules'' = Some v" "y_seq v = Some rules"
  shows "route_slots out = map (\<lambda>rule. Option.bind (y_str rule)
    (expected_rule outbounds (known \<union> provider_tags (rp_rule_sets (rule_providers_of_doc doc))))) rules"
proof -
  let ?p = "rule_providers_of_doc doc"
  let ?out = "\<lparr>pr_rules = [], pr_slots = replicate (length rules) None, pr_rule_sets = rp_rule_sets ?p,
      pr_skipped = map ProviderNote (rp_skipped ?p)\<rparr>"
  have "convert_profile_rules 0 rules outbounds (known \<union> provider_tags (rp_rule_sets ?p)) ?out = Inr out"
    using assms by (simp add: profile_route_rules_of_doc_def Let_def)
  from convert_profile_rules_slots [OF this] show ?thesis by (simp add: route_loop_inv_def)
qed

section \<open>Merged rule-sets\<close>

lemma merge_generated_props:
  assumes "tags = provider_tags merged" "unique_tags merged"
  shows "unique_tags (merge_generated tags merged sets)"
    "provider_tags (merge_generated tags merged sets) = provider_tags merged \<union> provider_tags sets"
    "prefix merged (merge_generated tags merged sets)"
proof -
  have "unique_tags (merge_generated tags merged sets) \<and>
    provider_tags (merge_generated tags merged sets) = provider_tags merged \<union> provider_tags sets \<and>
    prefix merged (merge_generated tags merged sets)"
    using assms
  proof (induction tags merged sets rule: merge_generated.induct)
    case (2 tags merged s sets)
    show ?case
    proof (cases "tag_of s")
      case None
      with 2 show ?thesis by (auto simp: provider_tags_def)
    next
      case (Some tag)
      show ?thesis
      proof (cases "tag \<in> tags")
        case True
        with 2 Some show ?thesis by (auto simp: provider_tags_def)
      next
        case False
        have u: "unique_tags (merged @ [s])"
          using "2.prems" Some False by (auto simp: unique_tags_def provider_tags_def)
        have "insert tag tags = provider_tags (merged @ [s])"
          using "2.prems"(1) Some by (auto simp: provider_tags_def)
        from "2.IH"(3) [OF Some False this u] Some False show ?thesis
          by (auto simp: provider_tags_def prefix_def)
      qed
    qed
  qed (auto simp: provider_tags_def)
  then show "unique_tags (merge_generated tags merged sets)"
    "provider_tags (merge_generated tags merged sets) = provider_tags merged \<union> provider_tags sets"
    "prefix merged (merge_generated tags merged sets)" by blast+
qed

lemma merge_rule_sets_props:
  assumes "unique_tags stored"
  shows "unique_tags (merge_rule_sets stored generated)"
    "provider_tags (merge_rule_sets stored generated) = provider_tags stored \<union> provider_tags generated"
    "prefix stored (merge_rule_sets stored generated)"
  using merge_generated_props [OF refl assms, of generated] by (simp_all add: merge_rule_sets_def provider_tags_def)

lemma validate_rule_sets_unique:
  "validate_rule_sets_from index seen sets = Inr u \<Longrightarrow>
     unique_tags sets \<and> provider_tags sets \<inter> set seen = {}"
proof (induction index seen sets rule: validate_rule_sets_from.induct)
  case (2 index seen item sets)
  then obtain tag where tag: "set_tag item = Some tag" "tag \<notin> set seen"
    "validate_rule_sets_from (Suc index) (tag # seen) sets = Inr u"
    by (auto split: if_split_asm option.split_asm)
  then have "tag_of item = Some tag" by (simp add: set_tag_def)
  moreover have "unique_tags sets \<and> provider_tags sets \<inter> set (tag # seen) = {}"
    using 2 tag by (auto split: if_split_asm)
  ultimately show ?case using tag(2) by (auto simp: unique_tags_def provider_tags_def)
qed (simp add: unique_tags_def provider_tags_def)

lemma load_rule_sets_unique: "load_rule_sets io home = Inr sets \<Longrightarrow> unique_tags sets"
  using validate_rule_sets_unique [of 0 "[]"]
  by (auto simp: load_rule_sets_def validate_rule_sets_def unique_tags_def split: option.split_asm)

section \<open>Native documents\<close>

lemma native_rule_sets_other:
  "native_rule_sets env home m = Inr m' \<Longrightarrow> k \<noteq> ''route'' \<Longrightarrow> obj_get m' k = obj_get m k"
  by (auto simp: native_rule_sets_def obj_get_in_object split: if_split_asm)

lemma native_logical_rules_other:
  "native_logical_rules env home m = Inr m' \<Longrightarrow> k \<noteq> ''route'' \<Longrightarrow> obj_get m' k = obj_get m k"
  by (auto simp: native_logical_rules_def obj_get_in_object split: if_split_asm)

lemma native_dns_route:
  assumes "native_dns env home m = Inr m'" "k \<noteq> ''default_domain_resolver''" "obj_get m ''route'' = Some (JObj route)"
  shows "\<exists>route'. obj_get m' ''route'' = Some (JObj route') \<and> obj_get route' k = obj_get route k"
  using assms
  by (auto simp: native_dns_def Let_def obj_get_in_object obj_get_ensure_object obj_get_put obj_get_remove
      split: if_split_asm option.split_asm)

lemma load_logical_rules_logical:
  assumes "load_logical_rules io home = Inr rules" "r \<in> set rules"
  shows "is_logical r"
proof -
  have parsed: "is_logical x" if p: "parse_logical_values vs = Inr xs" and x: "x \<in> set xs" for vs xs x
  proof -
    from p x obtain i v where "parse_logical_value i v = Inr x"
      unfolding parse_logical_values_def by (fastforce dest: traverse_Inr_set)
    then show ?thesis by (auto simp: parse_logical_value_def)
  qed
  from assms obtain order where o': "load_rule_order io home = Inr order" "rules = ro_logical order"
    by (auto simp: load_logical_rules_def)
  show ?thesis
  proof (cases "home logical_rules_file")
    case None
    with o' assms(2) show ?thesis by (auto simp: load_rule_order_def empty_order_def)
  next
    case (Some body)
    with o' obtain v where "parse_rule_order v = Inr order" by (auto simp: load_rule_order_def)
    with o'(2) assms(2) parsed show ?thesis
      by (auto simp: parse_rule_order_def parse_order_object_def Let_def split: json.split_asm)
  qed
qed

lemma logical_json_keys:
  assumes "is_logical r" "to_singbox_json r = Some v"
  shows "json_get v ''clash_mode'' = None"
  using assms by (cases r) (auto simp: obj_get_target obj_get_mk_fields)

section \<open>Properties\<close>

text \<open>C10: The rules of a profile reach the route section in their order and nothing is lost silently: slot i
  holds exactly the translation of rule i when its target is an outbound that was produced and its rule-sets are
  available or can be generated, and is empty otherwise; the converted rules are the filled slots in this order; and
  a rule whose slot stayed empty is in the report. Every converted rule targets an outbound that the conversion
  produced, never by its clash spelling, and names only rule-sets that are stored or emitted with it.\<close>

theorem profile_rules_ordered_and_closed:
  assumes "profile_route_rules_of_doc doc outbounds known = Inr out"
  shows "(\<forall>v rules. y_get doc ''rules'' = Some v \<and> y_seq v = Some rules \<longrightarrow>
       route_slots out = map (\<lambda>rule. Option.bind (y_str rule)
         (expected_rule outbounds (known \<union> provider_tags (rp_rule_sets (rule_providers_of_doc doc))))) rules) \<and>
    cat_options (route_slots out) = pr_rules out \<and>
    (\<forall>i < length (route_slots out). route_slots out ! i = None \<longrightarrow> (\<exists>e. RuleSkipped i e \<in> set (pr_skipped out))) \<and>
    (\<forall>r \<in> set (pr_rules out). flat_closed outbounds (known \<union> provider_tags (pr_rule_sets out)) r)"
  using profile_route_rules_inv [OF assms] route_slots_rules profile_slots_exact [OF assms]
  by (auto simp: route_slots_def)

text \<open>A rule list with a dropped rule before a kept one.\<close>

definition two_rules :: yaml where
  "two_rules = YMap [(YStr ''rules'', YSeq [YStr ''AND,x'', YStr ''MATCH,DIRECT''])]"

definition two_rules_out :: route_conversion where
  "two_rules_out = \<lparr>pr_rules = [mk_obj [(''outbound'', JStr ''direct'')]], pr_slots = [None, Some 0], pr_rule_sets = [],
     pr_skipped = [RuleSkipped 0 (UnsupportedSyntax [''AND'', ''x''])]\<rparr>"

lemma two_rules_trims:
  "trim ''AND'' = ''AND''" "trim ''x'' = ''x''" "trim ''MATCH'' = ''MATCH''" "trim ''DIRECT'' = ''DIRECT''"
  by (rule trim_id_ends; simp add: ascii_ws_def unicode_ws_def)+

lemma two_rules_split:
  "split_clash_rule ''AND,x'' = ([''AND'', ''x''], [])" "split_clash_rule ''MATCH,DIRECT'' = ([''MATCH'', ''DIRECT''], [])"
  by (simp_all add: split_clash_rule_def two_rules_trims is_modifier_def tolerated_modifiers_def ascii_case_eval)

lemma two_rules_converted: "profile_route_rules_of_doc two_rules {''direct''} {} = Inr two_rules_out"
  by (simp add: profile_route_rules_of_doc_def two_rules_def Let_def rule_providers_of_doc_def convert_one_rule_def
      two_rules_split note_modifiers_def convert_match_rule_def normalize_policy_tag_def push_route_rule_def
      two_rules_out_def numeral_2_eq_2)

theorem profile_rules_ordered_and_closed_witness:
  "cat_options (route_slots two_rules_out) = pr_rules two_rules_out \<and>
     (\<exists>e. RuleSkipped 0 e \<in> set (pr_skipped two_rules_out))"
  using profile_rules_ordered_and_closed [OF two_rules_converted]
  by (auto simp: two_rules_out_def route_slots_def)

text \<open>The rule-sets of a config have unique tags and the user's stored sets win: they stay first and unchanged, and
  every generated set whose tag is not stored is still available.\<close>

theorem merged_rule_sets_unique:
  assumes "load_rule_sets io home = Inr stored"
  shows "unique_tags (merge_rule_sets stored generated) \<and> prefix stored (merge_rule_sets stored generated) \<and>
    provider_tags (merge_rule_sets stored generated) = provider_tags stored \<union> provider_tags generated"
  using merge_rule_sets_props [OF load_rule_sets_unique [OF assms]] by blast

theorem merged_rule_sets_unique_witness:
  "unique_tags (merge_rule_sets [] [mk_obj [(''tag'', JStr ''a'')], mk_obj [(''tag'', JStr ''a'')]])"
  using merged_rule_sets_unique [of "single_document_io JNull" Map.empty "[]"] by (simp add: load_rule_sets_def)

text \<open>With stored logical rules a native document loses the mode rules that the control plane had put first: after
  the sidecars are applied no route rule reacts to the clash mode, so switching to Direct or Global has no
  effect.\<close>

theorem native_sidecar_drops_mode_rules:
  assumes "apply_native_sidecars env home
      (apply_control_plane (ae_gen env) m port tun_on tun api) = Inr m'"
    and "home logical_rules_file = Some body"
  shows "\<forall>r \<in> set (elements (json_at (JObj m') ''route'') ''rules''). json_get r ''clash_mode'' = None"
proof -
  let ?m = "apply_control_plane (ae_gen env) m port tun_on tun api"
  from assms(1) obtain m1 m2 where s: "native_rule_sets env home ?m = Inr m1" "native_logical_rules env home m1 = Inr m2"
    "native_dns env home m2 = Inr m'" by (auto simp: apply_native_sidecars_def)
  from s(2) assms(2) obtain rules where rules: "load_logical_rules (ae_io env) home = Inr rules"
    "m2 = in_object ''route'' (obj_put ''rules'' (JArr (filter_map to_singbox_json rules))) m1"
    by (auto simp: native_logical_rules_def)
  then obtain route where route: "obj_get m2 ''route'' = Some (JObj route)"
    "obj_get route ''rules'' = Some (JArr (filter_map to_singbox_json rules))"
    by (auto simp: obj_get_in_object obj_get_put)
  from native_dns_route [OF s(3) _ route(1), of "''rules''"] obtain route' where
    "obj_get m' ''route'' = Some (JObj route')" "obj_get route' ''rules'' = Some (JArr (filter_map to_singbox_json rules))"
    using route(2) by auto
  then have "elements (json_at (JObj m') ''route'') ''rules'' = filter_map to_singbox_json rules"
    by (simp add: json_at_def elements_def get_array_def)
  then show ?thesis
    using load_logical_rules_logical [OF rules(1)] logical_json_keys by auto
qed

definition logical_home :: home where
  "logical_home = [logical_rules_file \<mapsto> ''[]'']"

definition plain_env :: assemble_env where
  "plain_env = \<lparr>ae_dns = sample_dns_env, ae_mapping = (\<lambda>_. None), ae_io = single_document_io (JArr []),
     ae_read_spec = (\<lambda>_. None), ae_show_spec = (\<lambda>_. JNull), ae_gen = sample_env\<rparr>"

theorem native_sidecar_drops_mode_rules_witness:
  "\<exists>m'. apply_native_sidecars plain_env logical_home
      (apply_control_plane (ae_gen plain_env) [] 7890 False \<lparr>ts_stack = ''gvisor'', ts_mtu = 9000\<rparr> sample_api) = Inr m' \<and>
    (\<forall>r \<in> set (elements (json_at (JObj m') ''route'') ''rules''). json_get r ''clash_mode'' = None)"
proof -
  have load: "load_logical_rules (ae_io plain_env) logical_home = Inr []"
    by (simp add: load_logical_rules_def load_rule_order_def logical_home_def plain_env_def single_document_io_def
        parse_rule_order_def parse_logical_values_def validate_rule_set_references_def load_rule_sets_def
        rule_sets_file_def logical_rules_file_def validate_rule_set_references_against_def)
  have "apply_native_sidecars plain_env logical_home x = Inr (in_object ''route'' (obj_put ''rules'' (JArr [])) x)" for x
    by (simp add: apply_native_sidecars_def native_rule_sets_def native_logical_rules_def native_dns_def load)
       (simp add: logical_home_def rule_sets_file_def logical_rules_file_def dns_config_file_def)
  from this native_sidecar_drops_mode_rules [OF this] show ?thesis
    by (auto simp: logical_home_def)
qed

end
