(* ===== verification/Lifecycle.thy ===== *)
theory Lifecycle
  imports Rust_Str
begin

text \<open>
  The life of the core process (\<open>src-tui/src/mihomo_manager/manager.rs\<close>, \<open>watcher.rs\<close>,
  \<open>pidfile.rs\<close>, \<open>src-tui/src/app/state.rs\<close>): the shared \<open>ManagerInner\<close>, the pid record and the stop
  intent on disk, spawning with its roll back, \<open>stop\<close>, the exit watcher with its restart policy,
  and the guards of a start and of a configuration restart.

  One asynchronous function is one task; a step of the relation \<open>lifecycle_step\<close> is what a task does
  between two \<open>await\<close> points, so a run of the relation is an interleaving of \<open>stop\<close>, watchers, spawns,
  the exits of processes and the actions of other processes. Times are nanoseconds of the clock
  \<open>Utc::now\<close>, which is taken not to go back during a run. Generations keep their 64 bits, because
  \<open>u64::MAX\<close> stands for no intended exit.
\<close>

section \<open>Data\<close>

datatype core_kind = Mihomo | SingBox

definition kind_as_str :: "core_kind \<Rightarrow> string" where
  "kind_as_str k = (case k of Mihomo \<Rightarrow> ''mihomo'' | SingBox \<Rightarrow> ''singbox'')"

datatype core_state = Stopped | Starting | Running | CoreFailed string

type_synonym pid = "32 word"
type_synonym generation = "64 word"

record core_record =
  cr_pid :: pid
  cr_started_at :: int
  cr_kind :: core_kind
  cr_exe :: "string option"

datatype action = CoreExited int | CoreStarted string string string | CoreErrored string

record manager_inner =
  mi_state :: core_state
  mi_action_tx :: "(generation \<times> action) list option" \<comment> \<open>what was sent, when a channel is installed\<close>
  mi_started_at :: "int option"
  mi_restart_history :: "int list"
  mi_pid :: "pid option"
  mi_resolved_binary :: "string option"
  mi_expected_exit :: bool
  mi_restarting :: bool
  mi_owns_child :: bool
  mi_generation :: generation
  mi_expected_exit_gen :: generation
  mi_core_kind :: core_kind

definition no_generation :: generation where
  "no_generation = - 1" \<comment> \<open>\<open>u64::MAX\<close>\<close>

definition manager_inner_new :: manager_inner where
  "manager_inner_new =
     \<lparr>mi_state = Stopped, mi_action_tx = None, mi_started_at = None, mi_restart_history = [],
      mi_pid = None, mi_resolved_binary = None, mi_expected_exit = False, mi_restarting = False,
      mi_owns_child = False, mi_generation = 0, mi_expected_exit_gen = no_generation,
      mi_core_kind = Mihomo\<rparr>"

text \<open>
  \<open>send_action\<close>: an exit during an explicit restart is not announced; every announcement carries the
  generation that is current when it is sent.
\<close>

definition is_core_exited :: "action \<Rightarrow> bool" where
  "is_core_exited a = (case a of CoreExited _ \<Rightarrow> True | _ \<Rightarrow> False)"

definition send_action :: "action \<Rightarrow> manager_inner \<Rightarrow> manager_inner" where
  "send_action a mi =
     (if is_core_exited a \<and> mi_restarting mi then mi
      else mi\<lparr>mi_action_tx := map_option (\<lambda>sent. sent @ [(mi_generation mi, a)]) (mi_action_tx mi)\<rparr>)"

section \<open>Restart policy\<close>

definition restart_window :: int where
  "restart_window = 60 * 1000000000"

definition max_restarts_in_window :: nat where
  "max_restarts_in_window = 3"

fun prune_history :: "int \<Rightarrow> int list \<Rightarrow> int list" where
  "prune_history window_start [] = []"
| "prune_history window_start (front # history) =
     (if front < window_start then prune_history window_start history else front # history)"

definition should_auto_restart :: "int \<Rightarrow> manager_inner \<Rightarrow> bool \<times> manager_inner" where
  "should_auto_restart now mi =
     (let history = prune_history (now - restart_window) (mi_restart_history mi)
      in (length history < max_restarts_in_window, mi\<lparr>mi_restart_history := history\<rparr>))"

definition record_restart :: "int \<Rightarrow> manager_inner \<Rightarrow> manager_inner" where
  "record_restart now mi = mi\<lparr>mi_restart_history := mi_restart_history mi @ [now]\<rparr>"

definition reset_restart_history :: "manager_inner \<Rightarrow> manager_inner" where
  "reset_restart_history mi = mi\<lparr>mi_restart_history := []\<rparr>"

section \<open>Exit classification and the files beside the controller socket\<close>

datatype exit_disposition = StaleWatchedOver | IntentionalStop | Crash

definition classify_exit :: "generation \<Rightarrow> generation \<Rightarrow> generation \<Rightarrow> exit_disposition" where
  "classify_exit spawned_gen current_gen expected_exit_gen =
     (if spawned_gen \<noteq> current_gen then StaleWatchedOver
      else if expected_exit_gen = spawned_gen then IntentionalStop
      else Crash)"

definition take_stop_intent :: "pid \<Rightarrow> pid option \<Rightarrow> bool \<times> pid option" where
  "take_stop_intent pid intent = (if intent = Some pid then (True, None) else (False, intent))"

definition remove_if :: "pid \<Rightarrow> core_record option \<Rightarrow> core_record option" where
  "remove_if pid current =
     (case current of Some record \<Rightarrow> if cr_pid record = pid then None else current | None \<Rightarrow> None)"

definition with_kind_and_exe :: "pid \<Rightarrow> int \<Rightarrow> core_kind \<Rightarrow> string option \<Rightarrow> core_record" where
  "with_kind_and_exe pid started_at kind exe =
     \<lparr>cr_pid = pid, cr_started_at = started_at div 1000000000, cr_kind = kind, cr_exe = exe\<rparr>"

text \<open>A process and what it shares with others: the two files, the live processes, the clock.\<close>

datatype task =
    Watching generation pid
  | Deciding generation int
  | BackingOff generation int
  | Probing generation pid "int option" \<comment> \<open>the exit that made a watcher spawn, if one did\<close>
  | Reporting generation string \<comment> \<open>the watcher of a crash, while it releases the desktop proxy\<close>
  | Stopping "pid option"
  | Announcing \<comment> \<open>a stop that is done, while it releases the desktop proxy\<close>

record host =
  ho_inner :: manager_inner
  ho_record :: "core_record option"
  ho_intent :: "pid option"
  ho_alive :: "pid list"
  ho_now :: int
  ho_tasks :: "task list"

definition host_new :: "int \<Rightarrow> host" where
  "host_new now =
     \<lparr>ho_inner = manager_inner_new, ho_record = None, ho_intent = None, ho_alive = [], ho_now = now,
      ho_tasks = []\<rparr>"

definition finish :: "task \<Rightarrow> host \<Rightarrow> host" where
  "finish t h = h\<lparr>ho_tasks := remove1 t (ho_tasks h)\<rparr>"

definition become :: "task \<Rightarrow> task \<Rightarrow> host \<Rightarrow> host" where
  "become t t' h = h\<lparr>ho_tasks := t' # remove1 t (ho_tasks h)\<rparr>"

definition on_inner :: "(manager_inner \<Rightarrow> manager_inner) \<Rightarrow> host \<Rightarrow> host" where
  "on_inner f h = h\<lparr>ho_inner := f (ho_inner h)\<rparr>"

section \<open>Spawning\<close>

text \<open>
  \<open>spawn_core_as\<close> from the started child to the bumped generation. The record on disk is written
  unless the write fails, which is only logged.
\<close>

definition spawned_inner :: "pid \<Rightarrow> string \<Rightarrow> int \<Rightarrow> manager_inner \<Rightarrow> manager_inner" where
  "spawned_inner pid binary now mi =
     mi\<lparr>mi_resolved_binary := Some binary, mi_state := Running, mi_pid := Some pid,
        mi_started_at := Some now, mi_owns_child := True, mi_expected_exit := False,
        mi_generation := mi_generation mi + 1, mi_expected_exit_gen := no_generation\<rparr>"

definition spawn_child ::
  "core_kind \<Rightarrow> string \<Rightarrow> string option \<Rightarrow> bool \<Rightarrow> pid \<Rightarrow> host \<Rightarrow> host"
where
  "spawn_child kind binary exe written pid h =
     h\<lparr>ho_inner := spawned_inner pid binary (ho_now h) (ho_inner h),
       ho_record := (if written then Some (with_kind_and_exe pid (ho_now h) kind exe) else ho_record h),
       ho_alive := pid # ho_alive h\<rparr>"

text \<open>\<open>rollback_failed_spawn\<close>, after the probe of the controller has failed and the child was stopped.\<close>

definition rollback_failed_spawn :: "pid \<Rightarrow> string \<Rightarrow> host \<Rightarrow> host" where
  "rollback_failed_spawn pid message h =
     h\<lparr>ho_record := remove_if pid (ho_record h),
       ho_inner := (ho_inner h)\<lparr>mi_owns_child := False, mi_pid := None, mi_started_at := None,
                                mi_state := CoreFailed message\<rparr>\<rparr>"

text \<open>The last part of a successful spawn: publish the kind and the start.\<close>

definition publish_spawn :: "bool \<Rightarrow> core_kind \<Rightarrow> string \<Rightarrow> string \<Rightarrow> string \<Rightarrow> manager_inner \<Rightarrow> manager_inner" where
  "publish_spawn publish kind version path source mi =
     (if publish then send_action (CoreStarted version path source) (mi\<lparr>mi_core_kind := kind\<rparr>) else mi)"

section \<open>The watcher\<close>

definition show_i32 :: "int \<Rightarrow> string" where
  "show_i32 n = (if n < 0 then ''-'' @ show_nat (nat (- n)) else show_nat (nat n))"

definition auto_restart_failure_message :: "int \<Rightarrow> string \<Rightarrow> string" where
  "auto_restart_failure_message exit_code error =
     ''exited '' @ show_i32 exit_code @ '' (auto-restart failed: '' @ error @ '')''"

text \<open>From the exit of the child to the announcement of it.\<close>

definition watcher_wakes :: "generation \<Rightarrow> pid \<Rightarrow> int \<Rightarrow> host \<Rightarrow> host" where
  "watcher_wakes spawned_gen child exit_code h =
     (let mi = ho_inner h; task = Watching spawned_gen child
      in if spawned_gen \<noteq> mi_generation mi then finish task h
      else
        let expected = mi_expected_exit mi;
            mi = mi\<lparr>mi_pid := None, mi_owns_child := False, mi_expected_exit := False\<rparr>;
            (expected, intent, record) =
              (case mi_pid (ho_inner h) of
                 None \<Rightarrow> (expected, ho_intent h, ho_record h)
               | Some pid \<Rightarrow>
                   (let (taken, intent) = take_stop_intent pid (ho_intent h)
                    in (expected \<or> taken, intent, remove_if pid (ho_record h))));
            mi = (if expected then mi\<lparr>mi_state := Stopped\<rparr> else mi);
            mi = send_action (CoreExited exit_code) mi;
            h = h\<lparr>ho_inner := mi, ho_intent := intent, ho_record := record\<rparr>
        in if expected then finish task h else become task (Deciding spawned_gen exit_code) h)"

text \<open>
  From the announcement to the end of the watcher, to the pause before the restart, or to the release of the desktop
  proxy before the failure is reported. The report itself, after the release, is \<open>watcher_fails\<close>: it looks at nothing
  that happened meanwhile.
\<close>

definition watcher_fails :: "string \<Rightarrow> manager_inner \<Rightarrow> manager_inner" where
  "watcher_fails msg mi = send_action (CoreErrored msg) (mi\<lparr>mi_state := CoreFailed msg\<rparr>)"

definition watcher_decides :: "generation \<Rightarrow> int \<Rightarrow> int \<Rightarrow> host \<Rightarrow> host" where
  "watcher_decides spawned_gen exit_code recorded h =
     (let mi = ho_inner h; task = Deciding spawned_gen exit_code
      in case classify_exit spawned_gen (mi_generation mi) (mi_expected_exit_gen mi) of
           StaleWatchedOver \<Rightarrow> finish task h
         | IntentionalStop \<Rightarrow> finish task (h\<lparr>ho_inner := mi\<lparr>mi_state := Stopped\<rparr>\<rparr>)
         | Crash \<Rightarrow>
             (if mi_restarting mi then
                finish task (h\<lparr>ho_inner := mi\<lparr>mi_state := CoreFailed
                  (''target exited '' @ show_i32 exit_code @ '' during core transaction'')\<rparr>\<rparr>)
              else let (permitted, mi) = should_auto_restart (ho_now h) mi
                in if permitted
                then become task (BackingOff spawned_gen exit_code)
                       (h\<lparr>ho_inner := record_restart recorded mi, ho_now := recorded\<rparr>)
                else become task (Reporting spawned_gen (''exited '' @ show_i32 exit_code)) (h\<lparr>ho_inner := mi\<rparr>)))"

text \<open>Whether the decision starts the pause before a restart.\<close>

definition restarts_at :: "generation \<Rightarrow> host \<Rightarrow> bool" where
  "restarts_at spawned_gen h =
     (classify_exit spawned_gen (mi_generation (ho_inner h)) (mi_expected_exit_gen (ho_inner h)) = Crash \<and>
      \<not> mi_restarting (ho_inner h) \<and> fst (should_auto_restart (ho_now h) (ho_inner h)))"

section \<open>Stop and adoption\<close>

text \<open>\<open>stop\<close> up to the signal: arm the generation, read the pid, tell a foreign supervisor.\<close>

definition stop_begins :: "bool \<Rightarrow> host \<Rightarrow> host" where
  "stop_begins marked h =
     (let mi = ho_inner h; pid = mi_pid mi
      in h\<lparr>ho_inner := mi\<lparr>mi_expected_exit_gen := mi_generation mi\<rparr>,
           ho_intent := (case pid of
              Some p \<Rightarrow> if \<not> mi_owns_child mi \<and> marked then Some p else ho_intent h
            | None \<Rightarrow> ho_intent h),
           ho_tasks := Stopping pid # ho_tasks h\<rparr>)"

text \<open>
  \<open>stop\<close> after the signal: the intent is withdrawn; then either the signal's error or the clean-up up to the release
  of the desktop proxy. The exit is announced after the release.
\<close>

definition stop_cleans :: "pid option \<Rightarrow> bool \<Rightarrow> host \<Rightarrow> host" where
  "stop_cleans pid stopped h =
     (let h = finish (Stopping pid) h;
          h = (case pid of Some p \<Rightarrow> h\<lparr>ho_intent := snd (take_stop_intent p (ho_intent h))\<rparr> | None \<Rightarrow> h)
      in if stopped \<or> pid = None
         then h\<lparr>ho_record := (case pid of Some p \<Rightarrow> remove_if p (ho_record h) | None \<Rightarrow> ho_record h),
                ho_inner := (ho_inner h)\<lparr>mi_pid := None, mi_state := Stopped\<rparr>,
                ho_tasks := Announcing # ho_tasks h\<rparr>
         else h)"

definition stop_announces :: "host \<Rightarrow> host" where
  "stop_announces h = on_inner (send_action (CoreExited 0)) (finish Announcing h)"

text \<open>\<open>adopt_running_core\<close>, given the record that \<open>read_live_for_kind\<close> accepted.\<close>

definition adopt_running_core :: "core_record option \<Rightarrow> manager_inner \<Rightarrow> manager_inner" where
  "adopt_running_core live mi =
     (if mi_pid mi \<noteq> None then mi
      else case live of None \<Rightarrow> mi
        | Some record \<Rightarrow> mi\<lparr>mi_pid := Some (cr_pid record),
            mi_started_at := Some (cr_started_at record * 1000000000), mi_state := Running\<rparr>)"

text \<open>The last part of \<open>commit_stopped_selection\<close>.\<close>

definition commit_selection :: "core_kind \<Rightarrow> manager_inner \<Rightarrow> manager_inner" where
  "commit_selection target mi =
     mi\<lparr>mi_core_kind := target, mi_state := Stopped, mi_generation := mi_generation mi + 1\<rparr>"

definition is_inactive :: "core_state \<Rightarrow> bool" where
  "is_inactive s = (case s of Stopped \<Rightarrow> True | CoreFailed _ \<Rightarrow> True | _ \<Rightarrow> False)"

section \<open>Steps\<close>

datatype event =
    Elapses int
  | Dies pid
  | Wakes generation
  | Decides generation
  | AutoRestarts int \<comment> \<open>a decision that records a restart at this time\<close>
  | Respawns generation
  | RespawnFails generation
  | ProbeAnswers generation
  | ProbeFails generation
  | Reports generation
  | StopBegins
  | StopEnds "pid option" bool
  | Announces
  | UserSpawns pid
  | Selects core_kind
  | ResetsHistory
  | SetsRestarting bool
  | Adopts
  | OtherMarksIntent pid
  | OtherWritesRecord

definition respawn_tasks :: "task \<Rightarrow> pid \<Rightarrow> int \<Rightarrow> host \<Rightarrow> host" where
  "respawn_tasks task p code h = become task (Probing (mi_generation (ho_inner h)) p (Some code)) h"

definition user_tasks :: "pid \<Rightarrow> host \<Rightarrow> host" where
  "user_tasks p h = h\<lparr>ho_tasks := Probing (mi_generation (ho_inner h)) p None # ho_tasks h\<rparr>"

text \<open>The readiness probe gives up: the child is stopped, the spawn rolled back, and a watcher goes on to its report.\<close>

definition probe_fails :: "generation \<Rightarrow> pid \<Rightarrow> int option \<Rightarrow> string \<Rightarrow> host \<Rightarrow> host" where
  "probe_fails g p initiator err h =
     (let h = rollback_failed_spawn p err (h\<lparr>ho_alive := removeAll p (ho_alive h)\<rparr>)
      in case initiator of None \<Rightarrow> finish (Probing g p initiator) h
         | Some code \<Rightarrow> become (Probing g p initiator) (Reporting g (auto_restart_failure_message code err)) h)"

inductive lifecycle_step :: "host \<Rightarrow> event \<Rightarrow> host \<Rightarrow> bool" where
  elapses: "0 \<le> d \<Longrightarrow> lifecycle_step h (Elapses d) (h\<lparr>ho_now := ho_now h + d\<rparr>)"
| dies: "lifecycle_step h (Dies p) (h\<lparr>ho_alive := removeAll p (ho_alive h)\<rparr>)"
| wakes: "Watching g p \<in> set (ho_tasks h) \<Longrightarrow> p \<notin> set (ho_alive h) \<Longrightarrow>
    lifecycle_step h (Wakes g) (watcher_wakes g p code h)"
| decides: "Deciding g code \<in> set (ho_tasks h) \<Longrightarrow> \<not> restarts_at g h \<Longrightarrow>
    lifecycle_step h (Decides g) (watcher_decides g code (ho_now h) h)"
| auto_restarts: "Deciding g code \<in> set (ho_tasks h) \<Longrightarrow> restarts_at g h \<Longrightarrow> ho_now h \<le> t \<Longrightarrow>
    lifecycle_step h (AutoRestarts t) (watcher_decides g code t h)"
| respawns: "BackingOff g code \<in> set (ho_tasks h) \<Longrightarrow> p \<notin> set (ho_alive h) \<Longrightarrow>
    lifecycle_step h (Respawns g) (respawn_tasks (BackingOff g code) p code
      (spawn_child (mi_core_kind (ho_inner h)) binary exe written p h))"
| respawn_fails: "BackingOff g code \<in> set (ho_tasks h) \<Longrightarrow>
    lifecycle_step h (RespawnFails g)
      (become (BackingOff g code) (Reporting g (auto_restart_failure_message code err)) h)"
| reports: "Reporting g msg \<in> set (ho_tasks h) \<Longrightarrow>
    lifecycle_step h (Reports g) (on_inner (watcher_fails msg) (finish (Reporting g msg) h))"
| probe_answers: "Probing g p initiator \<in> set (ho_tasks h) \<Longrightarrow>
    lifecycle_step h (ProbeAnswers g) (become (Probing g p initiator) (Watching g p)
      (on_inner (publish_spawn publish kind version path source) h))"
| probe_gives_up: "Probing g p initiator \<in> set (ho_tasks h) \<Longrightarrow>
    lifecycle_step h (ProbeFails g) (probe_fails g p initiator err h)"
| stop_begins: "lifecycle_step h StopBegins (stop_begins marked h)"
| stop_ends: "Stopping p \<in> set (ho_tasks h) \<Longrightarrow>
    lifecycle_step h (StopEnds p stopped) (stop_cleans p stopped h)"
| announces: "Announcing \<in> set (ho_tasks h) \<Longrightarrow> lifecycle_step h Announces (stop_announces h)"
| user_spawns: "p \<notin> set (ho_alive h) \<Longrightarrow>
    lifecycle_step h (UserSpawns p) (user_tasks p (spawn_child kind binary exe written p h))"
| selects: "is_inactive (mi_state (ho_inner h)) \<Longrightarrow> mi_pid (ho_inner h) = None \<Longrightarrow>
    \<not> mi_restarting (ho_inner h) \<Longrightarrow> lifecycle_step h (Selects k) (on_inner (commit_selection k) h)"
| resets: "lifecycle_step h ResetsHistory (on_inner reset_restart_history h)"
| sets_restarting: "lifecycle_step h (SetsRestarting b) (on_inner (\<lambda>mi. mi\<lparr>mi_restarting := b\<rparr>) h)"
| adopts: "lifecycle_step h Adopts (on_inner (adopt_running_core live) h)"
| other_marks: "lifecycle_step h (OtherMarksIntent p) (h\<lparr>ho_intent := Some p\<rparr>)"
| other_writes: "lifecycle_step h OtherWritesRecord (h\<lparr>ho_record := record\<rparr>)"

inductive_cases stop_ends_cases: "lifecycle_step h (StopEnds p b) h'"
inductive_cases stop_begins_cases: "lifecycle_step h StopBegins h'"

inductive lifecycle_run :: "host \<Rightarrow> event list \<Rightarrow> host \<Rightarrow> bool" for start where
  nil: "lifecycle_run start [] start"
| snoc: "lifecycle_run start es h \<Longrightarrow> lifecycle_step h e h' \<Longrightarrow> lifecycle_run start (es @ [e]) h'"

lemma lifecycle_run_single: "lifecycle_step h e h' \<Longrightarrow> lifecycle_run h [e] h'"
  using lifecycle_run.snoc [OF lifecycle_run.nil] by fastforce

lemma lifecycle_run_append:
  "lifecycle_run h es h' \<Longrightarrow> lifecycle_run h' fs h'' \<Longrightarrow> lifecycle_run h (es @ fs) h''"
proof (rotate_tac 1, induction rule: lifecycle_run.induct)
  case nil
  then show ?case by simp
next
  case (snoc fs h'' e h3)
  then have "lifecycle_run h ((es @ fs) @ [e]) h3" by (blast intro: lifecycle_run.snoc)
  then show ?case by simp
qed

lemmas lifecycle_defs =
  watcher_wakes_def watcher_decides_def watcher_fails_def respawn_tasks_def user_tasks_def
  spawn_child_def spawned_inner_def probe_fails_def rollback_failed_spawn_def publish_spawn_def
  stop_begins_def stop_cleans_def stop_announces_def adopt_running_core_def commit_selection_def
  reset_restart_history_def record_restart_def should_auto_restart_def send_action_def
  finish_def become_def on_inner_def

section \<open>The restart rate\<close>

fun note_restart :: "int list \<Rightarrow> event \<Rightarrow> int list" where
  "note_restart rs (AutoRestarts t) = rs @ [t]"
| "note_restart rs ResetsHistory = []"
| "note_restart rs _ = rs"

text \<open>The times of the automatic restarts of a run since the last explicit restart.\<close>

definition restart_times :: "event list \<Rightarrow> int list" where
  "restart_times es = foldl note_restart [] es"

definition spaced :: "int list \<Rightarrow> bool" where
  "spaced rs \<longleftrightarrow> (\<forall>i. i + max_restarts_in_window < length rs \<longrightarrow>
     rs ! i + restart_window < rs ! (i + max_restarts_in_window))"

lemma prune_history_split:
  "history = takeWhile (\<lambda>t. t < start) history @ prune_history start history"
  by (induction history) auto

lemma spaced_snoc:
  assumes "spaced rs" and "rs = old @ recent" and "\<forall>x \<in> set old. x + restart_window < t"
    and "length recent < max_restarts_in_window"
  shows "spaced (rs @ [t])"
  unfolding spaced_def
proof (intro allI impI)
  fix i assume i: "i + max_restarts_in_window < length (rs @ [t])"
  show "(rs @ [t]) ! i + restart_window < (rs @ [t]) ! (i + max_restarts_in_window)"
  proof (cases "i + max_restarts_in_window < length rs")
    case True
    with assms(1) show ?thesis by (simp add: spaced_def nth_append)
  next
    case False
    with i have last: "i + max_restarts_in_window = length rs" by simp
    with assms(2,4) have "i < length old" by simp
    then have "rs ! i \<in> set old" and "i < length rs" using assms(2) by (auto simp: nth_append)
    with assms(3) last show ?thesis by (simp add: nth_append)
  qed
qed

definition history_inv :: "int list \<Rightarrow> host \<Rightarrow> bool" where
  "history_inv rs h \<longleftrightarrow> spaced rs \<and>
     (\<exists>old. rs = old @ mi_restart_history (ho_inner h) \<and> (\<forall>x \<in> set old. x + restart_window < ho_now h))"


lemma send_action_frame [simp]:
  "mi_restart_history (send_action a mi) = mi_restart_history mi"
  "mi_state (send_action a mi) = mi_state mi"
  "mi_pid (send_action a mi) = mi_pid mi"
  "mi_owns_child (send_action a mi) = mi_owns_child mi"
  "mi_generation (send_action a mi) = mi_generation mi"
  "mi_expected_exit_gen (send_action a mi) = mi_expected_exit_gen mi"
  "mi_expected_exit (send_action a mi) = mi_expected_exit mi"
  "mi_core_kind (send_action a mi) = mi_core_kind mi"
  by (simp_all add: send_action_def)

lemma wakes_frame:
  "mi_restart_history (ho_inner (watcher_wakes g p code h)) = mi_restart_history (ho_inner h)"
  "ho_now (watcher_wakes g p code h) = ho_now h"
  "mi_generation (ho_inner (watcher_wakes g p code h)) = mi_generation (ho_inner h)"
  "mi_expected_exit_gen (ho_inner (watcher_wakes g p code h)) = mi_expected_exit_gen (ho_inner h)"
  by (auto simp: watcher_wakes_def Let_def finish_def become_def split: option.splits prod.splits if_splits)

lemma decides_frame:
  "mi_generation (ho_inner (watcher_decides g code t h)) = mi_generation (ho_inner h)"
  "mi_expected_exit_gen (ho_inner (watcher_decides g code t h)) = mi_expected_exit_gen (ho_inner h)"
  "mi_pid (ho_inner (watcher_decides g code t h)) = mi_pid (ho_inner h)"
  by (auto simp: watcher_decides_def should_auto_restart_def record_restart_def watcher_fails_def Let_def
      finish_def become_def split: exit_disposition.splits prod.splits if_splits)

lemma decides_history:
  "ho_now (watcher_decides g code t h) = (if restarts_at g h then t else ho_now h)"
  "mi_restart_history (ho_inner (watcher_decides g code t h)) =
     (if restarts_at g h
      then prune_history (ho_now h - restart_window) (mi_restart_history (ho_inner h)) @ [t]
      else if classify_exit g (mi_generation (ho_inner h)) (mi_expected_exit_gen (ho_inner h)) = Crash \<and>
              \<not> mi_restarting (ho_inner h)
      then prune_history (ho_now h - restart_window) (mi_restart_history (ho_inner h))
      else mi_restart_history (ho_inner h))"
  by (auto simp: watcher_decides_def restarts_at_def should_auto_restart_def record_restart_def
      watcher_fails_def Let_def finish_def become_def split: exit_disposition.splits)

lemma stop_cleans_frame:
  "mi_restart_history (ho_inner (stop_cleans p b h)) = mi_restart_history (ho_inner h)"
  "ho_now (stop_cleans p b h) = ho_now h"
  "mi_generation (ho_inner (stop_cleans p b h)) = mi_generation (ho_inner h)"
  "mi_expected_exit_gen (ho_inner (stop_cleans p b h)) = mi_expected_exit_gen (ho_inner h)"
  "ho_tasks (stop_cleans p b h) = (if b \<or> p = None then [Announcing] else []) @ remove1 (Stopping p) (ho_tasks h)"
  by (auto simp: stop_cleans_def Let_def finish_def split: option.splits)

lemma probe_fails_frame:
  "mi_restart_history (ho_inner (probe_fails g p i err h)) = mi_restart_history (ho_inner h)"
  "ho_now (probe_fails g p i err h) = ho_now h"
  "mi_generation (ho_inner (probe_fails g p i err h)) = mi_generation (ho_inner h)"
  "ho_tasks (probe_fails g p i err h) =
     (case i of None \<Rightarrow> [] | Some code \<Rightarrow> [Reporting g (auto_restart_failure_message code err)]) @
     remove1 (Probing g p i) (ho_tasks h)"
  "mi_pid (ho_inner (probe_fails g p i err h)) = None"
  by (auto simp: probe_fails_def rollback_failed_spawn_def Let_def finish_def become_def split: option.splits)

text \<open>Pruning keeps the invariant, and a permitted restart adds a time that is far enough away.\<close>

lemma history_inv_prune:
  assumes "history_inv rs h"
  obtains old where "rs = old @ prune_history (ho_now h - restart_window) (mi_restart_history (ho_inner h))"
    and "\<forall>x \<in> set old. x + restart_window < ho_now h"
proof -
  let ?start = "ho_now h - restart_window" and ?history = "mi_restart_history (ho_inner h)"
  from assms obtain old where old: "rs = old @ ?history" "\<forall>x \<in> set old. x + restart_window < ho_now h"
    by (auto simp: history_inv_def)
  let ?all = "old @ takeWhile (\<lambda>t. t < ?start) ?history"
  have "rs = ?all @ prune_history ?start ?history"
    using old(1) prune_history_split [of ?history ?start] by simp
  moreover have "\<forall>x \<in> set ?all. x + restart_window < ho_now h"
    using old(2) by (auto dest: set_takeWhileD)
  ultimately show thesis by (rule that)
qed

lemma history_inv_restart:
  assumes "history_inv rs h" and "restarts_at g h" and "ho_now h \<le> t"
  shows "history_inv (rs @ [t]) (watcher_decides g code t h)"
proof -
  obtain old where old: "rs = old @ prune_history (ho_now h - restart_window) (mi_restart_history (ho_inner h))"
    and far: "\<forall>x \<in> set old. x + restart_window < ho_now h"
    using assms(1) by (rule history_inv_prune)
  have late: "\<forall>x \<in> set old. x + restart_window < t" using far assms(3) by fastforce
  have few: "length (prune_history (ho_now h - restart_window) (mi_restart_history (ho_inner h)))
      < max_restarts_in_window"
    using assms(2) by (simp add: restarts_at_def should_auto_restart_def Let_def)
  have "spaced (rs @ [t])" using assms(1) old late few by (intro spaced_snoc) (auto simp: history_inv_def)
  with old late assms(2) show ?thesis by (simp add: history_inv_def decides_history)
qed

lemma history_inv_decides:
  assumes "history_inv rs h" and "\<not> restarts_at g h"
  shows "history_inv rs (watcher_decides g code (ho_now h) h)"
proof -
  obtain old where "rs = old @ prune_history (ho_now h - restart_window) (mi_restart_history (ho_inner h))"
    and "\<forall>x \<in> set old. x + restart_window < ho_now h"
    using assms(1) by (rule history_inv_prune)
  with assms show ?thesis by (auto simp: history_inv_def decides_history)
qed

lemma history_inv_frame:
  "history_inv rs h \<Longrightarrow> mi_restart_history (ho_inner h') = mi_restart_history (ho_inner h) \<Longrightarrow>
    ho_now h \<le> ho_now h' \<Longrightarrow> history_inv rs h'"
  by (fastforce simp: history_inv_def)

lemma history_inv_reset: "history_inv [] (on_inner reset_restart_history h)"
  by (simp add: history_inv_def spaced_def on_inner_def reset_restart_history_def)

lemma history_inv_step:
  assumes "lifecycle_step h e h'" and "history_inv rs h"
  shows "history_inv (note_restart rs e) h'"
  using assms
proof (induction rule: lifecycle_step.induct)
  case (decides g code h)
  then show ?case by (simp add: history_inv_decides)
next
  case (auto_restarts g code h t)
  then show ?case by (simp add: history_inv_restart)
next
  case (resets h)
  then show ?case by (simp add: history_inv_reset)
qed (auto elim!: history_inv_frame simp: wakes_frame stop_cleans_frame probe_fails_frame respawn_tasks_def
    user_tasks_def spawn_child_def spawned_inner_def watcher_fails_def publish_spawn_def stop_begins_def
    stop_announces_def adopt_running_core_def commit_selection_def finish_def become_def on_inner_def Let_def split: option.splits)

lemma history_inv_run:
  "lifecycle_run (host_new now) es h \<Longrightarrow> history_inv (restart_times es) h"
proof (induction rule: lifecycle_run.induct)
  case nil
  show ?case by (simp add: history_inv_def spaced_def restart_times_def host_new_def manager_inner_new_def)
next
  case (snoc es h e h')
  then show ?case by (simp add: restart_times_def history_inv_step)
qed


section \<open>Supervision\<close>

definition supervised :: "host \<Rightarrow> bool" where
  "supervised h \<longleftrightarrow> (\<forall>p. mi_owns_child (ho_inner h) \<longrightarrow> mi_pid (ho_inner h) = Some p \<longrightarrow>
     Watching (mi_generation (ho_inner h)) p \<in> set (ho_tasks h) \<or>
     (\<exists>i. Probing (mi_generation (ho_inner h)) p i \<in> set (ho_tasks h)))"

lemma lost_by_remove1: "x \<in> set xs \<Longrightarrow> x \<notin> set (remove1 y xs) \<Longrightarrow> x = y"
  by (metis in_set_remove1)

lemma supervised_wakes: "supervised h \<Longrightarrow> supervised (watcher_wakes g p code h)"
  by (auto simp: supervised_def watcher_wakes_def Let_def finish_def become_def
      split: option.splits prod.splits if_splits)

lemma decides_tasks:
  "set (ho_tasks (watcher_decides g code t h)) \<supseteq> set (ho_tasks h) - {Deciding g code}"
  "mi_owns_child (ho_inner (watcher_decides g code t h)) = mi_owns_child (ho_inner h)"
  by (auto simp: watcher_decides_def should_auto_restart_def record_restart_def watcher_fails_def Let_def
      finish_def become_def split: exit_disposition.splits dest: lost_by_remove1)

lemma supervised_decides: "supervised h \<Longrightarrow> supervised (watcher_decides g code t h)"
  using decides_tasks [where g = g and code = code and t = t and h = h]
  by (fastforce simp: supervised_def decides_frame)

lemma supervised_answers:
  "supervised h \<Longrightarrow> supervised (become (Probing g p i) (Watching g p)
     (on_inner (publish_spawn publish kind version path source) h))"
  unfolding supervised_def
  by (auto simp: become_def on_inner_def publish_spawn_def split: if_splits)
    (metis in_set_remove1 task.inject(4))+

lemma supervised_stop_cleans: "supervised h \<Longrightarrow> supervised (stop_cleans p b h)"
  by (auto simp: supervised_def stop_cleans_def Let_def finish_def split: option.splits if_splits)

lemma supervised_step:
  assumes "lifecycle_step h e h'" and "e \<noteq> Adopts" and "supervised h"
  shows "supervised h'"
  using assms
proof (induction rule: lifecycle_step.induct)
  case (wakes g p h code)
  then show ?case by (simp add: supervised_wakes)
next
  case (decides g code h)
  then show ?case by (simp add: supervised_decides)
next
  case (auto_restarts g code h t)
  then show ?case by (simp add: supervised_decides)
next
  case (probe_answers g p i h publish kind version path source)
  then show ?case by (simp add: supervised_answers)
next
  case (stop_ends p h b)
  then show ?case by (simp add: supervised_stop_cleans)
next
  case (probe_gives_up g p i h err)
  then show ?case by (simp add: supervised_def probe_fails_frame)
qed (auto simp: supervised_def respawn_tasks_def user_tasks_def spawn_child_def spawned_inner_def
    watcher_fails_def stop_begins_def stop_announces_def commit_selection_def reset_restart_history_def finish_def become_def
    on_inner_def Let_def)


section \<open>A stop that holds\<close>

text \<open>Tasks on their way to a running core or to the report of a failure.\<close>

fun launching :: "task \<Rightarrow> bool" where
  "launching (BackingOff _ _) = True"
| "launching (Probing _ _ _) = True"
| "launching (Reporting _ _) = True"
| "launching _ = False"

definition no_launch :: "host \<Rightarrow> bool" where
  "no_launch h \<longleftrightarrow> (\<forall>t \<in> set (ho_tasks h). \<not> launching t)"

definition armed :: "host \<Rightarrow> bool" where
  "armed h \<longleftrightarrow> no_launch h \<and> mi_expected_exit_gen (ho_inner h) = mi_generation (ho_inner h)"

definition settled :: "host \<Rightarrow> bool" where
  "settled h \<longleftrightarrow> armed h \<and> mi_state (ho_inner h) = Stopped \<and> mi_pid (ho_inner h) = None"

fun starts_core :: "event \<Rightarrow> bool" where
  "starts_core (UserSpawns _) = True"
| "starts_core (Selects _) = True"
| "starts_core Adopts = True"
| "starts_core _ = False"

lemma armed_decides:
  "armed h \<Longrightarrow> armed (watcher_decides g code t h)"
  "settled h \<Longrightarrow> settled (watcher_decides g code t h)"
  by (auto simp: armed_def settled_def no_launch_def watcher_decides_def classify_exit_def Let_def finish_def
      dest!: notin_set_remove1)

lemma armed_wakes:
  "armed h \<Longrightarrow> armed (watcher_wakes g p code h)"
  "settled h \<Longrightarrow> settled (watcher_wakes g p code h)"
  by (auto simp: armed_def settled_def no_launch_def watcher_wakes_def Let_def finish_def become_def
      dest!: notin_set_remove1 split: option.splits prod.splits if_splits)

lemma no_launch_frame:
  "no_launch h \<Longrightarrow> set (ho_tasks h') \<subseteq> insert t (set (ho_tasks h)) \<Longrightarrow> \<not> launching t \<Longrightarrow> no_launch h'"
  by (auto simp: no_launch_def)

lemma no_launch_pending:
  "no_launch h \<Longrightarrow> BackingOff g code \<in> set (ho_tasks h) \<Longrightarrow> P"
  "no_launch h \<Longrightarrow> Probing g p i \<in> set (ho_tasks h) \<Longrightarrow> P"
  "no_launch h \<Longrightarrow> Reporting g msg \<in> set (ho_tasks h) \<Longrightarrow> P"
  by (force simp: no_launch_def)+

lemma armed_stop:
  "armed h \<Longrightarrow> armed (stop_begins marked h)"
  "settled h \<Longrightarrow> settled (stop_begins marked h)"
  "armed h \<Longrightarrow> armed (stop_cleans p b h)"
  "settled h \<Longrightarrow> settled (stop_cleans p b h)"
  "armed h \<Longrightarrow> armed (stop_announces h)"
  "settled h \<Longrightarrow> settled (stop_announces h)"
  by (auto simp: armed_def settled_def no_launch_def stop_begins_def stop_cleans_def stop_announces_def finish_def
      on_inner_def Let_def
      dest!: notin_set_remove1 split: option.splits)

lemma armed_step:
  assumes "lifecycle_step h e h'" and "\<not> starts_core e" and "armed h"
  shows "armed h'"
  using assms
proof (induction rule: lifecycle_step.induct)
  case (wakes g p h code)
  then show ?case by (simp add: armed_wakes)
next
  case (decides g code h)
  then show ?case by (simp add: armed_decides)
next
  case (auto_restarts g code h t)
  then show ?case by (simp add: armed_decides)
next
  case (stop_begins h marked)
  then show ?case by (simp add: armed_stop)
next
  case (stop_ends p h b)
  then show ?case by (simp add: armed_stop)
next
  case (announces h)
  then show ?case by (simp add: armed_stop)
qed (auto simp: armed_def no_launch_def on_inner_def reset_restart_history_def)

lemma settled_step:
  assumes "lifecycle_step h e h'" and "\<not> starts_core e" and "settled h"
  shows "settled h'"
  using assms
proof (induction rule: lifecycle_step.induct)
  case (wakes g p h code)
  then show ?case by (simp add: armed_wakes)
next
  case (decides g code h)
  then show ?case by (simp add: armed_decides)
next
  case (auto_restarts g code h t)
  then show ?case by (simp add: armed_decides)
next
  case (stop_begins h marked)
  then show ?case by (simp add: armed_stop)
next
  case (stop_ends p h b)
  then show ?case by (simp add: armed_stop)
next
  case (announces h)
  then show ?case by (simp add: armed_stop)
qed (auto simp: settled_def armed_def no_launch_def on_inner_def reset_restart_history_def)

lemma armed_run:
  "lifecycle_run h es h' \<Longrightarrow> \<forall>e \<in> set es. \<not> starts_core e \<Longrightarrow> armed h \<Longrightarrow> armed h'"
  by (induction rule: lifecycle_run.induct) (auto intro: armed_step)

lemma settled_run:
  "lifecycle_run h es h' \<Longrightarrow> \<forall>e \<in> set es. \<not> starts_core e \<Longrightarrow> settled h \<Longrightarrow> settled h'"
  by (induction rule: lifecycle_run.induct) (auto intro: settled_step)

lemma run_cons:
  "lifecycle_run h fs h' \<Longrightarrow> fs = e # es \<Longrightarrow> \<exists>h1. lifecycle_step h e h1 \<and> lifecycle_run h1 es h'"
proof (induction arbitrary: es rule: lifecycle_run.induct)
  case nil
  then show ?case by simp
next
  case (snoc fs h1 f h2)
  show ?case
  proof (cases fs)
    case Nil
    with snoc have "f = e" "es = []" "h1 = h" by (auto elim: lifecycle_run.cases)
    then show ?thesis using snoc.hyps(2) by (auto intro: lifecycle_run.nil)
  next
    case (Cons f' fs')
    with snoc.prems have e: "fs = e # fs'" "es = fs' @ [f]" by auto
    from snoc.IH [OF e(1)] snoc.hyps(2) e(2) show ?thesis by (auto intro: lifecycle_run.snoc)
  qed
qed

lemma run_first_step:
  assumes "lifecycle_run h (e # es) h'"
  obtains h1 where "lifecycle_step h e h1" and "lifecycle_run h1 es h'"
  using run_cons [OF assms refl] that by blast

lemma run_append_split:
  assumes "lifecycle_run h (es @ fs) h'"
  obtains h1 where "lifecycle_run h es h1" and "lifecycle_run h1 fs h'"
proof -
  have "\<exists>h1. lifecycle_run h es h1 \<and> lifecycle_run h1 fs h'" using assms
  proof (induction es arbitrary: h)
    case Nil
    then show ?case by (auto intro: lifecycle_run.nil)
  next
    case (Cons e es)
    from Cons.prems have "lifecycle_run h (e # (es @ fs)) h'" by simp
    then obtain h1 where h1: "lifecycle_step h e h1" and rest: "lifecycle_run h1 (es @ fs) h'"
      by (rule run_first_step)
    from Cons.IH [OF rest] obtain h2 where "lifecycle_run h1 es h2" and h2: "lifecycle_run h2 fs h'" by blast
    then have "lifecycle_run h ([e] @ es) h2" using h1 by (blast intro: lifecycle_run_single lifecycle_run_append)
    with h2 show ?case by auto
  qed
  with that show thesis by blast
qed

lemma stop_begins_arms: "no_launch h \<Longrightarrow> armed (stop_begins marked h)"
  by (auto simp: armed_def no_launch_def stop_begins_def Let_def)

lemma stop_cleans_settles:
  assumes "armed h" shows "settled (stop_cleans p True h)"
  using assms
  by (auto simp: settled_def armed_def no_launch_def stop_cleans_def finish_def Let_def
      dest!: notin_set_remove1 split: option.splits)

text \<open>C16: A stop holds. When no spawn is waiting for its controller, no watcher is pausing before a
  restart, and no watcher is about to report a failure, then whatever happens between the parts of stop
  and after it (exits, watchers of any generation up to their reports, other stops, other processes),
  the manager stays in the state Stopped without a core, until someone starts, selects or adopts one.
  The three conditions are needed: a watcher in one of these places goes on regardless of the stop.\<close>

theorem stop_is_final:
  assumes "lifecycle_run h (StopBegins # es @ StopEnds p True # fs) h'" and "no_launch h"
    and "\<forall>e \<in> set es \<union> set fs. \<not> starts_core e"
  shows "mi_state (ho_inner h') = Stopped \<and> mi_pid (ho_inner h') = None"
proof -
  obtain h1 where "lifecycle_step h StopBegins h1" and run1: "lifecycle_run h1 (es @ StopEnds p True # fs) h'"
    using assms(1) by (rule run_first_step)
  then have armed1: "armed h1" using assms(2) by (auto elim!: stop_begins_cases intro: stop_begins_arms)
  obtain h2 where run2: "lifecycle_run h1 es h2" and "lifecycle_run h2 (StopEnds p True # fs) h'"
    using run1 by (rule run_append_split)
  then obtain h3 where step3: "lifecycle_step h2 (StopEnds p True) h3" and run3: "lifecycle_run h3 fs h'"
    by (blast elim: run_first_step)
  have "armed h2" using armed_run [OF run2 _ armed1] assms(3) by blast
  then have "settled h3" using step3 by (auto elim!: stop_ends_cases intro: stop_cleans_settles)
  then have "settled h'" using settled_run [OF run3] assms(3) by blast
  then show ?thesis
    by (simp add: settled_def)
qed

text \<open>A watcher pauses before a restart, with no other restart in the future.\<close>

definition pausing :: "generation \<Rightarrow> int \<Rightarrow> host \<Rightarrow> bool" where
  "pausing g now h \<longleftrightarrow> BackingOff g 2 \<in> set (ho_tasks h) \<and> mi_generation (ho_inner h) = g \<and>
     g + 1 \<noteq> no_generation \<and> ho_now h = now \<and> \<not> mi_restarting (ho_inner h) \<and> 7 \<notin> set (ho_alive h) \<and>
     ho_intent h = None \<and> (\<forall>x \<in> set (mi_restart_history (ho_inner h)). x \<le> now)"

text \<open>A crash of the first core, up to the pause before its automatic restart.\<close>

lemma backing_off_reachable:
  "\<exists>h. lifecycle_run (host_new 0) [UserSpawns 7, ProbeAnswers 1, Dies 7, Wakes 1, AutoRestarts 0] h \<and>
     BackingOff 1 2 \<in> set (ho_tasks h) \<and> 7 \<notin> set (ho_alive h) \<and> mi_pid (ho_inner h) = None \<and>
     pausing 1 0 h"
proof -
  define h1 where "h1 = user_tasks 7 (spawn_child Mihomo ''m'' None True 7 (host_new 0))"
  define h2 where "h2 = become (Probing 1 7 None) (Watching 1 7) (on_inner (publish_spawn True Mihomo [] [] []) h1)"
  define h3 where "h3 = h2\<lparr>ho_alive := removeAll 7 (ho_alive h2)\<rparr>"
  define h4 where "h4 = watcher_wakes 1 7 2 h3"
  define h5 where "h5 = watcher_decides 1 2 0 h4"
  note eval = lifecycle_defs host_new_def manager_inner_new_def restarts_at_def classify_exit_def
    no_generation_def take_stop_intent_def remove_if_def with_kind_and_exe_def restart_window_def
    max_restarts_in_window_def is_core_exited_def Let_def
  have "lifecycle_step (host_new 0) (UserSpawns 7) h1"
    unfolding h1_def by (rule user_spawns) (simp add: host_new_def)
  moreover have "lifecycle_step h1 (ProbeAnswers 1) h2"
    unfolding h2_def by (rule probe_answers) (simp add: h1_def eval)
  moreover have "lifecycle_step h2 (Dies 7) h3" unfolding h3_def by (rule dies)
  moreover have "lifecycle_step h3 (Wakes 1) h4"
    unfolding h4_def by (rule wakes) (simp_all add: h3_def h2_def h1_def eval)
  moreover have "lifecycle_step h4 (AutoRestarts 0) h5"
    unfolding h5_def by (rule auto_restarts) (simp_all add: h4_def h3_def h2_def h1_def eval)
  ultimately have "lifecycle_run (host_new 0) ([UserSpawns 7] @ [ProbeAnswers 1] @ [Dies 7] @ [Wakes 1] @
      [AutoRestarts 0]) h5"
    by (meson lifecycle_run_append lifecycle_run_single)
  moreover have "BackingOff 1 2 \<in> set (ho_tasks h5)" "7 \<notin> set (ho_alive h5)" "mi_pid (ho_inner h5) = None"
    "pausing 1 0 h5"
    by (simp_all add: pausing_def h5_def h4_def h3_def h2_def h1_def eval)
  ultimately show ?thesis by auto
qed

text \<open>A stop during the pause before an automatic restart is lost. Whenever a watcher is in its
  500 ms pause, a complete stop reports success and leaves the manager Stopped without a core, and
  still the watcher goes on to spawn a core, which ends up running: the pause is not followed by
  another look at the state or at the generation the stop has armed, and the spawn disarms it.\<close>

theorem stop_lost_in_backoff:
  assumes "BackingOff g code \<in> set (ho_tasks h)" and "mi_pid (ho_inner h) = None" and "p \<notin> set (ho_alive h)"
  shows "\<exists>h1 h2. lifecycle_run h [StopBegins, StopEnds None True] h1 \<and>
     mi_state (ho_inner h1) = Stopped \<and> mi_pid (ho_inner h1) = None \<and>
     lifecycle_run h1 [Respawns g, ProbeAnswers (mi_generation (ho_inner h) + 1)] h2 \<and>
     mi_state (ho_inner h2) = Running \<and> mi_pid (ho_inner h2) = Some p \<and> p \<in> set (ho_alive h2)"
proof -
  let ?g' = "mi_generation (ho_inner h) + 1"
  define h0 where "h0 = stop_begins False h"
  define h1 where "h1 = stop_cleans None True h0"
  define h1' where "h1' = respawn_tasks (BackingOff g code) p code
    (spawn_child (mi_core_kind (ho_inner h1)) [] None True p h1)"
  define h2 where "h2 = become (Probing ?g' p (Some code)) (Watching ?g' p)
    (on_inner (publish_spawn True Mihomo [] [] []) h1')"
  note defs = h2_def h1'_def h1_def h0_def lifecycle_defs Let_def
  have "lifecycle_step h StopBegins h0" unfolding h0_def by (rule stop_begins)
  moreover have "lifecycle_step h0 (StopEnds None True) h1"
    unfolding h1_def by (rule stop_ends) (simp add: h0_def stop_begins_def assms(2) Let_def)
  ultimately have run1: "lifecycle_run h ([StopBegins] @ [StopEnds None True]) h1"
    by (blast intro: lifecycle_run_append lifecycle_run_single)
  have "lifecycle_step h1 (Respawns g) h1'"
    unfolding h1'_def using assms
    by (intro respawns) (simp_all add: h1_def h0_def stop_begins_def stop_cleans_def finish_def Let_def)
  moreover have "lifecycle_step h1' (ProbeAnswers ?g') h2"
    unfolding h2_def using assms(2) by (intro probe_answers) (simp add: defs)
  ultimately have run2: "lifecycle_run h1 ([Respawns g] @ [ProbeAnswers ?g']) h2"
    by (blast intro: lifecycle_run_append lifecycle_run_single)
  have "mi_state (ho_inner h1) = Stopped" "mi_pid (ho_inner h1) = None" "mi_state (ho_inner h2) = Running"
    "mi_pid (ho_inner h2) = Some p" "p \<in> set (ho_alive h2)"
    by (simp_all add: defs)
  with run1 run2 show ?thesis by auto
qed

text \<open>A failure that is reported while the desktop proxy is released is reported late: after a complete stop the
  report turns the state Stopped into an error, and after a stop and a new start it marks the new core, which is
  running, as failed.\<close>

theorem late_report_overwrites:
  assumes "Reporting g msg \<in> set (ho_tasks h)" and "mi_pid (ho_inner h) = None" and "p \<notin> set (ho_alive h)"
  shows "\<exists>h1 h2. lifecycle_run h [StopBegins, StopEnds None True] h1 \<and> mi_state (ho_inner h1) = Stopped \<and>
     lifecycle_step h1 (Reports g) h2 \<and> mi_state (ho_inner h2) = CoreFailed msg"
    and "\<exists>h1 h2. lifecycle_run h [StopBegins, StopEnds None True, UserSpawns p,
       ProbeAnswers (mi_generation (ho_inner h) + 1)] h1 \<and> mi_state (ho_inner h1) = Running \<and>
     lifecycle_step h1 (Reports g) h2 \<and> mi_state (ho_inner h2) = CoreFailed msg \<and>
     mi_pid (ho_inner h2) = Some p \<and> p \<in> set (ho_alive h2)"
proof -
  let ?g' = "mi_generation (ho_inner h) + 1"
  define h0 where "h0 = stop_begins False h"
  define h1 where "h1 = stop_cleans None True h0"
  define h2 where "h2 = user_tasks p (spawn_child Mihomo [] None True p h1)"
  define h3 where "h3 = become (Probing ?g' p None) (Watching ?g' p) (on_inner (publish_spawn True Mihomo [] [] []) h2)"
  note defs = h3_def h2_def h1_def h0_def lifecycle_defs Let_def
  have "lifecycle_step h StopBegins h0" unfolding h0_def by (rule stop_begins)
  moreover have "lifecycle_step h0 (StopEnds None True) h1"
    unfolding h1_def by (rule stop_ends) (simp add: h0_def stop_begins_def assms(2) Let_def)
  ultimately have run1: "lifecycle_run h ([StopBegins] @ [StopEnds None True]) h1"
    by (blast intro: lifecycle_run_append lifecycle_run_single)
  let ?report = "\<lambda>h. on_inner (watcher_fails msg) (finish (Reporting g msg) h)"
  have late: "Reporting g msg \<in> set (ho_tasks h1)" "Reporting g msg \<in> set (ho_tasks h3)"
    using assms(1) by (simp_all add: defs)
  show "\<exists>h1 h2. lifecycle_run h [StopBegins, StopEnds None True] h1 \<and> mi_state (ho_inner h1) = Stopped \<and>
     lifecycle_step h1 (Reports g) h2 \<and> mi_state (ho_inner h2) = CoreFailed msg"
    using run1 reports [OF late(1)] by - (rule exI [of _ h1], rule exI [of _ "?report h1"], simp add: defs)
  have "lifecycle_step h1 (UserSpawns p) h2"
    unfolding h2_def using assms(3) by (intro user_spawns) (simp add: h1_def h0_def lifecycle_defs Let_def)
  moreover have "lifecycle_step h2 (ProbeAnswers ?g') h3"
    unfolding h3_def by (intro probe_answers) (simp add: h2_def h1_def h0_def lifecycle_defs Let_def)
  ultimately have "lifecycle_run h (([StopBegins] @ [StopEnds None True]) @ [UserSpawns p] @ [ProbeAnswers ?g']) h3"
    using run1 by (meson lifecycle_run_append lifecycle_run_single)
  then show "\<exists>h1 h2. lifecycle_run h [StopBegins, StopEnds None True, UserSpawns p, ProbeAnswers ?g'] h1 \<and>
     mi_state (ho_inner h1) = Running \<and> lifecycle_step h1 (Reports g) h2 \<and> mi_state (ho_inner h2) = CoreFailed msg \<and>
     mi_pid (ho_inner h2) = Some p \<and> p \<in> set (ho_alive h2)"
    using reports [OF late(2)] by - (rule exI [of _ h3], rule exI [of _ "?report h3"], simp add: defs)
qed

text \<open>The hypothesis is reachable: the first restart fails before it has spawned anything.\<close>

theorem late_report_reachable:
  "\<exists>h msg. lifecycle_run (host_new 0) [UserSpawns 7, ProbeAnswers 1, Dies 7, Wakes 1, AutoRestarts 0, RespawnFails 1] h \<and>
     Reporting 1 msg \<in> set (ho_tasks h) \<and> mi_pid (ho_inner h) = None \<and> 7 \<notin> set (ho_alive h)"
proof -
  obtain h where run: "lifecycle_run (host_new 0) [UserSpawns 7, ProbeAnswers 1, Dies 7, Wakes 1, AutoRestarts 0] h"
    and h: "BackingOff 1 2 \<in> set (ho_tasks h)" "7 \<notin> set (ho_alive h)" "mi_pid (ho_inner h) = None"
    using backing_off_reachable by blast
  let ?msg = "auto_restart_failure_message 2 []"
  let ?h = "become (BackingOff 1 2) (Reporting 1 ?msg) h"
  have "lifecycle_run (host_new 0) [UserSpawns 7, ProbeAnswers 1, Dies 7, Wakes 1, AutoRestarts 0, RespawnFails 1] ?h"
    using lifecycle_run.snoc [OF run respawn_fails [OF h(1), of "[]"]] by simp
  moreover have "Reporting 1 ?msg \<in> set (ho_tasks ?h)" "mi_pid (ho_inner ?h) = None" "7 \<notin> set (ho_alive ?h)"
    using h(2,3) by (simp_all add: become_def)
  ultimately show ?thesis by blast
qed

text \<open>The hypothesis of the lost stop is reachable: a crash of the first core leads to it.\<close>

theorem stop_lost_in_backoff_witness:
  "\<exists>h h1 h2. lifecycle_run (host_new 0) [UserSpawns 7, ProbeAnswers 1, Dies 7, Wakes 1, AutoRestarts 0] h \<and>
     lifecycle_run h [StopBegins, StopEnds None True] h1 \<and> mi_state (ho_inner h1) = Stopped \<and>
     lifecycle_run h1 [Respawns 1, ProbeAnswers (mi_generation (ho_inner h) + 1)] h2 \<and>
     mi_state (ho_inner h2) = Running"
  using backing_off_reachable stop_lost_in_backoff [of 1 2 _ 7] by blast

section \<open>Runs that meet the hypotheses\<close>

lemma prune_all: "\<forall>x \<in> set history. x < start \<Longrightarrow> prune_history start history = []"
  by (induction history) auto

text \<open>The restarted core crashes again, and is restarted because the last restart is a minute old.\<close>

lemma crash_cycle:
  assumes "pausing g now h" and "g + 2 \<noteq> no_generation"
  shows "\<exists>h'. lifecycle_run h [Respawns g, ProbeAnswers (g + 1), Dies 7, Wakes (g + 1), Elapses (61 * 1000000000),
     AutoRestarts (now + 61 * 1000000000)] h' \<and> pausing (g + 1) (now + 61 * 1000000000) h'"
proof -
  define h1 where "h1 = respawn_tasks (BackingOff g 2) 7 2 (spawn_child (mi_core_kind (ho_inner h)) [] None True 7 h)"
  define h2 where "h2 = become (Probing (g + 1) 7 (Some 2)) (Watching (g + 1) 7)
    (on_inner (publish_spawn True Mihomo [] [] []) h1)"
  define h3 where "h3 = h2\<lparr>ho_alive := removeAll 7 (ho_alive h2)\<rparr>"
  define h4 where "h4 = watcher_wakes (g + 1) 7 2 h3"
  define h5 where "h5 = h4\<lparr>ho_now := ho_now h4 + 61 * 1000000000\<rparr>"
  define h6 where "h6 = watcher_decides (g + 1) 2 (now + 61 * 1000000000) h5"
  have h: "BackingOff g 2 \<in> set (ho_tasks h)" "mi_generation (ho_inner h) = g" "g + 1 \<noteq> no_generation"
    "ho_now h = now" "\<not> mi_restarting (ho_inner h)" "7 \<notin> set (ho_alive h)"
    "ho_intent h = None" "\<forall>x \<in> set (mi_restart_history (ho_inner h)). x \<le> now"
    using assms(1) by (simp_all add: pausing_def)
  have s1: "lifecycle_step h (Respawns g) h1" unfolding h1_def using h by (intro respawns) simp_all
  have f1: "Probing (g + 1) 7 (Some 2) \<in> set (ho_tasks h1)" "mi_generation (ho_inner h1) = g + 1"
    "mi_expected_exit_gen (ho_inner h1) = no_generation" "\<not> mi_expected_exit (ho_inner h1)"
    "mi_restart_history (ho_inner h1) = mi_restart_history (ho_inner h)" "ho_now h1 = now"
    "\<not> mi_restarting (ho_inner h1)" "ho_intent h1 = None" "mi_pid (ho_inner h1) = Some 7"
    using h by (simp_all add: h1_def respawn_tasks_def become_def spawn_child_def spawned_inner_def)
  have s2: "lifecycle_step h1 (ProbeAnswers (g + 1)) h2" unfolding h2_def using f1 by (intro probe_answers)
  have s3: "lifecycle_step h2 (Dies 7) h3" unfolding h3_def by (rule dies)
  have f3: "Watching (g + 1) 7 \<in> set (ho_tasks h3)" "mi_generation (ho_inner h3) = g + 1" "7 \<notin> set (ho_alive h3)"
    "mi_expected_exit_gen (ho_inner h3) = no_generation" "\<not> mi_expected_exit (ho_inner h3)"
    "mi_restart_history (ho_inner h3) = mi_restart_history (ho_inner h)" "ho_now h3 = now"
    "\<not> mi_restarting (ho_inner h3)" "ho_intent h3 = None" "mi_pid (ho_inner h3) = Some 7"
    using f1 by (simp_all add: h3_def h2_def become_def on_inner_def publish_spawn_def send_action_def
        is_core_exited_def)
  have s4: "lifecycle_step h3 (Wakes (g + 1)) h4" unfolding h4_def using f3 by (intro wakes)
  have f4: "Deciding (g + 1) 2 \<in> set (ho_tasks h4)" "mi_generation (ho_inner h4) = g + 1" "7 \<notin> set (ho_alive h4)"
    "mi_expected_exit_gen (ho_inner h4) = no_generation"
    "mi_restart_history (ho_inner h4) = mi_restart_history (ho_inner h)" "ho_now h4 = now"
    "\<not> mi_restarting (ho_inner h4)" "ho_intent h4 = None"
    using f3 by (simp_all add: h4_def watcher_wakes_def take_stop_intent_def become_def send_action_def Let_def)
  have s5: "lifecycle_step h4 (Elapses (61 * 1000000000)) h5" unfolding h5_def by (rule elapses) simp
  have pruned: "prune_history (ho_now h5 - restart_window) (mi_restart_history (ho_inner h5)) = []"
    using h f4 by (intro prune_all) (force simp: h5_def restart_window_def)
  have permitted: "restarts_at (g + 1) h5"
    using f4 h pruned by (simp add: restarts_at_def classify_exit_def should_auto_restart_def Let_def h5_def
        max_restarts_in_window_def)
  have s6: "lifecycle_step h5 (AutoRestarts (now + 61 * 1000000000)) h6"
    unfolding h6_def using f4 permitted by (intro auto_restarts) (simp_all add: h5_def)
  have "pausing (g + 1) (now + 61 * 1000000000) h6"
    using f4 h assms(2) pruned permitted add.commute [of g 2]
    by (simp add: pausing_def h6_def h5_def watcher_decides_def classify_exit_def should_auto_restart_def
        record_restart_def max_restarts_in_window_def become_def Let_def)
  moreover have "lifecycle_run h ([Respawns g] @ [ProbeAnswers (g + 1)] @ [Dies 7] @ [Wakes (g + 1)] @
      [Elapses (61 * 1000000000)] @ [AutoRestarts (now + 61 * 1000000000)]) h6"
    using s1 s2 s3 s4 s5 s6 by (meson lifecycle_run_append lifecycle_run_single)
  ultimately show ?thesis by auto
qed


lemma started_reachable:
  "\<exists>h. lifecycle_run (host_new 0) [UserSpawns 7, ProbeAnswers 1] h \<and> no_launch h \<and>
     mi_owns_child (ho_inner h) \<and> mi_pid (ho_inner h) = Some 7"
proof -
  define h1 where "h1 = user_tasks 7 (spawn_child Mihomo ''m'' None True 7 (host_new 0))"
  define h2 where "h2 = become (Probing 1 7 None) (Watching 1 7) (on_inner (publish_spawn True Mihomo [] [] []) h1)"
  have "lifecycle_step (host_new 0) (UserSpawns 7) h1"
    unfolding h1_def by (rule user_spawns) (simp add: host_new_def)
  moreover have "lifecycle_step h1 (ProbeAnswers 1) h2"
    unfolding h2_def by (rule probe_answers) (simp add: h1_def lifecycle_defs host_new_def manager_inner_new_def)
  ultimately have "lifecycle_run (host_new 0) ([UserSpawns 7] @ [ProbeAnswers 1]) h2"
    by (meson lifecycle_run_append lifecycle_run_single)
  moreover have "no_launch h2" "mi_owns_child (ho_inner h2)" "mi_pid (ho_inner h2) = Some 7"
    by (simp_all add: h2_def h1_def no_launch_def lifecycle_defs host_new_def manager_inner_new_def
        is_core_exited_def)
  ultimately show ?thesis by auto
qed


theorem stop_is_final_witness:
  "\<exists>h h'. no_launch h \<and> lifecycle_run h [StopBegins, Dies 7, StopEnds (Some 7) True, Wakes 1] h' \<and>
     mi_state (ho_inner h') = Stopped \<and> mi_pid (ho_inner h') = None"
proof -
  obtain h where h: "no_launch h" "mi_pid (ho_inner h) = Some 7"
    and w: "Watching 1 7 \<in> set (ho_tasks h)"
  proof -
    let ?h = "(host_new 0)\<lparr>ho_inner := manager_inner_new\<lparr>mi_pid := Some 7, mi_generation := 1\<rparr>, ho_tasks := [Watching 1 7]\<rparr>"
    show thesis by (rule that [of ?h]) (simp_all add: no_launch_def)
  qed
  define h1 where "h1 = stop_begins False h"
  define h2 where "h2 = h1\<lparr>ho_alive := removeAll 7 (ho_alive h1)\<rparr>"
  define h3 where "h3 = stop_cleans (Some 7) True h2"
  define h4 where "h4 = watcher_wakes 1 7 0 h3"
  have s1: "lifecycle_step h StopBegins h1" unfolding h1_def by (rule stop_begins)
  have s2: "lifecycle_step h1 (Dies 7) h2" unfolding h2_def by (rule dies)
  have s3: "lifecycle_step h2 (StopEnds (Some 7) True) h3"
    unfolding h3_def by (rule stop_ends) (simp add: h2_def h1_def stop_begins_def h Let_def)
  have s4: "lifecycle_step h3 (Wakes 1) h4"
    unfolding h4_def using w
    by (intro wakes) (simp_all add: h3_def h2_def h1_def stop_cleans_def stop_begins_def finish_def Let_def)
  have "lifecycle_run h ([StopBegins] @ [Dies 7] @ [StopEnds (Some 7) True] @ [Wakes 1]) h4"
    using s1 s2 s3 s4 by (meson lifecycle_run_append lifecycle_run_single)
  then have run: "lifecycle_run h (StopBegins # [Dies 7] @ StopEnds (Some 7) True # [Wakes 1]) h4" by simp
  have "mi_state (ho_inner h4) = Stopped \<and> mi_pid (ho_inner h4) = None"
    by (rule stop_is_final [OF run h(1)]) simp
  with run h(1) show ?thesis by auto
qed

section \<open>A failed spawn and a newer one\<close>

text \<open>The roll back of a failed spawn does not look whose pid it clears. When a newer spawn has taken
  over while an older one was still waiting for its controller, the failure of the older one makes the
  manager forget the newer core, which keeps running: the state is an error, no pid is known, and a
  following stop reports success without having signalled any process.\<close>

theorem rollback_forgets_newer_core:
  assumes "Probing g p i \<in> set (ho_tasks h)" and "mi_pid (ho_inner h) = Some q" and "q \<noteq> p"
    and "q \<in> set (ho_alive h)"
  shows "\<exists>h1 h2. lifecycle_step h (ProbeFails g) h1 \<and> mi_pid (ho_inner h1) = None \<and>
     mi_state (ho_inner h1) \<noteq> Running \<and> q \<in> set (ho_alive h1) \<and>
     lifecycle_run h1 [StopBegins, StopEnds None True] h2 \<and> mi_state (ho_inner h2) = Stopped \<and>
     q \<in> set (ho_alive h2)"
proof -
  define h1 where "h1 = probe_fails g p i [] h"
  define h1' where "h1' = stop_begins False h1"
  define h2 where "h2 = stop_cleans None True h1'"
  have step: "lifecycle_step h (ProbeFails g) h1" unfolding h1_def using assms(1) by (rule probe_gives_up)
  have pid: "mi_pid (ho_inner h1) = None" by (simp add: h1_def probe_fails_frame)
  have state: "mi_state (ho_inner h1) \<noteq> Running" and alive: "q \<in> set (ho_alive h1)"
    using assms(3,4)
    by (simp_all add: h1_def probe_fails_def rollback_failed_spawn_def finish_def become_def Let_def split: option.split)
  have "lifecycle_step h1 StopBegins h1'" unfolding h1'_def by (rule stop_begins)
  moreover have "lifecycle_step h1' (StopEnds None True) h2"
    unfolding h2_def by (rule stop_ends) (simp add: h1'_def stop_begins_def pid Let_def)
  ultimately have "lifecycle_run h1 ([StopBegins] @ [StopEnds None True]) h2"
    by (blast intro: lifecycle_run_append lifecycle_run_single)
  moreover have "mi_state (ho_inner h2) = Stopped" "q \<in> set (ho_alive h2)"
    using alive by (simp_all add: h2_def h1'_def stop_cleans_def stop_begins_def finish_def Let_def)
  ultimately show ?thesis using step pid state alive by auto
qed

text \<open>The situation arises when a stop and a start overtake a spawn that waits for its controller.\<close>

theorem rollback_forgets_newer_core_witness:
  "\<exists>h h1. lifecycle_run (host_new 0) [UserSpawns 7, StopBegins, Dies 7, StopEnds (Some 7) True, UserSpawns 8] h \<and>
     lifecycle_step h (ProbeFails 1) h1 \<and> mi_pid (ho_inner h1) = None \<and> 8 \<in> set (ho_alive h1)"
proof -
  define h1 where "h1 = user_tasks 7 (spawn_child Mihomo ''m'' None True 7 (host_new 0))"
  define h2 where "h2 = stop_begins False h1"
  define h3 where "h3 = h2\<lparr>ho_alive := removeAll 7 (ho_alive h2)\<rparr>"
  define h4 where "h4 = stop_cleans (Some 7) True h3"
  define h5 where "h5 = user_tasks 8 (spawn_child Mihomo ''m'' None True 8 h4)"
  note eval = lifecycle_defs host_new_def manager_inner_new_def no_generation_def is_core_exited_def Let_def
  have "lifecycle_step (host_new 0) (UserSpawns 7) h1"
    unfolding h1_def by (rule user_spawns) (simp add: host_new_def)
  moreover have "lifecycle_step h1 StopBegins h2" unfolding h2_def by (rule stop_begins)
  moreover have "lifecycle_step h2 (Dies 7) h3" unfolding h3_def by (rule dies)
  moreover have "lifecycle_step h3 (StopEnds (Some 7) True) h4"
    unfolding h4_def by (rule stop_ends) (simp add: h3_def h2_def h1_def eval)
  moreover have "lifecycle_step h4 (UserSpawns 8) h5"
    unfolding h5_def by (rule user_spawns) (simp add: h4_def h3_def h2_def h1_def eval)
  ultimately have run: "lifecycle_run (host_new 0)
      ([UserSpawns 7] @ [StopBegins] @ [Dies 7] @ [StopEnds (Some 7) True] @ [UserSpawns 8]) h5"
    by (meson lifecycle_run_append lifecycle_run_single)
  have "Probing 1 7 None \<in> set (ho_tasks h5)" "mi_pid (ho_inner h5) = Some 8" "8 \<in> set (ho_alive h5)"
    by (simp_all add: h5_def h4_def h3_def h2_def h1_def eval)
  then obtain h6 where "lifecycle_step h5 (ProbeFails 1) h6" "mi_pid (ho_inner h6) = None" "8 \<in> set (ho_alive h6)"
    using rollback_forgets_newer_core [of 1 7 None h5 8] by auto
  with run show ?thesis by auto
qed

end
