(* ===== verification/Apply.thy ===== *)
theory Apply
  imports Assemble Lifecycle
begin

text \<open>
  Applying a configuration to sing-box (\<open>src-tui/src/runtime_config.rs\<close>,
  \<open>src-tui/src/mihomo_manager/manager.rs\<close>, \<open>src-tui/src/commands/start.rs\<close>): the candidate file and
  its roll back, the authorisation to replace a running core, the restart in this process or through a
  detached supervisor, the recovery on the previous configuration, and the report of what a conversion
  lost. What the environment decides (downloads, processes, file errors) is an input of each call; the
  effects on the manager, the pid record, the two files and the configuration the core serves are the
  model's.
\<close>

section \<open>The candidate file\<close>

record apply_world =
  aw_inner :: manager_inner
  aw_record :: "core_record option"
  aw_alive :: "pid list"
  aw_formal :: "string option"
  aw_candidate :: "string option"
  aw_served :: "string option" \<comment> \<open>the text the running core was started on\<close>

record runtime_candidate =
  rc_previous :: "string option"
  rc_installed :: bool

definition candidate_new :: "string option \<Rightarrow> runtime_candidate" where
  "candidate_new previous = \<lparr>rc_previous = previous, rc_installed = False\<rparr>"

text \<open>The operations take the error the file system reports, if it reports one.\<close>

definition candidate_install ::
  "string option \<Rightarrow> runtime_candidate \<Rightarrow> apply_world \<Rightarrow> (unit, string) result \<times> runtime_candidate \<times> apply_world"
where
  "candidate_install failure tx w =
     (case failure of
        Some error \<Rightarrow> (Inl error, tx, w)
      | None \<Rightarrow> (Inr (), tx\<lparr>rc_installed := True\<rparr>,
                 w\<lparr>aw_formal := aw_candidate w, aw_candidate := None\<rparr>))"

definition candidate_commit :: "runtime_candidate \<Rightarrow> runtime_candidate" where
  "candidate_commit tx = tx\<lparr>rc_installed := False\<rparr>"

definition candidate_rollback ::
  "string option \<Rightarrow> runtime_candidate \<Rightarrow> apply_world \<Rightarrow> (unit, string) result \<times> runtime_candidate \<times> apply_world"
where
  "candidate_rollback failure tx w =
     (if \<not> rc_installed tx then (Inr (), tx, w)
      else case failure of
        Some error \<Rightarrow> (Inl error, tx, w)
      | None \<Rightarrow> (Inr (), tx\<lparr>rc_installed := False\<rparr>, w\<lparr>aw_formal := rc_previous tx\<rparr>))"

definition candidate_drop :: "string option \<Rightarrow> runtime_candidate \<Rightarrow> apply_world \<Rightarrow> apply_world" where
  "candidate_drop failure tx w =
     (let (_, _, w) = candidate_rollback failure tx w in w\<lparr>aw_candidate := None\<rparr>)"

section \<open>The authorisation to replace a running core\<close>

record restart_authorization =
  ra_kind :: core_kind
  ra_pid :: pid
  ra_exe :: "string option"

datatype restart_error =
    NoPidRecord core_kind
  | WrongKindConfigured core_kind core_kind
  | LostPidRecord
  | ForeignCore core_record
  | OtherKindRecorded core_record core_kind
  | NoReplacementRecord
  | ReplacementNeverStarted pid
  | ReplacementTooOld pid
  | RestartInProgress
  | NoRestoredConfig
  | Failed string

definition supervisor_restart_policy ::
  "bool \<Rightarrow> pid option \<Rightarrow> core_kind \<Rightarrow> core_kind \<Rightarrow> (unit, restart_error) result"
where
  "supervisor_restart_policy owns_child pid running configured =
     (if owns_child then Inr ()
      else if pid = None then Inl (NoPidRecord running)
      else if running \<noteq> configured then Inl (WrongKindConfigured running configured)
      else Inr ())"

definition capture_restart_authorization ::
  "core_kind \<Rightarrow> apply_world \<Rightarrow> (restart_authorization option, restart_error) result"
where
  "capture_restart_authorization configured w =
     (let mi = aw_inner w in
      rbind (supervisor_restart_policy (mi_owns_child mi) (mi_pid mi) (mi_core_kind mi) configured) (\<lambda>_.
      if mi_owns_child mi then Inr None
      else rbind (ok_or (mi_pid mi) LostPidRecord) (\<lambda>pid.
        Inr (Some \<lparr>ra_kind = mi_core_kind mi, ra_pid = pid,
                   ra_exe = Option.bind (aw_record w) cr_exe\<rparr>))))"

definition authorize_still_ours ::
  "restart_authorization \<Rightarrow> core_record option \<Rightarrow> (unit, restart_error) result"
where
  "authorize_still_ours authorization record =
     (case record of
        None \<Rightarrow> Inr ()
      | Some r \<Rightarrow>
          if cr_kind r = ra_kind authorization
          then if cr_pid r \<noteq> ra_pid authorization \<and> cr_exe r \<noteq> ra_exe authorization
               then Inl (ForeignCore r) else Inr ()
          else Inl (OtherKindRecorded r (ra_kind authorization)))"

text \<open>Core records carry whole seconds; the launch time is in nanoseconds.\<close>

definition verify_replacement_core ::
  "restart_authorization \<Rightarrow> core_kind \<Rightarrow> pid list \<Rightarrow> int \<Rightarrow> core_record option \<Rightarrow> (unit, restart_error) result"
where
  "verify_replacement_core authorization kind alive launched_at record =
     (case record of
        None \<Rightarrow> Inl NoReplacementRecord
      | Some r \<Rightarrow>
          if cr_kind r \<noteq> kind \<or> cr_pid r \<notin> set alive then Inl NoReplacementRecord
          else if cr_pid r = ra_pid authorization then Inl (ReplacementNeverStarted (cr_pid r))
          else if cr_started_at r * 1000000000 < launched_at - 2 * 1000000000
          then Inl (ReplacementTooOld (cr_pid r))
          else Inr ())"

section \<open>Restarting\<close>

datatype supervisor_launch = Regenerate | UseExistingConfig

text \<open>
  One restart: what resolving the binary with its preflight yields, the configuration a regeneration
  from the active profile writes, whether the old core stops and its watcher has run by then, the port
  check, the spawn; for a supervisor, its launch, and its core's record or the failure to get ready.
\<close>

datatype spawn_outcome = NotSpawned string | NotReady pid string | SpawnReady pid

record restart_env =
  re_use_existing :: bool \<comment> \<open>\<open>use_existing_runtime_config\<close> of this process\<close>
  re_resolve :: "(string, string) result"
  re_generated :: "(string, string) result"
  re_stop :: "(unit, string) result"
  re_watcher_ran :: bool
  re_port :: "(unit, string) result"
  re_spawn :: spawn_outcome
  re_now :: int
  re_launch :: "(unit, string) result"
  re_ready :: "(core_record, string) result"

definition runtime_config_for_start ::
  "bool \<Rightarrow> (string, string) result \<Rightarrow> string option \<Rightarrow> (unit, restart_error) result \<times> string option"
where
  "runtime_config_for_start use_existing generated formal =
     (if \<not> use_existing
      then (case generated of Inl e \<Rightarrow> (Inl (Failed e), formal) | Inr text \<Rightarrow> (Inr (), Some text))
      else if formal = None then (Inl NoRestoredConfig, formal) else (Inr (), formal))"

text \<open>The effect of \<open>stop\<close> when it succeeds; the watcher of an owned child gives up the ownership.\<close>

definition stopped_world :: "bool \<Rightarrow> apply_world \<Rightarrow> apply_world" where
  "stopped_world watcher_ran w =
     (let mi = aw_inner w
      in case mi_pid mi of
           None \<Rightarrow> w\<lparr>aw_inner := mi\<lparr>mi_state := Stopped\<rparr>\<rparr>
         | Some pid \<Rightarrow>
             w\<lparr>aw_inner := mi\<lparr>mi_pid := None, mi_state := Stopped,
                              mi_owns_child := mi_owns_child mi \<and> \<not> watcher_ran\<rparr>,
               aw_record := remove_if pid (aw_record w),
               aw_alive := removeAll pid (aw_alive w), aw_served := None\<rparr>)"

definition do_stop :: "restart_env \<Rightarrow> apply_world \<Rightarrow> (unit, restart_error) result \<times> apply_world" where
  "do_stop e w =
     (if mi_pid (aw_inner w) = None then (Inr (), stopped_world (re_watcher_ran e) w)
      else case re_stop e of Inl msg \<Rightarrow> (Inl (Failed msg), w)
         | Inr _ \<Rightarrow> (Inr (), stopped_world (re_watcher_ran e) w))"

definition do_spawn :: "restart_env \<Rightarrow> string \<Rightarrow> apply_world \<Rightarrow> (unit, restart_error) result \<times> apply_world" where
  "do_spawn e binary w =
     (case re_spawn e of
        NotSpawned msg \<Rightarrow> (Inl (Failed msg), w)
      | NotReady pid msg \<Rightarrow>
          (Inl (Failed msg),
           w\<lparr>aw_inner := (spawned_inner pid binary (re_now e) (aw_inner w))\<lparr>mi_owns_child := False,
               mi_pid := None, mi_started_at := None, mi_state := CoreFailed msg\<rparr>,
             aw_record := remove_if pid (Some (with_kind_and_exe pid (re_now e) (mi_core_kind (aw_inner w)) (Some binary)))\<rparr>)
      | SpawnReady pid \<Rightarrow>
          (Inr (), w\<lparr>aw_inner := spawned_inner pid binary (re_now e) (aw_inner w),
             aw_record := Some (with_kind_and_exe pid (re_now e) (mi_core_kind (aw_inner w)) (Some binary)),
             aw_alive := pid # aw_alive w, aw_served := aw_formal w\<rparr>))"

text \<open>\<open>restart_singbox\<close>, with the flag that \<open>restart\<close> takes and releases around it.\<close>

definition restart_singbox :: "restart_env \<Rightarrow> apply_world \<Rightarrow> (unit, restart_error) result \<times> apply_world" where
  "restart_singbox e w =
     (if mi_restarting (aw_inner w) then (Inl RestartInProgress, w)
      else
        let w = w\<lparr>aw_inner := reset_restart_history (aw_inner w)\<rparr> in
        case re_resolve e of Inl msg \<Rightarrow> (Inl (Failed msg), w)
        | Inr binary \<Rightarrow>
          (case runtime_config_for_start (re_use_existing e) (re_generated e) (aw_formal w) of
             (Inl err, formal) \<Rightarrow> (Inl err, w\<lparr>aw_formal := formal\<rparr>)
           | (Inr _, formal) \<Rightarrow>
               (case do_stop e (w\<lparr>aw_formal := formal\<rparr>) of
                  (Inl err, w) \<Rightarrow> (Inl err, w)
                | (Inr _, w) \<Rightarrow>
                    (case re_port e of Inl msg \<Rightarrow> (Inl (Failed msg), w)
                     | Inr _ \<Rightarrow> do_spawn e binary w))))"

text \<open>
  \<open>apply_restart_authorization_with\<close>: an owned child restarts in place; otherwise the recorded core is
  stopped and a supervisor launched, whose start writes the configuration unless it recovers.
\<close>

definition supervised_formal :: "supervisor_launch \<Rightarrow> restart_env \<Rightarrow> string option \<Rightarrow> string option" where
  "supervised_formal mode e formal =
     snd (runtime_config_for_start (mode = UseExistingConfig) (re_generated e) formal)"

definition apply_restart_authorization_with ::
  "restart_authorization \<Rightarrow> supervisor_launch \<Rightarrow> restart_env \<Rightarrow> apply_world \<Rightarrow> (unit, restart_error) result \<times> apply_world"
where
  "apply_restart_authorization_with authorization mode e w =
     (if mi_owns_child (aw_inner w) then restart_singbox e w
      else case authorize_still_ours authorization (aw_record w) of Inl err \<Rightarrow> (Inl err, w)
      | Inr _ \<Rightarrow>
        (case do_stop e w of (Inl err, w) \<Rightarrow> (Inl err, w)
         | (Inr _, w) \<Rightarrow>
           (case re_launch e of Inl msg \<Rightarrow> (Inl (Failed msg), w)
            | Inr _ \<Rightarrow>
              let w = w\<lparr>aw_formal := supervised_formal mode e (aw_formal w)\<rparr> in
              (case re_ready e of Inl msg \<Rightarrow> (Inl (Failed msg), w)
               | Inr record \<Rightarrow>
                 let alive = cr_pid record # aw_alive w in
                 (case verify_replacement_core authorization (mi_core_kind (aw_inner w)) alive (re_now e) (Some record) of
                    Inl err \<Rightarrow> (Inl err, w\<lparr>aw_record := remove_if (cr_pid record) (Some record)\<rparr>)
                  | Inr _ \<Rightarrow>
                      (Inr (), w\<lparr>aw_record := Some record, aw_alive := alive, aw_served := aw_formal w,
                                aw_inner := adopt_running_core (Some record) (aw_inner w)\<rparr>))))))"

definition restart_through_supervisor_with ::
  "core_kind \<Rightarrow> supervisor_launch \<Rightarrow> restart_env \<Rightarrow> apply_world \<Rightarrow> (unit, restart_error) result \<times> apply_world"
where
  "restart_through_supervisor_with configured mode e w =
     (case capture_restart_authorization configured w of
        Inl err \<Rightarrow> (Inl err, w)
      | Inr None \<Rightarrow> restart_singbox e w
      | Inr (Some authorization) \<Rightarrow> apply_restart_authorization_with authorization mode e w)"

section \<open>Applying a configuration\<close>

datatype apply_error =
    NotAuthorized restart_error
  | Rejected string
  | RestartFailed restart_error
  | RollbackFailed restart_error string
  | FallbackFailed restart_error restart_error

record apply_env =
  ap_configured :: core_kind
  ap_prepared :: "(unit, string) result" \<comment> \<open>the DNS preparation of a clash profile, and the paths\<close>
  ap_read :: "string option" \<comment> \<open>an error when reading the previous file\<close>
  ap_assembled :: "(string \<times> singbox_parts, string) result"
  ap_binary :: "(unit, string) result"
  ap_check :: "(unit, string) result"
  ap_rename_error :: "string option"
  ap_rollback_error :: "string option"
  ap_drop_error :: "string option"
  ap_first :: restart_env
  ap_second :: restart_env

definition should_retry_rollback_restart :: "bool \<Rightarrow> bool \<Rightarrow> bool" where
  "should_retry_rollback_restart has_previous was_running = (has_previous \<and> was_running)"

text \<open>The closure \<open>restart\<close> of the function.\<close>

definition apply_restart ::
  "apply_env \<Rightarrow> restart_authorization option \<Rightarrow> supervisor_launch \<Rightarrow> restart_env \<Rightarrow> apply_world \<Rightarrow>
    (unit, restart_error) result \<times> apply_world"
where
  "apply_restart env authorization mode e w =
     (case authorization of
        Some a \<Rightarrow> apply_restart_authorization_with a mode e w
      | None \<Rightarrow> restart_through_supervisor_with (ap_configured env) mode e w)"

text \<open>After the installation: the restart, or the roll back with the recovery.\<close>

definition apply_installed ::
  "apply_env \<Rightarrow> bool \<Rightarrow> restart_authorization option \<Rightarrow> singbox_parts \<Rightarrow> runtime_candidate \<Rightarrow> apply_world \<Rightarrow>
    (singbox_parts, apply_error) result \<times> runtime_candidate \<times> apply_world"
where
  "apply_installed env was_running authorization parts tx w =
     (if \<not> was_running then (Inr parts, candidate_commit tx, w)
      else case apply_restart env authorization Regenerate (ap_first env) w of
        (Inr _, w) \<Rightarrow> (Inr parts, candidate_commit tx, w)
      | (Inl err, w) \<Rightarrow>
          (case candidate_rollback (ap_rollback_error env) tx w of
             (Inl msg, tx, w) \<Rightarrow> (Inl (RollbackFailed err msg), tx, w)
           | (Inr _, tx, w) \<Rightarrow>
               if should_retry_rollback_restart (rc_previous tx \<noteq> None) was_running
               then (case apply_restart env authorization UseExistingConfig (ap_second env) w of
                       (Inl err2, w) \<Rightarrow> (Inl (FallbackFailed err err2), tx, w)
                     | (Inr _, w) \<Rightarrow> (Inl (RestartFailed err), tx, w))
               else (Inl (RestartFailed err), tx, w)))"

definition apply_staged ::
  "apply_env \<Rightarrow> bool \<Rightarrow> restart_authorization option \<Rightarrow> runtime_candidate \<Rightarrow> apply_world \<Rightarrow>
    (singbox_parts, apply_error) result \<times> runtime_candidate \<times> apply_world"
where
  "apply_staged env was_running authorization tx w =
     (case ap_assembled env of
        Inl msg \<Rightarrow> (Inl (Rejected msg), tx, w\<lparr>aw_candidate := None\<rparr>)
      | Inr (text, parts) \<Rightarrow>
          let w = w\<lparr>aw_candidate := Some text\<rparr> in
          (case ap_binary env of Inl msg \<Rightarrow> (Inl (Rejected msg), tx, w)
           | Inr _ \<Rightarrow>
             (case ap_check env of Inl msg \<Rightarrow> (Inl (Rejected msg), tx, w\<lparr>aw_candidate := None\<rparr>)
              | Inr _ \<Rightarrow>
                (case candidate_install (ap_rename_error env) tx w of
                   (Inl msg, tx, w) \<Rightarrow> (Inl (Rejected msg), tx, w)
                 | (Inr _, tx, w) \<Rightarrow> apply_installed env was_running authorization parts tx w))))"

definition apply_singbox_restart_for_profile ::
  "apply_env \<Rightarrow> apply_world \<Rightarrow> (singbox_parts, apply_error) result \<times> apply_world"
where
  "apply_singbox_restart_for_profile env w =
     (let was_running = (mi_state (aw_inner w) = Running) in
      case (if was_running then capture_restart_authorization (ap_configured env) w else Inr None) of
        Inl err \<Rightarrow> (Inl (NotAuthorized err), w)
      | Inr authorization \<Rightarrow>
          (case ap_prepared env of Inl msg \<Rightarrow> (Inl (Rejected msg), w)
           | Inr _ \<Rightarrow>
             (case ap_read env of Some msg \<Rightarrow> (Inl (Rejected msg), w)
              | None \<Rightarrow>
                let (r, tx, w) = apply_staged env was_running authorization (candidate_new (aw_formal w)) w
                in (r, candidate_drop (ap_drop_error env) tx w))))"

section \<open>What an apply promises\<close>

text \<open>
  The contract: on success the configuration is the candidate (or what the new supervisor or the
  restart regenerated), with the core serving it when one was running; on failure the configuration is
  the old one. Nothing is restarted when no core was running.
\<close>

definition may_become :: "apply_env \<Rightarrow> string \<Rightarrow> string option \<Rightarrow> bool" where
  "may_become env text formal \<longleftrightarrow>
     formal = Some text \<or> (\<exists>g. re_generated (ap_first env) = Inr g \<and> formal = Some g)"

definition restores :: "apply_env \<Rightarrow> bool" where
  "restores env \<longleftrightarrow> ap_rollback_error env = None \<or> ap_drop_error env = None"

lemmas apply_defs =
  candidate_new_def candidate_install_def candidate_commit_def candidate_rollback_def candidate_drop_def

lemma do_stop_frame:
  "do_stop e w = (r, w') \<Longrightarrow> aw_formal w' = aw_formal w \<and>
     (\<not> mi_owns_child (aw_inner w) \<longrightarrow> \<not> mi_owns_child (aw_inner w')) \<and>
     mi_core_kind (aw_inner w') = mi_core_kind (aw_inner w) \<and>
     (r = Inr () \<longrightarrow> mi_pid (aw_inner w') = None)"
  by (auto simp: do_stop_def stopped_world_def Let_def split: if_splits option.splits sum.splits)

lemma adopt_frame:
  "mi_owns_child (adopt_running_core live mi) = mi_owns_child mi"
  "mi_core_kind (adopt_running_core live mi) = mi_core_kind mi"
  by (auto simp: adopt_running_core_def split: option.splits)

text \<open>An adopted core: a replacement that succeeds serves the file; the file changes only in a regeneration.\<close>

lemma supervised_restart:
  assumes "apply_restart_authorization_with a mode e w = (r, w')" and "\<not> mi_owns_child (aw_inner w)"
  shows "aw_formal w' = aw_formal w \<or> aw_formal w' = supervised_formal mode e (aw_formal w)"
    and "r = Inr () \<Longrightarrow> aw_formal w' = supervised_formal mode e (aw_formal w) \<and> aw_served w' = aw_formal w' \<and>
      mi_state (aw_inner w') = Running"
    and "\<not> mi_owns_child (aw_inner w')"
proof -
  have "(aw_formal w' = aw_formal w \<or> aw_formal w' = supervised_formal mode e (aw_formal w)) \<and>
     (r = Inr () \<longrightarrow> aw_formal w' = supervised_formal mode e (aw_formal w) \<and> aw_served w' = aw_formal w' \<and>
        mi_state (aw_inner w') = Running) \<and> \<not> mi_owns_child (aw_inner w')"
    using assms
    by (auto simp: apply_restart_authorization_with_def Let_def adopt_frame
        dest!: do_stop_frame split: sum.splits prod.splits)
      (auto simp: adopt_running_core_def)
  then show "aw_formal w' = aw_formal w \<or> aw_formal w' = supervised_formal mode e (aw_formal w)"
    and "r = Inr () \<Longrightarrow> aw_formal w' = supervised_formal mode e (aw_formal w) \<and> aw_served w' = aw_formal w' \<and>
      mi_state (aw_inner w') = Running"
    and "\<not> mi_owns_child (aw_inner w')" by auto
qed

lemma supervised_formal_simps:
  "supervised_formal UseExistingConfig e formal = formal"
  "supervised_formal Regenerate e formal = (case re_generated e of Inl _ \<Rightarrow> formal | Inr g \<Rightarrow> Some g)"
  by (auto simp: supervised_formal_def runtime_config_for_start_def split: sum.splits)

text \<open>An owned core restarts in this process, which writes the configuration anew unless the process serves an existing one.\<close>

definition regenerates :: "restart_env \<Rightarrow> string option \<Rightarrow> bool" where
  "regenerates e formal \<longleftrightarrow> \<not> re_use_existing e \<and> (\<exists>g. re_generated e = Inr g \<and> formal = Some g)"

lemma do_spawn_ready: "do_spawn e b w = (Inr (), w') \<Longrightarrow>
  aw_formal w' = aw_formal w \<and> aw_served w' = aw_formal w' \<and> mi_state (aw_inner w') = Running"
  by (auto simp: do_spawn_def spawned_inner_def split: spawn_outcome.splits)

lemma do_spawn_formal: "do_spawn e b w = (r, w') \<Longrightarrow> aw_formal w' = aw_formal w"
  by (auto simp: do_spawn_def split: spawn_outcome.splits)

lemma restart_singbox_outcome:
  assumes "restart_singbox e w = (r, w')"
  shows "aw_formal w' = aw_formal w \<or> regenerates e (aw_formal w')"
    and "r = Inr () \<Longrightarrow> aw_served w' = aw_formal w' \<and> mi_state (aw_inner w') = Running"
  using assms
  by (auto simp: restart_singbox_def runtime_config_for_start_def regenerates_def Let_def
      dest!: do_stop_frame do_spawn_formal do_spawn_ready split: if_splits sum.splits prod.splits)

text \<open>Every restart of the transaction: where the file may come from, and what a success means.\<close>

lemma restart_outcome:
  assumes "apply_restart env a mode e w = (r, w')"
  shows "aw_formal w' = aw_formal w \<or>
      (if mi_owns_child (aw_inner w) then regenerates e (aw_formal w')
       else aw_formal w' = supervised_formal mode e (aw_formal w))"
    and "r = Inr () \<Longrightarrow> aw_served w' = aw_formal w' \<and> mi_state (aw_inner w') = Running"
    and "\<not> mi_owns_child (aw_inner w) \<Longrightarrow> \<not> mi_owns_child (aw_inner w')"
proof -
  consider (same) err where "r = Inl err" "w' = w"
    | (owned) "mi_owns_child (aw_inner w)" "restart_singbox e w = (r, w')"
    | (supervised) b where "\<not> mi_owns_child (aw_inner w)" "apply_restart_authorization_with b mode e w = (r, w')"
  proof (cases "mi_owns_child (aw_inner w)")
    case True
    with assms owned show thesis
      by (cases a) (auto simp: apply_restart_def restart_through_supervisor_with_def capture_restart_authorization_def
          supervisor_restart_policy_def apply_restart_authorization_with_def Let_def)
  next
    case False
    with assms same supervised show thesis
      by (auto simp: apply_restart_def restart_through_supervisor_with_def capture_restart_authorization_def
          Let_def rbind_Inl_iff split: option.splits sum.splits)
  qed
  then have "(aw_formal w' = aw_formal w \<or>
      (if mi_owns_child (aw_inner w) then regenerates e (aw_formal w')
       else aw_formal w' = supervised_formal mode e (aw_formal w))) \<and>
    (r = Inr () \<longrightarrow> aw_served w' = aw_formal w' \<and> mi_state (aw_inner w') = Running) \<and>
    (\<not> mi_owns_child (aw_inner w) \<longrightarrow> \<not> mi_owns_child (aw_inner w'))"
  proof cases
    case owned
    then show ?thesis using restart_singbox_outcome [OF owned(2)] by simp
  next
    case supervised
    then show ?thesis using supervised_restart [OF supervised(2,1)] by simp
  qed simp
  then show "aw_formal w' = aw_formal w \<or>
      (if mi_owns_child (aw_inner w) then regenerates e (aw_formal w')
       else aw_formal w' = supervised_formal mode e (aw_formal w))"
    and "r = Inr () \<Longrightarrow> aw_served w' = aw_formal w' \<and> mi_state (aw_inner w') = Running"
    and "\<not> mi_owns_child (aw_inner w) \<Longrightarrow> \<not> mi_owns_child (aw_inner w')" by blast+
qed

text \<open>From the installed candidate on: what the transaction and the configuration file are.\<close>

lemma installed_outcome:
  assumes "apply_installed env was_running a parts tx w = (r, tx', w')"
    and "rc_installed tx" and "aw_formal w = Some text"
  shows "case r of
      Inr parts' \<Rightarrow> parts' = parts \<and> \<not> rc_installed tx' \<and> may_become env text (aw_formal w') \<and>
        (if was_running then aw_served w' = aw_formal w' \<and> mi_state (aw_inner w') = Running
         else w' = w)
    | Inl _ \<Rightarrow> rc_previous tx' = rc_previous tx \<and>
        (if rc_installed tx' then ap_rollback_error env \<noteq> None
         else aw_formal w' = rc_previous tx \<or>
           mi_owns_child (aw_inner w) \<and> rc_previous tx \<noteq> None \<and> was_running \<and> regenerates (ap_second env) (aw_formal w'))"
proof (cases was_running)
  case False
  with assms show ?thesis by (auto simp: apply_installed_def candidate_commit_def may_become_def)
next
  case True
  obtain r1 w1 where first: "apply_restart env a Regenerate (ap_first env) w = (r1, w1)" by fastforce
  show ?thesis
  proof (cases r1)
    case (Inr u)
    then have "aw_served w1 = aw_formal w1" "mi_state (aw_inner w1) = Running"
      using restart_outcome(2) [OF first] by auto
    moreover have "may_become env text (aw_formal w1)"
      using restart_outcome(1) [OF first] assms(3)
      by (auto simp: may_become_def regenerates_def supervised_formal_simps split: if_splits sum.splits)
    moreover have "r = Inr parts" "tx' = candidate_commit tx" "w' = w1"
      using assms(1) first Inr True by (simp_all add: apply_installed_def)
    ultimately show ?thesis using True by (auto simp: candidate_commit_def)
  next
    case (Inl err)
    show ?thesis
    proof (cases "ap_rollback_error env")
      case (Some msg)
      with assms(1,2) first Inl True show ?thesis by (auto simp: apply_installed_def candidate_rollback_def)
    next
      case None
      let ?tx = "tx\<lparr>rc_installed := False\<rparr>" and ?w = "w1\<lparr>aw_formal := rc_previous tx\<rparr>"
      have rolled: "candidate_rollback None tx w1 = (Inr (), ?tx, ?w)"
        using assms(2) by (simp add: candidate_rollback_def)
      obtain r2 w2 where second: "apply_restart env a UseExistingConfig (ap_second env) ?w = (r2, w2)" by fastforce
      have "aw_formal w2 = rc_previous tx \<or> mi_owns_child (aw_inner w) \<and> regenerates (ap_second env) (aw_formal w2)"
        using restart_outcome(1) [OF second] restart_outcome(3) [OF first]
        by (auto simp: supervised_formal_simps split: if_splits)
      then show ?thesis
        using assms(1) first Inl True None rolled second
        by (auto simp: apply_installed_def should_retry_rollback_restart_def split: sum.splits if_splits)
    qed
  qed
qed

text \<open>The one way in which a failed apply leaves another file behind: an owned core, whose recovery regenerates.\<close>

definition recovery_regenerated :: "apply_env \<Rightarrow> apply_world \<Rightarrow> string option \<Rightarrow> bool" where
  "recovery_regenerated env w formal \<longleftrightarrow>
     mi_owns_child (aw_inner w) \<and> mi_state (aw_inner w) = Running \<and> aw_formal w \<noteq> None \<and>
     regenerates (ap_second env) formal"

definition apply_contract :: "apply_env \<Rightarrow> apply_world \<Rightarrow> (singbox_parts, apply_error) result \<Rightarrow> apply_world \<Rightarrow> bool" where
  "apply_contract env w r w' \<longleftrightarrow>
     (case r of
        Inl _ \<Rightarrow> aw_formal w' = aw_formal w \<or> recovery_regenerated env w (aw_formal w')
      | Inr parts \<Rightarrow> \<exists>text. ap_assembled env = Inr (text, parts) \<and> may_become env text (aw_formal w') \<and>
          (if mi_state (aw_inner w) = Running
           then aw_served w' = aw_formal w' \<and> mi_state (aw_inner w') = Running
           else aw_formal w' = Some text \<and> aw_inner w' = aw_inner w \<and> aw_served w' = aw_served w))"

lemma drop_formal:
  "aw_formal (candidate_drop failure tx w) =
     (if rc_installed tx \<and> failure = None then rc_previous tx else aw_formal w)"
  "aw_candidate (candidate_drop failure tx w) = None"
  "aw_served (candidate_drop failure tx w) = aw_served w"
  "aw_inner (candidate_drop failure tx w) = aw_inner w"
  by (auto simp: candidate_drop_def candidate_rollback_def split: option.splits)

lemma staged_contract:
  assumes "apply_staged env (mi_state (aw_inner w) = Running) a (candidate_new (aw_formal w)) w = (r, tx', w')"
    and "restores env"
  shows "apply_contract env w r (candidate_drop (ap_drop_error env) tx' w')"
proof (cases "\<exists>text parts. ap_assembled env = Inr (text, parts) \<and> ap_binary env = Inr () \<and> ap_check env = Inr () \<and>
    ap_rename_error env = None")
  case True
  then obtain doc parts where ok: "ap_assembled env = Inr (doc, parts)" "ap_binary env = Inr ()"
    "ap_check env = Inr ()" "ap_rename_error env = None" by blast
  let ?tx = "\<lparr>rc_previous = aw_formal w, rc_installed = True\<rparr>"
    and ?w = "w\<lparr>aw_formal := Some doc, aw_candidate := None\<rparr>"
  have "apply_installed env (mi_state (aw_inner w) = Running) a parts ?tx ?w = (r, tx', w')"
    using assms(1) ok by (simp add: apply_staged_def apply_defs)
  from installed_outcome [OF this, of doc]
  have out: "case r of
      Inr parts' \<Rightarrow> parts' = parts \<and> \<not> rc_installed tx' \<and> may_become env doc (aw_formal w') \<and>
        (if mi_state (aw_inner w) = Running then aw_served w' = aw_formal w' \<and> mi_state (aw_inner w') = Running
         else w' = ?w)
    | Inl _ \<Rightarrow> rc_previous tx' = aw_formal w \<and>
        (if rc_installed tx' then ap_rollback_error env \<noteq> None
         else aw_formal w' = aw_formal w \<or> recovery_regenerated env w (aw_formal w'))"
    by (auto simp: may_become_def recovery_regenerated_def split: sum.splits if_splits)
  show ?thesis
  proof (cases r)
    case (Inl err)
    with out assms(2) show ?thesis by (auto simp: apply_contract_def drop_formal restores_def split: if_splits)
  next
    case (Inr parts')
    with out ok show ?thesis by (simp add: apply_contract_def drop_formal split: if_splits)
  qed
next
  case False
  then have "(\<exists>err. r = Inl err) \<and> aw_formal w' = aw_formal w \<and> \<not> rc_installed tx'"
    using assms(1) by (auto simp: apply_staged_def apply_defs Let_def split: sum.splits option.splits prod.splits)
  then show ?thesis by (auto simp: apply_contract_def drop_formal)
qed

text \<open>C18: Applying a configuration is a transaction, whether the running core is a child of this process, was started
  by another one, or none is running, provided that at least one of the two attempts to restore the file works: on
  success the file is the validated candidate or what the replacement regenerated, and the running core was started
  on exactly that file, while nothing is started when no core was running; on every failure (a refused
  authorisation, a failed conversion, a rejected check, a failed installation, a failed restart with or
  without a successful recovery) the file is what it was before. The only exception is an owned core whose
  recovery regenerates the configuration instead of serving the restored file. No candidate file is left behind.\<close>

theorem apply_is_transactional:
  assumes "apply_singbox_restart_for_profile env w = (r, w')" and "restores env"
  shows "apply_contract env w r w' \<and> (aw_candidate w = None \<longrightarrow> aw_candidate w' = None)"
proof (cases "\<exists>a. (if mi_state (aw_inner w) = Running then capture_restart_authorization (ap_configured env) w
     else Inr None) = Inr a \<and> ap_prepared env = Inr () \<and> ap_read env = None")
  case True
  then obtain a where pre: "(if mi_state (aw_inner w) = Running
      then capture_restart_authorization (ap_configured env) w else Inr None) = Inr a"
    "ap_prepared env = Inr ()" "ap_read env = None" by blast
  obtain r1 tx1 w1 where staged:
    "apply_staged env (mi_state (aw_inner w) = Running) a (candidate_new (aw_formal w)) w = (r1, tx1, w1)"
    by (cases "apply_staged env (mi_state (aw_inner w) = Running) a (candidate_new (aw_formal w)) w")
  then have "r = r1" "w' = candidate_drop (ap_drop_error env) tx1 w1"
    using assms(1) pre by (simp_all add: apply_singbox_restart_for_profile_def)
  with staged_contract [OF staged assms(2)] show ?thesis by (simp add: drop_formal)
next
  case False
  then have "w' = w \<and> (\<exists>err. r = Inl err)"
    using assms(1)
    by (auto simp: apply_singbox_restart_for_profile_def Let_def split: sum.splits option.splits if_splits)
  then show ?thesis by (auto simp: apply_contract_def)
qed

section \<open>Recovery\<close>

text \<open>The restart fails after the old core has gone: the spawned replacement never gets ready.\<close>

definition replacement_dies :: "restart_env \<Rightarrow> pid \<Rightarrow> string \<Rightarrow> bool" where
  "replacement_dies e q msg \<longleftrightarrow> (\<exists>b g. re_resolve e = Inr b \<and> re_generated e = Inr g) \<and>
     re_stop e = Inr () \<and> re_port e = Inr () \<and> re_spawn e = NotReady q msg"

definition candidate_valid :: "apply_env \<Rightarrow> bool" where
  "candidate_valid env \<longleftrightarrow> ap_prepared env = Inr () \<and> ap_read env = None \<and> (\<exists>x. ap_assembled env = Inr x) \<and>
     ap_binary env = Inr () \<and> ap_check env = Inr () \<and> ap_rename_error env = None \<and> ap_rollback_error env = None"

lemma restart_singbox_dies:
  assumes "replacement_dies e q msg" and "\<not> mi_restarting (aw_inner w)" and "aw_formal w \<noteq> None"
    and "mi_pid (aw_inner w) = Some p"
  shows "fst (restart_singbox e w) = Inl (Failed msg)"
    and "mi_pid (aw_inner (snd (restart_singbox e w))) = None"
    and "\<not> mi_owns_child (aw_inner (snd (restart_singbox e w)))"
    and "mi_state (aw_inner (snd (restart_singbox e w))) = CoreFailed msg"
    and "aw_served (snd (restart_singbox e w)) = None"
    and "mi_core_kind (aw_inner (snd (restart_singbox e w))) = mi_core_kind (aw_inner w)"
  using assms
  by (cases "re_use_existing e"; auto simp: replacement_dies_def restart_singbox_def runtime_config_for_start_def do_stop_def
      stopped_world_def do_spawn_def reset_restart_history_def spawned_inner_def Let_def)+

text \<open>A core this process owns is not recovered. When sing-box runs as a child of this process and the
  restart on a new, validated configuration fails because the replacement never answers, the old
  configuration is restored on disk, but the recovery is refused whatever the environment would allow:
  the failed spawn has cleared pid and ownership, and the authorisation, which was not kept because the
  core was owned, is captured anew and finds no pid record. No core is running afterwards, although one
  was running before and its configuration is back.\<close>

theorem owned_core_is_not_recovered:
  assumes "mi_owns_child (aw_inner w)" and "mi_state (aw_inner w) = Running" and "mi_pid (aw_inner w) = Some p"
    and "\<not> mi_restarting (aw_inner w)" and "aw_formal w = Some old" and "candidate_valid env"
    and "replacement_dies (ap_first env) q msg"
  shows "\<exists>w'. apply_singbox_restart_for_profile env w =
       (Inl (FallbackFailed (Failed msg) (NoPidRecord (mi_core_kind (aw_inner w)))), w') \<and>
     aw_formal w' = Some old \<and> aw_served w' = None \<and> mi_pid (aw_inner w') = None \<and>
     mi_state (aw_inner w') = CoreFailed msg"
proof -
  obtain doc parts where ok: "ap_prepared env = Inr ()" "ap_read env = None" "ap_assembled env = Inr (doc, parts)"
    "ap_binary env = Inr ()" "ap_check env = Inr ()" "ap_rename_error env = None" "ap_rollback_error env = None"
    using assms(6) by (auto simp: candidate_valid_def)
  let ?w1 = "w\<lparr>aw_formal := Some doc, aw_candidate := None\<rparr>"
  obtain r2 w2 where restart: "restart_singbox (ap_first env) ?w1 = (r2, w2)" by fastforce
  have died: "r2 = Inl (Failed msg)" "mi_pid (aw_inner w2) = None" "\<not> mi_owns_child (aw_inner w2)"
    "mi_state (aw_inner w2) = CoreFailed msg" "aw_served w2 = None"
    "mi_core_kind (aw_inner w2) = mi_core_kind (aw_inner w)"
    using restart_singbox_dies [OF assms(7), of ?w1 p] assms(3,4) restart by simp_all
  have captured: "capture_restart_authorization (ap_configured env) ?w1 = Inr None"
    "capture_restart_authorization (ap_configured env) w = Inr None"
    using assms(1) by (simp_all add: capture_restart_authorization_def supervisor_restart_policy_def Let_def)
  have refused: "capture_restart_authorization (ap_configured env) (w2\<lparr>aw_formal := Some old\<rparr>) =
      Inl (NoPidRecord (mi_core_kind (aw_inner w)))"
    using died by (simp add: capture_restart_authorization_def supervisor_restart_policy_def Let_def)
  show ?thesis
    using assms(2,5) ok restart died captured refused
    by (simp add: apply_singbox_restart_for_profile_def apply_staged_def apply_installed_def apply_defs
        apply_restart_def restart_through_supervisor_with_def should_retry_rollback_restart_def Let_def)
qed

text \<open>
  An adopted core is recovered: with the authorisation captured at entry, the recovery
  starts a core on exactly the previous configuration when the old core's record is gone or still names
  it and the supervisor's core can be attributed.
\<close>

lemma adopted_core_is_recovered:
  assumes "\<not> mi_owns_child (aw_inner w)" and "mi_state (aw_inner w) = Running" and "mi_pid (aw_inner w) = Some p"
    and "mi_core_kind (aw_inner w) = ap_configured env" and "aw_formal w = Some old" and "candidate_valid env"
    and "aw_record w = Some record0" and "cr_pid record0 = p" and "cr_kind record0 = ap_configured env"
    and "re_stop (ap_first env) = Inr ()" and "re_launch (ap_first env) = Inr ()"
    and "re_ready (ap_first env) = Inl msg"
    and "re_launch (ap_second env) = Inr ()" and "re_ready (ap_second env) = Inr record1"
    and "cr_kind record1 = ap_configured env" and "cr_pid record1 \<noteq> p"
    and "re_now (ap_second env) \<le> cr_started_at record1 * 1000000000 + 2 * 1000000000"
  shows "\<exists>w'. apply_singbox_restart_for_profile env w = (Inl (RestartFailed (Failed msg)), w') \<and>
     aw_formal w' = Some old \<and> aw_served w' = Some old \<and> mi_state (aw_inner w') = Running \<and>
     mi_pid (aw_inner w') = Some (cr_pid record1)"
proof -
  obtain doc parts where ok: "ap_prepared env = Inr ()" "ap_read env = None" "ap_assembled env = Inr (doc, parts)"
    "ap_binary env = Inr ()" "ap_check env = Inr ()" "ap_rename_error env = None" "ap_rollback_error env = None"
    using assms(6) by (auto simp: candidate_valid_def)
  show ?thesis
    using assms(1-5,7-17) ok
    by (simp add: apply_singbox_restart_for_profile_def apply_staged_def apply_installed_def apply_defs
        apply_restart_def capture_restart_authorization_def supervisor_restart_policy_def
        apply_restart_authorization_with_def authorize_still_ours_def do_stop_def stopped_world_def remove_if_def
        supervised_formal_simps verify_replacement_core_def adopt_running_core_def
        should_retry_rollback_restart_def Let_def split: sum.splits)
qed

section \<open>Inputs that meet the hypotheses\<close>

definition sample_parts :: singbox_parts where
  "sample_parts =
     \<lparr>sp_conversion = empty_conversion, sp_notes = [], sp_profile_used = True, sp_route_rules = [],
      sp_rule_sets = [], sp_dns_section = None, sp_default_resolver = None\<rparr>"

definition sample_restart :: restart_env where
  "sample_restart =
     \<lparr>re_use_existing = False, re_resolve = Inr ''sing-box'', re_generated = Inr ''new'', re_stop = Inr (),
      re_watcher_ran = True, re_port = Inr (), re_spawn = NotReady 8 ''timeout'', re_now = 0,
      re_launch = Inr (), re_ready = Inl ''timeout''\<rparr>"

definition sample_env :: apply_env where
  "sample_env =
     \<lparr>ap_configured = SingBox, ap_prepared = Inr (), ap_read = None, ap_assembled = Inr (''new'', sample_parts),
      ap_binary = Inr (), ap_check = Inr (), ap_rename_error = None, ap_rollback_error = None,
      ap_drop_error = None, ap_first = sample_restart, ap_second = sample_restart\<lparr>re_spawn := SpawnReady 9\<rparr>\<rparr>"

definition sample_world :: "bool \<Rightarrow> apply_world" where
  "sample_world owned =
     \<lparr>aw_inner = manager_inner_new\<lparr>mi_state := Running, mi_pid := Some 7, mi_owns_child := owned,
        mi_core_kind := SingBox\<rparr>,
      aw_record = Some \<lparr>cr_pid = 7, cr_started_at = 0, cr_kind = SingBox, cr_exe = None\<rparr>, aw_alive = [7],
      aw_formal = Some ''old'', aw_candidate = None, aw_served = Some ''old''\<rparr>"

lemmas sample_defs = sample_parts_def sample_restart_def sample_env_def sample_world_def manager_inner_new_def

theorem apply_is_transactional_witness:
  "\<exists>r w'. apply_singbox_restart_for_profile sample_env (sample_world True) = (r, w') \<and>
     apply_contract sample_env (sample_world True) r w' \<and> aw_candidate w' = None"
proof -
  obtain r w' where run: "apply_singbox_restart_for_profile sample_env (sample_world True) = (r, w')" by fastforce
  have "apply_contract sample_env (sample_world True) r w' \<and>
      (aw_candidate (sample_world True) = None \<longrightarrow> aw_candidate w' = None)"
    by (rule apply_is_transactional [OF run]) (simp_all add: sample_defs restores_def)
  with run show ?thesis by (auto simp: sample_world_def)
qed

theorem owned_core_is_not_recovered_witness:
  "\<exists>w'. apply_singbox_restart_for_profile sample_env (sample_world True) =
       (Inl (FallbackFailed (Failed ''timeout'') (NoPidRecord SingBox)), w') \<and>
     aw_formal w' = Some ''old'' \<and> aw_served w' = None \<and> mi_pid (aw_inner w') = None \<and>
     mi_state (aw_inner w') = CoreFailed ''timeout''"
  using owned_core_is_not_recovered [of "sample_world True" 7 "''old''" sample_env 8 "''timeout''"]
  by (simp add: sample_defs candidate_valid_def replacement_dies_def)

section \<open>What a conversion lost\<close>

datatype degradation_category = NodesLost | RulesLost | DnsLost | GroupsLost

instantiation degradation_category :: linorder
begin

fun category_rank :: "degradation_category \<Rightarrow> nat" where
  "category_rank NodesLost = 0"
| "category_rank RulesLost = 1"
| "category_rank DnsLost = 2"
| "category_rank GroupsLost = 3"

definition less_eq_degradation_category :: "degradation_category \<Rightarrow> degradation_category \<Rightarrow> bool" where
  "less_eq_degradation_category a b \<longleftrightarrow> category_rank a \<le> category_rank b"

definition less_degradation_category :: "degradation_category \<Rightarrow> degradation_category \<Rightarrow> bool" where
  "less_degradation_category a b \<longleftrightarrow> category_rank a < category_rank b"

instance
proof
  fix a b :: degradation_category
  show "a \<le> b \<Longrightarrow> b \<le> a \<Longrightarrow> a = b"
    by (cases a; cases b) (simp_all add: less_eq_degradation_category_def)
qed (auto simp: less_eq_degradation_category_def less_degradation_category_def)

end

record degradation_digest =
  dd_notes :: nat
  dd_nodes_skipped :: nat
  dd_fields_degraded :: nat
  dd_categories :: "(degradation_category \<times> nat) list" \<comment> \<open>a \<open>BTreeMap\<close>, ascending\<close>

definition category_count :: "degradation_digest \<Rightarrow> nat" where
  "category_count d = length (filter (\<lambda>(_, count). count > 0) (dd_categories d))"

definition classify_degradation_note :: "string \<Rightarrow> degradation_category" where
  "classify_degradation_note note =
     (let lower = to_ascii_lowercase note
      in if starts_with ''dns.'' lower then DnsLost
         else if str_contains ''rule'' lower then RulesLost
         else GroupsLost)"

text \<open>\<open>entry(..).or_insert(0) += n\<close> of a \<open>BTreeMap\<close>.\<close>

fun bump :: "'k::linorder \<Rightarrow> nat \<Rightarrow> ('k \<times> nat) list \<Rightarrow> ('k \<times> nat) list" where
  "bump k n [] = [(k, n)]"
| "bump k n ((k', m) # entries) =
     (if k = k' then (k', m + n) # entries
      else if k < k' then (k, n) # (k', m) # entries
      else (k', m) # bump k n entries)"

definition singbox_degradation_digest :: "string list \<Rightarrow> profile_conversion \<Rightarrow> degradation_digest" where
  "singbox_degradation_digest report conversion =
     (let categories = (if pc_skipped conversion \<noteq> [] then [(NodesLost, length (pc_skipped conversion))] else []);
          categories = foldl (\<lambda>cs note. bump (classify_degradation_note note) 1 cs) categories report;
          categories = filter (\<lambda>(_, count). count > 0) categories
      in \<lparr>dd_notes = length report, dd_nodes_skipped = length (pc_skipped conversion),
          dd_fields_degraded = length (pc_degraded conversion), dd_categories = categories\<rparr>)"

definition should_surface_singbox_degradation :: "bool \<Rightarrow> core_kind \<Rightarrow> degradation_digest \<Rightarrow> bool" where
  "should_surface_singbox_degradation profile_used core digest =
     (let total = dd_notes digest + dd_nodes_skipped digest + dd_fields_degraded digest
      in profile_used \<and> core = SingBox \<and> total > 0 \<and> category_count digest > 0)"

type_synonym degradation_store = "(64 word \<times> degradation_digest) option \<times> 64 word"

text \<open>\<open>record_singbox_degradation\<close>; the notes are the report lines of the parts.\<close>

definition record_singbox_degradation :: "string list \<Rightarrow> singbox_parts \<Rightarrow> degradation_store \<Rightarrow> degradation_store" where
  "record_singbox_degradation report parts store =
     (let digest = singbox_degradation_digest report (sp_conversion parts)
      in if should_surface_singbox_degradation (sp_profile_used parts) SingBox digest
         then (let s = snd store + 1 in (Some (s, digest), s))
         else (None, snd store))"

lemma bump_keys: "set (map fst (bump k n entries)) = insert k (set (map fst entries))"
  by (induction k n entries rule: bump.induct) (simp_all add: insert_commute)

lemma bump_sorted:
  "sorted_wrt (<) (map fst entries) \<Longrightarrow> sorted_wrt (<) (map fst (bump k n entries))"
proof (induction k n entries rule: bump.induct)
  case (2 k n k' m entries)
  have "\<forall>x \<in> set (map fst (bump k n entries)). k' < x" if "\<not> k \<le> k'"
    using 2(2) that unfolding bump_keys by auto
  with 2 show ?case by (force simp: not_le)
qed simp

lemma bump_total: "sum_list (map snd (bump k n entries)) = n + sum_list (map snd entries)"
  by (induction entries) auto

lemma bump_positive: "n > 0 \<Longrightarrow> \<forall>e \<in> set entries. snd e > 0 \<Longrightarrow> \<forall>e \<in> set (bump k n entries). snd e > 0"
  by (induction k n entries rule: bump.induct) auto

lemma bumps_sorted:
  "sorted_wrt (<) (map fst cs) \<Longrightarrow> sorted_wrt (<) (map fst (foldl (\<lambda>cs note. bump (f note) 1 cs) cs report))"
  by (induction report arbitrary: cs) (simp_all only: foldl.simps bump_sorted)

lemma bumps_positive:
  "\<forall>e \<in> set cs. snd e > 0 \<Longrightarrow> \<forall>e \<in> set (foldl (\<lambda>cs note. bump (f note) 1 cs) cs report). snd e > 0"
proof (induction report arbitrary: cs)
  case (Cons line report)
  have "\<forall>e \<in> set (bump (f line) 1 cs). snd e > 0" by (rule bump_positive [OF zero_less_one Cons.prems])
  from Cons.IH [OF this] show ?case by simp
qed simp

lemma bumps_total:
  "sum_list (map snd (foldl (\<lambda>cs note. bump (f note) 1 cs) cs report)) = sum_list (map snd cs) + length report"
  by (induction report arbitrary: cs) (simp_all add: bump_total)

text \<open>The digest loses nothing but the fields: its buckets are ascending, non-empty, and add up to the
  skipped nodes and the report.\<close>

lemma digest_accounts:
  "sorted_wrt (<) (map fst (dd_categories (singbox_degradation_digest report c)))"
  "\<forall>e \<in> set (dd_categories (singbox_degradation_digest report c)). snd e > 0"
  "sum_list (map snd (dd_categories (singbox_degradation_digest report c))) = length (pc_skipped c) + length report"
proof -
  let ?start = "if pc_skipped c \<noteq> [] then [(NodesLost, length (pc_skipped c))] else []"
  let ?all = "foldl (\<lambda>cs note. bump (classify_degradation_note note) 1 cs) ?start report"
  have start: "sorted_wrt (<) (map fst ?start)" "\<forall>e \<in> set ?start. snd e > 0" by auto
  have pos: "\<forall>e \<in> set ?all. snd e > 0" using start(2) by (rule bumps_positive)
  then have "filter (\<lambda>(_, count). count > 0) ?all = ?all" by (intro filter_True) (simp add: split_beta)
  then have digest: "dd_categories (singbox_degradation_digest report c) = ?all"
    by (simp add: singbox_degradation_digest_def Let_def)
  show "sorted_wrt (<) (map fst (dd_categories (singbox_degradation_digest report c)))"
    unfolding digest using start(1) by (rule bumps_sorted)
  show "\<forall>e \<in> set (dd_categories (singbox_degradation_digest report c)). snd e > 0"
    unfolding digest by (rule pos)
  show "sum_list (map snd (dd_categories (singbox_degradation_digest report c))) = length (pc_skipped c) + length report"
    unfolding digest unfolding bumps_total by auto
qed

lemma category_count_digest:
  "category_count (singbox_degradation_digest report c) = 0 \<longleftrightarrow> report = [] \<and> pc_skipped c = []"
proof -
  let ?cs = "dd_categories (singbox_degradation_digest report c)"
  have "category_count (singbox_degradation_digest report c) = 0 \<longleftrightarrow> ?cs = []"
    using digest_accounts(2) [of report c] by (cases ?cs) (auto simp: category_count_def)
  also have "\<dots> \<longleftrightarrow> length (pc_skipped c) + length report = 0"
    using digest_accounts(2,3) [of report c] by (cases ?cs) auto
  finally show ?thesis by auto
qed

text \<open>The loss report is exact for everything but single fields. After a sing-box apply of a profile
  the stored record exists if and only if the conversion skipped a node or wrote a note, and then it
  carries a fresh number and the buckets, in ascending order without empty ones, add up to the skipped
  nodes and notes. A conversion that only dropped fields of nodes leaves no record at all, although the
  digest counts those fields and the guard adds them to its total.\<close>

theorem degradation_record_exact:
  assumes "sp_profile_used parts"
  shows "case record_singbox_degradation report parts (latest, counter) of
      (None, s) \<Rightarrow> report = [] \<and> pc_skipped (sp_conversion parts) = [] \<and> s = counter
    | (Some (n, d), s) \<Rightarrow> (report \<noteq> [] \<or> pc_skipped (sp_conversion parts) \<noteq> []) \<and> n = counter + 1 \<and> s = n \<and>
        sorted_wrt (<) (map fst (dd_categories d)) \<and> (\<forall>e \<in> set (dd_categories d). snd e > 0) \<and>
        sum_list (map snd (dd_categories d)) = length (pc_skipped (sp_conversion parts)) + length report \<and>
        dd_fields_degraded d = length (pc_degraded (sp_conversion parts))"
proof -
  let ?c = "sp_conversion parts" and ?d = "singbox_degradation_digest report (sp_conversion parts)"
  have surf: "should_surface_singbox_degradation True SingBox ?d \<longleftrightarrow> report \<noteq> [] \<or> pc_skipped ?c \<noteq> []"
    using category_count_digest [of report ?c]
    by (auto simp: should_surface_singbox_degradation_def singbox_degradation_digest_def Let_def)
  have "dd_fields_degraded ?d = length (pc_degraded ?c)"
    by (simp add: singbox_degradation_digest_def Let_def)
  with surf assms digest_accounts [of report ?c] show ?thesis
    by (simp add: record_singbox_degradation_def Let_def)
qed

theorem degradation_record_exact_witness:
  "fst (record_singbox_degradation []
     (sample_parts\<lparr>sp_conversion := empty_conversion\<lparr>pc_degraded := [dropped_note.FieldDropped ''node'' ''plugin'']\<rparr>\<rparr>)
     (None, 0)) = None"
proof -
  let ?parts = "sample_parts\<lparr>sp_conversion := empty_conversion\<lparr>pc_degraded := [dropped_note.FieldDropped ''node'' ''plugin'']\<rparr>\<rparr>"
  have "sp_profile_used ?parts" by (simp add: sample_parts_def)
  from degradation_record_exact [OF this, where report = "[]" and latest = None and counter = 0]
  show ?thesis
    by (auto simp: empty_conversion_def split: option.splits prod.splits) (metis not_Some_eq surj_pair)
qed

end
