(* ===== verification/Switch.thy ===== *)
theory Switch
  imports Apply
begin

text \<open>
  Choosing and switching the core (\<open>src-tui/src/mihomo_manager/manager.rs\<close>,
  \<open>src-tui/src/mihomo_manager/ownership.rs\<close>): the guards of a start and of a guided operation, the
  snapshot of the files a transaction owns, the selection of a core while none runs, the guided switch
  with its roll back, and the mapping of the selected nodes to the target core. Files are a map from
  paths to contents; what the environment decides is an input, as in \<open>Apply\<close>.
\<close>

section \<open>Files and snapshots\<close>

type_synonym disk = "string \<Rightarrow> string option"
type_synonym file_snapshot = "(string \<times> string option) list"

text \<open>
  What a transaction relies on: restoring a snapshot that was captured either reports an error or gives
  every path of it its old content, and touches no other path. A block of effects that is followed by a
  restore when it fails is then all or nothing on those paths.
\<close>

locale restorable =
  fixes capture :: "'p list \<Rightarrow> ('p \<Rightarrow> 'c) \<Rightarrow> 's"
    and restore :: "'s \<Rightarrow> ('p \<Rightarrow> 'c) \<Rightarrow> (unit, 'e) result \<times> ('p \<Rightarrow> 'c)"
  assumes restore_captured: "restore (capture ps d) d' = (Inr (), d'') \<Longrightarrow> p \<in> set ps \<Longrightarrow> d'' p = d p"
    and restore_other: "restore (capture ps d) d' = (r, d'') \<Longrightarrow> p \<notin> set ps \<Longrightarrow> d'' p = d' p"
begin

definition guarded :: "'p list \<Rightarrow> (('p \<Rightarrow> 'c) \<Rightarrow> (unit, 'e) result \<times> ('p \<Rightarrow> 'c)) \<Rightarrow> ('p \<Rightarrow> 'c) \<Rightarrow>
    (unit, 'e \<times> 'e option) result \<times> ('p \<Rightarrow> 'c)" where
  "guarded ps effects d =
     (case effects d of
        (Inr _, d') \<Rightarrow> (Inr (), d')
      | (Inl e, d') \<Rightarrow>
          (case restore (capture ps d) d' of
             (Inr _, d'') \<Rightarrow> (Inl (e, None), d'')
           | (Inl e', d'') \<Rightarrow> (Inl (e, Some e'), d'')))"

lemma guarded_all_or_nothing:
  assumes "guarded ps effects d = (Inl (e, None), d')" and "p \<in> set ps"
  shows "d' p = d p"
  using assms restore_captured
  by (auto simp: guarded_def split: prod.splits sum.splits)

lemma guarded_frame:
  assumes "guarded ps effects d = (r, d')" and "\<forall>r1 d1. effects d = (r1, d1) \<longrightarrow> d1 p = d p" and "p \<notin> set ps"
  shows "d' p = d p"
  using assms restore_other
  by (fastforce simp: guarded_def split: prod.splits sum.splits)

end

definition snapshot_capture :: "string list \<Rightarrow> disk \<Rightarrow> file_snapshot" where
  "snapshot_capture paths d = List.map (\<lambda>p. (p, d p)) paths"

text \<open>
  \<open>GuidedFileSnapshot::restore\<close>: every file is staged and renamed, or removed when it did not exist;
  the first file operation that fails stops the loop.
\<close>

fun snapshot_restore :: "(string \<Rightarrow> string option) \<Rightarrow> file_snapshot \<Rightarrow> disk \<Rightarrow> (unit, string) result \<times> disk" where
  "snapshot_restore failing [] d = (Inr (), d)"
| "snapshot_restore failing ((path, previous) # files) d =
     (case failing path of
        Some error \<Rightarrow> (Inl error, d)
      | None \<Rightarrow> snapshot_restore failing files (d(path := previous)))"

lemma snapshot_restore_value:
  "snapshot_restore failing files d = (Inr (), d') \<Longrightarrow>
     d' p = (case map_of (rev files) p of Some previous \<Rightarrow> previous | None \<Rightarrow> d p)"
  by (induction failing files d rule: snapshot_restore.induct)
    (auto simp: map_add_def split: option.splits if_splits)

lemma snapshot_restore_other:
  "snapshot_restore failing files d = (r, d') \<Longrightarrow> p \<notin> fst ` set files \<Longrightarrow> d' p = d p"
  by (induction failing files d rule: snapshot_restore.induct) (auto split: option.splits)

lemma snapshot_map_of: "map_of (rev (snapshot_capture ps d)) p = (if p \<in> set ps then Some (d p) else None)"
  by (induction ps) (auto simp: snapshot_capture_def map_add_def split: option.splits)

interpretation files: restorable snapshot_capture "snapshot_restore failing" for failing
proof unfold_locales
  fix ps d d' d'' and p :: string
  assume "snapshot_restore failing (snapshot_capture ps d) d' = (Inr (), d'')" and "p \<in> set ps"
  then show "d'' p = d p" by (simp add: snapshot_restore_value snapshot_map_of)
next
  fix ps d d' r d'' and p :: string
  assume "snapshot_restore failing (snapshot_capture ps d) d' = (r, d'')" and "p \<notin> set ps"
  then show "d'' p = d' p" by (auto intro!: snapshot_restore_other simp: snapshot_capture_def)
qed

section \<open>Guards\<close>

text \<open>The record guard of a start: a live core of the other kind is never overwritten.\<close>

definition check_cross_kind_record :: "core_record option \<Rightarrow> pid list \<Rightarrow> core_kind \<Rightarrow> (unit, core_record) result" where
  "check_cross_kind_record record alive self_kind =
     (case record of
        None \<Rightarrow> Inr ()
      | Some r \<Rightarrow> if cr_kind r = self_kind then Inr ()
                 else if cr_pid r \<notin> set alive then Inr () else Inl r)"

datatype guided_error =
    Cancelled
  | OwnedRecordChanged
  | ForeignSupervisor
  | ForeignSocket
  | AttachedCore
  | GenerationChanged
  | SelectionChanged
  | OperationInProgress
  | TargetExited
  | GuidedFailed string

definition check_guided_cancel :: "bool \<Rightarrow> (unit, guided_error) result" where
  "check_guided_cancel cancelled = guard (\<not> cancelled) Cancelled"

definition check_guided_record ::
  "pid option \<Rightarrow> bool \<Rightarrow> pid option \<Rightarrow> bool \<Rightarrow> bool \<Rightarrow> (unit, guided_error) result"
where
  "check_guided_record record_pid record_live tracked_pid owns_child socket_bound =
     (if tracked_pid \<noteq> None \<and> (\<not> owns_child \<or> record_pid \<noteq> tracked_pid \<or> \<not> record_live) then Inl OwnedRecordChanged
      else if tracked_pid = None \<and> record_live then Inl ForeignSupervisor
      else if tracked_pid = None \<and> socket_bound then Inl ForeignSocket
      else Inr ())"

text \<open>\<open>guided_owner_check\<close>: the isolation check of a running GUI is an input.\<close>

definition guided_owner_check :: "(unit, guided_error) result \<Rightarrow> manager_inner \<Rightarrow> (unit, guided_error) result" where
  "guided_owner_check isolation mi =
     rbind isolation (\<lambda>_. guard (\<not> (mi_pid mi \<noteq> None \<and> \<not> mi_owns_child mi)) AttachedCore)"

text \<open>
  \<open>guided_record_check\<close>: the record on disk, the socket and the TCP controller check, which is an input.
\<close>

definition guided_record_check ::
  "core_record option \<Rightarrow> pid list \<Rightarrow> bool \<Rightarrow> (unit, guided_error) result \<Rightarrow> manager_inner \<Rightarrow> (unit, guided_error) result"
where
  "guided_record_check record alive socket_bound tcp mi =
     rbind (check_guided_record (map_option cr_pid record) (\<exists>r \<in> set_option record. cr_pid r \<in> set alive)
              (mi_pid mi) (mi_owns_child mi) socket_bound) (\<lambda>_. tcp)"

definition stopped_selection_preflight ::
  "generation \<Rightarrow> core_kind \<Rightarrow> (unit, guided_error) result \<Rightarrow> manager_inner \<Rightarrow> (unit, guided_error) result"
where
  "stopped_selection_preflight generation old_kind record_checks mi =
     (if generation \<noteq> mi_generation mi \<or> old_kind \<noteq> mi_core_kind mi \<or> \<not> is_inactive (mi_state mi) \<or>
         mi_pid mi \<noteq> None
      then Inl SelectionChanged else record_checks)"

section \<open>Selecting a core while none runs\<close>

definition verge_path :: string where "verge_path = ''verge.yaml''"
definition marker_path :: string where "marker_path = ''core-owner.json''"

text \<open>
  The environment of the selection: YAML, the marker document of this process, the outcomes of the
  guard's three calls, of staging and of the two publishing operations, the writes of others between
  the first look at the files and the second, and the failures while restoring.
\<close>

record selection_env =
  se_parse :: "string \<Rightarrow> ymapping option"
  se_print :: "ymapping \<Rightarrow> string option"
  se_marker :: string
  se_stage :: "string option"
  se_guard1 :: "(unit, guided_error) result"
  se_others :: "disk \<Rightarrow> disk"
  se_publish_marker :: "string option"
  se_guard2 :: "(unit, guided_error) result"
  se_publish_verge :: "string option"
  se_guard3 :: "(unit, guided_error) result"
  se_failing :: "string \<Rightarrow> string option"

datatype selection_error =
    InvalidVerge
  | StagingFailed string
  | Refused guided_error
  | SettingsChanged
  | PublishFailed string
  | SelectionRollbackFailed selection_error string

definition publish_selection ::
  "selection_env \<Rightarrow> core_kind \<Rightarrow> string \<Rightarrow> disk \<Rightarrow> (unit, selection_error) result \<times> disk"
where
  "publish_selection env kind content d =
     (case se_publish_marker env of
        Some e \<Rightarrow> (Inl (PublishFailed e), d)
      | None \<Rightarrow>
          let d = d(marker_path := if kind = SingBox then Some (se_marker env) else None) in
          (case se_guard2 env of Inl e \<Rightarrow> (Inl (Refused e), d)
           | Inr _ \<Rightarrow>
             (case se_publish_verge env of
                Some e \<Rightarrow> (Inl (PublishFailed e), d)
              | None \<Rightarrow>
                  let d = d(verge_path := Some content) in
                  (case se_guard3 env of Inl e \<Rightarrow> (Inl (Refused e), d) | Inr _ \<Rightarrow> (Inr (), d)))))"

text \<open>The staged content of \<open>verge.yaml\<close>, before anything is published.\<close>

definition stage_selection :: "selection_env \<Rightarrow> core_kind \<Rightarrow> disk \<Rightarrow> (string, selection_error) result" where
  "stage_selection env kind d =
     rbind (case d verge_path of Some bytes \<Rightarrow> ok_or (se_parse env bytes) InvalidVerge | None \<Rightarrow> Inr []) (\<lambda>config.
     rbind (ok_or (se_print env (ymap_put ''proxy_core'' (YStr (kind_as_str kind)) config)) InvalidVerge) (\<lambda>content.
     case se_stage env of Some e \<Rightarrow> Inl (StagingFailed e) | None \<Rightarrow> Inr content))"

definition restore_selection ::
  "selection_env \<Rightarrow> file_snapshot \<Rightarrow> (unit, selection_error) result \<times> disk \<Rightarrow> (unit, selection_error) result \<times> disk"
where
  "restore_selection env captured outcome =
     (case outcome of
        (Inr _, d) \<Rightarrow> (Inr (), d)
      | (Inl e, d) \<Rightarrow>
          (case snapshot_restore (se_failing env) captured d of
             (Inr _, d) \<Rightarrow> (Inl e, d)
           | (Inl e', d) \<Rightarrow> (Inl (SelectionRollbackFailed e e'), d)))"

definition persist_stopped_selection ::
  "selection_env \<Rightarrow> core_kind \<Rightarrow> disk \<Rightarrow> (unit, selection_error) result \<times> disk"
where
  "persist_stopped_selection env kind d =
     (let captured = snapshot_capture [verge_path, marker_path] d in
      case stage_selection env kind d of Inl e \<Rightarrow> (Inl e, d)
      | Inr content \<Rightarrow>
        (case se_guard1 env of Inl e \<Rightarrow> (Inl (Refused e), se_others env d)
         | Inr _ \<Rightarrow>
           let d = se_others env d in
           if snapshot_capture [verge_path, marker_path] d \<noteq> captured then (Inl SettingsChanged, d)
           else restore_selection env captured (publish_selection env kind content d)))"

text \<open>\<open>commit_stopped_selection\<close>, with the two preflights of its guard folded into the environment.\<close>

definition commit_stopped_selection ::
  "selection_env \<Rightarrow> (unit, guided_error) result \<Rightarrow> core_kind \<Rightarrow> manager_inner \<Rightarrow> disk \<Rightarrow>
    (unit, selection_error) result \<times> manager_inner \<times> disk"
where
  "commit_stopped_selection env preflight target mi d =
     (case preflight of Inl e \<Rightarrow> (Inl (Refused e), mi, d)
      | Inr _ \<Rightarrow>
        if mi_restarting mi then (Inl (Refused OperationInProgress), mi, d)
        else (case persist_stopped_selection env target d of
            (Inl e, d) \<Rightarrow> (Inl e, mi, d)
          | (Inr _, d) \<Rightarrow> (Inr (), commit_selection target mi, d)))"

lemma verge_not_marker: "verge_path \<noteq> marker_path"
  by (simp add: verge_path_def marker_path_def)

lemma publish_frame:
  "publish_selection env kind content d = (r, d') \<Longrightarrow> p \<noteq> verge_path \<Longrightarrow> p \<noteq> marker_path \<Longrightarrow> d' p = d p"
  by (auto simp: publish_selection_def Let_def split: option.splits sum.splits)

lemma publish_done:
  "publish_selection env kind content d = (Inr (), d') \<Longrightarrow>
     d' verge_path = Some content \<and> d' marker_path = (if kind = SingBox then Some (se_marker env) else None)"
  using verge_not_marker by (auto simp: publish_selection_def Let_def split: option.splits sum.splits)

lemma snapshot_same:
  "snapshot_capture ps d = snapshot_capture ps d' \<longleftrightarrow> (\<forall>p \<in> set ps. d p = d' p)"
  by (auto simp: snapshot_capture_def)

abbreviation selection_files :: "string list" where
  "selection_files \<equiv> [verge_path, marker_path]"

text \<open>The published part is a guarded block of the interface, run on the files the last writer left.\<close>

lemma stage_props:
  "stage_selection env kind d = Inr content \<Longrightarrow> \<exists>config.
     (case d verge_path of Some bytes \<Rightarrow> se_parse env bytes = Some config | None \<Rightarrow> config = []) \<and>
     se_print env (ymap_put ''proxy_core'' (YStr (kind_as_str kind)) config) = Some content"
  by (auto simp: stage_selection_def split: option.splits)

lemma restore_selection_cases:
  assumes "restore_selection env captured outcome = (r, d')"
  obtains "outcome = (Inr (), d')" "r = Inr ()"
  | e d2 where "outcome = (Inl e, d2)" "snapshot_restore (se_failing env) captured d2 = (Inr (), d')" "r = Inl e"
  | e1 e2 where "r = Inl (SelectionRollbackFailed e1 e2)"
  using assms by (auto simp: restore_selection_def split: prod.splits sum.splits)

lemma persist_cases:
  assumes "persist_stopped_selection env kind d = (r, d')"
  obtains (stopped) e where "r = Inl e" "d' = d \<or> d' = se_others env d"
  | (published) content where "stage_selection env kind d = Inr content"
      "publish_selection env kind content (se_others env d) = (Inr (), d')" "r = Inr ()"
  | (restored) content e d2 where
      "publish_selection env kind content (se_others env d) = (Inl e, d2)"
      "snapshot_capture selection_files (se_others env d) = snapshot_capture selection_files d"
      "snapshot_restore (se_failing env) (snapshot_capture selection_files d) d2 = (Inr (), d')" "r = Inl e"
  | (failed) e1 e2 where "r = Inl (SelectionRollbackFailed e1 e2)"
proof (cases "\<exists>content. stage_selection env kind d = Inr content \<and> se_guard1 env = Inr () \<and>
    snapshot_capture selection_files (se_others env d) = snapshot_capture selection_files d")
  case False
  then have "(\<exists>e. r = Inl e) \<and> (d' = d \<or> d' = se_others env d)"
    using assms by (auto simp: persist_stopped_selection_def Let_def split: sum.splits if_splits)
  then show ?thesis using stopped by blast
next
  case True
  then obtain content where staged: "stage_selection env kind d = Inr content"
    and same: "snapshot_capture selection_files (se_others env d) = snapshot_capture selection_files d"
    and "restore_selection env (snapshot_capture selection_files d)
      (publish_selection env kind content (se_others env d)) = (r, d')"
    using assms by (auto simp: persist_stopped_selection_def Let_def)
  from this(3) show ?thesis
  proof (cases rule: restore_selection_cases)
    case 1
    with staged show ?thesis by (rule published)
  next
    case (2 e d2)
    with same show ?thesis using restored by blast
  next
    case (3 e1 e2)
    then show ?thesis by (rule failed)
  qed
qed

text \<open>Selecting a core while none runs is all or nothing on the two files it owns. When it succeeds,
  verge.yaml is the old mapping with only the core selection replaced and the ownership marker exists
  exactly for sing-box; when it fails, no byte of any file differs from what was there or from what
  another writer left meanwhile, unless restoring the files itself failed, which is reported as such.
  The manager changes its kind, state and generation only together with the files.\<close>

theorem stopped_selection_is_atomic:
  assumes "commit_stopped_selection env preflight kind mi d = (r, mi', d')"
  shows "case r of
      Inr _ \<Rightarrow> mi' = commit_selection kind mi \<and>
        (\<exists>config content. (case d verge_path of Some bytes \<Rightarrow> se_parse env bytes = Some config | None \<Rightarrow> config = []) \<and>
          se_print env (ymap_put ''proxy_core'' (YStr (kind_as_str kind)) config) = Some content \<and>
          d' verge_path = Some content) \<and>
        d' marker_path = (if kind = SingBox then Some (se_marker env) else None)
    | Inl e \<Rightarrow> mi' = mi \<and>
        (d' = d \<or> d' = se_others env d \<or> (\<exists>e1 e2. e = SelectionRollbackFailed e1 e2))"
proof (cases "\<exists>r1 d1. persist_stopped_selection env kind d = (r1, d1) \<and> is_ok preflight \<and> \<not> mi_restarting mi \<and>
    d' = d1 \<and> r = r1 \<and> mi' = (if is_ok r1 then commit_selection kind mi else mi)")
  case False
  then show ?thesis using assms
    by (auto simp: commit_stopped_selection_def split: sum.splits if_splits prod.splits)
next
  case True
  then have persist: "persist_stopped_selection env kind d = (r, d')"
    and mi': "mi' = (if is_ok r then commit_selection kind mi else mi)" by auto
  from persist show ?thesis
  proof (cases rule: persist_cases)
    case (stopped e)
    with mi' show ?thesis by auto
  next
    case (published content)
    with publish_done [OF published(2)] stage_props [OF published(1)] mi' show ?thesis by auto
  next
    case (restored content e d2)
    have "d' p = se_others env d p" for p
    proof (cases "p \<in> set selection_files")
      case True
      then have "d' p = d p" using files.restore_captured [OF restored(3)] by blast
      with True restored(2) show ?thesis by (auto simp: snapshot_same)
    next
      case False
      then have "d' p = d2 p" using files.restore_other [OF restored(3)] by blast
      also have "d2 p = se_others env d p" using False publish_frame [OF restored(1)] by auto
      finally show ?thesis .
    qed
    with mi' restored(4) show ?thesis by auto
  next
    case (failed e1 e2)
    with mi' show ?thesis by auto
  qed
qed

theorem stopped_selection_is_atomic_witness:
  "\<exists>env d' mi'. commit_stopped_selection env (Inr ()) SingBox manager_inner_new Map.empty = (Inr (), mi', d') \<and>
     d' marker_path = Some ''m'' \<and> mi_core_kind mi' = SingBox"
proof -
  let ?env = "\<lparr>se_parse = \<lambda>_. Some [], se_print = \<lambda>_. Some ''v'', se_marker = ''m'', se_stage = None, se_guard1 = Inr (),
    se_others = \<lambda>d. d, se_publish_marker = None, se_guard2 = Inr (), se_publish_verge = None, se_guard3 = Inr (),
    se_failing = \<lambda>_. None\<rparr>"
  obtain r mi' d' where run: "commit_stopped_selection ?env (Inr ()) SingBox manager_inner_new Map.empty = (r, mi', d')"
    by (cases "commit_stopped_selection ?env (Inr ()) SingBox manager_inner_new Map.empty")
  have "r = Inr ()"
    using run by (simp add: commit_stopped_selection_def manager_inner_new_def persist_stopped_selection_def
        stage_selection_def restore_selection_def publish_selection_def Let_def)
  with stopped_selection_is_atomic [OF run] run show ?thesis
    by (intro exI [of _ ?env]) (auto simp: commit_selection_def)
qed

section \<open>The guided switch\<close>

text \<open>
  \<open>orchestrate_guided_switch\<close>: the steps are effects on a world; an error carries the error of a roll
  back that failed as well.
\<close>

type_synonym ('w, 'e) effect = "'w \<Rightarrow> (unit, 'e) result \<times> 'w"

definition and_then :: "('w, 'e) effect \<Rightarrow> ('w, 'e) effect \<Rightarrow> ('w, 'e) effect" where
  "and_then f g w = (case f w of (Inl e, w) \<Rightarrow> (Inl e, w) | (Inr _, w) \<Rightarrow> g w)"

definition orchestrate_guided_switch ::
  "('w, 'e) effect \<Rightarrow> bool \<Rightarrow> ('w, 'e) effect \<Rightarrow> ('w, 'e) effect \<Rightarrow> ('w, 'e) effect \<Rightarrow> ('w, 'e) effect \<Rightarrow>
    'w \<Rightarrow> (unit, 'e \<times> 'e option) result \<times> 'w"
where
  "orchestrate_guided_switch recheck was_running stop launch commit rollback w =
     (case recheck w of
        (Inl e, w) \<Rightarrow> (Inl (e, None), w)
      | (Inr _, w) \<Rightarrow>
          (case and_then (if was_running then stop else Pair (Inr ())) (and_then launch commit) w of
             (Inr _, w) \<Rightarrow> (Inr (), w)
           | (Inl e, w) \<Rightarrow>
               (case rollback w of
                  (Inr _, w) \<Rightarrow> (Inl (e, None), w)
                | (Inl e', w) \<Rightarrow> (Inl (e, Some e'), w))))"

record guided_world =
  gw_inner :: manager_inner
  gw_disk :: disk
  gw_core :: "(core_kind \<times> string option) option" \<comment> \<open>the running core and the text it was started on\<close>
  gw_stopped :: bool
  gw_started :: bool

record guided_env =
  ge_target :: core_kind
  ge_path :: string \<comment> \<open>the target's configuration file\<close>
  ge_old_path :: string \<comment> \<open>the old core's configuration file\<close>
  ge_candidate :: string
  ge_binary :: string
  ge_generation :: generation
  ge_cancelled :: "nat \<Rightarrow> bool" \<comment> \<open>at the n-th look\<close>
  ge_recheck :: "(unit, guided_error) result"
  ge_stop :: "(unit, guided_error) result"
  ge_watcher_ran :: bool
  ge_rename :: "(unit, guided_error) result"
  ge_launch_checks :: "(unit, guided_error) result"
  ge_spawn :: spawn_outcome
  ge_select :: "(unit, guided_error) result"
  ge_commit_checks :: "(unit, guided_error) result"
  ge_target_alive :: bool
  ge_exit_code :: int
  ge_show :: "guided_error \<Rightarrow> string"
  ge_verge :: "(string, guided_error) result"
  ge_marker :: "(string, guided_error) result"
  ge_stop_target :: "(unit, guided_error) result"
  ge_failing :: "string \<Rightarrow> string option"
  ge_respawn :: spawn_outcome
  ge_reselect :: "(unit, guided_error) result"
  ge_now :: int

definition guided_cancel :: "guided_env \<Rightarrow> nat \<Rightarrow> (guided_world, guided_error) effect" where
  "guided_cancel env n w = (check_guided_cancel (ge_cancelled env n), w)"

definition guided_check :: "(unit, guided_error) result \<Rightarrow> (guided_world, guided_error) effect" where
  "guided_check r w = (r, w)"

definition guided_recheck :: "guided_env \<Rightarrow> (guided_world, guided_error) effect" where
  "guided_recheck env =
     and_then (guided_cancel env 0) (and_then (guided_check (ge_recheck env))
       (\<lambda>w. (guard (ge_generation env = mi_generation (gw_inner w)) GenerationChanged, w)))"

definition stop_tracked :: "bool \<Rightarrow> guided_world \<Rightarrow> guided_world" where
  "stop_tracked watcher_ran w =
     (let mi = gw_inner w
      in w\<lparr>gw_inner := mi\<lparr>mi_pid := None, mi_state := Stopped,
             mi_owns_child := mi_owns_child mi \<and> \<not> (watcher_ran \<and> mi_pid mi \<noteq> None)\<rparr>,
           gw_core := (if mi_pid mi = None then gw_core w else None)\<rparr>)"

definition guided_stop :: "guided_env \<Rightarrow> (guided_world, guided_error) effect" where
  "guided_stop env w =
     (case ge_stop env of Inl e \<Rightarrow> (Inl e, w)
      | Inr _ \<Rightarrow> (Inr (), (stop_tracked (ge_watcher_ran env) w)\<lparr>gw_stopped := True\<rparr>))"

text \<open>\<open>spawn_core_as\<close> without publishing: the configuration of the given file is served when it is ready.\<close>

definition guided_spawn ::
  "spawn_outcome \<Rightarrow> core_kind \<Rightarrow> string \<Rightarrow> string \<Rightarrow> int \<Rightarrow> (guided_world, guided_error) effect"
where
  "guided_spawn outcome kind binary path now w =
     (case outcome of
        NotSpawned msg \<Rightarrow> (Inl (GuidedFailed msg), w)
      | NotReady pid msg \<Rightarrow>
          (Inl (GuidedFailed msg),
           w\<lparr>gw_inner := (spawned_inner pid binary now (gw_inner w))\<lparr>mi_owns_child := False,
               mi_pid := None, mi_started_at := None, mi_state := CoreFailed msg\<rparr>\<rparr>)
      | SpawnReady pid \<Rightarrow>
          (Inr (), w\<lparr>gw_inner := spawned_inner pid binary now (gw_inner w),
                    gw_core := Some (kind, gw_disk w path)\<rparr>))"

definition guided_launch :: "guided_env \<Rightarrow> bool \<Rightarrow> (guided_world, guided_error) effect" where
  "guided_launch env launch =
     and_then (guided_cancel env 1)
     (and_then (\<lambda>w. case ge_rename env of Inl e \<Rightarrow> (Inl e, w)
                    | Inr _ \<Rightarrow> (Inr (), w\<lparr>gw_disk := (gw_disk w)(ge_path env := Some (ge_candidate env))\<rparr>))
      (if \<not> launch then Pair (Inr ())
       else and_then (guided_check (ge_launch_checks env))
        (and_then (guided_spawn (ge_spawn env) (ge_target env) (ge_binary env) (ge_path env) (ge_now env))
         (and_then (\<lambda>w. (Inr (), w\<lparr>gw_started := True\<rparr>)) (guided_check (ge_select env))))))"

text \<open>What the watcher of the target leaves when the target exits during the transaction.\<close>

definition target_exits :: "guided_env \<Rightarrow> guided_world \<Rightarrow> guided_world" where
  "target_exits env w =
     w\<lparr>gw_inner := (gw_inner w)\<lparr>mi_pid := None, mi_owns_child := False,
         mi_state := CoreFailed (''target exited '' @ show_i32 (ge_exit_code env) @ '' during core transaction'')\<rparr>,
       gw_core := None\<rparr>"

definition target_runs :: "guided_env \<Rightarrow> bool \<Rightarrow> (guided_world, guided_error) effect" where
  "target_runs env launch w =
     (if launch \<and> \<not> ge_target_alive env then (Inl TargetExited, target_exits env w) else (Inr (), w))"

definition save_verge :: "guided_env \<Rightarrow> (guided_world, guided_error) effect" where
  "save_verge env w =
     (case ge_verge env of Inl e \<Rightarrow> (Inl e, w)
      | Inr content \<Rightarrow> (Inr (), w\<lparr>gw_disk := (gw_disk w)(verge_path := Some content)\<rparr>))"

definition save_marker :: "guided_env \<Rightarrow> (guided_world, guided_error) effect" where
  "save_marker env w =
     (case ge_marker env of Inl e \<Rightarrow> (Inl e, w)
      | Inr content \<Rightarrow> (Inr (), w\<lparr>gw_disk := (gw_disk w)(marker_path :=
          (if ge_target env = SingBox then Some content else None))\<rparr>))"

definition take_selection :: "guided_env \<Rightarrow> bool \<Rightarrow> guided_world \<Rightarrow> guided_world" where
  "take_selection env launch w =
     w\<lparr>gw_inner := (gw_inner w)\<lparr>mi_core_kind := ge_target env, mi_resolved_binary := Some (ge_binary env),
         mi_state := (if launch then mi_state (gw_inner w) else Stopped)\<rparr>\<rparr>"

definition guided_commit :: "guided_env \<Rightarrow> bool \<Rightarrow> (guided_world, guided_error) effect" where
  "guided_commit env launch =
     and_then (guided_cancel env 2)
     (and_then (guided_check (ge_commit_checks env))
     (and_then (target_runs env launch)
     (and_then (save_verge env)
     (and_then (guided_cancel env 3)
     (and_then (save_marker env)
     (and_then (guided_cancel env 4) (\<lambda>w. (Inr (), take_selection env launch w))))))))"

definition guided_rollback ::
  "guided_env \<Rightarrow> bool \<Rightarrow> core_kind \<Rightarrow> string option \<Rightarrow> file_snapshot \<Rightarrow> (guided_world, guided_error) effect"
where
  "guided_rollback env was_running old_kind old_binary captured =
     and_then (\<lambda>w. if \<not> gw_started w then (Inr (), w)
                   else case (if mi_pid (gw_inner w) = None then Inr () else ge_stop_target env) of Inl e \<Rightarrow> (Inl e, w)
                     | Inr _ \<Rightarrow> (Inr (), stop_tracked True w))
     (and_then (\<lambda>w. case snapshot_restore (ge_failing env) captured (gw_disk w) of
                     (Inl e, d) \<Rightarrow> (Inl (GuidedFailed e), w\<lparr>gw_disk := d\<rparr>)
                   | (Inr _, d) \<Rightarrow> (Inr (), w\<lparr>gw_disk := d\<rparr>))
     (and_then (\<lambda>w. (Inr (), w\<lparr>gw_inner := (gw_inner w)\<lparr>mi_core_kind := old_kind, mi_resolved_binary := old_binary\<rparr>\<rparr>))
       (\<lambda>w. if gw_stopped w \<and> was_running
            then (case old_binary of
                    None \<Rightarrow> (Inl (GuidedFailed ''Old executable missing for rollback''), w)
                  | Some binary \<Rightarrow>
                      and_then (guided_spawn (ge_respawn env) old_kind binary (ge_old_path env) (ge_now env))
                        (guided_check (ge_reselect env)) w)
            else (Inr (), w))))"

text \<open>The message of the error state is the outermost context of the error.\<close>

definition switch_error :: "guided_env \<Rightarrow> guided_error option \<Rightarrow> string" where
  "switch_error env restore =
     (case restore of None \<Rightarrow> ''Previous core selection restored''
      | Some e \<Rightarrow> ''Rollback also failed: '' @ ge_show env e)"

text \<open>The transaction part of \<open>apply_prepared_core\<close>, after all preparation.\<close>

definition guided_switch ::
  "guided_env \<Rightarrow> bool \<Rightarrow> bool \<Rightarrow> guided_world \<Rightarrow> (unit, guided_error \<times> guided_error option) result \<times> guided_world"
where
  "guided_switch env was_running start_if_stopped w =
     (if mi_restarting (gw_inner w) then (Inl (OperationInProgress, None), w)
      else
        let launch = (was_running \<or> start_if_stopped);
            captured = snapshot_capture [ge_path env, verge_path, marker_path] (gw_disk w);
            w = w\<lparr>gw_stopped := False, gw_started := False\<rparr>;
            (r, w') = orchestrate_guided_switch (guided_recheck env) was_running (guided_stop env)
              (guided_launch env launch) (guided_commit env launch)
              (guided_rollback env was_running (mi_core_kind (gw_inner w)) (mi_resolved_binary (gw_inner w)) captured) w
        in (r, case r of Inl (e, restore) \<Rightarrow> if mi_pid (gw_inner w') = None \<and> gw_stopped w'
                 then w'\<lparr>gw_inner := (gw_inner w')\<lparr>mi_state := CoreFailed (switch_error env restore)\<rparr>\<rparr> else w'
               | Inr _ \<Rightarrow> w'))"

lemma and_then_Inr:
  "and_then f g w = (Inr u, w') \<longleftrightarrow> (\<exists>w1. f w = (Inr (), w1) \<and> g w1 = (Inr u, w'))"
  by (auto simp: and_then_def split: prod.splits sum.splits)

lemma and_then_Inl:
  "and_then f g w = (Inl e, w') \<longleftrightarrow> f w = (Inl e, w') \<or> (\<exists>w1. f w = (Inr (), w1) \<and> g w1 = (Inl e, w'))"
  by (auto simp: and_then_def split: prod.splits sum.splits)

lemmas effect_simps = guided_cancel_def guided_check_def and_then_Inr and_then_Inl

lemma recheck_pure: "guided_recheck env w = (r, w') \<Longrightarrow> w' = w"
  by (cases r) (auto simp: guided_recheck_def effect_simps)

lemma guided_spawn_cases:
  "guided_spawn out kind binary path now w = (Inr u, w') \<longleftrightarrow>
     (\<exists>pid. out = SpawnReady pid \<and> w' = w\<lparr>gw_inner := spawned_inner pid binary now (gw_inner w),
        gw_core := Some (kind, gw_disk w path)\<rparr>)"
  "guided_spawn out kind binary path now w = (Inl e, w') \<Longrightarrow>
     gw_disk w' = gw_disk w \<and> gw_core w' = gw_core w \<and> gw_stopped w' = gw_stopped w \<and> gw_started w' = gw_started w \<and>
     mi_core_kind (gw_inner w') = mi_core_kind (gw_inner w)"
  by (auto simp: guided_spawn_def spawned_inner_def split: spawn_outcome.splits)

text \<open>What a world satisfies between the recheck and the roll back.\<close>

definition under_way :: "guided_env \<Rightarrow> bool \<Rightarrow> guided_world \<Rightarrow> guided_world \<Rightarrow> bool" where
  "under_way env was_running w w1 \<longleftrightarrow>
     (\<forall>p. p \<notin> {ge_path env, verge_path, marker_path} \<longrightarrow> gw_disk w1 p = gw_disk w p) \<and>
     (gw_started w1 \<longrightarrow> gw_core w1 = None \<or> mi_pid (gw_inner w1) \<noteq> None) \<and>
     (\<not> gw_started w1 \<longrightarrow> gw_core w1 = (if gw_stopped w1 then None else gw_core w)) \<and>
     (gw_started w1 \<longrightarrow> gw_stopped w1 = was_running)"

lemma launch_ok:
  assumes "guided_launch env launch w = (Inr u, w')"
  shows "gw_disk w' = (gw_disk w)(ge_path env := Some (ge_candidate env))"
    and "gw_stopped w' = gw_stopped w" and "launch \<Longrightarrow> gw_started w'" and "\<not> launch \<Longrightarrow> gw_started w' = gw_started w"
    and "launch \<Longrightarrow> gw_core w' = Some (ge_target env, Some (ge_candidate env)) \<and> mi_pid (gw_inner w') \<noteq> None"
    and "\<not> launch \<Longrightarrow> gw_core w' = gw_core w"
  using assms
  by (auto simp: guided_launch_def effect_simps guided_spawn_cases spawned_inner_def split: sum.splits if_splits)

lemma launch_err:
  assumes "guided_launch env launch w = (Inl e, w')" and "under_way env was_running w0 w"
    and "\<not> gw_started w" and "gw_stopped w = was_running"
  shows "under_way env was_running w0 w'"
  using assms
  by (auto simp: guided_launch_def under_way_def effect_simps guided_spawn_cases(1) spawned_inner_def
      dest!: guided_spawn_cases(2) split: sum.splits if_splits)

lemma commit_effects:
  "target_runs env launch w = (Inr u, w') \<longleftrightarrow> (launch \<longrightarrow> ge_target_alive env) \<and> w' = w"
  "target_runs env launch w = (Inl e, w') \<longleftrightarrow>
     launch \<and> \<not> ge_target_alive env \<and> e = TargetExited \<and> w' = target_exits env w"
  "save_verge env w = (Inr u, w') \<longleftrightarrow>
     (\<exists>v. ge_verge env = Inr v \<and> w' = w\<lparr>gw_disk := (gw_disk w)(verge_path := Some v)\<rparr>)"
  "save_verge env w = (Inl e, w') \<longleftrightarrow> ge_verge env = Inl e \<and> w' = w"
  "save_marker env w = (Inr u, w') \<longleftrightarrow>
     (\<exists>m. ge_marker env = Inr m \<and>
       w' = w\<lparr>gw_disk := (gw_disk w)(marker_path := (if ge_target env = SingBox then Some m else None))\<rparr>)"
  "save_marker env w = (Inl e, w') \<longleftrightarrow> ge_marker env = Inl e \<and> w' = w"
  by (auto simp: target_runs_def save_verge_def save_marker_def split: sum.splits)

lemma commit_ok:
  assumes "guided_commit env launch w = (Inr u, w')"
  shows "\<exists>v m. ge_verge env = Inr v \<and> ge_marker env = Inr m \<and>
      w' = take_selection env launch (w\<lparr>gw_disk := (gw_disk w)(verge_path := Some v,
        marker_path := (if ge_target env = SingBox then Some m else None))\<rparr>)"
  using assms unfolding guided_commit_def effect_simps commit_effects by auto

text \<open>An effect keeps a property of the world whether it succeeds or fails.\<close>

definition keeps :: "('w \<Rightarrow> bool) \<Rightarrow> ('w, 'e) effect \<Rightarrow> bool" where
  "keeps P f \<longleftrightarrow> (\<forall>w. P w \<longrightarrow> P (snd (f w)))"

lemma keeps_and_then: "keeps P f \<Longrightarrow> keeps P g \<Longrightarrow> keeps P (and_then f g)"
  by (fastforce simp: keeps_def and_then_def split: prod.splits sum.splits)

lemma keepsD: "keeps P f \<Longrightarrow> P w \<Longrightarrow> f w = (r, w') \<Longrightarrow> P w'"
  by (metis keeps_def snd_conv)

lemma keeps_pure: "keeps P (guided_cancel env n)" "keeps P (guided_check r)"
  by (simp_all add: keeps_def guided_cancel_def guided_check_def)

lemma commit_keeps:
  "keeps (\<lambda>w. under_way env was_running w0 w \<and> (launch \<longrightarrow> gw_started w)) (guided_commit env launch)"
  unfolding guided_commit_def
  by (intro keeps_and_then keeps_pure)
    (auto simp: keeps_def target_runs_def target_exits_def save_verge_def save_marker_def take_selection_def
      under_way_def split: sum.splits)

lemma rollback_ok:
  assumes "guided_rollback env was_running old_kind old_binary captured w = (Inr u, w')"
    and "under_way env was_running w0 w"
  shows "snapshot_restore (ge_failing env) captured (gw_disk w) = (Inr (), gw_disk w')"
    and "mi_core_kind (gw_inner w') = old_kind"
    and "gw_core w' = (if gw_stopped w \<and> was_running then Some (old_kind, gw_disk w' (ge_old_path env))
      else if gw_started w then None else gw_core w)"
proof -
  define w1 where "w1 = (if gw_started w then stop_tracked True w else w)"
  obtain d where d: "snapshot_restore (ge_failing env) captured (gw_disk w) = (Inr (), d)"
  proof (cases "snapshot_restore (ge_failing env) captured (gw_disk w)")
    case (Pair r d)
    with assms(1) that show thesis
      by (cases r) (auto simp: guided_rollback_def effect_simps stop_tracked_def Let_def split: if_splits sum.splits)
  qed
  let ?w2 = "w1\<lparr>gw_disk := d, gw_inner := (gw_inner w1)\<lparr>mi_core_kind := old_kind, mi_resolved_binary := old_binary\<rparr>\<rparr>"
  have fields: "gw_disk w1 = gw_disk w" "gw_stopped w1 = gw_stopped w"
    "gw_core w1 = (if gw_started w then None else gw_core w)"
    using assms(2) by (auto simp: w1_def stop_tracked_def under_way_def Let_def)
  have last: "(if gw_stopped w \<and> was_running
      then (case old_binary of None \<Rightarrow> (Inl (GuidedFailed ''Old executable missing for rollback''), ?w2)
        | Some binary \<Rightarrow> and_then (guided_spawn (ge_respawn env) old_kind binary (ge_old_path env) (ge_now env))
            (guided_check (ge_reselect env)) ?w2)
      else (Inr (), ?w2)) = (Inr u, w')"
    using assms(1) d fields
    by (auto simp: guided_rollback_def effect_simps w1_def split: if_splits sum.splits option.splits)
  have "gw_disk w' = d \<and> mi_core_kind (gw_inner w') = old_kind \<and>
      gw_core w' = (if gw_stopped w \<and> was_running then Some (old_kind, d (ge_old_path env)) else gw_core w1)"
    using last
    by (auto simp: effect_simps guided_spawn_cases(1) spawned_inner_def split: if_splits option.splits)
  with d fields show "snapshot_restore (ge_failing env) captured (gw_disk w) = (Inr (), gw_disk w')"
    and "mi_core_kind (gw_inner w') = old_kind"
    and "gw_core w' = (if gw_stopped w \<and> was_running then Some (old_kind, gw_disk w' (ge_old_path env))
      else if gw_started w then None else gw_core w)"
    by auto
qed

text \<open>The state before the switch is consistent: the running core has a pid and serves its file.\<close>

definition switch_ready :: "guided_env \<Rightarrow> bool \<Rightarrow> guided_world \<Rightarrow> bool" where
  "switch_ready env was_running w \<longleftrightarrow>
     (if was_running then mi_pid (gw_inner w) \<noteq> None \<and>
        gw_core w = Some (mi_core_kind (gw_inner w), gw_disk w (ge_old_path env))
      else gw_core w = None)"

lemma switch_body:
  assumes "and_then (if was_running then guided_stop env else Pair (Inr ()))
      (and_then (guided_launch env launch) (guided_commit env launch)) w = (r, w')"
    and "switch_ready env was_running w" and "\<not> gw_started w" and "\<not> gw_stopped w"
    and "launch \<longleftrightarrow> was_running \<or> start"
  shows "under_way env was_running w w'"
    and "r = Inr () \<Longrightarrow> gw_core w' = (if launch then Some (ge_target env, Some (ge_candidate env)) else gw_core w) \<and>
      mi_core_kind (gw_inner w') = ge_target env \<and> (\<exists>v m. ge_verge env = Inr v \<and> ge_marker env = Inr m \<and>
      gw_disk w' = (gw_disk w)(ge_path env := Some (ge_candidate env), verge_path := Some v,
        marker_path := (if ge_target env = SingBox then Some m else None)))"
proof -
  define w1 where "w1 = (if was_running then (stop_tracked (ge_watcher_ran env) w)\<lparr>gw_stopped := True\<rparr> else w)"
  have w1: "under_way env was_running w w1" "\<not> gw_started w1" "gw_stopped w1 = was_running" "gw_disk w1 = gw_disk w"
    "\<not> was_running \<Longrightarrow> w1 = w"
    using assms(2-4) by (auto simp: w1_def stop_tracked_def under_way_def switch_ready_def Let_def)
  consider (nostop) "was_running" "\<exists>e. r = Inl e" "w' = w"
    | (ran) "and_then (guided_launch env launch) (guided_commit env launch) w1 = (r, w')"
  proof (cases "was_running \<and> (\<exists>e. ge_stop env = Inl e)")
    case True
    then obtain e where "was_running" "ge_stop env = Inl e" by blast
    with assms(1) have "r = Inl e" "w' = w" by (simp_all add: and_then_def guided_stop_def)
    with True nostop show thesis by blast
  next
    case False
    with assms(1) ran show thesis
      by (cases "ge_stop env") (auto simp: and_then_def guided_stop_def w1_def split: if_splits)
  qed
  then have "under_way env was_running w w' \<and> (r = Inr () \<longrightarrow>
      gw_core w' = (if launch then Some (ge_target env, Some (ge_candidate env)) else gw_core w) \<and>
      mi_core_kind (gw_inner w') = ge_target env \<and> (\<exists>v m. ge_verge env = Inr v \<and> ge_marker env = Inr m \<and>
      gw_disk w' = (gw_disk w)(ge_path env := Some (ge_candidate env), verge_path := Some v,
        marker_path := (if ge_target env = SingBox then Some m else None))))"
  proof cases
    case nostop
    with assms(3,4) show ?thesis by (auto simp: under_way_def)
  next
    case ran
    obtain r2 w2 where launch: "guided_launch env launch w1 = (r2, w2)" by fastforce
    show ?thesis
    proof (cases r2)
      case (Inl e)
      with ran launch have "w' = w2" "r = Inl e" by (simp_all add: and_then_def)
      with launch_err [OF _ w1(1-3)] launch Inl show ?thesis by auto
    next
      case (Inr u)
      note ok = launch_ok [OF launch [unfolded Inr]]
      have commit: "guided_commit env launch w2 = (r, w')" using ran launch Inr by (simp add: and_then_def)
      have "under_way env was_running w w2 \<and> (launch \<longrightarrow> gw_started w2)"
        using ok w1 assms(5) by (cases launch) (auto simp: under_way_def)
      then have "under_way env was_running w w'" using keepsD [OF commit_keeps _ commit] by blast
      moreover have "gw_core w2 = (if launch then Some (ge_target env, Some (ge_candidate env)) else gw_core w)"
        using ok w1(5) assms(5) by auto
      moreover have "gw_disk w2 = (gw_disk w)(ge_path env := Some (ge_candidate env))" using ok(1) w1(4) by simp
      moreover have "\<exists>v m. ge_verge env = Inr v \<and> ge_marker env = Inr m \<and>
          w' = take_selection env launch (w2\<lparr>gw_disk := (gw_disk w2)(verge_path := Some v,
            marker_path := (if ge_target env = SingBox then Some m else None))\<rparr>)" if "r = Inr ()"
        using commit_ok commit that by blast
      ultimately show ?thesis by (fastforce simp: take_selection_def)
    qed
  qed
  then show "under_way env was_running w w'"
    and "r = Inr () \<Longrightarrow> gw_core w' = (if launch then Some (ge_target env, Some (ge_candidate env)) else gw_core w) \<and>
      mi_core_kind (gw_inner w') = ge_target env \<and> (\<exists>v m. ge_verge env = Inr v \<and> ge_marker env = Inr m \<and>
      gw_disk w' = (gw_disk w)(ge_path env := Some (ge_candidate env), verge_path := Some v,
        marker_path := (if ge_target env = SingBox then Some m else None)))"
    by auto
qed



section \<open>The selected nodes on the target core\<close>

text \<open>The names a configuration declares and the members of its selectors; a later entry replaces an earlier.\<close>

type_synonym selectors = "string \<rightharpoonup> string list"

definition yaml_members :: "yaml \<Rightarrow> string list" where
  "yaml_members entry = List.map_filter y_str (unwrap_or (Option.bind (y_get entry ''proxies'') y_seq) [])"

definition add_yaml_entry :: "bool \<Rightarrow> string list \<times> selectors \<Rightarrow> yaml \<Rightarrow> string list \<times> selectors" where
  "add_yaml_entry is_group acc entry =
     (case Option.bind (y_get entry ''name'') y_str of
        None \<Rightarrow> acc
      | Some name \<Rightarrow>
          (name # fst acc,
           if is_group \<and> (case Option.bind (y_get entry ''type'') y_str of
                Some kind \<Rightarrow> eq_ignore_ascii_case kind ''select'' \<or> eq_ignore_ascii_case kind ''selector''
              | None \<Rightarrow> False)
           then (snd acc)(name \<mapsto> yaml_members entry) else snd acc))"

definition yaml_declarations :: "ymapping \<Rightarrow> string list \<times> selectors" where
  "yaml_declarations config =
     (let entries = (\<lambda>key. unwrap_or (Option.bind (ymap_get config key) y_seq) [])
      in foldl (add_yaml_entry True)
           (foldl (add_yaml_entry False) ([''DIRECT'', ''REJECT''], Map.empty) (entries ''proxies''))
           (entries ''proxy-groups''))"

definition add_json_entry :: "string list \<times> selectors \<Rightarrow> json \<Rightarrow> string list \<times> selectors" where
  "add_json_entry acc entry =
     (case as_str (json_at entry ''tag'') of
        None \<Rightarrow> acc
      | Some tag \<Rightarrow>
          (tag # fst acc,
           if json_at entry ''type'' = JStr ''selector''
           then (snd acc)(tag \<mapsto> List.map_filter as_str (unwrap_or (as_array (json_at entry ''outbounds'')) []))
           else snd acc))"

definition json_declarations :: "json \<Rightarrow> (string list \<times> selectors) option" where
  "json_declarations config =
     map_option (foldl add_json_entry ([], Map.empty)) (as_array (json_at config ''outbounds''))"

datatype selection_mapping_error =
    NoOutbounds
  | ConfigUnreadable
  | NoSelector string
  | NoMember string string

definition reserved_alias :: "core_kind \<Rightarrow> string \<Rightarrow> string option" where
  "reserved_alias kind node =
     (case kind of
        SingBox \<Rightarrow> if node = ''DIRECT'' then Some ''direct'' else if node = ''REJECT'' then Some ''block'' else None
      | Mihomo \<Rightarrow> if node = ''direct'' then Some ''DIRECT'' else if node = ''block'' then Some ''REJECT'' else None)"

definition legal_member :: "string list \<Rightarrow> string list \<Rightarrow> string \<Rightarrow> bool" where
  "legal_member declared members name \<longleftrightarrow> name \<in> set declared \<and> name \<in> set members"

definition map_selection ::
  "core_kind \<Rightarrow> string list \<times> selectors \<Rightarrow> string \<times> string \<Rightarrow> (string \<times> string, selection_mapping_error) result"
where
  "map_selection kind decls selection =
     (let (grp, node) = selection in
      rbind (ok_or (snd decls grp) (NoSelector grp)) (\<lambda>members.
        if legal_member (fst decls) members node then Inr (grp, node)
        else case reserved_alias kind node of
            Some alias \<Rightarrow> if legal_member (fst decls) members alias then Inr (grp, alias) else Inl (NoMember node grp)
          | None \<Rightarrow> Inl (NoMember node grp)))"

text \<open>\<open>guided_target_selections\<close>; the prepared document is parsed by the library of its format.\<close>

definition guided_target_selections ::
  "core_kind \<Rightarrow> ymapping option \<Rightarrow> json option \<Rightarrow> (string \<times> string) list \<Rightarrow>
    ((string \<times> string) list, selection_mapping_error) result"
where
  "guided_target_selections kind yaml json selections =
     (if selections = [] then Inr []
      else rbind (case kind of
             Mihomo \<Rightarrow> map_err (\<lambda>_. ConfigUnreadable) (ok_or (map_option yaml_declarations yaml) ())
           | SingBox \<Rightarrow> rbind (ok_or json ConfigUnreadable) (\<lambda>j. ok_or (json_declarations j) NoOutbounds))
         (\<lambda>decls. traverse (map_selection kind decls) selections))"

lemma map_selection_ok:
  "map_selection kind decls (g, n) = Inr (g', n') \<longleftrightarrow> g' = g \<and>
     (\<exists>members. snd decls g = Some members \<and> legal_member (fst decls) members n' \<and>
       (n' = n \<or> \<not> legal_member (fst decls) members n \<and> reserved_alias kind n = Some n'))"
  by (cases "snd decls g"; cases "reserved_alias kind n"; simp add: map_selection_def; blast)

text \<open>
  A selection that is carried over names a selector of the target's configuration and one of its declared
  members: the old node, or the target core's word for it when the old one is not a member.
\<close>

lemma selections_map_to_members:
  assumes "guided_target_selections kind yaml json selections = Inr mapped" and "selections \<noteq> []"
  shows "\<exists>decls. (case kind of Mihomo \<Rightarrow> map_option yaml_declarations yaml = Some decls
        | SingBox \<Rightarrow> \<exists>j. json = Some j \<and> json_declarations j = Some decls) \<and>
     list_all2 (\<lambda>(g, n) (g', n'). g' = g \<and> n' \<in> set (fst decls) \<and>
        (\<exists>members. snd decls g = Some members \<and> n' \<in> set members) \<and>
        (n' = n \<or> reserved_alias kind n = Some n')) selections mapped"
proof -
  obtain decls where "(case kind of Mihomo \<Rightarrow> map_option yaml_declarations yaml = Some decls
        | SingBox \<Rightarrow> \<exists>j. json = Some j \<and> json_declarations j = Some decls)"
    and "list_all2 (\<lambda>x y. map_selection kind decls x = Inr y) selections mapped"
    using assms
    by (auto simp: guided_target_selections_def map_err_def traverse_Inr_iff split: core_kind.splits sum.splits)
  moreover from this(2) have "list_all2 (\<lambda>(g, n) (g', n'). g' = g \<and> n' \<in> set (fst decls) \<and>
        (\<exists>members. snd decls g = Some members \<and> n' \<in> set members) \<and>
        (n' = n \<or> reserved_alias kind n = Some n')) selections mapped"
    by (rule list_all2_mono) (auto simp: map_selection_ok legal_member_def)
  ultimately show ?thesis by blast
qed

end
