(* ===== verification/Pipeline.thy ===== *)
theory Pipeline
  imports Assemble
begin

text \<open>
  The conversion of a clash profile end to end. No new code is modelled here: the lemmas compose the
  profile conversion, the DNS conversion, the rule loop, the generator and the final checks of
  \<open>write_singbox_assembled_to\<close>, and show when what the first three emit satisfies what the last two demand: names
  are unique and not reserved, built-in policies have a spelling that names an outbound, and the secret is set.
\<close>

section \<open>Converted nodes\<close>

lemma protocol_maps_plain:
  "\<forall>(ptype, sb, fs) \<in> set protocol_maps.
     snd ` set fs \<inter> {''detour'', ''default'', ''outbounds''} = {} \<and> sb \<notin> {''wireguard'', ''dns'', ''shadowsocksr''}"
  by (simp add: protocol_maps_def)

definition supported_outbound :: "json \<Rightarrow> bool" where
  "supported_outbound x \<longleftrightarrow> get_str x ''type'' \<notin> Some ` {''wireguard'', ''dns'', ''shadowsocksr''}"

definition plain_outbound :: "json \<Rightarrow> bool" where
  "plain_outbound o' \<longleftrightarrow>
     json_get o' ''detour'' = None \<and> json_get o' ''default'' = None \<and> json_get o' ''outbounds'' = None \<and>
     supported_outbound o'"

lemma plain_outbound_closed: "plain_outbound o' \<Longrightarrow> outbound_closed tags o'"
  by (auto simp: plain_outbound_def outbound_closed_def get_str_def elements_def get_array_def)

lemma converted_node_plain:
  assumes "convert_node p = Inr c"
  shows "plain_outbound (cn_outbound c)"
proof -
  from assms obtain m where "convert_mapping m = Inr c" by (auto simp: convert_node_Inr)
  then show ?thesis
  proof (rule convert_mapping_stages)
    fix name ptype server port sb fs o1 d1 o2 o3 o4
    assume st: "protocol_spec ptype = Some (sb, fs)"
      "apply_udp ptype name (map_fields fs m (outbound_base sb name server port)) m (dropped_fields name ptype m)
         = Inr (o1, d1)"
      "apply_tls ptype o1 m = Inr o2" "apply_fingerprint name o2 m = Inr o3" "apply_transport ptype o3 m = Inr o4"
      "c = \<lparr>cn_outbound = JObj o4, cn_dropped = d1\<rparr>"
    have tables: "snd ` set fs \<inter> {''detour'', ''default'', ''outbounds''} = {}"
      "sb \<notin> {''wireguard'', ''dns'', ''shadowsocksr''}"
      using bspec [OF protocol_maps_plain protocol_spec_mem [OF st(1)]] by simp_all
    have "obj_get o4 k = obj_get (outbound_base sb name server port) k"
      if "k \<in> {''detour'', ''default'', ''outbounds''}" for k
      using that tables(1) stages_keep [OF st(2,3,4,5), of k] map_fields_other [of k fs m] by fastforce
    moreover have "obj_get o4 ''type'' = Some (JStr sb)"
      using base_get [OF st(1), of "''type''"] stages_keep [OF st(2,3,4,5), of "''type''"]
      by (simp add: step_keys_def outbound_base_def obj_get_mk_fields)
    ultimately show ?thesis
      using tables(2) st(6) by (auto simp: plain_outbound_def supported_outbound_def get_str_def outbound_base_def obj_get_mk_fields)
  qed
qed

lemma converted_node_tag:
  assumes "convert_node (YMap m) = Inr c"
  shows "tag_of (cn_outbound c) = ymap_str m ''name''"
proof -
  from assms have "convert_mapping m = Inr c" by (simp add: convert_node_Inr)
  then show ?thesis
  proof (rule convert_mapping_stages)
    fix name ptype server port sb fs o1 d1 o2 o3 o4
    assume st: "ymap_str m ''name'' = Some name" "protocol_spec ptype = Some (sb, fs)"
      "apply_udp ptype name (map_fields fs m (outbound_base sb name server port)) m (dropped_fields name ptype m)
         = Inr (o1, d1)"
      "apply_tls ptype o1 m = Inr o2" "apply_fingerprint name o2 m = Inr o3" "apply_transport ptype o3 m = Inr o4"
      "c = \<lparr>cn_outbound = JObj o4, cn_dropped = d1\<rparr>"
    have "obj_get o4 ''tag'' = Some (JStr name)"
      using base_get [OF st(2), of "''tag''"] stages_keep [OF st(3,4,5,6), of "''tag''"]
      by (simp add: step_keys_def outbound_base_def obj_get_mk_fields)
    then show ?thesis using st(1,7) by (simp add: tag_of_def get_str_def)
  qed
qed

lemma add_nodes_outbounds:
  "o' \<in> set (pc_outbounds (fold add_node ps r)) \<Longrightarrow>
     o' \<in> set (pc_outbounds r) \<or> (\<exists>p c. convert_node p = Inr c \<and> o' = cn_outbound c)"
  by (induction ps arbitrary: r) (fastforce simp: add_node_def split: sum.split_asm)+

lemma convert_groups_outbounds:
  "convert_groups m r = Some r' \<Longrightarrow> pc_outbounds r' = pc_outbounds r"
  by (auto simp: convert_groups_eq Let_def fold_emit fold_classify split: option.splits yaml.splits)

lemma converted_outbounds_plain:
  assumes "convert_doc doc = Inr (Some r)" "o' \<in> set (pc_outbounds r)"
  shows "plain_outbound o'"
proof -
  from assms obtain m where "doc = YMap m" "o' \<in> set (pc_outbounds (convert_nodes m empty_conversion))"
    by (auto simp: convert_doc_def dest: convert_groups_outbounds split: yaml.splits)
  then show ?thesis
    using add_nodes_outbounds converted_node_plain
    by (fastforce simp: convert_nodes_def empty_conversion_def split: option.splits yaml.splits)
qed

lemma converted_group_specs:
  assumes "convert_doc (YMap m) = Inr (Some r)" "ymap_get m ''proxy-groups'' = Some (YSeq groups)"
  shows "\<exists>allowed. pc_groups r = filter_map (spec_of allowed) (filter_map pending_of groups)"
  using assms
  by (auto simp: convert_doc_def convert_groups_eq Let_def fold_emit(2) fold_classify(3) convert_nodes_groups
      empty_conversion_def)

lemma used_profile_cases:
  assumes "convert_used_profile env doc_text = Inr (c, used)"
  shows "c = empty_conversion \<or> (\<exists>doc. convert_doc doc = Inr (Some c))"
  using assms by (auto simp: convert_used_profile_def convert_profile_def split: option.splits)

section \<open>Converted rules\<close>

lemma flat_closed_normalized:
  assumes "flat_closed outbounds sets r" "x \<in> subrules (normalize_rule_target r)"
    and "\<And>t. t \<in> outbounds \<Longrightarrow> normalize_policy_tag t \<in> tags"
  shows "rule_closed tags sets x"
proof -
  obtain y where "y \<in> subrules r" "x = normalize_rule_target y" using subrules_normalized [OF assms(2)] by blast
  moreover have "json_get r ''rules'' = None" using assms(1) by (simp add: flat_closed_def)
  ultimately have x: "x = normalize_rule_target r" using subrules_flat by blast
  obtain m where m: "r = JObj m" using assms(1) by (cases r) (auto simp: flat_closed_def)
  obtain t where t: "t \<in> outbounds" "get_str r ''outbound'' = Some t"
    using assms(1) by (auto simp: flat_closed_def)
  have "x = JObj (obj_put ''outbound'' (JStr (normalize_policy_tag t)) m)"
    using t(2) assms(1) by (simp add: x m flat_closed_def get_array_def Let_def)
  then show ?thesis
    using assms(1) assms(3) [OF t(1)]
    by (auto simp: rule_closed_def flat_closed_def rule_shape_ok_def rule_sets_of_def mk_strs_def m obj_get_put get_str_def)
qed

section \<open>The converted DNS section\<close>

lemma server_entry_legacy [simp]:
  "json_get (server_entry resolver s) ''address'' = None" "json_get (server_entry resolver s) ''address_resolver'' = None"
  by (cases "ds_kind s";
      simp add: server_entry_fields obj_get_put_fields server_fields_def remote_fields_def obj_get_mk_fields)+

lemma dns_section_legacy [simp]: "json_get (dns_section spec) ''fakeip'' = None"
  unfolding dns_section_def put_fields_def [symmetric]
  by (simp add: obj_get_put_fields obj_get_mk_fields)

lemma dns_kind_str_fakeip [simp]: "dns_kind_str k = ''fakeip'' \<longleftrightarrow> k = DnsFakeip"
  by (cases k) simp_all

lemma section_resolver_ok:
  "resolver_ok (map (server_entry resolver) servers) t \<longleftrightarrow> (\<exists>s \<in> set servers. ds_tag s = t \<and> ds_kind s \<noteq> DnsFakeip)"
  by (auto simp: resolver_ok_def)

lemma section_unique_tags: "unique_tags (map (server_entry resolver) servers) \<longleftrightarrow> distinct (map ds_tag servers)"
  by (simp add: unique_tags_def comp_def distinct_map inj_on_def)

text \<open>A valid spec whose servers name no detour has a section that is closed under any outbounds.\<close>

lemma dns_section_closed:
  assumes "validate_dns spec = Inr ()" "\<forall>s \<in> set (dc_servers spec). ds_detour s = None"
  shows "dns_closed tags (dns_section spec)"
  using validate_dns_facts [OF assms(1)] assms(2)
  by (auto simp: dns_closed_def section_unique_tags section_resolver_ok server_entry_detour server_entry_resolver
      opt_filter_def split: if_split_asm option.split_asm) fastforce

lemma default_resolver_ok:
  "default_domain_resolver spec = Some t \<Longrightarrow> resolver_ok (elements (dns_section spec) ''servers'') t"
  by (auto simp: default_domain_resolver_def section_resolver_ok opt_filter_def split: option.split_asm if_split_asm)

lemma converted_dns_no_detour:
  assumes "dns_conversion_of_doc env doc = Inr rep" "dcr_spec rep = Some spec" "s \<in> set (dc_servers spec)"
  shows "ds_detour s = None"
proof -
  obtain dns where "convert_dns_block env dns = Inr rep" using dns_conversion_Some [OF assms(1,2)] by metis
  then obtain st tag where v: "validated_spec env dns st tag spec" using convert_dns_block_Some assms(2) by metis
  note sp = validated_spec_servers [OF v]
  have "s = system_server \<or> registered env s \<or> s = fakeip_server dns"
    using final_state_server_cases [OF sp(5)] assms(3) sp(1) by auto
  then show ?thesis
    by (auto simp: registered_def endpoint_ok_def system_server_def fakeip_server_def plain_server_def)
qed

text \<open>What the generator and the final checks ask of the DNS section of a config.\<close>

definition dns_part_ok :: "string set \<Rightarrow> json option \<Rightarrow> string option \<Rightarrow> bool" where
  "dns_part_ok tags section resolver \<longleftrightarrow>
     (let dns = unwrap_or section JNull in
      dns_closed tags dns \<and> (\<forall>t. resolver = Some t \<longrightarrow> resolver_ok (elements dns ''servers'') t) \<and>
      (\<forall>s \<in> set (elements dns ''servers''). json_get s ''address'' = None \<and> json_get s ''address_resolver'' = None) \<and>
      json_get dns ''fakeip'' = None)"

lemma dns_part_empty: "dns_part_ok tags None None"
  by (simp add: dns_part_ok_def dns_closed_def elements_def get_array_def unique_tags_def)

lemma dns_part_converted:
  assumes "build_dns_section spec = Inr section" "\<forall>s \<in> set (dc_servers spec). ds_detour s = None"
  shows "dns_part_ok tags section (default_domain_resolver spec)"
proof (cases "spec_is_empty spec")
  case True
  then have "default_domain_resolver spec = None"
    by (auto simp: spec_is_empty_def default_domain_resolver_def opt_filter_def split: option.splits)
  with True assms(1) dns_part_empty show ?thesis by (simp add: build_dns_section_def)
next
  case False
  with assms(1) have v: "validate_dns spec = Inr ()" "section = Some (dns_section spec)"
    by (auto simp: build_dns_section_def)
  then show ?thesis
    using dns_section_closed [OF v(1) assms(2)] default_resolver_ok [of spec]
    by (auto simp: dns_part_ok_def)
qed

section \<open>The parts of a profile without stored settings\<close>

text \<open>No logical rules and no DNS settings are stored. Stored rule-sets are allowed.\<close>

definition no_stored_rules :: "home option \<Rightarrow> bool" where
  "no_stored_rules home \<longleftrightarrow>
     (\<forall>h. home = Some h \<longrightarrow> h logical_rules_file = None \<and> h dns_config_file = None)"

lemma ordered_rules_plain:
  assumes "no_stored_rules home" "ordered_rules env home doc_text slots = Inr (rules, drift)"
  shows "rules = cat_options slots"
proof -
  have plain: "interleave_route_slots slots empty_order = cat_options slots"
    by (simp add: interleave_route_slots_def empty_order_def)
  have drift: "resolve_profile_drift empty_order f = (empty_order, None)" for f
    by (simp add: resolve_profile_drift_def empty_order_def)
  show ?thesis
  proof (cases home)
    case (Some h)
    with assms(1) have "load_rule_order (ae_io env) h = Inr empty_order"
      by (simp add: no_stored_rules_def load_rule_order_def)
    with Some assms(2) plain drift show ?thesis
      by (auto simp: ordered_rules_def Let_def split: option.splits)
  qed (use assms(2) plain in \<open>simp add: ordered_rules_def\<close>)
qed

text \<open>Everything the later stages need to know about the parts.\<close>

definition parts_closed :: "singbox_parts \<Rightarrow> bool" where
  "parts_closed parts \<longleftrightarrow>
     (let c = sp_conversion parts in
      (\<forall>o' \<in> set (pc_outbounds c). plain_outbound o') \<and>
      (\<forall>g \<in> set (pc_groups c). gs_members g \<noteq> [] \<and> (\<forall>m \<in> set (gs_members g). m \<in> outbound_tags c \<or> is_builtin_member m)) \<and>
      (\<forall>r \<in> set (sp_route_rules parts). flat_closed (outbound_tags c) (provider_tags (sp_rule_sets parts)) r) \<and>
      unique_tags (sp_rule_sets parts) \<and>
      (\<forall>tags. dns_part_ok tags (sp_dns_section parts) (sp_default_resolver parts)))"

lemma empty_routes_rules: "r \<in> set (cat_options (route_slots empty_routes)) \<Longrightarrow> P"
  by (simp add: empty_routes_def route_slots_def)

lemma assembled_rules_closed:
  assumes "(case doc_text of None \<Rightarrow> Inr empty_routes
      | Some y \<Rightarrow> profile_route_rules parse y outbounds (provider_tags stored)) = Inr routes"
    and "unique_tags stored" "r \<in> set (cat_options (route_slots routes))"
  shows "flat_closed outbounds (provider_tags (merge_rule_sets stored (pr_rule_sets routes))) r"
proof (cases doc_text)
  case None
  with assms show ?thesis by (auto intro: empty_routes_rules)
next
  case (Some y)
  with assms(1) obtain doc where doc: "profile_route_rules_of_doc doc outbounds (provider_tags stored) = Inr routes"
    by (auto simp: profile_route_rules_def)
  note inv = profile_route_rules_inv [OF doc]
  have "r \<in> set (pr_rules routes)" using assms(3) route_slots_rules [OF inv(1)] by simp
  then show ?thesis using inv(2) merge_rule_sets_props(2) [OF assms(2)] by simp
qed

lemma assembled_dns_ok:
  assumes "(case doc_text of None \<Rightarrow> Inr \<lparr>dcr_spec = None, dcr_notes = []\<rparr>
      | Some y \<Rightarrow> map_err AssembleDns (dns_conversion_from_clash_yaml env y)) = Inr rep"
    and "build_dns_section (unwrap_or (dcr_spec rep) empty_dns) = Inr sec"
  shows "dns_part_ok tags sec (default_domain_resolver (unwrap_or (dcr_spec rep) empty_dns))"
proof (rule dns_part_converted [OF assms(2)], rule ballI)
  fix s assume s: "s \<in> set (dc_servers (unwrap_or (dcr_spec rep) empty_dns))"
  then obtain spec where spec: "dcr_spec rep = Some spec" by (cases "dcr_spec rep") (auto simp: empty_dns_def)
  with assms(1) obtain doc where "dns_conversion_of_doc env doc = Inr rep"
    by (auto simp: dns_conversion_from_clash_yaml_def split: option.split_asm)
  from converted_dns_no_detour [OF this spec] s spec show "ds_detour s = None" by simp
qed

lemma assemble_parts_closed:
  assumes "assemble_parts env home doc_text = Inr parts" "no_stored_rules home"
  shows "parts_closed parts"
proof -
  from assms(1) obtain cu stored routes rd dns rep sec where st:
    "convert_used_profile env doc_text = Inr cu"
    "(case home of None \<Rightarrow> Inr [] | Some h \<Rightarrow> map_err AssembleStore (load_rule_sets (ae_io env) h)) = Inr stored"
    "(case doc_text of None \<Rightarrow> Inr empty_routes
      | Some y \<Rightarrow> profile_route_rules (de_yaml (ae_dns env)) y (outbound_tags (fst cu)) (provider_tags stored)) = Inr routes"
    "ordered_rules env home doc_text (route_slots routes) = Inr rd"
    "(case home of None \<Rightarrow> Inr empty_dns | Some h \<Rightarrow> map_err AssembleStoredDns (load_dns_spec env h)) = Inr dns"
    "(case doc_text of None \<Rightarrow> Inr \<lparr>dcr_spec = None, dcr_notes = []\<rparr>
      | Some y \<Rightarrow> map_err AssembleDns (dns_conversion_from_clash_yaml (ae_dns env) y)) = Inr rep"
    "build_dns_section (fst (select_dns home dns rep)) = Inr sec"
    and p: "sp_conversion parts = fst cu" "sp_route_rules parts = fst rd"
      "sp_rule_sets parts = merge_rule_sets stored (pr_rule_sets routes)" "sp_dns_section parts = sec"
      "sp_default_resolver parts = default_domain_resolver (fst (select_dns home dns rep))"
    unfolding assemble_parts_def
    by (auto simp: case_prod_beta' Let_def)
  define c where "c = fst cu"
  have cu: "convert_used_profile env doc_text = Inr (c, snd cu)" using st(1) by (simp add: c_def)
  have rd: "ordered_rules env home doc_text (route_slots routes) = Inr (fst rd, snd rd)" using st(4) by simp
  have stored: "unique_tags stored"
    using st(2) load_rule_sets_unique by (auto simp: unique_tags_def split: option.split_asm)
  have dns: "fst (select_dns home dns rep) = unwrap_or (dcr_spec rep) empty_dns"
    using st(5) assms(2)
    by (cases home) (auto simp: select_dns_def no_stored_rules_def load_dns_spec_def is_some_and_def)
  have "unique_tags (sp_rule_sets parts)" using merge_rule_sets_props(1) [OF stored] p(3) by simp
  moreover have "dns_part_ok tags (sp_dns_section parts) (sp_default_resolver parts)" for tags
    using assembled_dns_ok [OF st(6), of sec tags] st(7) unfolding p dns by simp
  moreover have "\<forall>r \<in> set (sp_route_rules parts). flat_closed (outbound_tags c) (provider_tags (sp_rule_sets parts)) r"
    using assembled_rules_closed [OF st(3) stored] ordered_rules_plain [OF assms(2) rd] unfolding p c_def by simp
  moreover have "(\<forall>o' \<in> set (pc_outbounds c). plain_outbound o') \<and>
      (\<forall>g \<in> set (pc_groups c). gs_members g \<noteq> [] \<and> (\<forall>m \<in> set (gs_members g). m \<in> outbound_tags c \<or> is_builtin_member m))"
    using used_profile_cases [OF cu]
  proof
    assume "\<exists>doc. convert_doc doc = Inr (Some c)"
    then obtain doc where "convert_doc doc = Inr (Some c)" ..
    then show ?thesis using converted_outbounds_plain converted_group_members by blast
  qed (simp add: empty_conversion_def)
  ultimately show ?thesis unfolding parts_closed_def Let_def p(1) c_def [symmetric] by blast
qed

section \<open>From the parts to the document\<close>

lemma parts_input_simps [simp]:
  "ci_outbounds (parts_input settings tun parts) = pc_outbounds (sp_conversion parts)"
  "ci_groups (parts_input settings tun parts) = pc_groups (sp_conversion parts)"
  "ci_enable_tun (parts_input settings tun parts) = rs_enable_tun settings"
  "ci_tun (parts_input settings tun parts) = tun"
  "ci_mixed_port (parts_input settings tun parts) = rs_mixed_port settings"
  "ci_clash_api (parts_input settings tun parts) = rs_clash_api settings"
  "ci_rule_sets (parts_input settings tun parts) = sp_rule_sets parts"
  "ci_route_rules (parts_input settings tun parts) = sp_route_rules parts"
  "ci_dns (parts_input settings tun parts) = sp_dns_section parts"
  by (simp_all add: parts_input_def)

text \<open>Every name a rule or group of a profile may use is generated, up to the built-in spellings.\<close>

lemma known_target_generated:
  assumes "parts_closed parts" "t \<in> outbound_tags (sp_conversion parts)"
  shows "normalize_policy_tag t \<in> generated_tags (parts_input settings tun parts)"
proof -
  have emitted: "emitted_specs (parts_input settings tun parts) = pc_groups (sp_conversion parts)"
    using assms(1) by (auto simp: emitted_specs_def parts_closed_def Let_def)
  show ?thesis
    using assms(2) unfolding generated_tags_def emitted parts_input_simps
    by (auto simp: outbound_tags_def builtin_tags_def normalize_policy_tag_def)
qed

text \<open>A built-in policy in a group must have one of the four spellings that name an outbound.\<close>

definition builtins_spelled :: "profile_conversion \<Rightarrow> bool" where
  "builtins_spelled c \<longleftrightarrow>
     (\<forall>g \<in> set (pc_groups c). \<forall>m \<in> set (gs_members g). is_builtin_member m \<longrightarrow> m \<in> outbound_tags c)"

lemma parts_input_closed:
  assumes "parts_closed parts" "builtins_spelled (sp_conversion parts)"
  shows "input_closed (parts_input settings tun parts)"
proof -
  let ?input = "parts_input settings tun parts"
  note generated = known_target_generated [OF assms(1), of _ settings tun]
  have "normalize_policy_tag m \<in> generated_tags ?input"
    if "g \<in> set (emitted_specs ?input)" "m \<in> set (gs_members g)" for g m
    using that assms by (intro generated) (auto simp: emitted_specs_def parts_closed_def builtins_spelled_def Let_def, blast)
  moreover have "rule_closed (generated_tags ?input) (set (filter_map tag_of (sp_rule_sets parts))) x"
    if "r \<in> set (sp_route_rules parts)" "x \<in> subrules (normalize_rule_target r)" for r x
    using assms(1) that generated
    by (intro flat_closed_normalized [of "outbound_tags (sp_conversion parts)" _ r])
       (auto simp: parts_closed_def provider_tags_def Let_def)
  ultimately show ?thesis
    using assms(1) plain_outbound_closed
    by (auto simp: input_closed_def parts_closed_def dns_part_ok_def Let_def simp del: set_filter_map)
qed

text \<open>Setting the default resolver changes one key of the route.\<close>

lemma with_resolver_get:
  "json_get (with_resolver resolver (JObj m)) k =
     (if k = ''route'' \<and> resolver \<noteq> None then Some (JObj (obj_put ''default_domain_resolver'' (JStr (the resolver)) (object_at m ''route'')))
      else obj_get m k)"
  by (cases resolver) (auto simp: with_resolver_def obj_get_in_object object_at_def split: option.splits json.splits)

lemma with_resolver_route:
  assumes "obj_get m ''route'' = Some (JObj route)"
  shows "json_get (json_at (with_resolver resolver (JObj m)) ''route'') k =
    (if k = ''default_domain_resolver'' \<and> resolver \<noteq> None then map_option JStr resolver else obj_get route k)"
  using assms by (auto simp: json_at_def with_resolver_get object_at_def obj_get_put)

lemma with_resolver_other: "k \<noteq> ''route'' \<Longrightarrow> json_at (with_resolver resolver (JObj m)) k = json_at (JObj m) k"
  by (simp add: json_at_def with_resolver_get)

lemma with_resolver_elements: "k \<noteq> ''route'' \<Longrightarrow> elements (with_resolver resolver (JObj m)) k = elements (JObj m) k"
  by (simp add: elements_def get_array_def with_resolver_get)

lemma with_resolver_closed:
  assumes "references_closed (JObj m)" "obj_get m ''route'' = Some (JObj route)"
    and "\<And>t. resolver = Some t \<Longrightarrow> resolver_ok (dns_servers (JObj m)) t"
  shows "references_closed (with_resolver resolver (JObj m))"
proof -
  let ?c = "with_resolver resolver (JObj m)"
  have route: "json_at (JObj m) ''route'' = JObj route" using assms(2) by (simp add: json_at_def)
  have els: "elements (json_at ?c ''route'') k = elements (JObj route) k" if "k \<noteq> ''default_domain_resolver''" for k
    using that by (simp add: elements_def get_array_def with_resolver_route [OF assms(2)])
  have final: "get_str (json_at ?c ''route'') ''final'' = get_str (JObj route) ''final''"
    by (simp add: get_str_def with_resolver_route [OF assms(2)])
  have default: "get_str (json_at ?c ''route'') ''default_domain_resolver'' =
      (case resolver of None \<Rightarrow> get_str (JObj route) ''default_domain_resolver'' | Some t \<Rightarrow> Some t)"
    by (cases resolver) (simp_all add: get_str_def with_resolver_route [OF assms(2)])
  have same: "all_outbound_tags ?c = all_outbound_tags (JObj m)" "dns_servers ?c = dns_servers (JObj m)"
    "known_rule_sets ?c = known_rule_sets (JObj m)"
    by (simp_all add: all_outbound_tags_def dns_servers_def known_rule_sets_def with_resolver_other with_resolver_elements
        els route)
  have eqs: "elements ?c ''outbounds'' = elements (JObj m) ''outbounds''" "json_at ?c ''dns'' = json_at (JObj m) ''dns''"
    "elements (json_at ?c ''route'') ''rule_set'' = elements (JObj route) ''rule_set''"
    "elements (json_at ?c ''route'') ''rules'' = elements (JObj route) ''rules''"
    by (simp_all add: with_resolver_other with_resolver_elements els)
  show ?thesis
    using assms(1,3)
    unfolding references_closed_def Let_def same eqs final default route
    by (cases resolver) simp_all
qed

section \<open>The final checks\<close>

lemma filter_map_Nil: "(\<And>y. y \<in> set ys \<Longrightarrow> f y = None) \<Longrightarrow> filter_map f ys = []"
  by (induction ys) auto

lemma supported_outbounds:
  assumes "\<forall>x \<in> set xs. supported_outbound x"
  shows "unsupported_outbound xs = None"
proof -
  have "filter_map (\<lambda>(i, o'). case get_str o' ''type'' of
      Some kind \<Rightarrow> if kind \<in> {''wireguard'', ''dns'', ''shadowsocksr''} then Some (i, kind) else None
    | None \<Rightarrow> None) (enumerate 0 xs) = []"
    using assms by (intro filter_map_Nil) (auto simp: supported_outbound_def in_set_enumerate_eq split: option.split)
  then show ?thesis by (simp add: unsupported_outbound_def)
qed

lemma group_outbound_supported: "supported_outbound (group_outbound g)"
  by (cases "gs_kind g") (simp_all add: group_outbound_def supported_outbound_def get_str_def)

lemma builtin_outbound_supported: "x \<in> set builtin_outbounds \<Longrightarrow> supported_outbound x"
  by (auto simp: builtin_outbounds_def supported_outbound_def get_str_def)

lemma generated_outbounds_supported:
  "\<forall>o' \<in> set (ci_outbounds input). plain_outbound o' \<Longrightarrow> unsupported_outbound (all_outbounds input) = None"
  by (rule supported_outbounds)
     (auto simp: all_outbounds_def group_outbound_supported builtin_outbound_supported plain_outbound_def)

lemma control_plane_inbound_ok:
  "input_ok input \<Longrightarrow>
     x \<in> set (control_plane_inbounds (ci_mixed_port input) (ci_enable_tun input) (ci_tun input)) \<Longrightarrow>
     check_native_inbound sing_box_1_14_2 x = Inr ()"
  by (auto simp: control_plane_inbounds_def check_native_inbound_def input_ok_def get_str_def validate_tun_stack_def
      split: if_split_asm)

text \<open>A generated config whose servers use no legacy field passes the native checks.\<close>

lemma generated_config_native_valid:
  assumes "input_ok input" "input_closed input" "\<forall>o' \<in> set (ci_outbounds input). plain_outbound o'"
    and "dns_part_ok (generated_tags input) (ci_dns input) resolver"
  shows "validate_native_config (with_resolver resolver (JObj (assemble_config env input))) = Inr ()"
proof -
  let ?m = "assemble_config env input"
  let ?c = "with_resolver resolver (JObj ?m)"
  have dns: "json_at ?c ''dns'' = unwrap_or (ci_dns input) JNull"
    using assemble_config_dns [of env input] by (cases "ci_dns input") (simp_all add: json_at_def with_resolver_get)
  have closed: "references_closed ?c"
  proof (rule with_resolver_closed)
    show "references_closed (JObj ?m)" using assembled_closed_iff [OF assms(1)] assms(2) by simp
    show "obj_get ?m ''route'' = Some (JObj (route_section input))" by (simp add: assemble_config_get)
    show "\<And>t. resolver = Some t \<Longrightarrow> resolver_ok (dns_servers (JObj ?m)) t"
      using assms(4) dns by (simp add: dns_part_ok_def dns_servers_def Let_def with_resolver_other)
  qed
  have refs: "validate_references ?c = Inr ()"
    using validate_references_ok [of ?c] closed by (auto simp: is_ok_def)
  have no_sets: "json_get ?c ''rule_set'' = None"
    by (cases "ci_dns input")
       (simp_all add: with_resolver_get assemble_config_def Let_def obj_get_put apply_cache_file_other obj_get_mk_fields)
  have route: "is_object (json_at ?c ''route'')"
    by (simp add: json_at_def with_resolver_get assemble_config_get)
  have outs: "is_array (json_at ?c ''outbounds'')" "elements ?c ''outbounds'' = all_outbounds input"
    "elements ?c ''inbounds'' = control_plane_inbounds (ci_mixed_port input) (ci_enable_tun input) (ci_tun input)"
    by (simp_all add: json_at_def with_resolver_get with_resolver_elements elements_JObj assemble_config_get)
  show ?thesis
    unfolding validate_native_config_def validate_native_config_for_version_def Let_def dns
    using assms(4) no_sets route outs refs generated_outbounds_supported [OF assms(3)] control_plane_inbound_ok [OF assms(1)]
    by (auto simp: dns_part_ok_def Let_def)
qed

lemma with_resolver_security:
  "validate_control_plane_security env (with_resolver resolver (JObj m)) = validate_control_plane_security env (JObj m)"
  by (simp add: validate_control_plane_security_def with_resolver_other)

section \<open>Properties\<close>

text \<open>The controller secret the guard asks for.\<close>

definition secret_set :: "run_settings \<Rightarrow> bool" where
  "secret_set settings \<longleftrightarrow>
     trim (ca_secret (rs_clash_api settings)) \<noteq> [] \<and> ca_secret (rs_clash_api settings) \<noteq> placeholder_secret"

lemma secure_needs_secret:
  assumes "validate_control_plane_security env (JObj (assemble_config genv (parts_input settings tun parts))) = Inr ()"
  shows "secret_set settings"
  using assms assemble_config_experimental [of genv "parts_input settings tun parts" "''clash_api''"]
  by (simp add: validate_control_plane_security_def Let_def json_get_at_object clash_api_json_def get_str_def secret_set_def
      rbind_Inr_iff guard_simps)

lemma misspelled_builtin_fails:
  assumes "parts_closed parts" "\<not> builtins_spelled (sp_conversion parts)"
  shows "\<not> is_ok (generate_config env (parts_input settings tun parts))"
proof -
  obtain g m where g: "g \<in> set (pc_groups (sp_conversion parts))" "m \<in> set (gs_members g)" "is_builtin_member m"
    "m \<notin> outbound_tags (sp_conversion parts)"
    using assms(2) by (auto simp: builtins_spelled_def)
  then have "m \<notin> {''DIRECT'', ''REJECT'', ''direct'', ''block''}" by (auto simp: outbound_tags_def builtin_tags_def)
  with g show ?thesis by (intro builtin_spelling_fails [where g = g and member = m]) simp_all
qed

text \<open>C2: When a clash profile yields a document. For a profile whose parts assemble, with no rules or DNS settings of
  the user stored, there is a document exactly when the names of its nodes and groups are unique and not reserved, its
  groups spell the built-in policies in a form that names an outbound, and the controller secret is set; in particular
  no kind of node, group, rule or DNS section of the profile makes a later stage fail. The document is then the
  generated one with the default resolver, and it has passed the native checks and the security guard.\<close>

theorem profile_yields_document:
  assumes "assemble_parts env home doc_text = Inr parts" "no_stored_rules home"
  shows "if input_ok (parts_input settings tun parts) \<and> builtins_spelled (sp_conversion parts) \<and> secret_set settings
    then assembled_document env home settings tun doc_text =
      Inr (with_resolver (sp_default_resolver parts)
             (JObj (assemble_config (ae_gen env) (parts_input settings tun parts))), parts)
    else \<exists>e. assembled_document env home settings tun doc_text = Inl e"
proof -
  let ?input = "parts_input settings tun parts"
  let ?config = "JObj (assemble_config (ae_gen env) ?input)"
  have parts: "parts_closed parts" using assemble_parts_closed [OF assms] .
  show ?thesis
  proof (cases "input_ok ?input \<and> builtins_spelled (sp_conversion parts)")
    case False
    then have "\<not> is_ok (generate_config (ae_gen env) ?input)"
      using misspelled_builtin_fails [OF parts] by (auto simp: is_ok_def generate_config_Inr)
    then obtain e where "generate_config (ae_gen env) ?input = Inl e"
      by (cases "generate_config (ae_gen env) ?input") (auto simp: is_ok_def)
    with False assms(1) show ?thesis by (auto simp: assembled_document_def)
  next
    case True
    note closed = parts_input_closed [OF parts conjunct2 [OF True], of settings tun]
    have gen: "generate_config (ae_gen env) ?input = Inr ?config"
      using True closed by (simp add: generate_config_Inr assembled_closed_iff)
    have native: "validate_native_config (with_resolver (sp_default_resolver parts) ?config) = Inr ()"
      using True parts by (intro generated_config_native_valid closed) (simp_all add: parts_closed_def Let_def)
    have secure: "validate_control_plane_security (ae_gen env) ?config = Inr () \<longleftrightarrow> secret_set settings"
      using assembled_secure [of ?input] secure_needs_secret by (auto simp: secret_set_def)
    show ?thesis
    proof (cases "validate_control_plane_security (ae_gen env) ?config")
      case (Inl e)
      with secure True assms(1) gen native show ?thesis
        by (simp add: assembled_document_def check_document_def with_resolver_security Let_def)
    next
      case (Inr u)
      with secure True assms(1) gen native show ?thesis
        by (simp add: assembled_document_def check_document_def with_resolver_security Let_def)
    qed
  qed
qed

text \<open>A profile with a node, a group, a dropped and a kept rule.\<close>

definition full_profile :: ymapping where
  "full_profile = sample_profile @ [(YStr ''rules'', YSeq [YStr ''AND,x'', YStr ''MATCH,DIRECT''])]"

definition full_env :: assemble_env where
  "full_env = plain_env\<lparr>ae_dns := sample_dns_env\<lparr>de_yaml := \<lambda>_. Some (YMap full_profile)\<rparr>\<rparr>"

definition full_settings :: run_settings where
  "full_settings = \<lparr>rs_mixed_port = 7897, rs_enable_tun = False, rs_base = [], rs_clash_api = sample_api\<rparr>"

lemma full_profile_converts:
  obtains c r where "convert_node sample_node = Inr c" "convert_doc (YMap full_profile) = Inr (Some r)"
    "pc_outbounds r = [cn_outbound c]"
    "set (pc_groups r) \<subseteq> {g. gs_name g = ''G'' \<and> set (gs_members g) \<subseteq> {''hk'', ''DIRECT''}}" "length (pc_groups r) \<le> 1"
proof -
  obtain c where c: "convert_node sample_node = Inr c" using sample_node_ok by (auto simp: is_ok_def)
  let ?pg = "\<lparr>pg_name = ''G'', pg_kind = Selector, pg_raw_members = [''hk'', ''DIRECT'']\<rparr>"
  have nodes: "pc_outbounds (convert_nodes full_profile empty_conversion) = [cn_outbound c]"
    by (simp add: full_profile_def sample_profile_def convert_nodes_def add_node_def c empty_conversion_def)
  obtain r where r: "convert_doc (YMap full_profile) = Inr (Some r)" by (simp add: convert_doc_def convert_groups_eq)
  have outs: "pc_outbounds r = [cn_outbound c]"
    using r nodes by (auto simp: convert_doc_def dest: convert_groups_outbounds)
  let ?G = "YMap [(YStr ''name'', YStr ''G''), (YStr ''type'', YStr ''select''),
     (YStr ''proxies'', YSeq [YStr ''hk'', YStr ''DIRECT''])]"
  have groups: "ymap_get full_profile ''proxy-groups'' = Some (YSeq [?G])"
    by (simp add: full_profile_def sample_profile_def)
  have pending: "filter_map pending_of [?G] = [?pg]"
    by (simp add: pending_of_def group_kind_of_def raw_members_def ymap_str_def y_str_def y_seq_def)
  obtain allowed where specs: "pc_groups r = filter_map (spec_of allowed) [?pg]"
    using converted_group_specs [OF r groups] unfolding pending by blast
  have "set (prune_members ?pg allowed) \<subseteq> {''hk'', ''DIRECT''}"
    using prune_members_subset [of ?pg allowed] by (auto simp: usable_def)
  then have "set (pc_groups r) \<subseteq> {g. gs_name g = ''G'' \<and> set (gs_members g) \<subseteq> {''hk'', ''DIRECT''}}" "length (pc_groups r) \<le> 1"
    unfolding specs by (auto simp: spec_of_def split: option.splits)
  with that c r outs show thesis by blast
qed

lemma full_profile_assembles:
  assumes "convert_doc (YMap full_profile) = Inr (Some r)"
  obtains parts where "assemble_parts full_env None (Some ''p'') = Inr parts" "sp_conversion parts = r"
proof -
  have rules: "profile_route_rules_of_doc (YMap full_profile) (outbound_tags r) {} = Inr two_rules_out"
    by (simp add: profile_route_rules_of_doc_def full_profile_def sample_profile_def Let_def rule_providers_of_doc_def
        convert_one_rule_def two_rules_split note_modifiers_def convert_match_rule_def normalize_policy_tag_def
        push_route_rule_def two_rules_out_def numeral_2_eq_2 outbound_tags_def builtin_tags_def y_seq_def y_str_def)
  have env: "de_yaml (ae_dns full_env) = (\<lambda>_. Some (YMap full_profile))" by (simp add: full_env_def)
  have conv: "convert_used_profile full_env (Some ''p'') = Inr (r, True)"
    by (simp add: convert_used_profile_def convert_profile_def env assms)
  have dns: "dns_conversion_from_clash_yaml (ae_dns full_env) ''p'' = Inr \<lparr>dcr_spec = None, dcr_notes = []\<rparr>"
    by (simp add: dns_conversion_from_clash_yaml_def env dns_conversion_of_doc_def full_profile_def sample_profile_def)
  have "is_ok (assemble_parts full_env None (Some ''p''))" "\<And>parts. assemble_parts full_env None (Some ''p'') = Inr parts \<Longrightarrow> sp_conversion parts = r"
    unfolding assemble_parts_def conv
    by (auto simp: profile_route_rules_def env rules dns provider_tags_def ordered_rules_def select_dns_def is_some_and_def
        Let_def build_dns_section_def spec_is_empty_def empty_dns_def)
  with that show thesis by (auto simp: is_ok_def)
qed

theorem profile_yields_document_witness:
  "\<exists>config parts. assembled_document full_env None full_settings \<lparr>ts_stack = ''gvisor'', ts_mtu = 9000\<rparr> (Some ''p'') =
     Inr (config, parts)"
proof -
  obtain c r where r: "convert_node sample_node = Inr c" "convert_doc (YMap full_profile) = Inr (Some r)"
    "pc_outbounds r = [cn_outbound c]"
    "set (pc_groups r) \<subseteq> {g. gs_name g = ''G'' \<and> set (gs_members g) \<subseteq> {''hk'', ''DIRECT''}}" "length (pc_groups r) \<le> 1"
    using full_profile_converts by blast
  obtain parts where parts: "assemble_parts full_env None (Some ''p'') = Inr parts" "sp_conversion parts = r"
    using full_profile_assembles [OF r(2)] .
  have tag: "tag_of (cn_outbound c) = Some ''hk''"
    using converted_node_tag [OF r(1) [unfolded sample_node_def]] by (simp add: ymap_str_def y_str_def)
  have ok: "input_ok (parts_input full_settings tun parts)" for tun
    using r(3-5) tag by (cases "pc_groups r")
      (auto simp: input_ok_def parts(2) full_settings_def unique_tags_def is_reserved_tag_def ascii_case_eval)
  have "\<not> is_builtin_member ''hk''" by (simp add: is_builtin_member_def ascii_case_eval)
  moreover have "''DIRECT'' \<in> outbound_tags r" by (simp add: outbound_tags_def builtin_tags_def)
  ultimately have "builtins_spelled r" using r(4) unfolding builtins_spelled_def by blast
  then have "builtins_spelled (sp_conversion parts)" by (simp add: parts(2))
  moreover have "secret_set full_settings"
    by (simp add: secret_set_def full_settings_def sample_api_def placeholder_secret_def sample_secret)
  moreover have "no_stored_rules None" by (simp add: no_stored_rules_def)
  ultimately show ?thesis using profile_yields_document [OF parts(1), of full_settings] ok by auto
qed

end
