(* ===== verification/Clash_Config.thy ===== *)
theory Clash_Config
  imports Rust_Ip Yaml
begin

text \<open>
  The core configuration file \<open>config.yaml\<close>
  (\<open>crates/clash-verge-core/src/config/clash.rs\<close>, \<open>utils/help.rs\<close>): the template, reading with the
  template filled in, and the \<open>guard_*\<close> functions that normalise ports and the controller address.
  Socket addresses are the standard library's text format. Parsing YAML, resolving its merge keys and
  the path of the controller socket are parameters.
\<close>

section \<open>Socket addresses\<close>

datatype sock_addr =
    SockV4 nat nat nat nat u16
  | SockV6 "nat list" nat u16 \<comment> \<open>groups, scope, port\<close>

definition read_decimal :: "nat \<Rightarrow> string \<Rightarrow> (nat \<times> string) option" where
  "read_decimal bound s = read_number digit_val 10 (length s) True bound s"

definition read_port :: "string \<Rightarrow> (u16 \<times> string) option" where
  "read_port s =
     map_option (\<lambda>(n, r). (of_nat n, r)) (Option.bind (read_char CHR '':'' s) (read_decimal 65536))"

definition read_scope :: "string \<Rightarrow> nat \<times> string" where
  "read_scope s = unwrap_or (Option.bind (read_char CHR ''%'' s) (read_decimal (2 ^ 32))) (0, s)"

definition read_sock_v4 :: "string \<Rightarrow> (sock_addr \<times> string) option" where
  "read_sock_v4 s =
     Option.bind (read_ipv4 s) (\<lambda>((a, b, c, d), r).
       map_option (\<lambda>(p, r). (SockV4 a b c d p, r)) (read_port r))"

definition read_sock_v6 :: "string \<Rightarrow> (sock_addr \<times> string) option" where
  "read_sock_v6 s =
     Option.bind (Option.bind (read_char CHR ''['' s) read_ipv6) (\<lambda>(gs, r).
       (let (scope, r) = read_scope r in
        map_option (\<lambda>(p, r). (SockV6 gs scope p, r)) (Option.bind (read_char CHR '']'' r) read_port)))"

definition parse_sock :: "string \<Rightarrow> sock_addr option" where
  "parse_sock s =
     Option.bind (or_else (read_sock_v4 s) (read_sock_v6 s)) (\<lambda>(a, r). if r = [] then Some a else None)"

fun show_sock :: "sock_addr \<Rightarrow> string" where
  "show_sock (SockV4 a b c d p) = show_ipv4 a b c d @ '':'' @ show_u16 p"
| "show_sock (SockV6 gs scope p) =
     ''['' @ show_ip (IpV6 gs) @ (if scope = 0 then [] else ''%'' @ show_nat scope) @ '']:'' @ show_u16 p"

fun sock_port :: "sock_addr \<Rightarrow> u16" where
  "sock_port (SockV4 _ _ _ _ p) = p"
| "sock_port (SockV6 _ _ p) = p"

fun sock_ip :: "sock_addr \<Rightarrow> ip_addr" where
  "sock_ip (SockV4 a b c d _) = IpV4 a b c d"
| "sock_ip (SockV6 gs _ _) = IpV6 gs"

fun is_unspecified :: "ip_addr \<Rightarrow> bool" where
  "is_unspecified (IpV4 a b c d) \<longleftrightarrow> a = 0 \<and> b = 0 \<and> c = 0 \<and> d = 0"
| "is_unspecified (IpV6 gs) \<longleftrightarrow> gs = replicate 8 0"

section \<open>Ports and the controller\<close>

definition default_external_controller :: string where "default_external_controller = ''127.0.0.1:9097''"
definition default_mixed_port :: u16 where "default_mixed_port = 7897"
definition default_socks_port :: u16 where "default_socks_port = 7898"
definition default_http_port :: u16 where "default_http_port = 7899"
definition default_redir_port :: u16 where "default_redir_port = 7895"
definition default_tproxy_port :: u16 where "default_tproxy_port = 7896"
definition default_tun_stack :: string where "default_tun_stack = ''gvisor''"
definition default_tun_dns_hijack :: "string list" where "default_tun_dns_hijack = [''any:53'']"

definition controller_allow_origins :: "string list" where
  "controller_allow_origins = [''http://localhost'', ''https://localhost'', ''http://127.0.0.1'', ''http://[::1]'']"

definition y_u16 :: "u16 \<Rightarrow> yaml" where "y_u16 p = YNum (PosInt (unat p))"
definition y_strs :: "string list \<Rightarrow> yaml" where "y_strs ss = YSeq (map YStr ss)"

fun number_as_u64 :: "number \<Rightarrow> nat option" where
  "number_as_u64 (PosInt n) = Some n"
| "number_as_u64 _ = None"

text \<open>A pattern match on the value does not look through tags; \<open>as u16\<close> keeps the low 16 bits.\<close>

definition port_value :: "yaml \<Rightarrow> u16 option" where
  "port_value v =
     (case v of YStr s \<Rightarrow> parse_u16 s | YNum n \<Rightarrow> map_option of_nat (number_as_u64 n) | _ \<Rightarrow> None)"

definition guard_port_key :: "string \<Rightarrow> u16 \<Rightarrow> ymapping \<Rightarrow> u16" where
  "guard_port_key key d config =
     (let port = unwrap_or (Option.bind (ymap_get config key) port_value) d
      in if port = 0 then d else port)"

definition guard_redir_port :: "ymapping \<Rightarrow> u16" where
  "guard_redir_port = guard_port_key ''redir-port'' default_redir_port"

definition guard_tproxy_port :: "ymapping \<Rightarrow> u16" where
  "guard_tproxy_port = guard_port_key ''tproxy-port'' default_tproxy_port"

definition guard_mixed_port :: "ymapping \<Rightarrow> u16" where
  "guard_mixed_port = guard_port_key ''mixed-port'' default_mixed_port"

definition guard_socks_port :: "ymapping \<Rightarrow> u16" where
  "guard_socks_port = guard_port_key ''socks-port'' default_socks_port"

definition guard_http_port :: "ymapping \<Rightarrow> u16" where
  "guard_http_port = guard_port_key ''port'' default_http_port"

definition server_ctrl :: "string \<Rightarrow> string option" where
  "server_ctrl value =
     (let s = trim value; s = (if starts_with s '':'' then ''127.0.0.1'' @ s else s)
      in map_option show_sock (parse_sock s))"

definition guard_server_ctrl :: "ymapping \<Rightarrow> string" where
  "guard_server_ctrl config =
     unwrap_or (Option.bind (ymap_str config ''external-controller'') server_ctrl) default_external_controller"

definition guard_external_controller :: "ymapping \<Rightarrow> string" where
  "guard_external_controller = guard_server_ctrl"

definition guard_client_ctrl :: "ymapping \<Rightarrow> string" where
  "guard_client_ctrl config =
     (case parse_sock (guard_server_ctrl config) of
        Some a \<Rightarrow> show_sock (if is_unspecified (sock_ip a) then SockV4 127 0 0 1 (sock_port a) else a)
      | None \<Rightarrow> default_external_controller)"

section \<open>The configuration\<close>

definition clash_template :: "string \<Rightarrow> ymapping" where
  "clash_template socket_path =
     [(YStr ''redir-port'', y_u16 default_redir_port),
      (YStr ''tproxy-port'', y_u16 default_tproxy_port),
      (YStr ''mixed-port'', y_u16 default_mixed_port),
      (YStr ''socks-port'', y_u16 default_socks_port),
      (YStr ''port'', y_u16 default_http_port),
      (YStr ''log-level'', YStr ''info''),
      (YStr ''allow-lan'', YBool False),
      (YStr ''ipv6'', YBool True),
      (YStr ''mode'', YStr ''rule''),
      (YStr ''external-controller'', YStr default_external_controller),
      (YStr ''external-controller-unix'', YStr socket_path),
      (YStr ''tun'', YMap
         [(YStr ''enable'', YBool False), (YStr ''stack'', YStr default_tun_stack), (YStr ''auto-route'', YBool True),
          (YStr ''strict-route'', YBool False), (YStr ''auto-detect-interface'', YBool True),
          (YStr ''dns-hijack'', y_strs default_tun_dns_hijack)]),
      (YStr ''secret'', YStr ''set-your-secret''),
      (YStr ''external-controller-cors'', YMap
         [(YStr ''allow-private-network'', YBool False), (YStr ''allow-origins'', y_strs controller_allow_origins)]),
      (YStr ''unified-delay'', YBool True)]"

definition clash_guard :: "ymapping \<Rightarrow> ymapping" where
  "clash_guard config =
     ymap_put ''external-controller'' (YStr (guard_external_controller config))
       (ymap_put ''port'' (y_u16 (guard_http_port config))
         (ymap_put ''socks-port'' (y_u16 (guard_socks_port config))
           (ymap_put ''mixed-port'' (y_u16 (guard_mixed_port config))
             (ymap_put ''tproxy-port'' (y_u16 (guard_tproxy_port config))
               (ymap_put ''redir-port'' (y_u16 (guard_redir_port config)) config)))))"

text \<open>The template's entries for the keys the file does not have, in the template's order.\<close>

fun fill_missing :: "ymapping \<Rightarrow> ymapping \<Rightarrow> ymapping" where
  "fill_missing [] m = m"
| "fill_missing ((k, v) # t) m = fill_missing t (if map_of m k = None then assoc_put k v m else m)"

definition ensure_secret :: "ymapping \<Rightarrow> ymapping" where
  "ensure_secret m =
     (if ymap_get m ''secret'' = Some (YStr []) then ymap_put ''secret'' (YStr ''set-your-secret'') m else m)"

datatype read_error = FileMissing | FileUnreadable | YamlSyntax | MergeFailed | NotMapping

text \<open>YAML text (with its merge keys resolved in a second step) and what the directory holds.\<close>

record yaml_io =
  yi_parse :: "string \<Rightarrow> yaml option"
  yi_merge :: "yaml \<Rightarrow> yaml option"
  yi_print :: "ymapping \<Rightarrow> string option"

datatype stored = Absent | Unreadable | Content string

definition read_mapping :: "yaml_io \<Rightarrow> stored \<Rightarrow> (ymapping, read_error) result" where
  "read_mapping io file =
     (case file of
        Absent \<Rightarrow> Inl FileMissing
      | Unreadable \<Rightarrow> Inl FileUnreadable
      | Content body \<Rightarrow>
          rbind (ok_or (yi_parse io body) YamlSyntax) (\<lambda>v.
          rbind (ok_or (yi_merge io v) MergeFailed) (\<lambda>v.
            case v of YMap m \<Rightarrow> Inr m | _ \<Rightarrow> Inl NotMapping)))"

definition clash_try_read :: "yaml_io \<Rightarrow> string \<Rightarrow> stored \<Rightarrow> (ymapping, read_error) result" where
  "clash_try_read io socket_path file =
     rbind (read_mapping io file) (\<lambda>m.
       Inr (clash_guard (ensure_secret (fill_missing (clash_template socket_path) m))))"

definition clash_new :: "yaml_io \<Rightarrow> string \<Rightarrow> stored \<Rightarrow> ymapping" where
  "clash_new io socket_path file =
     (case clash_try_read io socket_path file of Inl _ \<Rightarrow> clash_template socket_path | Inr m \<Rightarrow> m)"

text \<open>\<open>Mapping::extend\<close>\<close>

definition ymap_extend :: "ymapping \<Rightarrow> ymapping \<Rightarrow> ymapping" where
  "ymap_extend entries config = fold (\<lambda>(k, v). assoc_put k v) entries config"

definition patch_config :: "ymapping \<Rightarrow> ymapping \<Rightarrow> ymapping" where
  "patch_config patch config = fold (\<lambda>(k, v) config. assoc_put k v config) patch config"

definition get_mode :: "ymapping \<Rightarrow> string option" where
  "get_mode config = Option.bind (ymap_get config ''mode'') (\<lambda>v. case v of YStr s \<Rightarrow> Some s | _ \<Rightarrow> None)"

text \<open>\<open>to_string\<close> of a number is the YAML library's.\<close>

definition scalar_secret :: "(number \<Rightarrow> string) \<Rightarrow> yaml \<Rightarrow> string option" where
  "scalar_secret show_number v =
     (case v of
        YStr s \<Rightarrow> Some s
      | YBool b \<Rightarrow> Some (if b then ''true'' else ''false'')
      | YNum n \<Rightarrow> Some (show_number n)
      | _ \<Rightarrow> None)"

record clash_info =
  cin_mixed_port :: u16
  cin_socks_port :: u16
  cin_port :: u16
  cin_server :: string
  cin_secret :: "string option"

definition get_client_info :: "(number \<Rightarrow> string) \<Rightarrow> ymapping \<Rightarrow> clash_info" where
  "get_client_info show_number config =
     \<lparr>cin_mixed_port = guard_mixed_port config, cin_socks_port = guard_socks_port config,
      cin_port = guard_http_port config, cin_server = guard_client_ctrl config,
      cin_secret = Option.bind (ymap_get config ''secret'') (scalar_secret show_number)\<rparr>"

text \<open>The sing-box controller shares the saved port and stays on the IPv4 loopback
  (\<open>configured_singbox_controller\<close> in \<open>mihomo_manager/manager.rs\<close>).\<close>

definition configured_singbox_controller :: "ymapping \<Rightarrow> (sock_addr, unit) result" where
  "configured_singbox_controller config =
     (let address = unwrap_or (opt_filter (\<lambda>s. s \<noteq> []) (ymap_str config ''external-controller'')) ''127.0.0.1:9090''
      in rbind (ok_or (parse_sock address) ()) (\<lambda>a.
           Inr (SockV4 127 0 0 1 (if sock_port a = 0 then 9090 else sock_port a))))"

section \<open>Lemmas\<close>

lemmas default_ports =
  default_mixed_port_def default_socks_port_def default_http_port_def default_redir_port_def default_tproxy_port_def

lemmas guard_port_defs =
  guard_mixed_port_def guard_socks_port_def guard_http_port_def guard_redir_port_def guard_tproxy_port_def

lemma guard_port_key_pos: "d \<noteq> 0 \<Longrightarrow> guard_port_key key d config \<noteq> 0"
  by (simp add: guard_port_key_def Let_def)

lemma guard_port_key_stored: "ymap_get config key = Some (y_u16 p) \<Longrightarrow> p \<noteq> 0 \<Longrightarrow> guard_port_key key d config = p"
  by (simp add: guard_port_key_def port_value_def y_u16_def)

lemma guard_port_key_number:
  "ymap_get config key = Some (YNum (PosInt n)) \<Longrightarrow>
     guard_port_key key d config = (if n mod 65536 = 0 then d else of_nat n)"
proof -
  assume "ymap_get config key = Some (YNum (PosInt n))"
  then have "guard_port_key key d config = (if (of_nat n :: u16) = 0 then d else of_nat n)"
    by (simp add: guard_port_key_def port_value_def Let_def)
  moreover have "(of_nat n :: u16) = 0 \<longleftrightarrow> n mod 65536 = 0"
    by (simp add: word_of_nat_eq_0_iff dvd_eq_mod_eq_0)
  ultimately show ?thesis by simp
qed

lemma ymap_get_guard:
  "ymap_get (clash_guard m) k =
     (if k = ''external-controller'' then Some (YStr (guard_external_controller m))
      else if k = ''port'' then Some (y_u16 (guard_http_port m))
      else if k = ''socks-port'' then Some (y_u16 (guard_socks_port m))
      else if k = ''mixed-port'' then Some (y_u16 (guard_mixed_port m))
      else if k = ''tproxy-port'' then Some (y_u16 (guard_tproxy_port m))
      else if k = ''redir-port'' then Some (y_u16 (guard_redir_port m))
      else ymap_get m k)"
  by (simp add: clash_guard_def ymap_get_put)

lemma map_of_fill_missing:
  "map_of (fill_missing t m) k = (case map_of m k of Some v \<Rightarrow> Some v | None \<Rightarrow> map_of t k)"
proof (induction t m rule: fill_missing.induct)
  case (2 k' v t m)
  then show ?case by (auto simp: map_of_assoc_put split: option.splits)
qed (simp split: option.split)

lemma ymap_get_fill_missing:
  "ymap_get (fill_missing t m) k = (case ymap_get m k of Some v \<Rightarrow> Some v | None \<Rightarrow> ymap_get t k)"
  by (simp add: ymap_get_def map_of_fill_missing split: option.split)

lemma guarded_reads:
  "guard_mixed_port (clash_guard m) = guard_mixed_port m"
  "guard_socks_port (clash_guard m) = guard_socks_port m"
  "guard_http_port (clash_guard m) = guard_http_port m"
  "guard_redir_port (clash_guard m) = guard_redir_port m"
  "guard_tproxy_port (clash_guard m) = guard_tproxy_port m"
  unfolding guard_port_defs
  by (rule guard_port_key_stored, simp add: ymap_get_guard guard_port_defs,
      rule guard_port_key_pos, simp add: default_ports)+

section \<open>Properties\<close>

text \<open>C11: Whatever config.yaml says, a configuration that was read has a usable port between 1 and 65535 under each of
  the five listener keys: a number is taken modulo 65536 and replaced by the default when that is 0, the ports read
  back from it are the same, and every key that the guard does not own keeps its value.\<close>

theorem guarded_ports_usable:
  "(\<forall>k \<in> {''mixed-port'', ''socks-port'', ''port'', ''redir-port'', ''tproxy-port''}.
      \<exists>p. ymap_get (clash_guard m) k = Some (YNum (PosInt p)) \<and> 0 < p \<and> p < 65536 \<and>
        (\<forall>n. ymap_get m k = Some (YNum (PosInt n)) \<and> n mod 65536 \<noteq> 0 \<longrightarrow> p = n mod 65536)) \<and>
    get_client_info show (clash_guard m) =
      (get_client_info show m)\<lparr>cin_server := guard_client_ctrl (clash_guard m)\<rparr> \<and>
    (\<forall>k. k \<notin> {''mixed-port'', ''socks-port'', ''port'', ''redir-port'', ''tproxy-port'', ''external-controller''} \<longrightarrow>
       ymap_get (clash_guard m) k = ymap_get m k)"
proof -
  have usable: "\<exists>p. Some (y_u16 (guard_port_key k d m)) = Some (YNum (PosInt p)) \<and> 0 < p \<and> p < 65536 \<and>
      (\<forall>n. ymap_get m k = Some (YNum (PosInt n)) \<and> n mod 65536 \<noteq> 0 \<longrightarrow> p = n mod 65536)" if "d \<noteq> 0" for k d
  proof -
    have "unat (guard_port_key k d m) \<noteq> 0" using guard_port_key_pos [OF that] by (simp add: unat_eq_0)
    then show ?thesis
      by (auto simp: y_u16_def guard_port_key_number unsigned_of_nat take_bit_eq_mod)
  qed
  have "get_client_info show (clash_guard m) =
      (get_client_info show m)\<lparr>cin_server := guard_client_ctrl (clash_guard m)\<rparr>"
    by (simp add: get_client_info_def guarded_reads ymap_get_guard)
  moreover have "\<forall>k \<in> {''mixed-port'', ''socks-port'', ''port'', ''redir-port'', ''tproxy-port''}.
      \<exists>p. ymap_get (clash_guard m) k = Some (YNum (PosInt p)) \<and> 0 < p \<and> p < 65536 \<and>
        (\<forall>n. ymap_get m k = Some (YNum (PosInt n)) \<and> n mod 65536 \<noteq> 0 \<longrightarrow> p = n mod 65536)"
    using usable [of default_mixed_port "''mixed-port''"] usable [of default_socks_port "''socks-port''"]
      usable [of default_http_port "''port''"] usable [of default_redir_port "''redir-port''"]
      usable [of default_tproxy_port "''tproxy-port''"]
    by (simp only: ball_simps ymap_get_guard guard_port_defs) (simp add: default_ports)
  ultimately show ?thesis by (simp add: ymap_get_guard)
qed

theorem guarded_ports_usable_witness:
  "ymap_get (clash_guard [(YStr ''mixed-port'', YNum (PosInt 65537))]) ''mixed-port'' = Some (YNum (PosInt 1))"
  using guarded_ports_usable [of "[(YStr ''mixed-port'', YNum (PosInt 65537))]"] by simp

end
