(* ===== verification/Enhance.thy ===== *)
theory Enhance
  imports Clash_Config
begin

text \<open>
  The control plane of the mihomo runtime config and of the shared controller secret
  (\<open>src-tui/src/enhance/mod.rs\<close>, Linux): the keys the application owns, TUN and DNS helpers, the
  port overrides of \<open>verge.yaml\<close>, and the rotation of a weak controller secret inside the user's
  \<open>config.yaml\<close>. The file is its text and whether only its owner can read it; YAML, the JSON
  quoting of a string, the random secret and the outcome of file operations are parameters.
\<close>

section \<open>Control plane keys\<close>

definition control_plane_keys :: "string list" where
  "control_plane_keys =
     [''external-controller'', ''external-controller-unix'', ''external-controller-cors'', ''secret'',
      ''mixed-port'', ''socks-port'', ''port'', ''redir-port'', ''tproxy-port'', ''tun'', ''mode'', ''allow-lan'',
      ''log-level'', ''ipv6'', ''unified-delay'']"

definition snapshot_control_plane :: "ymapping \<Rightarrow> ymapping" where
  "snapshot_control_plane config =
     fold (\<lambda>k snapshot. case ymap_get config k of Some v \<Rightarrow> ymap_put k v snapshot | None \<Rightarrow> snapshot)
       control_plane_keys []"

definition enforce_control_plane :: "ymapping \<Rightarrow> ymapping \<Rightarrow> ymapping" where
  "enforce_control_plane config snapshot =
     ymap_extend snapshot
       (fold (\<lambda>k config. if ymap_get snapshot k = None then ymap_remove k config else config)
          control_plane_keys config)"

section \<open>Bind address, DNS and TUN helpers\<close>

definition is_ipv4_shorthand_loopback :: "string \<Rightarrow> bool" where
  "is_ipv4_shorthand_loopback addr =
     (case traverse (\<lambda>p. ok_or (parse_u32 p) ()) (split_on CHR ''.'' addr) of
        Inr [a, rest] \<Rightarrow> a = 127 \<and> rest \<le> 0xffffff
      | Inr [a, b, rest] \<Rightarrow> a = 127 \<and> b \<le> 0xff \<and> rest \<le> 0xffff
      | Inr [a, b, c, d] \<Rightarrow> a = 127 \<and> b \<le> 0xff \<and> c \<le> 0xff \<and> d \<le> 0xff
      | _ \<Rightarrow> False)"

definition is_loopback_bind_address :: "string \<Rightarrow> bool" where
  "is_loopback_bind_address addr0 =
     (let addr = trim addr0;
          addr = unwrap_or (Option.bind (strip_prefix ''['' addr) (strip_suffix '']'')) addr
      in eq_ignore_ascii_case addr ''localhost'' \<or> is_some_and (parse_ip addr) is_loopback \<or>
         is_ipv4_shorthand_loopback addr)"

definition ensure_lan_bind_address :: "ymapping \<Rightarrow> ymapping" where
  "ensure_lan_bind_address config =
     (if unwrap_or (ymap_bool config ''allow-lan'') False \<and>
         is_some_and (ymap_str config ''bind-address'') is_loopback_bind_address
      then ymap_put ''bind-address'' (YStr ''*'') config else config)"

definition ensure_fake_ip_range6 :: "ymapping \<Rightarrow> ymapping" where
  "ensure_fake_ip_range6 dns =
     (let ipv6_enabled = unwrap_or (ymap_bool dns ''ipv6'') False;
          is_fake_ip = unwrap_or (map_option (\<lambda>m. m = ''fake-ip'') (ymap_str dns ''enhanced-mode'')) True;
          range6_missing = unwrap_or (map_option (\<lambda>s. trim s = []) (ymap_str dns ''fake-ip-range6'')) True
      in if ipv6_enabled \<and> is_fake_ip \<and> range6_missing
         then ymap_put ''fake-ip-range6'' (YStr ''fdfe:dcba:9876::1/64'') dns else dns)"

definition put_default :: "string \<Rightarrow> yaml \<Rightarrow> ymapping \<Rightarrow> ymapping" where
  "put_default k v m = (if ymap_get m k = None then ymap_put k v m else m)"

text \<open>\<open>if let Some(Value::Mapping(dns)) = config.get_mut("dns")\<close>\<close>

definition update_dns :: "(ymapping \<Rightarrow> ymapping) \<Rightarrow> ymapping \<Rightarrow> ymapping" where
  "update_dns f config =
     (case ymap_get config ''dns'' of Some (YMap dns) \<Rightarrow> ymap_put ''dns'' (YMap (f dns)) config | _ \<Rightarrow> config)"

definition mapping_at :: "string \<Rightarrow> ymapping \<Rightarrow> ymapping" where
  "mapping_at k config = unwrap_or (Option.bind (ymap_get config k) y_map) []"

definition use_tun :: "ymapping \<Rightarrow> bool \<Rightarrow> ymapping" where
  "use_tun config0 enable =
     (let tun = ymap_put ''enable'' (YBool enable) (mapping_at ''tun'' config0);
          config = ymap_put ''tun'' (YMap tun) config0
      in if enable then
           (let dns = mapping_at ''dns'' config;
                ipv6 = unwrap_or (ymap_bool config ''ipv6'') False;
                current_mode = unwrap_or (ymap_str dns ''enhanced-mode'') ''fake-ip''
            in if current_mode = ''fake-ip'' \<or> ymap_get dns ''enhanced-mode'' = None then
                 ymap_put ''dns''
                   (YMap (ensure_fake_ip_range6
                      (put_default ''fake-ip-range'' (YStr ''198.18.0.1/16'')
                        (put_default ''enhanced-mode'' (YStr ''fake-ip'')
                          (ymap_put ''ipv6'' (YBool ipv6) (ymap_put ''enable'' (YBool True) dns)))))) config
               else config)
         else update_dns ensure_fake_ip_range6 config)"

definition prepare_runtime_config :: "ymapping \<Rightarrow> bool \<Rightarrow> ymapping" where
  "prepare_runtime_config config enable_tun =
     (let config = use_tun config enable_tun;
          control_plane = snapshot_control_plane config;
          config = enforce_control_plane config control_plane;
          config = ensure_lan_bind_address config
      in update_dns ensure_fake_ip_range6 config)"

section \<open>Ports of verge.yaml\<close>

record verge_ports =
  vp_mixed_port :: "u16 option"
  vp_socks_enabled :: "bool option"
  vp_socks_port :: "u16 option"
  vp_http_enabled :: "bool option"
  vp_port :: "u16 option"
  vp_redir_enabled :: "bool option"
  vp_redir_port :: "u16 option"
  vp_tproxy_enabled :: "bool option"
  vp_tproxy_port :: "u16 option"

definition verge_port :: "bool option \<Rightarrow> u16 option \<Rightarrow> string \<Rightarrow> ymapping \<Rightarrow> ymapping" where
  "verge_port enabled port key config =
     (case (enabled, port) of
        (Some True, Some p) \<Rightarrow> ymap_put key (y_u16 p) config
      | _ \<Rightarrow> if enabled = Some False then ymap_remove key config else config)"

definition apply_verge_ports :: "verge_ports \<Rightarrow> ymapping \<Rightarrow> ymapping" where
  "apply_verge_ports verge config =
     verge_port (vp_tproxy_enabled verge) (vp_tproxy_port verge) ''tproxy-port''
       (verge_port (vp_redir_enabled verge) (vp_redir_port verge) ''redir-port''
         (verge_port (vp_http_enabled verge) (vp_port verge) ''port''
           (verge_port (vp_socks_enabled verge) (vp_socks_port verge) ''socks-port''
             (case vp_mixed_port verge of
                Some p \<Rightarrow> ymap_put ''mixed-port'' (y_u16 p) config
              | None \<Rightarrow> config))))"

definition effective_mixed_port :: "verge_ports \<Rightarrow> ymapping \<Rightarrow> u16" where
  "effective_mixed_port verge clash = unwrap_or (vp_mixed_port verge) (guard_mixed_port clash)"

datatype bind_outcome = Bound | AddrInUse | BindFailed
datatype port_error = MixedPortInUse u16 | CannotProbe u16

definition ensure_mixed_port_available ::
  "(u16 \<Rightarrow> bind_outcome) \<Rightarrow> verge_ports \<Rightarrow> ymapping \<Rightarrow> (unit, port_error) result" where
  "ensure_mixed_port_available bind verge clash =
     (let port = effective_mixed_port verge clash
      in if port = 0 then Inr ()
         else case bind port of
                Bound \<Rightarrow> Inr ()
              | AddrInUse \<Rightarrow> Inl (MixedPortInUse port)
              | BindFailed \<Rightarrow> Inl (CannotProbe port))"

section \<open>The controller secret\<close>

definition placeholder_controller_secret :: string where
  "placeholder_controller_secret = ''set-your-secret''"

definition is_placeholder_secret :: "string \<Rightarrow> bool" where
  "is_placeholder_secret secret \<longleftrightarrow> trim secret = [] \<or> trim secret = placeholder_controller_secret"

fun split_inclusive :: "char \<Rightarrow> string \<Rightarrow> string list" where
  "split_inclusive c [] = []"
| "split_inclusive c (x # xs) =
     (if x = c then [x] # split_inclusive c xs
      else case split_inclusive c xs of [] \<Rightarrow> [[x]] | l # ls \<Rightarrow> (x # l) # ls)"

definition newline :: char where "newline = CHR 0x0A"
definition carriage_return :: char where "carriage_return = CHR 0x0D"
definition tab :: char where "tab = CHR 0x09"

definition body_lines :: "string \<Rightarrow> string list" where
  "body_lines body = split_inclusive newline body"

datatype layout_refusal = MultiDocument | FlowRoot | QuotedSecretKey | DuplicateSecretKey | SecretNotScalar

definition is_quoted_secret_key :: "string \<Rightarrow> bool" where
  "is_quoted_secret_key key \<longleftrightarrow> key = [CHR 0x27] @ ''secret'' @ [CHR 0x27] \<or> key = ''\"secret\"''"

definition starts_with_any :: "char list \<Rightarrow> string \<Rightarrow> bool" where
  "starts_with_any cs s = (case s of [] \<Rightarrow> False | c # _ \<Rightarrow> c \<in> set cs)"

fun refuse_lines :: "nat \<Rightarrow> string list \<Rightarrow> layout_refusal option" where
  "refuse_lines seen [] = None"
| "refuse_lines seen (line # lines) =
     (let bare = trim_end_chars [newline, carriage_return] line; trimmed = trim bare
      in if trimmed = ''---'' \<or> trimmed = ''...'' \<or> starts_with trimmed ''--- '' then Some MultiDocument
         else if trimmed = [] \<or> starts_with trimmed ''#'' \<or> starts_with_any [CHR '' '', tab] bare then
           refuse_lines seen lines
         else if starts_with_any [CHR ''{'', CHR ''[''] trimmed then Some FlowRoot
         else case split_once CHR '':'' bare of
                None \<Rightarrow> refuse_lines seen lines
              | Some (key0, value0) \<Rightarrow>
                  (let key = trim_end_chars [CHR '' '', tab] key0; value = trim value0
                   in if is_quoted_secret_key key then Some QuotedSecretKey
                      else if key = ''secret'' then
                        (if 0 < seen then Some DuplicateSecretKey
                         else if value = [] \<or> starts_with_any ''|>*&'' value then Some SecretNotScalar
                         else refuse_lines (Suc seen) lines)
                      else refuse_lines seen lines))"

definition secret_layout_refusal :: "string \<Rightarrow> layout_refusal option" where
  "secret_layout_refusal body = refuse_lines 0 (body_lines body)"

definition is_root_secret :: "string \<Rightarrow> bool" where
  "is_root_secret line \<longleftrightarrow>
     is_some_and (split_once CHR '':'' line)
       (\<lambda>(key, _). trim_end_chars [CHR '' '', tab, carriage_return] key = ''secret'' \<and>
          \<not> starts_with_any [CHR '' '', tab] line)"

definition line_end :: "string \<Rightarrow> string" where
  "line_end line =
     (if ends_with line [carriage_return, newline] then [carriage_return, newline] else [newline])"

fun rewrite_lines :: "string \<Rightarrow> bool \<Rightarrow> string list \<Rightarrow> string \<times> bool" where
  "rewrite_lines replacement replaced [] = ([], replaced)"
| "rewrite_lines replacement replaced (line # lines) =
     (if is_root_secret line then
        (let (rest, r) = rewrite_lines replacement True lines
         in (if replaced then rest else replacement @ line_end line @ rest, r))
      else
        (let (rest, r) = rewrite_lines replacement replaced lines in (line @ rest, r)))"

definition rewrite_secret_line_unchecked :: "(string \<Rightarrow> string) \<Rightarrow> string \<Rightarrow> string \<Rightarrow> string" where
  "rewrite_secret_line_unchecked quote body secret =
     (let replacement = ''secret: '' @ quote secret;
          (rewritten, replaced) = rewrite_lines replacement False (body_lines body)
      in if replaced then rewritten
         else rewritten @ (if rewritten \<noteq> [] \<and> \<not> ends_with rewritten [newline] then [newline] else []) @
              replacement @ [newline])"

datatype rotate_error =
    LayoutRefused layout_refusal
  | RootNotMapping
  | BodyNotYaml
  | RewrittenNotYaml
  | RewrittenDiffers
  | RotateUnreadable
  | RotateNotWritten

text \<open>Two mappings are equal when they have the same entries, in any order (the key order of an
  \<open>IndexMap\<close> does not count, at any depth); the comparison is the library's.\<close>

record secret_env =
  se_yaml :: yaml_io
  se_socket :: string
  se_uuid :: string
  se_quote :: "string \<Rightarrow> string"
  se_show_number :: "number \<Rightarrow> string"
  se_same :: "ymapping \<Rightarrow> ymapping \<Rightarrow> bool"
  se_writable :: bool
  se_chmod :: bool
  se_readable :: bool

definition rewrite_secret_line :: "secret_env \<Rightarrow> string \<Rightarrow> string \<Rightarrow> (string, rotate_error) result" where
  "rewrite_secret_line env body secret =
     (case secret_layout_refusal body of
        Some reason \<Rightarrow> Inl (LayoutRefused reason)
      | None \<Rightarrow>
          rbind (case yi_parse (se_yaml env) body of
                   Some (YMap m) \<Rightarrow> Inr m | Some _ \<Rightarrow> Inl RootNotMapping | None \<Rightarrow> Inl BodyNotYaml) (\<lambda>m.
          (let candidate = rewrite_secret_line_unchecked (se_quote env) body secret in
          rbind (case yi_parse (se_yaml env) candidate of
                   Some (YMap p) \<Rightarrow> Inr p | _ \<Rightarrow> Inl RewrittenNotYaml) (\<lambda>parsed.
          rbind (guard (se_same env parsed (ymap_put ''secret'' (YStr secret) m)) RewrittenDiffers) (\<lambda>_.
            Inr candidate)))))"

record clash_file =
  cf_body :: string
  cf_private :: bool

record secret_state =
  ss_file :: "clash_file option"
  ss_published :: "string option"

datatype secret_error =
    CannotCompose
  | CannotReadConfig read_error
  | CannotRestrict
  | CannotRotate rotate_error

definition stored_file :: "secret_env \<Rightarrow> clash_file option \<Rightarrow> stored" where
  "stored_file env file =
     (case file of None \<Rightarrow> Absent | Some f \<Rightarrow> if se_readable env then Content (cf_body f) else Unreadable)"

definition raw_secret :: "(number \<Rightarrow> string) \<Rightarrow> ymapping \<Rightarrow> string option" where
  "raw_secret show_number m = Option.bind (ymap_get m ''secret'') (scalar_secret show_number)"

text \<open>The staged file is created private and renamed over the target; a failure leaves the target.\<close>

definition save_clash_body_private :: "secret_env \<Rightarrow> string \<Rightarrow> secret_state \<Rightarrow> secret_state option" where
  "save_clash_body_private env body st =
     (if se_writable env then Some (st\<lparr>ss_file := Some \<lparr>cf_body = body, cf_private = True\<rparr>\<rparr>) else None)"

definition clash_file_header :: string where
  "clash_file_header = ''# Generated by Clash Verge'' @ [newline, newline]"

definition save_clash_config_private :: "secret_env \<Rightarrow> ymapping \<Rightarrow> secret_state \<Rightarrow> secret_state option" where
  "save_clash_config_private env m st =
     Option.bind (yi_print (se_yaml env) m) (\<lambda>body. save_clash_body_private env (clash_file_header @ body) st)"

definition tighten_clash_config_mode :: "secret_env \<Rightarrow> clash_file \<Rightarrow> clash_file option" where
  "tighten_clash_config_mode env f =
     (if cf_private f then Some f else if se_chmod env then Some (f\<lparr>cf_private := True\<rparr>) else None)"

definition rotate_secret_in_place ::
  "secret_env \<Rightarrow> string \<Rightarrow> clash_file \<Rightarrow> secret_state \<Rightarrow> (secret_state, rotate_error) result" where
  "rotate_secret_in_place env secret f st =
     (if \<not> se_readable env then Inl RotateUnreadable
      else rbind (rewrite_secret_line env (cf_body f) secret) (\<lambda>body.
             ok_or (save_clash_body_private env body st) RotateNotWritten))"

definition publish_resolved_secret :: "string \<Rightarrow> secret_state \<Rightarrow> secret_state" where
  "publish_resolved_secret secret st = st\<lparr>ss_published := Some secret\<rparr>"

definition resolve_controller_secret ::
  "secret_env \<Rightarrow> secret_state \<Rightarrow> (string, secret_error) result \<times> secret_state" where
  "resolve_controller_secret env st =
     (case read_mapping (se_yaml env) (stored_file env (ss_file st)) of
        Inl e \<Rightarrow>
          if ss_file st = None \<or> e = FileMissing then
            (case save_clash_config_private env
                    (ymap_put ''secret'' (YStr (se_uuid env)) (clash_template (se_socket env))) st of
               None \<Rightarrow> (Inl CannotCompose, st)
             | Some st' \<Rightarrow> (Inr (se_uuid env), publish_resolved_secret (se_uuid env) st'))
          else (Inl (CannotReadConfig e), st)
      | Inr clash \<Rightarrow>
          (let current = unwrap_or (raw_secret (se_show_number env) clash) []; f = the (ss_file st)
           in if \<not> is_placeholder_secret current then
                (case tighten_clash_config_mode env f of
                   None \<Rightarrow> (Inl CannotRestrict, st)
                 | Some f' \<Rightarrow> (Inr current, publish_resolved_secret current (st\<lparr>ss_file := Some f'\<rparr>)))
              else
                (case rotate_secret_in_place env (se_uuid env) f st of
                   Inl e \<Rightarrow> (Inl (CannotRotate e), st)
                 | Inr st' \<Rightarrow> (Inr (se_uuid env), publish_resolved_secret (se_uuid env) st'))))"

section \<open>Mappings\<close>

lemma map_of_extend:
  "distinct (map fst entries) \<Longrightarrow>
     map_of (ymap_extend entries m) k = (case map_of entries k of Some v \<Rightarrow> Some v | None \<Rightarrow> map_of m k)"
proof (induction entries arbitrary: m)
  case (Cons e entries)
  obtain k' v where e: "e = (k', v)" by (cases e)
  have "k' \<notin> fst ` set entries" using Cons.prems e by auto
  then have "map_of entries k' = None" by (simp add: map_of_eq_None_iff)
  then show ?case
    using Cons.IH [of "assoc_put k' v m"] Cons.prems
    by (auto simp: ymap_extend_def e map_of_assoc_put split: option.splits)
qed (simp add: ymap_extend_def)

lemma ymap_get_extend:
  "ymap_wf entries \<Longrightarrow>
     ymap_get (ymap_extend entries m) k = (case ymap_get entries k of Some v \<Rightarrow> Some v | None \<Rightarrow> ymap_get m k)"
  by (simp add: ymap_get_def ymap_wf_def map_of_extend split: option.split)

lemma ymap_wf_extend: "ymap_wf m \<Longrightarrow> ymap_wf (ymap_extend entries m)"
  by (induction entries arbitrary: m) (auto simp: ymap_extend_def ymap_wf_def distinct_assoc_put)

lemma fold_snapshot:
  "ymap_get (fold (\<lambda>k s. case ymap_get c k of Some v \<Rightarrow> ymap_put k v s | None \<Rightarrow> s) ks s) k =
     (if k \<in> set ks \<and> ymap_get c k \<noteq> None then ymap_get c k else ymap_get s k)"
  by (induction ks arbitrary: s) (auto simp: ymap_get_put split: option.splits)

lemma fold_snapshot_wf:
  "ymap_wf s \<Longrightarrow> ymap_wf (fold (\<lambda>k s. case ymap_get c k of Some v \<Rightarrow> ymap_put k v s | None \<Rightarrow> s) ks s)"
  by (induction ks arbitrary: s) (auto simp: ymap_wf_put split: option.splits)

lemma ymap_get_snapshot:
  "ymap_get (snapshot_control_plane c) k = (if k \<in> set control_plane_keys then ymap_get c k else None)"
  by (auto simp: snapshot_control_plane_def fold_snapshot)

lemma snapshot_wf: "ymap_wf (snapshot_control_plane c)"
  unfolding snapshot_control_plane_def by (rule fold_snapshot_wf) (simp add: ymap_wf_def)

lemma fold_remove:
  "ymap_wf c \<Longrightarrow>
     ymap_wf (fold (\<lambda>k c. if ymap_get s k = None then ymap_remove k c else c) ks c) \<and>
     ymap_get (fold (\<lambda>k c. if ymap_get s k = None then ymap_remove k c else c) ks c) k =
       (if k \<in> set ks \<and> ymap_get s k = None then None else ymap_get c k)"
  by (induction ks arbitrary: c) (auto simp: ymap_get_remove)

lemma enforce_wf: "ymap_wf c \<Longrightarrow> ymap_wf (enforce_control_plane c s)"
  using fold_remove [of c s control_plane_keys] by (simp add: enforce_control_plane_def ymap_wf_extend)

lemma ymap_get_enforce:
  assumes "ymap_wf c" "ymap_wf s"
  shows "ymap_get (enforce_control_plane c s) k =
    (case ymap_get s k of
       Some v \<Rightarrow> Some v
     | None \<Rightarrow> if k \<in> set control_plane_keys then None else ymap_get c k)"
  using fold_remove [OF assms(1), of s control_plane_keys k]
  by (auto simp: enforce_control_plane_def ymap_get_extend [OF assms(2)] split: option.splits)

lemma mapping_at_wf: "mapping_at k (ymap_put k (YMap m) c) = m"
  by (simp add: mapping_at_def ymap_get_put)

section \<open>The prepared runtime config\<close>

lemma ensure_fake_ip_range6_other: "k \<noteq> ''fake-ip-range6'' \<Longrightarrow> ymap_get (ensure_fake_ip_range6 d) k = ymap_get d k"
  by (simp add: ensure_fake_ip_range6_def Let_def ymap_get_put)

lemma ymap_get_put_default: "ymap_get (put_default k v m) k' = (if k' = k \<and> ymap_get m k = None then Some v else ymap_get m k')"
  by (simp add: put_default_def ymap_get_put)

lemma update_dns_other: "k \<noteq> ''dns'' \<Longrightarrow> ymap_get (update_dns f c) k = ymap_get c k"
  by (simp add: update_dns_def ymap_get_put split: option.split yaml.split)

lemma update_dns_dns: "ymap_get c ''dns'' = Some (YMap d) \<Longrightarrow> ymap_get (update_dns f c) ''dns'' = Some (YMap (f d))"
  by (simp add: update_dns_def ymap_get_put)

lemma update_dns_wf: "ymap_wf c \<Longrightarrow> ymap_wf (update_dns f c)"
  by (simp add: update_dns_def ymap_wf_put split: option.split yaml.split)

lemma use_tun_other: "k \<noteq> ''tun'' \<Longrightarrow> k \<noteq> ''dns'' \<Longrightarrow> ymap_get (use_tun c t) k = ymap_get c k"
  by (simp add: use_tun_def Let_def ymap_get_put update_dns_other)

lemma use_tun_tun: "ymap_get (use_tun c t) ''tun'' = Some (YMap (ymap_put ''enable'' (YBool t) (mapping_at ''tun'' c)))"
  by (simp add: use_tun_def Let_def ymap_get_put update_dns_other)

lemma use_tun_wf: "ymap_wf c \<Longrightarrow> ymap_wf (use_tun c t)"
  by (simp add: use_tun_def Let_def ymap_wf_put update_dns_wf)

lemma star_not_loopback: "\<not> is_loopback_bind_address ''*''"
proof -
  have "trim ''*'' = ''*''" by (rule trim_id_ends) (simp_all add: ascii_ws_def unicode_ws_def)
  then show ?thesis
    by (simp add: is_loopback_bind_address_def Let_def eq_ignore_ascii_case_def to_ascii_lowercase_def
        is_ipv4_shorthand_loopback_def parse_u32_def parse_unsigned_def ip_eval)
qed

lemma snapshot_enforce_get:
  "ymap_wf c \<Longrightarrow> ymap_get (enforce_control_plane c (snapshot_control_plane c)) k = ymap_get c k"
  by (simp add: ymap_get_enforce snapshot_wf ymap_get_snapshot split: option.split)

lemma lan_other: "k \<noteq> ''bind-address'' \<Longrightarrow> ymap_get (ensure_lan_bind_address c) k = ymap_get c k"
  by (simp add: ensure_lan_bind_address_def ymap_get_put)

text \<open>The runtime config that is written has TUN exactly as requested with every other TUN setting of the user kept;
  a config open to the LAN is never bound to a loopback address; when TUN is switched on and the DNS mode is
  fake-ip or not set, DNS is enabled in fake-ip mode with an address range; everything else is unchanged.\<close>

theorem prepared_config_effects:
  assumes "ymap_wf config" and result: "prepare_runtime_config config enable = result"
  shows "(\<forall>k. k \<notin> {''tun'', ''dns'', ''bind-address''} \<longrightarrow> ymap_get result k = ymap_get config k) \<and>
    (\<exists>tun. ymap_get result ''tun'' = Some (YMap tun) \<and> ymap_get tun ''enable'' = Some (YBool enable) \<and>
       (\<forall>k. k \<noteq> ''enable'' \<longrightarrow> ymap_get tun k = ymap_get (mapping_at ''tun'' config) k)) \<and>
    (ymap_bool config ''allow-lan'' = Some True \<longrightarrow>
       \<not> is_some_and (ymap_str result ''bind-address'') is_loopback_bind_address) \<and>
    (enable \<and> unwrap_or (ymap_str (mapping_at ''dns'' config) ''enhanced-mode'') ''fake-ip'' = ''fake-ip'' \<longrightarrow>
       (\<exists>dns. ymap_get result ''dns'' = Some (YMap dns) \<and> ymap_get dns ''enable'' = Some (YBool True) \<and>
          unwrap_or (ymap_str dns ''enhanced-mode'') ''fake-ip'' = ''fake-ip'' \<and>
          ymap_get dns ''fake-ip-range'' \<noteq> None))"
proof (intro conjI)
  let ?u = "use_tun config enable"
  let ?e = "enforce_control_plane ?u (snapshot_control_plane ?u)"
  have wf: "ymap_wf ?u" using assms(1) by (rule use_tun_wf)
  have e: "ymap_get ?e k = ymap_get ?u k" for k using wf by (rule snapshot_enforce_get)
  have r: "result = update_dns ensure_fake_ip_range6 (ensure_lan_bind_address ?e)"
    by (simp add: result [symmetric] prepare_runtime_config_def Let_def)
  show "\<forall>k. k \<notin> {''tun'', ''dns'', ''bind-address''} \<longrightarrow> ymap_get result k = ymap_get config k"
    by (simp add: r update_dns_other lan_other e use_tun_other)
  show "\<exists>tun. ymap_get result ''tun'' = Some (YMap tun) \<and> ymap_get tun ''enable'' = Some (YBool enable) \<and>
      (\<forall>k. k \<noteq> ''enable'' \<longrightarrow> ymap_get tun k = ymap_get (mapping_at ''tun'' config) k)"
    by (simp add: r update_dns_other lan_other e use_tun_tun ymap_get_put)
  show "ymap_bool config ''allow-lan'' = Some True \<longrightarrow>
      \<not> is_some_and (ymap_str result ''bind-address'') is_loopback_bind_address"
  proof
    assume "ymap_bool config ''allow-lan'' = Some True"
    then have "ymap_bool ?e ''allow-lan'' = Some True" by (simp add: ymap_bool_def e use_tun_other)
    then show "\<not> is_some_and (ymap_str result ''bind-address'') is_loopback_bind_address"
      using star_not_loopback
      by (auto simp: r ymap_str_def update_dns_other ensure_lan_bind_address_def ymap_get_put is_some_and_iff)
  qed
  show "enable \<and> unwrap_or (ymap_str (mapping_at ''dns'' config) ''enhanced-mode'') ''fake-ip'' = ''fake-ip'' \<longrightarrow>
      (\<exists>dns. ymap_get result ''dns'' = Some (YMap dns) \<and> ymap_get dns ''enable'' = Some (YBool True) \<and>
         unwrap_or (ymap_str dns ''enhanced-mode'') ''fake-ip'' = ''fake-ip'' \<and> ymap_get dns ''fake-ip-range'' \<noteq> None)"
  proof
    assume a: "enable \<and> unwrap_or (ymap_str (mapping_at ''dns'' config) ''enhanced-mode'') ''fake-ip'' = ''fake-ip''"
    have at: "mapping_at ''dns'' (ymap_put ''tun'' v config) = mapping_at ''dns'' config" for v
      by (simp add: mapping_at_def ymap_get_put)
    obtain d where d: "ymap_get ?u ''dns'' = Some (YMap (ensure_fake_ip_range6 d))" "ymap_get d ''enable'' = Some (YBool True)"
      "unwrap_or (ymap_str d ''enhanced-mode'') ''fake-ip'' = ''fake-ip''" "ymap_get d ''fake-ip-range'' \<noteq> None"
      using a by (fastforce simp: use_tun_def Let_def at ymap_get_put ymap_get_put_default ymap_str_def)
    have "ymap_get result ''dns'' = Some (YMap (ensure_fake_ip_range6 (ensure_fake_ip_range6 d)))"
      unfolding r by (rule update_dns_dns) (simp add: lan_other e d(1))
    with d show "\<exists>dns. ymap_get result ''dns'' = Some (YMap dns) \<and> ymap_get dns ''enable'' = Some (YBool True) \<and>
        unwrap_or (ymap_str dns ''enhanced-mode'') ''fake-ip'' = ''fake-ip'' \<and> ymap_get dns ''fake-ip-range'' \<noteq> None"
      by (simp add: ensure_fake_ip_range6_other ymap_str_def)
  qed
qed

theorem prepared_config_effects_witness:
  "\<exists>tun. ymap_get (prepare_runtime_config [(YStr ''mode'', YStr ''rule'')] True) ''tun'' = Some (YMap tun) \<and>
     ymap_get tun ''enable'' = Some (YBool True)"
  using prepared_config_effects [of "[(YStr ''mode'', YStr ''rule'')]", OF _ refl, of True] by (auto simp: ymap_wf_def)

section \<open>Lines of a file\<close>

lemma concat_split_inclusive: "concat (split_inclusive c s) = s"
  by (induction c s rule: split_inclusive.induct) (auto split: list.splits)

lemma split_inclusive_nonempty: "l \<in> set (split_inclusive c s) \<Longrightarrow> l \<noteq> []"
  by (induction c s arbitrary: l rule: split_inclusive.induct) (auto split: list.splits if_splits)

lemma split_inclusive_subset: "l \<in> set (split_inclusive c s) \<Longrightarrow> set l \<subseteq> set s"
  using concat_split_inclusive [of c s] by (metis UN_upper set_concat)

lemma split_inclusive_end: "l \<in> set (split_inclusive c s) \<Longrightarrow> \<exists>m. c \<notin> set m \<and> (l = m \<or> l = m @ [c])"
proof (induction c s arbitrary: l rule: split_inclusive.induct)
  case (2 c x xs)
  show ?case
  proof (cases "x = c")
    case True
    with "2.prems" consider "l = [c]" | "l \<in> set (split_inclusive c xs)" by auto
    then show ?thesis
    proof cases
      case 1
      then show ?thesis by (intro exI [of _ "[]"]) simp
    qed (use "2.IH"(1) [OF True] in blast)
  next
    case False
    show ?thesis
    proof (cases "split_inclusive c xs")
      case Nil
      with 2 False have "l = [x]" by simp
      with False show ?thesis by auto
    next
      case (Cons h t)
      with 2 False consider "l = x # h" | "l \<in> set t" by auto
      then show ?thesis
      proof cases
        case 1
        from "2.IH"(2) [OF False, of h] Cons obtain m where "c \<notin> set m" "h = m \<or> h = m @ [c]" by auto
        with 1 False show ?thesis by (intro exI [of _ "x # m"]) auto
      qed (use "2.IH"(2) [OF False, of l] Cons in auto)
    qed
  qed
qed simp

lemma concat_body_lines: "concat (body_lines body) = body"
  by (simp add: body_lines_def concat_split_inclusive)

section \<open>The rewritten line\<close>

lemma rewrite_lines_replaced: "rewrite_lines r True lines = (concat (filter (\<lambda>l. \<not> is_root_secret l) lines), True)"
  by (induction lines) auto

lemma rewrite_lines_none: "\<forall>l \<in> set lines. \<not> is_root_secret l \<Longrightarrow> rewrite_lines r False lines = (concat lines, False)"
  by (induction lines) auto

lemma rewrite_lines_first:
  "\<forall>l \<in> set pre. \<not> is_root_secret l \<Longrightarrow> is_root_secret old \<Longrightarrow>
     rewrite_lines r False (pre @ old # post) =
       (concat pre @ r @ line_end old @ concat (filter (\<lambda>l. \<not> is_root_secret l) post), True)"
  by (induction pre) (auto simp: rewrite_lines_replaced)

text \<open>A line that the rewrite takes for the secret, without a stray carriage return, is one that the
  layout check counts or refuses.\<close>

lemma strip_any_Some: "strip_any ps s = Some r \<Longrightarrow> \<exists>p \<in> set ps. s = p @ r"
  by (induction ps) (auto split: option.splits)

lemma trim_with_removed:
  "[] \<notin> set ps \<Longrightarrow> \<exists>qs. set qs \<subseteq> set ps \<and> s = concat qs @ trim_with ps s"
proof (induction ps s rule: trim_with.induct)
  case (1 ps s)
  show ?case
  proof (cases "strip_any ps s")
    case None
    with 1 show ?thesis by (intro exI [of _ "[]"]) (simp add: trim_with.simps)
  next
    case (Some r)
    from strip_any_Some [OF Some] obtain p where p: "p \<in> set ps" "s = p @ r" by blast
    from "1.IH" [OF _ Some] "1.prems" obtain qs where "set qs \<subseteq> set ps" "r = concat qs @ trim_with ps r" by blast
    moreover have "trim_with ps s = trim_with ps r" using Some "1.prems" by (simp add: trim_with.simps [of ps s])
    ultimately show ?thesis using p by (intro exI [of _ "p # qs"]) auto
  qed
qed

lemma trim_first:
  assumes "c \<notin> set (ascii_ws @ [CHR 0xC2, CHR 0xE1, CHR 0xE2, CHR 0xE3])"
  shows "trim (c # s) \<noteq> [] \<and> hd (trim (c # s)) = c"
proof -
  have no: "\<not> prefix p (c # s')" if "p \<in> set ws_patterns" for p s'
    using ws_patterns_ends [OF that] assms by (cases p) auto
  have start: "trim_start (c # s) = c # s"
    unfolding trim_start_def by (rule trim_with_id) (simp add: strip_any_None_iff no)
  obtain qs where qs: "set qs \<subseteq> set (map rev ws_patterns)"
    "rev (c # s) = concat qs @ trim_with (map rev ws_patterns) (rev (c # s))"
    using trim_with_removed [OF ws_patterns_nonempty(2)] by blast
  have "concat (map rev (rev qs)) = rev (concat qs)" by (induction qs) auto
  then have eq: "c # s = trim_end (c # s) @ concat (map rev (rev qs))"
    using arg_cong [OF qs(2), of rev] unfolding trim_end_def by (metis rev_append rev_rev_ident)
  have "trim_end (c # s) \<noteq> []"
  proof
    assume "trim_end (c # s) = []"
    with eq obtain q r where "q \<in> set qs" "rev q @ r = c # s" by (cases "rev qs") auto
    moreover from this(1) qs(1) have "rev q \<in> set ws_patterns" by auto
    ultimately show False using no [of "rev q" s] by (metis prefixI)
  qed
  with eq show ?thesis
    unfolding trim_def start by (cases "trim_end (c # s)") auto
qed


lemma trim_end_chars_no: "s = [] \<or> last s \<notin> set cs \<Longrightarrow> trim_end_chars cs s = s"
  by (cases s rule: rev_cases) (auto simp: trim_end_chars_def)

lemma trim_end_chars_snoc: "c \<in> set cs \<Longrightarrow> trim_end_chars cs (s @ [c]) = trim_end_chars cs s"
  by (simp add: trim_end_chars_def)

lemma trim_end_chars_append: "set w \<subseteq> set cs \<Longrightarrow> trim_end_chars cs (s @ w) = trim_end_chars cs s"
  by (induction w rule: rev_induct) (simp_all add: trim_end_chars_snoc flip: append_assoc)

lemma trim_end_chars_prefix: "\<exists>r. s = trim_end_chars cs s @ r \<and> set r \<subseteq> set cs"
proof -
  have "rev s = takeWhile (\<lambda>c. c \<in> set cs) (rev s) @ dropWhile (\<lambda>c. c \<in> set cs) (rev s)" by simp
  then have "s = trim_end_chars cs s @ rev (takeWhile (\<lambda>c. c \<in> set cs) (rev s))"
    unfolding trim_end_chars_def by (metis rev_append rev_rev_ident)
  moreover have "set (rev (takeWhile (\<lambda>c. c \<in> set cs) (rev s))) \<subseteq> set cs" by (auto dest: set_takeWhileD)
  ultimately show ?thesis by blast
qed

lemma root_secret_counted:
  assumes l: "line \<in> set (body_lines body)" and root: "is_root_secret line" and cr: "carriage_return \<notin> set body"
    and ok: "refuse_lines seen (line # lines) = None"
  shows "seen = 0 \<and> refuse_lines 1 lines = None"
proof -
  from split_inclusive_end [of line newline body] l obtain m where
    m: "newline \<notin> set m" "line = m \<or> line = m @ [newline]" by (auto simp: body_lines_def)
  have crl: "carriage_return \<notin> set line" using split_inclusive_subset [of line newline body] l cr
    by (auto simp: body_lines_def)
  from root obtain key rest where k: "split_once CHR '':'' line = Some (key, rest)"
    "trim_end_chars [CHR '' '', tab, carriage_return] key = ''secret''"
    by (auto simp: is_root_secret_def is_some_and_iff)
  then have line: "line = key @ CHR '':'' # rest" and kc: "CHR '':'' \<notin> set key" by (auto dest: split_once_Some)
  obtain w where w: "key = ''secret'' @ w" "set w \<subseteq> {CHR '' '', tab, carriage_return}"
    using trim_end_chars_prefix [of key "[CHR '' '', tab, carriage_return]"] k(2) by auto
  have bare: "trim_end_chars [newline, carriage_return] line = m"
  proof -
    have "m = [] \<or> last m \<notin> set [newline, carriage_return]" using m crl by (cases m rule: rev_cases) auto
    then have "trim_end_chars [newline, carriage_return] m = m" by (rule trim_end_chars_no)
    with m(2) show ?thesis using trim_end_chars_snoc [of newline "[newline, carriage_return]" m] by auto
  qed
  obtain v where mv: "m = key @ CHR '':'' # v"
  proof (cases "line = m")
    case True
    with line that show ?thesis by blast
  next
    case False
    with m(2) have eq: "m @ [newline] = key @ CHR '':'' # rest" using line by simp
    then have "rest \<noteq> []" by (auto simp: newline_def)
    then obtain v c where "rest = v @ [c]" by (cases rest rule: rev_cases) auto
    with eq that show ?thesis by auto
  qed
  have split: "split_once CHR '':'' m = Some (key, v)" unfolding mv using kc by (rule split_once_append)
  have wc: "set w \<subseteq> {CHR '' '', tab}" using w crl line by (auto simp: tab_def carriage_return_def)
  then have key: "trim_end_chars [CHR '' '', tab] key = ''secret''"
    unfolding w(1) by (subst trim_end_chars_append) (auto simp: trim_end_chars_def tab_def)
  obtain t where ms: "m = CHR ''s'' # t" using mv w(1) by simp
  have tr: "trim m \<noteq> []" "hd (trim m) = CHR ''s''"
    using trim_first [of "CHR ''s''" t] by (simp_all add: ms ascii_ws_def)
  then obtain u where u: "trim m = CHR ''s'' # u" by (cases "trim m") auto
  have lead: "\<not> starts_with_any [CHR '' '', tab] m" by (simp add: ms starts_with_any_def tab_def)
  have tests: "trim m \<noteq> ''---''" "trim m \<noteq> ''...''" "\<not> starts_with (trim m) ''--- ''" "\<not> starts_with (trim m) ''#''"
    "\<not> starts_with_any [CHR ''{'', CHR ''[''] (trim m)"
    by (simp_all add: u starts_with_def starts_with_any_def)
  show ?thesis
    using ok lead tests tr(1) by (simp add: Let_def bare split key is_quoted_secret_key_def split: if_split_asm)
qed

lemma refuse_lines_later:
  "refuse_lines seen (line # lines) = None \<Longrightarrow> \<exists>seen' \<ge> seen. refuse_lines seen' lines = None"
  by (auto simp: Let_def split: if_splits option.splits prod.splits intro: exI [of _ seen] exI [of _ "Suc seen"])

lemma refuse_lines_no_second:
  assumes "refuse_lines seen lines = None" "0 < seen" "set lines \<subseteq> set (body_lines body)" "carriage_return \<notin> set body"
  shows "\<forall>l \<in> set lines. \<not> is_root_secret l"
  using assms
proof (induction lines arbitrary: seen)
  case (Cons l lines)
  from refuse_lines_later [OF Cons.prems(1)] obtain s where "s \<ge> seen" "refuse_lines s lines = None" by blast
  with Cons.IH [of s] Cons.prems have "\<forall>l \<in> set lines. \<not> is_root_secret l" by auto
  moreover have "\<not> is_root_secret l"
    using root_secret_counted [of l body seen lines] Cons.prems by auto
  ultimately show ?case by simp
qed simp

lemma refuse_lines_suffix:
  "refuse_lines seen (pre @ rest) = None \<Longrightarrow> \<exists>seen'. refuse_lines seen' rest = None"
proof (induction pre arbitrary: seen)
  case (Cons l pre)
  from Cons.prems refuse_lines_later [of seen l "pre @ rest"] Cons.IH show ?case by auto
qed auto

lemma single_root_secret:
  assumes "secret_layout_refusal body = None" "body_lines body = pre @ old # post" "is_root_secret old"
    "carriage_return \<notin> set body"
  shows "\<forall>l \<in> set post. \<not> is_root_secret l"
proof -
  from assms(1,2) obtain seen where r: "refuse_lines seen (old # post) = None"
    using refuse_lines_suffix [of 0 pre "old # post"] by (auto simp: secret_layout_refusal_def)
  have "old \<in> set (body_lines body)" using assms(2) by simp
  from root_secret_counted [OF this assms(3,4) r] have "refuse_lines 1 post = None" by simp
  then show ?thesis by (rule refuse_lines_no_second) (use assms in auto)
qed


lemma line_end_plain: "carriage_return \<notin> set l \<Longrightarrow> line_end l = [newline]"
proof -
  assume a: "carriage_return \<notin> set l"
  have "strip_prefix [newline, carriage_return] (rev l) = None"
  proof (rule ccontr)
    assume "strip_prefix [newline, carriage_return] (rev l) \<noteq> None"
    then obtain r where "rev l = [newline, carriage_return] @ r" by auto
    then have "carriage_return \<in> set (rev l)" by simp
    with a show False by simp
  qed
  then show ?thesis by (simp add: line_end_def ends_with_def)
qed

section \<open>Rotation of the secret\<close>

text \<open>Rotating a weak secret changes one line of the user's file and nothing else: the line that declared the secret is
  replaced where it stands, or the new line is appended to a file that had none; every other byte (comments,
  disabled listeners) stays. A layout in which that cannot be done is refused.\<close>

theorem secret_rotation_keeps_lines:
  assumes "rewrite_secret_line env body secret = Inr body'" and "carriage_return \<notin> set body"
  shows "(\<exists>pre old post. body = pre @ old @ post \<and> old \<in> set (body_lines body) \<and> is_root_secret old \<and>
       body' = pre @ ''secret: '' @ se_quote env secret @ [newline] @ post) \<or>
    (\<forall>l \<in> set (body_lines body). \<not> is_root_secret l) \<and>
       (\<exists>sep \<in> {[], [newline]}. body' = body @ sep @ ''secret: '' @ se_quote env secret @ [newline])"
proof -
  from assms(1) have ok: "secret_layout_refusal body = None"
    and body': "body' = rewrite_secret_line_unchecked (se_quote env) body secret"
    by (auto simp: rewrite_secret_line_def Let_def split: option.split_asm)
  show ?thesis
  proof (cases "\<exists>l \<in> set (body_lines body). is_root_secret l")
    case True
    then obtain pre old post where ls: "body_lines body = pre @ old # post" "is_root_secret old"
      "\<forall>l \<in> set pre. \<not> is_root_secret l" by (rule split_list_first_propE) auto
    have post: "\<forall>l \<in> set post. \<not> is_root_secret l" by (rule single_root_secret [OF ok ls(1,2) assms(2)])
    have "carriage_return \<notin> set old" using split_inclusive_subset [of old newline body] ls(1) assms(2)
      by (auto simp: body_lines_def)
    then have "line_end old = [newline]" by (rule line_end_plain)
    then have "body' = concat pre @ (''secret: '' @ se_quote env secret) @ [newline] @ concat post"
      using post by (simp add: body' rewrite_secret_line_unchecked_def ls(1) rewrite_lines_first [OF ls(3,2)])
    moreover have "body = concat pre @ old @ concat post"
      using concat_body_lines [of body] by (simp add: ls(1))
    moreover have "old \<in> set (body_lines body)" by (simp add: ls(1))
    ultimately show ?thesis using ls(2) by auto
  next
    case False
    then have "rewrite_lines r False (body_lines body) = (body, False)" for r
      by (simp add: rewrite_lines_none concat_body_lines)
    with False show ?thesis
      by (simp add: body' rewrite_secret_line_unchecked_def)
  qed
qed

text \<open>A file with a comment and a disabled listener.\<close>

definition weak_body :: string where
  "weak_body = ''secret: set-your-secret'' @ [newline] @ ''port: 0 # off'' @ [newline]"

definition strong_body :: string where
  "strong_body = ''secret: u-1'' @ [newline] @ ''port: 0 # off'' @ [newline]"

definition weak_mapping :: ymapping where
  "weak_mapping = [(YStr ''secret'', YStr ''set-your-secret''), (YStr ''port'', YNum (PosInt 0))]"

definition rotate_env :: secret_env where
  "rotate_env =
     \<lparr>se_yaml = \<lparr>yi_parse = (\<lambda>b. if b = weak_body then Some (YMap weak_mapping)
                              else if b = strong_body then Some (YMap (ymap_put ''secret'' (YStr ''u-1'') weak_mapping))
                              else None),
                yi_merge = Some, yi_print = (\<lambda>_. None)\<rparr>,
      se_socket = ''s'', se_uuid = ''u-1'', se_quote = (\<lambda>s. s), se_show_number = (\<lambda>_. ''0''), se_same = (=),
      se_writable = True, se_chmod = True, se_readable = True\<rparr>"

lemma weak_body_lines:
  "body_lines weak_body = [''secret: set-your-secret'' @ [newline], ''port: 0 # off'' @ [newline]]"
  by (simp add: weak_body_def body_lines_def newline_def)

lemma trim_space: "trim (CHR '' '' # s) = trim s"
proof -
  have "strip_any ws_patterns (CHR '' '' # s) = Some s" by (simp add: ws_patterns_def ascii_ws_def)
  then have "trim_start (CHR '' '' # s) = trim_start s"
    unfolding trim_start_def using ws_patterns_nonempty(1)
    by (subst trim_with.simps) simp
  then show ?thesis by (simp add: trim_def)
qed

lemma rotate_trims:
  "trim ''secret: set-your-secret'' = ''secret: set-your-secret''" "trim '' set-your-secret'' = ''set-your-secret''"
  "trim ''port: 0 # off'' = ''port: 0 # off''" "trim '' 0 # off'' = ''0 # off''" "trim ''set-your-secret'' = ''set-your-secret''"
  "trim ''u-1'' = ''u-1''"
  by (simp_all only: trim_space) (rule trim_id_ends; simp add: ascii_ws_def unicode_ws_def)+

lemma rotate_layout: "secret_layout_refusal weak_body = None"
  by (simp add: secret_layout_refusal_def weak_body_lines Let_def trim_end_chars_def newline_def carriage_return_def tab_def
      rotate_trims starts_with_any_def starts_with_def is_quoted_secret_key_def)

lemma weak_root: "is_root_secret (''secret: set-your-secret'' @ [newline])" "\<not> is_root_secret (''port: 0 # off'' @ [newline])"
  by (simp_all add: is_root_secret_def newline_def trim_end_chars_def tab_def carriage_return_def starts_with_any_def)

lemma rotate_candidate: "rewrite_secret_line_unchecked (\<lambda>s. s) weak_body ''u-1'' = strong_body"
proof -
  have "rewrite_lines r False ([] @ (''secret: set-your-secret'' @ [newline]) # [''port: 0 # off'' @ [newline]]) =
      (r @ [newline] @ ''port: 0 # off'' @ [newline], True)" for r
    using weak_root line_end_plain [of "''secret: set-your-secret'' @ [newline]"]
    by (subst rewrite_lines_first) (simp_all add: carriage_return_def newline_def)
  then show ?thesis
    by (simp add: rewrite_secret_line_unchecked_def weak_body_lines strong_body_def del: rewrite_lines.simps)
qed

lemma weak_rotates: "rewrite_secret_line rotate_env weak_body ''u-1'' = Inr strong_body"
proof -
  have "strong_body \<noteq> weak_body" by (simp add: strong_body_def weak_body_def)
  then show ?thesis
    by (simp add: rewrite_secret_line_def rotate_layout rotate_candidate rotate_env_def)
qed

theorem secret_rotation_keeps_lines_witness:
  "\<exists>pre old post. weak_body = pre @ old @ post \<and> is_root_secret old \<and>
     strong_body = pre @ ''secret: '' @ se_quote rotate_env ''u-1'' @ [newline] @ post"
proof -
  have "carriage_return \<notin> set weak_body" by (simp add: weak_body_def carriage_return_def newline_def)
  from secret_rotation_keeps_lines [OF weak_rotates this] show ?thesis
    using weak_root(1) by (auto simp: weak_body_lines simp del: append.simps)
qed


lemma composed_secret:
  assumes "save_clash_config_private env m st = Some st'"
  shows "\<exists>b. yi_print (se_yaml env) m = Some b \<and>
    st' = st\<lparr>ss_file := Some \<lparr>cf_body = clash_file_header @ b, cf_private = True\<rparr>\<rparr>"
  using assms
  by (auto simp: save_clash_config_private_def save_clash_body_private_def Option.bind_eq_Some_conv split: if_splits)

lemma kept_secret:
  "tighten_clash_config_mode env f = Some f' \<Longrightarrow> cf_body f' = cf_body f \<and> cf_private f'"
  by (auto simp: tighten_clash_config_mode_def split: if_splits)

lemma rotated_secret:
  assumes "rotate_secret_in_place env u f st = Inr st'"
    and same: "\<And>a b k v. se_same env a b \<Longrightarrow> ymap_get b k = Some (YStr v) \<Longrightarrow> ymap_get a k = Some (YStr v)"
  shows "\<exists>body. st' = st\<lparr>ss_file := Some \<lparr>cf_body = body, cf_private = True\<rparr>\<rparr> \<and>
    (\<exists>p. yi_parse (se_yaml env) body = Some (YMap p) \<and> ymap_get p ''secret'' = Some (YStr u))"
proof -
  from assms(1) obtain body where body: "rewrite_secret_line env (cf_body f) u = Inr body"
    "st' = st\<lparr>ss_file := Some \<lparr>cf_body = body, cf_private = True\<rparr>\<rparr>"
    by (auto simp: rotate_secret_in_place_def save_clash_body_private_def split: if_splits)
  then obtain p m where p: "yi_parse (se_yaml env) body = Some (YMap p)" "se_same env p (ymap_put ''secret'' (YStr u) m)"
    by (auto simp: rewrite_secret_line_def Let_def split: option.splits yaml.splits)
  have "ymap_get p ''secret'' = Some (YStr u)" by (rule same [OF p(2)]) (simp add: ymap_get_put)
  with body(2) p(1) show ?thesis by blast
qed

lemma read_stored_file:
  "read_mapping io (stored_file env file) = Inr m \<Longrightarrow>
     \<exists>f. file = Some f \<and> read_mapping io (Content (cf_body f)) = Inr m"
  by (auto simp: stored_file_def read_mapping_def split: option.splits if_splits)

lemmas resolve_defs = resolve_controller_secret_def publish_resolved_secret_def

text \<open>C12: Resolving the controller secret fails closed. When it fails, the file and the published secret are what they
  were. When it succeeds, the secret is not the public placeholder, it is published, only the owner can read the
  file, and the file holds that secret: the user's own strong one with the file's text untouched, or the freshly
  generated one.\<close>

theorem resolved_secret_contract:
  assumes run: "resolve_controller_secret env st = (r, st')"
    and uuid: "\<not> is_placeholder_secret (se_uuid env)"
    and print_parse: "\<And>m b. yi_print (se_yaml env) m = Some b \<Longrightarrow>
      yi_parse (se_yaml env) (clash_file_header @ b) = Some (YMap m)"
    and same: "\<And>a b k v. se_same env a b \<Longrightarrow> ymap_get b k = Some (YStr v) \<Longrightarrow> ymap_get a k = Some (YStr v)"
  shows "(\<forall>e. r = Inl e \<longrightarrow> st' = st) \<and>
    (\<forall>s. r = Inr s \<longrightarrow>
       \<not> is_placeholder_secret s \<and> ss_published st' = Some s \<and>
       (\<exists>f'. ss_file st' = Some f' \<and> cf_private f' \<and>
          ((\<exists>f m. ss_file st = Some f \<and> cf_body f' = cf_body f \<and>
              read_mapping (se_yaml env) (Content (cf_body f)) = Inr m \<and> raw_secret (se_show_number env) m = Some s) \<or>
           (\<exists>m. s = se_uuid env \<and> yi_parse (se_yaml env) (cf_body f') = Some (YMap m) \<and>
              ymap_get m ''secret'' = Some (YStr s)))))"
proof (cases "read_mapping (se_yaml env) (stored_file env (ss_file st))")
  case (Inl e)
  have "r = Inl x \<Longrightarrow> st' = st" for x
    using run Inl by (auto simp: resolve_defs split: if_splits option.splits)
  moreover have "\<exists>b. s = se_uuid env \<and> yi_parse (se_yaml env) (clash_file_header @ b) = Some
        (YMap (ymap_put ''secret'' (YStr s) (clash_template (se_socket env)))) \<and>
      st' = st\<lparr>ss_file := Some \<lparr>cf_body = clash_file_header @ b, cf_private = True\<rparr>, ss_published := Some s\<rparr>"
    if "r = Inr s" for s
    using run Inl that print_parse by (auto simp: resolve_defs split: if_splits option.splits dest!: composed_secret)
  ultimately show ?thesis using uuid by (fastforce simp: ymap_get_put)
next
  case (Inr m)
  from read_stored_file [OF Inr] obtain f where f: "ss_file st = Some f"
    "read_mapping (se_yaml env) (Content (cf_body f)) = Inr m" by blast
  show ?thesis
  proof (cases "is_placeholder_secret (unwrap_or (raw_secret (se_show_number env) m) [])")
    case False
    then obtain s where "raw_secret (se_show_number env) m = Some s" "\<not> is_placeholder_secret s"
      by (cases "raw_secret (se_show_number env) m") (auto simp: is_placeholder_secret_def)
    with run Inr f show ?thesis by (auto simp: resolve_defs split: option.splits dest!: kept_secret)
  next
    case True
    have "r = Inl x \<Longrightarrow> st' = st" for x
      using run Inr f(1) True by (auto simp: resolve_defs split: sum.splits)
    moreover have "s = se_uuid env \<and> (\<exists>body. (\<exists>p. yi_parse (se_yaml env) body = Some (YMap p) \<and>
        ymap_get p ''secret'' = Some (YStr s)) \<and>
        st' = st\<lparr>ss_file := Some \<lparr>cf_body = body, cf_private = True\<rparr>, ss_published := Some s\<rparr>)" if "r = Inr s" for s
      using run Inr f(1) True that
      by (auto simp: resolve_defs split: sum.splits dest!: rotated_secret [OF _ same])
    ultimately show ?thesis using uuid by (cases r) fastforce+
  qed
qed

definition weak_state :: secret_state where
  "weak_state = \<lparr>ss_file = Some \<lparr>cf_body = weak_body, cf_private = False\<rparr>, ss_published = None\<rparr>"

theorem resolved_secret_contract_witness:
  "\<exists>st'. resolve_controller_secret rotate_env weak_state = (Inr ''u-1'', st') \<and>
     (\<exists>f. ss_file st' = Some f \<and> cf_private f) \<and> \<not> is_placeholder_secret ''u-1''"
proof -
  have uuid: "\<not> is_placeholder_secret (se_uuid rotate_env)"
    by (simp add: rotate_env_def is_placeholder_secret_def placeholder_controller_secret_def rotate_trims)
  have run: "resolve_controller_secret rotate_env weak_state =
      (Inr ''u-1'', \<lparr>ss_file = Some \<lparr>cf_body = strong_body, cf_private = True\<rparr>, ss_published = Some ''u-1''\<rparr>)"
  proof -
    have "read_mapping (se_yaml rotate_env) (stored_file rotate_env (ss_file weak_state)) = Inr weak_mapping"
      by (simp add: read_mapping_def stored_file_def weak_state_def rotate_env_def)
    moreover have "is_placeholder_secret (unwrap_or (raw_secret (se_show_number rotate_env) weak_mapping) [])"
      by (simp add: raw_secret_def weak_mapping_def scalar_secret_def is_placeholder_secret_def
          placeholder_controller_secret_def rotate_trims)
    moreover have "rotate_secret_in_place rotate_env (se_uuid rotate_env) \<lparr>cf_body = weak_body, cf_private = False\<rparr> weak_state =
        Inr (weak_state\<lparr>ss_file := Some \<lparr>cf_body = strong_body, cf_private = True\<rparr>\<rparr>)"
      using weak_rotates by (simp add: rotate_secret_in_place_def save_clash_body_private_def rotate_env_def)
    ultimately show ?thesis
      by (simp add: resolve_controller_secret_def publish_resolved_secret_def weak_state_def)
         (simp add: rotate_env_def)
  qed
  show ?thesis
    using resolved_secret_contract [OF run uuid] run by (simp add: rotate_env_def)
qed

end
