(* ===== verification/Chain.thy ===== *)
theory Chain
  imports Enhance Routing
begin

text \<open>
  The enhancement chain of a profile (\<open>src-tui/src/chain.rs\<close>, the profile item of
  \<open>crates/clash-verge-core/src/config/prfitem.rs\<close>): rule, proxy and group fragments, the deep merges of
  Merge profiles and of the global DNS override, and the dialer chain of proxies. YAML and the script
  engine are parameters; a directory maps file names to what reading them gives.
\<close>

section \<open>Profile items\<close>

record prf_selected =
  psel_name :: "string option"
  psel_now :: "string option"
  psel_unknown :: ymapping

record prf_extra =
  pe_upload :: u64
  pe_download :: u64
  pe_total :: u64
  pe_expire :: u64
  pe_unknown :: ymapping

record prf_option =
  po_user_agent :: "string option"
  po_with_proxy :: "bool option"
  po_self_proxy :: "bool option"
  po_update_interval :: "u64 option"
  po_timeout_seconds :: "u64 option"
  po_danger_accept_invalid_certs :: "bool option"
  po_allow_auto_update :: "bool option"
  po_merge :: "string option"
  po_script :: "string option"
  po_rules :: "string option"
  po_proxies :: "string option"
  po_groups :: "string option"
  po_trusted_hosts :: "string list option"
  po_unknown :: ymapping

record prf_item =
  pi_uid :: "string option"
  pi_type :: "string option"
  pi_name :: "string option"
  pi_file :: "string option"
  pi_desc :: "string option"
  pi_url :: "string option"
  pi_selected :: "prf_selected list option"
  pi_extra :: "prf_extra option"
  pi_updated :: "nat option"
  pi_option :: "prf_option option"
  pi_home :: "string option"
  pi_file_data :: "string option"
  pi_unknown :: ymapping

section \<open>Fragments\<close>

datatype sequence_fragment =
    SeqPatch "yaml list" "yaml list" "string list" \<comment> \<open>prepend, append, delete\<close>
  | SeqReplace "yaml list"

datatype rules_fragment =
    RulesMapping "string list" "string list" "string list" \<comment> \<open>prepend, append, delete\<close>
  | RulesSequence "string list"

datatype chain_type =
    MergeChain ymapping
  | ScriptChain string string \<comment> \<open>source, path\<close>
  | RulesChain rules_fragment
  | ProxiesChain sequence_fragment
  | GroupsChain sequence_fragment

datatype chain_error =
    NoItemType
  | NoItemFile
  | FragmentMissing
  | FragmentUnreadable
  | FragmentYaml
  | MergeNotMapping
  | UnsupportedChainType string
  | UnsupportedFragmentKey
  | FragmentNonStringKey
  | FragmentKeyNotArray string
  | FragmentNonStringRule nat
  | FragmentShape
  | MergeDnsNotMapping
  | ProfileDnsNotMapping
  | ScriptFailed

definition mapping_keys :: "string list" where
  "mapping_keys = [''prepend'', ''append'', ''delete'']"

definition parse_sequence_of_strings :: "yaml list \<Rightarrow> (string list, chain_error) result" where
  "parse_sequence_of_strings entries =
     traverse (\<lambda>(i, e). case e of YStr s \<Rightarrow> Inr s | _ \<Rightarrow> Inl (FragmentNonStringRule i)) (enumerate 0 entries)"

definition parse_string_array :: "yaml \<Rightarrow> string \<Rightarrow> (string list, chain_error) result" where
  "parse_string_array value key =
     (case value of YSeq xs \<Rightarrow> parse_sequence_of_strings xs | _ \<Rightarrow> Inl (FragmentKeyNotArray key))"

fun parse_rules_mapping ::
  "(yaml \<times> yaml) list \<Rightarrow> string list \<times> string list \<times> string list
     \<Rightarrow> (string list \<times> string list \<times> string list, chain_error) result" where
  "parse_rules_mapping [] parts = Inr parts"
| "parse_rules_mapping ((key, val) # m) (prepend, appended, delete) =
     (case y_str key of
        None \<Rightarrow> Inl FragmentNonStringKey
      | Some name \<Rightarrow>
          if name = ''prepend'' then
            rbind (parse_string_array val name) (\<lambda>xs. parse_rules_mapping m (xs, appended, delete))
          else if name = ''append'' then
            rbind (parse_string_array val name) (\<lambda>xs. parse_rules_mapping m (prepend, xs, delete))
          else if name = ''delete'' then
            rbind (parse_string_array val name) (\<lambda>xs. parse_rules_mapping m (prepend, appended, xs))
          else Inl UnsupportedFragmentKey)"

definition parse_rules_fragment :: "(string \<Rightarrow> yaml option) \<Rightarrow> string \<Rightarrow> (rules_fragment, chain_error) result" where
  "parse_rules_fragment parse raw =
     rbind (ok_or (parse raw) FragmentYaml) (\<lambda>value.
       case value of
         YMap m \<Rightarrow>
           rbind (parse_rules_mapping m ([], [], [])) (\<lambda>(prepend, appended, delete).
             Inr (RulesMapping prepend appended delete))
       | YSeq xs \<Rightarrow> rbind (parse_sequence_of_strings xs) (\<lambda>rules. Inr (RulesSequence rules))
       | _ \<Rightarrow> Inl FragmentShape)"

definition fragment_sequence :: "ymapping \<Rightarrow> string \<Rightarrow> (yaml list, chain_error) result" where
  "fragment_sequence m key =
     (case ymap_get m key of
        None \<Rightarrow> Inr []
      | Some (YSeq xs) \<Rightarrow> Inr xs
      | _ \<Rightarrow> Inl (FragmentKeyNotArray key))"

definition parse_sequence_fragment :: "(string \<Rightarrow> yaml option) \<Rightarrow> string \<Rightarrow> (sequence_fragment, chain_error) result" where
  "parse_sequence_fragment parse raw =
     rbind (ok_or (parse raw) FragmentYaml) (\<lambda>value.
       case value of
         YSeq xs \<Rightarrow> Inr (SeqReplace xs)
       | YMap m \<Rightarrow>
           (if \<exists>key \<in> set (map fst m). \<not> is_some_and (y_str key) (\<lambda>k. k \<in> set mapping_keys)
            then Inl UnsupportedFragmentKey
            else rbind (fragment_sequence m ''prepend'') (\<lambda>prepend.
                 rbind (fragment_sequence m ''append'') (\<lambda>appended.
                 rbind (fragment_sequence m ''delete'') (\<lambda>delete.
                 rbind (parse_sequence_of_strings delete) (\<lambda>delete.
                   Inr (SeqPatch prepend appended delete))))))
       | _ \<Rightarrow> Inl FragmentShape)"

type_synonym directory = "string \<Rightarrow> stored"

definition read_fragment :: "directory \<Rightarrow> string \<Rightarrow> (string, chain_error) result" where
  "read_fragment dir file =
     (case dir file of Absent \<Rightarrow> Inl FragmentMissing | Unreadable \<Rightarrow> Inl FragmentUnreadable | Content raw \<Rightarrow> Inr raw)"

definition resolve_chain ::
  "(string \<Rightarrow> yaml option) \<Rightarrow> directory \<Rightarrow> prf_item \<Rightarrow> (chain_type, chain_error) result" where
  "resolve_chain parse dir item =
     rbind (ok_or (pi_type item) NoItemType) (\<lambda>itype.
     rbind (ok_or (pi_file item) NoItemFile) (\<lambda>file.
     rbind (read_fragment dir file) (\<lambda>raw.
       if itype = ''merge'' then
         rbind (ok_or (parse raw) FragmentYaml) (\<lambda>value.
           case value of YNull \<Rightarrow> Inr (MergeChain []) | YMap m \<Rightarrow> Inr (MergeChain m) | _ \<Rightarrow> Inl MergeNotMapping)
       else if itype = ''script'' then Inr (ScriptChain raw file)
       else if itype = ''rules'' then rbind (parse_rules_fragment parse raw) (\<lambda>f. Inr (RulesChain f))
       else if itype = ''proxies'' then rbind (parse_sequence_fragment parse raw) (\<lambda>f. Inr (ProxiesChain f))
       else if itype = ''groups'' then rbind (parse_sequence_fragment parse raw) (\<lambda>f. Inr (GroupsChain f))
       else Inl (UnsupportedChainType itype))))"

definition item_script :: string where
  "item_script =
     ''// Define main function (script entry)'' @ [newline, newline] @
     ''function main(config, profileName) {'' @ [newline] @ ''  return config;'' @ [newline] @ ''}'' @ [newline]"

definition fragment_is_empty :: "sequence_fragment \<Rightarrow> bool" where
  "fragment_is_empty f \<longleftrightarrow>
     (case f of SeqPatch p a d \<Rightarrow> p = [] \<and> a = [] \<and> d = [] | SeqReplace xs \<Rightarrow> xs = [])"

definition is_noop :: "chain_type \<Rightarrow> bool" where
  "is_noop chain \<longleftrightarrow>
     (case chain of
        MergeChain m \<Rightarrow> m = []
      | ScriptChain source _ \<Rightarrow> trim source = trim item_script
      | RulesChain (RulesMapping p a d) \<Rightarrow> p = [] \<and> a = [] \<and> d = []
      | RulesChain (RulesSequence xs) \<Rightarrow> xs = []
      | ProxiesChain f \<Rightarrow> fragment_is_empty f
      | GroupsChain f \<Rightarrow> fragment_is_empty f)"

section \<open>Rules\<close>

definition apply_rules_fragment :: "rules_fragment \<Rightarrow> ymapping \<Rightarrow> ymapping" where
  "apply_rules_fragment fragment config =
     (let upstream = (case ymap_get config ''rules'' of Some (YSeq xs) \<Rightarrow> xs | _ \<Rightarrow> []);
          rules = (case fragment of
              RulesSequence rules \<Rightarrow> map YStr rules
            | RulesMapping prepend appended delete \<Rightarrow>
                map YStr prepend @
                filter (\<lambda>e. \<not> (case e of YStr r \<Rightarrow> r \<in> set delete | _ \<Rightarrow> False)) upstream @
                map YStr appended)
      in ymap_put ''rules'' (YSeq rules) config)"

section \<open>Proxies and groups\<close>

text \<open>The name of an entry: a string, or the \<open>name\<close> of a mapping.\<close>

definition entry_name :: "yaml \<Rightarrow> string option" where
  "entry_name v = or_else (y_str v) (Option.bind (y_get v ''name'') y_str)"

definition drop_members :: "string list \<Rightarrow> ymapping \<Rightarrow> ymapping" where
  "drop_members delete grp =
     (case ymap_get grp ''proxies'' of
        Some (YSeq proxies) \<Rightarrow>
          ymap_put ''proxies'' (YSeq (filter (\<lambda>v. \<not> is_some_and (y_str v) (\<lambda>s. s \<in> set delete)) proxies)) grp
      | _ \<Rightarrow> grp)"

definition is_selector :: "ymapping \<Rightarrow> bool" where
  "is_selector grp \<longleftrightarrow>
     is_some_and (ymap_str grp ''type'')
       (\<lambda>kind. eq_ignore_ascii_case kind ''select'' \<or> eq_ignore_ascii_case kind ''selector'')"

text \<open>The first of every name; entries without a name stay.\<close>

fun dedup_names :: "string set \<Rightarrow> yaml list \<Rightarrow> yaml list" where
  "dedup_names seen [] = []"
| "dedup_names seen (v # vs) =
     (case y_str v of
        None \<Rightarrow> v # dedup_names seen vs
      | Some s \<Rightarrow> if s \<in> seen then dedup_names seen vs else v # dedup_names (insert s seen) vs)"

definition add_members :: "string list \<Rightarrow> ymapping \<Rightarrow> ymapping" where
  "add_members added grp =
     (let previous = unwrap_or (Option.bind (ymap_get grp ''proxies'') y_seq) []
      in ymap_put ''proxies'' (YSeq (dedup_names {} (map YStr added @ previous))) (ymap_remove ''proxies'' grp))"

text \<open>The groups in order: deleted names leave every group, added names join the first selector.\<close>

fun patch_groups :: "string list \<Rightarrow> string list \<Rightarrow> bool \<Rightarrow> yaml list \<Rightarrow> yaml list" where
  "patch_groups delete added first [] = []"
| "patch_groups delete added first (v # vs) =
     (case y_map v of
        None \<Rightarrow> v # patch_groups delete added first vs
      | Some grp \<Rightarrow>
          (let dropped = drop_members delete grp in
           if first \<and> added \<noteq> [] \<and> is_selector dropped
           then update_mapping (\<lambda>_. add_members added dropped) v # patch_groups delete added False vs
           else update_mapping (\<lambda>_. dropped) v # patch_groups delete added first vs))"

definition apply_sequence_fragment :: "sequence_fragment \<Rightarrow> string \<Rightarrow> ymapping \<Rightarrow> ymapping" where
  "apply_sequence_fragment fragment field config =
     (case fragment of
        SeqReplace xs \<Rightarrow> ymap_put field (YSeq xs) config
      | SeqPatch prepend appended delete \<Rightarrow>
          (let old = unwrap_or (Option.bind (ymap_get config field) y_seq) [];
               vals = prepend @ filter (\<lambda>v. \<not> is_some_and (entry_name v) (\<lambda>n. n \<in> set delete)) old @ appended;
               config = ymap_put field (YSeq vals) (ymap_remove field config)
           in if field \<noteq> ''proxies'' then config
              else (case ymap_get config ''proxy-groups'' of
                      Some (YSeq groups) \<Rightarrow>
                        ymap_put ''proxy-groups''
                          (YSeq (patch_groups delete (dedup (filter_map entry_name (prepend @ appended))) True groups))
                          config
                    | _ \<Rightarrow> config)))"

section \<open>Deep merges\<close>

text \<open>Mappings merge key by key; with \<open>clear\<close> an empty overlay mapping replaces the base's.\<close>

function merge_values :: "bool \<Rightarrow> ymapping \<Rightarrow> ymapping \<Rightarrow> ymapping" where
  "merge_values clear base [] = base"
| "merge_values clear base ((k, v) # overlay) =
     merge_values clear
       (case (map_of base k, v) of
          (Some (YMap b), YMap n) \<Rightarrow>
            if clear \<and> n = [] then assoc_put k v base else assoc_put k (YMap (merge_values clear b n)) base
        | _ \<Rightarrow> assoc_put k v base) overlay"
  by pat_completeness auto
termination by (relation "measure (\<lambda>(_, _, overlay). size (YMap overlay))") auto

definition merge_mapping_values :: "ymapping \<Rightarrow> ymapping \<Rightarrow> ymapping" where
  "merge_mapping_values = merge_values True"

definition merge_gui_values :: "ymapping \<Rightarrow> ymapping \<Rightarrow> ymapping" where
  "merge_gui_values = merge_values False"

definition apply_dns_override :: "ymapping \<Rightarrow> ymapping \<Rightarrow> (ymapping, chain_error) result" where
  "apply_dns_override dns_override config =
     (if dns_override = [] then Inr config
      else rbind (case ymap_get config ''dns'' of
                    None \<Rightarrow> Inr []
                  | Some v \<Rightarrow> ok_or (y_map v) ProfileDnsNotMapping) (\<lambda>dns.
             Inr (ymap_put ''dns'' (YMap (merge_mapping_values dns dns_override)) config)))"

definition lower_key :: "yaml \<Rightarrow> yaml" where
  "lower_key key = (case y_str key of Some k \<Rightarrow> YStr (to_ascii_lowercase k) | None \<Rightarrow> key)"

definition merge_entry :: "yaml \<times> yaml \<Rightarrow> ymapping \<Rightarrow> (ymapping, chain_error) result" where
  "merge_entry entry config =
     (let (key0, value) = entry; key = lower_key key0 in
      if key = YStr ''dns'' then
        rbind (ok_or (y_map value) MergeDnsNotMapping) (\<lambda>dns.
          case map_of config key of
            Some (YMap existing) \<Rightarrow> Inr (assoc_put key (YMap (ymap_extend dns existing)) config)
          | Some _ \<Rightarrow> Inl ProfileDnsNotMapping
          | None \<Rightarrow> Inr (assoc_put key value config))
      else
        (case (map_of config key, value) of
           (Some (YMap existing), YMap overlay) \<Rightarrow>
             if key \<noteq> YStr ''hosts'' then Inr (assoc_put key (YMap (merge_gui_values existing overlay)) config)
             else Inr (assoc_put key value config)
         | _ \<Rightarrow> Inr (assoc_put key value config)))"

fun apply_merge :: "ymapping \<Rightarrow> ymapping \<Rightarrow> (ymapping, chain_error) result" where
  "apply_merge [] config = Inr config"
| "apply_merge (entry # merge) config = rbind (merge_entry entry config) (apply_merge merge)"

text \<open>The script engine: source, profile name and path.\<close>

type_synonym script_engine = "ymapping \<Rightarrow> string \<Rightarrow> string \<Rightarrow> string \<Rightarrow> ymapping option"

definition apply_chain_to_profile ::
  "script_engine \<Rightarrow> chain_type \<Rightarrow> string \<Rightarrow> ymapping \<Rightarrow> (ymapping, chain_error) result" where
  "apply_chain_to_profile script chain profile_name config =
     (case chain of
        MergeChain m \<Rightarrow> apply_merge m config
      | RulesChain f \<Rightarrow> Inr (apply_rules_fragment f config)
      | ProxiesChain f \<Rightarrow> Inr (apply_sequence_fragment f ''proxies'' config)
      | GroupsChain f \<Rightarrow> Inr (apply_sequence_fragment f ''proxy-groups'' config)
      | ScriptChain source path \<Rightarrow> ok_or (script config source profile_name path) ScriptFailed)"

section \<open>Dialer chains\<close>

datatype chain_config_error = ChainTooShort | ChainNodeUnknown string

definition position :: "'a \<Rightarrow> 'a list \<Rightarrow> nat option" where
  "position x xs = find (\<lambda>i. xs ! i = x) [0..<length xs]"

definition dial_proxy :: "string list \<Rightarrow> ymapping \<Rightarrow> ymapping" where
  "dial_proxy chain_nodes proxy =
     (case Option.bind (ymap_str proxy ''name'') (\<lambda>name. position name chain_nodes) of
        None \<Rightarrow> proxy
      | Some 0 \<Rightarrow> ymap_remove ''dialer-proxy'' proxy
      | Some (Suc i) \<Rightarrow> ymap_put ''dialer-proxy'' (YStr (chain_nodes ! i)) proxy)"

definition build_chain_config :: "string list \<Rightarrow> ymapping list \<Rightarrow> (ymapping list, chain_config_error) result" where
  "build_chain_config chain_nodes proxies =
     (if length chain_nodes < 2 then Inl ChainTooShort
      else rbind (check_all (\<lambda>node. guard (\<exists>p \<in> set proxies. ymap_str p ''name'' = Some node) (ChainNodeUnknown node))
                    chain_nodes) (\<lambda>_.
             Inr (map (dial_proxy chain_nodes) proxies)))"

section \<open>Dialer chains have no loop\<close>

lemma position_Some: "position x xs = Some i \<Longrightarrow> i < length xs \<and> xs ! i = x"
  by (auto simp: position_def find_Some_iff)

lemma position_nth: "distinct xs \<Longrightarrow> i < length xs \<Longrightarrow> position (xs ! i) xs = Some i"
  unfolding position_def find_Some_iff by (intro exI [of _ i]) (auto simp: nth_eq_iff_index_eq)

lemma dial_proxy_other:
  "ymap_wf p \<Longrightarrow> k \<noteq> ''dialer-proxy'' \<Longrightarrow> ymap_get (dial_proxy nodes p) k = ymap_get p k"
  by (auto simp: dial_proxy_def ymap_get_put ymap_get_remove split: option.split nat.split)

text \<open>What a proxy of the list dials through, and the proxies passed on the way from one, at most \<open>n\<close> of them.\<close>

definition next_hop :: "ymapping list \<Rightarrow> string \<Rightarrow> string option" where
  "next_hop proxies name =
     Option.bind (find (\<lambda>p. ymap_str p ''name'' = Some name) proxies) (\<lambda>p. ymap_str p ''dialer-proxy'')"

fun dial_path :: "nat \<Rightarrow> ymapping list \<Rightarrow> string \<Rightarrow> string list" where
  "dial_path 0 proxies name = []"
| "dial_path (Suc n) proxies name =
     name # (case next_hop proxies name of None \<Rightarrow> [] | Some m \<Rightarrow> dial_path n proxies m)"

lemma next_hop_chain:
  assumes "build_chain_config nodes proxies = Inr out" "distinct nodes" "\<forall>p \<in> set proxies. ymap_wf p" "i < length nodes"
  shows "next_hop out (nodes ! i) = (case i of 0 \<Rightarrow> None | Suc j \<Rightarrow> Some (nodes ! j))"
proof -
  have out: "out = map (dial_proxy nodes) proxies"
    and known: "\<exists>p \<in> set proxies. ymap_str p ''name'' = Some (nodes ! i)"
    using assms(1,4) by (auto simp: build_chain_config_def split: if_splits)
  have name: "ymap_str (dial_proxy nodes p) ''name'' = ymap_str p ''name''" if "p \<in> set proxies" for p
    using assms(3) that by (simp add: ymap_str_def dial_proxy_other)
  obtain q where q: "find (\<lambda>p. ymap_str p ''name'' = Some (nodes ! i)) out = Some q"
    using known name unfolding out
    by (cases "find (\<lambda>p. ymap_str p ''name'' = Some (nodes ! i)) (map (dial_proxy nodes) proxies)")
       (auto simp: find_None_iff)
  then have "q \<in> set out" "ymap_str q ''name'' = Some (nodes ! i)" by (auto simp: find_Some_iff)
  then obtain p where p: "p \<in> set proxies" "q = dial_proxy nodes p" "ymap_str p ''name'' = Some (nodes ! i)"
    using name by (auto simp: out)
  have "dial_proxy nodes p = (case i of 0 \<Rightarrow> ymap_remove ''dialer-proxy'' p
      | Suc j \<Rightarrow> ymap_put ''dialer-proxy'' (YStr (nodes ! j)) p)"
    using position_nth [OF assms(2,4)] by (simp add: dial_proxy_def p(3))
  then have "ymap_str q ''dialer-proxy'' = (case i of 0 \<Rightarrow> None | Suc j \<Rightarrow> Some (nodes ! j))"
    using assms(3) p(1,2) by (cases i) (simp_all add: ymap_str_def ymap_get_put ymap_get_remove)
  then show ?thesis by (simp add: next_hop_def q)
qed

lemma dial_path_chain:
  assumes "build_chain_config nodes proxies = Inr out" "distinct nodes" "\<forall>p \<in> set proxies. ymap_wf p"
  shows "i < length nodes \<Longrightarrow> i < n \<Longrightarrow> dial_path n out (nodes ! i) = rev (take (Suc i) nodes)"
proof (induction i arbitrary: n)
  case 0
  then obtain m where "n = Suc m" by (cases n) auto
  with next_hop_chain [OF assms, of 0] 0 show ?case by (cases nodes) auto
next
  case (Suc i)
  then obtain m where m: "n = Suc m" "i < m" by (cases n) auto
  with next_hop_chain [OF assms Suc.prems(1)] Suc show ?case by (simp add: take_Suc_conv_app_nth)
qed

text \<open>C14: An accepted dialer chain is a path: from the exit, following what each proxy dials through passes the chosen
  nodes in reverse order and stops at the entry, which dials directly, so no loop can arise. Proxies outside the
  chain are not touched, and the others lose or change nothing but their dialer.\<close>

theorem dialer_chain_is_path:
  assumes "build_chain_config nodes proxies = Inr out" and "distinct nodes" and "\<forall>p \<in> set proxies. ymap_wf p"
  shows "(\<forall>n \<ge> length nodes. dial_path n out (last nodes) = rev nodes) \<and> length out = length proxies \<and>
    (\<forall>i < length proxies. ymap_str (proxies ! i) ''name'' \<notin> Some ` set nodes \<longrightarrow> out ! i = proxies ! i) \<and>
    (\<forall>i < length proxies. \<forall>k. k \<noteq> ''dialer-proxy'' \<longrightarrow> ymap_get (out ! i) k = ymap_get (proxies ! i) k)"
proof (intro conjI)
  have out: "out = map (dial_proxy nodes) proxies" and len: "2 \<le> length nodes"
    using assms(1) by (auto simp: build_chain_config_def split: if_splits)
  have "last nodes = nodes ! (length nodes - 1)" using len by (intro last_conv_nth) auto
  then show "\<forall>n \<ge> length nodes. dial_path n out (last nodes) = rev nodes"
    using dial_path_chain [OF assms, of "length nodes - 1"] len by simp
  show "length out = length proxies" by (simp add: out)
  show "\<forall>i < length proxies. ymap_str (proxies ! i) ''name'' \<notin> Some ` set nodes \<longrightarrow> out ! i = proxies ! i"
    by (auto simp: out dial_proxy_def dest!: position_Some split: option.split nat.split bind_split)
  show "\<forall>i < length proxies. \<forall>k. k \<noteq> ''dialer-proxy'' \<longrightarrow> ymap_get (out ! i) k = ymap_get (proxies ! i) k"
    using assms(3) by (simp add: out dial_proxy_other)
qed

definition named_proxy :: "string \<Rightarrow> ymapping" where
  "named_proxy name = [(YStr ''name'', YStr name), (YStr ''dialer-proxy'', YStr ''stale'')]"

theorem dialer_chain_is_path_witness:
  "\<exists>out. build_chain_config [''in'', ''out''] [named_proxy ''out'', named_proxy ''in''] = Inr out \<and>
     dial_path 2 out ''out'' = [''out'', ''in'']"
proof -
  have b: "build_chain_config [''in'', ''out''] [named_proxy ''out'', named_proxy ''in''] =
      Inr (map (dial_proxy [''in'', ''out'']) [named_proxy ''out'', named_proxy ''in''])"
    by (simp add: build_chain_config_def named_proxy_def ymap_str_def)
  have wf: "\<forall>p \<in> set [named_proxy ''out'', named_proxy ''in'']. ymap_wf p"
    by (simp add: named_proxy_def ymap_wf_def)
  from dialer_chain_is_path [OF b _ wf] b show ?thesis by simp
qed

section \<open>Deep merges\<close>

definition merged_value :: "bool \<Rightarrow> yaml option \<Rightarrow> yaml \<Rightarrow> yaml" where
  "merged_value clear old v =
     (case (old, v) of
        (Some (YMap b), YMap n) \<Rightarrow> if clear \<and> n = [] then v else YMap (merge_values clear b n)
      | _ \<Rightarrow> v)"

lemma merge_values_Cons:
  "merge_values clear base ((k, v) # overlay) =
     merge_values clear (assoc_put k (merged_value clear (map_of base k) v) base) overlay"
  by (auto simp: merged_value_def split: option.split yaml.split)

lemma map_of_merge_values:
  "distinct (map fst overlay) \<Longrightarrow>
     map_of (merge_values clear base overlay) k =
       (case map_of overlay k of None \<Rightarrow> map_of base k | Some v \<Rightarrow> Some (merged_value clear (map_of base k) v))"
proof (induction overlay arbitrary: base)
  case (Cons e overlay)
  obtain k' v where e: "e = (k', v)" by (cases e)
  have "k' \<notin> fst ` set overlay" using Cons.prems e by auto
  then have "map_of overlay k' = None" by (simp add: map_of_eq_None_iff)
  then show ?case
    using Cons by (auto simp: e merge_values_Cons map_of_assoc_put simp del: merge_values.simps(2) split: option.split)
qed simp

text \<open>The value at a path of keys, and whether a value replaces everything below it along a path.\<close>

fun y_path :: "yaml \<Rightarrow> yaml list \<Rightarrow> yaml option" where
  "y_path v [] = Some v"
| "y_path (YMap m) (k # ks) = Option.bind (map_of m k) (\<lambda>v. y_path v ks)"
| "y_path v (k # ks) = None"

fun replaced_below :: "bool \<Rightarrow> yaml \<Rightarrow> yaml list \<Rightarrow> bool" where
  "replaced_below clear v [] = False"
| "replaced_below clear (YMap m) (k # ks) =
     ((clear \<and> m = []) \<or> (case map_of m k of None \<Rightarrow> False | Some v \<Rightarrow> replaced_below clear v ks))"
| "replaced_below clear v (k # ks) = True"

fun distinct_keys :: "yaml \<Rightarrow> bool" where
  "distinct_keys (YMap m) = (distinct (map fst m) \<and> (\<forall>(k, v) \<in> set m. distinct_keys v))"
| "distinct_keys v = True"

definition is_mapping :: "yaml \<Rightarrow> bool" where
  "is_mapping v \<longleftrightarrow> (case v of YMap _ \<Rightarrow> True | _ \<Rightarrow> False)"

lemma y_path_leaf: "\<not> is_mapping v \<Longrightarrow> p \<noteq> [] \<Longrightarrow> y_path v p = None \<and> replaced_below clear v p"
  by (cases v; cases p) (auto simp: is_mapping_def)

lemma merged_value_no_mapping:
  "\<not> is_mapping v \<or> \<not> is_some_and old is_mapping \<Longrightarrow> merged_value clear old v = v"
  by (auto simp: merged_value_def is_mapping_def split: option.split yaml.split)

lemma merged_value_paths:
  "distinct_keys v \<Longrightarrow>
     (y_path v p = Some w \<and> \<not> is_mapping w \<longrightarrow> y_path (merged_value clear old v) p = Some w) \<and>
     (y_path v p = None \<longrightarrow>
        y_path (merged_value clear old v) p =
          (if replaced_below clear v p then None else Option.bind old (\<lambda>b. y_path b p)))"
proof (induction p arbitrary: v old)
  case Nil
  then show ?case by (auto simp: merged_value_no_mapping)
next
  case (Cons k ks)
  show ?case
  proof (cases "\<exists>n b. v = YMap n \<and> old = Some (YMap b)")
    case False
    then have same: "merged_value clear old v = v"
      by (intro merged_value_no_mapping) (auto simp: is_mapping_def is_some_and_iff split: yaml.splits)
    have "is_mapping v \<Longrightarrow> Option.bind old (\<lambda>b. y_path b (k # ks)) = None"
      using False y_path_leaf [of "the old" "k # ks"]
      by (cases old) (auto simp: is_mapping_def split: yaml.splits)
    then show ?thesis using y_path_leaf [of v "k # ks" clear] by (cases "is_mapping v") (auto simp: same)
  next
    case True
    then obtain n b where v: "v = YMap n" and old: "old = Some (YMap b)" by blast
    show ?thesis
    proof (cases "clear \<and> n = []")
      case True
      then show ?thesis by (simp add: v old merged_value_def)
    next
      case False
      then have m: "merged_value clear (Some (YMap b)) (YMap n) = YMap (merge_values clear b n)"
        by (auto simp: merged_value_def)
      have d: "distinct (map fst n)" using Cons.prems v by simp
      show ?thesis
      proof (cases "map_of n k")
        case None
        with False show ?thesis by (auto simp: m v old map_of_merge_values [OF d])
      next
        case (Some v')
        then have "distinct_keys v'" using Cons.prems v by (auto dest: map_of_SomeD)
        from Cons.IH [OF this, of "map_of b k"] Some False show ?thesis
          by (auto simp: m v old map_of_merge_values [OF d])
      qed
    qed
  qed
qed

text \<open>The deep merges (a Merge profile's sections, and the global DNS override) act path by path: a value of the
  overlay that is no mapping arrives at its path, whatever was there; a path the overlay says nothing about keeps
  the base's value, and is gone exactly when the overlay put something else above it (for the DNS override also
  an empty mapping, which clears).\<close>

theorem deep_merge_paths:
  assumes "distinct_keys (YMap overlay)" and "overlay \<noteq> []"
  shows "(y_path (YMap overlay) p = Some w \<and> \<not> is_mapping w \<longrightarrow>
       y_path (YMap (merge_gui_values base overlay)) p = Some w \<and>
       y_path (YMap (merge_mapping_values base overlay)) p = Some w) \<and>
    (y_path (YMap overlay) p = None \<longrightarrow>
       y_path (YMap (merge_gui_values base overlay)) p =
         (if replaced_below False (YMap overlay) p then None else y_path (YMap base) p) \<and>
       y_path (YMap (merge_mapping_values base overlay)) p =
         (if replaced_below True (YMap overlay) p then None else y_path (YMap base) p))"
proof -
  have "merged_value clear (Some (YMap base)) (YMap overlay) = YMap (merge_values clear base overlay)" for clear
    using assms(2) by (simp add: merged_value_def)
  with merged_value_paths [OF assms(1), of p w _ "Some (YMap base)"] show ?thesis
    by (simp add: merge_gui_values_def merge_mapping_values_def)
qed

theorem deep_merge_paths_witness:
  "y_path (YMap (merge_mapping_values [(YStr ''a'', YMap [(YStr ''b'', YBool True)])] [(YStr ''a'', YMap [])]))
     [YStr ''a'', YStr ''b''] = None"
  using deep_merge_paths [of "[(YStr ''a'', YMap [])]" "[YStr ''a'', YStr ''b'']" YNull
      "[(YStr ''a'', YMap [(YStr ''b'', YBool True)])]"] by simp

end
