(* ===== verification/Subscribe.thy ===== *)
theory Subscribe
  imports Assemble Chain
begin

text \<open>
  Remote subscriptions (\<open>src-tui/src/subscribe/\<close>): the check of the host of a URL in \<open>ssrf.rs\<close>, the hosts a
  profile trusts and the import and update of a remote profile in \<open>from_url.rs\<close>, the request of
  \<open>fetch.rs\<close>, the timer of \<open>timer.rs\<close> and the merge of profile options in
  \<open>crates/clash-verge-core/src/config/prfitem.rs\<close>. URL parsing, name resolution, HTTP and the text
  formats are parameters. The properties say which hosts can be fetched, and what an imported profile keeps
  of its options.
\<close>

section \<open>Address ranges\<close>

definition seg0 :: "nat list \<Rightarrow> nat" where
  "seg0 gs = (case gs of g # _ \<Rightarrow> g | [] \<Rightarrow> 0)"

fun is_private_v4 :: "ip_addr \<Rightarrow> bool" where
  "is_private_v4 (IpV4 a b c d) \<longleftrightarrow> a = 10 \<or> a = 172 \<and> 16 \<le> b \<and> b \<le> 31 \<or> a = 192 \<and> b = 168"
| "is_private_v4 (IpV6 gs) \<longleftrightarrow> False"

text \<open>\<open>(ip.segments()[0] & 0xfe00) == 0xfc00\<close>; \<open>is_unique_local\<close> of the standard library is the same test.\<close>

fun is_ula_v6 :: "ip_addr \<Rightarrow> bool" where
  "is_ula_v6 (IpV6 gs) \<longleftrightarrow> and (seg0 gs) 0xFE00 = 0xFC00"
| "is_ula_v6 (IpV4 a b c d) \<longleftrightarrow> False"

definition is_private :: "ip_addr \<Rightarrow> bool" where
  "is_private ip \<longleftrightarrow> is_private_v4 ip \<or> is_ula_v6 ip"

fun is_link_local_v4 :: "ip_addr \<Rightarrow> bool" where
  "is_link_local_v4 (IpV4 a b c d) \<longleftrightarrow> a = 169 \<and> b = 254"
| "is_link_local_v4 (IpV6 gs) \<longleftrightarrow> False"

fun is_link_local_v6 :: "ip_addr \<Rightarrow> bool" where
  "is_link_local_v6 (IpV6 gs) \<longleftrightarrow> and (seg0 gs) 0xFFC0 = 0xFE80"
| "is_link_local_v6 (IpV4 a b c d) \<longleftrightarrow> False"

definition blocked_ranges :: "((ip_addr \<Rightarrow> bool) \<times> string) list" where
  "blocked_ranges =
     [(is_loopback, ''loopback''), (is_private, ''private''), (is_link_local_v4, ''link-local-v4''),
      (is_link_local_v6, ''link-local-v6''), (is_ula_v6, ''unique-local''), (is_unspecified, ''unspecified'')]"

section \<open>The check of a host\<close>

datatype check_error =
    InvalidUrl
  | UrlWithoutHost
  | DnsFailed string
  | NoAddress string
  | Blocked string string ip_addr

datatype proxy_mode = DirectMode | SystemMode | LocalhostMode u16

record fetch_request =
  fr_mode :: proxy_mode
  fr_timeout :: u64
  fr_accept_invalid :: bool
  fr_user_agent :: string
  fr_auth :: "(string \<times> string) option"

text \<open>
  The code and the system a fetch relies on: URL parsing, the repair of a URL whose query was glued to its
  path, name resolution, the HTTP client (which follows redirects itself), the default user agent and the
  mixed port, YAML read as a mapping, JSON, the name a response suggests, random ids by prefix and the
  clock.
\<close>

record net_env =
  ne_url :: "string \<Rightarrow> url option"
  ne_fix_url :: "string \<Rightarrow> string option"
  ne_resolve :: "string \<Rightarrow> ip_addr list option"
  ne_request :: "url \<Rightarrow> fetch_request \<Rightarrow> (string \<times> (string \<times> string) list) option"
  ne_user_agent :: string
  ne_mixed_port :: u16
  ne_mapping :: "string \<Rightarrow> ymapping option"
  ne_json :: json_io
  ne_file_name :: "string \<Rightarrow> (string \<times> string) list \<Rightarrow> string"
  ne_uid :: "string \<Rightarrow> string"
  ne_now :: nat

definition extract_host :: "net_env \<Rightarrow> string \<Rightarrow> (string, check_error) result" where
  "extract_host env url' =
     rbind (ok_or (ne_url env url') InvalidUrl) (\<lambda>parsed. ok_or (url_host parsed) UrlWithoutHost)"

definition first_range :: "ip_addr \<Rightarrow> string option" where
  "first_range ip = map_option snd (find (\<lambda>(predicate, _). predicate ip) blocked_ranges)"

fun check_addresses :: "string \<Rightarrow> ip_addr list \<Rightarrow> (unit, check_error) result" where
  "check_addresses host [] = Inr ()"
| "check_addresses host (ip # ips) =
     (case first_range ip of Some label \<Rightarrow> Inl (Blocked host label ip) | None \<Rightarrow> check_addresses host ips)"

definition check_url_host :: "net_env \<Rightarrow> string \<Rightarrow> string list \<Rightarrow> (unit, check_error) result" where
  "check_url_host env url' allowlist =
     rbind (extract_host env url') (\<lambda>host.
       if host \<in> set allowlist then Inr ()
       else rbind (ok_or (ne_resolve env host) (DnsFailed host)) (\<lambda>addrs.
              if addrs = [] then Inl (NoAddress host) else check_addresses host addrs))"

section \<open>Trusted hosts\<close>

definition normalize_trusted_host :: "net_env \<Rightarrow> string \<Rightarrow> string option" where
  "normalize_trusted_host env raw =
     (let trimmed = trim raw in
      if trimmed = [] then None
      else case ne_url env trimmed of Some parsed \<Rightarrow> url_host parsed | None \<Rightarrow> Some trimmed)"

definition trusted_hosts_allowlist :: "net_env \<Rightarrow> prf_option option \<Rightarrow> string list" where
  "trusted_hosts_allowlist env option' =
     unwrap_or (map_option (filter_map (normalize_trusted_host env)) (Option.bind option' po_trusted_hosts)) []"

definition merge_trusted_host :: "net_env \<Rightarrow> string list option \<Rightarrow> string \<Rightarrow> string list option" where
  "merge_trusted_host env existing raw =
     map_option
       (\<lambda>host.
         let hosts = filter_map (normalize_trusted_host env) (unwrap_or existing [])
         in if host \<in> set hosts then hosts else hosts @ [host])
       (normalize_trusted_host env raw)"

section \<open>Options\<close>

definition empty_option :: prf_option where
  "empty_option =
     \<lparr>po_user_agent = None, po_with_proxy = None, po_self_proxy = None, po_update_interval = None,
      po_timeout_seconds = None, po_danger_accept_invalid_certs = None, po_allow_auto_update = None,
      po_merge = None, po_script = None, po_rules = None, po_proxies = None, po_groups = None,
      po_trusted_hosts = None, po_unknown = []\<rparr>"

definition merge_unknown_fields :: "ymapping \<Rightarrow> ymapping \<Rightarrow> ymapping" where
  "merge_unknown_fields base overlay = merge_values False base overlay"

definition overlay_option :: "prf_option \<Rightarrow> prf_option \<Rightarrow> prf_option" where
  "overlay_option a b =
     \<lparr>po_user_agent = or_else (po_user_agent b) (po_user_agent a),
      po_with_proxy = or_else (po_with_proxy b) (po_with_proxy a),
      po_self_proxy = or_else (po_self_proxy b) (po_self_proxy a),
      po_update_interval = or_else (po_update_interval b) (po_update_interval a),
      po_timeout_seconds = or_else (po_timeout_seconds b) (po_timeout_seconds a),
      po_danger_accept_invalid_certs = or_else (po_danger_accept_invalid_certs b) (po_danger_accept_invalid_certs a),
      po_allow_auto_update = or_else (po_allow_auto_update b) (po_allow_auto_update a),
      po_merge = or_else (po_merge b) (po_merge a), po_script = or_else (po_script b) (po_script a),
      po_rules = or_else (po_rules b) (po_rules a), po_proxies = or_else (po_proxies b) (po_proxies a),
      po_groups = or_else (po_groups b) (po_groups a),
      po_trusted_hosts = or_else (po_trusted_hosts b) (po_trusted_hosts a),
      po_unknown = merge_unknown_fields (po_unknown a) (po_unknown b)\<rparr>"

definition option_merge :: "prf_option option \<Rightarrow> prf_option option \<Rightarrow> prf_option option" where
  "option_merge one other =
     (case (one, other) of
        (Some a, Some b) \<Rightarrow> Some (overlay_option a b)
      | (Some a, None) \<Rightarrow> Some a
      | (None, other) \<Rightarrow> other)"

section \<open>The request\<close>

datatype import_error =
    UrlUnfixable
  | HostRefused check_error
  | RequestUrlInvalid
  | RequestFailed
  | ProfileBodyInvalid
  | ProfileWithoutProxies

definition proxy_mode_from_option :: "u16 \<Rightarrow> prf_option option \<Rightarrow> proxy_mode" where
  "proxy_mode_from_option mixed_port option' =
     (if unwrap_or (Option.bind option' po_self_proxy) False then LocalhostMode mixed_port
      else if unwrap_or (Option.bind option' po_with_proxy) False then SystemMode
      else DirectMode)"

definition subscription_user_agent :: "net_env \<Rightarrow> prf_option option \<Rightarrow> string" where
  "subscription_user_agent env option' =
     unwrap_or (opt_filter (\<lambda>custom. trim custom \<noteq> []) (Option.bind option' po_user_agent)) (ne_user_agent env)"

text \<open>The user name and the password of the URL go to the header, and the URL that is requested has neither;
  decoding and encoding them is the library's.\<close>

definition request_auth :: "url \<Rightarrow> (string \<times> string) option" where
  "request_auth parsed =
     (if url_username parsed \<noteq> [] \<or> url_password parsed \<noteq> None
      then Some (url_username parsed, unwrap_or (url_password parsed) []) else None)"

definition without_userinfo :: "url \<Rightarrow> url" where
  "without_userinfo parsed = parsed\<lparr>url_username := [], url_password := None\<rparr>"

definition fetch_subscription ::
  "net_env \<Rightarrow> string \<Rightarrow> prf_option option \<Rightarrow> string list \<Rightarrow> (string \<times> (string \<times> string) list, import_error) result"
where
  "fetch_subscription env url' option' allowlist =
     rbind (map_err HostRefused (check_url_host env url' allowlist)) (\<lambda>_.
     rbind (ok_or (ne_url env url') RequestUrlInvalid) (\<lambda>parsed.
       ok_or
         (ne_request env (without_userinfo parsed)
            \<lparr>fr_mode = proxy_mode_from_option (ne_mixed_port env) option',
             fr_timeout = unwrap_or (Option.bind option' po_timeout_seconds) 20,
             fr_accept_invalid = unwrap_or (Option.bind option' po_danger_accept_invalid_certs) False,
             fr_user_agent = subscription_user_agent env option',
             fr_auth = request_auth parsed\<rparr>)
         RequestFailed))"

section \<open>Import\<close>

definition key_value :: "string \<Rightarrow> string \<times> string option" where
  "key_value s = (case split_once CHR ''='' s of Some (k, v) \<Rightarrow> (k, Some v) | None \<Rightarrow> (s, None))"

text \<open>\<open>help::parse_str\<close> for \<open>u64\<close>: the first entry with the key whose value is a number.\<close>

definition parse_header_number :: "string \<Rightarrow> string \<Rightarrow> u64 option" where
  "parse_header_number target key =
     (case filter_map
             (\<lambda>s. case key_value (trim s) of
                (k, Some v) \<Rightarrow> if k = key then parse_unsigned (2 ^ 64) v else None
              | _ \<Rightarrow> None)
             (split_on CHR '';'' target) of
        n # _ \<Rightarrow> Some (of_nat n) | [] \<Rightarrow> None)"

definition is_userinfo_key :: "string \<Rightarrow> bool" where
  "is_userinfo_key key \<longleftrightarrow>
     is_some_and (strip_suffix ''subscription-userinfo'' (to_ascii_lowercase key))
       (\<lambda>before. before = [] \<or> ends_with before ''-'')"

definition parse_subscription_userinfo :: "(string \<times> string) list \<Rightarrow> prf_extra option" where
  "parse_subscription_userinfo headers =
     map_option
       (\<lambda>(_, value).
         \<lparr>pe_upload = unwrap_or (parse_header_number value ''upload'') 0,
          pe_download = unwrap_or (parse_header_number value ''download'') 0,
          pe_total = unwrap_or (parse_header_number value ''total'') 0,
          pe_expire = unwrap_or (parse_header_number value ''expire'') 0, pe_unknown = []\<rparr>)
       (find (\<lambda>(key, _). is_userinfo_key key) headers)"

text \<open>The interval of the caller, or the hours the server asks for in minutes, computed in 64 bits.\<close>

definition resolved_interval :: "prf_option option \<Rightarrow> (string \<times> string) list \<Rightarrow> u64 option" where
  "resolved_interval option' headers =
     or_else (Option.bind option' po_update_interval)
       (map_option (\<lambda>hours. of_nat hours * 60)
         (Option.bind (map_of headers ''profile-update-interval'') (parse_unsigned (2 ^ 64))))"

definition byte_order_mark :: string where
  "byte_order_mark = [char_of (0xEF :: nat), char_of (0xBB :: nat), char_of (0xBF :: nat)]"

function strip_bom :: "string \<Rightarrow> string" where
  "strip_bom s = (case strip_prefix byte_order_mark s of Some r \<Rightarrow> strip_bom r | None \<Rightarrow> s)"
  by pat_completeness auto

lemma strip_prefix_length: "strip_prefix p s = Some r \<Longrightarrow> length s = length p + length r"
  by (induction p s rule: strip_prefix.induct) (auto split: if_splits)

termination strip_bom
  by (relation "measure length") (auto simp: byte_order_mark_def dest: strip_prefix_length)

declare strip_bom.simps [simp del]

definition validate_clash_yaml :: "net_env \<Rightarrow> string \<Rightarrow> (ymapping, import_error) result" where
  "validate_clash_yaml env data =
     rbind (ok_or (ne_mapping env data) ProfileBodyInvalid) (\<lambda>m.
     rbind (guard (ymap_get m ''proxies'' \<noteq> None \<or> ymap_get m ''proxy-providers'' \<noteq> None) ProfileWithoutProxies)
       (\<lambda>_. Inr m))"

section \<open>The fragments of a new profile\<close>

definition empty_item :: prf_item where
  "empty_item =
     \<lparr>pi_uid = None, pi_type = None, pi_name = None, pi_file = None, pi_desc = None, pi_url = None,
      pi_selected = None, pi_extra = None, pi_updated = None, pi_option = None, pi_home = None,
      pi_file_data = None, pi_unknown = []\<rparr>"

definition sequence_template :: "string \<Rightarrow> string" where
  "sequence_template title =
     ''# Profile Enhancement '' @ title @ '' Template for Clash Verge'' @ [newline, newline] @
     ''prepend: []'' @ [newline, newline] @ ''append: []'' @ [newline, newline] @ ''delete: []'' @ [newline]"

definition item_merge_empty :: string where
  "item_merge_empty = ''# Profile Enhancement Merge Template for Clash Verge'' @ [newline, newline]"

definition fragment_item :: "net_env \<Rightarrow> string \<Rightarrow> string \<Rightarrow> string \<Rightarrow> string \<Rightarrow> prf_item" where
  "fragment_item env kind uid extension template =
     empty_item\<lparr>pi_uid := Some uid, pi_type := Some kind, pi_file := Some (uid @ extension),
       pi_updated := Some (ne_now env), pi_file_data := Some template\<rparr>"

definition from_merge :: "net_env \<Rightarrow> prf_item" where
  "from_merge env = fragment_item env ''merge'' (ne_uid env ''m'') ''.yaml'' item_merge_empty"

definition from_script :: "net_env \<Rightarrow> prf_item" where
  "from_script env = fragment_item env ''script'' (ne_uid env ''s'') ''.js'' item_script"

definition from_rules :: "net_env \<Rightarrow> prf_item" where
  "from_rules env = fragment_item env ''rules'' (ne_uid env ''r'') ''.yaml'' (sequence_template ''Rules'')"

definition from_proxies :: "net_env \<Rightarrow> prf_item" where
  "from_proxies env = fragment_item env ''proxies'' (ne_uid env ''p'') ''.yaml'' (sequence_template ''Proxies'')"

definition from_groups :: "net_env \<Rightarrow> prf_item" where
  "from_groups env = fragment_item env ''groups'' (ne_uid env ''g'') ''.yaml'' (sequence_template ''Groups'')"

definition ensure_chain_uid :: "string option \<Rightarrow> prf_item \<Rightarrow> string option \<times> prf_item list" where
  "ensure_chain_uid slot item = (case slot of Some u \<Rightarrow> (Some u, []) | None \<Rightarrow> (pi_uid item, [item]))"

record remote_bundle =
  rb_item :: prf_item
  rb_fragments :: "prf_item list"

definition remote_item ::
  "net_env \<Rightarrow> string \<Rightarrow> string \<Rightarrow> prf_option \<Rightarrow> string \<Rightarrow> (string \<times> string) list \<Rightarrow> prf_item" where
  "remote_item env name url' option' data headers =
     (let uid = ne_uid env ''R'';
          extension = (if is_singbox_json_profile (ne_json env) data then ''.json'' else ''.yaml'')
      in empty_item
           \<lparr>pi_uid := Some uid, pi_type := Some ''remote'', pi_name := Some name, pi_file := Some (uid @ extension),
            pi_url := Some url', pi_extra := parse_subscription_userinfo headers, pi_option := Some option',
            pi_home := map_of headers ''profile-web-page-url'', pi_updated := Some (ne_now env),
            pi_file_data := Some data\<rparr>)"

definition from_url :: "net_env \<Rightarrow> string \<Rightarrow> string option \<Rightarrow> prf_option option \<Rightarrow> (remote_bundle, import_error) result" where
  "from_url env url' name option' =
     rbind (ok_or (ne_fix_url env url') UrlUnfixable) (\<lambda>cleaned.
     rbind (fetch_subscription env cleaned option' (trusted_hosts_allowlist env option')) (\<lambda>(body, headers).
     (let data = strip_bom body; option = unwrap_or option' empty_option in
     rbind (if is_singbox_json_profile (ne_json env) data then Inr []
            else validate_clash_yaml env data) (\<lambda>_.
     (let (merge, f1) = ensure_chain_uid (po_merge option) (from_merge env);
          (script, f2) = ensure_chain_uid (po_script option) (from_script env);
          (rules, f3) = ensure_chain_uid (po_rules option) (from_rules env);
          (proxies, f4) = ensure_chain_uid (po_proxies option) (from_proxies env);
          (groups, f5) = ensure_chain_uid (po_groups option) (from_groups env);
          option = option\<lparr>po_update_interval := resolved_interval option' headers, po_merge := merge,
            po_script := script, po_rules := rules, po_proxies := proxies, po_groups := groups,
            po_allow_auto_update := Some (unwrap_or (po_allow_auto_update option) True)\<rparr>
      in Inr \<lparr>rb_item = remote_item env (unwrap_or name (ne_file_name env cleaned headers)) cleaned option data headers,
              rb_fragments = f1 @ f2 @ f3 @ f4 @ f5\<rparr>)))))"

section \<open>Retries through the proxies\<close>

definition with_proxies :: "bool \<Rightarrow> bool \<Rightarrow> prf_option \<Rightarrow> prf_option" where
  "with_proxies self_proxy with_proxy o' = o'\<lparr>po_self_proxy := Some self_proxy, po_with_proxy := Some with_proxy\<rparr>"

text \<open>The attempts run until one succeeds; the error of the last one is the result.\<close>

fun try_options ::
  "(prf_option \<Rightarrow> (remote_bundle, import_error) result) \<Rightarrow> prf_option \<Rightarrow> prf_option list \<Rightarrow> (remote_bundle, import_error) result"
where
  "try_options attempt o' [] = attempt o'"
| "try_options attempt o' (next' # rest) =
     (case attempt o' of Inr b \<Rightarrow> Inr b | Inl _ \<Rightarrow> try_options attempt next' rest)"

definition import_with_fallback ::
  "net_env \<Rightarrow> string \<Rightarrow> string option \<Rightarrow> prf_option option \<Rightarrow> (remote_bundle, import_error) result" where
  "import_with_fallback env url' name user =
     (let merged = (\<lambda>base. unwrap_or (option_merge (Some base) user) base)
      in try_options (\<lambda>o'. from_url env url' name (Some o'))
           (merged (with_proxies False True empty_option))
           [merged (with_proxies True False empty_option), merged empty_option])"

definition update_with_fallback :: "net_env \<Rightarrow> string \<Rightarrow> prf_option option \<Rightarrow> (remote_bundle, import_error) result" where
  "update_with_fallback env url' option' =
     (let merged = unwrap_or (option_merge option' None) empty_option
      in try_options (\<lambda>o'. from_url env url' None (Some o')) merged
           [with_proxies True False merged, with_proxies False True merged])"

section \<open>The timer\<close>

definition sat_add :: "u64 \<Rightarrow> u64 \<Rightarrow> u64" where
  "sat_add a b = (if a + b < a then - 1 else a + b)"

definition sat_mul :: "u64 \<Rightarrow> u64 \<Rightarrow> u64" where
  "sat_mul a b = (if unat a * unat b < 2 ^ 64 then a * b else - 1)"

definition due_at :: "prf_item \<Rightarrow> u64 option" where
  "due_at item =
     (if pi_type item \<noteq> Some ''remote'' then None
      else Option.bind (pi_option item) (\<lambda>o'.
        if \<not> unwrap_or (po_allow_auto_update o') True then None
        else map_option (\<lambda>minutes. sat_add (of_nat (unwrap_or (pi_updated item) 0)) (sat_mul minutes 60))
               (opt_filter (\<lambda>v. 0 < v) (po_update_interval o'))))"

definition due_remote_uids :: "u64 \<Rightarrow> prf_item list \<Rightarrow> string list" where
  "due_remote_uids now items =
     filter_map (\<lambda>item. Option.bind (due_at item) (\<lambda>at. if at \<le> now then pi_uid item else None)) items"

section \<open>Masks as ranges\<close>

lemma and_high_bits:
  fixes g :: nat
  assumes "g < 2 ^ 16" "k \<le> 16"
  shows "and g (push_bit k (mask (16 - k))) = (g div 2 ^ k) * 2 ^ k"
proof -
  have small: "\<not> bit g n" if "16 \<le> n" for n
  proof -
    have "g < 2 ^ n" using assms(1) that power_increasing [of 16 n "2 :: nat"] by simp
    then show ?thesis by (simp add: bit_iff_odd)
  qed
  have "and g (push_bit k (mask (16 - k))) = push_bit k (drop_bit k g)"
  proof (rule bit_eqI)
    fix n
    show "bit (and g (push_bit k (mask (16 - k)))) n = bit (push_bit k (drop_bit k g)) n"
      using small [of n] assms(2) by (cases "n < 16") (auto simp: bit_simps)
  qed
  then show ?thesis by (simp add: push_bit_eq_mult drop_bit_eq_div)
qed

lemma aligned_range: "(g div m) * m = q * m \<longleftrightarrow> q * m \<le> g \<and> g < q * m + m" if "0 < m" for g m q :: nat
proof -
  have "(g div m) * m = q * m \<longleftrightarrow> g div m = q" using that by simp
  also have "\<dots> \<longleftrightarrow> q * m \<le> g \<and> g < q * m + m"
    using that by (metis add.commute div_nat_eqI div_times_less_eq_dividend dividend_less_div_times mult.commute mult_Suc_right)
  finally show ?thesis .
qed

lemma mask_ula: "g < 65536 \<Longrightarrow> and g 0xFE00 = (0xFC00 :: nat) \<longleftrightarrow> 0xFC00 \<le> g \<and> g \<le> 0xFDFF"
  using and_high_bits [of g 9] aligned_range [of 512 g 126] by (auto simp: push_bit_eq_mult mask_eq_exp_minus_1)

lemma mask_link_local: "g < 65536 \<Longrightarrow> and g 0xFFC0 = (0xFE80 :: nat) \<longleftrightarrow> 0xFE80 \<le> g \<and> g \<le> 0xFEBF"
  using and_high_bits [of g 6] aligned_range [of 64 g 1018] by (auto simp: push_bit_eq_mult mask_eq_exp_minus_1)

section \<open>Public addresses\<close>

text \<open>The addresses the check lets through: no loopback, private, link-local, unique-local or unspecified range.\<close>

fun public_address :: "ip_addr \<Rightarrow> bool" where
  "public_address (IpV4 a b c d) \<longleftrightarrow>
     a \<noteq> 10 \<and> a \<noteq> 127 \<and> \<not> (a = 172 \<and> 16 \<le> b \<and> b \<le> 31) \<and> \<not> (a = 192 \<and> b = 168) \<and> \<not> (a = 169 \<and> b = 254) \<and>
     \<not> (a = 0 \<and> b = 0 \<and> c = 0 \<and> d = 0)"
| "public_address (IpV6 gs) \<longleftrightarrow>
     gs \<noteq> [0, 0, 0, 0, 0, 0, 0, 1] \<and> gs \<noteq> replicate 8 0 \<and>
     \<not> (0xFC00 \<le> seg0 gs \<and> seg0 gs \<le> 0xFDFF) \<and> \<not> (0xFE80 \<le> seg0 gs \<and> seg0 gs \<le> 0xFEBF)"

fun ip_wf :: "ip_addr \<Rightarrow> bool" where
  "ip_wf (IpV4 a b c d) \<longleftrightarrow> a < 256 \<and> b < 256 \<and> c < 256 \<and> d < 256"
| "ip_wf (IpV6 gs) \<longleftrightarrow> length gs = 8 \<and> (\<forall>g \<in> set gs. g < 65536)"

lemma seg0_wf: "ip_wf (IpV6 gs) \<Longrightarrow> seg0 gs < 65536"
  by (cases gs) (simp_all add: seg0_def)

lemma first_range_None: "ip_wf ip \<Longrightarrow> first_range ip = None \<longleftrightarrow> public_address ip"
proof (cases ip)
  case (IpV6 gs)
  assume "ip_wf ip"
  then have "seg0 gs < 65536" using IpV6 seg0_wf by simp
  then show ?thesis
    by (auto simp: IpV6 first_range_def blocked_ranges_def is_private_def find_None_iff mask_ula mask_link_local)
qed (auto simp: first_range_def blocked_ranges_def is_private_def find_None_iff)

lemma check_addresses_Inr: "check_addresses host ips = Inr u \<longleftrightarrow> (\<forall>ip \<in> set ips. first_range ip = None)"
  by (induction host ips rule: check_addresses.induct) (auto split: option.split)

lemma check_addresses_Inl:
  "check_addresses host ips = Inl e \<Longrightarrow> \<exists>ip \<in> set ips. \<exists>label. first_range ip = Some label \<and> e = Blocked host label ip"
  by (induction host ips rule: check_addresses.induct) (auto split: option.split_asm)

section \<open>Properties of the check\<close>

text \<open>What the check relies on of name resolution: an address has octets and groups of their width.\<close>

definition resolver_wf :: "net_env \<Rightarrow> bool" where
  "resolver_wf env \<longleftrightarrow> (\<forall>host addrs. ne_resolve env host = Some addrs \<longrightarrow> (\<forall>ip \<in> set addrs. ip_wf ip))"

text \<open>C23: A URL passes the check exactly when its host is on the allowlist, or the host resolves to at least one
  address and every address it resolves to is outside the loopback, private, link-local, unique-local and
  unspecified ranges. Only an address that was resolved and lies in one of these ranges is reported as blocked, so
  a failed resolution is never offered as a host to trust.\<close>

theorem url_host_check_exact:
  assumes "resolver_wf env"
  shows "(check_url_host env url' allowlist = Inr () \<longleftrightarrow>
      (\<exists>host. extract_host env url' = Inr host \<and>
        (host \<in> set allowlist \<or>
         (\<exists>addrs. ne_resolve env host = Some addrs \<and> addrs \<noteq> [] \<and> (\<forall>ip \<in> set addrs. public_address ip))))) \<and>
    (\<forall>host label ip. check_url_host env url' allowlist = Inl (Blocked host label ip) \<longrightarrow>
      extract_host env url' = Inr host \<and> host \<notin> set allowlist \<and>
      (\<exists>addrs. ne_resolve env host = Some addrs \<and> ip \<in> set addrs \<and> \<not> public_address ip))"
proof -
  have range: "first_range ip = None \<longleftrightarrow> public_address ip"
    if "ne_resolve env host = Some addrs" "ip \<in> set addrs" for host addrs ip
    using assms that by (intro first_range_None) (auto simp: resolver_wf_def)
  have "check_url_host env url' allowlist = Inr () \<longleftrightarrow>
      (\<exists>host. extract_host env url' = Inr host \<and>
        (host \<in> set allowlist \<or>
         (\<exists>addrs. ne_resolve env host = Some addrs \<and> addrs \<noteq> [] \<and> (\<forall>ip \<in> set addrs. public_address ip))))"
    using range unfolding check_url_host_def
    by (cases "extract_host env url'") (auto simp: check_addresses_Inr)
  moreover have "extract_host env url' = Inr host \<and> host \<notin> set allowlist \<and>
      (\<exists>addrs. ne_resolve env host = Some addrs \<and> ip \<in> set addrs \<and> \<not> public_address ip)"
    if blocked: "check_url_host env url' allowlist = Inl (Blocked host label ip)" for host label ip
  proof -
    from blocked obtain h addrs where h: "extract_host env url' = Inr h" "h \<notin> set allowlist"
      "ne_resolve env h = Some addrs" "check_addresses h addrs = Inl (Blocked host label ip)"
      by (auto simp: check_url_host_def extract_host_def rbind_Inl_iff split: if_split_asm)
    from check_addresses_Inl [OF h(4)] have m: "ip \<in> set addrs" "first_range ip \<noteq> None" "host = h" by auto
    then have "\<not> public_address ip" using range [OF h(3) m(1)] by simp
    with h m show ?thesis by auto
  qed
  ultimately show ?thesis by blast
qed

definition sample_net :: net_env where
  "sample_net =
     \<lparr>ne_url = (\<lambda>_. Some \<lparr>url_scheme = ''https'', url_username = [], url_password = None, url_host = Some ''h'',
        url_port = None, url_path = ''/s'', url_query = None\<rparr>),
      ne_fix_url = Some, ne_resolve = (\<lambda>_. Some [IpV4 93 184 216 34, IpV4 10 0 0 1]),
      ne_request = (\<lambda>_ _. Some (''body'', [])), ne_user_agent = ''agent'', ne_mixed_port = 7897,
      ne_mapping = (\<lambda>_. Some [(YStr ''proxies'', YSeq [])]), ne_json = single_document_io JNull,
      ne_file_name = (\<lambda>_ _. ''file''), ne_uid = (\<lambda>p. p @ ''1''), ne_now = 1000\<rparr>"

theorem url_host_check_exact_witness:
  "check_url_host sample_net ''https://h/s'' [] \<noteq> Inr () \<and> check_url_host sample_net ''https://h/s'' [''h''] = Inr ()"
proof -
  have wf: "resolver_wf sample_net" by (auto simp: resolver_wf_def sample_net_def)
  show ?thesis
    using url_host_check_exact [OF wf, of "''https://h/s''" "[]"] url_host_check_exact [OF wf, of "''https://h/s''" "[''h'']"]
    by (auto simp: sample_net_def extract_host_def)
qed

text \<open>The IPv6 form of an IPv4 address.\<close>

definition mapped_v4 :: "nat \<Rightarrow> nat \<Rightarrow> nat \<Rightarrow> nat \<Rightarrow> ip_addr" where
  "mapped_v4 a b c d = IpV6 [0, 0, 0, 0, 0, 0xFFFF, a * 256 + b, c * 256 + d]"

lemma mapped_first_range: "first_range (mapped_v4 a b c d) = None"
proof -
  have "replicate 8 0 = [0, 0, 0, 0, 0, 0, 0, 0 :: nat]" by (simp add: numeral_eq_Suc)
  then show ?thesis by (simp add: mapped_v4_def first_range_def blocked_ranges_def is_private_def seg0_def)
qed

lemma loopback_first_range: "first_range (IpV4 127 0 0 1) = Some ''loopback''"
  by (simp add: first_range_def blocked_ranges_def)

text \<open>The check does not look into IPv4-mapped addresses: a host that resolves only to the IPv6 form of an IPv4
  address passes with an empty allowlist, also when the IPv4 address itself is refused, as for
  the loopback address 127.0.0.1.\<close>

theorem mapped_addresses_pass:
  assumes "extract_host env url' = Inr host" "ne_resolve env host = Some [mapped_v4 a b c d]"
  shows "check_url_host env url' [] = Inr () \<and> first_range (IpV4 127 0 0 1) = Some ''loopback''"
  using assms mapped_first_range loopback_first_range by (auto simp: check_url_host_def)

theorem mapped_addresses_pass_witness:
  "check_url_host (sample_net\<lparr>ne_resolve := \<lambda>_. Some [mapped_v4 127 0 0 1]\<rparr>) ''https://h/s'' [] = Inr ()"
  using mapped_addresses_pass [of "sample_net\<lparr>ne_resolve := \<lambda>_. Some [mapped_v4 127 0 0 1]\<rparr>" "''https://h/s''" "''h''"]
  by (simp add: sample_net_def extract_host_def)

section \<open>Properties of an import\<close>

definition chain_slots :: "prf_option \<Rightarrow> string option list" where
  "chain_slots o' = [po_merge o', po_script o', po_rules o', po_proxies o', po_groups o']"

text \<open>The uids of the slots a fetch has filled.\<close>

definition filled_slots :: "prf_option \<Rightarrow> prf_option \<Rightarrow> string option list" where
  "filled_slots old new = map snd (filter (\<lambda>(o', n). o' = None) (zip (chain_slots old) (chain_slots new)))"

text \<open>
  A bundle that was fetched under an option. Its URL passed the check with the hosts the option trusts, and its
  body and headers are the answer to the request for exactly this URL, without its user name and password, which go
  to the header; the request has the timeout, the user agent and the certificate setting of the option and goes
  through the proxy the stored option names. The body is stored under the URL it came from, and it is a configuration.
  The stored option has the trust of the option, and the chain is complete with one new fragment per missing slot.
\<close>

definition answered_with :: "net_env \<Rightarrow> string \<Rightarrow> prf_option \<Rightarrow> prf_option \<Rightarrow> string \<Rightarrow> (string \<times> string) list \<Rightarrow> bool" where
  "answered_with env cleaned o' new body headers \<longleftrightarrow>
     (\<exists>parsed. ne_url env cleaned = Some parsed \<and>
        ne_request env (without_userinfo parsed)
          \<lparr>fr_mode = proxy_mode_from_option (ne_mixed_port env) (Some new),
           fr_timeout = unwrap_or (po_timeout_seconds o') 20,
           fr_accept_invalid = unwrap_or (po_danger_accept_invalid_certs o') False,
           fr_user_agent = subscription_user_agent env (Some o'),
           fr_auth = request_auth parsed\<rparr> = Some (body, headers))"

definition stored_answer :: "net_env \<Rightarrow> string \<Rightarrow> string \<Rightarrow> (string \<times> string) list \<Rightarrow> prf_item \<Rightarrow> bool" where
  "stored_answer env cleaned body headers item \<longleftrightarrow>
     pi_url item = Some cleaned \<and> pi_file_data item = Some (strip_bom body) \<and>
     pi_extra item = parse_subscription_userinfo headers \<and>
     (is_singbox_json_profile (ne_json env) (strip_bom body) \<or>
      (\<exists>m. ne_mapping env (strip_bom body) = Some m \<and>
         (ymap_get m ''proxies'' \<noteq> None \<or> ymap_get m ''proxy-providers'' \<noteq> None)))"

definition fetched_under :: "net_env \<Rightarrow> string \<Rightarrow> prf_option \<Rightarrow> remote_bundle \<Rightarrow> bool" where
  "fetched_under env url' o' b \<longleftrightarrow>
     (\<exists>cleaned new body headers. ne_fix_url env url' = Some cleaned \<and>
        check_url_host env cleaned (trusted_hosts_allowlist env (Some o')) = Inr () \<and>
        answered_with env cleaned o' new body headers \<and>
        stored_answer env cleaned body headers (rb_item b) \<and>
        pi_option (rb_item b) = Some new \<and>
        po_trusted_hosts new = po_trusted_hosts o' \<and>
        po_danger_accept_invalid_certs new = po_danger_accept_invalid_certs o' \<and>
        None \<notin> set (chain_slots new) \<and>
        list_all2 (\<lambda>old n. old \<noteq> None \<longrightarrow> n = old) (chain_slots o') (chain_slots new) \<and>
        map pi_uid (rb_fragments b) = filled_slots o' new)"

lemma ensure_chain_uid_Some:
  "ensure_chain_uid slot (fragment_item env kind uid ext template) =
     (Some (unwrap_or slot uid), if slot = None then [fragment_item env kind uid ext template] else [])"
  by (auto simp: ensure_chain_uid_def fragment_item_def split: option.split)

lemma fragment_item_uid [simp]: "pi_uid (fragment_item env kind uid ext template) = Some uid"
  by (simp add: fragment_item_def)

lemma from_url_fetched:
  assumes "from_url env url' name (Some o') = Inr b"
  shows "fetched_under env url' o' b"
proof -
  from assms obtain cleaned body headers where c: "ne_fix_url env url' = Some cleaned"
    "fetch_subscription env cleaned (Some o') (trusted_hosts_allowlist env (Some o')) = Inr (body, headers)"
    by (auto simp: from_url_def)
  have check: "check_url_host env cleaned (trusted_hosts_allowlist env (Some o')) = Inr ()"
    using c(2) by (simp add: fetch_subscription_def)
  have body: "is_singbox_json_profile (ne_json env) (strip_bom body) \<or> (\<exists>m. validate_clash_yaml env (strip_bom body) = Inr m)"
    using assms c by (cases "is_singbox_json_profile (ne_json env) (strip_bom body)") (auto simp: from_url_def Let_def)
  define new where "new = o'\<lparr>po_update_interval := resolved_interval (Some o') headers,
     po_merge := Some (unwrap_or (po_merge o') (ne_uid env ''m'')), po_script := Some (unwrap_or (po_script o') (ne_uid env ''s'')),
     po_rules := Some (unwrap_or (po_rules o') (ne_uid env ''r'')), po_proxies := Some (unwrap_or (po_proxies o') (ne_uid env ''p'')),
     po_groups := Some (unwrap_or (po_groups o') (ne_uid env ''g'')),
     po_allow_auto_update := Some (unwrap_or (po_allow_auto_update o') True)\<rparr>"
  have fragments: "map pi_uid (rb_fragments b) = filled_slots o' new"
    using assms c unfolding from_url_def
    by (auto simp: Let_def ensure_chain_uid_Some from_merge_def from_script_def from_rules_def from_proxies_def
        from_groups_def filled_slots_def chain_slots_def new_def)
  have item: "pi_url (rb_item b) = Some cleaned" "pi_option (rb_item b) = Some new"
    "pi_file_data (rb_item b) = Some (strip_bom body)" "pi_extra (rb_item b) = parse_subscription_userinfo headers"
    using assms c unfolding from_url_def
    by (auto simp: Let_def ensure_chain_uid_Some from_merge_def from_script_def from_rules_def from_proxies_def
        from_groups_def new_def remote_item_def)
  have answer: "answered_with env cleaned o' new body headers"
    using c(2) by (auto simp: fetch_subscription_def answered_with_def proxy_mode_from_option_def new_def)
  have stored: "stored_answer env cleaned body headers (rb_item b)"
    using item body by (auto simp: stored_answer_def validate_clash_yaml_def)
  show ?thesis unfolding fetched_under_def
    using c(1) check item(2) fragments answer stored
    by (intro exI [of _ cleaned] exI [of _ new] exI [of _ body] exI [of _ headers]) (auto simp: new_def chain_slots_def)
qed

lemma try_options_Inr:
  "try_options attempt o' rest = Inr b \<Longrightarrow> \<exists>x \<in> set (o' # rest). attempt x = Inr b"
  by (induction attempt o' rest rule: try_options.induct) (auto split: sum.split_asm)

lemma fetched_under_same_trust:
  assumes "fetched_under env url' o1 b" "po_trusted_hosts o1 = po_trusted_hosts o2"
    and "po_danger_accept_invalid_certs o1 = po_danger_accept_invalid_certs o2" "chain_slots o1 = chain_slots o2"
    and "po_timeout_seconds o1 = po_timeout_seconds o2" "po_user_agent o1 = po_user_agent o2"
  shows "fetched_under env url' o2 b"
  using assms by (simp add: fetched_under_def answered_with_def trusted_hosts_allowlist_def filled_slots_def subscription_user_agent_def)

lemma with_proxies_trust [simp]:
  "po_trusted_hosts (with_proxies s w o') = po_trusted_hosts o'"
  "po_danger_accept_invalid_certs (with_proxies s w o') = po_danger_accept_invalid_certs o'"
  "chain_slots (with_proxies s w o') = chain_slots o'"
  "po_timeout_seconds (with_proxies s w o') = po_timeout_seconds o'"
  "po_user_agent (with_proxies s w o') = po_user_agent o'"
  by (simp_all add: with_proxies_def chain_slots_def)

lemma or_else_None [simp]: "or_else x None = x"
  by (cases x) (simp_all add: or_else_def)

lemma merged_import_trust:
  fixes user :: "prf_option option"
  assumes "base \<in> {with_proxies False True empty_option, with_proxies True False empty_option, empty_option}"
  defines "m \<equiv> unwrap_or (option_merge (Some base) user) base"
  shows "po_trusted_hosts m = po_trusted_hosts (unwrap_or user empty_option)"
    "po_danger_accept_invalid_certs m = po_danger_accept_invalid_certs (unwrap_or user empty_option)"
    "chain_slots m = chain_slots (unwrap_or user empty_option)"
    "po_timeout_seconds m = po_timeout_seconds (unwrap_or user empty_option)"
    "po_user_agent m = po_user_agent (unwrap_or user empty_option)"
  using assms by (cases user; auto simp: option_merge_def overlay_option_def with_proxies_def empty_option_def chain_slots_def)+

lemma import_fetched:
  assumes "import_with_fallback env url' name user = Inr b"
  shows "fetched_under env url' (unwrap_or user empty_option) b"
proof -
  let ?m = "\<lambda>base. unwrap_or (option_merge (Some base) user) base"
  from assms have "try_options (\<lambda>o'. from_url env url' name (Some o')) (?m (with_proxies False True empty_option))
      [?m (with_proxies True False empty_option), ?m empty_option] = Inr b"
    by (simp only: import_with_fallback_def Let_def)
  from try_options_Inr [OF this] obtain base where base: "base \<in> {with_proxies False True empty_option, with_proxies True False empty_option, empty_option}"
    "from_url env url' name (Some (unwrap_or (option_merge (Some base) user) base)) = Inr b"
    by auto
  from fetched_under_same_trust [OF from_url_fetched [OF base(2)] merged_import_trust [OF base(1)]]
  show "fetched_under env url' (unwrap_or user empty_option) b" .
qed

lemma update_fetched:
  assumes "update_with_fallback env url' user = Inr b"
  shows "fetched_under env url' (unwrap_or user empty_option) b"
proof -
  let ?o = "unwrap_or user empty_option"
  have "unwrap_or (option_merge user None) empty_option = ?o" by (cases user) (simp_all add: option_merge_def)
  with assms have "try_options (\<lambda>o'. from_url env url' None (Some o')) ?o
      [with_proxies True False ?o, with_proxies False True ?o] = Inr b"
    by (simp only: update_with_fallback_def Let_def)
  from try_options_Inr [OF this] obtain x where x: "x \<in> {unwrap_or user empty_option, with_proxies True False (unwrap_or user empty_option),
      with_proxies False True (unwrap_or user empty_option)}" "from_url env url' None (Some x) = Inr b"
    by auto
  from x(1) show "fetched_under env url' (unwrap_or user empty_option) b"
    by (intro fetched_under_same_trust [OF from_url_fetched [OF x(2)]]) auto
qed

text \<open>C20: However a subscription is imported or updated, through whichever proxy, the URL that is requested is the
  caller's, repaired and without its user name and password, and it passed the host check with the hosts the caller's
  option trusts and no others; the request carries the timeout, the user agent, the certificate setting and the
  credentials it should, and the stored profile has this URL, the body that was answered, the traffic figures of
  its headers and the same trust and certificate settings. The body is a sing-box document or a mapping with proxies or
  providers, and the enhancement chain is complete: slots of the caller are kept, and there is one new fragment for
  every slot that was missing. The check is of the requested URL: redirects are followed by the client.\<close>

theorem fetched_profiles_are_checked:
  "(import_with_fallback env url' name user = Inr b \<longrightarrow> fetched_under env url' (unwrap_or user empty_option) b) \<and>
   (update_with_fallback env url' user = Inr b \<longrightarrow> fetched_under env url' (unwrap_or user empty_option) b)"
  by (intro conjI impI import_fetched update_fetched)

lemma from_url_keeps_proxies:
  fixes o' :: prf_option
  assumes "from_url env url' name (Some o') = Inr b"
  shows "\<exists>new. pi_option (rb_item b) = Some new \<and> po_self_proxy new = po_self_proxy o' \<and> po_with_proxy new = po_with_proxy o'"
proof -
  obtain cleaned body headers where "ne_fix_url env url' = Some cleaned"
    "fetch_subscription env cleaned (Some o') (trusted_hosts_allowlist env (Some o')) = Inr (body, headers)"
    using assms by (auto simp: from_url_def)
  with assms show ?thesis
    unfolding from_url_def
    by (auto simp: Let_def ensure_chain_uid_Some from_merge_def from_script_def from_rules_def from_proxies_def
        from_groups_def remote_item_def)
qed

text \<open>
  A retry that succeeds through the core's own port becomes the stored setting of the profile, whatever the
  profile asked for.
\<close>

lemma retry_proxy_is_stored:
  assumes "from_url env url' None (Some (unwrap_or user empty_option)) = Inl e"
    and "from_url env url' None (Some (with_proxies True False (unwrap_or user empty_option))) = Inr b"
  shows "update_with_fallback env url' user = Inr b \<and>
    (\<exists>new. pi_option (rb_item b) = Some new \<and> po_self_proxy new = Some True \<and> po_with_proxy new = Some False)"
proof -
  have "unwrap_or (option_merge user None) empty_option = unwrap_or user empty_option"
    by (cases user) (simp_all add: option_merge_def)
  with assms from_url_keeps_proxies [OF assms(2)] show ?thesis
    by (auto simp: update_with_fallback_def with_proxies_def)
qed

lemma sample_net_no_json: "\<not> is_singbox_json_profile (ne_json sample_net) s"
  by (simp add: is_singbox_json_profile_def sample_net_def single_document_io_def is_some_and_def get_array_def)

lemma sample_import:
  "\<exists>b. from_url sample_net ''u'' None (Some (with_proxies False True (empty_option\<lparr>po_trusted_hosts := Some [''h'']\<rparr>))) = Inr b"
proof -
  have n: "normalize_trusted_host sample_net ''h'' = Some ''h''"
  proof -
    have "trim ''h'' = ''h''" by (rule trim_id_ends) (simp_all add: ascii_ws_def unicode_ws_def)
    then show ?thesis by (simp add: normalize_trusted_host_def sample_net_def)
  qed
  have "fetch_subscription sample_net ''u'' (Some (with_proxies False True (empty_option\<lparr>po_trusted_hosts := Some [''h'']\<rparr>)))
      [''h''] = Inr (''body'', [])"
    by (simp add: fetch_subscription_def check_url_host_def extract_host_def) (simp add: sample_net_def)
  moreover have "trusted_hosts_allowlist sample_net
      (Some (with_proxies False True (empty_option\<lparr>po_trusted_hosts := Some [''h'']\<rparr>))) = [''h'']"
    by (simp add: trusted_hosts_allowlist_def n)
  moreover have "ne_fix_url sample_net ''u'' = Some ''u''" "ne_mapping sample_net s = Some [(YStr ''proxies'', YSeq [])]" for s
    by (simp_all add: sample_net_def)
  ultimately show ?thesis
    by (simp add: from_url_def Let_def sample_net_no_json validate_clash_yaml_def case_prod_beta')
qed

theorem fetched_profiles_are_checked_witness:
  "\<exists>b. fetched_under sample_net ''u'' (empty_option\<lparr>po_trusted_hosts := Some [''h'']\<rparr>) b"
proof -
  obtain b where "from_url sample_net ''u'' None (Some (with_proxies False True (empty_option\<lparr>po_trusted_hosts := Some [''h'']\<rparr>))) = Inr b"
    using sample_import by blast
  then have "import_with_fallback sample_net ''u'' None (Some (empty_option\<lparr>po_trusted_hosts := Some [''h'']\<rparr>)) = Inr b"
    by (simp add: import_with_fallback_def Let_def option_merge_def overlay_option_def empty_option_def with_proxies_def
        merge_unknown_fields_def)
  with fetched_profiles_are_checked show ?thesis by fastforce
qed

section \<open>Properties of the timer\<close>

lemma unat_max_u64: "unat (- 1 :: u64) = 2 ^ 64 - 1"
  by (simp add: unsigned_minus_1_eq_mask mask_eq_exp_minus_1)

lemma unat_u64_bound: "unat (w :: u64) < 2 ^ 64"
  by (rule order_less_le_trans, rule unsigned_less) simp

lemma unat_sat_add: "unat (sat_add a b) = min (2 ^ 64 - 1) (unat a + unat b)"
proof (cases "unat a + unat b < 2 ^ 64")
  case True
  then have "unat (a + b) = unat a + unat b" by (simp add: unat_word_ariths)
  with True show ?thesis by (simp add: sat_add_def word_less_nat_alt)
next
  case False
  have "unat b < 2 ^ 64" by (rule unat_u64_bound)
  then have "unat (a + b) = unat a + unat b - 2 ^ 64" "unat a < 2 ^ 64"
    using False unat_u64_bound [of a] by (simp_all add: unat_word_ariths mod_if)
  then have "a + b < a" using False \<open>unat b < 2 ^ 64\<close> by (simp add: word_less_nat_alt)
  with False show ?thesis by (simp add: sat_add_def unat_max_u64)
qed

lemma unat_sat_mul: "unat (sat_mul a b) = min (2 ^ 64 - 1) (unat a * unat b)"
  by (auto simp: sat_mul_def unat_max_u64 unat_word_ariths)

text \<open>The timer never wraps: the next refresh of a remote profile is due its stored time plus its interval, capped
  at the largest 64-bit time, whatever the interval and the stored time are; and a profile is listed exactly when it
  is remote, its automatic updates are on, its interval is not zero and that time has passed.\<close>

theorem due_time_saturates:
  assumes "unwrap_or (pi_updated item) 0 < 2 ^ 64" "pi_uid item = Some uid"
  shows "uid \<in> set (due_remote_uids now [item]) \<longleftrightarrow>
    pi_type item = Some ''remote'' \<and>
    (\<exists>o' minutes. pi_option item = Some o' \<and> po_allow_auto_update o' \<noteq> Some False \<and>
      po_update_interval o' = Some minutes \<and> minutes \<noteq> 0 \<and>
      min (2 ^ 64 - 1) (unwrap_or (pi_updated item) 0 + unat minutes * 60) \<le> unat now)"
proof -
  let ?t = "of_nat (unwrap_or (pi_updated item) 0) :: u64"
  have t: "unat ?t = unwrap_or (pi_updated item) 0" using assms(1) by (simp add: unat_of_nat)
  have due: "sat_add ?t (sat_mul m 60) \<le> now \<longleftrightarrow>
      min (2 ^ 64 - 1) (unwrap_or (pi_updated item) 0 + unat m * 60) \<le> unat now" for m
    unfolding word_le_nat_alt unat_sat_add unat_sat_mul t by auto
  have auto_on: "unwrap_or (po_allow_auto_update o') True \<longleftrightarrow> po_allow_auto_update o' \<noteq> Some False" for o'
    by (cases "po_allow_auto_update o'") auto
  show ?thesis
    using due assms(2)
    by (cases "pi_option item"; cases "po_update_interval (the (pi_option item))")
       (auto simp: due_remote_uids_def due_at_def auto_on opt_filter_def word_neq_0_conv split: if_split_asm)
qed

definition due_item :: prf_item where
  "due_item = empty_item\<lparr>pi_uid := Some ''R1'', pi_type := Some ''remote'', pi_updated := Some 1000,
     pi_option := Some (empty_option\<lparr>po_update_interval := Some (- 1)\<rparr>)\<rparr>"

theorem due_time_saturates_witness: "''R1'' \<notin> set (due_remote_uids 5000 [due_item])"
  using due_time_saturates [of due_item "''R1''" 5000]
  by (simp add: due_item_def empty_item_def empty_option_def unat_max_u64)

text \<open>The interval a server asks for is multiplied in 64 bits: a huge number of hours becomes a short interval.\<close>

lemma server_interval_wraps:
  "resolved_interval None [(''profile-update-interval'', ''307445734561825861'')] = Some 44"
  by (simp add: resolved_interval_def parse_unsigned_def digit_val_def opt_filter_def or_else_def)

end
