(* ===== verification/Profiles.thy ===== *)
theory Profiles
  imports Subscribe
begin

text \<open>
  The store of profiles: \<open>IProfiles\<close> of \<open>crates/clash-verge-core/src/config/profiles.rs\<close> and
  \<open>ProfileStore\<close> of \<open>src-tui/src/profile_store/store.rs\<close>. The state is the in-memory list and the disk:
  \<open>profiles.yaml\<close> as the value it holds, and the bodies by the name that is joined to the profiles directory.
  An operation returns its result with the state it leaves, also when it fails, because the memory of a
  failed step is what a later step saves. The operations of the store hold one lock, so a run of the
  application is a sequence of them.
\<close>

section \<open>State\<close>

record iprofiles =
  ip_current :: "string option"
  ip_items :: "prf_item list option"
  ip_extra :: ymapping

datatype profiles_file = NoProfiles | UnreadableProfiles | StoredProfiles iprofiles

record profile_disk =
  pd_profiles :: profiles_file
  pd_bodies :: "string \<Rightarrow> string option"

record profile_store =
  ps_mem :: iprofiles
  ps_disk :: profile_disk

datatype prf_error =
    UidIsNull
  | FileNotSingle
  | FileIsNull
  | BodyNotWritten string
  | ProfilesNotSaved
  | ProfilesNotLoaded
  | ItemNotFound string
  | NotRemote string
  | UrlMissing string
  | UpdateFailed import_error
  | HostNotNormal string
  | NoStorage
  | UpdatesFailed "(string \<times> prf_error) list"

text \<open>
  What the environment decides: the network when the profile with a uid is updated (the empty uid for an
  import), the random uid of the n-th item without one, whether \<open>profiles.yaml\<close> can be replaced by a
  value, whether a body can be written and what a failed write leaves, whether a body can be removed, and
  whether the directories exist.
\<close>

record store_env =
  st_net :: "string \<Rightarrow> net_env"
  st_fill_uid :: "nat \<Rightarrow> string"
  st_saves :: "iprofiles \<Rightarrow> bool"
  st_writes :: "string \<Rightarrow> string \<Rightarrow> bool"
  st_partial :: "string \<Rightarrow> string \<Rightarrow> string option \<Rightarrow> string option"
  st_removes :: "string \<Rightarrow> bool"
  st_storage :: bool

section \<open>Effects\<close>

type_synonym 'a store_op = "profile_store \<Rightarrow> ('a, prf_error) result \<times> profile_store"

definition lift_result :: "('a, prf_error) result \<Rightarrow> 'a store_op" where
  "lift_result r s = (r, s)"

definition sbind :: "'a store_op \<Rightarrow> ('a \<Rightarrow> 'b store_op) \<Rightarrow> 'b store_op" where
  "sbind m k s = (case m s of (Inl e, s') \<Rightarrow> (Inl e, s') | (Inr x, s') \<Rightarrow> k x s')"

definition modify :: "(iprofiles \<Rightarrow> iprofiles) \<Rightarrow> unit store_op" where
  "modify f s = (Inr (), s\<lparr>ps_mem := f (ps_mem s)\<rparr>)"

fun sfor :: "('a \<Rightarrow> unit store_op) \<Rightarrow> 'a list \<Rightarrow> unit store_op" where
  "sfor f [] = lift_result (Inr ())"
| "sfor f (x # xs) = sbind (f x) (\<lambda>_. sfor f xs)"

definition put_body :: "string \<Rightarrow> string option \<Rightarrow> profile_disk \<Rightarrow> profile_disk" where
  "put_body name content d = d\<lparr>pd_bodies := (pd_bodies d)(name := content)\<rparr>"

definition write_body :: "store_env \<Rightarrow> string \<Rightarrow> string \<Rightarrow> unit store_op" where
  "write_body env name data s =
     (if st_writes env name data
      then (Inr (), s\<lparr>ps_disk := put_body name (Some data) (ps_disk s)\<rparr>)
      else (Inl (BodyNotWritten name),
            s\<lparr>ps_disk := put_body name (st_partial env name data (pd_bodies (ps_disk s) name)) (ps_disk s)\<rparr>))"

text \<open>The result of removing a body is ignored.\<close>

definition remove_body :: "store_env \<Rightarrow> string \<Rightarrow> unit store_op" where
  "remove_body env name s =
     (Inr (), if st_removes env name then s\<lparr>ps_disk := put_body name None (ps_disk s)\<rparr> else s)"

section \<open>Loading and saving\<close>

definition items_of :: "iprofiles \<Rightarrow> prf_item list" where
  "items_of p = unwrap_or (ip_items p) []"

definition fill_uids :: "(nat \<Rightarrow> string) \<Rightarrow> prf_item list \<Rightarrow> prf_item list" where
  "fill_uids gen items =
     map (\<lambda>(i, item). if pi_uid item = None then item\<lparr>pi_uid := Some (gen i)\<rparr> else item) (enumerate 0 items)"

definition iprofiles_new :: "store_env \<Rightarrow> profile_disk \<Rightarrow> (iprofiles, prf_error) result" where
  "iprofiles_new env d =
     (case pd_profiles d of
        NoProfiles \<Rightarrow> Inr \<lparr>ip_current = None, ip_items = None, ip_extra = []\<rparr>
      | UnreadableProfiles \<Rightarrow> Inl ProfilesNotLoaded
      | StoredProfiles p \<Rightarrow> Inr (p\<lparr>ip_items := Some (fill_uids (st_fill_uid env) (items_of p))\<rparr>))"

text \<open>What reading the saved text gives: the body text is skipped, a missing \<open>allow_auto_update\<close> reads as true.\<close>

definition stored_item :: "prf_item \<Rightarrow> prf_item" where
  "stored_item item =
     item\<lparr>pi_file_data := None,
       pi_option := map_option (\<lambda>o'. o'\<lparr>po_allow_auto_update := Some (unwrap_or (po_allow_auto_update o') True)\<rparr>)
         (pi_option item)\<rparr>"

definition stored_profiles :: "iprofiles \<Rightarrow> iprofiles" where
  "stored_profiles p = p\<lparr>ip_items := map_option (map stored_item) (ip_items p)\<rparr>"

definition save_file :: "store_env \<Rightarrow> unit store_op" where
  "save_file env s =
     (if st_saves env (ps_mem s)
      then (Inr (), s\<lparr>ps_disk := (ps_disk s)\<lparr>pd_profiles := StoredProfiles (stored_profiles (ps_mem s))\<rparr>\<rparr>)
      else (Inl ProfilesNotSaved, s))"

section \<open>Items\<close>

definition has_uid :: "string \<Rightarrow> prf_item \<Rightarrow> bool" where
  "has_uid uid item \<longleftrightarrow> pi_uid item = Some uid"

definition get_item :: "iprofiles \<Rightarrow> string \<Rightarrow> (prf_item, prf_error) result" where
  "get_item p uid = ok_or (find (has_uid uid) (items_of p)) (ItemNotFound uid)"

fun update_first :: "('a \<Rightarrow> bool) \<Rightarrow> ('a \<Rightarrow> 'a) \<Rightarrow> 'a list \<Rightarrow> 'a list" where
  "update_first P f [] = []"
| "update_first P f (x # xs) = (if P x then f x # xs else x # update_first P f xs)"

definition put_item :: "string \<Rightarrow> prf_item \<Rightarrow> iprofiles \<Rightarrow> iprofiles" where
  "put_item uid item p = p\<lparr>ip_items := Some (update_first (has_uid uid) (\<lambda>_. item) (items_of p))\<rparr>"

text \<open>\<open>Path::components\<close> of a name without separators is one normal component unless it is a dot name.\<close>

definition single_filename :: "string \<Rightarrow> bool" where
  "single_filename name \<longleftrightarrow>
     name \<noteq> [] \<and> CHR ''/'' \<notin> set name \<and> CHR 0x5C \<notin> set name \<and> name \<noteq> ''.'' \<and> name \<noteq> ''..''"

definition validate_profile_file :: "string \<Rightarrow> (unit, prf_error) result" where
  "validate_profile_file name = guard (single_filename name) FileNotSingle"

definition check_item_file :: "prf_item \<Rightarrow> (unit, prf_error) result" where
  "check_item_file item = (case pi_file item of None \<Rightarrow> Inr () | Some name \<Rightarrow> validate_profile_file name)"

definition patch_current :: "string \<Rightarrow> iprofiles \<Rightarrow> iprofiles" where
  "patch_current uid p =
     (let p = p\<lparr>ip_items := Some (items_of p)\<rparr> in
      if \<exists>item \<in> set (items_of p). has_uid uid item then p\<lparr>ip_current := Some uid\<rparr> else p)"

definition is_selectable :: "prf_item \<Rightarrow> bool" where
  "is_selectable item \<longleftrightarrow> pi_type item = Some ''remote'' \<or> pi_type item = Some ''local''"

definition push_item :: "prf_item \<Rightarrow> iprofiles \<Rightarrow> iprofiles" where
  "push_item item p =
     p\<lparr>ip_current := (if ip_current p = None \<and> is_selectable item then pi_uid item else ip_current p),
       ip_items := Some (items_of p @ [item\<lparr>pi_file_data := None\<rparr>])\<rparr>"

definition write_item_body :: "store_env \<Rightarrow> prf_item \<Rightarrow> unit store_op" where
  "write_item_body env item =
     (case pi_file_data item of
        None \<Rightarrow> lift_result (Inr ())
      | Some data \<Rightarrow>
          (case pi_file item of None \<Rightarrow> lift_result (Inl FileIsNull) | Some name \<Rightarrow> write_body env name data))"

definition append_item :: "store_env \<Rightarrow> prf_item \<Rightarrow> unit store_op" where
  "append_item env item =
     sbind (lift_result (guard (pi_uid item \<noteq> None) UidIsNull)) (\<lambda>_.
     sbind (lift_result (check_item_file item)) (\<lambda>_.
     sbind (write_item_body env item) (\<lambda>_.
     sbind (modify (push_item item)) (\<lambda>_. save_file env))))"

definition merged_extra :: "prf_extra option \<Rightarrow> prf_extra \<Rightarrow> prf_extra" where
  "merged_extra current updated =
     (case current of
        None \<Rightarrow> updated
      | Some c \<Rightarrow> updated\<lparr>pe_unknown := merge_unknown_fields (pe_unknown c) (pe_unknown updated)\<rparr>)"

definition patch_fields :: "prf_item \<Rightarrow> prf_item \<Rightarrow> prf_item" where
  "patch_fields patch each =
     each\<lparr>pi_type := or_else (pi_type patch) (pi_type each), pi_name := or_else (pi_name patch) (pi_name each),
       pi_desc := or_else (pi_desc patch) (pi_desc each), pi_file := or_else (pi_file patch) (pi_file each),
       pi_url := or_else (pi_url patch) (pi_url each), pi_selected := or_else (pi_selected patch) (pi_selected each),
       pi_extra := or_else (map_option (merged_extra (pi_extra each)) (pi_extra patch)) (pi_extra each),
       pi_updated := or_else (pi_updated patch) (pi_updated each),
       pi_option := (case pi_option patch of None \<Rightarrow> pi_option each | Some o' \<Rightarrow> option_merge (pi_option each) (Some o')),
       pi_unknown := merge_unknown_fields (pi_unknown each) (pi_unknown patch)\<rparr>"

definition patch_item :: "store_env \<Rightarrow> string \<Rightarrow> prf_item \<Rightarrow> unit store_op" where
  "patch_item env uid patch =
     sbind (lift_result (check_item_file patch)) (\<lambda>_.
     sbind (modify (\<lambda>p. p\<lparr>ip_items := Some (items_of p)\<rparr>)) (\<lambda>_ s.
       (case get_item (ps_mem s) uid of
          Inl e \<Rightarrow> (Inl e, s)
        | Inr each \<Rightarrow> sbind (modify (put_item uid (patch_fields patch each))) (\<lambda>_. save_file env) s)))"

text \<open>The fields a refresh replaces; the body comes after them.\<close>

definition refreshed_item :: "prf_item \<Rightarrow> prf_item \<Rightarrow> prf_item" where
  "refreshed_item item each =
     each\<lparr>pi_extra := map_option (merged_extra (pi_extra each)) (pi_extra item), pi_updated := pi_updated item,
       pi_home := pi_home item, pi_option := option_merge (pi_option each) (pi_option item)\<rparr>"

definition body_name :: "string \<Rightarrow> prf_item \<Rightarrow> prf_item \<Rightarrow> string" where
  "body_name uid item each = unwrap_or (or_else (pi_file each) (pi_file item)) (uid @ ''.yaml'')"

definition refresh_each :: "store_env \<Rightarrow> string \<Rightarrow> prf_item \<Rightarrow> prf_item \<Rightarrow> unit store_op" where
  "refresh_each env uid item each =
     (let each' = refreshed_item item each in
      case pi_file_data item of
        None \<Rightarrow> modify (put_item uid each')
      | Some data \<Rightarrow>
          (let name = body_name uid item each in
           sbind (modify (put_item uid (each'\<lparr>pi_file := None\<rparr>))) (\<lambda>_.
           sbind (lift_result (validate_profile_file name)) (\<lambda>_.
           sbind (modify (put_item uid (each'\<lparr>pi_file := Some name\<rparr>))) (\<lambda>_. write_body env name data)))))"

definition update_item :: "store_env \<Rightarrow> string \<Rightarrow> prf_item \<Rightarrow> unit store_op" where
  "update_item env uid item =
     sbind (modify (\<lambda>p. p\<lparr>ip_items := Some (items_of p)\<rparr>)) (\<lambda>_ s.
       (case get_item (ps_mem s) uid of
          Inl e \<Rightarrow> (Inl e, s)
        | Inr each \<Rightarrow> sbind (refresh_each env uid item each) (\<lambda>_. save_file env) s))"

section \<open>Deleting\<close>

fun take_first :: "('a \<Rightarrow> bool) \<Rightarrow> 'a list \<Rightarrow> ('a \<times> 'a list) option" where
  "take_first P [] = None"
| "take_first P (x # xs) =
     (if P x then Some (x, xs) else map_option (\<lambda>(y, ys). (y, x # ys)) (take_first P xs))"

text \<open>\<open>take_item_file_by_uid\<close> and the removal of the file; a target of \<open>None\<close> takes an item without a uid.\<close>

definition delete_one :: "store_env \<Rightarrow> string option \<Rightarrow> unit store_op" where
  "delete_one env target s =
     (case take_first (\<lambda>item. pi_uid item = target) (items_of (ps_mem s)) of
        None \<Rightarrow> (Inr (), s)
      | Some (item, rest) \<Rightarrow>
          sbind (modify (\<lambda>p. p\<lparr>ip_items := Some rest\<rparr>))
            (\<lambda>_. case pi_file item of None \<Rightarrow> lift_result (Inr ()) | Some name \<Rightarrow> remove_body env name) s)"

definition next_current :: "prf_item list \<Rightarrow> string option" where
  "next_current items = (case find is_selectable items of None \<Rightarrow> None | Some item \<Rightarrow> pi_uid item)"

definition delete_item :: "store_env \<Rightarrow> string \<Rightarrow> bool store_op" where
  "delete_item env uid s =
     (let current = unwrap_or (ip_current (ps_mem s)) uid in
      case get_item (ps_mem s) uid of
        Inl e \<Rightarrow> (Inl e, s)
      | Inr item \<Rightarrow>
          sbind (sfor (delete_one env) (Some uid # (case pi_option item of None \<Rightarrow> [] | Some o' \<Rightarrow> chain_slots o'))) (\<lambda>_.
          sbind (modify (\<lambda>p. p\<lparr>ip_current := (if current = uid then next_current (items_of p) else ip_current p),
                               ip_items := Some (items_of p)\<rparr>)) (\<lambda>_.
          sbind (save_file env) (\<lambda>_. lift_result (Inr (current = uid))))) s)"

section \<open>Operations under the lock\<close>

definition locked :: "store_env \<Rightarrow> 'a store_op \<Rightarrow> profile_disk \<Rightarrow> ('a, prf_error) result \<times> profile_disk" where
  "locked env f d =
     (case iprofiles_new env d of
        Inl e \<Rightarrow> (Inl e, d)
      | Inr p \<Rightarrow> (case f \<lparr>ps_mem = p, ps_disk = d\<rparr> of (r, s) \<Rightarrow> (r, ps_disk s)))"

definition store_items :: "iprofiles \<Rightarrow> prf_item list" where
  "store_items p = filter is_selectable (items_of p)"

definition selected_index :: "iprofiles \<Rightarrow> nat" where
  "selected_index p =
     (case ip_current p of
        None \<Rightarrow> 0
      | Some uid \<Rightarrow> unwrap_or (position (Some uid) (map pi_uid (store_items p))) 0)"

definition set_current :: "store_env \<Rightarrow> string \<Rightarrow> unit store_op" where
  "set_current env uid = sbind (modify (patch_current uid)) (\<lambda>_. save_file env)"

definition replace_current_locked ::
  "store_env \<Rightarrow> string \<Rightarrow> profile_disk \<Rightarrow> (string option, prf_error) result \<times> profile_disk" where
  "replace_current_locked env uid =
     locked env (\<lambda>s. sbind (set_current env uid) (\<lambda>_. lift_result (Inr (ip_current (ps_mem s)))) s)"

definition restore_current_if_matches ::
  "store_env \<Rightarrow> string \<Rightarrow> string option \<Rightarrow> profile_disk \<Rightarrow> (unit, prf_error) result \<times> profile_disk" where
  "restore_current_if_matches env expected previous =
     locked env (\<lambda>s.
       if ip_current (ps_mem s) \<noteq> Some expected then (Inr (), s)
       else case previous of
           Some uid \<Rightarrow> set_current env uid s
         | None \<Rightarrow> sbind (modify (\<lambda>p. p\<lparr>ip_current := None\<rparr>)) (\<lambda>_. save_file env) s)"

definition ensure_profile_storage :: "store_env \<Rightarrow> unit store_op" where
  "ensure_profile_storage env = lift_result (guard (st_storage env) NoStorage)"

definition append_bundle :: "store_env \<Rightarrow> remote_bundle \<Rightarrow> prf_item store_op" where
  "append_bundle env b =
     sbind (ensure_profile_storage env) (\<lambda>_.
     sbind (sfor (append_item env) (rb_fragments b)) (\<lambda>_.
     sbind (append_item env (rb_item b)) (\<lambda>_.
     sbind (save_file env) (\<lambda>_. lift_result (Inr (rb_item b))))))"

definition import_url :: "store_env \<Rightarrow> string \<Rightarrow> string option \<Rightarrow> prf_option option \<Rightarrow> prf_item store_op" where
  "import_url env url' name option' =
     sbind (lift_result (map_err UpdateFailed (import_with_fallback (st_net env []) url' name option'))) (append_bundle env)"

definition import_url_locked ::
  "store_env \<Rightarrow> string \<Rightarrow> string option \<Rightarrow> prf_option option \<Rightarrow> profile_disk \<Rightarrow>
     (prf_item, prf_error) result \<times> profile_disk" where
  "import_url_locked env url' name option' = locked env (import_url env url' name option')"

definition fetch_update :: "store_env \<Rightarrow> iprofiles \<Rightarrow> string \<Rightarrow> prf_option option \<Rightarrow> (remote_bundle, prf_error) result" where
  "fetch_update env p uid override =
     rbind (get_item p uid) (\<lambda>existing.
     rbind (guard (pi_type existing = Some ''remote'') (NotRemote uid)) (\<lambda>_.
     rbind (ok_or (pi_url existing) (UrlMissing uid)) (\<lambda>url'.
       map_err UpdateFailed
         (update_with_fallback (st_net env uid) url' (option_merge (pi_option existing) override)))))"

definition update_remote :: "store_env \<Rightarrow> string \<Rightarrow> prf_option option \<Rightarrow> bool store_op" where
  "update_remote env uid override s =
     sbind (lift_result (fetch_update env (ps_mem s) uid override)) (\<lambda>b.
     sbind (ensure_profile_storage env) (\<lambda>_.
     sbind (sfor (append_item env) (rb_fragments b)) (\<lambda>_ s1.
       sbind (update_item env uid (rb_item b)) (\<lambda>_. lift_result (Inr (ip_current (ps_mem s1) = Some uid))) s1))) s"

definition update_remote_locked ::
  "store_env \<Rightarrow> string \<Rightarrow> prf_option option \<Rightarrow> profile_disk \<Rightarrow> (bool, prf_error) result \<times> profile_disk" where
  "update_remote_locked env uid override = locked env (update_remote env uid override)"

text \<open>A batch goes on after a failure, with the memory the failure left.\<close>

fun update_batch ::
  "store_env \<Rightarrow> string list \<Rightarrow> ((string \<times> bool) list \<times> (string \<times> prf_error) list) store_op" where
  "update_batch env [] s = (Inr ([], []), s)"
| "update_batch env (uid # uids) s =
     (case update_remote env uid None s of
        (r, s1) \<Rightarrow>
          (case update_batch env uids s1 of
             (Inr (updated, failed), s2) \<Rightarrow>
               (Inr (case r of
                       Inr is_current \<Rightarrow> ((uid, is_current) # updated, failed)
                     | Inl e \<Rightarrow> (updated, (uid, e) # failed)), s2)
           | (Inl e, s2) \<Rightarrow> (Inl e, s2)))"

definition update_remotes_locked ::
  "store_env \<Rightarrow> string list \<Rightarrow> profile_disk \<Rightarrow>
     ((string \<times> bool) list \<times> (string \<times> prf_error) list, prf_error) result \<times> profile_disk" where
  "update_remotes_locked env uids = locked env (update_batch env uids)"

definition remote_uids :: "iprofiles \<Rightarrow> string list" where
  "remote_uids p = filter_map pi_uid (filter (\<lambda>item. pi_type item = Some ''remote'') (store_items p))"

definition update_all_remote :: "store_env \<Rightarrow> string list store_op" where
  "update_all_remote env s =
     sbind (update_batch env (remote_uids (ps_mem s))) (\<lambda>(updated, failed).
       lift_result (if failed \<noteq> [] then Inl (UpdatesFailed failed) else Inr (map fst (filter snd updated)))) s"

definition update_all_remote_locked ::
  "store_env \<Rightarrow> profile_disk \<Rightarrow> (string list, prf_error) result \<times> profile_disk" where
  "update_all_remote_locked env = locked env (update_all_remote env)"

definition delete_locked :: "store_env \<Rightarrow> string \<Rightarrow> profile_disk \<Rightarrow> (unit, prf_error) result \<times> profile_disk" where
  "delete_locked env uid = locked env (sbind (delete_item env uid) (\<lambda>_. lift_result (Inr ())))"

definition restore_updated_locked :: "store_env \<Rightarrow> string \<Rightarrow> nat \<Rightarrow> profile_disk \<Rightarrow> (unit, prf_error) result \<times> profile_disk"
where
  "restore_updated_locked env uid updated = locked env (patch_item env uid (empty_item\<lparr>pi_updated := Some updated\<rparr>))"

definition trusted_option ::
  "store_env \<Rightarrow> iprofiles \<Rightarrow> string \<Rightarrow> string \<Rightarrow> (prf_option, prf_error) result" where
  "trusted_option env p uid host =
     rbind (get_item p uid) (\<lambda>existing.
     rbind (guard (pi_type existing = Some ''remote'') (NotRemote uid)) (\<lambda>_.
     (let o' = unwrap_or (pi_option existing) empty_option in
     rbind (ok_or (merge_trusted_host (st_net env uid) (po_trusted_hosts o') host) (HostNotNormal host)) (\<lambda>merged.
       Inr (o'\<lparr>po_trusted_hosts := Some merged\<rparr>)))))"

definition add_trusted_host_locked ::
  "store_env \<Rightarrow> string \<Rightarrow> string \<Rightarrow> profile_disk \<Rightarrow> (unit, prf_error) result \<times> profile_disk" where
  "add_trusted_host_locked env uid host =
     locked env (\<lambda>s.
       sbind (lift_result (trusted_option env (ps_mem s) uid host))
         (\<lambda>o'. patch_item env uid (empty_item\<lparr>pi_option := Some o'\<rparr>)) s)"

definition rename_locked :: "store_env \<Rightarrow> string \<Rightarrow> string \<Rightarrow> profile_disk \<Rightarrow> (unit, prf_error) result \<times> profile_disk" where
  "rename_locked env uid name = locked env (patch_item env uid (empty_item\<lparr>pi_name := Some name\<rparr>))"

section \<open>Runs\<close>

datatype profile_op =
    ReplaceCurrent string
  | RestoreCurrent string "string option"
  | ImportUrl string "string option" "prf_option option"
  | UpdateRemote string "prf_option option"
  | UpdateRemotes "string list"
  | UpdateAllRemote
  | DeleteProfile string
  | RestoreUpdated string nat
  | TrustHost string string
  | RenameProfile string string

fun apply_op :: "store_env \<Rightarrow> profile_op \<Rightarrow> profile_disk \<Rightarrow> profile_disk" where
  "apply_op env (ReplaceCurrent uid) d = snd (replace_current_locked env uid d)"
| "apply_op env (RestoreCurrent expected previous) d = snd (restore_current_if_matches env expected previous d)"
| "apply_op env (ImportUrl url' name o') d = snd (import_url_locked env url' name o' d)"
| "apply_op env (UpdateRemote uid o') d = snd (update_remote_locked env uid o' d)"
| "apply_op env (UpdateRemotes uids) d = snd (update_remotes_locked env uids d)"
| "apply_op env UpdateAllRemote d = snd (update_all_remote_locked env d)"
| "apply_op env (DeleteProfile uid) d = snd (delete_locked env uid d)"
| "apply_op env (RestoreUpdated uid updated) d = snd (restore_updated_locked env uid updated d)"
| "apply_op env (TrustHost uid host) d = snd (add_trusted_host_locked env uid host d)"
| "apply_op env (RenameProfile uid name) d = snd (rename_locked env uid name d)"

inductive profile_run :: "profile_disk \<Rightarrow> profile_disk \<Rightarrow> bool" for d0 where
  start: "profile_run d0 d0"
| step: "profile_run d0 d \<Longrightarrow> profile_run d0 (apply_op env op d)"

section \<open>Invariants\<close>

definition file_ok :: "prf_item \<Rightarrow> bool" where
  "file_ok item \<longleftrightarrow> (case pi_file item of None \<Rightarrow> True | Some name \<Rightarrow> single_filename name)"

lemma check_item_file_Inr [simp]: "check_item_file item = Inr u \<longleftrightarrow> file_ok item"
  by (simp add: check_item_file_def validate_profile_file_def file_ok_def split: option.split)

definition op_keeps :: "(profile_store \<Rightarrow> bool) \<Rightarrow> 'a store_op \<Rightarrow> bool" where
  "op_keeps I m \<longleftrightarrow> (\<forall>s. I s \<longrightarrow> I (snd (m s)))"

named_theorems keeps_intros

lemma op_keepsI: "(\<And>s. I s \<Longrightarrow> I (snd (m s))) \<Longrightarrow> op_keeps I m"
  by (simp add: op_keeps_def)

lemma op_keepsD: "op_keeps I m \<Longrightarrow> I s \<Longrightarrow> I (snd (m s))"
  by (simp add: op_keeps_def)

lemma keeps_lift [keeps_intros]: "op_keeps I (lift_result r)"
  by (simp add: op_keeps_def lift_result_def)

lemma sbind_keeps:
  assumes "op_keeps I m" "\<And>x s' s. m s = (Inr x, s') \<Longrightarrow> I s \<Longrightarrow> I s' \<Longrightarrow> I (snd (k x s'))"
  shows "op_keeps I (sbind m k)"
proof (rule op_keepsI)
  fix s assume s: "I s"
  obtain r s' where m: "m s = (r, s')" by fastforce
  have "I s'" using op_keepsD [OF assms(1) s] m by simp
  with assms(2) [of s _ s'] m s show "I (snd (sbind m k s))" by (auto simp: sbind_def split: sum.split)
qed

lemma keeps_sbind [keeps_intros]: "op_keeps I m \<Longrightarrow> (\<And>x. op_keeps I (k x)) \<Longrightarrow> op_keeps I (sbind m k)"
  by (rule sbind_keeps) (auto dest: op_keepsD)

lemma keeps_guarded:
  "(\<And>x. r = Inr x \<Longrightarrow> op_keeps I (k x)) \<Longrightarrow> op_keeps I (sbind (lift_result r) k)"
  by (rule sbind_keeps [OF keeps_lift]) (auto simp: lift_result_def dest: op_keepsD)

lemma keeps_sfor [keeps_intros]: "(\<And>x. op_keeps I (f x)) \<Longrightarrow> op_keeps I (sfor f xs)"
  by (induction xs) (auto intro: keeps_intros)

lemma keeps_apply: "(\<And>s. op_keeps I (m s)) \<Longrightarrow> op_keeps I (\<lambda>s. m s s)"
  by (simp add: op_keeps_def)

lemma keeps_if [keeps_intros]: "op_keeps I m \<Longrightarrow> op_keeps I n \<Longrightarrow> op_keeps I (\<lambda>s. if P s then m s else n s)"
  by (simp add: op_keeps_def)

lemma get_item_listed: "get_item p uid = Inr each \<Longrightarrow> each \<in> set (items_of p) \<and> pi_uid each = Some uid"
  by (auto simp: get_item_def ok_or_def has_uid_def find_Some_iff split: option.splits)

lemma items_of_put [simp]: "items_of (put_item uid item p) = update_first (has_uid uid) (\<lambda>_. item) (items_of p)"
  by (simp add: put_item_def items_of_def)

lemma find_update_first:
  "find P xs = Some y \<Longrightarrow> P x \<Longrightarrow> find P (update_first P (\<lambda>_. x) xs) = Some x"
  by (induction xs) (auto split: if_splits)

lemma get_put_item:
  assumes "get_item p uid = Inr each" "pi_uid item = pi_uid each"
  shows "get_item (put_item uid item p) uid = Inr item"
proof -
  have "find (has_uid uid) (items_of p) = Some each" using assms(1) by (simp add: get_item_def ok_or_def split: option.splits)
  moreover have "has_uid uid item" using assms get_item_listed by (simp add: has_uid_def)
  ultimately show ?thesis by (simp add: get_item_def ok_or_def find_update_first)
qed

text \<open>
  The contract of an invariant of the store: it holds after loading, shows in what is on disk, lists only
  single file names, and survives saving, writing a body with a single name and the changes of the list
  that keep the uid of an item and a single file name.
\<close>

locale store_invariant =
  fixes I :: "profile_store \<Rightarrow> bool" and J :: "profile_disk \<Rightarrow> bool"
  assumes loaded: "\<And>env d p. J d \<Longrightarrow> iprofiles_new env d = Inr p \<Longrightarrow> I \<lparr>ps_mem = p, ps_disk = d\<rparr>"
    and on_disk: "\<And>s. I s \<Longrightarrow> J (ps_disk s)"
    and listed_file: "\<And>s item. I s \<Longrightarrow> item \<in> set (items_of (ps_mem s)) \<Longrightarrow> file_ok item"
    and save: "\<And>env s. I s \<Longrightarrow> I (snd (save_file env s))"
    and body: "\<And>s name content. I s \<Longrightarrow> single_filename name \<Longrightarrow> I (s\<lparr>ps_disk := put_body name content (ps_disk s)\<rparr>)"
    and put: "\<And>s uid each item. I s \<Longrightarrow> get_item (ps_mem s) uid = Inr each \<Longrightarrow> pi_uid item = pi_uid each \<Longrightarrow>
        file_ok item \<Longrightarrow> I (s\<lparr>ps_mem := put_item uid item (ps_mem s)\<rparr>)"
    and push: "\<And>s item. I s \<Longrightarrow> pi_uid item \<noteq> None \<Longrightarrow> file_ok item \<Longrightarrow> I (s\<lparr>ps_mem := push_item item (ps_mem s)\<rparr>)"
    and listed: "\<And>s. I s \<Longrightarrow> I (s\<lparr>ps_mem := (ps_mem s)\<lparr>ip_items := Some (items_of (ps_mem s))\<rparr>\<rparr>)"
    and select: "\<And>s uid. I s \<Longrightarrow> I (s\<lparr>ps_mem := patch_current uid (ps_mem s)\<rparr>)"
    and unselect: "\<And>s. I s \<Longrightarrow> I (s\<lparr>ps_mem := (ps_mem s)\<lparr>ip_current := None\<rparr>\<rparr>)"
begin

lemma keeps_save: "op_keeps I (save_file env)"
  by (rule op_keepsI) (rule save)

lemma keeps_write: "single_filename name \<Longrightarrow> op_keeps I (write_body env name data)"
  by (rule op_keepsI) (simp add: write_body_def body)

lemma keeps_item_body: "file_ok item \<Longrightarrow> op_keeps I (write_item_body env item)"
  by (auto simp: write_item_body_def file_ok_def split: option.splits intro: keeps_lift keeps_write)

lemma keeps_push: "pi_uid item \<noteq> None \<Longrightarrow> file_ok item \<Longrightarrow> op_keeps I (modify (push_item item))"
  by (simp add: op_keeps_def modify_def push)

lemma keeps_append: "op_keeps I (append_item env item)"
  unfolding append_item_def
  by (rule keeps_guarded)+ (auto intro!: keeps_sbind keeps_item_body keeps_push keeps_save)

lemma keeps_list: "op_keeps I (modify (\<lambda>p. p\<lparr>ip_items := Some (items_of p)\<rparr>))"
  by (simp add: op_keeps_def modify_def listed)

lemma keeps_found:
  assumes "\<And>s each. I s \<Longrightarrow> get_item (ps_mem s) uid = Inr each \<Longrightarrow> file_ok each \<Longrightarrow> I (snd (k each s))"
  shows "op_keeps I (\<lambda>s. case get_item (ps_mem s) uid of Inl e \<Rightarrow> (Inl e, s) | Inr each \<Rightarrow> k each s)"
proof (rule op_keepsI)
  fix s assume s: "I s"
  show "I (snd (case get_item (ps_mem s) uid of Inl e \<Rightarrow> (Inl e, s) | Inr each \<Rightarrow> k each s))"
    using assms [OF s] s get_item_listed listed_file [OF s] by (cases "get_item (ps_mem s) uid") auto
qed

lemma keeps_patch: "op_keeps I (patch_item env uid patch)"
  unfolding patch_item_def
proof (rule keeps_guarded, rule keeps_sbind [OF keeps_list], rule keeps_found)
  fix x s each
  assume ok: "check_item_file patch = Inr x" and s: "I s" "get_item (ps_mem s) uid = Inr each" "file_ok each"
  have "file_ok (patch_fields patch each)"
    using ok s(3) by (auto simp: file_ok_def patch_fields_def or_else_def split: option.splits)
  then have "I (s\<lparr>ps_mem := put_item uid (patch_fields patch each) (ps_mem s)\<rparr>)"
    by (rule put [OF s(1,2), rotated]) (simp add: patch_fields_def)
  then show "I (snd (sbind (modify (put_item uid (patch_fields patch each))) (\<lambda>_. save_file env) s))"
    by (simp add: sbind_def modify_def save)
qed

lemma put_twice:
  assumes "I s" "get_item (ps_mem s) uid = Inr each" "pi_uid i1 = pi_uid each" "file_ok i1" "pi_uid i2 = pi_uid each" "file_ok i2"
  shows "I (s\<lparr>ps_mem := put_item uid i2 (put_item uid i1 (ps_mem s))\<rparr>)"
  using put [OF put [OF assms(1-4)], of uid i1 i2] get_put_item [OF assms(2,3)] assms by simp

lemma keeps_refresh:
  assumes "I s" "get_item (ps_mem s) uid = Inr each" "file_ok each"
  shows "I (snd (refresh_each env uid item each s))"
proof -
  let ?e = "refreshed_item item each"
  have e: "pi_uid (?e\<lparr>pi_file := f\<rparr>) = pi_uid each" "pi_uid ?e = pi_uid each" "file_ok ?e" "file_ok (?e\<lparr>pi_file := None\<rparr>)" for f
    using assms(3) by (simp_all add: refreshed_item_def file_ok_def)
  show ?thesis
  proof (cases "pi_file_data item")
    case None
    then show ?thesis using put [OF assms(1,2) e(2,3)] by (simp add: refresh_each_def modify_def)
  next
    case (Some data)
    let ?name = "body_name uid item each"
    have one: "I (s\<lparr>ps_mem := put_item uid (?e\<lparr>pi_file := None\<rparr>) (ps_mem s)\<rparr>)"
      using put [OF assms(1,2) e(1,4)] .
    show ?thesis
    proof (cases "single_filename ?name")
      case True
      then have "file_ok (?e\<lparr>pi_file := Some ?name\<rparr>)" by (simp add: file_ok_def)
      from put_twice [OF assms(1,2) e(1,4) e(1) this]
      have "I (snd (write_body env ?name data
          (s\<lparr>ps_mem := put_item uid (?e\<lparr>pi_file := Some ?name\<rparr>) (put_item uid (?e\<lparr>pi_file := None\<rparr>) (ps_mem s))\<rparr>)))"
        by (rule op_keepsD [OF keeps_write [OF True]])
      with True Some show ?thesis
        by (simp add: refresh_each_def Let_def sbind_def modify_def lift_result_def validate_profile_file_def)
    qed (use one Some in \<open>simp add: refresh_each_def Let_def sbind_def modify_def lift_result_def validate_profile_file_def guard_def\<close>)
  qed
qed

lemma keeps_update: "op_keeps I (update_item env uid item)"
  unfolding update_item_def
proof (rule keeps_sbind [OF keeps_list], rule keeps_found)
  fix s each assume a: "I s" "get_item (ps_mem s) uid = Inr each" "file_ok each"
  obtain r s' where r: "refresh_each env uid item each s = (r, s')" by fastforce
  then have "I s'" using keeps_refresh [OF a, of env item] by simp
  then show "I (snd (sbind (refresh_each env uid item each) (\<lambda>_. save_file env) s))"
    by (cases r) (simp_all add: sbind_def r save)
qed

lemma keeps_bundle: "op_keeps I (append_bundle env b)"
  unfolding append_bundle_def ensure_profile_storage_def
  by (intro keeps_sbind keeps_lift keeps_sfor keeps_append keeps_save)

lemma keeps_import: "op_keeps I (import_url env url' name o')"
  unfolding import_url_def by (intro keeps_sbind keeps_lift keeps_bundle)

lemma keeps_pair: "op_keeps I m \<Longrightarrow> op_keeps I (\<lambda>s. sbind m (\<lambda>_. lift_result (f s)) s)"
  by (rule op_keepsI) (auto simp: sbind_def lift_result_def dest!: op_keepsD split: prod.splits sum.splits)

lemma keeps_update_remote: "op_keeps I (update_remote env uid override)"
  unfolding update_remote_def [abs_def] ensure_profile_storage_def
  by (rule keeps_apply) (intro keeps_sbind keeps_lift keeps_sfor keeps_append keeps_pair keeps_update)

lemma keeps_batch: "op_keeps I (update_batch env uids)"
proof (induction uids)
  case (Cons uid uids)
  show ?case
  proof (rule op_keepsI)
    fix s assume s: "I s"
    obtain r s1 where 1: "update_remote env uid None s = (r, s1)" by fastforce
    obtain r2 s2 where 2: "update_batch env uids s1 = (r2, s2)" by fastforce
    have "I s1" using op_keepsD [OF keeps_update_remote s, of env uid None] 1 by simp
    from op_keepsD [OF Cons this] 2 have "I s2" by simp
    then show "I (snd (update_batch env (uid # uids) s))" by (simp add: 1 2 split: sum.split)
  qed
qed (simp add: op_keeps_def)

lemma keeps_all: "op_keeps I (update_all_remote env)"
  unfolding update_all_remote_def [abs_def] case_prod_beta
  by (rule keeps_apply) (intro keeps_sbind keeps_batch keeps_lift)

lemma keeps_select: "op_keeps I (set_current env uid)"
  unfolding set_current_def by (intro keeps_sbind op_keepsI save) (simp add: modify_def select)

lemma locked_keeps:
  assumes "op_keeps I f" "J d"
  shows "J (snd (locked env f d))"
proof (cases "iprofiles_new env d")
  case (Inr p)
  from op_keepsD [OF assms(1) loaded [OF assms(2) Inr]] show ?thesis
    by (auto simp: locked_def Inr split: prod.split intro: on_disk)
qed (use assms in \<open>simp add: locked_def\<close>)

text \<open>Every operation but a deletion keeps the invariant; a deletion depends on what it takes.\<close>

lemma apply_op_keeps:
  assumes "J d" "\<And>uid. op = DeleteProfile uid \<Longrightarrow> J (snd (delete_locked env uid d))"
  shows "J (apply_op env op d)"
proof (cases op)
  case (RestoreCurrent expected previous)
  have "op_keeps I (sbind (modify (\<lambda>p. p\<lparr>ip_current := None\<rparr>)) (\<lambda>_. save_file env))"
    by (intro keeps_sbind op_keepsI save) (simp add: modify_def unselect)
  then have "op_keeps I (\<lambda>s. if ip_current (ps_mem s) \<noteq> Some expected then (Inr (), s)
      else case previous of Some uid \<Rightarrow> set_current env uid s
         | None \<Rightarrow> sbind (modify (\<lambda>p. p\<lparr>ip_current := None\<rparr>)) (\<lambda>_. save_file env) s)"
    using keeps_select by (auto simp: op_keeps_def split: option.split)
  with RestoreCurrent assms(1) show ?thesis by (simp add: restore_current_if_matches_def locked_keeps)
next
  case (ReplaceCurrent uid)
  have "op_keeps I (\<lambda>s. sbind (set_current env uid) (\<lambda>_. lift_result (Inr (ip_current (ps_mem s)))) s)"
    by (rule keeps_pair [OF keeps_select])
  with ReplaceCurrent assms(1) show ?thesis by (simp add: replace_current_locked_def locked_keeps)
next
  case (TrustHost uid host)
  have "op_keeps I (\<lambda>s. sbind (lift_result (trusted_option env (ps_mem s) uid host))
      (\<lambda>o'. patch_item env uid (empty_item\<lparr>pi_option := Some o'\<rparr>)) s)"
    by (rule keeps_apply) (intro keeps_sbind keeps_lift keeps_patch)
  with TrustHost assms(1) show ?thesis by (simp add: add_trusted_host_locked_def locked_keeps)
qed (use assms in \<open>simp_all add: import_url_locked_def update_remote_locked_def update_remotes_locked_def
  update_all_remote_locked_def restore_updated_locked_def rename_locked_def locked_keeps keeps_import keeps_update_remote
  keeps_batch keeps_all keeps_patch\<close>)

end

section \<open>Bodies and file names\<close>

definition disk_files_ok :: "(string \<Rightarrow> string option) \<Rightarrow> profile_disk \<Rightarrow> bool" where
  "disk_files_ok b0 d \<longleftrightarrow>
     (\<forall>p. pd_profiles d = StoredProfiles p \<longrightarrow> (\<forall>item \<in> set (items_of p). file_ok item)) \<and>
     (\<forall>name. \<not> single_filename name \<longrightarrow> pd_bodies d name = b0 name)"

definition files_ok :: "(string \<Rightarrow> string option) \<Rightarrow> profile_store \<Rightarrow> bool" where
  "files_ok b0 s \<longleftrightarrow>
     (\<forall>item \<in> set (items_of (ps_mem s)). pi_uid item \<noteq> None \<and> file_ok item) \<and> disk_files_ok b0 (ps_disk s)"

lemma set_update_first: "y \<in> set (update_first P f xs) \<Longrightarrow> y \<in> set xs \<or> (\<exists>x \<in> set xs. P x \<and> y = f x)"
  by (induction xs) (auto split: if_splits)

lemma filled_item:
  assumes "item \<in> set (fill_uids gen items)"
  shows "pi_uid item \<noteq> None \<and> (\<exists>old \<in> set items. pi_file item = pi_file old)"
proof -
  obtain i old where old: "(i, old) \<in> set (enumerate 0 items)"
    "item = (if pi_uid old = None then old\<lparr>pi_uid := Some (gen i)\<rparr> else old)"
    using assms by (auto simp: fill_uids_def)
  then have "old \<in> set items" by (auto simp: in_set_enumerate_eq)
  with old(2) show ?thesis by auto
qed

lemma items_of_new:
  "iprofiles_new env d = Inr p \<Longrightarrow>
     items_of p = (case pd_profiles d of StoredProfiles q \<Rightarrow> fill_uids (st_fill_uid env) (items_of q) | _ \<Rightarrow> [])"
  by (auto simp: iprofiles_new_def items_of_def split: profiles_file.splits)

lemma file_ok_stored [simp]: "file_ok (stored_item item) = file_ok item"
  by (simp add: stored_item_def file_ok_def)

lemma items_of_stored [simp]: "items_of (stored_profiles p) = map stored_item (items_of p)"
  by (cases "ip_items p") (simp_all add: items_of_def stored_profiles_def)

lemma disk_files_put_body:
  "disk_files_ok b0 d \<Longrightarrow> single_filename name \<Longrightarrow> disk_files_ok b0 (put_body name content d)"
  by (auto simp: disk_files_ok_def put_body_def)

lemma file_ok_item_data [simp]: "file_ok (item\<lparr>pi_file_data := x\<rparr>) = file_ok item"
  by (simp add: file_ok_def)

lemma items_of_updates [simp]:
  "items_of (p\<lparr>ip_items := Some items\<rparr>) = items" "items_of (p\<lparr>ip_current := c\<rparr>) = items_of p"
  "items_of (patch_current uid p) = items_of p"
  "items_of (push_item item p) = items_of p @ [item\<lparr>pi_file_data := None\<rparr>]"
  by (simp_all add: items_of_def patch_current_def push_item_def Let_def)

lemma save_files_ok: "files_ok b0 s \<Longrightarrow> files_ok b0 (snd (save_file env s))"
  by (simp add: files_ok_def save_file_def disk_files_ok_def)

interpretation file_names: store_invariant "files_ok b0" "disk_files_ok b0" for b0
proof
  fix env d p assume d: "disk_files_ok b0 d" and p: "iprofiles_new env d = Inr p"
  have "pi_uid item \<noteq> None \<and> file_ok item" if item: "item \<in> set (items_of p)" for item
  proof -
    obtain q where q: "pd_profiles d = StoredProfiles q" "item \<in> set (fill_uids (st_fill_uid env) (items_of q))"
      using item items_of_new [OF p] by (cases "pd_profiles d") auto
    from filled_item [OF q(2)] q(1) d show ?thesis by (auto simp: disk_files_ok_def file_ok_def)
  qed
  with d show "files_ok b0 \<lparr>ps_mem = p, ps_disk = d\<rparr>" by (simp add: files_ok_def)
next
  fix s uid each item
  assume s: "files_ok b0 s" "get_item (ps_mem s) uid = Inr each" and item: "pi_uid item = pi_uid each" "file_ok item"
  then have "pi_uid item \<noteq> None" using get_item_listed [OF s(2)] by simp
  with s item show "files_ok b0 (s\<lparr>ps_mem := put_item uid item (ps_mem s)\<rparr>)"
    by (auto simp: files_ok_def dest!: set_update_first)
next
  fix s env assume "files_ok b0 s"
  then show "files_ok b0 (snd (save_file env s))" by (rule save_files_ok)
qed (auto simp: files_ok_def disk_files_put_body)

lemma take_first_Some:
  "take_first P xs = Some (y, ys) \<Longrightarrow> y \<in> set xs \<and> P y \<and> set ys \<subseteq> set xs \<and> (\<forall>x \<in> set xs. \<not> P x \<longrightarrow> x \<in> set ys)"
  by (induction xs arbitrary: ys) (auto split: if_splits)

lemma keeps_delete_one: "op_keeps (files_ok b0) (delete_one env target)"
proof (rule op_keepsI)
  fix s assume s: "files_ok b0 s"
  show "files_ok b0 (snd (delete_one env target s))"
  proof (cases "take_first (\<lambda>item. pi_uid item = target) (items_of (ps_mem s))")
    case (Some r)
    then obtain item rest where r: "take_first (\<lambda>item. pi_uid item = target) (items_of (ps_mem s)) = Some (item, rest)"
      by (cases r) auto
    from take_first_Some [OF this] s
    have "file_ok item" "files_ok b0 (s\<lparr>ps_mem := (ps_mem s)\<lparr>ip_items := Some rest\<rparr>\<rparr>)"
      by (auto simp: files_ok_def)
    then show ?thesis
      by (auto simp: delete_one_def r sbind_def modify_def lift_result_def remove_body_def file_ok_def files_ok_def
          disk_files_put_body split: option.split)
  qed (simp add: delete_one_def s)
qed

lemma keeps_delete: "op_keeps (files_ok b0) (delete_item env uid)"
proof (rule op_keepsI)
  fix s assume s: "files_ok b0 s"
  let ?c = "unwrap_or (ip_current (ps_mem s)) uid"
  have "op_keeps (files_ok b0) (modify (\<lambda>p. p\<lparr>ip_current := if ?c = uid then next_current (items_of p) else ip_current p,
      ip_items := Some (items_of p)\<rparr>))"
    by (auto simp: op_keeps_def modify_def files_ok_def items_of_def)
  then have "op_keeps (files_ok b0)
      (sbind (sfor (delete_one env) targets) (\<lambda>_.
       sbind (modify (\<lambda>p. p\<lparr>ip_current := if ?c = uid then next_current (items_of p) else ip_current p,
          ip_items := Some (items_of p)\<rparr>)) (\<lambda>_.
       sbind (save_file env) (\<lambda>_. lift_result (Inr (?c = uid))))))" for targets
    by (intro keeps_sbind keeps_sfor keeps_delete_one file_names.keeps_save keeps_lift) auto
  from op_keepsD [OF this s] s show "files_ok b0 (snd (delete_item env uid s))"
    by (cases "get_item (ps_mem s) uid") (simp_all add: delete_item_def Let_def del: sfor.simps)
qed

lemma run_files_ok:
  assumes "profile_run d0 d" "disk_files_ok b0 d0"
  shows "disk_files_ok b0 d"
  using assms(1)
proof induction
  case (step d env op)
  have "op_keeps (files_ok b0) (sbind (delete_item env uid) (\<lambda>_. lift_result (Inr ())))" for uid
    by (intro keeps_sbind keeps_delete keeps_lift)
  then show ?case
    by (intro file_names.apply_op_keeps step) (simp add: delete_locked_def file_names.locked_keeps step)
qed (rule assms)

text \<open>C21: Through any sequence of store operations, with every kind of write failure in between, the files touched are single
  names in the profiles directory: a body under any other name is never written or removed, and whatever is loaded
  afterwards lists only items with a uid whose file, if any, is a single name, provided this held of the files that were
  listed at the start.\<close>

theorem profile_files_stay_inside:
  assumes "profile_run d0 d" "\<forall>p. pd_profiles d0 = StoredProfiles p \<longrightarrow> (\<forall>item \<in> set (items_of p). file_ok item)"
  shows "(\<not> single_filename name \<longrightarrow> pd_bodies d name = pd_bodies d0 name) \<and>
    (\<forall>env p. iprofiles_new env d = Inr p \<longrightarrow> (\<forall>item \<in> set (items_of p). pi_uid item \<noteq> None \<and> file_ok item))"
proof -
  have "disk_files_ok (pd_bodies d0) d0" using assms(2) by (simp add: disk_files_ok_def)
  from run_files_ok [OF assms(1) this] have d: "disk_files_ok (pd_bodies d0) d" .
  show ?thesis using d file_names.loaded [OF d] by (auto simp: disk_files_ok_def files_ok_def)
qed

definition sample_store_env :: store_env where
  "sample_store_env =
     \<lparr>st_net = (\<lambda>_. sample_net), st_fill_uid = (\<lambda>_. ''L0''), st_saves = (\<lambda>_. True), st_writes = (\<lambda>_ _. True),
      st_partial = (\<lambda>_ _ old. old), st_removes = (\<lambda>_. True), st_storage = True\<rparr>"

definition sample_item :: prf_item where
  "sample_item = empty_item\<lparr>pi_uid := Some ''R1'', pi_type := Some ''remote'', pi_file := Some ''R1.yaml'',
     pi_url := Some ''u'', pi_updated := Some 5\<rparr>"

definition sample_disk :: profile_disk where
  "sample_disk =
     \<lparr>pd_profiles = StoredProfiles \<lparr>ip_current = Some ''R1'', ip_items = Some [sample_item], ip_extra = []\<rparr>,
      pd_bodies = (\<lambda>_. None)\<rparr>"

theorem profile_files_stay_inside_witness:
  "pd_bodies (apply_op sample_store_env (DeleteProfile ''R1'') sample_disk) ''../R1.yaml'' = None"
proof -
  have "\<forall>p. pd_profiles sample_disk = StoredProfiles p \<longrightarrow> (\<forall>item \<in> set (items_of p). file_ok item)"
    by (simp add: sample_disk_def items_of_def sample_item_def empty_item_def file_ok_def single_filename_def)
  from profile_files_stay_inside [OF profile_run.step [OF profile_run.start, where env = sample_store_env] this]
  have "\<not> single_filename ''../R1.yaml'' \<longrightarrow>
      pd_bodies (apply_op sample_store_env (DeleteProfile ''R1'') sample_disk) ''../R1.yaml'' = pd_bodies sample_disk ''../R1.yaml''"
    by blast
  then show ?thesis by (simp add: single_filename_def sample_disk_def)
qed

text \<open>A listed file that is no single name is removed with its profile: a deletion does not check the name.\<close>

lemma deletion_leaves_directory:
  "pd_bodies (apply_op sample_store_env (DeleteProfile ''R1'')
     \<lparr>pd_profiles = StoredProfiles \<lparr>ip_current = None, ip_items = Some [sample_item\<lparr>pi_file := Some ''../verge.yaml''\<rparr>], ip_extra = []\<rparr>,
      pd_bodies = (\<lambda>_. Some ''settings'')\<rparr>) ''../verge.yaml'' = None"
  by (simp add: delete_locked_def locked_def iprofiles_new_def fill_uids_def sample_item_def empty_item_def delete_item_def
      get_item_def has_uid_def sbind_def delete_one_def items_of_def modify_def remove_body_def put_body_def lift_result_def
      sample_store_env_def save_file_def Let_def)

section \<open>The current profile\<close>

definition current_in :: "iprofiles \<Rightarrow> bool" where
  "current_in p \<longleftrightarrow> (\<forall>c. ip_current p = Some c \<longrightarrow> Some c \<in> pi_uid ` set (items_of p))"

definition current_listed :: "profile_disk \<Rightarrow> bool" where
  "current_listed d \<longleftrightarrow>
     (\<forall>p. pd_profiles d = StoredProfiles p \<longrightarrow> current_in p \<and> (\<forall>item \<in> set (items_of p). file_ok item))"

definition current_ok :: "profile_store \<Rightarrow> bool" where
  "current_ok s \<longleftrightarrow> files_ok (pd_bodies (ps_disk s)) s \<and> current_in (ps_mem s) \<and> current_listed (ps_disk s)"

lemma current_ok_alt:
  "current_ok s \<longleftrightarrow> (\<forall>item \<in> set (items_of (ps_mem s)). pi_uid item \<noteq> None \<and> file_ok item) \<and>
     current_in (ps_mem s) \<and> current_listed (ps_disk s)"
  by (auto simp: current_ok_def files_ok_def disk_files_ok_def current_listed_def)

lemma current_in_same_uids:
  "current_in p \<Longrightarrow> ip_current q = ip_current p \<Longrightarrow> pi_uid ` set (items_of p) \<subseteq> pi_uid ` set (items_of q) \<Longrightarrow> current_in q"
  by (auto simp: current_in_def)

lemma uids_update_first:
  "find P xs = Some each \<Longrightarrow> pi_uid item = pi_uid each \<Longrightarrow>
     pi_uid ` set (update_first P (\<lambda>_. item) xs) = pi_uid ` set xs"
  by (induction xs) (auto split: if_splits)

lemma uids_fill: "Some c \<in> pi_uid ` set items \<Longrightarrow> Some c \<in> pi_uid ` set (fill_uids gen items)"
proof -
  assume "Some c \<in> pi_uid ` set items"
  then obtain i where i: "i < length items" "pi_uid (items ! i) = Some c" by (auto simp: in_set_conv_nth)
  then have "items ! i = fill_uids gen items ! i" by (simp add: fill_uids_def nth_enumerate_eq)
  moreover have "fill_uids gen items ! i \<in> set (fill_uids gen items)" using i(1) by (intro nth_mem) (simp add: fill_uids_def)
  ultimately show ?thesis using i(2) by (metis imageI)
qed

lemma current_in_new:
  assumes "current_listed d" "iprofiles_new env d = Inr p"
  shows "current_in p"
  using assms uids_fill [of _ _ "st_fill_uid env"]
  by (auto simp: iprofiles_new_def current_listed_def current_in_def split: profiles_file.splits)

lemma current_in_put:
  assumes "current_in p" "get_item p uid = Inr each" "pi_uid item = pi_uid each"
  shows "current_in (put_item uid item p)"
proof (rule current_in_same_uids [OF assms(1)])
  have "find (has_uid uid) (items_of p) = Some each" using assms(2) by (simp add: get_item_def ok_or_def split: option.splits)
  then show "pi_uid ` set (items_of p) \<subseteq> pi_uid ` set (items_of (put_item uid item p))"
    using uids_update_first [of "has_uid uid" "items_of p" each item] assms(3) by simp
qed (simp add: put_item_def)

lemma current_in_push: "current_in p \<Longrightarrow> current_in (push_item item p)"
  by (auto simp: current_in_def push_item_def items_of_def split: if_splits)

lemma current_in_patch: "current_in p \<Longrightarrow> current_in (patch_current uid p)"
  by (auto simp: current_in_def patch_current_def has_uid_def items_of_def Let_def image_iff split: if_splits) metis

lemma stored_item_uid [simp]: "pi_uid (stored_item item) = pi_uid item"
  by (simp add: stored_item_def)

lemma current_in_stored [simp]: "current_in (stored_profiles p) = current_in p"
proof -
  have "ip_current (stored_profiles p) = ip_current p" by (simp add: stored_profiles_def)
  then show ?thesis by (simp add: current_in_def image_image)
qed

interpretation current: store_invariant current_ok current_listed
proof
  fix env d p assume d: "current_listed d" "iprofiles_new env d = Inr p"
  then have "disk_files_ok (pd_bodies d) d" by (auto simp: current_listed_def disk_files_ok_def)
  from file_names.loaded [OF this d(2)] current_in_new [OF d] d(1)
  show "current_ok \<lparr>ps_mem = p, ps_disk = d\<rparr>" by (simp add: current_ok_def)
next
  fix s env assume "current_ok s"
  then show "current_ok (snd (save_file env s))"
    by (auto simp: current_ok_alt save_file_def current_listed_def)
next
  fix s uid each item
  assume s: "current_ok s" "get_item (ps_mem s) uid = Inr each" and item: "pi_uid item = pi_uid each" "file_ok item"
  then show "current_ok (s\<lparr>ps_mem := put_item uid item (ps_mem s)\<rparr>)"
    using file_names.put [of "pd_bodies (ps_disk s)" s uid each item] current_in_put [OF _ s(2) item(1)]
    by (simp add: current_ok_def)
next
  fix s uid assume "current_ok s"
  then show "current_ok (s\<lparr>ps_mem := patch_current uid (ps_mem s)\<rparr>)"
    by (simp add: current_ok_alt current_in_patch)
next
  fix s item assume "current_ok s" "pi_uid item \<noteq> None" "file_ok item"
  then show "current_ok (s\<lparr>ps_mem := push_item item (ps_mem s)\<rparr>)"
    by (auto simp: current_ok_alt current_in_push)
qed (auto simp: current_ok_alt current_in_def current_listed_def put_body_def)

text \<open>What a deletion leaves of the list and the current uid before it saves.\<close>

definition taken :: "string option list \<Rightarrow> profile_store \<Rightarrow> profile_store \<Rightarrow> bool" where
  "taken targets s s' \<longleftrightarrow>
     ip_current (ps_mem s') = ip_current (ps_mem s) \<and> pd_profiles (ps_disk s') = pd_profiles (ps_disk s) \<and>
     set (items_of (ps_mem s')) \<subseteq> set (items_of (ps_mem s)) \<and>
     {item \<in> set (items_of (ps_mem s)). pi_uid item \<notin> set targets} \<subseteq> set (items_of (ps_mem s'))"

lemma delete_one_taken: "\<exists>s'. delete_one env target s = (Inr (), s') \<and> taken [target] s s'"
proof (cases "take_first (\<lambda>item. pi_uid item = target) (items_of (ps_mem s))")
  case (Some r)
  then obtain item rest where r: "take_first (\<lambda>item. pi_uid item = target) (items_of (ps_mem s)) = Some (item, rest)"
    by (cases r) auto
  let ?s = "s\<lparr>ps_mem := (ps_mem s)\<lparr>ip_items := Some rest\<rparr>\<rparr>"
  have "taken [target] s ?s" using take_first_Some [OF r] by (auto simp: taken_def)
  then have removed: "taken [target] s (?s\<lparr>ps_disk := put_body name None (ps_disk s)\<rparr>)" for name
    by (simp add: taken_def put_body_def)
  show ?thesis
  proof (cases "pi_file item")
    case None
    then have "delete_one env target s = (Inr (), ?s)"
      by (simp add: delete_one_def r sbind_def modify_def lift_result_def)
    with \<open>taken [target] s ?s\<close> show ?thesis by blast
  next
    case (Some name)
    then have "delete_one env target s = remove_body env name ?s"
      by (simp add: delete_one_def r sbind_def modify_def)
    also have "\<dots> = (Inr (), if st_removes env name then ?s\<lparr>ps_disk := put_body name None (ps_disk s)\<rparr> else ?s)"
      by (simp add: remove_body_def)
    finally show ?thesis using removed [of name] \<open>taken [target] s ?s\<close> by (cases "st_removes env name") simp_all
  qed
qed (simp add: delete_one_def taken_def)

lemma taken_Cons: "taken [t] s s1 \<Longrightarrow> taken targets s1 s2 \<Longrightarrow> taken (t # targets) s s2"
  unfolding taken_def by (elim conjE, intro conjI) (simp, simp, blast, auto)

lemma delete_all_taken: "\<exists>s'. sfor (delete_one env) targets s = (Inr (), s') \<and> taken targets s s'"
proof (induction targets arbitrary: s)
  case (Cons t targets)
  obtain s1 where 1: "delete_one env t s = (Inr (), s1)" "taken [t] s s1" using delete_one_taken by blast
  obtain s2 where 2: "sfor (delete_one env) targets s1 = (Inr (), s2)" "taken targets s1 s2" using Cons by blast
  have "sfor (delete_one env) (t # targets) s = (Inr (), s2)" using 1(1) 2(1) by (simp add: sbind_def)
  with taken_Cons [OF 1(2) 2(2)] show ?case by blast
qed (simp add: lift_result_def taken_def)

lemma next_current_listed: "next_current items = Some c \<Longrightarrow> Some c \<in> pi_uid ` set items"
proof -
  assume c: "next_current items = Some c"
  then obtain item where item: "find is_selectable items = Some item" "pi_uid item = Some c"
    by (auto simp: next_current_def split: option.splits)
  then have "item \<in> set items" by (auto simp: find_Some_iff)
  with item(2) show ?thesis by (metis imageI)
qed

lemma current_in_next: "current_in (p\<lparr>ip_current := next_current (items_of p), ip_items := Some (items_of p)\<rparr>)"
  using next_current_listed [of "items_of p"] by (simp add: current_in_def items_of_def)

lemma save_current_listed:
  "current_in (ps_mem s) \<Longrightarrow> \<forall>item \<in> set (items_of (ps_mem s)). file_ok item \<Longrightarrow> current_listed (ps_disk s) \<Longrightarrow>
     current_listed (ps_disk (snd (save_file env s)))"
  by (auto simp: save_file_def current_listed_def)

lemma delete_current_listed:
  assumes s: "current_ok s" and get: "get_item (ps_mem s) uid = Inr item"
    and apart: "\<And>o'. pi_option item = Some o' \<Longrightarrow> ip_current (ps_mem s) = None \<or> ip_current (ps_mem s) \<notin> set (chain_slots o')"
  shows "current_listed (ps_disk (snd (delete_item env uid s)))"
proof -
  let ?targets = "Some uid # (case pi_option item of None \<Rightarrow> [] | Some o' \<Rightarrow> chain_slots o')"
  let ?c = "unwrap_or (ip_current (ps_mem s)) uid"
  obtain s1 where s1: "sfor (delete_one env) ?targets s = (Inr (), s1)" "taken ?targets s s1"
    using delete_all_taken by blast
  let ?p = "(ps_mem s1)\<lparr>ip_current := if ?c = uid then next_current (items_of (ps_mem s1)) else ip_current (ps_mem s1),
      ip_items := Some (items_of (ps_mem s1))\<rparr>"
  have uids: "\<forall>i \<in> set (items_of (ps_mem s1)). pi_uid i \<noteq> None \<and> file_ok i"
    using s s1(2) by (auto simp: current_ok_alt taken_def)
  have "current_in ?p"
  proof (cases "?c = uid")
    case True
    with current_in_next show ?thesis by simp
  next
    case False
    then obtain c where c: "ip_current (ps_mem s) = Some c" "c \<noteq> uid" by (cases "ip_current (ps_mem s)") auto
    then have "Some c \<notin> set ?targets" using apart by (auto split: option.split)
    moreover have "Some c \<in> pi_uid ` set (items_of (ps_mem s))" using s c(1) by (simp add: current_ok_alt current_in_def)
    ultimately have "Some c \<in> pi_uid ` set (items_of (ps_mem s1))" using s1(2) by (auto simp: taken_def image_iff)
    with False c s1(2) show ?thesis by (simp add: current_in_def taken_def items_of_def)
  qed
  moreover have deleted: "delete_item env uid s = sbind (save_file env) (\<lambda>_. lift_result (Inr (?c = uid))) (s1\<lparr>ps_mem := ?p\<rparr>)"
    using s1(1) by (simp add: delete_item_def get sbind_def modify_def Let_def del: sfor.simps)
  moreover have "current_listed (ps_disk s1)" using s s1(2) by (simp add: current_ok_alt taken_def current_listed_def)
  moreover have "\<forall>i \<in> set (items_of ?p). file_ok i" using uids by simp
  ultimately have "current_listed (ps_disk (snd (save_file env (s1\<lparr>ps_mem := ?p\<rparr>))))"
    by (intro save_current_listed) simp_all
  moreover have "ps_disk (snd (delete_item env uid s)) = ps_disk (snd (save_file env (s1\<lparr>ps_mem := ?p\<rparr>)))"
    by (subst deleted) (simp add: sbind_def lift_result_def split: prod.split sum.split)
  ultimately show ?thesis by simp
qed

text \<open>C22: Every store operation keeps the current profile among the listed ones on disk, whatever writes fail: after importing,
  selecting, restoring, updating, renaming or trusting it names a listed item or none, and deleting a profile
  moves it to a remaining one, unless the chain of the deleted profile names the current profile as a fragment.\<close>

theorem current_profile_stays_listed:
  assumes "current_listed d"
    and "\<And>uid p item o' c. op = DeleteProfile uid \<Longrightarrow> iprofiles_new env d = Inr p \<Longrightarrow> get_item p uid = Inr item \<Longrightarrow>
      pi_option item = Some o' \<Longrightarrow> ip_current p = Some c \<Longrightarrow> Some c \<notin> set (chain_slots o')"
  shows "current_listed (apply_op env op d)"
proof (rule current.apply_op_keeps [OF assms(1)])
  fix uid assume op: "op = DeleteProfile uid"
  show "current_listed (snd (delete_locked env uid d))"
  proof (cases "iprofiles_new env d")
    case (Inr p)
    let ?s = "\<lparr>ps_mem = p, ps_disk = d\<rparr>"
    have "current_listed (ps_disk (snd (delete_item env uid ?s)))"
    proof (cases "get_item p uid")
      case found: (Inr item)
      show ?thesis
      proof (rule delete_current_listed [OF current.loaded [OF assms(1) Inr]])
        show "get_item (ps_mem ?s) uid = Inr item" by (simp add: found)
        fix o' assume "pi_option item = Some o'"
        then show "ip_current (ps_mem ?s) = None \<or> ip_current (ps_mem ?s) \<notin> set (chain_slots o')"
          using assms(2) [OF op Inr found] by (cases "ip_current p") auto
      qed
    qed (use assms(1) in \<open>simp add: delete_item_def\<close>)
    then show ?thesis
      by (auto simp: delete_locked_def locked_def Inr sbind_def lift_result_def split: prod.splits sum.splits)
  qed (use assms(1) in \<open>simp add: delete_locked_def locked_def\<close>)
qed

theorem current_profile_stays_listed_witness:
  "current_listed (apply_op sample_store_env (DeleteProfile ''R1'') sample_disk)"
proof (rule current_profile_stays_listed)
  show "current_listed sample_disk"
    by (simp add: current_listed_def sample_disk_def current_in_def items_of_def sample_item_def empty_item_def file_ok_def
        single_filename_def)
qed (auto simp: iprofiles_new_def sample_disk_def get_item_def ok_or_def items_of_def fill_uids_def has_uid_def sample_item_def
  empty_item_def split: if_splits)

section \<open>A refresh whose body could not be written\<close>

lemma update_first_twice: "P y \<Longrightarrow> update_first P g (update_first P (\<lambda>_. y) xs) = update_first P (\<lambda>_. g y) xs"
  by (induction xs) auto

lemma put_put_item: "has_uid uid i1 \<Longrightarrow> put_item uid i2 (put_item uid i1 p) = put_item uid i2 p"
  by (simp add: put_item_def items_of_def update_first_twice)

lemma get_other_item:
  assumes "a \<noteq> b" "has_uid a item"
  shows "get_item (put_item a item p) b = get_item p b"
proof -
  have "find (has_uid b) (update_first (has_uid a) (\<lambda>_. item) xs) = find (has_uid b) xs" for xs
    using assms by (induction xs) (auto simp: has_uid_def)
  then show ?thesis by (simp add: get_item_def)
qed

lemma get_item_listing [simp]: "get_item (p\<lparr>ip_items := Some (items_of p)\<rparr>) uid = get_item p uid"
  by (simp add: get_item_def)

lemma put_item_listing [simp]: "put_item uid item (p\<lparr>ip_items := Some (items_of p)\<rparr>) = put_item uid item p"
  by (simp add: put_item_def)

lemma find_map_uid: "find (has_uid uid) (map stored_item items) = map_option stored_item (find (has_uid uid) items)"
  by (induction items) (simp_all add: has_uid_def)

definition refreshed :: "string \<Rightarrow> prf_item \<Rightarrow> prf_item \<Rightarrow> prf_item" where
  "refreshed uid item each = (refreshed_item item each)\<lparr>pi_file := Some (body_name uid item each)\<rparr>"

text \<open>With a body and a single name, the memory has the refreshed item whether or not the write succeeds.\<close>

lemma update_item_write:
  assumes "get_item (ps_mem s) uid = Inr each" "pi_file_data item = Some data" "single_filename (body_name uid item each)"
  shows "update_item env uid item s =
    sbind (write_body env (body_name uid item each) data) (\<lambda>_. save_file env)
      (s\<lparr>ps_mem := put_item uid (refreshed uid item each) (ps_mem s)\<rparr>)"
proof -
  have "pi_uid each = Some uid" using get_item_listed [OF assms(1)] by simp
  then have "has_uid uid ((refreshed_item item each)\<lparr>pi_file := f\<rparr>)" for f by (simp add: has_uid_def refreshed_item_def)
  then show ?thesis
    using assms
    by (simp add: update_item_def refresh_each_def sbind_def modify_def Let_def lift_result_def validate_profile_file_def
        put_put_item refreshed_def)
qed

lemma fetch_update_same: "get_item p uid = get_item q uid \<Longrightarrow> fetch_update env p uid o' = fetch_update env q uid o'"
  by (simp add: fetch_update_def)

text \<open>In a batch, a profile whose new body could not be written is reported as failed, but its new refresh time stays
  in memory, and the next profile that succeeds saves it: on disk the failed profile then counts as refreshed,
  with whatever the failed write left as its body.\<close>

theorem failed_write_counts_as_refresh:
  assumes items: "get_item (ps_mem s) a = Inr ia" "get_item (ps_mem s) b = Inr ib" "a \<noteq> b"
    and fetched: "fetch_update env (ps_mem s) a None = Inr \<lparr>rb_item = na, rb_fragments = []\<rparr>"
      "fetch_update env (ps_mem s) b None = Inr \<lparr>rb_item = nb, rb_fragments = []\<rparr>"
      "pi_file_data na = Some da" "pi_file_data nb = Some db"
    and names: "single_filename (body_name a na ia)" "single_filename (body_name b nb ib)" "body_name a na ia \<noteq> body_name b nb ib"
    and effects: "\<not> st_writes env (body_name a na ia) da" "st_writes env (body_name b nb ib) db" "\<forall>p. st_saves env p" "st_storage env"
  shows "\<exists>s' p stored. update_batch env [a, b] s =
      (Inr ([(b, ip_current (ps_mem s) = Some b)], [(a, BodyNotWritten (body_name a na ia))]), s') \<and>
    pd_profiles (ps_disk s') = StoredProfiles p \<and> get_item p a = Inr stored \<and> pi_updated stored = pi_updated na \<and>
    pd_bodies (ps_disk s') (body_name a na ia) = st_partial env (body_name a na ia) da (pd_bodies (ps_disk s) (body_name a na ia))"
proof -
  let ?na = "body_name a na ia" and ?nb = "body_name b nb ib"
  let ?ra = "refreshed a na ia" and ?rb = "refreshed b nb ib"
  let ?d1 = "put_body ?na (st_partial env ?na da (pd_bodies (ps_disk s) ?na)) (ps_disk s)"
  let ?s1 = "\<lparr>ps_mem = put_item a ?ra (ps_mem s), ps_disk = ?d1\<rparr>"
  let ?p2 = "put_item b ?rb (put_item a ?ra (ps_mem s))"
  let ?s2 = "\<lparr>ps_mem = ?p2, ps_disk = (put_body ?nb (Some db) ?d1)\<lparr>pd_profiles := StoredProfiles (stored_profiles ?p2)\<rparr>\<rparr>"
  have uids: "has_uid a ?ra" "has_uid b ?rb" "pi_uid ?ra = pi_uid ia"
    using get_item_listed [OF items(1)] get_item_listed [OF items(2)] by (simp_all add: has_uid_def refreshed_def refreshed_item_def)
  have first: "update_remote env a None s = (Inl (BodyNotWritten ?na), ?s1)"
    using fetched(1) effects(1,4) update_item_write [OF items(1) fetched(3) names(1), of env]
    by (simp add: update_remote_def ensure_profile_storage_def sbind_def lift_result_def guard_def write_body_def)
  have b: "get_item (ps_mem ?s1) b = Inr ib" using get_other_item [OF items(3) uids(1)] items(2) by simp
  have "fetch_update env (ps_mem ?s1) b None = Inr \<lparr>rb_item = nb, rb_fragments = []\<rparr>"
    using fetch_update_same [of "ps_mem ?s1" b "ps_mem s"] b items(2) fetched(2) by simp
  then have second: "update_remote env b None ?s1 = (Inr (ip_current (ps_mem s) = Some b), ?s2)"
    using effects update_item_write [OF b fetched(4) names(2), of env]
    by (simp add: update_remote_def ensure_profile_storage_def sbind_def lift_result_def guard_def write_body_def save_file_def
        put_item_def [of a])
  have "get_item ?p2 a = Inr ?ra"
    using get_other_item [OF items(3) [symmetric] uids(2)] get_put_item [OF items(1) uids(3)] by simp
  then have "find (has_uid a) (items_of ?p2) = Some ?ra" by (simp add: get_item_def ok_or_def split: option.splits)
  then have "find (has_uid a) (items_of (stored_profiles ?p2)) = Some (stored_item ?ra)"
    by (simp add: find_map_uid)
  then have "get_item (stored_profiles ?p2) a = Inr (stored_item ?ra)" by (simp add: get_item_def)
  moreover have "pi_updated (stored_item ?ra) = pi_updated na" by (simp add: stored_item_def refreshed_def refreshed_item_def)
  moreover have "pd_bodies (ps_disk ?s2) ?na = st_partial env ?na da (pd_bodies (ps_disk s) ?na)"
    using names(3) by (simp add: put_body_def)
  ultimately show ?thesis using first second
    by (intro exI [of _ ?s2] exI [of _ "stored_profiles ?p2"] exI [of _ "stored_item ?ra"]) simp
qed

definition chained_option :: prf_option where
  "chained_option = empty_option\<lparr>po_merge := Some ''m'', po_script := Some ''s'', po_rules := Some ''r'', po_proxies := Some ''p'',
     po_groups := Some ''g'', po_trusted_hosts := Some [''h'']\<rparr>"

definition batch_item :: "string \<Rightarrow> prf_item" where
  "batch_item uid = sample_item\<lparr>pi_uid := Some uid, pi_file := Some (uid @ ''.yaml''), pi_option := Some chained_option\<rparr>"

definition batch_store :: profile_store where
  "batch_store =
     \<lparr>ps_mem = \<lparr>ip_current = None, ip_items = Some [batch_item ''R1'', batch_item ''R2''], ip_extra = []\<rparr>, ps_disk = sample_disk\<rparr>"

lemma sample_trusts_h: "normalize_trusted_host sample_net ''h'' = Some ''h''"
proof -
  have "trim ''h'' = ''h''" by (rule trim_id_ends) (simp_all add: ascii_ws_def unicode_ws_def)
  then show ?thesis by (simp add: normalize_trusted_host_def sample_net_def)
qed

lemma sample_update:
  "\<exists>n. update_with_fallback sample_net ''u'' (Some chained_option) = Inr \<lparr>rb_item = n, rb_fragments = []\<rparr> \<and>
     pi_file_data n = Some ''body'' \<and> pi_updated n = Some 1000"
proof -
  have allow: "trusted_hosts_allowlist sample_net (Some chained_option) = [''h'']"
    by (simp add: trusted_hosts_allowlist_def chained_option_def sample_trusts_h)
  have fetch: "fetch_subscription sample_net ''u'' (Some chained_option) [''h''] = Inr (''body'', [])"
    by (simp add: fetch_subscription_def check_url_host_def extract_host_def) (simp add: sample_net_def)
  have slots: "po_merge chained_option = Some ''m''" "po_script chained_option = Some ''s''" "po_rules chained_option = Some ''r''"
    "po_proxies chained_option = Some ''p''" "po_groups chained_option = Some ''g''"
    by (simp_all add: chained_option_def)
  have bom: "strip_bom ''body'' = ''body''" by (subst strip_bom.simps) (simp add: byte_order_mark_def char_of_eq_iff)
  have net: "ne_fix_url sample_net ''u'' = Some ''u''" "ne_mapping sample_net t = Some [(YStr ''proxies'', YSeq [])]"
    "ne_now sample_net = 1000" for t
    by (simp_all add: sample_net_def)
  have "\<exists>n. from_url sample_net ''u'' None (Some chained_option) = Inr \<lparr>rb_item = n, rb_fragments = []\<rparr> \<and>
     pi_file_data n = Some ''body'' \<and> pi_updated n = Some 1000"
    by (simp add: from_url_def allow fetch bom net Let_def sample_net_no_json validate_clash_yaml_def ensure_chain_uid_def
        slots remote_item_def)
  then show ?thesis by (auto simp: update_with_fallback_def option_merge_def Let_def)
qed

theorem failed_write_counts_as_refresh_witness:
  "\<exists>s' p stored. fst (update_batch (sample_store_env\<lparr>st_writes := \<lambda>name _. name = ''R2.yaml''\<rparr>) [''R1'', ''R2''] batch_store) =
      Inr ([(''R2'', False)], [(''R1'', BodyNotWritten ''R1.yaml'')]) \<and>
    s' = snd (update_batch (sample_store_env\<lparr>st_writes := \<lambda>name _. name = ''R2.yaml''\<rparr>) [''R1'', ''R2''] batch_store) \<and>
    pd_profiles (ps_disk s') = StoredProfiles p \<and> get_item p ''R1'' = Inr stored \<and> pi_updated stored = Some 1000"
proof -
  let ?env = "sample_store_env\<lparr>st_writes := \<lambda>name _. name = ''R2.yaml''\<rparr>"
  have items: "get_item (ps_mem batch_store) ''R1'' = Inr (batch_item ''R1'')" "get_item (ps_mem batch_store) ''R2'' = Inr (batch_item ''R2'')"
    by (simp_all add: batch_store_def get_item_def items_of_def has_uid_def batch_item_def)
  have item: "pi_type (batch_item uid) = Some ''remote''" "pi_url (batch_item uid) = Some ''u''"
    "pi_option (batch_item uid) = Some chained_option" "pi_file (batch_item uid) = Some (uid @ ''.yaml'')" for uid
    by (simp_all add: batch_item_def sample_item_def)
  have net: "st_net ?env uid = sample_net" for uid by (simp add: sample_store_env_def)
  obtain n where n: "update_with_fallback sample_net ''u'' (Some chained_option) = Inr \<lparr>rb_item = n, rb_fragments = []\<rparr>"
    "pi_file_data n = Some ''body''" "pi_updated n = Some 1000"
    using sample_update by blast
  have fetch: "fetch_update ?env (ps_mem batch_store) ''R1'' None = Inr \<lparr>rb_item = n, rb_fragments = []\<rparr>"
    "fetch_update ?env (ps_mem batch_store) ''R2'' None = Inr \<lparr>rb_item = n, rb_fragments = []\<rparr>"
    using net by (simp_all add: fetch_update_def items item option_merge_def n)
  have names: "body_name ''R1'' n (batch_item ''R1'') = ''R1.yaml''" "body_name ''R2'' n (batch_item ''R2'') = ''R2.yaml''"
    by (simp_all add: body_name_def item)
  show ?thesis
    using failed_write_counts_as_refresh [OF items _ fetch n(2,2)] n(3)
    by (force simp: names single_filename_def sample_store_env_def batch_store_def)
qed

section \<open>Trusting a host\<close>

text \<open>
  What the trust relies on of URL parsing: the host of a URL is not empty, has no white space around it and is not itself
  a URL.
\<close>

definition hosts_are_names :: "net_env \<Rightarrow> bool" where
  "hosts_are_names env \<longleftrightarrow>
     (\<forall>s u h. ne_url env s = Some u \<longrightarrow> url_host u = Some h \<longrightarrow> h \<noteq> [] \<and> trim h = h \<and> ne_url env h = None)"

lemma normalize_idem:
  assumes "hosts_are_names env" "normalize_trusted_host env raw = Some h"
  shows "normalize_trusted_host env h = Some h"
proof (cases "ne_url env (trim raw)")
  case None
  then have "h = trim raw" "trim raw \<noteq> []" using assms(2) by (auto simp: normalize_trusted_host_def Let_def split: if_splits)
  with None show ?thesis by (simp add: normalize_trusted_host_def)
next
  case (Some u)
  then have "url_host u = Some h" using assms(2) by (auto simp: normalize_trusted_host_def Let_def split: if_splits)
  with Some assms(1) show ?thesis by (auto simp: normalize_trusted_host_def hosts_are_names_def)
qed

lemma filter_map_idem: "(\<And>y. y \<in> set ys \<Longrightarrow> f y = Some y) \<Longrightarrow> filter_map f ys = ys"
  by (induction ys) auto

lemma merged_hosts:
  assumes "hosts_are_names env" "merge_trusted_host env existing raw = Some merged"
  shows "\<exists>h. normalize_trusted_host env raw = Some h \<and>
    set (filter_map (normalize_trusted_host env) merged) = insert h (set (filter_map (normalize_trusted_host env) (unwrap_or existing [])))"
proof -
  let ?n = "normalize_trusted_host env"
  let ?old = "filter_map ?n (unwrap_or existing [])"
  obtain h where h: "?n raw = Some h" "merged = (if h \<in> set ?old then ?old else ?old @ [h])"
    using assms(2) by (auto simp: merge_trusted_host_def Let_def)
  have "\<And>y. y \<in> set merged \<Longrightarrow> ?n y = Some y"
    using h normalize_idem [OF assms(1)] by (auto split: if_splits)
  then have "filter_map ?n merged = merged" by (rule filter_map_idem)
  moreover have "set merged = insert h (set ?old)" using h(2) by auto
  ultimately show ?thesis using h(1) by auto
qed

lemma check_url_host_insert:
  assumes "set allow' = insert h (set allow)"
  shows "check_url_host env url' allow' = Inr () \<longleftrightarrow>
    check_url_host env url' allow = Inr () \<or> extract_host env url' = Inr h"
proof (cases "extract_host env url'")
  case (Inr host)
  then show ?thesis using assms by (cases "host = h") (auto simp: check_url_host_def)
qed (simp add: check_url_host_def)

lemma patch_item_saved:
  assumes "patch_item env uid patch s = (Inr (), s')"
  shows "\<exists>each. get_item (ps_mem s) uid = Inr each \<and>
    pd_profiles (ps_disk s') = StoredProfiles (stored_profiles (put_item uid (patch_fields patch each) (ps_mem s)))"
  using assms
  by (auto simp: patch_item_def sbind_def lift_result_def modify_def save_file_def split: prod.splits sum.splits if_splits)

lemma get_item_filled:
  assumes "iprofiles_new env d = Inr p" "pd_profiles d = StoredProfiles q" "\<forall>i \<in> set (items_of q). pi_uid i \<noteq> None"
  shows "get_item p uid = get_item q uid"
proof -
  have "fill_uids gen items = items" if "\<forall>i \<in> set items. pi_uid i \<noteq> None" for gen :: "nat \<Rightarrow> string" and items
    by (rule nth_equalityI) (use that in \<open>auto simp: fill_uids_def nth_enumerate_eq\<close>)
  then show ?thesis using assms items_of_new [OF assms(1)] by (simp add: get_item_def)
qed

lemma loaded_uids: "iprofiles_new env d = Inr p \<Longrightarrow> item \<in> set (items_of p) \<Longrightarrow> pi_uid item \<noteq> None"
  using filled_item by (fastforce simp: items_of_new split: profiles_file.splits)

lemma saved_put:
  assumes "iprofiles_new env d = Inr p" "get_item p uid = Inr each" "pi_uid item = pi_uid each"
    and "pd_profiles d' = StoredProfiles (stored_profiles (put_item uid item p))"
  shows "\<exists>p'. iprofiles_new env d' = Inr p' \<and> get_item p' uid = Inr (stored_item item)"
proof -
  let ?q = "stored_profiles (put_item uid item p)"
  obtain p' where p': "iprofiles_new env d' = Inr p'" by (simp add: iprofiles_new_def assms(4))
  have "pi_uid i \<noteq> None" if i: "i \<in> set (items_of ?q)" for i
  proof -
    obtain j where "i = stored_item j" "j \<in> set (update_first (has_uid uid) (\<lambda>_. item) (items_of p))"
      using i by auto
    then show ?thesis
      using set_update_first [of j] loaded_uids [OF assms(1)] get_item_listed [OF assms(2)] assms(3) by fastforce
  qed
  then have "get_item p' uid = get_item ?q uid" using get_item_filled [OF p' assms(4)] by blast
  moreover have "get_item (put_item uid item p) uid = Inr item" by (rule get_put_item [OF assms(2,3)])
  then have "get_item ?q uid = Inr (stored_item item)"
    by (simp add: get_item_def find_map_uid ok_or_def split: option.splits)
  ultimately show ?thesis using p' by simp
qed

lemma saved_item:
  assumes "iprofiles_new env d = Inr p" "patch_item env uid patch \<lparr>ps_mem = p, ps_disk = d\<rparr> = (Inr (), s')"
  shows "\<exists>each p'. get_item p uid = Inr each \<and> iprofiles_new env (ps_disk s') = Inr p' \<and>
    get_item p' uid = Inr (stored_item (patch_fields patch each))"
proof -
  obtain each where each: "get_item p uid = Inr each"
    "pd_profiles (ps_disk s') = StoredProfiles (stored_profiles (put_item uid (patch_fields patch each) p))"
    using patch_item_saved [OF assms(2)] by auto
  have "pi_uid (patch_fields patch each) = pi_uid each" by (simp add: patch_fields_def)
  from saved_put [OF assms(1) each(1) this each(2)] each(1) show ?thesis by blast
qed

text \<open>After the user has trusted a host for a profile, the next update of this profile passes the host check for exactly
  one host more than before, the normalised one, and a profile that is not remote or has another uid is refused.\<close>

theorem trusting_adds_one_host:
  assumes "hosts_are_names net" "st_net env uid = net"
    and "iprofiles_new env d = Inr p" "add_trusted_host_locked env uid host d = (Inr (), d')"
  shows "\<exists>h item p' item'. normalize_trusted_host net host = Some h \<and> get_item p uid = Inr item \<and> pi_type item = Some ''remote'' \<and>
    iprofiles_new env d' = Inr p' \<and> get_item p' uid = Inr item' \<and> pi_url item' = pi_url item \<and>
    (\<forall>url'. check_url_host net url' (trusted_hosts_allowlist net (pi_option item')) = Inr () \<longleftrightarrow>
       check_url_host net url' (trusted_hosts_allowlist net (pi_option item)) = Inr () \<or> extract_host net url' = Inr h)"
proof -
  let ?s = "\<lparr>ps_mem = p, ps_disk = d\<rparr>"
  obtain o' s' where o': "trusted_option env p uid host = Inr o'"
    "patch_item env uid (empty_item\<lparr>pi_option := Some o'\<rparr>) ?s = (Inr (), s')" "d' = ps_disk s'"
    using assms(3,4)
    by (auto simp: add_trusted_host_locked_def locked_def sbind_def lift_result_def split: sum.splits prod.splits)
  obtain item p' where item: "get_item p uid = Inr item" "iprofiles_new env d' = Inr p'"
    "get_item p' uid = Inr (stored_item (patch_fields (empty_item\<lparr>pi_option := Some o'\<rparr>) item))"
    using saved_item [OF assms(3) o'(2)] o'(3) by auto
  let ?item' = "stored_item (patch_fields (empty_item\<lparr>pi_option := Some o'\<rparr>) item)"
  obtain merged where merged: "pi_type item = Some ''remote''" "po_trusted_hosts o' = Some merged"
    "merge_trusted_host net (po_trusted_hosts (unwrap_or (pi_option item) empty_option)) host = Some merged"
    using o'(1) item(1) assms(2) by (auto simp: trusted_option_def Let_def)
  have new: "trusted_hosts_allowlist net (pi_option ?item') = filter_map (normalize_trusted_host net) merged"
    using merged(2)
    by (cases "pi_option item")
      (simp_all add: trusted_hosts_allowlist_def stored_item_def patch_fields_def empty_item_def option_merge_def overlay_option_def)
  have old: "trusted_hosts_allowlist net (pi_option item) =
      filter_map (normalize_trusted_host net) (unwrap_or (po_trusted_hosts (unwrap_or (pi_option item) empty_option)) [])"
    by (cases "pi_option item"; cases "po_trusted_hosts (the (pi_option item))")
      (simp_all add: trusted_hosts_allowlist_def empty_option_def)
  obtain h where h: "normalize_trusted_host net host = Some h"
    "set (trusted_hosts_allowlist net (pi_option ?item')) = insert h (set (trusted_hosts_allowlist net (pi_option item)))"
    using merged_hosts [OF assms(1) merged(3)] new old by auto
  have "pi_url ?item' = pi_url item" by (simp add: stored_item_def patch_fields_def empty_item_def)
  with h item merged(1) check_url_host_insert [OF h(2)] show ?thesis by blast
qed

definition name_net :: net_env where
  "name_net = sample_net\<lparr>ne_url := (\<lambda>s. if s = ''https://h/s'' then ne_url sample_net s else None)\<rparr>"

theorem trusting_adds_one_host_witness:
  "\<exists>d' p' item'. add_trusted_host_locked (sample_store_env\<lparr>st_net := \<lambda>_. name_net\<rparr>) ''R1'' ''h'' sample_disk = (Inr (), d') \<and>
     iprofiles_new (sample_store_env\<lparr>st_net := \<lambda>_. name_net\<rparr>) d' = Inr p' \<and> get_item p' ''R1'' = Inr item' \<and>
     check_url_host name_net ''https://h/s'' (trusted_hosts_allowlist name_net (pi_option item')) = Inr ()"
proof -
  let ?env = "sample_store_env\<lparr>st_net := \<lambda>_. name_net\<rparr>"
  have trim_h: "trim ''h'' = ''h''" by (rule trim_id_ends) (simp_all add: ascii_ws_def unicode_ws_def)
  have names: "hosts_are_names name_net" by (simp add: hosts_are_names_def name_net_def sample_net_def trim_h)
  have n: "normalize_trusted_host name_net ''h'' = Some ''h''" by (simp add: normalize_trusted_host_def trim_h name_net_def)
  have net: "st_net ?env uid = name_net" for uid by simp
  obtain p where p: "iprofiles_new ?env sample_disk = Inr p" "get_item p ''R1'' = Inr sample_item"
    by (simp add: iprofiles_new_def sample_disk_def fill_uids_def items_of_def sample_item_def get_item_def has_uid_def)
  have t: "trusted_option ?env p ''R1'' ''h'' = Inr (empty_option\<lparr>po_trusted_hosts := Some [''h'']\<rparr>)"
    using n by (simp add: trusted_option_def p(2) sample_item_def empty_item_def Let_def merge_trusted_host_def empty_option_def)
  have saves: "st_saves sample_store_env q" for q by (simp add: sample_store_env_def)
  have "\<exists>d'. add_trusted_host_locked ?env ''R1'' ''h'' sample_disk = (Inr (), d')"
    using t p(2)
    by (simp add: add_trusted_host_locked_def locked_def p(1) sbind_def lift_result_def patch_item_def check_item_file_def
        empty_item_def modify_def save_file_def saves)
  then obtain d' where d': "add_trusted_host_locked ?env ''R1'' ''h'' sample_disk = (Inr (), d')" by blast
  have e: "extract_host name_net ''https://h/s'' = Inr ''h''" by (simp add: extract_host_def name_net_def sample_net_def)
  from trusting_adds_one_host [OF names net p(1) d'] d' e n show ?thesis by auto
qed

end
