(* ===== verification/Proxies.thy ===== *)
theory Proxies
  imports Subscribe "HOL-Library.List_Lexorder" "HOL-Library.Char_ord"
begin

text \<open>
  Proxy groups and delay tests (\<open>src-tui/src/services/proxy.rs\<close>): the leaves of the runtime groups, the
  identities of delay targets with their keys, the resolution of a displayed name to the providers its
  groups may use, and the scheduler that keeps at most four requests in flight. A hash map is an association
  list with distinct keys whose order is arbitrary; a request is answered by a relation. The properties say
  that keys identify targets, which targets a name resolves to, and that a batch answers every target once.
\<close>

section \<open>Groups\<close>

record delay_history =
  dh_time :: string
  dh_delay :: u64

record runtime_group =
  rg_type :: string
  rg_now :: "string option"
  rg_all :: "string list option"
  rg_history :: "delay_history list option"

type_synonym group_map = "(string \<times> runtime_group) list"

definition policy_pseudo_nodes :: "string list" where
  "policy_pseudo_nodes = [''DIRECT'', ''REJECT'', ''REJECT-DROP'', ''PASS'', ''COMPATIBLE'']"

definition max_delay_concurrency :: nat where
  "max_delay_concurrency = 4"

definition is_group :: "group_map \<Rightarrow> string \<Rightarrow> bool" where
  "is_group groups name \<longleftrightarrow> is_some_and (map_of groups name) (\<lambda>group'. rg_all group' \<noteq> None)"

text \<open>Sorting and removing adjacent duplicates, as \<open>sort_unstable\<close> with \<open>dedup\<close> and a \<open>BTreeSet\<close> do.\<close>

definition sorted_unique :: "string list \<Rightarrow> string list" where
  "sorted_unique names = remdups_adj (sort names)"

definition leaf_targets :: "group_map \<Rightarrow> string option \<Rightarrow> string list" where
  "leaf_targets groups group' =
     sorted_unique
       (filter (\<lambda>name. name \<notin> set policy_pseudo_nodes \<and> \<not> is_group groups name)
         (concat (filter_map (\<lambda>(_, g). opt_filter (\<lambda>nodes. nodes \<noteq> []) (rg_all g))
           (filter (\<lambda>(name, _). group' = None \<or> group' = Some name) groups))))"

definition last_delay :: "group_map \<Rightarrow> string \<Rightarrow> u64 option" where
  "last_delay groups name =
     Option.bind (map_of groups name) (\<lambda>proxy.
     Option.bind (rg_history proxy) (\<lambda>history.
       if history = [] then None else Some (dh_delay (last history))))"

section \<open>Targets\<close>

record delay_target =
  dt_key :: string
  dt_label :: string
  dt_provider :: "string option"
  dt_name :: string

definition native_target :: "string \<Rightarrow> delay_target" where
  "native_target name =
     \<lparr>dt_key = ''n'' @ show_nat (length name) @ '':'' @ name, dt_label = name, dt_provider = None, dt_name = name\<rparr>"

definition provider_target :: "string \<Rightarrow> string \<Rightarrow> delay_target" where
  "provider_target provider name =
     \<lparr>dt_key = ''p'' @ show_nat (length provider) @ '':'' @ provider @ ''n'' @ show_nat (length name) @ '':'' @ name,
      dt_label = provider @ ''/'' @ name, dt_provider = Some provider, dt_name = name\<rparr>"

definition rejected_target :: "string \<Rightarrow> delay_target" where
  "rejected_target name =
     \<lparr>dt_key = ''r'' @ show_nat (length name) @ '':'' @ name, dt_label = name, dt_provider = None, dt_name = name\<rparr>"

definition contains_target_identity :: "delay_target \<Rightarrow> delay_target list \<Rightarrow> bool" where
  "contains_target_identity target candidates \<longleftrightarrow> (\<exists>candidate \<in> set candidates. dt_key candidate = dt_key target)"

section \<open>Provider scopes\<close>

record provider_scope =
  sc_use :: "string list"
  sc_all :: bool

definition group_scope_entry :: "ymapping \<Rightarrow> (string \<times> provider_scope) option" where
  "group_scope_entry group' =
     map_option
       (\<lambda>name. (name,
          \<lparr>sc_use = filter_map y_str (unwrap_or (Option.bind (ymap_get group' ''use'') y_seq) []),
           sc_all = unwrap_or (ymap_bool group' ''include-all-providers'') False\<rparr>))
       (ymap_str group' ''name'')"

text \<open>Collecting into a hash map keeps the last scope of a name.\<close>

definition configured_provider_scopes :: "ymapping \<Rightarrow> (string \<times> provider_scope) list" where
  "configured_provider_scopes config =
     fold (\<lambda>(name, scope). assoc_put name scope)
       (filter_map group_scope_entry
         (filter_map y_map (unwrap_or (Option.bind (ymap_get config ''proxy-groups'') y_seq) []))) []"

definition configured_proxy_names :: "ymapping \<Rightarrow> string list" where
  "configured_proxy_names config =
     filter_map (\<lambda>proxy. ymap_str proxy ''name'')
       (filter_map y_map (unwrap_or (Option.bind (ymap_get config ''proxies'') y_seq) []))"

text \<open>The providers of the running core, each with the names of its nodes.\<close>

type_synonym provider_map = "(string \<times> string list) list"

definition sorted_provider_names :: "provider_map \<Rightarrow> string list" where
  "sorted_provider_names providers = sort (map fst providers)"

definition has_proxy_provider_scope :: "ymapping \<Rightarrow> bool" where
  "has_proxy_provider_scope config \<longleftrightarrow>
     (\<exists>scope \<in> snd ` set (configured_provider_scopes config). sc_all scope \<or> sc_use scope \<noteq> [])"

section \<open>Resolution\<close>

datatype reject_reason = SeveralEntries string nat | NoProvenance

record target_resolution =
  tr_targets :: "delay_target list"
  tr_rejected :: "(string \<times> reject_reason) list"

definition push_rejection :: "string \<Rightarrow> reject_reason \<Rightarrow> target_resolution \<Rightarrow> target_resolution" where
  "push_rejection name reason res =
     (if (name, reason) \<in> set (tr_rejected res) then res
      else res\<lparr>tr_rejected := tr_rejected res @ [(name, reason)]\<rparr>)"

definition push_target :: "delay_target \<Rightarrow> target_resolution \<Rightarrow> target_resolution" where
  "push_target target res =
     (if dt_key target \<in> dt_key ` set (tr_targets res) then res
      else res\<lparr>tr_targets := tr_targets res @ [target]\<rparr>)"

definition source_groups :: "group_map \<Rightarrow> (string \<times> provider_scope) list \<Rightarrow> string option \<Rightarrow> string \<Rightarrow> string list" where
  "source_groups groups scopes group_scope name =
     (case group_scope of
        Some group' \<Rightarrow> [group']
      | None \<Rightarrow>
          (let containing = sort (map fst (filter (\<lambda>(_, g). is_some_and (rg_all g) (\<lambda>all. name \<in> set all)) groups))
           in if containing = [] then map fst scopes else containing))"

definition scope_providers :: "(string \<times> provider_scope) list \<Rightarrow> string list \<Rightarrow> string \<Rightarrow> string list" where
  "scope_providers scopes all_names group' =
     (case map_of scopes group' of
        None \<Rightarrow> []
      | Some scope \<Rightarrow> sc_use scope @ (if sc_all scope then all_names else []))"

definition allowed_providers ::
  "group_map \<Rightarrow> (string \<times> provider_scope) list \<Rightarrow> provider_map \<Rightarrow> string option \<Rightarrow> string \<Rightarrow> string list" where
  "allowed_providers groups scopes providers group_scope name =
     sorted_unique (concat (map (scope_providers scopes (sorted_provider_names providers))
       (source_groups groups scopes group_scope name)))"

definition entries_of :: "provider_map \<Rightarrow> string \<Rightarrow> string \<Rightarrow> nat" where
  "entries_of providers provider name = count_list (unwrap_or (map_of providers provider) []) name"

definition resolve_provider :: "provider_map \<Rightarrow> string \<Rightarrow> string \<Rightarrow> target_resolution \<Rightarrow> target_resolution" where
  "resolve_provider providers name provider res =
     (let n = entries_of providers provider name in
      if n = 0 then res
      else if 1 < n then push_rejection name (SeveralEntries provider n) res
      else push_target (provider_target provider name) res)"

definition resolve_name ::
  "group_map \<Rightarrow> ymapping \<Rightarrow> provider_map \<Rightarrow> string option \<Rightarrow> string \<Rightarrow> target_resolution \<Rightarrow> target_resolution" where
  "resolve_name groups config providers group_scope name res =
     (let allowed = allowed_providers groups (configured_provider_scopes config) providers group_scope name;
          res = fold (resolve_provider providers name) allowed res
      in if \<exists>provider \<in> set allowed. entries_of providers provider name \<noteq> 0 then res
         else if name \<in> set (configured_proxy_names config) then push_target (native_target name) res
         else push_rejection name NoProvenance res)"

definition resolve_delay_targets ::
  "group_map \<Rightarrow> string list \<Rightarrow> ymapping \<Rightarrow> provider_map \<Rightarrow> string option \<Rightarrow> target_resolution" where
  "resolve_delay_targets groups names config providers group_scope =
     fold (resolve_name groups config providers group_scope) names \<lparr>tr_targets = [], tr_rejected = []\<rparr>"

definition display_target_keys ::
  "group_map \<Rightarrow> ymapping \<Rightarrow> provider_map \<Rightarrow> ((string \<times> string) \<times> delay_target list) list" where
  "display_target_keys groups config providers =
     fold (\<lambda>(group', name) keys.
            if name \<in> set policy_pseudo_nodes \<or> is_group groups name then keys
            else (let resolved = resolve_delay_targets groups [name] config providers (Some group') in
                  if tr_targets resolved = [] then keys else assoc_put (group', name) (tr_targets resolved) keys))
       (concat (map (\<lambda>group'. map (Pair group') (unwrap_or (Option.bind (map_of groups group') rg_all) []))
         (sort (map fst groups)))) []"

section \<open>Batches of requests\<close>

text \<open>
  The loop of \<open>delay_many_with_request\<close>: it fills up the running requests, waits for any of them and stores
  its result at the index of its target. A task that was aborted or panicked answers with an error.
\<close>

record 'r delay_batch =
  db_pending :: "(nat \<times> delay_target) list"
  db_running :: "(nat \<times> delay_target) list"
  db_results :: "(delay_target \<times> 'r) option list"
  db_progress :: "(delay_target \<times> 'r) list"

fun refill :: "(nat \<times> delay_target) list \<Rightarrow> (nat \<times> delay_target) list \<Rightarrow>
    (nat \<times> delay_target) list \<times> (nat \<times> delay_target) list" where
  "refill running [] = (running, [])"
| "refill running (p # pending) =
     (if length running < max_delay_concurrency then refill (running @ [p]) pending else (running, p # pending))"

definition refilled :: "'r delay_batch \<Rightarrow> 'r delay_batch" where
  "refilled b = (case refill (db_running b) (db_pending b) of
     (running, pending) \<Rightarrow> b\<lparr>db_running := running, db_pending := pending\<rparr>)"

definition start_batch :: "delay_target list \<Rightarrow> 'r delay_batch" where
  "start_batch targets =
     refilled \<lparr>db_pending = enumerate 0 targets, db_running = [], db_results = replicate (length targets) None,
       db_progress = []\<rparr>"

definition complete :: "nat \<times> delay_target \<Rightarrow> 'r \<Rightarrow> 'r delay_batch \<Rightarrow> 'r delay_batch" where
  "complete p r b =
     refilled (b\<lparr>db_running := remove1 p (db_running b),
       db_results := (db_results b)[fst p := Some (snd p, r)], db_progress := db_progress b @ [(snd p, r)]\<rparr>)"

inductive batch_run :: "(delay_target \<Rightarrow> 'r \<Rightarrow> bool) \<Rightarrow> delay_target list \<Rightarrow> nat \<Rightarrow> 'r delay_batch \<Rightarrow> bool"
  for answers targets where
  started: "batch_run answers targets 0 (start_batch targets)"
| completed: "batch_run answers targets n b \<Longrightarrow> p \<in> set (db_running b) \<Longrightarrow> answers (snd p) r \<Longrightarrow>
    batch_run answers targets (Suc n) (complete p r b)"

text \<open>The loop ends when nothing runs; what it returns.\<close>

definition batch_results :: "'r delay_batch \<Rightarrow> (delay_target \<times> 'r) list" where
  "batch_results b = cat_options (db_results b)"

section \<open>Keys identify targets\<close>

lemma set_sorted_unique [simp]: "set (sorted_unique names) = set names"
  by (simp add: sorted_unique_def)

lemma distinct_sorted_unique [simp]: "distinct (sorted_unique names)"
proof -
  have "distinct (remdups_adj xs)" if "sorted xs" for xs :: "string list"
    using that by (induction xs rule: remdups_adj.induct) auto
  then show ?thesis by (simp add: sorted_unique_def)
qed

lemma colon_not_in_number: "CHR '':'' \<notin> set (show_nat n)"
proof
  assume "CHR '':'' \<in> set (show_nat n)"
  then obtain d where d: "d < 10" "CHR '':'' = digit_char d" using set_show_nat by blast
  then have "(of_char (CHR '':'') :: nat) = 48 + d" using of_char_digit_char [OF d(1)] by simp
  with d(1) show False by simp
qed

lemma show_nat_eq_iff [simp]: "show_nat a = show_nat b \<longleftrightarrow> a = b"
  using digits_val_show_nat by (metis option.inject)

lemma split_numbered: "split_once CHR '':'' (show_nat a @ CHR '':'' # x) = Some (show_nat a, x)"
  by (rule split_once_append) (rule colon_not_in_number)

lemma numbered_eq:
  assumes "show_nat a @ CHR '':'' # x = show_nat b @ CHR '':'' # y"
  shows "a = b \<and> x = y"
proof -
  have "Some (show_nat a, x) = Some (show_nat b, y)"
    using arg_cong [OF assms, of "split_once CHR '':''"] unfolding split_numbered .
  then show ?thesis unfolding option.inject prod.inject show_nat_eq_iff .
qed

lemma tagged_number_eq: "c # show_nat (length a) @ CHR '':'' # a = c # show_nat (length b) @ CHR '':'' # b \<longleftrightarrow> a = b"
  unfolding list.inject using numbered_eq by blast

lemma native_key: "dt_key (native_target a) = CHR ''n'' # show_nat (length a) @ CHR '':'' # a"
  by (simp add: native_target_def)

lemma rejected_key: "dt_key (rejected_target a) = CHR ''r'' # show_nat (length a) @ CHR '':'' # a"
  by (simp add: rejected_target_def)

lemma provider_key:
  "dt_key (provider_target p a) = CHR ''p'' # show_nat (length p) @ CHR '':'' # (p @ CHR ''n'' # show_nat (length a) @ CHR '':'' # a)"
  by (simp add: provider_target_def)

lemma native_key_eq: "dt_key (native_target a) = dt_key (native_target b) \<longleftrightarrow> a = b"
  unfolding native_key by (rule tagged_number_eq)

lemma rejected_key_eq: "dt_key (rejected_target a) = dt_key (rejected_target b) \<longleftrightarrow> a = b"
  unfolding rejected_key by (rule tagged_number_eq)

lemma provider_key_eq: "dt_key (provider_target p a) = dt_key (provider_target q b) \<longleftrightarrow> p = q \<and> a = b"
proof
  let ?r = "\<lambda>a. CHR ''n'' # show_nat (length a) @ CHR '':'' # a"
  assume "dt_key (provider_target p a) = dt_key (provider_target q b)"
  then have "length p = length q \<and> p @ ?r a = q @ ?r b"
    unfolding provider_key list.inject using numbered_eq by blast
  then have "p = q \<and> ?r a = ?r b" using append_eq_append_conv [of p q "?r a" "?r b"] by blast
  then have "p = q" "?r a = ?r b" by blast+
  then show "p = q \<and> a = b" unfolding tagged_number_eq by blast
qed simp

lemma native_provider_key: "dt_key (native_target a) \<noteq> dt_key (provider_target p b)"
  by (simp add: native_key provider_key)

definition canonical :: "delay_target \<Rightarrow> bool" where
  "canonical t \<longleftrightarrow> (\<exists>name. t = native_target name) \<or> (\<exists>provider name. t = provider_target provider name)"

lemma canonical_key: "canonical t \<Longrightarrow> canonical u \<Longrightarrow> dt_key t = dt_key u \<Longrightarrow> t = u"
  using native_provider_key native_provider_key [symmetric]
  by (auto simp: canonical_def native_key_eq provider_key_eq)

lemma canonical_intros [simp]: "canonical (native_target name)" "canonical (provider_target provider name)"
  by (auto simp: canonical_def)

text \<open>The key of a delay target is its identity: two targets, each a native node, a node of a provider or a rejected
  name, have the same key only if they are of the same kind and have the same provider and the same name, whatever
  characters the names contain.\<close>

theorem target_keys_identify:
  "(dt_key (native_target a) = dt_key (native_target b) \<longleftrightarrow> a = b) \<and>
   (dt_key (provider_target p a) = dt_key (provider_target q b) \<longleftrightarrow> p = q \<and> a = b) \<and>
   (dt_key (rejected_target a) = dt_key (rejected_target b) \<longleftrightarrow> a = b) \<and>
   dt_key (native_target a) \<noteq> dt_key (provider_target p b) \<and> dt_key (rejected_target a) \<noteq> dt_key (native_target b) \<and>
   dt_key (rejected_target a) \<noteq> dt_key (provider_target p b)"
  unfolding native_key_eq provider_key_eq rejected_key_eq
  by (intro conjI native_provider_key refl) (simp_all add: rejected_key native_key provider_key)

section \<open>What a name resolves to\<close>

text \<open>The providers the effective profile lets a name come from, as declared.\<close>

definition provider_in_scope :: "group_map \<Rightarrow> ymapping \<Rightarrow> provider_map \<Rightarrow> string option \<Rightarrow> string \<Rightarrow> string \<Rightarrow> bool" where
  "provider_in_scope groups config providers group_scope name provider \<longleftrightarrow>
     (\<exists>g \<in> set (source_groups groups (configured_provider_scopes config) group_scope name). \<exists>scope.
        map_of (configured_provider_scopes config) g = Some scope \<and>
        (provider \<in> set (sc_use scope) \<or> sc_all scope \<and> provider \<in> fst ` set providers))"

definition resolves_to :: "group_map \<Rightarrow> ymapping \<Rightarrow> provider_map \<Rightarrow> string option \<Rightarrow> string \<Rightarrow> delay_target \<Rightarrow> bool" where
  "resolves_to groups config providers group_scope name t \<longleftrightarrow>
     (\<exists>provider. provider_in_scope groups config providers group_scope name provider \<and>
        entries_of providers provider name = 1 \<and> t = provider_target provider name) \<or>
     (\<forall>provider. provider_in_scope groups config providers group_scope name provider \<longrightarrow> entries_of providers provider name = 0) \<and>
       name \<in> set (configured_proxy_names config) \<and> t = native_target name"

fun rejected_for ::
  "group_map \<Rightarrow> ymapping \<Rightarrow> provider_map \<Rightarrow> string option \<Rightarrow> string \<Rightarrow> reject_reason \<Rightarrow> bool" where
  "rejected_for groups config providers group_scope name (SeveralEntries provider n) \<longleftrightarrow>
     provider_in_scope groups config providers group_scope name provider \<and> n = entries_of providers provider name \<and> 1 < n"
| "rejected_for groups config providers group_scope name NoProvenance \<longleftrightarrow>
     (\<forall>provider. provider_in_scope groups config providers group_scope name provider \<longrightarrow> entries_of providers provider name = 0) \<and>
     name \<notin> set (configured_proxy_names config)"

lemma set_allowed:
  "provider \<in> set (allowed_providers groups (configured_provider_scopes config) providers group_scope name) \<longleftrightarrow>
     provider_in_scope groups config providers group_scope name provider"
proof -
  have "provider \<in> set (scope_providers scopes names g) \<longleftrightarrow>
      (\<exists>scope. map_of scopes g = Some scope \<and> (provider \<in> set (sc_use scope) \<or> sc_all scope \<and> provider \<in> set names))"
    for scopes names g
    by (cases "map_of scopes g") (simp_all add: scope_providers_def)
  then show ?thesis by (simp add: allowed_providers_def provider_in_scope_def sorted_provider_names_def)
qed

definition resolution_wf :: "target_resolution \<Rightarrow> bool" where
  "resolution_wf res \<longleftrightarrow> (\<forall>t \<in> set (tr_targets res). canonical t) \<and> distinct (map dt_key (tr_targets res)) \<and> distinct (tr_rejected res)"

lemma push_target_set:
  assumes "resolution_wf res" "canonical t"
  shows "resolution_wf (push_target t res) \<and> set (tr_targets (push_target t res)) = insert t (set (tr_targets res)) \<and>
    tr_rejected (push_target t res) = tr_rejected res"
  using assms canonical_key [of t] by (auto simp: push_target_def resolution_wf_def)

lemma push_rejection_set:
  assumes "resolution_wf res"
  shows "resolution_wf (push_rejection name reason res) \<and> tr_targets (push_rejection name reason res) = tr_targets res \<and>
    set (tr_rejected (push_rejection name reason res)) = insert (name, reason) (set (tr_rejected res))"
  using assms by (auto simp: push_rejection_def resolution_wf_def)

lemma resolve_providers_set:
  assumes "resolution_wf res"
  shows "resolution_wf (fold (resolve_provider providers name) allowed res) \<and>
    set (tr_targets (fold (resolve_provider providers name) allowed res)) =
      set (tr_targets res) \<union> {provider_target p name | p. p \<in> set allowed \<and> entries_of providers p name = 1} \<and>
    set (tr_rejected (fold (resolve_provider providers name) allowed res)) =
      set (tr_rejected res) \<union>
        {(name, SeveralEntries p (entries_of providers p name)) | p. p \<in> set allowed \<and> 1 < entries_of providers p name}"
  using assms
proof (induction allowed arbitrary: res)
  case (Cons p allowed)
  let ?res = "resolve_provider providers name p res"
  have step: "resolution_wf ?res"
    "set (tr_targets ?res) = set (tr_targets res) \<union> (if entries_of providers p name = 1 then {provider_target p name} else {})"
    "set (tr_rejected ?res) = set (tr_rejected res) \<union>
      (if 1 < entries_of providers p name then {(name, SeveralEntries p (entries_of providers p name))} else {})"
    using push_target_set [OF Cons.prems] push_rejection_set [OF Cons.prems] Cons.prems
    by (auto simp: resolve_provider_def Let_def)
  show ?case using Cons.IH [OF step(1)] step(2,3) by auto
qed simp

lemma resolve_name_set:
  assumes "resolution_wf res"
  shows "resolution_wf (resolve_name groups config providers group_scope name res) \<and>
    set (tr_targets (resolve_name groups config providers group_scope name res)) =
      set (tr_targets res) \<union> {t. resolves_to groups config providers group_scope name t} \<and>
    set (tr_rejected (resolve_name groups config providers group_scope name res)) =
      set (tr_rejected res) \<union> {(name, reason) | reason. rejected_for groups config providers group_scope name reason}"
proof -
  define allowed where "allowed = allowed_providers groups (configured_provider_scopes config) providers group_scope name"
  define mid where "mid = fold (resolve_provider providers name) allowed res"
  let ?scope = "provider_in_scope groups config providers group_scope name"
  have allowed: "p \<in> set allowed \<longleftrightarrow> ?scope p" for p by (simp add: allowed_def set_allowed)
  have mid: "resolution_wf mid"
    "set (tr_targets mid) = set (tr_targets res) \<union> {provider_target p name | p. ?scope p \<and> entries_of providers p name = 1}"
    "set (tr_rejected mid) = set (tr_rejected res) \<union>
       {(name, SeveralEntries p (entries_of providers p name)) | p. ?scope p \<and> 1 < entries_of providers p name}"
    using resolve_providers_set [OF assms, of providers name allowed] by (simp_all add: mid_def allowed)
  have rejected: "{(name, reason) | reason. rejected_for groups config providers group_scope name reason} =
      {(name, SeveralEntries p (entries_of providers p name)) | p. ?scope p \<and> 1 < entries_of providers p name} \<union>
      (if (\<exists>p. ?scope p \<and> entries_of providers p name \<noteq> 0) \<or> name \<in> set (configured_proxy_names config) then {}
       else {(name, NoProvenance)})"
  proof -
    have "rejected_for groups config providers group_scope name reason \<longleftrightarrow>
        (\<exists>p. reason = SeveralEntries p (entries_of providers p name) \<and> ?scope p \<and> 1 < entries_of providers p name) \<or>
        reason = NoProvenance \<and> \<not> ((\<exists>p. ?scope p \<and> entries_of providers p name \<noteq> 0) \<or> name \<in> set (configured_proxy_names config))"
      for reason by (cases reason) auto
    then show ?thesis by auto
  qed
  have result: "resolve_name groups config providers group_scope name res =
      (if \<exists>p. ?scope p \<and> entries_of providers p name \<noteq> 0 then mid
       else if name \<in> set (configured_proxy_names config) then push_target (native_target name) mid
       else push_rejection name NoProvenance mid)"
    unfolding resolve_name_def Let_def allowed_def [symmetric] mid_def [symmetric] by (simp only: Bex_def allowed)
  show ?thesis
  proof (cases "\<exists>p. ?scope p \<and> entries_of providers p name \<noteq> 0")
    case True
    then have "{t. resolves_to groups config providers group_scope name t} =
        {provider_target p name | p. ?scope p \<and> entries_of providers p name = 1}"
      by (auto simp: resolves_to_def)
    with True show ?thesis unfolding result rejected using mid by simp
  next
    case False
    then have none: "\<And>p. ?scope p \<Longrightarrow> entries_of providers p name = 0" by blast
    then have "{t. resolves_to groups config providers group_scope name t} =
        (if name \<in> set (configured_proxy_names config) then {native_target name} else {})"
      by (auto simp: resolves_to_def)
    moreover have "{provider_target p name | p. ?scope p \<and> entries_of providers p name = 1} = {}"
      "{(name, SeveralEntries p (entries_of providers p name)) | p. ?scope p \<and> 1 < entries_of providers p name} = {}"
      using none by fastforce+
    ultimately show ?thesis
      unfolding result rejected
      using False mid push_target_set [OF mid(1), of "native_target name"] push_rejection_set [OF mid(1), of name NoProvenance]
      by auto
  qed
qed

lemma resolve_names_set:
  assumes "resolution_wf res"
  shows "resolution_wf (fold (resolve_name groups config providers group_scope) names res) \<and>
    set (tr_targets (fold (resolve_name groups config providers group_scope) names res)) =
      set (tr_targets res) \<union> {t. \<exists>name \<in> set names. resolves_to groups config providers group_scope name t} \<and>
    set (tr_rejected (fold (resolve_name groups config providers group_scope) names res)) =
      set (tr_rejected res) \<union>
        {(name, reason) | name reason. name \<in> set names \<and> rejected_for groups config providers group_scope name reason}"
  using assms
proof (induction names arbitrary: res)
  case (Cons name names)
  note step = resolve_name_set [OF Cons.prems, of groups config providers group_scope name]
  show ?case using Cons.IH [OF conjunct1 [OF step]] step by auto
qed simp

text \<open>C26: The resolution of names to delay targets is exact: a name becomes one target for every provider that the effective
  profile lets it come from and that has exactly one node of this name, or the native target if no such provider has the
  name and the profile declares it; it is rejected once for every such provider with several nodes of the name, and
  when nothing proves where it comes from. No identity is listed twice.\<close>

theorem target_resolution_exact:
  "set (tr_targets (resolve_delay_targets groups names config providers group_scope)) =
     {t. \<exists>name \<in> set names. resolves_to groups config providers group_scope name t} \<and>
   set (tr_rejected (resolve_delay_targets groups names config providers group_scope)) =
     {(name, reason) | name reason. name \<in> set names \<and> rejected_for groups config providers group_scope name reason} \<and>
   distinct (map dt_key (tr_targets (resolve_delay_targets groups names config providers group_scope))) \<and>
   distinct (tr_rejected (resolve_delay_targets groups names config providers group_scope))"
proof -
  have "resolution_wf \<lparr>tr_targets = [], tr_rejected = []\<rparr>" by (simp add: resolution_wf_def)
  from resolve_names_set [OF this, of groups config providers group_scope names]
  show ?thesis by (simp add: resolve_delay_targets_def resolution_wf_def)
qed

lemma name_settled:
  "\<exists>t. resolves_to groups config providers group_scope name t \<or> (\<exists>reason. rejected_for groups config providers group_scope name reason)"
proof (cases "\<exists>p. provider_in_scope groups config providers group_scope name p \<and> entries_of providers p name \<noteq> 0")
  case True
  then obtain p where p: "provider_in_scope groups config providers group_scope name p" "entries_of providers p name \<noteq> 0" by blast
  show ?thesis
  proof (cases "entries_of providers p name = 1")
    case False
    with p have "rejected_for groups config providers group_scope name (SeveralEntries p (entries_of providers p name))" by simp
    then show ?thesis by blast
  qed (use p in \<open>auto simp: resolves_to_def\<close>)
next
  case False
  then have "resolves_to groups config providers group_scope name (native_target name) \<or>
      rejected_for groups config providers group_scope name NoProvenance"
    by (auto simp: resolves_to_def)
  then show ?thesis by blast
qed

lemma leaf_targets_exact:
  "distinct (map fst groups) \<Longrightarrow>
   set (leaf_targets groups group') =
     {name. name \<notin> set policy_pseudo_nodes \<and> \<not> is_group groups name \<and>
        (\<exists>g grp all. (group' = None \<or> group' = Some g) \<and> map_of groups g = Some grp \<and> rg_all grp = Some all \<and> name \<in> set all)} \<and>
   distinct (leaf_targets groups group')"
  by (auto simp: leaf_targets_def map_of_eq_Some_iff) fastforce+

section \<open>Every target of a batch is answered once\<close>

lemma refill_length:
  "refill running pending = (running', pending') \<Longrightarrow>
     running' @ pending' = running @ pending \<and>
     (length running \<le> max_delay_concurrency \<longrightarrow> length running' \<le> max_delay_concurrency) \<and>
     (running' = [] \<longrightarrow> pending' = [])"
proof (induction running pending rule: refill.induct)
  case (2 running p pending)
  then show ?case by (auto simp: max_delay_concurrency_def split: if_splits)
qed simp

definition batch_ok :: "(delay_target \<Rightarrow> 'r \<Rightarrow> bool) \<Rightarrow> delay_target list \<Rightarrow> nat \<Rightarrow> (nat \<times> delay_target) list
    \<Rightarrow> (delay_target \<times> 'r) option list \<Rightarrow> (delay_target \<times> 'r) list \<Rightarrow> bool" where
  "batch_ok answers targets n open_requests results progress \<longleftrightarrow>
     n + length open_requests = length targets \<and> length results = length targets \<and> distinct open_requests \<and>
     set open_requests = {(i, targets ! i) | i. i < length targets \<and> results ! i = None} \<and>
     (\<forall>i < length targets. \<forall>t r. results ! i = Some (t, r) \<longrightarrow> t = targets ! i \<and> answers t r) \<and>
     mset progress = mset (cat_options results)"

definition batch_inv :: "(delay_target \<Rightarrow> 'r \<Rightarrow> bool) \<Rightarrow> delay_target list \<Rightarrow> nat \<Rightarrow> 'r delay_batch \<Rightarrow> bool" where
  "batch_inv answers targets n b \<longleftrightarrow>
     length (db_running b) \<le> max_delay_concurrency \<and> (db_running b = [] \<longrightarrow> db_pending b = []) \<and>
     batch_ok answers targets n (db_running b @ db_pending b) (db_results b) (db_progress b)"

lemma batch_inv_refilled:
  assumes "length (db_running b) \<le> max_delay_concurrency"
    and "batch_ok answers targets n (db_running b @ db_pending b) (db_results b) (db_progress b)"
  shows "batch_inv answers targets n (refilled b)"
proof -
  obtain running pending where r: "refill (db_running b) (db_pending b) = (running, pending)" by fastforce
  from refill_length [OF r] assms show ?thesis by (simp add: refilled_def r batch_inv_def)
qed

lemma mset_cat_update:
  "i < length xs \<Longrightarrow> xs ! i = None \<Longrightarrow> mset (cat_options (xs[i := Some v])) = add_mset v (mset (cat_options xs))"
proof (induction xs arbitrary: i)
  case (Cons x xs)
  then show ?case by (cases i; cases x) auto
qed simp

lemma batch_ok_completed:
  assumes ok: "batch_ok answers targets n (running @ pending) results progress"
    and p: "(i, t) \<in> set running" and r: "answers t r"
  shows "batch_ok answers targets (Suc n) (remove1 (i, t) running @ pending) (results[i := Some (t, r)]) (progress @ [(t, r)])"
proof -
  have i: "i < length targets" "t = targets ! i" "results ! i = None" and len: "length results = length targets"
    using ok p by (auto simp: batch_ok_def)
  have mem: "(i, t) \<in> set (running @ pending)" using p by simp
  have rem: "remove1 (i, t) (running @ pending) = remove1 (i, t) running @ pending"
    using p by (simp add: remove1_append)
  have d: "distinct (running @ pending)" using ok by (simp add: batch_ok_def)
  have open': "set (remove1 (i, t) (running @ pending)) =
      {(j, targets ! j) | j. j < length targets \<and> results[i := Some (t, r)] ! j = None}"
    using ok i len unfolding set_remove1_eq [OF d] batch_ok_def by (auto simp: nth_list_update)
  have "length (remove1 (i, t) (running @ pending)) = length (running @ pending) - 1"
    using mem by (simp add: length_remove1)
  moreover have "length (running @ pending) > 0" using mem by (cases "running @ pending") auto
  moreover have "n + length (running @ pending) = length targets" using ok by (simp add: batch_ok_def)
  ultimately have "Suc n + length (remove1 (i, t) (running @ pending)) = length targets" by linarith
  moreover have "mset (progress @ [(t, r)]) = mset (cat_options (results[i := Some (t, r)]))"
    using ok i len by (simp add: batch_ok_def mset_cat_update)
  ultimately show ?thesis
    using ok i len open' r distinct_remove1 [OF d, of "(i, t)"] unfolding rem
    by (auto simp: batch_ok_def nth_list_update)
qed

lemma cat_options_none: "cat_options (replicate n None) = []"
  by (induction n) simp_all

lemma batch_run_inv: "batch_run answers targets n b \<Longrightarrow> batch_inv answers targets n b"
proof (induction rule: batch_run.induct)
  case started
  have "batch_ok answers targets 0 (enumerate 0 targets) (replicate (length targets) None) []"
    by (auto simp: batch_ok_def in_set_enumerate_eq cat_options_none)
  then show ?case unfolding start_batch_def by (intro batch_inv_refilled) simp_all
next
  case (completed n b p r)
  obtain i t where p: "p = (i, t)" by fastforce
  from completed show ?case
    unfolding complete_def p
    by (intro batch_inv_refilled) (auto simp: batch_inv_def p length_remove1 intro!: batch_ok_completed)
qed

lemma results_complete:
  "length results = length targets \<Longrightarrow> \<forall>i < length targets. \<exists>r. results ! i = Some (targets ! i, r) \<Longrightarrow>
     map fst (cat_options results) = targets"
proof (induction targets arbitrary: results)
  case (Cons t targets)
  then obtain r results' where r: "results = r # results'" by (cases results) auto
  with Cons.prems obtain x where "r = Some (t, x)" by fastforce
  moreover have "map fst (cat_options results') = targets"
    using Cons.prems r by (intro Cons.IH) fastforce+
  ultimately show ?case by (simp add: r)
qed simp

text \<open>C27: However the requests of a batch overlap and in whatever order they are answered, at most four run at a time, and
  after exactly one answer per target the batch ends: it returns one answer for every target in the order of the
  targets, each an answer to its own target, and it has reported the same answers as they came in.\<close>

theorem batch_answers_each_target_once:
  assumes "batch_run answers targets n b"
  shows "length (db_running b) \<le> 4 \<and> n \<le> length targets \<and> (db_running b = [] \<longleftrightarrow> n = length targets) \<and>
    (n = length targets \<longrightarrow>
       map fst (batch_results b) = targets \<and> (\<forall>(t, r) \<in> set (batch_results b). answers t r) \<and>
       mset (db_progress b) = mset (batch_results b))"
proof -
  have inv: "batch_inv answers targets n b" using assms by (rule batch_run_inv)
  then have count: "n + length (db_running b) + length (db_pending b) = length targets" "length (db_results b) = length targets"
    by (auto simp: batch_inv_def batch_ok_def)
  have ends: "db_running b = [] \<longleftrightarrow> n = length targets" using inv count by (auto simp: batch_inv_def)
  have "map fst (batch_results b) = targets \<and> (\<forall>(t, r) \<in> set (batch_results b). answers t r) \<and>
      mset (db_progress b) = mset (batch_results b)" if n: "n = length targets"
  proof -
    have none: "\<forall>i < length targets. db_results b ! i \<noteq> None" and
      good: "\<forall>i < length targets. \<forall>t r. db_results b ! i = Some (t, r) \<longrightarrow> t = targets ! i \<and> answers t r"
      using inv ends n by (auto simp: batch_inv_def batch_ok_def)
    then have "\<forall>i < length targets. \<exists>r. db_results b ! i = Some (targets ! i, r)" by fastforce
    moreover have "answers t r" if "(t, r) \<in> set (batch_results b)" for t r
      using that good count(2) by (auto simp: batch_results_def in_set_conv_nth)
    ultimately show ?thesis
      using results_complete [OF count(2)] inv by (auto simp: batch_results_def batch_inv_def batch_ok_def)
  qed
  with inv count ends show ?thesis by (auto simp: batch_inv_def max_delay_concurrency_def)
qed

theorem batch_answers_each_target_once_witness:
  "\<exists>b. batch_run (\<lambda>t r. r = dt_name t) [native_target ''a'', native_target ''b''] 2 b \<and>
     batch_results b = [(native_target ''a'', ''a''), (native_target ''b'', ''b'')] \<and> db_running b = []"
proof -
  let ?targets = "[native_target ''a'', native_target ''b'']" and ?answers = "\<lambda>t r. r = dt_name t"
  have "batch_run ?answers ?targets 1 (complete (1, native_target ''b'') ''b'' (start_batch ?targets))"
    unfolding One_nat_def by (intro batch_run.intros) (simp_all add: start_batch_def refilled_def max_delay_concurrency_def native_target_def)
  then have "batch_run ?answers ?targets (Suc 1)
      (complete (0, native_target ''a'') ''a'' (complete (1, native_target ''b'') ''b'' (start_batch ?targets)))"
    by (rule batch_run.completed)
      (simp_all add: complete_def start_batch_def refilled_def max_delay_concurrency_def native_target_def)
  then obtain b where b: "batch_run ?answers ?targets 2 b" by (auto simp: numeral_2_eq_2)
  from batch_answers_each_target_once [OF b] have "db_running b = []" "map fst (batch_results b) = ?targets"
    "\<forall>(t, r) \<in> set (batch_results b). r = dt_name t" by auto
  then have "batch_results b = [(native_target ''a'', ''a''), (native_target ''b'', ''b'')]"
    by (auto simp: native_target_def map_eq_Cons_conv)
  with b \<open>db_running b = []\<close> show ?thesis by blast
qed

end
