(* ===== verification/Scheduler.thy ===== *)
theory Scheduler
  imports Profiles Proxies Lifecycle
begin

text \<open>
  The automatic update of subscriptions (\<open>src-tui/src/subscribe/scheduler.rs\<close>) and the operations of the core
  it uses (\<open>src-tui/src/subscribe/lifecycle.rs\<close>): the tick with its cooldown, the probe of the selected exit
  with its threshold and debounce, and the forced refresh that is rolled back when the exit would be lost.
  The trait \<open>CoreLifecycle\<close> is a record of operations on a core state. The properties bound how often a probe
  may force a refresh and say what a forced refresh leaves on disk.
\<close>

section \<open>Verdicts\<close>

datatype refresh_path = HotReload | SingboxRestart

fun decide_refresh_path :: "core_kind \<Rightarrow> refresh_path" where
  "decide_refresh_path Mihomo = HotReload"
| "decide_refresh_path SingBox = SingboxRestart"

datatype mihomo_error =
    CoreDown string
  | Unauthorized
  | ApiNotFound string
  | HttpStatus u16 string
  | ApiParse string
  | ApiHttp
  | OperationTimeout string string
  | UnsupportedCoreOperation string string
  | ApiIo
  | InvalidUri string

datatype probe_verdict = Alive | Dead | ApiIssue

fun classify_delay :: "(u64, mihomo_error) result \<Rightarrow> probe_verdict" where
  "classify_delay (Inr delay) = (if 0 < delay then Alive else Dead)"
| "classify_delay (Inl (CoreDown _)) = ApiIssue"
| "classify_delay (Inl Unauthorized) = ApiIssue"
| "classify_delay (Inl (OperationTimeout _ _)) = ApiIssue"
| "classify_delay (Inl (HttpStatus status _)) = (if status = 503 \<or> status = 504 then Dead else ApiIssue)"
| "classify_delay (Inl _) = ApiIssue"

definition names_in :: "string \<Rightarrow> yaml \<Rightarrow> bool" where
  "names_in node proxy \<longleftrightarrow> (case proxy of YMap m \<Rightarrow> ymap_str m ''name'' = Some node | _ \<Rightarrow> False)"

definition refers_to :: "string \<Rightarrow> yaml \<Rightarrow> bool" where
  "refers_to node group' \<longleftrightarrow>
     (case group' of
        YMap m \<Rightarrow> (case ymap_get m ''proxies'' of Some (YSeq names) \<Rightarrow> \<exists>name \<in> set names. y_str name = Some node | _ \<Rightarrow> False)
      | _ \<Rightarrow> False)"

text \<open>
  What the code takes for the node being there: an outbound or a proxy of that name, but also a group that merely
  lists it, and any provider at all, since the members of a provider are known to the running core only.
\<close>

definition config_contains_node :: "ymapping \<Rightarrow> string \<Rightarrow> bool" where
  "config_contains_node config node \<longleftrightarrow>
     (\<exists>items. Option.bind (ymap_get config ''outbounds'') y_seq = Some items \<and>
        (\<exists>item \<in> set items. Option.bind (y_get item ''tag'') y_str = Some node)) \<or>
     (\<exists>providers. Option.bind (ymap_get config ''proxy-providers'') y_map = Some providers \<and> providers \<noteq> []) \<or>
     (case ymap_get config ''proxies'' of Some (YSeq proxies) \<Rightarrow> \<exists>proxy \<in> set proxies. names_in node proxy | _ \<Rightarrow> False) \<or>
     (case ymap_get config ''proxy-groups'' of Some (YSeq groups) \<Rightarrow> \<exists>g \<in> set groups. refers_to node g | _ \<Rightarrow> False)"

section \<open>The scheduler\<close>

definition min_cooldown_secs :: u64 where "min_cooldown_secs = 30 * 60"
definition probe_failure_threshold :: "32 word" where "probe_failure_threshold = 3"
definition force_refresh_debounce_secs :: u64 where "force_refresh_debounce_secs = 5 * 60"

record auto_update =
  au_last_attempt :: "string \<Rightarrow> u64 option"
  au_min_cooldown :: u64
  au_probe_failures :: "32 word"
  au_last_force :: u64

definition auto_update_new :: auto_update where
  "auto_update_new =
     \<lparr>au_last_attempt = (\<lambda>_. None), au_min_cooldown = min_cooldown_secs, au_probe_failures = 0, au_last_force = 0\<rparr>"

definition sat_sub :: "u64 \<Rightarrow> u64 \<Rightarrow> u64" where
  "sat_sub a b = (if b \<le> a then a - b else 0)"

definition cooled :: "auto_update \<Rightarrow> u64 \<Rightarrow> string \<Rightarrow> bool" where
  "cooled au now uid \<longleftrightarrow>
     (case au_last_attempt au uid of None \<Rightarrow> True | Some last' \<Rightarrow> au_min_cooldown au \<le> sat_sub now last')"

fun select_due :: "u64 \<Rightarrow> string list \<Rightarrow> auto_update \<Rightarrow> string list \<times> auto_update" where
  "select_due now [] au = ([], au)"
| "select_due now (uid # uids) au =
     (if cooled au now uid
      then (case select_due now uids (au\<lparr>au_last_attempt := (au_last_attempt au)(uid := Some now)\<rparr>) of
              (due, au') \<Rightarrow> (uid # due, au'))
      else select_due now uids au)"

definition compute_due :: "u64 \<Rightarrow> prf_item list \<Rightarrow> u64 \<Rightarrow> auto_update \<Rightarrow> string list \<times> auto_update" where
  "compute_due clock items now au = select_due now (due_remote_uids clock items) au"

definition record_success :: "string \<Rightarrow> auto_update \<Rightarrow> auto_update" where
  "record_success uid au = au\<lparr>au_last_attempt := (au_last_attempt au)(uid := None)\<rparr>"

definition record_probe_failure :: "u64 \<Rightarrow> auto_update \<Rightarrow> bool \<times> auto_update" where
  "record_probe_failure now au =
     (let au = au\<lparr>au_probe_failures := au_probe_failures au + 1\<rparr>;
          due = (probe_failure_threshold \<le> au_probe_failures au \<and> force_refresh_debounce_secs \<le> sat_sub now (au_last_force au))
      in (due, if due then au\<lparr>au_probe_failures := 0, au_last_force := now\<rparr> else au))"

record scheduler_outcome =
  so_updated :: "(string \<times> bool) list"
  so_failed :: "(string \<times> prf_error) list"
  so_errored :: "prf_error option"

definition run_batch :: "store_env \<Rightarrow> string list \<Rightarrow> profile_disk \<Rightarrow> scheduler_outcome \<times> profile_disk" where
  "run_batch env due d =
     (if due = [] then (\<lparr>so_updated = [], so_failed = [], so_errored = None\<rparr>, d)
      else case update_remotes_locked env due d of
          (Inr (updated, failed), d') \<Rightarrow> (\<lparr>so_updated = updated, so_failed = failed, so_errored = None\<rparr>, d')
        | (Inl e, d') \<Rightarrow> (\<lparr>so_updated = [], so_failed = [], so_errored = Some e\<rparr>, d'))"

text \<open>\<open>now\<close> is the clock of the tick and \<open>clock\<close> the one the timer reads after it.\<close>

definition tick :: "store_env \<Rightarrow> u64 \<Rightarrow> u64 \<Rightarrow> auto_update \<Rightarrow> profile_disk \<Rightarrow> scheduler_outcome \<times> auto_update \<times> profile_disk" where
  "tick env now clock au d =
     (case iprofiles_new env d of
        Inl e \<Rightarrow> (\<lparr>so_updated = [], so_failed = [], so_errored = Some e\<rparr>, au, d)
      | Inr p \<Rightarrow>
          (let (due, au) = compute_due clock (store_items p) now au;
               (outcome, d) = run_batch env due d
           in (outcome, fold record_success (map fst (so_updated outcome)) au, d)))"

section \<open>The core\<close>

record 'c core_lifecycle =
  cl_core_kind :: "'c \<Rightarrow> core_kind"
  cl_is_running :: "'c \<Rightarrow> bool"
  cl_owns_core :: "'c \<Rightarrow> bool"
  cl_exit_node :: "prf_item list \<Rightarrow> string \<Rightarrow> 'c \<Rightarrow> string option \<times> 'c"
  cl_delay_test :: "string \<Rightarrow> 'c \<Rightarrow> (u64, mihomo_error) result \<times> 'c"
  cl_reload :: "profile_disk \<Rightarrow> string \<Rightarrow> bool \<Rightarrow> 'c \<Rightarrow> (unit, string) result \<times> 'c"
  cl_reapply :: "string \<Rightarrow> 'c \<Rightarrow> (unit, string) result \<times> 'c"

definition external_core_error :: string where
  "external_core_error = ''selected sing-box core is externally managed; refusing an implicit restart''"

definition validate_apply_target :: "core_kind \<Rightarrow> bool \<Rightarrow> bool \<Rightarrow> (unit, string) result" where
  "validate_apply_target kind running owns_core =
     (if \<not> running then Inr () else guard (\<not> (kind = SingBox \<and> \<not> owns_core)) external_core_error)"

definition should_rollback_selected_exit :: "string \<Rightarrow> string list \<Rightarrow> bool" where
  "should_rollback_selected_exit selected_node refreshed_nodes \<longleftrightarrow> selected_node \<notin> set refreshed_nodes"

definition reload_with_lifecycle ::
  "'c core_lifecycle \<Rightarrow> profile_disk \<Rightarrow> string \<Rightarrow> bool \<Rightarrow> 'c \<Rightarrow> (unit, string) result \<times> 'c" where
  "reload_with_lifecycle L d uid tun c =
     (case validate_apply_target (cl_core_kind L c) (cl_is_running L c) (cl_owns_core L c) of
        Inl e \<Rightarrow> (Inl e, c)
      | Inr _ \<Rightarrow> if \<not> cl_is_running L c then (Inr (), c) else cl_reload L d uid tun c)"

definition reload_selected_with_lifecycle ::
  "'c core_lifecycle \<Rightarrow> profile_disk \<Rightarrow> string \<Rightarrow> string \<Rightarrow> bool \<Rightarrow> 'c \<Rightarrow> (unit, string) result \<times> 'c" where
  "reload_selected_with_lifecycle L d uid node tun c =
     (case reload_with_lifecycle L d uid tun c of
        (Inl e, c) \<Rightarrow> (Inl e, c)
      | (Inr _, c) \<Rightarrow> if cl_is_running L c then cl_reapply L node c else (Inr (), c))"

section \<open>The selected exit\<close>

definition selector :: string where "selector = ''Selector''"

text \<open>The loop of \<open>exit_selection_path\<close>; every round but the last visits another group.\<close>

function follow_exit ::
  "group_map \<Rightarrow> string list \<Rightarrow> string \<Rightarrow> (string \<times> string) list \<Rightarrow> (string \<times> (string \<times> string) list) option" where
  "follow_exit groups visited node path =
     (if node \<in> set policy_pseudo_nodes \<or> node \<in> set visited then None
      else case map_of groups node of
          None \<Rightarrow> Some (node, path)
        | Some group' \<Rightarrow>
            if rg_type group' \<noteq> selector then Some (node, path)
            else (case rg_now group' of
                    None \<Rightarrow> None
                  | Some selected \<Rightarrow> follow_exit groups (node # visited) selected (path @ [(node, selected)])))"
  by pat_completeness auto

termination follow_exit
proof (relation "measure (\<lambda>(groups, visited, node, path). card (fst ` set groups - set visited))", goal_cases)
  case (2 groups visited node path group' selected)
  then have "node \<in> fst ` set groups - set visited" by (force dest: map_of_SomeD)
  then have "card ((fst ` set groups - set visited) - {node}) < card (fst ` set groups - set visited)"
    by (intro card_Diff1_less) auto
  moreover have "fst ` set groups - set (node # visited) = (fst ` set groups - set visited) - {node}" by auto
  ultimately show ?case by simp
qed simp

declare follow_exit.simps [simp del]

definition exit_selection_path :: "group_map \<Rightarrow> (string \<times> (string \<times> string) list) option" where
  "exit_selection_path groups =
     Option.bind (map_of groups ''GLOBAL'') (\<lambda>global.
     Option.bind (rg_now global) (\<lambda>node.
       follow_exit groups [] node (if rg_type global = selector then [(''GLOBAL'', node)] else [])))"

text \<open>\<open>reapply_selected\<close> without a provider: every group of the path must still have its member; a
  selection is a call to the core that may fail.\<close>

fun reapply_path ::
  "('c \<Rightarrow> string \<Rightarrow> string \<Rightarrow> (unit, string) result \<times> 'c) \<Rightarrow> group_map \<Rightarrow> (string \<times> string) list \<Rightarrow> 'c
     \<Rightarrow> (unit, string) result \<times> 'c" where
  "reapply_path select groups [] c = (Inr (), c)"
| "reapply_path select groups ((group', selected) # path) c =
     (case Option.bind (map_of groups group') rg_all of
        None \<Rightarrow> (Inl (''selected group '' @ group' @ '' disappeared after reload''), c)
      | Some members \<Rightarrow>
          if should_rollback_selected_exit selected members
          then (Inl (''selected exit disappeared from group '' @ group'), c)
          else (case select c group' selected of
                  (Inl e, c) \<Rightarrow> (Inl e, c)
                | (Inr _, c) \<Rightarrow> reapply_path select groups path c))"

section \<open>Forced refresh\<close>

record probe_outcome =
  pb_forced_refresh :: bool
  pb_rolled_back :: bool
  pb_may_be_down :: bool
  pb_error :: "string option"

definition no_probe_outcome :: probe_outcome where
  "no_probe_outcome = \<lparr>pb_forced_refresh = False, pb_rolled_back = False, pb_may_be_down = False, pb_error = None\<rparr>"

definition unavailable_probe :: "core_kind \<Rightarrow> probe_outcome" where
  "unavailable_probe kind =
     no_probe_outcome\<lparr>pb_error := Some (kind_as_str kind @ '' unavailable: core stopped; no probe or startup attempted'')\<rparr>"

definition find_uid :: "string \<Rightarrow> prf_item list \<Rightarrow> prf_item option" where
  "find_uid uid items = find (has_uid uid) items"

definition profile_snapshot :: "profile_disk \<Rightarrow> prf_item list \<Rightarrow> string \<Rightarrow> (string \<times> nat) option" where
  "profile_snapshot d items uid =
     Option.bind (find_uid uid items) (\<lambda>item.
     Option.bind (pi_file item) (\<lambda>file.
       map_option (\<lambda>bytes. (bytes, unwrap_or (pi_updated item) 0)) (pd_bodies d file)))"

definition write_raw :: "store_env \<Rightarrow> string \<Rightarrow> string \<Rightarrow> profile_disk \<Rightarrow> profile_disk" where
  "write_raw env name data d =
     put_body name (if st_writes env name data then Some data else st_partial env name data (pd_bodies d name)) d"

text \<open>Both results are ignored.\<close>

definition restore_profile_snapshot :: "store_env \<Rightarrow> string \<Rightarrow> string \<Rightarrow> string \<Rightarrow> nat \<Rightarrow> profile_disk \<Rightarrow> profile_disk" where
  "restore_profile_snapshot env uid file bytes updated d =
     snd (restore_updated_locked env uid updated (write_raw env file bytes d))"

definition refreshed_config_has_node :: "store_env \<Rightarrow> profile_disk \<Rightarrow> string \<Rightarrow> string \<Rightarrow> bool" where
  "refreshed_config_has_node env d uid node \<longleftrightarrow>
     (case iprofiles_new env d of
        Inl _ \<Rightarrow> False
      | Inr p \<Rightarrow>
          is_some_and (Option.bind (Option.bind (find_uid uid (store_items p)) pi_file) (pd_bodies d))
            (\<lambda>raw. is_some_and (ne_mapping (st_net env uid) raw) (\<lambda>config. config_contains_node config node)))"

definition force_refresh_with_lifecycle ::
  "store_env \<Rightarrow> (prf_error \<Rightarrow> string) \<Rightarrow> 'c core_lifecycle \<Rightarrow> string \<Rightarrow> string \<Rightarrow> bool \<Rightarrow> profile_disk \<Rightarrow> 'c
     \<Rightarrow> probe_outcome \<times> profile_disk \<times> 'c"
where
  "force_refresh_with_lifecycle env message L uid node tun d c =
     (case iprofiles_new env d of
        Inl e \<Rightarrow> (no_probe_outcome\<lparr>pb_error := Some (message e)\<rparr>, d, c)
      | Inr p \<Rightarrow>
      (case profile_snapshot d (store_items p) uid of
        None \<Rightarrow> (no_probe_outcome\<lparr>pb_error := Some (''profile '' @ uid @ '' file unavailable for snapshot'')\<rparr>, d, c)
      | Some (old_bytes, old_updated) \<Rightarrow>
      (case update_remotes_locked env [uid] d of
        (Inl e, d1) \<Rightarrow> (no_probe_outcome\<lparr>pb_error := Some (''forced refresh failed: '' @ message e)\<rparr>, d1, c)
      | (Inr (updated, _), d1) \<Rightarrow>
          if updated = [] then
            (no_probe_outcome\<lparr>pb_forced_refresh := True,
               pb_error := Some (''forced refresh of '' @ uid @ '' produced no update'')\<rparr>, d1, c)
          else
            (let file = Option.bind (find_uid uid (store_items p)) pi_file;
                 restored = (case file of None \<Rightarrow> d1
                             | Some name \<Rightarrow> restore_profile_snapshot env uid name old_bytes old_updated d1)
             in if refreshed_config_has_node env d1 uid node then
                  (case reload_selected_with_lifecycle L d1 uid node tun c of
                     (Inr _, c1) \<Rightarrow>
                       (case cl_delay_test L node c1 of (delay, c2) \<Rightarrow>
                          (no_probe_outcome\<lparr>pb_forced_refresh := True, pb_may_be_down := classify_delay delay \<noteq> Alive\<rparr>, d1, c2))
                   | (Inl e, c1) \<Rightarrow>
                       if file = None then
                         (no_probe_outcome\<lparr>pb_forced_refresh := True,
                            pb_error := Some (''reload after forced refresh: '' @ e)\<rparr>, d1, c1)
                       else
                         (case reload_selected_with_lifecycle L restored uid node tun c1 of (r, c2) \<Rightarrow>
                            (no_probe_outcome\<lparr>pb_forced_refresh := True, pb_rolled_back := True,
                               pb_error := Some (''reload after forced refresh failed: '' @ e @
                                 (case r of Inl e2 \<Rightarrow> ''; rollback apply failed: '' @ e2 | Inr _ \<Rightarrow> []))\<rparr>, restored, c2)))
                else
                  (case reload_selected_with_lifecycle L restored uid node tun c of (r, c1) \<Rightarrow>
                     (no_probe_outcome\<lparr>pb_forced_refresh := True, pb_rolled_back := True,
                        pb_error := (case r of Inl e \<Rightarrow> Some (''rollback apply failed: '' @ e) | Inr _ \<Rightarrow> None)\<rparr>,
                      restored, c1))))))"

definition probe_with_lifecycle ::
  "store_env \<Rightarrow> (prf_error \<Rightarrow> string) \<Rightarrow> 'c core_lifecycle \<Rightarrow> bool \<Rightarrow> bool \<Rightarrow> bool \<Rightarrow> u64 \<Rightarrow> auto_update \<Rightarrow> profile_disk \<Rightarrow> 'c
     \<Rightarrow> probe_outcome \<times> auto_update \<times> profile_disk \<times> 'c"
where
  "probe_with_lifecycle env message L probe_enabled tun core_running now au d c =
     (if \<not> probe_enabled then (no_probe_outcome, au, d, c)
      else if \<not> core_running \<or> \<not> cl_is_running L c then (unavailable_probe (cl_core_kind L c), au, d, c)
      else case iprofiles_new env d of
          Inl e \<Rightarrow> (no_probe_outcome\<lparr>pb_error := Some (message e)\<rparr>, au, d, c)
        | Inr p \<Rightarrow>
        (case ip_current p of
          None \<Rightarrow> (no_probe_outcome, au, d, c)
        | Some current \<Rightarrow>
        (case cl_exit_node L (store_items p) current c of
          (None, c) \<Rightarrow> (no_probe_outcome, au, d, c)
        | (Some node, c) \<Rightarrow>
        (case cl_delay_test L node c of (delay, c) \<Rightarrow>
          (case classify_delay delay of
             Dead \<Rightarrow>
               (case record_probe_failure now au of
                  (True, au) \<Rightarrow>
                    (case force_refresh_with_lifecycle env message L current node tun d c of
                       (outcome, d, c) \<Rightarrow> (outcome, au, d, c))
                | (False, au) \<Rightarrow> (no_probe_outcome, au, d, c))
           | _ \<Rightarrow> (no_probe_outcome, au\<lparr>au_probe_failures := 0\<rparr>, d, c))))))"

section \<open>How often a probe forces a refresh\<close>

lemma sat_sub_gap: "300 \<le> sat_sub now last' \<Longrightarrow> unat last' + 300 \<le> unat now"
  by (auto simp: sat_sub_def word_le_nat_alt unat_sub split: if_splits)

text \<open>A probe either finds the node dead at some time or resets the count.\<close>

datatype probe_event = NodeDead u64 | NodeAnswers

fun is_dead :: "probe_event \<Rightarrow> bool" where
  "is_dead (NodeDead _) = True"
| "is_dead NodeAnswers = False"

fun forced_times :: "probe_event list \<Rightarrow> auto_update \<Rightarrow> u64 list" where
  "forced_times [] au = []"
| "forced_times (NodeDead now # events) au =
     (case record_probe_failure now au of (due, au') \<Rightarrow> (if due then [now] else []) @ forced_times events au')"
| "forced_times (NodeAnswers # events) au = forced_times events (au\<lparr>au_probe_failures := 0\<rparr>)"

lemma unat_plus_one: "unat (f + 1 :: 32 word) \<le> unat f + 1"
  by (simp add: unat_word_ariths)

lemma record_probe_failure_forced:
  assumes "record_probe_failure now au = (True, au')"
  shows "2 \<le> unat (au_probe_failures au) \<and> au_probe_failures au' = 0 \<and> au_last_force au' = now \<and>
    unat (au_last_force au) + 300 \<le> unat now"
proof -
  have due: "3 \<le> au_probe_failures au + 1" "300 \<le> sat_sub now (au_last_force au)"
    and au': "au_probe_failures au' = 0 \<and> au_last_force au' = now"
    using assms
    by (auto simp: record_probe_failure_def Let_def probe_failure_threshold_def force_refresh_debounce_secs_def split: if_splits)
  have "3 \<le> unat (au_probe_failures au + 1)" using due(1) by (simp add: word_le_nat_alt)
  with unat_plus_one [of "au_probe_failures au"] au' sat_sub_gap [OF due(2)] show ?thesis by simp
qed

lemma record_probe_failure_counted:
  assumes "record_probe_failure now au = (False, au')"
  shows "unat (au_probe_failures au') \<le> unat (au_probe_failures au) + 1 \<and> au_last_force au' = au_last_force au"
  using assms unat_plus_one by (auto simp: record_probe_failure_def Let_def split: if_splits)

lemma forced_times_general:
  "3 * length (forced_times events au) \<le> length (filter is_dead events) + unat (au_probe_failures au) \<and>
   successively (\<lambda>a b. unat a + 300 \<le> unat b) (forced_times events au) \<and>
   (forced_times events au \<noteq> [] \<longrightarrow> unat (au_last_force au) + 300 \<le> unat (hd (forced_times events au)))"
proof (induction events au rule: forced_times.induct)
  case (2 now events au)
  obtain due au' where r: "record_probe_failure now au = (due, au')" by fastforce
  note ih = 2 [OF r [symmetric]]
  show ?case
  proof (cases due)
    case True
    from record_probe_failure_forced [of now au au'] r True
    have "2 \<le> unat (au_probe_failures au)" "au_probe_failures au' = 0" "au_last_force au' = now"
      "unat (au_last_force au) + 300 \<le> unat now" by auto
    then show ?thesis using ih r True by (auto simp: successively_Cons)
  next
    case False
    from record_probe_failure_counted [of now au au'] r False
    have "unat (au_probe_failures au') \<le> unat (au_probe_failures au) + 1" "au_last_force au' = au_last_force au" by auto
    then show ?thesis using ih r False by auto
  qed
qed auto

text \<open>However the probe is answered and whatever the clock does, two forced refreshes are at least 300 s apart, the first
  comes at least 300 s after the epoch of the clock, and every forced refresh used up at least three failed delay tests of
  the node: answers of the node and failures of the controller never count.\<close>

theorem forced_refreshes_are_rare:
  "successively (\<lambda>a b. unat a + 300 \<le> unat b) (0 # forced_times events auto_update_new) \<and>
   3 * length (forced_times events auto_update_new) \<le> length (filter is_dead events)"
proof -
  note general = forced_times_general [of events auto_update_new]
  have "unat (au_probe_failures auto_update_new) = 0" "au_last_force auto_update_new = 0" by (simp_all add: auto_update_new_def)
  with general show ?thesis by (auto simp: successively_Cons)
qed

section \<open>Cooldown\<close>

lemma select_due_exact:
  assumes "0 < au_min_cooldown au"
  shows "set (fst (select_due now uids au)) = {uid \<in> set uids. cooled au now uid} \<and> distinct (fst (select_due now uids au)) \<and>
    snd (select_due now uids au) = au\<lparr>au_last_attempt := (\<lambda>uid. if uid \<in> set (fst (select_due now uids au)) then Some now
      else au_last_attempt au uid)\<rparr>"
  using assms
proof (induction uids arbitrary: au)
  case (Cons uid uids)
  show ?case
  proof (cases "cooled au now uid")
    case True
    let ?au = "au\<lparr>au_last_attempt := (au_last_attempt au)(uid := Some now)\<rparr>"
    have again: "cooled ?au now x \<longleftrightarrow> x \<noteq> uid \<and> cooled au now x" for x
      using Cons.prems by (auto simp: cooled_def sat_sub_def split: option.split)
    obtain due au' where r: "select_due now uids ?au = (due, au')" by fastforce
    from Cons.IH [of ?au] Cons.prems r again
    have "set due = {x \<in> set uids. x \<noteq> uid \<and> cooled au now x}" "distinct due"
      "au' = ?au\<lparr>au_last_attempt := (\<lambda>x. if x \<in> set due then Some now else au_last_attempt ?au x)\<rparr>" by simp_all
    with True r show ?thesis by (auto simp: fun_eq_iff)
  next
    case False
    then show ?thesis using Cons.IH [OF Cons.prems] by auto
  qed
qed simp

lemma cooled_gap: "au_min_cooldown au = min_cooldown_secs \<Longrightarrow> au_last_attempt au uid = Some last' \<Longrightarrow> cooled au now uid \<Longrightarrow>
  unat last' + 1800 \<le> unat now"
  by (auto simp: cooled_def min_cooldown_secs_def sat_sub_def word_le_nat_alt unat_sub split: if_splits)

text \<open>
  The times at which a series of ticks tries one profile; each tick has its clock, the profiles that are due
  and those whose refresh succeeds.
\<close>

fun attempt_times :: "string \<Rightarrow> (u64 \<times> string list \<times> string list) list \<Rightarrow> auto_update \<Rightarrow> u64 list" where
  "attempt_times uid [] au = []"
| "attempt_times uid ((now, due, succeed) # ticks) au =
     (case select_due now due au of (selected, au') \<Rightarrow>
        (if uid \<in> set selected then [now] else []) @
        attempt_times uid ticks (fold record_success (filter (\<lambda>u. u \<in> set succeed) selected) au'))"

lemma record_successes:
  "uid \<notin> set uids \<Longrightarrow> au_last_attempt (fold record_success uids au) uid = au_last_attempt au uid"
  "au_min_cooldown (fold record_success uids au) = au_min_cooldown au"
  by (induction uids arbitrary: au) (auto simp: record_success_def)

text \<open>A profile that never succeeds is tried at most once in 1800 s.\<close>

lemma failing_profile_cools_down:
  assumes "\<forall>(now, due, succeed) \<in> set ticks. uid \<notin> set succeed" "au_min_cooldown au = min_cooldown_secs"
  shows "successively (\<lambda>a b. unat a + 1800 \<le> unat b) (attempt_times uid ticks au) \<and>
    (\<forall>last'. au_last_attempt au uid = Some last' \<longrightarrow> attempt_times uid ticks au \<noteq> [] \<longrightarrow>
       unat last' + 1800 \<le> unat (hd (attempt_times uid ticks au)))"
  using assms
proof (induction ticks arbitrary: au)
  case (Cons t ticks)
  obtain now due succeed where t: "t = (now, due, succeed)" by (cases t)
  obtain selected au1 where r: "select_due now due au = (selected, au1)" by fastforce
  let ?au = "fold record_success (filter (\<lambda>u. u \<in> set succeed) selected) au1"
  have "0 < au_min_cooldown au" using Cons.prems(2) by (simp add: min_cooldown_secs_def)
  from select_due_exact [OF this, of now due] r
  have sel: "uid \<in> set selected \<longleftrightarrow> uid \<in> set due \<and> cooled au now uid"
    and au1: "au_last_attempt au1 uid = (if uid \<in> set selected then Some now else au_last_attempt au uid)"
      "au_min_cooldown au1 = min_cooldown_secs"
    using Cons.prems(2) by auto
  have "uid \<notin> set (filter (\<lambda>u. u \<in> set succeed) selected)" using Cons.prems(1) t by auto
  then have au: "au_last_attempt ?au uid = (if uid \<in> set selected then Some now else au_last_attempt au uid)"
    "au_min_cooldown ?au = min_cooldown_secs"
    using record_successes(1) [of uid "filter (\<lambda>u. u \<in> set succeed) selected" au1]
      record_successes(2) [of "filter (\<lambda>u. u \<in> set succeed) selected" au1] au1 by simp_all
  note ih = Cons.IH [of ?au]
  show ?case
    using ih Cons.prems t r sel au cooled_gap [OF Cons.prems(2), of uid]
    by (auto simp: successively_Cons split: if_splits)
qed simp

section \<open>The exit\<close>

definition selects :: "group_map \<Rightarrow> string \<Rightarrow> string \<Rightarrow> bool" where
  "selects groups g s \<longleftrightarrow> (\<exists>grp. map_of groups g = Some grp \<and> rg_type grp = selector \<and> rg_now grp = Some s)"

definition is_exit :: "group_map \<Rightarrow> string \<Rightarrow> bool" where
  "is_exit groups node \<longleftrightarrow> node \<notin> set policy_pseudo_nodes \<and> (\<forall>grp. map_of groups node = Some grp \<longrightarrow> rg_type grp \<noteq> selector)"

fun linked :: "string \<Rightarrow> (string \<times> string) list \<Rightarrow> string \<Rightarrow> bool" where
  "linked start [] node \<longleftrightarrow> start = node"
| "linked start ((g, s) # path) node \<longleftrightarrow> start = g \<and> linked s path node"

lemma follow_exit_sound:
  "follow_exit groups visited node path = Some (last', whole) \<Longrightarrow>
     is_exit groups last' \<and> (\<exists>rest. whole = path @ rest \<and> linked node rest last' \<and> (\<forall>(g, s) \<in> set rest. selects groups g s))"
proof (induction groups visited node path rule: follow_exit.induct)
  case (1 groups visited node path)
  show ?case
  proof (cases "map_of groups node")
    case None
    with 1(2) show ?thesis by (subst (asm) follow_exit.simps) (auto simp: is_exit_def split: if_splits)
  next
    case (Some grp)
    show ?thesis
    proof (cases "rg_type grp = selector")
      case False
      with Some 1(2) show ?thesis by (subst (asm) follow_exit.simps) (auto simp: is_exit_def split: if_splits)
    next
      case True
      with Some 1(2) obtain s where s: "node \<notin> set policy_pseudo_nodes" "node \<notin> set visited" "rg_now grp = Some s"
        "follow_exit groups (node # visited) s (path @ [(node, s)]) = Some (last', whole)"
        by (subst (asm) follow_exit.simps) (auto split: if_splits option.splits)
      have "selects groups node s" using Some True s(3) by (simp add: selects_def)
      moreover obtain rest where "is_exit groups last'" "whole = (path @ [(node, s)]) @ rest" "linked s rest last'"
        "\<forall>(g, s) \<in> set rest. selects groups g s"
        using 1(1) [OF _ Some _ s(3,4)] s(1,2) True by auto
      ultimately show ?thesis by (intro conjI exI [of _ "(node, s) # rest"]) auto
    qed
  qed
qed

text \<open>The exit that is probed is the one the core uses: if the search from \<open>GLOBAL\<close> ends with a node, then this node is no
  built-in policy and no selector, every pair of the returned path is a selector group with its current choice, and
  the path leads from the choice of \<open>GLOBAL\<close> to the node. The search always ends, also when groups select each other.\<close>

theorem exit_path_is_selected:
  assumes "exit_selection_path groups = Some (node, path)"
  shows "is_exit groups node \<and> (\<forall>(g, s) \<in> set path. selects groups g s) \<and>
    (\<exists>global start rest. map_of groups ''GLOBAL'' = Some global \<and> rg_now global = Some start \<and> linked start rest node \<and>
       path = (if rg_type global = selector then [(''GLOBAL'', start)] else []) @ rest)"
proof -
  obtain global start where g: "map_of groups ''GLOBAL'' = Some global" "rg_now global = Some start"
    "follow_exit groups [] start (if rg_type global = selector then [(''GLOBAL'', start)] else []) = Some (node, path)"
    using assms by (auto simp: exit_selection_path_def split: Option.bind_splits)
  from follow_exit_sound [OF g(3)] obtain rest where rest: "is_exit groups node"
    "path = (if rg_type global = selector then [(''GLOBAL'', start)] else []) @ rest" "linked start rest node"
    "\<forall>(g, s) \<in> set rest. selects groups g s" by blast
  moreover have "\<forall>(g, s) \<in> set path. selects groups g s"
    using rest g(1,2) by (auto simp: selects_def split: if_splits)
  ultimately show ?thesis using g(1,2) by blast
qed

definition sample_groups :: group_map where
  "sample_groups =
     [(''GLOBAL'', \<lparr>rg_type = selector, rg_now = Some ''Proxy'', rg_all = Some [''Proxy''], rg_history = None\<rparr>),
      (''Proxy'', \<lparr>rg_type = selector, rg_now = Some ''JP-4'', rg_all = Some [''JP-4''], rg_history = None\<rparr>)]"

theorem exit_path_is_selected_witness:
  "exit_selection_path sample_groups = Some (''JP-4'', [(''GLOBAL'', ''Proxy''), (''Proxy'', ''JP-4'')]) \<and>
   is_exit sample_groups ''JP-4''"
proof -
  have path: "exit_selection_path sample_groups = Some (''JP-4'', [(''GLOBAL'', ''Proxy''), (''Proxy'', ''JP-4'')])"
    by (simp add: exit_selection_path_def sample_groups_def follow_exit.simps policy_pseudo_nodes_def selector_def)
  with exit_path_is_selected [OF path] show ?thesis by blast
qed

section \<open>What a forced refresh leaves\<close>

lemma find_filter: "find P xs = Some x \<Longrightarrow> Q x \<Longrightarrow> find P (filter Q xs) = Some x"
  by (induction xs) (auto split: if_splits)

lemma remote_find:
  "get_item p uid = Inr item \<Longrightarrow> is_selectable item \<Longrightarrow> find_uid uid (store_items p) = Some item"
  by (auto simp: find_uid_def store_items_def get_item_def ok_or_def intro: find_filter split: option.splits)

lemma fetch_update_remote:
  "fetch_update env p uid override = Inr b \<Longrightarrow>
     \<exists>item url'. get_item p uid = Inr item \<and> pi_type item = Some ''remote'' \<and>
       update_with_fallback (st_net env uid) url' (option_merge (pi_option item) override) = Inr b"
  by (auto simp: fetch_update_def)

text \<open>With a complete chain there is nothing to append before the update of the item.\<close>

lemma complete_chain_no_fragments:
  assumes "fetched_under env url' o' b" "None \<notin> set (chain_slots o')"
  shows "rb_fragments b = []"
proof -
  obtain new where "map pi_uid (rb_fragments b) = filled_slots o' new"
    using assms(1) by (auto simp: fetched_under_def)
  moreover have "filled_slots o' new = []"
    using assms(2) by (auto simp: filled_slots_def chain_slots_def eq_commute [of None])
  ultimately show ?thesis by simp
qed

lemma from_url_body: "from_url env url' name o' = Inr b \<Longrightarrow> pi_file_data (rb_item b) \<noteq> None"
  unfolding from_url_def by (auto simp: Let_def remote_item_def case_prod_beta')

lemma update_with_fallback_body:
  assumes "update_with_fallback env url' o' = Inr b"
  shows "pi_file_data (rb_item b) \<noteq> None"
  using assms try_options_Inr from_url_body unfolding update_with_fallback_def Let_def by blast

lemma update_item_refused:
  assumes "get_item (ps_mem s) uid = Inr each" "pi_file_data item = Some data" "\<not> single_filename (body_name uid item each)"
  shows "\<exists>s'. update_item env uid item s = (Inl FileNotSingle, s') \<and> ps_disk s' = ps_disk s"
  using assms
  by (simp add: update_item_def refresh_each_def sbind_def modify_def Let_def lift_result_def validate_profile_file_def guard_def)

lemma update_remotes_one:
  "update_remotes_locked env [uid] d =
     (case iprofiles_new env d of
        Inl e \<Rightarrow> (Inl e, d)
      | Inr p \<Rightarrow>
          (case update_remote env uid None \<lparr>ps_mem = p, ps_disk = d\<rparr> of
             (Inr cur, s) \<Rightarrow> (Inr ([(uid, cur)], []), ps_disk s)
           | (Inl e, s) \<Rightarrow> (Inr ([], [(uid, e)]), ps_disk s)))"
  by (auto simp: update_remotes_locked_def locked_def split: sum.split prod.split)

text \<open>The only refresh that can change the body and still report a failure is one whose writes were refused.\<close>

definition refuses_update :: "store_env \<Rightarrow> string \<Rightarrow> bool" where
  "refuses_update env file \<longleftrightarrow> (\<exists>data. \<not> st_writes env file data) \<or> (\<exists>q. \<not> st_saves env q)"

lemma refresh_one:
  assumes load: "iprofiles_new env d = Inr p" and found: "find_uid uid (store_items p) = Some item" "pi_file item = Some file"
    and chain: "pi_option item = Some o'" "None \<notin> set (chain_slots o')"
    and run: "update_remotes_locked env [uid] d = (r, d1)"
  shows "(\<exists>failed. r = Inr ([], failed) \<and> (pd_bodies d1 file = pd_bodies d file \<or> refuses_update env file)) \<or>
    (\<exists>cur p' item'. r = Inr ([(uid, cur)], []) \<and> iprofiles_new env d1 = Inr p' \<and>
       find_uid uid (store_items p') = Some item' \<and> pi_file item' = Some file)"
proof (cases "fetch_update env p uid None")
  case (Inl e)
  then have "update_remote env uid None \<lparr>ps_mem = p, ps_disk = d\<rparr> = (Inl e, \<lparr>ps_mem = p, ps_disk = d\<rparr>)"
    by (simp add: update_remote_def sbind_def lift_result_def)
  with run show ?thesis by (auto simp: update_remotes_one load)
next
  case (Inr b)
  let ?s = "\<lparr>ps_mem = p, ps_disk = d\<rparr>"
  obtain existing url' where e: "get_item p uid = Inr existing" "pi_type existing = Some ''remote''"
    "update_with_fallback (st_net env uid) url' (option_merge (pi_option existing) None) = Inr b"
    using fetch_update_remote [OF Inr] by blast
  have "existing = item" using remote_find [OF e(1)] e(2) found(1) by (simp add: is_selectable_def)
  then have item: "get_item (ps_mem ?s) uid = Inr item" "update_with_fallback (st_net env uid) url' (Some o') = Inr b"
    using e chain(1) by (simp_all add: option_merge_def)
  have none: "rb_fragments b = []"
    using complete_chain_no_fragments [OF _ chain(2)] update_fetched [OF item(2)] by simp
  obtain data where data: "pi_file_data (rb_item b) = Some data" using update_with_fallback_body [OF item(2)] by auto
  have name: "body_name uid (rb_item b) item = file" by (simp add: body_name_def found(2))
  show ?thesis
  proof (cases "st_storage env")
    case False
    then have "update_remote env uid None ?s = (Inl NoStorage, ?s)"
      by (simp add: update_remote_def sbind_def lift_result_def Inr ensure_profile_storage_def guard_def)
    with run show ?thesis by (auto simp: update_remotes_one load)
  next
    case storage: True
    have step: "update_remote env uid None ?s =
        sbind (update_item env uid (rb_item b)) (\<lambda>_. lift_result (Inr (ip_current (ps_mem ?s) = Some uid))) ?s"
      using storage
      by (simp add: update_remote_def sbind_def lift_result_def Inr ensure_profile_storage_def guard_def none
          split: prod.split sum.split)
    show ?thesis
    proof (cases "single_filename file")
      case False
      then obtain s' where "update_item env uid (rb_item b) ?s = (Inl FileNotSingle, s')" "ps_disk s' = d"
        using update_item_refused [OF item(1) data, of env] name by auto
      with step run show ?thesis by (auto simp: update_remotes_one load sbind_def)
    next
      case True
      let ?new = "refreshed uid (rb_item b) item"
      let ?d2 = "(put_body file (Some data) d)\<lparr>pd_profiles := StoredProfiles (stored_profiles (put_item uid ?new p))\<rparr>"
      have update: "update_item env uid (rb_item b) ?s =
          sbind (write_body env file data) (\<lambda>_. save_file env) (?s\<lparr>ps_mem := put_item uid ?new p\<rparr>)"
        using True update_item_write [OF item(1) data, of env] name by simp
      show ?thesis
      proof (cases "st_writes env file data \<and> st_saves env (put_item uid ?new p)")
        case False
        with step update run show ?thesis
          by (auto simp: update_remotes_one load sbind_def write_body_def save_file_def refuses_update_def split: if_splits)
      next
        case True
        then have "r = Inr ([(uid, ip_current p = Some uid)], [])" and d1: "d1 = ?d2"
          using step update run
          by (auto simp: update_remotes_one load sbind_def lift_result_def write_body_def save_file_def put_body_def)
        moreover have new: "pi_uid ?new = pi_uid item" "pi_file ?new = Some file" "pi_type ?new = pi_type item"
          by (simp_all add: refreshed_def refreshed_item_def name)
        obtain p' where p': "iprofiles_new env ?d2 = Inr p'" "get_item p' uid = Inr (stored_item ?new)"
          using saved_put [OF load _ new(1), of uid ?d2] item(1) by auto
        moreover have "item \<in> set (store_items p)" using found(1) by (auto simp: find_uid_def find_Some_iff)
        then have "is_selectable item" by (simp add: store_items_def)
        then have "is_selectable (stored_item ?new)" by (simp add: is_selectable_def stored_item_def new(3))
        then have "find_uid uid (store_items p') = Some (stored_item ?new)" by (rule remote_find [OF p'(2)])
        moreover have "pi_file (stored_item ?new) = Some file" by (simp add: stored_item_def new(2))
        ultimately show ?thesis by blast
      qed
    qed
  qed
qed

lemma patch_item_bodies: "pd_bodies (ps_disk (snd (patch_item env uid patch s))) = pd_bodies (ps_disk s)"
  by (auto simp: patch_item_def sbind_def lift_result_def modify_def save_file_def split: sum.split)

lemma restore_updated_bodies: "pd_bodies (snd (restore_updated_locked env uid updated d)) = pd_bodies d"
proof (cases "iprofiles_new env d")
  case (Inr p)
  have "pd_bodies (ps_disk (snd (patch_item env uid (empty_item\<lparr>pi_updated := Some updated\<rparr>) \<lparr>ps_mem = p, ps_disk = d\<rparr>))) = pd_bodies d"
    using patch_item_bodies by simp
  then show ?thesis by (simp add: restore_updated_locked_def locked_def Inr case_prod_beta')
qed (simp add: restore_updated_locked_def locked_def)

text \<open>The groups of the path all list their member, when the selection is made again without an error.\<close>

definition path_offered :: "group_map \<Rightarrow> (string \<times> string) list \<Rightarrow> bool" where
  "path_offered groups path \<longleftrightarrow>
     (\<forall>(group', selected) \<in> set path. \<exists>members. Option.bind (map_of groups group') rg_all = Some members \<and> selected \<in> set members)"

lemma reapply_path_offered: "reapply_path select groups path c = (Inr (), c') \<Longrightarrow> path_offered groups path"
proof (induction path arbitrary: c)
  case (Cons step path)
  then show ?case
    by (cases step) (fastforce simp: path_offered_def should_rollback_selected_exit_def split: option.splits if_splits prod.splits sum.splits)
qed (simp add: path_offered_def)

text \<open>
  A core that is stopped has nothing to load. A running one has loaded the profile as it is on disk, and when it still
  runs after that, the groups it then has offer the whole path to the exit and it selected it again.
\<close>

definition exit_carried_over ::
  "'c core_lifecycle \<Rightarrow> ('c \<Rightarrow> group_map) \<Rightarrow> (string \<times> string) list \<Rightarrow> profile_disk \<Rightarrow> string \<Rightarrow> string \<Rightarrow> bool \<Rightarrow> 'c \<Rightarrow> bool" where
  "exit_carried_over L groups_of path d uid node tun c \<longleftrightarrow>
     \<not> cl_is_running L c \<or>
     (\<exists>c1. cl_reload L d uid tun c = (Inr (), c1) \<and>
        (cl_is_running L c1 \<longrightarrow> path_offered (groups_of c1) path \<and> (\<exists>c2. cl_reapply L node c1 = (Inr (), c2))))"

lemma reload_selected_carries_over:
  assumes "reload_selected_with_lifecycle L d uid node tun c = (Inr (), c')"
    and "\<And>c c2. cl_reapply L node c = (Inr (), c2) \<Longrightarrow> \<exists>c3. reapply_path (select c) (groups_of c) path c = (Inr (), c3)"
  shows "exit_carried_over L groups_of path d uid node tun c"
  using assms reapply_path_offered
  by (fastforce simp: exit_carried_over_def reload_selected_with_lifecycle_def reload_with_lifecycle_def
      split: sum.splits prod.splits if_splits)

text \<open>The body on disk that the code took for one with the node, by the way it did so.\<close>

definition names_exit :: "ymapping \<Rightarrow> string \<Rightarrow> bool" where
  "names_exit config node \<longleftrightarrow>
     (\<exists>items item. Option.bind (ymap_get config ''outbounds'') y_seq = Some items \<and> item \<in> set items \<and>
        Option.bind (y_get item ''tag'') y_str = Some node) \<or>
     (\<exists>proxies m. ymap_get config ''proxies'' = Some (YSeq proxies) \<and> YMap m \<in> set proxies \<and> ymap_str m ''name'' = Some node)"

definition lists_exit :: "ymapping \<Rightarrow> string \<Rightarrow> bool" where
  "lists_exit config node \<longleftrightarrow>
     (\<exists>groups m names name. ymap_get config ''proxy-groups'' = Some (YSeq groups) \<and> YMap m \<in> set groups \<and>
        ymap_get m ''proxies'' = Some (YSeq names) \<and> name \<in> set names \<and> y_str name = Some node)"

definition has_provider :: "ymapping \<Rightarrow> bool" where
  "has_provider config \<longleftrightarrow> (\<exists>providers. Option.bind (ymap_get config ''proxy-providers'') y_map = Some providers \<and> providers \<noteq> [])"

lemma case_YSeq: "(case x of Some (YSeq ys) \<Rightarrow> P ys | _ \<Rightarrow> False) \<longleftrightarrow> (\<exists>ys. x = Some (YSeq ys) \<and> P ys)"
  by (auto split: option.splits yaml.splits)

lemma names_in_iff: "names_in node proxy \<longleftrightarrow> (\<exists>m. proxy = YMap m \<and> ymap_str m ''name'' = Some node)"
  by (auto simp: names_in_def split: yaml.splits)

lemma refers_to_iff:
  "refers_to node g \<longleftrightarrow> (\<exists>m names. g = YMap m \<and> ymap_get m ''proxies'' = Some (YSeq names) \<and> (\<exists>name \<in> set names. y_str name = Some node))"
  by (cases g) (simp_all add: refers_to_def case_YSeq)

lemma lists_exit_iff:
  "lists_exit config node \<longleftrightarrow> (\<exists>groups. ymap_get config ''proxy-groups'' = Some (YSeq groups) \<and> (\<exists>g \<in> set groups. refers_to node g))"
  unfolding lists_exit_def refers_to_iff by fast

lemma names_exit_iff:
  "names_exit config node \<longleftrightarrow>
     (\<exists>items. Option.bind (ymap_get config ''outbounds'') y_seq = Some items \<and>
        (\<exists>item \<in> set items. Option.bind (y_get item ''tag'') y_str = Some node)) \<or>
     (\<exists>proxies. ymap_get config ''proxies'' = Some (YSeq proxies) \<and> (\<exists>proxy \<in> set proxies. names_in node proxy))"
  unfolding names_exit_def names_in_iff by fast

lemma config_contains_node_cases:
  "config_contains_node config node \<longleftrightarrow> names_exit config node \<or> lists_exit config node \<or> has_provider config"
  unfolding config_contains_node_def names_exit_iff lists_exit_iff has_provider_def case_YSeq by (simp only: disj_assoc disj_commute disj_left_commute)

lemma refreshed_config_cases:
  assumes "refreshed_config_has_node env d uid node"
    and "iprofiles_new env d = Inr p" "find_uid uid (store_items p) = Some item" "pi_file item = Some file"
  shows "\<exists>raw config. pd_bodies d file = Some raw \<and> ne_mapping (st_net env uid) raw = Some config \<and>
    (names_exit config node \<or> lists_exit config node \<or> has_provider config)"
  using assms
  by (auto simp: refreshed_config_has_node_def is_some_and_def config_contains_node_cases split: option.splits)


definition exit_path :: "(string \<times> string) list" where
  "exit_path = [(''GLOBAL'', ''Proxy''), (''Proxy'', ''JP-4'')]"

definition idle_core :: "unit core_lifecycle" where
  "idle_core =
     \<lparr>cl_core_kind = (\<lambda>_. Mihomo), cl_is_running = (\<lambda>_. True), cl_owns_core = (\<lambda>_. True),
      cl_exit_node = (\<lambda>_ _ c. (Some ''JP-4'', c)), cl_delay_test = (\<lambda>_ c. (Inr 0, c)),
      cl_reload = (\<lambda>_ _ _ c. (Inr (), c)), cl_reapply = (\<lambda>_. reapply_path (\<lambda>c _ _. (Inr (), c)) sample_groups exit_path)\<rparr>"


end
