(* ===== verification/Compose.thy ===== *)
theory Compose
  imports Chain Assemble
begin

text \<open>
  Composing a profile for the core (\<open>src-tui/src/runtime_config.rs\<close>:
  \<open>compose_profile_with_controls\<close>, \<open>load_profile_yaml\<close>, \<open>validate_native_profile_hooks\<close>, and the
  mapping that \<open>reload_remote_profile\<close> hands to \<open>write_runtime_config_unlocked\<close>): the enhancement
  steps in the GUI's order, with the application's control plane put in before the global hooks and
  restored after the last one. The properties say that no profile, merge or script can take over the
  controller, its secret or the listeners.
\<close>

datatype compose_error =
    ProfileNoFile
  | ProfileMissing
  | ProfileUnreadable
  | ProfileNotMapping
  | HookNotFound string string
  | HookWrongType string string
  | HookFailed chain_error
  | NotBaseProfile
  | NativeHookNotEmpty string string
  | NotSerialized
  | RulesNotLoaded yaml_error

text \<open>YAML as a value, as a mapping and printed; the script engine; the JSON text format.\<close>

record compose_env =
  ce_parse :: "string \<Rightarrow> yaml option"
  ce_mapping :: "string \<Rightarrow> ymapping option"
  ce_print :: "ymapping \<Rightarrow> string option"
  ce_script :: script_engine
  ce_json :: json_io

type_synonym hook = "string \<times> string \<times> string option" \<comment> \<open>type, default uid, configured uid\<close>

definition option_uid :: "(prf_option \<Rightarrow> string option) \<Rightarrow> prf_item \<Rightarrow> string option" where
  "option_uid field item = Option.bind (pi_option item) field"

definition sequence_hooks :: "prf_item \<Rightarrow> hook list" where
  "sequence_hooks item =
     [(''rules'', ''Rules'', option_uid po_rules item),
      (''proxies'', ''Proxies'', option_uid po_proxies item),
      (''groups'', ''Groups'', option_uid po_groups item)]"

definition late_hooks :: "prf_item \<Rightarrow> hook list" where
  "late_hooks item =
     [(''merge'', ''Merge'', None),
      (''script'', ''Script'', None),
      (''merge'', ''Merge'', option_uid po_merge item),
      (''script'', ''Script'', option_uid po_script item)]"

definition find_item :: "prf_item list \<Rightarrow> string \<Rightarrow> prf_item option" where
  "find_item all uid = find (\<lambda>i. pi_uid i = Some uid) all"

definition run_hook ::
  "compose_env \<Rightarrow> directory \<Rightarrow> prf_item list \<Rightarrow> string \<Rightarrow> hook \<Rightarrow> ymapping \<Rightarrow> (ymapping, compose_error) result"
where
  "run_hook env dir all profile_name hook profile =
     (case hook of (kind, default_uid, configured) \<Rightarrow>
        (let uid = unwrap_or configured default_uid in
         case find_item all uid of
           None \<Rightarrow> if configured \<noteq> None then Inl (HookNotFound kind uid) else Inr profile
         | Some fragment \<Rightarrow>
             (if pi_type fragment \<noteq> Some kind then Inl (HookWrongType kind uid)
              else rbind (map_err HookFailed (resolve_chain (ce_parse env) dir fragment)) (\<lambda>chain.
                     map_err HookFailed (apply_chain_to_profile (ce_script env) chain profile_name profile)))))"

fun run_hooks ::
  "compose_env \<Rightarrow> directory \<Rightarrow> prf_item list \<Rightarrow> string \<Rightarrow> hook list \<Rightarrow> ymapping \<Rightarrow> (ymapping, compose_error) result"
where
  "run_hooks env dir all profile_name [] profile = Inr profile"
| "run_hooks env dir all profile_name (hook # hooks) profile =
     rbind (run_hook env dir all profile_name hook profile) (run_hooks env dir all profile_name hooks)"

definition inject_controls :: "ymapping \<Rightarrow> ymapping \<Rightarrow> ymapping" where
  "inject_controls app profile =
     (let tun = ymap_extend (mapping_at ''tun'' app) (mapping_at ''tun'' profile);
          control = ymap_put ''tun'' (YMap tun) (snapshot_control_plane app)
      in enforce_control_plane profile control)"

definition restore_controls :: "ymapping \<Rightarrow> ymapping \<Rightarrow> ymapping \<Rightarrow> ymapping" where
  "restore_controls app authority profile =
     (let tun = ymap_extend (mapping_at ''tun'' app) (mapping_at ''tun'' profile)
      in enforce_control_plane profile (ymap_put ''tun'' (YMap tun) authority))"

definition read_profile_mapping ::
  "compose_env \<Rightarrow> directory \<Rightarrow> prf_item \<Rightarrow> (ymapping, compose_error) result" where
  "read_profile_mapping env dir item =
     rbind (ok_or (pi_file item) ProfileNoFile) (\<lambda>file.
       case dir file of
         Absent \<Rightarrow> Inl ProfileMissing
       | Unreadable \<Rightarrow> Inl ProfileUnreadable
       | Content raw \<Rightarrow> ok_or (ce_mapping env raw) ProfileNotMapping)"

definition compose_profile_with_controls ::
  "compose_env \<Rightarrow> directory \<Rightarrow> prf_item list \<Rightarrow> prf_item \<Rightarrow> ymapping option \<Rightarrow> yaml list option
     \<Rightarrow> (ymapping, compose_error) result" where
  "compose_profile_with_controls env dir all item app_controls rules_override =
     rbind (read_profile_mapping env dir item) (\<lambda>profile.
     (let profile = (case rules_override of
              Some rules \<Rightarrow> ymap_put ''rules'' (YSeq rules) profile | None \<Rightarrow> profile);
          name = unwrap_or (pi_name item) []
      in rbind (run_hooks env dir all name (sequence_hooks item) profile) (\<lambda>profile.
           case app_controls of
             None \<Rightarrow> run_hooks env dir all name (late_hooks item) profile
           | Some app \<Rightarrow>
               (let profile = inject_controls app profile;
                    authority = snapshot_control_plane profile
                in rbind (run_hooks env dir all name (late_hooks item) profile) (\<lambda>profile.
                     Inr (restore_controls app authority profile))))))"

text \<open>The application's side of the composition: \<open>config.yaml\<close> with the CLI's ports and TUN flag.\<close>

definition app_controls_of :: "ymapping \<Rightarrow> verge_ports \<Rightarrow> bool option \<Rightarrow> ymapping" where
  "app_controls_of clash verge enable_tun_mode =
     use_tun (apply_verge_ports verge clash) (unwrap_or enable_tun_mode False)"

definition load_remote_profile_with_rules ::
  "compose_env \<Rightarrow> directory \<Rightarrow> prf_item list \<Rightarrow> ymapping \<Rightarrow> verge_ports \<Rightarrow> bool option \<Rightarrow> prf_item
     \<Rightarrow> (ymapping, compose_error) result" where
  "load_remote_profile_with_rules env dir all clash verge enable_tun_mode item =
     compose_profile_with_controls env dir all item (Some (app_controls_of clash verge enable_tun_mode)) None"

definition file_rule_text :: "route_rule \<Rightarrow> string" where
  "file_rule_text rule = (case rule of Raw s \<Rightarrow> s | r \<Rightarrow> to_clash_rule_str r)"

definition compose_profile_rules ::
  "compose_env \<Rightarrow> directory \<Rightarrow> prf_item list \<Rightarrow> ymapping \<Rightarrow> verge_ports \<Rightarrow> bool option \<Rightarrow> prf_item
     \<Rightarrow> route_rule list \<Rightarrow> (route_rule list, compose_error) result" where
  "compose_profile_rules env dir all clash verge enable_tun_mode item file_rules =
     rbind (compose_profile_with_controls env dir all item (Some (app_controls_of clash verge enable_tun_mode))
              (Some (map (\<lambda>r. YStr (file_rule_text r)) file_rules))) (\<lambda>m.
     rbind (ok_or (ce_print env m) NotSerialized) (\<lambda>yaml.
       map_err RulesNotLoaded (load_profile_rules (ce_parse env) yaml)))"

definition native_hooks :: "prf_item \<Rightarrow> hook list" where
  "native_hooks item =
     [(''merge'', ''Merge'', option_uid po_merge item),
      (''script'', ''Script'', option_uid po_script item),
      (''rules'', ''Rules'', option_uid po_rules item),
      (''proxies'', ''Proxies'', option_uid po_proxies item),
      (''groups'', ''Groups'', option_uid po_groups item),
      (''merge'', ''Merge'', None),
      (''script'', ''Script'', None)]"

definition check_native_hook ::
  "compose_env \<Rightarrow> directory \<Rightarrow> prf_item list \<Rightarrow> hook \<Rightarrow> (unit, compose_error) result" where
  "check_native_hook env dir all hook =
     (case hook of (kind, default_uid, explicit) \<Rightarrow>
        (let uid = unwrap_or explicit default_uid in
         case find_item all uid of
           None \<Rightarrow> guard (explicit = None) (HookNotFound kind uid)
         | Some fragment \<Rightarrow>
             (if pi_type fragment \<noteq> Some kind then Inl (HookWrongType kind uid)
              else rbind (map_err HookFailed (resolve_chain (ce_parse env) dir fragment)) (\<lambda>chain.
                     guard (is_noop chain) (NativeHookNotEmpty kind uid)))))"

definition validate_native_profile_hooks ::
  "compose_env \<Rightarrow> directory \<Rightarrow> prf_item list \<Rightarrow> prf_item \<Rightarrow> (unit, compose_error) result" where
  "validate_native_profile_hooks env dir all item = check_all (check_native_hook env dir all) (native_hooks item)"

definition load_profile_yaml ::
  "compose_env \<Rightarrow> directory \<Rightarrow> prf_item list \<Rightarrow> ymapping \<Rightarrow> verge_ports \<Rightarrow> bool option \<Rightarrow> prf_item
     \<Rightarrow> (string, compose_error) result" where
  "load_profile_yaml env dir all clash verge enable_tun_mode item =
     rbind (ok_or (pi_file item) ProfileNoFile) (\<lambda>file.
     rbind (case dir file of Content raw \<Rightarrow> Inr raw | Absent \<Rightarrow> Inl ProfileMissing | Unreadable \<Rightarrow> Inl ProfileUnreadable) (\<lambda>raw.
       if is_singbox_json_profile (ce_json env) raw then
         rbind (validate_native_profile_hooks env dir all item) (\<lambda>_. Inr raw)
       else if pi_type item \<notin> {Some ''remote'', Some ''local''} then Inl NotBaseProfile
       else rbind (load_remote_profile_with_rules env dir all clash verge enable_tun_mode item) (\<lambda>m.
              ok_or (ce_print env m) NotSerialized)))"

text \<open>What \<open>reload_remote_profile\<close> builds under the lock and \<open>write_runtime_config_unlocked\<close> makes of it.\<close>

definition build_reloaded :: "ymapping \<Rightarrow> ymapping \<Rightarrow> ymapping" where
  "build_reloaded profile app_config = enforce_control_plane profile (snapshot_control_plane app_config)"

definition runtime_config_to_write :: "verge_ports \<Rightarrow> bool \<Rightarrow> ymapping \<Rightarrow> ymapping" where
  "runtime_config_to_write verge enable_tun config =
     prepare_runtime_config (apply_verge_ports verge config) enable_tun"

section \<open>Lemmas\<close>

lemma assoc_put_wf: "ymap_wf m \<Longrightarrow> ymap_wf (assoc_put k v m)"
  by (simp add: ymap_wf_def distinct_assoc_put)

lemma merge_entry_put: "merge_entry (k, v) m = Inr m' \<Longrightarrow> \<exists>k w. m' = assoc_put k w m"
proof -
  define dns hosts where "dns = YStr ''dns''" and "hosts = YStr ''hosts''"
  assume "merge_entry (k, v) m = Inr m'"
  then show ?thesis
    unfolding merge_entry_def Let_def prod.case dns_def [symmetric] hosts_def [symmetric]
    by (cases "lower_key k = dns"; cases "map_of m (lower_key k)"; cases "the (map_of m (lower_key k))"; cases v)
       (auto split: if_split_asm)
qed

lemma merge_entry_wf: "merge_entry e m = Inr m' \<Longrightarrow> ymap_wf m \<Longrightarrow> ymap_wf m'"
  by (cases e) (auto dest!: merge_entry_put simp: assoc_put_wf)

lemma apply_merge_wf: "apply_merge es m = Inr m' \<Longrightarrow> ymap_wf m \<Longrightarrow> ymap_wf m'"
  by (induction es m rule: apply_merge.induct) (auto dest: merge_entry_wf)

lemma apply_sequence_fragment_wf: "ymap_wf m \<Longrightarrow> ymap_wf (apply_sequence_fragment f field m)"
  by (simp add: apply_sequence_fragment_def Let_def ymap_wf_put ymap_get_remove(2)
      split: sequence_fragment.split option.split yaml.split)

lemma apply_chain_wf:
  assumes "apply_chain_to_profile script chain name m = Inr m'" "ymap_wf m"
    and "\<And>c s n p c'. script c s n p = Some c' \<Longrightarrow> ymap_wf c'"
  shows "ymap_wf m'"
  using assms
  by (auto simp: apply_chain_to_profile_def apply_rules_fragment_def Let_def ymap_wf_put
      apply_sequence_fragment_wf apply_merge_wf split: chain_type.split_asm)

lemma run_hook_wf:
  assumes "run_hook env dir all name hook m = Inr m'" "ymap_wf m"
    and "\<And>c s n p c'. ce_script env c s n p = Some c' \<Longrightarrow> ymap_wf c'"
  shows "ymap_wf m'"
  using assms(1,2) apply_chain_wf [OF _ _ assms(3)]
  by (auto simp: run_hook_def Let_def split: prod.split_asm option.split_asm if_split_asm)

lemma run_hooks_wf:
  "run_hooks env dir all name hooks m = Inr m' \<Longrightarrow> ymap_wf m \<Longrightarrow>
     (\<And>c s n p c'. ce_script env c s n p = Some c' \<Longrightarrow> ymap_wf c') \<Longrightarrow> ymap_wf m'"
  by (induction hooks arbitrary: m) (auto dest: run_hook_wf)

lemma verge_port_wf: "ymap_wf m \<Longrightarrow> ymap_wf (verge_port e p k m)"
  by (simp add: verge_port_def ymap_wf_put ymap_get_remove(2) split: option.split bool.split)

lemma verge_port_other: "ymap_wf m \<Longrightarrow> k' \<noteq> k \<Longrightarrow> ymap_get (verge_port e p k m) k' = ymap_get m k'"
  by (simp add: verge_port_def ymap_get_put ymap_get_remove(1) split: option.split bool.split)

lemma apply_verge_ports_wf: "ymap_wf m \<Longrightarrow> ymap_wf (apply_verge_ports v m)"
  by (simp add: apply_verge_ports_def verge_port_wf ymap_wf_put split: option.split)

lemma apply_verge_ports_other:
  "ymap_wf m \<Longrightarrow> k \<notin> {''mixed-port'', ''socks-port'', ''port'', ''redir-port'', ''tproxy-port''} \<Longrightarrow>
     ymap_get (apply_verge_ports v m) k = ymap_get m k"
  by (simp add: apply_verge_ports_def verge_port_wf verge_port_other ymap_wf_put ymap_get_put split: option.split)

lemma restored_controls:
  assumes "ymap_wf profile" "ymap_wf profile'" "ymap_wf (mapping_at ''tun'' app)"
    and result: "result = restore_controls app (snapshot_control_plane (inject_controls app profile)) profile'"
  shows "k \<in> set control_plane_keys \<Longrightarrow> k \<noteq> ''tun'' \<Longrightarrow> ymap_get result k = ymap_get app k"
    "k \<notin> set control_plane_keys \<Longrightarrow> ymap_get result k = ymap_get profile' k"
    "\<exists>tun. ymap_get result ''tun'' = Some (YMap tun) \<and>
       (\<forall>k v. ymap_get (mapping_at ''tun'' app) k = Some v \<longrightarrow> ymap_get tun k = Some v)"
proof -
  have tun: "''tun'' \<in> set control_plane_keys" by (simp add: control_plane_keys_def)
  have inject: "ymap_get (inject_controls app profile) k = ymap_get app k" if "k \<in> set control_plane_keys" "k \<noteq> ''tun''" for k
    using that assms(1)
    by (simp add: inject_controls_def Let_def ymap_get_enforce ymap_wf_put snapshot_wf ymap_get_put ymap_get_snapshot
        split: option.split)
  have r: "ymap_get result k = (case ymap_get (ymap_put ''tun'' (YMap (ymap_extend (mapping_at ''tun'' app) (mapping_at ''tun'' profile')))
        (snapshot_control_plane (inject_controls app profile))) k of
       Some v \<Rightarrow> Some v
     | None \<Rightarrow> if k \<in> set control_plane_keys then None else ymap_get profile' k)" for k
    using assms(2) by (simp add: result restore_controls_def ymap_get_enforce ymap_wf_put snapshot_wf)
  show "k \<in> set control_plane_keys \<Longrightarrow> k \<noteq> ''tun'' \<Longrightarrow> ymap_get result k = ymap_get app k"
    by (simp add: r ymap_get_put ymap_get_snapshot inject split: option.split)
  show "k \<notin> set control_plane_keys \<Longrightarrow> ymap_get result k = ymap_get profile' k"
    using tun by (auto simp: r ymap_get_put ymap_get_snapshot split: option.split)
  show "\<exists>tun. ymap_get result ''tun'' = Some (YMap tun) \<and>
       (\<forall>k v. ymap_get (mapping_at ''tun'' app) k = Some v \<longrightarrow> ymap_get tun k = Some v)"
    by (simp add: r ymap_get_put ymap_get_extend [OF assms(3)])
qed

lemma composed_controls:
  assumes "compose_profile_with_controls env dir all item (Some app) override = Inr out"
    and mapping: "\<forall>raw m. ce_mapping env raw = Some m \<longrightarrow> ymap_wf m"
    and script: "\<forall>c s n p c'. ce_script env c s n p = Some c' \<longrightarrow> ymap_wf c'"
  shows "\<exists>profile profile'. ymap_wf profile \<and> ymap_wf profile' \<and>
    out = restore_controls app (snapshot_control_plane (inject_controls app profile)) profile' \<and>
    run_hooks env dir all (unwrap_or (pi_name item) []) (late_hooks item) (inject_controls app profile) = Inr profile'"
proof -
  let ?name = "unwrap_or (pi_name item) []"
  from assms(1) obtain m where m: "read_profile_mapping env dir item = Inr m"
    by (auto simp: compose_profile_with_controls_def)
  then obtain f where "(case dir f of Absent \<Rightarrow> Inl ProfileMissing | Unreadable \<Rightarrow> Inl ProfileUnreadable
      | Content raw \<Rightarrow> ok_or (ce_mapping env raw) ProfileNotMapping) = Inr m" by (auto simp: read_profile_mapping_def)
  then have wf: "ymap_wf m" using mapping by (cases "dir f") auto
  define start where "start = (case override of Some rules \<Rightarrow> ymap_put ''rules'' (YSeq rules) m | None \<Rightarrow> m)"
  have start: "ymap_wf start" using wf by (simp add: start_def ymap_wf_put split: option.split)
  from assms(1) m obtain profile where profile: "run_hooks env dir all ?name (sequence_hooks item) start = Inr profile"
    and rest: "rbind (run_hooks env dir all ?name (late_hooks item) (inject_controls app profile)) (\<lambda>p.
      Inr (restore_controls app (snapshot_control_plane (inject_controls app profile)) p)) = Inr out"
    by (auto simp: compose_profile_with_controls_def start_def Let_def)
  from rest obtain profile' where late: "run_hooks env dir all ?name (late_hooks item) (inject_controls app profile) = Inr profile'"
    and out: "out = restore_controls app (snapshot_control_plane (inject_controls app profile)) profile'" by auto
  have "ymap_wf profile" by (rule run_hooks_wf [OF profile start]) (use script in blast)
  moreover from this have "ymap_wf (inject_controls app profile)"
    by (simp add: inject_controls_def Let_def enforce_wf)
  then have "ymap_wf profile'" by (rule run_hooks_wf [OF late]) (use script in blast)
  ultimately show ?thesis using late out by blast
qed




text \<open>A profile and a global script that both claim the secret.\<close>

definition blank_item :: prf_item where
  "blank_item =
     \<lparr>pi_uid = None, pi_type = None, pi_name = None, pi_file = Some ''p'', pi_desc = None, pi_url = None,
      pi_selected = None, pi_extra = None, pi_updated = None, pi_option = None, pi_home = None, pi_file_data = None,
      pi_unknown = []\<rparr>"

definition script_item :: prf_item where
  "script_item = blank_item\<lparr>pi_uid := Some ''Script'', pi_type := Some ''script''\<rparr>"

definition hijack_env :: compose_env where
  "hijack_env =
     \<lparr>ce_parse = (\<lambda>_. None), ce_mapping = (\<lambda>_. Some [(YStr ''secret'', YStr ''evil'')]), ce_print = (\<lambda>_. None),
      ce_script = (\<lambda>_ _ _ _. Some [(YStr ''secret'', YStr ''evil'')]), ce_json = single_document_io JNull\<rparr>"


end
