(* ===== verification/Profile_Switch.thy ===== *)
theory Profile_Switch
  imports Profiles Compose Lifecycle
begin

text \<open>
  Switching and reloading a profile: the DNS preference of a profile and its confirmation in
  \<open>crates/clash-verge-core/src/config/verge.rs\<close>, the transaction of \<open>commit_runtime_config\<close> in
  \<open>src-tui/src/runtime_config.rs\<close>, and the lookup and the switch of a profile in
  \<open>src-tui/src/services/profile.rs\<close>. The identity of provider DNS fields is a parameter, as are the
  answers of the core. The properties say when the global DNS section replaces the one of a profile, what a
  failed reload leaves, and what a failed switch does to the current profile when others switch meanwhile.
\<close>

section \<open>DNS preferences\<close>

record profile_dns_settings =
  pds_enabled :: bool
  pds_confirmation :: "string option"
  pds_unknown :: ymapping

record iverge =
  iv_enable_dns_settings :: "bool option"
  iv_profile_dns :: "string \<Rightarrow> profile_dns_settings option"
  iv_other :: ymapping

definition iverge_template :: iverge where
  "iverge_template = \<lparr>iv_enable_dns_settings = None, iv_profile_dns = (\<lambda>_. None), iv_other = []\<rparr>"

datatype verge_file = NoVerge | UnreadableVerge | StoredVerge iverge

fun iverge_try_new :: "verge_file \<Rightarrow> iverge option" where
  "iverge_try_new NoVerge = Some iverge_template"
| "iverge_try_new UnreadableVerge = None"
| "iverge_try_new (StoredVerge v) = Some v"

definition provider_dns_fields :: "string list" where
  "provider_dns_fields = [''proxy-server-nameserver'', ''proxy-server-nameserver-policy'', ''nameserver-policy'']"

fun nonempty_field :: "yaml \<Rightarrow> bool" where
  "nonempty_field (YSeq values) \<longleftrightarrow> values \<noteq> []"
| "nonempty_field (YMap values) \<longleftrightarrow> values \<noteq> []"
| "nonempty_field (YStr value') \<longleftrightarrow> trim value' \<noteq> []"
| "nonempty_field _ \<longleftrightarrow> False"

datatype dns_error =
    DnsNotMapping
  | DnsIdentityFailed
  | EmptyUid
  | VergeUnreadable
  | GlobalDnsInvalid
  | DnsOverlayFailed chain_error

definition provider_fields :: "ymapping \<Rightarrow> ymapping" where
  "provider_fields dns =
     filter_map (\<lambda>key. Option.bind (ymap_get dns key) (\<lambda>v. if nonempty_field v then Some (YStr key, v) else None))
       provider_dns_fields"

text \<open>The identity is the SHA-256 of the uid and the sorted JSON of the fields; it fails on fields JSON cannot hold.\<close>

definition dns_override_source ::
  "(string \<Rightarrow> ymapping \<Rightarrow> string option) \<Rightarrow> string \<Rightarrow> ymapping \<Rightarrow> (string option, dns_error) result" where
  "dns_override_source identity uid config =
     (case ymap_get config ''dns'' of
        None \<Rightarrow> Inr None
      | Some v \<Rightarrow>
          rbind (ok_or (y_map v) DnsNotMapping) (\<lambda>dns.
            if provider_fields dns = [] then Inr None
            else rbind (ok_or (identity uid (provider_fields dns)) DnsIdentityFailed) (\<lambda>source. Inr (Some source))))"

record dns_override_state =
  do_profile_uid :: string
  do_source :: "string option"
  do_enabled :: bool
  do_requested :: bool
  do_confirmation :: "string option"

definition dns_override_state_new :: "string \<Rightarrow> string option \<Rightarrow> bool \<Rightarrow> string option \<Rightarrow> dns_override_state" where
  "dns_override_state_new uid source requested confirmation =
     \<lparr>do_profile_uid = uid, do_source = source, do_enabled = (requested \<and> (source = None \<or> source = confirmation)),
      do_requested = requested, do_confirmation = confirmation\<rparr>"

definition dns_settings_for :: "string \<Rightarrow> iverge \<Rightarrow> profile_dns_settings" where
  "dns_settings_for uid verge =
     unwrap_or (iv_profile_dns verge uid)
       \<lparr>pds_enabled = unwrap_or (iv_enable_dns_settings verge) False, pds_confirmation = None, pds_unknown = []\<rparr>"

definition dns_override_for ::
  "(string \<Rightarrow> ymapping \<Rightarrow> string option) \<Rightarrow> string \<Rightarrow> ymapping \<Rightarrow> iverge \<Rightarrow> (dns_override_state, dns_error) result" where
  "dns_override_for identity uid config verge =
     (let settings = dns_settings_for uid verge in
      rbind (dns_override_source identity uid config) (\<lambda>source.
        Inr (dns_override_state_new uid source (pds_enabled settings) (pds_confirmation settings))))"

definition apply_dns_state :: "dns_override_state \<Rightarrow> iverge \<Rightarrow> bool \<times> iverge" where
  "apply_dns_state state verge =
     (let uid = do_profile_uid state;
          current = dns_settings_for uid verge;
          clear = (do_confirmation state \<noteq> None \<and> do_source state \<noteq> do_confirmation state)
      in if uid = [] then (False, verge)
         else if (pds_enabled current, pds_confirmation current) \<noteq> (do_requested state, do_confirmation state) then (False, verge)
         else if do_enabled state = do_requested state \<and> \<not> clear \<and> iv_profile_dns verge uid \<noteq> None then (False, verge)
         else (True, verge\<lparr>iv_profile_dns := (iv_profile_dns verge)(uid := Some
                 \<lparr>pds_enabled = do_enabled state, pds_confirmation = (if clear then None else do_confirmation state),
                  pds_unknown = pds_unknown current\<rparr>)\<rparr>))"

text \<open>The latest settings are read again; a failed read or save leaves the file and is only logged.\<close>

definition persist_dns_override_after_apply :: "bool \<Rightarrow> dns_override_state \<Rightarrow> verge_file \<Rightarrow> verge_file" where
  "persist_dns_override_after_apply saves state file =
     (case iverge_try_new file of
        None \<Rightarrow> file
      | Some latest \<Rightarrow>
          (case apply_dns_state state latest of (changed, v) \<Rightarrow> if changed \<and> saves then StoredVerge v else file))"

definition prepare_profile_dns ::
  "(string \<Rightarrow> ymapping \<Rightarrow> string option) \<Rightarrow> string \<Rightarrow> ymapping \<Rightarrow> ymapping \<Rightarrow> iverge
     \<Rightarrow> (ymapping \<times> dns_override_state, dns_error) result" where
  "prepare_profile_dns identity uid config global_dns verge =
     rbind (guard (uid \<noteq> []) EmptyUid) (\<lambda>_.
     rbind (dns_override_for identity uid config verge) (\<lambda>state.
       if do_enabled state
       then rbind (map_err DnsOverlayFailed (apply_dns_override global_dns config)) (\<lambda>config'. Inr (config', state))
       else Inr (config, state)))"

definition read_global_dns_config :: "(string \<Rightarrow> ymapping option) \<Rightarrow> stored \<Rightarrow> (ymapping, dns_error) result" where
  "read_global_dns_config mapping file =
     (case file of Absent \<Rightarrow> Inr [] | Unreadable \<Rightarrow> Inl GlobalDnsInvalid | Content raw \<Rightarrow> ok_or (mapping raw) GlobalDnsInvalid)"

definition prepare_profile_dns_from_settings ::
  "(string \<Rightarrow> ymapping \<Rightarrow> string option) \<Rightarrow> (string \<Rightarrow> ymapping option) \<Rightarrow> stored \<Rightarrow> verge_file \<Rightarrow> string \<Rightarrow> ymapping
     \<Rightarrow> (ymapping \<times> dns_override_state, dns_error) result" where
  "prepare_profile_dns_from_settings identity mapping dns_file verge_file uid config =
     rbind (guard (uid \<noteq> []) EmptyUid) (\<lambda>_.
     rbind (ok_or (iverge_try_new verge_file) VergeUnreadable) (\<lambda>verge.
     rbind (dns_override_for identity uid config verge) (\<lambda>state.
       if \<not> do_enabled state then Inr (config, state)
       else rbind (read_global_dns_config mapping dns_file) (\<lambda>global_dns.
              prepare_profile_dns identity uid config global_dns verge))))"

section \<open>Committing a runtime configuration\<close>

text \<open>
  The world of a commit: the configuration file, what the core serves, the settings file and the
  selections made in the core.
\<close>

record commit_world =
  cw_file :: stored
  cw_served :: "string option"
  cw_verge :: verge_file
  cw_selected :: "(string \<times> string) list"

text \<open>
  What happens to the request of a reload. No answer may come although the core has taken the file; a status outside
  2xx says that it has not; and after an accepted reload the version request that follows may still fail.
\<close>

datatype reload_reply = Unanswered string bool | Rejected string string | Accepted "string option"

fun reload_error :: "reload_reply \<Rightarrow> string option" where
  "reload_error (Unanswered e _) = Some e"
| "reload_error (Rejected status body) = Some (''Mihomo rejected config reload ('' @ status @ ''): '' @ body)"
| "reload_error (Accepted None) = None"
| "reload_error (Accepted (Some e)) = Some (''config reload accepted but controller readiness failed: '' @ e)"

fun reload_takes :: "reload_reply \<Rightarrow> bool" where
  "reload_takes (Unanswered _ loaded) \<longleftrightarrow> loaded"
| "reload_takes (Rejected _ _) \<longleftrightarrow> False"
| "reload_takes (Accepted _) \<longleftrightarrow> True"

definition reload_config_file :: "reload_reply \<Rightarrow> string \<Rightarrow> commit_world \<Rightarrow> string option \<times> commit_world" where
  "reload_config_file reply doc w = (reload_error reply, if reload_takes reply then w\<lparr>cw_served := Some doc\<rparr> else w)"

text \<open>
  What decides a commit: how the file reads as base configuration, the identity of DNS fields, YAML, the
  global DNS file, the ports of the settings, the printed document if it can be written, what happens to the
  first and the second reload, the errors of putting the old file back (when the reload failed, and again when the
  transaction is dropped), whether settings can be saved, and which selections the core takes.
\<close>

record commit_env =
  cm_base :: "stored \<Rightarrow> ymapping"
  cm_identity :: "string \<Rightarrow> ymapping \<Rightarrow> string option"
  cm_mapping :: "string \<Rightarrow> ymapping option"
  cm_global_dns :: stored
  cm_ports :: verge_ports
  cm_print :: "ymapping \<Rightarrow> string option"
  cm_reload :: "string \<Rightarrow> reload_reply"
  cm_reload_again :: "string \<Rightarrow> reload_reply"
  cm_rollback :: "string option"
  cm_drop :: "string option"
  cm_saves :: bool
  cm_selects :: "string \<Rightarrow> string \<Rightarrow> bool"

datatype commit_error =
    BuildFailed string
  | DnsFailedFor dns_error
  | BackupFailed
  | NotWritten
  | ReloadFailed string
  | RestoredPrevious string
  | RollbackFailedAfter string string

definition restore_selected_nodes :: "commit_env \<Rightarrow> prf_item \<Rightarrow> commit_world \<Rightarrow> commit_world" where
  "restore_selected_nodes env item w =
     w\<lparr>cw_selected := cw_selected w @
       filter (\<lambda>(group', node). cm_selects env group' node)
         (filter_map (\<lambda>entry. Option.bind (psel_name entry) (\<lambda>group'. map_option (Pair group') (psel_now entry)))
           (unwrap_or (pi_selected item) []))\<rparr>"

definition persist_dns_override_state :: "commit_env \<Rightarrow> dns_override_state option \<Rightarrow> commit_world \<Rightarrow> commit_world" where
  "persist_dns_override_state env state w =
     (case state of None \<Rightarrow> w
      | Some s \<Rightarrow> w\<lparr>cw_verge := persist_dns_override_after_apply (cm_saves env) s (cw_verge w)\<rparr>)"

definition prepared_commit ::
  "commit_env \<Rightarrow> prf_item option \<Rightarrow> (ymapping \<Rightarrow> (ymapping, string) result) \<Rightarrow> commit_world
     \<Rightarrow> (ymapping \<times> dns_override_state option, commit_error) result" where
  "prepared_commit env restore_item build w =
     rbind (map_err BuildFailed (build (cm_base env (cw_file w)))) (\<lambda>config.
       case Option.bind restore_item pi_uid of
         None \<Rightarrow> Inr (config, None)
       | Some uid \<Rightarrow>
           rbind (map_err DnsFailedFor
             (prepare_profile_dns_from_settings (cm_identity env) (cm_mapping env) (cm_global_dns env) (cw_verge w) uid config))
             (\<lambda>(config, state). Inr (config, Some state)))"

definition commit_runtime_config ::
  "commit_env \<Rightarrow> bool \<Rightarrow> bool \<Rightarrow> prf_item option \<Rightarrow> (ymapping \<Rightarrow> (ymapping, string) result) \<Rightarrow> commit_world
     \<Rightarrow> (unit, commit_error) result \<times> commit_world"
where
  "commit_runtime_config env enable_tun core_running restore_item build w =
     (case prepared_commit env restore_item build w of
        Inl e \<Rightarrow> (Inl e, w)
      | Inr (config, state) \<Rightarrow>
      (if cw_file w = Unreadable then (Inl BackupFailed, w)
       else case cm_print env (runtime_config_to_write (cm_ports env) enable_tun config) of
          None \<Rightarrow> (Inl NotWritten, w)
        | Some doc \<Rightarrow>
            (let written = w\<lparr>cw_file := Content doc\<rparr> in
             if \<not> core_running then (Inr (), persist_dns_override_state env state written)
             else case reload_config_file (cm_reload env doc) doc written of
                 (None, w1) \<Rightarrow>
                   (let w2 = (case restore_item of None \<Rightarrow> w1 | Some item \<Rightarrow> restore_selected_nodes env item w1)
                    in (Inr (), persist_dns_override_state env state w2))
               | (Some e, w1) \<Rightarrow>
                   (let back = w1\<lparr>cw_file := cw_file w\<rparr> in
                    case cm_rollback env of
                      Some msg \<Rightarrow> (Inl (RollbackFailedAfter e msg), if cm_drop env = None then back else w1)
                    | None \<Rightarrow>
                        (case cw_file w of
                           Content previous \<Rightarrow>
                             (Inl (RestoredPrevious e), snd (reload_config_file (cm_reload_again env previous) previous back))
                         | _ \<Rightarrow> (Inl (ReloadFailed e), back))))))"

text \<open>The builds of \<open>reload_remote_profile\<close> and of \<open>apply_profile\<close>: the profile under the control plane of the base.\<close>

definition apply_profile ::
  "commit_env \<Rightarrow> prf_item \<Rightarrow> string \<Rightarrow> bool \<Rightarrow> bool \<Rightarrow> commit_world \<Rightarrow> (unit, commit_error) result \<times> commit_world" where
  "apply_profile env item doc enable_tun core_running w =
     (case cm_mapping env doc of
        None \<Rightarrow> (Inl (BuildFailed ''invalid profile YAML''), w)
      | Some profile \<Rightarrow>
          commit_runtime_config env enable_tun core_running (Some item) (\<lambda>base. Inr (build_reloaded profile base)) w)"

definition reload_remote_profile ::
  "commit_env \<Rightarrow> (ymapping, string) result \<Rightarrow> prf_item \<Rightarrow> bool \<Rightarrow> bool \<Rightarrow> commit_world
     \<Rightarrow> (unit, commit_error) result \<times> commit_world" where
  "reload_remote_profile env composed item enable_tun core_running w =
     (case composed of
        Inl e \<Rightarrow> (Inl (BuildFailed e), w)
      | Inr profile \<Rightarrow>
          commit_runtime_config env enable_tun core_running (Some item) (\<lambda>base. Inr (build_reloaded profile base)) w)"

section \<open>Finding and switching a profile\<close>

datatype find_error = AmbiguousProfile "string list" | NoSuchProfile

definition named :: "bool \<Rightarrow> string \<Rightarrow> prf_item \<Rightarrow> bool" where
  "named exact query item \<longleftrightarrow>
     is_some_and (pi_name item) (\<lambda>name. if exact then name = query else eq_ignore_ascii_case name query)"

fun find_named :: "prf_item list \<Rightarrow> string \<Rightarrow> bool list \<Rightarrow> (prf_item, find_error) result" where
  "find_named items query [] = Inl NoSuchProfile"
| "find_named items query (exact # rest) =
     (case filter (named exact query) items of
        [] \<Rightarrow> find_named items query rest
      | [item] \<Rightarrow> Inr item
      | several \<Rightarrow> Inl (AmbiguousProfile (filter_map pi_uid several)))"

definition find_profile :: "prf_item list \<Rightarrow> string \<Rightarrow> (prf_item, find_error) result" where
  "find_profile items query =
     (case find (has_uid query) items of Some item \<Rightarrow> Inr item | None \<Rightarrow> find_named items query [True, False])"

datatype switch_path = SwitchHotReload | SwitchSingboxRestart

fun decide_switch_path :: "core_kind \<Rightarrow> switch_path" where
  "decide_switch_path Mihomo = SwitchHotReload"
| "decide_switch_path SingBox = SwitchSingboxRestart"

datatype profile_switch_error =
    ProfileWithoutUid
  | ProfileNotLoaded string
  | NativeOnMihomo
  | CurrentNotReplaced prf_error
  | ApplyFailed string

text \<open>
  A switch: what loading the profile gives, the apply of the core in use as a function of the document, and the
  store operations of others that happen while it runs. The result of the restore is ignored.
\<close>

definition switch_profile_for_core ::
  "store_env \<Rightarrow> json_io \<Rightarrow> core_kind \<Rightarrow> prf_item \<Rightarrow> (string, string) result
     \<Rightarrow> (switch_path \<Rightarrow> string \<Rightarrow> 'w \<Rightarrow> (unit, string) result \<times> 'w) \<Rightarrow> profile_op list \<Rightarrow> profile_disk \<Rightarrow> 'w
     \<Rightarrow> (unit, profile_switch_error) result \<times> profile_disk \<times> 'w"
where
  "switch_profile_for_core env io kind item loaded apply_core meanwhile d w =
     (case pi_uid item of
        None \<Rightarrow> (Inl ProfileWithoutUid, d, w)
      | Some uid \<Rightarrow>
      (case loaded of
        Inl e \<Rightarrow> (Inl (ProfileNotLoaded e), d, w)
      | Inr doc \<Rightarrow>
      (if kind = Mihomo \<and> is_singbox_json_profile io doc then (Inl NativeOnMihomo, d, w)
       else case replace_current_locked env uid d of
          (Inl e, d1) \<Rightarrow> (Inl (CurrentNotReplaced e), d1, w)
        | (Inr previous, d1) \<Rightarrow>
            (let d2 = fold (apply_op env) meanwhile d1 in
             case apply_core (decide_switch_path kind) doc w of
               (Inr _, w1) \<Rightarrow> (Inr (), d2, w1)
             | (Inl e, w1) \<Rightarrow> (Inl (ApplyFailed e), snd (restore_current_if_matches env uid previous d2), w1)))))"

section \<open>DNS confirmation\<close>

lemma settings_after_state:
  assumes "apply_dns_state state v = (changed, v')"
  shows "(\<forall>other. other \<noteq> do_profile_uid state \<longrightarrow> dns_settings_for other v' = dns_settings_for other v) \<and> iv_other v' = iv_other v"
  using assms by (auto simp: apply_dns_state_def dns_settings_for_def Let_def split: if_splits)

lemma dns_override_for_Inr:
  "dns_override_for identity uid config v = Inr state \<Longrightarrow>
     \<exists>source. dns_override_source identity uid config = Inr source \<and>
       state = dns_override_state_new uid source (pds_enabled (dns_settings_for uid v)) (pds_confirmation (dns_settings_for uid v))"
  by (auto simp: dns_override_for_def Let_def)

lemma persisted_state_stable:
  assumes state: "dns_override_for identity uid config v = Inr state" and uid: "uid \<noteq> []"
    and run: "apply_dns_state state v = (changed, v')"
  shows "\<exists>again. dns_override_for identity uid config v' = Inr again \<and> do_enabled again = do_enabled state \<and>
    do_requested again = do_enabled state \<and> apply_dns_state again v' = (False, v')"
proof -
  obtain source where source: "dns_override_source identity uid config = Inr source"
    "state = dns_override_state_new uid source (pds_enabled (dns_settings_for uid v)) (pds_confirmation (dns_settings_for uid v))"
    using dns_override_for_Inr [OF state] by blast
  define s where "s = dns_settings_for uid v"
  define enabled where "enabled \<longleftrightarrow> pds_enabled s \<and> (source = None \<or> source = pds_confirmation s)"
  define clear where "clear \<longleftrightarrow> pds_confirmation s \<noteq> None \<and> source \<noteq> pds_confirmation s"
  let ?stored = "\<lparr>pds_enabled = enabled, pds_confirmation = (if clear then None else pds_confirmation s), pds_unknown = pds_unknown s\<rparr>"
  have state: "do_profile_uid state = uid" "do_source state = source" "do_enabled state = enabled"
    "do_requested state = pds_enabled s" "do_confirmation state = pds_confirmation s"
    by (auto simp: source(2) dns_override_state_new_def enabled_def s_def)
  have "apply_dns_state state v =
      (if enabled = pds_enabled s \<and> \<not> clear \<and> iv_profile_dns v uid \<noteq> None then (False, v)
       else (True, v\<lparr>iv_profile_dns := (iv_profile_dns v)(uid := Some ?stored)\<rparr>))"
    using uid unfolding apply_dns_state_def state Let_def s_def [symmetric] clear_def [symmetric] by simp
  then have v': "v' = (if enabled = pds_enabled s \<and> \<not> clear \<and> iv_profile_dns v uid \<noteq> None then v
      else v\<lparr>iv_profile_dns := (iv_profile_dns v)(uid := Some ?stored)\<rparr>)"
    using run by (auto split: if_splits)
  have stored: "iv_profile_dns v' uid \<noteq> None" "pds_enabled (dns_settings_for uid v') = enabled"
    "pds_confirmation (dns_settings_for uid v') = (if clear then None else pds_confirmation s)"
    unfolding v' by (auto simp: dns_settings_for_def s_def)
  let ?again = "dns_override_state_new uid source enabled (if clear then None else pds_confirmation s)"
  have again: "dns_override_for identity uid config v' = Inr ?again"
    by (simp add: dns_override_for_def source(1) stored)
  have kept: "do_enabled ?again = enabled" "do_requested ?again = enabled"
    by (auto simp: dns_override_state_new_def enabled_def clear_def)
  have "\<not> (do_confirmation ?again \<noteq> None \<and> do_source ?again \<noteq> do_confirmation ?again)"
    by (auto simp: dns_override_state_new_def clear_def)
  then have "apply_dns_state ?again v' = (False, v')"
    using stored uid kept by (simp add: apply_dns_state_def Let_def) (simp add: dns_override_state_new_def)
  with again kept state(3) show ?thesis by blast
qed

text \<open>The global DNS section is laid over a profile only with the user's consent: it happens exactly when the preference
  of this profile (or the global one, if it has none) asks for it and the DNS fields of the provider are either absent or
  the ones that were confirmed; otherwise the configuration is unchanged. The decision that is stored after the apply
  changes no other profile, and the same profile is decided the same way from then on.\<close>

theorem dns_overlay_needs_confirmation:
  assumes "prepare_profile_dns_from_settings identity mapping dns_file (StoredVerge v) uid config = Inr (config', state)"
  shows "\<exists>source. dns_override_source identity uid config = Inr source \<and>
    (do_enabled state \<longleftrightarrow> pds_enabled (dns_settings_for uid v) \<and> (source = None \<or> source = pds_confirmation (dns_settings_for uid v))) \<and>
    (if do_enabled state
     then \<exists>global_dns. read_global_dns_config mapping dns_file = Inr global_dns \<and> apply_dns_override global_dns config = Inr config'
     else config' = config) \<and>
    (\<forall>v'. persist_dns_override_after_apply True state (StoredVerge v) = StoredVerge v' \<longrightarrow>
       (\<forall>other. other \<noteq> uid \<longrightarrow> dns_settings_for other v' = dns_settings_for other v) \<and>
       (\<exists>again. dns_override_for identity uid config v' = Inr again \<and> do_enabled again = do_enabled state \<and>
          persist_dns_override_after_apply True again (StoredVerge v') = StoredVerge v'))"
proof -
  have uid: "uid \<noteq> []" and state: "dns_override_for identity uid config v = Inr state"
    and result: "if do_enabled state
      then \<exists>global_dns. read_global_dns_config mapping dns_file = Inr global_dns \<and> apply_dns_override global_dns config = Inr config'
      else config' = config"
    using assms by (auto simp: prepare_profile_dns_from_settings_def prepare_profile_dns_def split: if_splits)
  obtain source where source: "dns_override_source identity uid config = Inr source"
    "state = dns_override_state_new uid source (pds_enabled (dns_settings_for uid v)) (pds_confirmation (dns_settings_for uid v))"
    using dns_override_for_Inr [OF state] by blast
  have persisted: "(\<forall>other. other \<noteq> uid \<longrightarrow> dns_settings_for other v' = dns_settings_for other v) \<and>
      (\<exists>again. dns_override_for identity uid config v' = Inr again \<and> do_enabled again = do_enabled state \<and>
         persist_dns_override_after_apply True again (StoredVerge v') = StoredVerge v')"
    if "persist_dns_override_after_apply True state (StoredVerge v) = StoredVerge v'" for v'
  proof -
    obtain changed v1 where run: "apply_dns_state state v = (changed, v1)" by fastforce
    have "changed \<or> v1 = v" using run by (auto simp: apply_dns_state_def Let_def split: if_splits)
    then have "v' = v1" using that run by (auto simp: persist_dns_override_after_apply_def)
    moreover have "do_profile_uid state = uid" by (simp add: source(2) dns_override_state_new_def)
    ultimately show ?thesis
      using settings_after_state [OF run] persisted_state_stable [OF state uid run]
      by (auto simp: persist_dns_override_after_apply_def)
  qed
  have "do_enabled state \<longleftrightarrow> pds_enabled (dns_settings_for uid v) \<and> (source = None \<or> source = pds_confirmation (dns_settings_for uid v))"
    by (simp add: source(2) dns_override_state_new_def)
  with source(1) result persisted show ?thesis by blast
qed

theorem dns_overlay_needs_confirmation_witness:
  "dns_settings_for ''R1'' (iverge_template\<lparr>iv_enable_dns_settings := Some True\<rparr>) =
     \<lparr>pds_enabled = True, pds_confirmation = None, pds_unknown = []\<rparr> \<and>
   (\<exists>state. prepare_profile_dns_from_settings (\<lambda>_ _. Some ''id'') (\<lambda>_. None) Absent
      (StoredVerge (iverge_template\<lparr>iv_enable_dns_settings := Some True\<rparr>)) ''R1''
      [(YStr ''dns'', YMap [(YStr ''nameserver-policy'', YMap [(YStr ''a'', YStr ''b'')])])] =
      Inr ([(YStr ''dns'', YMap [(YStr ''nameserver-policy'', YMap [(YStr ''a'', YStr ''b'')])])], state) \<and> \<not> do_enabled state)"
proof -
  let ?v = "iverge_template\<lparr>iv_enable_dns_settings := Some True\<rparr>"
  let ?config = "[(YStr ''dns'', YMap [(YStr ''nameserver-policy'', YMap [(YStr ''a'', YStr ''b'')])])]"
  let ?id = "\<lambda>(_ :: string) (_ :: ymapping). Some ''id''"
  have settings: "dns_settings_for ''R1'' ?v = \<lparr>pds_enabled = True, pds_confirmation = None, pds_unknown = []\<rparr>"
    by (simp add: dns_settings_for_def iverge_template_def)
  have source: "dns_override_source ?id ''R1'' ?config = Inr (Some ''id'')"
    by (simp add: dns_override_source_def ymap_get_def y_map_def provider_fields_def provider_dns_fields_def filter_map_def)
  have run: "\<exists>state. prepare_profile_dns_from_settings ?id (\<lambda>_. None) Absent (StoredVerge ?v) ''R1'' ?config = Inr (?config, state)"
    by (simp add: prepare_profile_dns_from_settings_def dns_override_for_def source settings dns_override_state_new_def)
  then obtain state where state: "prepare_profile_dns_from_settings ?id (\<lambda>_. None) Absent (StoredVerge ?v) ''R1'' ?config = Inr (?config, state)"
    by blast
  from dns_overlay_needs_confirmation [OF state] source settings have "\<not> do_enabled state" by auto
  with state settings show ?thesis by blast
qed

section \<open>The transaction of a commit\<close>

text \<open>The new document is served after a failed commit: the core took it and did not take the previous file again,
  because there was none, it could not be put back, or the second reload was not taken.\<close>

definition new_stays_served :: "commit_env \<Rightarrow> stored \<Rightarrow> string \<Rightarrow> bool" where
  "new_stays_served env before doc \<longleftrightarrow> reload_takes (cm_reload env doc) \<and> reload_error (cm_reload env doc) \<noteq> None \<and>
     (cm_rollback env = None \<longrightarrow> (\<forall>previous. before = Content previous \<longrightarrow> \<not> reload_takes (cm_reload_again env previous)))"

lemma commit_after_reload:
  assumes "commit_runtime_config env enable_tun core_running restore_item build w = (r, w')"
    and "prepared_commit env restore_item build w = Inr (config, state)"
    and "cm_print env (runtime_config_to_write (cm_ports env) enable_tun config) = Some doc" "cw_file w \<noteq> Unreadable"
    and "core_running" "reload_error (cm_reload env doc) = Some e"
  shows "r \<noteq> Inr () \<and> cw_verge w' = cw_verge w \<and> cw_selected w' = cw_selected w \<and>
    (cw_file w' = cw_file w \<or> cm_rollback env \<noteq> None \<and> cm_drop env \<noteq> None) \<and>
    (cw_served w' = cw_served w \<or> (\<exists>previous. cw_file w = Content previous \<and> cw_served w' = Some previous) \<or>
     cw_served w' = Some doc \<and> new_stays_served env (cw_file w) doc)"
  using assms
  by (auto simp: commit_runtime_config_def reload_config_file_def new_stays_served_def Let_def
      split: option.splits stored.splits if_splits)

text \<open>C24: A commit is a transaction. If it succeeds, the file holds the prepared document, and a running core has
  accepted exactly this document and answered afterwards, while a stopped one is left alone. If it fails, settings and
  selections are as before; so is the file, if one of the two attempts to put it back works; and the core serves what
  it served, or the previous file, or the new document - the last only if it took the document, the commit failed all
  the same, and the previous file was not there, could not be put back, or was not taken again.\<close>

theorem commit_is_transactional:
  assumes "commit_runtime_config env enable_tun core_running restore_item build w = (r, w')"
  shows "(r = Inr () \<longrightarrow>
      (\<exists>config state doc. prepared_commit env restore_item build w = Inr (config, state) \<and>
         cm_print env (runtime_config_to_write (cm_ports env) enable_tun config) = Some doc \<and> cw_file w' = Content doc \<and>
         (if core_running then cw_served w' = Some doc \<and> cm_reload env doc = Accepted None
          else cw_served w' = cw_served w \<and> cw_selected w' = cw_selected w))) \<and>
    (r \<noteq> Inr () \<longrightarrow> cw_verge w' = cw_verge w \<and> cw_selected w' = cw_selected w \<and>
      (cw_file w' = cw_file w \<or> cm_rollback env \<noteq> None \<and> cm_drop env \<noteq> None) \<and>
      (cw_served w' = cw_served w \<or> (\<exists>previous. cw_file w = Content previous \<and> cw_served w' = Some previous) \<or>
       (\<exists>config state doc. prepared_commit env restore_item build w = Inr (config, state) \<and>
          cm_print env (runtime_config_to_write (cm_ports env) enable_tun config) = Some doc \<and>
          cw_served w' = Some doc \<and> new_stays_served env (cw_file w) doc)))"
proof (cases "prepared_commit env restore_item build w")
  case (Inl e)
  with assms show ?thesis by (auto simp: commit_runtime_config_def)
next
  case (Inr cs)
  obtain config state where cs: "cs = (config, state)" by fastforce
  let ?print = "cm_print env (runtime_config_to_write (cm_ports env) enable_tun config)"
  have persist: "cw_file (persist_dns_override_state env state x) = cw_file x" "cw_served (persist_dns_override_state env state x) = cw_served x"
    "cw_selected (persist_dns_override_state env state x) = cw_selected x" for x
    by (cases state; simp add: persist_dns_override_state_def)+
  have restore: "cw_file (restore_selected_nodes env item x) = cw_file x" "cw_served (restore_selected_nodes env item x) = cw_served x" for item x
    by (simp_all add: restore_selected_nodes_def)
  show ?thesis
  proof (cases "cw_file w = Unreadable \<or> ?print = None")
    case True
    with assms Inr cs show ?thesis by (cases "cw_file w = Unreadable") (auto simp: commit_runtime_config_def)
  next
    case False
    then obtain doc where doc: "?print = Some doc" "cw_file w \<noteq> Unreadable" by auto
    show ?thesis
    proof (cases "core_running \<and> reload_error (cm_reload env doc) \<noteq> None")
      case True
      then obtain e where "reload_error (cm_reload env doc) = Some e" "core_running" by auto
      with commit_after_reload [OF assms Inr [unfolded cs] doc] Inr cs doc show ?thesis by auto
    next
      case ok: False
      then have accepted: "core_running \<longrightarrow> cm_reload env doc = Accepted None" by (auto elim: reload_error.elims)
      then have "r = Inr ()" "cw_file w' = Content doc"
        "if core_running then cw_served w' = Some doc else cw_served w' = cw_served w \<and> cw_selected w' = cw_selected w"
        using assms Inr cs doc persist restore
        by (auto simp: commit_runtime_config_def reload_config_file_def Let_def split: option.splits if_splits)
      with Inr cs doc accepted show ?thesis by auto
    qed
  qed
qed

definition no_verge_ports :: verge_ports where
  "no_verge_ports =
     \<lparr>vp_mixed_port = None, vp_socks_enabled = None, vp_socks_port = None, vp_http_enabled = None, vp_port = None,
      vp_redir_enabled = None, vp_redir_port = None, vp_tproxy_enabled = None, vp_tproxy_port = None\<rparr>"

definition sample_commit :: commit_env where
  "sample_commit =
     \<lparr>cm_base = (\<lambda>_. []), cm_identity = (\<lambda>_ _. None), cm_mapping = (\<lambda>_. None), cm_global_dns = Absent, cm_ports = no_verge_ports,
      cm_print = (\<lambda>_. Some ''new''), cm_reload = (\<lambda>_. Accepted (Some ''503'')),
      cm_reload_again = (\<lambda>_. Accepted None), cm_rollback = None, cm_drop = None, cm_saves = True, cm_selects = (\<lambda>_ _. True)\<rparr>"

abbreviation commit_sample_world :: commit_world where
  "commit_sample_world \<equiv> \<lparr>cw_file = Content ''old'', cw_served = Some ''old'', cw_verge = NoVerge, cw_selected = []\<rparr>"

theorem commit_is_transactional_witness:
  "\<exists>r w'. commit_runtime_config sample_commit False True None Inr commit_sample_world = (r, w') \<and>
     r \<noteq> Inr () \<and> cw_file w' = Content ''old'' \<and> cw_served w' = Some ''old''"
proof -
  obtain r w' where run: "commit_runtime_config sample_commit False True None Inr commit_sample_world = (r, w')" by fastforce
  have "r \<noteq> Inr ()"
    using run by (auto simp: commit_runtime_config_def prepared_commit_def sample_commit_def reload_config_file_def Let_def)
  moreover have "cm_rollback sample_commit = None" "\<not> new_stays_served sample_commit (Content ''old'') doc" for doc
    by (simp_all add: sample_commit_def new_stays_served_def)
  ultimately have "cw_file w' = Content ''old'' \<and> cw_served w' = Some ''old''"
    using commit_is_transactional [OF run] by auto
  with run \<open>r \<noteq> Inr ()\<close> show ?thesis by blast
qed

text \<open>The error says that the previous configuration is restored whether or not the core took it again: when the core
  accepts the new document, is not ready in time and then takes nothing, it keeps serving the new one.\<close>

theorem restored_but_new_is_served:
  assumes "prepared_commit env restore_item build w = Inr (config, state)"
    and "cm_print env (runtime_config_to_write (cm_ports env) enable_tun config) = Some doc"
    and "cw_file w = Content previous" "cm_reload env doc = Accepted (Some e)" "\<not> reload_takes (cm_reload_again env previous)"
    and "cm_rollback env = None"
  shows "\<exists>msg w'. commit_runtime_config env enable_tun True restore_item build w = (Inl (RestoredPrevious msg), w') \<and>
    cw_file w' = Content previous \<and> cw_served w' = Some doc"
  using assms by (simp add: commit_runtime_config_def reload_config_file_def Let_def)

section \<open>Finding a profile\<close>

lemma find_named_Inr:
  "find_named items query exacts = Inr item \<Longrightarrow>
     \<exists>exact \<in> set exacts. filter (named exact query) items = [item]"
proof (induction items query exacts rule: find_named.induct)
  case (2 items query exact rest)
  then show ?case by (cases "filter (named exact query) items"; cases "tl (filter (named exact query) items)") auto
qed simp

lemma find_profile_exact:
  "find_profile items query = Inr item \<Longrightarrow>
     item \<in> set items \<and>
     (pi_uid item = Some query \<or>
      (\<forall>other \<in> set items. pi_uid other \<noteq> Some query) \<and>
      (\<exists>exact. named exact query item \<and> (\<forall>other \<in> set items. named exact query other \<longrightarrow> other = item)))"
proof -
  assume found: "find_profile items query = Inr item"
  show ?thesis
  proof (cases "find (has_uid query) items")
    case (Some x)
    with found have "find (has_uid query) items = Some item" by (simp add: find_profile_def)
    then have "item \<in> set items" "has_uid query item" by (auto simp: find_Some_iff)
    then show ?thesis by (simp add: has_uid_def)
  next
    case None
    with found have "find_named items query [True, False] = Inr item" by (simp add: find_profile_def)
    from find_named_Inr [OF this] obtain exact where only: "filter (named exact query) items = [item]" by blast
    then have "set (filter (named exact query) items) = {item}" by simp
    then have "item \<in> set items \<and> named exact query item \<and> (\<forall>other \<in> set items. named exact query other \<longrightarrow> other = item)"
      by (simp only: set_filter) blast
    moreover have "\<forall>other \<in> set items. pi_uid other \<noteq> Some query"
      using None by (simp add: find_None_iff has_uid_def)
    ultimately show ?thesis by blast
  qed
qed

section \<open>A failed switch\<close>

definition uids_of :: "iprofiles \<Rightarrow> string option list" where
  "uids_of p = map pi_uid (items_of p)"

lemma fill_uids_id: "\<forall>i \<in> set items. pi_uid i \<noteq> None \<Longrightarrow> fill_uids gen items = items"
  by (rule nth_equalityI) (auto simp: fill_uids_def nth_enumerate_eq)

lemma reload_saved:
  assumes "iprofiles_new env d = Inr p" "uids_of q = uids_of p" "pd_profiles d' = StoredProfiles (stored_profiles q)"
  shows "\<exists>p'. iprofiles_new env d' = Inr p' \<and> uids_of p' = uids_of p \<and> ip_current p' = ip_current q"
proof -
  have "None \<notin> set (uids_of q)"
    using loaded_uids [OF assms(1)] unfolding assms(2) by (fastforce simp: uids_of_def)
  then have "\<forall>i \<in> set (items_of (stored_profiles q)). pi_uid i \<noteq> None"
    by (auto simp: uids_of_def image_iff) (metis option.exhaust)
  then have "fill_uids (st_fill_uid env) (items_of (stored_profiles q)) = items_of (stored_profiles q)" by (rule fill_uids_id)
  moreover have "ip_current (stored_profiles q) = ip_current q" by (simp add: stored_profiles_def)
  ultimately show ?thesis
    using assms(2,3) by (auto simp: iprofiles_new_def uids_of_def comp_def)
qed

definition after_select :: "string \<Rightarrow> iprofiles \<Rightarrow> string option" where
  "after_select uid p = (if Some uid \<in> set (uids_of p) then Some uid else ip_current p)"

lemma set_current_saved:
  assumes "iprofiles_new env d = Inr p" "\<forall>q. st_saves env q"
  shows "\<exists>d' p'. set_current env uid \<lparr>ps_mem = p, ps_disk = d\<rparr> = (Inr (), \<lparr>ps_mem = patch_current uid p, ps_disk = d'\<rparr>) \<and>
    iprofiles_new env d' = Inr p' \<and> uids_of p' = uids_of p \<and> ip_current p' = after_select uid p"
proof -
  let ?d = "d\<lparr>pd_profiles := StoredProfiles (stored_profiles (patch_current uid p))\<rparr>"
  have "ip_current (patch_current uid p) = after_select uid p"
    by (auto simp: patch_current_def after_select_def uids_of_def has_uid_def Let_def image_iff)
  moreover have "\<exists>p'. iprofiles_new env ?d = Inr p' \<and> uids_of p' = uids_of p \<and> ip_current p' = ip_current (patch_current uid p)"
    by (rule reload_saved [OF assms(1)]) (simp_all add: uids_of_def)
  ultimately show ?thesis
    using assms(2) by (auto simp: set_current_def sbind_def modify_def save_file_def)
qed

lemma replace_saved:
  assumes "iprofiles_new env d = Inr p" "\<forall>q. st_saves env q"
  shows "\<exists>d' p'. replace_current_locked env uid d = (Inr (ip_current p), d') \<and> iprofiles_new env d' = Inr p' \<and>
    uids_of p' = uids_of p \<and> ip_current p' = after_select uid p"
  using set_current_saved [OF assms, of uid]
  by (auto simp: replace_current_locked_def locked_def assms(1) sbind_def lift_result_def)

lemma restore_saved:
  assumes load: "iprofiles_new env d = Inr p" and saves: "\<forall>q. st_saves env q"
  shows "\<exists>d' p'. restore_current_if_matches env uid previous d = (Inr (), d') \<and> iprofiles_new env d' = Inr p' \<and>
    uids_of p' = uids_of p \<and> (ip_current p \<noteq> Some uid \<longrightarrow> d' = d) \<and>
    ip_current p' = (if ip_current p \<noteq> Some uid then ip_current p
      else case previous of None \<Rightarrow> None | Some u \<Rightarrow> after_select u p)"
proof (cases "ip_current p = Some uid")
  case False
  then show ?thesis using load by (simp add: restore_current_if_matches_def locked_def)
next
  case current: True
  show ?thesis
  proof (cases previous)
    case None
    let ?q = "p\<lparr>ip_current := None\<rparr>"
    let ?d = "d\<lparr>pd_profiles := StoredProfiles (stored_profiles ?q)\<rparr>"
    have "\<exists>p'. iprofiles_new env ?d = Inr p' \<and> uids_of p' = uids_of p \<and> ip_current p' = ip_current ?q"
      by (rule reload_saved [OF load]) (simp_all add: uids_of_def)
    then show ?thesis
      using load current saves None
      by (auto simp: restore_current_if_matches_def locked_def sbind_def modify_def save_file_def)
  next
    case (Some u)
    then show ?thesis
      using set_current_saved [OF load saves, of u] load current
      by (auto simp: restore_current_if_matches_def locked_def)
  qed
qed

text \<open>A switch that fails leaves the current profile as it was, and one that fails late leaves a newer choice alone: if
  nothing else happened, the list and the current profile read as before the switch; and whatever others did meanwhile,
  if the current profile is no longer the one of this switch, the roll back changes nothing on disk.\<close>

theorem failed_switch_keeps_current:
  assumes load: "iprofiles_new env d = Inr p" "current_in p" and saves: "\<forall>q. st_saves env q"
    and run: "switch_profile_for_core env io kind item loaded apply_core meanwhile d w = (Inl e, d', w')"
  shows "(meanwhile = [] \<longrightarrow> (\<exists>p'. iprofiles_new env d' = Inr p' \<and> ip_current p' = ip_current p \<and> uids_of p' = uids_of p)) \<and>
    (\<forall>uid p2. pi_uid item = Some uid \<longrightarrow> (\<exists>msg. e = ApplyFailed msg) \<longrightarrow>
       iprofiles_new env (fold (apply_op env) meanwhile (snd (replace_current_locked env uid d))) = Inr p2 \<longrightarrow>
       ip_current p2 \<noteq> Some uid \<longrightarrow> d' = fold (apply_op env) meanwhile (snd (replace_current_locked env uid d)))"
proof (cases "\<exists>msg. e = ApplyFailed msg")
  case False
  then have "d' = d \<or> (\<exists>uid err. replace_current_locked env uid d = (Inl err, d'))"
    using run by (auto simp: switch_profile_for_core_def Let_def split: option.splits sum.splits if_splits prod.splits)
  moreover have "replace_current_locked env uid d \<noteq> (Inl err, d')" for uid err
    using replace_saved [OF load(1) saves, of uid] by auto
  ultimately show ?thesis using False load(1) by blast
next
  case True
  then obtain msg uid doc where e: "e = ApplyFailed msg" "pi_uid item = Some uid" "loaded = Inr doc"
    using run by (auto simp: switch_profile_for_core_def split: option.splits sum.splits)
  obtain d1 p1 where d1: "replace_current_locked env uid d = (Inr (ip_current p), d1)" "iprofiles_new env d1 = Inr p1"
    "uids_of p1 = uids_of p" "ip_current p1 = after_select uid p"
    using replace_saved [OF load(1) saves] by blast
  let ?d2 = "fold (apply_op env) meanwhile d1"
  have d': "d' = snd (restore_current_if_matches env uid (ip_current p) ?d2)"
    using run e d1(1) by (auto simp: switch_profile_for_core_def Let_def split: if_splits sum.splits prod.splits)
  have "\<exists>p'. iprofiles_new env d' = Inr p' \<and> ip_current p' = ip_current p \<and> uids_of p' = uids_of p" if "meanwhile = []"
  proof -
    from restore_saved [OF d1(2) saves, of uid "ip_current p"] d' that d1(3)
    obtain p' where p': "iprofiles_new env d' = Inr p'" "uids_of p' = uids_of p"
      "ip_current p' = (if ip_current p1 \<noteq> Some uid then ip_current p1
        else case ip_current p of None \<Rightarrow> None | Some u \<Rightarrow> after_select u p1)"
      by auto
    have "after_select u p1 = Some u" if "ip_current p = Some u" for u
      using load(2) that d1(3) by (auto simp: after_select_def current_in_def uids_of_def)
    then have "ip_current p' = ip_current p"
      using p'(3) d1(4) by (cases "ip_current p") (auto simp: after_select_def split: if_splits)
    with p' show ?thesis by blast
  qed
  moreover have "d' = ?d2" if "iprofiles_new env ?d2 = Inr p2" "ip_current p2 \<noteq> Some uid" for p2
    using restore_saved [OF that(1) saves, of uid "ip_current p"] that(2) d' by auto
  ultimately show ?thesis using e(2) d1(1) by auto
qed

text \<open>The roll back of a failed switch compares only the uid: when another switch to the same profile has succeeded in
  the meantime, the late failure of the first one still finds its own uid and puts the old profile back, so the successful
  switch is lost although the roll back is meant to leave it alone.\<close>

theorem late_failure_undoes_switch:
  assumes load: "iprofiles_new env d = Inr p" and saves: "\<forall>q. st_saves env q"
    and uids: "ip_current p = Some old" "Some old \<in> set (uids_of p)" "Some uid \<in> set (uids_of p)" "old \<noteq> uid"
    and item: "pi_uid item = Some uid" "\<not> (kind = Mihomo \<and> is_singbox_json_profile io doc)"
    and fails: "apply_core (decide_switch_path kind) doc w = (Inl msg, w1)"
  shows "\<exists>d1 d2 p2 d' p'.
    replace_current_locked env uid d = (Inr (Some old), d1) \<and>
    replace_current_locked env uid d1 = (Inr (Some uid), d2) \<and> iprofiles_new env d2 = Inr p2 \<and> ip_current p2 = Some uid \<and>
    switch_profile_for_core env io kind item (Inr doc) apply_core [ReplaceCurrent uid] d w = (Inl (ApplyFailed msg), d', w1) \<and>
    iprofiles_new env d' = Inr p' \<and> ip_current p' = Some old"
proof -
  obtain d1 p1 where d1: "replace_current_locked env uid d = (Inr (ip_current p), d1)" "iprofiles_new env d1 = Inr p1"
    "uids_of p1 = uids_of p" "ip_current p1 = after_select uid p"
    using replace_saved [OF load saves] by blast
  obtain d2 p2 where d2: "replace_current_locked env uid d1 = (Inr (ip_current p1), d2)" "iprofiles_new env d2 = Inr p2"
    "uids_of p2 = uids_of p1" "ip_current p2 = after_select uid p1"
    using replace_saved [OF d1(2) saves] by blast
  obtain d' p' where d': "restore_current_if_matches env uid (Some old) d2 = (Inr (), d')" "iprofiles_new env d' = Inr p'"
    "ip_current p' = (if ip_current p2 \<noteq> Some uid then ip_current p2 else after_select old p2)"
    using restore_saved [OF d2(2) saves, of uid "Some old"] unfolding option.case by blast
  have current: "ip_current p1 = Some uid" "ip_current p2 = Some uid"
    using d1(3,4) d2(4) uids(3) by (simp_all add: after_select_def)
  then have "ip_current p' = Some old" using d'(3) d1(3) d2(3) uids(2) by (simp add: after_select_def)
  moreover have "switch_profile_for_core env io kind item (Inr doc) apply_core [ReplaceCurrent uid] d w =
      (Inl (ApplyFailed msg), d', w1)"
    using item d1(1) d2(1) d'(1) uids(1) fails by (auto simp: switch_profile_for_core_def Let_def)
  ultimately show ?thesis using d1(1) d2(1,2) d'(2) current uids(1) by auto
qed

definition two_disk :: profile_disk where
  "two_disk =
     \<lparr>pd_profiles = StoredProfiles \<lparr>ip_current = Some ''R1'', ip_items = Some [batch_item ''R1'', batch_item ''R2''], ip_extra = []\<rparr>,
      pd_bodies = (\<lambda>_. None)\<rparr>"

lemma two_disk_load:
  "iprofiles_new sample_store_env two_disk =
     Inr \<lparr>ip_current = Some ''R1'', ip_items = Some [batch_item ''R1'', batch_item ''R2''], ip_extra = []\<rparr>"
  by (simp add: iprofiles_new_def two_disk_def fill_uids_def items_of_def batch_item_def)

lemma sample_saves: "\<forall>q. st_saves sample_store_env q"
  by (simp add: sample_store_env_def)

theorem late_failure_undoes_switch_witness:
  "\<exists>d' p'. switch_profile_for_core sample_store_env (ne_json sample_net) SingBox (batch_item ''R2'') (Inr ''doc'')
      (\<lambda>_ _ w. (Inl ''check failed'', w)) [ReplaceCurrent ''R2''] two_disk () = (Inl (ApplyFailed ''check failed''), d', ()) \<and>
    iprofiles_new sample_store_env d' = Inr p' \<and> ip_current p' = Some ''R1''"
proof -
  let ?p = "\<lparr>ip_current = Some ''R1'', ip_items = Some [batch_item ''R1'', batch_item ''R2''], ip_extra = []\<rparr>"
  have "ip_current ?p = Some ''R1''" "Some ''R1'' \<in> set (uids_of ?p)" "Some ''R2'' \<in> set (uids_of ?p)" "''R1'' \<noteq> ''R2''"
    "pi_uid (batch_item ''R2'') = Some ''R2''"
    by (simp_all add: uids_of_def items_of_def batch_item_def)
  from late_failure_undoes_switch [OF two_disk_load sample_saves this, of SingBox "ne_json sample_net" "''doc''"
      "\<lambda>_ _ w. (Inl ''check failed'', w)" "()" "''check failed''" "()"]
  show ?thesis by auto
qed

theorem failed_switch_keeps_current_witness:
  "\<exists>e d' p'. switch_profile_for_core sample_store_env (ne_json sample_net) SingBox (batch_item ''R2'') (Inr ''doc'')
      (\<lambda>_ _ w. (Inl ''check failed'', w)) [] two_disk () = (Inl e, d', ()) \<and>
    iprofiles_new sample_store_env d' = Inr p' \<and> ip_current p' = Some ''R1''"
proof -
  let ?p = "\<lparr>ip_current = Some ''R1'', ip_items = Some [batch_item ''R1'', batch_item ''R2''], ip_extra = []\<rparr>"
  have uid: "pi_uid (batch_item u) = Some u" for u by (simp add: batch_item_def)
  have listed: "current_in ?p" by (simp add: current_in_def items_of_def uid)
  obtain d1 where "replace_current_locked sample_store_env ''R2'' two_disk = (Inr (Some ''R1''), d1)"
    using replace_saved [OF two_disk_load sample_saves, of "''R2''"] by auto
  then obtain d' where run: "switch_profile_for_core sample_store_env (ne_json sample_net) SingBox (batch_item ''R2'') (Inr ''doc'')
      (\<lambda>_ _ w. (Inl ''check failed'', w)) [] two_disk () = (Inl (ApplyFailed ''check failed''), d', ())"
    by (auto simp: switch_profile_for_core_def uid)
  from failed_switch_keeps_current [OF two_disk_load listed sample_saves run] run show ?thesis by auto
qed

end
