(* ===== verification/Core_Policy.thy ===== *)
theory Core_Policy
  imports Rust_Str
begin

text \<open>
  The version policy of \<open>mihomo_manager/core_policy.rs\<close>: semantic versions, their order, and the decision
  on an observed version against the pinned one.

  The locale \<open>comparison\<close> states what a three-way comparison (\<open>Ord::cmp\<close>) promises; it is interpreted on
  the comparison of identifiers and on the one of versions, which makes versions a linear order.
\<close>

section \<open>Three-way comparisons\<close>

datatype ordering = Less | Equal | Greater

definition cmp_ord :: "'a::linorder \<Rightarrow> 'a \<Rightarrow> ordering" where
  "cmp_ord x y = (if x < y then Less else if x = y then Equal else Greater)"

fun then_with :: "ordering \<Rightarrow> ordering \<Rightarrow> ordering" where
  "then_with Equal other = other"
| "then_with first other = first"

fun flip_ordering :: "ordering \<Rightarrow> ordering" where
  "flip_ordering Less = Greater"
| "flip_ordering Equal = Equal"
| "flip_ordering Greater = Less"

lemma then_with_Equal_iff [simp]: "then_with a b = Equal \<longleftrightarrow> a = Equal \<and> b = Equal"
  by (cases a) auto

lemma then_with_Less_iff: "then_with a b = Less \<longleftrightarrow> a = Less \<or> a = Equal \<and> b = Less"
  by (cases a) auto

lemma flip_then_with: "flip_ordering (then_with a b) = then_with (flip_ordering a) (flip_ordering b)"
  by (cases a) auto

locale comparison =
  fixes c :: "'a \<Rightarrow> 'a \<Rightarrow> ordering"
  assumes equal_iff: "c x y = Equal \<longleftrightarrow> x = y"
    and flipped: "c y x = flip_ordering (c x y)"
    and less_trans: "c x y = Less \<Longrightarrow> c y z = Less \<Longrightarrow> c x z = Less"
begin

lemma greater_iff: "c x y = Greater \<longleftrightarrow> c y x = Less"
  using flipped [of y x] by (cases "c x y") auto

lemma not_greater_iff: "c x y \<noteq> Greater \<longleftrightarrow> c x y = Less \<or> x = y"
  using equal_iff [of x y] by (cases "c x y") auto

lemma less_not_flipped: "c x y = Less \<Longrightarrow> c y x \<noteq> Less"
  using flipped [of y x] by auto

lemma less_iff: "c x y = Less \<longleftrightarrow> c x y \<noteq> Greater \<and> \<not> c y x \<noteq> Greater"
  using flipped [of y x] by (cases "c x y") auto

lemma not_greater_trans: "c x y \<noteq> Greater \<Longrightarrow> c y z \<noteq> Greater \<Longrightarrow> c x z \<noteq> Greater"
  using less_trans [of x y z] by (auto simp: not_greater_iff)

lemma not_greater_antisym: "c x y \<noteq> Greater \<Longrightarrow> c y x \<noteq> Greater \<Longrightarrow> x = y"
  using less_not_flipped [of x y] by (auto simp: not_greater_iff)

lemma total: "c x y \<noteq> Greater \<or> c y x \<noteq> Greater"
  using greater_iff [of x y] less_not_flipped [of x y] by (auto simp: not_greater_iff)

end

interpretation ord_cmp: comparison "cmp_ord :: 'a::linorder \<Rightarrow> 'a \<Rightarrow> ordering"
  by unfold_locales (auto simp: cmp_ord_def split: if_splits)

section \<open>Versions\<close>

datatype pre_identifier = Numeric u64 | Text string

text \<open>The struct \<open>Version\<close>; a datatype of one constructor, so that it can be an instance of a class.\<close>

datatype version =
  Version (v_major: u64) (v_minor: u64) (v_patch: u64) (v_prerelease: "pre_identifier list")

fun identifier_cmp :: "pre_identifier \<Rightarrow> pre_identifier \<Rightarrow> ordering" where
  "identifier_cmp (Numeric a) (Numeric b) = cmp_ord a b"
| "identifier_cmp (Numeric a) (Text b) = Less"
| "identifier_cmp (Text a) (Numeric b) = Greater"
| "identifier_cmp (Text a) (Text b) = cmp_ord a b"

text \<open>The loop over the zipped identifiers, which returns the first decision.\<close>

fun first_decision :: "(pre_identifier \<times> pre_identifier) list \<Rightarrow> ordering" where
  "first_decision [] = Equal"
| "first_decision ((l, r) # rest) =
     (if identifier_cmp l r \<noteq> Equal then identifier_cmp l r else first_decision rest)"

definition prerelease_cmp :: "pre_identifier list \<Rightarrow> pre_identifier list \<Rightarrow> ordering" where
  "prerelease_cmp l r =
     (case (l = [], r = []) of
        (True, True) \<Rightarrow> Equal
      | (True, False) \<Rightarrow> Greater
      | (False, True) \<Rightarrow> Less
      | (False, False) \<Rightarrow> then_with (first_decision (zip l r)) (cmp_ord (length l) (length r)))"

definition version_cmp :: "version \<Rightarrow> version \<Rightarrow> ordering" where
  "version_cmp v w =
     then_with (then_with (cmp_ord (v_major v) (v_major w))
         (then_with (cmp_ord (v_minor v) (v_minor w)) (cmp_ord (v_patch v) (v_patch w))))
       (prerelease_cmp (v_prerelease v) (v_prerelease w))"

interpretation identifier_cmp: comparison identifier_cmp
proof
  show "identifier_cmp x y = Equal \<longleftrightarrow> x = y" for x y
    by (cases x; cases y) (simp_all add: ord_cmp.equal_iff)
  show "identifier_cmp y x = flip_ordering (identifier_cmp x y)" for x y
    by (cases x; cases y) (simp_all add: ord_cmp.flipped [symmetric])
  show "identifier_cmp x z = Less" if "identifier_cmp x y = Less" "identifier_cmp y z = Less" for x y z
    using that by (cases x; cases y; cases z) (auto intro: ord_cmp.less_trans)
qed

text \<open>The comparison of two non-empty lists, in its recursive form.\<close>

definition list_cmp :: "pre_identifier list \<Rightarrow> pre_identifier list \<Rightarrow> ordering" where
  "list_cmp l r = then_with (first_decision (zip l r)) (cmp_ord (length l) (length r))"

lemma list_cmp_simps [simp]:
  "list_cmp [] [] = Equal" "list_cmp [] (b # bs) = Less" "list_cmp (a # as) [] = Greater"
  "list_cmp (a # as) (b # bs) = then_with (identifier_cmp a b) (list_cmp as bs)"
proof -
  show "list_cmp (a # as) (b # bs) = then_with (identifier_cmp a b) (list_cmp as bs)"
    by (cases "identifier_cmp a b") (simp_all add: list_cmp_def cmp_ord_def)
qed (simp_all add: list_cmp_def cmp_ord_def)

interpretation list_cmp: comparison list_cmp
proof
  show "list_cmp x y = Equal \<longleftrightarrow> x = y" for x y
    by (induction x y rule: list_induct2') (auto simp: identifier_cmp.equal_iff)
  show "list_cmp y x = flip_ordering (list_cmp x y)" for x y
    by (induction x y rule: list_induct2') (auto simp: flip_then_with identifier_cmp.flipped [symmetric])
  show "list_cmp x z = Less" if "list_cmp x y = Less" "list_cmp y z = Less" for x y z
    using that
  proof (induction x y arbitrary: z rule: list_induct2')
    case (4 a as b bs)
    then show ?case
      by (cases z) (auto simp: then_with_Less_iff identifier_cmp.equal_iff intro: identifier_cmp.less_trans)
  next
    case (3 b bs)
    then show ?case by (cases z) auto
  qed auto
qed

interpretation prerelease_cmp: comparison prerelease_cmp
proof
  show "prerelease_cmp x y = Equal \<longleftrightarrow> x = y" for x y
    by (auto simp: prerelease_cmp_def list_cmp_def [symmetric] list_cmp.equal_iff split: bool.splits)
  show "prerelease_cmp y x = flip_ordering (prerelease_cmp x y)" for x y
    by (auto simp: prerelease_cmp_def list_cmp_def [symmetric] list_cmp.flipped [symmetric] split: bool.splits)
  show "prerelease_cmp x z = Less" if "prerelease_cmp x y = Less" "prerelease_cmp y z = Less" for x y z
    using that by (auto simp: prerelease_cmp_def list_cmp_def [symmetric] intro: list_cmp.less_trans
        split: bool.splits)
qed

interpretation version_cmp: comparison version_cmp
proof
  show "version_cmp x y = Equal \<longleftrightarrow> x = y" for x y
    by (cases x; cases y) (auto simp: version_cmp_def ord_cmp.equal_iff prerelease_cmp.equal_iff)
  show "version_cmp y x = flip_ordering (version_cmp x y)" for x y
    by (simp add: version_cmp_def flip_then_with ord_cmp.flipped [symmetric] prerelease_cmp.flipped [symmetric])
  show "version_cmp x z = Less" if "version_cmp x y = Less" "version_cmp y z = Less" for x y z
    using that by (auto simp: version_cmp_def then_with_Less_iff ord_cmp.equal_iff
        intro: ord_cmp.less_trans prerelease_cmp.less_trans)
qed

instantiation version :: linorder
begin

definition less_eq_version :: "version \<Rightarrow> version \<Rightarrow> bool" where
  "less_eq_version v w \<longleftrightarrow> version_cmp v w \<noteq> Greater"

definition less_version :: "version \<Rightarrow> version \<Rightarrow> bool" where
  "less_version v w \<longleftrightarrow> version_cmp v w = Less"

instance
proof
  fix x y z :: version
  show "x < y \<longleftrightarrow> x \<le> y \<and> \<not> y \<le> x"
    by (simp add: less_eq_version_def less_version_def version_cmp.less_iff)
  show "x \<le> x" by (simp add: less_eq_version_def version_cmp.not_greater_iff)
  show "x \<le> z" if "x \<le> y" "y \<le> z"
    using that unfolding less_eq_version_def by (rule version_cmp.not_greater_trans)
  show "x = y" if "x \<le> y" "y \<le> x"
    using that unfolding less_eq_version_def by (rule version_cmp.not_greater_antisym)
  show "x \<le> y \<or> y \<le> x"
    unfolding less_eq_version_def by (rule version_cmp.total)
qed

end

section \<open>Parsing\<close>

datatype version_error = MissingNumber | MalformedVersion string | NumberOverflow

definition is_ascii_digit :: "char \<Rightarrow> bool" where
  "is_ascii_digit c \<longleftrightarrow> digit_val c \<noteq> None"

definition is_ascii_alphanumeric :: "char \<Rightarrow> bool" where
  "is_ascii_alphanumeric c \<longleftrightarrow> is_ascii_digit c \<or> is_ascii_upper c \<or> is_ascii_lower c"

definition identifier_byte :: "char \<Rightarrow> bool" where
  "identifier_byte c \<longleftrightarrow> is_ascii_alphanumeric c \<or> c = CHR ''-''"

definition parse_u64 :: "string \<Rightarrow> u64 option" where
  "parse_u64 s = map_option of_nat (parse_unsigned (2 ^ 64) s)"

definition parse_num :: "string \<Rightarrow> string option \<Rightarrow> (u64, version_error) result" where
  "parse_num input s =
     rbind (ok_or s MissingNumber) (\<lambda>s.
     rbind (guard (\<not> (s = [] \<or> length s > 1 \<and> starts_with s ''0'' \<or> \<not> list_all is_ascii_digit s))
       (MalformedVersion input)) (\<lambda>_.
     ok_or (parse_u64 s) (MalformedVersion input)))"

definition parse_identifier :: "string \<Rightarrow> string \<Rightarrow> (pre_identifier, version_error) result" where
  "parse_identifier input part =
     (if part = [] \<or> \<not> list_all identifier_byte part then Err (MalformedVersion input)
      else if list_all is_ascii_digit part
      then if length part > 1 \<and> starts_with part ''0'' then Err (MalformedVersion input)
           else rbind (ok_or (parse_u64 part) NumberOverflow) (\<lambda>n. Ok (Numeric n))
      else Ok (Text part))"

definition malformed_build :: "string \<Rightarrow> bool" where
  "malformed_build build \<longleftrightarrow> build \<noteq> [] \<and>
     list_ex (\<lambda>part. part = [] \<or> \<not> list_all identifier_byte part) (split_on CHR ''.'' build)"

text \<open>The numbers of the core: exactly three parts.\<close>

definition parse_core :: "string \<Rightarrow> string \<Rightarrow> (u64 \<times> u64 \<times> u64, version_error) result" where
  "parse_core input core =
     (let nums = split_on CHR ''.'' core; nxt = (\<lambda>i. if i < length nums then Some (nums ! i) else None) in
      rbind (parse_num input (nxt 0)) (\<lambda>major.
      rbind (parse_num input (nxt 1)) (\<lambda>minor.
      rbind (parse_num input (nxt 2)) (\<lambda>patch.
      rbind (guard (nxt 3 = None) (MalformedVersion input)) (\<lambda>_.
      Ok (major, minor, patch))))))"

definition parse_version :: "string \<Rightarrow> (version, version_error) result" where
  "parse_version input =
     (let raw = unwrap_or (strip_prefix ''v'' input) input;
          (without_build, build) = unwrap_or (split_once CHR ''+'' raw) (raw, []);
          (core, pre) = unwrap_or (split_once CHR ''-'' without_build) (without_build, []) in
      rbind (guard (\<not> (count_list raw CHR ''+'' > 1 \<or> malformed_build build)) (MalformedVersion input)) (\<lambda>_.
      rbind (guard (\<not> (ends_with raw ''-'' \<or> ends_with raw ''+'')) (MalformedVersion input)) (\<lambda>_.
      rbind (parse_core input core) (\<lambda>(major, minor, patch).
      rbind (if pre = [] then Ok [] else traverse (parse_identifier input) (split_on CHR ''.'' pre)) (\<lambda>prerelease.
      Ok (Version major minor patch prerelease))))))"

section \<open>The policy\<close>

datatype version_policy = Exact | NewerWithinMajor | OlderThanPinned | UnsupportedMajor | Prerelease

definition is_usable :: "version_policy \<Rightarrow> bool" where
  "is_usable p \<longleftrightarrow> p = Exact \<or> p = NewerWithinMajor"

fun policy_reason :: "version_policy \<Rightarrow> string" where
  "policy_reason Exact = ''matches the pinned download target''"
| "policy_reason NewerWithinMajor = ''newer than the pinned target within the same major version''"
| "policy_reason OlderThanPinned = ''older than the pinned target''"
| "policy_reason UnsupportedMajor = ''different major version than the pinned target''"
| "policy_reason Prerelease = ''prerelease version is not accepted''"

definition classify_versions :: "version \<Rightarrow> version \<Rightarrow> version_policy" where
  "classify_versions got pin =
     (if v_prerelease got \<noteq> [] then Prerelease
      else if v_major got \<noteq> v_major pin then UnsupportedMajor
      else case version_cmp got pin of Equal \<Rightarrow> Exact | Greater \<Rightarrow> NewerWithinMajor | Less \<Rightarrow> OlderThanPinned)"

definition classify :: "string \<Rightarrow> string \<Rightarrow> (version_policy, version_error) result" where
  "classify observed required =
     rbind (parse_version observed) (\<lambda>got.
     rbind (parse_version required) (\<lambda>pin. Ok (classify_versions got pin)))"

definition is_compatible :: "string \<Rightarrow> string \<Rightarrow> string \<Rightarrow> (bool, version_error) result" where
  "is_compatible core observed required = rbind (classify observed required) (\<lambda>p. Ok (is_usable p))"

definition is_newer_than :: "string \<Rightarrow> string \<Rightarrow> (bool, version_error) result" where
  "is_newer_than observed target =
     rbind (parse_version observed) (\<lambda>o1. rbind (parse_version target) (\<lambda>t. Ok (version_cmp o1 t = Greater)))"

definition incompatibility :: "string \<Rightarrow> string \<Rightarrow> string \<Rightarrow> string" where
  "incompatibility core observed required =
     core @ '' version '' @ observed @ '' is outside the supported policy ('' @
     (case classify observed required of Inl _ \<Rightarrow> ''version is malformed'' | Inr p \<Rightarrow> policy_reason p) @
     ''); pinned download target is '' @ required"

definition mihomo_policy_version :: string where "mihomo_policy_version = ''1.19.32''"

definition singbox_policy_version :: string where "singbox_policy_version = ''1.14.2''"

section \<open>Canonical texts\<close>

text \<open>The canonical text of a version, for the round trip; the program never prints one.\<close>

fun show_identifier :: "pre_identifier \<Rightarrow> string" where
  "show_identifier (Numeric n) = show_nat (unat n)"
| "show_identifier (Text s) = s"

definition show_core :: "u64 \<Rightarrow> u64 \<Rightarrow> u64 \<Rightarrow> string" where
  "show_core a b c = join ''.'' [show_nat (unat a), show_nat (unat b), show_nat (unat c)]"

fun show_version :: "version \<Rightarrow> string" where
  "show_version (Version a b c pre) =
     show_core a b c @ (if pre = [] then [] else CHR ''-'' # join ''.'' (map show_identifier pre))"

fun identifier_ok :: "pre_identifier \<Rightarrow> bool" where
  "identifier_ok (Numeric n) \<longleftrightarrow> True"
| "identifier_ok (Text s) \<longleftrightarrow> s \<noteq> [] \<and> list_all identifier_byte s \<and> \<not> list_all is_ascii_digit s"

definition version_ok :: "version \<Rightarrow> bool" where
  "version_ok v \<longleftrightarrow> list_all identifier_ok (v_prerelease v) \<and> \<not> ends_with (show_version v) ''-''"

lemma digit_val_SomeD: "digit_val c = Some d \<Longrightarrow> d < 10 \<and> c = digit_char d"
proof -
  assume "digit_val c = Some d"
  then have "d < 10" "(of_char c :: nat) = 48 + d" by (auto simp: digit_val_def Let_def split: if_splits)
  then have "(of_char c :: nat) = of_char (digit_char d)" by (simp add: of_char_digit_char)
  then show ?thesis using \<open>d < 10\<close> by simp
qed

lemma show_nat_0: "show_nat 0 = ''0''"
  by (simp add: show_nat.simps [of 0] digit_char_def)

lemma digit_char_neq_0: "d < 10 \<Longrightarrow> d \<noteq> 0 \<Longrightarrow> digit_char d \<noteq> CHR ''0''"
proof -
  assume "d < 10" "d \<noteq> 0"
  then have "d \<in> {1, 2, 3, 4, 5, 6, 7, 8, 9}" by auto
  then show ?thesis by (auto simp: digit_char_def)
qed

lemma digits_val_canonical:
  "digits_val 0 s = Some n \<Longrightarrow> s \<noteq> [] \<Longrightarrow> \<not> (length s > 1 \<and> starts_with s ''0'') \<Longrightarrow> s = show_nat n"
proof (induction s arbitrary: n rule: rev_induct)
  case (snoc c s)
  from snoc.prems(1) obtain m d where m: "digits_val 0 s = Some m" and d: "digit_val c = Some d" "n = 10 * m + d"
    by (auto simp: digits_val_append split: option.splits)
  have c: "d < 10" "c = digit_char d" using digit_val_SomeD [OF d(1)] by auto
  show ?case
  proof (cases "s = []")
    case True
    with m d c show ?thesis by (simp add: show_nat.simps)
  next
    case False
    have lead: "\<not> starts_with s ''0''"
      using snoc.prems(3) False by (cases s) (auto simp: starts_with_iff)
    then have s: "s = show_nat m" using snoc.IH [OF m False] by blast
    have "m \<noteq> 0" using lead by (cases "m = 0") (auto simp: s starts_with_iff show_nat_0)
    then show ?thesis using c d(2) s by (subst show_nat.simps) simp
  qed
qed simp

lemma show_nat_lead: "n \<noteq> 0 \<Longrightarrow> \<not> starts_with (show_nat n) ''0''"
proof (induction n rule: show_nat.induct)
  case (1 n)
  show ?case
  proof (cases "n < 10")
    case True
    then show ?thesis using "1.prems" digit_char_neq_0 [of n]
      by (subst show_nat.simps) (auto simp: starts_with_iff)
  next
    case False
    then obtain c cs where cs: "show_nat (n div 10) = c # cs" by (cases "show_nat (n div 10)") auto
    with 1 False show ?thesis by (subst show_nat.simps) (auto simp: starts_with_iff)
  qed
qed

lemma show_nat_canonical: "\<not> (length (show_nat n) > 1 \<and> starts_with (show_nat n) ''0'')"
  using show_nat_lead [of n] by (cases "n = 0") (auto simp: show_nat.simps [of 0])

lemma digits_show_nat: "list_all is_ascii_digit (show_nat n)"
  using set_show_nat [of _ n] by (fastforce simp: list_all_iff is_ascii_digit_def)

lemma digits_val_digits: "list_all is_ascii_digit s \<Longrightarrow> \<exists>n. digits_val acc s = Some n"
  by (induction s arbitrary: acc) (auto simp: is_ascii_digit_def)

lemma parse_u64_digits:
  assumes "list_all is_ascii_digit s"
  shows "parse_u64 s = Some n \<longleftrightarrow> s \<noteq> [] \<and> digits_val 0 s = Some (unat n)"
proof (cases s)
  case (Cons c cs)
  have "c \<noteq> CHR ''+''" using assms Cons by (auto simp: is_ascii_digit_def digit_val_def)
  moreover obtain m where "digits_val 0 s = Some m" using digits_val_digits [OF assms] by blast
  moreover have "(m < 2 ^ 64 \<and> of_nat m = n) \<longleftrightarrow> m = unat n"
    using unsigned_less [of n] by (auto simp: unsigned_of_nat take_bit_nat_eq_self)
  ultimately show ?thesis using Cons by (auto simp: parse_u64_def parse_unsigned_def)
qed (simp add: parse_u64_def parse_unsigned_def)

lemma parse_num_iff: "parse_num input (Some s) = Inr n \<longleftrightarrow> s = show_nat (unat n)"
proof
  assume "parse_num input (Some s) = Inr n"
  then have ok: "s \<noteq> []" "\<not> (length s > 1 \<and> starts_with s ''0'')" "list_all is_ascii_digit s"
    and "parse_u64 s = Some n" by (auto simp: parse_num_def)
  then show "s = show_nat (unat n)" using digits_val_canonical [of s "unat n"] parse_u64_digits [of s n] by simp
next
  assume s: "s = show_nat (unat n)"
  then have "parse_u64 s = Some n"
    using digits_show_nat [of "unat n"] by (simp add: parse_u64_digits digits_val_show_nat)
  then show "parse_num input (Some s) = Inr n"
    using s show_nat_canonical [of "unat n"] digits_show_nat [of "unat n"] by (auto simp: parse_num_def)
qed

lemma parse_identifier_iff:
  "parse_identifier input part = Inr i \<longleftrightarrow> part = show_identifier i \<and> identifier_ok i"
proof (cases "part \<noteq> [] \<and> list_all is_ascii_digit part")
  case True
  have bytes: "list_all identifier_byte part"
    using True by (auto simp: list_all_iff identifier_byte_def is_ascii_alphanumeric_def)
  have "parse_identifier input part = Inr i \<longleftrightarrow>
      (\<exists>n. i = Numeric n \<and> \<not> (length part > 1 \<and> starts_with part ''0'') \<and> digits_val 0 part = Some (unat n))"
    using True bytes parse_u64_digits [of part] by (auto simp: parse_identifier_def)
  also have "\<dots> \<longleftrightarrow> (\<exists>n. i = Numeric n \<and> part = show_nat (unat n))"
    using True digits_val_canonical [of part] show_nat_canonical digits_val_show_nat by metis
  also have "\<dots> \<longleftrightarrow> part = show_identifier i \<and> identifier_ok i"
    using True by (cases i) auto
  finally show ?thesis .
next
  case False
  then show ?thesis
    using digits_show_nat
    by (cases i) (auto simp: parse_identifier_def show_nat_not_Nil [symmetric] simp del: show_nat_not_Nil)
qed

lemma traverse_identifiers:
  "traverse (parse_identifier input) parts = Inr pre \<longleftrightarrow>
     parts = map show_identifier pre \<and> list_all identifier_ok pre"
proof (induction parts arbitrary: pre)
  case (Cons part parts)
  show ?case
  proof (cases pre)
    case (Cons i rest)
    have "traverse (parse_identifier input) (part # parts) = Inr pre \<longleftrightarrow>
        parse_identifier input part = Inr i \<and> traverse (parse_identifier input) parts = Inr rest"
      by (auto simp: Cons)
    then show ?thesis by (simp only: Cons Cons.IH parse_identifier_iff) auto
  qed auto
qed auto

lemma parse_core_iff: "parse_core input core = Inr (a, b, c) \<longleftrightarrow> core = show_core a b c"
proof
  assume *: "parse_core input core = Inr (a, b, c)"
  then have "length (split_on CHR ''.'' core) \<le> 3" by (auto simp: parse_core_def Let_def split: if_splits)
  moreover from * have "length (split_on CHR ''.'' core) \<ge> 3"
    by (auto simp: parse_core_def parse_num_def Let_def split: if_splits)
  ultimately obtain x y z where "split_on CHR ''.'' core = [x, y, z]"
    by (auto simp: numeral_eq_Suc le_Suc_eq length_Suc_conv)
  with * show "core = show_core a b c"
    using join_split_on [of "CHR ''.''" core]
    by (auto simp: parse_core_def Let_def parse_num_iff show_core_def)
next
  assume "core = show_core a b c"
  then have "split_on CHR ''.'' core = [show_nat (unat a), show_nat (unat b), show_nat (unat c)]"
    unfolding show_core_def by (simp only:) (rule split_on_join, auto simp: show_nat_no_char)
  then show "parse_core input core = Inr (a, b, c)" by (simp add: parse_core_def Let_def parse_num_iff)
qed

lemma set_show_core: "d \<in> set (show_core a b c) \<Longrightarrow> d = CHR ''.'' \<or> is_ascii_digit d"
  using digits_show_nat by (fastforce simp: show_core_def list_all_iff)

lemma show_core_no_char:
  "CHR ''-'' \<notin> set (show_core a b c)" "CHR ''+'' \<notin> set (show_core a b c)" "CHR ''v'' \<notin> set (show_core a b c)"
  using set_show_core by (fastforce simp: is_ascii_digit_def digit_val_def)+

lemma show_core_not_Nil [simp]: "show_core a b c \<noteq> []" "[] \<noteq> show_core a b c"
  by (simp_all add: show_core_def)

lemma ends_with_in_set: "ends_with s [d] \<Longrightarrow> d \<in> set s"
  by (cases "strip_prefix [d] (rev s)") (auto simp: ends_with_def)

lemma show_core_last_digit: "\<not> ends_with (show_core a b c) ''-''" "\<not> ends_with (show_core a b c) ''+''"
  using ends_with_in_set show_core_no_char by blast+

lemma identifier_ok_chars: "identifier_ok i \<Longrightarrow> show_identifier i \<noteq> [] \<and> CHR ''.'' \<notin> set (show_identifier i)"
  by (cases i)
     (auto simp: show_nat_no_char list_all_iff identifier_byte_def is_ascii_alphanumeric_def is_ascii_digit_def
       digit_val_def is_ascii_upper_def is_ascii_lower_def)

lemma split_identifiers:
  assumes "pre \<noteq> []" "list_all identifier_ok pre"
  shows "split_on CHR ''.'' (join ''.'' (map show_identifier pre)) = map show_identifier pre"
  by (rule split_on_join) (use assms identifier_ok_chars in \<open>auto simp: list_all_iff\<close>)

lemma join_identifiers_not_Nil: "pre \<noteq> [] \<Longrightarrow> list_all identifier_ok pre \<Longrightarrow> join ''.'' (map show_identifier pre) \<noteq> []"
  using identifier_ok_chars by (cases pre; cases "tl pre") (auto simp: join_Cons)

text \<open>Without build metadata and without the leading \<open>v\<close>.\<close>

lemma parse_raw_iff:
  assumes "CHR ''+'' \<notin> set raw"
  defines "parts \<equiv> unwrap_or (split_once CHR ''-'' raw) (raw, [])"
  shows "(\<not> ends_with raw ''-'' \<and> parse_core input (fst parts) = Inr (a, b, c) \<and>
      (if snd parts = [] then Ok [] else traverse (parse_identifier input) (split_on CHR ''.'' (snd parts))) = Inr pre) \<longleftrightarrow>
    version_ok (Version a b c pre) \<and> raw = show_version (Version a b c pre)" (is "?P \<longleftrightarrow> ?Q")
proof
  assume P: ?P
  show ?Q
  proof (cases "split_once CHR ''-'' raw")
    case None
    with P show ?thesis by (auto simp: parts_def parse_core_iff version_ok_def)
  next
    case (Some cp)
    obtain core p where cp: "cp = (core, p)" by fastforce
    with Some have raw: "raw = core @ CHR ''-'' # p" using split_once_Some by auto
    have "p \<noteq> []" using P by (auto simp: raw ends_with_def)
    with P Some cp have "core = show_core a b c" "split_on CHR ''.'' p = map show_identifier pre"
      "list_all identifier_ok pre" by (auto simp: parts_def parse_core_iff traverse_identifiers)
    moreover have "p = join ''.'' (split_on CHR ''.'' p)" by (simp add: join_split_on)
    moreover have "pre \<noteq> []" using calculation(2) by auto
    ultimately show ?thesis using P raw by (simp add: version_ok_def)
  qed
next
  assume Q: ?Q
  show ?P
  proof (cases "pre = []")
    case True
    with Q have "raw = show_core a b c" by simp
    moreover from this have "split_once CHR ''-'' raw = None" by (simp add: split_once_None_iff show_core_no_char)
    ultimately show ?thesis using True by (simp add: parts_def parse_core_iff show_core_last_digit)
  next
    case False
    with Q have raw: "raw = show_core a b c @ CHR ''-'' # join ''.'' (map show_identifier pre)" by simp
    then have "split_once CHR ''-'' raw = Some (show_core a b c, join ''.'' (map show_identifier pre))"
      by (simp add: split_once_append show_core_no_char)
    with False Q show ?thesis
      by (simp add: parts_def parse_core_iff version_ok_def split_identifiers traverse_identifiers
          join_identifiers_not_Nil)
  qed
qed

lemma parse_version_no_build:
  assumes "CHR ''+'' \<notin> set input"
  defines "raw \<equiv> unwrap_or (strip_prefix ''v'' input) input"
  shows "parse_version input = Inr v \<longleftrightarrow> version_ok v \<and> raw = show_version v"
proof -
  have raw: "CHR ''+'' \<notin> set raw"
    using assms(1) by (cases "strip_prefix ''v'' input") (auto simp: raw_def)
  then have "count_list raw CHR ''+'' = 0" "split_once CHR ''+'' raw = None" "\<not> ends_with raw ''+''"
    using ends_with_in_set by (auto simp: count_list_0_iff split_once_None_iff)
  note raw_facts = this
  obtain core p where parts: "unwrap_or (split_once CHR ''-'' raw) (raw, []) = (core, p)" by fastforce
  obtain a b c pre where v: "v = Version a b c pre" by (cases v)
  have "parse_version input = Inr v \<longleftrightarrow> \<not> ends_with raw ''-'' \<and> parse_core input core = Inr (a, b, c) \<and>
      (if p = [] then Ok [] else traverse (parse_identifier input) (split_on CHR ''.'' p)) = Inr pre"
    using raw_facts by (auto simp: v parse_version_def Let_def malformed_build_def raw_def [symmetric] parts)
  then show ?thesis using parse_raw_iff [OF raw, of input a b c pre] by (simp only: v parts fst_conv snd_conv)
qed

lemma strip_v_show_version: "strip_prefix ''v'' (show_version v) = None"
proof -
  obtain a b c pre where v: "v = Version a b c pre" by (cases v)
  obtain d ds where "show_core a b c = d # ds" by (cases "show_core a b c") auto
  then show ?thesis using show_core_no_char(3) [of a b c] by (simp add: v)
qed

text \<open>C32: a text without build metadata is accepted as a version if and only if it is the canonical text of
  one, with or without a leading letter v: three decimal numbers of 64 bits without leading zeros, then
  optionally a hyphen and non-empty identifiers of letters, digits and hyphens, numeric ones without leading
  zeros, not ending in a hyphen. So a version has exactly one such text, and the parser inverts it.\<close>

theorem version_text_exact:
  assumes "CHR ''+'' \<notin> set s"
  shows "parse_version s = Inr v \<longleftrightarrow> version_ok v \<and> (s = show_version v \<or> s = CHR ''v'' # show_version v)"
proof (cases "strip_prefix ''v'' s")
  case None
  then show ?thesis using parse_version_no_build [OF assms, of v] by auto
next
  case (Some r)
  then have "s \<noteq> show_version v" using strip_v_show_version [of v] by (metis option.distinct(1))
  with Some show ?thesis using parse_version_no_build [OF assms, of v] by auto
qed

theorem version_text_exact_witness:
  "parse_version ''v1.19.32'' = Inr (Version 1 19 32 []) \<longleftrightarrow>
     version_ok (Version 1 19 32 []) \<and> (''v1.19.32'' = show_version (Version 1 19 32 []) \<or>
       ''v1.19.32'' = CHR ''v'' # show_version (Version 1 19 32 []))"
  by (rule version_text_exact) simp

section \<open>Facts about the policy\<close>

lemma classify_versions_usable:
  "is_usable (classify_versions got pin) \<longleftrightarrow> v_prerelease got = [] \<and> v_major got = v_major pin \<and> pin \<le> got"
  using version_cmp.greater_iff [of got pin] version_cmp.equal_iff [of got pin] version_cmp.flipped [of pin got]
  by (auto simp: classify_versions_def is_usable_def less_eq_version_def split: ordering.splits)

lemma is_compatible_iff:
  "is_compatible core observed required = Inr True \<longleftrightarrow>
     (\<exists>got pin. parse_version observed = Inr got \<and> parse_version required = Inr pin \<and>
       v_prerelease got = [] \<and> v_major got = v_major pin \<and> pin \<le> got)"
  by (auto simp: is_compatible_def classify_def classify_versions_usable)

lemma usable_upward:
  assumes "is_compatible core v pin = Inr True" "parse_version v = Inr a" "parse_version w = Inr b"
    "v_prerelease b = []" "v_major b = v_major a" "a \<le> b"
  shows "is_compatible core w pin = Inr True"
  using assms unfolding is_compatible_iff by (fastforce intro: order_trans)

text \<open>An observed core is usable if and only if both texts are versions, the observed one is a release of
  the major line of the pin, and it is not older than the pin in the order of semantic versions. Hence a core
  newer than a usable one in the same major line is usable too.\<close>

theorem usable_versions_exact:
  "is_compatible core observed required = Inr True \<longleftrightarrow>
     (\<exists>got pin. parse_version observed = Inr got \<and> parse_version required = Inr pin \<and>
       v_prerelease got = [] \<and> v_major got = v_major pin \<and> pin \<le> got)"
  by (rule is_compatible_iff)

text \<open>A hyphen before the build metadata with no identifier after it is accepted as a release, although the
  parser means to reject a trailing hyphen.\<close>

lemma hyphen_before_build:
  "parse_version (show_core a b c @ ''-+x'') = Inr (Version a b c [])"
proof -
  let ?s = "show_core a b c @ ''-+x''"
  obtain d ds where d: "show_core a b c = d # ds" by (cases "show_core a b c") auto
  have v: "strip_prefix ''v'' ?s = None" using show_core_no_char(3) [of a b c] by (simp add: d)
  have plus: "split_once CHR ''+'' ?s = Some (show_core a b c @ ''-'', ''x'')"
    using split_once_append [of "CHR ''+''" "show_core a b c @ ''-''" "''x''"] show_core_no_char by simp
  have hyphen: "split_once CHR ''-'' (show_core a b c @ ''-'') = Some (show_core a b c, [])"
    using split_once_append [of "CHR ''-''" "show_core a b c" "[]"] show_core_no_char by simp
  have build: "\<not> malformed_build ''x''"
    by (simp add: malformed_build_def identifier_byte_def is_ascii_alphanumeric_def is_ascii_lower_def)
  have core: "parse_core input (show_core a b c) = Inr (a, b, c)" for input by (simp add: parse_core_iff)
  show ?thesis
    by (simp add: parse_version_def v plus hyphen build core show_core_no_char count_list_0_iff) (simp add: ends_with_def)
qed

theorem hyphen_before_build_is_release:
  "parse_version (show_core a b c @ ''-'') = Inl (MalformedVersion (show_core a b c @ ''-'')) \<and>
   parse_version (show_core a b c @ ''-+x'') = Inr (Version a b c [])"
proof -
  let ?s = "show_core a b c @ ''-''"
  obtain d ds where d: "show_core a b c = d # ds" by (cases "show_core a b c") auto
  have "strip_prefix ''v'' ?s = None" using show_core_no_char(3) [of a b c] by (simp add: d)
  moreover have "split_once CHR ''+'' ?s = None" using show_core_no_char by (simp add: split_once_None_iff)
  moreover have "ends_with ?s ''-''" by (simp add: ends_with_def)
  ultimately have "parse_version ?s = Inl (MalformedVersion ?s)"
    using show_core_no_char(2) [of a b c]
    by (simp add: parse_version_def malformed_build_def count_list_0_iff split: prod.splits)
  then show ?thesis by (simp add: hyphen_before_build)
qed

end
