(* ===== verification/Rust_Text.thy ===== *)
theory Rust_Text
  imports Core_Policy
begin

text \<open>
  More string operations of the Rust standard library: splitting at white space, \<open>lines\<close>, the
  validity of UTF-8 and hexadecimal digits. They are used where the program reads the output of another
  program or a file it does not trust.
\<close>

section \<open>White space\<close>

text \<open>\<open>split_whitespace\<close>: the non-empty pieces between white-space characters.\<close>

function ws_pieces :: "string \<Rightarrow> string \<Rightarrow> string list" where
  "ws_pieces piece [] = [piece]"
| "ws_pieces piece (c # cs) =
     (case strip_any ws_patterns (c # cs) of
        Some rest \<Rightarrow> piece # ws_pieces [] rest
      | None \<Rightarrow> ws_pieces (piece @ [c]) cs)"
  by pat_completeness auto
termination
  by (relation "measure (\<lambda>(piece, s). length s)")
     (auto dest: strip_any_shorter [OF _ ws_patterns_nonempty(1)])

definition split_whitespace :: "string \<Rightarrow> string list" where
  "split_whitespace s = filter (\<lambda>w. w \<noteq> []) (ws_pieces [] s)"

lemma split_whitespace_not_Nil: "w \<in> set (split_whitespace s) \<Longrightarrow> w \<noteq> []"
  by (simp add: split_whitespace_def)

lemma set_ws_pieces: "w \<in> set (ws_pieces piece s) \<Longrightarrow> set w \<subseteq> set piece \<union> set s"
proof (induction piece s arbitrary: w rule: ws_pieces.induct)
  case (2 piece c cs)
  show ?case
  proof (cases "strip_any ws_patterns (c # cs)")
    case None
    with 2(1) [OF None, of w] 2(3) show ?thesis by auto
  next
    case (Some rest)
    then have "set rest \<subseteq> set (c # cs)" using strip_any_suffix set_mono_suffix by blast
    with 2(2) [OF Some, of w] 2(3) Some show ?thesis by auto
  qed
qed simp

section \<open>Lines\<close>

definition strip_cr :: "string \<Rightarrow> string" where
  "strip_cr l = unwrap_or (strip_suffix [CHR 0x0D] l) l"

fun line_list :: "string list \<Rightarrow> string list" where
  "line_list [] = []"
| "line_list [l] = (if l = [] then [] else [l])"
| "line_list (l # ls) = strip_cr l # line_list ls"

definition str_lines :: "string \<Rightarrow> string list" where
  "str_lines s = line_list (split_on (CHR 0x0A) s)"

section \<open>UTF-8\<close>

definition cont_byte :: "nat \<Rightarrow> bool" where
  "cont_byte b \<longleftrightarrow> 128 \<le> b \<and> b < 192"

text \<open>The bytes that may follow a leading byte of two, three or four: overlong forms, surrogates and code
  points above U+10FFFF are excluded.\<close>

definition two_bytes :: "nat \<Rightarrow> nat \<Rightarrow> bool" where
  "two_bytes a b \<longleftrightarrow> 194 \<le> a \<and> a < 224 \<and> cont_byte b"

definition three_bytes :: "nat \<Rightarrow> nat \<Rightarrow> nat \<Rightarrow> bool" where
  "three_bytes a b c \<longleftrightarrow> cont_byte b \<and> cont_byte c \<and>
     (a = 224 \<and> 160 \<le> b \<or> 225 \<le> a \<and> a < 237 \<or> a = 237 \<and> b < 160 \<or> a = 238 \<or> a = 239)"

definition four_bytes :: "nat \<Rightarrow> nat \<Rightarrow> nat \<Rightarrow> nat \<Rightarrow> bool" where
  "four_bytes a b c d \<longleftrightarrow> cont_byte b \<and> cont_byte c \<and> cont_byte d \<and>
     (a = 240 \<and> 144 \<le> b \<or> 241 \<le> a \<and> a < 244 \<or> a = 244 \<and> b < 144)"

fun utf8_bytes :: "nat list \<Rightarrow> bool" where
  "utf8_bytes [] \<longleftrightarrow> True"
| "utf8_bytes (a # bs) \<longleftrightarrow>
     (if a < 128 then utf8_bytes bs
      else case bs of
        b # cs \<Rightarrow>
          (if two_bytes a b then utf8_bytes cs
           else case cs of
             c # ds \<Rightarrow>
               (if three_bytes a b c then utf8_bytes ds
                else case ds of
                  d # es \<Rightarrow> four_bytes a b c d \<and> utf8_bytes es
                | [] \<Rightarrow> False)
           | [] \<Rightarrow> False)
      | [] \<Rightarrow> False)"

definition is_utf8 :: "string \<Rightarrow> bool" where
  "is_utf8 s \<longleftrightarrow> utf8_bytes (map of_char s)"

lemma is_utf8_ascii: "list_all (\<lambda>c. (of_char c :: nat) < 128) s \<Longrightarrow> is_utf8 s"
  unfolding is_utf8_def by (induction s) auto

section \<open>Hexadecimal digits\<close>

definition is_ascii_hexdigit :: "char \<Rightarrow> bool" where
  "is_ascii_hexdigit c \<longleftrightarrow> is_ascii_digit c \<or> c \<in> set ''abcdefABCDEF''"

text \<open>The text of a SHA-256 digest: 64 hexadecimal digits.\<close>

definition sha256_text :: "string \<Rightarrow> bool" where
  "sha256_text hex \<longleftrightarrow> length hex = 64 \<and> list_all is_ascii_hexdigit hex"

lemma is_ascii_digit_ascii: "is_ascii_digit c \<Longrightarrow> (of_char c :: nat) < 128"
  by (auto simp: is_ascii_digit_def digit_val_def Let_def split: if_splits)

lemma sha256_text_utf8: "sha256_text hex \<Longrightarrow> is_utf8 hex"
  by (rule is_utf8_ascii) (auto simp: sha256_text_def list_all_iff is_ascii_hexdigit_def dest: is_ascii_digit_ascii)

end
