(* ===== verification/Release_Digest.thy ===== *)
theory Release_Digest
  imports Rust_Text Json
begin

text \<open>
  The release metadata of \<open>subscribe/client_meta.rs\<close>: which checksum an official release publishes for an
  asset, the diagnostics of the metadata requests without credentials, and the version the program shows to
  subscription providers.
\<close>

section \<open>Checksums of a release\<close>

datatype digest_error =
    UnsupportedAlgorithm
  | InvalidChecksum
  | UnofficialRepository
  | OtherTag
  | NoAssets
  | AssetAmbiguous
  | InvalidDigestMetadata
  | ManifestAmbiguous
  | ManifestWithoutName
  | ManifestName
  | ManifestUrl
  | EntryAmbiguous
  | MetadataRequest
  | MetadataStatus nat
  | MetadataJson
  | ManifestRequest
  | ManifestStream
  | ManifestTooLarge
  | ManifestNotUtf8

datatype trusted_digest_metadata = Digest string | Manifest string

definition checked_sha256 :: "string \<Rightarrow> (string, digest_error) result" where
  "checked_sha256 v =
     rbind (ok_or (strip_prefix ''sha256:'' v) UnsupportedAlgorithm) (\<lambda>hex.
     rbind (guard (sha256_text hex) InvalidChecksum) (\<lambda>_.
     Ok (''sha256:'' @ to_ascii_lowercase hex)))"

definition asset_name_is :: "string \<Rightarrow> json \<Rightarrow> bool" where
  "asset_name_is name asset \<longleftrightarrow> Option.bind (json_get asset ''name'') as_str = Some name"

definition manifest_name :: "string \<Rightarrow> bool" where
  "manifest_name name \<longleftrightarrow>
     to_ascii_lowercase name \<in> set [''sha256sums'', ''sha256sums.txt'', ''checksums'', ''checksums.txt''] \<or>
     ends_with (to_ascii_lowercase name) ''-checksums.txt''"

definition is_manifest :: "json \<Rightarrow> bool" where
  "is_manifest asset \<longleftrightarrow> is_some_and (Option.bind (json_get asset ''name'') as_str) manifest_name"

definition official_repo :: "string \<Rightarrow> bool" where
  "official_repo repo \<longleftrightarrow> repo = ''MetaCubeX/mihomo'' \<or> repo = ''SagerNet/sing-box''"

definition download_url :: "string \<Rightarrow> string \<Rightarrow> string \<Rightarrow> string" where
  "download_url repo tag name = ''https://github.com/'' @ repo @ ''/releases/download/'' @ tag @ ''/'' @ name"

text \<open>The part of \<open>trusted_digest_metadata\<close> for an asset without a digest.\<close>

definition manifest_metadata ::
  "string \<Rightarrow> string \<Rightarrow> json list \<Rightarrow> (trusted_digest_metadata, digest_error) result" where
  "manifest_metadata repo tag assets =
     (case filter is_manifest assets of
        [manifest] \<Rightarrow>
          rbind (ok_or (Option.bind (json_get manifest ''name'') as_str) ManifestWithoutName) (\<lambda>name.
          rbind (guard (\<not> (list_ex (\<lambda>c. c \<in> set [CHR ''/'', CHR 0x5C]) name \<or> name = ''.'' \<or> name = ''..''))
            ManifestName) (\<lambda>_.
          let expected_url = download_url repo tag name in
          rbind (guard (Option.bind (json_get manifest ''browser_download_url'') as_str = Some expected_url)
            ManifestUrl) (\<lambda>_.
          Ok (Manifest expected_url))))
      | _ \<Rightarrow> Err ManifestAmbiguous)"

definition trusted_digest_metadata ::
  "json \<Rightarrow> string \<Rightarrow> string \<Rightarrow> string \<Rightarrow> (trusted_digest_metadata, digest_error) result" where
  "trusted_digest_metadata release repo tag asset_name =
     rbind (guard (official_repo repo) UnofficialRepository) (\<lambda>_.
     rbind (guard (Option.bind (json_get release ''tag_name'') as_str = Some tag) OtherTag) (\<lambda>_.
     rbind (ok_or (Option.bind (json_get release ''assets'') as_array) NoAssets) (\<lambda>assets.
     case filter (asset_name_is asset_name) assets of
       [target] \<Rightarrow>
         (case json_get target ''digest'' of
            Some (JStr digest) \<Rightarrow> rbind (checked_sha256 digest) (\<lambda>d. Ok (Digest d))
          | None \<Rightarrow> manifest_metadata repo tag assets
          | Some JNull \<Rightarrow> manifest_metadata repo tag assets
          | _ \<Rightarrow> Err InvalidDigestMetadata)
     | _ \<Rightarrow> Err AssetAmbiguous)))"

text \<open>The digest a line of a manifest states for an asset, in the formats of \<open>sha256sum\<close> and of BSD.\<close>

definition line_digest :: "string \<Rightarrow> string \<Rightarrow> string option" where
  "line_digest asset_name line =
     (case split_whitespace line of
        [a, b] \<Rightarrow> if dropWhile (\<lambda>c. c = CHR ''*'') b = asset_name then Some a else None
      | [a, b, c, d] \<Rightarrow> if a = ''SHA256'' \<and> b = ''('' @ asset_name @ '')'' \<and> c = ''='' then Some d else None
      | _ \<Rightarrow> None)"

definition manifest_sha256 :: "string \<Rightarrow> string \<Rightarrow> (string, digest_error) result" where
  "manifest_sha256 txt asset_name =
     rbind (traverse (\<lambda>hex. checked_sha256 (''sha256:'' @ hex)) (filter_map (line_digest asset_name) (str_lines txt)))
       (\<lambda>found. case found of [digest] \<Rightarrow> Ok digest | _ \<Rightarrow> Err EntryAmbiguous)"

text \<open>The bytes of a body read in chunks (\<open>None\<close>: the stream failed), up to a limit.\<close>

fun collect_chunks :: "nat \<Rightarrow> 'e \<Rightarrow> 'e \<Rightarrow> string \<Rightarrow> string option list \<Rightarrow> (string, 'e) result" where
  "collect_chunks limit broken large bytes [] = Ok bytes"
| "collect_chunks limit broken large bytes (None # chunks) = Err broken"
| "collect_chunks limit broken large bytes (Some chunk # chunks) =
     (if length bytes + length chunk > limit then Err large
      else collect_chunks limit broken large (bytes @ chunk) chunks)"

text \<open>The answers of the network: the status and JSON of the release (\<open>None\<close>: no response), and by URL the
  chunks of a manifest.\<close>

record release_net =
  rn_release :: "string \<Rightarrow> (nat \<times> json option) option"
  rn_manifest :: "string \<Rightarrow> string option list option"

definition release_url :: "string \<Rightarrow> string \<Rightarrow> string" where
  "release_url repo tag = ''https://api.github.com/repos/'' @ repo @ ''/releases/tags/'' @ tag"

definition manifest_limit :: nat where "manifest_limit = 1024 * 1024"

definition fetch_trusted_release_digest ::
  "release_net \<Rightarrow> string \<Rightarrow> string \<Rightarrow> string \<Rightarrow> (string, digest_error) result" where
  "fetch_trusted_release_digest net repo tag asset_name =
     rbind (ok_or (rn_release net (release_url repo tag)) MetadataRequest) (\<lambda>(status, body).
     rbind (guard (200 \<le> status \<and> status < 300) (MetadataStatus status)) (\<lambda>_.
     rbind (ok_or body MetadataJson) (\<lambda>release.
     rbind (trusted_digest_metadata release repo tag asset_name) (\<lambda>m.
     case m of
       Digest digest \<Rightarrow> Ok digest
     | Manifest url \<Rightarrow>
         rbind (ok_or (rn_manifest net url) ManifestRequest) (\<lambda>chunks.
         rbind (collect_chunks manifest_limit ManifestStream ManifestTooLarge [] chunks) (\<lambda>bytes.
         rbind (guard (is_utf8 bytes) ManifestNotUtf8) (\<lambda>_.
         manifest_sha256 bytes asset_name)))))))"

text \<open>\<open>fetch_latest_release_tag\<close>: only a tag of a version is accepted.\<close>

definition latest_release_tag :: "(nat \<times> json option) option \<Rightarrow> string option" where
  "latest_release_tag response =
     Option.bind response (\<lambda>(status, body).
     if \<not> (200 \<le> status \<and> status < 300) then None
     else Option.bind body (\<lambda>payload.
          Option.bind (Option.bind (json_get payload ''tag_name'') as_str) (\<lambda>t.
          let tag = trim t in
          case tag of
            c # d # _ \<Rightarrow> if c = CHR ''v'' \<and> is_ascii_digit d then Some tag else None
          | _ \<Rightarrow> None)))"

section \<open>Diagnostics without credentials\<close>

definition metadata_status_hint :: "nat \<Rightarrow> string" where
  "metadata_status_hint status =
     (if status \<in> {401, 403, 429} then
        ''GitHub API rate limit or auth required (set GITHUB_TOKEN, or retry later; a shared proxy exit IP is rate limited)''
      else if status = 404 then ''release or tag not found in the official repository''
      else ''see the HTTP status above'')"

text \<open>The parts of a parsed URL the sanitizer reads: scheme, host and port.\<close>

type_synonym url_parts = "string \<times> string option \<times> u16 option"

definition sanitize_proxy_endpoint :: "(string \<Rightarrow> url_parts option) \<Rightarrow> string \<Rightarrow> string option" where
  "sanitize_proxy_endpoint parse proxy =
     Option.bind (parse (trim proxy)) (\<lambda>(scheme, host, port).
     Option.bind host (\<lambda>host.
     if host = [] then None
     else let sanitized =
            (case port of
               Some p \<Rightarrow> scheme @ ''://'' @ host @ '':'' @ show_u16 p
             | None \<Rightarrow> scheme @ ''://'' @ host) in
          if list_ex (\<lambda>c. c \<in> set ''@?#'') sanitized then None else Some sanitized))"

definition describe_network :: "(string \<Rightarrow> url_parts option) \<Rightarrow> string option \<Rightarrow> string" where
  "describe_network parse proxy =
     (case proxy of
        None \<Rightarrow> ''directly, no proxy environment is set''
      | Some p \<Rightarrow>
          (case sanitize_proxy_endpoint parse p of
             Some endpoint \<Rightarrow> ''via proxy '' @ endpoint @ '' from the environment''
           | None \<Rightarrow> ''via proxy (endpoint redacted: malformed proxy URL) from the environment''))"

definition proxy_from_env_vars :: "string option \<Rightarrow> string option \<Rightarrow> string option" where
  "proxy_from_env_vars https all =
     (let pick = (\<lambda>v. opt_filter (\<lambda>s. s \<noteq> []) (map_option trim v)) in or_else (pick https) (pick all))"

text \<open>The first variable that is set counts, even when it is blank.\<close>

definition read_var :: "(string \<Rightarrow> string option) \<Rightarrow> string list \<Rightarrow> string option" where
  "read_var env names =
     opt_filter (\<lambda>v. trim v \<noteq> []) (case filter_map env names of [] \<Rightarrow> None | v # _ \<Rightarrow> Some v)"

definition metadata_network :: "(string \<Rightarrow> string option) \<Rightarrow> string option" where
  "metadata_network env =
     proxy_from_env_vars (read_var env [''HTTPS_PROXY'', ''https_proxy'']) (read_var env [''ALL_PROXY'', ''all_proxy''])"

section \<open>The version shown to providers\<close>

definition normalize_version :: "string \<Rightarrow> string option" where
  "normalize_version raw =
     (let main = trim (hd (split_any ''-+'' (dropWhile (\<lambda>c. c \<in> set ''vV'') (trim raw))));
          parts = split_on CHR ''.'' main
      in if length parts < 2 \<or> length parts > 4 then None
         else if \<not> list_all (\<lambda>part. part \<noteq> [] \<and> list_all is_ascii_digit part) parts then None
         else Some main)"

definition compat_version :: "string option \<Rightarrow> string option \<Rightarrow> string option \<Rightarrow> string" where
  "compat_version latest rpm dpkg =
     unwrap_or (or_else (Option.bind latest normalize_version)
       (case rpm of
          Some v \<Rightarrow> normalize_version v
        | None \<Rightarrow> Option.bind dpkg normalize_version)) ''2.5.2''"

section \<open>Properties\<close>

lemma set_case_bit_hex: "is_ascii_hexdigit c \<Longrightarrow> is_ascii_hexdigit (ascii_lower_char c)"
proof -
  assume c: "is_ascii_hexdigit c"
  show ?thesis
  proof (cases "is_ascii_digit c")
    case True
    then have "\<not> is_ascii_upper c"
      by (auto simp: is_ascii_digit_def digit_val_def is_ascii_upper_def Let_def split: if_splits)
    with True show ?thesis by (simp add: ascii_lower_char_def is_ascii_hexdigit_def)
  next
    case False
    with c have "c \<in> set ''abcdefABCDEF''" by (simp add: is_ascii_hexdigit_def)
    then show ?thesis
      by (auto simp: ascii_lower_char_def is_ascii_upper_def is_ascii_hexdigit_def)
  qed
qed

lemma checked_sha256_iff:
  "checked_sha256 v = Inr d \<longleftrightarrow> (\<exists>hex. v = ''sha256:'' @ hex \<and> sha256_text hex \<and> d = ''sha256:'' @ to_ascii_lowercase hex)"
  by (auto simp: checked_sha256_def)

lemma sha256_text_lower: "sha256_text hex \<Longrightarrow> sha256_text (to_ascii_lowercase hex)"
  by (auto simp: sha256_text_def to_ascii_lowercase_def list_all_iff intro: set_case_bit_hex)

lemma checked_sha256_idem: "checked_sha256 v = Inr d \<Longrightarrow> checked_sha256 d = Inr d"
  by (auto simp: checked_sha256_iff sha256_text_lower)

lemma collect_chunks_Inr:
  "collect_chunks limit e1 e2 bytes chunks = Inr out \<Longrightarrow>
     (\<forall>c \<in> set chunks. c \<noteq> None) \<and> out = bytes @ concat (map the chunks) \<and> (length bytes \<le> limit \<longrightarrow> length out \<le> limit)"
  by (induction limit e1 e2 bytes chunks rule: collect_chunks.induct) (auto split: if_splits)

lemma manifest_sha256_Inr:
  "manifest_sha256 bytes asset = Inr d \<Longrightarrow>
     \<exists>hex. filter_map (line_digest asset) (str_lines bytes) = [hex] \<and> sha256_text hex \<and>
       d = ''sha256:'' @ to_ascii_lowercase hex"
proof -
  let ?hexes = "filter_map (line_digest asset) (str_lines bytes)"
  assume "manifest_sha256 bytes asset = Inr d"
  then obtain found where found: "traverse (\<lambda>hex. checked_sha256 (''sha256:'' @ hex)) ?hexes = Inr found"
    "(case found of [digest] \<Rightarrow> Ok digest | _ \<Rightarrow> Err EntryAmbiguous) = Inr d" unfolding manifest_sha256_def by auto
  then have "found = [d]" by (cases found; cases "tl found") auto
  with found(1) have "list_all2 (\<lambda>hex y. checked_sha256 (''sha256:'' @ hex) = Inr y) ?hexes [d]"
    by (simp add: traverse_Inr_iff)
  then obtain hex where "?hexes = [hex]" "checked_sha256 (''sha256:'' @ hex) = Inr d"
    by (auto simp: list_all2_Cons2)
  then show ?thesis by (auto simp: checked_sha256_iff)
qed

lemma manifest_metadata_Inr:
  "manifest_metadata repo tag assets = Inr m \<Longrightarrow> \<exists>name. manifest_name name \<and> m = Manifest (download_url repo tag name)"
  by (auto simp: manifest_metadata_def is_manifest_def is_some_and_iff filter_eq_Cons_iff Let_def split: list.splits)

lemma trusted_digest_metadata_Inr:
  assumes "trusted_digest_metadata release repo tag asset = Inr m"
  shows "official_repo repo \<and> Option.bind (json_get release ''tag_name'') as_str = Some tag \<and>
    (\<exists>assets target. Option.bind (json_get release ''assets'') as_array = Some assets \<and>
      filter (asset_name_is asset) assets = [target] \<and>
      ((\<exists>hex. json_get target ''digest'' = Some (JStr (''sha256:'' @ hex)) \<and> sha256_text hex \<and>
          m = Digest (''sha256:'' @ to_ascii_lowercase hex)) \<or>
       (json_get target ''digest'' \<in> {None, Some JNull} \<and>
         (\<exists>name. manifest_name name \<and> m = Manifest (download_url repo tag name)))))"
proof -
  from assms obtain assets where repo: "official_repo repo"
    and tag: "Option.bind (json_get release ''tag_name'') as_str = Some tag"
    and assets: "Option.bind (json_get release ''assets'') as_array = Some assets"
    and m: "(case filter (asset_name_is asset) assets of
       [target] \<Rightarrow>
         (case json_get target ''digest'' of
            Some (JStr digest) \<Rightarrow> rbind (checked_sha256 digest) (\<lambda>d. Ok (Digest d))
          | None \<Rightarrow> manifest_metadata repo tag assets
          | Some JNull \<Rightarrow> manifest_metadata repo tag assets
          | _ \<Rightarrow> Err InvalidDigestMetadata)
     | _ \<Rightarrow> Err AssetAmbiguous) = Inr m" unfolding trusted_digest_metadata_def by auto
  obtain target where target: "filter (asset_name_is asset) assets = [target]"
    using m by (cases "filter (asset_name_is asset) assets"; cases "tl (filter (asset_name_is asset) assets)") auto
  have "(\<exists>hex. json_get target ''digest'' = Some (JStr (''sha256:'' @ hex)) \<and> sha256_text hex \<and>
          m = Digest (''sha256:'' @ to_ascii_lowercase hex)) \<or>
       (json_get target ''digest'' \<in> {None, Some JNull} \<and> manifest_metadata repo tag assets = Inr m)"
    using m by (auto simp: target checked_sha256_iff split: option.splits json.splits)
  with repo tag assets target manifest_metadata_Inr show ?thesis by blast
qed

text \<open>C30: a checksum that is returned for an asset is a well-formed lower-case SHA-256 checksum that the
  release itself states: the repository is one of the two official ones, the metadata of exactly the requested
  tag names exactly one asset of this name, and the checksum is the digest of that asset or, when it has none,
  the only entry for the asset in a manifest of at most one mebibyte served from the download URL of the same
  repository and tag.\<close>

theorem digest_comes_from_release:
  assumes "fetch_trusted_release_digest net repo tag asset = Inr d"
  shows "\<exists>hex status release assets target.
    d = ''sha256:'' @ to_ascii_lowercase hex \<and> sha256_text hex \<and> official_repo repo \<and>
    rn_release net (release_url repo tag) = Some (status, Some release) \<and>
    Option.bind (json_get release ''tag_name'') as_str = Some tag \<and>
    Option.bind (json_get release ''assets'') as_array = Some assets \<and>
    filter (asset_name_is asset) assets = [target] \<and>
    (json_get target ''digest'' = Some (JStr (''sha256:'' @ hex)) \<or>
     json_get target ''digest'' \<in> {None, Some JNull} \<and>
     (\<exists>name chunks. manifest_name name \<and> rn_manifest net (download_url repo tag name) = Some chunks \<and>
       length (concat (map the chunks)) \<le> manifest_limit \<and>
       filter_map (line_digest asset) (str_lines (concat (map the chunks))) = [hex]))"
proof -
  from assms obtain status release m where
    r: "rn_release net (release_url repo tag) = Some (status, Some release)"
    and m: "trusted_digest_metadata release repo tag asset = Inr m"
    and d: "(case m of Digest digest \<Rightarrow> Ok digest
     | Manifest url \<Rightarrow>
         rbind (ok_or (rn_manifest net url) ManifestRequest) (\<lambda>chunks.
         rbind (collect_chunks manifest_limit ManifestStream ManifestTooLarge [] chunks) (\<lambda>bytes.
         rbind (guard (is_utf8 bytes) ManifestNotUtf8) (\<lambda>_. manifest_sha256 bytes asset)))) = Inr d"
    unfolding fetch_trusted_release_digest_def by auto
  note md = trusted_digest_metadata_Inr [OF m]
  show ?thesis
  proof (cases m)
    case (Digest digest)
    with md d r show ?thesis by fastforce
  next
    case (Manifest url)
    with d obtain chunks bytes where
      chunks: "rn_manifest net url = Some chunks"
      "collect_chunks manifest_limit ManifestStream ManifestTooLarge [] chunks = Inr bytes"
      and sha: "manifest_sha256 bytes asset = Inr d" by auto
    from collect_chunks_Inr [OF chunks(2)]
    have bytes: "bytes = concat (map the chunks)" "length bytes \<le> manifest_limit" by auto
    from manifest_sha256_Inr [OF sha] obtain hex where
      hex: "filter_map (line_digest asset) (str_lines bytes) = [hex]" "sha256_text hex"
      "d = ''sha256:'' @ to_ascii_lowercase hex" by blast
    from md Manifest chunks(1) r hex bytes show ?thesis by fastforce
  qed
qed

definition sample_release_net :: release_net where
  "sample_release_net =
     \<lparr>rn_release = (\<lambda>_. Some (200, Some (JObj [(''assets'', JArr [JObj
        [(''digest'', JStr (''sha256:'' @ replicate 64 (CHR ''A''))), (''name'', JStr ''core.gz'')]]),
        (''tag_name'', JStr ''v1.19.32'')]))),
      rn_manifest = (\<lambda>_. None)\<rparr>"

theorem digest_comes_from_release_witness:
  "\<exists>hex status release assets target.
    ''sha256:'' @ replicate 64 (CHR ''a'') = ''sha256:'' @ to_ascii_lowercase hex \<and> sha256_text hex \<and>
    official_repo ''MetaCubeX/mihomo'' \<and>
    rn_release sample_release_net (release_url ''MetaCubeX/mihomo'' ''v1.19.32'') = Some (status, Some release) \<and>
    Option.bind (json_get release ''tag_name'') as_str = Some ''v1.19.32'' \<and>
    Option.bind (json_get release ''assets'') as_array = Some assets \<and>
    filter (asset_name_is ''core.gz'') assets = [target] \<and>
    (json_get target ''digest'' = Some (JStr (''sha256:'' @ hex)) \<or>
     json_get target ''digest'' \<in> {None, Some JNull} \<and>
     (\<exists>name chunks. manifest_name name \<and>
       rn_manifest sample_release_net (download_url ''MetaCubeX/mihomo'' ''v1.19.32'' name) = Some chunks \<and>
       length (concat (map the chunks)) \<le> manifest_limit \<and>
       filter_map (line_digest ''core.gz'') (str_lines (concat (map the chunks))) = [hex]))"
proof (rule digest_comes_from_release)
  have lower: "to_ascii_lowercase (replicate 64 (CHR ''A'')) = replicate 64 (CHR ''a'')"
    by (simp add: to_ascii_lowercase_def ascii_lower_char_def is_ascii_upper_def)
  have "sha256_text (replicate 64 (CHR ''A''))"
    by (simp add: sha256_text_def is_ascii_hexdigit_def list_all_iff)
  then show "fetch_trusted_release_digest sample_release_net ''MetaCubeX/mihomo'' ''v1.19.32'' ''core.gz'' =
      Inr (''sha256:'' @ replicate 64 (CHR ''a''))"
    using lower by (simp add: fetch_trusted_release_digest_def sample_release_net_def trusted_digest_metadata_def
        official_repo_def checked_sha256_def asset_name_is_def obj_get_def del: replicate.simps)
qed

text \<open>The description of the network never contains a character that introduces credentials, a query or a
  fragment.\<close>

theorem network_description_has_no_credentials:
  "CHR ''@'' \<notin> set (describe_network parse proxy) \<and> CHR ''?'' \<notin> set (describe_network parse proxy) \<and>
   CHR ''#'' \<notin> set (describe_network parse proxy)"
proof (cases proxy)
  case (Some p)
  show ?thesis
  proof (cases "sanitize_proxy_endpoint parse p")
    case None
    then show ?thesis by (simp add: describe_network_def Some)
  next
    case (Some e)
    then have "\<not> list_ex (\<lambda>c. c \<in> set ''@?#'') e"
      by (auto simp: sanitize_proxy_endpoint_def Let_def bind_eq_Some_conv split: if_splits option.splits)
    then have "CHR ''@'' \<notin> set e" "CHR ''?'' \<notin> set e" "CHR ''#'' \<notin> set e" by (auto simp: list_ex_iff)
    then show ?thesis by (simp add: describe_network_def \<open>proxy = Some p\<close> Some)
  qed
qed (simp add: describe_network_def)

end
