(* ===== verification/Core_Binary.thy ===== *)
theory Core_Binary
  imports Lifecycle Release_Digest "HOL-Library.AList"
begin

text \<open>
  Finding and installing a core (\<open>mihomo_manager/binary.rs\<close>, \<open>singbox_binary.rs\<close>): the candidates in their
  order of preference, the checks before a candidate is used, the confirmed download and the publication of a
  verified payload with its receipt.

  A path is a directory and a file name. The disk is a map from paths to nodes; what a program answers when
  it is asked for its version, a checksum, the decompression of an archive and the outcomes of writes are
  arguments.
\<close>

section \<open>Files\<close>

record cpath =
  cp_dir :: string
  cp_name :: string

record node =
  nd_regular :: bool
  nd_mode :: "32 word"
  nd_bytes :: "string option" \<comment> \<open>\<open>None\<close>: reading fails\<close>

type_synonym core_disk = "(cpath \<times> node) list"

definition node_at :: "core_disk \<Rightarrow> cpath \<Rightarrow> node option" where
  "node_at disk p = map_of disk p"

definition put_node :: "cpath \<Rightarrow> node \<Rightarrow> core_disk \<Rightarrow> core_disk" where
  "put_node p n disk = AList.update p n disk"

definition remove_node :: "cpath \<Rightarrow> core_disk \<Rightarrow> core_disk" where
  "remove_node p disk = AList.delete p disk"

lemma node_at_put [simp]: "node_at (put_node p n disk) q = (if q = p then Some n else node_at disk q)"
  by (simp add: node_at_def put_node_def update_conv')

lemma node_at_remove [simp]: "node_at (remove_node p disk) q = (if q = p then None else node_at disk q)"
  by (simp add: node_at_def remove_node_def delete_conv')

text \<open>\<open>Path::file_stem\<close> and \<open>Path::with_extension\<close> on a file name.\<close>

definition file_stem :: "string \<Rightarrow> string" where
  "file_stem name =
     (if name = ''..'' then name
      else case rsplit_once CHR ''.'' name of
        None \<Rightarrow> name
      | Some (before, after) \<Rightarrow> if before = [] then name else before)"

definition with_extension :: "string \<Rightarrow> cpath \<Rightarrow> cpath" where
  "with_extension ext p =
     p\<lparr>cp_name := file_stem (cp_name p) @ (if ext = [] then [] else ''.'' @ ext)\<rparr>"

definition with_file_name :: "string \<Rightarrow> cpath \<Rightarrow> cpath" where
  "with_file_name name p = p\<lparr>cp_name := name\<rparr>"

datatype text_read = Found string | Missing | Unreadable

definition read_to_string :: "core_disk \<Rightarrow> cpath \<Rightarrow> text_read" where
  "read_to_string disk p =
     (case node_at disk p of
        None \<Rightarrow> Missing
      | Some n \<Rightarrow> (case nd_bytes n of Some b \<Rightarrow> if is_utf8 b then Found b else Unreadable | None \<Rightarrow> Unreadable))"

definition read_bytes :: "core_disk \<Rightarrow> cpath \<Rightarrow> string option" where
  "read_bytes disk p = Option.bind (node_at disk p) nd_bytes"

section \<open>Versions and paths\<close>

definition target_version :: "core_kind \<Rightarrow> string" where
  "target_version kind = (case kind of Mihomo \<Rightarrow> ''v1.19.32'' | SingBox \<Rightarrow> ''v1.14.2'')"

definition managed_binary_path :: "string option \<Rightarrow> string option \<Rightarrow> string \<Rightarrow> cpath" where
  "managed_binary_path xdg_data_home home name =
     (let below = (\<lambda>base rel. if base = [] \<or> ends_with base ''/'' then base @ rel else base @ ''/'' @ rel) in
      case xdg_data_home of
        Some data_dir \<Rightarrow> \<lparr>cp_dir = below data_dir ''clash-verge-cli'', cp_name = name\<rparr>
      | None \<Rightarrow> \<lparr>cp_dir = below (unwrap_or home []) ''.local/share/clash-verge-cli'', cp_name = name\<rparr>)"

definition managed_path :: "string option \<Rightarrow> string option \<Rightarrow> core_kind \<Rightarrow> cpath" where
  "managed_path xdg_data_home home kind =
     managed_binary_path xdg_data_home home (case kind of Mihomo \<Rightarrow> ''mihomo'' | SingBox \<Rightarrow> ''sing-box'')"

definition versioned_path :: "cpath \<Rightarrow> core_kind \<Rightarrow> cpath" where
  "versioned_path p kind = with_file_name (cp_name p @ ''-'' @ target_version kind) p"

definition is_executable_file :: "core_disk \<Rightarrow> cpath \<Rightarrow> bool" where
  "is_executable_file disk p \<longleftrightarrow> is_some_and (node_at disk p) (\<lambda>n. nd_regular n \<and> and (nd_mode n) 0x49 \<noteq> 0)"

text \<open>The system candidates in order; a path met twice is looked at once.\<close>

definition system_candidates :: "core_disk \<Rightarrow> cpath list \<Rightarrow> cpath list" where
  "system_candidates disk paths = filter (is_executable_file disk) (dedup paths)"

definition named_dirs :: "string option \<Rightarrow> string list" where
  "named_dirs executable_dir = cat_options [executable_dir, Some ''/usr/bin'', Some ''/usr/local/bin'']"

definition system_mihomo_candidates :: "core_disk \<Rightarrow> string option \<Rightarrow> cpath list" where
  "system_mihomo_candidates disk executable_dir =
     system_candidates disk (map (\<lambda>d. \<lparr>cp_dir = d, cp_name = ''verge-mihomo''\<rparr>) (named_dirs executable_dir))"

definition system_singbox_candidates :: "core_disk \<Rightarrow> string option \<Rightarrow> string list option \<Rightarrow> cpath list" where
  "system_singbox_candidates disk executable_dir path_var =
     system_candidates disk
       (map (\<lambda>d. \<lparr>cp_dir = d, cp_name = ''verge-sing-box''\<rparr>) (named_dirs executable_dir) @
        map (\<lambda>d. \<lparr>cp_dir = d, cp_name = ''sing-box''\<rparr>) (unwrap_or path_var []))"

text \<open>The names in a directory; \<open>unlisted\<close> holds the directories that cannot be read.\<close>

definition dir_names :: "core_disk \<Rightarrow> string \<Rightarrow> string list" where
  "dir_names disk dir = remdups (map (cp_name \<circ> fst) (filter (\<lambda>(p, _). cp_dir p = dir) disk))"

definition is_candidate_name :: "(string \<Rightarrow> bool) \<Rightarrow> string \<Rightarrow> string \<Rightarrow> bool" where
  "is_candidate_name uuid_ok qualified name \<longleftrightarrow>
     is_some_and (strip_prefix (qualified @ ''.candidate-'') name) uuid_ok"

definition managed_candidates :: "(string \<Rightarrow> bool) \<Rightarrow> string list \<Rightarrow> core_disk \<Rightarrow> cpath \<Rightarrow> core_kind \<Rightarrow> cpath list" where
  "managed_candidates uuid_ok unlisted disk managed kind =
     (let qualified = versioned_path managed kind;
          siblings = (if cp_dir qualified \<in> set unlisted then []
            else map (\<lambda>name. with_file_name name qualified)
                   (sort (filter (is_candidate_name uuid_ok (cp_name qualified)) (dir_names disk (cp_dir qualified)))))
      in qualified # siblings @ [managed])"

definition acquisition_destination :: "string \<Rightarrow> core_disk \<Rightarrow> cpath \<Rightarrow> core_kind \<Rightarrow> cpath" where
  "acquisition_destination new_uuid disk managed kind =
     (let qualified = versioned_path managed kind in
      if node_at disk qualified \<noteq> None
      then with_file_name (cp_name qualified @ ''.candidate-'' @ new_uuid) qualified
      else qualified)"

definition candidate_from_paths ::
  "(string \<Rightarrow> bool) \<Rightarrow> string list \<Rightarrow> core_disk \<Rightarrow> cpath option \<Rightarrow> cpath \<Rightarrow> core_kind \<Rightarrow> cpath option" where
  "candidate_from_paths uuid_ok unlisted disk system managed kind =
     or_else system (find (\<lambda>p. is_some_and (node_at disk p) nd_regular)
       (managed_candidates uuid_ok unlisted disk managed kind))"

section \<open>Errors\<close>

datatype core_error =
    MetadataFailed
  | NotExecutable
  | NoReceipt
  | ReadFailed
  | ReceiptUnreadable cpath
  | NotElf nat
  | ProbeTimedOut
  | ProbeNotExecuted
  | ProbeExited string
  | VersionOmitted
  | VersionUnusable version_error
  | OutputLine string version_error
  | VersionsConflict "string list"
  | DigestFormat string
  | ChecksumText
  | DigestMismatch string string
  | TargetNotExecutable
  | TargetUnverified
  | OtherCore
  | LockFailed
  | ReviewNeeded
  | UnsupportedArchitecture
  | ClientFailed
  | TrustedDigest digest_error
  | DownloadFailed
  | StreamFailed
  | ArchiveTooLarge
  | DecompressionFailed
  | TarFailed
  | NoBinary
  | PayloadTooLarge
  | StagingFailed
  | ReportsOther string
  | InstallFailed

section \<open>What a core answers\<close>

text \<open>The outcome of the process asked for its version: output is given as text.\<close>

datatype version_probe = TimedOut | ExecFailed | Exited bool string string

definition version_token :: "string \<Rightarrow> string option" where
  "version_token token =
     (let trimmed = rev (dropWhile (\<lambda>c. \<not> is_ascii_alphanumeric c \<and> c \<noteq> CHR ''.'' \<and> c \<noteq> CHR ''-'')
            (rev (dropWhile (\<lambda>c. \<not> is_ascii_alphanumeric c \<and> c \<noteq> CHR ''.'' \<and> c \<noteq> CHR ''-'') token)));
          candidate = (if starts_with trimmed ''v'' then Some trimmed
            else case trimmed of
              c # _ \<Rightarrow> if is_ascii_digit c then Some (''v'' @ trimmed) else None
            | [] \<Rightarrow> None)
      in opt_filter (\<lambda>v. is_ok (parse_version v)) candidate)"

definition all_same :: "string list \<Rightarrow> bool" where
  "all_same found \<longleftrightarrow> list_all (\<lambda>v. v = hd found) found"

definition extract_version_token :: "string \<Rightarrow> string option" where
  "extract_version_token output =
     (let found = filter_map version_token (split_whitespace output) in
      if found = [] \<or> \<not> all_same found then None else Some (hd found))"

text \<open>A line of the output of sing-box that states a version.\<close>

definition singbox_line :: "string \<Rightarrow> string option" where
  "singbox_line l =
     (let line = trim l in
      or_else (map_option trim (strip_prefix ''Version:'' line))
        (map_option (\<lambda>s. case split_whitespace s of w # _ \<Rightarrow> w | [] \<Rightarrow> []) (strip_prefix ''sing-box version '' line)))"

definition parse_singbox_version_output :: "string \<Rightarrow> (string, core_error) result" where
  "parse_singbox_version_output output =
     rbind (traverse (\<lambda>(line, v). let value = dropWhile (\<lambda>c. c = CHR ''v'') v in
         rbind (map_err (OutputLine line) (parse_version value)) (\<lambda>_. Ok value))
       (filter_map (\<lambda>l. map_option (\<lambda>v. (trim l, v)) (singbox_line l)) (str_lines output))) (\<lambda>found.
     if found = [] then Err VersionOmitted
     else if \<not> all_same found then Err (VersionsConflict found)
     else Ok (hd found))"

definition read_mihomo_version :: "version_probe \<Rightarrow> (string option, core_error) result" where
  "read_mihomo_version out =
     (case out of
        TimedOut \<Rightarrow> Err ProbeTimedOut
      | ExecFailed \<Rightarrow> Err ProbeNotExecuted
      | Exited success stdout stderr \<Rightarrow>
          if \<not> success then Err (ProbeExited (trim stderr)) else Ok (extract_version_token (stdout @ stderr)))"

definition read_singbox_version :: "version_probe \<Rightarrow> (string option, core_error) result" where
  "read_singbox_version out =
     (case out of
        TimedOut \<Rightarrow> Err ProbeTimedOut
      | ExecFailed \<Rightarrow> Err ProbeNotExecuted
      | Exited success stdout stderr \<Rightarrow>
          if \<not> success then Err (ProbeExited (trim stderr))
          else rbind (parse_singbox_version_output stdout) (\<lambda>v. Ok (Some v)))"

definition read_core_version :: "core_kind \<Rightarrow> version_probe \<Rightarrow> (string option, core_error) result" where
  "read_core_version kind = (case kind of Mihomo \<Rightarrow> read_mihomo_version | SingBox \<Rightarrow> read_singbox_version)"

section \<open>Digests and receipts\<close>

definition digest_receipt_path :: "cpath \<Rightarrow> string \<Rightarrow> cpath" where
  "digest_receipt_path p digest_hex = with_extension (''sha256.'' @ digest_hex) p"

definition verify_sha256_digest :: "string \<Rightarrow> string \<Rightarrow> (unit, core_error) result" where
  "verify_sha256_digest actual expected =
     rbind (ok_or (strip_prefix ''sha256:'' expected) (DigestFormat expected)) (\<lambda>expected_hex.
     let actual_hex = unwrap_or (strip_prefix ''sha256:'' actual) actual in
     rbind (guard (sha256_text expected_hex) ChecksumText) (\<lambda>_.
     guard (eq_ignore_ascii_case actual_hex expected_hex) (DigestMismatch expected_hex actual_hex)))"

definition verify_sha256 :: "(string \<Rightarrow> string) \<Rightarrow> string \<Rightarrow> string \<Rightarrow> (unit, core_error) result" where
  "verify_sha256 sha bytes expected = verify_sha256_digest (''sha256:'' @ sha bytes) expected"

definition verify_cached_digest :: "(string \<Rightarrow> string) \<Rightarrow> core_disk \<Rightarrow> cpath \<Rightarrow> (bool, core_error) result" where
  "verify_cached_digest sha disk p =
     rbind (ok_or (read_bytes disk p) ReadFailed) (\<lambda>bytes.
     let expected = sha bytes; qualified_receipt = digest_receipt_path p expected in
     case read_to_string disk qualified_receipt of
       Found v \<Rightarrow> Ok (trim v = ''sha256:'' @ expected)
     | Unreadable \<Rightarrow> Err (ReceiptUnreadable qualified_receipt)
     | Missing \<Rightarrow>
         (let legacy_receipt = with_extension ''sha256'' p in
          case read_to_string disk legacy_receipt of
            Found v \<Rightarrow> Ok (is_ok (verify_sha256 sha bytes (trim v)))
          | Missing \<Rightarrow> Ok False
          | Unreadable \<Rightarrow> Err (ReceiptUnreadable legacy_receipt)))"

definition elf_magic :: string where "elf_magic = [CHR 0x7F, CHR ''E'', CHR ''L'', CHR ''F'']"

definition ensure_elf :: "string \<Rightarrow> (unit, core_error) result" where
  "ensure_elf bytes = guard (starts_with bytes elf_magic) (NotElf (length bytes))"

section \<open>Inspection\<close>

record prepared_core =
  pr_kind :: core_kind
  pr_path :: cpath
  pr_source :: string
  pr_version :: string

text \<open>The messages of an inspection keep what they are formatted from.\<close>

datatype diagnostic =
    Outdated string cpath string
  | Unclassified string cpath string version_error
  | Unusable string cpath core_error

datatype review = Refused cpath string version_policy

record core_update_request =
  rq_kind :: core_kind
  rq_observed :: "string option"
  rq_source :: string
  rq_required :: string
  rq_destination :: cpath
  rq_diagnostic :: "diagnostic list" \<comment> \<open>empty: the core is missing\<close>

datatype core_inspection = CoreReady prepared_core | NeedsUpdate core_update_request | Review "review list"

definition check_regular_executable :: "core_disk \<Rightarrow> cpath \<Rightarrow> core_error \<Rightarrow> (node, core_error) result" where
  "check_regular_executable disk p e =
     rbind (ok_or (node_at disk p) MetadataFailed) (\<lambda>n.
     rbind (guard (nd_regular n \<and> and (nd_mode n) 0x49 \<noteq> 0) e) (\<lambda>_. Ok n))"

text \<open>The first four bytes.\<close>

definition check_magic :: "core_disk \<Rightarrow> cpath \<Rightarrow> (unit, core_error) result" where
  "check_magic disk p =
     rbind (ok_or (read_bytes disk p) ReadFailed) (\<lambda>bytes.
     rbind (guard (4 \<le> length bytes) ReadFailed) (\<lambda>_. ensure_elf (take 4 bytes)))"

text \<open>The checks of a candidate before its version is used; \<open>answer\<close> is what the program at a path answers.\<close>

definition check_candidate ::
  "(string \<Rightarrow> string) \<Rightarrow> (cpath \<Rightarrow> version_probe) \<Rightarrow> core_disk \<Rightarrow> core_kind \<Rightarrow> cpath \<Rightarrow> bool \<Rightarrow>
     (string, core_error) result" where
  "check_candidate sha answer disk kind p needs_receipt =
     rbind (check_regular_executable disk p NotExecutable) (\<lambda>_.
     rbind (if needs_receipt then rbind (verify_cached_digest sha disk p) (\<lambda>ok. guard ok NoReceipt) else Ok ()) (\<lambda>_.
     rbind (check_magic disk p) (\<lambda>_.
     rbind (rbind (read_core_version kind (answer p)) (\<lambda>v. ok_or v VersionOmitted)) (\<lambda>version.
     rbind (map_err VersionUnusable (parse_version version)) (\<lambda>_. Ok version)))))"

record scan_state =
  sc_ready :: "prepared_core option"
  sc_observed :: "string option"
  sc_source :: string
  sc_diagnostics :: "diagnostic list"
  sc_reviews :: "review list"

definition scan_start :: scan_state where
  "scan_start = \<lparr>sc_ready = None, sc_observed = None, sc_source = ''missing'', sc_diagnostics = [], sc_reviews = []\<rparr>"

type_synonym candidate = "cpath \<times> string \<times> bool"

text \<open>What the loop of \<open>inspect_candidates\<close> does with the result of a candidate.\<close>

definition scan_result ::
  "core_kind \<Rightarrow> cpath \<Rightarrow> string \<Rightarrow> (string, core_error) result \<Rightarrow> scan_state \<Rightarrow> scan_state" where
  "scan_result kind p source r st =
     (case r of
        Inl e \<Rightarrow> st\<lparr>sc_diagnostics := sc_diagnostics st @ [Unusable source p e]\<rparr>
      | Inr version \<Rightarrow>
          (case classify version (target_version kind) of
             Inl e \<Rightarrow> st\<lparr>sc_diagnostics := sc_diagnostics st @ [Unclassified source p version e]\<rparr>
           | Inr policy \<Rightarrow>
               if is_usable policy then
                 (if sc_ready st = None
                  then st\<lparr>sc_ready := Some \<lparr>pr_kind = kind, pr_path = p, pr_source = source, pr_version = version\<rparr>\<rparr>
                  else st)
               else if policy = OlderThanPinned then
                 (let st = st\<lparr>sc_diagnostics := sc_diagnostics st @ [Outdated source p version]\<rparr> in
                  if sc_observed st = None then st\<lparr>sc_observed := Some version, sc_source := source\<rparr> else st)
               else st\<lparr>sc_reviews := sc_reviews st @ [Refused p version policy]\<rparr>))"

fun scan_candidates ::
  "(string \<Rightarrow> string) \<Rightarrow> (cpath \<Rightarrow> version_probe) \<Rightarrow> core_disk \<Rightarrow> core_kind \<Rightarrow> candidate list \<Rightarrow> scan_state \<Rightarrow> scan_state" where
  "scan_candidates sha answer disk kind [] st = st"
| "scan_candidates sha answer disk kind ((p, source, needs_receipt) # rest) st =
     (if node_at disk p = None then scan_candidates sha answer disk kind rest st
      else scan_candidates sha answer disk kind rest
        (scan_result kind p source (check_candidate sha answer disk kind p needs_receipt) st))"

text \<open>The code and the state of the system an inspection relies on, beside the disk.\<close>

record core_env =
  ce_sha :: "string \<Rightarrow> string"
  ce_answer :: "cpath \<Rightarrow> version_probe"
  ce_uuid_ok :: "string \<Rightarrow> bool"
  ce_unlisted :: "string list"
  ce_executable_dir :: "string option"
  ce_path_var :: "string list option"
  ce_xdg_data_home :: "string option"
  ce_home :: "string option"

definition candidate_list :: "core_env \<Rightarrow> core_disk \<Rightarrow> core_kind \<Rightarrow> cpath list \<Rightarrow> cpath \<Rightarrow> candidate list" where
  "candidate_list env disk kind systems managed =
     map (\<lambda>p. (p, ''system'', False)) systems @
     map (\<lambda>p. (p, ''cached'', True)) (managed_candidates (ce_uuid_ok env) (ce_unlisted env) disk managed kind)"

definition inspect_candidates ::
  "core_env \<Rightarrow> core_disk \<Rightarrow> core_kind \<Rightarrow> cpath list \<Rightarrow> cpath \<Rightarrow> core_inspection" where
  "inspect_candidates env disk kind systems managed =
     (let st = scan_candidates (ce_sha env) (ce_answer env) disk kind (candidate_list env disk kind systems managed) scan_start
      in if sc_reviews st \<noteq> [] then Review (sc_reviews st)
         else case sc_ready st of
           Some candidate \<Rightarrow> CoreReady candidate
         | None \<Rightarrow> NeedsUpdate
             \<lparr>rq_kind = kind, rq_observed = sc_observed st, rq_source = sc_source st,
              rq_required = target_version kind, rq_destination = versioned_path managed kind,
              rq_diagnostic = sc_diagnostics st\<rparr>)"

definition system_paths :: "core_env \<Rightarrow> core_disk \<Rightarrow> core_kind \<Rightarrow> cpath list" where
  "system_paths env disk kind =
     (case kind of
        Mihomo \<Rightarrow> system_mihomo_candidates disk (ce_executable_dir env)
      | SingBox \<Rightarrow> system_singbox_candidates disk (ce_executable_dir env) (ce_path_var env))"

definition managed_core_path :: "core_env \<Rightarrow> core_kind \<Rightarrow> cpath" where
  "managed_core_path env kind = managed_path (ce_xdg_data_home env) (ce_home env) kind"

definition inspect_core :: "core_env \<Rightarrow> core_disk \<Rightarrow> core_kind \<Rightarrow> core_inspection" where
  "inspect_core env disk kind =
     inspect_candidates env disk kind (system_paths env disk kind) (managed_core_path env kind)"

definition inspect_exact_with ::
  "core_env \<Rightarrow> core_disk \<Rightarrow> core_kind \<Rightarrow> cpath \<Rightarrow> bool \<Rightarrow> (prepared_core, core_error) result" where
  "inspect_exact_with env disk kind p needs_receipt =
     rbind (check_candidate (ce_sha env) (ce_answer env) disk kind p needs_receipt) (\<lambda>version.
     Ok \<lparr>pr_kind = kind, pr_path = p, pr_source = ''selected'', pr_version = version\<rparr>)"

definition inspect_exact ::
  "core_env \<Rightarrow> core_disk \<Rightarrow> core_kind \<Rightarrow> cpath \<Rightarrow> (prepared_core, core_error) result" where
  "inspect_exact env disk kind p =
     inspect_exact_with env disk kind p (cp_dir p = cp_dir (managed_core_path env kind))"

text \<open>\<open>validate_permission_target\<close> reads the whole file before it looks at the magic number.\<close>

definition validate_permission_target ::
  "(string \<Rightarrow> string) \<Rightarrow> core_disk \<Rightarrow> cpath \<Rightarrow> prepared_core \<Rightarrow> (unit, core_error) result" where
  "validate_permission_target sha disk managed prepared =
     (let p = pr_path prepared in
      rbind (check_regular_executable disk p TargetNotExecutable) (\<lambda>_.
      rbind (ok_or (read_bytes disk p) ReadFailed) (\<lambda>bytes.
      rbind (ensure_elf bytes) (\<lambda>_.
      if pr_source prepared = ''cached'' \<or> pr_source prepared = ''downloaded'' \<or> cp_dir p = cp_dir managed then
        (let expected = sha bytes; qualified = digest_receipt_path p expected in
         rbind (case read_to_string disk qualified of
             Found v \<Rightarrow> Ok (trim v = ''sha256:'' @ expected)
           | Missing \<Rightarrow>
               Ok (case read_to_string disk (with_extension ''sha256'' p) of
                     Found v \<Rightarrow> is_ok (verify_sha256 sha bytes (trim v))
                   | _ \<Rightarrow> False)
           | Unreadable \<Rightarrow> Err (ReceiptUnreadable qualified)) (\<lambda>verified.
         guard verified TargetUnverified))
      else Ok ()))))"

subsection \<open>What an inspection decides\<close>

text \<open>The policy of a candidate that exists and passes its checks.\<close>

definition candidate_policy :: "core_env \<Rightarrow> core_disk \<Rightarrow> core_kind \<Rightarrow> candidate \<Rightarrow> (string \<times> version_policy) option" where
  "candidate_policy env disk kind c =
     (case c of (p, source, needs_receipt) \<Rightarrow>
        if node_at disk p = None then None
        else (case check_candidate (ce_sha env) (ce_answer env) disk kind p needs_receipt of
            Inl _ \<Rightarrow> None
          | Inr version \<Rightarrow>
              (case classify version (target_version kind) of Inl _ \<Rightarrow> None | Inr policy \<Rightarrow> Some (version, policy))))"

definition prepared_of :: "core_env \<Rightarrow> core_disk \<Rightarrow> core_kind \<Rightarrow> candidate \<Rightarrow> prepared_core option" where
  "prepared_of env disk kind c =
     (case candidate_policy env disk kind c of
        Some (version, policy) \<Rightarrow>
          if is_usable policy
          then Some \<lparr>pr_kind = kind, pr_path = fst c, pr_source = fst (snd c), pr_version = version\<rparr> else None
      | None \<Rightarrow> None)"

definition needs_review :: "core_env \<Rightarrow> core_disk \<Rightarrow> core_kind \<Rightarrow> candidate \<Rightarrow> bool" where
  "needs_review env disk kind c \<longleftrightarrow>
     is_some_and (candidate_policy env disk kind c) (\<lambda>(_, policy). policy = Prerelease \<or> policy = UnsupportedMajor)"

lemma or_else_right_None: "or_else x None = x"
  by (cases x) auto

lemma scan_candidates_outcome:
  "sc_reviews (scan_candidates (ce_sha env) (ce_answer env) disk kind cs st) = [] \<longleftrightarrow>
     sc_reviews st = [] \<and> \<not> list_ex (needs_review env disk kind) cs"
  "sc_ready (scan_candidates (ce_sha env) (ce_answer env) disk kind cs st) =
     or_else (sc_ready st) (case filter_map (prepared_of env disk kind) cs of [] \<Rightarrow> None | r # _ \<Rightarrow> Some r)"
proof (induction cs arbitrary: st)
  case (Cons c cs)
  obtain p source needs where c: "c = (p, source, needs)" by (cases c) auto
  let ?st = "\<lambda>st. scan_result kind p source (check_candidate (ce_sha env) (ce_answer env) disk kind p needs) st"
  have step: "node_at disk p \<noteq> None \<Longrightarrow> (sc_reviews (?st st) = [] \<longleftrightarrow> sc_reviews st = [] \<and> \<not> needs_review env disk kind c) \<and>
      sc_ready (?st st) = or_else (sc_ready st) (prepared_of env disk kind c)" for st
    by (auto simp: scan_result_def needs_review_def prepared_of_def candidate_policy_def c is_usable_def Let_def
        or_else_right_None split: sum.splits option.splits version_policy.splits)
       (metis version_policy.exhaust)+
  have missing: "node_at disk p = None \<Longrightarrow> \<not> needs_review env disk kind c \<and> prepared_of env disk kind c = None"
    by (simp add: needs_review_def prepared_of_def candidate_policy_def c)
  have scan: "scan_candidates (ce_sha env) (ce_answer env) disk kind (c # cs) st =
      scan_candidates (ce_sha env) (ce_answer env) disk kind cs (if node_at disk p = None then st else ?st st)" for st
    by (simp add: c)
  { case (1 st) show ?case
      using step [of st] missing by (cases "node_at disk p = None") (auto simp: scan Cons.IH) }
  { case (2 st) show ?case
      using step [of st] missing
      by (cases "node_at disk p = None"; cases "sc_ready st") (auto simp: scan Cons.IH split: option.splits) }
qed (simp_all add: or_else_right_None)

lemma inspect_candidates_alt:
  "inspect_candidates env disk kind systems managed =
     (let cs = candidate_list env disk kind systems managed;
          st = scan_candidates (ce_sha env) (ce_answer env) disk kind cs scan_start in
      if list_ex (needs_review env disk kind) cs then Review (sc_reviews st)
      else case filter_map (prepared_of env disk kind) cs of
        candidate # _ \<Rightarrow> CoreReady candidate
      | [] \<Rightarrow> NeedsUpdate
          \<lparr>rq_kind = kind, rq_observed = sc_observed st, rq_source = sc_source st, rq_required = target_version kind,
           rq_destination = versioned_path managed kind, rq_diagnostic = sc_diagnostics st\<rparr>)"
  by (auto simp: inspect_candidates_def scan_candidates_outcome scan_start_def Let_def split: list.splits)

text \<open>C28: an inspection offers nothing when any candidate that passes its checks reports a prerelease or
  another major version; otherwise it offers the first usable candidate in the order of preference (system
  paths, the versioned managed path, its replacements, the plain managed path), and asks for a download only
  when none is usable.\<close>

theorem inspection_exact:
  "inspect_candidates env disk kind systems managed =
     (let cs = candidate_list env disk kind systems managed;
          st = scan_candidates (ce_sha env) (ce_answer env) disk kind cs scan_start in
      if list_ex (needs_review env disk kind) cs then Review (sc_reviews st)
      else case filter_map (prepared_of env disk kind) cs of
        candidate # _ \<Rightarrow> CoreReady candidate
      | [] \<Rightarrow> NeedsUpdate
          \<lparr>rq_kind = kind, rq_observed = sc_observed st, rq_source = sc_source st, rq_required = target_version kind,
           rq_destination = versioned_path managed kind, rq_diagnostic = sc_diagnostics st\<rparr>)"
  by (rule inspect_candidates_alt)

section \<open>Installation\<close>

text \<open>A step on the disk that may fail.\<close>

type_synonym 'a disk_op = "core_disk \<Rightarrow> ('a, core_error) result \<times> core_disk"

definition op_bind :: "'a disk_op \<Rightarrow> ('a \<Rightarrow> 'b disk_op) \<Rightarrow> 'b disk_op" where
  "op_bind m f disk = (case m disk of (Inl e, d) \<Rightarrow> (Inl e, d) | (Inr x, d) \<Rightarrow> f x d)"

definition op_lift :: "('a, core_error) result \<Rightarrow> 'a disk_op" where
  "op_lift r disk = (r, disk)"

definition op_update :: "(core_disk \<Rightarrow> core_disk) \<Rightarrow> unit disk_op" where
  "op_update f disk = (Ok (), f disk)"

text \<open>A temporary file is removed when the operation that owns it fails.\<close>

definition op_with_temp :: "cpath \<Rightarrow> 'a disk_op \<Rightarrow> 'a disk_op" where
  "op_with_temp temp m disk =
     (case m disk of (Inl e, d) \<Rightarrow> (Inl e, remove_node temp d) | (Inr x, d) \<Rightarrow> (Inr x, d))"

lemmas op_defs = op_bind_def op_lift_def op_update_def op_with_temp_def

definition rename_node :: "cpath \<Rightarrow> cpath \<Rightarrow> core_disk \<Rightarrow> core_disk" where
  "rename_node p q disk = (case node_at disk p of Some n \<Rightarrow> put_node q n (remove_node p disk) | None \<Rightarrow> disk)"

text \<open>The outcomes of the writes of an installation: the random parts of the temporary names (\<open>None\<close>: the
  file cannot be created) and whether each step succeeds.\<close>

record install_io =
  io_mkdir :: bool
  io_stage :: "string option"
  io_write :: bool
  io_chmod :: bool
  io_receipt_stage :: "string option"
  io_receipt_write :: bool
  io_receipt_rename :: bool
  io_rename :: bool

definition temp_node :: "string \<Rightarrow> node" where
  "temp_node bytes = \<lparr>nd_regular = True, nd_mode = 0x180, nd_bytes = Some bytes\<rparr>"

definition executable_node :: "string \<Rightarrow> node" where
  "executable_node bytes = \<lparr>nd_regular = True, nd_mode = 0x1ED, nd_bytes = Some bytes\<rparr>"

definition staged_path :: "cpath \<Rightarrow> string \<Rightarrow> cpath" where
  "staged_path dest r = with_file_name (''.core-'' @ r @ ''.download'') dest"

definition receipt_temp_path :: "cpath \<Rightarrow> string \<Rightarrow> cpath" where
  "receipt_temp_path dest r = with_file_name (''.core-receipt-'' @ r) dest"

definition receipt_text :: "string \<Rightarrow> string" where
  "receipt_text digest = ''sha256:'' @ digest"

definition write_digest_receipt :: "(string \<Rightarrow> string) \<Rightarrow> install_io \<Rightarrow> cpath \<Rightarrow> string \<Rightarrow> unit disk_op" where
  "write_digest_receipt sha io binary bytes =
     (let digest = sha bytes; receipt_path = digest_receipt_path binary digest in
      op_bind (op_lift (ok_or (io_receipt_stage io) StagingFailed)) (\<lambda>r.
      let temp = receipt_temp_path binary r in
      op_bind (op_update (put_node temp (temp_node []))) (\<lambda>_.
      op_with_temp temp
        (op_bind (op_lift (guard (io_receipt_write io) StagingFailed)) (\<lambda>_.
         op_bind (op_update (put_node temp (temp_node (receipt_text digest)))) (\<lambda>_.
         op_bind (op_lift (guard (io_receipt_rename io) InstallFailed)) (\<lambda>_.
         op_update (rename_node temp receipt_path))))))))"

text \<open>\<open>ensure_executable\<close>: the mode is set unless it is already right.\<close>

definition ensure_executable :: "bool \<Rightarrow> cpath \<Rightarrow> unit disk_op" where
  "ensure_executable works p disk =
     (case node_at disk p of
        None \<Rightarrow> (Err MetadataFailed, disk)
      | Some n \<Rightarrow>
          if and (nd_mode n) 0x1FF = 0x1ED then (Ok (), disk)
          else if works then (Ok (), put_node p (n\<lparr>nd_mode := 0x1ED\<rparr>) disk) else (Err StagingFailed, disk))"

definition version_matches_target :: "string \<Rightarrow> string \<Rightarrow> bool" where
  "version_matches_target version target \<longleftrightarrow>
     (if starts_with version ''v'' then version else ''v'' @ version) = target"

definition payload_limit :: nat where "payload_limit = 512 * 1024 * 1024"

text \<open>The check of the version a staged core reports.\<close>

definition check_reported :: "core_kind \<Rightarrow> string \<Rightarrow> string \<Rightarrow> (unit, core_error) result" where
  "check_reported kind reported expected =
     (if \<not> version_matches_target reported expected then Err (ReportsOther reported)
      else rbind (map_err VersionUnusable (is_compatible (kind_as_str kind) reported (target_version kind)))
        (\<lambda>ok. guard ok (ReportsOther reported)))"

definition install_verified_payload ::
  "core_env \<Rightarrow> install_io \<Rightarrow> core_kind \<Rightarrow> cpath \<Rightarrow> string \<Rightarrow> string \<Rightarrow> string disk_op" where
  "install_verified_payload env io kind dest payload expected =
     op_bind (op_lift (guard (length payload \<le> payload_limit) PayloadTooLarge)) (\<lambda>_.
     op_bind (op_lift (ensure_elf payload)) (\<lambda>_.
     op_bind (op_lift (guard (io_mkdir io) StagingFailed)) (\<lambda>_.
     op_bind (op_lift (ok_or (io_stage io) StagingFailed)) (\<lambda>r.
     let staged = staged_path dest r in
     op_bind (op_update (put_node staged (temp_node []))) (\<lambda>_.
     op_with_temp staged
       (op_bind (op_lift (guard (io_write io) StagingFailed)) (\<lambda>_.
        op_bind (op_update (put_node staged (temp_node payload))) (\<lambda>_.
        op_bind (ensure_executable (io_chmod io) staged) (\<lambda>_.
        op_bind (op_lift (rbind (read_core_version kind (ce_answer env staged)) (\<lambda>v. ok_or v VersionOmitted))) (\<lambda>reported.
        op_bind (op_lift (check_reported kind reported expected)) (\<lambda>_.
        op_bind (write_digest_receipt (ce_sha env) io dest payload) (\<lambda>_.
        op_bind (op_lift (guard (io_rename io) InstallFailed)) (\<lambda>_.
        op_bind (op_update (rename_node staged dest)) (\<lambda>_.
        op_lift (Ok reported)))))))))))))))"

section \<open>Downloads\<close>

datatype tar_item = TarError | TarEntry bool "string option" nat "string option"

text \<open>\<open>Path::file_name\<close>: the last normal component.\<close>

definition path_file_name :: "string \<Rightarrow> string option" where
  "path_file_name p =
     (case rev (filter (\<lambda>c. c \<noteq> [] \<and> c \<noteq> ''.'') (split_on CHR ''/'' p)) of
        [] \<Rightarrow> None
      | c # _ \<Rightarrow> if c = ''..'' then None else Some c)"

fun find_singbox_entry :: "tar_item list \<Rightarrow> (string, core_error) result" where
  "find_singbox_entry [] = Err NoBinary"
| "find_singbox_entry (TarError # rest) = Err TarFailed"
| "find_singbox_entry (TarEntry regular path sz content # rest) =
     (if \<not> regular then find_singbox_entry rest
      else case path of
        None \<Rightarrow> Err TarFailed
      | Some p \<Rightarrow>
          if path_file_name p = Some ''sing-box''
          then if sz > payload_limit then Err PayloadTooLarge else ok_or content TarFailed
          else find_singbox_entry rest)"

text \<open>The network and the decompressors: the chunks served at a URL, the bytes a gzip stream decodes to
  before it ends or fails, and the entries of a tarball.\<close>

record download_io =
  dl_arch :: string
  dl_client :: bool
  dl_release :: release_net
  dl_get :: "string \<Rightarrow> string option list option"
  dl_gunzip :: "string \<Rightarrow> string \<times> bool"
  dl_untar :: "string \<Rightarrow> tar_item list option"

definition linux_asset_name :: "string \<Rightarrow> string option" where
  "linux_asset_name arch = map_of
     [(''x86_64'', ''mihomo-linux-amd64-v2''), (''aarch64'', ''mihomo-linux-arm64''),
      (''arm'', ''mihomo-linux-armv7''), (''riscv64'', ''mihomo-linux-riscv64'')] arch"

definition linux_arch_name :: "string \<Rightarrow> string option" where
  "linux_arch_name arch = map_of
     [(''x86_64'', ''amd64''), (''aarch64'', ''arm64''), (''arm'', ''armv7''), (''riscv64'', ''riscv64'')] arch"

definition archive_limit :: nat where "archive_limit = 256 * 1024 * 1024"

text \<open>The part both downloads share: the expected digest, the archive and its verification.\<close>

definition fetch_archive ::
  "(string \<Rightarrow> string) \<Rightarrow> download_io \<Rightarrow> string \<Rightarrow> string \<Rightarrow> string \<Rightarrow> (string, core_error) result" where
  "fetch_archive sha dl repo version asset_file =
     rbind (guard (dl_client dl) ClientFailed) (\<lambda>_.
     rbind (map_err TrustedDigest (fetch_trusted_release_digest (dl_release dl) repo version asset_file)) (\<lambda>expected.
     rbind (ok_or (dl_get dl (download_url repo version asset_file)) DownloadFailed) (\<lambda>chunks.
     rbind (collect_chunks archive_limit StreamFailed ArchiveTooLarge [] chunks) (\<lambda>compressed.
     rbind (verify_sha256_digest (''sha256:'' @ sha compressed) expected) (\<lambda>_. Ok compressed)))))"

text \<open>\<open>take(limit + 1).read_to_end\<close>: an error behind the limit is not seen.\<close>

definition read_limited :: "nat \<Rightarrow> string \<times> bool \<Rightarrow> string option" where
  "read_limited limit stream =
     (if length (fst stream) \<ge> limit then Some (take limit (fst stream))
      else if snd stream then Some (fst stream) else None)"

definition download_managed_mihomo ::
  "core_env \<Rightarrow> install_io \<Rightarrow> download_io \<Rightarrow> cpath \<Rightarrow> string \<Rightarrow> string disk_op" where
  "download_managed_mihomo env io dl dest version =
     op_bind (op_lift (rbind (ok_or (linux_asset_name (dl_arch dl)) UnsupportedArchitecture) (\<lambda>asset.
       rbind (fetch_archive (ce_sha env) dl ''MetaCubeX/mihomo'' version (asset @ ''-'' @ version @ ''.gz'')) (\<lambda>compressed.
       ok_or (read_limited (payload_limit + 1) (dl_gunzip dl compressed)) DecompressionFailed)))) (\<lambda>binary.
     install_verified_payload env io Mihomo dest binary version)"

definition download_managed_singbox ::
  "core_env \<Rightarrow> install_io \<Rightarrow> download_io \<Rightarrow> cpath \<Rightarrow> string \<Rightarrow> string disk_op" where
  "download_managed_singbox env io dl dest version =
     op_bind (op_lift (rbind (ok_or (linux_arch_name (dl_arch dl)) UnsupportedArchitecture) (\<lambda>arch.
       let bare = unwrap_or (strip_prefix ''v'' version) version;
           asset_dir = ''sing-box-'' @ bare @ ''-linux-'' @ arch in
       rbind (fetch_archive (ce_sha env) dl ''SagerNet/sing-box'' version (asset_dir @ ''.tar.gz'')) (\<lambda>compressed.
       rbind (ok_or (dl_untar dl compressed) TarFailed) find_singbox_entry)))) (\<lambda>payload.
     install_verified_payload env io SingBox dest payload version)"

definition download_managed ::
  "core_env \<Rightarrow> install_io \<Rightarrow> download_io \<Rightarrow> core_kind \<Rightarrow> cpath \<Rightarrow> string \<Rightarrow> string disk_op" where
  "download_managed env io dl kind =
     (case kind of Mihomo \<Rightarrow> download_managed_mihomo env io dl | SingBox \<Rightarrow> download_managed_singbox env io dl)"

section \<open>Confirmed acquisition\<close>

record download_authorization =
  au_kind :: core_kind
  au_operation_id :: u64

datatype lock_attempt = WouldBlock | Locked | LockError

text \<open>The loop polls the lock until an attempt does not block; \<open>None\<close>: it is still waiting.\<close>

fun poll_lock :: "lock_attempt list \<Rightarrow> (unit, core_error) result option" where
  "poll_lock [] = None"
| "poll_lock (WouldBlock # attempts) = poll_lock attempts"
| "poll_lock (Locked # attempts) = Some (Ok ())"
| "poll_lock (LockError # attempts) = Some (Err LockFailed)"

record lock_io =
  lk_mkdir :: bool
  lk_open :: bool
  lk_attempts :: "lock_attempt list"

definition install_lock_path :: "cpath \<Rightarrow> cpath" where
  "install_lock_path managed = with_extension ''lock'' managed"

definition lock_install :: "lock_io \<Rightarrow> cpath \<Rightarrow> core_disk \<Rightarrow> ((unit, core_error) result \<times> core_disk) option" where
  "lock_install lk managed disk =
     (let lock_path = install_lock_path managed in
      if \<not> lk_mkdir lk \<or> \<not> lk_open lk then Some (Err LockFailed, disk)
      else map_option (\<lambda>r. (r, if node_at disk lock_path = None
             then put_node lock_path \<lparr>nd_regular = True, nd_mode = 0x1A4, nd_bytes = Some []\<rparr> disk else disk))
           (poll_lock (lk_attempts lk)))"

definition acquire ::
  "core_env \<Rightarrow> lock_io \<Rightarrow> install_io \<Rightarrow> download_io \<Rightarrow> string \<Rightarrow> core_kind \<Rightarrow> download_authorization \<Rightarrow> core_disk \<Rightarrow>
     ((prepared_core, core_error) result \<times> core_disk) option" where
  "acquire env lk io dl new_uuid kind authorization disk =
     (if au_kind authorization \<noteq> kind then Some (Err OtherCore, disk)
      else let managed = managed_core_path env kind in
        (case lock_install lk (versioned_path managed kind) disk of
           None \<Rightarrow> None
         | Some (Inl e, disk) \<Rightarrow> Some (Err e, disk)
         | Some (Inr _, disk) \<Rightarrow>
             (case inspect_core env disk kind of
                CoreReady candidate \<Rightarrow> Some (Ok candidate, disk)
              | Review _ \<Rightarrow> Some (Err ReviewNeeded, disk)
              | NeedsUpdate _ \<Rightarrow>
                  (let dest = acquisition_destination new_uuid disk managed kind in
                   Some (op_bind (download_managed env io dl kind dest (target_version kind)) (\<lambda>version.
                     op_lift (Ok \<lparr>pr_kind = kind, pr_path = dest, pr_source = ''downloaded'', pr_version = version\<rparr>)) disk)))))"

definition resolve_or_install ::
  "core_env \<Rightarrow> lock_io \<Rightarrow> install_io \<Rightarrow> download_io \<Rightarrow> string \<Rightarrow> core_kind \<Rightarrow> core_disk \<Rightarrow>
     ((prepared_core, core_error) result \<times> core_disk) option" where
  "resolve_or_install env lk io dl new_uuid kind disk =
     (case inspect_core env disk kind of
        CoreReady candidate \<Rightarrow> Some (Ok candidate, disk)
      | Review _ \<Rightarrow> Some (Err ReviewNeeded, disk)
      | NeedsUpdate _ \<Rightarrow> acquire env lk io dl new_uuid kind \<lparr>au_kind = kind, au_operation_id = 0\<rparr> disk)"

end
