(* ===== verification/Core_Install.thy ===== *)
theory Core_Install
  imports Core_Binary
begin

text \<open>
  Properties of finding and installing a core: what an offered core has passed, when a permission target is
  accepted, what a failed and a successful installation leave on the disk, and that an acquired core is
  found again without the network.
\<close>

section \<open>Offered cores\<close>

lemma prepared_of_Some:
  assumes "prepared_of env disk kind (p, source, needs) = Some c"
  shows "pr_kind c = kind \<and> pr_path c = p \<and> pr_source c = source \<and>
    check_candidate (ce_sha env) (ce_answer env) disk kind p needs = Inr (pr_version c) \<and>
    is_compatible (kind_as_str kind) (pr_version c) (target_version kind) = Inr True"
  using assms
  by (auto simp: prepared_of_def candidate_policy_def is_compatible_def split: option.splits if_splits sum.splits)

lemma offered_in_candidates:
  assumes "inspect_candidates env disk kind systems managed = CoreReady c"
  shows "\<exists>needs. (pr_path c, pr_source c, needs) \<in> set (candidate_list env disk kind systems managed) \<and>
    prepared_of env disk kind (pr_path c, pr_source c, needs) = Some c"
proof -
  let ?cs = "candidate_list env disk kind systems managed"
  obtain rest where "filter_map (prepared_of env disk kind) ?cs = c # rest"
    using assms by (auto simp: inspect_candidates_alt Let_def split: if_splits list.splits)
  then have "c \<in> set (filter_map (prepared_of env disk kind) ?cs)" by simp
  then obtain p source needs where "(p, source, needs) \<in> set ?cs" "prepared_of env disk kind (p, source, needs) = Some c"
    by auto
  with prepared_of_Some show ?thesis by blast
qed

lemma candidate_list_source:
  "(p, source, needs) \<in> set (candidate_list env disk kind systems managed) \<Longrightarrow>
     source = ''system'' \<and> \<not> needs \<and> p \<in> set systems \<or>
     source = ''cached'' \<and> needs \<and> p \<in> set (managed_candidates (ce_uuid_ok env) (ce_unlisted env) disk managed kind)"
  by (auto simp: candidate_list_def)

lemma check_candidate_Inr:
  assumes "check_candidate sha answer disk kind p needs = Inr v"
  shows "\<exists>n bytes. node_at disk p = Some n \<and> nd_regular n \<and> and (nd_mode n) 0x49 \<noteq> 0 \<and> nd_bytes n = Some bytes \<and>
    starts_with (take 4 bytes) elf_magic \<and> (needs \<longrightarrow> verify_cached_digest sha disk p = Inr True) \<and>
    read_core_version kind (answer p) = Inr (Some v) \<and> is_ok (parse_version v)"
  using assms
  by (auto simp: check_candidate_def check_regular_executable_def check_magic_def read_bytes_def ensure_elf_def
      bind_eq_Some_conv is_ok_def split: if_splits)

lemma elf_prefix: "starts_with (take 4 bytes) elf_magic \<Longrightarrow> starts_with bytes elf_magic"
  unfolding starts_with_iff by (meson prefix_order.trans take_is_prefix)

text \<open>C29: a core an inspection offers is a regular executable ELF file that answered with exactly the version
  it is offered under, that version is usable under the policy of its core, and when the file is one the
  program manages, a receipt of an installation matches its current bytes.\<close>

theorem offered_core_is_verified:
  assumes "inspect_core env disk kind = CoreReady c"
  shows "pr_kind c = kind \<and>
    read_core_version kind (ce_answer env (pr_path c)) = Inr (Some (pr_version c)) \<and>
    is_compatible (kind_as_str kind) (pr_version c) (target_version kind) = Inr True \<and>
    (\<exists>n bytes. node_at disk (pr_path c) = Some n \<and> nd_regular n \<and> and (nd_mode n) 0x49 \<noteq> 0 \<and>
      nd_bytes n = Some bytes \<and> starts_with bytes elf_magic) \<and>
    (pr_source c = ''cached'' \<longrightarrow> verify_cached_digest (ce_sha env) disk (pr_path c) = Inr True)"
proof -
  from offered_in_candidates [OF assms [unfolded inspect_core_def]] obtain needs where
    c: "(pr_path c, pr_source c, needs) \<in> set (candidate_list env disk kind (system_paths env disk kind) (managed_core_path env kind))"
      "prepared_of env disk kind (pr_path c, pr_source c, needs) = Some c" by blast
  from prepared_of_Some [OF c(2)] have
    ok: "pr_kind c = kind" "is_compatible (kind_as_str kind) (pr_version c) (target_version kind) = Inr True"
    and check: "check_candidate (ce_sha env) (ce_answer env) disk kind (pr_path c) needs = Inr (pr_version c)" by auto
  have needs: "pr_source c = ''cached'' \<longrightarrow> needs" using candidate_list_source [OF c(1)] by auto
  show ?thesis using check_candidate_Inr [OF check] elf_prefix needs ok by blast
qed

section \<open>Permission targets\<close>

lemma verify_cached_digest_True:
  fixes sha :: "string \<Rightarrow> string"
  assumes "read_bytes disk p = Some bytes"
  defines "receipt \<equiv> read_to_string disk (digest_receipt_path p (sha bytes))"
  shows "verify_cached_digest sha disk p = Inr True \<longleftrightarrow>
    (case receipt of
       Found v \<Rightarrow> trim v = ''sha256:'' @ sha bytes
     | Missing \<Rightarrow> (case read_to_string disk (with_extension ''sha256'' p) of
         Found v \<Rightarrow> is_ok (verify_sha256 sha bytes (trim v)) | _ \<Rightarrow> False)
     | Unreadable \<Rightarrow> False)"
  using assms by (auto simp: verify_cached_digest_def Let_def split: text_read.splits)

text \<open>The check right before a privileged operation accepts a core if and only if its file is still a
  regular executable ELF file and, when the program manages the file, a receipt matches its current bytes: a
  replaced file does not inherit the consent given to the old one.\<close>

theorem permission_target_exact:
  "validate_permission_target sha disk managed c = Inr () \<longleftrightarrow>
     (\<exists>n bytes. node_at disk (pr_path c) = Some n \<and> nd_regular n \<and> and (nd_mode n) 0x49 \<noteq> 0 \<and>
        nd_bytes n = Some bytes \<and> starts_with bytes elf_magic \<and>
        (pr_source c = ''cached'' \<or> pr_source c = ''downloaded'' \<or> cp_dir (pr_path c) = cp_dir managed \<longrightarrow>
           verify_cached_digest sha disk (pr_path c) = Inr True))"
proof (cases "node_at disk (pr_path c)")
  case (Some n)
  show ?thesis
  proof (cases "nd_bytes n")
    case None
    with Some show ?thesis
      by (auto simp: validate_permission_target_def check_regular_executable_def read_bytes_def Let_def)
  next
    case (Some bytes)
    with \<open>node_at disk (pr_path c) = Some n\<close> have bytes: "read_bytes disk (pr_path c) = Some bytes"
      by (simp add: read_bytes_def)
    show ?thesis
      using verify_cached_digest_True [OF bytes, of sha] Some \<open>node_at disk (pr_path c) = Some n\<close>
      by (auto simp: validate_permission_target_def check_regular_executable_def bytes ensure_elf_def Let_def
          split: text_read.splits)
  qed
qed (auto simp: validate_permission_target_def check_regular_executable_def Let_def)

section \<open>Names\<close>

lemma file_stem_extension: "CHR ''.'' \<notin> set ext \<Longrightarrow> a \<noteq> [] \<Longrightarrow> a @ CHR ''.'' # ext \<noteq> ''..'' \<Longrightarrow>
    file_stem (a @ CHR ''.'' # ext) = a"
  by (simp add: file_stem_def rsplit_once_append)

definition visible :: "cpath \<Rightarrow> bool" where
  "visible p \<longleftrightarrow> cp_name p \<noteq> [] \<and> \<not> starts_with (cp_name p) ''.''"

lemma file_stem_visible:
  assumes "name \<noteq> []" "\<not> starts_with name ''.''"
  shows "file_stem name \<noteq> [] \<and> \<not> starts_with (file_stem name) ''.''"
proof (cases "rsplit_once CHR ''.'' name")
  case None
  with assms show ?thesis by (auto simp: file_stem_def starts_with_iff)
next
  case (Some ab)
  then obtain a b where "rsplit_once CHR ''.'' name = Some (a, b)" by (cases ab) auto
  then have "name = a @ CHR ''.'' # b"
    by (auto simp: rsplit_once_def dest!: split_once_Some split: option.splits prod.splits)
       (metis append.assoc append_Cons append_Nil rev.simps(2) rev_append rev_rev_ident)
  with assms \<open>rsplit_once CHR ''.'' name = Some (a, b)\<close> show ?thesis
    by (cases a) (auto simp: file_stem_def starts_with_iff)
qed

lemma with_extension_name: "cp_name (with_extension (e # ext) p) = file_stem (cp_name p) @ CHR ''.'' # e # ext"
  by (simp add: with_extension_def)

lemma with_extension_visible: "visible p \<Longrightarrow> visible (with_extension (e # ext) p)"
  using file_stem_visible [of "cp_name p"]
  by (cases "file_stem (cp_name p)") (auto simp: visible_def with_extension_name starts_with_iff)

lemma digest_receipt_visible: "visible p \<Longrightarrow> visible (digest_receipt_path p h)"
  by (simp add: digest_receipt_path_def with_extension_visible)

lemma temp_not_visible: "\<not> visible (staged_path p r)" "\<not> visible (receipt_temp_path p r)"
  by (simp_all add: visible_def staged_path_def receipt_temp_path_def with_file_name_def starts_with_iff)

lemma receipt_neq:
  assumes "CHR ''.'' \<notin> set h" "visible p"
  shows "digest_receipt_path p h \<noteq> p"
proof
  assume eq: "digest_receipt_path p h = p"
  let ?stem = "file_stem (cp_name p)"
  have "?stem \<noteq> []" using assms(2) file_stem_visible by (simp add: visible_def)
  have "cp_name p = (?stem @ ''.sha256'') @ CHR ''.'' # h"
    using arg_cong [OF eq, of cp_name] by (simp add: digest_receipt_path_def with_extension_name)
  then have "?stem = ?stem @ ''.sha256''"
    using file_stem_extension [of h "?stem @ ''.sha256''"] assms
    by (cases "cp_name p = ''..''") (auto simp: visible_def starts_with_iff)
  then show False by simp
qed

section \<open>Installations\<close>

lemma node_at_rename:
  "node_at disk p = Some n \<Longrightarrow> node_at (rename_node p q disk) x = (if x = q then Some n else if x = p then None else node_at disk x)"
  by (simp add: rename_node_def)

definition receipt_node :: "string \<Rightarrow> node" where
  "receipt_node digest = temp_node (receipt_text digest)"

text \<open>A temporary file is created under a name that is not in use.\<close>

definition fresh_temps :: "install_io \<Rightarrow> cpath \<Rightarrow> core_disk \<Rightarrow> bool" where
  "fresh_temps io dest disk \<longleftrightarrow>
     (case io_stage io of Some r \<Rightarrow> node_at disk (staged_path dest r) = None | None \<Rightarrow> True) \<and>
     (case io_receipt_stage io of
        Some r \<Rightarrow> node_at disk (receipt_temp_path dest r) = None \<and>
          (case io_stage io of Some s \<Rightarrow> receipt_temp_path dest r \<noteq> staged_path dest s | None \<Rightarrow> True)
      | None \<Rightarrow> True)"

lemma write_digest_receipt_effect:
  assumes "visible binary" "\<And>r. io_receipt_stage io = Some r \<Longrightarrow> node_at disk (receipt_temp_path binary r) = None"
  shows "\<exists>r disk'. write_digest_receipt sha io binary bytes disk = (r, disk') \<and>
    (\<forall>x. node_at disk' x =
       (if r = Inr () \<and> x = digest_receipt_path binary (sha bytes) then Some (receipt_node (sha bytes)) else node_at disk x))"
proof (cases "io_receipt_stage io")
  case None
  then show ?thesis by (simp add: write_digest_receipt_def op_defs Let_def)
next
  case (Some r)
  have "receipt_temp_path binary r \<noteq> digest_receipt_path binary (sha bytes)"
    using digest_receipt_visible [OF assms(1)] temp_not_visible(2) by metis
  with Some assms(2) [OF Some] show ?thesis
    by (auto simp: write_digest_receipt_def op_defs Let_def rename_node_def receipt_node_def guard_def)
qed

lemma ensure_executable_temp:
  "node_at disk p = Some (temp_node b) \<Longrightarrow>
     ensure_executable works p disk =
       (if works then (Ok (), put_node p (executable_node b) disk) else (Err StagingFailed, disk))"
  by (simp add: ensure_executable_def temp_node_def executable_node_def)

lemma install_verified_payload_effect:
  fixes env :: core_env and payload :: string
  assumes "visible dest" "fresh_temps io dest disk"
  defines "receipt \<equiv> digest_receipt_path dest (ce_sha env payload)"
  shows "\<exists>r disk'. install_verified_payload env io kind dest payload expected disk = (r, disk') \<and>
    (case r of
       Inl _ \<Rightarrow> (\<forall>x. node_at disk' x = node_at disk x) \<or>
         (\<forall>x. node_at disk' x = (if x = receipt then Some (receipt_node (ce_sha env payload)) else node_at disk x))
     | Inr v \<Rightarrow>
         starts_with payload elf_magic \<and> check_reported kind v expected = Inr () \<and>
         (\<exists>t. io_stage io = Some t \<and> read_core_version kind (ce_answer env (staged_path dest t)) = Inr (Some v)) \<and>
         (\<forall>x. node_at disk' x =
           (if x = dest then Some (executable_node payload)
            else if x = receipt then Some (receipt_node (ce_sha env payload)) else node_at disk x)))"
proof (cases "io_stage io")
  case None
  then show ?thesis
    by (auto simp: install_verified_payload_def op_defs ensure_elf_def guard_def)
next
  case (Some t)
  let ?staged = "staged_path dest t"
  let ?disk = "put_node ?staged (executable_node payload) (put_node ?staged (temp_node payload)
      (put_node ?staged (temp_node []) disk))"
  have neq: "?staged \<noteq> dest" "?staged \<noteq> receipt"
    using assms(1) digest_receipt_visible temp_not_visible(1) unfolding receipt_def by metis+
  have fresh: "node_at disk ?staged = None" using assms(2) Some by (simp add: fresh_temps_def)
  have "\<And>r. io_receipt_stage io = Some r \<Longrightarrow> node_at ?disk (receipt_temp_path dest r) = None"
    using assms(2) Some by (simp add: fresh_temps_def)
  from write_digest_receipt_effect [OF assms(1) this, of io "ce_sha env" payload] obtain r d where
    receipt: "write_digest_receipt (ce_sha env) io dest payload ?disk = (r, d)"
    "\<And>x. node_at d x = (if r = Inr () \<and> x = receipt then Some (receipt_node (ce_sha env payload)) else node_at ?disk x)"
    unfolding receipt_def by blast
  show ?thesis
    using receipt neq fresh
    by (auto simp: install_verified_payload_def op_defs Let_def ensure_executable_temp Some guard_def ensure_elf_def
        rename_node_def split: sum.splits option.splits)
qed

section \<open>Receipts\<close>

lemma hexdigit_chars:
  "is_ascii_hexdigit c \<Longrightarrow> c \<noteq> CHR ''.'' \<and> c \<noteq> CHR ''-'' \<and> c \<notin> set (ascii_ws @ map last unicode_ws)"
  by (auto simp: is_ascii_hexdigit_def is_ascii_digit_def digit_val_def ascii_ws_def unicode_ws_def Let_def)

lemma sha256_text_chars: "sha256_text h \<Longrightarrow> CHR ''.'' \<notin> set h \<and> CHR ''-'' \<notin> set h"
  by (auto simp: sha256_text_def list_all_iff dest: hexdigit_chars)

lemma receipt_text_clean:
  assumes "sha256_text h"
  shows "is_utf8 (receipt_text h)" "trim (receipt_text h) = receipt_text h"
proof -
  have "h \<noteq> []" using assms by (auto simp: sha256_text_def)
  then have "is_ascii_hexdigit (last h)" using assms by (simp add: sha256_text_def list_all_iff)
  then show "trim (receipt_text h) = receipt_text h"
    using hexdigit_chars \<open>h \<noteq> []\<close> by (intro trim_id_ends) (auto simp: receipt_text_def ascii_ws_def)
  have "list_all (\<lambda>c. (of_char c :: nat) < 128) h"
    using assms by (auto simp: sha256_text_def list_all_iff is_ascii_hexdigit_def dest: is_ascii_digit_ascii)
  then show "is_utf8 (receipt_text h)" by (intro is_utf8_ascii) (simp add: receipt_text_def)
qed

lemma receipt_is_read:
  "sha256_text h \<Longrightarrow> node_at disk p = Some (receipt_node h) \<Longrightarrow> read_to_string disk p = Found (receipt_text h)"
  by (simp add: read_to_string_def receipt_node_def temp_node_def receipt_text_clean)

lemma receipt_verifies:
  assumes "sha256_text (sha bytes)" "read_bytes disk p = Some bytes"
    "node_at disk (digest_receipt_path p (sha bytes)) = Some (receipt_node (sha bytes))"
  shows "verify_cached_digest sha disk p = Inr True"
  using receipt_is_read [OF assms(1,3)] receipt_text_clean(2) [OF assms(1)] verify_cached_digest_True [OF assms(2), of sha]
  by (simp add: receipt_text_def)

text \<open>C31: an installation either fails and leaves every file as it was, apart from the receipt of exactly this
  payload, or succeeds: then the destination holds the payload as an executable file, the payload is an ELF
  file that reported, when it was run before it was published, the version that was asked for and that the
  policy accepts, the receipt matches, and no other file is touched. No temporary file remains.\<close>

theorem installation_is_atomic:
  assumes "visible dest" "fresh_temps io dest disk" "sha256_text (ce_sha env payload)"
    and "install_verified_payload env io kind dest payload expected disk = (r, disk')"
  shows "let receipt = digest_receipt_path dest (ce_sha env payload) in case r of
      Inl _ \<Rightarrow> (\<forall>x. node_at disk' x = node_at disk x) \<or>
        (\<forall>x. node_at disk' x = (if x = receipt then Some (receipt_node (ce_sha env payload)) else node_at disk x))
    | Inr v \<Rightarrow>
        node_at disk' dest = Some (executable_node payload) \<and> starts_with payload elf_magic \<and>
        version_matches_target v expected \<and>
        is_compatible (kind_as_str kind) v (target_version kind) = Inr True \<and>
        (\<exists>t. read_core_version kind (ce_answer env (staged_path dest t)) = Inr (Some v)) \<and>
        verify_cached_digest (ce_sha env) disk' dest = Inr True \<and>
        (\<forall>x. x \<noteq> dest \<and> x \<noteq> receipt \<longrightarrow> node_at disk' x = node_at disk x)"
proof -
  let ?receipt = "digest_receipt_path dest (ce_sha env payload)"
  note eff = install_verified_payload_effect
    [OF assms(1,2), where env = env and payload = payload and kind = kind and expected = expected]
  show ?thesis
  proof (cases r)
    case (Inl e)
    with eff assms(4) show ?thesis by (auto simp: Let_def)
  next
    case (Inr v)
    with eff assms(4) have v: "starts_with payload elf_magic" "check_reported kind v expected = Inr ()"
      "\<exists>t. io_stage io = Some t \<and> read_core_version kind (ce_answer env (staged_path dest t)) = Inr (Some v)"
      and disk': "\<And>x. node_at disk' x = (if x = dest then Some (executable_node payload)
            else if x = ?receipt then Some (receipt_node (ce_sha env payload)) else node_at disk x)" by auto
    have "?receipt \<noteq> dest" using receipt_neq assms(1,3) sha256_text_chars by blast
    then have "verify_cached_digest (ce_sha env) disk' dest = Inr True"
      using assms(3) disk' by (intro receipt_verifies [of _ payload])
        (auto simp: read_bytes_def executable_node_def)
    moreover have "version_matches_target v expected"
      "is_compatible (kind_as_str kind) v (target_version kind) = Inr True"
      using v(2) by (auto simp: check_reported_def split: if_splits)
    ultimately show ?thesis using v(1,3) disk' by (auto simp: Inr Let_def)
  qed
qed

section \<open>File names of cores and receipts\<close>

definition last_segment :: "string \<Rightarrow> string option" where
  "last_segment name = map_option snd (rsplit_once CHR ''.'' name)"

lemma last_segment_append: "CHR ''.'' \<notin> set b \<Longrightarrow> last_segment (a @ CHR ''.'' # b) = Some b"
  by (simp add: last_segment_def rsplit_once_append)

lemma last_segment_None: "CHR ''.'' \<notin> set s \<Longrightarrow> last_segment s = None"
  using split_once_None_iff [of "CHR ''.''" "rev s"] by (simp add: last_segment_def rsplit_once_def)

text \<open>A name that is neither that of a receipt nor that of a legacy receipt.\<close>

definition plain_name :: "string \<Rightarrow> bool" where
  "plain_name name \<longleftrightarrow> (\<forall>h. last_segment name = Some h \<longrightarrow> \<not> sha256_text h \<and> h \<noteq> ''sha256'')"

lemma receipt_segment: "sha256_text h \<Longrightarrow> last_segment (cp_name (digest_receipt_path q h)) = Some h"
  using last_segment_append [of h "file_stem (cp_name q) @ ''.sha256''"] sha256_text_chars
  by (simp add: digest_receipt_path_def with_extension_name)

lemma legacy_segment: "last_segment (cp_name (with_extension ''sha256'' q)) = Some ''sha256''"
  using last_segment_append [of "''sha256''"] by (simp add: with_extension_name)

lemma plain_not_receipt:
  assumes "plain_name (cp_name p)"
  shows "sha256_text h \<Longrightarrow> digest_receipt_path q h \<noteq> p" "with_extension ''sha256'' q \<noteq> p"
  using assms receipt_segment [of h q] legacy_segment [of q] unfolding plain_name_def by metis+

lemma legacy_not_receipt: "sha256_text h \<Longrightarrow> with_extension ''sha256'' q \<noteq> digest_receipt_path p h"
  using receipt_segment [of h p] legacy_segment [of q] by (auto simp: sha256_text_def)

lemma receipt_inject: "sha256_text h \<Longrightarrow> sha256_text h' \<Longrightarrow> digest_receipt_path p h = digest_receipt_path q h' \<Longrightarrow> h = h'"
  using receipt_segment [of h p] receipt_segment [of h' q] by simp

lemma plain_no_dot: "CHR ''.'' \<notin> set name \<Longrightarrow> plain_name name"
  by (simp add: plain_name_def last_segment_None)

lemma plain_candidate: "CHR ''.'' \<notin> set u \<Longrightarrow> plain_name (name @ ''.candidate-'' @ u)"
  using last_segment_append [of "''candidate-'' @ u" name] sha256_text_chars [of "''candidate-'' @ u"]
  by (auto simp: plain_name_def)

definition versioned_name :: "core_kind \<Rightarrow> string" where
  "versioned_name kind = (case kind of Mihomo \<Rightarrow> ''mihomo-v1.19.32'' | SingBox \<Rightarrow> ''sing-box-v1.14.2'')"

lemma versioned_managed:
  "versioned_path (managed_core_path env kind) kind =
     \<lparr>cp_dir = cp_dir (managed_core_path env kind), cp_name = versioned_name kind\<rparr>"
  by (cases kind)
     (auto simp: versioned_path_def managed_core_path_def managed_path_def managed_binary_path_def Let_def
       with_file_name_def target_version_def versioned_name_def split: option.splits)

lemma managed_name: "cp_name (managed_core_path env kind) = (case kind of Mihomo \<Rightarrow> ''mihomo'' | SingBox \<Rightarrow> ''sing-box'')"
  by (cases kind) (auto simp: managed_core_path_def managed_path_def managed_binary_path_def Let_def split: option.splits)

lemma plain_versioned: "plain_name (versioned_name kind)"
  using last_segment_append [of "''32''" "''mihomo-v1.19''"] last_segment_append [of "''2''" "''sing-box-v1.14''"]
  by (cases kind) (auto simp: versioned_name_def plain_name_def sha256_text_def)

section \<open>What a new executable and its receipt change\<close>

text \<open>The situation after an installation: \<open>dest\<close> is the new executable, \<open>v\<close> the version it reported. Two
  different files of this disk do not have the same digest, and files with the same content answer alike.\<close>

definition installed ::
  "core_env \<Rightarrow> core_kind \<Rightarrow> core_disk \<Rightarrow> core_disk \<Rightarrow> cpath \<Rightarrow> string \<Rightarrow> string \<Rightarrow> bool" where
  "installed env kind disk disk' dest payload v \<longleftrightarrow>
     (\<forall>x. node_at disk' x =
       (if x = dest then Some (executable_node payload)
        else if x = digest_receipt_path dest (ce_sha env payload) then Some (receipt_node (ce_sha env payload))
        else node_at disk x)) \<and>
     (\<forall>b. sha256_text (ce_sha env b)) \<and>
     (\<forall>p b. read_bytes disk p = Some b \<and> ce_sha env b = ce_sha env payload \<longrightarrow> b = payload) \<and>
     (\<forall>p. read_bytes disk' p = Some payload \<longrightarrow> read_core_version kind (ce_answer env p) = Inr (Some v)) \<and>
     starts_with payload elf_magic \<and> visible dest \<and>
     is_compatible (kind_as_str kind) v (target_version kind) = Inr True"

lemma verify_unchanged:
  assumes "installed env kind disk disk' dest payload v" "plain_name (cp_name dest)" "p \<noteq> dest" "plain_name (cp_name p)"
    and "read_bytes disk p \<noteq> Some payload"
  shows "verify_cached_digest (ce_sha env) disk' p = verify_cached_digest (ce_sha env) disk p"
proof -
  note inst = assms(1) [unfolded installed_def]
  have disk': "node_at disk' x = (if x = dest then Some (executable_node payload)
      else if x = digest_receipt_path dest (ce_sha env payload) then Some (receipt_node (ce_sha env payload))
      else node_at disk x)" for x using inst by blast
  have sha: "sha256_text (ce_sha env b)" for b using inst by blast
  have bytes: "read_bytes disk' p = read_bytes disk p"
    using assms(3) plain_not_receipt(1) [OF assms(4) sha] disk' [of p] by (auto simp: read_bytes_def)
  have legacy: "read_to_string disk' (with_extension ''sha256'' p) = read_to_string disk (with_extension ''sha256'' p)"
    using plain_not_receipt(2) [OF assms(2)] legacy_not_receipt [OF sha] disk' by (simp add: read_to_string_def)
  show ?thesis
  proof (cases "read_bytes disk p")
    case (Some b)
    then have "ce_sha env b \<noteq> ce_sha env payload" using inst assms(5) by auto
    then have "digest_receipt_path p (ce_sha env b) \<noteq> digest_receipt_path dest (ce_sha env payload)"
      using receipt_inject sha by blast
    then have "read_to_string disk' (digest_receipt_path p (ce_sha env b)) = read_to_string disk (digest_receipt_path p (ce_sha env b))"
      using plain_not_receipt(1) [OF assms(2) sha] disk' by (simp add: read_to_string_def)
    with Some show ?thesis by (simp add: verify_cached_digest_def bytes legacy Let_def split: text_read.split)
  qed (simp add: verify_cached_digest_def bytes)
qed

lemma policy_after_install:
  assumes "installed env kind disk disk' dest payload v" "plain_name (cp_name dest)" "p \<noteq> dest" "plain_name (cp_name p)"
  shows "candidate_policy env disk' kind (p, source, needs) = candidate_policy env disk kind (p, source, needs) \<or>
    candidate_policy env disk' kind (p, source, needs) = None \<or>
    (\<exists>policy. candidate_policy env disk' kind (p, source, needs) = Some (v, policy) \<and> is_usable policy)"
proof -
  note inst = assms(1) [unfolded installed_def]
  have sha: "sha256_text (ce_sha env b)" for b using inst by blast
  have node: "node_at disk' p = node_at disk p"
    using inst assms(3) plain_not_receipt(1) [OF assms(4) sha] by auto
  then have same: "read_bytes disk' p = read_bytes disk p" by (simp add: read_bytes_def)
  show ?thesis
  proof (cases "read_bytes disk p = Some payload")
    case False
    from verify_unchanged [OF assms this] show ?thesis
      by (simp add: candidate_policy_def check_candidate_def check_regular_executable_def check_magic_def node same)
  next
    case True
    with same inst have answer: "read_core_version kind (ce_answer env p) = Inr (Some v)" by auto
    obtain policy where policy: "classify v (target_version kind) = Inr policy" "is_usable policy"
      using inst by (auto simp: is_compatible_def)
    show ?thesis
    proof (cases "check_candidate (ce_sha env) (ce_answer env) disk' kind p needs")
      case (Inl e)
      then show ?thesis by (simp add: candidate_policy_def)
    next
      case (Inr w)
      with answer check_candidate_Inr [OF Inr] have "w = v" by auto
      with Inr policy show ?thesis by (auto simp: candidate_policy_def)
    qed
  qed
qed

lemma policy_of_installed:
  assumes "installed env kind disk disk' dest payload v"
  shows "\<exists>policy. candidate_policy env disk' kind (dest, source, needs) = Some (v, policy) \<and> is_usable policy"
proof -
  note inst = assms [unfolded installed_def]
  have sha: "sha256_text (ce_sha env payload)" using inst by blast
  have node: "node_at disk' dest = Some (executable_node payload)" using inst by auto
  then have bytes: "read_bytes disk' dest = Some payload" by (simp add: read_bytes_def executable_node_def)
  have "digest_receipt_path dest (ce_sha env payload) \<noteq> dest" using receipt_neq sha256_text_chars [OF sha] inst by blast
  then have "node_at disk' (digest_receipt_path dest (ce_sha env payload)) = Some (receipt_node (ce_sha env payload))"
    using inst by auto
  then have verified: "verify_cached_digest (ce_sha env) disk' dest = Inr True" by (rule receipt_verifies [where sha = "ce_sha env", OF sha bytes])
  obtain policy where policy: "classify v (target_version kind) = Inr policy" "is_usable policy"
    using inst by (auto simp: is_compatible_def)
  then have "\<exists>w. parse_version v = Inr w" by (auto simp: classify_def)
  moreover have "4 \<le> length payload \<and> starts_with (take 4 payload) elf_magic"
    using inst by (auto simp: starts_with_iff prefix_def elf_magic_def)
  moreover have "read_core_version kind (ce_answer env dest) = Inr (Some v)" using inst bytes by blast
  ultimately have "check_candidate (ce_sha env) (ce_answer env) disk' kind dest needs = Inr v"
    using verified bytes
    by (auto simp: check_candidate_def check_regular_executable_def check_magic_def node executable_node_def ensure_elf_def)
  with policy show ?thesis by (simp add: candidate_policy_def node)
qed

section \<open>Finding an acquired core\<close>

lemma dir_names_iff: "name \<in> set (dir_names disk dir) \<longleftrightarrow> node_at disk \<lparr>cp_dir = dir, cp_name = name\<rparr> \<noteq> None"
proof -
  have "p = \<lparr>cp_dir = cp_dir p, cp_name = cp_name p\<rparr>" for p :: cpath by simp
  then have "name \<in> set (dir_names disk dir) \<longleftrightarrow> \<lparr>cp_dir = dir, cp_name = name\<rparr> \<in> fst ` set disk"
    by (force simp: dir_names_def image_iff)
  then show ?thesis by (simp add: node_at_def map_of_eq_None_iff)
qed

lemma set_managed_candidates:
  "p \<in> set (managed_candidates uuid_ok unlisted disk managed kind) \<longleftrightarrow>
     p = versioned_path managed kind \<or> p = managed \<or>
     cp_dir (versioned_path managed kind) \<notin> set unlisted \<and> cp_dir p = cp_dir (versioned_path managed kind) \<and>
     is_candidate_name uuid_ok (cp_name (versioned_path managed kind)) (cp_name p) \<and> node_at disk p \<noteq> None"
proof -
  have "p = with_file_name name q \<longleftrightarrow> cp_dir p = cp_dir q \<and> cp_name p = name" for name q
    by (cases p; cases q) (auto simp: with_file_name_def)
  then show ?thesis
    by (cases p) (auto simp: managed_candidates_def Let_def dir_names_iff image_iff)
qed

lemma candidate_nameI: "uuid_ok u \<Longrightarrow> is_candidate_name uuid_ok name (name @ ''.candidate-'' @ u)"
proof -
  have "strip_prefix (name @ ''.candidate-'') (name @ ''.candidate-'' @ u) = Some u"
    by (subst strip_prefix_Some_iff) simp
  then show "uuid_ok u \<Longrightarrow> ?thesis" unfolding is_candidate_name_def by (simp only: option_helper_simps)
qed

lemma candidate_name_plain:
  assumes "is_candidate_name uuid_ok name n" "\<And>u. uuid_ok u \<Longrightarrow> CHR ''.'' \<notin> set u"
  shows "plain_name n"
proof -
  from assms(1) obtain u where "n = name @ ''.candidate-'' @ u" "uuid_ok u"
    by (auto simp: is_candidate_name_def is_some_and_iff)
  with assms(2) plain_candidate show ?thesis by blast
qed

lemma managed_candidates_plain:
  assumes "p \<in> set (managed_candidates uuid_ok unlisted disk (managed_core_path env kind) kind)"
    and "\<And>u. uuid_ok u \<Longrightarrow> CHR ''.'' \<notin> set u"
  shows "plain_name (cp_name p)"
  using assms(1) candidate_name_plain [OF _ assms(2)] plain_versioned [of kind]
  by (cases kind) (auto simp: set_managed_candidates versioned_managed managed_name plain_no_dot)

lemma system_paths_plain: "p \<in> set (system_paths env disk kind) \<Longrightarrow> CHR ''.'' \<notin> set (cp_name p)"
  by (cases kind)
     (auto simp: system_paths_def system_mihomo_candidates_def system_singbox_candidates_def system_candidates_def)

lemma system_paths_same:
  assumes "\<And>p. CHR ''.'' \<notin> set (cp_name p) \<Longrightarrow> node_at disk' p = node_at disk p"
  shows "system_paths env disk' kind = system_paths env disk kind"
proof -
  have "is_executable_file disk' p = is_executable_file disk p" if "CHR ''.'' \<notin> set (cp_name p)" for p
    using assms [OF that] by (simp add: is_executable_file_def)
  then show ?thesis
    by (cases kind)
       (auto simp: system_paths_def system_mihomo_candidates_def system_singbox_candidates_def system_candidates_def
         intro!: filter_cong)
qed

lemma destination_name:
  fixes env :: core_env and kind :: core_kind
  defines "v \<equiv> versioned_path (managed_core_path env kind) kind"
  shows "acquisition_destination u disk (managed_core_path env kind) kind =
    (if node_at disk v = None then v else \<lparr>cp_dir = cp_dir v, cp_name = versioned_name kind @ ''.candidate-'' @ u\<rparr>)"
  by (simp add: acquisition_destination_def versioned_managed v_def with_file_name_def Let_def)

lemma destination_facts:
  fixes env :: core_env and kind :: core_kind and disk :: core_disk
  assumes "CHR ''.'' \<notin> set u"
  defines "dest \<equiv> acquisition_destination u disk (managed_core_path env kind) kind"
  shows "plain_name (cp_name dest)" "visible dest" "CHR ''.'' \<in> set (cp_name dest)"
  using plain_versioned [of kind] plain_candidate [OF assms(1), of "versioned_name kind"]
  unfolding dest_def destination_name versioned_managed
  by (cases kind; auto simp: visible_def versioned_name_def starts_with_iff)+

lemma inspect_after_install:
  assumes inst: "installed env kind disk disk' dest payload v"
    and dest: "dest = acquisition_destination u disk (managed_core_path env kind) kind"
    and uuid: "ce_uuid_ok env u" "\<And>u. ce_uuid_ok env u \<Longrightarrow> CHR ''.'' \<notin> set u"
    and listed: "cp_dir (managed_core_path env kind) \<notin> set (ce_unlisted env)"
    and before: "inspect_core env disk kind = NeedsUpdate rq"
  shows "\<exists>c. inspect_core env disk' kind = CoreReady c \<and> pr_version c = v"
proof -
  let ?managed = "managed_core_path env kind"
  let ?cs = "\<lambda>d. candidate_list env d kind (system_paths env d kind) ?managed"
  note dest_facts = destination_facts [OF uuid(2) [OF uuid(1)], of disk env kind, folded dest]
  have sha: "sha256_text (ce_sha env b)" for b using inst by (simp add: installed_def)
  let ?receipt = "digest_receipt_path dest (ce_sha env payload)"
  have disk': "node_at disk' x = (if x = dest then Some (executable_node payload)
      else if x = ?receipt then Some (receipt_node (ce_sha env payload)) else node_at disk x)" for x
    using inst by (simp add: installed_def)
  have others: "node_at disk' p = node_at disk p" if "plain_name (cp_name p)" "p \<noteq> dest" for p
    using plain_not_receipt(1) [OF that(1) sha] that(2) disk' [of p] by auto
  have systems: "system_paths env disk' kind = system_paths env disk kind"
    using others plain_no_dot dest_facts(3) by (intro system_paths_same) metis
  have plain: "plain_name (cp_name p)" if "(p, source, needs) \<in> set (?cs disk')" for p source needs
    using that system_paths_plain plain_no_dot managed_candidates_plain [OF _ uuid(2)]
    by (auto simp: candidate_list_def)
  have known: "(p, source, needs) \<in> set (?cs disk)" if "(p, source, needs) \<in> set (?cs disk')" "p \<noteq> dest" for p source needs
    using that plain [OF that(1)] others [of p] by (auto simp: candidate_list_def systems set_managed_candidates)
  have found: "(dest, ''cached'', True) \<in> set (?cs disk')"
  proof -
    have "dest \<in> set (managed_candidates (ce_uuid_ok env) (ce_unlisted env) disk' ?managed kind)"
    proof (cases "node_at disk (versioned_path ?managed kind) = None")
      case True
      then show ?thesis by (simp add: set_managed_candidates dest destination_name)
    next
      case False
      then have "cp_dir dest = cp_dir ?managed" "cp_name dest = versioned_name kind @ ''.candidate-'' @ u"
        unfolding dest destination_name by (simp_all add: versioned_managed)
      moreover have "node_at disk' dest \<noteq> None" using disk' [of dest] by simp
      ultimately show ?thesis
        using listed candidate_nameI [where uuid_ok = "ce_uuid_ok env", OF uuid(1), of "versioned_name kind"]
        by (simp only: set_managed_candidates versioned_managed cpath.simps) blast
    qed
    then show ?thesis by (simp add: candidate_list_def)
  qed
  have old: "\<not> needs_review env disk kind c \<and> prepared_of env disk kind c = None" if "c \<in> set (?cs disk)" for c
  proof -
    have "\<not> list_ex (needs_review env disk kind) (?cs disk) \<and> filter_map (prepared_of env disk kind) (?cs disk) = []"
      using before by (auto simp: inspect_core_def inspect_candidates_alt Let_def split: if_splits list.splits)
    moreover have "prepared_of env disk kind c = None"
    proof (rule ccontr)
      assume "prepared_of env disk kind c \<noteq> None"
      then obtain r where "prepared_of env disk kind c = Some r" by blast
      then have "r \<in> set (filter_map (prepared_of env disk kind) (?cs disk))" using that by auto
      with calculation show False by simp
    qed
    ultimately show ?thesis using that by (auto simp: list_ex_iff)
  qed
  have new: "\<not> needs_review env disk' kind c \<and>
      (prepared_of env disk' kind c = None \<or> (\<exists>r. prepared_of env disk' kind c = Some r \<and> pr_version r = v))"
    if c: "c \<in> set (?cs disk')" for c
  proof -
    obtain p source needs where cp: "c = (p, source, needs)" by (cases c) auto
    have usable: "is_usable policy \<Longrightarrow> policy \<noteq> Prerelease \<and> policy \<noteq> UnsupportedMajor" for policy
      by (auto simp: is_usable_def)
    show ?thesis
    proof (cases "p = dest")
      case True
      with policy_of_installed [OF inst, of source needs] usable show ?thesis
        by (fastforce simp: cp needs_review_def prepared_of_def)
    next
      case False
      from policy_after_install [OF inst dest_facts(1) False plain [OF c [unfolded cp]], of source needs]
        old [OF known [OF c [unfolded cp] False]] usable
      show ?thesis by (fastforce simp: cp needs_review_def prepared_of_def)
    qed
  qed
  obtain r where "prepared_of env disk' kind (dest, ''cached'', True) = Some r"
    using policy_of_installed [OF inst, of "''cached''" True] by (auto simp: prepared_of_def)
  then have "r \<in> set (filter_map (prepared_of env disk' kind) (?cs disk'))" using found by auto
  then obtain c rest where c: "filter_map (prepared_of env disk' kind) (?cs disk') = c # rest"
    by (cases "filter_map (prepared_of env disk' kind) (?cs disk')") auto
  then have "c \<in> set (filter_map (prepared_of env disk' kind) (?cs disk'))" by simp
  then have "pr_version c = v" using new by force
  moreover have "\<not> list_ex (needs_review env disk' kind) (?cs disk')" using new by (auto simp: list_ex_iff)
  ultimately show ?thesis using c by (simp add: inspect_core_def inspect_candidates_alt Let_def)
qed

lemma node_at_lock:
  "lock_install lk p disk = Some (r, disk') \<Longrightarrow> x \<noteq> install_lock_path p \<Longrightarrow> node_at disk' x = node_at disk x"
  by (auto simp: lock_install_def Let_def split: if_splits)

lemma download_managed_Inr:
  assumes "download_managed env io dl kind dest version disk = (Inr v, disk')"
  shows "\<exists>payload. install_verified_payload env io kind dest payload version disk = (Inr v, disk')"
  using assms
  by (cases kind)
     (auto simp: download_managed_def download_managed_mihomo_def download_managed_singbox_def op_bind_def op_lift_def
       split: sum.splits prod.splits)

text \<open>The files of the managed directory before an acquisition: temporary names are not in use and a fresh
  UUID is one, without a dot.\<close>

definition acquisition_ready :: "core_env \<Rightarrow> install_io \<Rightarrow> string \<Rightarrow> core_kind \<Rightarrow> core_disk \<Rightarrow> bool" where
  "acquisition_ready env io new_uuid kind disk \<longleftrightarrow>
     ce_uuid_ok env new_uuid \<and> (\<forall>u. ce_uuid_ok env u \<longrightarrow> CHR ''.'' \<notin> set u) \<and>
     cp_dir (managed_core_path env kind) \<notin> set (ce_unlisted env) \<and>
     (\<forall>b. sha256_text (ce_sha env b)) \<and>
     (\<forall>dest. cp_dir dest = cp_dir (managed_core_path env kind) \<longrightarrow> fresh_temps io dest disk)"

lemma fresh_temps_lock:
  assumes "fresh_temps io dest disk" "lock_install lk p disk = Some (r, disk')" "visible p"
  shows "fresh_temps io dest disk'"
proof -
  have "visible (install_lock_path p)" using assms(3) by (simp add: install_lock_path_def with_extension_visible)
  then have "staged_path dest t \<noteq> install_lock_path p" "receipt_temp_path dest t \<noteq> install_lock_path p" for t
    using temp_not_visible by metis+
  with assms(1) node_at_lock [OF assms(2)] show ?thesis by (auto simp: fresh_temps_def split: option.splits)
qed

lemma acquired_core_offered:
  assumes "acquire env lk io dl new_uuid kind auth disk = Some (Inr c, disk')"
    and "acquisition_ready env io new_uuid kind disk"
    and "\<forall>p a b. read_bytes disk p = Some a \<and> read_bytes disk' (pr_path c) = Some b \<and> ce_sha env a = ce_sha env b \<longrightarrow> a = b"
    and "\<forall>p t. read_bytes disk' p = read_bytes disk' (pr_path c) \<longrightarrow>
      ce_answer env p = ce_answer env (staged_path (pr_path c) t)"
    and "\<forall>b. b \<noteq> [] \<longrightarrow> ce_sha env b \<noteq> ce_sha env []"
  shows "\<exists>c'. inspect_core env disk' kind = CoreReady c' \<and> pr_version c' = pr_version c"
proof -
  let ?managed = "managed_core_path env kind"
  let ?lock = "versioned_path ?managed kind"
  from assms(1) obtain d1 where lock: "lock_install lk ?lock disk = Some (Inr (), d1)"
    and rest: "(case inspect_core env d1 kind of
        CoreReady candidate \<Rightarrow> Some (Ok candidate, d1)
      | Review _ \<Rightarrow> Some (Err ReviewNeeded, d1)
      | NeedsUpdate _ \<Rightarrow>
          (let dest = acquisition_destination new_uuid d1 ?managed kind in
           Some (op_bind (download_managed env io dl kind dest (target_version kind)) (\<lambda>version.
             op_lift (Ok \<lparr>pr_kind = kind, pr_path = dest, pr_source = ''downloaded'', pr_version = version\<rparr>)) d1)))
      = Some (Inr c, disk')"
    by (auto simp: acquire_def Let_def split: if_splits option.splits prod.splits sum.splits)
  show ?thesis
  proof (cases "inspect_core env d1 kind")
    case (CoreReady candidate)
    with rest show ?thesis by auto
  next
    case (Review x)
    with rest show ?thesis by simp
  next
    case (NeedsUpdate rq)
    define dest where "dest = acquisition_destination new_uuid d1 ?managed kind"
    from NeedsUpdate rest obtain v where
      dl: "download_managed env io dl kind dest (target_version kind) d1 = (Inr v, disk')"
      and c: "c = \<lparr>pr_kind = kind, pr_path = dest, pr_source = ''downloaded'', pr_version = v\<rparr>"
      by (auto simp: op_bind_def op_lift_def Let_def dest_def split: prod.splits sum.splits)
    from download_managed_Inr [OF dl] obtain payload where
      payload: "install_verified_payload env io kind dest payload (target_version kind) d1 = (Inr v, disk')" by blast
    note ready = assms(2) [unfolded acquisition_ready_def]
    have uuid: "CHR ''.'' \<notin> set new_uuid" using ready by blast
    note facts = destination_facts [OF uuid, of d1 env kind, folded dest_def]
    have "cp_dir dest = cp_dir ?managed" unfolding dest_def destination_name by (simp add: versioned_managed)
    moreover have "visible ?lock" by (cases kind) (simp_all add: versioned_managed visible_def versioned_name_def starts_with_iff)
    ultimately have fresh: "fresh_temps io dest d1" using ready fresh_temps_lock [OF _ lock] by blast
    from install_verified_payload_effect [OF facts(2) fresh, where env = env and payload = payload and kind = kind and
        expected = "target_version kind"] payload
    have v: "starts_with payload elf_magic" "check_reported kind v (target_version kind) = Inr ()"
      and read: "\<exists>t. read_core_version kind (ce_answer env (staged_path dest t)) = Inr (Some v)"
      and disk': "\<And>x. node_at disk' x = (if x = dest then Some (executable_node payload)
            else if x = digest_receipt_path dest (ce_sha env payload) then Some (receipt_node (ce_sha env payload))
            else node_at d1 x)" by auto
    have bytes: "read_bytes disk' (pr_path c) = Some payload"
      using disk' [of dest] by (simp add: read_bytes_def c executable_node_def)
    have same: "b = payload" if "read_bytes d1 p = Some b" "ce_sha env b = ce_sha env payload" for p b
    proof (cases "p = install_lock_path ?lock")
      case False
      then have "read_bytes disk p = Some b" using that(1) node_at_lock [OF lock] by (simp add: read_bytes_def)
      with assms(3) bytes that(2) show ?thesis by blast
    next
      case True
      show ?thesis
      proof (cases "read_bytes disk p")
        case (Some b0)
        then have "node_at disk p \<noteq> None" by (auto simp: read_bytes_def bind_eq_Some_conv)
        then have "d1 = disk" using lock True by (auto simp: lock_install_def Let_def split: if_splits)
        with assms(3) bytes that show ?thesis by blast
      next
        case None
        then show ?thesis
        proof (cases "node_at disk p = None")
          case True
          then have "node_at d1 p = Some \<lparr>nd_regular = True, nd_mode = 0x1A4, nd_bytes = Some []\<rparr>"
            using lock \<open>p = install_lock_path ?lock\<close> by (auto simp: lock_install_def Let_def split: if_splits)
          then have "b = []" using that(1) by (simp add: read_bytes_def)
          with that(2) assms(5) v(1) show ?thesis by metis
        next
          case False
          then have "d1 = disk" using lock True by (auto simp: lock_install_def Let_def split: if_splits)
          with None that(1) show ?thesis by simp
        qed
      qed
    qed
    have "installed env kind d1 disk' dest payload v"
      unfolding installed_def
    proof (intro conjI allI impI)
      show "read_core_version kind (ce_answer env p) = Inr (Some v)" if "read_bytes disk' p = Some payload" for p
      proof -
        from read obtain t where t: "read_core_version kind (ce_answer env (staged_path dest t)) = Inr (Some v)" by blast
        have "ce_answer env p = ce_answer env (staged_path dest t)"
          using assms(4) [rule_format, of p t] bytes that by (simp add: c)
        with t show ?thesis by simp
      qed
      show "is_compatible (kind_as_str kind) v (target_version kind) = Inr True"
        using v(2) by (auto simp: check_reported_def split: if_splits)
    qed (use ready v facts same disk' in blast)+
    from inspect_after_install [OF this dest_def _ _ _ NeedsUpdate] ready show ?thesis by (auto simp: c)
  qed
qed

section \<open>A concrete acquisition\<close>

definition sample_elf :: string where "sample_elf = elf_magic @ ''core''"

definition sample_core_env :: core_env where
  "sample_core_env =
     \<lparr>ce_sha = (\<lambda>b. replicate 64 (if b = [] then CHR ''0'' else CHR ''a'')),
      ce_answer = (\<lambda>_. Exited True ''v1.19.32'' []),
      ce_uuid_ok = (\<lambda>u. u = ''u''), ce_unlisted = [], ce_executable_dir = None, ce_path_var = None,
      ce_xdg_data_home = Some ''/d'', ce_home = None\<rparr>"

definition sample_install_io :: install_io where
  "sample_install_io = \<lparr>io_mkdir = True, io_stage = Some ''s'', io_write = True, io_chmod = True,
     io_receipt_stage = Some ''r'', io_receipt_write = True, io_receipt_rename = True, io_rename = True\<rparr>"

definition sample_lock_io :: lock_io where
  "sample_lock_io = \<lparr>lk_mkdir = True, lk_open = True, lk_attempts = [WouldBlock, Locked]\<rparr>"

definition sample_asset :: string where "sample_asset = ''mihomo-linux-arm64-v1.19.32.gz''"

definition sample_download_io :: download_io where
  "sample_download_io =
     \<lparr>dl_arch = ''aarch64'', dl_client = True,
      dl_release = \<lparr>rn_release = (\<lambda>_. Some (200, Some (JObj [(''assets'', JArr [JObj
          [(''digest'', JStr (''sha256:'' @ replicate 64 (CHR ''a''))), (''name'', JStr sample_asset)]]),
          (''tag_name'', JStr ''v1.19.32'')]))), rn_manifest = (\<lambda>_. None)\<rparr>,
      dl_get = (\<lambda>_. Some [Some ''archive'']), dl_gunzip = (\<lambda>_. (sample_elf, True)), dl_untar = (\<lambda>_. None)\<rparr>"

lemma parse_pin: "parse_version ''v1.19.32'' = Inr (Version 1 19 32 [])"
proof -
  have "show_version (Version 1 19 32 []) = ''1.19.32''"
    by (simp add: show_core_def show_nat.simps digit_char_def)
  then show ?thesis
    by (subst parse_version_no_build) (simp_all add: version_ok_def ends_with_def)
qed

lemma sample_answer: "read_core_version kind (Exited True ''v1.19.32'' []) = Inr (Some ''v1.19.32'') \<longleftrightarrow> kind = Mihomo"
proof (cases kind)
  case Mihomo
  have "ws_pieces [] ''v1.19.32'' = [''v1.19.32'']" by (simp add: ws_patterns_def ascii_ws_def unicode_ws_def)
  then have "extract_version_token ''v1.19.32'' = Some ''v1.19.32''"
    using parse_pin
    by (simp add: extract_version_token_def split_whitespace_def version_token_def is_ascii_alphanumeric_def
        is_ascii_digit_def digit_val_def is_ascii_lower_def all_same_def starts_with_def)
  with Mihomo show ?thesis by (simp add: read_core_version_def read_mihomo_version_def)
next
  case SingBox
  have "singbox_line ''v1.19.32'' = None"
    by (simp add: singbox_line_def trim_id_ends ascii_ws_def unicode_ws_def)
  then have "parse_singbox_version_output ''v1.19.32'' = Inl VersionOmitted"
    by (simp add: parse_singbox_version_output_def str_lines_def)
  with SingBox show ?thesis by (simp add: read_core_version_def read_singbox_version_def)
qed

lemma sample_file_names:
  "managed_core_path sample_core_env Mihomo = \<lparr>cp_dir = ''/d/clash-verge-cli'', cp_name = ''mihomo''\<rparr>"
  "versioned_path \<lparr>cp_dir = ''/d/clash-verge-cli'', cp_name = ''mihomo''\<rparr> Mihomo =
     \<lparr>cp_dir = ''/d/clash-verge-cli'', cp_name = ''mihomo-v1.19.32''\<rparr>"
  "install_lock_path \<lparr>cp_dir = ''/d/clash-verge-cli'', cp_name = ''mihomo-v1.19.32''\<rparr> =
     \<lparr>cp_dir = ''/d/clash-verge-cli'', cp_name = ''mihomo-v1.19.lock''\<rparr>"
  by (simp_all add: managed_core_path_def managed_path_def managed_binary_path_def sample_core_env_def ends_with_def
      versioned_path_def with_file_name_def target_version_def install_lock_path_def with_extension_def file_stem_def
      rsplit_once_def)

definition sample_locked_disk :: core_disk where
  "sample_locked_disk = put_node \<lparr>cp_dir = ''/d/clash-verge-cli'', cp_name = ''mihomo-v1.19.lock''\<rparr>
     \<lparr>nd_regular = True, nd_mode = 0x1A4, nd_bytes = Some []\<rparr> []"

definition sample_dest :: cpath where
  "sample_dest = \<lparr>cp_dir = ''/d/clash-verge-cli'', cp_name = ''mihomo-v1.19.32''\<rparr>"

lemma node_at_sample:
  "node_at sample_locked_disk p \<noteq> None \<longleftrightarrow> p = \<lparr>cp_dir = ''/d/clash-verge-cli'', cp_name = ''mihomo-v1.19.lock''\<rparr>"
  by (simp add: sample_locked_disk_def node_at_def put_node_def)

lemma filter_map_None: "(\<And>x. x \<in> set xs \<Longrightarrow> f x = None) \<Longrightarrow> filter_map f xs = []"
  by (induction xs) auto

lemma sample_inspection: "\<exists>rq. inspect_core sample_core_env sample_locked_disk Mihomo = NeedsUpdate rq"
proof -
  have none: "node_at sample_locked_disk p = None" if "cp_name p \<noteq> ''mihomo-v1.19.lock''" for p
    using node_at_sample [of p] that by auto
  have "system_paths sample_core_env sample_locked_disk Mihomo = []"
    using none
    by (auto simp: system_paths_def system_mihomo_candidates_def system_candidates_def is_executable_file_def
        filter_empty_conv)
  moreover have "node_at sample_locked_disk p = None"
    if "p \<in> set (managed_candidates (ce_uuid_ok sample_core_env) [] sample_locked_disk (managed_core_path sample_core_env Mihomo) Mihomo)" for p
  proof -
    have "cp_name p \<noteq> ''mihomo-v1.19.lock''"
      using that by (auto simp: set_managed_candidates sample_file_names is_candidate_name_def)
    then show ?thesis by (rule none)
  qed
  ultimately have "candidate_policy sample_core_env sample_locked_disk Mihomo c = None"
    if "c \<in> set (candidate_list sample_core_env sample_locked_disk Mihomo
        (system_paths sample_core_env sample_locked_disk Mihomo) (managed_core_path sample_core_env Mihomo))" for c
    using that by (auto simp: candidate_list_def candidate_policy_def sample_core_env_def)
  then have "needs_review sample_core_env sample_locked_disk Mihomo c = False"
    "prepared_of sample_core_env sample_locked_disk Mihomo c = None"
    if "c \<in> set (candidate_list sample_core_env sample_locked_disk Mihomo
        (system_paths sample_core_env sample_locked_disk Mihomo) (managed_core_path sample_core_env Mihomo))" for c
    using that by (simp_all add: needs_review_def prepared_of_def)
  then show ?thesis
    using filter_map_None [of "candidate_list sample_core_env sample_locked_disk Mihomo
        (system_paths sample_core_env sample_locked_disk Mihomo) (managed_core_path sample_core_env Mihomo)"
        "prepared_of sample_core_env sample_locked_disk Mihomo"]
    by (auto simp: inspect_core_def inspect_candidates_alt Let_def list_ex_iff)
qed

lemma sample_install:
  "\<exists>disk'. install_verified_payload sample_core_env sample_install_io Mihomo sample_dest sample_elf ''v1.19.32''
     sample_locked_disk = (Inr ''v1.19.32'', disk') \<and> read_bytes disk' sample_dest = Some sample_elf"
proof -
  have elf: "starts_with sample_elf elf_magic" by (simp add: sample_elf_def starts_with_def elf_magic_def)
  have size: "length sample_elf \<le> payload_limit" by (simp add: sample_elf_def elf_magic_def payload_limit_def)
  have policy: "check_reported Mihomo ''v1.19.32'' ''v1.19.32'' = Inr ()"
    using parse_pin
    by (simp add: check_reported_def version_matches_target_def starts_with_def is_compatible_def classify_def
        target_version_def classify_versions_def version_cmp_def cmp_ord_def prerelease_cmp_def is_usable_def)
  have "visible sample_dest" by (simp add: visible_def sample_dest_def starts_with_def)
  have neq: "staged_path sample_dest ''s'' \<noteq> receipt_temp_path sample_dest ''r''"
    "staged_path sample_dest ''s'' \<noteq> sample_dest" "receipt_temp_path sample_dest ''r'' \<noteq> sample_dest"
    by (simp_all add: staged_path_def receipt_temp_path_def with_file_name_def sample_dest_def)
  have receipt: "digest_receipt_path sample_dest h \<noteq> staged_path sample_dest ''s''"
    "digest_receipt_path sample_dest h \<noteq> receipt_temp_path sample_dest ''r''" for h
    using digest_receipt_visible [OF \<open>visible sample_dest\<close>] temp_not_visible by metis+
  show ?thesis
    using elf size policy sample_answer [of Mihomo] neq receipt receipt [symmetric]
    by (simp add: install_verified_payload_def write_digest_receipt_def op_defs Let_def ensure_elf_def
        sample_install_io_def ensure_executable_temp rename_node_def sample_core_env_def read_bytes_def executable_node_def)
qed

lemma sample_fetch:
  "fetch_archive (ce_sha sample_core_env) sample_download_io ''MetaCubeX/mihomo'' ''v1.19.32'' sample_asset = Inr ''archive''"
proof -
  have lower: "to_ascii_lowercase (replicate 64 (CHR ''a'')) = replicate 64 (CHR ''a'')"
    by (simp add: to_ascii_lowercase_def ascii_lower_char_def is_ascii_upper_def)
  have sha: "sha256_text (replicate 64 (CHR ''a''))"
    by (simp add: sha256_text_def is_ascii_hexdigit_def list_all_iff)
  then have "fetch_trusted_release_digest (dl_release sample_download_io) ''MetaCubeX/mihomo'' ''v1.19.32'' sample_asset =
      Inr (''sha256:'' @ replicate 64 (CHR ''a''))"
    using lower by (simp add: fetch_trusted_release_digest_def sample_download_io_def trusted_digest_metadata_def
        official_repo_def checked_sha256_def asset_name_is_def obj_get_def del: replicate.simps)
  moreover have "ce_sha sample_core_env ''archive'' = replicate 64 (CHR ''a'')"
    by (simp add: sample_core_env_def del: replicate.simps)
  ultimately show ?thesis
    using sha by (simp add: fetch_archive_def sample_download_io_def archive_limit_def verify_sha256_digest_def
        Let_def eq_ignore_ascii_case_def del: replicate.simps)
qed

lemma sample_download:
  "\<exists>disk'. download_managed sample_core_env sample_install_io sample_download_io Mihomo sample_dest ''v1.19.32''
     sample_locked_disk = (Inr ''v1.19.32'', disk') \<and> read_bytes disk' sample_dest = Some sample_elf"
proof -
  have "linux_asset_name (dl_arch sample_download_io) = Some ''mihomo-linux-arm64''"
    by (simp add: linux_asset_name_def sample_download_io_def)
  moreover have "read_limited (payload_limit + 1) (dl_gunzip sample_download_io ''archive'') = Some sample_elf"
    by (simp add: read_limited_def payload_limit_def sample_download_io_def sample_elf_def elf_magic_def)
  ultimately show ?thesis
    using sample_fetch [unfolded sample_asset_def] sample_install
    by (simp add: download_managed_def download_managed_mihomo_def op_bind_def op_lift_def)
qed

lemma sample_acquire:
  "\<exists>disk'. acquire sample_core_env sample_lock_io sample_install_io sample_download_io ''u'' Mihomo
     \<lparr>au_kind = Mihomo, au_operation_id = 1\<rparr> [] =
     Some (Inr \<lparr>pr_kind = Mihomo, pr_path = sample_dest, pr_source = ''downloaded'', pr_version = ''v1.19.32''\<rparr>, disk') \<and>
   read_bytes disk' sample_dest = Some sample_elf"
proof -
  have lock: "lock_install sample_lock_io sample_dest [] = Some (Inr (), sample_locked_disk)"
    by (simp add: lock_install_def sample_lock_io_def sample_dest_def sample_file_names node_at_def sample_locked_disk_def)
  have dest: "acquisition_destination ''u'' sample_locked_disk (managed_core_path sample_core_env Mihomo) Mihomo = sample_dest"
    using node_at_sample [of sample_dest]
    by (simp add: acquisition_destination_def sample_file_names Let_def sample_dest_def)
  obtain rq where rq: "inspect_core sample_core_env sample_locked_disk Mihomo = NeedsUpdate rq"
    using sample_inspection by blast
  have "versioned_path (managed_core_path sample_core_env Mihomo) Mihomo = sample_dest"
    by (simp add: sample_file_names sample_dest_def)
  then show ?thesis
    using sample_download by (auto simp: acquire_def Let_def lock rq dest target_version_def op_bind_def op_lift_def)
qed

lemma sample_ready: "acquisition_ready sample_core_env sample_install_io ''u'' Mihomo []"
  unfolding acquisition_ready_def
proof (intro conjI allI impI)
  have sha: "sha256_text (replicate 64 (CHR ''a''))" "sha256_text (replicate 64 (CHR ''0''))"
    by (simp_all add: sha256_text_def is_ascii_hexdigit_def is_ascii_digit_def digit_val_def list_all_iff)
  then show "sha256_text (ce_sha sample_core_env b)" for b
    by (simp add: sample_core_env_def del: replicate.simps)
  show "fresh_temps sample_install_io dest []" for dest
    by (cases dest) (simp add: fresh_temps_def sample_install_io_def node_at_def staged_path_def receipt_temp_path_def
        with_file_name_def)
qed (auto simp: sample_core_env_def)

lemma sample_assumptions:
  "\<forall>p a b. read_bytes [] p = Some a \<and> q = Some b \<and> ce_sha sample_core_env a = ce_sha sample_core_env b \<longrightarrow> a = b"
  "ce_answer sample_core_env p = ce_answer sample_core_env p'"
  "\<forall>b. b \<noteq> [] \<longrightarrow> ce_sha sample_core_env b \<noteq> ce_sha sample_core_env []"
  by (simp_all add: read_bytes_def node_at_def sample_core_env_def)

text \<open>After a successful acquisition the core is found without the network: the next inspection of the
  disk it left offers a core of the version that was acquired, in whichever of the places it looks at first,
  provided that files with the content of the new executable give the answer it gave and no other file that
  was there has its digest. So one confirmed download is enough.\<close>

theorem acquired_core_is_found:
  assumes "acquire env lk io dl new_uuid kind auth disk = Some (Inr c, disk')"
    and "acquisition_ready env io new_uuid kind disk"
    and "\<forall>p a b. read_bytes disk p = Some a \<and> read_bytes disk' (pr_path c) = Some b \<and> ce_sha env a = ce_sha env b \<longrightarrow> a = b"
    and "\<forall>p t. read_bytes disk' p = read_bytes disk' (pr_path c) \<longrightarrow>
      ce_answer env p = ce_answer env (staged_path (pr_path c) t)"
    and "\<forall>b. b \<noteq> [] \<longrightarrow> ce_sha env b \<noteq> ce_sha env []"
  shows "\<exists>c'. inspect_core env disk' kind = CoreReady c' \<and> pr_version c' = pr_version c"
  by (rule acquired_core_offered [OF assms])

theorem acquired_core_is_found_witness:
  "\<exists>disk' c'. acquire sample_core_env sample_lock_io sample_install_io sample_download_io ''u'' Mihomo
       \<lparr>au_kind = Mihomo, au_operation_id = 1\<rparr> [] =
       Some (Inr \<lparr>pr_kind = Mihomo, pr_path = sample_dest, pr_source = ''downloaded'', pr_version = ''v1.19.32''\<rparr>, disk') \<and>
     inspect_core sample_core_env disk' Mihomo = CoreReady c' \<and> pr_version c' = ''v1.19.32''"
proof -
  from sample_acquire obtain disk' where acq: "acquire sample_core_env sample_lock_io sample_install_io
      sample_download_io ''u'' Mihomo \<lparr>au_kind = Mihomo, au_operation_id = 1\<rparr> [] =
      Some (Inr \<lparr>pr_kind = Mihomo, pr_path = sample_dest, pr_source = ''downloaded'', pr_version = ''v1.19.32''\<rparr>, disk')"
    by blast
  have "\<exists>c'. inspect_core sample_core_env disk' Mihomo = CoreReady c' \<and>
      pr_version c' = pr_version \<lparr>pr_kind = Mihomo, pr_path = sample_dest, pr_source = ''downloaded'', pr_version = ''v1.19.32''\<rparr>"
    by (rule acquired_core_is_found [OF acq sample_ready]) (use sample_assumptions in \<open>simp_all only: simp_thms\<close>)
  with acq show ?thesis by auto
qed

theorem installation_is_atomic_witness:
  "\<exists>disk'. install_verified_payload sample_core_env sample_install_io Mihomo sample_dest sample_elf ''v1.19.32''
     sample_locked_disk = (Inr ''v1.19.32'', disk') \<and>
   node_at disk' sample_dest = Some (executable_node sample_elf) \<and>
   verify_cached_digest (ce_sha sample_core_env) disk' sample_dest = Inr True"
proof -
  from sample_install obtain disk' where inst: "install_verified_payload sample_core_env sample_install_io Mihomo
      sample_dest sample_elf ''v1.19.32'' sample_locked_disk = (Inr ''v1.19.32'', disk')" by blast
  have visible: "visible sample_dest" by (simp add: visible_def sample_dest_def starts_with_def)
  have "lock_install sample_lock_io sample_dest [] = Some (Inr (), sample_locked_disk)"
    by (simp add: lock_install_def sample_lock_io_def sample_dest_def sample_file_names node_at_def sample_locked_disk_def)
  moreover have "fresh_temps sample_install_io sample_dest []"
    using sample_ready by (simp add: acquisition_ready_def sample_file_names sample_dest_def)
  ultimately have fresh: "fresh_temps sample_install_io sample_dest sample_locked_disk"
    using fresh_temps_lock visible by blast
  have sha: "sha256_text (ce_sha sample_core_env sample_elf)" using sample_ready by (simp add: acquisition_ready_def)
  from installation_is_atomic [OF visible fresh sha inst] inst show ?thesis by (auto simp: Let_def)
qed

theorem offered_core_is_verified_witness:
  "\<exists>disk' c. inspect_core sample_core_env disk' Mihomo = CoreReady c \<and>
     is_compatible ''mihomo'' (pr_version c) ''v1.19.32'' = Inr True"
proof -
  from sample_acquire obtain disk' where acq: "acquire sample_core_env sample_lock_io sample_install_io
      sample_download_io ''u'' Mihomo \<lparr>au_kind = Mihomo, au_operation_id = 1\<rparr> [] =
      Some (Inr \<lparr>pr_kind = Mihomo, pr_path = sample_dest, pr_source = ''downloaded'', pr_version = ''v1.19.32''\<rparr>, disk')"
    by blast
  obtain c where c: "inspect_core sample_core_env disk' Mihomo = CoreReady c"
    using acquired_core_offered [OF acq sample_ready] sample_assumptions by metis
  from offered_core_is_verified [OF c] c show ?thesis by (auto simp: kind_as_str_def target_version_def)
qed

section \<open>Version answers\<close>

lemma all_same_iff: "all_same found \<longleftrightarrow> (\<forall>v \<in> set found. v = hd found)"
  by (simp add: all_same_def list_all_iff)

lemma traverse_Inr_each: "traverse f xs = Inr ys \<Longrightarrow> x \<in> set xs \<Longrightarrow> \<exists>y \<in> set ys. f x = Inr y"
  by (induction xs arbitrary: ys) auto

text \<open>A version is read only from an answer that states it without contradiction: every version token of the
  output of mihomo, and every version line of the output of sing-box, states this version.\<close>

theorem version_answers_agree:
  assumes "read_core_version kind (Exited success stdout stderr) = Inr (Some v)"
  shows "success \<and> is_ok (parse_version v) \<and>
    (case kind of
       Mihomo \<Rightarrow> \<forall>token \<in> set (split_whitespace (stdout @ stderr)). version_token token \<in> {None, Some v}
     | SingBox \<Rightarrow> \<forall>l \<in> set (str_lines stdout). \<forall>w. singbox_line l = Some w \<longrightarrow> dropWhile (\<lambda>c. c = CHR ''v'') w = v)"
proof (cases kind)
  case Mihomo
  let ?found = "filter_map version_token (split_whitespace (stdout @ stderr))"
  have f: "success" "?found \<noteq> []" "all_same ?found" "v = hd ?found"
    using assms Mihomo
    by (auto simp: read_core_version_def read_mihomo_version_def extract_version_token_def Let_def split: if_splits)
  have "v \<in> set ?found" using f(2,4) hd_in_set by metis
  then have "is_ok (parse_version v)" by (auto simp: version_token_def Let_def)
  moreover have "version_token token \<in> {None, Some v}" if "token \<in> set (split_whitespace (stdout @ stderr))" for token
  proof (cases "version_token token")
    case (Some w)
    then have "w \<in> set ?found" using that by auto
    with f(3,4) Some show ?thesis by (simp add: all_same_iff)
  qed simp
  ultimately show ?thesis using f(1) Mihomo by auto
next
  case SingBox
  let ?lines = "filter_map (\<lambda>l. map_option (\<lambda>v. (trim l, v)) (singbox_line l)) (str_lines stdout)"
  let ?step = "\<lambda>(line, v). let value = dropWhile (\<lambda>c. c = CHR ''v'') v in
         rbind (map_err (OutputLine line) (parse_version value)) (\<lambda>_. Ok value)"
  from assms SingBox obtain found where found: "success" "traverse ?step ?lines = Inr found"
    "found \<noteq> []" "all_same found" "v = hd found"
    by (auto simp: read_core_version_def read_singbox_version_def parse_singbox_version_output_def split: if_splits)
  have "v \<in> set found" using found(3,5) by simp
  then have ok: "is_ok (parse_version v)" using traverse_Inr_set [OF found(2)] by (auto simp: Let_def is_ok_def)
  have "dropWhile (\<lambda>c. c = CHR ''v'') w = v" if "l \<in> set (str_lines stdout)" "singbox_line l = Some w" for l w
  proof -
    have "(trim l, w) \<in> set ?lines" using that by auto
    then obtain y where y: "y \<in> set found" "?step (trim l, w) = Inr y"
      using traverse_Inr_each [OF found(2)] by blast
    then have "y = dropWhile (\<lambda>c. c = CHR ''v'') w" by (simp add: Let_def)
    moreover have "y = v" using y(1) found(4,5) unfolding all_same_iff by blast
    ultimately show ?thesis by simp
  qed
  with ok found(1) SingBox show ?thesis by auto
qed

end
