(* ===== verification/Core_Update.thy ===== *)
theory Core_Update
  imports Core_Install
begin

text \<open>
  The guided operations on a core in the terminal interface (\<open>tui/handlers/core_update.rs\<close>, with the parts of
  \<open>lifecycle.rs\<close>, \<open>tun.rs\<close> and \<open>tui/handlers/mod.rs\<close> it runs through): inspection, consent, download,
  permission setup and application, each behind a confirmation, with tasks that report to the event loop.

  A handler takes what it reads of the manager and the application state, and returns the new state with the
  effects it starts. The cancellation flags are a store by operation, because a task keeps the flag of its
  operation. The system of the interface, its running tasks and the channel of their actions is a step
  relation; a task ends with any outcome its code allows.
\<close>

section \<open>State\<close>

datatype core_intent = StartIntent | RestartIntent | SwitchIntent | TunSetupIntent

datatype update_phase =
    Checking | Consent | Downloading | Verifying | ReadyPhase | TunChecking | TunConsent | TunSettingUp
  | Preparing | Switching | Success | FailedPhase | Cancelled

definition terminal :: "update_phase \<Rightarrow> bool" where
  "terminal ph \<longleftrightarrow> ph = FailedPhase \<or> ph = Success \<or> ph = Cancelled"

record guided_tun_context =
  gc_id :: u64
  gc_generation :: generation
  gc_prepared :: prepared_core
  gc_intent :: core_intent
  gc_enable_tun :: bool

datatype update_message =
    NoMessage
  | MessageText string
  | RequestDiagnostic "diagnostic list"
  | ReviewMessage "review list"
  | MissingCapability cpath

record core_update =
  cu_id :: u64
  cu_generation :: generation
  cu_kind :: core_kind
  cu_intent :: core_intent
  cu_phase :: update_phase
  cu_request :: "core_update_request option"
  cu_prepared :: "prepared_core option"
  cu_message :: update_message

datatype overlay = CoreUpdateOverlay | TunSetupConfirmation | PasswordInput | OtherOverlay

text \<open>What waits for a password; the settings flows only occur as \<open>OtherSudo\<close>.\<close>

datatype pending_sudo = GuidedTunSetup guided_tun_context | OtherSudo

record app =
  ap_update :: "core_update option"
  ap_flags :: "u64 \<Rightarrow> bool" \<comment> \<open>the cancellation flag of each operation\<close>
  ap_sequence :: u64
  ap_overlay :: "overlay option"
  ap_pending_sudo :: "pending_sudo option"
  ap_password :: string
  ap_status :: "string option"
  ap_core_state :: core_state
  ap_core_pid :: "pid option"
  ap_core_version :: "string option"
  ap_proxy_core :: "string option"
  ap_enable_tun :: "bool option"
  ap_enable_system_proxy :: "bool option"
  ap_proxy_auto_config :: "bool option"
  ap_tun_privileged :: bool
  ap_log_level :: string
  ap_configured_log_level :: string

text \<open>What the handlers read of the manager and of the capabilities of files.\<close>

record manager_view =
  mv_generation :: generation
  mv_state :: core_state
  mv_pid :: "pid option"
  mv_kind :: core_kind
  mv_binary_path :: "cpath option"
  mv_preflight :: "generation \<Rightarrow> core_kind \<Rightarrow> (unit, string) result"
  mv_tun_capability :: "cpath \<Rightarrow> bool"

section \<open>Tasks and actions\<close>

datatype op_task =
    Inspect u64 core_kind
  | Acquire u64 core_kind
  | TunCheck guided_tun_context
  | TunSetup guided_tun_context string
  | Apply guided_tun_context

datatype progress_phase = ProgressChecking | ProgressDownloading | ProgressVerifying | ProgressReady

datatype op_action =
    CoreInspected u64 core_inspection
  | CorePrepared u64 prepared_core
  | CoreUpdateProgress u64 progress_phase
  | CoreUpdateSwitching u64
  | CoreUpdateFinished u64 "(unit, string) result"
  | CoreTunChecked guided_tun_context "(bool, string) result"
  | CoreTunSetupFinished guided_tun_context "(unit, string) result"

text \<open>What a handler starts beside its change of the state.\<close>

datatype ui_effect =
    SpawnOperation op_task
  | ClearRuntimeCaches
  | CancelBackground
  | AwaitController
  | AskVersion
  | RefreshRuntime
  | AskMode

type_synonym handler = "app \<Rightarrow> app \<times> ui_effect list"

definition set_update :: "(core_update \<Rightarrow> core_update) \<Rightarrow> app \<Rightarrow> app" where
  "set_update f a = a\<lparr>ap_update := map_option f (ap_update a)\<rparr>"

definition set_phase :: "update_phase \<Rightarrow> update_message \<Rightarrow> core_update \<Rightarrow> core_update" where
  "set_phase ph m u = u\<lparr>cu_phase := ph, cu_message := m\<rparr>"

section \<open>Beginning an operation\<close>

text \<open>\<open>unfinished\<close>: the task of the last operation still runs.\<close>

definition begin_with :: "manager_view \<Rightarrow> bool \<Rightarrow> core_kind \<Rightarrow> core_intent \<Rightarrow> handler" where
  "begin_with mv unfinished kind intent a =
     (if unfinished \<or> is_some_and (ap_update a) (\<lambda>u. \<not> terminal (cu_phase u))
      then (a\<lparr>ap_overlay := Some CoreUpdateOverlay\<rparr>, [])
      else let id = ap_sequence a + 1 in
        (a\<lparr>ap_sequence := id,
           ap_flags := (ap_flags a)(id := False),
           ap_update := Some \<lparr>cu_id = id, cu_generation = mv_generation mv, cu_kind = kind, cu_intent = intent,
             cu_phase = Checking, cu_request = None, cu_prepared = None, cu_message = NoMessage\<rparr>,
           ap_overlay := Some CoreUpdateOverlay,
           ap_status := Some ''core_update.checking''\<rparr>,
         [SpawnOperation (Inspect id kind)]))"

section \<open>Applying a prepared core\<close>

definition start_apply :: "guided_tun_context \<Rightarrow> handler" where
  "start_apply context a =
     (if gc_intent context = TunSetupIntent then
        (set_update (set_phase Success (MessageText ''settings.tun_setup_present''))
          (a\<lparr>ap_tun_privileged := True, ap_overlay := Some CoreUpdateOverlay\<rparr>), [])
      else if is_compatible (kind_as_str (pr_kind (gc_prepared context))) (pr_version (gc_prepared context))
          (target_version (pr_kind (gc_prepared context))) \<noteq> Ok True then
        (set_update (set_phase FailedPhase
            (MessageText ''Unreviewed core version cannot be started through permission setup''))
          (a\<lparr>ap_overlay := Some CoreUpdateOverlay\<rparr>), [])
      else (case ap_update a of
          None \<Rightarrow> (a, [])
        | Some u \<Rightarrow> (a\<lparr>ap_update := Some (u\<lparr>cu_phase := Preparing\<rparr>)\<rparr>, [SpawnOperation (Apply context)])))"

text \<open>The check of the permissions: whether a setup is needed.\<close>

definition check_tun_with ::
  "guided_tun_context \<Rightarrow> bool \<Rightarrow> (unit, string) result \<Rightarrow> bool \<Rightarrow> bool \<Rightarrow> (bool, string) result" where
  "check_tun_with context cancelled owner root capable =
     rbind owner (\<lambda>_.
     rbind (guard (\<not> cancelled) ''Core operation cancelled'') (\<lambda>_.
     Ok ((gc_enable_tun context \<or> gc_intent context = TunSetupIntent) \<and> \<not> root \<and> \<not> capable)))"

text \<open>The privileged setup: ownership and cancellation are checked before and after it.\<close>

definition tun_setup_work ::
  "(unit, string) result \<Rightarrow> bool \<Rightarrow> (unit, string) result \<Rightarrow> (unit, string) result \<Rightarrow> bool \<Rightarrow> (unit, string) result \<Rightarrow>
     (unit, string) result" where
  "tun_setup_work owner_before cancelled_before setup owner_after cancelled_after probe =
     rbind owner_before (\<lambda>_.
     rbind (guard (\<not> cancelled_before) ''Core operation cancelled'') (\<lambda>_.
     rbind setup (\<lambda>_.
     rbind owner_after (\<lambda>_.
     rbind (guard (\<not> cancelled_after) ''Core operation cancelled'') (\<lambda>_. probe)))))"

section \<open>Confirmations\<close>

definition confirm_tun_setup :: handler where
  "confirm_tun_setup a =
     (if ap_pending_sudo a = None then (a, [])
      else (a\<lparr>ap_password := [], ap_overlay := Some PasswordInput\<rparr>, []))"

definition tun_context :: "app \<Rightarrow> core_update \<Rightarrow> prepared_core \<Rightarrow> guided_tun_context" where
  "tun_context a u prepared =
     \<lparr>gc_id = cu_id u, gc_generation = cu_generation u, gc_prepared = prepared, gc_intent = cu_intent u,
      gc_enable_tun = unwrap_or (ap_enable_tun a) False\<rparr>"

definition confirm_update :: "manager_view \<Rightarrow> handler" where
  "confirm_update mv a =
     (case ap_update a of
        None \<Rightarrow> (a, [])
      | Some u \<Rightarrow>
          if ap_flags a (cu_id u) then (a, [])
          else (case cu_phase u of
              Consent \<Rightarrow>
                (a\<lparr>ap_update := Some (u\<lparr>cu_phase := Downloading\<rparr>)\<rparr>,
                 [SpawnOperation (Acquire (cu_id u) (cu_kind u))])
            | ReadyPhase \<Rightarrow>
                if cu_generation u \<noteq> mv_generation mv then
                  (a\<lparr>ap_update := Some (set_phase FailedPhase
                     (MessageText ''Core ownership/generation changed since checking; retry the operation'') u)\<rparr>, [])
                else (case cu_prepared u of
                    None \<Rightarrow> (a, [])
                  | Some prepared \<Rightarrow>
                      let context = tun_context a u prepared in
                      if gc_intent context = SwitchIntent \<and> mv_state mv \<noteq> Running then start_apply context a
                      else (a\<lparr>ap_update := Some (u\<lparr>cu_phase := TunChecking\<rparr>)\<rparr>, [SpawnOperation (TunCheck context)]))
            | TunConsent \<Rightarrow> confirm_tun_setup a
            | FailedPhase \<Rightarrow> (a\<lparr>ap_overlay := None\<rparr>, [])
            | Success \<Rightarrow> (a\<lparr>ap_overlay := None\<rparr>, [])
            | Cancelled \<Rightarrow> (a\<lparr>ap_overlay := None\<rparr>, [])
            | _ \<Rightarrow> (a, [])))"

definition context_matches :: "manager_view \<Rightarrow> guided_tun_context \<Rightarrow> update_phase \<Rightarrow> app \<Rightarrow> bool" where
  "context_matches mv context ph a \<longleftrightarrow>
     is_some_and (ap_update a) (\<lambda>u.
       cu_id u = gc_id context \<and> cu_phase u = ph \<and> cu_generation u = gc_generation context \<and>
       cu_generation u = mv_generation mv \<and> cu_kind u = pr_kind (gc_prepared context) \<and>
       cu_prepared u = Some (gc_prepared context) \<and> cu_intent u = gc_intent context \<and>
       \<not> ap_flags a (cu_id u) \<and> gc_enable_tun context = unwrap_or (ap_enable_tun a) False)"

definition tun_result_with ::
  "manager_view \<Rightarrow> guided_tun_context \<Rightarrow> (bool, string) result \<Rightarrow> update_phase \<Rightarrow> (guided_tun_context \<Rightarrow> handler) \<Rightarrow> handler" where
  "tun_result_with mv context r ph apply_with a =
     (if \<not> context_matches mv context ph a then
        (if is_some_and (ap_update a) (\<lambda>u. cu_id u = gc_id context \<and> cu_phase u = ph \<and> \<not> ap_flags a (cu_id u))
         then (set_update (set_phase FailedPhase
              (MessageText ''Core ownership/generation or TUN configuration changed during setup; retry''))
            (a\<lparr>ap_pending_sudo := None, ap_overlay := Some CoreUpdateOverlay\<rparr>), [])
         else (a, []))
      else (case r of
          Inr True \<Rightarrow>
            (set_update (set_phase TunConsent (MissingCapability (pr_path (gc_prepared context))))
              (a\<lparr>ap_pending_sudo := Some (GuidedTunSetup context), ap_overlay := Some TunSetupConfirmation\<rparr>), [])
        | Inr False \<Rightarrow> apply_with context a
        | Inl e \<Rightarrow>
            (set_update (set_phase FailedPhase (MessageText e)) (a\<lparr>ap_overlay := Some CoreUpdateOverlay\<rparr>), [])))"

definition tun_result ::
  "manager_view \<Rightarrow> guided_tun_context \<Rightarrow> (bool, string) result \<Rightarrow> update_phase \<Rightarrow> handler" where
  "tun_result mv context r ph =
     tun_result_with mv context
       (rbind r (\<lambda>needs_setup.
        rbind (mv_preflight mv (gc_generation context) (pr_kind (gc_prepared context))) (\<lambda>_. Ok needs_setup)))
       ph start_apply"

definition submit_tun_setup :: "manager_view \<Rightarrow> guided_tun_context \<Rightarrow> string \<Rightarrow> handler" where
  "submit_tun_setup mv context password a =
     (if ap_overlay a \<noteq> Some PasswordInput then (a, [])
      else if \<not> context_matches mv context TunConsent a then
        tun_result_with mv context (Err ''Core setup context changed'') TunConsent (\<lambda>_ a. (a, [])) a
      else (set_update (\<lambda>u. u\<lparr>cu_phase := TunSettingUp\<rparr>) (a\<lparr>ap_overlay := Some CoreUpdateOverlay\<rparr>),
            [SpawnOperation (TunSetup context password)]))"

text \<open>The submission of a password that waits for a guided setup.\<close>

definition submit_password :: "manager_view \<Rightarrow> handler" where
  "submit_password mv a =
     (case ap_pending_sudo a of
        Some (GuidedTunSetup context) \<Rightarrow>
          submit_tun_setup mv context (ap_password a) (a\<lparr>ap_pending_sudo := None, ap_password := []\<rparr>)
      | _ \<Rightarrow> (a, []))"

section \<open>Cancellation\<close>

definition cancel_update :: handler where
  "cancel_update a =
     (case ap_update a of
        None \<Rightarrow> (a\<lparr>ap_overlay := None\<rparr>, [])
      | Some u \<Rightarrow>
          if terminal (cu_phase u) then (a\<lparr>ap_overlay := None\<rparr>, [])
          else (a\<lparr>ap_flags := (ap_flags a)(cu_id u := True), ap_pending_sudo := None, ap_password := [],
              ap_overlay := Some CoreUpdateOverlay,
              ap_update := Some
                (if cu_phase u = Preparing \<or> cu_phase u = Switching
                 then u\<lparr>cu_message := MessageText ''Cancellation requested; waiting for owned rollback''\<rparr>
                 else set_phase Cancelled
                   (MessageText ''TUN/core operation cancelled; current core and configuration unchanged'') u)\<rparr>, []))"

text \<open>\<open>handle_password_cancel\<close> and \<open>skip_tun_setup_start\<close> for a guided setup.\<close>

definition cancel_password :: handler where
  "cancel_password a =
     (case ap_pending_sudo a of
        Some (GuidedTunSetup context) \<Rightarrow>
          cancel_update (a\<lparr>ap_pending_sudo := None, ap_overlay := None, ap_password := []\<rparr>)
      | _ \<Rightarrow> (a, []))"

definition skip_tun_setup_start :: handler where
  "skip_tun_setup_start a =
     (case ap_pending_sudo a of
        Some (GuidedTunSetup context) \<Rightarrow> cancel_update (a\<lparr>ap_pending_sudo := None, ap_overlay := None\<rparr>)
      | _ \<Rightarrow> (a, []))"

text \<open>Stopping the core cancels the operation, without a change of its phase.\<close>

definition stop_core :: handler where
  "stop_core a =
     (a\<lparr>ap_flags := (case ap_update a of Some u \<Rightarrow> (ap_flags a)(cu_id u := True) | None \<Rightarrow> ap_flags a),
        ap_core_state := Stopped\<rparr>,
      [ClearRuntimeCaches, CancelBackground])"

section \<open>The actions of the tasks\<close>

definition started_status :: "app \<Rightarrow> string option \<Rightarrow> string option \<Rightarrow> string" where
  "started_status a version source =
     (let pid = (case ap_core_pid a of Some p \<Rightarrow> show_nat (unat p) | None \<Rightarrow> ''-'');
          label = unwrap_or version ''mihomo'';
          dot = [CHR '' '', CHR 0xC2, CHR 0xB7, CHR '' ''];
          key = (case source of
              None \<Rightarrow> None
            | Some s \<Rightarrow>
                if s = ''downloaded'' then Some ''home.core_downloaded''
                else if s = ''cached'' then Some ''home.core_cached''
                else if s = ''system'' then Some ''home.core_system'' else None) in
      case key of
        Some k \<Rightarrow> ''home.core_started'' @ dot @ label @ dot @ k @ dot @ ''pid '' @ pid
      | None \<Rightarrow> if version \<noteq> None then ''home.core_started'' @ dot @ label @ dot @ ''pid '' @ pid else ''home.core_attached'')"

definition note_started ::
  "manager_view \<Rightarrow> string option \<Rightarrow> cpath option \<Rightarrow> string option \<Rightarrow> handler" where
  "note_started mv version binary_path source a =
     (let await = unwrap_or (ap_enable_system_proxy a) False \<and> \<not> unwrap_or (ap_proxy_auto_config a) False;
          ask = (version = None \<and> ap_core_version a = None);
          a = a\<lparr>ap_core_state := Running, ap_core_pid := mv_pid mv\<rparr>;
          a = (if binary_path \<noteq> None then a\<lparr>ap_log_level := ap_configured_log_level a\<rparr> else a);
          a = (case mv_binary_path mv of Some p \<Rightarrow> a\<lparr>ap_tun_privileged := mv_tun_capability mv p\<rparr> | None \<Rightarrow> a);
          a = (case version of Some v \<Rightarrow> a\<lparr>ap_core_version := Some v\<rparr> | None \<Rightarrow> a);
          a = a\<lparr>ap_status := Some (started_status a version source)\<rparr>
      in (a, [ClearRuntimeCaches] @ (if await then [AwaitController] else []) @ (if ask then [AskVersion] else []) @
             [RefreshRuntime, AskMode]))"

definition core_inspected :: "core_inspection \<Rightarrow> core_update \<Rightarrow> core_update" where
  "core_inspected r u =
     (case r of
        CoreReady prepared \<Rightarrow>
          if pr_kind prepared = cu_kind u then u\<lparr>cu_prepared := Some prepared, cu_phase := ReadyPhase\<rparr>
          else set_phase FailedPhase (MessageText ''Candidate belongs to a different core'') u
      | NeedsUpdate request \<Rightarrow>
          u\<lparr>cu_message := RequestDiagnostic (rq_diagnostic request), cu_request := Some request, cu_phase := Consent\<rparr>
      | Review reviews \<Rightarrow> set_phase FailedPhase (ReviewMessage reviews) u)"

definition update_finished :: "manager_view \<Rightarrow> (unit, string) result \<Rightarrow> core_update \<Rightarrow> handler" where
  "update_finished mv r u a =
     (let u = set_phase
            (case r of Inr _ \<Rightarrow> Success | Inl _ \<Rightarrow> if ap_flags a (cu_id u) then Cancelled else FailedPhase)
            (case r of Inr _ \<Rightarrow> MessageText [] | Inl e \<Rightarrow> MessageText e) u;
          a = a\<lparr>ap_update := Some u, ap_core_state := mv_state mv, ap_core_pid := mv_pid mv\<rparr>;
          (a, effects) =
            (if is_ok r then
               (let a = a\<lparr>ap_proxy_core := Some (case mv_kind mv of Mihomo \<Rightarrow> ''mihomo'' | SingBox \<Rightarrow> ''singbox'')\<rparr> in
                if ap_core_state a = Running then
                  (let prepared = cu_prepared u; version = map_option pr_version prepared;
                       (a, effects) = note_started mv version (map_option pr_path prepared) (map_option pr_source prepared)
                         (a\<lparr>ap_core_version := version\<rparr>)
                   in (a, CancelBackground # effects))
                else (a\<lparr>ap_core_version := None\<rparr>, [ClearRuntimeCaches]))
             else if ap_core_state a = Running \<and> cu_generation u \<noteq> mv_generation mv then
               (let (a, effects) = note_started mv (ap_core_version a) (mv_binary_path mv) (Some ''rollback'') a
                in (a, CancelBackground # effects))
             else (a, []))
      in (a\<lparr>ap_overlay := Some CoreUpdateOverlay\<rparr>, effects))"

text \<open>An action of an operation that is still the current one, and not cancelled unless it reports the end.\<close>

definition with_operation :: "u64 \<Rightarrow> bool \<Rightarrow> (core_update \<Rightarrow> handler) \<Rightarrow> handler" where
  "with_operation oid final f a =
     (case ap_update a of
        None \<Rightarrow> (a, [])
      | Some u \<Rightarrow> if cu_id u \<noteq> oid \<or> ap_flags a (cu_id u) \<and> \<not> final then (a, []) else f u a)"

definition in_phase :: "update_phase set \<Rightarrow> (core_update \<Rightarrow> core_update) \<Rightarrow> core_update \<Rightarrow> handler" where
  "in_phase phs f u a = (if cu_phase u \<in> phs then (a\<lparr>ap_update := Some (f u)\<rparr>, []) else (a, []))"

fun handle_event :: "manager_view \<Rightarrow> op_action \<Rightarrow> handler" where
  "handle_event mv (CoreTunChecked context r) = tun_result mv context r TunChecking"
| "handle_event mv (CoreTunSetupFinished context r) =
     tun_result mv context (rbind r (\<lambda>_. Ok False)) TunSettingUp"
| "handle_event mv (CoreInspected oid r) = with_operation oid False (in_phase {Checking} (core_inspected r))"
| "handle_event mv (CorePrepared oid prepared) =
     with_operation oid False (\<lambda>u a.
       if pr_kind prepared = cu_kind u
       then in_phase {Downloading, Verifying} (\<lambda>u. u\<lparr>cu_prepared := Some prepared, cu_phase := ReadyPhase\<rparr>) u a
       else (a, []))"
| "handle_event mv (CoreUpdateProgress oid progress) =
     with_operation oid False
       (in_phase {Downloading, Verifying} (\<lambda>u. if progress = ProgressVerifying then u\<lparr>cu_phase := Verifying\<rparr> else u))"
| "handle_event mv (CoreUpdateSwitching oid) =
     with_operation oid False (in_phase {Preparing} (\<lambda>u. u\<lparr>cu_phase := Switching\<rparr>))"
| "handle_event mv (CoreUpdateFinished oid r) =
     with_operation oid True (\<lambda>u a. if terminal (cu_phase u) then (a, []) else update_finished mv r u a)"

section \<open>The interface as a system of tasks\<close>

text \<open>The running tasks, the handle the application keeps of the last one, the actions sent and not yet
  handled, and, for the statements only, which confirmations the user gave.\<close>

record ui_sys =
  us_app :: app
  us_tasks :: "op_task list"
  us_handle :: "op_task option"
  us_channel :: "op_action list"
  us_confirmed :: "(u64 \<times> update_phase) set"

definition handle_running :: "ui_sys \<Rightarrow> bool" where
  "handle_running s \<longleftrightarrow> is_some_and (us_handle s) (\<lambda>t. t \<in> set (us_tasks s))"

fun spawned :: "ui_effect list \<Rightarrow> op_task list" where
  "spawned [] = []"
| "spawned (SpawnOperation t # es) = t # spawned es"
| "spawned (_ # es) = spawned es"

definition run_handler :: "handler \<Rightarrow> ui_sys \<Rightarrow> ui_sys" where
  "run_handler h s =
     (let (a, es) = h (us_app s) in
      s\<lparr>us_app := a, us_tasks := spawned es @ us_tasks s,
        us_handle := (case spawned es of [] \<Rightarrow> us_handle s | t # _ \<Rightarrow> Some t)\<rparr>)"

text \<open>The user agrees to what the interface shows.\<close>

definition record_confirmation :: "ui_sys \<Rightarrow> ui_sys" where
  "record_confirmation s =
     s\<lparr>us_confirmed := (case ap_update (us_app s) of
         Some u \<Rightarrow> insert (cu_id u, cu_phase u) (us_confirmed s) | None \<Rightarrow> us_confirmed s)\<rparr>"

text \<open>What the inspection of a kind of core may find, and with which actions a task may end: an inspection that
  is cancelled may end without one, a cancelled download does.\<close>

inductive inspection_result :: "core_kind \<Rightarrow> core_inspection \<Rightarrow> bool" where
  any_core: "inspection_result kind (inspect_core env disk kind)"
| exact_core: "inspect_exact env disk kind p = Inr c \<Longrightarrow> inspection_result kind (CoreReady c)"

inductive task_ends :: "(u64 \<Rightarrow> bool) \<Rightarrow> op_task \<Rightarrow> op_action list \<Rightarrow> bool" for flags where
  inspected: "inspection_result kind r \<Longrightarrow> task_ends flags (Inspect oid kind) [CoreInspected oid r]"
| inspection_failed: "task_ends flags (Inspect oid kind) [CoreUpdateFinished oid (Inl e)]"
| inspection_cancelled: "flags oid \<Longrightarrow> task_ends flags (Inspect oid kind) []"
| acquired: "\<not> flags oid \<Longrightarrow>
    acquire env lk io dl uuid kind \<lparr>au_kind = kind, au_operation_id = oid\<rparr> disk = Some (Inr c, disk') \<Longrightarrow>
    task_ends flags (Acquire oid kind) [CorePrepared oid c]"
| acquisition_failed: "\<not> flags oid \<Longrightarrow> task_ends flags (Acquire oid kind) [CoreUpdateFinished oid (Inl e)]"
| acquisition_cancelled: "flags oid \<Longrightarrow> task_ends flags (Acquire oid kind) []"
| tun_checked: "task_ends flags (TunCheck context)
    [CoreTunChecked context (check_tun_with context (flags (gc_id context)) owner root capable)]"
| tun_set_up: "task_ends flags (TunSetup context password) [CoreTunSetupFinished context
    (tun_setup_work owner_before cancelled_before setup owner_after cancelled_after probe)]"
| tun_setup_lost: "task_ends flags (TunSetup context password) [CoreTunSetupFinished context (Inl e)]"
| applied: "task_ends flags (Apply context) [CoreUpdateFinished (gc_id context) r]"

inductive task_reports :: "op_task \<Rightarrow> op_action \<Rightarrow> bool" where
  "task_reports (Acquire oid kind) (CoreUpdateProgress oid progress)"
| "task_reports (Apply context) (CoreUpdateSwitching (gc_id context))"

text \<open>A change by another part of the application: it never touches the operation, its flags or a pending
  guided setup other than by replacing it with another pending action.\<close>

definition other_change :: "app \<Rightarrow> app \<Rightarrow> bool" where
  "other_change a a' \<longleftrightarrow>
     ap_update a' = ap_update a \<and> ap_flags a' = ap_flags a \<and> ap_sequence a' = ap_sequence a \<and>
     ap_pending_sudo a' \<in> {ap_pending_sudo a, Some OtherSudo, None}"

inductive ui_step :: "ui_sys \<Rightarrow> ui_sys \<Rightarrow> bool" where
  user_begins: "ui_step s (run_handler (begin_with mv (handle_running s) kind intent) s)"
| user_confirms: "ui_step s (run_handler (confirm_update mv) (record_confirmation s))"
| user_opens_password: "ui_step s (run_handler confirm_tun_setup s)"
| user_submits_password: "ui_step s (run_handler (submit_password mv) (record_confirmation s))"
| user_cancels: "ui_step s (run_handler cancel_update s)"
| user_leaves_password: "ui_step s (run_handler cancel_password s)"
| user_skips_setup: "ui_step s (run_handler skip_tun_setup_start s)"
| user_stops: "ui_step s ((run_handler stop_core s)\<lparr>us_handle := None\<rparr>)"
| elsewhere: "other_change (us_app s) a \<Longrightarrow> ui_step s (s\<lparr>us_app := a\<rparr>)"
| report: "t \<in> set (us_tasks s) \<Longrightarrow> task_reports t x \<Longrightarrow> ui_step s (s\<lparr>us_channel := us_channel s @ [x]\<rparr>)"
| task_end: "t \<in> set (us_tasks s) \<Longrightarrow> task_ends (ap_flags (us_app s)) t xs \<Longrightarrow>
    ui_step s (s\<lparr>us_tasks := remove1 t (us_tasks s), us_channel := us_channel s @ xs\<rparr>)"
| event: "us_channel s = x # rest \<Longrightarrow> ui_step s (run_handler (handle_event mv x) (s\<lparr>us_channel := rest\<rparr>))"

definition ui_start :: "app \<Rightarrow> ui_sys" where
  "ui_start a =
     \<lparr>us_app = a\<lparr>ap_update := None, ap_pending_sudo := None\<rparr>, us_tasks = [], us_handle = None, us_channel = [],
      us_confirmed = {}\<rparr>"

inductive ui_reach :: "ui_sys \<Rightarrow> bool" where
  ui_reach_start: "ui_reach (ui_start a)"
| ui_reach_step: "ui_reach s \<Longrightarrow> ui_step s s' \<Longrightarrow> ui_reach s'"

section \<open>Ended operations\<close>

lemma not_matching_terminal:
  "terminal (cu_phase u) \<Longrightarrow> ap_update a = Some u \<Longrightarrow> ph \<in> {TunChecking, TunConsent, TunSettingUp} \<Longrightarrow>
     tun_result_with mv c r ph f a = (a, [])"
  by (auto simp: tun_result_with_def context_matches_def terminal_def)

text \<open>Once an operation succeeded, failed or was cancelled, no action of any task changes the application
  state or starts anything: late results of an inspection, a download, a permission setup or a core switch
  cannot revive it.\<close>

theorem ended_operation_ignores_actions:
  assumes "ap_update a = Some u" "terminal (cu_phase u)"
  shows "handle_event mv x a = (a, [])"
  using assms
  by (cases x)
     (auto simp: tun_result_def not_matching_terminal with_operation_def in_phase_def, auto simp: terminal_def)

definition sample_ended :: core_update where
  "sample_ended = \<lparr>cu_id = 1, cu_generation = 0, cu_kind = Mihomo, cu_intent = StartIntent, cu_phase = Cancelled,
     cu_request = None, cu_prepared = None, cu_message = NoMessage\<rparr>"

definition sample_app :: app where
  "sample_app =
     \<lparr>ap_update = None, ap_flags = (\<lambda>_. False), ap_sequence = 0, ap_overlay = None, ap_pending_sudo = None,
      ap_password = [], ap_status = None, ap_core_state = Stopped, ap_core_pid = None, ap_core_version = None,
      ap_proxy_core = None, ap_enable_tun = None, ap_enable_system_proxy = None, ap_proxy_auto_config = None,
      ap_tun_privileged = False, ap_log_level = ''info'', ap_configured_log_level = ''info''\<rparr>"

definition sample_view :: manager_view where
  "sample_view = \<lparr>mv_generation = 0, mv_state = Stopped, mv_pid = None, mv_kind = Mihomo, mv_binary_path = None,
     mv_preflight = (\<lambda>_ _. Ok ()), mv_tun_capability = (\<lambda>_. False)\<rparr>"

theorem ended_operation_ignores_actions_witness:
  "handle_event sample_view (CoreUpdateFinished 1 (Ok ())) (sample_app\<lparr>ap_update := Some sample_ended\<rparr>) =
     (sample_app\<lparr>ap_update := Some sample_ended\<rparr>, [])"
  by (rule ended_operation_ignores_actions [of _ sample_ended]) (simp_all add: sample_ended_def terminal_def)

section \<open>Confirmed work only\<close>

text \<open>What the confirmations so far allow a task to do and a phase to be reached.\<close>

definition task_allowed :: "(u64 \<times> update_phase) set \<Rightarrow> op_task \<Rightarrow> bool" where
  "task_allowed confirmed t =
     (case t of
        Inspect _ _ \<Rightarrow> True
      | Acquire oid kind \<Rightarrow> (oid, Consent) \<in> confirmed
      | TunCheck c \<Rightarrow> (gc_id c, ReadyPhase) \<in> confirmed
      | TunSetup c _ \<Rightarrow> (gc_id c, ReadyPhase) \<in> confirmed \<and> (gc_id c, TunConsent) \<in> confirmed
      | Apply c \<Rightarrow> (gc_id c, ReadyPhase) \<in> confirmed \<and> gc_intent c \<noteq> TunSetupIntent \<and>
          is_compatible (kind_as_str (pr_kind (gc_prepared c))) (pr_version (gc_prepared c))
            (target_version (pr_kind (gc_prepared c))) = Ok True)"

definition phase_allowed :: "(u64 \<times> update_phase) set \<Rightarrow> core_update option \<Rightarrow> bool" where
  "phase_allowed confirmed up \<longleftrightarrow>
     (\<forall>u. up = Some u \<and> cu_phase u \<in> {TunChecking, TunConsent, TunSettingUp, Preparing, Switching} \<longrightarrow>
        (cu_id u, ReadyPhase) \<in> confirmed)"

definition authorised :: "ui_sys \<Rightarrow> bool" where
  "authorised s \<longleftrightarrow>
     (\<forall>t \<in> set (us_tasks s). task_allowed (us_confirmed s) t) \<and>
     phase_allowed (us_confirmed s) (ap_update (us_app s))"

text \<open>A handler keeps to the confirmations.\<close>

definition keeps_to :: "(u64 \<times> update_phase) set \<Rightarrow> app \<times> ui_effect list \<Rightarrow> bool" where
  "keeps_to confirmed r \<longleftrightarrow>
     (\<forall>t \<in> set (spawned (snd r)). task_allowed confirmed t) \<and> phase_allowed confirmed (ap_update (fst r))"

lemma authorised_run:
  "authorised s \<Longrightarrow> keeps_to (us_confirmed s) (h (us_app s)) \<Longrightarrow> authorised (run_handler h s)"
  by (auto simp: authorised_def keeps_to_def run_handler_def split: prod.splits)

lemma spawned_append [simp]: "spawned (xs @ ys) = spawned xs @ spawned ys"
  by (induction xs rule: spawned.induct) auto

lemma note_started_neutral [simp]:
  "ap_update (fst (note_started mv v p src a)) = ap_update a" "spawned (snd (note_started mv v p src a)) = []"
  by (auto simp: note_started_def Let_def split: option.splits)

lemma note_started_pair:
  "note_started mv v p src a = (b, es) \<Longrightarrow> ap_update b = ap_update a \<and> spawned es = []"
  using note_started_neutral [of mv v p src a] by simp

lemma update_finished_result:
  "\<exists>ph m. terminal ph \<and> ap_update (fst (update_finished mv r u a)) = Some (set_phase ph m u) \<and>
     spawned (snd (update_finished mv r u a)) = []"
proof -
  let ?ph = "case r of Inr _ \<Rightarrow> Success | Inl _ \<Rightarrow> if ap_flags a (cu_id u) then Cancelled else FailedPhase"
  let ?m = "case r of Inr _ \<Rightarrow> MessageText [] | Inl e \<Rightarrow> MessageText e"
  have "terminal ?ph" by (auto simp: terminal_def split: sum.splits)
  moreover have "ap_update (fst (update_finished mv r u a)) = Some (set_phase ?ph ?m u)"
    "spawned (snd (update_finished mv r u a)) = []"
    by (auto simp: update_finished_def Let_def split: prod.splits dest!: note_started_pair)
  ultimately show ?thesis by blast
qed

lemma start_apply_keeps:
  assumes "(gc_id c, ReadyPhase) \<in> confirmed" "\<And>u. ap_update a = Some u \<Longrightarrow> cu_id u = gc_id c"
  shows "keeps_to confirmed (start_apply c a)"
  using assms
  by (auto simp: start_apply_def keeps_to_def task_allowed_def phase_allowed_def set_update_def set_phase_def
      split: option.splits)

lemma tun_result_with_keeps:
  assumes "phase_allowed confirmed (ap_update a)" "ph \<in> {TunChecking, TunConsent, TunSettingUp}"
    and "\<And>u. ap_update a = Some u \<Longrightarrow> cu_id u = gc_id c \<Longrightarrow> (gc_id c, ReadyPhase) \<in> confirmed \<Longrightarrow> keeps_to confirmed (f c a)"
  shows "keeps_to confirmed (tun_result_with mv c r ph f a)"
proof (cases "context_matches mv c ph a")
  case True
  then obtain u where u: "ap_update a = Some u" "cu_id u = gc_id c" "cu_phase u = ph"
    by (auto simp: context_matches_def is_some_and_iff)
  with assms(1,2) have "(gc_id c, ReadyPhase) \<in> confirmed" by (auto simp: phase_allowed_def)
  with assms(3) u True show ?thesis
    by (auto simp: tun_result_with_def keeps_to_def phase_allowed_def set_update_def set_phase_def
        split: sum.splits bool.splits)
qed (use assms(1) in \<open>auto simp: tun_result_with_def keeps_to_def phase_allowed_def set_update_def set_phase_def\<close>)

lemma tun_result_keeps:
  "phase_allowed confirmed (ap_update a) \<Longrightarrow> ph \<in> {TunChecking, TunConsent, TunSettingUp} \<Longrightarrow>
     keeps_to confirmed (tun_result mv c r ph a)"
  unfolding tun_result_def by (rule tun_result_with_keeps) (auto intro!: start_apply_keeps)

lemma handle_event_keeps:
  assumes "phase_allowed confirmed (ap_update a)"
  shows "keeps_to confirmed (handle_event mv x a)"
proof (cases x)
  case (CoreUpdateFinished oid r)
  show ?thesis
  proof (cases "ap_update a")
    case (Some u)
    obtain ph m where "terminal ph" "ap_update (fst (update_finished mv r u a)) = Some (set_phase ph m u)"
      "spawned (snd (update_finished mv r u a)) = []" using update_finished_result by blast
    then show ?thesis
      using assms Some CoreUpdateFinished
      by (auto simp: with_operation_def keeps_to_def phase_allowed_def terminal_def set_phase_def)
  qed (simp add: CoreUpdateFinished with_operation_def keeps_to_def phase_allowed_def)
next
  case (CoreTunChecked c r)
  then show ?thesis using tun_result_keeps assms by simp
next
  case (CoreTunSetupFinished c r)
  then show ?thesis using tun_result_keeps assms by simp
qed (use assms in \<open>auto simp: with_operation_def in_phase_def keeps_to_def phase_allowed_def core_inspected_def
    set_phase_def split: option.splits core_inspection.splits\<close>)

lemma confirm_update_keeps:
  assumes "phase_allowed confirmed (ap_update a)" "\<And>u. ap_update a = Some u \<Longrightarrow> (cu_id u, cu_phase u) \<in> confirmed"
  shows "keeps_to confirmed (confirm_update mv a)"
proof (cases "ap_update a")
  case (Some u)
  then have c: "(cu_id u, cu_phase u) \<in> confirmed" using assms(2) by blast
  show ?thesis
  proof (cases "cu_phase u = ReadyPhase \<and> cu_generation u = mv_generation mv \<and> \<not> ap_flags a (cu_id u)")
    case True
    show ?thesis
    proof (cases "cu_prepared u")
      case prepared: (Some pr)
      have ctx: "gc_id (tun_context a u pr) = cu_id u" by (simp add: tun_context_def)
      then have "keeps_to confirmed (start_apply (tun_context a u pr) a)"
        using c True Some by (intro start_apply_keeps) auto
      then show ?thesis
        using True c Some prepared ctx
        by (auto simp: confirm_update_def Let_def keeps_to_def task_allowed_def phase_allowed_def)
    qed (use True Some assms(1) in \<open>simp add: confirm_update_def keeps_to_def\<close>)
  next
    case False
    then show ?thesis
      using assms(1) c Some
      by (auto simp: confirm_update_def confirm_tun_setup_def keeps_to_def task_allowed_def phase_allowed_def
          set_phase_def split: update_phase.splits)
  qed
qed (simp add: confirm_update_def keeps_to_def phase_allowed_def)

lemma submit_password_keeps:
  assumes "phase_allowed confirmed (ap_update a)" "\<And>u. ap_update a = Some u \<Longrightarrow> (cu_id u, cu_phase u) \<in> confirmed"
  shows "keeps_to confirmed (submit_password mv a)"
proof (cases "\<exists>c. ap_pending_sudo a = Some (GuidedTunSetup c)")
  case True
  then obtain c where c: "ap_pending_sudo a = Some (GuidedTunSetup c)" by blast
  let ?a = "a\<lparr>ap_pending_sudo := None, ap_password := []\<rparr>"
  have allowed: "phase_allowed confirmed (ap_update ?a)" using assms(1) by simp
  show ?thesis
  proof (cases "ap_overlay ?a = Some PasswordInput \<and> context_matches mv c TunConsent ?a")
    case True
    then obtain u where "ap_update a = Some u" "cu_id u = gc_id c" "cu_phase u = TunConsent"
      by (auto simp: context_matches_def is_some_and_iff)
    moreover from this assms have "(gc_id c, TunConsent) \<in> confirmed" "(gc_id c, ReadyPhase) \<in> confirmed"
      by (auto simp: phase_allowed_def)
    ultimately show ?thesis
      using True c by (auto simp: submit_password_def submit_tun_setup_def keeps_to_def task_allowed_def phase_allowed_def
          set_update_def)
  next
    case False
    have "keeps_to confirmed (tun_result_with mv c (Err ''Core setup context changed'') TunConsent (\<lambda>_ a. (a, [])) ?a)"
      using allowed by (intro tun_result_with_keeps) (auto simp: keeps_to_def)
    then show ?thesis
      using False c allowed by (auto simp: submit_password_def submit_tun_setup_def keeps_to_def)
  qed
next
  case False
  then show ?thesis
    using assms(1) by (auto simp: submit_password_def keeps_to_def split: option.splits pending_sudo.splits)
qed

lemma cancel_update_keeps:
  "phase_allowed confirmed (ap_update a) \<Longrightarrow> keeps_to confirmed (cancel_update a)"
  by (auto simp: cancel_update_def keeps_to_def phase_allowed_def set_phase_def split: option.splits)

lemma other_handlers_keep:
  assumes "phase_allowed confirmed (ap_update a)"
  shows "keeps_to confirmed (begin_with mv b kind intent a)" "keeps_to confirmed (confirm_tun_setup a)"
    "keeps_to confirmed (cancel_password a)" "keeps_to confirmed (skip_tun_setup_start a)" "keeps_to confirmed (stop_core a)"
proof -
  have cancel: "keeps_to confirmed (cancel_update a')" if "ap_update a' = ap_update a" for a'
    using assms that by (intro cancel_update_keeps) simp
  have stay: "keeps_to confirmed (a, [])" using assms by (simp add: keeps_to_def)
  show "keeps_to confirmed (cancel_password a)" "keeps_to confirmed (skip_tun_setup_start a)"
    using cancel stay
    by (auto simp: cancel_password_def skip_tun_setup_start_def split: option.splits pending_sudo.splits)
  show "keeps_to confirmed (begin_with mv b kind intent a)" "keeps_to confirmed (confirm_tun_setup a)"
    "keeps_to confirmed (stop_core a)"
    using assms
    by (auto simp: begin_with_def confirm_tun_setup_def stop_core_def keeps_to_def task_allowed_def phase_allowed_def
        Let_def)
qed

lemma allowed_mono:
  "confirmed \<subseteq> confirmed' \<Longrightarrow> task_allowed confirmed t \<Longrightarrow> task_allowed confirmed' t"
  "confirmed \<subseteq> confirmed' \<Longrightarrow> phase_allowed confirmed up \<Longrightarrow> phase_allowed confirmed' up"
  by (auto simp: task_allowed_def phase_allowed_def split: op_task.splits)

lemma authorised_record:
  assumes "authorised s"
  shows "authorised (record_confirmation s)"
    "\<And>u. ap_update (us_app (record_confirmation s)) = Some u \<Longrightarrow> (cu_id u, cu_phase u) \<in> us_confirmed (record_confirmation s)"
    "us_app (record_confirmation s) = us_app s"
  using assms allowed_mono [OF subset_insertI]
  by (auto simp: record_confirmation_def authorised_def split: option.splits)

lemma authorised_phase: "authorised s \<Longrightarrow> phase_allowed (us_confirmed s) (ap_update (us_app s))"
  by (simp add: authorised_def)

lemma authorised_step: "ui_step s s' \<Longrightarrow> authorised s \<Longrightarrow> authorised s'"
proof (induction rule: ui_step.induct)
  case (user_confirms s mv)
  from authorised_record [OF this] show ?case
    by (intro authorised_run confirm_update_keeps) (auto simp: authorised_def)
next
  case (user_submits_password s mv)
  from authorised_record [OF this] show ?case
    by (intro authorised_run submit_password_keeps) (auto simp: authorised_def)
next
  case (user_stops s)
  then have "authorised (run_handler stop_core s)"
    by (intro authorised_run other_handlers_keep) (auto simp: authorised_def)
  then show ?case by (simp add: authorised_def)
next
  case (event s x rest mv)
  then have "authorised (s\<lparr>us_channel := rest\<rparr>)" by (simp add: authorised_def)
  then show ?case by (rule authorised_run) (use event in \<open>auto simp: authorised_def intro: handle_event_keeps\<close>)
next
  case (elsewhere s a)
  then show ?case by (auto simp: authorised_def other_change_def)
next
  case (task_end t s xs)
  then show ?case using set_remove1_subset [of t "us_tasks s"] by (auto simp: authorised_def)
next
  case (report t s x)
  then show ?case by (simp add: authorised_def)
qed (auto intro!: authorised_run other_handlers_keep cancel_update_keeps authorised_phase)

lemma authorised_reach: "ui_reach s \<Longrightarrow> authorised s"
proof (induction rule: ui_reach.induct)
  case (ui_reach_start a)
  show ?case by (simp add: ui_start_def authorised_def phase_allowed_def)
qed (rule authorised_step)

text \<open>C33: In every run of the guided core operations, whatever their tasks report and whenever the user acts, a
  download is started only for an operation whose download the user confirmed, and a core is applied only for an
  operation whose prepared core the user confirmed, with a version the policy accepts and never for a mere
  permission setup; the privileged setup runs only after its own confirmation as well. This is about the tasks of
  these operations. The automatic restart of the watcher and the application of a sing-box profile resolve the core
  on their own, and install one without asking; they are no part of these runs.\<close>

theorem only_confirmed_work_runs:
  assumes "ui_reach s"
  shows "(Acquire oid kind \<in> set (us_tasks s) \<longrightarrow> (oid, Consent) \<in> us_confirmed s) \<and>
    (TunSetup c password \<in> set (us_tasks s) \<longrightarrow>
       (gc_id c, ReadyPhase) \<in> us_confirmed s \<and> (gc_id c, TunConsent) \<in> us_confirmed s) \<and>
    (Apply c \<in> set (us_tasks s) \<longrightarrow>
       (gc_id c, ReadyPhase) \<in> us_confirmed s \<and> gc_intent c \<noteq> TunSetupIntent \<and>
       is_compatible (kind_as_str (pr_kind (gc_prepared c))) (pr_version (gc_prepared c))
         (target_version (pr_kind (gc_prepared c))) = Ok True)"
  using authorised_reach [OF assms] by (fastforce simp: authorised_def task_allowed_def)

section \<open>No operation is lost\<close>

text \<open>Phases in which the interface waits for a task and not for the user, and what it waits for.\<close>

definition pending_work :: "core_update \<Rightarrow> op_task set \<Rightarrow> op_action set \<Rightarrow> bool" where
  "pending_work u tasks channel \<longleftrightarrow>
     (let oid = cu_id u; reported = (\<exists>r. CoreUpdateFinished oid r \<in> channel) in
      case cu_phase u of
        Checking \<Rightarrow> (\<exists>k. Inspect oid k \<in> tasks) \<or> (\<exists>r. CoreInspected oid r \<in> channel) \<or> reported
      | Downloading \<Rightarrow> Acquire oid (cu_kind u) \<in> tasks \<or>
          (\<exists>p. CorePrepared oid p \<in> channel \<and> pr_kind p = cu_kind u) \<or> reported
      | Verifying \<Rightarrow> Acquire oid (cu_kind u) \<in> tasks \<or>
          (\<exists>p. CorePrepared oid p \<in> channel \<and> pr_kind p = cu_kind u) \<or> reported
      | TunChecking \<Rightarrow> (\<exists>c. gc_id c = oid \<and> (TunCheck c \<in> tasks \<or> (\<exists>r. CoreTunChecked c r \<in> channel)))
      | TunSettingUp \<Rightarrow>
          (\<exists>c. gc_id c = oid \<and> ((\<exists>pw. TunSetup c pw \<in> tasks) \<or> (\<exists>r. CoreTunSetupFinished c r \<in> channel)))
      | Preparing \<Rightarrow> (\<exists>c. gc_id c = oid \<and> Apply c \<in> tasks) \<or> reported
      | Switching \<Rightarrow> (\<exists>c. gc_id c = oid \<and> Apply c \<in> tasks) \<or> reported
      | _ \<Rightarrow> True)"

definition not_lost :: "app \<Rightarrow> op_task set \<Rightarrow> op_action set \<Rightarrow> bool" where
  "not_lost a tasks channel \<longleftrightarrow>
     (\<forall>u. ap_update a = Some u \<and> \<not> ap_flags a (cu_id u) \<longrightarrow> pending_work u tasks channel)"

lemma pending_work_mono:
  "tasks \<subseteq> tasks' \<Longrightarrow> channel \<subseteq> channel' \<Longrightarrow> pending_work u tasks channel \<Longrightarrow> pending_work u tasks' channel'"
  unfolding pending_work_def Let_def by (cases "cu_phase u"; simp; blast)

lemma not_lost_mono: "tasks \<subseteq> tasks' \<Longrightarrow> channel \<subseteq> channel' \<Longrightarrow> not_lost a tasks channel \<Longrightarrow> not_lost a tasks' channel'"
  using pending_work_mono by (auto simp: not_lost_def)

text \<open>A handler starts what the phase it reaches waits for.\<close>

definition serves :: "op_task set \<Rightarrow> op_action set \<Rightarrow> app \<times> ui_effect list \<Rightarrow> bool" where
  "serves tasks channel r \<longleftrightarrow> not_lost (fst r) (set (spawned (snd r)) \<union> tasks) channel"

lemma serves_same:
  "not_lost a tasks channel \<Longrightarrow> ap_update a' = ap_update a \<Longrightarrow> ap_flags a' = ap_flags a \<Longrightarrow> serves tasks channel (a', es)"
  unfolding serves_def not_lost_def using pending_work_mono [of tasks] by (metis Un_upper2 fst_conv order_refl)

lemma pending_rest: "cu_phase u \<in> {Consent, ReadyPhase, TunConsent, Success, FailedPhase, Cancelled} \<Longrightarrow> pending_work u tasks channel"
  by (auto simp: pending_work_def)

lemma serves_rest:
  "\<forall>u. ap_update (fst r) = Some u \<longrightarrow> cu_phase u \<in> {Consent, ReadyPhase, TunConsent, Success, FailedPhase, Cancelled} \<Longrightarrow>
     serves tasks channel r"
  using pending_rest by (auto simp: serves_def not_lost_def)

lemma start_apply_serves:
  assumes "\<And>u. ap_update a = Some u \<Longrightarrow> cu_id u = gc_id c"
  shows "serves tasks channel (start_apply c a)"
proof (cases "gc_intent c = TunSetupIntent \<or> is_compatible (kind_as_str (pr_kind (gc_prepared c)))
    (pr_version (gc_prepared c)) (target_version (pr_kind (gc_prepared c))) \<noteq> Ok True")
  case True
  then show ?thesis by (intro serves_rest) (auto simp: start_apply_def set_update_def set_phase_def)
next
  case False
  then show ?thesis
    using assms by (auto simp: start_apply_def serves_def not_lost_def pending_work_def Let_def split: option.splits)
qed

lemma tun_result_with_serves:
  assumes "ph \<in> {TunChecking, TunConsent, TunSettingUp}"
    and other: "\<And>u. ap_update a = Some u \<Longrightarrow> \<not> (cu_id u = gc_id c \<and> cu_phase u = ph) \<Longrightarrow> \<not> ap_flags a (cu_id u) \<Longrightarrow>
      pending_work u tasks channel"
    and apply_ok: "\<And>u. ap_update a = Some u \<Longrightarrow> cu_id u = gc_id c \<Longrightarrow> serves tasks channel (f c a)"
  shows "serves tasks channel (tun_result_with mv c r ph f a)"
proof (cases "context_matches mv c ph a")
  case True
  then obtain u where u: "ap_update a = Some u" "cu_id u = gc_id c" "cu_phase u = ph"
    by (auto simp: context_matches_def is_some_and_iff)
  show ?thesis
  proof (cases "r = Inr False")
    case False
    with True u show ?thesis
      by (intro serves_rest)
        (auto simp: tun_result_with_def set_update_def set_phase_def split: sum.splits bool.splits)
  qed (use True apply_ok u in \<open>simp add: tun_result_with_def\<close>)
next
  case False
  show ?thesis
  proof (cases "is_some_and (ap_update a) (\<lambda>u. cu_id u = gc_id c \<and> cu_phase u = ph \<and> \<not> ap_flags a (cu_id u))")
    case True
    with False show ?thesis
      by (intro serves_rest) (auto simp: tun_result_with_def set_update_def set_phase_def)
  next
    case unmatched: False
    have "not_lost a tasks channel" using other unmatched by (fastforce simp: not_lost_def is_some_and_iff)
    with False unmatched show ?thesis by (simp add: tun_result_with_def serves_same)
  qed
qed

lemma pending_other_action:
  assumes "pending_work u tasks (insert x channel)"
    and "case x of
        CoreInspected oid r \<Rightarrow> \<not> (oid = cu_id u \<and> cu_phase u = Checking)
      | CorePrepared oid p \<Rightarrow> \<not> (oid = cu_id u \<and> pr_kind p = cu_kind u \<and> cu_phase u \<in> {Downloading, Verifying})
      | CoreUpdateFinished oid r \<Rightarrow> \<not> (oid = cu_id u \<and> \<not> terminal (cu_phase u))
      | CoreTunChecked c r \<Rightarrow> \<not> (gc_id c = cu_id u \<and> cu_phase u = TunChecking)
      | CoreTunSetupFinished c r \<Rightarrow> \<not> (gc_id c = cu_id u \<and> cu_phase u = TunSettingUp)
      | _ \<Rightarrow> True"
  shows "pending_work u tasks channel"
  using assms by (cases "cu_phase u"; cases x) (auto simp: pending_work_def Let_def terminal_def)

lemma tun_result_serves:
  assumes "not_lost a tasks (insert x channel)" "ph \<in> {TunChecking, TunSettingUp}"
    and "x = CoreTunChecked c r' \<and> ph = TunChecking \<or> x = CoreTunSetupFinished c r'' \<and> ph = TunSettingUp"
  shows "serves tasks channel (tun_result mv c r ph a)"
  unfolding tun_result_def
proof (rule tun_result_with_serves)
  show "ph \<in> {TunChecking, TunConsent, TunSettingUp}" using assms(2) by auto
  show "pending_work u tasks channel"
    if "ap_update a = Some u" "\<not> (cu_id u = gc_id c \<and> cu_phase u = ph)" "\<not> ap_flags a (cu_id u)" for u
  proof -
    have "pending_work u tasks (insert x channel)" using assms(1) that by (auto simp: not_lost_def)
    from pending_other_action [OF this] show ?thesis using assms(3) that by auto
  qed
  show "serves tasks channel (start_apply c a)" if "ap_update a = Some u" "cu_id u = gc_id c" for u
    using that by (intro start_apply_serves) simp
qed

lemma ignored_action_serves:
  assumes "not_lost a tasks (insert x channel)" "handle_event mv x a = (a, [])"
    and "\<And>u. ap_update a = Some u \<Longrightarrow> \<not> ap_flags a (cu_id u) \<Longrightarrow> pending_work u tasks (insert x channel) \<Longrightarrow>
      pending_work u tasks channel"
  shows "serves tasks channel (handle_event mv x a)"
  using assms by (auto simp: serves_def not_lost_def)

lemma handle_event_serves:
  assumes "not_lost a tasks (insert x channel)"
  shows "serves tasks channel (handle_event mv x a)"
proof (cases "ap_update a")
  case None
  then show ?thesis
    by (cases x) (auto simp: serves_def not_lost_def with_operation_def tun_result_def tun_result_with_def context_matches_def)
next
  case (Some u)
  have pend: "pending_work u tasks (insert x channel)" if "\<not> ap_flags a (cu_id u)"
    using assms Some that by (auto simp: not_lost_def)
  have keep: "serves tasks channel (a, es)"
    if "\<not> ap_flags a (cu_id u) \<Longrightarrow> pending_work u tasks channel" for es
    using that Some pending_work_mono [of tasks _ channel channel u]
    by (auto simp: serves_def not_lost_def)
  show ?thesis
  proof (cases x)
    case (CoreTunChecked c r)
    then show ?thesis using tun_result_serves [OF assms] by simp
  next
    case (CoreTunSetupFinished c r)
    then show ?thesis using tun_result_serves [OF assms] by simp
  next
    case (CoreInspected oid r)
    show ?thesis
    proof (cases "cu_id u = oid \<and> \<not> ap_flags a (cu_id u) \<and> cu_phase u = Checking")
      case True
      then show ?thesis
        by (intro serves_rest)
          (auto simp: CoreInspected Some with_operation_def in_phase_def core_inspected_def set_phase_def
            split: core_inspection.splits)
    next
      case False
      then have "handle_event mv x a = (a, [])"
        by (auto simp: CoreInspected Some with_operation_def in_phase_def)
      moreover have "serves tasks channel (a, [])"
        using False pend by (intro keep, intro pending_other_action [where x = x, OF pend]) (auto simp: CoreInspected)
      ultimately show ?thesis by simp
    qed
  next
    case (CorePrepared oid p)
    show ?thesis
    proof (cases "cu_id u = oid \<and> \<not> ap_flags a (cu_id u) \<and> cu_phase u \<in> {Downloading, Verifying} \<and> pr_kind p = cu_kind u")
      case True
      then show ?thesis
        by (intro serves_rest) (auto simp: CorePrepared Some with_operation_def in_phase_def)
    next
      case False
      then have "handle_event mv x a = (a, [])"
        by (auto simp: CorePrepared Some with_operation_def in_phase_def)
      moreover have "serves tasks channel (a, [])"
        using False pend by (intro keep, intro pending_other_action [where x = x, OF pend]) (auto simp: CorePrepared)
      ultimately show ?thesis by simp
    qed
  next
    case (CoreUpdateProgress oid progress)
    have rest: "\<not> ap_flags a (cu_id u) \<Longrightarrow> pending_work u tasks channel"
      using pend pending_other_action [of u tasks x channel] by (simp add: CoreUpdateProgress)
    show ?thesis
    proof (cases "cu_id u = oid \<and> \<not> ap_flags a (cu_id u) \<and> cu_phase u \<in> {Downloading, Verifying}")
      case True
      then show ?thesis
        using rest Some
        by (auto simp: CoreUpdateProgress with_operation_def in_phase_def serves_def not_lost_def pending_work_def)
    next
      case False
      then have "handle_event mv x a = (a, [])" by (auto simp: CoreUpdateProgress Some with_operation_def in_phase_def)
      with keep rest show ?thesis by simp
    qed
  next
    case (CoreUpdateSwitching oid)
    have rest: "\<not> ap_flags a (cu_id u) \<Longrightarrow> pending_work u tasks channel"
      using pend pending_other_action [of u tasks x channel] by (simp add: CoreUpdateSwitching)
    show ?thesis
    proof (cases "cu_id u = oid \<and> \<not> ap_flags a (cu_id u) \<and> cu_phase u \<in> {Preparing}")
      case True
      then show ?thesis
        using rest Some
        by (auto simp: CoreUpdateSwitching with_operation_def in_phase_def serves_def not_lost_def pending_work_def)
    next
      case False
      then have "handle_event mv x a = (a, [])" by (auto simp: CoreUpdateSwitching Some with_operation_def in_phase_def)
      with keep rest show ?thesis by simp
    qed
  next
    case (CoreUpdateFinished oid r)
    show ?thesis
    proof (cases "cu_id u = oid \<and> \<not> terminal (cu_phase u)")
      case True
      obtain ph m where "terminal ph" "ap_update (fst (update_finished mv r u a)) = Some (set_phase ph m u)"
        using update_finished_result by blast
      with True show ?thesis
        by (intro serves_rest) (auto simp: CoreUpdateFinished Some with_operation_def set_phase_def terminal_def)
    next
      case False
      then have "handle_event mv x a = (a, [])" by (auto simp: CoreUpdateFinished Some with_operation_def)
      moreover have "serves tasks channel (a, [])"
        using False pend by (intro keep, intro pending_other_action [where x = x, OF pend]) (auto simp: CoreUpdateFinished)
      ultimately show ?thesis by simp
    qed
  qed
qed

lemma confirm_update_serves:
  assumes "not_lost a tasks channel"
  shows "serves tasks channel (confirm_update mv a)"
proof (cases "ap_update a")
  case (Some u)
  show ?thesis
  proof (cases "cu_phase u = ReadyPhase \<and> cu_generation u = mv_generation mv \<and> \<not> ap_flags a (cu_id u)")
    case True
    show ?thesis
    proof (cases "cu_prepared u")
      case prepared: (Some pr)
      have "serves tasks channel (start_apply (tun_context a u pr) a)"
        using Some by (intro start_apply_serves) (simp add: tun_context_def)
      moreover have "gc_id (tun_context a u pr) = cu_id u" by (simp add: tun_context_def)
      ultimately show ?thesis
        using True Some prepared
        by (cases "gc_intent (tun_context a u pr) = SwitchIntent \<and> mv_state mv \<noteq> Running")
          (auto simp: confirm_update_def Let_def, auto simp: serves_def not_lost_def pending_work_def)
    qed (use True Some assms in \<open>simp add: confirm_update_def serves_same\<close>)
  next
    case False
    then show ?thesis
      using assms Some
      by (auto simp: confirm_update_def confirm_tun_setup_def set_phase_def serves_def not_lost_def pending_work_def
          Let_def split: update_phase.splits)
  qed
qed (use assms in \<open>simp add: confirm_update_def serves_same\<close>)

lemma submit_password_serves:
  assumes "not_lost a tasks channel"
  shows "serves tasks channel (submit_password mv a)"
proof (cases "\<exists>c. ap_pending_sudo a = Some (GuidedTunSetup c)")
  case True
  then obtain c where c: "ap_pending_sudo a = Some (GuidedTunSetup c)" by blast
  let ?a = "a\<lparr>ap_pending_sudo := None, ap_password := []\<rparr>"
  have lost: "not_lost ?a tasks channel" using assms by (simp add: not_lost_def)
  show ?thesis
  proof (cases "ap_overlay a = Some PasswordInput")
    case False
    with c lost show ?thesis by (simp add: submit_password_def submit_tun_setup_def serves_same)
  next
    case overlay: True
    show ?thesis
    proof (cases "context_matches mv c TunConsent ?a")
      case True
      then obtain u where "ap_update a = Some u" "cu_id u = gc_id c"
        by (auto simp: context_matches_def is_some_and_iff)
      with overlay True c show ?thesis
        by (auto simp: submit_password_def submit_tun_setup_def set_update_def serves_def not_lost_def pending_work_def)
    next
      case False
      have "serves tasks channel (tun_result_with mv c (Err ''Core setup context changed'') TunConsent (\<lambda>_ a. (a, [])) ?a)"
        using lost serves_same [of ?a tasks channel ?a]
        by (intro tun_result_with_serves) (auto simp: not_lost_def)
      with overlay False c show ?thesis by (simp add: submit_password_def submit_tun_setup_def)
    qed
  qed
qed (use assms in \<open>auto simp: submit_password_def serves_same split: option.splits pending_sudo.splits\<close>)

lemma cancel_update_serves:
  assumes "not_lost a tasks channel"
  shows "serves tasks channel (cancel_update a)"
proof (cases "ap_update a")
  case (Some u)
  then show ?thesis
    using assms
    by (auto simp: cancel_update_def serves_same) (auto simp: serves_def not_lost_def set_phase_def)
qed (use assms in \<open>simp add: cancel_update_def serves_same\<close>)

lemma other_handlers_serve:
  assumes "not_lost a tasks channel"
  shows "serves tasks channel (begin_with mv b kind intent a)" "serves tasks channel (confirm_tun_setup a)"
    "serves tasks channel (cancel_password a)" "serves tasks channel (skip_tun_setup_start a)"
    "serves tasks channel (stop_core a)"
proof -
  have cancel: "serves tasks channel (cancel_update a')"
    if "ap_update a' = ap_update a" "ap_flags a' = ap_flags a" for a'
    using assms that by (intro cancel_update_serves) (simp add: not_lost_def)
  show "serves tasks channel (begin_with mv b kind intent a)"
  proof (cases "b \<or> is_some_and (ap_update a) (\<lambda>u. \<not> terminal (cu_phase u))")
    case True
    then show ?thesis using assms by (auto simp: begin_with_def serves_same)
  next
    case False
    then show ?thesis by (auto simp: begin_with_def Let_def serves_def not_lost_def pending_work_def)
  qed
  show "serves tasks channel (cancel_password a)" "serves tasks channel (skip_tun_setup_start a)"
    using assms cancel serves_same
    by (auto simp: cancel_password_def skip_tun_setup_start_def split: option.splits pending_sudo.splits)
  show "serves tasks channel (confirm_tun_setup a)" using assms by (simp add: confirm_tun_setup_def serves_same)
  show "serves tasks channel (stop_core a)"
    using assms by (auto simp: stop_core_def serves_def not_lost_def split: option.splits)
qed

lemma acquire_kind: "acquire env lk io dl uuid kind auth disk = Some (Inr c, disk') \<Longrightarrow> pr_kind c = kind"
proof -
  assume acq: "acquire env lk io dl uuid kind auth disk = Some (Inr c, disk')"
  have ready: "pr_kind p = k" if "inspect_core env d k = CoreReady p" for d p k
    using offered_in_candidates [OF that [unfolded inspect_core_def]] prepared_of_Some by blast
  show ?thesis
    using acq
    by (auto simp: acquire_def Let_def op_bind_def op_lift_def dest: ready
        split: if_splits option.splits prod.splits sum.splits core_inspection.splits)
qed

inductive_cases inspect_ends: "task_ends flags (Inspect oid k) xs"
inductive_cases acquire_ends: "task_ends flags (Acquire oid k) xs"
inductive_cases tun_check_ends: "task_ends flags (TunCheck c) xs"
inductive_cases tun_setup_ends: "task_ends flags (TunSetup c pw) xs"
inductive_cases apply_ends: "task_ends flags (Apply c) xs"

lemmas task_end_cases = inspect_ends acquire_ends tun_check_ends tun_setup_ends apply_ends

text \<open>The task a phase waits for.\<close>

fun awaited :: "core_update \<Rightarrow> op_task \<Rightarrow> bool" where
  "awaited u (Inspect oid k) \<longleftrightarrow> oid = cu_id u \<and> cu_phase u = Checking"
| "awaited u (Acquire oid k) \<longleftrightarrow> oid = cu_id u \<and> k = cu_kind u \<and> cu_phase u \<in> {Downloading, Verifying}"
| "awaited u (TunCheck c) \<longleftrightarrow> gc_id c = cu_id u \<and> cu_phase u = TunChecking"
| "awaited u (TunSetup c pw) \<longleftrightarrow> gc_id c = cu_id u \<and> cu_phase u = TunSettingUp"
| "awaited u (Apply c) \<longleftrightarrow> gc_id c = cu_id u \<and> cu_phase u \<in> {Preparing, Switching}"

lemma pending_other_task: "pending_work u (insert t tasks) channel \<Longrightarrow> \<not> awaited u t \<Longrightarrow> pending_work u tasks channel"
  by (cases "cu_phase u"; cases t) (auto simp: pending_work_def Let_def)

lemma awaited_task_reports:
  assumes "awaited u t" "task_ends flags t xs" "\<not> flags (cu_id u)"
  shows "pending_work u tasks (channel \<union> set xs)"
proof (cases t)
  case (Acquire oid k)
  with assms(2) have "task_ends flags (Acquire oid k) xs" by simp
  then have "xs = [] \<and> flags oid \<or> (\<exists>e. xs = [CoreUpdateFinished oid (Inl e)]) \<or> (\<exists>c. xs = [CorePrepared oid c] \<and> pr_kind c = k)"
    by (rule acquire_ends) (auto dest: acquire_kind)
  then show ?thesis using assms(1,3) Acquire by (auto simp: pending_work_def Let_def)
qed (use assms in \<open>auto elim!: task_end_cases simp: pending_work_def Let_def, blast+\<close>)

lemma task_end_serves:
  assumes "pending_work u (insert t tasks) channel" "task_ends flags t xs" "\<not> flags (cu_id u)"
  shows "pending_work u tasks (channel \<union> set xs)"
proof (cases "awaited u t")
  case True
  then show ?thesis using awaited_task_reports assms(2,3) by blast
next
  case False
  from pending_work_mono [OF subset_refl Un_upper1 pending_other_task [OF assms(1) this]] show ?thesis .
qed

lemma not_lost_run:
  "serves (set (us_tasks s)) (set (us_channel s)) (h (us_app s)) \<Longrightarrow>
     not_lost (us_app (run_handler h s)) (set (us_tasks (run_handler h s))) (set (us_channel (run_handler h s)))"
  by (auto simp: run_handler_def serves_def split: prod.splits)

abbreviation sys_not_lost :: "ui_sys \<Rightarrow> bool" where
  "sys_not_lost s \<equiv> not_lost (us_app s) (set (us_tasks s)) (set (us_channel s))"

lemma not_lost_step: "ui_step s s' \<Longrightarrow> sys_not_lost s \<Longrightarrow> sys_not_lost s'"
proof (induction rule: ui_step.induct)
  case (user_confirms s mv)
  then show ?case by (intro not_lost_run) (auto simp: record_confirmation_def intro: confirm_update_serves)
next
  case (user_submits_password s mv)
  then show ?case by (intro not_lost_run) (auto simp: record_confirmation_def intro: submit_password_serves)
next
  case (user_stops s)
  then have "sys_not_lost (run_handler stop_core s)" by (intro not_lost_run other_handlers_serve)
  then show ?case by simp
next
  case (elsewhere s a)
  then show ?case by (simp add: other_change_def not_lost_def)
next
  case (report t s x)
  from not_lost_mono [OF subset_refl subset_insertI report(3)] show ?case by simp
next
  case (task_end t s xs)
  have "set (us_tasks s) \<subseteq> insert t (set (remove1 t (us_tasks s)))" using in_set_remove1 by fastforce
  then have "not_lost (us_app s) (insert t (set (remove1 t (us_tasks s)))) (set (us_channel s))"
    using task_end(3) not_lost_mono by blast
  then show ?case using task_end_serves task_end(2) by (auto simp: not_lost_def)
next
  case (event s x rest mv)
  then have "serves (set (us_tasks s)) (set rest) (handle_event mv x (us_app s))"
    by (intro handle_event_serves) simp
  then show ?case by (intro not_lost_run) simp
qed (auto intro!: not_lost_run other_handlers_serve cancel_update_serves)

lemma not_lost_reach: "ui_reach s \<Longrightarrow> sys_not_lost s"
proof (induction rule: ui_reach.induct)
  case (ui_reach_start a)
  show ?case by (simp add: ui_start_def not_lost_def)
qed (rule not_lost_step)

text \<open>In every run, an operation that is not cancelled and waits for a task is never lost: the task of its
  phase still runs, or the action with which it ended is still in the channel, and the event loop will take the
  operation to its next phase. The interface never shows progress for work that no longer exists.\<close>

theorem waiting_operation_has_work:
  assumes "ui_reach s" "ap_update (us_app s) = Some u" "\<not> ap_flags (us_app s) (cu_id u)"
  shows "pending_work u (set (us_tasks s)) (set (us_channel s))"
  using not_lost_reach [OF assms(1)] assms(2,3) by (simp add: not_lost_def)

lemma sample_begin_reach:
  "ui_reach (run_handler (begin_with sample_view (handle_running (ui_start sample_app)) Mihomo StartIntent) (ui_start sample_app))"
  by (rule ui_reach_step [OF ui_reach_start user_begins])

theorem waiting_operation_has_work_witness:
  "pending_work (sample_ended\<lparr>cu_phase := Checking\<rparr>) {Inspect 1 Mihomo} {}"
proof -
  let ?s = "run_handler (begin_with sample_view (handle_running (ui_start sample_app)) Mihomo StartIntent) (ui_start sample_app)"
  have s: "us_tasks ?s = [Inspect 1 Mihomo]" "us_channel ?s = []"
    "ap_update (us_app ?s) = Some (sample_ended\<lparr>cu_phase := Checking\<rparr>)" "\<not> ap_flags (us_app ?s) 1"
    by (simp_all add: run_handler_def begin_with_def ui_start_def sample_app_def sample_view_def sample_ended_def
        handle_running_def Let_def)
  have "\<not> ap_flags (us_app ?s) (cu_id (sample_ended\<lparr>cu_phase := Checking\<rparr>))"
    using s(4) by (simp add: sample_ended_def)
  from waiting_operation_has_work [OF sample_begin_reach s(3) this] show ?thesis by (simp add: s)
qed

definition sample_begun :: ui_sys where
  "sample_begun =
     run_handler (begin_with sample_view (handle_running (ui_start sample_app)) Mihomo StartIntent) (ui_start sample_app)"

lemma sample_download_reach:
  "\<exists>s. ui_reach s \<and> Acquire 1 Mihomo \<in> set (us_tasks s)"
proof -
  obtain rq where rq: "inspect_core sample_core_env sample_locked_disk Mihomo = NeedsUpdate rq"
    using sample_inspection by blast
  have begun: "us_tasks sample_begun = [Inspect 1 Mihomo]" "us_channel sample_begun = []"
    "ap_update (us_app sample_begun) = Some (sample_ended\<lparr>cu_phase := Checking\<rparr>)" "\<not> ap_flags (us_app sample_begun) 1"
    by (simp_all add: sample_begun_def run_handler_def begin_with_def ui_start_def sample_app_def sample_view_def
        sample_ended_def handle_running_def Let_def)
  let ?inspected = "sample_begun\<lparr>us_tasks := remove1 (Inspect 1 Mihomo) (us_tasks sample_begun),
      us_channel := us_channel sample_begun @ [CoreInspected 1 (NeedsUpdate rq)]\<rparr>"
  let ?asked = "run_handler (handle_event sample_view (CoreInspected 1 (NeedsUpdate rq))) (?inspected\<lparr>us_channel := []\<rparr>)"
  let ?agreed = "run_handler (confirm_update sample_view) (record_confirmation ?asked)"
  have "ui_reach sample_begun" using sample_begin_reach by (simp add: sample_begun_def)
  moreover have "ui_step sample_begun ?inspected"
    using inspected [OF any_core [of Mihomo sample_core_env sample_locked_disk]] rq
    by (intro task_end) (simp_all add: begun)
  moreover have "ui_step ?inspected ?asked" by (rule event) (simp add: begun)
  moreover have "ui_step ?asked ?agreed" by (rule user_confirms)
  ultimately have "ui_reach ?agreed" by (blast intro: ui_reach_step)
  moreover have "Acquire 1 Mihomo \<in> set (us_tasks ?agreed)"
    using begun
    by (simp add: run_handler_def record_confirmation_def with_operation_def in_phase_def core_inspected_def
        confirm_update_def sample_ended_def)
  ultimately show ?thesis by blast
qed

theorem only_confirmed_work_runs_witness:
  "\<exists>s. ui_reach s \<and> Acquire 1 Mihomo \<in> set (us_tasks s) \<and> (1, Consent) \<in> us_confirmed s"
proof -
  from sample_download_reach obtain s where "ui_reach s" "Acquire 1 Mihomo \<in> set (us_tasks s)" by blast
  with only_confirmed_work_runs [OF \<open>ui_reach s\<close>, of 1 Mihomo] show ?thesis by blast
qed

section \<open>Cancellation\<close>

text \<open>The operation a task works for.\<close>

fun task_id :: "op_task \<Rightarrow> u64" where
  "task_id (Inspect oid k) = oid"
| "task_id (Acquire oid k) = oid"
| "task_id (TunCheck c) = gc_id c"
| "task_id (TunSetup c password) = gc_id c"
| "task_id (Apply c) = gc_id c"

text \<open>Between two states an operation gained nothing: it did not come back, it has no other core or request, and its
  phase is the same unless it ended.\<close>

definition unchanged_or_ended :: "u64 \<Rightarrow> core_update option \<Rightarrow> core_update option \<Rightarrow> bool" where
  "unchanged_or_ended oid up up' \<longleftrightarrow>
     (\<forall>u'. up' = Some u' \<and> cu_id u' = oid \<longrightarrow>
        (\<exists>u. up = Some u \<and> cu_id u = oid \<and> cu_prepared u' = cu_prepared u \<and> cu_request u' = cu_request u \<and>
           (cu_phase u' = cu_phase u \<or> terminal (cu_phase u'))))"

definition leaves_alone :: "u64 \<Rightarrow> app \<Rightarrow> app \<times> ui_effect list \<Rightarrow> bool" where
  "leaves_alone oid a r \<longleftrightarrow>
     ap_flags (fst r) oid \<and> (\<forall>t \<in> set (spawned (snd r)). task_id t \<noteq> oid) \<and> unchanged_or_ended oid (ap_update a) (ap_update (fst r))"

lemma unchanged_or_ended_refl [simp]: "unchanged_or_ended oid up up"
  by (simp add: unchanged_or_ended_def)

lemma unchanged_or_ended_trans: "unchanged_or_ended oid up up' \<Longrightarrow> unchanged_or_ended oid up' up'' \<Longrightarrow> unchanged_or_ended oid up up''"
  unfolding unchanged_or_ended_def by metis

lemma unchanged_or_ended_other: "(\<And>u. up' = Some u \<Longrightarrow> cu_id u \<noteq> oid) \<Longrightarrow> unchanged_or_ended oid up up'"
  by (auto simp: unchanged_or_ended_def)

lemma note_started_flags:
  "note_started mv v p src a = (b, es) \<Longrightarrow> ap_flags b = ap_flags a \<and> ap_sequence b = ap_sequence a"
  by (auto simp: note_started_def Let_def split: option.splits if_splits)

lemma update_finished_flags:
  "ap_flags (fst (update_finished mv r u a)) = ap_flags a \<and> ap_sequence (fst (update_finished mv r u a)) = ap_sequence a"
  by (auto simp: update_finished_def Let_def split: prod.splits dest!: note_started_flags)

lemma start_apply_leaves:
  assumes "ap_flags a oid" "gc_id c \<noteq> oid" "\<And>u. ap_update a = Some u \<Longrightarrow> cu_id u \<noteq> oid"
  shows "leaves_alone oid a (start_apply c a)"
  using assms
  by (auto simp: start_apply_def leaves_alone_def set_update_def set_phase_def split: option.splits intro!: unchanged_or_ended_other)

text \<open>A context that matches belongs to the current operation, which is then not cancelled.\<close>

lemma tun_result_with_leaves:
  assumes "ap_flags a oid"
    and "\<And>u. ap_update a = Some u \<Longrightarrow> cu_id u = gc_id c \<Longrightarrow> gc_id c \<noteq> oid \<Longrightarrow> leaves_alone oid a (f c a)"
  shows "leaves_alone oid a (tun_result_with mv c r ph f a)"
proof (cases "\<exists>u. ap_update a = Some u \<and> cu_id u = gc_id c \<and> \<not> ap_flags a (cu_id u)")
  case True
  then obtain u where u: "ap_update a = Some u" "cu_id u = gc_id c" "\<not> ap_flags a (gc_id c)" by auto
  with assms(1) have "gc_id c \<noteq> oid" by auto
  with u show ?thesis
    using assms
    by (auto simp: tun_result_with_def leaves_alone_def set_update_def set_phase_def intro!: unchanged_or_ended_other
        split: sum.splits bool.splits)
next
  case False
  then show ?thesis using assms(1) by (auto simp: tun_result_with_def context_matches_def is_some_and_iff leaves_alone_def)
qed

lemma tun_result_leaves: "ap_flags a oid \<Longrightarrow> leaves_alone oid a (tun_result mv c r ph a)"
  unfolding tun_result_def by (rule tun_result_with_leaves) (auto intro!: start_apply_leaves)

lemma handle_event_leaves:
  assumes "ap_flags a oid"
  shows "leaves_alone oid a (handle_event mv x a)"
proof (cases x)
  case (CoreUpdateFinished i r)
  show ?thesis
  proof (cases "\<exists>u. ap_update a = Some u \<and> cu_id u = i \<and> \<not> terminal (cu_phase u)")
    case True
    then obtain u where u: "ap_update a = Some u" "cu_id u = i" "\<not> terminal (cu_phase u)" by blast
    obtain ph m where "terminal ph" "ap_update (fst (update_finished mv r u a)) = Some (set_phase ph m u)"
      "spawned (snd (update_finished mv r u a)) = []" using update_finished_result by blast
    then show ?thesis
      using assms u update_finished_flags [of mv r u a]
      by (simp add: CoreUpdateFinished with_operation_def leaves_alone_def) (simp add: unchanged_or_ended_def set_phase_def)
  qed (use assms in \<open>auto simp: CoreUpdateFinished with_operation_def leaves_alone_def split: option.splits\<close>)
next
  case (CoreTunChecked c r)
  then show ?thesis using tun_result_leaves assms by simp
next
  case (CoreTunSetupFinished c r)
  then show ?thesis using tun_result_leaves assms by simp
qed (use assms in \<open>auto simp: with_operation_def in_phase_def leaves_alone_def core_inspected_def
    set_phase_def split: option.splits core_inspection.splits intro!: unchanged_or_ended_other\<close>)

lemma confirm_update_leaves:
  assumes "ap_flags a oid"
  shows "leaves_alone oid a (confirm_update mv a)"
proof (cases "\<exists>u. ap_update a = Some u \<and> \<not> ap_flags a (cu_id u)")
  case True
  then obtain u where u: "ap_update a = Some u" "\<not> ap_flags a (cu_id u)" "cu_id u \<noteq> oid" using assms by auto
  have "leaves_alone oid a (start_apply (tun_context a u p) a)" for p
    using assms u by (intro start_apply_leaves) (auto simp: tun_context_def)
  then show ?thesis
    using assms u
    by (auto simp: confirm_update_def Let_def split: update_phase.splits option.splits)
      (auto simp: leaves_alone_def tun_context_def confirm_tun_setup_def set_phase_def intro!: unchanged_or_ended_other)
qed (use assms in \<open>auto simp: confirm_update_def leaves_alone_def split: option.splits\<close>)

lemma submit_password_leaves:
  assumes "ap_flags a oid"
  shows "leaves_alone oid a (submit_password mv a)"
proof (cases "\<exists>c. ap_pending_sudo a = Some (GuidedTunSetup c)")
  case True
  then obtain c where c: "ap_pending_sudo a = Some (GuidedTunSetup c)" by blast
  let ?a = "a\<lparr>ap_pending_sudo := None, ap_password := []\<rparr>"
  have "leaves_alone oid ?a (tun_result_with mv c (Err ''Core setup context changed'') TunConsent (\<lambda>_ a. (a, [])) ?a)"
    using assms by (intro tun_result_with_leaves) (auto simp: leaves_alone_def)
  moreover have "gc_id c \<noteq> oid \<and> (\<forall>u. ap_update a = Some u \<longrightarrow> cu_id u \<noteq> oid)" if "context_matches mv c TunConsent ?a"
    using that assms by (auto simp: context_matches_def is_some_and_iff)
  ultimately show ?thesis
    using assms c
    by (auto simp: submit_password_def submit_tun_setup_def leaves_alone_def set_update_def intro!: unchanged_or_ended_other)
qed (use assms in \<open>auto simp: submit_password_def leaves_alone_def split: option.splits pending_sudo.splits\<close>)

lemma cancel_update_leaves: "ap_flags a oid \<Longrightarrow> leaves_alone oid a (cancel_update a)"
  by (auto simp: cancel_update_def leaves_alone_def unchanged_or_ended_def set_phase_def terminal_def split: option.splits)

lemma other_handlers_leave:
  assumes "ap_flags a oid"
  shows "leaves_alone oid a (confirm_tun_setup a)" "leaves_alone oid a (cancel_password a)"
    "leaves_alone oid a (skip_tun_setup_start a)" "leaves_alone oid a (stop_core a)"
    "ap_sequence a + 1 \<noteq> oid \<Longrightarrow> leaves_alone oid a (begin_with mv b kind intent a)"
proof -
  have cancel: "leaves_alone oid a (cancel_update a')" if "ap_update a' = ap_update a" "ap_flags a' = ap_flags a" for a'
    using cancel_update_leaves [of a' oid] assms that by (simp add: leaves_alone_def)
  have stay: "leaves_alone oid a (a, [])" using assms by (simp add: leaves_alone_def)
  show "leaves_alone oid a (cancel_password a)" "leaves_alone oid a (skip_tun_setup_start a)"
    using cancel stay
    by (auto simp: cancel_password_def skip_tun_setup_start_def split: option.splits pending_sudo.splits)
  show "leaves_alone oid a (confirm_tun_setup a)" "leaves_alone oid a (stop_core a)"
    using assms by (auto simp: confirm_tun_setup_def stop_core_def leaves_alone_def split: option.splits)
  show "leaves_alone oid a (begin_with mv b kind intent a)" if "ap_sequence a + 1 \<noteq> oid"
    using assms that by (auto simp: begin_with_def Let_def leaves_alone_def intro!: unchanged_or_ended_other)
qed

lemma record_confirmation_keeps [simp]:
  "us_app (record_confirmation s) = us_app s" "us_tasks (record_confirmation s) = us_tasks s"
  by (simp_all add: record_confirmation_def)

definition still_cancelled :: "u64 \<Rightarrow> ui_sys \<Rightarrow> ui_sys \<Rightarrow> bool" where
  "still_cancelled oid s s' \<longleftrightarrow>
     ap_flags (us_app s') oid \<and>
     (\<forall>t. task_id t = oid \<longrightarrow> count_list (us_tasks s') t \<le> count_list (us_tasks s) t) \<and>
     unchanged_or_ended oid (ap_update (us_app s)) (ap_update (us_app s'))"

lemma still_cancelled_trans: "still_cancelled oid s r \<Longrightarrow> still_cancelled oid r s' \<Longrightarrow> still_cancelled oid s s'"
  unfolding still_cancelled_def by (blast intro: le_trans unchanged_or_ended_trans)

lemma count_list_remove1: "count_list (remove1 x xs) y \<le> count_list xs y"
  by (induction xs) auto

lemma still_cancelled_run:
  "leaves_alone oid (us_app s) (h (us_app s)) \<Longrightarrow> still_cancelled oid s (run_handler h s)"
  by (auto simp: leaves_alone_def still_cancelled_def run_handler_def count_list_0_iff split: prod.splits)

lemma still_cancelled_from:
  "us_app s = us_app r \<Longrightarrow> us_tasks s = us_tasks r \<Longrightarrow> still_cancelled oid r s' \<Longrightarrow> still_cancelled oid s s'"
  by (simp add: still_cancelled_def)

lemma still_cancelled_step:
  assumes "ui_step s s'" "ap_flags (us_app s) oid" "ap_sequence (us_app s) + 1 \<noteq> oid"
  shows "still_cancelled oid s s'"
  using assms
proof (induction rule: ui_step.induct)
  case (user_confirms s mv)
  then show ?case
    by (intro still_cancelled_from [OF _ _ still_cancelled_run [of _ "record_confirmation s"]]) (simp_all add: confirm_update_leaves)
next
  case (user_submits_password s mv)
  then show ?case
    by (intro still_cancelled_from [OF _ _ still_cancelled_run [of _ "record_confirmation s"]]) (simp_all add: submit_password_leaves)
next
  case (user_stops s)
  then have "still_cancelled oid s (run_handler stop_core s)" by (intro still_cancelled_run other_handlers_leave)
  then show ?case by (simp add: still_cancelled_def)
next
  case (event s x rest mv)
  then show ?case
    by (intro still_cancelled_from [OF _ _ still_cancelled_run [of _ "s\<lparr>us_channel := rest\<rparr>"]]) (simp_all add: handle_event_leaves)
next
  case (elsewhere s a)
  then show ?case by (simp add: still_cancelled_def other_change_def)
next
  case (report t s x)
  then show ?case by (auto simp: still_cancelled_def)
next
  case (task_end t s xs)
  then show ?case by (simp add: still_cancelled_def count_list_remove1)
qed (auto intro!: still_cancelled_run other_handlers_leave cancel_update_leaves)

text \<open>The identifiers of operations: each begin takes the next one, nothing else changes the current operation's.\<close>

definition same_operation :: "app \<Rightarrow> app \<Rightarrow> bool" where
  "same_operation a a' \<longleftrightarrow>
     ap_sequence a' = ap_sequence a \<and> map_option cu_id (ap_update a') = map_option cu_id (ap_update a)"

lemma same_operation_refl [simp]: "same_operation a a"
  by (simp add: same_operation_def)

lemma start_apply_same: "same_operation a (fst (start_apply c a))"
  by (auto simp: start_apply_def same_operation_def set_update_def set_phase_def split: option.splits)

lemma tun_result_with_same:
  "(\<And>c. same_operation a (fst (f c a))) \<Longrightarrow> same_operation a (fst (tun_result_with mv c r ph f a))"
  by (auto simp: tun_result_with_def same_operation_def set_update_def set_phase_def option.map_comp comp_def split: sum.splits bool.splits)

lemma handle_event_same: "same_operation a (fst (handle_event mv x a))"
proof (cases x)
  case (CoreUpdateFinished i r)
  have "same_operation a (fst (update_finished mv r u a))" if "ap_update a = Some u" for u
    using update_finished_result [of mv r u a] update_finished_flags [of mv r u a] that
    by (auto simp: same_operation_def set_phase_def)
  then show ?thesis by (auto simp: CoreUpdateFinished with_operation_def split: option.splits)
qed (auto simp: tun_result_def with_operation_def in_phase_def same_operation_def core_inspected_def set_phase_def
    start_apply_same [unfolded same_operation_def] split: option.splits core_inspection.splits
    intro!: tun_result_with_same [unfolded same_operation_def, THEN conjunct1] tun_result_with_same [unfolded same_operation_def, THEN conjunct2])

lemma confirm_update_same: "same_operation a (fst (confirm_update mv a))"
  using start_apply_same
  by (auto simp: confirm_update_def Let_def confirm_tun_setup_def split: option.splits update_phase.splits)
    (auto simp: same_operation_def set_phase_def)

lemma submit_password_same: "same_operation a (fst (submit_password mv a))"
proof -
  have "same_operation a (fst (tun_result_with mv c r ph (\<lambda>_ a. (a, [])) (a\<lparr>ap_pending_sudo := None, ap_password := []\<rparr>)))" for c r ph
    using tun_result_with_same [of "a\<lparr>ap_pending_sudo := None, ap_password := []\<rparr>" "\<lambda>_ a. (a, [])" mv c r ph]
    by (simp add: same_operation_def)
  then show ?thesis
    by (auto simp: submit_password_def submit_tun_setup_def split: option.splits pending_sudo.splits)
      (auto simp: same_operation_def set_update_def map_option.compositionality comp_def option.map_comp)
qed

lemma other_handlers_same:
  "same_operation a (fst (cancel_update a))" "same_operation a (fst (confirm_tun_setup a))"
  "same_operation a (fst (cancel_password a))" "same_operation a (fst (skip_tun_setup_start a))"
  "same_operation a (fst (stop_core a))"
  by (auto simp: cancel_update_def confirm_tun_setup_def cancel_password_def skip_tun_setup_start_def stop_core_def
      same_operation_def set_phase_def split: option.splits pending_sudo.splits)

lemma run_handler_app [simp]: "us_app (run_handler h s) = fst (h (us_app s))"
  by (simp add: run_handler_def split: prod.split)

lemma ui_step_operation:
  assumes "ui_step s s'"
  shows "same_operation (us_app s) (us_app s') \<or>
    ap_sequence (us_app s') = ap_sequence (us_app s) + 1 \<and>
      map_option cu_id (ap_update (us_app s')) = Some (ap_sequence (us_app s'))"
  using assms
proof (induction rule: ui_step.induct)
  case (user_begins s mv kind intent)
  then show ?case by (auto simp: begin_with_def Let_def same_operation_def)
next
  case (elsewhere s a)
  then show ?case by (simp add: other_change_def same_operation_def)
qed (simp_all add: handle_event_same confirm_update_same submit_password_same other_handlers_same)

lemma reach_current_id: "ui_reach s \<Longrightarrow> ap_update (us_app s) = Some u \<Longrightarrow> cu_id u = ap_sequence (us_app s)"
proof (induction arbitrary: u rule: ui_reach.induct)
  case (ui_reach_step s s')
  from ui_step_operation [OF ui_reach_step(2)] ui_reach_step(3,4) show ?case
    by (cases "ap_update (us_app s)") (auto simp: same_operation_def)
qed (simp add: ui_start_def)

lemma ui_steps_sequence:
  "(ui_step ^^ n) s s' \<Longrightarrow> \<exists>k \<le> n. ap_sequence (us_app s') = ap_sequence (us_app s) + of_nat k"
proof (induction n arbitrary: s')
  case (Suc n)
  then obtain r where r: "(ui_step ^^ n) s r" "ui_step r s'" by auto
  with Suc.IH obtain k where "k \<le> n" "ap_sequence (us_app r) = ap_sequence (us_app s) + of_nat k" by blast
  moreover from ui_step_operation [OF r(2)]
  have "ap_sequence (us_app s') = ap_sequence (us_app r) \<or> ap_sequence (us_app s') = ap_sequence (us_app r) + 1"
    by (auto simp: same_operation_def)
  ultimately show ?case
    by (elim disjE; intro exI [of _ k] exI [of _ "Suc k"]; simp)
qed simp

lemma identifier_not_reused:
  assumes "(ui_step ^^ n) s s'" "n + 1 < 2 ^ 64"
  shows "ap_sequence (us_app s') + 1 \<noteq> ap_sequence (us_app s)"
proof -
  obtain k where k: "k \<le> n" "ap_sequence (us_app s') = ap_sequence (us_app s) + of_nat k"
    using ui_steps_sequence [OF assms(1)] by blast
  have "unat (of_nat (k + 1) :: u64) = k + 1" using k(1) assms(2) by (simp only: unat_of_nat) simp
  then have "(of_nat (k + 1) :: u64) \<noteq> 0" by (metis unat_0 add_is_0 one_neq_zero)
  with k(2) show ?thesis by (simp add: add.assoc add.commute)
qed

text \<open>C34: Once the current operation of the interface is cancelled, by the user or by stopping the core, nothing more is
  started for it, whatever the user does and whatever its tasks report afterwards, over fewer than
  2 to the power 64 steps: no download, no permission check, no privileged setup with a password that was asked for
  before, and no application of a core gets a new task. It stays cancelled, it gets no other
  prepared core and no other request, and as long as it is shown its phase is the one it had or a final one.
  Tasks that already run are not stopped by this: they look at the flag themselves.\<close>

theorem cancelled_operation_starts_nothing:
  assumes "ui_reach s" "ap_update (us_app s) = Some u" "ap_flags (us_app s) (cu_id u)"
    and "(ui_step ^^ n) s s'" "n < 2 ^ 64"
  shows "ap_flags (us_app s') (cu_id u) \<and>
    (\<forall>t. task_id t = cu_id u \<longrightarrow> count_list (us_tasks s') t \<le> count_list (us_tasks s) t) \<and>
    (\<forall>u'. ap_update (us_app s') = Some u' \<and> cu_id u' = cu_id u \<longrightarrow>
       cu_prepared u' = cu_prepared u \<and> cu_request u' = cu_request u \<and>
       (cu_phase u' = cu_phase u \<or> terminal (cu_phase u')))"
proof -
  have "still_cancelled (cu_id u) s s'" using assms(4,5)
  proof (induction n arbitrary: s')
    case 0
    then show ?case using assms(3) by (auto simp: still_cancelled_def)
  next
    case (Suc n)
    then obtain r where r: "(ui_step ^^ n) s r" "ui_step r s'" by auto
    have before: "still_cancelled (cu_id u) s r" using Suc r(1) by simp
    moreover have "ap_sequence (us_app r) + 1 \<noteq> cu_id u"
      using identifier_not_reused [OF r(1)] Suc.prems(2) reach_current_id [OF assms(1,2)] by simp
    then have "still_cancelled (cu_id u) r s'"
      using before by (intro still_cancelled_step [OF r(2)]) (simp_all add: still_cancelled_def)
    ultimately show ?case by (rule still_cancelled_trans)
  qed
  with assms(2) show ?thesis by (auto simp: still_cancelled_def unchanged_or_ended_def)
qed

theorem cancelled_operation_starts_nothing_witness:
  "\<exists>s s'. ui_reach s \<and> (ui_step ^^ 1) s s' \<and> ap_flags (us_app s) 1 \<and> us_tasks s = [Inspect 1 Mihomo] \<and>
     count_list (us_tasks s') (Inspect 1 Mihomo) \<le> 1 \<and> count_list (us_tasks s') (Acquire 1 Mihomo) = 0"
proof -
  let ?s = "run_handler cancel_update sample_begun"
  let ?s' = "run_handler (confirm_update sample_view) (record_confirmation ?s)"
  let ?u = "set_phase Cancelled (MessageText ''TUN/core operation cancelled; current core and configuration unchanged'')
      (sample_ended\<lparr>cu_phase := Checking\<rparr>)"
  have begun: "us_tasks sample_begun = [Inspect 1 Mihomo]"
    "ap_update (us_app sample_begun) = Some (sample_ended\<lparr>cu_phase := Checking\<rparr>)"
    by (simp_all add: sample_begun_def run_handler_def begin_with_def ui_start_def sample_app_def sample_view_def
        sample_ended_def handle_running_def Let_def)
  have reach: "ui_reach ?s"
    using sample_begin_reach by (intro ui_reach_step [OF _ user_cancels]) (simp add: sample_begun_def)
  have s: "ap_update (us_app ?s) = Some ?u" "ap_flags (us_app ?s) (cu_id ?u)" "us_tasks ?s = [Inspect 1 Mihomo]" "cu_id ?u = 1"
    using begun by (simp_all add: cancel_update_def terminal_def sample_ended_def set_phase_def run_handler_def)
  have step: "(ui_step ^^ 1) ?s ?s'" unfolding relpowp_1 by (rule user_confirms)
  from cancelled_operation_starts_nothing [OF reach s(1,2) step]
  have "\<forall>t. task_id t = 1 \<longrightarrow> count_list (us_tasks ?s') t \<le> count_list (us_tasks ?s) t" using s(4) by simp
  then have "count_list (us_tasks ?s') (Inspect 1 Mihomo) \<le> count_list (us_tasks ?s) (Inspect 1 Mihomo)"
    "count_list (us_tasks ?s') (Acquire 1 Mihomo) \<le> count_list (us_tasks ?s) (Acquire 1 Mihomo)" by simp_all
  then have "count_list (us_tasks ?s') (Inspect 1 Mihomo) \<le> 1" "count_list (us_tasks ?s') (Acquire 1 Mihomo) = 0"
    unfolding s(3) by simp_all
  with reach step s show ?thesis by (intro exI [of _ ?s] exI [of _ ?s']) (simp only: simp_thms)
qed

text \<open>Cancelling ends an operation at once, unless a core is being applied: then the phase stays until the
  rollback reports.\<close>

theorem cancel_ends_or_waits_for_rollback:
  assumes "ap_update a = Some u" "\<not> terminal (cu_phase u)"
  shows "\<exists>u'. ap_update (fst (cancel_update a)) = Some u' \<and> cu_id u' = cu_id u \<and>
    ap_flags (fst (cancel_update a)) (cu_id u) \<and> snd (cancel_update a) = [] \<and>
    cu_phase u' = (if cu_phase u = Preparing \<or> cu_phase u = Switching then cu_phase u else Cancelled)"
  using assms by (simp add: cancel_update_def set_phase_def)

text \<open>Stopping the core cancels the operation but leaves its phase: while it was checked or downloaded its task
  ends without an action, and a new operation is refused until the user cancels the old one.\<close>

theorem stop_leaves_operation_waiting:
  assumes "ap_update a = Some u" "\<not> terminal (cu_phase u)"
  shows "ap_update (fst (stop_core a)) = Some u \<and> ap_flags (fst (stop_core a)) (cu_id u) \<and>
    ap_update (fst (begin_with mv False kind intent (fst (stop_core a)))) = Some u \<and>
    (cu_phase u = Checking \<longrightarrow> task_ends (ap_flags (fst (stop_core a))) (Inspect (cu_id u) k) []) \<and>
    (\<forall>xs. task_ends (ap_flags (fst (stop_core a))) (Acquire (cu_id u) k) xs \<longrightarrow> xs = [])"
  using assms
  by (auto simp: stop_core_def begin_with_def intro: task_ends.intros elim: task_ends.cases)

end
