(* ===== verification/Rule_Editor.thy ===== *)
theory Rule_Editor
  imports Compose Profiles Lifecycle
begin

text \<open>
  The editor of the rules of the active profile (\<open>tui/handlers/rules.rs\<close>, with the prompts of
  \<open>tui/event_loop.rs\<close>): loading the composed rules and the stored logical rules into one buffer, the edits,
  and saving the buffer back into the profile and the sidecar. The handlers map the state of the editor to a new
  one and the save tasks they start; loading and saving work on the files. The directory of profiles, the
  configuration directory with the sidecars and the list of profiles are the world of the editor; YAML, JSON and
  the script engine are parameters.
\<close>

section \<open>The world and its errors\<close>

datatype editor_error =
    StoreUnavailable
  | NoActiveProfile
  | NoRemoteProfile
  | ActiveWithoutFile
  | NotComposed compose_error
  | NotLoaded yaml_error
  | NoHome
  | SidecarFailed store_error
  | ChainNotContiguous nat
  | ChainRewrites
  | NotSaved save_error
  | ProfileNotReplaced string
  | SidecarNotRemoved
  | ProfileNotRead
  | LogicalNeedsSingbox

text \<open>What the composition of a profile reads, and which writes succeed.\<close>

record rules_env =
  rn_compose :: compose_env
  rn_clash :: ymapping
  rn_verge :: verge_ports
  rn_tun :: "bool option"
  rn_print :: "yaml \<Rightarrow> string option"
  rn_dirs :: bool \<comment> \<open>the directories of the application are known\<close>
  rn_writable :: "string \<Rightarrow> bool"
  rn_removable :: bool

record rules_world =
  rw_profiles :: "iprofiles option" \<comment> \<open>\<open>None\<close>: the store cannot be read\<close>
  rw_files :: directory
  rw_home :: home

definition active_item :: "rules_world \<Rightarrow> (prf_item, editor_error) result" where
  "active_item w =
     rbind (ok_or (rw_profiles w) StoreUnavailable) (\<lambda>p.
     ok_or (find (\<lambda>i. pi_uid i = ip_current p) (store_items p)) NoActiveProfile)"

definition world_items :: "rules_world \<Rightarrow> prf_item list" where
  "world_items w = (case rw_profiles w of Some p \<Rightarrow> items_of p | None \<Rightarrow> [])"

section \<open>Composed rules\<close>

definition composed_profile_rules ::
  "rules_env \<Rightarrow> rules_world \<Rightarrow> prf_item \<Rightarrow> (route_rule list, compose_error) result" where
  "composed_profile_rules env w item =
     rbind (load_profile_yaml (rn_compose env) (rw_files w) (world_items w) (rn_clash env) (rn_verge env) (rn_tun env) item)
       (\<lambda>yaml. map_err RulesNotLoaded (load_profile_rules (ce_parse (rn_compose env)) yaml))"

definition recomposed_rules ::
  "rules_env \<Rightarrow> rules_world \<Rightarrow> prf_item \<Rightarrow> route_rule list \<Rightarrow> (route_rule list, compose_error) result" where
  "recomposed_rules env w item file_rules =
     compose_profile_rules (rn_compose env) (rw_files w) (world_items w) (rn_clash env) (rn_verge env) (rn_tun env)
       item file_rules"

section \<open>The buffer\<close>

record layout =
  lo_buffer :: "route_rule list"
  lo_referenced :: "bool list"
  lo_last :: "nat option"

definition layout_step :: "route_rule list \<Rightarrow> route_rule list \<Rightarrow> order_entry \<Rightarrow> layout \<Rightarrow> layout" where
  "layout_step rules logical entry st =
     (case entry of
        ProfileAt i \<Rightarrow>
          if i < length rules then
            st\<lparr>lo_referenced := (lo_referenced st)[i := True], lo_buffer := lo_buffer st @ [rules ! i],
               lo_last := Some (length (lo_buffer st))\<rparr>
          else st
      | LogicalAt i \<Rightarrow> if i < length logical then st\<lparr>lo_buffer := lo_buffer st @ [logical ! i]\<rparr> else st)"

definition compose_edit_buffer :: "route_rule list \<Rightarrow> rule_order \<Rightarrow> route_rule list" where
  "compose_edit_buffer rules order =
     (if ro_entries order = [] then rules @ ro_logical order
      else let st = fold (layout_step rules (ro_logical order)) (ro_entries order)
                 \<lparr>lo_buffer = [], lo_referenced = replicate (length rules) False, lo_last = None\<rparr>;
               unplaced = filter_map (\<lambda>(i, r). if lo_referenced st ! i then None else Some r) (enumerate 0 rules);
               at = (case lo_last st of None \<Rightarrow> 0 | Some slot \<Rightarrow> Suc slot)
           in take at (lo_buffer st) @ unplaced @ drop at (lo_buffer st))"

definition partition_step :: "route_rule \<Rightarrow> route_rule list \<times> rule_order \<Rightarrow> route_rule list \<times> rule_order" where
  "partition_step rule st =
     (case st of (clash, order) \<Rightarrow>
        if is_logical rule
        then (clash, order\<lparr>ro_entries := ro_entries order @ [LogicalAt (length (ro_logical order))],
                           ro_logical := ro_logical order @ [rule]\<rparr>)
        else (clash @ [rule], order\<lparr>ro_entries := ro_entries order @ [ProfileAt (length clash)]\<rparr>))"

definition partition_edit_buffer :: "route_rule list \<Rightarrow> route_rule list \<times> rule_order" where
  "partition_edit_buffer buffer = fold partition_step buffer ([], empty_order)"

definition rules_equivalent :: "route_rule list \<Rightarrow> route_rule list \<Rightarrow> bool" where
  "rules_equivalent left right \<longleftrightarrow>
     length left = length right \<and> list_all (\<lambda>(l, r). describe l = describe r) (zip left right)"

definition strip_chain_rules :: "route_rule list \<Rightarrow> route_rule list \<Rightarrow> (route_rule list, editor_error) result" where
  "strip_chain_rules composed chain_rules =
     (let n = length chain_rules; rest = length composed - n in
      if chain_rules = [] then Ok composed
      else if n \<le> length composed \<and> rules_equivalent (take n composed) chain_rules then Ok (drop n composed)
      else if n \<le> length composed \<and> rules_equivalent (drop rest composed) chain_rules then Ok (take rest composed)
      else Err (ChainNotContiguous n))"

section \<open>Loading\<close>

definition stored_rule_order :: "rules_env \<Rightarrow> rules_world \<Rightarrow> bool \<Rightarrow> (rule_order option, editor_error) result" where
  "stored_rule_order env w singbox =
     (if \<not> singbox then Ok None
      else rbind (guard (rn_dirs env) NoHome) (\<lambda>_.
           rbind (map_err SidecarFailed (load_rule_order (ce_json (rn_compose env)) (rw_home w))) (\<lambda>order.
           Ok (if ro_logical order \<noteq> [] \<or> ro_entries order \<noteq> [] then Some order else None))))"

definition load_buffer ::
  "rules_env \<Rightarrow> rules_world \<Rightarrow> bool \<Rightarrow> (route_rule list \<times> drift_note option, editor_error) result" where
  "load_buffer env w singbox =
     rbind (active_item w) (\<lambda>item.
     rbind (guard (pi_file item \<noteq> None) NoRemoteProfile) (\<lambda>_.
     rbind (map_err NotComposed (composed_profile_rules env w item)) (\<lambda>rules.
     rbind (stored_rule_order env w singbox) (\<lambda>stored.
     let (order, drift) = (case stored of
            Some order \<Rightarrow> resolve_profile_drift order (profile_rule_fingerprint rules)
          | None \<Rightarrow> (empty_order, None))
     in Ok (compose_edit_buffer rules order, drift)))))"

section \<open>Saving\<close>

definition persist_logical_rules :: "rules_env \<Rightarrow> rule_order \<Rightarrow> rules_world \<Rightarrow> (unit, editor_error) result \<times> rules_world" where
  "persist_logical_rules env order w =
     (if ro_logical order = [] then
        (if rw_home w logical_rules_file = None then (Ok (), w)
         else if rn_removable env then (Ok (), w\<lparr>rw_home := (rw_home w)(logical_rules_file := None)\<rparr>)
         else (Err SidecarNotRemoved, w))
      else case save_rule_order (ce_json (rn_compose env)) (rw_home w) order of
        Inl e \<Rightarrow> (Err (SidecarFailed e), w)
      | Inr home \<Rightarrow> (Ok (), w\<lparr>rw_home := home\<rparr>))"

text \<open>The fingerprint of a save: the contribution of the chain in front of the rules as they read back.\<close>

definition saved_fingerprint :: "rules_env \<Rightarrow> string \<Rightarrow> route_rule list \<Rightarrow> fingerprint option" where
  "saved_fingerprint env saved chain_rules =
     (case load_profile_rules (ce_parse (rn_compose env)) saved of
        Inr rules \<Rightarrow> Some (profile_rule_fingerprint (chain_rules @ rules))
      | Inl _ \<Rightarrow> None)"

definition persist_rules ::
  "rules_env \<Rightarrow> string \<Rightarrow> string \<Rightarrow> route_rule list \<Rightarrow> core_kind \<Rightarrow> route_rule list \<Rightarrow> rules_world \<Rightarrow>
     (unit, editor_error) result \<times> rules_world" where
  "persist_rules env file yaml buffer kind chain_rules w =
     (let (composed, order) = partition_edit_buffer buffer in
      case rbind (strip_chain_rules composed chain_rules) (\<lambda>file_rules.
             map_err NotSaved (save_profile_rules (ce_parse (rn_compose env)) (rn_print env) yaml file_rules)) of
        Inl e \<Rightarrow> (Err e, w)
      | Inr saved \<Rightarrow>
          if \<not> rn_writable env file then (Err (ProfileNotReplaced file), w)
          else let w = w\<lparr>rw_files := (rw_files w)(file := Content saved)\<rparr> in
            if kind \<noteq> SingBox then (Ok (), w)
            else persist_logical_rules env
              (order\<lparr>ro_profile := (case saved_fingerprint env saved chain_rules of
                   Some f \<Rightarrow> Some f | None \<Rightarrow> ro_profile order)\<rparr>) w)"

definition persist_rules_for_profile ::
  "rules_env \<Rightarrow> prf_item \<Rightarrow> string \<Rightarrow> string \<Rightarrow> route_rule list \<Rightarrow> core_kind \<Rightarrow> rules_world \<Rightarrow>
     (unit, editor_error) result \<times> rules_world" where
  "persist_rules_for_profile env item file yaml buffer kind w =
     (case rbind (map_err NotComposed (recomposed_rules env w item [])) (\<lambda>chain_rules.
           let composed = fst (partition_edit_buffer buffer) in
           rbind (strip_chain_rules composed chain_rules) (\<lambda>file_rules.
           rbind (map_err NotComposed (recomposed_rules env w item file_rules)) (\<lambda>reproduced.
           rbind (guard (rules_equivalent reproduced composed) ChainRewrites) (\<lambda>_. Ok chain_rules)))) of
        Inl e \<Rightarrow> (Err e, w)
      | Inr chain_rules \<Rightarrow> persist_rules env file yaml buffer kind chain_rules w)"

text \<open>The save task up to the reload of the core: it looks up the active profile when it runs.\<close>

definition save_task ::
  "rules_env \<Rightarrow> core_kind \<Rightarrow> route_rule list \<Rightarrow> rules_world \<Rightarrow> (prf_item, editor_error) result \<times> rules_world" where
  "save_task env kind buffer w =
     (case rbind (active_item w) (\<lambda>item.
           rbind (ok_or (pi_file item) ActiveWithoutFile) (\<lambda>file.
           rbind (guard (rn_dirs env) NoHome) (\<lambda>_.
           rbind (case rw_files w file of Content yaml \<Rightarrow> Ok yaml | _ \<Rightarrow> Err ProfileNotRead) (\<lambda>yaml.
           rbind (guard (\<not> list_ex is_logical buffer \<or> kind = SingBox) LogicalNeedsSingbox) (\<lambda>_.
           Ok (item, file, yaml)))))) of
        Inl e \<Rightarrow> (Err e, w)
      | Inr (item, file, yaml) \<Rightarrow>
          (case persist_rules_for_profile env item file yaml buffer kind w of
             (Inl e, w) \<Rightarrow> (Err e, w)
           | (Inr _, w) \<Rightarrow> (Ok item, w)))"

section \<open>The handlers\<close>

datatype editor_status =
    EditingOff
  | EditingOn
  | EditingFailed editor_error
  | RuleInserted string
  | RuleRejected
  | RuleBuilt string
  | FormInvalid form_error
  | ConfirmRestart
  | SaveCancelled
  | Saved string
  | SaveFailed string
  | SetAdded string
  | SetRemoved
  | NoSets
  | SetsNotLoaded store_error
  | SetsNotSaved store_error
  | SetSpecInvalid

record editor =
  ed_mode :: bool
  ed_buffer :: "route_rule list"
  ed_dirty :: bool
  ed_selected :: nat
  ed_confirming :: bool \<comment> \<open>the overlay asks to confirm the restart\<close>
  ed_sets :: "json list"
  ed_status :: "editor_status option"

text \<open>The note of a reset order is replaced by the message of the mode at once. The buffer is set before the
  rule sets are read.\<close>

definition toggle_edit_mode :: "rules_env \<Rightarrow> rules_world \<Rightarrow> core_kind \<Rightarrow> editor \<Rightarrow> editor" where
  "toggle_edit_mode env w kind e =
     (if ed_mode e then e\<lparr>ed_mode := False, ed_buffer := [], ed_dirty := False, ed_status := Some EditingOff\<rparr>
      else case load_buffer env w (kind = SingBox) of
        Inl err \<Rightarrow> e\<lparr>ed_status := Some (EditingFailed err)\<rparr>
      | Inr (buffer, drift) \<Rightarrow>
          (case (if rn_dirs env then load_rule_sets (ce_json (rn_compose env)) (rw_home w) else Ok (ed_sets e)) of
             Inl err \<Rightarrow> e\<lparr>ed_buffer := buffer, ed_status := Some (EditingFailed (SidecarFailed err))\<rparr>
           | Inr sets \<Rightarrow>
               e\<lparr>ed_buffer := buffer, ed_sets := sets, ed_selected := 0, ed_mode := True, ed_dirty := False,
                 ed_status := Some EditingOn\<rparr>))"

definition remove_at :: "nat \<Rightarrow> 'a list \<Rightarrow> 'a list" where
  "remove_at i xs = take i xs @ drop (Suc i) xs"

definition insert_at :: "nat \<Rightarrow> 'a \<Rightarrow> 'a list \<Rightarrow> 'a list" where
  "insert_at i x xs = take i xs @ x # drop i xs"

definition swap_at :: "nat \<Rightarrow> nat \<Rightarrow> 'a list \<Rightarrow> 'a list" where
  "swap_at i j xs = xs[i := xs ! j, j := xs ! i]"

definition delete_selected_rule :: "editor \<Rightarrow> editor" where
  "delete_selected_rule e =
     (if ed_mode e \<and> ed_selected e < length (ed_buffer e)
      then let buffer = remove_at (ed_selected e) (ed_buffer e) in
        e\<lparr>ed_buffer := buffer, ed_dirty := True, ed_selected := min (ed_selected e) (length buffer - 1)\<rparr>
      else e)"

definition move_rule_down :: "editor \<Rightarrow> editor" where
  "move_rule_down e =
     (let i = ed_selected e in
      if ed_mode e \<and> i + 1 < length (ed_buffer e)
      then e\<lparr>ed_buffer := swap_at i (i + 1) (ed_buffer e), ed_selected := i + 1, ed_dirty := True\<rparr> else e)"

definition move_rule_up :: "editor \<Rightarrow> editor" where
  "move_rule_up e =
     (let i = ed_selected e in
      if ed_mode e \<and> 0 < i \<and> i < length (ed_buffer e)
      then e\<lparr>ed_buffer := swap_at (i - 1) i (ed_buffer e), ed_selected := i - 1, ed_dirty := True\<rparr> else e)"

definition insert_rule :: "route_rule \<Rightarrow> editor \<Rightarrow> editor" where
  "insert_rule rule e =
     (let at = min (ed_selected e + 1) (length (ed_buffer e)) in
      e\<lparr>ed_buffer := insert_at at rule (ed_buffer e), ed_dirty := True, ed_selected := at\<rparr>)"

text \<open>The selection steps over the list the core reported, of which \<open>shown\<close> rules pass the filter, also while the
  buffer is shown.\<close>

definition step_index :: "nat \<Rightarrow> nat \<Rightarrow> bool \<Rightarrow> nat" where
  "step_index index len forward =
     (if forward then if index + 1 \<ge> len then 0 else index + 1
      else if index = 0 then len - 1 else index - 1)"

definition move_selection :: "nat \<Rightarrow> bool \<Rightarrow> editor \<Rightarrow> editor" where
  "move_selection shown forward e =
     (if 0 < shown then e\<lparr>ed_selected := step_index (ed_selected e) shown forward\<rparr> else e)"

text \<open>Enter in the prompt of a rule: text that starts with a brace is a rule of sing-box.\<close>

definition submit_rule_input :: "json_io \<Rightarrow> string \<Rightarrow> editor \<Rightarrow> editor" where
  "submit_rule_input io input e =
     (let raw = trim input in
      if raw = [] \<or> \<not> ed_mode e then e
      else case (if starts_with raw ''{'' then Option.bind (io_parse io raw) from_singbox_json
                 else Some (from_clash_rule_str raw)) of
        Some rule \<Rightarrow> (insert_rule rule e)\<lparr>ed_status := Some (RuleInserted raw)\<rparr>
      | None \<Rightarrow> e\<lparr>ed_status := Some RuleRejected\<rparr>)"

definition submit_rule_form :: "string \<Rightarrow> editor \<Rightarrow> editor" where
  "submit_rule_form input e =
     (let spec = trim input in
      if spec = [] \<or> \<not> ed_mode e then e
      else case build_simple_rule spec of
        Inr rule \<Rightarrow> (insert_rule rule e)\<lparr>ed_status := Some (RuleBuilt spec)\<rparr>
      | Inl err \<Rightarrow> e\<lparr>ed_status := Some (FormInvalid err)\<rparr>)"

definition rule_set_entry :: "string \<Rightarrow> string \<Rightarrow> string \<Rightarrow> json" where
  "rule_set_entry tag rtype loc =
     mk_obj ([(''type'', JStr rtype), (''tag'', JStr tag)] @
       (if rtype = ''remote'' then [(''url'', JStr loc), (''format'', JStr ''binary'')] else [(''path'', JStr loc)]))"

definition store_sets ::
  "rules_env \<Rightarrow> json list \<Rightarrow> editor_status \<Rightarrow> bool \<Rightarrow> editor \<Rightarrow> rules_world \<Rightarrow> editor \<times> rules_world" where
  "store_sets env sets done marks e w =
     (case save_rule_sets (ce_json (rn_compose env)) (rw_home w) sets of
        Inl err \<Rightarrow> (e\<lparr>ed_status := Some (SetsNotSaved err)\<rparr>, w)
      | Inr home \<Rightarrow>
          (e\<lparr>ed_sets := sets, ed_dirty := (ed_dirty e \<or> marks), ed_status := Some done\<rparr>, w\<lparr>rw_home := home\<rparr>))"

definition submit_rule_set :: "rules_env \<Rightarrow> string \<Rightarrow> editor \<Rightarrow> rules_world \<Rightarrow> editor \<times> rules_world" where
  "submit_rule_set env input e w =
     (case map trim (split_on CHR ''|'' (trim input)) of
        [tag, rtype, loc] \<Rightarrow>
          if \<not> ed_mode e then (e\<lparr>ed_status := Some SetSpecInvalid\<rparr>, w)
          else if \<not> rn_dirs env then (e, w)
          else (case load_rule_sets (ce_json (rn_compose env)) (rw_home w) of
             Inl err \<Rightarrow> (e\<lparr>ed_status := Some (SetsNotLoaded err)\<rparr>, w)
           | Inr sets \<Rightarrow> store_sets env (sets @ [rule_set_entry tag rtype loc]) (SetAdded tag) True e w)
      | _ \<Rightarrow> (e\<lparr>ed_status := Some SetSpecInvalid\<rparr>, w))"

definition delete_rule_set :: "rules_env \<Rightarrow> editor \<Rightarrow> rules_world \<Rightarrow> editor \<times> rules_world" where
  "delete_rule_set env e w =
     (if \<not> ed_mode e \<or> \<not> rn_dirs env then (e, w)
      else case load_rule_sets (ce_json (rn_compose env)) (rw_home w) of
        Inl err \<Rightarrow> (e\<lparr>ed_status := Some (SetsNotLoaded err)\<rparr>, w)
      | Inr sets \<Rightarrow>
          if sets = [] then (e\<lparr>ed_status := Some NoSets\<rparr>, w)
          else store_sets env (remove_at (min (ed_selected e) (length sets - 1)) sets) SetRemoved False e w)"

text \<open>Saving hands the buffer to a task and leaves an empty one.\<close>

definition take_buffer :: "editor \<Rightarrow> editor \<times> route_rule list list" where
  "take_buffer e = (e\<lparr>ed_buffer := []\<rparr>, [ed_buffer e])"

definition save_rules :: "core_kind \<Rightarrow> editor \<Rightarrow> editor \<times> route_rule list list" where
  "save_rules kind e =
     (if \<not> ed_mode e \<or> \<not> ed_dirty e then (e, [])
      else if kind = SingBox then (e\<lparr>ed_confirming := True, ed_status := Some ConfirmRestart\<rparr>, [])
      else take_buffer e)"

definition confirm_save_rules :: "editor \<Rightarrow> editor \<times> route_rule list list" where
  "confirm_save_rules e =
     (if \<not> ed_confirming e then (e, []) else take_buffer (e\<lparr>ed_confirming := False\<rparr>))"

definition cancel_save_rules :: "editor \<Rightarrow> editor" where
  "cancel_save_rules e =
     (if ed_confirming e then e\<lparr>ed_confirming := False, ed_status := Some SaveCancelled\<rparr> else e)"

definition note_rules_saved :: "string \<Rightarrow> editor \<Rightarrow> editor" where
  "note_rules_saved message e =
     e\<lparr>ed_dirty := False, ed_buffer := [], ed_mode := False, ed_status := Some (Saved message)\<rparr>"

definition note_rules_failed :: "string \<Rightarrow> editor \<Rightarrow> editor" where
  "note_rules_failed err e = e\<lparr>ed_buffer := [], ed_mode := False, ed_status := Some (SaveFailed err)\<rparr>"

section \<open>The buffer and the two files\<close>

text \<open>Where the entries of a buffer point when \<open>p\<close> profile rules and \<open>l\<close> logical rules precede it.\<close>

fun entries_from :: "nat \<Rightarrow> nat \<Rightarrow> route_rule list \<Rightarrow> order_entry list" where
  "entries_from p l [] = []"
| "entries_from p l (r # rs) =
     (if is_logical r then LogicalAt l # entries_from p (Suc l) rs else ProfileAt p # entries_from (Suc p) l rs)"

abbreviation profile_part :: "route_rule list \<Rightarrow> route_rule list" where
  "profile_part buffer \<equiv> filter (\<lambda>r. \<not> is_logical r) buffer"

lemma partition_fold:
  "fold partition_step buffer (clash, order) =
     (clash @ profile_part buffer,
      order\<lparr>ro_logical := ro_logical order @ filter is_logical buffer,
            ro_entries := ro_entries order @ entries_from (length clash) (length (ro_logical order)) buffer\<rparr>)"
  by (induction buffer arbitrary: clash order) (simp_all add: partition_step_def)

lemma partition_edit_buffer_alt:
  "partition_edit_buffer buffer =
     (profile_part buffer,
      \<lparr>ro_logical = filter is_logical buffer, ro_entries = entries_from 0 0 buffer, ro_profile = None\<rparr>)"
  by (simp add: partition_edit_buffer_def partition_fold empty_order_def)

lemma entries_from_Nil [simp]: "entries_from p l b = [] \<longleftrightarrow> b = []"
  by (cases b) auto

lemma entries_from_covers: "i < length (profile_part b) \<Longrightarrow> ProfileAt (p + i) \<in> set (entries_from p l b)"
proof (induction b arbitrary: p l i)
  case (Cons r b)
  show ?case
  proof (cases "is_logical r")
    case True
    with Cons show ?thesis by simp
  next
    case False
    with Cons.prems Cons.IH [of "i - 1" "Suc p" l] show ?thesis by (cases i) auto
  qed
qed simp

text \<open>The rule an entry names.\<close>

definition entry_route_rule :: "route_rule list \<Rightarrow> route_rule list \<Rightarrow> order_entry \<Rightarrow> route_rule option" where
  "entry_route_rule rules logical e =
     (case e of
        ProfileAt i \<Rightarrow> if i < length rules then Some (rules ! i) else None
      | LogicalAt i \<Rightarrow> if i < length logical then Some (logical ! i) else None)"

lemma entry_route_rule_simps [simp]:
  "entry_route_rule rules logical (ProfileAt i) = (if i < length rules then Some (rules ! i) else None)"
  "entry_route_rule rules logical (LogicalAt i) = (if i < length logical then Some (logical ! i) else None)"
  by (simp_all add: entry_route_rule_def)

lemma entries_from_rules:
  assumes "list_all2 P (profile_part b) clash" "\<And>r. r \<in> set b \<Longrightarrow> is_logical r \<Longrightarrow> P r r"
  shows "list_all2 P b (filter_map (entry_route_rule (cs @ clash) (ls @ filter is_logical b)) (entries_from (length cs) (length ls) b))"
  using assms
proof (induction b arbitrary: cs ls clash)
  case (Cons r b)
  show ?case
  proof (cases "is_logical r")
    case True
    have "list_all2 P b (filter_map (entry_route_rule (cs @ clash) ((ls @ [r]) @ filter is_logical b))
        (entries_from (length cs) (length (ls @ [r])) b))"
      using Cons.prems True by (intro Cons.IH) auto
    then show ?thesis using True Cons.prems(2) [of r] by simp
  next
    case False
    with Cons.prems(1) obtain c clash' where clash: "clash = c # clash'" "P r c" "list_all2 P (profile_part b) clash'"
      by (auto simp: list_all2_Cons1)
    have "list_all2 P b (filter_map (entry_route_rule ((cs @ [c]) @ clash') (ls @ filter is_logical b))
        (entries_from (length (cs @ [c])) (length ls) b))"
      using Cons.prems clash by (intro Cons.IH) auto
    then show ?thesis using False clash by simp
  qed
qed simp

lemma layout_fold:
  fixes rules logical :: "route_rule list"
  defines "st' \<equiv> fold (layout_step rules logical)"
  shows "lo_buffer (st' es st) = lo_buffer st @ filter_map (entry_route_rule rules logical) es"
    and "length (lo_referenced st) = length rules \<Longrightarrow> i < length rules \<Longrightarrow>
      lo_referenced (st' es st) ! i \<longleftrightarrow> lo_referenced st ! i \<or> ProfileAt i \<in> set es"
proof -
  show "lo_buffer (st' es st) = lo_buffer st @ filter_map (entry_route_rule rules logical) es"
    unfolding st'_def
    by (induction es arbitrary: st) (auto simp: layout_step_def split: order_entry.splits)
  show "length (lo_referenced st) = length rules \<Longrightarrow> i < length rules \<Longrightarrow>
      lo_referenced (st' es st) ! i \<longleftrightarrow> lo_referenced st ! i \<or> ProfileAt i \<in> set es"
    unfolding st'_def
  proof (induction es arbitrary: st)
    case (Cons e es)
    show ?case
    proof (cases e)
      case (ProfileAt j)
      with Cons.prems Cons.IH [of "layout_step rules logical e st"] show ?thesis
        by (auto simp: layout_step_def nth_list_update)
    next
      case (LogicalAt j)
      with Cons.prems Cons.IH [of "layout_step rules logical e st"] show ?thesis
        by (auto simp: layout_step_def)
    qed
  qed simp
qed

definition layout_start :: "route_rule list \<Rightarrow> layout" where
  "layout_start rules = \<lparr>lo_buffer = [], lo_referenced = replicate (length rules) False, lo_last = None\<rparr>"

definition layout_of :: "route_rule list \<Rightarrow> rule_order \<Rightarrow> layout" where
  "layout_of rules order = fold (layout_step rules (ro_logical order)) (ro_entries order) (layout_start rules)"

lemma layout_of_simps:
  "lo_buffer (layout_of rules order) = filter_map (entry_route_rule rules (ro_logical order)) (ro_entries order)"
  "i < length rules \<Longrightarrow> lo_referenced (layout_of rules order) ! i \<longleftrightarrow> ProfileAt i \<in> set (ro_entries order)"
  by (simp_all add: layout_of_def layout_fold layout_start_def)

text \<open>The rules no entry names.\<close>

definition unplaced_route_rules :: "route_rule list \<Rightarrow> layout \<Rightarrow> route_rule list" where
  "unplaced_route_rules rules st =
     filter_map (\<lambda>(i, r). if lo_referenced st ! i then None else Some r) (enumerate 0 rules)"

definition insert_point :: "nat option \<Rightarrow> nat" where
  "insert_point slot = (case slot of None \<Rightarrow> 0 | Some k \<Rightarrow> Suc k)"

lemma compose_edit_buffer_alt:
  "compose_edit_buffer rules order =
     (if ro_entries order = [] then rules @ ro_logical order
      else let st = layout_of rules order; at = insert_point (lo_last st)
        in take at (lo_buffer st) @ unplaced_route_rules rules st @ drop at (lo_buffer st))"
  by (simp add: compose_edit_buffer_def layout_of_def layout_start_def unplaced_route_rules_def insert_point_def Let_def)

lemma filter_map_enumerate_None:
  "(\<And>i. i < length xs \<Longrightarrow> f (n + i, xs ! i) = None) \<Longrightarrow> filter_map f (enumerate n xs) = []"
proof (induction xs arbitrary: n)
  case (Cons x xs)
  have "f (n, x) = None" using Cons.prems [of 0] by simp
  moreover have "filter_map f (enumerate (Suc n) xs) = []"
    using Cons.prems [of "Suc i" for i] by (intro Cons.IH) simp
  ultimately show ?case by simp
qed simp

lemma unplaced_none:
  assumes "\<And>i. i < length rules \<Longrightarrow> ProfileAt i \<in> set (ro_entries order)"
  shows "unplaced_route_rules rules (layout_of rules order) = []"
  unfolding unplaced_route_rules_def using assms
  by (intro filter_map_enumerate_None) (simp add: layout_of_simps)

lemma compose_complete:
  assumes "\<And>i. i < length rules \<Longrightarrow> ProfileAt i \<in> set (ro_entries order)" "ro_entries order \<noteq> []"
  shows "compose_edit_buffer rules order = filter_map (entry_route_rule rules (ro_logical order)) (ro_entries order)"
  using assms by (simp add: compose_edit_buffer_alt unplaced_none layout_of_simps Let_def)

text \<open>Composing the two parts of a buffer gives the buffer, also when the profile rules are read back in a form
  that is only related to the one they had.\<close>

lemma compose_partition:
  assumes "list_all2 P (profile_part b) clash" "\<And>r. r \<in> set b \<Longrightarrow> is_logical r \<Longrightarrow> P r r"
    and order: "ro_logical order = filter is_logical b" "ro_entries order = entries_from 0 0 b"
  shows "list_all2 P b (compose_edit_buffer clash order)"
proof (cases "b = []")
  case True
  then show ?thesis using assms by (simp add: compose_edit_buffer_alt)
next
  case False
  have len: "length clash = length (profile_part b)" using assms(1) by (simp add: list_all2_lengthD)
  have "compose_edit_buffer clash order = filter_map (entry_route_rule clash (ro_logical order)) (ro_entries order)"
    using False order len entries_from_covers [of _ b 0 0] by (intro compose_complete) auto
  then show ?thesis using entries_from_rules [OF assms(1,2), of "[]" "[]"] order by simp
qed

theorem partition_then_compose:
  "compose_edit_buffer (fst (partition_edit_buffer buffer)) (snd (partition_edit_buffer buffer)) = buffer"
  using compose_partition [of "(=)" buffer "profile_part buffer" "snd (partition_edit_buffer buffer)"]
  by (simp add: partition_edit_buffer_alt list.rel_eq)

section \<open>The editor and the generator\<close>

text \<open>What the generator makes of a rule of the buffer.\<close>

definition generated_rule :: "(route_rule \<Rightarrow> json option) \<Rightarrow> route_rule \<Rightarrow> json option" where
  "generated_rule conv r = (if is_logical r then to_singbox_json r else conv r)"

lemma generated_rule_simps [simp]:
  "is_logical r \<Longrightarrow> generated_rule conv r = to_singbox_json r"
  "\<not> is_logical r \<Longrightarrow> generated_rule conv r = conv r"
  by (simp_all add: generated_rule_def)

definition il_start :: "nat \<Rightarrow> interleaving" where
  "il_start n = \<lparr>il_merged = [], il_referenced = replicate n False, il_last = None\<rparr>"

definition il_of :: "json option list \<Rightarrow> rule_order \<Rightarrow> interleaving" where
  "il_of slots order =
     fold (interleave_step slots (map to_singbox_json (ro_logical order))) (ro_entries order) (il_start (length slots))"

lemma interleave_route_slots_alt:
  "interleave_route_slots slots order =
     (if ro_entries order = [] then cat_options slots @ cat_options (map to_singbox_json (ro_logical order))
      else let st = il_of slots order; at = insert_point (il_last st)
        in take at (il_merged st) @ unplaced_rules slots (il_referenced st) @ drop at (il_merged st))"
  by (simp add: interleave_route_slots_def il_of_def il_start_def insert_point_def Let_def)

text \<open>The two layouts go in step: the generated rules are those of the buffer, and when every rule converts, the
  point after the last placed profile rule is the same one.\<close>

definition in_step :: "(route_rule \<Rightarrow> json option) \<Rightarrow> layout \<Rightarrow> interleaving \<Rightarrow> bool" where
  "in_step g lo il \<longleftrightarrow> il_merged il = filter_map g (lo_buffer lo) \<and> il_referenced il = lo_referenced lo"

definition same_point :: "(route_rule \<Rightarrow> json option) \<Rightarrow> layout \<Rightarrow> interleaving \<Rightarrow> bool" where
  "same_point g lo il \<longleftrightarrow>
     (case lo_last lo of
        None \<Rightarrow> il_last il = None
      | Some k \<Rightarrow> k < length (lo_buffer lo) \<and> g (lo_buffer lo ! k) \<noteq> None \<and>
          il_last il = Some (length (filter_map g (take k (lo_buffer lo)))))"

lemma in_step_layout:
  assumes "\<And>r. r \<in> set rules \<Longrightarrow> \<not> is_logical r" "\<And>r. r \<in> set logical \<Longrightarrow> is_logical r" "in_step (generated_rule conv) lo il"
  shows "in_step (generated_rule conv) (fold (layout_step rules logical) es lo)
    (fold (interleave_step (map conv rules) (map to_singbox_json logical)) es il)"
  using assms(3)
proof (induction es arbitrary: lo il)
  case (Cons e es)
  have "in_step (generated_rule conv) (layout_step rules logical e lo)
      (interleave_step (map conv rules) (map to_singbox_json logical) e il)"
    using Cons.prems assms(1) [OF nth_mem] assms(2) [OF nth_mem]
    by (cases e) (auto simp: in_step_def layout_step_def interleave_step_def split: option.splits)
  from Cons.IH [OF this] show ?case by simp
qed simp

lemma same_point_layout:
  assumes "\<And>r. r \<in> set rules \<Longrightarrow> \<not> is_logical r \<and> conv r \<noteq> None" "\<And>r. r \<in> set logical \<Longrightarrow> is_logical r"
    and "in_step (generated_rule conv) lo il" "same_point (generated_rule conv) lo il"
  shows "same_point (generated_rule conv) (fold (layout_step rules logical) es lo)
    (fold (interleave_step (map conv rules) (map to_singbox_json logical)) es il)"
  using assms(3,4)
proof (induction es arbitrary: lo il)
  case (Cons e es)
  let ?g = "generated_rule conv" and ?lo = "layout_step rules logical e lo"
    and ?il = "interleave_step (map conv rules) (map to_singbox_json logical) e il"
  have step: "in_step ?g ?lo ?il"
    using in_step_layout [of rules logical conv lo il "[e]"] assms(1,2) Cons.prems(1) by simp
  have "same_point ?g ?lo ?il"
  proof (cases e)
    case (ProfileAt i)
    show ?thesis
    proof (cases "i < length rules")
      case True
      have "\<not> is_logical (rules ! i)" "conv (rules ! i) \<noteq> None" using assms(1) nth_mem [OF True] by blast+
      with True ProfileAt Cons.prems(1) show ?thesis
        by (auto simp: same_point_def in_step_def layout_step_def interleave_step_def)
    next
      case False
      with ProfileAt Cons.prems show ?thesis by (simp add: layout_step_def interleave_step_def)
    qed
  next
    case (LogicalAt i)
    with Cons.prems show ?thesis
      by (auto simp: same_point_def layout_step_def interleave_step_def nth_append split: option.splits)
  qed
  from Cons.IH [OF step this] show ?case by simp
qed simp

lemma filter_map_take_drop:
  assumes "k < length xs" "f (xs ! k) \<noteq> None"
  shows "filter_map f (take (Suc k) xs) = take (Suc (length (filter_map f (take k xs)))) (filter_map f xs)"
    and "filter_map f (drop (Suc k) xs) = drop (Suc (length (filter_map f (take k xs)))) (filter_map f xs)"
proof -
  obtain y where y: "f (xs ! k) = Some y" using assms(2) by auto
  have split: "filter_map f xs = filter_map f (take k xs) @ y # filter_map f (drop (Suc k) xs)"
    using y by (subst id_take_nth_drop [OF assms(1)]) simp
  have "filter_map f (take (Suc k) xs) = filter_map f (take k xs) @ [y]"
    using y by (simp add: take_Suc_conv_app_nth [OF assms(1)])
  then show "filter_map f (take (Suc k) xs) = take (Suc (length (filter_map f (take k xs)))) (filter_map f xs)"
    unfolding split by simp
  show "filter_map f (drop (Suc k) xs) = drop (Suc (length (filter_map f (take k xs)))) (filter_map f xs)"
    unfolding split by simp
qed

lemma same_point_split:
  assumes "same_point g lo il" "il_merged il = filter_map g (lo_buffer lo)"
  shows "filter_map g (take (insert_point (lo_last lo)) (lo_buffer lo)) = take (insert_point (il_last il)) (il_merged il)"
    and "filter_map g (drop (insert_point (lo_last lo)) (lo_buffer lo)) = drop (insert_point (il_last il)) (il_merged il)"
  using assms filter_map_take_drop [where f = g and xs = "lo_buffer lo"]
  by (auto simp: same_point_def insert_point_def split: option.splits)

lemma unplaced_generated:
  assumes "\<And>r. r \<in> set rules \<Longrightarrow> \<not> is_logical r"
  shows "filter_map (generated_rule conv) (unplaced_route_rules rules lo) = unplaced_rules (map conv rules) (lo_referenced lo)"
proof -
  have "filter_map (generated_rule conv) (filter_map (\<lambda>(i, r). if ref ! i then None else Some r) (enumerate n rs)) =
      filter_map (\<lambda>(i, slot). if ref ! i then None else slot) (enumerate n (map conv rs))"
    if "set rs \<subseteq> set rules" for n rs ref
    using that
  proof (induction rs arbitrary: n)
    case (Cons r rs)
    then show ?case using assms [of r] by (auto simp: generated_rule_def split: option.splits)
  qed simp
  then show ?thesis by (simp add: unplaced_route_rules_def unplaced_rules_def)
qed

lemma buffer_generates:
  assumes "\<And>r. r \<in> set rules \<Longrightarrow> \<not> is_logical r" "\<And>r. r \<in> set (ro_logical order) \<Longrightarrow> is_logical r"
    and "(\<forall>r \<in> set rules. conv r \<noteq> None) \<or> (\<forall>i < length rules. ProfileAt i \<in> set (ro_entries order))"
  shows "interleave_route_slots (map conv rules) order =
    filter_map (generated_rule conv) (compose_edit_buffer rules order)"
proof (cases "ro_entries order = []")
  case True
  have "filter_map (generated_rule conv) rules = cat_options (map conv rules)"
    using assms(1) by (simp add: filter_map_def generated_rule_def cong: map_cong)
  moreover have "filter_map (generated_rule conv) (ro_logical order) = cat_options (map to_singbox_json (ro_logical order))"
    using assms(2) by (simp add: filter_map_def generated_rule_def cong: map_cong)
  ultimately show ?thesis using True by (simp add: interleave_route_slots_alt compose_edit_buffer_alt)
next
  case False
  let ?lo = "layout_of rules order" and ?il = "il_of (map conv rules) order" and ?g = "generated_rule conv"
  have start: "in_step ?g (layout_start rules) (il_start (length rules))" "same_point ?g (layout_start rules) (il_start (length rules))"
    by (simp_all add: in_step_def same_point_def layout_start_def il_start_def)
  have step: "in_step ?g ?lo ?il"
    using in_step_layout [OF assms(1,2) start(1), where es = "ro_entries order"] by (simp add: layout_of_def il_of_def)
  have unplaced: "filter_map ?g (unplaced_route_rules rules ?lo) = unplaced_rules (map conv rules) (il_referenced ?il)"
    using unplaced_generated [OF assms(1)] step by (simp add: in_step_def)
  from assms(3) show ?thesis
  proof
    assume "\<forall>r \<in> set rules. conv r \<noteq> None"
    then have "same_point ?g ?lo ?il"
      using same_point_layout [OF _ assms(2) start, where es = "ro_entries order"] assms(1) by (simp add: layout_of_def il_of_def)
    with step unplaced False show ?thesis
      by (simp add: interleave_route_slots_alt compose_edit_buffer_alt Let_def same_point_split in_step_def)
  next
    assume "\<forall>i < length rules. ProfileAt i \<in> set (ro_entries order)"
    then have "unplaced_route_rules rules ?lo = []" by (intro unplaced_none) simp
    with step unplaced False show ?thesis
      by (simp add: interleave_route_slots_alt compose_edit_buffer_alt Let_def in_step_def flip: unplaced)
  qed
qed

text \<open>C36: the editor shows what the core evaluates: the rules of sing-box that are generated from the profile rules and
  a stored order are those of the editor's buffer, one after the other, whenever every profile rule converts or
  every profile rule is placed by the order, as it is after a save.\<close>

theorem editor_shows_generated_order:
  assumes "\<And>r. r \<in> set rules \<Longrightarrow> \<not> is_logical r" "\<And>r. r \<in> set (ro_logical order) \<Longrightarrow> is_logical r"
    and "(\<forall>r \<in> set rules. conv r \<noteq> None) \<or> (\<forall>i < length rules. ProfileAt i \<in> set (ro_entries order))"
  shows "interleave_route_slots (map conv rules) order =
    filter_map (generated_rule conv) (compose_edit_buffer rules order)"
  by (rule buffer_generates [OF assms])

definition sample_rule :: "string \<Rightarrow> route_rule" where
  "sample_rule name = Simple [Domain name] Direct"

definition sample_logical :: route_rule where
  "sample_logical = Logical OpOr [Simple [Domain ''b''] Direct] Block"

definition sample_conv :: "route_rule \<Rightarrow> json option" where
  "sample_conv r = (if r = sample_rule ''x'' then None else to_singbox_json r)"

lemma sample_not_logical [simp]: "\<not> is_logical (sample_rule n)" "is_logical sample_logical"
  by (simp_all add: sample_rule_def sample_logical_def)

lemma sample_rule_eq [simp]: "sample_rule a = sample_rule b \<longleftrightarrow> a = b"
  by (simp add: sample_rule_def)

theorem editor_shows_generated_order_witness:
  "interleave_route_slots (map sample_conv [sample_rule ''a'', sample_rule ''x''])
     \<lparr>ro_logical = [sample_logical], ro_entries = [ProfileAt 0, LogicalAt 0, ProfileAt 1], ro_profile = None\<rparr> =
   filter_map (generated_rule sample_conv) [sample_rule ''a'', sample_logical, sample_rule ''x'']"
proof -
  let ?order = "\<lparr>ro_logical = [sample_logical], ro_entries = [ProfileAt 0, LogicalAt 0, ProfileAt 1], ro_profile = None\<rparr>"
  have "compose_edit_buffer [sample_rule ''a'', sample_rule ''x''] ?order = [sample_rule ''a'', sample_logical, sample_rule ''x'']"
    by (simp add: compose_edit_buffer_def layout_step_def)
  moreover have "interleave_route_slots (map sample_conv [sample_rule ''a'', sample_rule ''x'']) ?order =
      filter_map (generated_rule sample_conv) (compose_edit_buffer [sample_rule ''a'', sample_rule ''x''] ?order)"
    by (rule editor_shows_generated_order) (auto simp: less_Suc_eq)
  ultimately show ?thesis by (simp only:)
qed

text \<open>Without one of the two conditions they can disagree: when the last placed profile rule does not convert, the
  generator puts the rules the order does not name before a logical rule the editor shows above them.\<close>

theorem dropped_rule_moves_the_rest:
  "\<exists>rules order. (\<forall>r \<in> set rules. \<not> is_logical r) \<and> (\<forall>r \<in> set (ro_logical order). is_logical r) \<and>
     interleave_route_slots (map sample_conv rules) order \<noteq>
       filter_map (generated_rule sample_conv) (compose_edit_buffer rules order)"
proof -
  let ?rules = "[sample_rule ''a'', sample_rule ''x'', sample_rule ''c'']"
  let ?order = "\<lparr>ro_logical = [sample_logical], ro_entries = [ProfileAt 0, LogicalAt 0, ProfileAt 1], ro_profile = None\<rparr>"
  obtain a l c where json: "to_singbox_json (sample_rule ''a'') = Some a" "to_singbox_json (sample_rule ''c'') = Some c"
    "to_singbox_json sample_logical = Some l" "l \<noteq> c"
    by (simp add: sample_rule_def sample_logical_def field_to_singbox_def field_entry_def mk_fields_def)
  have "interleave_route_slots (map sample_conv ?rules) ?order = [a, c, l]"
    using json by (simp add: interleave_route_slots_def interleave_step_def sample_conv_def unplaced_rules_def)
  moreover have "compose_edit_buffer ?rules ?order = [sample_rule ''a'', sample_logical, sample_rule ''x'', sample_rule ''c'']"
    by (simp add: compose_edit_buffer_def layout_step_def)
  then have "filter_map (generated_rule sample_conv) (compose_edit_buffer ?rules ?order) = [a, l, c]"
    using json by (simp add: sample_conv_def)
  ultimately have "interleave_route_slots (map sample_conv ?rules) ?order \<noteq>
      filter_map (generated_rule sample_conv) (compose_edit_buffer ?rules ?order)"
    using json(4) by simp
  then show ?thesis by (intro exI [of _ ?rules] exI [of _ ?order]) simp
qed

section \<open>Saving and loading again\<close>

lemma rules_equivalent_iff: "rules_equivalent xs ys \<longleftrightarrow> map describe xs = map describe ys"
  by (induction xs ys rule: list_induct2') (auto simp: rules_equivalent_def)

lemma fingerprint_describe:
  assumes "map describe xs = map describe ys"
  shows "profile_rule_fingerprint xs = profile_rule_fingerprint ys"
proof -
  have "fold (\<lambda>r h. fnv [CHR 0x1F] (fnv (describe r) h)) zs h = fold (\<lambda>d h. fnv [CHR 0x1F] (fnv d h)) (map describe zs) h" for zs h
    by (simp add: fold_map o_def)
  then show ?thesis using assms map_eq_imp_length_eq [OF assms] by (simp add: profile_rule_fingerprint_def)
qed

text \<open>The rule of the buffer and the one read back: equal, or clash rules with the same text.\<close>

definition same_rule :: "route_rule \<Rightarrow> route_rule \<Rightarrow> bool" where
  "same_rule r r' \<longleftrightarrow> r = r' \<or> \<not> is_logical r \<and> \<not> is_logical r' \<and> describe r = describe r'"

lemma same_rules:
  "rules_equivalent ys xs \<Longrightarrow> \<forall>x \<in> set xs \<union> set ys. \<not> is_logical x \<Longrightarrow> list_all2 same_rule xs ys"
  unfolding rules_equivalent_iff by (induction xs ys rule: list_induct2') (auto simp: same_rule_def)

text \<open>A rule whose text is read back as a rule with this text.\<close>

definition stable_rule :: "route_rule \<Rightarrow> bool" where
  "stable_rule r \<longleftrightarrow> describe (from_clash_rule_str (describe r)) = describe r"

lemma parsed_rule_stable: "stable_rule (from_clash_rule_str s)"
proof -
  have d: "describe (from_clash_rule_str t) = to_clash_rule_str (from_clash_rule_str t)" for t
    using from_clash_not_logical [of t] by (cases "from_clash_rule_str t") auto
  show ?thesis unfolding stable_rule_def d using clash_parse_print [of s] by simp
qed

lemma describe_clash: "\<not> is_logical r \<Longrightarrow> describe r = to_clash_rule_str r"
  by (cases r) simp_all

lemma file_rule_text_eq: "file_rule_text r = to_clash_rule_str r"
  by (cases r) (simp_all add: file_rule_text_def)

lemma load_rules_not_logical: "r \<in> set (load_rules_from_doc doc) \<Longrightarrow> \<not> is_logical r"
  using load_rules_parsed from_clash_not_logical by blast

text \<open>A composition does not read the file of the profile beyond its mapping, when no fragment is that file.\<close>

lemma run_hook_other_file:
  assumes "\<And>f. f \<in> set all \<Longrightarrow> \<not> is_selectable f \<Longrightarrow> pi_file f \<noteq> Some file" "fst hook \<notin> {''remote'', ''local''}"
  shows "run_hook env (dir(file := x)) all name hook m = run_hook env dir all name hook m"
proof -
  obtain kind default_uid configured where hook: "hook = (kind, default_uid, configured)" by (cases hook) auto
  have "resolve_chain (ce_parse env) (dir(file := x)) f = resolve_chain (ce_parse env) dir f"
    if "find_item all uid = Some f" "pi_type f = Some kind" for f uid
  proof -
    have "f \<in> set all" using that(1) by (auto simp: find_item_def find_Some_iff)
    moreover have "\<not> is_selectable f" using that(2) assms(2) hook by (simp add: is_selectable_def)
    ultimately have "pi_file f \<noteq> Some file" using assms(1) by blast
    then show ?thesis by (cases "pi_file f") (auto simp: resolve_chain_def read_fragment_def)
  qed
  then show ?thesis unfolding hook run_hook_def Let_def by (auto split: option.splits)
qed

lemma run_hooks_other_file:
  assumes "\<And>f. f \<in> set all \<Longrightarrow> \<not> is_selectable f \<Longrightarrow> pi_file f \<noteq> Some file"
    and "\<And>h. h \<in> set hooks \<Longrightarrow> fst h \<notin> {''remote'', ''local''}"
  shows "run_hooks env (dir(file := x)) all name hooks m = run_hooks env dir all name hooks m"
  using assms(2)
proof (induction hooks arbitrary: m)
  case (Cons h hooks)
  have "run_hooks env (dir(file := x)) all name hooks = run_hooks env dir all name hooks"
    using Cons.IH Cons.prems by (intro ext) (simp del: fun_upd_apply)
  then show ?case using run_hook_other_file [OF assms(1)] Cons.prems by (simp del: fun_upd_apply)
qed simp

lemma hooks_not_profiles:
  "h \<in> set (sequence_hooks item) \<union> set (late_hooks item) \<Longrightarrow> fst h \<notin> {''remote'', ''local''}"
  by (auto simp: sequence_hooks_def late_hooks_def)

lemma ymap_put_put: "ymap_put k v (ymap_put k u m) = ymap_put k v m"
proof -
  have "assoc_put q v (assoc_put q u m) = assoc_put q v m" for q by (induction m) auto
  then show ?thesis by (simp add: ymap_put_def)
qed

text \<open>After the file is rewritten with some rules, composing the profile gives what the composition with these rules
  as an override gave before.\<close>

lemma compose_rewritten:
  assumes "pi_file item = Some file" "dir file = Content raw" "ce_mapping env raw = Some m"
    and "ce_mapping env saved = Some (ymap_put ''rules'' (YSeq rules) m)"
    and "\<And>f. f \<in> set all \<Longrightarrow> \<not> is_selectable f \<Longrightarrow> pi_file f \<noteq> Some file"
  shows "compose_profile_with_controls env (dir(file := Content saved)) all item app None =
    compose_profile_with_controls env dir all item app (Some rules)"
proof -
  have "run_hooks env (dir(file := Content saved)) all name hs p = run_hooks env dir all name hs p"
    if "hs \<in> {sequence_hooks item, late_hooks item}" for name hs p
    by (rule run_hooks_other_file) (use assms(5) hooks_not_profiles that in blast)+
  then have hooks:
    "run_hooks env (dir(file := Content saved)) all name (sequence_hooks item) = run_hooks env dir all name (sequence_hooks item)"
    "run_hooks env (dir(file := Content saved)) all name (late_hooks item) = run_hooks env dir all name (late_hooks item)" for name
    by (auto simp del: fun_upd_apply)
  show ?thesis
    using assms(1-4) unfolding compose_profile_with_controls_def read_profile_mapping_def hooks by simp
qed

definition saved_order :: "route_rule list \<Rightarrow> rule_order" where
  "saved_order buffer =
     \<lparr>ro_logical = filter is_logical buffer, ro_entries = entries_from 0 0 buffer,
      ro_profile = Some (profile_rule_fingerprint (profile_part buffer))\<rparr>"

lemma fingerprint_of_save:
  assumes "rules_equivalent (take (length chain) rules) chain" "\<And>r. r \<in> set rules \<Longrightarrow> \<not> is_logical r \<and> stable_rule r"
  shows "profile_rule_fingerprint (chain @ map (\<lambda>r. from_clash_rule_str (to_clash_rule_str r)) (drop (length chain) rules)) =
    profile_rule_fingerprint rules"
proof (rule fingerprint_describe)
  have "map describe (map (\<lambda>r. from_clash_rule_str (to_clash_rule_str r)) (drop (length chain) rules)) =
      map describe (drop (length chain) rules)"
    using assms(2) by (auto simp: stable_rule_def describe_clash [symmetric] dest: in_set_dropD)
  then show "map describe (chain @ map (\<lambda>r. from_clash_rule_str (to_clash_rule_str r)) (drop (length chain) rules)) =
      map describe rules"
    using assms(1) by (metis append_take_drop_id map_append rules_equivalent_iff)
qed

lemma strip_front:
  assumes "rules_equivalent (take (length chain) rules) chain"
  shows "strip_chain_rules rules chain = Ok (drop (length chain) rules)"
proof -
  have "length (take (length chain) rules) = length chain" using assms by (simp only: rules_equivalent_def)
  then have "length chain \<le> length rules" by simp
  then show ?thesis using assms by (simp add: strip_chain_rules_def Let_def)
qed

text \<open>The profile that was rewritten composes to the rules the save had computed.\<close>

lemma recomposed_after_save:
  assumes "pi_file item = Some file" "rw_files w file = Content raw" "ce_mapping (rn_compose env) raw = Some m"
    and "is_selectable item" "\<And>f. f \<in> set (world_items w) \<Longrightarrow> \<not> is_selectable f \<Longrightarrow> pi_file f \<noteq> Some file"
    and "ce_mapping (rn_compose env) saved = Some (ymap_put ''rules'' (YSeq (map (\<lambda>r. YStr (to_clash_rule_str r)) file_rules)) m)"
    and "\<not> is_singbox_json_profile (ce_json (rn_compose env)) saved"
    and "world_items w' = world_items w" "rw_files w' = (rw_files w)(file := Content saved)"
  shows "composed_profile_rules env w' item = recomposed_rules env w item file_rules"
proof -
  let ?C = "rn_compose env" and ?app = "Some (app_controls_of (rn_clash env) (rn_verge env) (rn_tun env))"
  let ?rules = "map (\<lambda>r. YStr (to_clash_rule_str r)) file_rules"
  have "compose_profile_with_controls ?C (rw_files w') (world_items w) item ?app None =
      compose_profile_with_controls ?C (rw_files w) (world_items w) item ?app (Some ?rules)"
    unfolding assms(9) by (rule compose_rewritten) (use assms in auto)
  moreover have "load_profile_yaml ?C (rw_files w') (world_items w') (rn_clash env) (rn_verge env) (rn_tun env) item =
      rbind (compose_profile_with_controls ?C (rw_files w') (world_items w) item ?app None) (\<lambda>m. ok_or (ce_print ?C m) NotSerialized)"
    using assms(1,4,7-9) by (auto simp: load_profile_yaml_def load_remote_profile_with_rules_def is_selectable_def)
  ultimately show ?thesis
    unfolding composed_profile_rules_def recomposed_rules_def compose_profile_rules_def file_rule_text_eq
    by (cases "compose_profile_with_controls ?C (rw_files w) (world_items w) item ?app (Some ?rules)") simp_all
qed

lemma persist_logical_frame:
  "persist_logical_rules env order w = (r, w') \<Longrightarrow> rw_profiles w' = rw_profiles w \<and> rw_files w' = rw_files w"
  by (auto simp: persist_logical_rules_def split: if_splits sum.splits)

lemma sidecar_after_save:
  assumes "persist_logical_rules env order w = (Inr u, w')" "rn_dirs env"
    and "\<And>r. r \<in> set (ro_logical order) \<Longrightarrow> storable r"
    and "\<And>vals. logical_rule_values (ro_logical order) = Inr vals \<Longrightarrow>
      io_parse (ce_json (rn_compose env)) (io_print (ce_json (rn_compose env)) (order_json order vals)) =
        Some (order_json order vals)"
  shows "stored_rule_order env w' True = Inr (if ro_logical order = [] then None else Some order)"
proof (cases "ro_logical order = []")
  case True
  then have "rw_home w' logical_rules_file = None"
    using assms(1) by (auto simp: persist_logical_rules_def split: if_splits)
  then show ?thesis using True assms(2) by (simp add: stored_rule_order_def load_rule_order_def empty_order_def)
next
  case False
  then have "save_rule_order (ce_json (rn_compose env)) (rw_home w) order = Inr (rw_home w')"
    using assms(1) by (auto simp: persist_logical_rules_def split: sum.splits)
  then have "load_rule_order (ce_json (rn_compose env)) (rw_home w') = Inr order"
    using rule_order_save_load [OF assms(4,3)] by blast
  then show ?thesis using False assms(2) by (simp add: stored_rule_order_def)
qed

lemma save_profile_rules_mapping:
  "save_profile_rules parse print yaml rules = Inr s \<Longrightarrow> parse yaml = Some (YMap m) \<Longrightarrow>
     print (YMap (ymap_put ''rules'' (YSeq (map (\<lambda>r. YStr (to_clash_rule_str r)) rules)) m)) = Some s"
  by (auto simp: save_profile_rules_def save_rules_to_doc_def split: if_splits)

lemma composed_rules_plain:
  "composed_profile_rules env w item = Inr rules \<Longrightarrow> r \<in> set rules \<Longrightarrow> \<not> is_logical r"
  by (auto simp: composed_profile_rules_def load_profile_rules_def dest: load_rules_not_logical)

lemma persist_rules_ok:
  assumes "persist_rules env file yaml buffer kind chain w = (Inr u, w')" "strip_chain_rules (profile_part buffer) chain = Inr fr"
  obtains s where "save_profile_rules (ce_parse (rn_compose env)) (rn_print env) yaml fr = Inr s"
    and "if kind = SingBox then
        persist_logical_rules env ((snd (partition_edit_buffer buffer))
            \<lparr>ro_profile := (case saved_fingerprint env s chain of Some f \<Rightarrow> Some f | None \<Rightarrow> None)\<rparr>)
          (w\<lparr>rw_files := (rw_files w)(file := Content s)\<rparr>) = (Inr u, w')
      else w' = w\<lparr>rw_files := (rw_files w)(file := Content s)\<rparr>"
proof -
  from assms obtain s where s: "save_profile_rules (ce_parse (rn_compose env)) (rn_print env) yaml fr = Inr s"
    by (cases "save_profile_rules (ce_parse (rn_compose env)) (rn_print env) yaml fr")
       (auto simp: persist_rules_def partition_edit_buffer_alt)
  show thesis
    by (rule that [OF s]) (use assms s in \<open>simp add: persist_rules_def partition_edit_buffer_alt Let_def cong: option.case_cong split: if_split_asm\<close>)
qed

text \<open>C35: When the contribution of the chain stands in front of the rules, a save and the next opening of the editor agree: if
  the save of a buffer succeeds, the editor opened on the files it left shows every rule of the buffer in its place,
  logical rules unchanged and clash rules with the same text, and no reset of the order is reported. It is also
  assumed that printed YAML and JSON are read back and that the clash rules have a stable text, as parsed ones do.
  A chain that appends its rules is left out: the next opening then resets the order, as
  the lemma on appending chains shows.\<close>

theorem saved_rules_reload:
  assumes "active_item w = Inr item" "pi_file item = Some file" "rw_files w file = Content yaml"
    and "ce_parse (rn_compose env) yaml = Some (YMap m)" "ce_mapping (rn_compose env) yaml = Some m"
    and "\<And>v s. rn_print env (YMap v) = Some s \<Longrightarrow> ce_parse (rn_compose env) s = Some (YMap v) \<and>
      ce_mapping (rn_compose env) s = Some v \<and> \<not> is_singbox_json_profile (ce_json (rn_compose env)) s"
    and "\<And>vals. logical_rule_values (ro_logical (saved_order buffer)) = Inr vals \<Longrightarrow>
      io_parse (ce_json (rn_compose env)) (io_print (ce_json (rn_compose env)) (order_json (saved_order buffer) vals)) =
        Some (order_json (saved_order buffer) vals)"
    and "\<And>f. f \<in> set (world_items w) \<Longrightarrow> \<not> is_selectable f \<Longrightarrow> pi_file f \<noteq> Some file"
    and "recomposed_rules env w item [] = Inr chain" "rules_equivalent (take (length chain) (profile_part buffer)) chain"
    and "\<And>r. r \<in> set buffer \<Longrightarrow> if is_logical r then storable r else stable_rule r"
    and "save_task env kind buffer w = (Inr saved_item, w')"
  shows "\<exists>buffer'. load_buffer env w' (kind = SingBox) = Inr (buffer', None) \<and> list_all2 same_rule buffer buffer'"
proof -
  let ?C = "rn_compose env" and ?rules = "profile_part buffer" and ?order = "saved_order buffer"
  let ?file_rules = "drop (length chain) ?rules"
  let ?doc = "ymap_put ''rules'' (YSeq (map (\<lambda>r. YStr (to_clash_rule_str r)) ?file_rules)) m"
  have strip: "strip_chain_rules ?rules chain = Ok ?file_rules" by (rule strip_front [OF assms(10)])
  from assms(12) have task: "persist_rules_for_profile env item file yaml buffer kind w = (Inr (), w')"
    "rn_dirs env" "\<not> list_ex is_logical buffer \<or> kind = SingBox"
    using assms(1-3) by (auto simp: save_task_def split: prod.splits sum.splits)
  then obtain reproduced where reproduced: "recomposed_rules env w item ?file_rules = Inr reproduced"
      "rules_equivalent reproduced ?rules" "persist_rules env file yaml buffer kind chain w = (Inr (), w')"
    using assms(9) strip
    by (auto simp: persist_rules_for_profile_def partition_edit_buffer_alt Let_def split: sum.splits)
  have doc: "save_rules_to_doc ?file_rules (YMap m) = YMap ?doc" by (simp add: save_rules_to_doc_def)
  obtain s where saved: "save_profile_rules (ce_parse ?C) (rn_print env) yaml ?file_rules = Inr s"
    and last: "if kind = SingBox then
        persist_logical_rules env ((snd (partition_edit_buffer buffer))
            \<lparr>ro_profile := (case saved_fingerprint env s chain of Some f \<Rightarrow> Some f | None \<Rightarrow> None)\<rparr>)
          (w\<lparr>rw_files := (rw_files w)(file := Content s)\<rparr>) = (Inr (), w')
      else w' = w\<lparr>rw_files := (rw_files w)(file := Content s)\<rparr>"
    by (rule persist_rules_ok [OF reproduced(3) strip])
  have s: "rn_print env (YMap ?doc) = Some s"
    by (rule save_profile_rules_mapping [OF saved assms(4)])
  define w1 where "w1 = w\<lparr>rw_files := (rw_files w)(file := Content s)\<rparr>"
  have "saved_fingerprint env s chain =
      Some (profile_rule_fingerprint (chain @ map (\<lambda>r. from_clash_rule_str (to_clash_rule_str r)) ?file_rules))"
    using assms(6) [OF s] load_save_rules [of "YMap m" m ?file_rules] doc
    by (simp add: saved_fingerprint_def load_profile_rules_def)
  then have "saved_fingerprint env s chain = Some (profile_rule_fingerprint ?rules)"
    using fingerprint_of_save [OF assms(10)] assms(11) by force
  then have last: "if kind = SingBox then persist_logical_rules env ?order w1 = (Inr (), w') else w' = w1"
    using last by (cases "kind = SingBox") (simp_all add: partition_edit_buffer_alt saved_order_def w1_def)
  then have frame: "rw_profiles w' = rw_profiles w" "rw_files w' = (rw_files w)(file := Content s)"
    using persist_logical_frame [of env ?order w1] by (auto simp: w1_def split: if_splits)
  have "is_selectable item" using assms(1) by (auto simp: active_item_def store_items_def find_Some_iff dest: nth_mem)
  then have "composed_profile_rules env w' item = recomposed_rules env w item ?file_rules"
    using assms(2,3,5,8) assms(6) [OF s] frame
    by (intro recomposed_after_save [where saved = s]) (simp_all add: world_items_def)
  then have composed: "composed_profile_rules env w' item = Inr reproduced" using reproduced(1) by simp
  have plain: "\<not> is_logical r" if "r \<in> set reproduced" for r
    by (rule composed_rules_plain [OF composed that])
  have active: "active_item w' = Inr item" using assms(1) frame by (simp add: active_item_def)
  have same: "list_all2 same_rule ?rules reproduced"
    using plain by (intro same_rules [OF reproduced(2)]) auto
  show ?thesis
  proof (cases "kind = SingBox \<and> filter is_logical buffer \<noteq> []")
    case True
    then have "stored_rule_order env w' True = Inr (Some ?order)"
      using sidecar_after_save [of env ?order w1 "()" w'] last task(2) assms(7,11)
      by (auto simp: saved_order_def split: if_splits)
    moreover have "resolve_profile_drift ?order (profile_rule_fingerprint reproduced) = (?order, None)"
      using fingerprint_describe [of reproduced ?rules] reproduced(2)
      by (simp add: resolve_profile_drift_def matches_profile_def saved_order_def rules_equivalent_iff)
    moreover have "list_all2 same_rule buffer (compose_edit_buffer reproduced ?order)"
      using same by (intro compose_partition) (simp_all add: saved_order_def same_rule_def)
    ultimately show ?thesis using True active composed assms(2) by (simp add: load_buffer_def)
  next
    case False
    then have no_logical: "filter is_logical buffer = []"
      using task(3) by (auto simp: list_ex_iff filter_empty_conv)
    then have "?rules = buffer" by (auto simp: filter_id_conv filter_empty_conv)
    moreover have "stored_rule_order env w' (kind = SingBox) = Inr None"
    proof (cases "kind = SingBox")
      case True
      then show ?thesis
        using sidecar_after_save [of env ?order w1 "()" w', OF _ _ _ assms(7)] last task(2) no_logical
        by (simp add: saved_order_def)
    qed (simp add: stored_rule_order_def)
    ultimately show ?thesis
      using active composed assms(2) same by (simp add: load_buffer_def compose_edit_buffer_def empty_order_def)
  qed
qed

text \<open>A profile without fragments: the composition keeps the rules it is given.\<close>

definition no_fragments :: "prf_item list \<Rightarrow> prf_item \<Rightarrow> bool" where
  "no_fragments all item \<longleftrightarrow>
     (\<forall>(kind, default_uid, configured) \<in> set (sequence_hooks item @ late_hooks item).
        configured = None \<and> find_item all default_uid = None)"

lemma run_hooks_none:
  assumes "\<forall>(kind, default_uid, configured) \<in> set hooks. configured = None \<and> find_item all default_uid = None"
  shows "run_hooks env dir all name hooks m = Inr m"
  using assms
proof (induction hooks)
  case (Cons h hooks)
  obtain kind default_uid configured where h: "h = (kind, default_uid, configured)" by (cases h) auto
  have "run_hook env dir all name h m = Inr m" using Cons.prems h by (auto simp: run_hook_def)
  moreover have "run_hooks env dir all name hooks m = Inr m" using Cons.prems by (intro Cons.IH) auto
  ultimately show ?case by simp
qed simp

lemma composed_without_fragments:
  assumes "no_fragments all item" "read_profile_mapping env dir item = Inr m" "ymap_wf m" "ymap_wf (mapping_at ''tun'' app)"
  shows "\<exists>out. compose_profile_with_controls env dir all item (Some app) (Some rules) = Inr out \<and>
    ymap_get out ''rules'' = Some (YSeq rules)"
proof -
  let ?p = "ymap_put ''rules'' (YSeq rules) m"
  have none: "run_hooks env dir all name (sequence_hooks item) p = Inr p" "run_hooks env dir all name (late_hooks item) p = Inr p" for name p
    using assms(1) by (simp_all add: no_fragments_def run_hooks_none)
  have out: "compose_profile_with_controls env dir all item (Some app) (Some rules) =
      Inr (restore_controls app (snapshot_control_plane (inject_controls app ?p)) (inject_controls app ?p))"
    using assms(2) by (simp add: compose_profile_with_controls_def none Let_def)
  have rules: "''rules'' \<notin> set control_plane_keys" by (simp add: control_plane_keys_def)
  have wf: "ymap_wf ?p" "ymap_wf (inject_controls app ?p)"
    using assms(3) by (simp_all add: ymap_wf_put inject_controls_def Let_def enforce_wf)
  have "ymap_get (inject_controls app ?p) ''rules'' = Some (YSeq rules)"
    using rules wf(1)
    by (simp add: inject_controls_def Let_def ymap_get_enforce ymap_wf_put snapshot_wf ymap_get_put ymap_get_snapshot)
  then show ?thesis using restored_controls(2) [OF wf assms(4) refl rules] out by simp
qed

definition sample_profile_item :: prf_item where
  "sample_profile_item = blank_item\<lparr>pi_uid := Some ''R1'', pi_type := Some ''remote''\<rparr>"

definition sample_rules_mapping :: ymapping where
  "sample_rules_mapping = [(YStr ''rules'', YSeq [YStr ''DOMAIN,a,DIRECT''])]"

definition sample_buffer :: "route_rule list" where
  "sample_buffer = [sample_logical, sample_rule ''a'']"

definition blank_verge_ports :: verge_ports where
  "blank_verge_ports =
     \<lparr>vp_mixed_port = None, vp_socks_enabled = None, vp_socks_port = None, vp_http_enabled = None, vp_port = None,
      vp_redir_enabled = None, vp_redir_port = None, vp_tproxy_enabled = None, vp_tproxy_port = None\<rparr>"

definition sample_rules_env :: rules_env where
  "sample_rules_env =
     \<lparr>rn_compose =
        \<lparr>ce_parse = (\<lambda>s. if s = ''A'' then Some (YMap sample_rules_mapping) else Some (YMap [])),
         ce_mapping = (\<lambda>s. if s = ''A'' then Some sample_rules_mapping else Some []),
         ce_print = (\<lambda>m. Some (if ymap_get m ''rules'' = Some (YSeq []) then ''E'' else ''A'')),
         ce_script = (\<lambda>_ _ _ _. None),
         ce_json = single_document_io
           (order_json (saved_order sample_buffer) (cat_options (map to_singbox_json [sample_logical])))\<rparr>,
      rn_clash = [], rn_verge = blank_verge_ports, rn_tun = None,
      rn_print = (\<lambda>v. if v = YMap sample_rules_mapping then Some ''A'' else None),
      rn_dirs = True, rn_writable = (\<lambda>_. True), rn_removable = True\<rparr>"

definition sample_rules_world :: rules_world where
  "sample_rules_world =
     \<lparr>rw_profiles = Some \<lparr>ip_current = Some ''R1'', ip_items = Some [sample_profile_item], ip_extra = []\<rparr>,
      rw_files = (\<lambda>_. Content ''A''), rw_home = Map.empty\<rparr>"

lemma sample_env_simps [simp]:
  "rn_clash sample_rules_env = []" "rn_verge sample_rules_env = blank_verge_ports" "rn_tun sample_rules_env = None"
  "ce_print (rn_compose sample_rules_env) m = Some (if ymap_get m ''rules'' = Some (YSeq []) then ''E'' else ''A'')"
  "ce_parse (rn_compose sample_rules_env) s = Some (YMap (if s = ''A'' then sample_rules_mapping else []))"
  by (simp_all add: sample_rules_env_def)

lemma sample_active: "active_item sample_rules_world = Inr sample_profile_item"
  by (simp add: active_item_def sample_rules_world_def store_items_def items_of_def is_selectable_def sample_profile_item_def)

lemma sample_parsed: "from_clash_rule_str ''DOMAIN,a,DIRECT'' = sample_rule ''a''"
  by code_simp

lemma sample_printed: "to_clash_rule_str (sample_rule ''a'') = ''DOMAIN,a,DIRECT''"
  by code_simp

lemma sample_recomposed:
  "recomposed_rules sample_rules_env sample_rules_world sample_profile_item rules =
     (if rules = [] then Inr [] else Inr [sample_rule ''a''])"
proof -
  let ?C = "rn_compose sample_rules_env" and ?app = "app_controls_of [] blank_verge_ports None"
  have "no_fragments (world_items sample_rules_world) sample_profile_item"
    by (simp add: no_fragments_def world_items_def sample_rules_world_def items_of_def find_item_def sequence_hooks_def
        late_hooks_def option_uid_def sample_profile_item_def blank_item_def)
  moreover have "read_profile_mapping ?C (rw_files sample_rules_world) sample_profile_item = Inr sample_rules_mapping"
    by (simp add: read_profile_mapping_def sample_rules_world_def sample_profile_item_def blank_item_def sample_rules_env_def)
  moreover have "ymap_wf sample_rules_mapping" "ymap_wf (mapping_at ''tun'' ?app)"
    by (simp_all add: ymap_wf_def sample_rules_mapping_def) code_simp
  ultimately obtain out where out: "compose_profile_with_controls ?C (rw_files sample_rules_world)
      (world_items sample_rules_world) sample_profile_item (Some ?app) (Some (map (\<lambda>r. YStr (file_rule_text r)) rules)) = Inr out"
    "ymap_get out ''rules'' = Some (YSeq (map (\<lambda>r. YStr (file_rule_text r)) rules))"
    using composed_without_fragments by blast
  then show ?thesis
    by (auto simp: recomposed_rules_def compose_profile_rules_def load_profile_rules_def load_rules_from_doc_def
        sample_rules_mapping_def sample_parsed)
qed

lemma sample_storable: "storable sample_logical"
proof -
  have "from_singbox_json (mk_obj [(''type'', JStr ''logical''), (''mode'', JStr ''or''),
      (''rules'', JArr [mk_obj [(''domain'', mk_strs [''b'']), (''outbound'', JStr ''direct'')]]), (''outbound'', JStr ''block'')]) =
      Some sample_logical"
    by (simp add: sample_logical_def from_singbox_json.simps get_str_def get_array_def mode_from_def simple_from_singbox_def
        singbox_fields_def field_from_singbox_def first_elem_def mk_strs_def target_from_singbox_def Let_def)
  then show ?thesis by (auto simp: storable_def)
qed

lemma sample_sidecar_saved:
  "\<exists>home. save_rule_order (ce_json (rn_compose sample_rules_env)) Map.empty (saved_order sample_buffer) = Inr home"
proof -
  obtain j where "to_singbox_json sample_logical = Some j" using storable_json [OF sample_storable] by blast
  then have "logical_rule_values (ro_logical (saved_order sample_buffer)) = Inr [j]"
    by (simp add: logical_rule_values_def saved_order_def sample_buffer_def)
  moreover have "check_all (\<lambda>(slot, e). check_entry (length (ro_logical (saved_order sample_buffer))) slot e)
      (enumerate 0 (ro_entries (saved_order sample_buffer))) = Inr ()"
    by (simp add: saved_order_def sample_buffer_def check_entry_def)
  moreover have "validate_rule_set_references (ce_json (rn_compose sample_rules_env)) Map.empty
      (ro_logical (saved_order sample_buffer)) = Inr ()"
    by (simp add: saved_order_def sample_buffer_def sample_logical_def validate_rule_set_references_def load_rule_sets_def
        validate_rule_set_references_against_def)
  ultimately show ?thesis
    by (simp add: save_rule_order_def atomic_write_def sample_rules_env_def single_document_io_def)
qed

lemma sample_saved:
  "\<exists>w'. save_task sample_rules_env SingBox sample_buffer sample_rules_world = (Inr sample_profile_item, w')"
proof -
  have part: "partition_edit_buffer sample_buffer = ([sample_rule ''a''], \<lparr>ro_logical = [sample_logical],
      ro_entries = [LogicalAt 0, ProfileAt 0], ro_profile = None\<rparr>)"
    by (simp add: partition_edit_buffer_alt sample_buffer_def)
  have order: "saved_order sample_buffer = \<lparr>ro_logical = [sample_logical],
      ro_entries = [LogicalAt 0, ProfileAt 0], ro_profile = Some (profile_rule_fingerprint [sample_rule ''a''])\<rparr>"
    by (simp add: saved_order_def sample_buffer_def)
  have saved: "save_profile_rules (ce_parse (rn_compose sample_rules_env)) (rn_print sample_rules_env) ''A'' [sample_rule ''a''] = Inr ''A''"
    by (simp add: save_profile_rules_def save_rules_to_doc_def sample_rules_mapping_def ymap_put_def sample_printed)
       (simp add: sample_rules_env_def sample_rules_mapping_def)
  have print: "saved_fingerprint sample_rules_env ''A'' [] = Some (profile_rule_fingerprint [sample_rule ''a''])"
    by (simp add: saved_fingerprint_def load_profile_rules_def load_rules_from_doc_def sample_rules_mapping_def sample_parsed)
  obtain home where home: "save_rule_order (ce_json (rn_compose sample_rules_env)) Map.empty (saved_order sample_buffer) = Inr home"
    using sample_sidecar_saved by blast
  have "persist_rules sample_rules_env ''p'' ''A'' sample_buffer SingBox [] sample_rules_world =
      (Inr (), sample_rules_world\<lparr>rw_files := (rw_files sample_rules_world)(''p'' := Content ''A''), rw_home := home\<rparr>)"
    using home
    by (simp add: persist_rules_def part strip_chain_rules_def saved print persist_logical_rules_def order)
       (simp add: sample_rules_env_def sample_rules_world_def)
  then have "persist_rules_for_profile sample_rules_env sample_profile_item ''p'' ''A'' sample_buffer SingBox sample_rules_world =
      (Inr (), sample_rules_world\<lparr>rw_files := (rw_files sample_rules_world)(''p'' := Content ''A''), rw_home := home\<rparr>)"
    by (simp add: persist_rules_for_profile_def sample_recomposed part strip_chain_rules_def rules_equivalent_def Let_def)
  moreover have "pi_file sample_profile_item = Some ''p''" "rw_files sample_rules_world ''p'' = Content ''A''" "rn_dirs sample_rules_env"
    by (simp_all add: sample_profile_item_def blank_item_def sample_rules_world_def sample_rules_env_def)
  ultimately show ?thesis by (simp add: save_task_def sample_active)
qed

theorem saved_rules_reload_witness:
  "\<exists>w' buffer'. save_task sample_rules_env SingBox sample_buffer sample_rules_world = (Inr sample_profile_item, w') \<and>
     load_buffer sample_rules_env w' True = Inr (buffer', None) \<and> list_all2 same_rule sample_buffer buffer'"
proof -
  obtain w' where saved: "save_task sample_rules_env SingBox sample_buffer sample_rules_world = (Inr sample_profile_item, w')"
    using sample_saved by blast
  have "\<exists>buffer'. load_buffer sample_rules_env w' (SingBox = SingBox) = Inr (buffer', None) \<and> list_all2 same_rule sample_buffer buffer'"
  proof (rule saved_rules_reload [OF sample_active _ _ _ _ _ _ _ _ _ _ saved])
    show "pi_file sample_profile_item = Some ''p''" "rw_files sample_rules_world ''p'' = Content ''A''"
      "ce_parse (rn_compose sample_rules_env) ''A'' = Some (YMap sample_rules_mapping)"
      "ce_mapping (rn_compose sample_rules_env) ''A'' = Some sample_rules_mapping"
      by (simp_all add: sample_profile_item_def blank_item_def sample_rules_world_def) (simp add: sample_rules_env_def)
    show "ce_parse (rn_compose sample_rules_env) s = Some (YMap v) \<and> ce_mapping (rn_compose sample_rules_env) s = Some v \<and>
        \<not> is_singbox_json_profile (ce_json (rn_compose sample_rules_env)) s"
      if "rn_print sample_rules_env (YMap v) = Some s" for v s
      using that
      by (auto simp: sample_rules_env_def is_singbox_json_profile_def single_document_io_def order_json_def get_array_def
          split: if_splits)
    show "io_parse (ce_json (rn_compose sample_rules_env)) (io_print (ce_json (rn_compose sample_rules_env))
        (order_json (saved_order sample_buffer) vals)) = Some (order_json (saved_order sample_buffer) vals)"
      if "logical_rule_values (ro_logical (saved_order sample_buffer)) = Inr vals" for vals
      using that
      by (auto simp: sample_rules_env_def single_document_io_def logical_rule_values_def saved_order_def sample_buffer_def
          split: if_splits option.splits)
    show "\<And>f. f \<in> set (world_items sample_rules_world) \<Longrightarrow> \<not> is_selectable f \<Longrightarrow> pi_file f \<noteq> Some ''p''"
      by (simp add: world_items_def sample_rules_world_def items_of_def is_selectable_def sample_profile_item_def)
    show "recomposed_rules sample_rules_env sample_rules_world sample_profile_item [] = Inr []" by (simp add: sample_recomposed)
    show "rules_equivalent (take (length ([]::route_rule list)) (profile_part sample_buffer)) []" by (simp add: rules_equivalent_def)
    show "\<And>r. r \<in> set sample_buffer \<Longrightarrow> if is_logical r then storable r else stable_rule r"
      using sample_storable parsed_rule_stable [of "''DOMAIN,a,DIRECT''"] by (auto simp: sample_buffer_def sample_parsed)
  qed
  then show ?thesis using saved by auto
qed

section \<open>Edits\<close>

lemma remove_insert_at: "i \<le> length xs \<Longrightarrow> remove_at i (insert_at i x xs) = xs"
  by (simp add: remove_at_def insert_at_def Cons_nth_drop_Suc)

lemma swap_at_commute: "swap_at i j xs = swap_at j i xs"
  by (cases "i = j") (simp_all add: swap_at_def list_update_swap)

lemma swap_at_twice: "i < length xs \<Longrightarrow> j < length xs \<Longrightarrow> swap_at i j (swap_at i j xs) = xs"
  by (cases "i = j") (auto simp: swap_at_def nth_list_update list_update_swap intro!: nth_equalityI)

lemma mset_swap_at: "i < length xs \<Longrightarrow> j < length xs \<Longrightarrow> mset (swap_at i j xs) = mset xs"
  by (simp add: swap_at_def mset_swap)

text \<open>A rule that was entered is deleted by the next deletion, and a move is undone by the opposite one.\<close>

lemma insert_then_delete:
  assumes "ed_mode e"
  shows "ed_buffer (delete_selected_rule (insert_rule r e)) = ed_buffer e"
  using assms
  by (simp add: delete_selected_rule_def insert_rule_def Let_def remove_insert_at) (simp add: insert_at_def)

lemma move_down_then_up:
  assumes "ed_selected e + 1 < length (ed_buffer e)"
  shows "ed_buffer (move_rule_up (move_rule_down e)) = ed_buffer e \<and> ed_selected (move_rule_up (move_rule_down e)) = ed_selected e"
  using assms swap_at_twice [of "ed_selected e" "ed_buffer e" "ed_selected e + 1"]
  by (simp add: move_rule_up_def move_rule_down_def Let_def) (simp add: swap_at_def)

lemma moves_keep_rules:
  "mset (ed_buffer (move_rule_down e)) = mset (ed_buffer e)" "mset (ed_buffer (move_rule_up e)) = mset (ed_buffer e)"
  by (auto simp: move_rule_down_def move_rule_up_def Let_def intro: mset_swap_at)

text \<open>The rule under the selection is the one the edits act on; they keep the selection inside the buffer.\<close>

lemma edits_keep_selection:
  assumes "ed_selected e < length (ed_buffer e)"
  shows "ed_selected (move_rule_down e) < length (ed_buffer e)" "ed_selected (move_rule_up e) < length (ed_buffer e)"
    "ed_buffer (delete_selected_rule e) = [] \<or> ed_selected (delete_selected_rule e) < length (ed_buffer (delete_selected_rule e))"
    "ed_selected (insert_rule r e) < length (ed_buffer (insert_rule r e))"
  using assms
  by (auto simp: move_rule_down_def move_rule_up_def delete_selected_rule_def insert_rule_def insert_at_def remove_at_def
      Let_def min_def)

text \<open>The selection only visits the first \<open>shown\<close> positions, whatever the length of the buffer: the rules behind
  them cannot be selected, and with no rules reported the selection does not move.\<close>

lemma selection_follows_the_core:
  "ed_selected e < shown \<Longrightarrow> ed_selected (move_selection shown forward e) < shown"
  "move_selection 0 forward e = e"
  by (auto simp: move_selection_def step_index_def)

section \<open>Where saving falls short\<close>

text \<open>A save leaves an empty buffer that still counts as changed. Saving again before the first task reports hands an
  empty list to a second task, which removes every rule of the profile.\<close>

lemma second_save_is_empty:
  assumes "ed_mode e" "ed_dirty e" "kind \<noteq> SingBox"
  shows "snd (save_rules kind e) = [ed_buffer e]" "snd (save_rules kind (fst (save_rules kind e))) = [[]]"
  using assms by (simp_all add: save_rules_def take_buffer_def)

lemma second_confirmed_save_is_empty:
  assumes "ed_mode e" "ed_dirty e"
  defines "save \<equiv> \<lambda>e. confirm_save_rules (fst (save_rules SingBox e))"
  shows "snd (save e) = [ed_buffer e]" "snd (save (fst (save e))) = [[]]"
  using assms by (simp_all add: save_rules_def confirm_save_rules_def take_buffer_def)

lemma empty_save_removes_rules:
  assumes "recomposed_rules env w item [] = Inr []"
    and "save_profile_rules (ce_parse (rn_compose env)) (rn_print env) yaml [] = Inr s" "rn_writable env file"
  shows "persist_rules_for_profile env item file yaml [] Mihomo w = (Inr (), w\<lparr>rw_files := (rw_files w)(file := Content s)\<rparr>)"
  using assms
  by (simp add: persist_rules_for_profile_def persist_rules_def partition_edit_buffer_alt strip_chain_rules_def
      rules_equivalent_def)

text \<open>A chain that appends its rules: the fingerprint of the save has them in front, so the next composition, which has
  them at the end, counts as changed and the order is dropped.\<close>

lemma appended_chain_resets_order:
  defines "file \<equiv> [sample_rule ''a'']" and "chain \<equiv> [sample_rule ''c'']"
  shows "strip_chain_rules (file @ chain) chain = Ok file"
    "resolve_profile_drift (order\<lparr>ro_entries := [LogicalAt 0, ProfileAt 0, ProfileAt 1],
        ro_profile := Some (profile_rule_fingerprint (chain @ file))\<rparr>) (profile_rule_fingerprint (file @ chain)) =
      (\<lparr>ro_logical = ro_logical order, ro_entries = [], ro_profile = Some (profile_rule_fingerprint (file @ chain))\<rparr>,
       Some (RuleOrderReset 2 2))"
proof -
  have texts: "describe (sample_rule ''a'') \<noteq> describe (sample_rule ''c'')" by code_simp
  then show "strip_chain_rules (file @ chain) chain = Ok file"
    by (simp add: strip_chain_rules_def rules_equivalent_def file_def chain_def)
  have "profile_rule_fingerprint [sample_rule ''c'', sample_rule ''a''] \<noteq> profile_rule_fingerprint [sample_rule ''a'', sample_rule ''c'']"
    by code_simp
  moreover have "fp_count (profile_rule_fingerprint rs) = length rs" for rs by (simp add: profile_rule_fingerprint_def)
  ultimately show "resolve_profile_drift (order\<lparr>ro_entries := [LogicalAt 0, ProfileAt 0, ProfileAt 1],
        ro_profile := Some (profile_rule_fingerprint (chain @ file))\<rparr>) (profile_rule_fingerprint (file @ chain)) =
      (\<lparr>ro_logical = ro_logical order, ro_entries = [], ro_profile = Some (profile_rule_fingerprint (file @ chain))\<rparr>,
       Some (RuleOrderReset 2 2))"
    by (simp add: resolve_profile_drift_def matches_profile_def file_def chain_def)
qed

end
