(* ===== verification/File_Swap.thy ===== *)
theory File_Swap
  imports Rule_Order
begin

text \<open>
  The replacement of several files or none, the last step of restoring a backup (\<open>replace_all\<close> of
  \<open>services/backup.rs\<close>): staging next to every target, swapping, rolling back, cleaning up. Files are a map from paths
  to contents. Which operation of the file system succeeds is a parameter, given by the paths it works on: every
  pair of paths occurs once in a run. The locale \<open>staging_names\<close> states what the swap relies on of the names of its
  staging files; it is interpreted on the names the code forms for the files of a backup.
\<close>

section \<open>Operations of the file system\<close>

record swap_env =
  sw_write :: "string \<Rightarrow> bool"
  sw_torn :: "string \<Rightarrow> string option" \<comment> \<open>what a failed write leaves\<close>
  sw_rename :: "string \<Rightarrow> string \<Rightarrow> bool"
  sw_undo :: "string \<Rightarrow> string \<Rightarrow> bool"
  sw_remove :: "string \<Rightarrow> bool"

definition rename_file :: "bool \<Rightarrow> string \<Rightarrow> string \<Rightarrow> home \<Rightarrow> home option" where
  "rename_file allowed src dst fs = (if allowed \<and> fs src \<noteq> None then Some (fs(dst := fs src, src := None)) else None)"

definition remove_file :: "bool \<Rightarrow> string \<Rightarrow> home \<Rightarrow> home" where
  "remove_file allowed p fs = (if allowed then fs(p := None) else fs)"

datatype swap_error =
    NotStaged string
  | NotMovedAside string
  | NotReplaced string
  | RollbackIncomplete swap_error "string list"
  | CommittedNotCleaned string

type_synonym sibling_names = "string \<Rightarrow> string \<Rightarrow> string"

abbreviation partial_of :: "sibling_names \<Rightarrow> string \<Rightarrow> string" where "partial_of sib p \<equiv> sib p ''partial''"
abbreviation orig_of :: "sibling_names \<Rightarrow> string \<Rightarrow> string" where "orig_of sib p \<equiv> sib p ''orig''"

section \<open>The steps\<close>

fun stage_all :: "swap_env \<Rightarrow> sibling_names \<Rightarrow> (string \<times> string) list \<Rightarrow> home \<Rightarrow> (unit, swap_error) result \<times> home" where
  "stage_all env sib [] fs = (Ok (), fs)"
| "stage_all env sib ((p, data) # targets) fs =
     (if sw_write env (partial_of sib p) then stage_all env sib targets (fs(partial_of sib p := Some data))
      else (Err (NotStaged p), fs(partial_of sib p := sw_torn env (partial_of sib p))))"

text \<open>The swap of one file at a time; the second component lists the files to put back, with whether they had an
  original.\<close>

fun swap_all :: "swap_env \<Rightarrow> sibling_names \<Rightarrow> string list \<Rightarrow> (string \<times> bool) list \<Rightarrow> home \<Rightarrow>
    (unit, swap_error) result \<times> (string \<times> bool) list \<times> home" where
  "swap_all env sib [] swapped fs = (Ok (), swapped, fs)"
| "swap_all env sib (p # ps) swapped fs =
     (let had = fs p \<noteq> None in
      case (if had then rename_file (sw_rename env p (orig_of sib p)) p (orig_of sib p) fs else Some fs) of
        None \<Rightarrow> (Err (NotMovedAside p), swapped, fs)
      | Some fs \<Rightarrow>
          (case rename_file (sw_rename env (partial_of sib p) p) (partial_of sib p) p fs of
             None \<Rightarrow> (Err (NotReplaced p), swapped @ [(p, had)], fs)
           | Some fs \<Rightarrow> swap_all env sib ps (swapped @ [(p, had)]) fs))"

definition undo_one :: "swap_env \<Rightarrow> sibling_names \<Rightarrow> string \<times> bool \<Rightarrow> string list \<times> home \<Rightarrow> string list \<times> home" where
  "undo_one env sib entry st =
     (case (entry, st) of ((p, had), (errors, fs)) \<Rightarrow>
        if had then
          (case rename_file (sw_undo env (orig_of sib p) p) (orig_of sib p) p fs of
             Some fs \<Rightarrow> (errors, fs) | None \<Rightarrow> (errors @ [p], fs))
        else if fs p = None then (errors, fs)
        else if sw_remove env p then (errors, remove_file True p fs) else (errors @ [p], fs))"

definition roll_back :: "swap_env \<Rightarrow> sibling_names \<Rightarrow> (string \<times> bool) list \<Rightarrow> home \<Rightarrow> string list \<times> home" where
  "roll_back env sib swapped fs = fold (undo_one env sib) (rev swapped) ([], fs)"

definition drop_partials :: "swap_env \<Rightarrow> sibling_names \<Rightarrow> string list \<Rightarrow> home \<Rightarrow> home" where
  "drop_partials env sib ps fs = fold (\<lambda>p. remove_file (sw_remove env (partial_of sib p)) (partial_of sib p)) ps fs"

fun drop_originals :: "swap_env \<Rightarrow> sibling_names \<Rightarrow> (string \<times> bool) list \<Rightarrow> home \<Rightarrow> (unit, swap_error) result \<times> home" where
  "drop_originals env sib [] fs = (Ok (), fs)"
| "drop_originals env sib ((p, had) # swapped) fs =
     (if \<not> had then drop_originals env sib swapped fs
      else if sw_remove env (orig_of sib p) then drop_originals env sib swapped (fs(orig_of sib p := None))
      else (Err (CommittedNotCleaned p), fs))"

definition replace_all_using ::
  "swap_env \<Rightarrow> sibling_names \<Rightarrow> (string \<times> string) list \<Rightarrow> home \<Rightarrow> (unit, swap_error) result \<times> home" where
  "replace_all_using env sib targets fs =
     (let paths = map fst targets in
      case stage_all env sib targets fs of
        (Inl e, fs) \<Rightarrow> (Err e, drop_partials env sib paths fs)
      | (Inr _, fs) \<Rightarrow>
          (case swap_all env sib paths [] fs of
             (Inl e, swapped, fs) \<Rightarrow>
               (case roll_back env sib swapped fs of (errors, fs) \<Rightarrow>
                  (Err (if errors = [] then e else RollbackIncomplete e errors), drop_partials env sib paths fs))
           | (Inr _, swapped, fs) \<Rightarrow> drop_originals env sib swapped (drop_partials env sib paths fs)))"

text \<open>What a result says of the targets.\<close>

definition committed :: "(unit, swap_error) result \<Rightarrow> bool" where
  "committed r = (case r of Inr _ \<Rightarrow> True | Inl (CommittedNotCleaned _) \<Rightarrow> True | _ \<Rightarrow> False)"

definition stranded :: "(unit, swap_error) result \<Rightarrow> string list" where
  "stranded r = (case r of Inl (RollbackIncomplete _ ps) \<Rightarrow> ps | _ \<Rightarrow> [])"

text \<open>Why the swap of a file fails.\<close>

definition swap_fault :: "swap_env \<Rightarrow> sibling_names \<Rightarrow> home \<Rightarrow> string \<Rightarrow> swap_error \<Rightarrow> bool" where
  "swap_fault env sib fs p e \<longleftrightarrow>
     e = NotMovedAside p \<and> \<not> sw_rename env p (orig_of sib p) \<or>
     e = NotReplaced p \<and> (\<not> sw_rename env (partial_of sib p) p \<or> fs (partial_of sib p) = None)"

section \<open>The names of the staging files\<close>

locale staging_names =
  fixes sib :: sibling_names and target :: "string \<Rightarrow> bool"
  assumes sib_inj: "target p \<Longrightarrow> target q \<Longrightarrow> k \<in> {''partial'', ''orig''} \<Longrightarrow> l \<in> {''partial'', ''orig''} \<Longrightarrow>
      sib p k = sib q l \<Longrightarrow> p = q \<and> k = l"
    and sib_fresh: "target p \<Longrightarrow> \<not> target (sib p k)"
begin

lemma sib_eq [simp]:
  assumes "target p" "target q"
  shows "partial_of sib p = partial_of sib q \<longleftrightarrow> p = q" "orig_of sib p = orig_of sib q \<longleftrightarrow> p = q"
    "partial_of sib p \<noteq> orig_of sib q" "orig_of sib p \<noteq> partial_of sib q" "sib p k \<noteq> q" "q \<noteq> sib p k"
proof -
  show "partial_of sib p = partial_of sib q \<longleftrightarrow> p = q" using sib_inj [OF assms, of "''partial''" "''partial''"] by blast
  show "orig_of sib p = orig_of sib q \<longleftrightarrow> p = q" using sib_inj [OF assms, of "''orig''" "''orig''"] by blast
  show "partial_of sib p \<noteq> orig_of sib q" using sib_inj [OF assms, of "''partial''" "''orig''"] by auto
  show "orig_of sib p \<noteq> partial_of sib q" using sib_inj [OF assms, of "''orig''" "''partial''"] by auto
  show "sib p k \<noteq> q" "q \<noteq> sib p k" using assms sib_fresh [OF assms(1), of k] by blast+
qed

lemma sib_images:
  assumes "\<forall>q \<in> S. target q" "target p"
  shows "p \<notin> partial_of sib ` S" "p \<notin> orig_of sib ` S" "orig_of sib p \<notin> partial_of sib ` S" "partial_of sib p \<notin> orig_of sib ` S"
    "partial_of sib p \<in> partial_of sib ` S \<longleftrightarrow> p \<in> S"
proof -
  have "p \<noteq> partial_of sib x" "p \<noteq> orig_of sib x" "orig_of sib p \<noteq> partial_of sib x" "partial_of sib p \<noteq> orig_of sib x"
    "partial_of sib p = partial_of sib x \<longleftrightarrow> p = x" if "x \<in> S" for x
    using bspec [OF assms(1) that] assms(2) by simp_all
  then show "p \<notin> partial_of sib ` S" "p \<notin> orig_of sib ` S" "orig_of sib p \<notin> partial_of sib ` S" "partial_of sib p \<notin> orig_of sib ` S"
    "partial_of sib p \<in> partial_of sib ` S \<longleftrightarrow> p \<in> S" by blast+
qed

text \<open>Where every file is while the targets \<open>T\<close> are swapped: \<open>fs0\<close> is the state after staging, \<open>moved\<close> the
  targets that were moved aside.\<close>

definition staging :: "string set \<Rightarrow> string \<Rightarrow> bool" where
  "staging T q \<longleftrightarrow> (\<exists>p \<in> T. q = partial_of sib p \<or> q = orig_of sib p)"

definition swapping :: "string set \<Rightarrow> home \<Rightarrow> string set \<Rightarrow> home \<Rightarrow> bool" where
  "swapping T fs0 moved fs \<longleftrightarrow>
     (\<forall>p \<in> T. if p \<in> moved then fs (orig_of sib p) = fs0 p else fs p = fs0 p \<and> fs (orig_of sib p) = None) \<and>
     (\<forall>q. q \<notin> T \<longrightarrow> \<not> staging T q \<longrightarrow> fs q = fs0 q)"

lemma swapping_at:
  "swapping T fs0 moved fs \<Longrightarrow> p \<in> T \<Longrightarrow> p \<in> moved \<Longrightarrow> fs (orig_of sib p) = fs0 p"
  "swapping T fs0 moved fs \<Longrightarrow> p \<in> T \<Longrightarrow> p \<notin> moved \<Longrightarrow> fs p = fs0 p"
  "swapping T fs0 moved fs \<Longrightarrow> p \<in> T \<Longrightarrow> p \<notin> moved \<Longrightarrow> fs (orig_of sib p) = None"
  "swapping T fs0 moved fs \<Longrightarrow> q \<notin> T \<Longrightarrow> \<not> staging T q \<Longrightarrow> fs q = fs0 q"
  by (auto simp: swapping_def split: if_splits)

text \<open>Undoing a file takes it out of the moved ones, or reports it.\<close>

lemma undo_one_swapping:
  assumes T: "\<forall>q \<in> T. target q"
    and "swapping T fs0 (insert p moved) fs" "p \<in> T" "had \<longleftrightarrow> fs0 p \<noteq> None" "undo_one env sib (p, had) (errors, fs) = (errors', fs')"
  shows "errors' = errors \<and> swapping T fs0 (moved - {p}) fs' \<or> errors' = errors @ [p] \<and> fs' = fs"
proof -
  have p: "target p" "p \<noteq> orig_of sib p" using T assms(3) by simp_all
  have orig: "fs (orig_of sib p) = fs0 p" by (rule swapping_at(1) [OF assms(2,3)]) simp
  define fs1 where "fs1 = fs(p := fs0 p, orig_of sib p := None)"
  have fs1: "fs1 p = fs0 p" "fs1 (orig_of sib p) = None" using p(2) by (simp_all add: fs1_def)
  have same: "fs1 q = fs q" if "q \<noteq> p" "q \<noteq> orig_of sib p" for q using that by (simp add: fs1_def)
  have undone: "swapping T fs0 (moved - {p}) fs1"
  proof -
    have "if q \<in> moved - {p} then fs1 (orig_of sib q) = fs0 q else fs1 q = fs0 q \<and> fs1 (orig_of sib q) = None" if "q \<in> T" for q
    proof (cases "q = p")
      case False
      have q: "q \<noteq> orig_of sib p" "orig_of sib q \<noteq> p" "orig_of sib q \<noteq> orig_of sib p" using T that p(1) False by simp_all
      show ?thesis
        using same [of q] same [of "orig_of sib q"] q False that swapping_at(1-3) [OF assms(2), of q] by simp
    qed (simp add: fs1)
    moreover have "fs1 q = fs0 q" if "q \<notin> T" "\<not> staging T q" for q
    proof -
      have "q \<noteq> p" "q \<noteq> orig_of sib p" using that assms(3) by (auto simp: staging_def)
      then show ?thesis using same swapping_at(4) [OF assms(2) that] by simp
    qed
    ultimately show ?thesis by (simp add: swapping_def)
  qed
  show ?thesis
  proof (cases had)
    case True
    then have "rename_file allowed (orig_of sib p) p fs = (if allowed then Some fs1 else None)" for allowed
      using assms(4) orig by (simp add: rename_file_def fs1_def)
    then show ?thesis using True assms(5) undone by (auto simp: undo_one_def split: if_splits)
  next
    case False
    then have "fs0 p = None" "fs (orig_of sib p) = None" using assms(4) orig by simp_all
    then have "fs1 = fs(p := None)" using p(2) by (auto simp: fs1_def)
    moreover have "fs(p := None) = fs" if "fs p = None" using that by auto
    ultimately show ?thesis using False assms(5) undone by (auto simp: undo_one_def remove_file_def split: if_splits)
  qed
qed

lemma roll_back_swapping:
  assumes T: "\<forall>q \<in> T. target q" and "fold (undo_one env sib) undo (errors, fs) = (errors', fs')"
    and "swapping T fs0 (set (map fst undo) \<union> kept) fs" "distinct (map fst undo)" "set (map fst undo) \<inter> kept = {}"
    and "\<And>p had. (p, had) \<in> set undo \<Longrightarrow> p \<in> T \<and> (had \<longleftrightarrow> fs0 p \<noteq> None)"
  shows "\<exists>failed. errors' = errors @ failed \<and> set failed \<subseteq> set (map fst undo) \<and> swapping T fs0 (set failed \<union> kept) fs'"
  using assms(2-)
proof (induction undo arbitrary: errors fs kept)
  case Nil
  then show ?case by (intro exI [of _ "[]"]) simp
next
  case (Cons u undo)
  obtain p had where u: "u = (p, had)" by (cases u)
  obtain errors1 fs1 where one: "undo_one env sib u (errors, fs) = (errors1, fs1)" by force
  have target: "p \<in> T" "had \<longleftrightarrow> fs0 p \<noteq> None" using Cons.prems(5) u by auto
  let ?rest = "set (map fst undo) \<union> kept"
  have p: "p \<notin> ?rest" using Cons.prems(3,4) u by auto
  have "swapping T fs0 (insert p ?rest) fs" using Cons.prems(2) u by simp
  from undo_one_swapping [OF T this target one [unfolded u]]
  consider "errors1 = errors" "swapping T fs0 ?rest fs1" | "errors1 = errors @ [p]" "fs1 = fs"
    using p by auto
  then show ?case
  proof cases
    case 1
    have "\<exists>failed. errors' = errors1 @ failed \<and> set failed \<subseteq> set (map fst undo) \<and> swapping T fs0 (set failed \<union> kept) fs'"
      using Cons.prems one 1 u by (intro Cons.IH [of errors1 fs1]) auto
    then show ?thesis using 1 by auto
  next
    case 2
    have "\<exists>failed. errors' = errors1 @ failed \<and> set failed \<subseteq> set (map fst undo) \<and> swapping T fs0 (set failed \<union> insert p kept) fs'"
      using Cons.prems one 2 u p by (intro Cons.IH [of errors1 fs1]) (auto simp: insert_commute)
    then obtain failed where "errors' = errors1 @ failed" "set failed \<subseteq> set (map fst undo)"
      "swapping T fs0 (set failed \<union> insert p kept) fs'" by blast
    then show ?thesis using 2 u by (intro exI [of _ "p # failed"]) auto
  qed
qed

lemma swap_all_swapping:
  assumes T: "\<forall>q \<in> T. target q" and "swap_all env sib ps swapped fs = (r, swapped', fs')"
    and "swapping T fs0 (set (map fst swapped)) fs" "distinct (map fst swapped @ ps)" "set ps \<subseteq> T"
    and "\<And>p. p \<in> set ps \<Longrightarrow> fs (partial_of sib p) = fs0 (partial_of sib p)"
    and "\<And>p. p \<in> set (map fst swapped) \<Longrightarrow> p \<in> T \<and> fs p = fs0 (partial_of sib p)"
  shows "\<exists>moved rest. ps = moved @ rest \<and> swapped' = swapped @ map (\<lambda>p. (p, fs0 p \<noteq> None)) moved \<and>
      swapping T fs0 (set (map fst swapped')) fs' \<and>
      (is_ok r \<longrightarrow> rest = [] \<and> (\<forall>p \<in> set (map fst swapped'). fs' p = fs0 (partial_of sib p))) \<and>
      (\<forall>e. r = Err e \<longrightarrow> (\<exists>p \<in> set ps. swap_fault env sib fs0 p e))"
  using assms(2-)
proof (induction ps arbitrary: swapped fs)
  case Nil
  then show ?case by (auto simp: is_ok_def)
next
  case (Cons p ps)
  have p: "p \<in> T" "target p" "p \<notin> set (map fst swapped)" "p \<notin> set ps" "fs p = fs0 p" "fs (orig_of sib p) = None"
    using Cons.prems(2-5) T by (auto simp: swapping_def)
  define fs1 where "fs1 = (if fs p \<noteq> None then fs(orig_of sib p := fs p, p := None) else fs)"
  have aside: "swapping T fs0 (insert p (set (map fst swapped))) fs1"
    using Cons.prems(2) p T by (auto simp: swapping_def fs1_def staging_def)
  have fs1: "fs1 p = None" "fs1 (partial_of sib q) = fs (partial_of sib q)"
    "q \<noteq> p \<Longrightarrow> fs1 (orig_of sib q) = fs (orig_of sib q)" "q \<noteq> p \<Longrightarrow> fs1 q = fs q" if "target q" for q
    using p that by (auto simp: fs1_def)
  show ?case
  proof (cases "fs p \<noteq> None \<and> \<not> sw_rename env p (orig_of sib p)")
    case True
    then have "r = Err (NotMovedAside p)" "swapped' = swapped" "fs' = fs"
      using Cons.prems(1) by (auto simp: rename_file_def)
    then show ?thesis using Cons.prems(2) True by - (rule exI [of _ "[]"], rule exI [of _ "p # ps"], simp add: is_ok_def swap_fault_def)
  next
    case False
    then have step: "swap_all env sib (p # ps) swapped fs =
        (case rename_file (sw_rename env (partial_of sib p) p) (partial_of sib p) p fs1 of
           None \<Rightarrow> (Err (NotReplaced p), swapped @ [(p, fs p \<noteq> None)], fs1)
         | Some fs2 \<Rightarrow> swap_all env sib ps (swapped @ [(p, fs p \<noteq> None)]) fs2)"
      by (auto simp: rename_file_def fs1_def Let_def)
    show ?thesis
    proof (cases "rename_file (sw_rename env (partial_of sib p) p) (partial_of sib p) p fs1")
      case None
      then have "r = Err (NotReplaced p)" "swapped' = swapped @ [(p, fs p \<noteq> None)]" "fs' = fs1"
        using Cons.prems(1) step by auto
      moreover have "swap_fault env sib fs0 p (NotReplaced p)"
        using None Cons.prems(5) [of p] fs1(2) [OF p(2)] by (auto simp: rename_file_def swap_fault_def split: if_splits)
      ultimately show ?thesis using aside p(5) by - (rule exI [of _ "[p]"], rule exI [of _ ps], simp add: is_ok_def)
    next
      case (Some fs2)
      then have fs2: "fs2 = fs1(p := fs1 (partial_of sib p), partial_of sib p := None)"
        by (auto simp: rename_file_def split: if_splits)
      have "\<exists>moved rest. ps = moved @ rest \<and> swapped' = (swapped @ [(p, fs p \<noteq> None)]) @ map (\<lambda>p. (p, fs0 p \<noteq> None)) moved \<and>
          swapping T fs0 (set (map fst swapped')) fs' \<and>
          (is_ok r \<longrightarrow> rest = [] \<and> (\<forall>p \<in> set (map fst swapped'). fs' p = fs0 (partial_of sib p))) \<and>
          (\<forall>e. r = Err e \<longrightarrow> (\<exists>p \<in> set ps. swap_fault env sib fs0 p e))"
      proof (rule Cons.IH [of "swapped @ [(p, fs p \<noteq> None)]" fs2])
        show "swap_all env sib ps (swapped @ [(p, fs p \<noteq> None)]) fs2 = (r, swapped', fs')"
          using Cons.prems(1) step Some by simp
        show "swapping T fs0 (set (map fst (swapped @ [(p, fs p \<noteq> None)]))) fs2"
          using aside p T by (auto simp: swapping_def fs2 staging_def)
        show "distinct (map fst (swapped @ [(p, fs p \<noteq> None)]) @ ps)" using Cons.prems(3) by auto
        show "set ps \<subseteq> T" using Cons.prems(4) by simp
        show "fs2 (partial_of sib q) = fs0 (partial_of sib q)" if "q \<in> set ps" for q
        proof -
          have "target q" "q \<noteq> p" using that Cons.prems(4) T p by auto
          then show ?thesis using that Cons.prems(5) [of q] p fs1(2) [of q] by (simp add: fs2)
        qed
        show "q \<in> T \<and> fs2 q = fs0 (partial_of sib q)" if "q \<in> set (map fst (swapped @ [(p, fs p \<noteq> None)]))" for q
        proof (cases "q = p")
          case True
          then show ?thesis using Cons.prems(5) [of p] p fs1(2) [of p] by (simp add: fs2)
        next
          case False
          then have "q \<in> T" "target q" "fs q = fs0 (partial_of sib q)" using that Cons.prems(6) [of q] T by auto
          then show ?thesis using False p fs1(4) [of q] by (simp add: fs2)
        qed
      qed
      then obtain moved rest where "ps = moved @ rest"
          "swapped' = (swapped @ [(p, fs p \<noteq> None)]) @ map (\<lambda>p. (p, fs0 p \<noteq> None)) moved"
          "swapping T fs0 (set (map fst swapped')) fs'"
          "is_ok r \<longrightarrow> rest = [] \<and> (\<forall>p \<in> set (map fst swapped'). fs' p = fs0 (partial_of sib p))"
          "\<forall>e. r = Err e \<longrightarrow> (\<exists>p \<in> set ps. swap_fault env sib fs0 p e)" by blast
      then show ?thesis using p(5) by - (rule exI [of _ "p # moved"], rule exI [of _ rest], simp)
    qed
  qed
qed

text \<open>The swap from the state after staging.\<close>

lemma swap_all_fails:
  assumes T: "\<forall>q \<in> T. target q" and "swap_all env sib ps [] fs0 = (Inl e, swapped, fs)"
    and "swapping T fs0 {} fs0" "distinct ps" "set ps \<subseteq> T"
  obtains moved rest where "ps = moved @ rest" "swapped = map (\<lambda>p. (p, fs0 p \<noteq> None)) moved"
    "swapping T fs0 (set moved) fs" "\<exists>p \<in> set ps. swap_fault env sib fs0 p e"
proof -
  from assms obtain moved rest where "ps = moved @ rest" "swapped = [] @ map (\<lambda>p. (p, fs0 p \<noteq> None)) moved"
      "swapping T fs0 (set (map fst swapped)) fs"
      "\<forall>e'. (Inl e :: (unit, swap_error) result) = Err e' \<longrightarrow> (\<exists>p \<in> set ps. swap_fault env sib fs0 p e')"
    using swap_all_swapping [of T env ps "[]" fs0 "Inl e" swapped fs fs0] by fastforce
  then show thesis by (intro that [of moved rest]) (simp_all add: image_image)
qed

lemma swap_all_succeeds:
  assumes T: "\<forall>q \<in> T. target q" and "swap_all env sib ps [] fs0 = (Inr u, swapped, fs)"
    and "swapping T fs0 {} fs0" "distinct ps" "set ps \<subseteq> T"
  shows "swapped = map (\<lambda>p. (p, fs0 p \<noteq> None)) ps" "swapping T fs0 (set ps) fs" "p \<in> set ps \<Longrightarrow> fs p = fs0 (partial_of sib p)"
proof -
  from assms obtain moved where moved: "ps = moved" "swapped = [] @ map (\<lambda>p. (p, fs0 p \<noteq> None)) moved"
      "swapping T fs0 (set (map fst swapped)) fs" "\<forall>p \<in> set (map fst swapped). fs p = fs0 (partial_of sib p)"
    using swap_all_swapping [of T env ps "[]" fs0 "Inr u" swapped fs fs0] by (fastforce simp: is_ok_def)
  have "set (map fst swapped) = set ps" using moved by (simp add: image_image)
  then show "swapped = map (\<lambda>p. (p, fs0 p \<noteq> None)) ps" "swapping T fs0 (set ps) fs" "p \<in> set ps \<Longrightarrow> fs p = fs0 (partial_of sib p)"
    using moved by simp_all
qed

text \<open>Staging and cleaning up touch only the staging files.\<close>

lemma stage_all_frame:
  "stage_all env sib targets fs = (r, fs') \<Longrightarrow> q \<notin> partial_of sib ` set (map fst targets) \<Longrightarrow> fs' q = fs q"
  by (induction targets arbitrary: fs) (auto split: if_splits)

lemma stage_all_ok:
  assumes "stage_all env sib targets fs = (Inr u, fs')" "distinct (map fst targets)"
    and "\<forall>p \<in> set (map fst targets). target p" "(p, d) \<in> set targets"
  shows "fs' (partial_of sib p) = Some d"
  using assms
proof (induction targets arbitrary: fs)
  case (Cons t targets)
  obtain q e where t: "t = (q, e)" by (cases t)
  have rest: "stage_all env sib targets (fs(partial_of sib q := Some e)) = (Inr u, fs')"
    using Cons.prems(1) t by (auto split: if_splits)
  show ?case
  proof (cases "(p, d) = t")
    case True
    then have "partial_of sib p \<notin> partial_of sib ` set (map fst targets)"
      using Cons.prems(2) t Cons.prems(3) by (subst sib_images(5)) auto
    then show ?thesis using stage_all_frame [OF rest] True t by simp
  next
    case False
    then show ?thesis using Cons.IH [OF rest] Cons.prems by auto
  qed
qed simp

lemma stage_all_error: "stage_all env sib targets fs = (Inl e, fs') \<Longrightarrow> \<exists>p. e = NotStaged p"
  by (induction targets arbitrary: fs) (auto split: if_splits)

lemma drop_partials_at:
  "drop_partials env sib ps fs q =
     (if \<exists>p \<in> set ps. q = partial_of sib p \<and> sw_remove env (partial_of sib p) then None else fs q)"
  unfolding drop_partials_def by (induction ps arbitrary: fs) (auto simp: remove_file_def)

lemma drop_originals_frame:
  "drop_originals env sib swapped fs = (r, fs') \<Longrightarrow> q \<notin> orig_of sib ` set (map fst swapped) \<Longrightarrow> fs' q = fs q"
  by (induction swapped arbitrary: fs) (auto split: if_splits)

lemma drop_originals_committed: "drop_originals env sib swapped fs = (r, fs') \<Longrightarrow> committed r \<and> stranded r = []"
  by (induction swapped arbitrary: fs) (auto simp: committed_def stranded_def split: if_splits)

lemma drop_originals_all:
  assumes "drop_originals env sib swapped fs = (r, fs')" "\<And>p. sw_remove env p"
    and "\<And>p. (p, False) \<in> set swapped \<Longrightarrow> fs (orig_of sib p) = None" "p \<in> set (map fst swapped)"
  shows "fs' (orig_of sib p) = None"
  using assms
proof (induction swapped arbitrary: fs)
  case (Cons s swapped)
  obtain q had where s: "s = (q, had)" by (cases s)
  define fs1 where "fs1 = (if had then fs(orig_of sib q := None) else fs)"
  have rest: "drop_originals env sib swapped fs1 = (r, fs')"
    using Cons.prems(1,2) by (auto simp: s fs1_def split: if_splits)
  show ?case
  proof (cases "p \<in> set (map fst swapped)")
    case True
    then show ?thesis
      using Cons.prems by (intro Cons.IH [OF rest]) (auto simp: fs1_def)
  next
    case False
    then have "p = q" using Cons.prems(4) s by auto
    then have gone: "fs1 (orig_of sib p) = None" using Cons.prems(3) [of p] s by (cases had) (auto simp: fs1_def)
    have "drop_originals env sib swapped fs1 = (r, fs') \<Longrightarrow> fs1 (orig_of sib p) = None \<Longrightarrow> fs' (orig_of sib p) = None" for fs1
      by (induction swapped arbitrary: fs1) (auto split: if_splits)
    then show ?thesis using rest gone by blast
  qed
qed simp

text \<open>What a result says of every file: \<open>committed\<close> results leave the new contents, the others the old ones, apart
  from stranded files, whose old content is beside them.\<close>

definition outcome :: "swap_env \<Rightarrow> (string \<times> string) list \<Rightarrow> home \<Rightarrow> (unit, swap_error) result \<Rightarrow> home \<Rightarrow> bool" where
  "outcome env targets fs r fs' \<longleftrightarrow>
     (committed r \<longrightarrow> (\<forall>q. \<not> staging (set (map fst targets)) q \<longrightarrow>
        fs' q = (case map_of targets q of Some d \<Rightarrow> Some d | None \<Rightarrow> fs q))) \<and>
     (\<not> committed r \<longrightarrow> (\<forall>q. \<not> staging (set (map fst targets)) q \<longrightarrow> q \<notin> set (stranded r) \<longrightarrow> fs' q = fs q)) \<and>
     (\<forall>p \<in> set (stranded r). p \<in> set (map fst targets) \<and> fs' (orig_of sib p) = fs p) \<and>
     ((\<forall>p. sw_remove env p) \<longrightarrow> stranded r = [] \<longrightarrow>
       (\<forall>p \<in> set (map fst targets). fs' (partial_of sib p) = None \<and> fs' (orig_of sib p) = None))"

lemma drop_partials_frame: "q \<notin> partial_of sib ` set ps \<Longrightarrow> drop_partials env sib ps fs q = fs q"
  by (auto simp: drop_partials_at)

lemma drop_partials_gone: "\<forall>p. sw_remove env p \<Longrightarrow> p \<in> set ps \<Longrightarrow> drop_partials env sib ps fs (partial_of sib p) = None"
  by (auto simp: drop_partials_at)

lemma not_staging: "\<not> staging T q \<Longrightarrow> q \<notin> partial_of sib ` T" "\<not> staging T q \<Longrightarrow> q \<notin> orig_of sib ` T"
  by (auto simp: staging_def)

lemma staged_state:
  assumes "stage_all env sib targets fs = (r0, fs0)" and T: "\<forall>p \<in> set (map fst targets). target p"
    and "\<forall>p \<in> set (map fst targets). fs (orig_of sib p) = None"
  shows "p \<in> set (map fst targets) \<Longrightarrow> fs0 p = fs p" "p \<in> set (map fst targets) \<Longrightarrow> fs0 (orig_of sib p) = None"
    "\<not> staging (set (map fst targets)) q \<Longrightarrow> fs0 q = fs q" "swapping (set (map fst targets)) fs0 {} fs0"
proof -
  note staged = stage_all_frame [OF assms(1)] and images = sib_images [OF T]
  show clean: "fs0 p = fs p" "fs0 (orig_of sib p) = None" if "p \<in> set (map fst targets)" for p
    using bspec [OF assms(3) that] staged images(1,3) [OF bspec [OF T that]] by simp_all
  show "\<not> staging (set (map fst targets)) q \<Longrightarrow> fs0 q = fs q" using staged not_staging by blast
  show "swapping (set (map fst targets)) fs0 {} fs0" using clean by (simp add: swapping_def)
qed

lemma outcome_unstaged:
  assumes stage: "stage_all env sib targets fs = (Inl e, fs0)" and T: "\<forall>p \<in> set (map fst targets). target p"
    and fresh: "\<forall>p \<in> set (map fst targets). fs (orig_of sib p) = None"
  shows "outcome env targets fs (Err e) (drop_partials env sib (map fst targets) fs0)"
proof -
  let ?T = "set (map fst targets)"
  note state = staged_state [OF stage T fresh]
  have r: "\<not> committed (Err e)" "stranded (Err e) = []"
    using stage_all_error [OF stage] by (auto simp: committed_def stranded_def)
  have "drop_partials env sib (map fst targets) fs0 q = fs q" if "\<not> staging ?T q" for q
    using not_staging(1) [OF that] drop_partials_frame state(3) [OF that] by simp
  moreover have "drop_partials env sib (map fst targets) fs0 (orig_of sib p) = None" if "p \<in> ?T" for p
    using that state(2) drop_partials_frame sib_images(3) [OF T bspec [OF T that]] by simp
  ultimately show ?thesis using r drop_partials_gone by (simp add: outcome_def)
qed

lemma outcome_undone:
  assumes stage: "stage_all env sib targets fs = (Inr (), fs0)" and T: "\<forall>p \<in> set (map fst targets). target p"
    and fresh: "\<forall>p \<in> set (map fst targets). fs (orig_of sib p) = None" and distinct: "distinct (map fst targets)"
    and swap: "swap_all env sib (map fst targets) [] fs0 = (Inl e, swapped, fs1)"
    and undo: "roll_back env sib swapped fs1 = (errors, fs2)"
  shows "outcome env targets fs (Err (if errors = [] then e else RollbackIncomplete e errors))
    (drop_partials env sib (map fst targets) fs2)" (is "outcome _ _ _ ?r ?fs'")
proof -
  let ?T = "set (map fst targets)"
  note state = staged_state [OF stage T fresh]
  obtain moved rest where moved: "map fst targets = moved @ rest" "swapped = map (\<lambda>p. (p, fs0 p \<noteq> None)) moved"
      "swapping ?T fs0 (set moved) fs1" "\<exists>p \<in> set (map fst targets). swap_fault env sib fs0 p e"
    by (rule swap_all_fails [OF T swap state(4) distinct subset_refl])
  then have names: "set (map fst (rev swapped)) = set moved" by (simp add: image_image)
  have "\<exists>failed. errors = [] @ failed \<and> set failed \<subseteq> set (map fst (rev swapped)) \<and> swapping ?T fs0 (set failed \<union> {}) fs2"
  proof (rule roll_back_swapping [OF T])
    show "fold (undo_one env sib) (rev swapped) ([], fs1) = (errors, fs2)" using undo by (simp add: roll_back_def)
    show "distinct (map fst (rev swapped))" using distinct moved(1,2) by (simp add: o_def rev_map [symmetric])
    show "p \<in> ?T \<and> (had \<longleftrightarrow> fs0 p \<noteq> None)" if "(p, had) \<in> set (rev swapped)" for p had
      using that unfolding moved(1,2) by auto
  qed (use moved(3) names in simp_all)
  then have errors: "set errors \<subseteq> ?T" "swapping ?T fs0 (set errors) fs2" using moved(1) names by auto
  have r: "\<not> committed ?r" "stranded ?r = errors" using moved(4) by (auto simp: committed_def stranded_def swap_fault_def)
  have "?fs' q = fs q" if "\<not> staging ?T q" "q \<notin> set errors" for q
    using that not_staging(1) [OF that(1)] swapping_at(2,4) [OF errors(2)] drop_partials_frame state(1,3)
    by (cases "q \<in> ?T") simp_all
  moreover have "?fs' (orig_of sib p) = (if p \<in> set errors then fs p else None)" if "p \<in> ?T" for p
    using that swapping_at(1,3) [OF errors(2) that] state(1) drop_partials_frame sib_images(3) [OF T bspec [OF T that]]
    by simp
  ultimately show ?thesis using r errors(1) drop_partials_gone by (simp del: set_map add: outcome_def subset_iff)
qed

lemma outcome_swapped:
  assumes stage: "stage_all env sib targets fs = (Inr (), fs0)" and T: "\<forall>p \<in> set (map fst targets). target p"
    and fresh: "\<forall>p \<in> set (map fst targets). fs (orig_of sib p) = None" and distinct: "distinct (map fst targets)"
    and swap: "swap_all env sib (map fst targets) [] fs0 = (Inr (), swapped, fs1)"
    and clean: "drop_originals env sib swapped (drop_partials env sib (map fst targets) fs1) = (r, fs')"
  shows "outcome env targets fs r fs'"
proof -
  let ?T = "set (map fst targets)"
  note state = staged_state [OF stage T fresh]
  note all = swap_all_succeeds [OF T swap state(4) distinct subset_refl]
  have data: "fs0 (partial_of sib p) = Some d" if "(p, d) \<in> set targets" for p d
    using stage_all_ok [OF stage distinct T that] .
  have paths: "map fst swapped = map fst targets" using all(1) by (simp add: o_def)
  have "fs' q = (case map_of targets q of Some d \<Rightarrow> Some d | None \<Rightarrow> fs q)" if q: "\<not> staging ?T q" for q
  proof -
    have "fs' q = fs1 q"
      using drop_originals_frame [OF clean] not_staging [OF q] drop_partials_frame paths by simp
    moreover have "map_of targets q = (if q \<in> ?T then fs0 (partial_of sib q) else None)"
      using data distinct
      by (cases "map_of targets q") (auto simp: map_of_eq_None_iff dest: map_of_SomeD intro: rev_image_eqI)
    moreover have "fs1 q = fs q" if "q \<notin> ?T" using swapping_at(4) [OF all(2) that q] state(3) [OF q] by simp
    ultimately show ?thesis using all(3) data by (auto split: option.splits)
  qed
  moreover have "fs' (partial_of sib p) = None \<and> fs' (orig_of sib p) = None" if "p \<in> ?T" "\<forall>p. sw_remove env p" for p
  proof
    show "fs' (partial_of sib p) = None"
      using drop_originals_frame [OF clean] sib_images(4) [OF T bspec [OF T that(1)]] drop_partials_gone that paths by simp
    show "fs' (orig_of sib p) = None"
    proof (rule drop_originals_all [OF clean])
      show "drop_partials env sib (map fst targets) fs1 (orig_of sib q) = None" if "(q, False) \<in> set swapped" for q
      proof -
        have q: "q \<in> ?T" "fs0 q = None" using that all(1) by auto
        then show ?thesis
          using drop_partials_frame sib_images(3) [OF T bspec [OF T q(1)]] swapping_at(1) [OF all(2) q(1) q(1)] by simp
      qed
    qed (use that paths in simp_all)
  qed
  ultimately show ?thesis using drop_originals_committed [OF clean] by (simp add: outcome_def)
qed

lemma replace_all_outcome:
  assumes run: "replace_all_using env sib targets fs = (r, fs')" and distinct: "distinct (map fst targets)"
    and T: "\<forall>p \<in> set (map fst targets). target p"
    and fresh: "\<forall>p \<in> set (map fst targets). fs (orig_of sib p) = None"
  shows "outcome env targets fs r fs'"
proof -
  obtain r0 fs0 where stage: "stage_all env sib targets fs = (r0, fs0)" by force
  show ?thesis
  proof (cases r0)
    case (Inl e)
    then show ?thesis using run stage outcome_unstaged [OF _ T fresh, of env] by (auto simp: replace_all_using_def)
  next
    case (Inr u)
    then have stage: "stage_all env sib targets fs = (Inr (), fs0)" using stage by simp
    obtain r1 swapped fs1 where swap: "swap_all env sib (map fst targets) [] fs0 = (r1, swapped, fs1)"
      using prod_cases3 by blast
    show ?thesis
    proof (cases r1)
      case (Inl e)
      then show ?thesis
        using run stage swap outcome_undone [OF stage T fresh distinct]
        by (auto simp: replace_all_using_def Let_def split: prod.splits)
    next
      case (Inr u)
      then show ?thesis
        using run stage swap outcome_swapped [OF stage T fresh distinct]
        by (auto simp: replace_all_using_def Let_def)
    qed
  qed
qed

text \<open>Where every operation is allowed, the replacement succeeds.\<close>

lemma stage_all_allowed: "\<forall>p. sw_write env p \<Longrightarrow> \<exists>fs0. stage_all env sib targets fs = (Inr (), fs0)"
  by (induction targets arbitrary: fs) auto

lemma drop_originals_allowed: "\<forall>p. sw_remove env p \<Longrightarrow> fst (drop_originals env sib swapped fs) = Inr ()"
  by (induction swapped arbitrary: fs) auto

lemma replace_all_allowed:
  assumes T: "\<forall>p \<in> set (map fst targets). target p" and distinct: "distinct (map fst targets)"
    and fresh: "\<forall>p \<in> set (map fst targets). fs (orig_of sib p) = None"
    and allowed: "\<forall>p. sw_write env p" "\<forall>p q. sw_rename env p q" "\<forall>p. sw_remove env p"
  shows "fst (replace_all_using env sib targets fs) = Inr ()"
proof -
  obtain fs0 where stage: "stage_all env sib targets fs = (Inr (), fs0)" using stage_all_allowed [OF allowed(1)] by blast
  obtain r swapped fs1 where swap: "swap_all env sib (map fst targets) [] fs0 = (r, swapped, fs1)"
    using prod_cases3 by blast
  have "r = Inr ()"
  proof (cases r)
    case (Inl e)
    obtain p where p: "p \<in> set (map fst targets)" "swap_fault env sib fs0 p e"
      using swap_all_fails [OF T swap [unfolded Inl] staged_state(4) [OF stage T fresh] distinct subset_refl] by blast
    then obtain d where "(p, d) \<in> set targets" by auto
    then show ?thesis using p(2) stage_all_ok [OF stage distinct T] allowed(2) by (auto simp: swap_fault_def)
  qed simp
  then show ?thesis using stage swap drop_originals_allowed [OF allowed(3)] by (simp add: replace_all_using_def Let_def)
qed

end

end
