(* ===== verification/Backup.thy ===== *)
theory Backup
  imports File_Swap Assemble "HOL-Library.List_Lexorder" "HOL-Library.Char_ord" "HOL-Library.Product_Lexorder"
    "HOL-Library.Option_ord"
begin

text \<open>
  Backups of profiles and settings (\<open>services/backup.rs\<close>, the restore command of \<open>commands/backup.rs\<close>): making an
  archive without secrets, checking the entries of an archive, merging local secrets, saving the previous state and
  replacing the files. The configuration directory is a map from relative paths to contents; zip, YAML and JSON are
  parameters.
\<close>

section \<open>The environment\<close>

record zip_entry =
  ze_name :: string
  ze_dir :: bool
  ze_size :: nat \<comment> \<open>the unpacked size the archive declares\<close>
  ze_data :: "string option" \<comment> \<open>\<open>None\<close>: reading fails\<close>

datatype profiles_dir = NoProfilesDir | ProfilesUnlisted | ProfileNames "string list"

record backup_env =
  bk_assemble :: assemble_env
  bk_value :: "string \<Rightarrow> yaml option"
  bk_print :: "ymapping \<Rightarrow> string option"
  bk_zip :: "(string \<times> string) list \<Rightarrow> string option"
  bk_unzip :: "string \<Rightarrow> zip_entry option list option" \<comment> \<open>an entry that cannot be opened is \<open>None\<close>\<close>
  bk_readable :: "string \<Rightarrow> bool"
  bk_listing :: "home \<Rightarrow> profiles_dir" \<comment> \<open>the regular files of \<open>profiles/\<close> with UTF-8 names\<close>
  bk_writable :: "string \<Rightarrow> bool"
  bk_swap :: swap_env
  bk_transaction :: string
  bk_default_name :: string

record backup_world =
  bw_home :: home
  bw_archives :: "string \<Rightarrow> string option"

datatype sidecar_error =
    SidecarNotJson
  | SidecarSchema
  | SidecarDns dns_spec_error
  | SidecarNotArray
  | SidecarNotLogical nat
  | SidecarSets rule_set_error

datatype backup_error =
    FileUnreadable string
  | SidecarNotBackedUp string sidecar_error
  | SecretsNotParsed string
  | SecretsNotPrinted string
  | NothingToBackUp
  | ProfilesDirUnreadable
  | ZipFailed
  | ArchiveNotWritten string
  | ArchiveUnreadable
  | NotAZip
  | EntryUnreadable string
  | TooManyBytes
  | DuplicateManifest
  | ManifestInvalid
  | UnsupportedFormat nat
  | ManifestEntryInvalid string
  | DuplicateEntry string
  | EntryNotYaml string
  | SidecarInvalid string sidecar_error
  | ArchiveWithoutProfiles
  | ManifestMismatch

datatype restore_error =
    ArchiveRejected backup_error
  | PreviousNotSaved backup_error
  | NotSwapped swap_error

section \<open>Names\<close>

definition backup_files :: "string list" where
  "backup_files =
     [''config.yaml'', ''verge.yaml'', ''profiles.yaml'', ''dns_config.yaml'', ''singbox-dns.json'', ''singbox-rules.json'',
      ''singbox-rule-sets.json'']"

definition manifest_file :: string where "manifest_file = ''backup-manifest.json''"
definition backup_format_version :: nat where "backup_format_version = 1"
definition max_unpacked_bytes :: nat where "max_unpacked_bytes = 256 * 1024 * 1024"

definition secret_keys :: "string \<Rightarrow> string list option" where
  "secret_keys name =
     (if name = ''config.yaml'' then Some [''secret'']
      else if name = ''verge.yaml'' then Some [''webdav_username'', ''webdav_password''] else None)"

definition is_backup_name :: "string \<Rightarrow> bool" where
  "is_backup_name name \<longleftrightarrow>
     ends_with name ''.zip'' \<and> \<not> starts_with name ''.'' \<and>
     list_all (\<lambda>c. is_ascii_upper c \<or> is_ascii_lower c \<or> c \<in> set ''0123456789'' \<or> c \<in> set ''._-'') name"

definition is_profile_file :: "string \<Rightarrow> bool" where
  "is_profile_file file \<longleftrightarrow>
     file \<noteq> [] \<and> CHR ''/'' \<notin> set file \<and> CHR 0x5C \<notin> set file \<and> file \<noteq> ''.'' \<and> file \<noteq> ''..'' \<and> \<not> starts_with file ''.''"

definition is_restorable :: "string \<Rightarrow> bool" where
  "is_restorable name \<longleftrightarrow>
     name \<in> set backup_files \<or>
     (case strip_prefix ''profiles/'' name of Some file \<Rightarrow> is_profile_file file | None \<Rightarrow> False)"

definition split_path :: "string \<Rightarrow> string \<times> string" where
  "split_path path = (case rsplit_once CHR ''/'' path of None \<Rightarrow> ([], path) | Some (d, n) \<Rightarrow> (d @ ''/'', n))"

definition restore_sibling :: "string \<Rightarrow> sibling_names" where
  "restore_sibling tx path kind =
     (case split_path path of (d, n) \<Rightarrow> d @ ''.'' @ n @ ''.restore.'' @ tx @ ''.'' @ kind)"

section \<open>Checks of the files\<close>

definition validate_json_file :: "backup_env \<Rightarrow> string \<Rightarrow> string \<Rightarrow> (unit, sidecar_error) result" where
  "validate_json_file env name data =
     (if name \<notin> {''singbox-dns.json'', ''singbox-rules.json'', ''singbox-rule-sets.json''} then Ok ()
      else rbind (ok_or (io_parse (ae_io (bk_assemble env)) data) SidecarNotJson) (\<lambda>value.
        if name = ''singbox-dns.json'' then
          rbind (ok_or (ae_read_spec (bk_assemble env) value) SidecarSchema) (\<lambda>spec.
            map_err SidecarDns (validate_dns spec))
        else if name = ''singbox-rules.json'' then
          rbind (ok_or (as_array value) SidecarNotArray) (\<lambda>rules.
            check_all (\<lambda>(i, r). guard (is_some_and (from_singbox_json r) is_logical) (SidecarNotLogical i)) (enumerate 0 rules))
        else
          rbind (ok_or (as_array value) SidecarNotArray) (\<lambda>sets. map_err SidecarSets (validate_rule_sets sets))))"

text \<open>The secret keys are removed one after the other.\<close>

definition remove_key :: "string \<Rightarrow> ymapping \<times> bool \<Rightarrow> ymapping \<times> bool" where
  "remove_key k st = (case st of (m, changed) \<Rightarrow> (ymap_remove k m, changed \<or> ymap_get m k \<noteq> None))"

definition strip_secrets :: "backup_env \<Rightarrow> string \<Rightarrow> string \<Rightarrow> (string, backup_error) result" where
  "strip_secrets env name data =
     (case secret_keys name of
        None \<Rightarrow> Ok data
      | Some keys \<Rightarrow>
          rbind (ok_or (ae_mapping (bk_assemble env) data) (SecretsNotParsed name)) (\<lambda>m.
          let (m, changed) = fold remove_key keys (m, False) in
            if changed then ok_or (bk_print env m) (SecretsNotPrinted name) else Ok data))"

section \<open>Making a backup\<close>

definition backed_up_file :: "backup_env \<Rightarrow> bool \<Rightarrow> home \<Rightarrow> string \<Rightarrow> (string \<times> string, backup_error) result" where
  "backed_up_file env include_secrets home name =
     rbind (ok_or (if bk_readable env name then home name else None) (FileUnreadable name)) (\<lambda>data.
     rbind (map_err (SidecarNotBackedUp name) (validate_json_file env name data)) (\<lambda>_.
     rbind (if include_secrets then Ok data else strip_secrets env name data) (\<lambda>data.
       Ok (name, data))))"

definition backed_up_profile :: "backup_env \<Rightarrow> home \<Rightarrow> string \<Rightarrow> (string \<times> string, backup_error) result" where
  "backed_up_profile env home file =
     (let name = ''profiles/'' @ file in
      rbind (ok_or (if bk_readable env name then home name else None) (FileUnreadable name)) (\<lambda>data. Ok (name, data)))"

definition backup_entries :: "backup_env \<Rightarrow> bool \<Rightarrow> home \<Rightarrow> ((string \<times> string) list, backup_error) result" where
  "backup_entries env include_secrets home =
     rbind (traverse (backed_up_file env include_secrets home) (filter (\<lambda>n. home n \<noteq> None) backup_files)) (\<lambda>files.
     rbind (guard (''profiles.yaml'' \<in> set (map fst files)) NothingToBackUp) (\<lambda>_.
     rbind (case bk_listing env home of
              NoProfilesDir \<Rightarrow> Ok []
            | ProfilesUnlisted \<Rightarrow> Err ProfilesDirUnreadable
            | ProfileNames names \<Rightarrow> traverse (backed_up_profile env home) (sort names)) (\<lambda>profiles.
       Ok (files @ profiles))))"

definition manifest_json :: "string list \<Rightarrow> json" where
  "manifest_json names = mk_obj [(''format_version'', mk_nat backup_format_version), (''files'', mk_strs names)]"

record created =
  cr_path :: string
  cr_files :: nat
  cr_bytes :: nat

definition create ::
  "backup_env \<Rightarrow> bool \<Rightarrow> string \<Rightarrow> backup_world \<Rightarrow> (created, backup_error) result \<times> backup_world" where
  "create env include_secrets dest w =
     (case rbind (backup_entries env include_secrets (bw_home w)) (\<lambda>entries.
           let manifest = (manifest_file, io_print (ae_io (bk_assemble env)) (manifest_json (map fst entries))) in
           rbind (ok_or (bk_zip env (manifest # entries)) ZipFailed) (\<lambda>bytes.
           rbind (guard (bk_writable env dest) (ArchiveNotWritten dest)) (\<lambda>_. Ok (length entries, bytes)))) of
        Inl e \<Rightarrow> (Err e, w)
      | Inr (n, bytes) \<Rightarrow>
          (Ok \<lparr>cr_path = dest, cr_files = n, cr_bytes = length bytes\<rparr>, w\<lparr>bw_archives := (bw_archives w)(dest \<mapsto> bytes)\<rparr>))"

section \<open>Listing backups\<close>

record dir_entry =
  de_name :: string
  de_is_file :: bool
  de_bytes :: nat
  de_modified :: "int option"

text \<open>Newest first, then by name downwards; the sort is stable.\<close>

definition list_backups :: "dir_entry list \<Rightarrow> dir_entry list" where
  "list_backups entries =
     rev (sort_key (\<lambda>e. (de_modified e, de_name e)) (rev (filter (\<lambda>e. de_is_file e \<and> ends_with (de_name e) ''.zip'') entries)))"

section \<open>Reading an archive\<close>

definition parse_manifest :: "json \<Rightarrow> (nat \<times> string list) option" where
  "parse_manifest v =
     (let build = (\<lambda>version files.
            case (opt_filter (\<lambda>n. n < 2 ^ 32) (Option.bind version as_u64), Option.bind (Option.bind files as_array) (\<lambda>fs. those (map as_str fs))) of
              (Some n, Some fs) \<Rightarrow> Some (n, fs) | _ \<Rightarrow> None)
      in case v of
           JObj m \<Rightarrow> build (obj_get m ''format_version'') (obj_get m ''files'')
         | JArr [n, fs] \<Rightarrow> build (Some n) (Some fs)
         | _ \<Rightarrow> None)"

fun check_declared :: "string list \<Rightarrow> string list \<Rightarrow> (unit, backup_error) result" where
  "check_declared seen [] = Ok ()"
| "check_declared seen (f # fs) =
     (if \<not> is_restorable f \<or> f \<in> set seen then Err (ManifestEntryInvalid f) else check_declared (f # seen) fs)"

record scan =
  sc_files :: "(string \<times> string) list"
  sc_skipped :: "string list"
  sc_manifest :: "string list option"
  sc_unpacked :: nat

definition add_size :: "nat \<Rightarrow> nat \<Rightarrow> nat" where
  "add_size unpacked n = min (2 ^ 64 - 1) (unpacked + n)"

text \<open>The contents of an entry, counted against the limit before they are read.\<close>

definition read_entry :: "zip_entry \<Rightarrow> scan \<Rightarrow> (string \<times> scan, backup_error) result" where
  "read_entry e sc =
     (let unpacked = add_size (sc_unpacked sc) (ze_size e) in
      rbind (guard (unpacked \<le> max_unpacked_bytes) TooManyBytes) (\<lambda>_.
      rbind (ok_or (ze_data e) (EntryUnreadable (ze_name e))) (\<lambda>data.
        Ok (take max_unpacked_bytes data, sc\<lparr>sc_unpacked := unpacked\<rparr>))))"

definition scan_manifest :: "backup_env \<Rightarrow> zip_entry \<Rightarrow> scan \<Rightarrow> (scan, backup_error) result" where
  "scan_manifest env e sc =
     rbind (guard (sc_manifest sc = None) DuplicateManifest) (\<lambda>_.
     rbind (read_entry e sc) (\<lambda>(data, sc).
     rbind (ok_or (Option.bind (io_parse (ae_io (bk_assemble env)) data) parse_manifest) ManifestInvalid) (\<lambda>(version, files).
     rbind (guard (version = backup_format_version) (UnsupportedFormat version)) (\<lambda>_.
     rbind (check_declared [] files) (\<lambda>_.
       Ok (sc\<lparr>sc_manifest := Some files\<rparr>))))))"

definition scan_file :: "backup_env \<Rightarrow> zip_entry \<Rightarrow> scan \<Rightarrow> (scan, backup_error) result" where
  "scan_file env e sc =
     (let name = ze_name e in
      rbind (guard (name \<notin> set (map fst (sc_files sc))) (DuplicateEntry name)) (\<lambda>_.
      rbind (read_entry e sc) (\<lambda>(data, sc).
      rbind (guard (\<not> (ends_with name ''.yaml'' \<or> ends_with name ''.yml'') \<or> bk_value env data \<noteq> None) (EntryNotYaml name)) (\<lambda>_.
      rbind (map_err (SidecarInvalid name) (validate_json_file env name data)) (\<lambda>_.
        Ok (sc\<lparr>sc_files := sc_files sc @ [(name, data)]\<rparr>))))))"

fun scan_entries :: "backup_env \<Rightarrow> zip_entry option list \<Rightarrow> scan \<Rightarrow> (scan, backup_error) result" where
  "scan_entries env [] sc = Ok sc"
| "scan_entries env (None # es) sc = Err (EntryUnreadable [])"
| "scan_entries env (Some e # es) sc =
     (if ze_dir e then scan_entries env es sc
      else if ze_name e = manifest_file then rbind (scan_manifest env e sc) (scan_entries env es)
      else if \<not> is_restorable (ze_name e) then scan_entries env es (sc\<lparr>sc_skipped := sc_skipped sc @ [ze_name e]\<rparr>)
      else rbind (scan_file env e sc) (scan_entries env es))"

definition read_archive :: "backup_env \<Rightarrow> string \<Rightarrow> (scan, backup_error) result" where
  "read_archive env bytes =
     rbind (ok_or (bk_unzip env bytes) NotAZip) (\<lambda>entries.
     rbind (scan_entries env entries \<lparr>sc_files = [], sc_skipped = [], sc_manifest = None, sc_unpacked = 0\<rparr>) (\<lambda>sc.
     rbind (guard (''profiles.yaml'' \<in> set (map fst (sc_files sc))) ArchiveWithoutProfiles) (\<lambda>_.
     rbind (guard (case sc_manifest sc of None \<Rightarrow> True | Some declared \<Rightarrow> set declared = set (map fst (sc_files sc))) ManifestMismatch) (\<lambda>_.
       Ok sc))))"

section \<open>Restoring\<close>

definition keep_key :: "ymapping \<Rightarrow> string \<Rightarrow> ymapping \<times> bool \<Rightarrow> ymapping \<times> bool" where
  "keep_key local k st =
     (case st of (incoming, changed) \<Rightarrow>
        (case (ymap_get incoming k, ymap_get local k) of
           (None, Some v) \<Rightarrow> (ymap_put k v incoming, True)
         | _ \<Rightarrow> (incoming, changed)))"

definition keep_local_secrets :: "backup_env \<Rightarrow> home \<Rightarrow> string \<Rightarrow> string \<Rightarrow> (string, backup_error) result" where
  "keep_local_secrets env home name data =
     (case (secret_keys name, Option.bind (if bk_readable env name then home name else None) (ae_mapping (bk_assemble env))) of
        (Some keys, Some local) \<Rightarrow>
          rbind (ok_or (ae_mapping (bk_assemble env) data) (SecretsNotParsed name)) (\<lambda>incoming.
          let (m, changed) = fold (keep_key local) keys (incoming, False) in
            if changed then ok_or (bk_print env m) (SecretsNotPrinted name) else Ok data)
      | _ \<Rightarrow> Ok data)"

definition merge_local :: "backup_env \<Rightarrow> home \<Rightarrow> (string \<times> string) list \<Rightarrow> ((string \<times> string) list, backup_error) result" where
  "merge_local env home files =
     traverse (\<lambda>(name, data). rbind (keep_local_secrets env home name data) (\<lambda>data. Ok (name, data))) files"

definition save_previous :: "backup_env \<Rightarrow> backup_world \<Rightarrow> (string option, restore_error) result \<times> backup_world" where
  "save_previous env w =
     (if bw_home w ''profiles.yaml'' = None then (Ok None, w)
      else let path = ''pre-restore-'' @ bk_default_name env in
        case create env True path w of
          (Inl e, w) \<Rightarrow> (Err (PreviousNotSaved e), w)
        | (Inr _, w) \<Rightarrow> (Ok (Some path), w))"

record restored =
  rs_files :: "string list"
  rs_skipped :: "string list"
  rs_previous :: "string option"

text \<open>The files of an archive, checked and completed with the local secrets.\<close>

definition checked_archive :: "backup_env \<Rightarrow> string \<Rightarrow> backup_world \<Rightarrow> (scan \<times> (string \<times> string) list, backup_error) result" where
  "checked_archive env archive w =
     rbind (ok_or (bw_archives w archive) ArchiveUnreadable) (\<lambda>bytes.
     rbind (read_archive env bytes) (\<lambda>sc.
     rbind (merge_local env (bw_home w) (sc_files sc)) (\<lambda>files. Ok (sc, files))))"

definition restore :: "backup_env \<Rightarrow> string \<Rightarrow> backup_world \<Rightarrow> (restored, restore_error) result \<times> backup_world" where
  "restore env archive w =
     (case checked_archive env archive w of
        Inl e \<Rightarrow> (Err (ArchiveRejected e), w)
      | Inr (sc, files) \<Rightarrow>
          (case save_previous env w of
             (Inl e, w) \<Rightarrow> (Err e, w)
           | (Inr previous, w) \<Rightarrow>
               (case replace_all_using (bk_swap env) (restore_sibling (bk_transaction env)) files (bw_home w) of
                  (Inl e, home) \<Rightarrow> (Err (NotSwapped e), w\<lparr>bw_home := home\<rparr>)
                | (Inr _, home) \<Rightarrow>
                    (Ok \<lparr>rs_files = map fst files, rs_skipped = sc_skipped sc, rs_previous = previous\<rparr>, w\<lparr>bw_home := home\<rparr>))))"

text \<open>The archive the restore command means: a name of a local backup, or a path.\<close>

definition picked_archive :: "(string \<Rightarrow> bool) \<Rightarrow> string \<Rightarrow> string \<Rightarrow> string" where
  "picked_archive is_file backup_dir arg =
     (if is_backup_name arg \<and> is_file (backup_dir @ ''/'' @ arg) then backup_dir @ ''/'' @ arg else arg)"

section \<open>The names of the staging files\<close>

lemma restorable_split:
  assumes "is_restorable p"
  obtains d n where "split_path p = (d, n)" "p = d @ n" "d = [] \<or> d = ''profiles/''" "n \<noteq> []" "hd n \<noteq> CHR ''.''"
proof (cases "p \<in> set backup_files")
  case True
  then have "split_path p = ([], p)" "p \<noteq> []" "hd p \<noteq> CHR ''.''"
    by (auto simp: backup_files_def split_path_def rsplit_once_def)
  then show thesis using that [of "[]" p] by simp
next
  case False
  with assms obtain f where f: "p = ''profiles/'' @ f" "is_profile_file f"
    by (auto simp: is_restorable_def split: option.splits)
  then have "CHR ''/'' \<notin> set f" by (simp add: is_profile_file_def)
  then have "split_path p = (''profiles/'', f)"
    using rsplit_once_append [of "CHR ''/''" f "''profiles''"] f(1) by (simp add: split_path_def)
  moreover have "f \<noteq> []" "hd f \<noteq> CHR ''.''"
    using f(2) by (auto simp: is_profile_file_def starts_with_iff prefix_def neq_Nil_conv)
  ultimately show thesis using that [of "''profiles/''" f] f(1) by simp
qed

interpretation siblings: staging_names "restore_sibling tx" is_restorable
proof
  fix p q k l
  assume p: "is_restorable p" and q: "is_restorable q" and k: "k \<in> {''partial'', ''orig''}" and l: "l \<in> {''partial'', ''orig''}"
    and eq: "restore_sibling tx p k = restore_sibling tx q l"
  obtain d n where dn: "split_path p = (d, n)" "p = d @ n" "d = [] \<or> d = ''profiles/''"
    by (rule restorable_split [OF p])
  obtain e m where em: "split_path q = (e, m)" "q = e @ m" "e = [] \<or> e = ''profiles/''"
    by (rule restorable_split [OF q])
  have "d @ ''.'' @ n @ ''.restore.'' @ tx @ ''.'' @ k = e @ ''.'' @ m @ ''.restore.'' @ tx @ ''.'' @ l"
    using eq dn(1) em(1) by (simp add: restore_sibling_def)
  then have "d = e" "n @ ''.restore.'' @ tx @ ''.'' @ k = m @ ''.restore.'' @ tx @ ''.'' @ l" using dn(3) em(3) by auto
  moreover from this(2) have "last k = last l" using k l by (metis append_is_Nil_conv insert_iff last_appendR list.discI singletonD)
  then have "k = l" using k l by auto
  ultimately show "p = q \<and> k = l" using dn(2) em(2) by simp
next
  fix p k
  assume "is_restorable p"
  then obtain d n where "split_path p = (d, n)" "d = [] \<or> d = ''profiles/''" by (rule restorable_split)
  then show "\<not> is_restorable (restore_sibling tx p k)"
    by (auto simp: is_restorable_def restore_sibling_def backup_files_def is_profile_file_def starts_with_def split: option.splits)
qed

section \<open>What restoring changes\<close>

definition well_scanned :: "scan \<Rightarrow> bool" where
  "well_scanned sc \<longleftrightarrow> distinct (map fst (sc_files sc)) \<and> list_all is_restorable (map fst (sc_files sc))"

lemma read_entry_files: "read_entry e sc = Inr (data, sc') \<Longrightarrow> sc_files sc' = sc_files sc \<and> sc_manifest sc' = sc_manifest sc"
  by (auto simp: read_entry_def Let_def)

lemma scan_manifest_well: "scan_manifest env e sc = Inr sc' \<Longrightarrow> well_scanned sc \<Longrightarrow> well_scanned sc'"
  by (auto simp: scan_manifest_def well_scanned_def dest: read_entry_files)

lemma scan_file_files:
  "scan_file env e sc = Inr sc' \<Longrightarrow>
     ze_name e \<notin> set (map fst (sc_files sc)) \<and> (\<exists>data. sc_files sc' = sc_files sc @ [(ze_name e, data)])"
  by (auto simp: scan_file_def Let_def dest: read_entry_files)

lemma scan_file_well: "scan_file env e sc = Inr sc' \<Longrightarrow> is_restorable (ze_name e) \<Longrightarrow> well_scanned sc \<Longrightarrow> well_scanned sc'"
  by (drule scan_file_files) (auto simp: well_scanned_def)

lemma scan_entries_well: "scan_entries env es sc = Inr sc' \<Longrightarrow> well_scanned sc \<Longrightarrow> well_scanned sc'"
proof (induction env es sc rule: scan_entries.induct)
  case (3 env e es sc)
  have "well_scanned (sc\<lparr>sc_skipped := x\<rparr>) = well_scanned sc" for x by (simp add: well_scanned_def)
  then show ?case using 3 scan_manifest_well scan_file_well by (simp split: if_splits) blast+
qed simp_all

lemma read_archive_well:
  assumes "read_archive env bytes = Inr sc"
  shows "well_scanned sc" "''profiles.yaml'' \<in> set (map fst (sc_files sc))"
proof -
  from assms obtain es where es: "scan_entries env es \<lparr>sc_files = [], sc_skipped = [], sc_manifest = None, sc_unpacked = 0\<rparr> = Inr sc"
    "''profiles.yaml'' \<in> set (map fst (sc_files sc))" by (auto simp: read_archive_def)
  then show "well_scanned sc" "''profiles.yaml'' \<in> set (map fst (sc_files sc))"
    using scan_entries_well [OF es(1)] by (simp_all add: well_scanned_def)
qed

lemma merge_local_names: "merge_local env home files = Inr files' \<Longrightarrow> map fst files' = map fst files"
  by (induction files arbitrary: files') (auto simp: merge_local_def)

lemma checked_archive_names:
  assumes "checked_archive env archive w = Inr (sc, files)"
  shows "distinct (map fst files)" "list_all is_restorable (map fst files)" "map fst files = map fst (sc_files sc)"
proof -
  from assms obtain bytes where sc: "read_archive env bytes = Inr sc" "merge_local env (bw_home w) (sc_files sc) = Inr files"
    by (auto simp: checked_archive_def)
  show names: "map fst files = map fst (sc_files sc)" by (rule merge_local_names [OF sc(2)])
  show "distinct (map fst files)" "list_all is_restorable (map fst files)"
    using read_archive_well(1) [OF sc(1)] unfolding names by (simp_all add: well_scanned_def)
qed

lemma create_home: "create env include_secrets dest w = (r, w') \<Longrightarrow> bw_home w' = bw_home w"
  by (auto simp: create_def split: sum.splits)

lemma save_previous_home: "save_previous env w = (r, w') \<Longrightarrow> bw_home w' = bw_home w"
  by (auto simp: save_previous_def Let_def split: if_splits prod.splits sum.splits dest: create_home)

definition replaced :: "(restored, restore_error) result \<Rightarrow> bool" where
  "replaced r = (case r of Inr _ \<Rightarrow> True | Inl (NotSwapped e) \<Rightarrow> committed (Err e) | _ \<Rightarrow> False)"

definition left_out :: "(restored, restore_error) result \<Rightarrow> string list" where
  "left_out r = (case r of Inl (NotSwapped e) \<Rightarrow> stranded (Err e) | _ \<Rightarrow> [])"

definition staging_file :: "backup_env \<Rightarrow> string \<Rightarrow> bool" where
  "staging_file env q \<longleftrightarrow>
     (\<exists>p. is_restorable p \<and> q \<in> {restore_sibling (bk_transaction env) p ''partial'', restore_sibling (bk_transaction env) p ''orig''})"

text \<open>C37: restoring replaces all files of the archive or none, and no others: unless a rollback was incomplete, a
  failed restore leaves every file as it was, and a restore that replaced them leaves, for every path but those of
  its staging files, the content of the checked archive where it has the path and the old content elsewhere. Every
  path written is a known settings file or a plain file of the profiles directory, whatever names the archive
  holds.\<close>

theorem restore_all_or_nothing:
  assumes run: "restore env archive w = (r, w')"
    and fresh: "\<And>p. is_restorable p \<Longrightarrow> bw_home w (restore_sibling (bk_transaction env) p ''orig'') = None"
    and q: "\<not> staging_file env q" "q \<notin> set (left_out r)"
  shows "if replaced r then \<exists>sc files. checked_archive env archive w = Inr (sc, files) \<and>
        bw_home w' q = (case map_of files q of Some d \<Rightarrow> Some d | None \<Rightarrow> bw_home w q) \<and>
        (\<forall>(name, _) \<in> set files. is_restorable name)
      else bw_home w' q = bw_home w q"
proof (cases "checked_archive env archive w")
  case (Inl e)
  then show ?thesis using run by (auto simp: restore_def replaced_def)
next
  case (Inr c)
  obtain sc files where c: "checked_archive env archive w = Inr (sc, files)" using Inr by (cases c) auto
  note names = checked_archive_names [OF c]
  obtain p w1 where previous: "save_previous env w = (p, w1)" by force
  show ?thesis
  proof (cases p)
    case (Inl e)
    then show ?thesis
      using run c previous save_previous_home [OF previous]
      by (auto simp: restore_def replaced_def save_previous_def Let_def split: if_splits prod.splits sum.splits)
  next
    case (Inr u)
    obtain s home where swap: "replace_all_using (bk_swap env) (restore_sibling (bk_transaction env)) files (bw_home w) = (s, home)"
      by force
    then have r: "replaced r \<longleftrightarrow> committed s" "left_out r = stranded s" "bw_home w' = home"
      using run c previous Inr save_previous_home [OF previous]
      by (auto simp: restore_def replaced_def left_out_def committed_def stranded_def split: sum.splits)
    have all: "\<forall>p \<in> set (map fst files). is_restorable p" using names(2) by (simp only: list_all_iff)
    have "siblings.outcome (bk_transaction env) (bk_swap env) files (bw_home w) s home"
      using all fresh by (intro siblings.replace_all_outcome [OF swap names(1) all]) blast
    moreover have "\<not> siblings.staging (bk_transaction env) (set (map fst files)) q"
      using q(1) all by (auto simp: siblings.staging_def staging_file_def)
    ultimately show ?thesis using c all q(2) r by (auto simp: siblings.outcome_def)
  qed
qed

section \<open>A backup on another machine\<close>

text \<open>The entry of the archive for a file that was written.\<close>

definition plain_entry :: "string \<times> string \<Rightarrow> zip_entry option" where
  "plain_entry f = Some \<lparr>ze_name = fst f, ze_dir = False, ze_size = length (snd f), ze_data = Some (snd f)\<rparr>"

definition manifest_of :: "backup_env \<Rightarrow> (string \<times> string) list \<Rightarrow> string \<times> string" where
  "manifest_of env entries = (manifest_file, io_print (ae_io (bk_assemble env)) (manifest_json (map fst entries)))"

lemma create_Ok:
  assumes "create env include_secrets dest w = (Ok c, w')"
  obtains entries bytes where "backup_entries env include_secrets (bw_home w) = Inr entries"
    "bk_zip env (manifest_of env entries # entries) = Some bytes" "w' = w\<lparr>bw_archives := (bw_archives w)(dest \<mapsto> bytes)\<rparr>"
  using assms by (auto simp: create_def manifest_of_def Let_def split: sum.splits)

lemma parse_manifest_json: "parse_manifest (manifest_json names) = Some (backup_format_version, names)"
proof -
  have "those (map as_str (map JStr names)) = Some names" by (induction names) simp_all
  then show ?thesis
    by (simp add: parse_manifest_def manifest_json_def mk_obj_def obj_get_mk_fields mk_strs_def mk_nat_def backup_format_version_def
        opt_filter_def)
qed

lemma check_declared_ok:
  "list_all is_restorable names \<Longrightarrow> distinct names \<Longrightarrow> set names \<inter> set seen = {} \<Longrightarrow> check_declared seen names = Ok ()"
  by (induction names arbitrary: seen) auto

lemma manifest_not_restorable [simp]: "\<not> is_restorable manifest_file"
  by (simp add: is_restorable_def manifest_file_def backup_files_def)

lemma read_plain_entry:
  assumes "plain_entry (n, d) = Some e" "sc_unpacked sc + length d \<le> max_unpacked_bytes"
  shows "read_entry e sc = Ok (d, sc\<lparr>sc_unpacked := sc_unpacked sc + length d\<rparr>)"
  using assms by (auto simp: plain_entry_def read_entry_def add_size_def max_unpacked_bytes_def guard_def)

text \<open>A file that the reader of archives accepts.\<close>

definition acceptable :: "backup_env \<Rightarrow> string \<times> string \<Rightarrow> bool" where
  "acceptable env f \<longleftrightarrow>
     (case f of (n, d) \<Rightarrow> is_restorable n \<and> validate_json_file env n d = Ok () \<and>
        (ends_with n ''.yaml'' \<or> ends_with n ''.yml'' \<longrightarrow> bk_value env d \<noteq> None))"

lemma scan_plain_entries:
  assumes "list_all (acceptable env) es" "distinct (map fst (sc_files sc @ es))"
    and "sc_unpacked sc + sum_list (map (length \<circ> snd) es) \<le> max_unpacked_bytes"
  shows "scan_entries env (map plain_entry es) sc =
    Ok (sc\<lparr>sc_files := sc_files sc @ es, sc_unpacked := sc_unpacked sc + sum_list (map (length \<circ> snd) es)\<rparr>)"
  using assms
proof (induction es arbitrary: sc)
  case (Cons f es)
  obtain n d where f: "f = (n, d)" by (cases f)
  let ?sc = "sc\<lparr>sc_unpacked := sc_unpacked sc + length d, sc_files := sc_files sc @ [f]\<rparr>"
  obtain e where e: "plain_entry f = Some e" "ze_name e = n" "\<not> ze_dir e" by (simp add: plain_entry_def f)
  have ok: "is_restorable n" "validate_json_file env n d = Ok ()"
    "ends_with n ''.yaml'' \<or> ends_with n ''.yml'' \<longrightarrow> bk_value env d \<noteq> None"
    using Cons.prems(1) f by (auto simp: acceptable_def)
  have "n \<noteq> manifest_file" using ok(1) by auto
  moreover have "scan_file env e sc = Ok ?sc"
    using Cons.prems(2,3) ok e read_plain_entry [of n d e sc] f by (auto simp: scan_file_def guard_def)
  moreover have "scan_entries env (map plain_entry es) ?sc =
      Ok (?sc\<lparr>sc_files := sc_files ?sc @ es, sc_unpacked := sc_unpacked ?sc + sum_list (map (length \<circ> snd) es)\<rparr>)"
    using Cons.prems f by (intro Cons.IH) auto
  ultimately show ?case using e ok(1) f by (simp add: ac_simps comp_def)
qed simp

lemma scan_plain_manifest:
  assumes "io_parse (ae_io (bk_assemble env)) (snd (manifest_of env entries)) = Some (manifest_json (map fst entries))"
    and "list_all is_restorable (map fst entries)" "distinct (map fst entries)"
    and "length (snd (manifest_of env entries)) \<le> max_unpacked_bytes" "plain_entry (manifest_of env entries) = Some e"
  shows "scan_manifest env e \<lparr>sc_files = [], sc_skipped = [], sc_manifest = None, sc_unpacked = 0\<rparr> =
    Ok \<lparr>sc_files = [], sc_skipped = [], sc_manifest = Some (map fst entries), sc_unpacked = length (snd (manifest_of env entries))\<rparr>"
  using assms read_plain_entry [of manifest_file "snd (manifest_of env entries)" e
      "\<lparr>sc_files = [], sc_skipped = [], sc_manifest = None, sc_unpacked = 0\<rparr>"]
  by (simp add: scan_manifest_def guard_def parse_manifest_json check_declared_ok manifest_of_def)

lemma read_own_archive:
  assumes "bk_unzip env bytes = Some (map plain_entry (manifest_of env entries # entries))"
    and "io_parse (ae_io (bk_assemble env)) (snd (manifest_of env entries)) = Some (manifest_json (map fst entries))"
    and "list_all (acceptable env) entries" "distinct (map fst entries)" "''profiles.yaml'' \<in> set (map fst entries)"
    and "sum_list (map (length \<circ> snd) (manifest_of env entries # entries)) \<le> max_unpacked_bytes"
  shows "read_archive env bytes = Ok
    \<lparr>sc_files = entries, sc_skipped = [], sc_manifest = Some (map fst entries),
     sc_unpacked = sum_list (map (length \<circ> snd) (manifest_of env entries # entries))\<rparr>"
proof -
  let ?m = "manifest_of env entries"
  obtain e where e: "plain_entry ?m = Some e" "ze_name e = manifest_file" "\<not> ze_dir e"
    by (simp add: plain_entry_def manifest_of_def)
  have "list_all is_restorable (map fst entries)" using assms(3) by (auto simp: list_all_iff acceptable_def)
  then have "scan_manifest env e \<lparr>sc_files = [], sc_skipped = [], sc_manifest = None, sc_unpacked = 0\<rparr> =
      Ok \<lparr>sc_files = [], sc_skipped = [], sc_manifest = Some (map fst entries), sc_unpacked = length (snd ?m)\<rparr>"
    using assms(2,4,6) e(1) by (intro scan_plain_manifest) simp_all
  moreover have "scan_entries env (map plain_entry entries)
      \<lparr>sc_files = [], sc_skipped = [], sc_manifest = Some (map fst entries), sc_unpacked = length (snd ?m)\<rparr> =
      Ok \<lparr>sc_files = entries, sc_skipped = [], sc_manifest = Some (map fst entries),
        sc_unpacked = length (snd ?m) + sum_list (map (length \<circ> snd) entries)\<rparr>"
    using assms(3,4,6) by (subst scan_plain_entries) simp_all
  ultimately show ?thesis using assms(1,5) e by (simp add: read_archive_def guard_def)
qed

text \<open>What a backup holds.\<close>

lemma backed_up_file_names: "traverse (backed_up_file env include_secrets home) ns = Inr fs \<Longrightarrow> map fst fs = ns"
  by (induction ns arbitrary: fs) (auto simp: backed_up_file_def)

lemma backed_up_profile_names:
  "traverse (backed_up_profile env home) ns = Inr fs \<Longrightarrow> map fst fs = map (\<lambda>f. ''profiles/'' @ f) ns"
  by (induction ns arbitrary: fs) (auto simp: backed_up_profile_def Let_def)

lemma traverse_member: "traverse g ns = Inr fs \<Longrightarrow> f \<in> set fs \<Longrightarrow> \<exists>n \<in> set ns. g n = Inr f"
  by (induction ns arbitrary: fs) auto

lemma profile_path_restorable: "is_profile_file f \<Longrightarrow> is_restorable (''profiles/'' @ f)"
  by (simp add: is_restorable_def)

lemma settings_file_restorable: "n \<in> set backup_files \<Longrightarrow> is_restorable n"
  by (simp add: is_restorable_def)

lemma profile_path_not_settings: "''profiles/'' @ f \<notin> set backup_files"
  by (simp add: backup_files_def)

lemma backup_entries_split:
  assumes "backup_entries env include_secrets home = Inr entries"
  obtains files names profiles where "entries = files @ profiles"
    "traverse (backed_up_file env include_secrets home) (filter (\<lambda>n. home n \<noteq> None) backup_files) = Inr files"
    "traverse (backed_up_profile env home) (sort names) = Inr profiles" "''profiles.yaml'' \<in> set (map fst files)"
    "bk_listing env home = ProfileNames names \<or> names = []"
proof (cases "bk_listing env home")
  case NoProfilesDir
  with assms that [of entries "[]" "[]"] show thesis by (auto simp: backup_entries_def)
next
  case ProfilesUnlisted
  with assms show thesis by (auto simp: backup_entries_def)
next
  case (ProfileNames names)
  with assms obtain files profiles where "entries = files @ profiles"
      "traverse (backed_up_file env include_secrets home) (filter (\<lambda>n. home n \<noteq> None) backup_files) = Inr files"
      "traverse (backed_up_profile env home) (sort names) = Inr profiles" "''profiles.yaml'' \<in> set (map fst files)"
    by (auto simp: backup_entries_def)
  then show thesis using that [of files profiles names] ProfileNames by simp
qed

text \<open>No profile file is hidden.\<close>

definition plain_listing :: "profiles_dir \<Rightarrow> bool" where
  "plain_listing listing =
     (case listing of ProfileNames names \<Rightarrow> distinct names \<and> list_all is_profile_file names | _ \<Rightarrow> True)"

lemma backup_entries_names:
  assumes entries: "backup_entries env include_secrets home = Inr entries"
    and plain: "plain_listing (bk_listing env home)"
  shows "distinct (map fst entries)" "list_all is_restorable (map fst entries)" "''profiles.yaml'' \<in> set (map fst entries)"
proof -
  obtain files names profiles where e: "entries = files @ profiles"
      "traverse (backed_up_file env include_secrets home) (filter (\<lambda>n. home n \<noteq> None) backup_files) = Inr files"
      "traverse (backed_up_profile env home) (sort names) = Inr profiles" "''profiles.yaml'' \<in> set (map fst files)"
      "bk_listing env home = ProfileNames names \<or> names = []"
    by (rule backup_entries_split [OF entries])
  have all: "map fst entries = filter (\<lambda>n. home n \<noteq> None) backup_files @ map (\<lambda>f. ''profiles/'' @ f) (sort names)"
    using backed_up_file_names [OF e(2)] backed_up_profile_names [OF e(3)] e(1) by simp
  have names: "distinct names" "list_all is_profile_file names" using plain e(5) by (auto simp: plain_listing_def)
  have "distinct backup_files" by (simp add: backup_files_def)
  then show "distinct (map fst entries)"
    unfolding all using names(1) profile_path_not_settings by (auto simp: distinct_map inj_on_def)
  show "list_all is_restorable (map fst entries)"
    unfolding all using names(2) by (auto simp: list_all_iff profile_path_restorable [simplified] settings_file_restorable)
  show "''profiles.yaml'' \<in> set (map fst entries)" using e(1,4) by simp
qed

lemma validate_other: "secret_keys name \<noteq> None \<or> (\<exists>f. name = ''profiles/'' @ f) \<Longrightarrow> validate_json_file env name data = Ok ()"
  by (auto simp: validate_json_file_def secret_keys_def split: if_splits)

lemma backup_entries_valid:
  assumes entries: "backup_entries env include_secrets home = Inr entries" and f: "(n, d) \<in> set entries"
  shows "validate_json_file env n d = Ok ()"
proof -
  obtain files names profiles where e: "entries = files @ profiles"
      "traverse (backed_up_file env include_secrets home) (filter (\<lambda>n. home n \<noteq> None) backup_files) = Inr files"
      "traverse (backed_up_profile env home) (sort names) = Inr profiles"
    by (rule backup_entries_split [OF entries])
  from f e(1) consider "(n, d) \<in> set files" | "(n, d) \<in> set profiles" by auto
  then show ?thesis
  proof cases
    case 1
    then show ?thesis
      using traverse_member [OF e(2)] validate_other [of n env d]
      by (fastforce simp: backed_up_file_def strip_secrets_def split: if_splits option.splits)
  next
    case 2
    then show ?thesis
      using traverse_member [OF e(3)] validate_other [of n env d] by (fastforce simp: backed_up_profile_def Let_def)
  qed
qed

lemma merge_nothing: "merge_local env Map.empty files = Ok files"
proof -
  have "keep_local_secrets env Map.empty name data = Ok data" for name data
    by (simp add: keep_local_secrets_def split: option.splits)
  then show ?thesis by (induction files) (auto simp: merge_local_def)
qed

lemma fresh_restore:
  assumes archive: "bw_archives w archive = Some bytes" "bw_home w = Map.empty"
    and own: "bk_unzip env bytes = Some (map plain_entry (manifest_of env entries # entries))"
      "io_parse (ae_io (bk_assemble env)) (snd (manifest_of env entries)) = Some (manifest_json (map fst entries))"
      "list_all (acceptable env) entries" "distinct (map fst entries)" "''profiles.yaml'' \<in> set (map fst entries)"
      "sum_list (map (length \<circ> snd) (manifest_of env entries # entries)) \<le> max_unpacked_bytes"
    and allowed: "\<forall>p. sw_write (bk_swap env) p" "\<forall>p q. sw_rename (bk_swap env) p q" "\<forall>p. sw_remove (bk_swap env) p"
  shows "restore env archive w = (Ok \<lparr>rs_files = map fst entries, rs_skipped = [], rs_previous = None\<rparr>, w\<lparr>bw_home := map_of entries\<rparr>)"
proof -
  obtain sc where sc: "read_archive env bytes = Ok sc" "sc_files sc = entries" "sc_skipped sc = []"
    using read_own_archive [OF own] by simp
  then have checked: "checked_archive env archive w = Ok (sc, entries)"
    using archive merge_nothing by (simp add: checked_archive_def)
  have all: "\<forall>p \<in> set (map fst entries). is_restorable p" using own(3) by (auto simp: list_all_iff acceptable_def)
  note distinct = own(4)
  obtain r home where swap: "replace_all_using (bk_swap env) (restore_sibling (bk_transaction env)) entries Map.empty = (r, home)"
    by force
  then have r: "r = Inr ()" using siblings.replace_all_allowed [OF all distinct _ allowed, of Map.empty "bk_transaction env"] by simp
  have out: "siblings.outcome (bk_transaction env) (bk_swap env) entries Map.empty r home"
    using siblings.replace_all_outcome [OF swap distinct all] by simp
  have "home q = map_of entries q" for q
  proof (cases "siblings.staging (bk_transaction env) (set (map fst entries)) q")
    case True
    then have "\<not> is_restorable q" using all siblings.sib_fresh by (auto simp: siblings.staging_def)
    then have "map_of entries q = None" using all by (auto simp: map_of_eq_None_iff)
    moreover have "home q = None"
      using True allowed(3) r out by (auto simp: siblings.outcome_def siblings.staging_def stranded_def)
    ultimately show ?thesis by simp
  qed (use out in \<open>auto simp: siblings.outcome_def r committed_def split: option.splits\<close>)
  then have "home = map_of entries" by (intro ext)
  then show ?thesis using checked archive(2) swap r sc(3) by (simp add: restore_def save_previous_def)
qed

text \<open>C38: a backup made on one machine restores on another one without settings: the restore succeeds and the new
  configuration directory holds exactly the files of the backup. It is assumed that the archive and the manifest are
  read back as they were written, that no profile file is hidden, that the YAML files parse, that the contents stay
  under the limit, and that the file system allows every operation.\<close>

theorem backup_moves_to_new_machine:
  assumes "backup_entries env include_secrets (bw_home w) = Inr entries" "create env include_secrets dest w = (Ok c, w1)"
    and archive: "bw_home w2 = Map.empty" "bw_archives w2 dest = bw_archives w1 dest"
    and zip: "\<And>bytes. bk_zip env (manifest_of env entries # entries) = Some bytes \<Longrightarrow>
      bk_unzip env bytes = Some (map plain_entry (manifest_of env entries # entries))"
    and json: "io_parse (ae_io (bk_assemble env)) (snd (manifest_of env entries)) = Some (manifest_json (map fst entries))"
    and plain: "plain_listing (bk_listing env (bw_home w))"
    and yaml: "\<And>n d. (n, d) \<in> set entries \<Longrightarrow> ends_with n ''.yaml'' \<or> ends_with n ''.yml'' \<Longrightarrow> bk_value env d \<noteq> None"
    and small: "sum_list (map (length \<circ> snd) (manifest_of env entries # entries)) \<le> max_unpacked_bytes"
    and allowed: "\<forall>p. sw_write (bk_swap env) p" "\<forall>p q. sw_rename (bk_swap env) p q" "\<forall>p. sw_remove (bk_swap env) p"
  shows "restore env dest w2 = (Ok \<lparr>rs_files = map fst entries, rs_skipped = [], rs_previous = None\<rparr>, w2\<lparr>bw_home := map_of entries\<rparr>)"
proof -
  note names = backup_entries_names [OF assms(1) plain]
  obtain bytes where bytes: "bk_zip env (manifest_of env entries # entries) = Some bytes"
      "w1 = w\<lparr>bw_archives := (bw_archives w)(dest \<mapsto> bytes)\<rparr>"
    using create_Ok [OF assms(2)] assms(1) by (metis sum.inject(2))
  then have "bw_archives w2 dest = Some bytes" using archive(2) by simp
  moreover have "list_all (acceptable env) entries"
    using names(2) yaml backup_entries_valid [OF assms(1)] by (auto simp: list_all_iff acceptable_def)
  ultimately show ?thesis using archive(1) zip [OF bytes(1)] json names(1,3) small allowed by (intro fresh_restore)
qed

section \<open>Secrets\<close>

lemma remove_keys:
  assumes "fold remove_key keys (m, c) = (m', c')" "ymap_wf m"
  shows "ymap_get m' k = (if k \<in> set keys then None else ymap_get m k)" "\<not> c' \<Longrightarrow> j \<in> set keys \<Longrightarrow> ymap_get m j = None"
    "c \<Longrightarrow> c'"
proof -
  have "ymap_get m' k = (if k \<in> set keys then None else ymap_get m k) \<and>
      (c \<longrightarrow> c') \<and> (\<not> c' \<longrightarrow> j \<in> set keys \<longrightarrow> ymap_get m j = None)"
    using assms
  proof (induction keys arbitrary: m c)
    case (Cons x keys)
    have "remove_key x (m, c) = (ymap_remove x m, c \<or> ymap_get m x \<noteq> None)" by (simp add: remove_key_def)
    then have rest: "fold remove_key keys (ymap_remove x m, c \<or> ymap_get m x \<noteq> None) = (m', c')"
      using Cons.prems(1) by simp
    show ?case
      using Cons.IH [OF rest] Cons.prems(2) by (auto simp: ymap_get_remove split: if_splits)
  qed simp
  then show "ymap_get m' k = (if k \<in> set keys then None else ymap_get m k)" "\<not> c' \<Longrightarrow> j \<in> set keys \<Longrightarrow> ymap_get m j = None"
    "c \<Longrightarrow> c'" by auto
qed

lemma strip_secrets_result:
  assumes "strip_secrets env name data = Inr d" "secret_keys name = Some keys" "ae_mapping (bk_assemble env) data = Some m"
    and wf: "ymap_wf m"
    and print: "\<And>m s. bk_print env m = Some s \<Longrightarrow> ae_mapping (bk_assemble env) s = Some m"
  shows "\<exists>m'. ae_mapping (bk_assemble env) d = Some m' \<and> (\<forall>k. ymap_get m' k = (if k \<in> set keys then None else ymap_get m k))"
proof -
  obtain m' c where fold: "fold remove_key keys (m, False) = (m', c)" by force
  show ?thesis
  proof (cases c)
    case True
    then have "bk_print env m' = Some d" using assms(1-3) fold by (auto simp: strip_secrets_def)
    then show ?thesis using print remove_keys(1) [OF fold wf] by blast
  next
    case False
    then have "d = data" using assms(1-3) fold by (auto simp: strip_secrets_def)
    moreover have "ymap_get m k = None" if "k \<in> set keys" for k using remove_keys(2) [OF fold wf False that] .
    ultimately show ?thesis using assms(3) by auto
  qed
qed

text \<open>C39: a backup made without secrets holds none: in the archived config.yaml and verge.yaml the controller
  secret and the WebDAV credentials are absent, and every other setting has the value of the file. It is assumed that
  parsed mappings have distinct keys and that a printed mapping is read back.\<close>

theorem secrets_not_archived:
  assumes "backup_entries env False home = Inr entries" "(name, d) \<in> set entries" "secret_keys name = Some keys"
    and wf: "\<And>s m. ae_mapping (bk_assemble env) s = Some m \<Longrightarrow> ymap_wf m"
    and print: "\<And>m s. bk_print env m = Some s \<Longrightarrow> ae_mapping (bk_assemble env) s = Some m"
  shows "\<exists>data m m'. home name = Some data \<and> ae_mapping (bk_assemble env) data = Some m \<and>
    ae_mapping (bk_assemble env) d = Some m' \<and> (\<forall>k. ymap_get m' k = (if k \<in> set keys then None else ymap_get m k))"
proof -
  obtain files names profiles where e: "entries = files @ profiles"
      "traverse (backed_up_file env False home) (filter (\<lambda>n. home n \<noteq> None) backup_files) = Inr files"
      "traverse (backed_up_profile env home) (sort names) = Inr profiles"
    by (rule backup_entries_split [OF assms(1)])
  have "name \<in> {''config.yaml'', ''verge.yaml''}" using assms(3) by (auto simp: secret_keys_def split: if_splits)
  then have "(name, d) \<notin> set profiles" using traverse_member [OF e(3)] by (fastforce simp: backed_up_profile_def Let_def)
  then have "(name, d) \<in> set files" using assms(2) e(1) by simp
  from traverse_member [OF e(2) this] obtain n where "backed_up_file env False home n = Inr (name, d)" by blast
  then have "backed_up_file env False home name = Inr (name, d)" by (auto simp: backed_up_file_def split: if_splits)
  then obtain data where data: "home name = Some data" "strip_secrets env name data = Inr d"
    by (auto simp: backed_up_file_def split: if_splits)
  then obtain m where m: "ae_mapping (bk_assemble env) data = Some m" using assms(3) by (auto simp: strip_secrets_def)
  show ?thesis using strip_secrets_result [OF data(2) assms(3) m wf [OF m] print] data(1) m by blast
qed

lemma keep_keys:
  "fold (keep_key local) keys (m, c) = (m', c') \<Longrightarrow>
     (\<forall>k. ymap_get m' k = (case ymap_get m k of Some v \<Rightarrow> Some v | None \<Rightarrow> if k \<in> set keys then ymap_get local k else None)) \<and>
     (\<not> c' \<longrightarrow> m' = m \<and> \<not> c)"
proof (induction keys arbitrary: m c)
  case Nil
  then show ?case by (auto split: option.splits)
next
  case (Cons x keys)
  obtain m1 c1 where one: "keep_key local x (m, c) = (m1, c1)" by force
  then have rest: "fold (keep_key local) keys (m1, c1) = (m', c')" using Cons.prems by simp
  have "ymap_get m1 k = (case ymap_get m k of Some v \<Rightarrow> Some v | None \<Rightarrow> if k = x then ymap_get local k else None)" for k
    using one by (auto simp: keep_key_def ymap_get_put split: option.splits)
  moreover have "c1 \<or> m1 = m \<and> c1 = c" using one by (auto simp: keep_key_def split: option.splits)
  ultimately show ?case using Cons.IH [OF rest] by (auto split: option.splits)
qed

text \<open>The settings a restore writes: those of the archive, with the local secrets it does not carry.\<close>

lemma kept_secrets:
  assumes "keep_local_secrets env home name data = Inr d" "secret_keys name = Some keys" "bk_readable env name"
    and "home name = Some l" "ae_mapping (bk_assemble env) l = Some local"
    and print: "\<And>m s. bk_print env m = Some s \<Longrightarrow> ae_mapping (bk_assemble env) s = Some m"
  shows "\<exists>incoming m. ae_mapping (bk_assemble env) data = Some incoming \<and> ae_mapping (bk_assemble env) d = Some m \<and>
    (\<forall>k. ymap_get m k = (case ymap_get incoming k of Some v \<Rightarrow> Some v | None \<Rightarrow> if k \<in> set keys then ymap_get local k else None))"
proof -
  from assms(1-5) obtain incoming where incoming: "ae_mapping (bk_assemble env) data = Some incoming"
    by (auto simp: keep_local_secrets_def)
  obtain m c where fold: "fold (keep_key local) keys (incoming, False) = (m, c)" by force
  have "if c then bk_print env m = Some d else d = data"
    using assms(1-5) incoming fold by (auto simp: keep_local_secrets_def split: if_splits)
  then have "ae_mapping (bk_assemble env) d = Some m" using print incoming keep_keys [OF fold] by (auto split: if_splits)
  then show ?thesis using incoming keep_keys [OF fold] by blast
qed

section \<open>The other writers of the configuration directory\<close>

text \<open>The stored rule sets and DNS settings pass the check of a backup.\<close>

lemma saved_rule_sets_accepted:
  assumes "save_rule_sets (ae_io (bk_assemble env)) home sets = Inr home'"
    and "io_parse (ae_io (bk_assemble env)) (io_print (ae_io (bk_assemble env)) (JArr sets)) = Some (JArr sets)"
  shows "\<exists>body. home' ''singbox-rule-sets.json'' = Some body \<and> validate_json_file env ''singbox-rule-sets.json'' body = Ok ()"
  using assms
  by (auto simp: save_rule_sets_def atomic_write_def rule_sets_file_def validate_json_file_def split: if_splits)

lemma saved_dns_accepted:
  assumes "save_dns_spec (bk_assemble env) home spec = Inr home'"
    and "io_parse (ae_io (bk_assemble env)) (io_print (ae_io (bk_assemble env)) (ae_show_spec (bk_assemble env) spec)) =
      Some (ae_show_spec (bk_assemble env) spec)" "ae_read_spec (bk_assemble env) (ae_show_spec (bk_assemble env) spec) = Some spec"
  shows "\<exists>body. home' ''singbox-dns.json'' = Some body \<and> validate_json_file env ''singbox-dns.json'' body = Ok ()"
  using assms
  by (auto simp: save_dns_spec_def validate_dns_references_def atomic_write_def dns_config_file_def validate_json_file_def
      split: if_splits)

text \<open>The stored order of the rules does not: it is an object, and the check asks for an array.\<close>

lemma saved_order_rejected:
  assumes "save_rule_order (ae_io (bk_assemble env)) home order = Inr home'"
    and "\<And>vals. logical_rule_values (ro_logical order) = Inr vals \<Longrightarrow>
      io_parse (ae_io (bk_assemble env)) (io_print (ae_io (bk_assemble env)) (order_json order vals)) = Some (order_json order vals)"
  shows "\<exists>body. home' ''singbox-rules.json'' = Some body \<and> validate_json_file env ''singbox-rules.json'' body = Err SidecarNotArray"
  using assms
  by (auto simp: save_rule_order_def atomic_write_def logical_rules_file_def validate_json_file_def order_json_def mk_obj_def
      split: if_splits)

lemma traverse_fails: "n \<in> set ns \<Longrightarrow> g n = Inl e \<Longrightarrow> \<exists>e'. traverse g ns = Inl e'"
proof (induction ns)
  case (Cons m ns)
  then show ?case by (cases "g m"; cases "traverse g ns") auto
qed simp

lemma backup_refused:
  assumes "home name = Some body" "name \<in> set backup_files" "validate_json_file env name body = Inl e"
  shows "\<exists>e'. backup_entries env include_secrets home = Inl e'"
proof -
  obtain e1 where e1: "backed_up_file env include_secrets home name = Inl e1"
    using assms(1,3) by (cases "bk_readable env name") (simp_all add: backed_up_file_def)
  have "name \<in> set (filter (\<lambda>n. home n \<noteq> None) backup_files)" using assms(1,2) by simp
  from traverse_fails [where g = "backed_up_file env include_secrets home", OF this e1]
  obtain e' where "traverse (backed_up_file env include_secrets home) (filter (\<lambda>n. home n \<noteq> None) backup_files) = Inl e'" ..
  then show ?thesis by (simp add: backup_entries_def)
qed

text \<open>C40: once the order of the rules has been saved, no backup can be made, and no archive can be restored where
  there are profiles, since restoring first saves the current state: both fail and change nothing. It is assumed that
  the JSON the order is written as is read back.\<close>

theorem saved_rules_stop_backups:
  assumes "save_rule_order (ae_io (bk_assemble env)) home order = Inr home'" "bw_home w = home'"
    and "\<And>vals. logical_rule_values (ro_logical order) = Inr vals \<Longrightarrow>
      io_parse (ae_io (bk_assemble env)) (io_print (ae_io (bk_assemble env)) (order_json order vals)) = Some (order_json order vals)"
  shows "(\<exists>e. create env include_secrets dest w = (Err e, w)) \<and>
    (home' ''profiles.yaml'' \<noteq> None \<longrightarrow> (\<exists>e. restore env archive w = (Err e, w)))"
proof -
  obtain body where "home' ''singbox-rules.json'' = Some body"
      "validate_json_file env ''singbox-rules.json'' body = Err SidecarNotArray"
    using saved_order_rejected [OF assms(1,3)] by blast
  then have entries: "\<exists>e. backup_entries env inc (bw_home w) = Inl e" for inc
    using backup_refused [of home' "''singbox-rules.json''"] assms(2) by (simp add: backup_files_def)
  have refused: "\<exists>e. create env inc path w = (Err e, w)" for inc path
  proof -
    obtain e where "backup_entries env inc (bw_home w) = Inl e" using entries by blast
    then show ?thesis by (simp add: create_def)
  qed
  then obtain e where "create env True (''pre-restore-'' @ bk_default_name env) w = (Err e, w)" by blast
  then have "\<exists>e. restore env archive w = (Err e, w)" if "home' ''profiles.yaml'' \<noteq> None"
    using that assms(2) by (auto simp: restore_def save_previous_def Let_def split: sum.splits)
  then show ?thesis using refused by blast
qed

text \<open>A hidden file in the profiles directory, such as an original an interrupted restore left, is put into a backup
  that no restore accepts.\<close>

lemma check_declared_refuses: "f \<in> set fs \<Longrightarrow> \<not> is_restorable f \<Longrightarrow> \<exists>e. check_declared seen fs = Inl e"
  by (induction fs arbitrary: seen) auto

lemma left_original_is_hidden:
  assumes "is_restorable p"
  shows "\<not> is_restorable (restore_sibling tx p ''orig'')"
  using siblings.sib_fresh [OF assms] .

lemma hidden_file_spoils_backup:
  assumes "backup_entries env include_secrets (bw_home w) = Inr entries" "f \<in> set (map fst entries)" "\<not> is_restorable f"
    and "bk_unzip env bytes = Some (map plain_entry (manifest_of env entries # entries))"
    and "io_parse (ae_io (bk_assemble env)) (snd (manifest_of env entries)) = Some (manifest_json (map fst entries))"
    and "length (snd (manifest_of env entries)) \<le> max_unpacked_bytes"
  shows "\<exists>e. read_archive env bytes = Inl e"
proof -
  let ?s = "\<lparr>sc_files = [], sc_skipped = [], sc_manifest = None, sc_unpacked = 0\<rparr>"
  obtain e where e: "plain_entry (manifest_of env entries) = Some e" "ze_name e = manifest_file" "\<not> ze_dir e"
    by (simp add: plain_entry_def manifest_of_def)
  obtain e' where "check_declared [] (map fst entries) = Inl e'" using check_declared_refuses assms(2,3) by blast
  then have "scan_manifest env e ?s = Inl e'"
    using e(1) assms(5,6) read_plain_entry [of manifest_file "snd (manifest_of env entries)" e ?s]
    by (simp add: scan_manifest_def guard_def parse_manifest_json manifest_of_def)
  then show ?thesis using assms(4) e by (simp add: read_archive_def)
qed

text \<open>A failure to remove an original after the swap is reported as an error although every file was replaced: the
  result of such a restore is an error, and it counts as replaced.\<close>

lemma error_after_commit: "replaced (Err (NotSwapped (CommittedNotCleaned p)))"
  by (simp add: replaced_def committed_def)

section \<open>Witnesses\<close>

definition sample_archive :: "(string \<times> string) list" where
  "sample_archive = [(''config.yaml'', ''D''), (''profiles.yaml'', ''P''), (''profiles/A.yaml'', ''A'')]"

definition sample_settings :: home where
  "sample_settings = [''config.yaml'' \<mapsto> ''C'', ''profiles.yaml'' \<mapsto> ''P'', ''profiles/A.yaml'' \<mapsto> ''A'']"

definition sample_backup_env :: backup_env where
  "sample_backup_env =
     \<lparr>bk_assemble = plain_env\<lparr>
        ae_mapping := (\<lambda>s. if s = ''C'' then Some [(YStr ''secret'', YStr ''s''), (YStr ''mode'', YStr ''rule'')]
                        else if s = ''D'' then Some [(YStr ''mode'', YStr ''rule'')] else None),
        ae_io := single_document_io (manifest_json (map fst sample_archive))\<rparr>,
      bk_value = (\<lambda>_. Some YNull),
      bk_print = (\<lambda>m. if m = [(YStr ''mode'', YStr ''rule'')] then Some ''D'' else None),
      bk_zip = (\<lambda>_. Some ''Z''),
      bk_unzip = (\<lambda>_. Some (map plain_entry
        ((manifest_file, io_print (single_document_io (manifest_json (map fst sample_archive))) (manifest_json (map fst sample_archive)))
          # sample_archive))),
      bk_readable = (\<lambda>_. True), bk_listing = (\<lambda>_. ProfileNames [''A.yaml'']), bk_writable = (\<lambda>_. True),
      bk_swap = \<lparr>sw_write = (\<lambda>_. True), sw_torn = (\<lambda>_. None), sw_rename = (\<lambda>_ _. True), sw_undo = (\<lambda>_ _. True),
                 sw_remove = (\<lambda>_. True)\<rparr>,
      bk_transaction = ''1'', bk_default_name = ''linux-backup.zip''\<rparr>"

abbreviation other_machine :: backup_world where
  "other_machine \<equiv> \<lparr>bw_home = Map.empty, bw_archives = [''b'' \<mapsto> ''Z'']\<rparr>"

lemma sample_acceptable: "list_all (acceptable sample_backup_env) sample_archive"
  by (simp add: sample_archive_def acceptable_def is_restorable_def backup_files_def is_profile_file_def starts_with_def
      validate_json_file_def sample_backup_env_def)

lemma sample_manifest:
  "bk_unzip sample_backup_env bytes = Some (map plain_entry (manifest_of sample_backup_env sample_archive # sample_archive))"
  "io_parse (ae_io (bk_assemble sample_backup_env)) (snd (manifest_of sample_backup_env sample_archive)) =
     Some (manifest_json (map fst sample_archive))"
  "sum_list (map (length \<circ> snd) (manifest_of sample_backup_env sample_archive # sample_archive)) \<le> max_unpacked_bytes"
  by (simp_all add: sample_backup_env_def manifest_of_def single_document_io_def max_unpacked_bytes_def sample_archive_def)

lemma sample_swap:
  "sw_write (bk_swap sample_backup_env) p" "sw_rename (bk_swap sample_backup_env) p q" "sw_remove (bk_swap sample_backup_env) p"
  by (simp_all add: sample_backup_env_def)

lemma sample_restored:
  "restore sample_backup_env ''b'' other_machine =
     (Ok \<lparr>rs_files = map fst sample_archive, rs_skipped = [], rs_previous = None\<rparr>, other_machine\<lparr>bw_home := map_of sample_archive\<rparr>)"
  by (rule fresh_restore [OF _ _ sample_manifest(1,2) sample_acceptable _ _ sample_manifest(3), where bytes = "''Z''"])
     (simp_all add: sample_swap, simp_all add: sample_archive_def)

lemma not_staging_file: "is_restorable q \<Longrightarrow> \<not> staging_file env q"
  using siblings.sib_fresh [of _ "bk_transaction env"] by (auto simp: staging_file_def)

theorem restore_all_or_nothing_witness:
  "\<exists>sc files. checked_archive sample_backup_env ''b'' other_machine = Inr (sc, files) \<and>
     map_of sample_archive ''config.yaml'' = (case map_of files ''config.yaml'' of Some d \<Rightarrow> Some d | None \<Rightarrow> bw_home other_machine ''config.yaml'') \<and>
     (\<forall>(name, _) \<in> set files. is_restorable name)"
proof -
  have "is_restorable ''config.yaml''" by (simp add: is_restorable_def backup_files_def)
  then show ?thesis
    using restore_all_or_nothing [OF sample_restored, of "''config.yaml''"] not_staging_file
    by (simp add: replaced_def left_out_def)
qed

lemma sample_backup:
  "backup_entries sample_backup_env False sample_settings = Inr sample_archive"
  by (simp add: backup_entries_def backup_files_def sample_settings_def backed_up_file_def backed_up_profile_def
      strip_secrets_def secret_keys_def validate_json_file_def sample_backup_env_def sample_archive_def guard_def
      remove_key_def ymap_remove_def swap_remove_at_def)

abbreviation this_machine :: backup_world where
  "this_machine \<equiv> \<lparr>bw_home = sample_settings, bw_archives = Map.empty\<rparr>"

lemma sample_created:
  "create sample_backup_env False ''b'' this_machine =
     (Ok \<lparr>cr_path = ''b'', cr_files = 3, cr_bytes = 1\<rparr>, this_machine\<lparr>bw_archives := [''b'' \<mapsto> ''Z'']\<rparr>)"
proof -
  have "bk_zip sample_backup_env es = Some ''Z''" "bk_writable sample_backup_env p" for es p
    by (simp_all add: sample_backup_env_def)
  then show ?thesis by (simp add: create_def sample_backup guard_def Let_def) (simp add: sample_archive_def)
qed

theorem backup_moves_to_new_machine_witness:
  "restore sample_backup_env ''b'' other_machine =
     (Ok \<lparr>rs_files = [''config.yaml'', ''profiles.yaml'', ''profiles/A.yaml''], rs_skipped = [], rs_previous = None\<rparr>,
      other_machine\<lparr>bw_home := map_of sample_archive\<rparr>)"
proof -
  have "restore sample_backup_env ''b'' other_machine =
      (Ok \<lparr>rs_files = map fst sample_archive, rs_skipped = [], rs_previous = None\<rparr>, other_machine\<lparr>bw_home := map_of sample_archive\<rparr>)"
    by (rule backup_moves_to_new_machine [OF _ sample_created _ _ _ sample_manifest(2) _ _ sample_manifest(3)])
       (simp_all add: sample_backup sample_manifest(1) sample_swap,
        simp_all add: sample_backup_env_def plain_listing_def is_profile_file_def starts_with_def)
  then show ?thesis by (simp add: sample_archive_def)
qed

lemma sample_mappings:
  "ae_mapping (bk_assemble sample_backup_env) s =
     (if s = ''C'' then Some [(YStr ''secret'', YStr ''s''), (YStr ''mode'', YStr ''rule'')]
      else if s = ''D'' then Some [(YStr ''mode'', YStr ''rule'')] else None)"
  by (simp add: sample_backup_env_def)

theorem secrets_not_archived_witness:
  "\<exists>m'. ae_mapping (bk_assemble sample_backup_env) ''D'' = Some m' \<and> ymap_get m' ''secret'' = None \<and>
     ymap_get m' ''mode'' = Some (YStr ''rule'')"
proof -
  have "\<exists>data m m'. sample_settings ''config.yaml'' = Some data \<and> ae_mapping (bk_assemble sample_backup_env) data = Some m \<and>
      ae_mapping (bk_assemble sample_backup_env) ''D'' = Some m' \<and>
      (\<forall>k. ymap_get m' k = (if k \<in> set [''secret''] then None else ymap_get m k))"
  proof (rule secrets_not_archived [OF sample_backup])
    show "(''config.yaml'', ''D'') \<in> set sample_archive" by (simp add: sample_archive_def)
    show "secret_keys ''config.yaml'' = Some [''secret'']" by (simp add: secret_keys_def)
    show "ymap_wf m" if "ae_mapping (bk_assemble sample_backup_env) s = Some m" for s m
      using that by (auto simp: sample_mappings ymap_wf_def split: if_splits)
    show "ae_mapping (bk_assemble sample_backup_env) s = Some m" if "bk_print sample_backup_env m = Some s" for m s
      using that by (auto simp: sample_mappings) (auto simp: sample_backup_env_def split: if_splits)
  qed
  then show ?thesis by (auto simp: sample_settings_def sample_mappings)
qed

definition sample_rules_backup :: backup_env where
  "sample_rules_backup =
     sample_backup_env\<lparr>bk_assemble := plain_env\<lparr>ae_io := single_document_io (order_json sample_order [])\<rparr>\<rparr>"

theorem saved_rules_stop_backups_witness:
  "\<exists>home' e e'. save_rule_order (single_document_io (order_json sample_order [])) [''profiles.yaml'' \<mapsto> ''P''] sample_order = Inr home' \<and>
     create sample_rules_backup False ''b'' \<lparr>bw_home = home', bw_archives = Map.empty\<rparr> =
       (Err e, \<lparr>bw_home = home', bw_archives = Map.empty\<rparr>) \<and>
     restore sample_rules_backup ''a'' \<lparr>bw_home = home', bw_archives = Map.empty\<rparr> =
       (Err e', \<lparr>bw_home = home', bw_archives = Map.empty\<rparr>)"
proof -
  let ?io = "single_document_io (order_json sample_order [])"
  have io: "ae_io (bk_assemble sample_rules_backup) = ?io" by (simp add: sample_rules_backup_def)
  obtain home' where saved: "save_rule_order ?io [''profiles.yaml'' \<mapsto> ''P''] sample_order = Inr home'"
      "home' ''profiles.yaml'' = Some ''P''"
    by (simp add: save_rule_order_def sample_order_def logical_rule_values_def check_entry_def validate_rule_set_references_def
        load_rule_sets_def rule_sets_file_def validate_rule_set_references_against_def atomic_write_def single_document_io_def
        logical_rules_file_def)
  have "io_parse ?io (io_print ?io (order_json sample_order vals)) = Some (order_json sample_order vals)"
    if "logical_rule_values (ro_logical sample_order) = Inr vals" for vals
    using that by (simp add: single_document_io_def sample_order_def logical_rule_values_def)
  then show ?thesis
    using saved_rules_stop_backups [of sample_rules_backup "[''profiles.yaml'' \<mapsto> ''P'']" sample_order home'
        "\<lparr>bw_home = home', bw_archives = Map.empty\<rparr>" False "''b''" "''a''"] saved unfolding io by auto
qed

section \<open>Names and the list\<close>

text \<open>A backup name has no directory part.\<close>

lemma backup_name_plain:
  assumes "is_backup_name name"
  shows "CHR ''/'' \<notin> set name" "name \<noteq> ''.''" "name \<noteq> ''..''" "name \<noteq> []"
proof -
  show "CHR ''/'' \<notin> set name" using assms by (auto simp: is_backup_name_def list_all_iff is_ascii_upper_def is_ascii_lower_def)
  show "name \<noteq> ''.''" "name \<noteq> ''..''" "name \<noteq> []"
    using assms by (auto simp: is_backup_name_def ends_with_def starts_with_def)
qed

lemma list_backups_newest_first:
  "sorted_wrt (\<lambda>a b. (de_modified a, de_name a) \<ge> (de_modified b, de_name b)) (list_backups entries)"
proof -
  have "sorted_wrt (\<le>) (map (\<lambda>e. (de_modified e, de_name e)) (sort_key (\<lambda>e. (de_modified e, de_name e)) xs))" for xs
    using sorted_sort_key [of "\<lambda>e. (de_modified e, de_name e)" xs] by simp
  then show ?thesis by (simp add: list_backups_def sorted_wrt_map sorted_wrt_rev)
qed

lemma set_list_backups: "set (list_backups entries) = {e \<in> set entries. de_is_file e \<and> ends_with (de_name e) ''.zip''}"
  by (simp add: list_backups_def)

end
