(* ===== verification/Spec2Isabelle.thy ===== *)
theory Spec2Isabelle
  imports Switch Pipeline Scheduler Profile_Switch Core_Update Rule_Editor Backup
begin

text \<open>
  Verification development for clash-verge-cli, a terminal client that runs one of two proxy cores
  (mihomo or sing-box) from clash profiles. Paths below are under \<open>src-tui/src/\<close> unless they start with
  \<open>crates/\<close>.

  \<^bold>\<open>The program and its parts.\<close> A profile is a clash YAML document or a native sing-box JSON document.
  Its enhancement fragments are applied first (\<open>chain.rs\<close>, \<open>runtime_config.rs\<close>), under a control plane
  the application owns (\<open>enhance/mod.rs\<close>, \<open>crates/clash-verge-core/src/config/clash.rs\<close>). For mihomo the
  result is written as it is; for sing-box it is converted: nodes and groups (\<open>singbox/convert.rs\<close>),
  route rules (\<open>routing.rs\<close>) in the order the user stored (\<open>singbox/mod.rs\<close>), DNS (\<open>singbox/dns.rs\<close>),
  all assembled by the manager (\<open>mihomo_manager/manager.rs\<close>) and generated and guarded by
  \<open>singbox/config_gen.rs\<close> against a matrix of capabilities (\<open>singbox/capabilities.rs\<close>). The manager spawns
  the core, a watcher restarts it after a crash, and transactions replace its configuration or switch
  to the other core, restoring files and core when they fail. Profiles are kept in a store
  (\<open>crates/clash-verge-core/src/config/profiles.rs\<close>) and fetched and refreshed from subscriptions (\<open>subscribe/\<close>); core
  binaries are found, downloaded, verified and installed by \<open>mihomo_manager/binary.rs\<close>, on request of a guided
  operation of the terminal interface (\<open>tui/handlers/core_update.rs\<close>). The rules of a profile are edited in
  \<open>tui/handlers/rules.rs\<close>, and the whole configuration directory is backed up by \<open>services/backup.rs\<close>.

  \<^bold>\<open>Theories.\<close>
  \<^item> \<open>Prelude\<close>, \<open>Rust_Str\<close>, \<open>Rust_Ip\<close>, \<open>Json\<close>, \<open>Yaml\<close>: results, strings (UTF-8 bytes), addresses and the two
    document types. The locales \<open>keyed_store\<close> and \<open>removable_store\<close> state what the code relies on of a
    map; they are interpreted on JSON objects and YAML mappings.
  \<^item> \<open>Capabilities\<close>, \<open>Geo_Names\<close>, \<open>Geo\<close>: \<open>capabilities.rs\<close>, the published geo names, rule-providers and
    geo rule-sets of \<open>convert.rs\<close>.
  \<^item> \<open>Routing\<close>: \<open>routing.rs\<close>; round trips of the two rule formats.
  \<^item> \<open>Convert_Node\<close>, \<open>Convert_Profile\<close>: \<open>convert.rs\<close>. The fixpoint over groups returns and computes the
    inductive set of grounded groups; an emitted group has exactly the members of its declaration that are left, and the
    only dangling ones are misspelled built-in policies; TLS, UDP and credentials of a node survive; every loss is reported.
  \<^item> \<open>References\<close>, \<open>Config_Gen\<close>: \<open>config_gen.rs\<close>. The reference checks accept exactly the closed documents
    at every nesting depth; generation succeeds exactly on acceptable inputs; generated and native
    documents pass the control plane guard.
  \<^item> \<open>Rule_Order\<close>: the sidecar files and the interleaving of \<open>singbox/mod.rs\<close>.
  \<^item> \<open>Dns\<close>: \<open>dns.rs\<close>; what the conversion may fail on, bootstrap of every named server, the default server.
  \<^item> \<open>Assemble\<close>: \<open>SingboxParts::assemble\<close>, \<open>merge_rule_sets\<close>, \<open>write_singbox_assembled_to\<close> and the
    native sidecars of \<open>manager.rs\<close>; each slot of the route section is the translation of the rule at its place.
  \<^item> \<open>Clash_Config\<close>, \<open>Enhance\<close>: \<open>IClashTemp\<close> with its guards, TUN and DNS preparation, the rotation of a
    weak controller secret.
  \<^item> \<open>Chain\<close>, \<open>Compose\<close>: profile items, fragments, deep merges, dialer chains; the composition of a profile
    and the proof that no fragment or script takes over the control plane.
  \<^item> \<open>Lifecycle\<close>: \<open>ManagerInner\<close>, spawning, \<open>stop\<close>, the watcher and the restart policy as a step relation
    over interleaved tasks, with invariants by rule induction over its runs. An \<open>await\<close> between two changes of the state
    is a task of its own: the signal of \<open>stop\<close>, the release of the desktop proxy after a stop and before the watcher reports
    a failure, the pause before a restart.
  \<^item> \<open>Apply\<close>: \<open>RuntimeCandidate\<close>, the restart authorisation, \<open>apply_singbox_restart_for_profile\<close> with its
    recovery, and the loss report of \<open>runtime_config.rs\<close>. The contract covers owned, foreign and stopped cores.
  \<^item> \<open>Switch\<close>: the selection of a core while none runs and the guided switch of \<open>manager.rs\<close>; the locale
    \<open>restorable\<close> states what a transaction relies on of a snapshot of files.
  \<^item> \<open>Pipeline\<close>: the conversion of a clash profile end to end, composed from the theories above: what the
    conversions emit passes the final checks exactly when names are unique, built-in policies are spelled in a form that
    names an outbound and the secret is set; then a document is written.
  \<^item> \<open>Subscribe\<close>: \<open>subscribe/ssrf.rs\<close>, \<open>fetch.rs\<close>, \<open>from_url.rs\<close>, \<open>timer.rs\<close> and the profile item
    (\<open>crates/clash-verge-core/src/config/prfitem.rs\<close>). The host check accepts exactly the public hosts; the URL that is
    requested is the one that was checked, and its answer is what is stored.
  \<^item> \<open>Profiles\<close>: \<open>profiles.rs\<close> and \<open>profile_store/store.rs\<close>; the locale \<open>store_invariant\<close> states what an operation of
    the store keeps, and is interpreted for the files inside the directory and for the current profile.
  \<^item> \<open>Scheduler\<close>: \<open>subscribe/scheduler.rs\<close> and \<open>lifecycle.rs\<close>: forced refreshes are rare, and leave the old
    profile or one that a running core confirmed to offer the exit, as far as the disk takes the writes.
  \<^item> \<open>Proxies\<close>: \<open>services/proxy.rs\<close>: the leaves of groups, the providers of delay targets and the request
    scheduler, which answers each target once.
  \<^item> \<open>Profile_Switch\<close>: \<open>services/profile.rs\<close>, the DNS preference of \<open>verge.rs\<close> and the transaction
    \<open>commit_runtime_config\<close>. A reload is answered with a rejection, an acceptance, or an acceptance after which the core
    does not answer: then the new document may be the one that is served although the file was restored.
  \<^item> \<open>Core_Policy\<close>, \<open>Rust_Text\<close>, \<open>Release_Digest\<close>: \<open>core_policy.rs\<close> (semantic versions; the locale \<open>comparison\<close> states
    the laws of a lexicographic comparison) and the release metadata of \<open>subscribe/client_meta.rs\<close>.
  \<^item> \<open>Core_Binary\<close>, \<open>Core_Install\<close>: \<open>binary.rs\<close> and \<open>singbox_binary.rs\<close>: which core is offered, what was verified, and
    that an installation is atomic.
  \<^item> \<open>Core_Update\<close>: the guided operations as a system of tasks and events; their tasks run only as far as the user
    confirmed, and a cancelled operation gets no new one. What resolves a core outside of them is not part of this system.
  \<^item> \<open>Rule_Editor\<close>: \<open>tui/handlers/rules.rs\<close> with the prompts of \<open>tui/event_loop.rs\<close>: the editor shows the order the generator
    emits, and what is saved loads again when the rules of the chain stand in front.
  \<^item> \<open>File_Swap\<close>, \<open>Backup\<close>: \<open>services/backup.rs\<close>. The locale \<open>staging_names\<close> states what the replacement of files
    relies on of the names of its staging files; a restore is all or nothing, a backup round trips and keeps secrets out.

  \<^bold>\<open>Correspondence.\<close> A definition has the name of the function it models; a long function is split at its
  statements, and the parts are composed by the definition with its name. Structs are records, enums
  datatypes, fallible functions return \<open>Inl\<close> of an error or \<open>Inr\<close>. Messages that carry data are
  constructors of an error or note type, except where the text itself is state. Hash maps are maps, \<open>BTreeMap\<close>s association
  lists in key order, YAML mappings association lists in insertion order. Ports, pids, generations and
  hashes are words of their width; line numbers and lengths are unbounded.

  \<^bold>\<open>Bounds and loops.\<close> Recursion is structural or has a measure; the search for a new exit in \<open>Scheduler\<close> is a
  \<open>function\<close> whose measure is the groups not yet visited. The loop over groups is a \<open>while_option\<close> that is proved to
  return. Waiting for the install lock is one poll per call, which gives \<open>None\<close> while another process holds it.
  Operations of the profile store are serialised by one lock, so each is one step. In \<open>Lifecycle\<close> time is the nanoseconds of a clock that does
  not go back during a run; nothing else bounds a run.

  \<^bold>\<open>Parameters.\<close> Code outside the repository is an argument: the YAML and JSON text formats, URL and regular
  expression parsing, the JavaScript engine, the standard hasher and SHA-256, tar, gzip and zip archives, UUIDs, the
  clock, random bytes, the answers of the programs that are run. What the code
  relies on of them is a named hypothesis where a property needs it. The outcome of an operation of the
  system (a file operation, a process, a request, a probe) is an input of the call that performs it.

  \<^bold>\<open>Not modelled.\<close> Recognising processes through \<open>/proc\<close>, signals, setting capabilities and the privilege escalation
  itself, the system proxy and services of the desktop, the HTTP clients of the cores, WebDAV and unlock tests, most of
  \<open>verge.yaml\<close>, the command line and the pages of the terminal interface other than the guided operations and the
  rule editor: their effect is input and output that the kernel cannot check, or they only call what is modelled.
  Of modelled parts, the cleanup of a failed supervisor launch, the identity check of providers when a
  selection is applied again, and the removal of orphaned profile files are left out.
\<close>

end
